(* ===== verification/Prelude.thy ===== *)
theory Prelude
  imports Main "HOL-Library.Word" "HOL-Library.List_Lexorder" "HOL-Library.Char_ord"
    "HOL-Library.Multiset"
begin

text \<open>
  Shared vocabulary of the development: the Go integer widths, the result type every
  fallible function returns, loops with an early return (\<open>fold_res\<close>), and the model of
  \<open>sort.Slice\<close> / \<open>slices.SortFunc\<close> with the contract its callers rely on as a locale.
\<close>

section \<open>Types\<close>

type_synonym u8 = "8 word"
type_synonym u32 = "32 word"
type_synonym u64 = "64 word"

text \<open>A Go string or byte slice is a list of bytes.\<close>

type_synonym bytes = string

text \<open>A \<open>time.Time\<close> is its instant: nanoseconds since the Unix epoch.\<close>

type_synonym instant = int

text \<open>\<open>time.Time{}\<close>, the first of January of year 1 UTC, what \<open>IsZero\<close> tests for.\<close>

definition zero_instant :: instant where
  "zero_instant = - 62135596800000000000"

named_theorems bytes_simps \<open>evaluation of the byte and string routines\<close>
named_theorems plan_simps \<open>unfolding of the retention planner\<close>
named_theorems gate_simps \<open>unfolding of the gate operations\<close>
named_theorems valid_simps \<open>unfolding of the metadata validators\<close>

section \<open>Results: a value or an error\<close>

text \<open>\<open>Inl e\<close> is a returned Go error, \<open>Inr x\<close> the value with a nil error.\<close>

fun res_bind :: "'e + 'a \<Rightarrow> ('a \<Rightarrow> 'e + 'b) \<Rightarrow> 'e + 'b" where
  "res_bind (Inl e) f = Inl e"
| "res_bind (Inr x) f = f x"

definition guard :: "bool \<Rightarrow> 'e \<Rightarrow> 'e + unit" where
  "guard ok e = (if ok then Inr () else Inl e)"

text \<open>A \<open>for ... range\<close> loop over a slice whose body may return an error.\<close>

fun fold_res :: "('a \<Rightarrow> 's \<Rightarrow> 'e + 's) \<Rightarrow> 'a list \<Rightarrow> 's \<Rightarrow> 'e + 's" where
  "fold_res f [] s = Inr s"
| "fold_res f (x # xs) s = res_bind (f x s) (fold_res f xs)"

lemma guard_Inr [simp]: "guard ok e = Inr u \<longleftrightarrow> ok"
  by (simp add: guard_def)

lemma guard_Inl [simp]: "guard ok e = Inl e' \<longleftrightarrow> \<not> ok \<and> e' = e"
  by (auto simp: guard_def)

lemma res_bind_Inr [simp]: "res_bind r f = Inr y \<longleftrightarrow> (\<exists>x. r = Inr x \<and> f x = Inr y)"
  by (cases r) auto

lemma res_bind_Inl: "res_bind r f = Inl e \<longleftrightarrow> r = Inl e \<or> (\<exists>x. r = Inr x \<and> f x = Inl e)"
  by (cases r) auto

lemma res_bind_guard: "res_bind (guard ok e) f = (if ok then f () else Inl e)"
  by (simp add: guard_def)

lemma fold_res_append:
  "fold_res f (xs @ ys) s = res_bind (fold_res f xs s) (fold_res f ys)"
proof (induction xs arbitrary: s)
  case (Cons x xs)
  then show ?case by (cases "f x s") auto
qed simp

text \<open>The two induction principles the loop proofs use: an invariant of the state, and a
  fact established by the iteration for \<open>x\<close> and kept by the later ones.\<close>

lemma fold_res_invariant:
  assumes "fold_res f xs s = Inr s'" and "I s"
    and "\<And>x s s'. x \<in> set xs \<Longrightarrow> f x s = Inr s' \<Longrightarrow> I s \<Longrightarrow> I s'"
  shows "I s'"
  using assms
proof (induction xs arbitrary: s)
  case (Cons x xs)
  then obtain s1 where s1: "f x s = Inr s1" "fold_res f xs s1 = Inr s'" by auto
  moreover have "I s1" using Cons.prems(2,3) s1(1) by auto
  ultimately show ?case using Cons.prems(3) by (auto intro: Cons.IH)
qed simp

lemma fold_res_establish:
  assumes "fold_res f xs s = Inr s'" and "x \<in> set xs"
    and est: "\<And>s s'. f x s = Inr s' \<Longrightarrow> Q s'"
    and keep: "\<And>y s s'. y \<in> set xs \<Longrightarrow> f y s = Inr s' \<Longrightarrow> Q s \<Longrightarrow> Q s'"
  shows "Q s'"
proof -
  obtain ys zs where xs: "xs = ys @ x # zs" using assms(2) by (meson split_list)
  with assms(1) obtain s1 s2 where
    s2: "f x s1 = Inr s2" and rest: "fold_res f zs s2 = Inr s'"
    by (auto simp: fold_res_append)
  from rest est[OF s2] show ?thesis
    by (rule fold_res_invariant) (auto simp: xs intro: keep)
qed

lemma fold_res_elem:
  "fold_res f xs s = Inr s' \<Longrightarrow> x \<in> set xs \<Longrightarrow> \<exists>s1 s2. f x s1 = Inr s2"
  by (induction xs arbitrary: s) auto

lemma fold_res_total:
  assumes "\<And>x s. x \<in> set xs \<Longrightarrow> I s \<Longrightarrow> \<exists>s'. f x s = Inr s' \<and> I s'" and "I s"
  shows "\<exists>s'. fold_res f xs s = Inr s' \<and> I s'"
  using assms
proof (induction xs arbitrary: s)
  case (Cons x xs)
  then obtain s1 where "f x s = Inr s1" "I s1" by force
  with Cons show ?case by force
qed simp

lemma fold_res_never:
  assumes "fold_res f xs s = Inl e" and "\<And>x s. x \<in> set xs \<Longrightarrow> I s \<Longrightarrow> f x s \<noteq> Inl e"
    and "\<And>x s s'. x \<in> set xs \<Longrightarrow> I s \<Longrightarrow> f x s = Inr s' \<Longrightarrow> I s'" and "I s"
  shows False
  using assms
proof (induction xs arbitrary: s)
  case Nil
  from Nil.prems(1) show ?case by simp
next
  case (Cons x xs)
  have "f x s \<noteq> Inl e" using Cons.prems(2,4) by simp
  with Cons.prems(1) obtain s1 where s1: "f x s = Inr s1" "fold_res f xs s1 = Inl e"
    by (auto simp: res_bind_Inl)
  have "I s1" using Cons.prems(3)[of x s s1] Cons.prems(4) s1(1) by simp
  then show ?case
    using Cons.IH[OF s1(2)] Cons.prems(2,3) by (meson list.set_intros(2))
qed

section \<open>Sorting\<close>

text \<open>
  \<open>sort.Slice\<close> returns a permutation sorted by the callback. The callers' orders are
  total on the elements they sort, so the result is determined; it is computed here by
  insertion.
\<close>

fun insert_by :: "('a \<Rightarrow> 'a \<Rightarrow> bool) \<Rightarrow> 'a \<Rightarrow> 'a list \<Rightarrow> 'a list" where
  "insert_by lt x [] = [x]"
| "insert_by lt x (y # ys) = (if lt y x then y # insert_by lt x ys else x # y # ys)"

definition sort_slice :: "('a \<Rightarrow> 'a \<Rightarrow> bool) \<Rightarrow> 'a list \<Rightarrow> 'a list" where
  "sort_slice lt xs = foldr (insert_by lt) xs []"

lemma mset_insert_by [simp]: "mset (insert_by lt x ys) = add_mset x (mset ys)"
  by (induction ys) auto

lemma mset_sort_slice [simp]: "mset (sort_slice lt xs) = mset xs"
  by (induction xs) (auto simp: sort_slice_def)

lemma set_sort_slice [simp]: "set (sort_slice lt xs) = set xs"
  by (metis mset_sort_slice set_mset_mset)

lemma length_sort_slice [simp]: "length (sort_slice lt xs) = length xs"
  by (metis mset_sort_slice size_mset)

lemma distinct_sort_slice [simp]: "distinct (sort_slice lt xs) = distinct xs"
  by (metis mset_sort_slice mset_eq_imp_distinct_iff)

lemma sort_slice_Nil [simp]: "sort_slice lt [] = []"
  by (simp add: sort_slice_def)

lemma sort_slice_eq_Nil [simp]: "sort_slice lt xs = [] \<longleftrightarrow> xs = []"
  by (metis length_0_conv length_sort_slice)

text \<open>The contract of a sort callback: a strict weak order.\<close>

locale slice_order =
  fixes lt :: "'a \<Rightarrow> 'a \<Rightarrow> bool"
  assumes lt_asym: "lt x y \<Longrightarrow> \<not> lt y x"
    and lt_negtrans: "lt x z \<Longrightarrow> lt x y \<or> lt y z"
begin

lemma lt_irrefl: "\<not> lt x x"
  using lt_asym by blast

lemma lt_trans: "lt x y \<Longrightarrow> lt y z \<Longrightarrow> lt x z"
  using lt_negtrans lt_asym by blast

lemma not_lt_trans: "\<not> lt y x \<Longrightarrow> \<not> lt z y \<Longrightarrow> \<not> lt z x"
  using lt_negtrans by blast

lemma sorted_insert_by:
  "sorted_wrt (\<lambda>a b. \<not> lt b a) ys \<Longrightarrow> sorted_wrt (\<lambda>a b. \<not> lt b a) (insert_by lt x ys)"
proof (induction ys)
  case (Cons y ys)
  have elems: "set (insert_by lt x ys) = insert x (set ys)"
    by (metis mset_insert_by set_mset_add_mset_insert set_mset_mset)
  show ?case
  proof (cases "lt y x")
    case True
    then show ?thesis using Cons lt_asym elems by auto
  next
    case False
    then show ?thesis using Cons.prems not_lt_trans by auto
  qed
qed simp

lemma sorted_sort_slice: "sorted_wrt (\<lambda>a b. \<not> lt b a) (sort_slice lt xs)"
  by (induction xs) (auto simp: sort_slice_def intro: sorted_insert_by)

text \<open>The head of the sorted slice is minimal, the last element maximal.\<close>

lemma hd_sort_slice_minimal:
  assumes "x \<in> set xs"
  shows "\<not> lt x (hd (sort_slice lt xs))"
proof (cases "sort_slice lt xs")
  case Nil
  with assms show ?thesis by simp
next
  case (Cons a as)
  have "x \<in> set (a # as)" using assms set_sort_slice[of lt xs] Cons by simp
  with Cons sorted_sort_slice[of xs] show ?thesis by (auto simp: lt_irrefl)
qed

lemma last_sort_slice_maximal:
  assumes "x \<in> set xs"
  shows "\<not> lt (last (sort_slice lt xs)) x"
proof (cases "sort_slice lt xs" rule: rev_cases)
  case Nil
  with assms show ?thesis by simp
next
  case (snoc as a)
  have "x \<in> set (as @ [a])" using assms set_sort_slice[of lt xs] snoc by simp
  with snoc sorted_sort_slice[of xs] show ?thesis by (auto simp: sorted_wrt_append lt_irrefl)
qed

end

text \<open>Orders by a key of a linearly ordered type, ascending and descending.\<close>

interpretation by_key: slice_order "\<lambda>a b. key a < key b"
  for key :: "'a \<Rightarrow> 'k::linorder"
  by unfold_locales auto

section \<open>Lists and words\<close>

lemma takeWhile_append_Cons_split:
  "\<not> P y \<Longrightarrow> takeWhile P (xs @ y # ys) = takeWhile P xs"
  by (induction xs) auto

lemma filter_nth_split:
  "i < length (filter P xs) \<Longrightarrow>
   \<exists>as bs. xs = as @ (filter P xs ! i) # bs \<and> length (filter P as) = i \<and> P (filter P xs ! i)"
proof (induction xs arbitrary: i)
  case (Cons x xs)
  show ?case
  proof (cases "P x \<and> i = 0")
    case True
    then have "x # xs = [] @ (filter P (x # xs) ! i) # xs" by simp
    with True show ?thesis by fastforce
  next
    case False
    define k where "k = (if P x then i - 1 else i)"
    have nth: "filter P (x # xs) ! i = filter P xs ! k" using False by (auto simp: k_def nth_Cons')
    have "k < length (filter P xs)" using Cons.prems False by (auto simp: k_def)
    from Cons.IH[OF this] obtain as bs where
      "xs = as @ (filter P xs ! k) # bs" "length (filter P as) = k" "P (filter P xs ! k)" by blast
    then have "x # xs = (x # as) @ (filter P (x # xs) ! i) # bs \<and>
        length (filter P (x # as)) = i \<and> P (filter P (x # xs) ! i)"
      using False nth by (auto simp: k_def)
    then show ?thesis by blast
  qed
qed simp

lemma map_of_eq_None_notin: "k \<notin> fst ` set xs \<Longrightarrow> map_of xs k = None"
  by (simp add: map_of_eq_None_iff)

lemma nth_append_hd: "i < length xs \<Longrightarrow> (xs @ ys) ! i = xs ! i"
  by (simp add: nth_append)

text \<open>Rounding a position down to a multiple of the segment size, \<open>x/step*step\<close> on
  \<open>uint64\<close>.\<close>

definition align_down :: "u64 \<Rightarrow> u64 \<Rightarrow> u64" where
  "align_down step x = x div step * step"

lemma unat_align_down: "unat (align_down step x) = unat x div unat step * unat step"
proof -
  have "unat (x div step) * unat step \<le> unat x"
    by (simp add: unat_div)
  then have "unat (x div step) * unat step < 2 ^ LENGTH(64)"
    by (rule le_less_trans) (rule unsigned_less)
  then show ?thesis
    by (simp only: align_down_def unat_div unat_mult_lem[THEN iffD1])
qed

lemma align_down_le: "align_down step x \<le> x"
  by (simp add: word_le_nat_alt unat_align_down)

lemma align_down_mono: "x \<le> y \<Longrightarrow> align_down step x \<le> align_down step y"
  by (simp add: word_le_nat_alt unat_align_down div_le_mono)

lemma align_down_greatest:
  "unat step dvd unat y \<Longrightarrow> y \<le> x \<Longrightarrow> y \<le> align_down step x"
  by (auto simp: word_le_nat_alt unat_align_down elim!: dvdE)
    (metis div_le_mono mult.commute mult_le_mono1 nonzero_mult_div_cancel_left
      mult_0_right not_gr_zero zero_le)

end
