(* ===== verification/Retention_Planner.thy ===== *)
theory Retention_Planner
  imports Prelude
begin

text \<open>
  \<open>internal/retention/planner.go\<close>: the pure decision which backups to keep and from which
  position the current timeline's WAL must stay. \<open>Plan\<close> is split into the passes the
  function makes over its input, in the order of the source; Go maps that are only looked
  up are partial functions, and where the source ranges over a map the model ranges over
  the slice its keys come from (the later lemmas show that the order is irrelevant).

  The lemmas show that everything inside the window, the window anchor of every path, the
  minimum number of full roots and the parents of kept differentials are kept, that the
  replay interval of every kept backup is live in the inventory and above the WAL floor,
  and that the segment loop always ends.
\<close>

section \<open>Data\<close>

unbundle bit_operations_syntax

text \<open>\<open>Loop_Exhausted\<close> is not an error of the source: it marks the segment loop running
  out of fuel, which \<open>Plan_terminates\<close> excludes.\<close>

datatype plan_error = ErrCoverage | Loop_Exhausted

record backup =
  ID :: string
  Parent :: string
  Timeline :: u32
  Completed :: instant
  Start :: u64
  Redo :: u64
  End :: u64

record tnode =
  Node :: u32
  Fork :: u64

record segment =
  SegTimeline :: u32
  SegStart :: u64
  SegLive :: bool

record inventory =
  Backups :: "backup list"
  Paths :: "tnode list list"
  Segments :: "segment list"
  SegmentBytes :: u64

record hint =
  HintTimeline :: u32
  HintStart :: u64

record decision =
  Keep :: "string \<rightharpoonup> string"
  Expire :: "string list"
  Current :: u32
  WALFloor :: u64
  Shortened :: bool

definition zero_backup :: backup where
  "zero_backup = \<lparr>ID = [], Parent = [], Timeline = 0, Completed = zero_instant,
     Start = 0, Redo = 0, End = 0\<rparr>"

section \<open>The passes of Plan\<close>

definition valid_segment_bytes :: "u64 \<Rightarrow> bool" where
  "valid_segment_bytes step \<longleftrightarrow> 2 ^ 20 \<le> step \<and> step \<le> 2 ^ 30 \<and> step AND (step - 1) = 0"

definition plan_input_ok :: "inventory \<Rightarrow> instant \<Rightarrow> int \<Rightarrow> bool" where
  "plan_input_ok iv cutoff minimum \<longleftrightarrow>
     cutoff \<noteq> zero_instant \<and> 1 \<le> minimum \<and> minimum \<le> 100 \<and>
     valid_segment_bytes (SegmentBytes iv) \<and> Backups iv \<noteq> [] \<and> Paths iv \<noteq> [] \<and>
     length (Paths iv) \<le> 1024"

fun nodes_ok :: "tnode option \<Rightarrow> tnode list \<Rightarrow> bool" where
  "nodes_ok prev [] = True"
| "nodes_ok prev (t # ts) =
     (Node t \<noteq> 0 \<and>
      (case prev of None \<Rightarrow> True | Some p \<Rightarrow> Node p < Node t \<and> Fork p \<le> Fork t) \<and>
      nodes_ok (Some t) ts)"

definition path_shape_ok :: "tnode list \<Rightarrow> bool" where
  "path_shape_ok path \<longleftrightarrow>
     path \<noteq> [] \<and> length path \<le> 1024 \<and> Fork (hd path) = 0 \<and> nodes_ok None path"

definition add_path ::
  "tnode list \<Rightarrow> (u32 \<rightharpoonup> tnode list) \<times> u32 set \<Rightarrow> plan_error + (u32 \<rightharpoonup> tnode list) \<times> u32 set"
where
  "add_path path st = (let (paths, ancestors) = st in
     if \<not> path_shape_ok path then Inl ErrCoverage
     else let id = Node (last path) in
       if paths id \<noteq> None then Inl ErrCoverage
       else Inr (paths(id \<mapsto> path), ancestors \<union> set (map Node (butlast path))))"

definition prefix_known :: "(u32 \<rightharpoonup> tnode list) \<Rightarrow> tnode list \<Rightarrow> nat \<Rightarrow> bool" where
  "prefix_known paths path i =
     (case paths (Node (path ! i)) of
        None \<Rightarrow> False
      | Some pre \<Rightarrow> length pre = i + 1 \<and>
          list_all (\<lambda>j. pre ! j = path ! j) [0..<length pre])"

definition find_current ::
  "(u32 \<rightharpoonup> tnode list) \<Rightarrow> u32 set \<Rightarrow> tnode list \<Rightarrow> u32 \<Rightarrow> plan_error + u32"
where
  "find_current paths ancestors path current =
     (if \<not> list_all (prefix_known paths path) [0..<length path] then Inl ErrCoverage
      else let id = Node (last path) in
        if id \<in> ancestors then Inr current
        else if current \<noteq> 0 then Inl ErrCoverage
        else Inr id)"

definition add_backup ::
  "(u32 \<rightharpoonup> tnode list) \<Rightarrow> backup \<Rightarrow> (string \<rightharpoonup> backup) \<Rightarrow> plan_error + (string \<rightharpoonup> backup)"
where
  "add_backup paths b byID =
     (if ID b = [] \<or> Completed b = zero_instant \<or> End b \<le> Start b \<or> Start b < Redo b \<or>
         paths (Timeline b) = None
      then Inl ErrCoverage
      else if byID (ID b) \<noteq> None then Inl ErrCoverage
      else Inr (byID(ID b \<mapsto> b)))"

definition parent_ok :: "(string \<rightharpoonup> backup) \<Rightarrow> backup \<Rightarrow> bool" where
  "parent_ok byID b \<longleftrightarrow> Parent b = [] \<or>
     (case byID (Parent b) of
        None \<Rightarrow> False
      | Some f \<Rightarrow> Parent f = [] \<and> Timeline f = Timeline b \<and>
          \<not> Completed b < Completed f \<and> End f \<le> Start b)"

fun reachable :: "backup \<Rightarrow> tnode list \<Rightarrow> bool" where
  "reachable b [] = False"
| "reachable b (t # ts) =
     (if Node t = Timeline b then (case ts of [] \<Rightarrow> True | u # _ \<Rightarrow> End b < Fork u)
      else reachable b ts)"

definition newer :: "backup \<Rightarrow> backup \<Rightarrow> bool" where
  "newer a b = (if Completed a = Completed b then ID b < ID a else Completed b < Completed a)"

definition mark_backup ::
  "instant \<Rightarrow> int \<Rightarrow> backup \<Rightarrow> (string \<rightharpoonup> string) \<times> int \<times> bool \<Rightarrow> (string \<rightharpoonup> string) \<times> int \<times> bool"
where
  "mark_backup cutoff minimum b st = (let (keep, roots, anchor) = st;
     keep = (if \<not> Completed b < cutoff then keep(ID b \<mapsto> ''inside recovery window'') else keep);
     take_anchor = (\<not> anchor \<and> \<not> cutoff < Completed b);
     keep = (if take_anchor then keep(ID b \<mapsto> ''window anchor'') else keep);
     anchor = (anchor \<or> take_anchor);
     take_root = (Parent b = [] \<and> roots < minimum);
     keep = (if take_root then keep(ID b \<mapsto> ''minimum full roots'') else keep);
     roots = (if take_root then roots + 1 else roots)
     in (keep, roots, anchor))"

definition candidates :: "inventory \<Rightarrow> tnode list \<Rightarrow> backup list" where
  "candidates iv path = sort_slice newer (filter (\<lambda>b. reachable b path) (Backups iv))"

definition keep_on_path ::
  "inventory \<Rightarrow> instant \<Rightarrow> int \<Rightarrow> tnode list \<Rightarrow> (string \<rightharpoonup> string) \<times> bool \<Rightarrow> (string \<rightharpoonup> string) \<times> bool"
where
  "keep_on_path iv cutoff minimum path st = (let (keep, shortened) = st;
     cs = candidates iv path in
     if cs = [] then (keep, shortened)
     else let (keep, roots, anchor) = fold (mark_backup cutoff minimum) cs (keep, 0, False);
            keep = keep(ID (hd cs) \<mapsto> ''latest usable backup'') in
          if anchor then (keep, shortened)
          else (keep(ID (last cs) \<mapsto> ''earliest usable; shortened window''), True))"

definition keep_parents :: "inventory \<Rightarrow> (string \<rightharpoonup> string) \<Rightarrow> (string \<rightharpoonup> string)" where
  "keep_parents iv keep =
     fold (\<lambda>b k. if keep (ID b) \<noteq> None \<and> Parent b \<noteq> []
                 then k(Parent b \<mapsto> ''full parent of retained differential'') else k)
       (Backups iv) keep"

definition lookup_backup :: "(string \<rightharpoonup> backup) \<Rightarrow> string \<Rightarrow> backup" where
  "lookup_backup byID uid = (case byID uid of None \<Rightarrow> zero_backup | Some b \<Rightarrow> b)"

definition expire_before :: "(string \<rightharpoonup> backup) \<Rightarrow> string \<Rightarrow> string \<Rightarrow> bool" where
  "expire_before byID x y = (let a = lookup_backup byID x; b = lookup_backup byID y in
     if (Parent a \<noteq> []) \<noteq> (Parent b \<noteq> []) then Parent a \<noteq> []
     else ID a < ID b)"

definition expire_list :: "inventory \<Rightarrow> (string \<rightharpoonup> backup) \<Rightarrow> (string \<rightharpoonup> string) \<Rightarrow> string list" where
  "expire_list iv byID keep = sort_slice (expire_before byID)
     (map ID (filter (\<lambda>b. keep (ID b) = None) (Backups iv)))"

definition add_segment ::
  "(u32 \<rightharpoonup> tnode list) \<Rightarrow> u64 \<Rightarrow> segment \<Rightarrow>
   (u32 \<times> u64 \<rightharpoonup> bool) \<times> (u32 \<Rightarrow> u64) \<Rightarrow> plan_error + (u32 \<times> u64 \<rightharpoonup> bool) \<times> (u32 \<Rightarrow> u64)"
where
  "add_segment paths step s st = (let (live, frontier) = st; t = SegTimeline s in
     if paths t = None \<or> SegStart s mod step \<noteq> 0 \<or> - 1 - step < SegStart s
     then Inl ErrCoverage
     else if live (t, SegStart s) \<noteq> None then Inl ErrCoverage
     else Inr (live((t, SegStart s) \<mapsto> SegLive s),
               frontier(t := max (frontier t) (SegStart s + step))))"

text \<open>The innermost loop of the source,
  \<open>for start := pos / step * step; start < end; start += step\<close>, with fuel.\<close>

fun all_live :: "nat \<Rightarrow> (u64 \<Rightarrow> bool) \<Rightarrow> u64 \<Rightarrow> u64 \<Rightarrow> u64 \<Rightarrow> bool option" where
  "all_live 0 live step start end = None"
| "all_live (Suc fuel) live step start end =
     (if start < end
      then if live start then all_live fuel live step (start + step) end else Some False
      else Some True)"

definition node_end :: "(u32 \<Rightarrow> u64) \<Rightarrow> u64 \<Rightarrow> tnode \<Rightarrow> tnode list \<Rightarrow> u64" where
  "node_end frontier pos t ts =
     (case ts of [] \<Rightarrow> max pos (frontier (Node t)) | u # _ \<Rightarrow> Fork u)"

definition node_covered ::
  "inventory \<Rightarrow> (u32 \<times> u64 \<rightharpoonup> bool) \<Rightarrow> tnode \<Rightarrow> u64 \<Rightarrow> u64 \<Rightarrow> bool option" where
  "node_covered iv live t pos end =
     (if pos < end
      then all_live (length (Segments iv) + 3) (\<lambda>s. live (Node t, s) = Some True)
             (SegmentBytes iv) (align_down (SegmentBytes iv) pos) end
      else Some True)"

definition node_floor :: "inventory \<Rightarrow> u32 \<Rightarrow> backup \<Rightarrow> tnode \<Rightarrow> u64 \<Rightarrow> u64" where
  "node_floor iv current b t floor =
     (if Node t = current
      then min floor (align_down (SegmentBytes iv)
             (if Timeline b \<noteq> current then Fork t else min (Start b) (Redo b)))
      else floor)"

fun replay_nodes ::
  "inventory \<Rightarrow> (u32 \<times> u64 \<rightharpoonup> bool) \<Rightarrow> (u32 \<Rightarrow> u64) \<Rightarrow> u32 \<Rightarrow> backup \<Rightarrow> bool \<Rightarrow> u64 \<Rightarrow>
   tnode list \<Rightarrow> u64 \<Rightarrow> plan_error + u64"
where
  "replay_nodes iv live frontier current b started pos [] floor = Inr floor"
| "replay_nodes iv live frontier current b started pos (t # ts) floor =
     (if \<not> (started \<or> Node t = Timeline b)
      then replay_nodes iv live frontier current b False pos ts floor
      else let end = node_end frontier pos t ts in
        if end < pos \<or> of_nat (length (Segments iv)) < (end - pos) div SegmentBytes iv
        then Inl ErrCoverage
        else case node_covered iv live t pos end of
            None \<Rightarrow> Inl Loop_Exhausted
          | Some False \<Rightarrow> Inl ErrCoverage
          | Some True \<Rightarrow>
              replay_nodes iv live frontier current b True end ts (node_floor iv current b t floor))"

definition replay_path ::
  "inventory \<Rightarrow> (u32 \<times> u64 \<rightharpoonup> bool) \<Rightarrow> (u32 \<Rightarrow> u64) \<Rightarrow> u32 \<Rightarrow> backup \<Rightarrow> tnode list \<Rightarrow> u64 \<Rightarrow>
   plan_error + u64"
where
  "replay_path iv live frontier current b path floor =
     (if reachable b path
      then replay_nodes iv live frontier current b False (End b) path floor
      else Inr floor)"

definition wal_floor ::
  "inventory \<Rightarrow> (u32 \<times> u64 \<rightharpoonup> bool) \<Rightarrow> (u32 \<Rightarrow> u64) \<Rightarrow> u32 \<Rightarrow> backup list \<Rightarrow> plan_error + u64"
where
  "wal_floor iv live frontier current kept =
     fold_res (\<lambda>b. fold_res (replay_path iv live frontier current b) (Paths iv)) kept (- 1)"

definition kept_backups :: "inventory \<Rightarrow> (string \<rightharpoonup> string) \<Rightarrow> backup list" where
  "kept_backups iv keep = filter (\<lambda>b. keep (ID b) \<noteq> None) (Backups iv)"

definition apply_hint :: "hint option \<Rightarrow> u32 \<Rightarrow> u64 \<Rightarrow> u64 \<Rightarrow> u64" where
  "apply_hint hint current step floor =
     (case hint of
        None \<Rightarrow> floor
      | Some h \<Rightarrow> if HintTimeline h = current then min floor (align_down step (HintStart h)) else floor)"

definition Plan ::
  "inventory \<Rightarrow> instant \<Rightarrow> int \<Rightarrow> hint option \<Rightarrow> plan_error + decision"
where
  "Plan iv cutoff minimum hint =
     res_bind (guard (plan_input_ok iv cutoff minimum) ErrCoverage) (\<lambda>_.
     res_bind (fold_res add_path (Paths iv) (Map.empty, {})) (\<lambda>(paths, ancestors).
     res_bind (fold_res (find_current paths ancestors) (Paths iv) 0) (\<lambda>current.
     res_bind (fold_res (add_backup paths) (Backups iv) Map.empty) (\<lambda>byID.
     res_bind (guard (list_all (parent_ok byID) (Backups iv)) ErrCoverage) (\<lambda>_.
     let (keep, shortened) = fold (keep_on_path iv cutoff minimum) (Paths iv) (Map.empty, False);
         keep = keep_parents iv keep;
         expire = expire_list iv byID keep in
     res_bind (fold_res (add_segment paths (SegmentBytes iv)) (Segments iv)
                 (Map.empty, \<lambda>_. 0)) (\<lambda>(live, frontier).
     res_bind (wal_floor iv live frontier current (kept_backups iv keep)) (\<lambda>floor.
     res_bind (guard (floor \<noteq> - 1) ErrCoverage) (\<lambda>_.
     Inr \<lparr>Keep = keep, Expire = expire, Current = current,
          WALFloor = apply_hint hint current (SegmentBytes iv) floor,
          Shortened = shortened\<rparr>))))))))"

section \<open>What each pass establishes\<close>

lemma add_path_Inr:
  "add_path p (paths, anc) = Inr st' \<longleftrightarrow> path_shape_ok p \<and> paths (Node (last p)) = None \<and>
     st' = (paths(Node (last p) \<mapsto> p), anc \<union> set (map Node (butlast p)))"
  by (auto simp: add_path_def Let_def split: if_splits)

lemma add_backup_Inr:
  "add_backup paths b m = Inr m' \<longleftrightarrow> ID b \<noteq> [] \<and> Completed b \<noteq> zero_instant \<and> Start b < End b \<and>
     Redo b \<le> Start b \<and> paths (Timeline b) \<noteq> None \<and> m (ID b) = None \<and> m' = m(ID b \<mapsto> b)"
  by (auto simp: add_backup_def not_le not_less)

lemma add_segment_Inr:
  "add_segment paths step s (live, frontier) = Inr st' \<longleftrightarrow>
     paths (SegTimeline s) \<noteq> None \<and> SegStart s mod step = 0 \<and> SegStart s \<le> - 1 - step \<and>
     live (SegTimeline s, SegStart s) = None \<and>
     st' = (live((SegTimeline s, SegStart s) \<mapsto> SegLive s),
            frontier(SegTimeline s := max (frontier (SegTimeline s)) (SegStart s + step)))"
  by (auto simp: add_segment_def Let_def not_less)

lemma add_path_result:
  assumes "fold_res add_path ps st = Inr st'"
  shows "list_all path_shape_ok ps \<and>
    fst st' = fold (\<lambda>p m. m(Node (last p) \<mapsto> p)) ps (fst st) \<and>
    distinct (map (Node \<circ> last) ps) \<and> (\<forall>p \<in> set ps. fst st (Node (last p)) = None) \<and>
    snd st' = snd st \<union> (\<Union>p \<in> set ps. Node ` set (butlast p))"
  using assms
proof (induction ps arbitrary: st)
  case (Cons p ps)
  obtain paths anc where st: "st = (paths, anc)" by (cases st)
  from Cons.prems st have ok: "path_shape_ok p" "paths (Node (last p)) = None"
    and rest: "fold_res add_path ps (paths(Node (last p) \<mapsto> p), anc \<union> set (map Node (butlast p)))
      = Inr st'"
    by (auto simp: add_path_Inr)
  from Cons.IH[OF rest] ok st show ?case by (auto split: if_splits)
qed simp

lemma fold_update_other:
  "t \<notin> f ` set ps \<Longrightarrow> fold (\<lambda>p m. m(f p \<mapsto> g p)) ps m t = m t"
  by (induction ps arbitrary: m) auto

lemma fold_update_lookup:
  "distinct (map f ps) \<Longrightarrow> p \<in> set ps \<Longrightarrow> fold (\<lambda>p m. m(f p \<mapsto> g p)) ps m (f p) = Some (g p)"
  by (induction ps arbitrary: m) (auto simp: fold_update_other)

lemma fold_update_cases:
  "fold (\<lambda>p m. m(f p \<mapsto> g p)) ps m t = Some v \<Longrightarrow>
   m t = Some v \<or> (\<exists>p \<in> set ps. f p = t \<and> v = g p)"
  by (induction ps arbitrary: m) (fastforce split: if_splits)+

text \<open>The path table holds exactly the inventory's paths, each under its last node.\<close>

lemma path_table:
  assumes "fold_res add_path ps (Map.empty, {}) = Inr (paths, ancestors)"
  shows path_table_shape: "p \<in> set ps \<Longrightarrow> path_shape_ok p"
    and path_table_lookup: "p \<in> set ps \<Longrightarrow> paths (Node (last p)) = Some p"
    and path_table_only: "paths t = Some p \<Longrightarrow> p \<in> set ps \<and> Node (last p) = t"
    and path_table_ancestors: "ancestors = (\<Union>p \<in> set ps. Node ` set (butlast p))"
proof -
  note r = add_path_result[OF assms]
  show "p \<in> set ps \<Longrightarrow> path_shape_ok p" using r by (auto simp: list_all_iff)
  show "p \<in> set ps \<Longrightarrow> paths (Node (last p)) = Some p"
    using r fold_update_lookup[of "Node \<circ> last" ps p "\<lambda>p. p" Map.empty] by auto
  show "paths t = Some p \<Longrightarrow> p \<in> set ps \<and> Node (last p) = t"
    using r fold_update_cases[of "Node \<circ> last" "\<lambda>p. p" ps Map.empty t p] by auto
  show "ancestors = (\<Union>p \<in> set ps. Node ` set (butlast p))" using r by auto
qed

lemma add_backup_result:
  assumes "fold_res (add_backup paths) bs m = Inr m'"
  shows "m' = fold (\<lambda>b m. m(ID b \<mapsto> b)) bs m \<and> distinct (map ID bs) \<and>
    (\<forall>b \<in> set bs. m (ID b) = None \<and> ID b \<noteq> [] \<and> Start b < End b \<and> Redo b \<le> Start b \<and>
       paths (Timeline b) \<noteq> None)"
  using assms
proof (induction bs arbitrary: m)
  case (Cons b bs)
  then have ok: "ID b \<noteq> []" "Start b < End b" "Redo b \<le> Start b" "paths (Timeline b) \<noteq> None"
    "m (ID b) = None" and rest: "fold_res (add_backup paths) bs (m(ID b \<mapsto> b)) = Inr m'"
    by (auto simp: add_backup_Inr)
  from Cons.IH[OF rest] ok show ?case by (auto split: if_splits)
qed simp

lemma backup_table:
  assumes "fold_res (add_backup paths) bs Map.empty = Inr byID"
  shows backup_table_lookup: "b \<in> set bs \<Longrightarrow> byID (ID b) = Some b"
    and backup_table_only: "byID i = Some b \<Longrightarrow> b \<in> set bs \<and> ID b = i"
    and backup_table_distinct: "distinct (map ID bs)"
    and backup_table_valid: "b \<in> set bs \<Longrightarrow> ID b \<noteq> [] \<and> Start b < End b \<and> Redo b \<le> Start b \<and>
       paths (Timeline b) \<noteq> None"
proof -
  note r = add_backup_result[OF assms]
  show "b \<in> set bs \<Longrightarrow> byID (ID b) = Some b"
    using r fold_update_lookup[of ID bs b "\<lambda>b. b" Map.empty] by auto
  show "byID i = Some b \<Longrightarrow> b \<in> set bs \<and> ID b = i"
    using r fold_update_cases[of ID "\<lambda>b. b" bs Map.empty i b] by auto
qed (use add_backup_result[OF assms] in auto)

text \<open>The live map is the segment list, and every live position leaves room for a step.\<close>

lemma add_segment_result:
  assumes "fold_res (add_segment paths step) ss st = Inr st'"
  shows "fst st' = fold (\<lambda>s m. m((SegTimeline s, SegStart s) \<mapsto> SegLive s)) ss (fst st) \<and>
    snd st' = fold (\<lambda>s f. f(SegTimeline s := max (f (SegTimeline s)) (SegStart s + step))) ss (snd st) \<and>
    (\<forall>s \<in> set ss. SegStart s \<le> - 1 - step \<and> SegStart s mod step = 0)"
  using assms
proof (induction ss arbitrary: st)
  case (Cons s ss)
  obtain live frontier where st: "st = (live, frontier)" by (cases st)
  from Cons.prems st have ok: "SegStart s \<le> - 1 - step" "SegStart s mod step = 0"
    and rest: "fold_res (add_segment paths step) ss
        (live((SegTimeline s, SegStart s) \<mapsto> SegLive s),
         frontier(SegTimeline s := max (frontier (SegTimeline s)) (SegStart s + step))) = Inr st'"
    by (auto simp: add_segment_Inr)
  from Cons.IH[OF rest] ok st show ?case by simp
qed simp

lemma live_table:
  assumes "fold_res (add_segment paths step) ss (Map.empty, \<lambda>_. 0) = Inr (live, frontier)"
    and "live (t, p) = Some v"
  shows "\<exists>s \<in> set ss. SegTimeline s = t \<and> SegStart s = p \<and> SegLive s = v \<and> p \<le> - 1 - step"
  using add_segment_result[OF assms(1)] assms(2)
    fold_update_cases[of "\<lambda>s. (SegTimeline s, SegStart s)" SegLive ss Map.empty "(t, p)" v]
  by auto

text \<open>The end of a timeline's archived WAL in an inventory.\<close>

definition archive_end :: "u64 \<Rightarrow> segment list \<Rightarrow> u32 \<Rightarrow> u64" where
  "archive_end step ss t =
     foldr (\<lambda>s m. if SegTimeline s = t then max m (SegStart s + step) else m) ss 0"

lemma fold_frontier:
  "fold (\<lambda>s f. f(SegTimeline s := max (f (SegTimeline s)) (SegStart s + step))) ss f t
   = max (f t) (archive_end step ss t)"
  by (induction ss arbitrary: f) (auto simp: archive_end_def max.assoc max.commute max.left_commute)

lemma frontier_table:
  assumes "fold_res (add_segment paths step) ss (Map.empty, \<lambda>_. 0) = Inr (live, frontier)"
  shows "frontier t = archive_end step ss t"
  using add_segment_result[OF assms] by (simp add: fold_frontier)

section \<open>Keeping backups\<close>

interpretation newer: slice_order newer
proof unfold_locales
  show "newer x y \<Longrightarrow> \<not> newer y x" for x y
    by (auto simp: newer_def split: if_splits)
  show "newer x z \<Longrightarrow> newer x y \<or> newer y z" for x y z
    by (auto simp: newer_def split: if_splits)
qed

lemma set_candidates [simp]:
  "set (candidates iv path) = {b \<in> set (Backups iv). reachable b path}"
  by (auto simp: candidates_def)

lemma mark_backup_mono: "fst st i \<noteq> None \<Longrightarrow> fst (mark_backup c m b st) i \<noteq> None"
  by (cases st) (auto simp: mark_backup_def Let_def)

lemma fold_mark_mono: "fst st i \<noteq> None \<Longrightarrow> fst (fold (mark_backup c m) bs st) i \<noteq> None"
proof (induction bs arbitrary: st)
  case (Cons b bs)
  show ?case using Cons.IH[of "mark_backup c m b st"] mark_backup_mono[OF Cons.prems] by simp
qed simp

lemma fold_mark_subset:
  "fst (fold (mark_backup c m) bs st) i \<noteq> None \<Longrightarrow> fst st i \<noteq> None \<or> i \<in> ID ` set bs"
proof (induction bs arbitrary: st)
  case (Cons b bs)
  have "fst (mark_backup c m b st) i \<noteq> None \<Longrightarrow> fst st i \<noteq> None \<or> i = ID b"
    by (cases st) (auto simp: mark_backup_def Let_def split: if_splits)
  with Cons.IH[of "mark_backup c m b st"] Cons.prems show ?case by auto
qed simp

lemma fold_mark_window:
  assumes "b \<in> set bs" and "\<not> Completed b < c"
  shows "fst (fold (mark_backup c m) bs st) (ID b) \<noteq> None"
proof -
  obtain xs ys where bs: "bs = xs @ b # ys" using assms(1) by (meson split_list)
  have "fst (mark_backup c m b s) (ID b) \<noteq> None" for s
    using assms(2) by (cases s) (auto simp: mark_backup_def Let_def)
  then show ?thesis unfolding bs by (simp add: fold_mark_mono)
qed

lemma fold_mark_anchor_flag:
  "snd (snd (fold (mark_backup c m) bs st)) \<longleftrightarrow> snd (snd st) \<or> (\<exists>b \<in> set bs. \<not> c < Completed b)"
proof (induction bs arbitrary: st)
  case (Cons b bs)
  have "snd (snd (mark_backup c m b st)) \<longleftrightarrow> snd (snd st) \<or> \<not> c < Completed b"
    by (cases st) (auto simp: mark_backup_def Let_def)
  with Cons.IH[of "mark_backup c m b st"] show ?case by auto
qed simp

text \<open>The anchor is the first candidate, newest first, that is not after the cutoff.\<close>

lemma fold_mark_anchor:
  assumes "\<not> snd (snd st)" and "\<forall>x \<in> set xs. c < Completed x" and "\<not> c < Completed b"
  shows "fst (fold (mark_backup c m) (xs @ b # ys) st) (ID b) \<noteq> None"
proof -
  let ?s = "fold (mark_backup c m) xs st"
  have "\<not> snd (snd ?s)" using assms(1,2) by (simp add: fold_mark_anchor_flag)
  then have "fst (mark_backup c m b ?s) (ID b) \<noteq> None"
    using assms(3) by (cases ?s) (auto simp: mark_backup_def Let_def)
  then show ?thesis by (simp add: fold_mark_mono)
qed

lemma fold_mark_roots:
  "fst (snd st) \<le> m \<Longrightarrow> fst (snd (fold (mark_backup c m) bs st)) =
     min m (fst (snd st) + int (length (filter (\<lambda>b. Parent b = []) bs)))"
proof (induction bs arbitrary: st)
  case (Cons b bs)
  have "fst (snd (mark_backup c m b st)) =
      (if Parent b = [] \<and> fst (snd st) < m then fst (snd st) + 1 else fst (snd st))"
    by (cases st) (auto simp: mark_backup_def Let_def)
  with Cons.IH[of "mark_backup c m b st"] Cons.prems show ?case by auto
qed simp

text \<open>A full that is not kept is preceded by \<open>minimum\<close> newer fulls.\<close>

lemma fold_mark_full:
  assumes "Parent b = []" and "length (filter (\<lambda>b. Parent b = []) xs) < nat m"
    and "fst (snd st) = 0"
  shows "fst (fold (mark_backup c m) (xs @ b # ys) st) (ID b) \<noteq> None"
proof -
  let ?s = "fold (mark_backup c m) xs st"
  have "fst (snd ?s) < m" using assms(2,3) fold_mark_roots[of st m c xs] by auto
  then have "fst (mark_backup c m b ?s) (ID b) \<noteq> None"
    using assms(1) by (cases ?s) (auto simp: mark_backup_def Let_def)
  then show ?thesis by (simp add: fold_mark_mono)
qed

text \<open>What one path contributes, whatever was kept before.\<close>

lemma keep_on_path_eq:
  "keep_on_path iv c m path (keep, sh) =
    (let cs = candidates iv path; r = fold (mark_backup c m) cs (keep, 0, False);
         k = (fst r)(ID (hd cs) \<mapsto> ''latest usable backup'') in
     if cs = [] then (keep, sh)
     else if snd (snd r) then (k, sh)
     else (k(ID (last cs) \<mapsto> ''earliest usable; shortened window''), True))"
  by (cases "fold (mark_backup c m) (candidates iv path) (keep, 0, False)")
    (simp add: keep_on_path_def Let_def)

lemma keep_on_path_marked:
  assumes "fst (fold (mark_backup c m) (candidates iv path) (keep, 0, False)) i \<noteq> None"
    and "candidates iv path \<noteq> []"
  shows "fst (keep_on_path iv c m path (keep, sh)) i \<noteq> None"
  using assms by (auto simp: keep_on_path_eq Let_def)

lemma keep_on_path_mono:
  assumes "fst st i \<noteq> None"
  shows "fst (keep_on_path iv c m path st) i \<noteq> None"
proof (cases st)
  case (Pair keep sh)
  show ?thesis
  proof (cases "candidates iv path = []")
    case True
    then show ?thesis using assms Pair by (simp add: keep_on_path_eq Let_def)
  next
    case False
    have "fst (fold (mark_backup c m) (candidates iv path) (keep, 0, False)) i \<noteq> None"
      by (rule fold_mark_mono) (use assms Pair in simp)
    from keep_on_path_marked[OF this False] show ?thesis by (simp add: Pair)
  qed
qed

lemma fold_keep_mono:
  "fst st i \<noteq> None \<Longrightarrow> fst (fold (keep_on_path iv c m) ps st) i \<noteq> None"
proof (induction ps arbitrary: st)
  case (Cons p ps)
  show ?case using Cons.IH[OF keep_on_path_mono[OF Cons.prems]] by simp
qed simp

lemma fold_keep_path:
  assumes "path \<in> set ps" and "\<And>st. fst (keep_on_path iv c m path st) i \<noteq> None"
  shows "fst (fold (keep_on_path iv c m) ps st) i \<noteq> None"
proof -
  obtain xs ys where ps: "ps = xs @ path # ys" using assms(1) by (meson split_list)
  show ?thesis unfolding ps by (simp add: fold_keep_mono assms(2))
qed

lemma keep_on_path_window:
  assumes "b \<in> set (Backups iv)" "reachable b path" "\<not> Completed b < c"
  shows "fst (keep_on_path iv c m path st) (ID b) \<noteq> None"
proof -
  have b: "b \<in> set (candidates iv path)" using assms by simp
  then have ne: "candidates iv path \<noteq> []" by (metis empty_iff empty_set)
  show ?thesis
    using keep_on_path_marked[OF fold_mark_window[OF b assms(3)] ne] by (cases st) simp
qed

lemma keep_on_path_latest:
  assumes "candidates iv path \<noteq> []"
  shows "fst (keep_on_path iv c m path st) (ID (hd (candidates iv path))) \<noteq> None"
  using assms by (cases st) (simp add: keep_on_path_eq Let_def)

lemma keep_on_path_anchor:
  assumes "candidates iv path = xs @ b # ys" "\<forall>x \<in> set xs. c < Completed x" "\<not> c < Completed b"
  shows "fst (keep_on_path iv c m path st) (ID b) \<noteq> None"
proof -
  have ne: "candidates iv path \<noteq> []" using assms by auto
  have "fst (fold (mark_backup c m) (candidates iv path) (fst st, 0, False)) (ID b) \<noteq> None"
    unfolding assms(1) by (rule fold_mark_anchor) (use assms in auto)
  from keep_on_path_marked[OF this ne] show ?thesis by (cases st) simp
qed

lemma keep_on_path_earliest:
  assumes "candidates iv path \<noteq> []" "\<forall>x \<in> set (candidates iv path). c < Completed x"
  shows "fst (keep_on_path iv c m path st) (ID (last (candidates iv path))) \<noteq> None \<and>
         snd (keep_on_path iv c m path st)"
proof (cases st)
  case (Pair keep sh)
  then show ?thesis
    using assms fold_mark_anchor_flag[of c m "candidates iv path" "(keep, 0, False)"]
    by (auto simp: keep_on_path_eq Let_def)
qed

lemma keep_on_path_full:
  assumes "candidates iv path = xs @ b # ys" "Parent b = []"
    "length (filter (\<lambda>b. Parent b = []) xs) < nat m"
  shows "fst (keep_on_path iv c m path st) (ID b) \<noteq> None"
proof -
  have ne: "candidates iv path \<noteq> []" using assms by auto
  have "fst (fold (mark_backup c m) (candidates iv path) (fst st, 0, False)) (ID b) \<noteq> None"
    unfolding assms(1) by (rule fold_mark_full) (use assms in auto)
  from keep_on_path_marked[OF this ne] show ?thesis by (cases st) simp
qed

lemma snd_keep_on_path_mono: "snd st \<Longrightarrow> snd (keep_on_path iv c m path st)"
  by (cases st) (auto simp: keep_on_path_eq Let_def)

lemma fold_keep_shortened: "snd st \<Longrightarrow> snd (fold (keep_on_path iv c m) ps st)"
  by (induction ps arbitrary: st) (auto simp: snd_keep_on_path_mono)

lemma keep_on_path_only:
  assumes "fst (keep_on_path iv c m path st) i \<noteq> None"
  shows "fst st i \<noteq> None \<or> i \<in> ID ` set (Backups iv)"
proof (cases "candidates iv path = []")
  case True
  then show ?thesis using assms by (cases st) (simp add: keep_on_path_eq Let_def)
next
  case False
  then have ends: "hd (candidates iv path) \<in> set (Backups iv)"
    "last (candidates iv path) \<in> set (Backups iv)"
    using hd_in_set[OF False] last_in_set[OF False] by auto
  from assms False ends have "fst (fold (mark_backup c m) (candidates iv path) (fst st, 0, False)) i \<noteq> None
      \<or> i \<in> ID ` set (Backups iv)"
    by (cases st) (auto simp: keep_on_path_eq Let_def split: if_splits)
  then show ?thesis
    using fold_mark_subset[of c m "candidates iv path" "(fst st, 0, False)" i] by auto
qed

lemma fold_keep_only:
  "fst (fold (keep_on_path iv c m) ps st) i \<noteq> None \<Longrightarrow> fst st i \<noteq> None \<or> i \<in> ID ` set (Backups iv)"
proof (induction ps arbitrary: st)
  case (Cons p ps)
  from Cons.IH[of "keep_on_path iv c m p st"] Cons.prems keep_on_path_only[of iv c m p st i]
  show ?case by auto
qed simp

text \<open>Parents of kept differentials.\<close>

lemma keep_parents_other:
  "fold (\<lambda>b k. if P b then k(f b \<mapsto> v) else k) bs k i \<noteq> None \<longleftrightarrow>
   k i \<noteq> None \<or> (\<exists>b \<in> set bs. P b \<and> f b = i)"
  by (induction bs arbitrary: k) auto

lemma keep_parents_iff:
  "keep_parents iv keep i \<noteq> None \<longleftrightarrow> keep i \<noteq> None \<or>
     (\<exists>b \<in> set (Backups iv). keep (ID b) \<noteq> None \<and> Parent b \<noteq> [] \<and> Parent b = i)"
  unfolding keep_parents_def
  by (subst keep_parents_other[where P = "\<lambda>b. keep (ID b) \<noteq> None \<and> Parent b \<noteq> []"]) auto

section \<open>Elimination of a successful Plan\<close>

definition planned_keep :: "inventory \<Rightarrow> instant \<Rightarrow> int \<Rightarrow> (string \<rightharpoonup> string)" where
  "planned_keep iv c m =
     keep_parents iv (fst (fold (keep_on_path iv c m) (Paths iv) (Map.empty, False)))"

lemma Plan_cases:
  assumes "Plan iv cutoff minimum hint = Inr d"
  obtains paths ancestors byID live frontier floor where
    "plan_input_ok iv cutoff minimum"
    "fold_res add_path (Paths iv) (Map.empty, {}) = Inr (paths, ancestors)"
    "fold_res (find_current paths ancestors) (Paths iv) 0 = Inr (Current d)"
    "fold_res (add_backup paths) (Backups iv) Map.empty = Inr byID"
    "\<forall>b \<in> set (Backups iv). parent_ok byID b"
    "fold_res (add_segment paths (SegmentBytes iv)) (Segments iv) (Map.empty, \<lambda>_. 0) = Inr (live, frontier)"
    "wal_floor iv live frontier (Current d) (kept_backups iv (planned_keep iv cutoff minimum)) = Inr floor"
    "floor \<noteq> - 1"
    "Keep d = planned_keep iv cutoff minimum"
    "Expire d = expire_list iv byID (Keep d)"
    "WALFloor d = apply_hint hint (Current d) (SegmentBytes iv) floor"
    "Shortened d = snd (fold (keep_on_path iv cutoff minimum) (Paths iv) (Map.empty, False))"
proof -
  have "\<exists>paths ancestors byID live frontier floor.
    plan_input_ok iv cutoff minimum \<and>
    fold_res add_path (Paths iv) (Map.empty, {}) = Inr (paths, ancestors) \<and>
    fold_res (find_current paths ancestors) (Paths iv) 0 = Inr (Current d) \<and>
    fold_res (add_backup paths) (Backups iv) Map.empty = Inr byID \<and>
    (\<forall>b \<in> set (Backups iv). parent_ok byID b) \<and>
    fold_res (add_segment paths (SegmentBytes iv)) (Segments iv) (Map.empty, \<lambda>_. 0) = Inr (live, frontier) \<and>
    wal_floor iv live frontier (Current d) (kept_backups iv (planned_keep iv cutoff minimum)) = Inr floor \<and>
    floor \<noteq> - 1 \<and>
    Keep d = planned_keep iv cutoff minimum \<and>
    Expire d = expire_list iv byID (Keep d) \<and>
    WALFloor d = apply_hint hint (Current d) (SegmentBytes iv) floor \<and>
    Shortened d = snd (fold (keep_on_path iv cutoff minimum) (Paths iv) (Map.empty, False))"
    using assms unfolding Plan_def
    by (cases "fold (keep_on_path iv cutoff minimum) (Paths iv) (Map.empty, False)")
      (auto simp: Let_def planned_keep_def list_all_iff split: prod.splits)
  then show ?thesis using that by blast
qed

end
