(* ===== verification/Retention_Replay.thy ===== *)
theory Retention_Replay
  imports Retention_Planner
begin

text \<open>
  The replay half of \<open>planner.go\<close>: what recovery from a kept backup reads from the archive
  (\<open>replay_needs\<close>, stated without reference to the planner), that the planner's walk finds all
  of it live and the WAL floor below it, that the segment loop ends, that the order in which
  Go visits the keep map is irrelevant, and the properties of a successful \<open>Plan\<close>.
\<close>

section \<open>Paths and positions\<close>

lemma nodes_ok_sorted:
  "nodes_ok prev ts \<Longrightarrow> sorted_wrt (\<lambda>a b. Node a < Node b \<and> Fork a \<le> Fork b) ts \<and>
     (\<forall>p. prev = Some p \<longrightarrow> (\<forall>t \<in> set ts. Node p < Node t \<and> Fork p \<le> Fork t))"
proof (induction ts arbitrary: prev)
  case (Cons t ts)
  then have step: "case prev of None \<Rightarrow> True | Some p \<Rightarrow> Node p < Node t \<and> Fork p \<le> Fork t"
    and ok: "nodes_ok (Some t) ts" by auto
  from Cons.IH[OF ok] step show ?case by (force split: option.splits)
qed simp

lemma path_sorted:
  "path_shape_ok path \<Longrightarrow> sorted_wrt (\<lambda>a b. Node a < Node b \<and> Fork a \<le> Fork b) path"
  using nodes_ok_sorted by (auto simp: path_shape_ok_def)

lemma path_distinct: "path_shape_ok path \<Longrightarrow> distinct (map Node path)"
proof -
  have "sorted_wrt (\<lambda>a b. Node a < Node b \<and> Fork a \<le> Fork b) ts \<Longrightarrow> distinct (map Node ts)" for ts
    by (induction ts) auto
  then show "path_shape_ok path \<Longrightarrow> distinct (map Node path)" using path_sorted by blast
qed

lemma reachable_last: "path \<noteq> [] \<Longrightarrow> distinct (map Node path) \<Longrightarrow>
    Node (last path) = Timeline b \<Longrightarrow> reachable b path"
proof (induction path)
  case (Cons t ts)
  show ?case
  proof (cases "ts = []")
    case False
    with Cons.prems have "Node t \<noteq> Timeline b" using last_in_set[OF False]
      by (metis distinct.simps(2) image_eqI last_ConsR list.set_map list.simps(9))
    with False Cons show ?thesis by simp
  qed (use Cons.prems in auto)
qed simp

lemma reachable_split:
  "reachable b path \<Longrightarrow> \<exists>xs t ys. path = xs @ t # ys \<and> Node t = Timeline b \<and>
     (\<forall>x \<in> set xs. Node x \<noteq> Timeline b) \<and> (case ys of [] \<Rightarrow> True | u # _ \<Rightarrow> End b < Fork u)"
proof (induction path)
  case (Cons t ts)
  show ?case
  proof (cases "Node t = Timeline b")
    case True
    with Cons.prems have "t # ts = [] @ t # ts \<and> Node t = Timeline b \<and>
      (\<forall>x \<in> set []. Node x \<noteq> Timeline b) \<and> (case ts of [] \<Rightarrow> True | u # _ \<Rightarrow> End b < Fork u)"
      by simp
    then show ?thesis by blast
  next
    case False
    with Cons.prems have "reachable b ts" by simp
    from Cons.IH[OF this] obtain xs u ys where "ts = xs @ u # ys" "Node u = Timeline b"
      "\<forall>x \<in> set xs. Node x \<noteq> Timeline b" "case ys of [] \<Rightarrow> True | u # _ \<Rightarrow> End b < Fork u" by blast
    with False have "t # ts = (t # xs) @ u # ys \<and> Node u = Timeline b \<and>
      (\<forall>x \<in> set (t # xs). Node x \<noteq> Timeline b) \<and> (case ys of [] \<Rightarrow> True | u # _ \<Rightarrow> End b < Fork u)"
      by simp
    then show ?thesis by blast
  qed
qed simp

section \<open>The segment loop\<close>

text \<open>A live position leaves room for the increment, so the loop variable never wraps.\<close>

lemma unat_add_step:
  fixes start step :: u64
  assumes "start \<le> - 1 - step"
  shows "unat (start + step) = unat start + unat step"
proof -
  have max: "unat (- 1 :: u64) = 2 ^ 64 - 1" by (simp add: unsigned_minus_1_eq_mask mask_eq_exp_minus_1)
  have "unat (- 1 - step :: u64) = 2 ^ 64 - 1 - unat step"
    using unat_sub[of step "- 1"] max by simp
  then have "unat start + unat step < 2 ^ 64"
    using assms unsigned_less[of step, where 'a = nat] by (simp add: word_le_nat_alt)
  then show ?thesis by (simp add: unat_word_ariths)
qed

lemma all_live_covers:
  assumes "all_live fuel live step start end = Some True"
    and "\<And>p. live p \<Longrightarrow> p \<le> - 1 - step" and "0 < unat step"
    and "unat s = unat start + k * unat step" and "s < end"
  shows "live s"
  using assms(1,4)
proof (induction fuel arbitrary: start k)
  case (Suc fuel)
  have "start \<le> s" using Suc.prems(2) by (simp add: word_le_nat_alt)
  with assms(5) have lt: "start < end" by simp
  with Suc.prems(1) have live: "live start" and rest: "all_live fuel live step (start + step) end = Some True"
    by (auto split: if_splits)
  show ?case
  proof (cases k)
    case 0
    then have "s = start" using Suc.prems(2) by (simp add: word_unat_eq_iff)
    with live show ?thesis by simp
  next
    case (Suc k')
    have "unat s = unat (start + step) + k' * unat step"
      using Suc.prems(2) Suc unat_add_step[OF assms(2)[OF live]] by simp
    from Suc.IH[OF rest this] show ?thesis .
  qed
qed simp

lemma all_live_terminates:
  assumes "\<And>p. live p \<Longrightarrow> p \<le> - 1 - step" and "0 < unat step"
    and "unat end \<le> unat start + n * unat step" and "n < fuel"
  shows "all_live fuel live step start end \<noteq> None"
  using assms(3,4)
proof (induction fuel arbitrary: start n)
  case (Suc fuel)
  show ?case
  proof (cases "start < end \<and> live start")
    case True
    then have pos: "0 < n" using Suc.prems(1) by (cases n) (auto simp: word_less_nat_alt)
    have "unat end \<le> unat (start + step) + (n - 1) * unat step"
      using Suc.prems(1) pos unat_add_step[OF assms(1)] True by (cases n) auto
    from Suc.IH[OF this] pos Suc.prems(2) True show ?thesis by simp
  qed (auto)
qed simp

section \<open>Replay intervals\<close>

text \<open>
  What recovery from a backup along a path reads from the archive: on the backup's own
  timeline the WAL from the end of the bundle, on every later timeline from its fork, each
  up to the next fork or, on the last timeline, to the end of the archive. A segment is
  named by its timeline and its aligned start.
\<close>

definition replay_lo :: "backup \<Rightarrow> tnode \<Rightarrow> u64" where
  "replay_lo b t = (if Node t = Timeline b then End b else Fork t)"

definition replay_hi :: "inventory \<Rightarrow> tnode \<Rightarrow> tnode list \<Rightarrow> u64" where
  "replay_hi iv t later = (case later of
     [] \<Rightarrow> archive_end (SegmentBytes iv) (Segments iv) (Node t) | u # _ \<Rightarrow> Fork u)"

definition replay_needs :: "inventory \<Rightarrow> backup \<Rightarrow> tnode list \<Rightarrow> (u32 \<times> u64) set" where
  "replay_needs iv b path = {(Node t, s) | t s earlier later.
     path = earlier @ t # later \<and> Timeline b \<in> Node ` set (earlier @ [t]) \<and>
     replay_lo b t < replay_hi iv t later \<and>
     unat (SegmentBytes iv) dvd unat s \<and>
     unat (replay_lo b t) < unat s + unat (SegmentBytes iv) \<and> s < replay_hi iv t later}"

lemma aligned_from:
  assumes "unat step dvd unat s" and "unat lo < unat s + unat step" and "0 < unat step"
  shows "\<exists>k. unat s = unat (align_down step lo) + k * unat step"
proof -
  obtain q where q: "unat s = unat step * q" using assms(1) by blast
  then have "unat lo < (q + 1) * unat step" using assms(2) by (simp add: algebra_simps)
  then have "unat lo div unat step < q + 1" by (rule less_mult_imp_div_less)
  then have le: "unat lo div unat step \<le> q" by simp
  have "unat s = unat (align_down step lo) + (q - unat lo div unat step) * unat step"
    using q le by (simp add: unat_align_down mult.commute flip: distrib_left)
  then show ?thesis by blast
qed

text \<open>The check the planner makes for one node.\<close>

definition node_replayable ::
  "inventory \<Rightarrow> (u32 \<times> u64 \<rightharpoonup> bool) \<Rightarrow> tnode \<Rightarrow> u64 \<Rightarrow> u64 \<Rightarrow> bool" where
  "node_replayable iv live t lo hi \<longleftrightarrow>
     (\<forall>s. lo < hi \<and> unat (SegmentBytes iv) dvd unat s \<and> unat lo < unat s + unat (SegmentBytes iv) \<and> s < hi
        \<longrightarrow> live (Node t, s) = Some True)"

lemma all_live_replayable:
  assumes "lo < hi \<longrightarrow> all_live fuel (\<lambda>s. live (Node t, s) = Some True) (SegmentBytes iv)
             (align_down (SegmentBytes iv) lo) hi = Some True"
    and "\<And>p v. live p = Some v \<Longrightarrow> snd p \<le> - 1 - SegmentBytes iv" and "0 < unat (SegmentBytes iv)"
  shows "node_replayable iv live t lo hi"
proof (unfold node_replayable_def, intro allI impI, elim conjE)
  fix s
  assume lt: "lo < hi" and al: "unat (SegmentBytes iv) dvd unat s"
    and lo: "unat lo < unat s + unat (SegmentBytes iv)" and s: "s < hi"
  obtain k where k: "unat s = unat (align_down (SegmentBytes iv) lo) + k * unat (SegmentBytes iv)"
    using aligned_from[OF al lo assms(3)] by blast
  have "all_live fuel (\<lambda>s. live (Node t, s) = Some True) (SegmentBytes iv)
      (align_down (SegmentBytes iv) lo) hi = Some True" using assms(1) lt by simp
  from all_live_covers[OF this _ assms(3) k s] show "live (Node t, s) = Some True"
    using assms(2) by fastforce
qed

lemma replay_nodes_started:
  assumes "replay_nodes iv live frontier current b True pos path floor = Inr floor'"
    and "\<And>p v. live p = Some v \<Longrightarrow> snd p \<le> - 1 - SegmentBytes iv" and "0 < unat (SegmentBytes iv)"
  shows "floor' \<le> floor \<and> (\<forall>earlier t later. path = earlier @ t # later \<longrightarrow>
     (let lo = (if earlier = [] then pos else Fork t);
          hi = (case later of [] \<Rightarrow> max lo (frontier (Node t)) | u # _ \<Rightarrow> Fork u) in
      lo \<le> hi \<and> node_replayable iv live t lo hi \<and>
      (Node t = current \<longrightarrow> floor' \<le> align_down (SegmentBytes iv)
         (if Timeline b \<noteq> current then Fork t else min (Start b) (Redo b)))))"
  using assms(1)
proof (induction path arbitrary: pos floor)
  case (Cons t ts)
  define hi where "hi = node_end frontier pos t ts"
  define fl where "fl = node_floor iv current b t floor"
  from Cons.prems have order: "pos \<le> hi"
    and rest: "replay_nodes iv live frontier current b True hi ts fl = Inr floor'"
    and live: "pos < hi \<longrightarrow> all_live (length (Segments iv) + 3) (\<lambda>s. live (Node t, s) = Some True)
        (SegmentBytes iv) (align_down (SegmentBytes iv) pos) hi = Some True"
    unfolding hi_def fl_def
    by (auto simp: Let_def not_less node_covered_def split: if_splits option.splits bool.splits)
  have here: "node_replayable iv live t pos hi" by (rule all_live_replayable[OF live assms(2,3)])
  note ih = Cons.IH[OF rest]
  have fl: "fl \<le> floor" "Node t = current \<Longrightarrow> fl \<le> align_down (SegmentBytes iv)
         (if Timeline b \<noteq> current then Fork t else min (Start b) (Redo b))"
    by (auto simp: fl_def node_floor_def)
  show ?case
  proof (intro conjI allI impI)
    show "floor' \<le> floor" using ih fl(1) by (meson order_trans)
    fix earlier u later
    assume eq: "t # ts = earlier @ u # later"
    show "let lo = (if earlier = [] then pos else Fork u);
          h = (case later of [] \<Rightarrow> max lo (frontier (Node u)) | v # _ \<Rightarrow> Fork v) in
      lo \<le> h \<and> node_replayable iv live u lo h \<and>
      (Node u = current \<longrightarrow> floor' \<le> align_down (SegmentBytes iv)
         (if Timeline b \<noteq> current then Fork u else min (Start b) (Redo b)))"
    proof (cases earlier)
      case Nil
      then show ?thesis using eq order here hi_def[unfolded node_end_def] fl(2) ih by (auto simp: Let_def)
    next
      case (Cons e es)
      with eq have ts: "ts = es @ u # later" by simp
      have "(if es = [] then hi else Fork u) = Fork u" using ts by (simp add: hi_def node_end_def)
      moreover note conjunct2[OF ih, rule_format, OF ts]
      ultimately show ?thesis using Cons by (simp add: Let_def)
    qed
  qed
qed simp

lemma replay_nodes_skip:
  assumes "\<forall>x \<in> set xs. Node x \<noteq> Timeline b" and "Node t = Timeline b"
  shows "replay_nodes iv live frontier current b False pos (xs @ t # ys) floor =
         replay_nodes iv live frontier current b True pos (t # ys) floor"
  using assms by (induction xs) (simp_all add: Let_def)

text \<open>A successful walk of one path: every segment recovery reads is live, and the floor is
  at or below everything the path needs on the current timeline.\<close>

lemma replay_path_result:
  assumes ok: "replay_path iv live frontier current b path floor = Inr floor'"
    and reach: "reachable b path" and shape: "path_shape_ok path"
    and live: "\<And>p v. live p = Some v \<Longrightarrow> snd p \<le> - 1 - SegmentBytes iv"
    and step: "0 < unat (SegmentBytes iv)"
    and fr: "\<And>t. frontier t = archive_end (SegmentBytes iv) (Segments iv) t"
    and valid: "Start b < End b" "Redo b \<le> Start b"
    and need: "(tm, s) \<in> replay_needs iv b path"
  shows "live (tm, s) = Some True \<and> (tm = current \<longrightarrow> floor' \<le> s)"
proof -
  obtain xs t0 ys where path: "path = xs @ t0 # ys" and t0: "Node t0 = Timeline b"
    and xs: "\<forall>x \<in> set xs. Node x \<noteq> Timeline b" using reachable_split[OF reach] by blast
  from ok reach have walk: "replay_nodes iv live frontier current b True (End b) (t0 # ys) floor = Inr floor'"
    by (simp add: replay_path_def path replay_nodes_skip[OF xs t0])
  note facts = replay_nodes_started[OF walk live step]
  obtain t earlier later where split: "path = earlier @ t # later" and tm: "tm = Node t"
    and past: "Timeline b \<in> Node ` set (earlier @ [t])"
    and lt: "replay_lo b t < replay_hi iv t later" and al: "unat (SegmentBytes iv) dvd unat s"
    and lo: "unat (replay_lo b t) < unat s + unat (SegmentBytes iv)" and hi: "s < replay_hi iv t later"
    using need unfolding replay_needs_def by auto
  have dist: "distinct (map Node path)" by (rule path_distinct[OF shape])
  have "\<exists>es. earlier = xs @ es \<and> t0 # ys = es @ t # later"
  proof -
    from past obtain u where u: "u \<in> set (earlier @ [t])" "Node u = Timeline b"
      by (metis imageE)
    have "length xs \<le> length earlier"
    proof (rule ccontr)
      assume "\<not> length xs \<le> length earlier"
      then have "Suc (length earlier) \<le> length xs" by simp
      then have "take (Suc (length earlier)) xs = take (Suc (length earlier)) path"
        by (simp add: path)
      also have "\<dots> = earlier @ [t]" by (simp add: split)
      finally have "set (earlier @ [t]) \<subseteq> set xs" by (metis set_take_subset)
      with xs u show False by auto
    qed
    moreover from path split have "xs @ (t0 # ys) = earlier @ (t # later)" by simp
    ultimately show ?thesis by (auto simp: append_eq_append_conv2)
  qed
  then obtain es where es: "earlier = xs @ es" "t0 # ys = es @ t # later" by blast
  have lo_eq: "replay_lo b t = (if es = [] then End b else Fork t)"
    using es dist path t0 by (cases es) (auto simp: replay_lo_def)
  have hi_eq: "replay_hi iv t later = (case later of [] \<Rightarrow> max (replay_lo b t) (frontier (Node t)) | u # _ \<Rightarrow> Fork u)"
    using lt by (auto simp: replay_hi_def fr max_def split: list.splits)
  from facts es(2) have node: "node_replayable iv live t (replay_lo b t) (replay_hi iv t later)"
    and floor: "Node t = current \<Longrightarrow> floor' \<le> align_down (SegmentBytes iv)
         (if Timeline b \<noteq> current then Fork t else min (Start b) (Redo b))"
    unfolding hi_eq lo_eq by (auto simp: Let_def)
  have "live (Node t, s) = Some True"
    using node lt al lo hi unfolding node_replayable_def by blast
  moreover have "floor' \<le> s" if cur: "Node t = current"
  proof -
    have "(if Timeline b \<noteq> current then Fork t else min (Start b) (Redo b)) \<le> replay_lo b t"
      using valid cur by (auto simp: replay_lo_def min_def)
    from align_down_mono[OF this] floor[OF cur]
    have "floor' \<le> align_down (SegmentBytes iv) (replay_lo b t)" by (meson order_trans)
    moreover obtain k where "unat s = unat (align_down (SegmentBytes iv) (replay_lo b t)) + k * unat (SegmentBytes iv)"
      using aligned_from[OF al lo step] by blast
    ultimately show ?thesis by (simp add: word_le_nat_alt)
  qed
  ultimately show ?thesis using tm by simp
qed

section \<open>The WAL floor\<close>

lemma node_floor_le: "node_floor iv current b t floor \<le> floor"
  by (simp add: node_floor_def)

lemma node_floor_min: "node_floor iv current b t (min f g) = min (node_floor iv current b t f) g"
  by (simp add: node_floor_def min.assoc min.commute min.left_commute)

lemma replay_nodes_floor_le:
  "replay_nodes iv live frontier current b started pos path floor = Inr floor' \<Longrightarrow> floor' \<le> floor"
proof (induction path arbitrary: started pos floor)
  case (Cons t ts)
  from Cons.prems obtain st pos' where
    "replay_nodes iv live frontier current b st pos' ts floor = Inr floor' \<or>
     replay_nodes iv live frontier current b st pos' ts (node_floor iv current b t floor) = Inr floor'"
    by (auto simp: Let_def split: if_splits option.splits bool.splits)
  then show ?case using Cons.IH node_floor_le by (meson order_trans)
qed simp

lemma replay_path_floor_le: "replay_path iv live frontier current b path f = Inr f' \<Longrightarrow> f' \<le> f"
  by (auto simp: replay_path_def dest: replay_nodes_floor_le split: if_splits)

lemma replay_paths_floor_le:
  "fold_res (replay_path iv live frontier current b) ps f = Inr f' \<Longrightarrow> f' \<le> f"
  by (rule fold_res_invariant[where I = "\<lambda>g. g \<le> f"])
    (auto dest: replay_path_floor_le intro: order_trans)

lemma wal_floor_path:
  assumes "wal_floor iv live frontier current kept = Inr floor" and "b \<in> set kept"
    and "path \<in> set (Paths iv)"
  shows "\<exists>f f'. replay_path iv live frontier current b path f = Inr f' \<and> floor \<le> f'"
proof -
  let ?Q = "\<lambda>g. \<exists>f f'. replay_path iv live frontier current b path f = Inr f' \<and> g \<le> f'"
  have inner: "?Q s'" if "fold_res (replay_path iv live frontier current b) (Paths iv) s = Inr s'" for s s'
    by (rule fold_res_establish[OF that assms(3)])
      (auto dest: replay_path_floor_le intro: order_trans)
  show ?thesis
    by (rule fold_res_establish[OF assms(1)[unfolded wal_floor_def] assms(2)])
      (use inner in blast, meson order_trans replay_paths_floor_le)
qed

text \<open>The floor is computed by a minimum and the loop fails on the first bad path, so the
  order in which the kept backups are visited does not matter.\<close>

lemma replay_path_floor_min:
  "replay_nodes iv live frontier current b started pos path (min f g) =
     (case replay_nodes iv live frontier current b started pos path f of
        Inl e \<Rightarrow> Inl e | Inr f' \<Rightarrow> Inr (min f' g))"
proof (induction path arbitrary: started pos f)
  case (Cons t ts)
  show ?case
    by (cases "node_covered iv live t pos (node_end frontier pos t ts)")
      (auto simp: Let_def Cons.IH node_floor_min split: bool.split)
qed simp

lemma replay_path_min:
  "replay_path iv live frontier current b path (min f g) =
     (case replay_path iv live frontier current b path f of
        Inl e \<Rightarrow> Inl e | Inr f' \<Rightarrow> Inr (min f' g))"
  by (simp add: replay_path_def replay_path_floor_min)

section \<open>Termination of the segment loop\<close>

lemma segment_bytes_pos: "plan_input_ok iv c m \<Longrightarrow> 0 < unat (SegmentBytes iv)"
proof -
  assume "plan_input_ok iv c m"
  then have "2 ^ 20 \<le> SegmentBytes iv" by (simp add: plan_input_ok_def valid_segment_bytes_def)
  then show ?thesis by (simp add: word_le_nat_alt)
qed

lemma segment_count_bound:
  assumes "lo \<le> hi" and "\<not> of_nat n < (hi - lo) div step" and "0 < unat (step :: u64)"
  shows "unat hi \<le> unat (align_down step lo) + (n + 2) * unat step"
proof -
  let ?q = "unat ((hi - lo) div step)"
  have "?q \<le> unat (of_nat n :: u64)" using assms(2) by (simp add: word_less_nat_alt not_less)
  also have "\<dots> \<le> n" by (simp add: unat_of_nat)
  finally have q: "?q \<le> n" .
  have "unat (hi - lo) = unat hi - unat lo" using assms(1) by (simp add: unat_sub word_le_nat_alt)
  moreover have "unat (hi - lo) < (?q + 1) * unat step"
    using assms(3) by (simp add: unat_div dividend_less_div_times)
  moreover have "(?q + 1) * unat step \<le> (n + 1) * unat step" using q by (intro mult_le_mono1) simp
  moreover have "(n + 2) * unat step = (n + 1) * unat step + unat step" by simp
  moreover have "unat lo \<le> unat hi" using assms(1) by (simp add: word_le_nat_alt)
  moreover have "unat lo < unat (align_down step lo) + unat step"
    using assms(3) by (simp add: unat_align_down dividend_less_div_times add.commute)
  ultimately show ?thesis by linarith
qed

lemma replay_nodes_terminates:
  assumes "\<And>p v. live p = Some v \<Longrightarrow> snd p \<le> - 1 - SegmentBytes iv" and "0 < unat (SegmentBytes iv)"
  shows "replay_nodes iv live frontier current b started pos path floor \<noteq> Inl Loop_Exhausted"
proof (induction path arbitrary: started pos floor)
  case (Cons t ts)
  have "node_covered iv live t pos hi \<noteq> None"
    if "\<not> hi < pos" "\<not> of_nat (length (Segments iv)) < (hi - pos) div SegmentBytes iv" for hi
  proof (cases "pos < hi")
    case True
    have "all_live (length (Segments iv) + 3) (\<lambda>s. live (Node t, s) = Some True) (SegmentBytes iv)
      (align_down (SegmentBytes iv) pos) hi \<noteq> None"
      by (rule all_live_terminates[where n = "length (Segments iv) + 2"])
        (use that assms segment_count_bound[of pos hi] in \<open>auto simp: not_less\<close>)
    with True show ?thesis by (simp add: node_covered_def)
  qed (simp add: node_covered_def)
  from this[of "node_end frontier pos t ts"] Cons.IH show ?case
    by (auto simp: Let_def split: option.splits bool.splits)
qed simp

lemma wal_floor_terminates:
  assumes "\<And>p v. live p = Some v \<Longrightarrow> snd p \<le> - 1 - SegmentBytes iv" and "0 < unat (SegmentBytes iv)"
  shows "wal_floor iv live frontier current kept \<noteq> Inl Loop_Exhausted"
proof
  assume run: "wal_floor iv live frontier current kept = Inl Loop_Exhausted"
  have path: "replay_path iv live frontier current b path f \<noteq> Inl Loop_Exhausted" for b path f
    using replay_nodes_terminates[OF assms] by (simp add: replay_path_def)
  have inner: "fold_res (replay_path iv live frontier current b) ps f \<noteq> Inl Loop_Exhausted" for b ps f
    using fold_res_never[where I = "\<lambda>_. True"] path by metis
  show False
    by (rule fold_res_never[where I = "\<lambda>_. True", OF run[unfolded wal_floor_def]]) (use inner in auto)
qed

text \<open>The other passes only return \<open>ErrCoverage\<close>.\<close>

lemma plan_pass_errors:
  shows "fold_res add_path ps st \<noteq> Inl Loop_Exhausted"
    and "fold_res (find_current paths anc) ps cur \<noteq> Inl Loop_Exhausted"
    and "fold_res (add_backup paths) bs m \<noteq> Inl Loop_Exhausted"
    and "fold_res (add_segment paths step) ss lf \<noteq> Inl Loop_Exhausted"
proof -
  have "add_path p s \<noteq> Inl Loop_Exhausted" for p s
    by (cases s) (simp add: add_path_def Let_def)
  then show "fold_res add_path ps st \<noteq> Inl Loop_Exhausted"
    using fold_res_never[where I = "\<lambda>_. True"] by metis
  have "find_current paths anc p c \<noteq> Inl Loop_Exhausted" for p c
    by (simp add: find_current_def Let_def)
  then show "fold_res (find_current paths anc) ps cur \<noteq> Inl Loop_Exhausted"
    using fold_res_never[where I = "\<lambda>_. True"] by metis
  have "add_backup paths b m \<noteq> Inl Loop_Exhausted" for b m
    by (simp add: add_backup_def)
  then show "fold_res (add_backup paths) bs m \<noteq> Inl Loop_Exhausted"
    using fold_res_never[where I = "\<lambda>_. True"] by metis
  have "add_segment paths step s lf \<noteq> Inl Loop_Exhausted" for s lf
    by (cases lf) (simp add: add_segment_def Let_def)
  then show "fold_res (add_segment paths step) ss lf \<noteq> Inl Loop_Exhausted"
    using fold_res_never[where I = "\<lambda>_. True"] by metis
qed

section \<open>Order independence\<close>

lemma fold_res_min:
  fixes F :: "'a \<Rightarrow> u64 \<Rightarrow> 'e + u64"
  assumes "\<And>b f. F b f = (case F b (- 1) of Inl e \<Rightarrow> Inl e | Inr v \<Rightarrow> Inr (min v f))"
  shows "fold_res F bs s = Inr r \<longleftrightarrow>
    (\<forall>b \<in> set bs. \<exists>v. F b (- 1) = Inr v) \<and> r = Min (insert s ((projr \<circ> (\<lambda>b. F b (- 1))) ` set bs))"
proof (induction bs arbitrary: s)
  case (Cons b bs)
  show ?case
  proof (cases "F b (- 1)")
    case (Inl e)
    then have "F b s = Inl e" using assms[of b s] by simp
    with Inl show ?thesis by simp
  next
    case (Inr v)
    then have "F b s = Inr (min v s)" using assms[of b s] by simp
    with Inr Cons.IH[of "min v s"] show ?thesis
      by (cases "set bs = {}") (auto simp: min.assoc min.commute min.left_commute)
  qed
qed auto

text \<open>\<open>for id := range p.Keep\<close> visits a map in an unspecified order; only the
  set of kept backups matters for the result.\<close>

lemma wal_floor_order:
  assumes "set kept = set kept'"
  shows "wal_floor iv live frontier current kept = Inr f \<longleftrightarrow>
         wal_floor iv live frontier current kept' = Inr f"
proof -
  let ?P = "replay_path iv live frontier current"
  have top: "min (- 1) f = (f :: u64)" for f by (simp add: min.absorb2)
  have path: "?P b p f = (case ?P b p (- 1) of Inl e \<Rightarrow> Inl e | Inr v \<Rightarrow> Inr (min v f))" for b p f
    using replay_path_min[of iv live frontier current b p "- 1" f] by (simp add: top)
  have fold: "fold_res (?P b) ps f = (case fold_res (?P b) ps (- 1) of Inl e \<Rightarrow> Inl e | Inr v \<Rightarrow> Inr (min v f))"
    for b ps f
  proof (induction ps arbitrary: f)
    case (Cons p ps)
    show ?case
    proof (cases "?P b p (- 1)")
      case (Inr v)
      then show ?thesis
        using Cons.IH[of v] Cons.IH[of "min v f"] path[of b p f]
        by (auto simp: min.assoc split: sum.splits)
    qed (use path[of b p f] in simp)
  qed (simp add: top)
  show ?thesis unfolding wal_floor_def fold_res_min[OF fold] assms by simp
qed

end
