(* ===== verification/Retention_Properties.thy ===== *)
theory Retention_Properties
  imports Retention_Replay
begin

text \<open>
  The promises of \<open>retention.Plan\<close>, each for every inventory and policy the function accepts,
  and a small inventory (one timeline, three fulls, one differential, five segments) at which
  the hypotheses of the properties hold.
\<close>

definition example_backup :: "string \<Rightarrow> string \<Rightarrow> instant \<Rightarrow> u64 \<Rightarrow> u64 \<Rightarrow> backup" where
  "example_backup i p completed s e =
     \<lparr>ID = i, Parent = p, Timeline = 1, Completed = completed, Start = s, Redo = s, End = e\<rparr>"

definition example_inventory :: inventory where
  "example_inventory =
     \<lparr>Backups = [example_backup ''a'' [] 100 0 16, example_backup ''b'' ''a'' 200 0x100010 0x100020,
        example_backup ''c'' [] 300 0x200010 0x200020, example_backup ''d'' ''c'' 400 0x300010 0x300020],
      Paths = [[\<lparr>Node = 1, Fork = 0\<rparr>]],
      Segments = map (\<lambda>n. \<lparr>SegTimeline = 1, SegStart = of_nat n * 0x100000, SegLive = True\<rparr>) [0..<5],
      SegmentBytes = 0x100000\<rparr>"

definition example_decision :: decision where
  "example_decision = projr (Plan example_inventory 350 1 None)"

lemma example_plan: "Plan example_inventory 350 1 None = Inr example_decision"
proof -
  have "isl (Plan example_inventory 350 1 None) = False" by code_simp
  then show ?thesis by (simp add: example_decision_def)
qed

lemma example_facts:
  "Keep example_decision ''d'' \<noteq> None" "Keep example_decision ''a'' = None"
  "Expire example_decision = [''b'', ''a'']" "Current example_decision = 1"
  "WALFloor example_decision = 0x200000"
  by code_simp+

section \<open>Safety of WAL retirement\<close>

lemma kept_replay_live:
  assumes plan: "Plan iv cutoff minimum hint = Inr d"
    and b: "b \<in> set (Backups iv)" "Keep d (ID b) \<noteq> None"
    and path: "path \<in> set (Paths iv)" "reachable b path"
    and need: "(tm, s) \<in> replay_needs iv b path"
  shows "\<exists>seg \<in> set (Segments iv). SegTimeline seg = tm \<and> SegStart seg = s \<and> SegLive seg \<and>
     \<not> (tm = Current d \<and> s < WALFloor d)"
  using plan
proof (rule Plan_cases)
  fix paths ancestors byID live frontier floor
  assume ok: "plan_input_ok iv cutoff minimum"
    and p: "fold_res add_path (Paths iv) (Map.empty, {}) = Inr (paths, ancestors)"
    and bt: "fold_res (add_backup paths) (Backups iv) Map.empty = Inr byID"
    and sg: "fold_res (add_segment paths (SegmentBytes iv)) (Segments iv) (Map.empty, \<lambda>_. 0) = Inr (live, frontier)"
    and fl: "wal_floor iv live frontier (Current d) (kept_backups iv (planned_keep iv cutoff minimum)) = Inr floor"
    and keep: "Keep d = planned_keep iv cutoff minimum"
    and floor: "WALFloor d = apply_hint hint (Current d) (SegmentBytes iv) floor"
  have live: "snd p \<le> - 1 - SegmentBytes iv" if "live p = Some v" for p v
    using live_table[OF sg, of "fst p" "snd p"] that by auto
  have kept: "b \<in> set (kept_backups iv (planned_keep iv cutoff minimum))"
    using b keep by (simp add: kept_backups_def)
  obtain f f' where walk: "replay_path iv live frontier (Current d) b path f = Inr f'" "floor \<le> f'"
    using wal_floor_path[OF fl kept path(1)] by blast
  have valid: "Start b < End b" "Redo b \<le> Start b" using backup_table_valid[OF bt b(1)] by auto
  from replay_path_result[OF walk(1) path(2) path_table_shape[OF p path(1)] live
      segment_bytes_pos[OF ok] frontier_table[OF sg] valid need]
  have seg: "live (tm, s) = Some True" "tm = Current d \<Longrightarrow> f' \<le> s" by auto
  have "WALFloor d \<le> floor"
    unfolding floor apply_hint_def by (auto split: option.splits)
  with seg(2) walk(2) have "\<not> (tm = Current d \<and> s < WALFloor d)"
    by (meson order_trans leD)
  with live_table[OF sg seg(1)] show ?thesis by auto
qed

text \<open>C2. For every backup the plan keeps and every known timeline path the backup lies on, each
  archived segment that recovery from the backup along the path reads is in the inventory,
  is live, and is not below the WAL floor of the current timeline: retiring the segments
  below the floor never breaks the replay of a kept backup.\<close>

theorem Plan_replay_preserved:
  assumes plan: "Plan iv cutoff minimum hint = Inr d"
    and b: "b \<in> set (Backups iv)" "Keep d (ID b) \<noteq> None"
    and path: "path \<in> set (Paths iv)" "reachable b path"
    and need: "(tm, s) \<in> replay_needs iv b path"
  shows "\<exists>seg \<in> set (Segments iv). SegTimeline seg = tm \<and> SegStart seg = s \<and> SegLive seg \<and>
     \<not> (tm = Current d \<and> s < WALFloor d)"
  by (rule kept_replay_live[OF assms])

lemma Plan_replay_preserved_witness:
  "\<exists>seg \<in> set (Segments example_inventory). SegTimeline seg = 1 \<and> SegStart seg = 0x300000 \<and> SegLive seg \<and>
     \<not> ((1::u32) = Current example_decision \<and> 0x300000 < WALFloor example_decision)"
proof -
  let ?b = "example_backup ''d'' ''c'' 400 0x300010 0x300020"
  have b: "?b \<in> set (Backups example_inventory)" "Keep example_decision (ID ?b) \<noteq> None"
    using example_facts(1) by (auto simp: example_inventory_def example_backup_def)
  have p: "[\<lparr>Node = 1, Fork = 0\<rparr>] \<in> set (Paths example_inventory)" "reachable ?b [\<lparr>Node = 1, Fork = 0\<rparr>]"
    by (auto simp: example_inventory_def example_backup_def)
  let ?n = "\<lparr>Node = 1, Fork = 0\<rparr> :: tnode"
  have lo: "replay_lo ?b ?n = 0x300020" and hi: "replay_hi example_inventory ?n [] = 0x500000"
    and sb: "SegmentBytes example_inventory = 0x100000" by code_simp+
  have "[?n] = [] @ ?n # [] \<and> Timeline ?b \<in> Node ` set ([] @ [?n]) \<and>
     replay_lo ?b ?n < replay_hi example_inventory ?n [] \<and>
     unat (SegmentBytes example_inventory) dvd unat (0x300000 :: u64) \<and>
     unat (replay_lo ?b ?n) < unat (0x300000 :: u64) + unat (SegmentBytes example_inventory) \<and>
     0x300000 < replay_hi example_inventory ?n []"
    unfolding lo hi sb by (simp add: example_backup_def)
  then have "(Node ?n, 0x300000) \<in> replay_needs example_inventory ?b [?n]"
    unfolding replay_needs_def by blast
  then have "(1, 0x300000) \<in> replay_needs example_inventory ?b [?n]" by simp
  from Plan_replay_preserved[OF example_plan b p this] show ?thesis .
qed

text \<open>The innermost loop over segment positions, whose variable is a \<open>uint64\<close> that could
  wrap around, always ends: \<open>Plan\<close> returns a decision or \<open>ErrCoverage\<close> on every input.\<close>

theorem Plan_terminates: "Plan iv cutoff minimum hint \<noteq> Inl Loop_Exhausted"
proof
  assume run: "Plan iv cutoff minimum hint = Inl Loop_Exhausted"
  have live: "snd p \<le> - 1 - SegmentBytes iv"
    if "fold_res (add_segment paths (SegmentBytes iv)) (Segments iv) (Map.empty, \<lambda>_. 0) = Inr (live, frontier)"
      "live p = Some v" for paths live frontier p v
    using live_table[OF that(1), of "fst p" "snd p" v] that(2) by auto
  have floor: "wal_floor iv live frontier cur kept \<noteq> Inl Loop_Exhausted"
    if "plan_input_ok iv cutoff minimum"
      "fold_res (add_segment paths (SegmentBytes iv)) (Segments iv) (Map.empty, \<lambda>_. 0) = Inr (live, frontier)"
    for paths live frontier cur kept
    by (rule wal_floor_terminates) (use live[OF that(2)] segment_bytes_pos[OF that(1)] in auto)
  obtain keep sh where "fold (keep_on_path iv cutoff minimum) (Paths iv) (Map.empty, False) = (keep, sh)"
    by fastforce
  with run show False
    unfolding Plan_def
    by (auto simp: res_bind_Inl Let_def plan_pass_errors floor split: prod.splits)
qed

section \<open>What is kept\<close>

lemma planned_keep_path:
  assumes "path \<in> set (Paths iv)" and "\<And>st. fst (keep_on_path iv c m path st) i \<noteq> None"
  shows "planned_keep iv c m i \<noteq> None"
  unfolding planned_keep_def keep_parents_iff using fold_keep_path[OF assms] by blast

lemma own_path:
  assumes "fold_res add_path (Paths iv) (Map.empty, {}) = Inr (paths, ancestors)"
    and "fold_res (add_backup paths) (Backups iv) Map.empty = Inr byID" and "b \<in> set (Backups iv)"
  shows "\<exists>path \<in> set (Paths iv). reachable b path"
proof -
  obtain path where p: "paths (Timeline b) = Some path"
    using backup_table_valid[OF assms(2,3)] by auto
  from path_table_only[OF assms(1) p] have path: "path \<in> set (Paths iv)" "Node (last path) = Timeline b" by auto
  have shape: "path_shape_ok path" by (rule path_table_shape[OF assms(1) path(1)])
  then have "path \<noteq> []" by (simp add: path_shape_ok_def)
  from reachable_last[OF this path_distinct[OF shape] path(2)] path(1) show ?thesis by blast
qed

text \<open>Every backup completed at or after the cutoff is kept.\<close>

theorem Plan_keeps_window:
  assumes "Plan iv cutoff minimum hint = Inr d" and "b \<in> set (Backups iv)" and "cutoff \<le> Completed b"
  shows "Keep d (ID b) \<noteq> None"
  using assms(1)
proof (rule Plan_cases)
  fix paths ancestors byID
  assume p: "fold_res add_path (Paths iv) (Map.empty, {}) = Inr (paths, ancestors)"
    and bt: "fold_res (add_backup paths) (Backups iv) Map.empty = Inr byID"
    and keep: "Keep d = planned_keep iv cutoff minimum"
  obtain path where path: "path \<in> set (Paths iv)" "reachable b path"
    using own_path[OF p bt assms(2)] by blast
  show ?thesis
    unfolding keep
    by (rule planned_keep_path[OF path(1)]) (use keep_on_path_window[OF assms(2) path(2)] assms(3) in auto)
qed

lemma Plan_keeps_window_witness:
  "Keep example_decision (ID (example_backup ''d'' ''c'' 400 0x300010 0x300020)) \<noteq> None"
  by (rule Plan_keeps_window[OF example_plan]) (auto simp: example_inventory_def example_backup_def)

text \<open>On every path, the plan keeps a backup completed at or before the cutoff that is at
  least as recent as every reachable backup completed at or before the cutoff: a recovery to
  any moment of the window along the path has a base.\<close>

theorem Plan_keeps_anchor:
  assumes "Plan iv cutoff minimum hint = Inr d" and "path \<in> set (Paths iv)"
    and "c \<in> set (Backups iv)" "reachable c path" "Completed c \<le> cutoff"
  shows "\<exists>a \<in> set (Backups iv). reachable a path \<and> Completed c \<le> Completed a \<and>
     Completed a \<le> cutoff \<and> Keep d (ID a) \<noteq> None"
proof -
  let ?cs = "candidates iv path"
  have c: "c \<in> set ?cs" using assms(3,4) by simp
  then have "\<exists>x \<in> set ?cs. Completed x \<le> cutoff" using assms(5) by blast
  from split_list_first_prop[OF this] obtain xs a ys where split: "?cs = xs @ a # ys"
    and xs: "\<forall>x \<in> set xs. cutoff < Completed x" and a: "Completed a \<le> cutoff"
    by (auto simp: not_le)
  have "Completed c \<le> Completed a"
  proof -
    have "c \<notin> set xs" using xs assms(5) by (auto simp: not_less)
    then have "c = a \<or> c \<in> set ys" using c split by auto
    moreover have "sorted_wrt (\<lambda>a b. \<not> newer b a) (xs @ a # ys)"
      unfolding split[symmetric] candidates_def by (rule newer.sorted_sort_slice)
    ultimately show ?thesis by (auto simp: sorted_wrt_append newer_def split: if_splits)
  qed
  moreover have "Keep d (ID a) \<noteq> None"
  proof -
    have "Keep d = planned_keep iv cutoff minimum" by (rule Plan_cases[OF assms(1)])
    then show ?thesis
      using planned_keep_path[OF assms(2) keep_on_path_anchor[OF split xs]] a by (auto simp: not_less)
  qed
  moreover have "a \<in> set (Backups iv)" "reachable a path"
    using split set_candidates[of iv path] by auto
  ultimately show ?thesis using a by blast
qed

lemma Plan_keeps_anchor_witness:
  "\<exists>a \<in> set (Backups example_inventory). reachable a [\<lparr>Node = 1, Fork = 0\<rparr>] \<and> 300 \<le> Completed a \<and>
     Completed a \<le> 350 \<and> Keep example_decision (ID a) \<noteq> None"
  using Plan_keeps_anchor[OF example_plan, of "[\<lparr>Node = 1, Fork = 0\<rparr>]"
      "example_backup ''c'' [] 300 0x200010 0x200020"]
  by (simp add: example_inventory_def example_backup_def)

text \<open>The order of the candidates of a path, with distinct identifiers.\<close>

lemma candidates_newer:
  assumes "fold_res (add_backup paths) (Backups iv) Map.empty = Inr byID"
    and "candidates iv path = xs @ f # ys" and "g \<in> set xs"
  shows "newer g f"
proof -
  have in_iv: "set (xs @ f # ys) \<subseteq> set (Backups iv)"
    using assms(2) set_candidates[of iv path] by auto
  have "distinct (candidates iv path)"
    using backup_table_distinct[OF assms(1)] by (auto simp: candidates_def distinct_map)
  then have "g \<noteq> f" using assms(2,3) by auto
  then have "ID g \<noteq> ID f"
    using backup_table_lookup[OF assms(1)] in_iv assms(3)
    by (metis UnCI insertCI list.set(2) option.inject set_append subset_iff)
  moreover have "sorted_wrt (\<lambda>a b. \<not> newer b a) (xs @ f # ys)"
    unfolding assms(2)[symmetric] candidates_def by (rule newer.sorted_sort_slice)
  then have "\<not> newer f g" using assms(3) by (auto simp: sorted_wrt_append)
  ultimately show ?thesis by (auto simp: newer_def split: if_splits)
qed

lemma planned_keep_first_fulls:
  assumes "path \<in> set (Paths iv)" and "candidates iv path = xs @ ys"
    and "g \<in> set (take (nat m) (filter (\<lambda>b. Parent b = []) xs))"
  shows "planned_keep iv c m (ID g) \<noteq> None"
proof -
  let ?F = "filter (\<lambda>b. Parent b = []) xs"
  from assms(3) obtain i where i: "i < length ?F" "i < nat m" "g = ?F ! i"
    by (auto simp: in_set_conv_nth)
  from filter_nth_split[OF i(1)] obtain as bs where
    ab: "xs = as @ g # bs" "length (filter (\<lambda>b. Parent b = []) as) = i" "Parent g = []"
    using i(3) by blast
  show ?thesis
    by (intro planned_keep_path[OF assms(1)] keep_on_path_full[where xs = as and ys = "bs @ ys"])
      (use ab i(2) assms(2) in auto)
qed

text \<open>A full backup that expires is older, on every path it lies on, than at least
  \<open>minimum\<close> kept full backups of that path.\<close>

theorem Plan_keeps_minimum_fulls:
  assumes "Plan iv cutoff minimum hint = Inr d" and "path \<in> set (Paths iv)"
    and "f \<in> set (Backups iv)" "reachable f path" "Parent f = []" "Keep d (ID f) = None"
  shows "minimum \<le> int (card {g \<in> set (Backups iv). reachable g path \<and> Parent g = [] \<and>
     newer g f \<and> Keep d (ID g) \<noteq> None})"
  using assms(1)
proof (rule Plan_cases)
  fix paths ancestors byID
  assume bt: "fold_res (add_backup paths) (Backups iv) Map.empty = Inr byID"
    and keep: "Keep d = planned_keep iv cutoff minimum"
  let ?cs = "candidates iv path" and ?full = "\<lambda>b. Parent b = []"
  let ?G = "{g \<in> set (Backups iv). reachable g path \<and> Parent g = [] \<and> newer g f \<and> Keep d (ID g) \<noteq> None}"
  have dist: "distinct ?cs"
    using backup_table_distinct[OF bt] by (auto simp: candidates_def distinct_map)
  obtain xs ys where split: "?cs = xs @ f # ys" using assms(3,4) split_list[of f ?cs] by auto
  define us where "us = take (nat minimum) (filter ?full xs)"
  have many: "nat minimum \<le> length (filter ?full xs)"
  proof (rule ccontr)
    assume "\<not> ?thesis"
    then have "planned_keep iv cutoff minimum (ID f) \<noteq> None"
      by (intro planned_keep_path[OF assms(2)] keep_on_path_full[OF split assms(5)]) simp
    with assms(6) keep show False by simp
  qed
  have us: "set us \<subseteq> set xs \<inter> {b. Parent b = []}"
    by (auto simp: us_def dest: in_set_takeD)
  have "set us \<subseteq> ?G"
    using us planned_keep_first_fulls[OF assms(2) split, of _ minimum cutoff]
      candidates_newer[OF bt split] set_candidates[of iv path] split keep
    by (auto simp: us_def)
  then have "card (set us) \<le> card ?G" by (intro card_mono) auto
  moreover have "card (set us) = nat minimum"
    using many dist split by (simp add: us_def distinct_card)
  ultimately show ?thesis by linarith
qed

lemma Plan_keeps_minimum_fulls_witness:
  "1 \<le> int (card {g \<in> set (Backups example_inventory). reachable g [\<lparr>Node = 1, Fork = 0\<rparr>] \<and> Parent g = [] \<and>
     newer g (example_backup ''a'' [] 100 0 16) \<and> Keep example_decision (ID g) \<noteq> None})"
  by (rule Plan_keeps_minimum_fulls[OF example_plan])
    (use example_facts in \<open>auto simp: example_inventory_def example_backup_def\<close>)

lemma kept_parent:
  assumes "Plan iv cutoff minimum hint = Inr d" and "b \<in> set (Backups iv)"
    and "Keep d (ID b) \<noteq> None" and "Parent b \<noteq> []"
  shows "\<exists>f \<in> set (Backups iv). ID f = Parent b \<and> Parent f = [] \<and> Timeline f = Timeline b \<and>
     End f \<le> Start b \<and> Keep d (ID f) \<noteq> None"
  using assms(1)
proof (rule Plan_cases)
  fix paths ancestors byID
  assume bt: "fold_res (add_backup paths) (Backups iv) Map.empty = Inr byID"
    and par: "\<forall>b \<in> set (Backups iv). parent_ok byID b"
    and keep: "Keep d = planned_keep iv cutoff minimum"
  from par assms(2,4) obtain f where f: "byID (Parent b) = Some f" "Parent f = []"
    "Timeline f = Timeline b" "End f \<le> Start b"
    by (auto simp: parent_ok_def split: option.splits)
  have fin: "f \<in> set (Backups iv)" "ID f = Parent b" using backup_table_only[OF bt f(1)] by auto
  let ?k = "fst (fold (keep_on_path iv cutoff minimum) (Paths iv) (Map.empty, False))"
  have "keep_parents iv ?k (ID b) \<noteq> None" using assms(3) keep by (simp add: planned_keep_def)
  then have "?k (ID b) \<noteq> None \<or> (\<exists>c \<in> set (Backups iv). Parent c \<noteq> [] \<and> Parent c = ID b)"
    unfolding keep_parents_iff by blast
  moreover have "\<not> (\<exists>c \<in> set (Backups iv). Parent c \<noteq> [] \<and> Parent c = ID b)"
  proof
    assume "\<exists>c \<in> set (Backups iv). Parent c \<noteq> [] \<and> Parent c = ID b"
    then obtain c where "c \<in> set (Backups iv)" "Parent c \<noteq> []" "Parent c = ID b" by blast
    with par backup_table_lookup[OF bt assms(2)] assms(4) show False
      by (auto simp: parent_ok_def split: option.splits)
  qed
  ultimately have "planned_keep iv cutoff minimum (Parent b) \<noteq> None"
    unfolding planned_keep_def keep_parents_iff using assms(2,4) by blast
  with f fin keep show ?thesis by auto
qed

text \<open>The full parent of every kept differential is in the inventory and kept, lies on the
  differential's timeline and ended before it started: no kept backup depends on an expired
  one.\<close>

theorem Plan_keeps_parents:
  assumes "Plan iv cutoff minimum hint = Inr d" and "b \<in> set (Backups iv)"
    and "Keep d (ID b) \<noteq> None" and "Parent b \<noteq> []"
  shows "\<exists>f \<in> set (Backups iv). ID f = Parent b \<and> Parent f = [] \<and> Timeline f = Timeline b \<and>
     End f \<le> Start b \<and> Keep d (ID f) \<noteq> None"
  by (rule kept_parent[OF assms])

lemma Plan_keeps_parents_witness:
  "\<exists>f \<in> set (Backups example_inventory). ID f = ''c'' \<and> Parent f = [] \<and> Timeline f = 1 \<and>
     End f \<le> 0x300010 \<and> Keep example_decision (ID f) \<noteq> None"
  using Plan_keeps_parents[OF example_plan, of "example_backup ''d'' ''c'' 400 0x300010 0x300020"]
    example_facts(1)
  by (simp add: example_inventory_def example_backup_def)

section \<open>What expires, and in which order\<close>

lemma lookup_backup_table:
  "fold_res (add_backup paths) bs Map.empty = Inr byID \<Longrightarrow> b \<in> set bs \<Longrightarrow> lookup_backup byID (ID b) = b"
  by (simp add: lookup_backup_def backup_table_lookup)

interpretation expire: slice_order "expire_before byID" for byID
proof unfold_locales
  show "expire_before byID x y \<Longrightarrow> \<not> expire_before byID y x" for x y
    by (auto simp: expire_before_def Let_def split: if_splits)
  show "expire_before byID x z \<Longrightarrow> expire_before byID x y \<or> expire_before byID y z" for x y z
    by (auto simp: expire_before_def Let_def split: if_splits)
qed

lemma expire_set:
  "set (expire_list iv byID keep) = {ID b | b. b \<in> set (Backups iv) \<and> keep (ID b) = None}"
  by (auto simp: expire_list_def)

lemma expired_in_order:
  assumes "Plan iv cutoff minimum hint = Inr d"
  shows "distinct (Expire d) \<and> set (Expire d) = {ID b | b. b \<in> set (Backups iv) \<and> Keep d (ID b) = None} \<and>
    (\<forall>xs f ys. Expire d = xs @ f # ys \<longrightarrow>
       (\<forall>c \<in> set (Backups iv). Parent c = f \<longrightarrow> ID c \<in> set xs))"
  using assms
proof (rule Plan_cases)
  fix paths ancestors byID
  assume bt: "fold_res (add_backup paths) (Backups iv) Map.empty = Inr byID"
    and par: "\<forall>b \<in> set (Backups iv). parent_ok byID b"
    and ex: "Expire d = expire_list iv byID (Keep d)"
  have dist: "distinct (Expire d)"
    using backup_table_distinct[OF bt]
    by (auto simp: ex expire_list_def distinct_map inj_on_def)
  have "ID c \<in> set xs"
    if split: "Expire d = xs @ f # ys" and c: "c \<in> set (Backups iv)" "Parent c = f" for xs f ys c
  proof -
    from split have "f \<in> set (Expire d)" by simp
    then obtain p where p: "p \<in> set (Backups iv)" "ID p = f" "Keep d f = None"
      unfolding ex expire_set by auto
    then have ne: "Parent c \<noteq> []" using backup_table_valid[OF bt p(1)] c(2) by auto
    have "Keep d (ID c) = None"
      using kept_parent[OF assms c(1) _ ne] p(3) c(2) by (metis (no_types))
    then have "ID c \<in> set (Expire d)" unfolding ex expire_set using c(1) by blast
    moreover have full: "Parent p = []"
      using par c backup_table_lookup[OF bt p(1)] p(2) ne by (auto simp: parent_ok_def)
    moreover have "sorted_wrt (\<lambda>a b. \<not> expire_before byID b a) (xs @ f # ys)"
      unfolding split[symmetric] ex expire_list_def by (rule expire.sorted_sort_slice)
    moreover have "expire_before byID (ID c) f"
      using lookup_backup_table[OF bt c(1)] lookup_backup_table[OF bt p(1)] p(2) full ne
      by (simp add: expire_before_def Let_def)
    moreover have "ID c \<noteq> f" using p(2) full ne backup_table_lookup[OF bt] c(1) p(1)
      by (metis option.inject)
    ultimately show ?thesis using split by (auto simp: sorted_wrt_append)
  qed
  with dist show ?thesis unfolding ex expire_set by blast
qed

text \<open>The expired backups are exactly the backups that are not kept, each once, and every
  differential of an expired full is expired and stands before the full in the list: retiring
  a prefix of the list never leaves a live differential without its parent.\<close>

theorem Plan_expire_order:
  assumes "Plan iv cutoff minimum hint = Inr d"
  shows "distinct (Expire d) \<and> set (Expire d) = {ID b | b. b \<in> set (Backups iv) \<and> Keep d (ID b) = None} \<and>
    (\<forall>xs f ys. Expire d = xs @ f # ys \<longrightarrow>
       (\<forall>c \<in> set (Backups iv). Parent c = f \<longrightarrow> ID c \<in> set xs))"
  by (rule expired_in_order[OF assms])

lemma Plan_expire_order_witness:
  "\<exists>xs ys. Expire example_decision = xs @ ''a'' # ys \<and> ''b'' \<in> set xs"
proof -
  have "Expire example_decision = [''b''] @ ''a'' # []" using example_facts(3) by simp
  then have "\<forall>c \<in> set (Backups example_inventory). Parent c = ''a'' \<longrightarrow> ID c \<in> set [''b'']"
    using Plan_expire_order[OF example_plan] by blast
  then have "''b'' \<in> set [''b'']" by (auto simp: example_inventory_def example_backup_def)
  with example_facts(3) show ?thesis by (intro exI[of _ "[''b'']"] exI[of _ "[]"]) simp
qed

text \<open>On every path with a usable backup the most recent one is kept, so the last usable
  root never expires; and when no usable backup of a path is as old as the cutoff, the
  earliest one is kept and the window is reported as shortened.\<close>

theorem Plan_keeps_ends:
  assumes "Plan iv cutoff minimum hint = Inr d" and "path \<in> set (Paths iv)"
    and "b \<in> set (Backups iv)" "reachable b path"
  shows "(\<exists>l \<in> set (Backups iv). reachable l path \<and> Keep d (ID l) \<noteq> None \<and> \<not> newer b l) \<and>
    ((\<forall>c \<in> set (Backups iv). reachable c path \<longrightarrow> cutoff < Completed c) \<longrightarrow>
     Shortened d \<and> (\<exists>e \<in> set (Backups iv). reachable e path \<and> Keep d (ID e) \<noteq> None \<and> \<not> newer e b))"
proof -
  let ?cs = "candidates iv path"
  have b: "b \<in> set (filter (\<lambda>b. reachable b path) (Backups iv))" using assms(3,4) by simp
  then have ne: "?cs \<noteq> []" unfolding candidates_def sort_slice_eq_Nil by (metis empty_iff empty_set)
  have keep: "Keep d = planned_keep iv cutoff minimum"
    by (rule Plan_cases[OF assms(1)])
  have short: "Shortened d = snd (fold (keep_on_path iv cutoff minimum) (Paths iv) (Map.empty, False))"
    by (rule Plan_cases[OF assms(1)])
  have ends: "hd ?cs \<in> set ?cs" "last ?cs \<in> set ?cs" by (rule hd_in_set[OF ne], rule last_in_set[OF ne])
  have "Keep d (ID (hd ?cs)) \<noteq> None"
    unfolding keep by (rule planned_keep_path[OF assms(2) keep_on_path_latest[OF ne]])
  moreover have "\<not> newer b (hd ?cs)"
    unfolding candidates_def by (rule newer.hd_sort_slice_minimal[OF b])
  moreover have "Shortened d \<and> Keep d (ID (last ?cs)) \<noteq> None"
    if old: "\<forall>c \<in> set (Backups iv). reachable c path \<longrightarrow> cutoff < Completed c"
  proof -
    have all: "\<forall>x \<in> set ?cs. cutoff < Completed x" using old by simp
    have "planned_keep iv cutoff minimum (ID (last ?cs)) \<noteq> None"
      by (rule planned_keep_path[OF assms(2)]) (use keep_on_path_earliest[OF ne all] in blast)
    moreover obtain us vs where "Paths iv = us @ path # vs" using split_list[OF assms(2)] by blast
    then have "Shortened d"
      using keep_on_path_earliest[OF ne all] by (simp add: short fold_keep_shortened)
    ultimately show ?thesis by (simp add: keep)
  qed
  moreover have "\<not> newer (last ?cs) b"
    unfolding candidates_def by (rule newer.last_sort_slice_maximal[OF b])
  ultimately show ?thesis using ends by (metis (no_types, lifting) mem_Collect_eq set_candidates)
qed

lemma Plan_keeps_ends_witness:
  "\<exists>l \<in> set (Backups example_inventory). reachable l [\<lparr>Node = 1, Fork = 0\<rparr>] \<and>
     Keep example_decision (ID l) \<noteq> None \<and> \<not> newer (example_backup ''a'' [] 100 0 16) l"
proof -
  have "[\<lparr>Node = 1, Fork = 0\<rparr>] \<in> set (Paths example_inventory)"
    "example_backup ''a'' [] 100 0 16 \<in> set (Backups example_inventory)"
    "reachable (example_backup ''a'' [] 100 0 16) [\<lparr>Node = 1, Fork = 0\<rparr>]"
    by (simp_all add: example_inventory_def example_backup_def)
  from Plan_keeps_ends[OF example_plan this] show ?thesis by blast
qed

text \<open>The planner ranges over the keep map, whose order Go leaves unspecified, to compute
  the WAL floor; the floor, and whether there is one, depends only on which backups are kept.\<close>

theorem Plan_map_order_irrelevant:
  assumes "set kept = set kept'"
  shows "wal_floor iv live frontier current kept = Inr f \<longleftrightarrow>
         wal_floor iv live frontier current kept' = Inr f"
  by (rule wal_floor_order[OF assms])

lemma Plan_map_order_irrelevant_witness:
  "wal_floor example_inventory (\<lambda>_. Some True) (\<lambda>_. 0x500000) 1 (Backups example_inventory) = Inr 0 \<longleftrightarrow>
   wal_floor example_inventory (\<lambda>_. Some True) (\<lambda>_. 0x500000) 1 (rev (Backups example_inventory)) = Inr 0"
  by (rule Plan_map_order_irrelevant) simp

lemma find_current_Inr:
  "find_current paths anc p cur = Inr cur' \<longleftrightarrow>
     list_all (prefix_known paths p) [0..<length p] \<and>
     (if Node (last p) \<in> anc then cur' = cur else cur = 0 \<and> cur' = Node (last p))"
  by (auto simp: find_current_def Let_def)

lemma find_current_leaf:
  assumes "fold_res (find_current paths anc) ps cur = Inr cur'" and "\<forall>p \<in> set ps. Node (last p) \<noteq> 0"
    and "p \<in> set ps" and "Node (last p) \<notin> anc"
  shows "cur' = Node (last p)"
  by (rule fold_res_establish[OF assms(1,3)])
    (use assms(2-4) in \<open>auto simp: find_current_Inr split: if_splits\<close>)

text \<open>The path with the largest last timeline is a leaf.\<close>

lemma leaf_exists:
  assumes "ps \<noteq> []" and "\<And>p. p \<in> set ps \<Longrightarrow> path_shape_ok p"
  shows "\<exists>p \<in> set ps. \<forall>q \<in> set ps. Node (last p) \<notin> Node ` set (butlast q)"
proof -
  define M where "M = Max ((Node \<circ> last) ` set ps)"
  have fin: "finite ((Node \<circ> last) ` set ps)" and ne: "(Node \<circ> last) ` set ps \<noteq> {}" using assms(1) by auto
  obtain p where p: "p \<in> set ps" "Node (last p) = M"
    using Max_in[OF fin ne] by (auto simp: M_def)
  have "Node x < Node (last q)" if "q \<in> set ps" "x \<in> set (butlast q)" for q x
  proof -
    have "q \<noteq> []" using that(2) by auto
    then have "q = butlast q @ [last q]" by simp
    with path_sorted[OF assms(2)[OF that(1)]] that(2) show ?thesis
      by (metis (no_types, lifting) list.set_intros(1) sorted_wrt_append)
  qed
  moreover have "Node (last q) \<le> M" if "q \<in> set ps" for q
    using Max_ge[OF fin] that by (simp add: M_def)
  ultimately show ?thesis using p by (metis imageE leD)
qed

text \<open>The current timeline of a successful plan is the last node of a known path, and the
  paths that end in it are exactly those whose last node is nobody's ancestor: with two
  competing leaves there is no plan.\<close>

theorem Plan_current_is_the_leaf:
  assumes "Plan iv cutoff minimum hint = Inr d"
  shows "(\<exists>p \<in> set (Paths iv). Node (last p) = Current d) \<and>
    (\<forall>p \<in> set (Paths iv). (\<forall>q \<in> set (Paths iv). Node (last p) \<notin> Node ` set (butlast q)) \<longrightarrow>
       Node (last p) = Current d)"
  using assms
proof (rule Plan_cases)
  fix paths ancestors
  assume ok: "plan_input_ok iv cutoff minimum"
    and p: "fold_res add_path (Paths iv) (Map.empty, {}) = Inr (paths, ancestors)"
    and cur: "fold_res (find_current paths ancestors) (Paths iv) 0 = Inr (Current d)"
  have nz: "\<forall>p \<in> set (Paths iv). Node (last p) \<noteq> 0"
  proof
    fix q assume "q \<in> set (Paths iv)"
    then have shape: "path_shape_ok q" by (rule path_table_shape[OF p])
    have "nodes_ok prev ts \<Longrightarrow> ts \<noteq> [] \<Longrightarrow> Node (last ts) \<noteq> 0" for prev ts
      by (induction ts arbitrary: prev) auto
    with shape show "Node (last q) \<noteq> 0" by (auto simp: path_shape_ok_def)
  qed
  have leaf: "Node (last q) = Current d"
    if "q \<in> set (Paths iv)" "\<forall>r \<in> set (Paths iv). Node (last q) \<notin> Node ` set (butlast r)" for q
    using find_current_leaf[OF cur nz that(1)] that(2) path_table_ancestors[OF p] by auto
  have "Paths iv \<noteq> []" using ok by (simp add: plan_input_ok_def)
  from leaf_exists[OF this path_table_shape[OF p]] leaf show ?thesis by blast
qed

lemma Plan_current_is_the_leaf_witness:
  "\<exists>p \<in> set (Paths example_inventory). Node (last p) = Current example_decision"
  using Plan_current_is_the_leaf[OF example_plan] by blast

end
