(* ===== verification/Go_Text.thy ===== *)
theory Go_Text
  imports Prelude
begin

text \<open>
  The parts of \<open>strconv\<close>, \<open>strings\<close>, \<open>unicode/utf8\<close> and the fixed regular expressions of the
  repository package: positional numerals in base 10 and 16 with their round trips,
  \<open>decimal\<close>, \<open>ParseLSN\<close> and the \<open>%X/%X\<close> printing of a log position, identifiers and digests,
  \<open>validText\<close>, and splitting and trimming.
\<close>

section \<open>Numerals\<close>

text \<open>Most significant digit first. The numbers are \<open>int\<close>s, whose numerals the simplifier
  computes with in binary; they are never negative here.\<close>

function to_base :: "int \<Rightarrow> int \<Rightarrow> int list" where
  "to_base b n = (if b \<le> 1 \<or> n < b then [n] else to_base b (n div b) @ [n mod b])"
  by pat_completeness auto
termination
  by (relation "measure (\<lambda>(b, n). nat n)") (auto simp: nat_mono_iff int_div_less_self)

declare to_base.simps [simp del]

definition of_base :: "int \<Rightarrow> int list \<Rightarrow> int" where
  "of_base b ds = fold (\<lambda>d n. b * n + d) ds 0"

definition digit_value :: "char \<Rightarrow> int option" where
  "digit_value c = (let n = of_char c :: int in
     if 48 \<le> n \<and> n \<le> 57 then Some (n - 48)
     else if 97 \<le> n \<and> n \<le> 102 then Some (n - 87)
     else if 65 \<le> n \<and> n \<le> 70 then Some (n - 55)
     else None)"

definition digit_char :: "int \<Rightarrow> char" where
  "digit_char d = char_of (if d < 10 then d + 48 else d + 87)"

definition digit_CHAR :: "int \<Rightarrow> char" where
  "digit_CHAR d = char_of (if d < 10 then d + 48 else d + 55)"

definition is_digit :: "int \<Rightarrow> char \<Rightarrow> bool" where
  "is_digit base c = (case digit_value c of None \<Rightarrow> False | Some d \<Rightarrow> d < base)"

text \<open>\<open>strconv.ParseUint(s, base, bits)\<close> for base 10 or 16, as an unbounded number with the
  range check.\<close>

definition parse_uint :: "int \<Rightarrow> nat \<Rightarrow> string \<Rightarrow> int option" where
  "parse_uint base bits s =
     (if s \<noteq> [] \<and> list_all (is_digit base) s
      then let n = of_base base (map (\<lambda>c. the (digit_value c)) s) in
           if n < 2 ^ bits then Some n else None
      else None)"

definition format_uint :: "int \<Rightarrow> string" where
  "format_uint n = map digit_char (to_base 10 n)"

text \<open>\<open>%X\<close>, and \<open>%08X\<close>.\<close>

definition format_HEX :: "int \<Rightarrow> string" where
  "format_HEX n = map digit_CHAR (to_base 16 n)"

definition pad_left :: "nat \<Rightarrow> char \<Rightarrow> string \<Rightarrow> string" where
  "pad_left w c s = replicate (w - length s) c @ s"

definition format_HEX8 :: "int \<Rightarrow> string" where
  "format_HEX8 n = pad_left 8 (CHR ''0'') (format_HEX n)"

text \<open>\<open>strconv.FormatInt\<close> and \<open>strconv.ParseInt\<close> in base 10, with the optional sign.\<close>

definition format_int :: "int \<Rightarrow> string" where
  "format_int i = (if i < 0 then CHR ''-'' # format_uint (- i) else format_uint i)"

definition parse_int64 :: "string \<Rightarrow> int option" where
  "parse_int64 s = (case s of
     [] \<Rightarrow> None
   | c # r \<Rightarrow>
      if c = CHR ''-'' then
        (case parse_uint 10 64 r of
           Some n \<Rightarrow> if n \<le> 2 ^ 63 then Some (- n) else None | None \<Rightarrow> None)
      else
        (case parse_uint 10 64 (if c = CHR ''+'' then r else s) of
           Some n \<Rightarrow> if n < 2 ^ 63 then Some n else None | None \<Rightarrow> None))"

section \<open>Strings\<close>

text \<open>\<open>strings.Split\<close> on a one-byte separator.\<close>

fun split_on :: "char \<Rightarrow> string \<Rightarrow> string list" where
  "split_on c [] = [[]]"
| "split_on c (x # xs) =
     (if x = c then [] # split_on c xs
      else case split_on c xs of [] \<Rightarrow> [[x]] | p # ps \<Rightarrow> (x # p) # ps)"

definition has_prefix :: "string \<Rightarrow> string \<Rightarrow> bool" where
  "has_prefix s p \<longleftrightarrow> take (length p) s = p"

lemma has_prefix_iff: "has_prefix a p \<longleftrightarrow> (\<exists>v. a = p @ v)"
  unfolding has_prefix_def by (metis append_take_drop_id append_eq_conv_conj)

definition has_suffix :: "string \<Rightarrow> string \<Rightarrow> bool" where
  "has_suffix s p \<longleftrightarrow> length p \<le> length s \<and> drop (length s - length p) s = p"

definition trim_prefix :: "string \<Rightarrow> string \<Rightarrow> string" where
  "trim_prefix s p = (if has_prefix s p then drop (length p) s else s)"

definition trim_suffix :: "string \<Rightarrow> string \<Rightarrow> string" where
  "trim_suffix s p = (if has_suffix s p then take (length s - length p) s else s)"

text \<open>The half-open slice \<open>s[i:j]\<close>.\<close>

definition slice :: "'a list \<Rightarrow> nat \<Rightarrow> nat \<Rightarrow> 'a list" where
  "slice s i j = drop i (take j s)"

text \<open>\<open>utf8.ValidString\<close>: the well-formed sequences of RFC 3629, without surrogates and
  overlong forms.\<close>

definition utf8_cont :: "char \<Rightarrow> bool" where
  "utf8_cont c = (let n = of_char c :: int in 128 \<le> n \<and> n \<le> 191)"

text \<open>The length of the first rune, 0 when the text does not start with a well-formed one.\<close>

definition utf8_len :: "string \<Rightarrow> nat" where
  "utf8_len s = (case s of [] \<Rightarrow> 0 | a # s \<Rightarrow> let x = of_char a :: int in
     if x < 128 then 1
     else if 194 \<le> x \<and> x \<le> 223 then (case s of b # r \<Rightarrow> if utf8_cont b then 2 else 0 | _ \<Rightarrow> 0)
     else if 224 \<le> x \<and> x \<le> 239 then
       (case s of b # c # r \<Rightarrow> let y = of_char b :: int in
          if utf8_cont b \<and> utf8_cont c \<and> (x = 224 \<longrightarrow> 160 \<le> y) \<and> (x = 237 \<longrightarrow> y \<le> 159) then 3 else 0
        | _ \<Rightarrow> 0)
     else if 240 \<le> x \<and> x \<le> 244 then
       (case s of b # c # d # r \<Rightarrow> let y = of_char b :: int in
          if utf8_cont b \<and> utf8_cont c \<and> utf8_cont d \<and> (x = 240 \<longrightarrow> 144 \<le> y) \<and> (x = 244 \<longrightarrow> y \<le> 143)
          then 4 else 0
        | _ \<Rightarrow> 0)
     else 0)"

function utf8_valid :: "string \<Rightarrow> bool" where
  "utf8_valid s = (if s = [] then True else if utf8_len s = 0 then False
     else utf8_valid (drop (utf8_len s) s))"
  by pat_completeness auto
termination
  by (relation "measure length") auto

declare utf8_valid.simps [simp del]

lemma utf8_valid_Nil [simp]: "utf8_valid []"
  by (simp add: utf8_valid.simps)

section \<open>Identifiers, digests and positions (repository/schema.go)\<close>

definition lower_hex :: "char \<Rightarrow> bool" where
  "lower_hex c = (let n = of_char c :: int in (48 \<le> n \<and> n \<le> 57) \<or> (97 \<le> n \<and> n \<le> 102))"

definition upper_hex :: "char \<Rightarrow> bool" where
  "upper_hex c = (let n = of_char c :: int in (48 \<le> n \<and> n \<le> 57) \<or> (65 \<le> n \<and> n \<le> 70))"

definition uuidRE :: "string \<Rightarrow> bool" where
  "uuidRE s \<longleftrightarrow> length s = 36 \<and>
     list_all (\<lambda>i. if i \<in> {8, 13, 18, 23} then s ! i = CHR ''-'' else lower_hex (s ! i)) [0..<36]"

definition hashRE :: "string \<Rightarrow> bool" where
  "hashRE s \<longleftrightarrow> length s = 64 \<and> list_all lower_hex s"

definition validID :: "string \<Rightarrow> bool" where
  "validID s \<longleftrightarrow> uuidRE s \<and> s \<noteq> ''00000000-0000-0000-0000-000000000000''"

definition decimal :: "string \<Rightarrow> int option" where
  "decimal s = (case parse_uint 10 64 s of
     None \<Rightarrow> None | Some n \<Rightarrow> if format_uint n = s then Some n else None)"

text \<open>One half of \<open>lsnRE\<close>: \<open>0|[1-9A-F][0-9A-F]{0,7}\<close>.\<close>

definition lsn_half :: "string \<Rightarrow> bool" where
  "lsn_half p \<longleftrightarrow> p = ''0'' \<or>
     (1 \<le> length p \<and> length p \<le> 8 \<and> list_all upper_hex p \<and> hd p \<noteq> CHR ''0'')"

definition ParseLSN :: "string \<Rightarrow> u64 option" where
  "ParseLSN s = (case split_on (CHR ''/'') s of
     [p, q] \<Rightarrow>
       if lsn_half p \<and> lsn_half q then
         (case (parse_uint 16 32 p, parse_uint 16 32 q) of
            (Some a, Some b) \<Rightarrow> Some (or (push_bit 32 (of_int a)) (of_int b))
          | _ \<Rightarrow> None)
       else None
   | _ \<Rightarrow> None)"

text \<open>\<open>fmt.Sprintf("%X/%X", n>>32, n&math.MaxUint32)\<close>.\<close>

definition format_LSN :: "u64 \<Rightarrow> string" where
  "format_LSN n = format_HEX (uint (drop_bit 32 n)) @ ''/'' @
     format_HEX (uint (and n 0xFFFFFFFF))"

definition validText :: "string \<Rightarrow> nat \<Rightarrow> bool" where
  "validText s n \<longleftrightarrow> s \<noteq> [] \<and> length s \<le> n \<and> utf8_valid s \<and>
     list_all (\<lambda>c. c \<noteq> CHR 0x00 \<and> c \<noteq> CHR 0x0D \<and> c \<noteq> CHR 0x0A) s"

section \<open>Round trips of numerals\<close>

lemma of_base_snoc: "of_base b (ds @ [d]) = b * of_base b ds + d"
  by (simp add: of_base_def)

lemma of_base_single [simp]: "of_base b [d] = d"
  by (simp add: of_base_def)

lemma of_base_nonneg: "0 \<le> b \<Longrightarrow> \<forall>d \<in> set ds. 0 \<le> d \<Longrightarrow> 0 \<le> of_base b ds"
  by (induction ds rule: rev_induct) (auto simp: of_base_snoc of_base_def)

lemma of_base_less:
  "1 < b \<Longrightarrow> \<forall>d \<in> set ds. 0 \<le> d \<and> d < b \<Longrightarrow> of_base b ds < b ^ length ds"
proof (induction ds rule: rev_induct)
  case (snoc d ds)
  then have "of_base b ds + 1 \<le> b ^ length ds" by simp
  then have "b * (of_base b ds + 1) \<le> b * b ^ length ds" using snoc.prems(1) by (intro mult_left_mono) auto
  with snoc.prems show ?case by (simp add: of_base_snoc algebra_simps)
qed (simp add: of_base_def)

lemma to_base_digits: "1 < b \<Longrightarrow> 0 \<le> n \<Longrightarrow> \<forall>d \<in> set (to_base b n). 0 \<le> d \<and> d < b"
proof (induction b n rule: to_base.induct)
  case (1 b n)
  show ?case
  proof (cases "n < b")
    case True
    then show ?thesis using "1.prems" by (simp add: to_base.simps)
  next
    case False
    with "1.IH" "1.prems" have "\<forall>d \<in> set (to_base b (n div b)). 0 \<le> d \<and> d < b"
      by (simp add: pos_imp_zdiv_nonneg_iff)
    with False "1.prems" show ?thesis by (auto simp: to_base.simps[of b n])
  qed
qed

lemma of_base_to_base: "1 < b \<Longrightarrow> 0 \<le> n \<Longrightarrow> of_base b (to_base b n) = n"
proof (induction b n rule: to_base.induct)
  case (1 b n)
  show ?case
  proof (cases "n < b")
    case True
    then show ?thesis by (simp add: to_base.simps)
  next
    case False
    with "1.IH" "1.prems" have "of_base b (to_base b (n div b)) = n div b"
      by (simp add: pos_imp_zdiv_nonneg_iff)
    with False "1.prems" show ?thesis by (simp add: to_base.simps[of b n] of_base_snoc)
  qed
qed

lemma to_base_nonempty [simp]: "to_base b n \<noteq> []"
  by (subst to_base.simps) simp

lemma to_base_of_base:
  assumes "1 < b" "\<forall>d \<in> set ds. 0 \<le> d \<and> d < b" "ds \<noteq> []" "hd ds \<noteq> 0 \<or> length ds = 1"
  shows "to_base b (of_base b ds) = ds"
  using assms(2-4)
proof (induction ds rule: rev_induct)
  case (snoc d ds)
  show ?case
  proof (cases "ds = []")
    case True
    then show ?thesis using snoc.prems assms(1) by (simp add: to_base.simps)
  next
    case False
    then have hd: "hd ds \<noteq> 0" using snoc.prems(3) by auto
    have pos: "1 \<le> of_base b ds"
    proof -
      have "\<forall>d \<in> set ds. 0 \<le> d \<and> d < b" using snoc.prems(1) by simp
      then show ?thesis using False hd assms(1)
      proof (induction ds rule: rev_induct)
        case (snoc x xs)
        then show ?case
        proof (cases "xs = []")
          case False
          with snoc have "1 \<le> of_base b xs" by simp
          then have "1 * 1 \<le> b * of_base b xs" using assms(1) by (intro mult_mono) auto
          with snoc.prems show ?thesis by (simp add: of_base_snoc)
        qed auto
      qed simp
    qed
    have dr: "0 \<le> d" "d < b" using snoc.prems(1) by auto
    have "b * 1 \<le> b * of_base b ds" using pos assms(1) by (intro mult_left_mono) auto
    then have "\<not> b * of_base b ds + d < b" using dr by linarith
    moreover have "(b * of_base b ds + d) div b = of_base b ds" "(b * of_base b ds + d) mod b = d"
      using dr assms(1) by auto
    moreover have "to_base b (of_base b ds) = ds" using snoc.IH snoc.prems(1) False hd by simp
    ultimately show ?thesis
      using assms(1) by (simp add: of_base_snoc to_base.simps[of b "b * of_base b ds + d"])
  qed
qed simp

lemma hd_to_base: "1 < b \<Longrightarrow> 0 < n \<Longrightarrow> hd (to_base b n) \<noteq> 0"
proof (induction b n rule: to_base.induct)
  case (1 b n)
  show ?case
  proof (cases "n < b")
    case False
    with "1" have "hd (to_base b (n div b)) \<noteq> 0" by (simp add: pos_imp_zdiv_pos_iff)
    with False "1.prems" show ?thesis by (simp add: to_base.simps[of b n])
  qed (use "1.prems" in \<open>simp add: to_base.simps\<close>)
qed

lemma length_to_base:
  assumes "1 < b" "0 \<le> n" "n < b ^ k" "1 \<le> k"
  shows "length (to_base b n) \<le> k"
  using assms
proof (induction k arbitrary: n)
  case (Suc k)
  show ?case
  proof (cases "n < b")
    case False
    then have "1 \<le> k" using Suc.prems by (cases k) auto
    moreover have "n div b < b ^ k"
    proof -
      have "b * (n div b) \<le> n"
        using mult_div_mod_eq[of b n] pos_mod_sign[of b n] Suc.prems(1) by linarith
      also have "n < b * b ^ k" using Suc.prems(3) by simp
      finally show ?thesis using Suc.prems(1) by simp
    qed
    ultimately have "length (to_base b (n div b)) \<le> k"
      using Suc.IH[of "n div b"] Suc.prems by (simp add: pos_imp_zdiv_nonneg_iff)
    with False Suc.prems show ?thesis by (simp add: to_base.simps[of b n])
  qed (simp add: to_base.simps)
qed simp

section \<open>Digits\<close>

lemma sixteen: "0 \<le> d \<Longrightarrow> d < 16 \<Longrightarrow> d \<in> set [0..15 :: int]"
  by simp

lemma digit_char_value: "0 \<le> d \<Longrightarrow> d < 16 \<Longrightarrow> digit_value (digit_char d) = Some d"
proof -
  have "list_all (\<lambda>d. digit_value (digit_char d) = Some d) [0..15]" by code_simp
  then show "0 \<le> d \<Longrightarrow> d < 16 \<Longrightarrow> digit_value (digit_char d) = Some d"
    by (simp only: list_all_iff sixteen)
qed

lemma digit_CHAR_value: "0 \<le> d \<Longrightarrow> d < 16 \<Longrightarrow> digit_value (digit_CHAR d) = Some d"
proof -
  have "list_all (\<lambda>d. digit_value (digit_CHAR d) = Some d) [0..15]" by code_simp
  then show "0 \<le> d \<Longrightarrow> d < 16 \<Longrightarrow> digit_value (digit_CHAR d) = Some d"
    by (simp only: list_all_iff sixteen)
qed

lemma upper_hex_CHAR: "0 \<le> d \<Longrightarrow> d < 16 \<Longrightarrow> upper_hex (digit_CHAR d)"
proof -
  have "list_all (\<lambda>d. upper_hex (digit_CHAR d)) [0..15]" by code_simp
  then show "0 \<le> d \<Longrightarrow> d < 16 \<Longrightarrow> upper_hex (digit_CHAR d)"
    by (simp only: list_all_iff sixteen)
qed

lemma digit_CHAR_zero: "0 \<le> d \<Longrightarrow> d < 16 \<Longrightarrow> digit_CHAR d = CHR ''0'' \<longleftrightarrow> d = 0"
proof -
  have "list_all (\<lambda>d. (digit_CHAR d = CHR ''0'') = (d = 0)) [0..15]" by code_simp
  then show "0 \<le> d \<Longrightarrow> d < 16 \<Longrightarrow> digit_CHAR d = CHR ''0'' \<longleftrightarrow> d = 0"
    by (simp only: list_all_iff sixteen)
qed

lemma upper_hex_value:
  assumes "upper_hex c"
  shows "\<exists>d. digit_value c = Some d \<and> 0 \<le> d \<and> d < 16 \<and> digit_CHAR d = c"
  using assms by (auto simp: upper_hex_def digit_value_def digit_CHAR_def Let_def)

lemma upper_hex_zero: "upper_hex c \<Longrightarrow> the (digit_value c) = 0 \<Longrightarrow> c = CHR ''0''"
  using upper_hex_value digit_CHAR_zero by fastforce

section \<open>Parsing what was printed, printing what was parsed\<close>

lemma map_digit_value:
  assumes "\<forall>d \<in> set ds. digit_value (f d) = Some d"
  shows "map (\<lambda>c. the (digit_value c)) (map f ds) = ds"
  using assms by (simp add: map_idI)

lemma parse_format_uint:
  assumes "0 \<le> n" "n < 2 ^ bits"
  shows "parse_uint 10 bits (format_uint n) = Some n"
proof -
  have ds: "\<forall>d \<in> set (to_base 10 n). 0 \<le> d \<and> d < 10" using to_base_digits[of 10 n] assms by simp
  then have dv: "\<forall>d \<in> set (to_base 10 n). digit_value (digit_char d) = Some d"
    using digit_char_value by force
  show ?thesis
    unfolding parse_uint_def format_uint_def map_digit_value[OF dv]
    using assms ds dv of_base_to_base[of 10 n] by (auto simp: list_all_iff is_digit_def)
qed

lemma format_uint_inj: "0 \<le> n \<Longrightarrow> 0 \<le> m \<Longrightarrow> format_uint n = format_uint m \<Longrightarrow> n = m"
proof -
  assume nm: "0 \<le> n" "0 \<le> m" "format_uint n = format_uint m"
  obtain bits where "n < 2 ^ bits" "m < 2 ^ bits"
  proof -
    have lt: "k < 2 ^ nat k" if "0 \<le> k" for k :: int
      using that less_exp[of "nat k"] by (metis int_nat_eq of_nat_less_iff of_nat_numeral of_nat_power)
    have "n < 2 ^ nat n" "m < 2 ^ nat m" using nm(1,2) lt by auto
    moreover have "(2::int) ^ nat n \<le> 2 ^ (nat n + nat m)" "(2::int) ^ nat m \<le> 2 ^ (nat n + nat m)"
      by (simp_all add: power_increasing)
    ultimately show ?thesis using that[of "nat n + nat m"] by linarith
  qed
  with nm parse_format_uint show "n = m" by (metis option.inject)
qed

lemma decimal_format: "0 \<le> n \<Longrightarrow> n < 2 ^ 64 \<Longrightarrow> decimal (format_uint n) = Some n"
  using parse_format_uint[of n 64] by (simp add: decimal_def)

lemma decimal_range: "decimal s = Some n \<Longrightarrow> 0 \<le> n \<and> n < 2 ^ 64 \<and> format_uint n = s"
proof -
  assume d: "decimal s = Some n"
  then have p: "parse_uint 10 64 s = Some n" and f: "format_uint n = s"
    by (auto simp: decimal_def split: option.splits if_splits)
  have "0 \<le> the (digit_value c)" if "is_digit 10 c" for c
    using that by (auto simp: is_digit_def digit_value_def Let_def split: if_splits)
  with p have "0 \<le> n \<and> n < 2 ^ 64"
    by (auto simp: parse_uint_def Let_def list_all_iff intro!: of_base_nonneg split: if_splits)
  with f show ?thesis by simp
qed

lemma format_HEX_half:
  assumes "0 \<le> n" "n < 2 ^ 32"
  shows "lsn_half (format_HEX n)" "parse_uint 16 32 (format_HEX n) = Some n"
proof -
  let ?ds = "to_base 16 n"
  have ds: "\<forall>d \<in> set ?ds. 0 \<le> d \<and> d < 16" using to_base_digits[of 16 n] assms by simp
  then have dv: "\<forall>d \<in> set ?ds. digit_value (digit_CHAR d) = Some d" by (auto intro: digit_CHAR_value)
  show "parse_uint 16 32 (format_HEX n) = Some n"
    unfolding parse_uint_def format_HEX_def map_digit_value[OF dv]
    using assms ds dv of_base_to_base[of 16 n] by (auto simp: list_all_iff is_digit_def)
  show "lsn_half (format_HEX n)"
  proof (cases "n = 0")
    case True
    moreover have "lsn_half (format_HEX 0)" by code_simp
    ultimately show ?thesis by simp
  next
    case False
    then have "hd ?ds \<noteq> 0" using hd_to_base[of 16 n] assms by simp
    moreover have "0 \<le> hd ?ds \<and> hd ?ds < 16" using ds by simp
    ultimately have "hd (format_HEX n) \<noteq> CHR ''0''"
      using digit_CHAR_zero[of "hd ?ds"] by (simp add: format_HEX_def hd_map)
    moreover have "length ?ds \<le> 8" using length_to_base[of 16 n 8] assms by simp
    moreover have "1 \<le> length ?ds" using to_base_nonempty[of 16 n] by (simp add: Suc_le_eq)
    ultimately show ?thesis
      using ds upper_hex_CHAR by (auto simp: lsn_half_def format_HEX_def list_all_iff)
  qed
qed

lemma upper_hex_string:
  assumes "list_all upper_hex p"
  shows "map digit_CHAR (map (\<lambda>c. the (digit_value c)) p) = p"
    and "\<forall>d \<in> set (map (\<lambda>c. the (digit_value c)) p). 0 \<le> d \<and> d < 16"
    and "list_all (is_digit 16) p"
proof -
  have *: "\<exists>d. digit_value c = Some d \<and> 0 \<le> d \<and> d < 16 \<and> digit_CHAR d = c" if "c \<in> set p" for c
    using assms that upper_hex_value by (simp add: list_all_iff)
  show "map digit_CHAR (map (\<lambda>c. the (digit_value c)) p) = p"
    using * by (force intro!: map_idI)
  show "\<forall>d \<in> set (map (\<lambda>c. the (digit_value c)) p). 0 \<le> d \<and> d < 16"
    using * by force
  show "list_all (is_digit 16) p"
    using * by (force simp: list_all_iff is_digit_def)
qed

lemma lsn_half_parse:
  assumes "lsn_half p"
  shows "\<exists>n. parse_uint 16 32 p = Some n \<and> 0 \<le> n \<and> n < 2 ^ 32 \<and> format_HEX n = p"
proof -
  let ?ds = "map (\<lambda>c. the (digit_value c)) p"
  have up: "list_all upper_hex p" and ne: "p \<noteq> []" and len: "length p \<le> 8"
    and hd: "hd ?ds \<noteq> 0 \<or> length ?ds = 1"
    using assms upper_hex_zero by (cases p; auto simp: lsn_half_def upper_hex_def)+
  note u = upper_hex_string[OF up]
  have "of_base 16 ?ds < 16 ^ length ?ds" by (rule of_base_less) (use u in auto)
  also have "\<dots> \<le> 16 ^ 8" using len by (intro power_increasing) auto
  finally have lt: "of_base 16 ?ds < 2 ^ 32" by simp
  have "to_base 16 (of_base 16 ?ds) = ?ds" by (rule to_base_of_base) (use u ne hd in auto)
  then have "format_HEX (of_base 16 ?ds) = p" using u(1) by (simp only: format_HEX_def)
  moreover have "0 \<le> of_base 16 ?ds" by (rule of_base_nonneg) (use u in auto)
  ultimately show ?thesis using lt ne u(3) by (auto simp: parse_uint_def)
qed

section \<open>Splitting and log positions\<close>

lemma uint_drop_bit: "uint (drop_bit k (n :: u64)) = drop_bit k (uint n)"
  using uint_lt2p[of n] by (simp add: unsigned_drop_bit_eq take_bit_int_eq_self)


lemma split_on_nonempty [simp]: "split_on c s \<noteq> []"
  by (induction s) (auto split: list.splits)

lemma split_on_fresh: "c \<notin> set p \<Longrightarrow> split_on c p = [p]"
  by (induction p) auto

lemma split_on_app: "c \<notin> set p \<Longrightarrow> split_on c (p @ c # q) = p # split_on c q"
  by (induction p) auto

lemma split_on_join: "split_on c s = [p, q] \<Longrightarrow> s = p @ c # q"
proof (induction s arbitrary: p)
  case (Cons x xs)
  have one: "split_on c ys = [r] \<Longrightarrow> ys = r" for ys r
    by (induction ys arbitrary: r) (auto split: if_splits list.splits)
  show ?case using Cons one[of xs q] by (auto split: if_splits list.splits)
qed simp

lemma lsn_half_no_slash: "lsn_half p \<Longrightarrow> CHR ''/'' \<notin> set p"
proof
  assume h: "lsn_half p" and "CHR ''/'' \<in> set p"
  then have "upper_hex (CHR ''/'')" by (auto simp: lsn_half_def list_all_iff)
  then show False by (simp add: upper_hex_def)
qed

lemma lsn_words:
  assumes "0 \<le> a" "a < 2 ^ 32" "0 \<le> b" "b < 2 ^ 32"
  shows "uint (drop_bit 32 (or (push_bit 32 (of_int a)) (of_int b) :: u64)) = a"
    and "uint (and (or (push_bit 32 (of_int a)) (of_int b) :: u64) 0xFFFFFFFF) = b"
proof -
  have A: "uint (of_int a :: u64) = a" and B: "uint (of_int b :: u64) = b"
    using assms by (simp_all add: uint_word_of_int take_bit_int_eq_self)
  have n: "uint (or (push_bit 32 (of_int a)) (of_int b) :: u64) = or (push_bit 32 a) b"
    using assms A B by (simp add: uint_or unsigned_push_bit_eq take_bit_push_bit take_bit_int_eq_self)
  have "drop_bit 32 b = 0" using assms by (simp add: drop_bit_eq_div)
  then have "drop_bit 32 (or (push_bit 32 a) b) = a"
    by (simp add: drop_bit_or drop_bit_push_bit)
  then show "uint (drop_bit 32 (or (push_bit 32 (of_int a)) (of_int b) :: u64)) = a"
    by (simp only: uint_drop_bit n)
  have m: "(0xFFFFFFFF :: int) = mask 32" by (simp add: mask_eq_exp_minus_1)
  have "and (or (push_bit 32 a) b) (mask 32) = b"
    using assms by (simp add: take_bit_eq_mask[symmetric] take_bit_or take_bit_push_bit take_bit_int_eq_self)
  then show "uint (and (or (push_bit 32 (of_int a)) (of_int b) :: u64) 0xFFFFFFFF) = b"
    by (simp add: uint_and n m)
qed

lemma lsn_join: "or (push_bit 32 (of_int (uint (drop_bit 32 n)))) (of_int (uint (and n 0xFFFFFFFF))) = (n :: u64)"
proof -
  have m: "(0xFFFFFFFF :: u64) = mask 32" by (simp add: mask_eq_exp_minus_1)
  show ?thesis unfolding m
    by (intro bit_word_eqI) (auto simp: bit_or_iff bit_push_bit_iff bit_drop_bit_eq bit_and_iff bit_mask_iff)
qed

lemma ParseLSN_format: "ParseLSN (format_LSN n) = Some n"
proof -
  have hi: "uint (drop_bit 32 n) < 2 ^ 32"
    using uint_lt2p[of n] by (simp only: uint_drop_bit) (simp add: drop_bit_eq_div)
  have m: "(0xFFFFFFFF :: u64) = mask 32" by (simp add: mask_eq_exp_minus_1)
  have lo: "uint (and n 0xFFFFFFFF) < 2 ^ 32"
    unfolding m using take_bit_int_less_exp[of 32 "uint n"]
    by (simp add: take_bit_eq_mask[symmetric] unsigned_take_bit_eq)
  note H = format_HEX_half[OF uint_ge_0 hi] and L = format_HEX_half[OF uint_ge_0 lo]
  have "split_on (CHR ''/'') (format_LSN n) =
      [format_HEX (uint (drop_bit 32 n)), format_HEX (uint (and n 0xFFFFFFFF))]"
    unfolding format_LSN_def append_Cons append_Nil
    by (subst split_on_app) (simp_all only: lsn_half_no_slash H L split_on_fresh not_False_eq_True)
  then show ?thesis using H L lsn_join[of n] by (simp add: ParseLSN_def)
qed

lemma ParseLSN_canonical: "ParseLSN s = Some n \<Longrightarrow> format_LSN n = s"
proof -
  assume "ParseLSN s = Some n"
  then obtain p q a b where s: "split_on (CHR ''/'') s = [p, q]" and h: "lsn_half p" "lsn_half q"
    and ab: "parse_uint 16 32 p = Some a" "parse_uint 16 32 q = Some b"
    and n: "n = or (push_bit 32 (of_int a)) (of_int b)"
    by (auto simp: ParseLSN_def split: list.splits option.splits if_splits)
  obtain "0 \<le> a" "a < 2 ^ 32" "format_HEX a = p" using lsn_half_parse[OF h(1)] ab by auto
  moreover obtain "0 \<le> b" "b < 2 ^ 32" "format_HEX b = q" using lsn_half_parse[OF h(2)] ab by auto
  ultimately show ?thesis using lsn_words[of a b] split_on_join[OF s] by (simp add: format_LSN_def n)
qed

end
