(* ===== verification/Json.thy ===== *)
theory Json
  imports Go_Text
begin

text \<open>
  \<open>encoding/json\<close> as the repository uses it, on bytes: the value grammar of the scanner,
  string quoting of \<open>json.Marshal\<close> (with its HTML escapes) and unquoting of the decoder, and
  the repository's own \<open>validJSONUnicode\<close> and \<open>shape\<close>. What is printed parses back to the same tree.
\<close>

section \<open>Trees and printing\<close>

datatype json =
    JNull
  | JBool bool
  | JNum string
  | JStr string
  | JArr "json list"
  | JObj "(string \<times> json) list"

definition byte :: "char \<Rightarrow> int" where
  "byte c = of_char c"

definition hex4 :: "int \<Rightarrow> string" where
  "hex4 n = map digit_char [n div 4096 mod 16, n div 256 mod 16, n div 16 mod 16, n mod 16]"

definition esc_byte :: "char \<Rightarrow> string" where
  "esc_byte c = (
     if c = CHR 0x22 then [CHR 0x5C, CHR 0x22]
     else if c = CHR 0x5C then [CHR 0x5C, CHR 0x5C]
     else if c = CHR 0x08 then [CHR 0x5C, CHR ''b'']
     else if c = CHR 0x0C then [CHR 0x5C, CHR ''f'']
     else if c = CHR 0x0A then [CHR 0x5C, CHR ''n'']
     else if c = CHR 0x0D then [CHR 0x5C, CHR ''r'']
     else if c = CHR 0x09 then [CHR 0x5C, CHR ''t'']
     else if byte c < 32 \<or> c = CHR ''<'' \<or> c = CHR ''>'' \<or> c = CHR ''&'' then [CHR 0x5C, CHR ''u''] @ hex4 (byte c)
     else [c])"

text \<open>U+2028 and U+2029 are escaped, and every byte that starts no rune prints as U+FFFD.\<close>

function esc :: "string \<Rightarrow> string" where
  "esc s = (case s of [] \<Rightarrow> []
     | c # r \<Rightarrow>
        if byte c < 128 then esc_byte c @ esc r
        else if utf8_len s = 0 then [CHR 0x5C, CHR ''u''] @ ''fffd'' @ esc r
        else if take 3 s = [CHR 0xE2, CHR 0x80, CHR 0xA8] then [CHR 0x5C, CHR ''u''] @ ''2028'' @ esc (drop 3 s)
        else if take 3 s = [CHR 0xE2, CHR 0x80, CHR 0xA9] then [CHR 0x5C, CHR ''u''] @ ''2029'' @ esc (drop 3 s)
        else take (utf8_len s) s @ esc (drop (utf8_len s) s))"
  by pat_completeness auto
termination
  by (relation "measure length") (auto simp: diff_less)

declare esc.simps [simp del]

definition quote_json :: "string \<Rightarrow> string" where
  "quote_json s = [CHR 0x22] @ esc s @ [CHR 0x22]"

fun join_with :: "char \<Rightarrow> string list \<Rightarrow> string" where
  "join_with c [] = []"
| "join_with c [x] = x"
| "join_with c (x # y # ys) = x @ c # join_with c (y # ys)"

fun render :: "json \<Rightarrow> string" where
  "render JNull = ''null''"
| "render (JBool b) = (if b then ''true'' else ''false'')"
| "render (JNum s) = s"
| "render (JStr s) = quote_json s"
| "render (JArr xs) = ''['' @ join_with (CHR '','') (map render xs) @ '']''"
| "render (JObj ms) = ''{'' @ join_with (CHR '','') (map (\<lambda>(k, v). quote_json k @ '':'' @ render v) ms) @ ''}''"

section \<open>Parsing\<close>

definition json_space :: "char \<Rightarrow> bool" where
  "json_space c \<longleftrightarrow> c = CHR 0x20 \<or> c = CHR 0x09 \<or> c = CHR 0x0A \<or> c = CHR 0x0D"

definition skip_ws :: "string \<Rightarrow> string" where
  "skip_ws s = dropWhile json_space s"

definition unhex4 :: "string \<Rightarrow> int option" where
  "unhex4 s = (if length s = 4 then parse_uint 16 16 s else None)"

definition utf8_encode :: "int \<Rightarrow> string" where
  "utf8_encode n = map char_of (
     if n < 128 then [n]
     else if n < 2048 then [192 + n div 64, 128 + n mod 64]
     else if n < 65536 then [224 + n div 4096, 128 + n div 64 mod 64, 128 + n mod 64]
     else [240 + n div 262144, 128 + n div 4096 mod 64, 128 + n div 64 mod 64, 128 + n mod 64])"

definition simple_escape :: "char \<Rightarrow> char option" where
  "simple_escape c = (
     if c = CHR 0x22 \<or> c = CHR 0x5C \<or> c = CHR ''/'' then Some c
     else if c = CHR ''b'' then Some (CHR 0x08) else if c = CHR ''f'' then Some (CHR 0x0C)
     else if c = CHR ''n'' then Some (CHR 0x0A) else if c = CHR ''r'' then Some (CHR 0x0D)
     else if c = CHR ''t'' then Some (CHR 0x09) else None)"

text \<open>The first unit after the opening quote: what it decodes to and what is left. \<open>\u\<close>
  escapes of a surrogate pair combine; a lone surrogate becomes U+FFFD.\<close>

definition parse_unit :: "string \<Rightarrow> (string \<times> string) option" where
  "parse_unit s = (case s of
     [] \<Rightarrow> None
   | c # r \<Rightarrow>
      if c = CHR 0x22 \<or> byte c < 32 then None
      else if c \<noteq> CHR 0x5C then Some ([c], r)
      else (case r of [] \<Rightarrow> None
        | e # t \<Rightarrow>
           if e \<noteq> CHR ''u'' then map_option (\<lambda>x. ([x], t)) (simple_escape e)
           else (case unhex4 (take 4 t) of None \<Rightarrow> None
             | Some n \<Rightarrow>
                if n < 0xD800 \<or> 0xDFFF < n then Some (utf8_encode n, drop 4 t)
                else (case (take 2 (drop 4 t) = [CHR 0x5C, CHR ''u''], unhex4 (take 4 (drop 6 t))) of
                    (True, Some m) \<Rightarrow>
                      if n < 0xDC00 \<and> 0xDC00 \<le> m \<and> m \<le> 0xDFFF
                      then Some (utf8_encode (0x10000 + (n - 0xD800) * 0x400 + (m - 0xDC00)), drop 10 t)
                      else Some (utf8_encode 0xFFFD, drop 4 t)
                  | _ \<Rightarrow> Some (utf8_encode 0xFFFD, drop 4 t)))))"

lemma parse_unit_shorter: "parse_unit s = Some (u, r) \<Longrightarrow> length r < length s"
  by (auto simp: parse_unit_def split: list.splits if_splits option.splits bool.splits)

function parse_str :: "string \<Rightarrow> (string \<times> string) option" where
  "parse_str s = (case s of
     [] \<Rightarrow> None
   | c # r \<Rightarrow>
      if c = CHR 0x22 then Some ([], r)
      else (case parse_unit s of None \<Rightarrow> None
        | Some (u, t) \<Rightarrow> (case parse_str t of None \<Rightarrow> None | Some (v, t') \<Rightarrow> Some (u @ v, t'))))"
  by pat_completeness auto
termination
  by (relation "measure length") (auto dest: parse_unit_shorter)

declare parse_str.simps [simp del]

definition digits :: "string \<Rightarrow> string" where
  "digits s = takeWhile (is_digit 10) s"

text \<open>The number literal at the start of \<open>s\<close>.\<close>

definition num_int :: "string \<Rightarrow> (string \<times> string) option" where
  "num_int s = (case s of
     [] \<Rightarrow> None
   | c # r \<Rightarrow> if c = CHR ''0'' then Some ([c], r)
      else if is_digit 10 c then Some (digits s, dropWhile (is_digit 10) s) else None)"

definition num_frac :: "string \<Rightarrow> (string \<times> string) option" where
  "num_frac s = (case s of
     c # r \<Rightarrow> if c = CHR ''.'' then (if digits r = [] then None else Some (c # digits r, dropWhile (is_digit 10) r))
       else Some ([], s)
   | [] \<Rightarrow> Some ([], s))"

definition num_exp :: "string \<Rightarrow> (string \<times> string) option" where
  "num_exp s = (case s of
     c # r \<Rightarrow>
       if c = CHR ''e'' \<or> c = CHR ''E'' then
         (let (sg, t) = (case r of d # t \<Rightarrow> if d = CHR ''+'' \<or> d = CHR ''-'' then ([d], t) else ([], r) | [] \<Rightarrow> ([], r)) in
          if digits t = [] then None else Some (c # sg @ digits t, dropWhile (is_digit 10) t))
       else Some ([], s)
   | [] \<Rightarrow> Some ([], s))"

definition parse_num :: "string \<Rightarrow> (string \<times> string) option" where
  "parse_num s = (let (sg, s) = (case s of c # r \<Rightarrow> if c = CHR ''-'' then ([c], r) else ([], s) | [] \<Rightarrow> ([], s)) in
     Option.bind (num_int s) (\<lambda>(i, s).
     Option.bind (num_frac s) (\<lambda>(f, s).
     Option.bind (num_exp s) (\<lambda>(e, s). Some (sg @ i @ f @ e, s)))))"

text \<open>Recursive descent; the first argument bounds the number of nested calls.\<close>

fun parse_value :: "nat \<Rightarrow> string \<Rightarrow> (json \<times> string) option"
  and parse_elems :: "nat \<Rightarrow> string \<Rightarrow> (json list \<times> string) option"
  and parse_members :: "nat \<Rightarrow> string \<Rightarrow> ((string \<times> json) list \<times> string) option" where
  "parse_value 0 s = None"
| "parse_value (Suc n) s = (case skip_ws s of
     [] \<Rightarrow> None
   | c # r \<Rightarrow>
      if c = CHR 0x22 then map_option (\<lambda>(v, t). (JStr v, t)) (parse_str r)
      else if c = CHR ''['' then
        (case skip_ws r of
           [] \<Rightarrow> None
         | d # t \<Rightarrow> if d = CHR '']'' then Some (JArr [], t)
             else map_option (\<lambda>(v, t). (JArr v, t)) (parse_elems n r))
      else if c = CHR ''{'' then
        (case skip_ws r of
           [] \<Rightarrow> None
         | d # t \<Rightarrow> if d = CHR ''}'' then Some (JObj [], t)
             else map_option (\<lambda>(v, t). (JObj v, t)) (parse_members n r))
      else if has_prefix (c # r) ''null'' then Some (JNull, drop 3 r)
      else if has_prefix (c # r) ''true'' then Some (JBool True, drop 3 r)
      else if has_prefix (c # r) ''false'' then Some (JBool False, drop 4 r)
      else map_option (\<lambda>(v, t). (JNum v, t)) (parse_num (c # r)))"
| "parse_elems 0 s = None"
| "parse_elems (Suc n) s = (case parse_value n s of
     None \<Rightarrow> None
   | Some (v, r) \<Rightarrow> (case skip_ws r of
       [] \<Rightarrow> None
     | c # t \<Rightarrow>
        if c = CHR '','' then map_option (\<lambda>(vs, t). (v # vs, t)) (parse_elems n t)
        else if c = CHR '']'' then Some ([v], t) else None))"
| "parse_members 0 s = None"
| "parse_members (Suc n) s = (case skip_ws s of
     [] \<Rightarrow> None
   | q # k \<Rightarrow>
      if q \<noteq> CHR 0x22 then None
      else (case parse_str k of
          None \<Rightarrow> None
        | Some (key, r) \<Rightarrow> (case skip_ws r of
            [] \<Rightarrow> None
          | d # u \<Rightarrow>
             if d \<noteq> CHR '':'' then None
             else (case parse_value n u of
                 None \<Rightarrow> None
               | Some (v, r) \<Rightarrow> (case skip_ws r of
                   [] \<Rightarrow> None
                 | c # t \<Rightarrow>
                    if c = CHR '','' then map_option (\<lambda>(ms, t). ((key, v) # ms, t)) (parse_members n t)
                    else if c = CHR ''}'' then Some ([(key, v)], t) else None)))))"

text \<open>One value and nothing but space after it.\<close>

definition parse_json :: "string \<Rightarrow> json option" where
  "parse_json s = (case parse_value (2 * length s + 1) s of
     Some (j, r) \<Rightarrow> if skip_ws r = [] then Some j else None
   | None \<Rightarrow> None)"

section \<open>Strings\<close>

lemma byte_nonneg: "0 \<le> byte c"
  unfolding byte_def by (metis of_nat_0_le_iff of_nat_of_char)

text \<open>The three forms a byte below 128 is printed in.\<close>

definition esc_forms :: "char \<Rightarrow> bool" where
  "esc_forms c = (let e = esc_byte c in
     (e = [c] \<and> c \<noteq> CHR 0x22 \<and> c \<noteq> CHR 0x5C \<and> 32 \<le> byte c) \<or>
     (length e = 2 \<and> e ! 0 = CHR 0x5C \<and> e ! 1 \<noteq> CHR ''u'' \<and> simple_escape (e ! 1) = Some c) \<or>
     (length e = 6 \<and> take 2 e = [CHR 0x5C, CHR ''u''] \<and> unhex4 (drop 2 e) = Some (byte c) \<and>
       byte c < 128 \<and> utf8_encode (byte c) = [c]))"

lemma esc_byte_forms: "byte c < 128 \<Longrightarrow> esc_forms c"
proof -
  assume b: "byte c < 128"
  have all: "list_all esc_forms (map char_of [0..127::int])" by code_simp
  have "c = char_of (byte c)" by (simp add: byte_def)
  moreover have "byte c \<in> set [0..127]" using b byte_nonneg[of c] by simp
  ultimately show ?thesis using all by (metis (no_types, lifting) image_eqI list.set_map list_all_iff)
qed

lemma parse_unit_esc_byte:
  assumes "byte c < 128"
  shows "parse_unit (esc_byte c @ t) = Some ([c], t) \<and> hd (esc_byte c) \<noteq> CHR 0x22 \<and> esc_byte c \<noteq> []"
proof -
  consider (raw) "esc_byte c = [c]" "c \<noteq> CHR 0x22" "c \<noteq> CHR 0x5C" "32 \<le> byte c"
    | (two) e where "esc_byte c = [CHR 0x5C, e]" "e \<noteq> CHR ''u''" "simple_escape e = Some c"
    | (six) h where "esc_byte c = [CHR 0x5C, CHR ''u''] @ h" "length h = 4" "unhex4 h = Some (byte c)"
        "utf8_encode (byte c) = [c]"
    using esc_byte_forms[OF assms]
    by (auto simp: esc_forms_def Let_def length_Suc_conv eval_nat_numeral)
  then show ?thesis
  proof cases
    case six
    then have "byte c < 0xD800" using assms by simp
    with six show ?thesis by (simp add: parse_unit_def byte_def)
  qed (auto simp: parse_unit_def byte_def)
qed

lemma parse_str_unit:
  assumes "parse_unit s = Some (u, t)" "s \<noteq> []" "hd s \<noteq> CHR 0x22"
  shows "parse_str s = map_option (\<lambda>(v, r). (u @ v, r)) (parse_str t)"
proof -
  obtain c r where "s = c # r" using assms(2) by (cases s) auto
  then show ?thesis
    using assms by (subst parse_str.simps) (auto split: option.splits)
qed

lemma parse_str_raw:
  assumes "\<forall>c \<in> set xs. 128 \<le> byte c"
  shows "parse_str (xs @ t) = map_option (\<lambda>(v, r). (xs @ v, r)) (parse_str t)"
  using assms
proof (induction xs)
  case Nil
  then show ?case by (simp add: option.map_ident)
next
  case (Cons c xs)
  then have c: "128 \<le> byte c" by simp
  have ne: "c \<noteq> CHR 0x22" "c \<noteq> CHR 0x5C" using c by (auto simp: byte_def)
  have "parse_unit (c # xs @ t) = Some ([c], xs @ t)" using c ne by (simp add: parse_unit_def)
  from parse_str_unit[OF this] ne Cons show ?case
    by (simp add: option.map_comp comp_def case_prod_unfold)
qed

lemma utf8_len_bytes:
  assumes "s = c # r" "128 \<le> byte c" "utf8_len s \<noteq> 0"
  shows "\<forall>x \<in> set (take (utf8_len s) s). 128 \<le> byte x"
  using assms by (auto simp: utf8_len_def byte_def utf8_cont_def Let_def split: list.splits if_splits)

lemma parse_str_u:
  assumes "unhex4 h = Some n" "length h = 4" "n < 0xD800"
  shows "parse_str ([CHR 0x5C, CHR ''u''] @ h @ t) = map_option (\<lambda>(v, r). (utf8_encode n @ v, r)) (parse_str t)"
  by (rule parse_str_unit) (use assms in \<open>auto simp: parse_unit_def byte_def\<close>)

lemma utf8_len_separator:
  "take 3 s \<in> {[CHR 0xE2, CHR 0x80, CHR 0xA8], [CHR 0xE2, CHR 0x80, CHR 0xA9]} \<Longrightarrow> utf8_len s = 3"
proof -
  assume t: "take 3 s \<in> {[CHR 0xE2, CHR 0x80, CHR 0xA8], [CHR 0xE2, CHR 0x80, CHR 0xA9]}"
  moreover have "take 3 s @ drop 3 s = s" by simp
  ultimately have "s = [CHR 0xE2, CHR 0x80, CHR 0xA8] @ drop 3 s \<or> s = [CHR 0xE2, CHR 0x80, CHR 0xA9] @ drop 3 s"
    by (metis insertE singletonD)
  then obtain d where "s = CHR 0xE2 # CHR 0x80 # CHR 0xA8 # d \<or> s = CHR 0xE2 # CHR 0x80 # CHR 0xA9 # d" by auto
  then show ?thesis by (auto simp: utf8_len_def utf8_cont_def)
qed

lemma esc_Cons:
  assumes "s = c # r" "utf8_len s \<noteq> 0"
  shows "byte c < 128 \<Longrightarrow> esc s = esc_byte c @ esc r"
    and "\<not> byte c < 128 \<Longrightarrow> take 3 s = [CHR 0xE2, CHR 0x80, CHR 0xA8] \<Longrightarrow>
      esc s = [CHR 0x5C, CHR ''u''] @ ''2028'' @ esc (drop 3 s)"
    and "\<not> byte c < 128 \<Longrightarrow> take 3 s = [CHR 0xE2, CHR 0x80, CHR 0xA9] \<Longrightarrow>
      esc s = [CHR 0x5C, CHR ''u''] @ ''2029'' @ esc (drop 3 s)"
    and "\<not> byte c < 128 \<Longrightarrow> take 3 s \<noteq> [CHR 0xE2, CHR 0x80, CHR 0xA8] \<Longrightarrow>
      take 3 s \<noteq> [CHR 0xE2, CHR 0x80, CHR 0xA9] \<Longrightarrow>
      esc s = take (utf8_len s) s @ esc (drop (utf8_len s) s)"
proof -
  have e: "esc s = (if byte c < 128 then esc_byte c @ esc r
        else if take 3 s = [CHR 0xE2, CHR 0x80, CHR 0xA8] then [CHR 0x5C, CHR ''u''] @ ''2028'' @ esc (drop 3 s)
        else if take 3 s = [CHR 0xE2, CHR 0x80, CHR 0xA9] then [CHR 0x5C, CHR ''u''] @ ''2029'' @ esc (drop 3 s)
        else take (utf8_len s) s @ esc (drop (utf8_len s) s))"
    using esc.simps[of s] assms by (simp only: list.case if_False)
  show "byte c < 128 \<Longrightarrow> esc s = esc_byte c @ esc r" unfolding e by (simp only: if_True)
  have ne: "[CHR 0xE2, CHR 0x80, CHR 0xA9] \<noteq> [CHR 0xE2, CHR 0x80, CHR 0xA8]" by simp
  assume b: "\<not> byte c < 128"
  show "take 3 s = [CHR 0xE2, CHR 0x80, CHR 0xA8] \<Longrightarrow>
      esc s = [CHR 0x5C, CHR ''u''] @ ''2028'' @ esc (drop 3 s)" unfolding e using b by (simp only: refl if_True if_False)
  show "take 3 s = [CHR 0xE2, CHR 0x80, CHR 0xA9] \<Longrightarrow>
      esc s = [CHR 0x5C, CHR ''u''] @ ''2029'' @ esc (drop 3 s)" unfolding e using b ne by (simp only: refl if_True if_False)
  show "take 3 s \<noteq> [CHR 0xE2, CHR 0x80, CHR 0xA8] \<Longrightarrow> take 3 s \<noteq> [CHR 0xE2, CHR 0x80, CHR 0xA9] \<Longrightarrow>
      esc s = take (utf8_len s) s @ esc (drop (utf8_len s) s)" unfolding e using b by (simp only: if_False)
qed

lemma parse_str_rune:
  assumes "s = c # r" "utf8_len s \<noteq> 0"
  shows "parse_str (esc s @ x) =
    map_option (\<lambda>(v, y). (take (utf8_len s) s @ v, y)) (parse_str (esc (drop (utf8_len s) s) @ x))"
proof -
  consider (ascii) "byte c < 128"
    | (sep) "\<not> byte c < 128" "take 3 s \<in> {[CHR 0xE2, CHR 0x80, CHR 0xA8], [CHR 0xE2, CHR 0x80, CHR 0xA9]}"
    | (multi) "\<not> byte c < 128" "take 3 s \<noteq> [CHR 0xE2, CHR 0x80, CHR 0xA8]" "take 3 s \<noteq> [CHR 0xE2, CHR 0x80, CHR 0xA9]"
    by blast
  then show ?thesis
  proof cases
    case ascii
    then have l: "utf8_len s = 1" using assms(1) by (simp add: utf8_len_def byte_def)
    have es: "esc s = esc_byte c @ esc r" by (rule esc_Cons(1)[OF assms ascii])
    note p = parse_unit_esc_byte[OF ascii, of "esc r @ x"]
    show ?thesis unfolding es l using parse_str_unit[OF p[THEN conjunct1]] p assms(1) by simp
  next
    case sep
    have u: "unhex4 ''2028'' = Some 0x2028" "utf8_encode 0x2028 = [CHR 0xE2, CHR 0x80, CHR 0xA8]"
      "unhex4 ''2029'' = Some 0x2029" "utf8_encode 0x2029 = [CHR 0xE2, CHR 0x80, CHR 0xA9]" by code_simp+
    have l: "utf8_len s = 3" using sep(2) by (rule utf8_len_separator)
    have "take 3 s = utf8_encode 0x2028 \<and> esc s = [CHR 0x5C, CHR ''u''] @ ''2028'' @ esc (drop 3 s) \<or>
        take 3 s = utf8_encode 0x2029 \<and> esc s = [CHR 0x5C, CHR ''u''] @ ''2029'' @ esc (drop 3 s)"
      using sep(2) esc_Cons(2,3)[OF assms sep(1)] u(2,4) by auto
    then show ?thesis unfolding l
      using parse_str_u[OF u(1)] parse_str_u[OF u(3)] by fastforce
  next
    case multi
    have "esc s = take (utf8_len s) s @ esc (drop (utf8_len s) s)" by (rule esc_Cons(4)[OF assms multi])
    then show ?thesis
      using multi(1) utf8_len_bytes[OF assms(1) _ assms(2)] by (simp add: parse_str_raw)
  qed
qed

lemma parse_str_esc: "utf8_valid s \<Longrightarrow> parse_str (esc s @ CHR 0x22 # t) = Some (s, t)"
proof (induction s rule: utf8_valid.induct)
  case (1 s)
  show ?case
  proof (cases s)
    case Nil
    have "esc [] = []" by (simp add: esc.simps)
    with Nil show ?thesis by (simp add: parse_str.simps)
  next
    case (Cons c r)
    then have v: "utf8_len s \<noteq> 0" "utf8_valid (drop (utf8_len s) s)"
      using "1.prems" by (subst (asm) utf8_valid.simps, simp split: if_splits)+
    then show ?thesis using parse_str_rune[OF Cons v(1)] "1.IH" Cons by simp
  qed
qed

section \<open>Numbers\<close>

definition int_literal :: "string \<Rightarrow> bool" where
  "int_literal s = (case parse_int64 s of Some n \<Rightarrow> format_int n = s | None \<Rightarrow> False)"

text \<open>What may follow a value inside a document.\<close>

definition delim :: "string \<Rightarrow> bool" where
  "delim r \<longleftrightarrow> r = [] \<or> hd r = CHR '','' \<or> hd r = CHR '']'' \<or> hd r = CHR ''}''"

lemma digit_char_dec: "0 \<le> d \<Longrightarrow> d < 10 \<Longrightarrow>
  is_digit 10 (digit_char d) \<and> (digit_char d = CHR ''0'' \<longleftrightarrow> d = 0) \<and> digit_char d \<noteq> CHR ''-''"
proof -
  have "list_all (\<lambda>d. is_digit 10 (digit_char d) \<and> (digit_char d = CHR ''0'') = (d = 0) \<and> digit_char d \<noteq> CHR ''-'') [0..9]"
    by code_simp
  then show "0 \<le> d \<Longrightarrow> d < 10 \<Longrightarrow> ?thesis" by (simp add: list_all_iff)
qed

lemma delim_stops:
  assumes "delim r"
  shows "takeWhile (is_digit 10) r = []" "dropWhile (is_digit 10) r = r"
    and "num_frac r = Some ([], r)" "num_exp r = Some ([], r)" "skip_ws r = r"
proof -
  have nd: "\<not> is_digit 10 (CHR '','')" "\<not> is_digit 10 (CHR '']'')" "\<not> is_digit 10 (CHR ''}'')" by code_simp+
  show "takeWhile (is_digit 10) r = []" "dropWhile (is_digit 10) r = r"
    using assms nd by (cases r; auto simp: delim_def)+
  show "num_frac r = Some ([], r)" "num_exp r = Some ([], r)" "skip_ws r = r"
    using assms by (cases r; auto simp: delim_def num_frac_def num_exp_def skip_ws_def json_space_def)+
qed

lemma parse_num_uint:
  assumes "0 \<le> n" "delim r"
  shows "num_int (format_uint n @ r) = Some (format_uint n, r)" and "hd (format_uint n) \<noteq> CHR ''-''"
    and "is_digit 10 (hd (format_uint n))"
proof -
  let ?l = "format_uint n"
  have ds: "\<forall>d \<in> set (to_base 10 n). 0 \<le> d \<and> d < 10" using to_base_digits[of 10 n] assms by simp
  then have dig: "\<forall>c \<in> set ?l. is_digit 10 c" using digit_char_dec by (auto simp: format_uint_def)
  obtain c l where l: "?l = c # l" using to_base_nonempty[of 10 n] by (cases ?l) (auto simp: format_uint_def)
  have hd0: "0 \<le> hd (to_base 10 n)" "hd (to_base 10 n) < 10" using ds by auto
  have c: "c = digit_char (hd (to_base 10 n))" using l by (metis format_uint_def hd_map list.sel(1) to_base_nonempty)
  show "hd ?l \<noteq> CHR ''-''" "is_digit 10 (hd ?l)" using l c digit_char_dec[OF hd0] by simp_all
  have tw: "digits (?l @ r) = ?l" "dropWhile (is_digit 10) (?l @ r) = r"
    using dig delim_stops[OF assms(2)] by (auto simp: digits_def)
  show "num_int (?l @ r) = Some (?l, r)"
  proof (cases "n = 0")
    case True
    moreover have "format_uint 0 = ''0''" by code_simp
    ultimately show ?thesis by (simp add: num_int_def)
  next
    case False
    then have "c \<noteq> CHR ''0''" using c digit_char_dec[OF hd0] hd_to_base[of 10 n] assms(1) by simp
    then show ?thesis using tw dig l by (simp add: num_int_def)
  qed
qed

lemma parse_num_int:
  assumes "int_literal s" "delim r"
  shows "parse_num (s @ r) = Some (s, r)" and "s \<noteq> []" and "hd s = CHR ''-'' \<or> is_digit 10 (hd s)"
proof -
  obtain n where s: "s = format_int n" using assms(1) by (auto simp: int_literal_def split: option.splits)
  have ne: "format_uint k \<noteq> []" for k by (simp add: format_uint_def)
  note p = parse_num_uint[OF _ assms(2)] and d = delim_stops[OF assms(2)]
  show "parse_num (s @ r) = Some (s, r)"
  proof (cases "n < 0")
    case True
    then show ?thesis using p(1)[of "- n"] d by (simp add: s format_int_def parse_num_def)
  next
    case False
    then obtain c l where "format_uint n = c # l" "c \<noteq> CHR ''-''" using p(2)[of n] ne[of n] by (cases "format_uint n") auto
    then show ?thesis using p(1)[of n] False d by (simp add: s format_int_def parse_num_def)
  qed
  show "s \<noteq> []" "hd s = CHR ''-'' \<or> is_digit 10 (hd s)"
    using p(3)[of n] ne by (auto simp: s format_int_def)
qed

section \<open>Values\<close>

fun json_ok :: "json \<Rightarrow> bool" where
  "json_ok (JNum s) = int_literal s"
| "json_ok (JStr s) = utf8_valid s"
| "json_ok (JArr xs) = list_all json_ok xs"
| "json_ok (JObj ms) = list_all (\<lambda>(k, v). utf8_valid k \<and> json_ok v) ms"
| "json_ok _ = True"

fun need :: "json \<Rightarrow> nat" where
  "need (JArr xs) = Suc (sum_list (map (\<lambda>x. Suc (need x)) xs))"
| "need (JObj ms) = Suc (sum_list (map (\<lambda>(k, v). Suc (need v)) ms))"
| "need _ = 1"

definition starts_value :: "char \<Rightarrow> bool" where
  "starts_value c \<longleftrightarrow> \<not> json_space c \<and> c \<noteq> CHR '']'' \<and> c \<noteq> CHR ''}''"

lemma digit_starts: "is_digit 10 c \<Longrightarrow> 48 \<le> byte c \<and> byte c \<le> 57"
  by (auto simp: is_digit_def digit_value_def byte_def Let_def split: if_splits)

lemma render_starts: "json_ok j \<Longrightarrow> \<exists>c t. render j = c # t \<and> starts_value c"
proof (cases j)
  case (JNum s)
  moreover assume "json_ok j"
  ultimately have l: "int_literal s" by simp
  have "delim []" by (simp add: delim_def)
  from parse_num_int(2,3)[OF l this] obtain c t where "s = c # t" "c = CHR ''-'' \<or> is_digit 10 c"
    by (cases s) auto
  moreover have "starts_value c" if "is_digit 10 c"
    using digit_starts[OF that] by (auto simp: starts_value_def json_space_def byte_def)
  ultimately show ?thesis using JNum by (auto simp: starts_value_def json_space_def)
qed (auto simp: quote_json_def starts_value_def json_space_def)

lemma skip_ws_render: "json_ok j \<Longrightarrow> skip_ws (render j @ r) = render j @ r"
  using render_starts[of j] by (auto simp: skip_ws_def starts_value_def)

lemma parse_quoted: "utf8_valid s \<Longrightarrow>
  skip_ws (quote_json s @ r) = CHR 0x22 # esc s @ CHR 0x22 # r \<and> parse_str (esc s @ CHR 0x22 # r) = Some (s, r)"
  by (simp add: quote_json_def skip_ws_def json_space_def parse_str_esc)

lemma parse_elems_render:
  assumes "xs \<noteq> []" "sum_list (map (\<lambda>x. Suc (need x)) xs) \<le> n" "list_all json_ok xs"
    and "\<And>x k r. x \<in> set xs \<Longrightarrow> need x \<le> k \<Longrightarrow> delim r \<Longrightarrow> parse_value k (render x @ r) = Some (x, r)"
  shows "parse_elems n (join_with (CHR '','') (map render xs) @ CHR '']'' # r) = Some (xs, r)"
  using assms
proof (induction xs arbitrary: n)
  case (Cons x xs)
  then obtain m where n: "n = Suc m" "need x \<le> m" "sum_list (map (\<lambda>x. Suc (need x)) xs) \<le> m" by (cases n) auto
  have v: "parse_value m (render x @ t) = Some (x, t)" if "delim t" for t using Cons.prems(4) n(2) that by simp
  show ?case
  proof (cases xs)
    case Nil
    then show ?thesis using v[of "CHR '']'' # r"] by (simp add: n(1) delim_def skip_ws_def json_space_def)
  next
    case (Cons y ys)
    then have IH: "parse_elems m (join_with (CHR '','') (map render xs) @ CHR '']'' # r) = Some (xs, r)"
      using Cons.IH n(3) Cons.prems(3,4) by simp
    show ?thesis
      using v[of "CHR '','' # join_with (CHR '','') (map render xs) @ CHR '']'' # r"] IH Cons
      by (simp add: n(1) delim_def skip_ws_def json_space_def)
  qed
qed simp

lemma parse_members_render:
  assumes "ms \<noteq> []" "sum_list (map (\<lambda>(k, v). Suc (need v)) ms) \<le> n"
    and "list_all (\<lambda>(k, v). utf8_valid k \<and> json_ok v) ms"
    and "\<And>p k r. p \<in> set ms \<Longrightarrow> need (snd p) \<le> k \<Longrightarrow> delim r \<Longrightarrow> parse_value k (render (snd p) @ r) = Some (snd p, r)"
  shows "parse_members n (join_with (CHR '','') (map (\<lambda>(k, v). quote_json k @ '':'' @ render v) ms) @ CHR ''}'' # r)
    = Some (ms, r)"
  using assms
proof (induction ms arbitrary: n)
  case (Cons p ms)
  obtain k v where p: "p = (k, v)" by (cases p)
  with Cons.prems obtain m where n: "n = Suc m" "need v \<le> m" "sum_list (map (\<lambda>(k, v). Suc (need v)) ms) \<le> m"
    by (cases n) auto
  have k: "utf8_valid k" using Cons.prems(3) p by simp
  have v: "parse_value m (render v @ t) = Some (v, t)" if "delim t" for t
    using Cons.prems(4)[of p m t] n(2) that p by simp
  note q = parse_quoted[OF k]
  show ?case
  proof (cases ms)
    case Nil
    then show ?thesis using q v[of "CHR ''}'' # r"] p by (simp add: n(1) delim_def skip_ws_def[of "_ # _"] json_space_def)
  next
    case (Cons y ys)
    let ?t = "join_with (CHR '','') (map (\<lambda>(k, v). quote_json k @ '':'' @ render v) ms) @ CHR ''}'' # r"
    have IH: "parse_members m ?t = Some (ms, r)" using Cons.IH n(3) Cons.prems(3,4) Cons by simp
    have "join_with (CHR '','') (map (\<lambda>(k, v). quote_json k @ '':'' @ render v) (p # ms)) @ CHR ''}'' # r =
        quote_json k @ CHR '':'' # render v @ CHR '','' # ?t" using p Cons by simp
    then show ?thesis
      using q v[of "CHR '','' # ?t"] IH p by (simp add: n(1) delim_def skip_ws_def[of "_ # _"] json_space_def)
  qed
qed simp

lemma parse_value_digit:
  assumes "c = CHR ''-'' \<or> is_digit 10 c" "s = c # t"
  shows "parse_value (Suc n) s = map_option (\<lambda>(v, t). (JNum v, t)) (parse_num s)"
proof -
  have "c \<noteq> CHR 0x22 \<and> c \<noteq> CHR ''['' \<and> c \<noteq> CHR ''{'' \<and> c \<noteq> CHR ''n'' \<and> c \<noteq> CHR ''t'' \<and> c \<noteq> CHR ''f'' \<and> \<not> json_space c"
    using assms(1) digit_starts[of c] by (auto simp: json_space_def byte_def)
  then show ?thesis using assms(2) by (simp add: skip_ws_def has_prefix_def)
qed

lemma parse_value_render:
  "json_ok j \<Longrightarrow> need j \<le> n \<Longrightarrow> delim r \<Longrightarrow> parse_value n (render j @ r) = Some (j, r)"
proof (induction j arbitrary: n r)
  case JNull
  then show ?case by (cases n) (auto simp: skip_ws_def json_space_def has_prefix_def)
next
  case (JBool b)
  then show ?case by (cases n) (auto simp: skip_ws_def json_space_def has_prefix_def)
next
  case (JNum s)
  then have l: "int_literal s" by simp
  note p = parse_num_int[OF l JNum.prems(3)]
  obtain c t where "s @ r = c # (t @ r)" "c = CHR ''-'' \<or> is_digit 10 c" using p(2,3) by (cases s) auto
  moreover obtain k where "n = Suc k" using JNum.prems(2) by (cases n) auto
  ultimately show ?case using p(1) parse_value_digit[of c "s @ r" "t @ r"] by simp
next
  case (JStr s)
  then show ?case using parse_quoted[of s r] by (cases n) auto
next
  case (JArr xs)
  then obtain k where n: "n = Suc k" "sum_list (map (\<lambda>x. Suc (need x)) xs) \<le> k" by (cases n) auto
  show ?case
  proof (cases xs)
    case Nil
    then show ?thesis by (simp add: n skip_ws_def json_space_def)
  next
    case (Cons x ys)
    let ?e = "join_with (CHR '','') (map render xs) @ CHR '']'' # r"
    have "parse_elems k ?e = Some (xs, r)"
      by (rule parse_elems_render) (use Cons n JArr in \<open>auto simp: list_all_iff\<close>)
    moreover have "\<exists>c t. skip_ws ?e = c # t \<and> c \<noteq> CHR '']''"
    proof -
      obtain c t where "render x = c # t" "starts_value c" using render_starts[of x] JArr.prems(1) Cons by auto
      then show ?thesis using Cons by (cases ys) (auto simp: skip_ws_def starts_value_def)
    qed
    ultimately show ?thesis by (auto simp: n skip_ws_def[of "_ # _"] json_space_def)
  qed
next
  case (JObj ms)
  then obtain k where n: "n = Suc k" "sum_list (map (\<lambda>(k, v). Suc (need v)) ms) \<le> k" by (cases n) auto
  show ?case
  proof (cases ms)
    case Nil
    then show ?thesis by (simp add: n skip_ws_def json_space_def)
  next
    case (Cons p ys)
    let ?e = "join_with (CHR '','') (map (\<lambda>(k, v). quote_json k @ '':'' @ render v) ms) @ CHR ''}'' # r"
    have sub: "parse_value m (render (snd q) @ t) = Some (snd q, t)"
      if "q \<in> set ms" "need (snd q) \<le> m" "delim t" for q m t
      using JObj.IH[OF that(1), of "snd q" m t] that JObj.prems(1)
      by (cases q) (auto simp: list_all_iff)
    have "parse_members k ?e = Some (ms, r)"
      by (rule parse_members_render) (use Cons n JObj.prems sub in auto)
    moreover have "\<exists>t. skip_ws ?e = CHR 0x22 # t"
      using Cons by (cases p; cases ys) (auto simp: quote_json_def skip_ws_def json_space_def)
    ultimately show ?thesis by (auto simp: n skip_ws_def[of "_ # _"] json_space_def)
  qed
qed

text \<open>The fuel of \<open>parse_json\<close> is enough for every printed document.\<close>

lemma length_join: "(\<Sum>x\<leftarrow>xs. length x) \<le> length (join_with c xs)"
  by (induction xs rule: join_with.induct[of _ c]) auto

lemma need_le: "json_ok j \<Longrightarrow> need j < 2 * length (render j)"
proof (induction j)
  case (JNum s)
  have "delim []" by (simp add: delim_def)
  with JNum show ?case using parse_num_int(2)[of s "[]"] by (cases s) auto
next
  case (JArr xs)
  have "(\<Sum>x\<leftarrow>xs. Suc (need x)) \<le> (\<Sum>x\<leftarrow>xs. 2 * length (render x))"
    by (rule sum_list_mono) (use JArr in \<open>force simp: list_all_iff\<close>)
  also have "\<dots> = 2 * (\<Sum>x\<leftarrow>map render xs. length x)" by (simp add: sum_list_const_mult comp_def)
  also have "\<dots> \<le> 2 * length (join_with (CHR '','') (map render xs))" using length_join by (intro mult_le_mono2)
  finally show ?case by simp
next
  case (JObj ms)
  let ?f = "\<lambda>(k, v). quote_json k @ '':'' @ render v"
  have "(\<Sum>(k, v)\<leftarrow>ms. Suc (need v)) \<le> (\<Sum>p\<leftarrow>ms. 2 * length (?f p))"
    by (rule sum_list_mono) (use JObj in \<open>force simp: list_all_iff\<close>)
  also have "\<dots> = 2 * (\<Sum>x\<leftarrow>map ?f ms. length x)" by (induction ms) auto
  also have "\<dots> \<le> 2 * length (join_with (CHR '','') (map ?f ms))" using length_join by (intro mult_le_mono2)
  finally show ?case by simp
qed (auto simp: quote_json_def)

lemma parse_json_render: "json_ok j \<Longrightarrow> parse_json (render j) = Some j"
proof -
  assume ok: "json_ok j"
  have "delim []" by (simp add: delim_def)
  moreover have "need j \<le> 2 * length (render j) + 1" using need_le[OF ok] by simp
  ultimately have "parse_value (2 * length (render j) + 1) (render j @ []) = Some (j, [])"
    using parse_value_render[OF ok] by blast
  then show ?thesis by (simp add: parse_json_def skip_ws_def)
qed

end
