(* ===== verification/Errors.thy ===== *)
theory Errors
  imports Prelude
begin

text \<open>
  The error values of the program. A Go error is one of the package-level sentinels of
  repository/schema.go, wal/wal.go and retention/planner.go, an \<open>s3store.Error\<close> with its kind and ambiguity flag, or
  an error of the context or the operating system that is passed on unchanged.
\<close>

datatype kind =
    Invalid | NotFound | HeadMissing | Precondition | Conflict | Auth | TLS | Transient
  | Canceled | Corrupt | Limit | Unsupported | Unknown | LocalIO

text \<open>The gRPC status codes the program returns, and plain errors by their text.\<close>

datatype grpc_code =
    CodeCanceled | CodeInvalidArgument | CodeDeadlineExceeded | CodeNotFound | CodeAlreadyExists | CodePermissionDenied
  | CodeResourceExhausted | CodeFailedPrecondition | CodeUnimplemented | CodeUnavailable | CodeDataLoss | CodeUnauthenticated

datatype err =
    S3Error kind bool
  | ErrInvalid | ErrIdentity | ErrCorrupt | ErrCapacity | ErrBlocked | ErrClosed
  | ErrUncertain | ErrRetired | ErrContention
  | WALInvalid | WALConflict | WALExpired | WALCorrupt | WALLocal
  | RetentionCoverage
  | TargetBusy | TargetUncertain
  | StatusErr grpc_code
  | PlainErr string
  | CtxErr
  | OsErr

text \<open>\<open>s3store.Is\<close>, \<open>failure\<close>, \<open>definitive\<close> (s3store/errors.go).\<close>

definition Is :: "err \<Rightarrow> kind \<Rightarrow> bool" where
  "Is e k = (case e of S3Error k' _ \<Rightarrow> k' = k | _ \<Rightarrow> False)"

definition failure :: "kind \<Rightarrow> err" where
  "failure k = S3Error k False"

definition definitive :: "kind \<Rightarrow> bool" where
  "definitive k \<longleftrightarrow> k = Precondition \<or> k = Auth \<or> k = Conflict"

text \<open>What the SDK, the transport and the adapter itself hand to \<open>classify\<close>.\<close>

datatype sdk_error =
    SdkStore kind bool
  | SdkCanceled
  | SdkDeadline
  | SdkCertificate
  | SdkResponse string

definition code_kind :: "string \<Rightarrow> kind" where
  "code_kind c =
     (if c = ''PreconditionFailed'' then Precondition
      else if c \<in> {''ConditionalRequestConflict'', ''OperationAborted''} then Conflict
      else if c \<in> {''AccessDenied'', ''InvalidAccessKeyId'', ''SignatureDoesNotMatch'',
          ''AuthorizationHeaderMalformed'', ''InvalidRegion'', ''ExpiredToken'', ''InvalidToken''} then Auth
      else if c \<in> {''SlowDown'', ''RequestTimeout'', ''InternalError'', ''ServiceUnavailable''} then Transient
      else Unknown)"

definition classify :: "sdk_error \<Rightarrow> bool \<Rightarrow> err" where
  "classify e mutation = (case e of
     SdkStore k amb \<Rightarrow> S3Error k (amb \<or> mutation \<and> \<not> definitive k)
   | SdkCanceled \<Rightarrow> S3Error Canceled mutation
   | SdkDeadline \<Rightarrow> S3Error Canceled mutation
   | SdkCertificate \<Rightarrow> S3Error TLS mutation
   | SdkResponse c \<Rightarrow> (let k = code_kind c in S3Error k (mutation \<and> \<not> definitive k)))"

text \<open>\<open>ambiguous\<close> (repository/repository.go, wal/wal.go): anything that is not a storage error
  counts as ambiguous.\<close>

definition ambiguous :: "err \<Rightarrow> bool" where
  "ambiguous e = (case e of S3Error _ amb \<Rightarrow> amb | _ \<Rightarrow> True)"

lemma Is_S3Error [simp]: "Is (S3Error k a) k' \<longleftrightarrow> k = k'"
  by (simp add: Is_def)

lemma Is_D: "Is e k \<Longrightarrow> \<exists>a. e = S3Error k a"
  by (cases e) (auto simp: Is_def)

lemma ambiguous_S3Error [simp]: "ambiguous (S3Error k a) = a"
  by (simp add: ambiguous_def)

text \<open>A failed mutation is reported as not ambiguous only with a definitive kind.\<close>

lemma classify_mutation_definitive:
  "\<not> ambiguous (classify e True) \<Longrightarrow> \<exists>k. definitive k \<and> classify e True = S3Error k False"
  by (cases e) (auto simp: classify_def Let_def)

lemma classify_read_unambiguous:
  "(\<forall>k. e \<noteq> SdkStore k True) \<Longrightarrow> \<not> ambiguous (classify e False)"
  by (cases e) (auto simp: classify_def Let_def)

end
