(* ===== verification/Strict.thy ===== *)
theory Strict
  imports Json Errors
begin

text \<open>
  Decoding of repository documents (repository/schema.go, repository/unicode.go): the check of
  escaped surrogates, the duplicate/unknown/missing field check \<open>shape\<close> against a description
  of the Go type, and \<open>strict\<close>. The contract of a document type is the locale \<open>document\<close>: what
  \<open>json.Marshal\<close> writes of a well-formed value, \<open>strict\<close> reads back.
\<close>

section \<open>validJSONUnicode\<close>

text \<open>The byte loop, on the rest of the input; \<open>ins\<close> is the code's \<open>in\<close>.\<close>

function json_unicode :: "bool \<Rightarrow> string \<Rightarrow> bool" where
  "json_unicode ins s = (case s of
     [] \<Rightarrow> \<not> ins
   | c # r \<Rightarrow>
      if c = CHR 0x22 then json_unicode (\<not> ins) r
      else if \<not> ins \<or> c \<noteq> CHR 0x5C then json_unicode ins r
      else (case r of
          [] \<Rightarrow> False
        | e # t \<Rightarrow>
           if e \<noteq> CHR ''u'' then json_unicode ins t
           else if length t < 4 then False
           else (case parse_uint 16 16 (take 4 t) of
               None \<Rightarrow> False
             | Some n \<Rightarrow>
                if 0xDC00 \<le> n \<and> n \<le> 0xDFFF then False
                else if 0xD800 \<le> n \<and> n \<le> 0xDBFF then
                  (if length (drop 4 t) < 6 \<or> take 2 (drop 4 t) \<noteq> [CHR 0x5C, CHR ''u''] then False
                   else (case parse_uint 16 16 (take 4 (drop 6 t)) of
                       None \<Rightarrow> False
                     | Some low \<Rightarrow> if low < 0xDC00 \<or> low > 0xDFFF then False
                         else json_unicode ins (drop 10 t)))
                else json_unicode ins (drop 4 t))))"
  by pat_completeness auto
termination
  by (relation "measure (\<lambda>(b, s). length s)") auto

declare json_unicode.simps [simp del]

definition validJSONUnicode :: "string \<Rightarrow> bool" where
  "validJSONUnicode b = json_unicode False b"

section \<open>shape\<close>

text \<open>The Go types of the documents.\<close>

datatype gotype =
    TString
  | TBool
  | TNumber
  | TPointer gotype
  | TSlice gotype
  | TStruct "(string \<times> gotype) list"

text \<open>\<open>left\<close> is \<open>25 - depth\<close>: the code stops at depth 25.\<close>

fun shape :: "nat \<Rightarrow> gotype \<Rightarrow> json \<Rightarrow> err + unit"
  and shape_elem :: "nat \<Rightarrow> gotype \<Rightarrow> json \<Rightarrow> err + unit" where
  "shape 0 t j = Inl ErrCapacity"
| "shape (Suc left) t j = (case t of
     TPointer u \<Rightarrow> if j = JNull then Inr () else shape_elem left u j
   | _ \<Rightarrow> if j = JNull then Inl ErrInvalid else shape_elem left t j)"
| "shape_elem left t j = (case t of
     TStruct fields \<Rightarrow>
       (case j of
          JObj ms \<Rightarrow>
            res_bind (fold_res (\<lambda>(k, v) seen.
                case map_of fields k of
                  None \<Rightarrow> Inl ErrInvalid
                | Some ft \<Rightarrow> if k \<in> set seen then Inl ErrInvalid
                    else res_bind (shape left ft v) (\<lambda>_. Inr (k # seen))) ms [])
              (\<lambda>seen. guard (length seen = length fields) ErrInvalid)
        | _ \<Rightarrow> Inl ErrInvalid)
   | TSlice u \<Rightarrow>
       (case j of
          JArr vs \<Rightarrow> res_bind (fold_res (\<lambda>v _. shape left u v) vs ()) (\<lambda>_. Inr ())
        | _ \<Rightarrow> Inl ErrInvalid)
   | TString \<Rightarrow> (case j of JStr _ \<Rightarrow> Inr () | _ \<Rightarrow> Inl ErrInvalid)
   | TBool \<Rightarrow> (case j of JBool _ \<Rightarrow> Inr () | _ \<Rightarrow> Inl ErrInvalid)
   | _ \<Rightarrow> (case j of JNum _ \<Rightarrow> Inr () | _ \<Rightarrow> Inl ErrInvalid))"

section \<open>strict\<close>

text \<open>\<open>dec\<close> is the typed decode of the destination, with its number range checks.\<close>

definition strict :: "gotype \<Rightarrow> (json \<Rightarrow> 'a option) \<Rightarrow> string \<Rightarrow> int \<Rightarrow> err + 'a" where
  "strict ty dec b limit =
     (if limit < int (length b) then Inl ErrCapacity
      else if \<not> utf8_valid b \<or> \<not> validJSONUnicode b then Inl ErrInvalid
      else case parse_json b of
        None \<Rightarrow> Inl ErrInvalid
      | Some j \<Rightarrow> res_bind (shape 25 ty j)
          (\<lambda>_. case dec j of None \<Rightarrow> Inl ErrInvalid | Some x \<Rightarrow> Inr x))"

section \<open>Printed documents are valid text\<close>

lemma utf8_len_append: "utf8_len s \<noteq> 0 \<Longrightarrow> utf8_len (s @ t) = utf8_len s \<and> utf8_len s \<le> length s"
  by (cases s; cases "tl s"; cases "tl (tl s)"; cases "tl (tl (tl s))")
    (simp_all add: utf8_len_def Let_def split: if_splits)

lemma utf8_valid_append: "utf8_valid s \<Longrightarrow> utf8_valid (s @ t) = utf8_valid t"
proof (induction s rule: utf8_valid.induct)
  case (1 s)
  show ?case
  proof (cases "s = []")
    case False
    then have v: "utf8_len s \<noteq> 0" "utf8_valid (drop (utf8_len s) s)"
      using "1.prems" by (simp_all add: utf8_valid.simps[of s] split: if_splits)
    note a = utf8_len_append[OF v(1), of t]
    have "utf8_valid (s @ t) = utf8_valid (drop (utf8_len s) s @ t)"
      using False v(1) a by (subst utf8_valid.simps) simp
    then show ?thesis using "1.IH" False v by simp
  qed simp
qed

lemma utf8_valid_ascii: "\<forall>c \<in> set s. byte c < 128 \<Longrightarrow> utf8_valid s"
proof (induction s)
  case (Cons c s)
  then have "utf8_len (c # s) = 1" by (simp add: utf8_len_def byte_def)
  with Cons show ?case by (subst utf8_valid.simps) simp
qed simp

lemma utf8_valid_one: "s \<noteq> [] \<Longrightarrow> utf8_len s \<noteq> 0 \<Longrightarrow> utf8_valid (take (utf8_len s) s)"
proof -
  assume s: "s \<noteq> []" "utf8_len s \<noteq> 0"
  have le: "utf8_len s \<le> length s" using utf8_len_append[OF s(2)] by blast
  have "utf8_len (take (utf8_len s) s) = utf8_len s"
    using s by (auto simp: utf8_len_def Let_def split: list.splits if_splits)
  then show ?thesis using s le by (subst utf8_valid.simps) auto
qed

lemma esc_byte_ascii: "byte c < 128 \<Longrightarrow> \<forall>x \<in> set (esc_byte c). byte x < 128"
proof -
  assume b: "byte c < 128"
  have all: "list_all (\<lambda>c. list_all (\<lambda>x. byte x < 128) (esc_byte c)) (map char_of [0..127::int])" by code_simp
  have "c = char_of (byte c)" by (simp add: byte_def)
  moreover have "byte c \<in> set [0..127]" using b byte_nonneg[of c] by simp
  ultimately show ?thesis using all by (metis (no_types, lifting) image_eqI list.set_map list_all_iff)
qed

text \<open>Escaping acts rune by rune, so a property of the escaped runes carries over.\<close>

lemma esc_induct [consumes 1, case_names nil rune]:
  assumes "utf8_valid s" and nil: "P [] []"
    and rune: "\<And>u e s. u \<noteq> [] \<Longrightarrow> utf8_valid s \<Longrightarrow> P s (esc s) \<Longrightarrow>
        (\<exists>c. byte c < 128 \<and> u = [c] \<and> e = esc_byte c) \<or>
        e = [CHR 0x5C, CHR ''u''] @ ''2028'' \<or> e = [CHR 0x5C, CHR ''u''] @ ''2029'' \<or>
        (e = u \<and> utf8_valid u \<and> (\<forall>x \<in> set u. 128 \<le> byte x)) \<Longrightarrow> P (u @ s) (e @ esc s)"
  shows "P s (esc s)"
  using assms(1)
proof (induction s rule: utf8_valid.induct)
  case (1 s)
  show ?case
  proof (cases s)
    case Nil
    moreover have "esc [] = []" by (simp add: esc.simps)
    ultimately show ?thesis using nil by simp
  next
    case (Cons c r)
    let ?u = "take (utf8_len s) s" and ?s = "drop (utf8_len s) s"
    have v: "utf8_len s \<noteq> 0" "utf8_valid ?s"
      using "1.prems" Cons by (subst (asm) utf8_valid.simps, simp split: if_splits)+
    have IH: "P ?s (esc ?s)" using "1.IH" Cons v by simp
    have ne: "?u \<noteq> []" using Cons v(1) by simp
    have "\<exists>e. esc s = e @ esc ?s \<and> ((\<exists>c. byte c < 128 \<and> ?u = [c] \<and> e = esc_byte c) \<or>
        e = [CHR 0x5C, CHR ''u''] @ ''2028'' \<or> e = [CHR 0x5C, CHR ''u''] @ ''2029'' \<or>
        (e = ?u \<and> utf8_valid ?u \<and> (\<forall>x \<in> set ?u. 128 \<le> byte x)))"
    proof (cases "byte c < 128")
      case True
      then have "utf8_len s = 1" using Cons by (simp add: utf8_len_def byte_def)
      then show ?thesis using esc_Cons(1)[OF Cons v(1) True] True Cons by auto
    next
      case False
      note e = esc_Cons(2-4)[OF Cons v(1) False]
      have "utf8_valid ?u" using utf8_valid_one v(1) Cons by blast
      moreover have "\<forall>x \<in> set ?u. 128 \<le> byte x" using utf8_len_bytes[OF Cons _ v(1)] False by simp
      ultimately show ?thesis using e utf8_len_separator[of s]
        by (cases "take 3 s \<in> {[CHR 0xE2, CHR 0x80, CHR 0xA8], [CHR 0xE2, CHR 0x80, CHR 0xA9]}") force+
    qed
    then show ?thesis using rune[OF ne v(2) IH] by (metis append_take_drop_id)
  qed
qed

lemma utf8_valid_esc: "utf8_valid s \<Longrightarrow> utf8_valid (esc s)"
proof (induction rule: esc_induct[where P = "\<lambda>_ e. utf8_valid e"])
  case (rune u e s)
  have "utf8_valid e"
    using rune(4)
  proof (elim disjE exE conjE)
    fix c assume "byte c < 128" "e = esc_byte c"
    then show ?thesis using esc_byte_ascii[of c] by (simp add: utf8_valid_ascii)
  qed (simp_all add: utf8_valid_ascii byte_def)
  with rune(3) show ?case by (simp add: utf8_valid_append)
qed simp_all

lemma json_unicode_raw:
  "\<forall>x \<in> set u. x \<noteq> CHR 0x22 \<and> x \<noteq> CHR 0x5C \<Longrightarrow> json_unicode b (u @ t) = json_unicode b t"
  by (induction u) (auto simp: json_unicode.simps[of b "_ # _"])

lemma json_unicode_u:
  assumes "parse_uint 16 16 h = Some n" "length h = 4" "n < 0xD800"
  shows "json_unicode True ([CHR 0x5C, CHR ''u''] @ h @ t) = json_unicode True t"
  using assms by (subst json_unicode.simps) simp

lemma json_unicode_esc_byte:
  assumes "byte c < 128"
  shows "json_unicode True (esc_byte c @ t) = json_unicode True t"
proof -
  consider (raw) "esc_byte c = [c]" "c \<noteq> CHR 0x22" "c \<noteq> CHR 0x5C"
    | (two) e where "esc_byte c = [CHR 0x5C, e]" "e \<noteq> CHR ''u''"
    | (six) h where "esc_byte c = [CHR 0x5C, CHR ''u''] @ h" "length h = 4" "unhex4 h = Some (byte c)"
    using esc_byte_forms[OF assms]
    by (auto simp: esc_forms_def Let_def length_Suc_conv eval_nat_numeral)
  then show ?thesis
  proof cases
    case raw
    then show ?thesis using json_unicode_raw[of "[c]"] by simp
  next
    case two
    then show ?thesis by (simp add: json_unicode.simps[of True "CHR 0x5C # _"])
  next
    case six
    then show ?thesis using json_unicode_u[of h "byte c" t] assms by (simp add: unhex4_def)
  qed
qed

lemma json_unicode_esc: "utf8_valid s \<Longrightarrow> json_unicode True (esc s @ t) = json_unicode True t"
proof (induction rule: esc_induct[where P = "\<lambda>_ e. json_unicode True (e @ t) = json_unicode True t"])
  case (rune u e s)
  have u: "parse_uint 16 16 ''2028'' = Some 0x2028" "parse_uint 16 16 ''2029'' = Some 0x2029" by code_simp+
  have q: "128 \<le> byte x \<Longrightarrow> x \<noteq> CHR 0x22 \<and> x \<noteq> CHR 0x5C" for x by (auto simp: byte_def)
  have "json_unicode True (e @ esc s @ t) = json_unicode True (esc s @ t)"
    using rune(3)
  proof (elim disjE exE conjE)
    assume "e = u" "\<forall>x \<in> set u. 128 \<le> byte x"
    then show ?thesis using json_unicode_raw[of e True "esc s @ t"] q by blast
  qed (use json_unicode_u[OF u(1), of "esc s @ t"] json_unicode_u[OF u(2), of "esc s @ t"] in
      \<open>simp_all add: json_unicode_esc_byte\<close>)
  with rune(4) show ?case by simp
qed simp_all

lemma int_literal_chars:
  assumes "int_literal s"
  shows "\<forall>c \<in> set s. c = CHR ''-'' \<or> is_digit 10 c"
proof -
  obtain n where s: "s = format_int n" using assms by (auto simp: int_literal_def split: option.splits)
  have d: "\<forall>c \<in> set (format_uint k). is_digit 10 c" if "0 \<le> k" for k
    using to_base_digits[of 10 k] that digit_char_dec by (auto simp: format_uint_def)
  show ?thesis using d[of n] d[of "- n"] by (auto simp: s format_int_def split: if_splits)
qed

lemma literal_char: "c = CHR ''-'' \<or> is_digit 10 c \<Longrightarrow> byte c < 128 \<and> c \<noteq> CHR 0x22 \<and> c \<noteq> CHR 0x5C"
  using digit_starts[of c] by (auto simp: byte_def)

lemma utf8_valid_join:
  "list_all utf8_valid xs \<Longrightarrow> byte c < 128 \<Longrightarrow> utf8_valid (join_with c xs)"
proof (induction c xs rule: join_with.induct)
  case (3 c x y ys)
  then show ?case using utf8_valid_append[of x] utf8_valid_append[of "[c]"] utf8_valid_ascii[of "[c]"] by simp
qed simp_all

lemma utf8_valid_quoted: "utf8_valid s \<Longrightarrow> utf8_valid (quote_json s)"
  using utf8_valid_append[of "[CHR 0x22]"] utf8_valid_append[OF utf8_valid_esc] utf8_valid_ascii[of "[CHR 0x22]"]
  by (simp add: quote_json_def byte_def)

lemma utf8_valid_wrapped:
  "utf8_valid s \<Longrightarrow> byte a < 128 \<Longrightarrow> byte b < 128 \<Longrightarrow> utf8_valid ([a] @ s @ [b])"
  using utf8_valid_append[of "[a]"] utf8_valid_append[of s] utf8_valid_ascii[of "[a]"] utf8_valid_ascii[of "[b]"]
  by simp

lemma utf8_valid_render: "json_ok j \<Longrightarrow> utf8_valid (render j)"
proof (induction j)
  case (JNum s)
  then show ?case using int_literal_chars[of s] literal_char by (auto intro: utf8_valid_ascii)
next
  case (JArr xs)
  have "utf8_valid (join_with (CHR '','') (map render xs))"
    by (rule utf8_valid_join) (use JArr in \<open>auto simp: list_all_iff byte_def\<close>)
  then show ?case using utf8_valid_wrapped[of _ "CHR ''[''" "CHR '']''"] by (simp add: byte_def)
next
  case (JObj ms)
  have "utf8_valid (quote_json k @ '':'' @ render v)" if "(k, v) \<in> set ms" for k v
  proof -
    have "utf8_valid k" "utf8_valid (render v)" using JObj that by (auto simp: list_all_iff)
    then show ?thesis
      using utf8_valid_append[OF utf8_valid_quoted[of k]] utf8_valid_append[of "'':''"] utf8_valid_ascii[of "'':''"]
      by (simp add: byte_def)
  qed
  then have "utf8_valid (join_with (CHR '','') (map (\<lambda>(k, v). quote_json k @ '':'' @ render v) ms))"
    by (intro utf8_valid_join) (auto simp: list_all_iff byte_def)
  then show ?case using utf8_valid_wrapped[of _ "CHR ''{''" "CHR ''}''"] by (simp add: byte_def)
qed (auto simp: utf8_valid_quoted intro!: utf8_valid_ascii, auto simp: byte_def)

lemma json_unicode_quoted: "utf8_valid s \<Longrightarrow> json_unicode False (quote_json s @ t) = json_unicode False t"
  using json_unicode_esc[of s "CHR 0x22 # t"] json_unicode.simps[of False "CHR 0x22 # esc s @ CHR 0x22 # t"]
    json_unicode.simps[of True "CHR 0x22 # t"]
  by (simp add: quote_json_def)

lemma json_unicode_join:
  assumes "\<And>x t. x \<in> set xs \<Longrightarrow> json_unicode False (x @ t) = json_unicode False t"
    and "c \<noteq> CHR 0x22" "c \<noteq> CHR 0x5C"
  shows "json_unicode False (join_with c xs @ t) = json_unicode False t"
  using assms
proof (induction c xs rule: join_with.induct)
  case (3 c x y ys)
  have "json_unicode False ((x @ c # join_with c (y # ys)) @ t) = json_unicode False (c # join_with c (y # ys) @ t)"
    using "3.prems"(1)[of x "c # join_with c (y # ys) @ t"] by simp
  also have "\<dots> = json_unicode False (join_with c (y # ys) @ t)"
    using json_unicode_raw[of "[c]" False] "3.prems"(2,3) by simp
  finally show ?case using 3 by simp
qed simp_all

lemma json_unicode_render: "json_ok j \<Longrightarrow> json_unicode False (render j @ t) = json_unicode False t"
proof (induction j arbitrary: t)
  case (JNum s)
  then show ?case using int_literal_chars[of s] literal_char json_unicode_raw[of s False] by auto
next
  case (JArr xs)
  have "json_unicode False (join_with (CHR '','') (map render xs) @ r) = json_unicode False r" for r
    by (rule json_unicode_join) (use JArr in \<open>auto simp: list_all_iff\<close>)
  then show ?case using json_unicode_raw[of "''[''" False] json_unicode_raw[of "'']''" False] by simp
next
  case (JObj ms)
  have "json_unicode False ((quote_json k @ '':'' @ render v) @ r) = json_unicode False r" if "(k, v) \<in> set ms" for k v r
  proof -
    have "utf8_valid k" "\<And>r. json_unicode False (render v @ r) = json_unicode False r"
      using JObj that by (auto simp: list_all_iff)
    then show ?thesis using json_unicode_quoted[of k] json_unicode_raw[of "'':''" False] by simp
  qed
  then have "json_unicode False (join_with (CHR '','') (map (\<lambda>(k, v). quote_json k @ '':'' @ render v) ms) @ r)
      = json_unicode False r" for r
    by (intro json_unicode_join) auto
  then show ?case using json_unicode_raw[of "''{''" False] json_unicode_raw[of "''}''" False] by simp
next
  case (JStr s)
  then show ?case using json_unicode_quoted by simp
qed (use json_unicode_raw[of "''null''" False] json_unicode_raw[of "''true''" False]
    json_unicode_raw[of "''false''" False] in auto)

section \<open>The document contract\<close>

lemma shape_struct:
  assumes "map fst ms = map fst fs" "distinct (map fst fs)"
    and "\<forall>(t, v) \<in> set (zip (map snd fs) (map snd ms)). shape n t v = Inr ()"
  shows "shape (Suc n) (TStruct fs) (JObj ms) = Inr ()"
proof -
  let ?f = "\<lambda>(k, v) seen. case map_of fs k of None \<Rightarrow> Inl ErrInvalid
      | Some ft \<Rightarrow> if k \<in> set seen then Inl ErrInvalid else res_bind (shape n ft v) (\<lambda>_. Inr (k # seen))"
  have "fold_res ?f ms' seen = Inr (rev (map fst fs') @ seen)"
    if "map fst ms' = map fst fs'" "set fs' \<subseteq> set fs" "distinct (map fst fs')" "set (map fst fs') \<inter> set seen = {}"
      "\<forall>(t, v) \<in> set (zip (map snd fs') (map snd ms')). shape n t v = Inr ()" for ms' fs' seen
    using that
  proof (induction ms' arbitrary: fs' seen)
    case (Cons m ms')
    then obtain f fs'' where f: "fs' = f # fs''" by (cases fs') auto
    obtain k v t where kv: "m = (k, v)" "f = (k, t)" using Cons.prems(1) f by (cases m; cases f) auto
    have "map_of fs k = Some t" using Cons.prems(2) f kv assms(2) by (simp add: map_of_eq_Some_iff)
    moreover have "k \<notin> set seen" "shape n t v = Inr ()" using Cons.prems f kv by auto
    moreover have "fold_res ?f ms' (k # seen) = Inr (rev (map fst fs'') @ k # seen)"
      by (rule Cons.IH) (use Cons.prems f kv in auto)
    ultimately show ?case by (simp add: f kv)
  qed simp
  from this[of ms fs "[]"] assms show ?thesis by simp
qed

lemma shape_pointer: "shape (Suc n) (TPointer t) j = Inr () \<longleftrightarrow> j = JNull \<or> shape_elem n t j = Inr ()"
  by simp

lemma shape_slice:
  "(\<And>v. v \<in> set vs \<Longrightarrow> shape n t v = Inr ()) \<Longrightarrow> shape (Suc n) (TSlice t) (JArr vs) = Inr ()"
proof -
  assume a: "\<And>v. v \<in> set vs \<Longrightarrow> shape n t v = Inr ()"
  have "fold_res (\<lambda>v _. shape n t v) vs () = Inr ()" using a by (induction vs) auto
  then show ?thesis by simp
qed

locale document =
  fixes ty :: gotype
    and enc :: "'a \<Rightarrow> json"
    and dec :: "json \<Rightarrow> 'a option"
    and ok :: "'a \<Rightarrow> bool"
  assumes enc_ok: "ok x \<Longrightarrow> json_ok (enc x)"
    and enc_shape: "ok x \<Longrightarrow> shape 25 ty (enc x) = Inr ()"
    and dec_enc: "ok x \<Longrightarrow> dec (enc x) = Some x"
begin

lemma strict_marshal:
  assumes "ok x" "int (length (render (enc x))) \<le> limit"
  shows "strict ty dec (render (enc x)) limit = Inr x"
  using assms enc_ok[OF assms(1)] enc_shape[OF assms(1)] dec_enc[OF assms(1)]
    utf8_valid_render[of "enc x"] json_unicode_render[of "enc x" "[]"] json_unicode.simps[of False "[]"]
  by (simp add: strict_def validJSONUnicode_def parse_json_render)

lemma marshal_inj: "ok x \<Longrightarrow> ok y \<Longrightarrow> render (enc x) = render (enc y) \<Longrightarrow> x = y"
  using parse_json_render[OF enc_ok] dec_enc by (metis option.inject)

lemma strict_capacity: "limit < int (length b) \<Longrightarrow> strict ty dec b limit = Inl ErrCapacity"
  by (simp add: strict_def)

end

section \<open>Length of a printed document\<close>

fun render_bound :: "json \<Rightarrow> int" where
  "render_bound JNull = 4"
| "render_bound (JBool b) = 5"
| "render_bound (JNum s) = int (length s)"
| "render_bound (JStr s) = 6 * int (length s) + 2"
| "render_bound (JArr xs) = 2 + sum_list (map (\<lambda>x. render_bound x + 1) xs)"
| "render_bound (JObj ms) = 2 + sum_list (map (\<lambda>(k, v). 6 * int (length k) + 4 + render_bound v) ms)"

lemma length_esc_byte: "length (esc_byte c) \<le> 6"
  by (simp add: esc_byte_def hex4_def)

lemma length_esc: "length (esc s) \<le> 6 * length s"
proof (induction s rule: esc.induct)
  case (1 s)
  show ?case
  proof (cases s)
    case (Cons c r)
    have t3: "3 \<le> length s" if "take 3 s = [CHR 0xE2, CHR 0x80, x]" for x
      using arg_cong[OF that, of length] by simp
    have l: "utf8_len s \<le> length s" using utf8_len_append[of s] by (cases "utf8_len s = 0") auto
    note IH = "1.IH"[OF Cons]
    consider (a) "byte c < 128" | (b) "\<not> byte c < 128" "utf8_len s = 0" | (m) "\<not> byte c < 128" "utf8_len s \<noteq> 0" by blast
    then show ?thesis
    proof cases
      case a
      then have "esc s = esc_byte c @ esc r" by (subst esc.simps) (simp add: Cons)
      then show ?thesis using IH(1)[OF a] length_esc_byte[of c] Cons by simp
    next
      case b
      then have "length (esc s) = 6 + length (esc r)" by (subst esc.simps) (simp add: Cons)
      then show ?thesis using IH(2)[OF b] Cons by simp
    next
      case m
      note e = esc_Cons(2-4)[OF Cons m(2) m(1)]
      show ?thesis
      proof (cases "\<exists>x. take 3 s = [CHR 0xE2, CHR 0x80, x] \<and> (x = CHR 0xA8 \<or> x = CHR 0xA9)")
        case True
        then have "length (esc s) = 6 + length (esc (drop 3 s))" "3 \<le> length s" using e(1,2) t3 by auto
        moreover have "length (esc (drop 3 s)) \<le> 6 * length (drop 3 s)" using True IH(3,4)[OF m] by blast
        ultimately show ?thesis by simp
      next
        case False
        then have "esc s = take (utf8_len s) s @ esc (drop (utf8_len s) s)" using e(3) by blast
        then have "length (esc s) = utf8_len s + length (esc (drop (utf8_len s) s))" using l by simp
        moreover have "length (esc (drop (utf8_len s) s)) \<le> 6 * length (drop (utf8_len s) s)" using False IH(5)[OF m] by blast
        ultimately show ?thesis using l by simp
      qed
    qed
  qed (simp add: esc.simps)
qed

lemma length_quote_json: "length (quote_json s) \<le> 6 * length s + 2"
  using length_esc[of s] by (simp add: quote_json_def)

lemma length_join_with: "int (length (join_with c xs)) \<le> sum_list (map (\<lambda>x. int (length x) + 1) xs)"
  by (induction xs rule: join_with.induct[of _ c]) auto

lemma length_render: "int (length (render j)) \<le> render_bound j"
proof (induction j)
  case (JStr s)
  then show ?case using length_quote_json[of s] by simp
next
  case (JArr xs)
  have "sum_list (map (\<lambda>x. int (length x) + 1) (map render xs)) \<le> sum_list (map (\<lambda>x. render_bound x + 1) xs)"
    unfolding map_map comp_def by (rule sum_list_mono) (use JArr in auto)
  then show ?case using length_join_with[of "CHR '',''" "map render xs"] by simp
next
  case (JObj ms)
  let ?m = "map (\<lambda>(k, v). quote_json k @ '':'' @ render v) ms"
  have "sum_list (map (\<lambda>x. int (length x) + 1) ?m) \<le> sum_list (map (\<lambda>(k, v). 6 * int (length k) + 4 + render_bound v) ms)"
    unfolding map_map comp_def
  proof (rule sum_list_mono)
    fix p assume p: "p \<in> set ms"
    obtain k v where [simp]: "p = (k, v)" by (cases p)
    have "int (length (render v)) \<le> render_bound v" using JObj[of p v] p by auto
    then show "int (length ((\<lambda>(k, v). quote_json k @ '':'' @ render v) p)) + 1 \<le> (case p of (k, v) \<Rightarrow> 6 * int (length k) + 4 + render_bound v)"
      using length_quote_json[of k] by simp
  qed
  then show ?case using length_join_with[of "CHR '',''" ?m] by simp
qed auto

end
