(* ===== verification/Go_Time.thy ===== *)
theory Go_Time
  imports Go_Text
begin

text \<open>
  The parts of package \<open>time\<close> the repository uses: \<open>time.Parse(time.RFC3339Nano, s)\<close> with the
  leniencies of Go's parser (one-digit hours, a comma before the fraction, more than nine
  fraction digits, offsets up to 24:60), \<open>t.UTC().Format(time.RFC3339Nano)\<close>, and the
  repository's own \<open>stamp\<close> and \<open>timeTarget\<close>.
\<close>

section \<open>The proleptic Gregorian calendar\<close>

definition leap_year :: "int \<Rightarrow> bool" where
  "leap_year y \<longleftrightarrow> y mod 4 = 0 \<and> (y mod 100 \<noteq> 0 \<or> y mod 400 = 0)"

definition days_in :: "int \<Rightarrow> int \<Rightarrow> int" where
  "days_in m y =
     (if m = 2 then (if leap_year y then 29 else 28)
      else if m \<in> {4, 6, 9, 11} then 30 else 31)"

text \<open>Days from the first of January of year 1 to the first of January of year \<open>y\<close>.\<close>

definition days_before_year :: "int \<Rightarrow> int" where
  "days_before_year y = (let p = y - 1 in 365 * p + p div 4 - p div 100 + p div 400)"

fun days_before_month :: "nat \<Rightarrow> int \<Rightarrow> int" where
  "days_before_month 0 y = 0"
| "days_before_month (Suc m) y = days_before_month m y + (if m = 0 then 0 else days_in (int m) y)"

definition epoch_days :: int where
  "epoch_days = 719162"

definition unix_days :: "int \<Rightarrow> int \<Rightarrow> int \<Rightarrow> int" where
  "unix_days y m d = days_before_year y + days_before_month (nat m) y + (d - 1) - epoch_days"

text \<open>The year that contains day \<open>z\<close> (counted from the first of January of year 1), by
  400-, 100-, 4- and 1-year periods.\<close>

definition year_of_day :: "int \<Rightarrow> int" where
  "year_of_day z = (let
     n400 = z div 146097; r400 = z mod 146097;
     n100 = min 3 (r400 div 36524); r100 = r400 - n100 * 36524;
     n4 = r100 div 1461; r4 = r100 mod 1461;
     n1 = min 3 (r4 div 365)
   in 400 * n400 + 100 * n100 + 4 * n4 + n1 + 1)"

fun month_walk :: "nat \<Rightarrow> int \<Rightarrow> int \<Rightarrow> int \<Rightarrow> int \<times> int" where
  "month_walk 0 y m d = (m, d)"
| "month_walk (Suc k) y m d =
     (if d < days_in m y then (m, d) else month_walk k y (m + 1) (d - days_in m y))"

definition civil :: "int \<Rightarrow> int \<times> int \<times> int" where
  "civil ud = (let z = ud + epoch_days; y = year_of_day z;
     (m, d) = month_walk 11 y 1 (z - days_before_year y) in (y, m, d + 1))"

section \<open>Parsing\<close>

definition dec_digit :: "char \<Rightarrow> bool" where
  "dec_digit c = is_digit 10 c"

definition dec_value :: "string \<Rightarrow> int" where
  "dec_value s = of_base 10 (map (\<lambda>c. the (digit_value c)) s)"

text \<open>\<open>getnum\<close>: two digits, or with \<open>fixed = False\<close> one or two.\<close>

fun getnum :: "bool \<Rightarrow> string \<Rightarrow> (int \<times> string) option" where
  "getnum fixed (a # b # r) =
     (if \<not> dec_digit a then None
      else if dec_digit b then Some (dec_value [a, b], r)
      else if fixed then None else Some (dec_value [a], b # r))"
| "getnum fixed [a] = (if dec_digit a \<and> \<not> fixed then Some (dec_value [a], []) else None)"
| "getnum fixed [] = None"

definition literal :: "char \<Rightarrow> string \<Rightarrow> string option" where
  "literal c s = (case s of x # r \<Rightarrow> if x = c then Some r else None | [] \<Rightarrow> None)"

definition parse_year :: "string \<Rightarrow> (int \<times> string) option" where
  "parse_year s =
     (if 4 \<le> length s \<and> list_all dec_digit (take 4 s)
      then Some (dec_value (take 4 s), drop 4 s) else None)"

definition in_range :: "int \<Rightarrow> int \<Rightarrow> int \<times> string \<Rightarrow> (int \<times> string) option" where
  "in_range lo hi p = (if lo \<le> fst p \<and> fst p \<le> hi then Some p else None)"

text \<open>The optional fraction: any number of digits, the first nine count.\<close>

definition parse_frac :: "string \<Rightarrow> int \<times> string" where
  "parse_frac s = (case s of
     c # r \<Rightarrow>
       (let ds = takeWhile dec_digit r; ns = take 9 ds in
        if (c = CHR ''.'' \<or> c = CHR '','') \<and> ds \<noteq> []
        then (dec_value ns * 10 ^ (9 - length ns), dropWhile dec_digit r)
        else (0, s))
   | [] \<Rightarrow> (0, s))"

text \<open>\<open>Z07:00\<close>: the offset in seconds east of UTC.\<close>

definition parse_zone :: "string \<Rightarrow> (int \<times> string) option" where
  "parse_zone s = (case s of
     [] \<Rightarrow> None
   | c # r \<Rightarrow>
      if c = CHR ''Z'' then Some (0, r)
      else if length s < 6 \<or> s ! 3 \<noteq> CHR '':'' then None
      else case (getnum True (slice s 1 3), getnum True (slice s 4 6)) of
        (Some (hr, _), Some (mm, _)) \<Rightarrow>
          if hr > 24 \<or> mm > 60 then None
          else if c = CHR ''+'' then Some ((hr * 60 + mm) * 60, drop 6 s)
          else if c = CHR ''-'' then Some (- ((hr * 60 + mm) * 60), drop 6 s)
          else None
      | _ \<Rightarrow> None)"

text \<open>The instant and the year in the parsed zone.\<close>

definition parse_rfc3339 :: "string \<Rightarrow> (instant \<times> int) option" where
  "parse_rfc3339 s =
     Option.bind (parse_year s) (\<lambda>(y, s).
     Option.bind (literal (CHR ''-'') s) (\<lambda>s.
     Option.bind (Option.bind (getnum True s) (in_range 1 12)) (\<lambda>(mo, s).
     Option.bind (literal (CHR ''-'') s) (\<lambda>s.
     Option.bind (getnum True s) (\<lambda>(d, s).
     Option.bind (literal (CHR ''T'') s) (\<lambda>s.
     Option.bind (Option.bind (getnum False s) (in_range 0 23)) (\<lambda>(h, s).
     Option.bind (literal (CHR '':'') s) (\<lambda>s.
     Option.bind (Option.bind (getnum True s) (in_range 0 59)) (\<lambda>(mi, s).
     Option.bind (literal (CHR '':'') s) (\<lambda>s.
     Option.bind (Option.bind (getnum True s) (in_range 0 59)) (\<lambda>(sec, s).
     let (ns, s) = parse_frac s in
     Option.bind (parse_zone s) (\<lambda>(off, s).
     if s \<noteq> [] \<or> d < 1 \<or> d > days_in mo y then None
     else Some (((unix_days y mo d * 86400 + h * 3600 + mi * 60 + sec) - off) * 1000000000 + ns, y)))))))))))))"

section \<open>Printing\<close>

definition pad_int :: "nat \<Rightarrow> int \<Rightarrow> string" where
  "pad_int w n = (if n < 0 then CHR ''-'' # pad_left w (CHR ''0'') (format_uint (- n))
     else pad_left w (CHR ''0'') (format_uint n))"

definition format_frac :: "int \<Rightarrow> string" where
  "format_frac ns = (if ns = 0 then []
     else CHR ''.'' # rev (dropWhile (\<lambda>c. c = CHR ''0'') (rev (pad_int 9 ns))))"

text \<open>\<open>t.UTC().Format(time.RFC3339Nano)\<close>.\<close>

definition format_rfc3339 :: "instant \<Rightarrow> string" where
  "format_rfc3339 t = (let
     secs = t div 1000000000; ns = t mod 1000000000;
     ud = secs div 86400; sd = secs mod 86400;
     (y, m, d) = civil ud
   in pad_int 4 y @ ''-'' @ pad_int 2 m @ ''-'' @ pad_int 2 d @ ''T'' @
      pad_int 2 (sd div 3600) @ '':'' @ pad_int 2 (sd mod 3600 div 60) @ '':'' @
      pad_int 2 (sd mod 60) @ format_frac ns @ ''Z'')"

section \<open>stamp and timeTarget\<close>

text \<open>\<open>stamp\<close> returns the parsed time (the zero time when parsing fails) and whether the text
  is the canonical UTC form of a year from 2000 on; some callers ignore the second result.\<close>

definition stamp :: "string \<Rightarrow> instant \<times> bool" where
  "stamp s = (case parse_rfc3339 s of
     None \<Rightarrow> (zero_instant, False)
   | Some (t, y) \<Rightarrow> (t, 2000 \<le> y \<and> s = format_rfc3339 t))"

definition timeTarget :: "string \<Rightarrow> instant option" where
  "timeTarget s = map_option fst (parse_rfc3339 s)"

text \<open>Two accepted stamps of the same instant are the same text.\<close>

lemma stamp_canonical: "stamp s = (t, True) \<Longrightarrow> s = format_rfc3339 t"
  by (auto simp: stamp_def split: option.splits)

lemma stamp_timeTarget: "stamp s = (t, True) \<Longrightarrow> timeTarget s = Some t"
  by (auto simp: stamp_def timeTarget_def split: option.splits)

end
