(* ===== verification/Go_Digest.thy ===== *)
theory Go_Digest
  imports Go_Text
begin

text \<open>
  \<open>crypto/sha256\<close> and \<open>encoding/hex\<close> as the repository uses them: \<open>digest\<close>, the UUIDs it makes
  from random bytes (\<open>UUID\<close>) and from a digest (\<open>RestoreOperationID\<close>), and that each has the
  shape the validators ask for.
\<close>

section \<open>SHA-256\<close>

type_synonym sha_state = "u32 list"

definition sha_k :: "u32 list" where
  "sha_k = map of_int [
     1116352408, 1899447441, 3049323471, 3921009573, 961987163, 1508970993,
     2453635748, 2870763221, 3624381080, 310598401, 607225278, 1426881987,
     1925078388, 2162078206, 2614888103, 3248222580, 3835390401, 4022224774,
     264347078, 604807628, 770255983, 1249150122, 1555081692, 1996064986,
     2554220882, 2821834349, 2952996808, 3210313671, 3336571891, 3584528711,
     113926993, 338241895, 666307205, 773529912, 1294757372, 1396182291,
     1695183700, 1986661051, 2177026350, 2456956037, 2730485921, 2820302411,
     3259730800, 3345764771, 3516065817, 3600352804, 4094571909, 275423344,
     430227734, 506948616, 659060556, 883997877, 958139571, 1322822218,
     1537002063, 1747873779, 1955562222, 2024104815, 2227730452, 2361852424,
     2428436474, 2756734187, 3204031479, 3329325298]"

definition sha_init :: sha_state where
  "sha_init = map of_int [
     1779033703, 3144134277, 1013904242, 2773480762, 1359893119, 2600822924, 528734635, 1541459225]"

text \<open>One byte 0x80, zeros, and the bit length as eight bytes, to a multiple of 64.\<close>

definition be_bytes :: "nat \<Rightarrow> int \<Rightarrow> int list" where
  "be_bytes k n = map (\<lambda>i. n div 256 ^ (k - 1 - i) mod 256) [0..<k]"

definition sha_pad :: "int list \<Rightarrow> int list" where
  "sha_pad m = m @ [128] @ replicate ((119 - length m mod 64) mod 64) 0 @ be_bytes 8 (8 * int (length m))"

fun be_words :: "int list \<Rightarrow> u32 list" where
  "be_words (a # b # c # d # r) = of_int (((a * 256 + b) * 256 + c) * 256 + d) # be_words r"
| "be_words _ = []"

definition sha_sigma0 :: "u32 \<Rightarrow> u32" where
  "sha_sigma0 x = xor (xor (word_rotr 7 x) (word_rotr 18 x)) (drop_bit 3 x)"

definition sha_sigma1 :: "u32 \<Rightarrow> u32" where
  "sha_sigma1 x = xor (xor (word_rotr 17 x) (word_rotr 19 x)) (drop_bit 10 x)"

definition sha_Sigma0 :: "u32 \<Rightarrow> u32" where
  "sha_Sigma0 x = xor (xor (word_rotr 2 x) (word_rotr 13 x)) (word_rotr 22 x)"

definition sha_Sigma1 :: "u32 \<Rightarrow> u32" where
  "sha_Sigma1 x = xor (xor (word_rotr 6 x) (word_rotr 11 x)) (word_rotr 25 x)"

text \<open>The schedule, newest word first.\<close>

definition sha_schedule :: "u32 list \<Rightarrow> u32 list" where
  "sha_schedule block = rev (((\<lambda>ws.
     (sha_sigma1 (ws ! 1) + ws ! 6 + sha_sigma0 (ws ! 14) + ws ! 15) # ws) ^^ 48) (rev block))"

fun sha_round :: "u32 \<times> u32 \<Rightarrow> sha_state \<Rightarrow> sha_state" where
  "sha_round (k, w) [a, b, c, d, e, f, g, h] = (let
     t1 = h + sha_Sigma1 e + xor (and e f) (and (not e) g) + k + w;
     t2 = sha_Sigma0 a + xor (xor (and a b) (and a c)) (and b c)
   in [t1 + t2, a, b, c, d + t1, e, f, g])"
| "sha_round _ s = s"

definition sha_block :: "u32 list \<Rightarrow> sha_state \<Rightarrow> sha_state" where
  "sha_block block s = map2 (+) s (fold sha_round (zip sha_k (sha_schedule block)) s)"

fun sha_blocks :: "nat \<Rightarrow> u32 list \<Rightarrow> sha_state \<Rightarrow> sha_state" where
  "sha_blocks 0 ws s = s"
| "sha_blocks (Suc n) ws s = sha_blocks n (drop 16 ws) (sha_block (take 16 ws) s)"

text \<open>\<open>sha256.Sum256\<close>: 32 bytes as numbers below 256.\<close>

definition sha256 :: "bytes \<Rightarrow> int list" where
  "sha256 m = (let ws = be_words (sha_pad (map of_char m)) in
     concat (map (\<lambda>w. be_bytes 4 (uint w)) (sha_blocks (length ws div 16) ws sha_init)))"

text \<open>\<open>hex.EncodeToString\<close>, also what \<open>%x\<close> prints of a byte slice.\<close>

definition hex_encode :: "int list \<Rightarrow> string" where
  "hex_encode bs = concat (map (\<lambda>b. [digit_char (b div 16), digit_char (b mod 16)]) bs)"

definition digest :: "bytes \<Rightarrow> string" where
  "digest b = hex_encode (sha256 b)"

section \<open>UUIDs\<close>

text \<open>\<open>fmt.Sprintf("%x-%x-%x-%x-%x", b[:4], b[4:6], b[6:8], b[8:10], b[10:16])\<close>.\<close>

definition uuid_text :: "int list \<Rightarrow> string" where
  "uuid_text b = hex_encode (take 4 b) @ ''-'' @ hex_encode (slice b 4 6) @ ''-'' @
     hex_encode (slice b 6 8) @ ''-'' @ hex_encode (slice b 8 10) @ ''-'' @ hex_encode (slice b 10 16)"

text \<open>\<open>b[6] = (b[6] & 15) | version\<close> and \<open>b[8] = (b[8] & 63) | 128\<close>; the operands share no bits.\<close>

definition uuid_bits :: "int \<Rightarrow> int list \<Rightarrow> int list" where
  "uuid_bits version b = (b[6 := or (and (b ! 6) 15) version])[8 := or (and (b ! 8) 63) 128]"

text \<open>The argument is the 16 bytes \<open>rand.Read\<close> returned.\<close>

definition UUID :: "int list \<Rightarrow> string" where
  "UUID b = uuid_text (uuid_bits 64 b)"

definition RestoreOperationID :: "string \<Rightarrow> string \<Rightarrow> string option" where
  "RestoreOperationID target fingerprint =
     (if \<not> validID target \<or> \<not> hashRE fingerprint then None
      else Some (uuid_text (uuid_bits 128
        (sha256 (''cnpg-backup/restore/v1'' @ [CHR 0x00] @ target @ [CHR 0x00] @ fingerprint)))))"

section \<open>Their shapes\<close>

definition byte_list :: "int list \<Rightarrow> bool" where
  "byte_list bs \<longleftrightarrow> (\<forall>b \<in> set bs. 0 \<le> b \<and> b < 256)"

lemma length_be_bytes [simp]: "length (be_bytes k n) = k"
  by (simp add: be_bytes_def)

lemma byte_list_be_bytes [simp]: "byte_list (be_bytes k n)"
  by (auto simp: byte_list_def be_bytes_def)

lemma byte_list_append [simp]: "byte_list (xs @ ys) \<longleftrightarrow> byte_list xs \<and> byte_list ys"
  by (auto simp: byte_list_def)

lemma length_sha_round [simp]: "length (sha_round kw s) = length s"
  by (cases "(kw, s)" rule: sha_round.cases) (auto simp: Let_def)

lemma length_fold_sha_round [simp]: "length (fold sha_round kws s) = length s"
  by (induction kws arbitrary: s) auto

lemma length_sha_blocks [simp]: "length (sha_blocks n ws s) = length s"
  by (induction n arbitrary: ws s) (auto simp: sha_block_def)

lemma length_concat_const: "\<forall>x \<in> set xs. length x = k \<Longrightarrow> length (concat xs) = k * length xs"
  by (induction xs) auto

lemma length_sha256 [simp]: "length (sha256 m) = 32"
  by (auto simp: sha256_def Let_def sha_init_def length_concat_const[of _ 4])

lemma byte_list_sha256 [simp]: "byte_list (sha256 m)"
  using byte_list_be_bytes by (auto simp: sha256_def Let_def byte_list_def)

lemma lower_hex_digit_char: "0 \<le> d \<Longrightarrow> d < 16 \<Longrightarrow> lower_hex (digit_char d)"
proof -
  have "list_all (\<lambda>d. lower_hex (digit_char d)) [0..15]" by code_simp
  then show "0 \<le> d \<Longrightarrow> d < 16 \<Longrightarrow> lower_hex (digit_char d)"
    by (simp only: list_all_iff sixteen)
qed

lemma length_hex_encode [simp]: "length (hex_encode bs) = 2 * length bs"
  by (simp add: hex_encode_def length_concat_const[of _ 2])

lemma hex_encode_lower: "byte_list bs \<Longrightarrow> list_all lower_hex (hex_encode bs)"
proof -
  assume b: "byte_list bs"
  have "lower_hex (digit_char (x div 16)) \<and> lower_hex (digit_char (x mod 16))" if "x \<in> set bs" for x
    using b that by (intro conjI lower_hex_digit_char) (auto simp: byte_list_def)
  then show ?thesis by (auto simp: list_all_iff hex_encode_def)
qed

lemma hashRE_digest [simp]: "hashRE (digest b)"
  by (simp add: hashRE_def digest_def hex_encode_lower)

lemma uuidRE_parts:
  assumes "list_all lower_hex (p1 @ p2 @ p3 @ p4 @ p5)"
    and "length p1 = 8" "length p2 = 4" "length p3 = 4" "length p4 = 4" "length p5 = 12"
  shows "uuidRE (p1 @ ''-'' @ p2 @ ''-'' @ p3 @ ''-'' @ p4 @ ''-'' @ p5)"
proof -
  have up: "[0..<36] = [0,1,2,3,4,5,6,7,8,9,10,11,12,13,14,15,16,17,18,19,20,21,22,23,24,25,26,27,28,29,
      30,31,32,33,34,35]" by code_simp
  have "lower_hex (q ! i)" if "q \<in> {p1, p2, p3, p4, p5}" "i < length q" for q i
    using assms(1) that nth_mem[of i q] by (auto simp: list_all_iff)
  then show ?thesis
    using assms(2-) unfolding uuidRE_def up by (simp add: nth_append)
qed

lemma and_or_bits:
  fixes x :: int
  shows "or (and x 15) 64 div 16 = 4" "or (and x 15) 128 div 16 = 8"
    and "0 \<le> or (and x 15) 64 \<and> or (and x 15) 64 < 256"
    and "0 \<le> or (and x 15) 128 \<and> or (and x 15) 128 < 256"
proof -
  have "and x 15 = take_bit 4 x" by (simp add: take_bit_eq_mask mask_eq_exp_minus_1)
  then have k: "0 \<le> and x 15" "and x 15 < 16" using take_bit_int_less_exp[of 4 x] by auto
  have "list_all (\<lambda>k::int. or k 64 div 16 = 4 \<and> or k 128 div 16 = 8 \<and> (0 \<le> or k 64 \<and> or k 64 < 256) \<and>
      (0 \<le> or k 128 \<and> or k 128 < 256)) [0..15]" by code_simp
  then show "or (and x 15) 64 div 16 = 4" "or (and x 15) 128 div 16 = 8"
    "0 \<le> or (and x 15) 64 \<and> or (and x 15) 64 < 256" "0 \<le> or (and x 15) 128 \<and> or (and x 15) 128 < 256"
    using sixteen[OF k] by (simp_all add: list_all_iff)
qed

lemma and_or_variant: "0 \<le> or (and x 63) 128 \<and> or (and x 63) 128 < (256::int)"
proof -
  have m: "and x 63 = take_bit 6 x" by (simp add: take_bit_eq_mask mask_eq_exp_minus_1)
  have "take_bit 8 (or (take_bit 6 x) 128) = or (take_bit 6 x) 128"
    by (simp add: take_bit_or take_bit_take_bit)
  then show ?thesis using take_bit_int_less_exp[of 8 "or (take_bit 6 x) 128"]
    take_bit_nonnegative[of 8 "or (take_bit 6 x) 128"] m by simp
qed

lemma uuid_text_validID:
  assumes "byte_list b" "16 \<le> length b" "version = 64 \<or> version = 128"
  shows "validID (uuid_text (uuid_bits version b))"
proof -
  let ?b = "uuid_bits version b"
  have bl: "byte_list ?b"
    using assms and_or_bits(3)[of "b ! 6"] and_or_bits(4)[of "b ! 6"] and_or_variant[of "b ! 8"]
    by (auto simp: byte_list_def uuid_bits_def dest!: set_update_subset_insert[THEN subsetD])
  have len: "length ?b = length b" by (simp add: uuid_bits_def)
  have sub: "byte_list (take n ?b)" "byte_list (slice ?b i j)" for n i j
    using bl by (auto simp: byte_list_def slice_def dest: in_set_takeD in_set_dropD)
  have re: "uuidRE (uuid_text ?b)" unfolding uuid_text_def
    by (rule uuidRE_parts) (use assms(2) sub len in \<open>auto simp: hex_encode_lower slice_def\<close>)
  have s6: "slice ?b 6 8 = [?b ! 6, ?b ! 7]"
    using assms(2) len by (simp add: slice_def list_eq_iff_nth_eq nth_Cons' less_Suc_eq_0_disj numeral_2_eq_2)
  have "uuid_text ?b ! 14 = digit_char (?b ! 6 div 16)"
    using assms(2) len by (simp add: uuid_text_def nth_append s6 slice_def[of _ 4] hex_encode_def[of "[_, _]"])
  moreover have "?b ! 6 div 16 = 4 \<or> ?b ! 6 div 16 = 8"
    using assms and_or_bits by (auto simp: uuid_bits_def)
  moreover have "digit_char 4 = CHR ''4''" "digit_char 8 = CHR ''8''" by code_simp+
  moreover have "''00000000-0000-0000-0000-000000000000'' ! 14 = CHR ''0''" by code_simp
  ultimately have "uuid_text ?b \<noteq> ''00000000-0000-0000-0000-000000000000''" by auto
  with re show ?thesis by (simp add: validID_def)
qed

lemma validID_UUID: "byte_list b \<Longrightarrow> length b = 16 \<Longrightarrow> validID (UUID b)"
  by (simp add: UUID_def uuid_text_validID)

lemma validID_RestoreOperationID: "RestoreOperationID t f = Some op \<Longrightarrow> validID op"
  by (auto simp: RestoreOperationID_def uuid_text_validID split: if_splits)

end
