(* ===== verification/Schema.thy ===== *)
theory Schema
  imports Strict Go_Time Go_Digest
begin

text \<open>
  The documents of a repository and their validation (repository/schema.go): identity,
  request, claim, commit with its artifacts, and retirement. A record per Go struct, its
  JSON type, encoding and typed decoding, and the validators with every branch they take.
\<close>

section \<open>Limits\<close>

definition smallLimit :: int where "smallLimit = 65536"
definition gateLimit :: int where "gateLimit = 1048576"
definition commitLimit :: int where "commitLimit = 4194304"
definition MaxManifestBytes :: int where "MaxManifestBytes = 67108864"
definition MaxBackupBytes :: int where "MaxBackupBytes = 1099511627776"
definition MaxArtifactBytes :: int where "MaxArtifactBytes = 549755813888"
definition MaxCatalogRecords :: int where "MaxCatalogRecords = 1000000"

section \<open>Field codecs\<close>

definition int64_ok :: "int \<Rightarrow> bool" where
  "int64_ok i \<longleftrightarrow> - (2 ^ 63) \<le> i \<and> i < 2 ^ 63"

definition enc_int :: "int \<Rightarrow> json" where
  "enc_int i = JNum (format_int i)"

definition dec_int :: "json \<Rightarrow> int option" where
  "dec_int j = (case j of JNum s \<Rightarrow> parse_int64 s | _ \<Rightarrow> None)"

definition enc_u32 :: "u32 \<Rightarrow> json" where
  "enc_u32 w = JNum (format_int (uint w))"

definition dec_u32 :: "json \<Rightarrow> u32 option" where
  "dec_u32 j = (case j of JNum s \<Rightarrow> map_option of_int (parse_uint 10 32 s) | _ \<Rightarrow> None)"

definition dec_str :: "json \<Rightarrow> string option" where
  "dec_str j = (case j of JStr s \<Rightarrow> Some s | _ \<Rightarrow> None)"

definition dec_bool :: "json \<Rightarrow> bool option" where
  "dec_bool j = (case j of JBool b \<Rightarrow> Some b | _ \<Rightarrow> None)"

definition enc_ptr :: "('a \<Rightarrow> json) \<Rightarrow> 'a option \<Rightarrow> json" where
  "enc_ptr f v = (case v of None \<Rightarrow> JNull | Some x \<Rightarrow> f x)"

definition dec_ptr :: "(json \<Rightarrow> 'a option) \<Rightarrow> json \<Rightarrow> 'a option option" where
  "dec_ptr d j = (if j = JNull then Some None else map_option Some (d j))"

definition enc_list :: "('a \<Rightarrow> json) \<Rightarrow> 'a list \<Rightarrow> json" where
  "enc_list f xs = JArr (map f xs)"

definition dec_list :: "(json \<Rightarrow> 'a option) \<Rightarrow> json \<Rightarrow> 'a list option" where
  "dec_list d j = (case j of JArr vs \<Rightarrow> those (map d vs) | _ \<Rightarrow> None)"

definition fld :: "json \<Rightarrow> string \<Rightarrow> (json \<Rightarrow> 'a option) \<Rightarrow> 'a option" where
  "fld j k d = (case j of JObj ms \<Rightarrow> Option.bind (map_of ms k) d | _ \<Rightarrow> None)"

section \<open>Identity\<close>

record identity =
  idn_Schema :: int
  idn_RepositoryID :: string
  idn_PostgresMajor :: int
  idn_SystemIdentifier :: string
  idn_WALSegmentBytes :: int
  idn_WriterClusterUID :: string
  idn_CreatedAt :: string

definition Identity_type :: gotype where
  "Identity_type = TStruct [(''schema'', TNumber), (''repository_id'', TString), (''postgres_major'', TNumber),
     (''system_identifier'', TString), (''wal_segment_bytes'', TNumber), (''writer_cluster_uid'', TString),
     (''created_at'', TString)]"

definition enc_Identity :: "identity \<Rightarrow> json" where
  "enc_Identity v = JObj [(''schema'', enc_int (idn_Schema v)), (''repository_id'', JStr (idn_RepositoryID v)),
     (''postgres_major'', enc_int (idn_PostgresMajor v)), (''system_identifier'', JStr (idn_SystemIdentifier v)),
     (''wal_segment_bytes'', enc_int (idn_WALSegmentBytes v)), (''writer_cluster_uid'', JStr (idn_WriterClusterUID v)),
     (''created_at'', JStr (idn_CreatedAt v))]"

definition dec_Identity :: "json \<Rightarrow> identity option" where
  "dec_Identity j =
     Option.bind (fld j ''schema'' dec_int) (\<lambda>a. Option.bind (fld j ''repository_id'' dec_str) (\<lambda>b.
     Option.bind (fld j ''postgres_major'' dec_int) (\<lambda>c. Option.bind (fld j ''system_identifier'' dec_str) (\<lambda>d.
     Option.bind (fld j ''wal_segment_bytes'' dec_int) (\<lambda>e. Option.bind (fld j ''writer_cluster_uid'' dec_str) (\<lambda>f.
     Option.bind (fld j ''created_at'' dec_str) (\<lambda>g.
     Some \<lparr>idn_Schema = a, idn_RepositoryID = b, idn_PostgresMajor = c, idn_SystemIdentifier = d,
       idn_WALSegmentBytes = e, idn_WriterClusterUID = f, idn_CreatedAt = g\<rparr>)))))))"

text \<open>\<open>w < 1<<20 || w > 1<<30 || w&(w-1) != 0\<close>.\<close>

definition segment_size_ok :: "int \<Rightarrow> bool" where
  "segment_size_ok w \<longleftrightarrow> 1048576 \<le> w \<and> w \<le> 1073741824 \<and> and w (w - 1) = 0"

definition Identity_Validate :: "identity \<Rightarrow> err + unit" where
  "Identity_Validate v =
     (if idn_Schema v \<noteq> 1 \<or> \<not> validID (idn_RepositoryID v) \<or> idn_PostgresMajor v \<noteq> 18 \<or>
         decimal (idn_SystemIdentifier v) = None \<or> decimal (idn_SystemIdentifier v) = Some 0 \<or>
         \<not> validID (idn_WriterClusterUID v) \<or> \<not> snd (stamp (idn_CreatedAt v)) \<or>
         \<not> segment_size_ok (idn_WALSegmentBytes v)
      then Inl ErrInvalid else Inr ())"

section \<open>Request, Claim, Retirement\<close>

record request =
  req_Schema :: int
  req_RepositoryID :: string
  req_BackupUID :: string
  req_WriterClusterUID :: string
  req_RequestedKind :: string
  req_RootBackupUID :: "string option"
  req_ConfigSHA256 :: string

definition Request_type :: gotype where
  "Request_type = TStruct [(''schema'', TNumber), (''repository_id'', TString), (''backup_uid'', TString),
     (''writer_cluster_uid'', TString), (''requested_kind'', TString), (''root_backup_uid'', TPointer TString),
     (''config_sha256'', TString)]"

definition enc_Request :: "request \<Rightarrow> json" where
  "enc_Request v = JObj [(''schema'', enc_int (req_Schema v)), (''repository_id'', JStr (req_RepositoryID v)),
     (''backup_uid'', JStr (req_BackupUID v)), (''writer_cluster_uid'', JStr (req_WriterClusterUID v)),
     (''requested_kind'', JStr (req_RequestedKind v)), (''root_backup_uid'', enc_ptr JStr (req_RootBackupUID v)),
     (''config_sha256'', JStr (req_ConfigSHA256 v))]"

definition dec_Request :: "json \<Rightarrow> request option" where
  "dec_Request j =
     Option.bind (fld j ''schema'' dec_int) (\<lambda>a. Option.bind (fld j ''repository_id'' dec_str) (\<lambda>b.
     Option.bind (fld j ''backup_uid'' dec_str) (\<lambda>c. Option.bind (fld j ''writer_cluster_uid'' dec_str) (\<lambda>d.
     Option.bind (fld j ''requested_kind'' dec_str) (\<lambda>e.
     Option.bind (fld j ''root_backup_uid'' (dec_ptr dec_str)) (\<lambda>f.
     Option.bind (fld j ''config_sha256'' dec_str) (\<lambda>g.
     Some \<lparr>req_Schema = a, req_RepositoryID = b, req_BackupUID = c, req_WriterClusterUID = d,
       req_RequestedKind = e, req_RootBackupUID = f, req_ConfigSHA256 = g\<rparr>)))))))"

definition Request_validate :: "request \<Rightarrow> identity \<Rightarrow> err + unit" where
  "Request_validate v idn =
     (if req_Schema v \<noteq> 1 \<or> req_RepositoryID v \<noteq> idn_RepositoryID idn \<or> \<not> validID (req_BackupUID v) \<or>
         req_WriterClusterUID v \<noteq> idn_WriterClusterUID idn \<or> \<not> hashRE (req_ConfigSHA256 v)
      then Inl ErrIdentity
      else if req_RequestedKind v = ''full'' \<and> req_RootBackupUID v = None then Inr ()
      else if req_RequestedKind v = ''differential'' then
        (case req_RootBackupUID v of
           Some root \<Rightarrow> if validID root \<and> root \<noteq> req_BackupUID v then Inr () else Inl ErrInvalid
         | None \<Rightarrow> Inl ErrInvalid)
      else Inl ErrInvalid)"

record claim =
  clm_Schema :: int
  clm_RepositoryID :: string
  clm_BackupUID :: string
  clm_AttemptID :: string
  clm_ProcessID :: string
  clm_RequestSHA256 :: string

definition Claim_type :: gotype where
  "Claim_type = TStruct [(''schema'', TNumber), (''repository_id'', TString), (''backup_uid'', TString),
     (''attempt_id'', TString), (''process_id'', TString), (''request_sha256'', TString)]"

definition enc_Claim :: "claim \<Rightarrow> json" where
  "enc_Claim v = JObj [(''schema'', enc_int (clm_Schema v)), (''repository_id'', JStr (clm_RepositoryID v)),
     (''backup_uid'', JStr (clm_BackupUID v)), (''attempt_id'', JStr (clm_AttemptID v)),
     (''process_id'', JStr (clm_ProcessID v)), (''request_sha256'', JStr (clm_RequestSHA256 v))]"

definition dec_Claim :: "json \<Rightarrow> claim option" where
  "dec_Claim j =
     Option.bind (fld j ''schema'' dec_int) (\<lambda>a. Option.bind (fld j ''repository_id'' dec_str) (\<lambda>b.
     Option.bind (fld j ''backup_uid'' dec_str) (\<lambda>c. Option.bind (fld j ''attempt_id'' dec_str) (\<lambda>d.
     Option.bind (fld j ''process_id'' dec_str) (\<lambda>e. Option.bind (fld j ''request_sha256'' dec_str) (\<lambda>f.
     Some \<lparr>clm_Schema = a, clm_RepositoryID = b, clm_BackupUID = c, clm_AttemptID = d,
       clm_ProcessID = e, clm_RequestSHA256 = f\<rparr>))))))"

record retirement =
  ret_Schema :: int
  ret_RepositoryID :: string
  ret_BackupUID :: string
  ret_CommitSHA256 :: string
  ret_GCOperationID :: string

definition Retirement_type :: gotype where
  "Retirement_type = TStruct [(''schema'', TNumber), (''repository_id'', TString), (''backup_uid'', TString),
     (''commit_sha256'', TString), (''gc_operation_id'', TString)]"

definition enc_Retirement :: "retirement \<Rightarrow> json" where
  "enc_Retirement v = JObj [(''schema'', enc_int (ret_Schema v)), (''repository_id'', JStr (ret_RepositoryID v)),
     (''backup_uid'', JStr (ret_BackupUID v)), (''commit_sha256'', JStr (ret_CommitSHA256 v)),
     (''gc_operation_id'', JStr (ret_GCOperationID v))]"

definition dec_Retirement :: "json \<Rightarrow> retirement option" where
  "dec_Retirement j =
     Option.bind (fld j ''schema'' dec_int) (\<lambda>a. Option.bind (fld j ''repository_id'' dec_str) (\<lambda>b.
     Option.bind (fld j ''backup_uid'' dec_str) (\<lambda>c. Option.bind (fld j ''commit_sha256'' dec_str) (\<lambda>d.
     Option.bind (fld j ''gc_operation_id'' dec_str) (\<lambda>e.
     Some \<lparr>ret_Schema = a, ret_RepositoryID = b, ret_BackupUID = c, ret_CommitSHA256 = d, ret_GCOperationID = e\<rparr>)))))"

definition Retirement_validate :: "retirement \<Rightarrow> identity \<Rightarrow> string \<Rightarrow> string \<Rightarrow> err + unit" where
  "Retirement_validate v idn uid hash =
     (if ret_Schema v \<noteq> 1 \<or> ret_RepositoryID v \<noteq> idn_RepositoryID idn \<or> ret_BackupUID v \<noteq> uid \<or>
         ret_CommitSHA256 v \<noteq> hash \<or> \<not> validID (ret_GCOperationID v)
      then Inl ErrCorrupt else Inr ())"

section \<open>Commit\<close>

record tablespace =
  tsp_OID :: u32
  tsp_Name :: string

definition Tablespace_type :: gotype where
  "Tablespace_type = TStruct [(''oid'', TNumber), (''name'', TString)]"

definition enc_Tablespace :: "tablespace \<Rightarrow> json" where
  "enc_Tablespace v = JObj [(''oid'', enc_u32 (tsp_OID v)), (''name'', JStr (tsp_Name v))]"

definition dec_Tablespace :: "json \<Rightarrow> tablespace option" where
  "dec_Tablespace j =
     Option.bind (fld j ''oid'' dec_u32) (\<lambda>x0. Option.bind (fld j ''name'' dec_str) (\<lambda>x1.
     Some \<lparr>tsp_OID = x0, tsp_Name = x1\<rparr>))"

record artifact =
  art_Index :: int
  art_Role :: string
  art_TablespaceOID :: "u32 option"
  art_Compression :: string
  art_StoredBytes :: int
  art_RawBytes :: int
  art_StoredSHA256 :: string
  art_RawSHA256 :: string

definition Artifact_type :: gotype where
  "Artifact_type = TStruct [(''index'', TNumber), (''role'', TString), (''tablespace_oid'', TPointer TNumber), (''compression'', TString),
     (''stored_bytes'', TNumber), (''raw_bytes'', TNumber), (''stored_sha256'', TString), (''raw_sha256'', TString)]"

definition enc_Artifact :: "artifact \<Rightarrow> json" where
  "enc_Artifact v = JObj [(''index'', enc_int (art_Index v)), (''role'', JStr (art_Role v)),
     (''tablespace_oid'', enc_ptr enc_u32 (art_TablespaceOID v)), (''compression'', JStr (art_Compression v)),
     (''stored_bytes'', enc_int (art_StoredBytes v)), (''raw_bytes'', enc_int (art_RawBytes v)),
     (''stored_sha256'', JStr (art_StoredSHA256 v)), (''raw_sha256'', JStr (art_RawSHA256 v))]"

definition dec_Artifact :: "json \<Rightarrow> artifact option" where
  "dec_Artifact j =
     Option.bind (fld j ''index'' dec_int) (\<lambda>x0. Option.bind (fld j ''role'' dec_str) (\<lambda>x1.
     Option.bind (fld j ''tablespace_oid'' (dec_ptr dec_u32)) (\<lambda>x2.
     Option.bind (fld j ''compression'' dec_str) (\<lambda>x3.
     Option.bind (fld j ''stored_bytes'' dec_int) (\<lambda>x4.
     Option.bind (fld j ''raw_bytes'' dec_int) (\<lambda>x5.
     Option.bind (fld j ''stored_sha256'' dec_str) (\<lambda>x6.
     Option.bind (fld j ''raw_sha256'' dec_str) (\<lambda>x7.
     Some \<lparr>art_Index = x0, art_Role = x1, art_TablespaceOID = x2, art_Compression = x3, art_StoredBytes = x4,
       art_RawBytes = x5, art_StoredSHA256 = x6, art_RawSHA256 = x7\<rparr>))))))))"

record wal_range =
  wr_Timeline :: u32
  wr_StartLSN :: string
  wr_EndLSN :: string

definition WALRange_type :: gotype where
  "WALRange_type = TStruct [(''timeline'', TNumber), (''start_lsn'', TString), (''end_lsn'', TString)]"

definition enc_WALRange :: "wal_range \<Rightarrow> json" where
  "enc_WALRange v = JObj [(''timeline'', enc_u32 (wr_Timeline v)), (''start_lsn'', JStr (wr_StartLSN v)),
     (''end_lsn'', JStr (wr_EndLSN v))]"

definition dec_WALRange :: "json \<Rightarrow> wal_range option" where
  "dec_WALRange j =
     Option.bind (fld j ''timeline'' dec_u32) (\<lambda>x0. Option.bind (fld j ''start_lsn'' dec_str) (\<lambda>x1.
     Option.bind (fld j ''end_lsn'' dec_str) (\<lambda>x2.
     Some \<lparr>wr_Timeline = x0, wr_StartLSN = x1, wr_EndLSN = x2\<rparr>)))"

text \<open>A nil \<open>Tablespaces\<close> slice is \<open>None\<close>; it prints as \<open>null\<close> and is never decoded.\<close>

record commit =
  cmt_Schema :: int
  cmt_RepositoryID :: string
  cmt_BackupUID :: string
  cmt_AttemptID :: string
  cmt_RequestSHA256 :: string
  cmt_Kind :: string
  cmt_ParentBackupUID :: "string option"
  cmt_RootBackupUID :: string
  cmt_SystemIdentifier :: string
  cmt_PostgresMajor :: int
  cmt_ToolVersion :: string
  cmt_Timeline :: u32
  cmt_ChecksumVersion :: int
  cmt_CaptureInstanceUID :: string
  cmt_PostmasterStartedAt :: string
  cmt_StartedAt :: string
  cmt_StoppedAt :: string
  cmt_StartLSN :: string
  cmt_StopLSN :: string
  cmt_RedoLSN :: string
  cmt_BundledWALStartLSN :: string
  cmt_BundledWALEndLSN :: string
  cmt_WALRanges :: "wal_range list"
  cmt_BackupLabel :: string
  cmt_TablespaceMap :: string
  cmt_RootManifestSHA256 :: "string option"
  cmt_ManifestBytes :: int
  cmt_ManifestSHA256 :: string
  cmt_Tablespaces :: "tablespace list option"
  cmt_Artifacts :: "artifact list"

definition Commit_type :: gotype where
  "Commit_type = TStruct [(''schema'', TNumber), (''repository_id'', TString), (''backup_uid'', TString), (''attempt_id'', TString),
     (''request_sha256'', TString), (''kind'', TString), (''parent_backup_uid'', TPointer TString),
     (''root_backup_uid'', TString), (''system_identifier'', TString), (''postgres_major'', TNumber),
     (''tool_version'', TString), (''timeline'', TNumber), (''checksum_version'', TNumber),
     (''capture_instance_uid'', TString), (''postmaster_started_at'', TString), (''started_at'', TString),
     (''stopped_at'', TString), (''start_lsn'', TString), (''stop_lsn'', TString), (''redo_lsn'', TString),
     (''bundled_wal_start_lsn'', TString), (''bundled_wal_end_lsn'', TString),
     (''wal_ranges'', TSlice WALRange_type), (''backup_label'', TString), (''tablespace_map'', TString),
     (''root_manifest_sha256'', TPointer TString), (''manifest_bytes'', TNumber), (''manifest_sha256'', TString),
     (''tablespaces'', TSlice Tablespace_type), (''artifacts'', TSlice Artifact_type)]"

definition enc_Commit :: "commit \<Rightarrow> json" where
  "enc_Commit v = JObj [(''schema'', enc_int (cmt_Schema v)), (''repository_id'', JStr (cmt_RepositoryID v)),
     (''backup_uid'', JStr (cmt_BackupUID v)), (''attempt_id'', JStr (cmt_AttemptID v)),
     (''request_sha256'', JStr (cmt_RequestSHA256 v)), (''kind'', JStr (cmt_Kind v)),
     (''parent_backup_uid'', enc_ptr JStr (cmt_ParentBackupUID v)),
     (''root_backup_uid'', JStr (cmt_RootBackupUID v)), (''system_identifier'', JStr (cmt_SystemIdentifier v)),
     (''postgres_major'', enc_int (cmt_PostgresMajor v)), (''tool_version'', JStr (cmt_ToolVersion v)),
     (''timeline'', enc_u32 (cmt_Timeline v)), (''checksum_version'', enc_int (cmt_ChecksumVersion v)),
     (''capture_instance_uid'', JStr (cmt_CaptureInstanceUID v)),
     (''postmaster_started_at'', JStr (cmt_PostmasterStartedAt v)), (''started_at'', JStr (cmt_StartedAt v)),
     (''stopped_at'', JStr (cmt_StoppedAt v)), (''start_lsn'', JStr (cmt_StartLSN v)),
     (''stop_lsn'', JStr (cmt_StopLSN v)), (''redo_lsn'', JStr (cmt_RedoLSN v)),
     (''bundled_wal_start_lsn'', JStr (cmt_BundledWALStartLSN v)),
     (''bundled_wal_end_lsn'', JStr (cmt_BundledWALEndLSN v)),
     (''wal_ranges'', enc_list enc_WALRange (cmt_WALRanges v)), (''backup_label'', JStr (cmt_BackupLabel v)),
     (''tablespace_map'', JStr (cmt_TablespaceMap v)),
     (''root_manifest_sha256'', enc_ptr JStr (cmt_RootManifestSHA256 v)),
     (''manifest_bytes'', enc_int (cmt_ManifestBytes v)), (''manifest_sha256'', JStr (cmt_ManifestSHA256 v)),
     (''tablespaces'', enc_ptr (enc_list enc_Tablespace) (cmt_Tablespaces v)),
     (''artifacts'', enc_list enc_Artifact (cmt_Artifacts v))]"

definition dec_Commit :: "json \<Rightarrow> commit option" where
  "dec_Commit j =
     Option.bind (fld j ''schema'' dec_int) (\<lambda>x0.
     Option.bind (fld j ''repository_id'' dec_str) (\<lambda>x1.
     Option.bind (fld j ''backup_uid'' dec_str) (\<lambda>x2.
     Option.bind (fld j ''attempt_id'' dec_str) (\<lambda>x3.
     Option.bind (fld j ''request_sha256'' dec_str) (\<lambda>x4. Option.bind (fld j ''kind'' dec_str) (\<lambda>x5.
     Option.bind (fld j ''parent_backup_uid'' (dec_ptr dec_str)) (\<lambda>x6.
     Option.bind (fld j ''root_backup_uid'' dec_str) (\<lambda>x7.
     Option.bind (fld j ''system_identifier'' dec_str) (\<lambda>x8.
     Option.bind (fld j ''postgres_major'' dec_int) (\<lambda>x9.
     Option.bind (fld j ''tool_version'' dec_str) (\<lambda>x10.
     Option.bind (fld j ''timeline'' dec_u32) (\<lambda>x11.
     Option.bind (fld j ''checksum_version'' dec_int) (\<lambda>x12.
     Option.bind (fld j ''capture_instance_uid'' dec_str) (\<lambda>x13.
     Option.bind (fld j ''postmaster_started_at'' dec_str) (\<lambda>x14.
     Option.bind (fld j ''started_at'' dec_str) (\<lambda>x15.
     Option.bind (fld j ''stopped_at'' dec_str) (\<lambda>x16.
     Option.bind (fld j ''start_lsn'' dec_str) (\<lambda>x17.
     Option.bind (fld j ''stop_lsn'' dec_str) (\<lambda>x18. Option.bind (fld j ''redo_lsn'' dec_str) (\<lambda>x19.
     Option.bind (fld j ''bundled_wal_start_lsn'' dec_str) (\<lambda>x20.
     Option.bind (fld j ''bundled_wal_end_lsn'' dec_str) (\<lambda>x21.
     Option.bind (fld j ''wal_ranges'' (dec_list dec_WALRange)) (\<lambda>x22.
     Option.bind (fld j ''backup_label'' dec_str) (\<lambda>x23.
     Option.bind (fld j ''tablespace_map'' dec_str) (\<lambda>x24.
     Option.bind (fld j ''root_manifest_sha256'' (dec_ptr dec_str)) (\<lambda>x25.
     Option.bind (fld j ''manifest_bytes'' dec_int) (\<lambda>x26.
     Option.bind (fld j ''manifest_sha256'' dec_str) (\<lambda>x27.
     Option.bind (fld j ''tablespaces'' (dec_ptr (dec_list dec_Tablespace))) (\<lambda>x28.
     Option.bind (fld j ''artifacts'' (dec_list dec_Artifact)) (\<lambda>x29.
     Some \<lparr>cmt_Schema = x0, cmt_RepositoryID = x1, cmt_BackupUID = x2, cmt_AttemptID = x3, cmt_RequestSHA256 = x4,
       cmt_Kind = x5, cmt_ParentBackupUID = x6, cmt_RootBackupUID = x7, cmt_SystemIdentifier = x8,
       cmt_PostgresMajor = x9, cmt_ToolVersion = x10, cmt_Timeline = x11, cmt_ChecksumVersion = x12,
       cmt_CaptureInstanceUID = x13, cmt_PostmasterStartedAt = x14, cmt_StartedAt = x15, cmt_StoppedAt = x16,
       cmt_StartLSN = x17, cmt_StopLSN = x18, cmt_RedoLSN = x19, cmt_BundledWALStartLSN = x20,
       cmt_BundledWALEndLSN = x21, cmt_WALRanges = x22, cmt_BackupLabel = x23, cmt_TablespaceMap = x24,
       cmt_RootManifestSHA256 = x25, cmt_ManifestBytes = x26, cmt_ManifestSHA256 = x27, cmt_Tablespaces = x28,
       cmt_Artifacts = x29\<rparr>))))))))))))))))))))))))))))))"

text \<open>\<open>n, _ := ParseLSN(s)\<close>.\<close>

definition lsn_or_zero :: "string \<Rightarrow> u64" where
  "lsn_or_zero s = (case ParseLSN s of Some n \<Rightarrow> n | None \<Rightarrow> 0)"

text \<open>The validator in the order of the code, one definition per group of checks.\<close>

definition commit_head_ok :: "commit \<Rightarrow> identity \<Rightarrow> bool" where
  "commit_head_ok v idn \<longleftrightarrow>
     cmt_Schema v = 1 \<and> cmt_RepositoryID v = idn_RepositoryID idn \<and>
     cmt_SystemIdentifier v = idn_SystemIdentifier idn \<and> cmt_PostgresMajor v = 18 \<and>
     cmt_ToolVersion v = ''18.6'' \<and> validID (cmt_BackupUID v) \<and> validID (cmt_AttemptID v) \<and>
     validID (cmt_CaptureInstanceUID v) \<and> hashRE (cmt_RequestSHA256 v) \<and> cmt_Timeline v \<noteq> 0 \<and>
     0 \<le> cmt_ChecksumVersion v \<and> cmt_ChecksumVersion v \<le> 1"

definition commit_times_ok :: "commit \<Rightarrow> bool" where
  "commit_times_ok v = (let
     (start, ok) = stamp (cmt_StartedAt v);
     (stop, ok2) = stamp (cmt_StoppedAt v);
     (pm, ok3) = stamp (cmt_PostmasterStartedAt v)
   in ok \<and> ok2 \<and> ok3 \<and> \<not> stop < start \<and> \<not> pm > start)"

definition commit_positions_ok :: "commit \<Rightarrow> bool" where
  "commit_positions_ok v = (case
     (ParseLSN (cmt_RedoLSN v), ParseLSN (cmt_StartLSN v), ParseLSN (cmt_StopLSN v),
      ParseLSN (cmt_BundledWALStartLSN v), ParseLSN (cmt_BundledWALEndLSN v)) of
     (Some redo, Some start, Some stop, Some bstart, Some bend) \<Rightarrow>
       \<not> redo > start \<and> \<not> start \<ge> stop \<and> \<not> bstart > redo \<and> bend = stop \<and>
       cmt_WALRanges v = [\<lparr>wr_Timeline = cmt_Timeline v, wr_StartLSN = cmt_BundledWALStartLSN v,
         wr_EndLSN = cmt_BundledWALEndLSN v\<rparr>]
   | _ \<Rightarrow> False)"

definition commit_texts_ok :: "commit \<Rightarrow> bool" where
  "commit_texts_ok v \<longleftrightarrow>
     cmt_BackupLabel v \<noteq> [] \<and> int (length (cmt_BackupLabel v)) \<le> 65536 \<and> utf8_valid (cmt_BackupLabel v) \<and>
     CHR 0x00 \<notin> set (cmt_BackupLabel v) \<and> int (length (cmt_TablespaceMap v)) \<le> 65536 \<and>
     utf8_valid (cmt_TablespaceMap v) \<and> CHR 0x00 \<notin> set (cmt_TablespaceMap v) \<and>
     1 \<le> cmt_ManifestBytes v \<and> cmt_ManifestBytes v \<le> MaxManifestBytes \<and> hashRE (cmt_ManifestSHA256 v)"

definition commit_kind_ok :: "commit \<Rightarrow> bool" where
  "commit_kind_ok v =
     (if cmt_Kind v = ''full'' then
        cmt_ParentBackupUID v = None \<and> cmt_RootBackupUID v = cmt_BackupUID v \<and> cmt_RootManifestSHA256 v = None
      else if cmt_Kind v = ''differential'' then
        (case (cmt_ParentBackupUID v, cmt_RootManifestSHA256 v) of
           (Some p, Some m) \<Rightarrow> validID p \<and> p = cmt_RootBackupUID v \<and> cmt_RootBackupUID v \<noteq> cmt_BackupUID v \<and> hashRE m
         | _ \<Rightarrow> False)
      else False)"

definition check_tablespace :: "tablespace \<Rightarrow> u32 list \<times> string list \<Rightarrow> err + u32 list \<times> string list" where
  "check_tablespace t st = (case st of (oids, names) \<Rightarrow>
     if tsp_OID t = 0 \<or> tsp_OID t \<in> set oids \<or> \<not> validText (tsp_Name t) 63 \<or> tsp_Name t \<in> set names
     then Inl ErrInvalid else Inr (tsp_OID t # oids, tsp_Name t # names))"

text \<open>The running state of the artifact loop.\<close>

record art_state =
  as_index :: int
  as_base :: nat
  as_wal :: nat
  as_raw :: int
  as_stored :: int
  as_used :: "u32 list"

definition artifact_ok :: "int \<Rightarrow> artifact \<Rightarrow> bool" where
  "artifact_ok i a \<longleftrightarrow>
     art_Index a = i \<and> 1 \<le> art_StoredBytes a \<and> art_StoredBytes a \<le> MaxArtifactBytes \<and>
     1 \<le> art_RawBytes a \<and> art_RawBytes a \<le> MaxBackupBytes \<and> hashRE (art_StoredSHA256 a) \<and> hashRE (art_RawSHA256 a) \<and>
     (art_Compression a = ''none'' \<or> art_Compression a = ''gzip'') \<and>
     \<not> (art_Compression a = ''none'' \<and> (art_RawBytes a \<noteq> art_StoredBytes a \<or> art_RawSHA256 a \<noteq> art_StoredSHA256 a))"

definition check_artifact :: "u32 list \<Rightarrow> artifact \<Rightarrow> art_state \<Rightarrow> err + art_state" where
  "check_artifact oids a st =
     (if \<not> artifact_ok (as_index st) a then Inl ErrInvalid
      else let st = st\<lparr>as_index := as_index st + 1, as_raw := as_raw st + art_RawBytes a,
                       as_stored := as_stored st + art_StoredBytes a\<rparr> in
        if art_Role a = ''base'' then
          (if art_TablespaceOID a \<noteq> None then Inl ErrInvalid else Inr (st\<lparr>as_base := as_base st + 1\<rparr>))
        else if art_Role a = ''wal'' then
          (if art_TablespaceOID a \<noteq> None \<or> art_RawBytes a > 274877906944 then Inl ErrInvalid
           else Inr (st\<lparr>as_wal := as_wal st + 1\<rparr>))
        else if art_Role a = ''tablespace'' then
          (case art_TablespaceOID a of
             None \<Rightarrow> Inl ErrInvalid
           | Some oid \<Rightarrow> if oid \<notin> set oids \<or> oid \<in> set (as_used st) then Inl ErrInvalid
               else Inr (st\<lparr>as_used := oid # as_used st\<rparr>))
        else Inl ErrInvalid)"

definition commit_files :: "commit \<Rightarrow> err + unit" where
  "commit_files v = (case cmt_Tablespaces v of
     None \<Rightarrow> Inl ErrCapacity
   | Some ts \<Rightarrow>
      if length ts > 64 \<or> length (cmt_Artifacts v) \<noteq> length ts + 2 \<or> length (cmt_Artifacts v) > 66
      then Inl ErrCapacity
      else res_bind (fold_res check_tablespace ts ([], [])) (\<lambda>(oids, names).
        res_bind (fold_res (check_artifact oids) (cmt_Artifacts v)
            \<lparr>as_index = 0, as_base = 0, as_wal = 0, as_raw = cmt_ManifestBytes v, as_stored = 0, as_used = []\<rparr>)
          (\<lambda>st. if as_base st \<noteq> 1 \<or> as_wal st \<noteq> 1 \<or> as_raw st > MaxBackupBytes \<or>
                   as_stored st > MaxBackupBytes + MaxBackupBytes div 100 + 1073741824
                then Inl ErrCapacity else Inr ())))"

definition Commit_validate :: "commit \<Rightarrow> identity \<Rightarrow> err + unit" where
  "Commit_validate v idn =
     (if \<not> commit_head_ok v idn then Inl ErrInvalid
      else if \<not> commit_times_ok v then Inl ErrInvalid
      else if \<not> commit_positions_ok v then Inl ErrInvalid
      else if \<not> commit_texts_ok v then Inl ErrInvalid
      else if \<not> commit_kind_ok v then Inl ErrInvalid
      else commit_files v)"

definition validateParent :: "commit \<Rightarrow> commit \<Rightarrow> err + unit" where
  "validateParent c p =
     (if cmt_Kind c \<noteq> ''differential'' \<or> cmt_Kind p \<noteq> ''full'' \<or> cmt_ParentBackupUID c \<noteq> Some (cmt_BackupUID p) \<or>
         cmt_RootBackupUID c \<noteq> cmt_BackupUID p \<or> cmt_RepositoryID c \<noteq> cmt_RepositoryID p \<or>
         cmt_SystemIdentifier c \<noteq> cmt_SystemIdentifier p \<or> cmt_PostgresMajor c \<noteq> cmt_PostgresMajor p \<or>
         cmt_Timeline c \<noteq> cmt_Timeline p \<or> cmt_ChecksumVersion c \<noteq> cmt_ChecksumVersion p \<or>
         cmt_CaptureInstanceUID c \<noteq> cmt_CaptureInstanceUID p \<or>
         cmt_PostmasterStartedAt c \<noteq> cmt_PostmasterStartedAt p \<or>
         cmt_RootManifestSHA256 c \<noteq> Some (cmt_ManifestSHA256 p)
      then Inl ErrCorrupt
      else if lsn_or_zero (cmt_StopLSN p) > lsn_or_zero (cmt_StartLSN c) \<or>
              fst (stamp (cmt_StartedAt c)) < fst (stamp (cmt_StoppedAt p))
      then Inl ErrCorrupt else Inr ())"

section \<open>Documents read back what was printed\<close>

lemma parse_format_int: "int64_ok i \<Longrightarrow> parse_int64 (format_int i) = Some i"
proof (cases "i < 0")
  case True
  assume ok: "int64_ok i"
  then have "parse_uint 10 64 (format_uint (- i)) = Some (- i)"
    by (intro parse_format_uint) (use True in \<open>auto simp: int64_ok_def\<close>)
  then show ?thesis using True ok by (simp add: format_int_def parse_int64_def int64_ok_def)
next
  case False
  assume ok: "int64_ok i"
  then have p: "parse_uint 10 64 (format_uint i) = Some i"
    by (intro parse_format_uint) (use False in \<open>auto simp: int64_ok_def\<close>)
  have "delim []" by (simp add: delim_def)
  with False have c: "hd (format_uint i) \<noteq> CHR ''-''" "is_digit 10 (hd (format_uint i))" "format_uint i \<noteq> []"
    using parse_num_uint(2,3)[of i "[]"] by (simp_all add: format_uint_def)
  moreover have "\<not> is_digit 10 (CHR ''+'')" by code_simp
  ultimately obtain x r where "format_uint i = x # r" "x \<noteq> CHR ''-''" "x \<noteq> CHR ''+''" by (cases "format_uint i") auto
  then show ?thesis using p False ok by (simp add: format_int_def parse_int64_def int64_ok_def)
qed

lemma format_int_inj: "format_int i = format_int k \<Longrightarrow> i = k"
proof -
  assume eq: "format_int i = format_int k"
  have d: "delim []" by (simp add: delim_def)
  have ne: "format_uint n \<noteq> CHR ''-'' # r" if "0 \<le> n" for n r
    using parse_num_uint(2)[OF that d] by (metis list.sel(1))
  show ?thesis
    using eq ne[of i] ne[of k] ne[symmetric, of i] ne[symmetric, of k] format_uint_inj[of i k] format_uint_inj[of "- i" "- k"]
    by (auto simp: format_int_def split: if_splits)
qed

lemma parse_int64_range: "parse_int64 s = Some n \<Longrightarrow> int64_ok n"
proof -
  assume p: "parse_int64 s = Some n"
  have "0 \<le> the (digit_value c)" if "is_digit 10 c" for c
    using that by (auto simp: is_digit_def digit_value_def Let_def split: if_splits)
  then have "parse_uint 10 64 r = Some m \<Longrightarrow> 0 \<le> m" for r m
    by (auto simp: parse_uint_def Let_def list_all_iff intro!: of_base_nonneg split: if_splits)
  with p show ?thesis
    by (auto simp: parse_int64_def int64_ok_def split: list.splits if_splits option.splits) fastforce+
qed

lemma int_literal_format: "int_literal (format_int i) \<longleftrightarrow> int64_ok i"
  using parse_format_int[of i] parse_int64_range[of "format_int i"] format_int_inj[of _ i]
  by (auto simp: int_literal_def split: option.splits)

lemma json_ok_enc_int [simp]: "json_ok (enc_int i) \<longleftrightarrow> int64_ok i"
  by (simp add: enc_int_def int_literal_format)

lemma json_ok_enc_u32 [simp]: "json_ok (enc_u32 w)"
proof -
  have "int64_ok (uint w)" using uint_lt2p[of w] uint_ge_0[of w] unfolding int64_ok_def
    by (intro conjI order.trans[OF _ uint_ge_0]) simp_all
  then show ?thesis by (simp add: enc_u32_def int_literal_format)
qed

lemma json_ok_enc_ptr [simp]: "json_ok (enc_ptr f v) \<longleftrightarrow> (\<forall>x. v = Some x \<longrightarrow> json_ok (f x))"
  by (cases v) (auto simp: enc_ptr_def)

lemma json_ok_enc_list [simp]: "json_ok (enc_list f xs) \<longleftrightarrow> (\<forall>x \<in> set xs. json_ok (f x))"
  by (auto simp: enc_list_def list_all_iff)

lemma dec_enc_int [simp]: "int64_ok i \<Longrightarrow> dec_int (enc_int i) = Some i"
  by (simp add: dec_int_def enc_int_def parse_format_int)

lemma dec_enc_u32 [simp]: "dec_u32 (enc_u32 w) = Some w"
  using uint_lt2p[of w] parse_format_uint[of "uint w" 32]
  by (simp add: dec_u32_def enc_u32_def format_int_def word_of_int_uint)

lemma dec_str_JStr [simp]: "dec_str (JStr s) = Some s"
  by (simp add: dec_str_def)

lemma dec_enc_ptr:
  "(\<And>x. v = Some x \<Longrightarrow> f x \<noteq> JNull \<and> d (f x) = Some x) \<Longrightarrow> dec_ptr d (enc_ptr f v) = Some v"
  by (cases v) (auto simp: dec_ptr_def enc_ptr_def)

lemma dec_enc_ptr_str [simp]: "dec_ptr dec_str (enc_ptr JStr v) = Some v"
  by (rule dec_enc_ptr) simp

lemma dec_enc_ptr_u32 [simp]: "dec_ptr dec_u32 (enc_ptr enc_u32 v) = Some v"
  by (rule dec_enc_ptr) (simp, simp add: enc_u32_def)

lemma dec_enc_list: "(\<And>x. x \<in> set xs \<Longrightarrow> d (f x) = Some x) \<Longrightarrow> dec_list d (enc_list f xs) = Some xs"
proof -
  assume a: "\<And>x. x \<in> set xs \<Longrightarrow> d (f x) = Some x"
  have "those (map d (map f xs)) = Some xs" using a by (induction xs) auto
  then show ?thesis by (simp add: dec_list_def enc_list_def)
qed

declare shape.simps(2) [simp del]

lemma shape_scalar [simp]:
  assumes "0 < n"
  shows "shape n TNumber (enc_int i) = Inr ()" "shape n TNumber (enc_u32 w) = Inr ()"
    "shape n TString (JStr s) = Inr ()" "shape n TBool (JBool b) = Inr ()"
    "shape n (TPointer TString) (enc_ptr JStr v) = Inr ()" "shape n (TPointer TNumber) (enc_ptr enc_u32 u) = Inr ()"
  using assms by (cases n; auto simp: shape.simps(2) enc_int_def enc_u32_def enc_ptr_def split: option.splits)+

lemma shape_enc_list:
  "0 < n \<Longrightarrow> (\<And>x. x \<in> set xs \<Longrightarrow> shape (n - 1) t (f x) = Inr ()) \<Longrightarrow> shape n (TSlice t) (enc_list f xs) = Inr ()"
  using shape_slice[of "map f xs" "n - 1" t] by (cases n) (auto simp: enc_list_def)

lemma shape_object:
  assumes "0 < n" "map fst ms = map fst fs" "distinct (map fst fs)"
    and "\<forall>(t, v) \<in> set (zip (map snd fs) (map snd ms)). shape (n - 1) t v = Inr ()"
  shows "shape n (TStruct fs) (JObj ms) = Inr ()"
  using assms shape_struct[of ms fs "n - 1"] by (cases n) auto

interpretation identity_doc: document Identity_type enc_Identity dec_Identity "\<lambda>v. json_ok (enc_Identity v)"
proof (unfold_locales)
  fix v
  show "shape 25 Identity_type (enc_Identity v) = Inr ()"
    unfolding Identity_type_def enc_Identity_def by (rule shape_object) auto
  assume "json_ok (enc_Identity v)"
  then show "dec_Identity (enc_Identity v) = Some v" by (simp add: dec_Identity_def enc_Identity_def fld_def)
qed

interpretation request_doc: document Request_type enc_Request dec_Request "\<lambda>v. json_ok (enc_Request v)"
proof (unfold_locales)
  fix v
  show "shape 25 Request_type (enc_Request v) = Inr ()"
    unfolding Request_type_def enc_Request_def by (rule shape_object) auto
  assume "json_ok (enc_Request v)"
  then show "dec_Request (enc_Request v) = Some v" by (simp add: dec_Request_def enc_Request_def fld_def)
qed

interpretation claim_doc: document Claim_type enc_Claim dec_Claim "\<lambda>v. json_ok (enc_Claim v)"
proof (unfold_locales)
  fix v
  show "shape 25 Claim_type (enc_Claim v) = Inr ()"
    unfolding Claim_type_def enc_Claim_def by (rule shape_object) auto
  assume "json_ok (enc_Claim v)"
  then show "dec_Claim (enc_Claim v) = Some v" by (simp add: dec_Claim_def enc_Claim_def fld_def)
qed

interpretation retirement_doc: document Retirement_type enc_Retirement dec_Retirement "\<lambda>v. json_ok (enc_Retirement v)"
proof (unfold_locales)
  fix v
  show "shape 25 Retirement_type (enc_Retirement v) = Inr ()"
    unfolding Retirement_type_def enc_Retirement_def by (rule shape_object) auto
  assume "json_ok (enc_Retirement v)"
  then show "dec_Retirement (enc_Retirement v) = Some v" by (simp add: dec_Retirement_def enc_Retirement_def fld_def)
qed

lemma tablespace_codec [simp]:
  "json_ok (enc_Tablespace v) \<longleftrightarrow> utf8_valid (tsp_Name v)" "dec_Tablespace (enc_Tablespace v) = Some v"
  "1 < n \<Longrightarrow> shape n Tablespace_type (enc_Tablespace v) = Inr ()" "enc_Tablespace v \<noteq> JNull"
proof -
  assume assms: "1 < n"
  show "shape n Tablespace_type (enc_Tablespace v) = Inr ()"
    unfolding Tablespace_type_def enc_Tablespace_def by (rule shape_object) (use assms in auto)
qed (auto simp: enc_Tablespace_def dec_Tablespace_def fld_def utf8_valid_ascii byte_def)

lemma wal_range_codec [simp]:
  "json_ok (enc_WALRange v) \<longleftrightarrow> utf8_valid (wr_StartLSN v) \<and> utf8_valid (wr_EndLSN v)"
  "dec_WALRange (enc_WALRange v) = Some v"
  "1 < n \<Longrightarrow> shape n WALRange_type (enc_WALRange v) = Inr ()"
proof -
  assume assms: "1 < n"
  show "shape n WALRange_type (enc_WALRange v) = Inr ()"
    unfolding WALRange_type_def enc_WALRange_def by (rule shape_object) (use assms in auto)
qed (auto simp: enc_WALRange_def dec_WALRange_def fld_def utf8_valid_ascii byte_def)

lemma artifact_codec [simp]:
  "json_ok (enc_Artifact v) \<Longrightarrow> dec_Artifact (enc_Artifact v) = Some v"
  "1 < n \<Longrightarrow> shape n Artifact_type (enc_Artifact v) = Inr ()"
proof -
  assume assms: "1 < n"
  show "shape n Artifact_type (enc_Artifact v) = Inr ()"
    unfolding Artifact_type_def enc_Artifact_def by (rule shape_object) (use assms in auto)
qed (auto simp: enc_Artifact_def dec_Artifact_def fld_def)

definition Commit_printable :: "commit \<Rightarrow> bool" where
  "Commit_printable v \<longleftrightarrow> cmt_Tablespaces v \<noteq> None \<and> json_ok (enc_Commit v)"

interpretation commit_doc: document Commit_type enc_Commit dec_Commit Commit_printable
proof (unfold_locales)
  fix v assume ok: "Commit_printable v"
  then show "json_ok (enc_Commit v)" by (simp add: Commit_printable_def)
  from ok obtain ts where ts: "cmt_Tablespaces v = Some ts" by (auto simp: Commit_printable_def)
  have lists: "shape 24 (TSlice WALRange_type) (enc_list enc_WALRange (cmt_WALRanges v)) = Inr ()"
    "shape 24 (TSlice Tablespace_type) (enc_ptr (enc_list enc_Tablespace) (cmt_Tablespaces v)) = Inr ()"
    "shape 24 (TSlice Artifact_type) (enc_list enc_Artifact (cmt_Artifacts v)) = Inr ()"
    by (auto intro!: shape_enc_list simp: ts enc_ptr_def)
  show "shape 25 Commit_type (enc_Commit v) = Inr ()"
    unfolding Commit_type_def enc_Commit_def by (rule shape_object) (use lists in auto)
  have arts: "json_ok (enc_Artifact a)" if "a \<in> set (cmt_Artifacts v)" for a
    using ok that by (simp add: Commit_printable_def enc_Commit_def)
  have wr: "dec_list dec_WALRange (enc_list enc_WALRange (cmt_WALRanges v)) = Some (cmt_WALRanges v)"
    by (rule dec_enc_list) simp
  have tl: "dec_list dec_Tablespace (enc_list enc_Tablespace xs) = Some xs" for xs by (rule dec_enc_list) simp
  have tp: "dec_ptr (dec_list dec_Tablespace) (enc_ptr (enc_list enc_Tablespace) (cmt_Tablespaces v)) = Some (cmt_Tablespaces v)"
    by (rule dec_enc_ptr) (simp add: tl, simp add: enc_list_def)
  have ar: "dec_list dec_Artifact (enc_list enc_Artifact (cmt_Artifacts v)) = Some (cmt_Artifacts v)"
    by (rule dec_enc_list) (simp add: arts)
  show "dec_Commit (enc_Commit v) = Some v"
    using ok unfolding Commit_printable_def
    by (simp add: dec_Commit_def enc_Commit_def fld_def wr tp ar)
qed

section \<open>What a valid commit contains\<close>

text \<open>After the artifact loop: the counters, and the tablespaces that have an archive.\<close>

definition role_oids :: "artifact list \<Rightarrow> u32 list" where
  "role_oids as = map (\<lambda>a. the (art_TablespaceOID a)) (filter (\<lambda>a. art_Role a = ''tablespace'') as)"

definition with_role :: "string \<Rightarrow> artifact list \<Rightarrow> artifact list" where
  "with_role r as = filter (\<lambda>a. art_Role a = r) as"

lemma check_artifact_step:
  assumes "check_artifact oids a st = Inr st'"
  shows "artifact_ok (as_index st) a"
    and "as_index st' = as_index st + 1"
    and "as_base st' = as_base st + length (with_role ''base'' [a])"
    and "as_wal st' = as_wal st + length (with_role ''wal'' [a])"
    and "as_used st' = rev (role_oids [a]) @ as_used st"
    and "as_raw st' = as_raw st + art_RawBytes a"
    and "as_stored st' = as_stored st + art_StoredBytes a"
    and "set (role_oids [a]) \<subseteq> set oids" "set (role_oids [a]) \<inter> set (as_used st) = {}"
    and "length (with_role ''base'' [a]) + length (with_role ''wal'' [a]) + length (role_oids [a]) = 1"
    and "art_Role a \<in> {''base'', ''wal'', ''tablespace''}"
    and "art_Role a = ''tablespace'' \<longleftrightarrow> art_TablespaceOID a \<noteq> None"
  using assms
  by (auto simp: check_artifact_def Let_def role_oids_def with_role_def split: if_splits option.splits)

lemma role_oids_Cons: "role_oids (a # as) = role_oids [a] @ role_oids as"
  by (simp add: role_oids_def)

lemma with_role_Cons: "with_role r (a # as) = with_role r [a] @ with_role r as"
  by (simp add: with_role_def)

lemma check_artifacts:
  assumes "fold_res (check_artifact oids) as st = Inr st'" "distinct (as_used st)"
  shows "as_base st' = as_base st + length (with_role ''base'' as) \<and>
    as_wal st' = as_wal st + length (with_role ''wal'' as) \<and>
    as_used st' = rev (role_oids as) @ as_used st \<and> distinct (rev (role_oids as) @ as_used st) \<and>
    set (role_oids as) \<subseteq> set oids \<and>
    length as = length (with_role ''base'' as) + length (with_role ''wal'' as) + length (role_oids as) \<and>
    as_raw st' = as_raw st + (\<Sum>a\<leftarrow>as. art_RawBytes a) \<and>
    as_stored st' = as_stored st + (\<Sum>a\<leftarrow>as. art_StoredBytes a) \<and>
    (\<forall>i < length as. artifact_ok (as_index st + int i) (as ! i))"
  using assms
proof (induction as arbitrary: st)
  case Nil
  then show ?case by (simp add: role_oids_def with_role_def)
next
  case (Cons a as)
  then obtain s1 where s1: "check_artifact oids a st = Inr s1" and rest: "fold_res (check_artifact oids) as s1 = Inr st'"
    by auto
  note c = check_artifact_step[OF s1]
  have "distinct (role_oids [a])" by (simp add: role_oids_def)
  then have "distinct (as_used s1)" using c(5,9) Cons.prems(2) by auto
  note IH = Cons.IH[OF rest this]
  have idx: "\<forall>i < length (a # as). artifact_ok (as_index st + int i) ((a # as) ! i)"
  proof (intro allI impI)
    fix i assume "i < length (a # as)"
    then show "artifact_ok (as_index st + int i) ((a # as) ! i)"
      using IH c(1,2) by (cases i) (auto simp: algebra_simps)
  qed
  show ?case
    using IH c idx by (simp add: role_oids_Cons[of a as] with_role_Cons[of _ a as])
qed

lemma check_tablespaces:
  assumes "fold_res check_tablespace ts (oids, names) = Inr (oids', names')" "distinct oids" "distinct names"
  shows "oids' = rev (map tsp_OID ts) @ oids \<and> distinct (rev (map tsp_OID ts) @ oids) \<and>
    names' = rev (map tsp_Name ts) @ names \<and> distinct (rev (map tsp_Name ts) @ names) \<and> (\<forall>t \<in> set ts. tsp_OID t \<noteq> 0 \<and> validText (tsp_Name t) 63)"
  using assms
proof (induction ts arbitrary: oids names)
  case (Cons t ts)
  then obtain s1 where s1: "check_tablespace t (oids, names) = Inr s1"
    and fr: "fold_res check_tablespace ts s1 = Inr (oids', names')" by auto
  have c: "tsp_OID t \<noteq> 0" "tsp_OID t \<notin> set oids" "validText (tsp_Name t) 63" "tsp_Name t \<notin> set names"
    "s1 = (tsp_OID t # oids, tsp_Name t # names)"
    using s1 unfolding check_tablespace_def prod.case by (simp_all split: if_splits)
  have rest: "fold_res check_tablespace ts (tsp_OID t # oids, tsp_Name t # names) = Inr (oids', names')"
    using fr c(5) by simp
  show ?case using Cons.IH[OF rest] Cons.prems(2,3) c by simp
qed simp

lemma commit_files_cases:
  assumes "commit_files v = Inr ()"
  obtains ts oids names st where "cmt_Tablespaces v = Some ts" "length ts \<le> 64"
    "length (cmt_Artifacts v) = length ts + 2"
    "fold_res check_tablespace ts ([], []) = Inr (oids, names)"
    "fold_res (check_artifact oids) (cmt_Artifacts v)
       \<lparr>as_index = 0, as_base = 0, as_wal = 0, as_raw = cmt_ManifestBytes v, as_stored = 0, as_used = []\<rparr> = Inr st"
    "as_base st = 1" "as_wal st = 1" "as_raw st \<le> MaxBackupBytes"
    "as_stored st \<le> MaxBackupBytes + MaxBackupBytes div 100 + 1073741824"
  using assms
  by (auto simp: commit_files_def split: option.splits if_splits prod.splits)

lemma Commit_validate_parts:
  assumes "Commit_validate v idn = Inr ()"
  shows "commit_head_ok v idn" "commit_times_ok v" "commit_positions_ok v" "commit_texts_ok v" "commit_kind_ok v"
    "commit_files v = Inr ()"
  using assms by (auto simp: Commit_validate_def split: if_splits)

lemma commit_archives:
  assumes "commit_files v = Inr ()"
  shows "\<exists>ts. cmt_Tablespaces v = Some ts \<and> length (with_role ''base'' (cmt_Artifacts v)) = 1 \<and>
    length (with_role ''wal'' (cmt_Artifacts v)) = 1 \<and> distinct (map tsp_OID ts) \<and> distinct (map tsp_Name ts) \<and>
    mset (role_oids (cmt_Artifacts v)) = mset (map tsp_OID ts) \<and>
    (\<forall>i < length (cmt_Artifacts v). artifact_ok (int i) (cmt_Artifacts v ! i)) \<and>
    cmt_ManifestBytes v + (\<Sum>a\<leftarrow>cmt_Artifacts v. art_RawBytes a) \<le> MaxBackupBytes \<and>
    (\<Sum>a\<leftarrow>cmt_Artifacts v. art_StoredBytes a) \<le> MaxBackupBytes + MaxBackupBytes div 100 + 1073741824"
proof -
  from assms obtain ts oids names st where c: "cmt_Tablespaces v = Some ts" "length (cmt_Artifacts v) = length ts + 2"
    "fold_res check_tablespace ts ([], []) = Inr (oids, names)"
    "fold_res (check_artifact oids) (cmt_Artifacts v)
       \<lparr>as_index = 0, as_base = 0, as_wal = 0, as_raw = cmt_ManifestBytes v, as_stored = 0, as_used = []\<rparr> = Inr st"
    "as_base st = 1" "as_wal st = 1" "as_raw st \<le> MaxBackupBytes"
    "as_stored st \<le> MaxBackupBytes + MaxBackupBytes div 100 + 1073741824" by (rule commit_files_cases)
  have t: "oids = rev (map tsp_OID ts)" "distinct oids" "distinct (map tsp_Name ts)"
    using check_tablespaces[OF c(3)] by auto
  note a = check_artifacts[OF c(4), simplified]
  have sub: "set (role_oids (cmt_Artifacts v)) \<subseteq> set oids" and d: "distinct (role_oids (cmt_Artifacts v))" using a by auto
  have "length (role_oids (cmt_Artifacts v)) = length oids" using a c(2,5,6) t(1) by simp
  then have "card (set (role_oids (cmt_Artifacts v))) = card (set oids)" using d t(2) by (simp add: distinct_card)
  then have "set (role_oids (cmt_Artifacts v)) = set oids" using sub by (simp add: card_subset_eq)
  then have "mset (role_oids (cmt_Artifacts v)) = mset oids" using d t(2) by (simp add: set_eq_iff_mset_eq_distinct)
  then show ?thesis using a c t by auto
qed

section \<open>Valid values print as valid text\<close>

named_theorems ascii_intros \<open>texts of bytes below 128\<close>

definition ascii :: "string \<Rightarrow> bool" where
  "ascii s \<longleftrightarrow> (\<forall>c \<in> set s. byte c < 128)"

lemma ascii_utf8: "ascii s \<Longrightarrow> utf8_valid s"
  by (simp add: ascii_def utf8_valid_ascii)

lemma utf8_literal: "of_char c < (128 :: int) \<Longrightarrow> utf8_valid (c # s) = utf8_valid s"
  using utf8_valid_append[of "[c]" s] utf8_valid_ascii[of "[c]"] by (simp add: byte_def)

lemma ascii_append [simp]: "ascii (s @ t) \<longleftrightarrow> ascii s \<and> ascii t"
  by (auto simp: ascii_def)

lemma ascii_Cons [simp]: "ascii (c # s) \<longleftrightarrow> byte c < 128 \<and> ascii s"
  by (simp add: ascii_def)

lemma ascii_Nil [simp]: "ascii []"
  by (simp add: ascii_def)

lemma lower_hex_ascii: "lower_hex c \<Longrightarrow> byte c < 128"
  by (auto simp: lower_hex_def byte_def Let_def)

lemma upper_hex_ascii: "upper_hex c \<Longrightarrow> byte c < 128"
  by (auto simp: upper_hex_def byte_def Let_def)

lemma ascii_hashRE [ascii_intros]: "hashRE s \<Longrightarrow> ascii s"
  using lower_hex_ascii by (auto simp: hashRE_def ascii_def list_all_iff)

lemma ascii_validID [ascii_intros]: "validID s \<Longrightarrow> ascii s"
proof -
  assume "validID s"
  then have u: "length s = 36" "list_all (\<lambda>i. if i \<in> {8, 13, 18, 23} then s ! i = CHR ''-'' else lower_hex (s ! i)) [0..<36]"
    by (auto simp: validID_def uuidRE_def)
  have "byte (s ! i) < 128" if "i < 36" for i
    using u(2) that lower_hex_ascii[of "s ! i"] by (force simp: list_all_iff byte_def split: if_splits)
  then show ?thesis using u(1) by (auto simp: ascii_def in_set_conv_nth)
qed

lemma ascii_format_uint: "0 \<le> n \<Longrightarrow> ascii (format_uint n)"
proof -
  assume "0 \<le> n"
  then have "is_digit 10 c" if "c \<in> set (format_uint n)" for c
    using that to_base_digits[of 10 n] digit_char_dec by (auto simp: format_uint_def)
  then show ?thesis using digit_starts by (force simp: ascii_def)
qed

lemma ascii_decimal [ascii_intros]: "decimal s = Some n \<Longrightarrow> ascii s"
  using decimal_range[of s n] ascii_format_uint[of n] by auto

lemma ascii_format_HEX: "0 \<le> n \<Longrightarrow> ascii (format_HEX n)"
proof -
  assume "0 \<le> n"
  then have "upper_hex c" if "c \<in> set (format_HEX n)" for c
    using that to_base_digits[of 16 n] upper_hex_CHAR by (auto simp: format_HEX_def)
  then show ?thesis using upper_hex_ascii by (auto simp: ascii_def)
qed

lemma ascii_ParseLSN [ascii_intros]: "ParseLSN s = Some n \<Longrightarrow> ascii s"
  using ParseLSN_canonical[of s n] ascii_format_HEX by (auto simp: format_LSN_def byte_def)

lemma ascii_pad_int: "ascii (pad_int w n)"
  using ascii_format_uint[of n] ascii_format_uint[of "- n"]
  by (auto simp: pad_int_def pad_left_def ascii_def byte_def)

lemma ascii_format_frac: "ascii (format_frac ns)"
  using ascii_pad_int[of 9 ns] by (auto simp: format_frac_def ascii_def byte_def dest!: set_dropWhileD)

lemma ascii_stamp [ascii_intros]: "snd (stamp s) \<Longrightarrow> ascii s"
proof -
  assume "snd (stamp s)"
  then have "s = format_rfc3339 (fst (stamp s))" using stamp_canonical[of s "fst (stamp s)"] by (cases "stamp s") auto
  moreover have "ascii (format_rfc3339 t)" for t
    by (auto simp: format_rfc3339_def Let_def ascii_pad_int ascii_format_frac byte_def split: prod.splits)
  ultimately show ?thesis by metis
qed

lemma utf8_validText: "validText s n \<Longrightarrow> utf8_valid s"
  by (simp add: validText_def)

lemmas printable_intros = ascii_intros[THEN ascii_utf8] utf8_validText

lemma Identity_printable: "Identity_Validate v = Inr () \<Longrightarrow> json_ok (enc_Identity v)"
proof -
  assume "Identity_Validate v = Inr ()"
  then have v: "idn_Schema v = 1" "validID (idn_RepositoryID v)" "idn_PostgresMajor v = 18"
    "\<exists>n. decimal (idn_SystemIdentifier v) = Some n" "validID (idn_WriterClusterUID v)"
    "snd (stamp (idn_CreatedAt v))" "segment_size_ok (idn_WALSegmentBytes v)"
    by (auto simp: Identity_Validate_def split: if_splits)
  have "int64_ok (idn_WALSegmentBytes v)" using v(7) by (auto simp: segment_size_ok_def int64_ok_def)
  with v show ?thesis
    by (auto simp: enc_Identity_def int64_ok_def utf8_literal intro: printable_intros)
qed

lemma commit_artifact_printable:
  assumes "fold_res (check_artifact oids) as st = Inr st'" "as_index st = 0" "distinct (as_used st)" "length as \<le> 66"
    and "a \<in> set as"
  shows "json_ok (enc_Artifact a)"
proof -
  obtain i where i: "i < length as" "a = as ! i" using assms(5) by (metis in_set_conv_nth)
  have ok: "artifact_ok (int i) a" using check_artifacts[OF assms(1,3)] assms(2) i by simp
  have role: "art_Role a \<in> {''base'', ''wal'', ''tablespace''}"
    using fold_res_elem[OF assms(1,5)] check_artifact_step(11) by blast
  have n: "int64_ok (art_Index a)" "int64_ok (art_StoredBytes a)" "int64_ok (art_RawBytes a)"
    using ok i(1) assms(4) by (auto simp: artifact_ok_def int64_ok_def MaxArtifactBytes_def MaxBackupBytes_def)
  have "utf8_valid (art_Role a)" "utf8_valid (art_Compression a)"
    using ok role by (auto simp: artifact_ok_def utf8_literal)
  with ok n show ?thesis by (auto simp: enc_Artifact_def artifact_ok_def utf8_literal intro: printable_intros)
qed

lemma commit_positions_ascii:
  assumes "commit_positions_ok v"
  shows "ascii (cmt_RedoLSN v)" "ascii (cmt_StartLSN v)" "ascii (cmt_StopLSN v)"
    "ascii (cmt_BundledWALStartLSN v)" "ascii (cmt_BundledWALEndLSN v)"
    "\<forall>r \<in> set (cmt_WALRanges v). json_ok (enc_WALRange r)"
  using assms by (auto simp: commit_positions_ok_def intro: ascii_intros printable_intros split: option.splits)

lemma commit_kind_utf8:
  assumes "commit_kind_ok v" "validID (cmt_BackupUID v)"
  shows "utf8_valid (cmt_Kind v)" "\<forall>x. cmt_ParentBackupUID v = Some x \<longrightarrow> utf8_valid x" "utf8_valid (cmt_RootBackupUID v)"
    "\<forall>x. cmt_RootManifestSHA256 v = Some x \<longrightarrow> utf8_valid x"
  using assms
  by (auto simp: commit_kind_ok_def utf8_literal intro: printable_intros split: if_splits option.splits)

lemma Commit_validate_printable:
  assumes "Identity_Validate idn = Inr ()" "Commit_validate v idn = Inr ()"
  shows "Commit_printable v"
proof -
  note p = Commit_validate_parts[OF assms(2)]
  obtain ts oids names st where c: "cmt_Tablespaces v = Some ts" "length ts \<le> 64"
    "length (cmt_Artifacts v) = length ts + 2" "fold_res check_tablespace ts ([], []) = Inr (oids, names)"
    "fold_res (check_artifact oids) (cmt_Artifacts v)
       \<lparr>as_index = 0, as_base = 0, as_wal = 0, as_raw = cmt_ManifestBytes v, as_stored = 0, as_used = []\<rparr> = Inr st"
    using p(6) by (rule commit_files_cases)
  have arts: "\<forall>a \<in> set (cmt_Artifacts v). json_ok (enc_Artifact a)"
    using commit_artifact_printable[OF c(5)] c(2,3) by simp
  have tss: "\<forall>t \<in> set ts. json_ok (enc_Tablespace t)"
    using check_tablespaces[OF c(4)] by (auto intro: utf8_validText)
  have sys: "utf8_valid (cmt_SystemIdentifier v)"
    using p(1) assms(1) by (auto simp: commit_head_ok_def Identity_Validate_def intro: printable_intros split: if_splits)
  have rid: "utf8_valid (cmt_RepositoryID v)"
    using p(1) assms(1) by (auto simp: commit_head_ok_def Identity_Validate_def intro: printable_intros split: if_splits)
  have head: "cmt_Schema v = 1" "cmt_PostgresMajor v = 18" "cmt_ToolVersion v = ''18.6''" "utf8_valid (cmt_BackupUID v)"
    "utf8_valid (cmt_AttemptID v)" "utf8_valid (cmt_CaptureInstanceUID v)" "utf8_valid (cmt_RequestSHA256 v)"
    "int64_ok (cmt_ChecksumVersion v)" "validID (cmt_BackupUID v)"
    using p(1) by (auto simp: commit_head_ok_def int64_ok_def intro: printable_intros)
  have times: "utf8_valid (cmt_StartedAt v)" "utf8_valid (cmt_StoppedAt v)" "utf8_valid (cmt_PostmasterStartedAt v)"
    using p(2) by (auto simp: commit_times_ok_def intro!: ascii_utf8 ascii_stamp split: prod.splits)
  have texts: "utf8_valid (cmt_BackupLabel v)" "utf8_valid (cmt_TablespaceMap v)" "utf8_valid (cmt_ManifestSHA256 v)"
    "int64_ok (cmt_ManifestBytes v)"
    using p(4) by (auto simp: commit_texts_ok_def int64_ok_def MaxManifestBytes_def intro: printable_intros)
  show ?thesis
    using arts tss sys rid head times texts commit_positions_ascii[OF p(3)] commit_kind_utf8[OF p(5) head(9)]
    by (simp add: Commit_printable_def enc_Commit_def c(1) ascii_utf8 utf8_literal int64_ok_def[of 1] int64_ok_def[of 18])
qed

end
