(* ===== verification/Storage.thy ===== *)
theory Storage
  imports Schema
begin

text \<open>
  The I/O seam of the repository (the interface \<open>Storage\<close> of repository/repository.go and the
  few calls of the standard library that observe the process environment), and the actions
  built on it. A system is a record of operations over an arbitrary world \<open>'w\<close>, so everything a
  remote service, another process or the clock can do is a choice of the world. \<open>traced\<close>
  records every call a function makes, which is how ordering properties are stated.
\<close>

section \<open>Values crossing the seam (s3store/objects.go, s3store/multipart.go)\<close>

type_synonym metadata = "(string \<times> string) list"

record info =
  inf_Key :: string
  inf_ETag :: string
  inf_Size :: int
  inf_Modified :: instant
  inf_Metadata :: metadata

record integrity =
  itg_Size :: int
  itg_SHA256 :: string

record condition =
  cnd_Create :: bool
  cnd_Match :: string

record upload =
  upl_Key :: string
  upl_ID :: string

abbreviation Create :: condition where
  "Create \<equiv> \<lparr>cnd_Create = True, cnd_Match = []\<rparr>"

abbreviation Match :: "string \<Rightarrow> condition" where
  "Match etag \<equiv> \<lparr>cnd_Create = False, cnd_Match = etag\<rparr>"

text \<open>\<open>m[k]\<close> on a Go map of strings: the zero value when the key is missing.\<close>

definition meta_get :: "metadata \<Rightarrow> string \<Rightarrow> string" where
  "meta_get m k = (case map_of m k of Some v \<Rightarrow> v | None \<Rightarrow> [])"

section \<open>Actions\<close>

type_synonym ('s, 'a) act = "'s \<Rightarrow> (err + 'a) \<times> 's"

definition ret :: "'a \<Rightarrow> ('s, 'a) act" where
  "ret x s = (Inr x, s)"

definition fail :: "err \<Rightarrow> ('s, 'a) act" where
  "fail e s = (Inl e, s)"

text \<open>\<open>attempt m k\<close> hands the result or the error of \<open>m\<close> on; \<open>andthen m k\<close> returns the error.\<close>

definition attempt :: "('s, 'a) act \<Rightarrow> (err + 'a \<Rightarrow> ('s, 'b) act) \<Rightarrow> ('s, 'b) act" where
  "attempt m k s = (case m s of (r, s') \<Rightarrow> k r s')"

definition andthen :: "('s, 'a) act \<Rightarrow> ('a \<Rightarrow> ('s, 'b) act) \<Rightarrow> ('s, 'b) act" where
  "andthen m k = attempt m (\<lambda>r. case r of Inl e \<Rightarrow> fail e | Inr x \<Rightarrow> k x)"

definition lift :: "err + 'a \<Rightarrow> ('s, 'a) act" where
  "lift r s = (r, s)"

definition check :: "bool \<Rightarrow> err \<Rightarrow> ('s, unit) act" where
  "check ok e s = (if ok then Inr () else Inl e, s)"

text \<open>A \<open>range\<close> loop whose body acts, and the same loop threading a value.\<close>

fun each :: "('a \<Rightarrow> ('s, unit) act) \<Rightarrow> 'a list \<Rightarrow> ('s, unit) act" where
  "each f [] = ret ()"
| "each f (x # xs) = andthen (f x) (\<lambda>_. each f xs)"

fun each_fold :: "('a \<Rightarrow> 'v \<Rightarrow> ('s, 'v) act) \<Rightarrow> 'a list \<Rightarrow> 'v \<Rightarrow> ('s, 'v) act" where
  "each_fold f [] v = ret v"
| "each_fold f (x # xs) v = andthen (f x v) (each_fold f xs)"

section \<open>The system\<close>

text \<open>
  \<open>os_temp\<close> is \<open>os.CreateTemp\<close> with the write of a control document, \<open>os_rand\<close> the 16 bytes of
  \<open>rand.Read\<close>, \<open>os_now\<close> the clock, \<open>os_ctx\<close> whether \<open>ctx.Err()\<close> is nil, \<open>os_sleep\<close> a timer raced
  against the context. A listing delivers its items in order and then ends, with or without an
  error. \<open>st_Download\<close> returns the bytes it wrote to the destination file, \<open>gunzip\<close> is
  \<open>compress/gzip\<close> on one member: the raw bytes, when the member is well formed and nothing
  follows it; \<open>gz_open\<close> is whether \<open>gzip.NewReader\<close> accepts its header, and \<open>gz\<close> is the
  compressor.
\<close>

record 'w sys =
  st_CheckBucketSafety :: "('w, unit) act"
  st_Head :: "string \<Rightarrow> ('w, info) act"
  st_Read :: "string \<Rightarrow> int \<Rightarrow> ('w, bytes \<times> info) act"
  st_PutFile :: "string \<Rightarrow> bytes \<Rightarrow> integrity \<Rightarrow> condition \<Rightarrow> metadata \<Rightarrow> ('w, info) act"
  st_UploadFile :: "string \<Rightarrow> bytes \<Rightarrow> integrity \<Rightarrow> ('w, upload \<times> info) act"
  st_Download :: "string \<Rightarrow> integrity \<Rightarrow> ('w, bytes \<times> info) act"
  st_List :: "string \<Rightarrow> int \<Rightarrow> 'w \<Rightarrow> (info list \<times> err option) \<times> 'w"
  st_Delete :: "string \<Rightarrow> ('w, unit) act"
  st_Abort :: "upload \<Rightarrow> ('w, unit) act"
  st_ListUploads :: "string \<Rightarrow> int \<Rightarrow> 'w \<Rightarrow> (upload list \<times> err option) \<times> 'w"
  os_temp :: "'w \<Rightarrow> bool \<times> 'w"
  os_rand :: "'w \<Rightarrow> int list \<times> 'w"
  os_now :: "'w \<Rightarrow> instant \<times> 'w"
  os_ctx :: "'w \<Rightarrow> bool \<times> 'w"
  os_sleep :: "int \<Rightarrow> ('w, unit) act"
  gunzip :: "bytes \<Rightarrow> bytes option"
  gz :: "bytes \<Rightarrow> bytes"
  gz_open :: "bytes \<Rightarrow> bool"

definition new_UUID :: "'w sys \<Rightarrow> ('w, string) act" where
  "new_UUID S w = (case os_rand S w of (b, w') \<Rightarrow> (Inr (UUID b), w'))"

text \<open>\<open>if e := ctx.Err(); e != nil { return e }\<close>.\<close>

definition ctx_err :: "'w sys \<Rightarrow> ('w, unit) act" where
  "ctx_err S w = (case os_ctx S w of (canceled, w') \<Rightarrow> (if canceled then Inl CtxErr else Inr (), w'))"

text \<open>A listing with its callback: the first error of the callback wins, then the listing's.\<close>

definition list_with :: "('w \<Rightarrow> ('i list \<times> err option) \<times> 'w) \<Rightarrow> ('i \<Rightarrow> 'v \<Rightarrow> ('w, 'v) act) \<Rightarrow> 'v \<Rightarrow> ('w, 'v) act" where
  "list_with l f v w = (case l w of ((items, e), w') \<Rightarrow>
     andthen (each_fold f items v) (\<lambda>v. case e of None \<Rightarrow> ret v | Some e \<Rightarrow> fail e) w')"

section \<open>Traces\<close>

datatype event =
    EvHead string
  | EvRead string
  | EvPut string bytes condition "err option"
  | EvUpload string bytes integrity "err option"
  | EvDownload string integrity "err option"
  | EvList string
  | EvDelete string "err option"
  | EvAbort upload "err option"

definition err_of :: "err + 'a \<Rightarrow> err option" where
  "err_of r = (case r of Inl e \<Rightarrow> Some e | Inr _ \<Rightarrow> None)"

definition logged :: "(err option \<Rightarrow> event) \<Rightarrow> ('w, 'a) act \<Rightarrow> ('w \<times> event list, 'a) act" where
  "logged ev m = (\<lambda>(w, tr). case m w of (r, w') \<Rightarrow> (r, (w', tr @ [ev (err_of r)])))"

definition pass :: "('w \<Rightarrow> 'a \<times> 'w) \<Rightarrow> 'w \<times> event list \<Rightarrow> 'a \<times> ('w \<times> event list)" where
  "pass m = (\<lambda>(w, tr). case m w of (r, w') \<Rightarrow> (r, (w', tr)))"

definition traced :: "'w sys \<Rightarrow> ('w \<times> event list) sys" where
  "traced S = \<lparr>
     st_CheckBucketSafety = pass (st_CheckBucketSafety S),
     st_Head = (\<lambda>k. logged (\<lambda>_. EvHead k) (st_Head S k)),
     st_Read = (\<lambda>k n. logged (\<lambda>_. EvRead k) (st_Read S k n)),
     st_PutFile = (\<lambda>k b i c m. logged (EvPut k b c) (st_PutFile S k b i c m)),
     st_UploadFile = (\<lambda>k b i. logged (EvUpload k b i) (st_UploadFile S k b i)),
     st_Download = (\<lambda>k i. logged (EvDownload k i) (st_Download S k i)),
     st_List = (\<lambda>p n (w, tr). case st_List S p n w of (r, w') \<Rightarrow> (r, (w', tr @ [EvList p]))),
     st_Delete = (\<lambda>k. logged (EvDelete k) (st_Delete S k)),
     st_Abort = (\<lambda>u. logged (EvAbort u) (st_Abort S u)),
     st_ListUploads = (\<lambda>p n (w, tr). case st_ListUploads S p n w of (r, w') \<Rightarrow> (r, (w', tr @ [EvList p]))),
     os_temp = pass (os_temp S),
     os_rand = pass (os_rand S),
     os_now = pass (os_now S),
     os_ctx = pass (os_ctx S),
     os_sleep = (\<lambda>n. pass (os_sleep S n)),
     gunzip = gunzip S,
     gz = gz S,
     gz_open = gz_open S\<rparr>"

end
