(* ===== verification/Gate.thy ===== *)
theory Gate
  imports Storage
begin

text \<open>
  The admission gate (repository/gate.go) and the repository handle with its generic storage
  helpers (repository/repository.go). The gate is one document, changed only by conditional
  PUTs on its ETag; holders (backups and restores) and the garbage collection owner exclude
  each other in it. \<open>gate_decide\<close> and \<open>gate_write\<close> are what one round of
  \<open>changeGate\<close> does with the gate it read; \<open>changeGate\<close> is the retry loop around them, with the
  barrier after an ambiguous write.
\<close>

section \<open>Documents\<close>

record holder =
  hld_ID :: string
  hld_Kind :: string
  hld_TargetClusterUID :: string
  hld_OperationID :: string
  hld_ProcessID :: "string option"

definition Holder_type :: gotype where
  "Holder_type = TStruct [(''id'', TString), (''kind'', TString), (''target_cluster_uid'', TString), (''operation_id'', TString),
     (''process_id'', TPointer TString)]"

definition enc_Holder :: "holder \<Rightarrow> json" where
  "enc_Holder v = JObj [(''id'', JStr (hld_ID v)), (''kind'', JStr (hld_Kind v)),
     (''target_cluster_uid'', JStr (hld_TargetClusterUID v)), (''operation_id'', JStr (hld_OperationID v)),
     (''process_id'', enc_ptr JStr (hld_ProcessID v))]"

definition dec_Holder :: "json \<Rightarrow> holder option" where
  "dec_Holder j =
     Option.bind (fld j ''id'' dec_str) (\<lambda>x0. Option.bind (fld j ''kind'' dec_str) (\<lambda>x1.
     Option.bind (fld j ''target_cluster_uid'' dec_str) (\<lambda>x2.
     Option.bind (fld j ''operation_id'' dec_str) (\<lambda>x3.
     Option.bind (fld j ''process_id'' (dec_ptr dec_str)) (\<lambda>x4.
     Some \<lparr>hld_ID = x0, hld_Kind = x1, hld_TargetClusterUID = x2, hld_OperationID = x3, hld_ProcessID = x4\<rparr>)))))"

record owner =
  own_OperationID :: string
  own_ProcessID :: string
  own_Kind :: string

definition Owner_type :: gotype where
  "Owner_type = TStruct [(''operation_id'', TString), (''process_id'', TString), (''kind'', TString)]"

definition enc_Owner :: "owner \<Rightarrow> json" where
  "enc_Owner v = JObj [(''operation_id'', JStr (own_OperationID v)), (''process_id'', JStr (own_ProcessID v)),
     (''kind'', JStr (own_Kind v))]"

definition dec_Owner :: "json \<Rightarrow> owner option" where
  "dec_Owner j =
     Option.bind (fld j ''operation_id'' dec_str) (\<lambda>x0.
     Option.bind (fld j ''process_id'' dec_str) (\<lambda>x1. Option.bind (fld j ''kind'' dec_str) (\<lambda>x2.
     Some \<lparr>own_OperationID = x0, own_ProcessID = x1, own_Kind = x2\<rparr>)))"

record gate =
  gat_Schema :: int
  gat_RepositoryID :: string
  gat_Generation :: string
  gat_Nonce :: string
  gat_Owner :: "owner option"
  gat_Holders :: "holder list"

definition Gate_type :: gotype where
  "Gate_type = TStruct [(''schema'', TNumber), (''repository_id'', TString), (''generation'', TString), (''nonce'', TString),
     (''owner'', TPointer Owner_type), (''holders'', TSlice Holder_type)]"

definition enc_Gate :: "gate \<Rightarrow> json" where
  "enc_Gate v = JObj [(''schema'', enc_int (gat_Schema v)), (''repository_id'', JStr (gat_RepositoryID v)),
     (''generation'', JStr (gat_Generation v)), (''nonce'', JStr (gat_Nonce v)),
     (''owner'', enc_ptr enc_Owner (gat_Owner v)), (''holders'', enc_list enc_Holder (gat_Holders v))]"

definition dec_Gate :: "json \<Rightarrow> gate option" where
  "dec_Gate j =
     Option.bind (fld j ''schema'' dec_int) (\<lambda>x0.
     Option.bind (fld j ''repository_id'' dec_str) (\<lambda>x1.
     Option.bind (fld j ''generation'' dec_str) (\<lambda>x2. Option.bind (fld j ''nonce'' dec_str) (\<lambda>x3.
     Option.bind (fld j ''owner'' (dec_ptr dec_Owner)) (\<lambda>x4.
     Option.bind (fld j ''holders'' (dec_list dec_Holder)) (\<lambda>x5.
     Some \<lparr>gat_Schema = x0, gat_RepositoryID = x1, gat_Generation = x2, gat_Nonce = x3, gat_Owner = x4, gat_Holders = x5\<rparr>))))))"

definition Holder_validate :: "holder \<Rightarrow> err + unit" where
  "Holder_validate h =
     (if \<not> validID (hld_ID h) \<or> \<not> validID (hld_TargetClusterUID h) \<or> \<not> validID (hld_OperationID h) then Inl ErrInvalid
      else if hld_Kind h = ''restore-lifetime'' then
        (if hld_ProcessID h \<noteq> None \<or> hld_ID h \<noteq> hld_OperationID h then Inl ErrInvalid else Inr ())
      else if hld_Kind h = ''backup'' \<or> hld_Kind h = ''restore-reader'' then
        (case hld_ProcessID h of
           None \<Rightarrow> Inl ErrInvalid
         | Some p \<Rightarrow> if validID p then Inr () else Inl ErrInvalid)
      else Inl ErrInvalid)"

definition Owner_ok :: "owner \<Rightarrow> bool" where
  "Owner_ok o' \<longleftrightarrow> validID (own_OperationID o') \<and> validID (own_ProcessID o') \<and> own_Kind o' = ''gc''"

text \<open>Holders are valid and strictly ascending by ID.\<close>

definition check_holder :: "holder \<Rightarrow> string \<Rightarrow> err + string" where
  "check_holder h last_id =
     (if Holder_validate h \<noteq> Inr () \<or> hld_ID h \<le> last_id then Inl ErrCorrupt else Inr (hld_ID h))"

definition Gate_validate :: "gate \<Rightarrow> identity \<Rightarrow> err + unit" where
  "Gate_validate g idn =
     (if gat_Schema g \<noteq> 1 \<or> gat_RepositoryID g \<noteq> idn_RepositoryID idn \<or> \<not> validID (gat_Nonce g) then Inl ErrCorrupt
      else if decimal (gat_Generation g) = None then Inl ErrCorrupt
      else if length (gat_Holders g) > 1024 then Inl ErrCapacity
      else if (case gat_Owner g of None \<Rightarrow> False | Some o' \<Rightarrow> \<not> Owner_ok o' \<or> gat_Holders g \<noteq> []) then Inl ErrCorrupt
      else res_bind (fold_res check_holder (gat_Holders g) []) (\<lambda>_. Inr ()))"

definition sameHolder :: "holder \<Rightarrow> holder \<Rightarrow> bool" where
  "sameHolder a b =
     (if hld_ID a \<noteq> hld_ID b \<or> hld_Kind a \<noteq> hld_Kind b \<or> hld_TargetClusterUID a \<noteq> hld_TargetClusterUID b \<or>
         hld_OperationID a \<noteq> hld_OperationID b then False
      else case (hld_ProcessID a, hld_ProcessID b) of
        (Some p, Some q) \<Rightarrow> p = q
      | (None, None) \<Rightarrow> True
      | _ \<Rightarrow> False)"

section \<open>The repository handle\<close>

record repo =
  rp_id :: identity
  rp_root :: string
  rp_process :: string

definition root_of :: "string \<Rightarrow> string" where
  "root_of rid = ''v1/'' @ rid @ ''/''"

definition backup_key :: "repo \<Rightarrow> string \<Rightarrow> string" where
  "backup_key r uid = rp_root r @ ''backups/'' @ uid @ ''/''"

definition attempt_key :: "repo \<Rightarrow> string \<Rightarrow> string \<Rightarrow> string" where
  "attempt_key r uid att = backup_key r uid @ ''attempts/'' @ att @ ''/''"

text \<open>\<open>artifact\<close>, from the fields of the commit and the artifact it uses.\<close>

definition artifact_key :: "repo \<Rightarrow> string \<Rightarrow> string \<Rightarrow> int \<Rightarrow> string \<Rightarrow> string" where
  "artifact_key r uid att i compression =
     attempt_key r uid att @ ''data/'' @ format_int i @ ''.tar'' @ (if compression = ''gzip'' then ''.gz'' else [])"

definition integrity_of :: "bytes \<Rightarrow> integrity" where
  "integrity_of b = \<lparr>itg_Size = int (length b), itg_SHA256 = digest b\<rparr>"

definition put :: "'w sys \<Rightarrow> string \<Rightarrow> bytes \<Rightarrow> condition \<Rightarrow> metadata \<Rightarrow> ('w, info) act" where
  "put S key b c m w = (case os_temp S w of
     (False, w') \<Rightarrow> (Inl (S3Error LocalIO False), w')
   | (True, w') \<Rightarrow> st_PutFile S key b (integrity_of b) c m w')"

definition createExact :: "'w sys \<Rightarrow> string \<Rightarrow> bytes \<Rightarrow> int \<Rightarrow> ('w, info) act" where
  "createExact S key b limit =
     attempt (put S key b Create []) (\<lambda>r. case r of
       Inr i \<Rightarrow> ret i
     | Inl e \<Rightarrow> attempt (st_Read S key limit) (\<lambda>r. case r of
         Inl _ \<Rightarrow> fail e
       | Inr (got, i) \<Rightarrow> if got \<noteq> b then fail ErrIdentity else ret i))"

section \<open>Changing the gate\<close>

definition gate_key :: "repo \<Rightarrow> string" where
  "gate_key r = rp_root r @ ''gate.json''"

definition readGate :: "'w sys \<Rightarrow> repo \<Rightarrow> ('w, gate \<times> info) act" where
  "readGate S r =
     andthen (st_Read S (gate_key r) gateLimit) (\<lambda>(b, i).
     andthen (lift (strict Gate_type dec_Gate b gateLimit)) (\<lambda>g.
     andthen (lift (Gate_validate g (rp_id r))) (\<lambda>_. ret (g, i))))"

text \<open>A change returns whether there is nothing left to do, and the gate it left.\<close>

type_synonym change = "gate \<Rightarrow> err + (bool \<times> gate)"

text \<open>What a round does with the gate it read: nothing more (\<open>None\<close>), or write the changed gate.\<close>

definition gate_decide :: "change \<Rightarrow> bool \<Rightarrow> gate \<Rightarrow> err + gate option" where
  "gate_decide change barrier g =
     res_bind (if barrier then Inr (False, g) else change g) (\<lambda>(fin, g).
       if fin then Inr None
       else if decimal (gat_Generation g) = Some (2 ^ 64 - 1) then Inl ErrCapacity
       else Inr (Some g))"

text \<open>Generation plus one, a fresh nonce, holders sorted by ID.\<close>

definition advance :: "string \<Rightarrow> gate \<Rightarrow> gate" where
  "advance nonce g = g\<lparr>
     gat_Generation := format_uint ((case decimal (gat_Generation g) of Some n \<Rightarrow> n | None \<Rightarrow> 0) + 1),
     gat_Nonce := nonce,
     gat_Holders := sort_slice (\<lambda>a b. hld_ID a < hld_ID b) (gat_Holders g)\<rparr>"

definition gate_write :: "identity \<Rightarrow> string \<Rightarrow> gate \<Rightarrow> err + gate" where
  "gate_write idn nonce g = (let g' = advance nonce g in
     res_bind (Gate_validate g' idn) (\<lambda>_.
       if gateLimit < int (length (render (enc_Gate g'))) then Inl ErrCapacity else Inr g'))"

fun change_rounds :: "nat \<Rightarrow> bool \<Rightarrow> 'w sys \<Rightarrow> repo \<Rightarrow> change \<Rightarrow> ('w, unit) act" where
  "change_rounds 0 barrier S r change = fail ErrContention"
| "change_rounds (Suc n) barrier S r change =
     andthen (readGate S r) (\<lambda>(g, i).
     andthen (lift (gate_decide change barrier g)) (\<lambda>next. case next of
       None \<Rightarrow> ret ()
     | Some g1 \<Rightarrow>
        andthen (new_UUID S) (\<lambda>nonce.
        andthen (lift (gate_write (rp_id r) nonce g1)) (\<lambda>g2.
        attempt (put S (gate_key r) (render (enc_Gate g2)) (Match (inf_ETag i)) []) (\<lambda>res. case res of
          Inr _ \<Rightarrow> if barrier then change_rounds n False S r change else ret ()
        | Inl e \<Rightarrow>
           if ambiguous e then change_rounds n True S r change
           else if Is e Precondition \<or> Is e Conflict then change_rounds n barrier S r change
           else fail e)))))"

definition changeGate :: "'w sys \<Rightarrow> repo \<Rightarrow> change \<Rightarrow> ('w, unit) act" where
  "changeGate S r change = change_rounds 10 False S r change"

section \<open>Holders\<close>

fun find_holder :: "string \<Rightarrow> holder list \<Rightarrow> holder option" where
  "find_holder hid [] = None"
| "find_holder hid (v # vs) = (if hld_ID v = hid then Some v else find_holder hid vs)"

definition add_change :: "holder \<Rightarrow> change" where
  "add_change h g = (case find_holder (hld_ID h) (gat_Holders g) of
     Some v \<Rightarrow> if \<not> sameHolder v h then Inl ErrIdentity else Inr (True, g)
   | None \<Rightarrow>
      if gat_Owner g \<noteq> None then Inl ErrBlocked
      else if length (gat_Holders g) = 1024 then Inl ErrCapacity
      else Inr (False, g\<lparr>gat_Holders := gat_Holders g @ [h]\<rparr>))"

fun drop_holder :: "string \<Rightarrow> holder list \<Rightarrow> holder list" where
  "drop_holder hid [] = []"
| "drop_holder hid (v # vs) = (if hld_ID v = hid then vs else v # drop_holder hid vs)"

definition remove_change :: "holder \<Rightarrow> change" where
  "remove_change h g = (case find_holder (hld_ID h) (gat_Holders g) of
     Some v \<Rightarrow> if \<not> sameHolder v h then Inl ErrIdentity
        else Inr (False, g\<lparr>gat_Holders := drop_holder (hld_ID h) (gat_Holders g)\<rparr>)
   | None \<Rightarrow> Inr (True, g))"

definition addHolder :: "'w sys \<Rightarrow> repo \<Rightarrow> holder \<Rightarrow> ('w, unit) act" where
  "addHolder S r h = (if Holder_validate h \<noteq> Inr () then fail ErrInvalid else changeGate S r (add_change h))"

definition removeHolder :: "'w sys \<Rightarrow> repo \<Rightarrow> holder \<Rightarrow> ('w, unit) act" where
  "removeHolder S r h = changeGate S r (remove_change h)"

text \<open>A hold: its holder entry and the two latches.\<close>

record hold =
  hd_holder :: holder
  hd_closed :: bool
  hd_uncertain :: bool

definition admit :: "'w sys \<Rightarrow> repo \<Rightarrow> string \<Rightarrow> string \<Rightarrow> string \<Rightarrow> ('w, hold) act" where
  "admit S r kind target operation =
     andthen (new_UUID S) (\<lambda>hid. let h = \<lparr>hld_ID = hid, hld_Kind = kind, hld_TargetClusterUID = target,
         hld_OperationID = operation, hld_ProcessID = Some (rp_process r)\<rparr> in
     andthen (addHolder S r h) (\<lambda>_. ret \<lparr>hd_holder = h, hd_closed = False, hd_uncertain = False\<rparr>))"

definition AdmitBackup :: "'w sys \<Rightarrow> repo \<Rightarrow> string \<Rightarrow> string \<Rightarrow> ('w, hold) act" where
  "AdmitBackup S r writer operation =
     (if writer \<noteq> idn_WriterClusterUID (rp_id r) \<or> \<not> validID operation then fail ErrIdentity
      else andthen (st_CheckBucketSafety S) (\<lambda>_. admit S r ''backup'' writer operation))"

definition lifetime_holder :: "string \<Rightarrow> string \<Rightarrow> holder" where
  "lifetime_holder target operation = \<lparr>hld_ID = operation, hld_Kind = ''restore-lifetime'',
     hld_TargetClusterUID = target, hld_OperationID = operation, hld_ProcessID = None\<rparr>"

definition EstablishLifetime :: "'w sys \<Rightarrow> repo \<Rightarrow> string \<Rightarrow> string \<Rightarrow> ('w, unit) act" where
  "EstablishLifetime S r target operation = addHolder S r (lifetime_holder target operation)"

definition AdmitRestore :: "'w sys \<Rightarrow> repo \<Rightarrow> string \<Rightarrow> string \<Rightarrow> ('w, hold) act" where
  "AdmitRestore S r target operation =
     andthen (EstablishLifetime S r target operation) (\<lambda>_. admit S r ''restore-reader'' target operation)"

definition ReleaseLifetimeAfterTermination :: "'w sys \<Rightarrow> repo \<Rightarrow> string \<Rightarrow> string \<Rightarrow> ('w, unit) act" where
  "ReleaseLifetimeAfterTermination S r target operation =
     (if Holder_validate (lifetime_holder target operation) \<noteq> Inr () then fail ErrInvalid
      else removeHolder S r (lifetime_holder target operation))"

text \<open>The scan of \<open>Hold.check\<close>: the own entry is there and, for a reader, its lifetime entry.\<close>

definition hold_live :: "holder \<Rightarrow> gate \<Rightarrow> bool" where
  "hold_live h g \<longleftrightarrow>
     (\<exists>v \<in> set (gat_Holders g). sameHolder v h) \<and>
     (hld_Kind h \<noteq> ''restore-reader'' \<or>
      (\<exists>v \<in> set (gat_Holders g). hld_Kind v = ''restore-lifetime'' \<and> hld_ID v = hld_OperationID h \<and>
         hld_TargetClusterUID v = hld_TargetClusterUID h)) \<and>
     gat_Owner g = None"

definition Hold_check :: "'w sys \<Rightarrow> repo \<Rightarrow> hold \<Rightarrow> ('w, unit) act" where
  "Hold_check S r h =
     (if hd_closed h then fail ErrClosed
      else if hd_uncertain h then fail ErrUncertain
      else andthen (readGate S r) (\<lambda>(g, _).
        if hold_live (hd_holder h) g then ret () else fail ErrBlocked))"

text \<open>\<open>Close\<close> returns the hold, closed for good.\<close>

definition Hold_Close :: "'w sys \<Rightarrow> repo \<Rightarrow> hold \<Rightarrow> 'w \<Rightarrow> ((err + unit) \<times> hold) \<times> 'w" where
  "Hold_Close S r h w = (let h' = h\<lparr>hd_closed := True\<rparr> in
     if hd_uncertain h then ((Inl ErrUncertain, h'), w)
     else case removeHolder S r (hd_holder h) w of (res, w') \<Rightarrow> ((res, h'), w'))"

section \<open>Opening a repository\<close>

text \<open>\<open>ws\<close> says whether the workspace is an absolute existing directory.\<close>

definition Open :: "'w sys \<Rightarrow> identity \<Rightarrow> bool \<Rightarrow> ('w, repo) act" where
  "Open S idn ws =
     (if Identity_Validate idn \<noteq> Inr () \<or> \<not> ws then fail ErrInvalid
      else andthen (new_UUID S) (\<lambda>p. let r = \<lparr>rp_id = idn, rp_root = root_of (idn_RepositoryID idn), rp_process = p\<rparr> in
        andthen (st_Read S (rp_root r @ ''repository.json'') smallLimit) (\<lambda>(b, _).
          if strict Identity_type dec_Identity b smallLimit \<noteq> Inr idn then fail ErrIdentity
          else andthen (readGate S r) (\<lambda>_. ret r))))"

definition OpenSource :: "'w sys \<Rightarrow> string \<Rightarrow> bool \<Rightarrow> ('w, repo) act" where
  "OpenSource S rid ws =
     (if \<not> validID rid then fail ErrInvalid
      else andthen (st_Read S (''v1/'' @ rid @ ''/repository.json'') smallLimit) (\<lambda>(b, _).
        andthen (lift (strict Identity_type dec_Identity b smallLimit)) (\<lambda>idn.
          if Identity_Validate idn \<noteq> Inr () \<or> idn_RepositoryID idn \<noteq> rid then fail ErrIdentity
          else Open S idn ws)))"

text \<open>The two listings of \<open>initialize\<close> accept only probes, and the identity document.\<close>

definition only_keys :: "(string \<Rightarrow> bool) \<Rightarrow> err \<Rightarrow> info \<Rightarrow> unit \<Rightarrow> ('w, unit) act" where
  "only_keys allowed e i u = (if allowed (inf_Key i) then ret () else fail e)"

definition initialize :: "'w sys \<Rightarrow> identity \<Rightarrow> ('w, unit) act" where
  "initialize S idn =
     (if Identity_Validate idn \<noteq> Inr () then fail ErrInvalid
      else andthen (new_UUID S) (\<lambda>p. let r = \<lparr>rp_id = idn, rp_root = root_of (idn_RepositoryID idn), rp_process = p\<rparr>;
          probe = (\<lambda>k. has_prefix k (rp_root r @ ''probes/'')); idkey = rp_root r @ ''repository.json'' in
        attempt (st_Read S idkey smallLimit) (\<lambda>rd.
        andthen (case rd of
            Inl e \<Rightarrow> if Is e NotFound then
                list_with (st_List S (rp_root r) MaxCatalogRecords) (only_keys probe ErrIdentity) ()
              else fail e
          | Inr _ \<Rightarrow> ret ()) (\<lambda>_.
        andthen (createExact S idkey (render (enc_Identity idn)) smallLimit) (\<lambda>_.
        attempt (readGate S r) (\<lambda>g. case g of
          Inr _ \<Rightarrow> ret ()
        | Inl e \<Rightarrow> if \<not> Is e NotFound then fail e
           else andthen (list_with (st_List S (rp_root r) MaxCatalogRecords)
                  (only_keys (\<lambda>k. k = idkey \<or> probe k) ErrCorrupt) ()) (\<lambda>_.
             andthen (new_UUID S) (\<lambda>nonce.
             attempt (put S (gate_key r) (render (enc_Gate \<lparr>gat_Schema = 1, gat_RepositoryID = idn_RepositoryID idn,
                 gat_Generation = ''0'', gat_Nonce = nonce, gat_Owner = None, gat_Holders = []\<rparr>)) Create []) (\<lambda>res.
               case res of
                 Inr _ \<Rightarrow> ret ()
               | Inl e \<Rightarrow> attempt (readGate S r) (\<lambda>again. case again of Inr _ \<Rightarrow> ret () | Inl _ \<Rightarrow> fail e))))))))))"

section \<open>The gate document\<close>

lemma owner_codec [simp]: "json_ok (enc_Owner v) \<Longrightarrow> dec_Owner (enc_Owner v) = Some v" "enc_Owner v \<noteq> JNull"
  "0 < n \<Longrightarrow> 1 < n \<Longrightarrow> shape n Owner_type (enc_Owner v) = Inr ()"
proof -
  assume n: "1 < n"
  show "shape n Owner_type (enc_Owner v) = Inr ()"
    unfolding Owner_type_def enc_Owner_def by (rule shape_object) (use n in auto)
qed (auto simp: enc_Owner_def dec_Owner_def fld_def)

lemma holder_codec [simp]: "json_ok (enc_Holder v) \<Longrightarrow> dec_Holder (enc_Holder v) = Some v"
  "1 < n \<Longrightarrow> shape n Holder_type (enc_Holder v) = Inr ()"
proof -
  assume n: "1 < n"
  show "shape n Holder_type (enc_Holder v) = Inr ()"
    unfolding Holder_type_def enc_Holder_def by (rule shape_object) (use n in auto)
qed (auto simp: enc_Holder_def dec_Holder_def fld_def)

lemma shape_pointer_struct:
  "1 < n \<Longrightarrow> (\<And>x. v = Some x \<Longrightarrow> shape n (TStruct fs) (f x) = Inr ()) \<Longrightarrow>
   shape n (TPointer (TStruct fs)) (enc_ptr f v) = Inr ()"
  by (cases n; cases v) (auto simp: shape.simps(2) enc_ptr_def split: if_splits)

interpretation gate_doc: document Gate_type enc_Gate dec_Gate "\<lambda>g. json_ok (enc_Gate g)"
proof (unfold_locales)
  fix g :: gate
  have "shape 24 (TSlice Holder_type) (enc_list enc_Holder (gat_Holders g)) = Inr ()"
    by (auto intro!: shape_enc_list)
  moreover have "shape 24 (TPointer Owner_type) (enc_ptr enc_Owner (gat_Owner g)) = Inr ()"
    unfolding Owner_type_def by (rule shape_pointer_struct) (auto simp flip: Owner_type_def)
  ultimately have lists: "shape 24 (TSlice Holder_type) (enc_list enc_Holder (gat_Holders g)) = Inr ()"
    "shape 24 (TPointer Owner_type) (enc_ptr enc_Owner (gat_Owner g)) = Inr ()" by simp_all
  show "shape 25 Gate_type (enc_Gate g) = Inr ()"
    unfolding Gate_type_def enc_Gate_def by (rule shape_object) (use lists in auto)
  assume ok: "json_ok (enc_Gate g)"
  have hs: "dec_list dec_Holder (enc_list enc_Holder (gat_Holders g)) = Some (gat_Holders g)"
    by (rule dec_enc_list) (use ok in \<open>simp add: enc_Gate_def\<close>)
  have ow: "dec_ptr dec_Owner (enc_ptr enc_Owner (gat_Owner g)) = Some (gat_Owner g)"
    by (rule dec_enc_ptr) (use ok in \<open>simp add: enc_Gate_def\<close>)
  show "dec_Gate (enc_Gate g) = Some g" using ok by (simp add: dec_Gate_def enc_Gate_def fld_def hs ow)
qed

text \<open>What validation of a gate gives.\<close>

lemma check_holder_Inr: "check_holder h l = Inr l' \<longleftrightarrow> Holder_validate h = Inr () \<and> l < hld_ID h \<and> l' = hld_ID h"
  by (auto simp: check_holder_def not_le split: if_splits)

lemma check_holders:
  assumes "fold_res check_holder hs l = Inr l'"
  shows "\<forall>h \<in> set hs. Holder_validate h = Inr () \<and> l < hld_ID h" "sorted_wrt (\<lambda>a b. hld_ID a < hld_ID b) hs"
proof -
  have "(\<forall>h \<in> set hs. Holder_validate h = Inr () \<and> l < hld_ID h) \<and> sorted_wrt (\<lambda>a b. hld_ID a < hld_ID b) hs"
    using assms
  proof (induction hs arbitrary: l)
    case (Cons h hs)
    then have c: "Holder_validate h = Inr ()" "l < hld_ID h" "fold_res check_holder hs (hld_ID h) = Inr l'"
      by (auto simp: check_holder_Inr)
    from Cons.IH[OF c(3)] c show ?case by auto
  qed simp
  then show "\<forall>h \<in> set hs. Holder_validate h = Inr () \<and> l < hld_ID h" "sorted_wrt (\<lambda>a b. hld_ID a < hld_ID b) hs"
    by auto
qed

lemma check_holders_ok:
  assumes "\<forall>h \<in> set hs. Holder_validate h = Inr () \<and> l < hld_ID h" "sorted_wrt (\<lambda>a b. hld_ID a < hld_ID b) hs"
  shows "\<exists>l'. fold_res check_holder hs l = Inr l'"
  using assms
proof (induction hs arbitrary: l)
  case (Cons h hs)
  then show ?case using Cons.IH[of "hld_ID h"] by (auto simp: check_holder_Inr)
qed simp

definition gate_ok :: "identity \<Rightarrow> gate \<Rightarrow> bool" where
  "gate_ok idn g \<longleftrightarrow> Gate_validate g idn = Inr ()"

lemma gate_okD:
  assumes "gate_ok idn g"
  shows "gat_Schema g = 1" "gat_RepositoryID g = idn_RepositoryID idn" "validID (gat_Nonce g)"
    "\<exists>n. decimal (gat_Generation g) = Some n" "length (gat_Holders g) \<le> 1024"
    "\<forall>o'. gat_Owner g = Some o' \<longrightarrow> Owner_ok o' \<and> gat_Holders g = []"
    "\<forall>h \<in> set (gat_Holders g). Holder_validate h = Inr ()"
    "sorted_wrt (\<lambda>a b. hld_ID a < hld_ID b) (gat_Holders g)"
  using assms check_holders[of "gat_Holders g" "[]"]
  by (auto simp: gate_ok_def Gate_validate_def split: if_splits option.splits)

lemma gate_ok_printable: "gate_ok idn g \<Longrightarrow> Identity_Validate idn = Inr () \<Longrightarrow> json_ok (enc_Gate g)"
proof -
  assume g: "gate_ok idn g" and i: "Identity_Validate idn = Inr ()"
  note d = gate_okD[OF g]
  have h: "json_ok (enc_Holder h)" if "Holder_validate h = Inr ()" for h
    using that by (auto simp: Holder_validate_def enc_Holder_def utf8_literal intro: printable_intros
        split: if_splits option.splits)
  have rid: "utf8_valid (gat_RepositoryID g)"
    using i d(2) by (auto simp: Identity_Validate_def intro: printable_intros split: if_splits)
  show ?thesis
    using d h rid by (auto simp: enc_Gate_def enc_Owner_def Owner_ok_def int64_ok_def utf8_literal intro: printable_intros)
qed

section \<open>Ownership by garbage collection (repository/gc.go)\<close>

definition acquire_change :: "owner \<Rightarrow> change" where
  "acquire_change o' g = (case gat_Owner g of
     Some v \<Rightarrow> if v = o' then Inr (True, g) else Inl ErrBlocked
   | None \<Rightarrow> if gat_Holders g \<noteq> [] then Inl ErrBlocked else Inr (False, g\<lparr>gat_Owner := Some o'\<rparr>))"

definition release_change :: "owner \<Rightarrow> change" where
  "release_change o' g = (case gat_Owner g of
     None \<Rightarrow> Inr (True, g)
   | Some v \<Rightarrow> if v \<noteq> o' then Inl ErrIdentity else Inr (False, g\<lparr>gat_Owner := None\<rparr>))"

section \<open>What a change does\<close>

lemma sameHolder_eq: "sameHolder a b \<longleftrightarrow> a = b" for a b :: holder
  by (auto simp: sameHolder_def intro!: holder.equality split: option.splits)

lemma find_holder_Some: "find_holder i hs = Some v \<Longrightarrow> v \<in> set hs \<and> hld_ID v = i"
  by (induction hs) (auto split: if_splits)

lemma find_holder_None: "find_holder i hs = None \<longleftrightarrow> i \<notin> hld_ID ` set hs"
  by (induction hs) auto

lemma set_drop_holder:
  "sorted_wrt (\<lambda>a b. hld_ID a < hld_ID b) hs \<Longrightarrow> set (drop_holder i hs) = {h \<in> set hs. hld_ID h \<noteq> i}"
  by (induction hs) auto

definition gen :: "gate \<Rightarrow> int" where
  "gen g = (case decimal (gat_Generation g) of Some n \<Rightarrow> n | None \<Rightarrow> 0)"

lemma gate_write_effect:
  assumes "gate_write idn nonce g = Inr g'"
  shows "gate_ok idn g'" "gat_Owner g' = gat_Owner g" "set (gat_Holders g') = set (gat_Holders g)"
    "gat_Nonce g' = nonce" "int (length (render (enc_Gate g'))) \<le> gateLimit"
  using assms by (auto simp: gate_write_def gate_ok_def advance_def Let_def split: if_splits)

lemma gate_write_gen:
  assumes "gate_write idn nonce g = Inr g'" "decimal (gat_Generation g) = Some n" "n \<noteq> 2 ^ 64 - 1"
  shows "gen g' = gen g + 1"
proof -
  have "0 \<le> n" "n < 2 ^ 64" using decimal_range[OF assms(2)] by auto
  then have "decimal (format_uint (n + 1)) = Some (n + 1)" using assms(3) by (intro decimal_format) auto
  then show ?thesis using assms(1,2) by (auto simp: gate_write_def advance_def gen_def Let_def split: if_splits)
qed

text \<open>The four operations that change a gate.\<close>

datatype gate_op = OpAdd holder | OpRemove holder | OpAcquire owner | OpRelease owner

fun change_of :: "gate_op \<Rightarrow> change" where
  "change_of (OpAdd h) = add_change h"
| "change_of (OpRemove h) = remove_change h"
| "change_of (OpAcquire o') = acquire_change o'"
| "change_of (OpRelease o') = release_change o'"

text \<open>Only the removal of a holder takes it away, only its release takes the owner away, and
  nobody enters against the other side.\<close>

definition follows :: "gate_op \<Rightarrow> gate \<Rightarrow> gate \<Rightarrow> bool" where
  "follows op g g' \<longleftrightarrow>
     (\<forall>h \<in> set (gat_Holders g). h \<in> set (gat_Holders g') \<or> op = OpRemove h) \<and>
     (\<forall>h \<in> set (gat_Holders g'). h \<in> set (gat_Holders g) \<or> op = OpAdd h) \<and>
     (\<forall>o'. gat_Owner g = Some o' \<longrightarrow> gat_Owner g' = Some o' \<or> op = OpRelease o') \<and>
     (\<forall>o'. gat_Owner g' = Some o' \<longrightarrow> gat_Owner g = Some o' \<or> op = OpAcquire o')"

lemma change_of_effect:
  assumes "gate_ok idn g" "change_of op g = Inr (False, g')"
  shows "follows op g g' \<and> gat_Generation g' = gat_Generation g"
    and "\<And>h. op = OpAdd h \<Longrightarrow> h \<in> set (gat_Holders g')"
    and "\<And>o'. op = OpAcquire o' \<Longrightarrow> gat_Owner g' = Some o'"
    and "\<And>h. op = OpRemove h \<Longrightarrow> hld_ID h \<notin> hld_ID ` set (gat_Holders g')"
    and "\<And>o'. op = OpRelease o' \<Longrightarrow> gat_Owner g' = None"
proof -
  have uniq: "h = h'" if "h \<in> set (gat_Holders g)" "h' \<in> set (gat_Holders g)" "hld_ID h = hld_ID h'" for h h'
    using gate_okD(8)[OF assms(1)] that
    by (metis (no_types, lifting) in_set_conv_nth less_irrefl linorder_cases sorted_wrt_iff_nth_less)
  note d = set_drop_holder[OF gate_okD(8)[OF assms(1)]]
  show "follows op g g' \<and> gat_Generation g' = gat_Generation g"
    using assms(2) uniq
    by (cases op) (auto simp: follows_def add_change_def remove_change_def acquire_change_def release_change_def d
        sameHolder_eq dest!: find_holder_Some split: option.splits if_splits)
  show "\<And>h. op = OpAdd h \<Longrightarrow> h \<in> set (gat_Holders g')"
    "\<And>o'. op = OpAcquire o' \<Longrightarrow> gat_Owner g' = Some o'"
    "\<And>h. op = OpRemove h \<Longrightarrow> hld_ID h \<notin> hld_ID ` set (gat_Holders g')"
    "\<And>o'. op = OpRelease o' \<Longrightarrow> gat_Owner g' = None"
    using assms(2) by (auto simp: add_change_def remove_change_def acquire_change_def release_change_def d
        split: option.splits if_splits)
qed

lemma change_of_done:
  assumes "change_of op g = Inr (True, g')"
  shows "\<And>h. op = OpAdd h \<Longrightarrow> h \<in> set (gat_Holders g)"
    and "\<And>o'. op = OpAcquire o' \<Longrightarrow> gat_Owner g = Some o'"
    and "\<And>h. op = OpRemove h \<Longrightarrow> hld_ID h \<notin> hld_ID ` set (gat_Holders g)"
    and "\<And>o'. op = OpRelease o' \<Longrightarrow> gat_Owner g = None"
  using assms
  by (auto simp: add_change_def remove_change_def acquire_change_def release_change_def sameHolder_eq find_holder_None
      dest!: find_holder_Some split: option.splits if_splits)

lemma round_effect:
  assumes "gate_ok idn g" "gate_decide (change_of op) barrier g = Inr (Some g1)" "gate_write idn nonce g1 = Inr g2"
  shows "gate_ok idn g2" "follows op g g2" "gen g2 = gen g + 1"
    and "barrier \<Longrightarrow> gat_Owner g2 = gat_Owner g \<and> set (gat_Holders g2) = set (gat_Holders g)"
    and "\<And>h. \<not> barrier \<Longrightarrow> op = OpAdd h \<Longrightarrow> h \<in> set (gat_Holders g2)"
    and "\<And>o'. \<not> barrier \<Longrightarrow> op = OpAcquire o' \<Longrightarrow> gat_Owner g2 = Some o'"
proof -
  note w = gate_write_effect[OF assms(3)]
  show "gate_ok idn g2" by (rule w(1))
  have g1: "if barrier then g1 = g else change_of op g = Inr (False, g1)"
    and room: "decimal (gat_Generation g1) \<noteq> Some (2 ^ 64 - 1)"
    using assms(2) by (auto simp: gate_decide_def split: if_splits)
  have same_gen: "gat_Generation g1 = gat_Generation g" using g1 change_of_effect(1)[OF assms(1)] by (auto split: if_splits)
  obtain n where n: "decimal (gat_Generation g) = Some n" using gate_okD(4)[OF assms(1)] by blast
  then have "gen g1 = gen g" by (simp add: gen_def same_gen)
  with gate_write_gen[OF assms(3), of n] n room same_gen show "gen g2 = gen g + 1" by simp
  show "follows op g g2"
    using g1 change_of_effect(1)[OF assms(1)] w(2,3) by (cases barrier) (auto simp: follows_def)
  show "barrier \<Longrightarrow> gat_Owner g2 = gat_Owner g \<and> set (gat_Holders g2) = set (gat_Holders g)"
    using g1 w(2,3) by simp
  show "\<And>h. \<not> barrier \<Longrightarrow> op = OpAdd h \<Longrightarrow> h \<in> set (gat_Holders g2)"
    "\<And>o'. \<not> barrier \<Longrightarrow> op = OpAcquire o' \<Longrightarrow> gat_Owner g2 = Some o'"
    using g1 change_of_effect(2,3)[OF assms(1)] w(2,3) by auto
qed

end
