(* ===== verification/Publication.thy ===== *)
theory Publication
  imports Gate
begin

text \<open>
  Reading and publishing backups: commits, retirement, claims and requests
  (repository/repository.go, repository/inventory.go), verification of stored bytes, the
  request/claim/commit protocol of an attempt, and inputs of a restore
  (repository/publication.go, repository/catalog_integrity.go). A file is its bytes.
\<close>

section \<open>Reading documents\<close>

definition readCommit :: "'w sys \<Rightarrow> repo \<Rightarrow> string \<Rightarrow> ('w, commit \<times> bytes \<times> info) act" where
  "readCommit S r uid =
     (if \<not> validID uid then fail ErrInvalid
      else andthen (st_Read S (backup_key r uid @ ''commit.json'') commitLimit) (\<lambda>(b, i).
        andthen (lift (strict Commit_type dec_Commit b commitLimit)) (\<lambda>c.
        andthen (lift (Commit_validate c (rp_id r))) (\<lambda>_.
        if cmt_BackupUID c \<noteq> uid then fail ErrCorrupt else ret (c, b, i)))))"

definition live :: "'w sys \<Rightarrow> repo \<Rightarrow> commit \<Rightarrow> bytes \<Rightarrow> ('w, unit) act" where
  "live S r c b =
     attempt (st_Read S (backup_key r (cmt_BackupUID c) @ ''retired.json'') smallLimit) (\<lambda>res. case res of
       Inl e \<Rightarrow> if Is e NotFound then ret () else fail e
     | Inr (rb, _) \<Rightarrow> (case strict Retirement_type dec_Retirement rb smallLimit of
         Inl _ \<Rightarrow> fail ErrCorrupt
       | Inr rt \<Rightarrow> if Retirement_validate rt (rp_id r) (cmt_BackupUID c) (digest b) \<noteq> Inr () then fail ErrCorrupt
           else fail ErrRetired))"

definition readClaim :: "'w sys \<Rightarrow> repo \<Rightarrow> string \<Rightarrow> string \<Rightarrow> ('w, claim) act" where
  "readClaim S r uid att =
     (if \<not> validID uid \<or> \<not> validID att then fail ErrInvalid
      else andthen (st_Read S (attempt_key r uid att @ ''claim.json'') smallLimit) (\<lambda>(b, _).
        case strict Claim_type dec_Claim b smallLimit of
          Inl _ \<Rightarrow> fail ErrCorrupt
        | Inr cl \<Rightarrow>
           if clm_Schema cl \<noteq> 1 \<or> clm_RepositoryID cl \<noteq> idn_RepositoryID (rp_id r) \<or> clm_BackupUID cl \<noteq> uid \<or>
              clm_AttemptID cl \<noteq> att \<or> \<not> validID (clm_ProcessID cl) \<or> \<not> hashRE (clm_RequestSHA256 cl)
           then fail ErrCorrupt else ret cl))"

definition requestFor :: "'w sys \<Rightarrow> repo \<Rightarrow> commit \<Rightarrow> ('w, request) act" where
  "requestFor S r c =
     andthen (st_Read S (backup_key r (cmt_BackupUID c) @ ''request.json'') smallLimit) (\<lambda>(b, _).
       case strict Request_type dec_Request b smallLimit of
         Inl _ \<Rightarrow> fail ErrCorrupt
       | Inr q \<Rightarrow>
          if Request_validate q (rp_id r) \<noteq> Inr () \<or> digest b \<noteq> cmt_RequestSHA256 c \<or>
             req_BackupUID q \<noteq> cmt_BackupUID c \<or> req_RequestedKind q \<noteq> cmt_Kind c then fail ErrCorrupt
          else if cmt_Kind c = ''differential'' \<and> req_RootBackupUID q \<noteq> Some (cmt_RootBackupUID c) then fail ErrCorrupt
          else andthen (readClaim S r (cmt_BackupUID c) (cmt_AttemptID c)) (\<lambda>cl.
            if clm_RequestSHA256 cl \<noteq> cmt_RequestSHA256 c then fail ErrCorrupt else ret q))"

section \<open>Verifying stored bytes\<close>

text \<open>The first pass over the stored bytes returns the context's error; the second pass, over the
  raw bytes, reports every failure as corruption.\<close>

definition raw_of :: "'w sys \<Rightarrow> string \<Rightarrow> bytes \<Rightarrow> bytes option" where
  "raw_of S compression b = (if compression = ''gzip'' then gunzip S b else Some b)"

definition verifyFile :: "'w sys \<Rightarrow> bytes \<Rightarrow> int \<Rightarrow> string \<Rightarrow> string \<Rightarrow> int \<Rightarrow> string \<Rightarrow> ('w, unit) act" where
  "verifyFile S b sz hash compression raw rawhash =
     (if int (length b) \<noteq> sz then fail ErrCorrupt
      else andthen (ctx_err S) (\<lambda>_.
        if digest b \<noteq> hash then fail ErrCorrupt
        else if compression \<noteq> ''gzip'' \<and> compression \<noteq> ''none'' then fail ErrInvalid
        else attempt (ctx_err S) (\<lambda>c. case (c, raw_of S compression b) of
            (Inr _, Some x) \<Rightarrow> if int (length x) \<noteq> raw \<or> digest x \<noteq> rawhash then fail ErrCorrupt else ret ()
          | _ \<Rightarrow> fail ErrCorrupt)))"

definition downloadVerify :: "'w sys \<Rightarrow> string \<Rightarrow> int \<Rightarrow> string \<Rightarrow> string \<Rightarrow> int \<Rightarrow> string \<Rightarrow> ('w, unit) act" where
  "downloadVerify S key sz hash compression raw rawhash w = (case os_temp S w of
     (False, w') \<Rightarrow> (Inl OsErr, w')
   | (True, w') \<Rightarrow> andthen (st_Download S key \<lparr>itg_Size = sz, itg_SHA256 = hash\<rparr>) (\<lambda>(b, _).
        verifyFile S b sz hash compression raw rawhash) w')"

definition manifest_key :: "repo \<Rightarrow> commit \<Rightarrow> string" where
  "manifest_key r c = attempt_key r (cmt_BackupUID c) (cmt_AttemptID c) @ ''manifest.pg.json''"

definition commit_artifact_key :: "repo \<Rightarrow> commit \<Rightarrow> artifact \<Rightarrow> string" where
  "commit_artifact_key r c a = artifact_key r (cmt_BackupUID c) (cmt_AttemptID c) (art_Index a) (art_Compression a)"

definition verify_manifest :: "'w sys \<Rightarrow> repo \<Rightarrow> commit \<Rightarrow> ('w, unit) act" where
  "verify_manifest S r c = downloadVerify S (manifest_key r c) (cmt_ManifestBytes c) (cmt_ManifestSHA256 c) ''none''
     (cmt_ManifestBytes c) (cmt_ManifestSHA256 c)"

definition verifyPayload :: "'w sys \<Rightarrow> repo \<Rightarrow> commit \<Rightarrow> ('w, unit) act" where
  "verifyPayload S r c =
     andthen (verify_manifest S r c) (\<lambda>_.
     each (\<lambda>a. downloadVerify S (commit_artifact_key r c a) (art_StoredBytes a) (art_StoredSHA256 a) (art_Compression a)
       (art_RawBytes a) (art_RawSHA256 a)) (cmt_Artifacts c))"

text \<open>\<open>*c.ParentBackupUID\<close> of a validated differential.\<close>

definition parent_uid :: "commit \<Rightarrow> string" where
  "parent_uid c = (case cmt_ParentBackupUID c of Some p \<Rightarrow> p | None \<Rightarrow> [])"

definition readParent :: "'w sys \<Rightarrow> repo \<Rightarrow> commit \<Rightarrow> ('w, commit) act" where
  "readParent S r c =
     andthen (readCommit S r (parent_uid c)) (\<lambda>(p, b, _).
     andthen (lift (validateParent c p)) (\<lambda>_.
     andthen (live S r p b) (\<lambda>_.
     andthen (requestFor S r p) (\<lambda>_. ret p))))"

definition verify_parent :: "'w sys \<Rightarrow> repo \<Rightarrow> commit \<Rightarrow> ('w, unit) act" where
  "verify_parent S r c =
     (if cmt_Kind c = ''full'' then ret ()
      else andthen (readParent S r c) (\<lambda>p. verifyPayload S r p))"

definition verifyWinner :: "'w sys \<Rightarrow> repo \<Rightarrow> commit \<Rightarrow> bytes \<Rightarrow> ('w, unit) act" where
  "verifyWinner S r c b =
     andthen (live S r c b) (\<lambda>_.
     andthen (requestFor S r c) (\<lambda>_.
     andthen (verify_parent S r c) (\<lambda>_. verifyPayload S r c)))"

section \<open>Publication\<close>

record result =
  res_Commit :: commit
  res_Bytes :: bytes
  res_PublishedAt :: instant

record attempt_handle =
  att_request :: request
  att_claim :: claim

datatype begun = Winner result | Fresh attempt_handle

text \<open>Actions on the world beside the hold they may latch.\<close>

definition on_world :: "('w, 'a) act \<Rightarrow> ('w \<times> 'r, 'a) act" where
  "on_world m = (\<lambda>(w, x). case m w of (res, w') \<Rightarrow> (res, (w', x)))"

definition latch :: "err \<Rightarrow> ('w \<times> hold, unit) act" where
  "latch e = (\<lambda>(w, h). (Inr (), (w, if ambiguous e then h\<lparr>hd_uncertain := True\<rparr> else h)))"

definition get_hold :: "('w \<times> hold, hold) act" where
  "get_hold = (\<lambda>(w, h). (Inr h, (w, h)))"

text \<open>The frozen request: written once, or found to be the same bytes.\<close>

definition freeze_request :: "'w sys \<Rightarrow> repo \<Rightarrow> request \<Rightarrow> ('w \<times> hold, unit) act" where
  "freeze_request S r q = (let b = render (enc_Request q); key = backup_key r (req_BackupUID q) @ ''request.json'' in
     attempt (on_world (put S key b Create [])) (\<lambda>res. case res of
       Inr _ \<Rightarrow> ret ()
     | Inl e \<Rightarrow> andthen (latch e) (\<lambda>_.
        attempt (on_world (st_Read S key smallLimit)) (\<lambda>rd. case rd of
          Inl _ \<Rightarrow> fail e
        | Inr (got, _) \<Rightarrow> (case strict Request_type dec_Request got smallLimit of
            Inl _ \<Rightarrow> fail ErrIdentity
          | Inr _ \<Rightarrow> if digest got \<noteq> digest b then fail ErrIdentity else ret ())))))"

definition claim_attempt :: "'w sys \<Rightarrow> repo \<Rightarrow> request \<Rightarrow> ('w \<times> hold, begun) act" where
  "claim_attempt S r q =
     andthen (on_world (new_UUID S)) (\<lambda>aid. let cl = \<lparr>clm_Schema = 1, clm_RepositoryID = idn_RepositoryID (rp_id r),
         clm_BackupUID = req_BackupUID q, clm_AttemptID = aid, clm_ProcessID = rp_process r,
         clm_RequestSHA256 = digest (render (enc_Request q))\<rparr> in
     attempt (on_world (put S (attempt_key r (req_BackupUID q) aid @ ''claim.json'') (render (enc_Claim cl)) Create []))
       (\<lambda>res. case res of
          Inr _ \<Rightarrow> ret (Fresh \<lparr>att_request = q, att_claim = cl\<rparr>)
        | Inl e \<Rightarrow> andthen (latch e) (\<lambda>_. fail e)))"

definition begin_attempt :: "'w sys \<Rightarrow> repo \<Rightarrow> request \<Rightarrow> ('w \<times> hold, begun) act" where
  "begin_attempt S r q =
     andthen get_hold (\<lambda>h.
     andthen (on_world (Hold_check S r h)) (\<lambda>_.
     if hld_Kind (hd_holder h) \<noteq> ''backup'' \<or> req_BackupUID q \<noteq> hld_OperationID (hd_holder h) then fail ErrIdentity
     else andthen (lift (Request_validate q (rp_id r))) (\<lambda>_.
     andthen (freeze_request S r q) (\<lambda>_.
     attempt (on_world (readCommit S r (req_BackupUID q))) (\<lambda>res. case res of
       Inr (c, cb, i) \<Rightarrow>
         if cmt_RequestSHA256 c \<noteq> digest (render (enc_Request q)) then fail ErrIdentity
         else andthen (on_world (verifyWinner S r c cb)) (\<lambda>_.
           ret (Winner \<lparr>res_Commit = c, res_Bytes = cb, res_PublishedAt = inf_Modified i\<rparr>))
     | Inl e \<Rightarrow>
         if \<not> Is e NotFound then fail e
         else andthen get_hold (\<lambda>h.
           if hd_uncertain h then fail ErrUncertain
           else andthen (case req_RootBackupUID q of
               None \<Rightarrow> ret ()
             | Some root \<Rightarrow> andthen (on_world (readCommit S r root)) (\<lambda>(p, pb, _).
                 if cmt_Kind p \<noteq> ''full'' then fail ErrCorrupt else on_world (verifyWinner S r p pb)))
             (\<lambda>_. claim_attempt S r q)))))))"

section \<open>Publish\<close>

definition verify_files :: "'w sys \<Rightarrow> commit \<Rightarrow> bytes \<Rightarrow> bytes list \<Rightarrow> ('w, unit) act" where
  "verify_files S c manifest files =
     andthen (verifyFile S manifest (cmt_ManifestBytes c) (cmt_ManifestSHA256 c) ''none'' (cmt_ManifestBytes c)
       (cmt_ManifestSHA256 c)) (\<lambda>_.
     each (\<lambda>(a, f). verifyFile S f (art_StoredBytes a) (art_StoredSHA256 a) (art_Compression a) (art_RawBytes a)
       (art_RawSHA256 a)) (zip (cmt_Artifacts c) files))"

definition upload_one :: "'w sys \<Rightarrow> string \<Rightarrow> bytes \<Rightarrow> int \<Rightarrow> string \<Rightarrow> ('w \<times> hold, unit) act" where
  "upload_one S key f sz hash =
     attempt (on_world (st_UploadFile S key f \<lparr>itg_Size = sz, itg_SHA256 = hash\<rparr>)) (\<lambda>res. case res of
       Inr _ \<Rightarrow> ret ()
     | Inl e \<Rightarrow> andthen (latch e) (\<lambda>_. fail e))"

definition upload_files :: "'w sys \<Rightarrow> repo \<Rightarrow> commit \<Rightarrow> bytes \<Rightarrow> bytes list \<Rightarrow> ('w \<times> hold, unit) act" where
  "upload_files S r c manifest files =
     andthen (upload_one S (manifest_key r c) manifest (cmt_ManifestBytes c) (cmt_ManifestSHA256 c)) (\<lambda>_.
     each (\<lambda>(a, f). upload_one S (commit_artifact_key r c a) f (art_StoredBytes a) (art_StoredSHA256 a))
       (zip (cmt_Artifacts c) files))"

text \<open>The commit PUT and the winner it is decided by.\<close>

definition commit_and_read :: "'w sys \<Rightarrow> repo \<Rightarrow> commit \<Rightarrow> ('w \<times> hold, result) act" where
  "commit_and_read S r c =
     attempt (on_world (put S (backup_key r (cmt_BackupUID c) @ ''commit.json'') (render (enc_Commit c)) Create [])) (\<lambda>res.
     andthen (case res of Inr _ \<Rightarrow> ret () | Inl e \<Rightarrow> latch e) (\<lambda>_.
     attempt (on_world (readCommit S r (cmt_BackupUID c))) (\<lambda>rd. case rd of
       Inl re \<Rightarrow> (case res of Inl e \<Rightarrow> fail e | Inr _ \<Rightarrow> fail re)
     | Inr (winner, wb, wi) \<Rightarrow>
         if cmt_RequestSHA256 winner \<noteq> cmt_RequestSHA256 c then fail ErrIdentity
         else andthen (on_world (verifyWinner S r winner wb)) (\<lambda>_.
           ret \<lparr>res_Commit = winner, res_Bytes = wb, res_PublishedAt = inf_Modified wi\<rparr>))))"

definition publish_ids_ok :: "attempt_handle \<Rightarrow> commit \<Rightarrow> bytes list \<Rightarrow> bool" where
  "publish_ids_ok a c files \<longleftrightarrow>
     cmt_BackupUID c = clm_BackupUID (att_claim a) \<and> cmt_AttemptID c = clm_AttemptID (att_claim a) \<and>
     cmt_RequestSHA256 c = clm_RequestSHA256 (att_claim a) \<and> cmt_Kind c = req_RequestedKind (att_request a) \<and>
     length files = length (cmt_Artifacts c) \<and>
     (cmt_Kind c = ''differential'' \<longrightarrow> req_RootBackupUID (att_request a) = Some (cmt_RootBackupUID c))"

text \<open>Everything between marking the attempt as used and the commit PUT. \<open>chk\<close> is the caller's
  final check; \<open>Publish\<close> passes none.\<close>

definition publish_payload :: "'w sys \<Rightarrow> repo \<Rightarrow> attempt_handle \<Rightarrow> commit \<Rightarrow> bytes \<Rightarrow> bytes list \<Rightarrow> ('w, unit) act option
    \<Rightarrow> ('w \<times> hold, unit) act" where
  "publish_payload S r a c manifest files chk =
     andthen (lift (Commit_validate c (rp_id r))) (\<lambda>_.
     if \<not> publish_ids_ok a c files then fail ErrIdentity
     else andthen (on_world (verify_parent S r c)) (\<lambda>_.
     andthen (on_world (verify_files S c manifest files)) (\<lambda>_.
     andthen (upload_files S r c manifest files) (\<lambda>_.
     andthen (on_world (verifyPayload S r c)) (\<lambda>_.
     andthen (on_world (verify_parent S r c)) (\<lambda>_.
     andthen (case chk of None \<Rightarrow> ret () | Some m \<Rightarrow> on_world m) (\<lambda>_.
     andthen (on_world (ctx_err S)) (\<lambda>_.
     check (int (length (render (enc_Commit c))) \<le> commitLimit) ErrCapacity))))))))"

text \<open>\<open>publish\<close> takes and returns the attempt's \<open>used\<close> flag.\<close>

definition publish :: "'w sys \<Rightarrow> repo \<Rightarrow> attempt_handle \<Rightarrow> bool \<Rightarrow> commit \<Rightarrow> bytes \<Rightarrow> bytes list \<Rightarrow> ('w, unit) act option
    \<Rightarrow> 'w \<times> hold \<Rightarrow> ((err + result) \<times> bool) \<times> ('w \<times> hold)" where
  "publish S r a used c manifest files chk s = (case andthen get_hold (\<lambda>h. on_world (Hold_check S r h)) s of
     (Inl e, s') \<Rightarrow> ((Inl e, used), s')
   | (Inr _, s') \<Rightarrow>
      if used then ((Inl ErrClosed, used), s')
      else case andthen (publish_payload S r a c manifest files chk) (\<lambda>_. commit_and_read S r c) s' of
        (res, s'') \<Rightarrow> ((res, True), s''))"

definition Publish :: "'w sys \<Rightarrow> repo \<Rightarrow> attempt_handle \<Rightarrow> bool \<Rightarrow> commit \<Rightarrow> bytes \<Rightarrow> bytes list
    \<Rightarrow> 'w \<times> hold \<Rightarrow> ((err + result) \<times> bool) \<times> ('w \<times> hold)" where
  "Publish S r a used c manifest files = publish S r a used c manifest files None"

definition PublishChecked :: "'w sys \<Rightarrow> repo \<Rightarrow> attempt_handle \<Rightarrow> bool \<Rightarrow> commit \<Rightarrow> bytes \<Rightarrow> bytes list \<Rightarrow> ('w, unit) act option
    \<Rightarrow> 'w \<times> hold \<Rightarrow> ((err + result) \<times> bool) \<times> ('w \<times> hold)" where
  "PublishChecked S r a used c manifest files chk s =
     (if chk = None then ((Inl ErrInvalid, used), s) else publish S r a used c manifest files chk s)"

section \<open>Restore inputs and catalog integrity\<close>

definition DownloadInput :: "'w sys \<Rightarrow> repo \<Rightarrow> hold \<Rightarrow> string \<Rightarrow> int \<Rightarrow> ('w, bytes) act" where
  "DownloadInput S r h uid index =
     andthen (Hold_check S r h) (\<lambda>_.
     andthen (readCommit S r uid) (\<lambda>(c, b, _).
     andthen (live S r c b) (\<lambda>_.
     andthen (requestFor S r c) (\<lambda>_.
     andthen (if cmt_Kind c = ''differential'' then andthen (readParent S r c) (\<lambda>_. ret ()) else ret ()) (\<lambda>_.
     if index \<ge> 0 then
       (if index \<ge> int (length (cmt_Artifacts c)) then fail ErrInvalid
        else let a = cmt_Artifacts c ! nat index in
          andthen (st_Download S (commit_artifact_key r c a) \<lparr>itg_Size = art_StoredBytes a, itg_SHA256 = art_StoredSHA256 a\<rparr>)
            (\<lambda>(f, _). andthen (verifyFile S f (art_StoredBytes a) (art_StoredSHA256 a) (art_Compression a)
               (art_RawBytes a) (art_RawSHA256 a)) (\<lambda>_. ret f)))
     else if index \<noteq> -1 then fail ErrInvalid
     else andthen (st_Download S (manifest_key r c) \<lparr>itg_Size = cmt_ManifestBytes c, itg_SHA256 = cmt_ManifestSHA256 c\<rparr>)
       (\<lambda>(f, _). andthen (verifyFile S f (cmt_ManifestBytes c) (cmt_ManifestSHA256 c) ''none''
          (cmt_ManifestBytes c) (cmt_ManifestSHA256 c)) (\<lambda>_. ret f)))))))"

definition payloadMetadata :: "'w sys \<Rightarrow> repo \<Rightarrow> commit \<Rightarrow> ('w, unit) act" where
  "payloadMetadata S r c =
     andthen (verify_manifest S r c) (\<lambda>_.
     each (\<lambda>a. andthen (st_Head S (commit_artifact_key r c a)) (\<lambda>i.
       check (inf_Size i = art_StoredBytes a \<and> inf_ETag i \<noteq> []) ErrCorrupt)) (cmt_Artifacts c))"

definition parentMetadata :: "'w sys \<Rightarrow> repo \<Rightarrow> commit \<Rightarrow> ('w, unit) act" where
  "parentMetadata S r c =
     (if cmt_Kind c = ''full'' then ret ()
      else andthen (readParent S r c) (\<lambda>p. payloadMetadata S r p))"

end
