(* ===== verification/Traces.thy ===== *)
theory Traces
  imports Publication
begin

text \<open>
  Reasoning about the calls an action makes. A recorder is a state with a growing list of
  events; the rules of the locale compute, through the combinators, a predicate all events of
  an action satisfy. The recorders of the development are the traced world alone and the
  traced world beside a hold.
\<close>

section \<open>Recorders\<close>

lemma andthen_Inr: "andthen m k s = (Inr y, s') \<longleftrightarrow> (\<exists>x s1. m s = (Inr x, s1) \<and> k x s1 = (Inr y, s'))"
  by (auto simp: andthen_def attempt_def fail_def split: prod.splits sum.splits)

lemma andthen_split:
  "andthen m k s = (r, s') \<Longrightarrow>
   (\<exists>e. m s = (Inl e, s') \<and> r = Inl e) \<or> (\<exists>x s1. m s = (Inr x, s1) \<and> k x s1 = (r, s'))"
  by (auto simp: andthen_def attempt_def fail_def split: prod.splits sum.splits)

text \<open>Runs that succeed, read backwards through the combinators and the case distinctions of the code.\<close>

lemma ok_if: "(if b then m else n) s = z \<longleftrightarrow> b \<and> m s = z \<or> \<not> b \<and> n s = z"
  and ok_option: "(case v of None \<Rightarrow> m | Some y \<Rightarrow> h y) s = z \<longleftrightarrow> v = None \<and> m s = z \<or> (\<exists>y. v = Some y \<and> h y s = z)"
  and ok_sum: "(case u of Inl e \<Rightarrow> f e | Inr y \<Rightarrow> g y) s = z \<longleftrightarrow> (\<exists>e. u = Inl e \<and> f e s = z) \<or> (\<exists>y. u = Inr y \<and> g y s = z)"
  and ok_prod: "(case p of (a, b) \<Rightarrow> k a b) s = z \<longleftrightarrow> (\<exists>a b. p = (a, b) \<and> k a b s = z)"
  and ok_fail: "fail e s = (Inr x, s') \<longleftrightarrow> False"
  and ok_ret: "ret x s = (Inr y, s') \<longleftrightarrow> y = x \<and> s' = s"
  and ok_lift: "lift r s = (Inr y, s') \<longleftrightarrow> r = Inr y \<and> s' = s"
  and ok_check: "check c e s = (Inr u1, s') \<longleftrightarrow> c \<and> s' = s"
  and ok_attempt: "attempt q j s = z \<longleftrightarrow> (\<exists>r s1. q s = (r, s1) \<and> j r s1 = z)"
  by (auto simp: fail_def ret_def lift_def check_def attempt_def split: option.splits prod.splits sum.splits)

lemmas ok_runs = andthen_Inr ok_if ok_option ok_sum ok_prod ok_fail ok_ret ok_lift ok_check

lemma each_fold_inv:
  assumes "\<And>x u s u' s'. I u \<Longrightarrow> h x u s = (Inr u', s') \<Longrightarrow> I u'" "I u"
  shows "each_fold h xs u s = (Inr u', s') \<Longrightarrow> I u'"
  using assms(2)
proof (induction xs arbitrary: u s)
  case (Cons x xs)
  then show ?case using assms(1) by (fastforce simp: andthen_Inr)
qed (simp add: ret_def)

locale recorder =
  fixes trace :: "'s \<Rightarrow> 'e list"
begin

definition emits :: "('e \<Rightarrow> bool) \<Rightarrow> ('s, 'a) act \<Rightarrow> bool" where
  "emits A m \<longleftrightarrow> (\<forall>s r s'. m s = (r, s') \<longrightarrow> (\<exists>ev. trace s' = trace s @ ev \<and> list_all A ev))"

lemma emitsI: "(\<And>s r s'. m s = (r, s') \<Longrightarrow> \<exists>ev. trace s' = trace s @ ev \<and> list_all A ev) \<Longrightarrow> emits A m"
  by (auto simp: emits_def)

lemma emitsD: "emits A m \<Longrightarrow> m s = (r, s') \<Longrightarrow> \<exists>ev. trace s' = trace s @ ev \<and> list_all A ev"
  by (auto simp: emits_def)

lemma emits_mono: "emits A m \<Longrightarrow> (\<And>e. A e \<Longrightarrow> B e) \<Longrightarrow> emits B m"
  unfolding emits_def by (meson list.pred_mono_strong)

lemma emits_ret: "emits A (ret x)"
  and emits_fail: "emits A (fail e)"
  and emits_lift: "emits A (lift r)"
  and emits_check: "emits A (check b e)"
  by (auto simp: emits_def ret_def fail_def lift_def check_def)

lemma emits_attempt:
  assumes "emits A m" "\<And>r. emits A (k r)"
  shows "emits A (attempt m k)"
proof (rule emitsI)
  fix s r s' assume "attempt m k s = (r, s')"
  then obtain r1 s1 where 1: "m s = (r1, s1)" "k r1 s1 = (r, s')" by (auto simp: attempt_def split: prod.splits)
  from emitsD[OF assms(1) 1(1)] emitsD[OF assms(2) 1(2)]
  show "\<exists>ev. trace s' = trace s @ ev \<and> list_all A ev" by auto
qed

lemma emits_andthen: "emits A m \<Longrightarrow> (\<And>x. emits A (k x)) \<Longrightarrow> emits A (andthen m k)"
  unfolding andthen_def by (rule emits_attempt) (auto intro: emits_fail split: sum.split)

lemma emits_each: "(\<And>x. x \<in> set xs \<Longrightarrow> emits A (f x)) \<Longrightarrow> emits A (each f xs)"
  by (induction xs) (auto intro: emits_ret emits_andthen)

lemma emits_each_fold: "(\<And>x v. x \<in> set xs \<Longrightarrow> emits A (f x v)) \<Longrightarrow> emits A (each_fold f xs v)"
  by (induction xs arbitrary: v) (auto intro: emits_ret emits_andthen)

lemmas emits_rules = emits_ret emits_fail emits_lift emits_check emits_attempt emits_andthen emits_each emits_each_fold

end

abbreviation wtrace :: "'w \<times> event list \<Rightarrow> event list" where
  "wtrace \<equiv> snd"

abbreviation htrace :: "('w \<times> event list) \<times> 'r \<Rightarrow> event list" where
  "htrace \<equiv> (\<lambda>s. snd (fst s))"

interpretation wt: recorder wtrace .

interpretation ht: recorder htrace .

lemma emits_on_world: "wt.emits A m \<Longrightarrow> ht.emits A (on_world m)"
  by (rule ht.emitsI) (auto simp: on_world_def dest: wt.emitsD split: prod.splits)

lemma emits_get_hold: "ht.emits A get_hold"
  by (auto simp: ht.emits_def get_hold_def)

lemma emits_latch: "ht.emits A (latch e)"
  by (auto simp: ht.emits_def latch_def)

section \<open>Recording the calls of any interface\<close>

text \<open>A call that is recorded with its result, one that is not, and the recorders over the traced
  world, alone and beside a local state.\<close>

definition log_call :: "('a \<Rightarrow> 'e) \<Rightarrow> ('w \<Rightarrow> 'a \<times> 'w) \<Rightarrow> 'w \<times> 'e list \<Rightarrow> 'a \<times> ('w \<times> 'e list)" where
  "log_call ev m = (\<lambda>(w, tr). case m w of (r, w') \<Rightarrow> (r, (w', tr @ [ev r])))"

definition pass_call :: "('w \<Rightarrow> 'a \<times> 'w) \<Rightarrow> 'w \<times> 'e list \<Rightarrow> 'a \<times> ('w \<times> 'e list)" where
  "pass_call m = (\<lambda>(w, tr). case m w of (r, w') \<Rightarrow> (r, (w', tr)))"

abbreviation calls :: "'w \<times> 'e list \<Rightarrow> 'e list" where
  "calls \<equiv> snd"

abbreviation side_calls :: "('w \<times> 'e list) \<times> 'r \<Rightarrow> 'e list" where
  "side_calls \<equiv> (\<lambda>s. snd (fst s))"

interpretation ct: recorder calls .

interpretation st: recorder side_calls .

lemma emits_pass_call: "ct.emits A (pass_call m)"
  by (rule ct.emitsI) (auto simp: pass_call_def split: prod.splits)

lemma emits_log_call: "(\<And>r. A (ev r)) \<Longrightarrow> ct.emits A (log_call ev m)"
  by (rule ct.emitsI) (auto simp: log_call_def split: prod.splits)

lemma side_emits_on_world: "ct.emits A m \<Longrightarrow> st.emits A (on_world m)"
  by (rule st.emitsI) (auto simp: on_world_def dest: ct.emitsD split: prod.splits)

section \<open>The calls of the system\<close>

fun is_read :: "event \<Rightarrow> bool" where
  "is_read (EvHead _) = True"
| "is_read (EvRead _) = True"
| "is_read (EvDownload _ _ _) = True"
| "is_read (EvList _) = True"
| "is_read _ = False"

lemma emits_logged: "(\<And>e. A (ev e)) \<Longrightarrow> wt.emits A (logged ev m)"
  by (rule wt.emitsI) (auto simp: logged_def split: prod.splits)

lemma emits_pass: "wt.emits A (pass m)"
  by (rule wt.emitsI) (auto simp: pass_def split: prod.splits)

lemma emits_Read: "A (EvRead k) \<Longrightarrow> wt.emits A (st_Read (traced S) k n)"
  and emits_Head: "A (EvHead k) \<Longrightarrow> wt.emits A (st_Head (traced S) k)"
  and emits_Download: "(\<And>e. A (EvDownload k i e)) \<Longrightarrow> wt.emits A (st_Download (traced S) k i)"
  and emits_PutFile: "(\<And>e. A (EvPut k b c e)) \<Longrightarrow> wt.emits A (st_PutFile (traced S) k b i c m)"
  and emits_UploadFile: "(\<And>e. A (EvUpload k b i e)) \<Longrightarrow> wt.emits A (st_UploadFile (traced S) k b i)"
  and emits_Delete: "(\<And>e. A (EvDelete k e)) \<Longrightarrow> wt.emits A (st_Delete (traced S) k)"
  and emits_Abort: "(\<And>e. A (EvAbort u e)) \<Longrightarrow> wt.emits A (st_Abort (traced S) u)"
  and emits_safety: "wt.emits A (st_CheckBucketSafety (traced S))"
  and emits_sleep: "wt.emits A (os_sleep (traced S) n)"
  by (auto simp: traced_def intro: emits_logged emits_pass)

lemma emits_new_UUID: "wt.emits A (new_UUID (traced S))"
  by (rule wt.emitsI) (auto simp: new_UUID_def traced_def pass_def split: prod.splits)

lemma emits_ctx_err: "wt.emits A (ctx_err (traced S))"
  by (rule wt.emitsI) (auto simp: ctx_err_def traced_def pass_def split: prod.splits)

lemma emits_put: "(\<And>e. A (EvPut k b c e)) \<Longrightarrow> wt.emits A (put (traced S) k b c m)"
  by (rule wt.emitsI)
    (auto simp: put_def traced_def pass_def logged_def split: prod.splits bool.splits)

lemma emits_downloadVerify_temp:
  "wt.emits A m \<Longrightarrow> wt.emits A (\<lambda>w. case os_temp (traced S) w of (False, w') \<Rightarrow> (Inl e, w') | (True, w') \<Rightarrow> m w')"
  by (rule wt.emitsI) (auto simp: traced_def pass_def dest: wt.emitsD split: prod.splits bool.splits)

lemma emits_list_with:
  assumes "\<And>i v. wt.emits A (f i v)" "A (EvList p)"
  shows "wt.emits A (list_with (st_List (traced S) p n) f v)"
proof (rule wt.emitsI)
  fix s r s' assume run: "list_with (st_List (traced S) p n) f v s = (r, s')"
  obtain w tr where s: "s = (w, tr)" by (cases s)
  obtain items e w1 where l: "st_List S p n w = ((items, e), w1)" by (metis prod.exhaust)
  have "wt.emits A (andthen (each_fold f items v) (\<lambda>v. case e of None \<Rightarrow> ret v | Some e \<Rightarrow> fail e))"
    by (intro wt.emits_andthen wt.emits_each_fold assms) (auto intro: wt.emits_rules split: option.split)
  moreover have "andthen (each_fold f items v) (\<lambda>v. case e of None \<Rightarrow> ret v | Some e \<Rightarrow> fail e) (w1, tr @ [EvList p]) = (r, s')"
    using run by (simp add: list_with_def traced_def s l)
  ultimately obtain ev where "snd s' = tr @ [EvList p] @ ev" "list_all A ev" using wt.emitsD by fastforce
  then show "\<exists>ev. snd s' = snd s @ ev \<and> list_all A ev" using assms(2) by (intro exI[of _ "[EvList p] @ ev"]) (simp add: s)
qed

named_theorems emits_intros \<open>what the actions of the repository record\<close>

lemmas [emits_intros] = wt.emits_rules ht.emits_rules emits_on_world emits_get_hold emits_latch emits_Read emits_Head emits_Download
  emits_safety emits_sleep emits_new_UUID emits_ctx_err emits_list_with

lemma reads_readGate [emits_intros]: "wt.emits is_read (readGate (traced S) r)"
  unfolding readGate_def by (auto intro!: emits_intros split: prod.splits)

lemma reads_Hold_check [emits_intros]: "wt.emits is_read (Hold_check (traced S) r h)"
  unfolding Hold_check_def by (auto intro!: emits_intros split: prod.splits)

lemma reads_readCommit [emits_intros]: "wt.emits is_read (readCommit (traced S) r uid)"
  unfolding readCommit_def by (auto intro!: emits_intros split: prod.splits)

lemma reads_live [emits_intros]: "wt.emits is_read (live (traced S) r c b)"
  unfolding live_def by (auto intro!: emits_intros split: prod.splits sum.splits)

lemma reads_readClaim [emits_intros]: "wt.emits is_read (readClaim (traced S) r uid att)"
  unfolding readClaim_def by (auto intro!: emits_intros split: prod.splits sum.splits)

lemma reads_requestFor [emits_intros]: "wt.emits is_read (requestFor (traced S) r c)"
  unfolding requestFor_def by (auto intro!: emits_intros split: prod.splits sum.splits)

lemma reads_verifyFile [emits_intros]: "wt.emits A (verifyFile (traced S) b sz hash cmp raw rawhash)"
  unfolding verifyFile_def by (auto intro!: emits_intros split: prod.splits sum.splits option.splits)

lemma reads_downloadVerify [emits_intros]: "wt.emits is_read (downloadVerify (traced S) key sz hash cmp raw rawhash)"
  unfolding downloadVerify_def by (rule emits_downloadVerify_temp) (auto intro!: emits_intros split: prod.splits)

lemma reads_verify_manifest [emits_intros]: "wt.emits is_read (verify_manifest (traced S) r c)"
  unfolding verify_manifest_def by (rule reads_downloadVerify)

lemma reads_verifyPayload [emits_intros]: "wt.emits is_read (verifyPayload (traced S) r c)"
  unfolding verifyPayload_def by (auto intro!: emits_intros)

lemma reads_readParent [emits_intros]: "wt.emits is_read (readParent (traced S) r c)"
  unfolding readParent_def by (auto intro!: emits_intros split: prod.splits)

lemma reads_verify_parent [emits_intros]: "wt.emits is_read (verify_parent (traced S) r c)"
  unfolding verify_parent_def by (auto intro!: emits_intros)

lemma reads_verifyWinner [emits_intros]: "wt.emits is_read (verifyWinner (traced S) r c b)"
  unfolding verifyWinner_def by (auto intro!: emits_intros)

section \<open>Triples\<close>

text \<open>A precondition, a postcondition for success and one for failure.\<close>

definition triple :: "('s \<Rightarrow> bool) \<Rightarrow> ('s, 'a) act \<Rightarrow> ('a \<Rightarrow> 's \<Rightarrow> bool) \<Rightarrow> ('s \<Rightarrow> bool) \<Rightarrow> bool" where
  "triple P m Q E \<longleftrightarrow> (\<forall>s. P s \<longrightarrow> (case m s of (Inr x, s') \<Rightarrow> Q x s' | (Inl e, s') \<Rightarrow> E s'))"

lemma tripleI: "(\<And>s x s'. P s \<Longrightarrow> m s = (Inr x, s') \<Longrightarrow> Q x s') \<Longrightarrow> (\<And>s e s'. P s \<Longrightarrow> m s = (Inl e, s') \<Longrightarrow> E s') \<Longrightarrow> triple P m Q E"
  unfolding triple_def by (auto split: prod.splits sum.splits)

lemma tripleD_ok: "triple P m Q E \<Longrightarrow> P s \<Longrightarrow> m s = (Inr x, s') \<Longrightarrow> Q x s'"
  unfolding triple_def by (auto dest!: spec[of _ s])

lemma tripleD_err: "triple P m Q E \<Longrightarrow> P s \<Longrightarrow> m s = (Inl e, s') \<Longrightarrow> E s'"
  unfolding triple_def by (auto dest!: spec[of _ s])

lemma triple_weaken: "triple P m Q E \<Longrightarrow> (\<And>s. P' s \<Longrightarrow> P s) \<Longrightarrow> (\<And>x s. Q x s \<Longrightarrow> Q' x s) \<Longrightarrow> (\<And>s. E s \<Longrightarrow> E' s) \<Longrightarrow> triple P' m Q' E'"
  unfolding triple_def by (fastforce split: prod.splits sum.splits)

lemma triple_andthen: "triple P m R E \<Longrightarrow> (\<And>x. triple (R x) (k x) Q E) \<Longrightarrow> triple P (andthen m k) Q E"
  by (rule tripleI) (auto simp: andthen_Inr dest!: andthen_split dest: tripleD_ok tripleD_err)

lemma triple_attempt:
  assumes "triple P m R E'" "\<And>x. triple (R x) (k (Inr x)) Q E" "\<And>e. triple E' (k (Inl e)) Q E"
  shows "triple P (attempt m k) Q E"
proof (unfold triple_def, intro allI impI)
  fix s assume P: "P s"
  obtain r s1 where m: "m s = (r, s1)" by (metis prod.exhaust)
  show "case attempt m k s of (Inr x, s') \<Rightarrow> Q x s' | (Inl e, s') \<Rightarrow> E s'"
  proof (cases r)
    case (Inl e)
    then show ?thesis using tripleD_err[OF assms(1) P] m assms(3)[of e] by (simp add: attempt_def triple_def)
  next
    case (Inr x)
    then show ?thesis using tripleD_ok[OF assms(1) P] m assms(2)[of x] by (simp add: attempt_def triple_def)
  qed
qed

lemma triple_if: "(b \<Longrightarrow> triple P m Q E) \<Longrightarrow> (\<not> b \<Longrightarrow> triple P n Q E) \<Longrightarrow> triple P (if b then m else n) Q E"
  by simp

lemma triple_fail: "(\<And>s. P s \<Longrightarrow> E s) \<Longrightarrow> triple P (fail e) Q E"
  and triple_ret: "(\<And>s. P s \<Longrightarrow> Q x s) \<Longrightarrow> triple P (ret x) Q E"
  and triple_lift: "(\<And>s x. P s \<Longrightarrow> r = Inr x \<Longrightarrow> Q x s) \<Longrightarrow> (\<And>s. P s \<Longrightarrow> E s) \<Longrightarrow> triple P (lift r) Q E"
  by (auto simp: triple_def fail_def ret_def lift_def split: sum.splits)

end
