(* ===== verification/Publication_Order.thy ===== *)
theory Publication_Order
  imports Traces
begin

text \<open>
  The order of the calls of a publication: every payload upload succeeds and is read back and
  verified before the commit document is written, the commit is written at most once and only
  as a creation, and nothing but reads follows it. Ambiguous mutations latch the hold.
\<close>

section \<open>What a publication writes\<close>

fun not_put :: "event \<Rightarrow> bool" where
  "not_put (EvPut _ _ _ _) = False"
| "not_put _ = True"

lemma is_read_not_put: "is_read e \<Longrightarrow> not_put e"
  by (cases e) auto

lemma wt_not_put: "wt.emits is_read m \<Longrightarrow> wt.emits not_put m"
  by (erule wt.emits_mono) (rule is_read_not_put)

text \<open>A successful upload and a successful download record their events.\<close>

lemma upload_one_log:
  assumes "upload_one (traced S) key f sz hash s = (Inr (), s')"
  shows "\<exists>ev. htrace s' = htrace s @ ev \<and> EvUpload key f \<lparr>itg_Size = sz, itg_SHA256 = hash\<rparr> None \<in> set ev"
  using assms
  by (cases s; cases "fst s")
    (auto simp: upload_one_def attempt_def andthen_def on_world_def traced_def logged_def err_of_def fail_def ret_def latch_def
      split: prod.splits sum.splits)

lemma downloadVerify_log:
  assumes "downloadVerify (traced S) key sz hash cmp raw rawhash s = (Inr (), s')"
  shows "\<exists>ev. wtrace s' = wtrace s @ ev \<and> EvDownload key \<lparr>itg_Size = sz, itg_SHA256 = hash\<rparr> None \<in> set ev"
proof -
  obtain w tr where s: "s = (w, tr)" by (cases s)
  obtain t w1 where t: "os_temp S w = (t, w1)" by (cases "os_temp S w")
  then obtain x s1 where d: "st_Download (traced S) key \<lparr>itg_Size = sz, itg_SHA256 = hash\<rparr> (w1, tr) = (Inr x, s1)"
    and v: "verifyFile (traced S) (fst x) sz hash cmp raw rawhash s1 = (Inr (), s')"
    using assms by (cases t) (auto simp: downloadVerify_def s traced_def pass_def andthen_Inr split: prod.splits)
  have "wtrace s1 = tr @ [EvDownload key \<lparr>itg_Size = sz, itg_SHA256 = hash\<rparr> None]"
    using d by (auto simp: traced_def logged_def err_of_def split: prod.splits sum.splits)
  then show ?thesis using wt.emitsD[OF reads_verifyFile v, of not_put] s by auto
qed

lemma each_log:
  assumes "each f xs s = (Inr (), s')"
    and "\<And>x s s'. f x s = (Inr (), s') \<Longrightarrow> \<exists>ev. tr s' = tr s @ ev \<and> P x \<in> set ev"
  shows "\<exists>ev. tr s' = tr s @ ev \<and> P ` set xs \<subseteq> set ev"
  using assms(1)
proof (induction xs arbitrary: s)
  case Nil
  then show ?case by (simp add: ret_def)
next
  case (Cons y ys)
  then obtain s1 where s1: "f y s = (Inr (), s1)" "each f ys s1 = (Inr (), s')" by (auto simp: andthen_Inr)
  from assms(2)[OF s1(1)] Cons.IH[OF s1(2)] show ?case by force
qed

text \<open>The upload events of a commit, and the download events of its verification.\<close>

definition upload_events :: "repo \<Rightarrow> commit \<Rightarrow> bytes \<Rightarrow> bytes list \<Rightarrow> event set" where
  "upload_events r c manifest files =
     insert (EvUpload (manifest_key r c) manifest \<lparr>itg_Size = cmt_ManifestBytes c, itg_SHA256 = cmt_ManifestSHA256 c\<rparr> None)
       ((\<lambda>(a, f). EvUpload (commit_artifact_key r c a) f \<lparr>itg_Size = art_StoredBytes a, itg_SHA256 = art_StoredSHA256 a\<rparr> None) `
         set (zip (cmt_Artifacts c) files))"

definition verify_events :: "repo \<Rightarrow> commit \<Rightarrow> event set" where
  "verify_events r c =
     insert (EvDownload (manifest_key r c) \<lparr>itg_Size = cmt_ManifestBytes c, itg_SHA256 = cmt_ManifestSHA256 c\<rparr> None)
       ((\<lambda>a. EvDownload (commit_artifact_key r c a) \<lparr>itg_Size = art_StoredBytes a, itg_SHA256 = art_StoredSHA256 a\<rparr> None) `
         set (cmt_Artifacts c))"

lemma verifyPayload_log:
  assumes "verifyPayload (traced S) r c s = (Inr (), s')"
  shows "\<exists>ev. wtrace s' = wtrace s @ ev \<and> verify_events r c \<subseteq> set ev"
proof -
  let ?f = "\<lambda>a. downloadVerify (traced S) (commit_artifact_key r c a) (art_StoredBytes a) (art_StoredSHA256 a) (art_Compression a)
       (art_RawBytes a) (art_RawSHA256 a)"
  let ?P = "\<lambda>a. EvDownload (commit_artifact_key r c a) \<lparr>itg_Size = art_StoredBytes a, itg_SHA256 = art_StoredSHA256 a\<rparr> None"
  obtain s1 where s1: "verify_manifest (traced S) r c s = (Inr (), s1)" and e: "each ?f (cmt_Artifacts c) s1 = (Inr (), s')"
    using assms by (auto simp: verifyPayload_def andthen_Inr)
  have "\<exists>ev. wtrace s1 = wtrace s @ ev \<and>
      EvDownload (manifest_key r c) \<lparr>itg_Size = cmt_ManifestBytes c, itg_SHA256 = cmt_ManifestSHA256 c\<rparr> None \<in> set ev"
    using s1 unfolding verify_manifest_def by (rule downloadVerify_log)
  moreover have "\<exists>ev. wtrace s' = wtrace s1 @ ev \<and> ?P ` set (cmt_Artifacts c) \<subseteq> set ev"
    using e by (rule each_log) (rule downloadVerify_log)
  ultimately show ?thesis unfolding verify_events_def by force
qed

lemma emits_upload_one: "ht.emits not_put (upload_one (traced S) key f sz hash)"
  unfolding upload_one_def by (auto intro!: emits_intros emits_UploadFile split: sum.splits)

lemma upload_files_log:
  assumes "upload_files (traced S) r c manifest files s = (Inr (), s')"
  shows "\<exists>ev. htrace s' = htrace s @ ev \<and> upload_events r c manifest files \<subseteq> set ev"
proof -
  let ?f = "\<lambda>(a, f). upload_one (traced S) (commit_artifact_key r c a) f (art_StoredBytes a) (art_StoredSHA256 a)"
  let ?P = "\<lambda>(a, f). EvUpload (commit_artifact_key r c a) f \<lparr>itg_Size = art_StoredBytes a, itg_SHA256 = art_StoredSHA256 a\<rparr> None"
  obtain s1 where s1: "upload_one (traced S) (manifest_key r c) manifest (cmt_ManifestBytes c) (cmt_ManifestSHA256 c) s = (Inr (), s1)"
    and e: "each ?f (zip (cmt_Artifacts c) files) s1 = (Inr (), s')"
    using assms by (auto simp: upload_files_def andthen_Inr)
  have "\<exists>ev. htrace s' = htrace s1 @ ev \<and> ?P ` set (zip (cmt_Artifacts c) files) \<subseteq> set ev"
    using e by (rule each_log) (auto dest: upload_one_log split: prod.splits)
  with upload_one_log[OF s1] show ?thesis unfolding upload_events_def by force
qed

section \<open>The commit is written last\<close>

lemma emits_chk:
  "(\<And>m. chk = Some m \<Longrightarrow> wt.emits not_put m) \<Longrightarrow> ht.emits not_put (case chk of None \<Rightarrow> ret () | Some m \<Rightarrow> on_world m)"
  by (auto intro: emits_intros split: option.splits)

lemma emits_publish_payload:
  assumes "\<And>m. chk = Some m \<Longrightarrow> wt.emits not_put m"
  shows "ht.emits not_put (publish_payload (traced S) r a c manifest files chk)"
  unfolding publish_payload_def upload_files_def verify_files_def
  by (auto intro!: emits_intros emits_upload_one wt_not_put[OF reads_verify_parent] wt_not_put[OF reads_verifyPayload]
      emits_chk[OF assms] split: prod.splits)

lemma on_world_Inr: "on_world m s = (Inr x, s') \<longleftrightarrow> m (fst s) = (Inr x, fst s') \<and> snd s' = snd s"
  by (cases s; cases s') (auto simp: on_world_def split: prod.splits)

text \<open>A payload that got through: what was uploaded, then what was verified, is in the trace.\<close>

lemma publish_payload_log:
  assumes chk: "\<And>m. chk = Some m \<Longrightarrow> wt.emits not_put m"
    and run: "publish_payload (traced S) r a c manifest files chk s = (Inr (), s')"
  shows "Commit_validate c (rp_id r) = Inr ()" "publish_ids_ok a c files"
    "\<exists>up vf. htrace s' = up @ vf \<and> upload_events r c manifest files \<subseteq> set up \<and> verify_events r c \<subseteq> set vf \<and>
       int (length (render (enc_Commit c))) \<le> commitLimit"
proof -
  let ?tail = "andthen (on_world (verify_parent (traced S) r c)) (\<lambda>_.
     andthen (case chk of None \<Rightarrow> ret () | Some m \<Rightarrow> on_world m) (\<lambda>_.
     andthen (on_world (ctx_err (traced S))) (\<lambda>_.
     check (int (length (render (enc_Commit c))) \<le> commitLimit) ErrCapacity)))"
  from run obtain s1 s2 s3 where v: "lift (Commit_validate c (rp_id r)) s = (Inr (), s1)" and ids: "publish_ids_ok a c files"
    and up: "upload_files (traced S) r c manifest files s2 = (Inr (), s3)"
    and rest: "andthen (on_world (verifyPayload (traced S) r c)) (\<lambda>_. ?tail) s3 = (Inr (), s')"
    unfolding publish_payload_def by (auto simp: andthen_Inr fail_def split: if_splits)
  show "Commit_validate c (rp_id r) = Inr ()" "publish_ids_ok a c files" using v ids by (auto simp: lift_def)
  from rest obtain s4 where vp: "verifyPayload (traced S) r c (fst s3) = (Inr (), fst s4)" and t: "?tail s4 = (Inr (), s')"
    unfolding andthen_Inr[of "on_world (verifyPayload (traced S) r c)"] on_world_Inr by auto
  have "ht.emits not_put ?tail"
    by (auto intro!: emits_intros wt_not_put[OF reads_verify_parent] emits_chk[OF chk])
  from ht.emitsD[OF this t] obtain e1 where e1: "htrace s' = htrace s4 @ e1" by blast
  from verifyPayload_log[OF vp] obtain e2 where e2: "htrace s4 = htrace s3 @ e2" and vf: "verify_events r c \<subseteq> set e2" by blast
  have lim: "int (length (render (enc_Commit c))) \<le> commitLimit"
    using t by (auto simp: andthen_Inr check_def split: if_splits)
  show "\<exists>up vf. htrace s' = up @ vf \<and> upload_events r c manifest files \<subseteq> set up \<and> verify_events r c \<subseteq> set vf \<and>
       int (length (render (enc_Commit c))) \<le> commitLimit"
    using upload_files_log[OF up] e1 e2 vf lim by (intro exI[of _ "htrace s3"] exI[of _ "e2 @ e1"]) fastforce
qed


lemma unit_eq: "u = ()"
  by simp

lemma attempt_on_world: "m w = (pr, w1) \<Longrightarrow> attempt (on_world m) k (w, h) = k pr (w1, h)"
  by (simp add: attempt_def on_world_def)

lemma put_log:
  assumes "put (traced S) k b c m (w, tr) = (res, (w', tr'))"
  shows "tr' = tr @ [EvPut k b c (err_of res)] \<or> (tr' = tr \<and> res = Inl (S3Error LocalIO False))"
  using assms by (auto simp: put_def traced_def pass_def logged_def split: prod.splits bool.splits)

lemma commit_and_read_log:
  assumes "commit_and_read (traced S) r c s = (res, s')"
  shows "\<exists>pe post. htrace s' = htrace s @ pe @ post \<and> list_all is_read post \<and>
    (pe = [] \<or> (\<exists>e. pe = [EvPut (backup_key r (cmt_BackupUID c) @ ''commit.json'') (render (enc_Commit c)) Create e]))"
proof -
  let ?put = "put (traced S) (backup_key r (cmt_BackupUID c) @ ''commit.json'') (render (enc_Commit c)) Create []"
  obtain w tr h where s: "s = ((w, tr), h)" by (cases s; cases "fst s") auto
  obtain pr w1 tr1 where p: "?put (w, tr) = (pr, (w1, tr1))" by (metis prod.exhaust)
  define k where "k = andthen (case pr of Inr _ \<Rightarrow> ret () | Inl e \<Rightarrow> latch e) (\<lambda>_.
     attempt (on_world (readCommit (traced S) r (cmt_BackupUID c))) (\<lambda>rd. case rd of
       Inl re \<Rightarrow> (case pr of Inl e \<Rightarrow> fail e | Inr _ \<Rightarrow> fail re)
     | Inr (winner, wb, wi) \<Rightarrow>
         if cmt_RequestSHA256 winner \<noteq> cmt_RequestSHA256 c then fail ErrIdentity
         else andthen (on_world (verifyWinner (traced S) r winner wb)) (\<lambda>_.
           ret \<lparr>res_Commit = winner, res_Bytes = wb, res_PublishedAt = inf_Modified wi\<rparr>)))"
  have run: "k ((w1, tr1), h) = (res, s')"
    using assms unfolding commit_and_read_def k_def s attempt_on_world[of ?put "(w, tr)" pr "(w1, tr1)", OF p] .
  have "ht.emits is_read k" unfolding k_def by (auto intro!: emits_intros split: sum.splits prod.splits)
  from ht.emitsD[OF this run] obtain post where "htrace s' = tr1 @ post" "list_all is_read post" by auto
  with put_log[OF p] obtain pe where "htrace s' = tr @ pe @ post" "list_all is_read post"
    "pe = [] \<or> pe = [EvPut (backup_key r (cmt_BackupUID c) @ ''commit.json'') (render (enc_Commit c)) Create (err_of pr)]"
    by auto
  then show ?thesis by (intro exI[of _ pe] exI[of _ post]) (auto simp: s)
qed

text \<open>All of a call to \<open>publish\<close>.\<close>

lemma publish_log:
  assumes chk: "\<And>m. chk = Some m \<Longrightarrow> wt.emits not_put m"
    and run: "publish (traced S) r a used c manifest files chk ((w, []), h) = ((res, used'), s')"
  shows "list_all not_put (htrace s') \<or>
    (\<exists>up vf e post. htrace s' = up @ vf @ EvPut (backup_key r (cmt_BackupUID c) @ ''commit.json'') (render (enc_Commit c)) Create e # post \<and>
       \<not> used \<and> Commit_validate c (rp_id r) = Inr () \<and> list_all not_put (up @ vf) \<and> upload_events r c manifest files \<subseteq> set up \<and>
       verify_events r c \<subseteq> set vf \<and> list_all is_read post)"
proof -
  let ?chk = "andthen get_hold (\<lambda>h. on_world (Hold_check (traced S) r h))"
  obtain cr s1 where c1: "?chk ((w, []), h) = (cr, s1)" by (metis prod.exhaust)
  have "ht.emits not_put ?chk" by (auto intro!: emits_intros wt_not_put[OF reads_Hold_check])
  from ht.emitsD[OF this c1] have t1: "list_all not_put (htrace s1)" by auto
  show ?thesis
  proof (cases "cr = Inr () \<and> \<not> used")
    case False
    then have "s' = s1" using run c1 by (cases cr) (auto simp: publish_def split: if_splits)
    then show ?thesis using t1 by simp
  next
    case True
    then have r2: "andthen (publish_payload (traced S) r a c manifest files chk) (\<lambda>_. commit_and_read (traced S) r c) s1 = (res, s')"
      using run c1 by (auto simp: publish_def split: prod.splits)
    note pay = emits_publish_payload[OF chk]
    from andthen_split[OF r2] show ?thesis
    proof (elim disjE exE conjE)
      fix e assume "publish_payload (traced S) r a c manifest files chk s1 = (Inl e, s')"
      from ht.emitsD[OF pay this] show ?thesis using t1 by auto
    next
      fix u s2 assume p: "publish_payload (traced S) r a c manifest files chk s1 = (Inr u, s2)"
        and cm: "commit_and_read (traced S) r c s2 = (res, s')"
      from ht.emitsD[OF pay p] have t2: "list_all not_put (htrace s2)" using t1 by auto
      from publish_payload_log[OF chk p[unfolded unit_eq[of u]]]
      obtain up vf where u: "htrace s2 = up @ vf" "upload_events r c manifest files \<subseteq> set up"
        "verify_events r c \<subseteq> set vf" and v: "Commit_validate c (rp_id r) = Inr ()" by auto
      from commit_and_read_log[OF cm] obtain pe post where post: "htrace s' = htrace s2 @ pe @ post" "list_all is_read post"
        "pe = [] \<or> (\<exists>e. pe = [EvPut (backup_key r (cmt_BackupUID c) @ ''commit.json'') (render (enc_Commit c)) Create e])" by blast
      show ?thesis
      proof (cases "pe = []")
        case True
        then show ?thesis using post t2 by (auto simp: list_all_iff is_read_not_put)
      next
        case False
        then obtain e where pe: "pe = [EvPut (backup_key r (cmt_BackupUID c) @ ''commit.json'') (render (enc_Commit c)) Create e]"
          using post(3) by auto
        have "htrace s' = up @ vf @ EvPut (backup_key r (cmt_BackupUID c) @ ''commit.json'') (render (enc_Commit c)) Create e # post"
          by (simp add: post(1) u(1) pe)
        moreover have "\<not> used" using \<open>cr = Inr () \<and> \<not> used\<close> by simp
        moreover have "list_all not_put (up @ vf)" using t2 u(1) by simp
        ultimately show ?thesis using u(2,3) v post(2) by blast
      qed
    qed
  qed
qed

section \<open>The latch\<close>

text \<open>A mutation whose outcome is unknown.\<close>

fun unknown_outcome :: "event \<Rightarrow> bool" where
  "unknown_outcome (EvPut _ _ _ (Some e)) = ambiguous e"
| "unknown_outcome (EvUpload _ _ _ (Some e)) = ambiguous e"
| "unknown_outcome _ = False"

definition latched :: "('w \<times> event list) \<times> hold \<Rightarrow> bool" where
  "latched s \<longleftrightarrow> ((\<exists>ev \<in> set (htrace s). unknown_outcome ev) \<longrightarrow> hd_uncertain (snd s))"

definition keeps_latch :: "(('w \<times> event list) \<times> hold, 'a) act \<Rightarrow> bool" where
  "keeps_latch m \<longleftrightarrow> (\<forall>s r s'. m s = (r, s') \<longrightarrow> latched s \<longrightarrow> latched s' \<and> (hd_uncertain (snd s) \<longrightarrow> hd_uncertain (snd s')))"

lemma keeps_latchD: "keeps_latch m \<Longrightarrow> m s = (r, s') \<Longrightarrow> latched s \<Longrightarrow> latched s'"
  unfolding keeps_latch_def by blast

lemma keeps_attempt: "keeps_latch m \<Longrightarrow> (\<And>r. keeps_latch (k r)) \<Longrightarrow> keeps_latch (attempt m k)"
  unfolding keeps_latch_def attempt_def by (auto split: prod.splits)

lemma keeps_pure: "keeps_latch (ret x)" "keeps_latch (fail e)" "keeps_latch (lift r)" "keeps_latch (check b e)" "keeps_latch get_hold"
  by (auto simp: keeps_latch_def ret_def fail_def lift_def check_def get_hold_def)

lemma keeps_andthen: "keeps_latch m \<Longrightarrow> (\<And>x. keeps_latch (k x)) \<Longrightarrow> keeps_latch (andthen m k)"
  unfolding andthen_def by (rule keeps_attempt) (auto intro: keeps_pure split: sum.split)

lemma keeps_each: "(\<And>x. x \<in> set xs \<Longrightarrow> keeps_latch (f x)) \<Longrightarrow> keeps_latch (each f xs)"
  by (induction xs) (auto intro: keeps_pure keeps_andthen)

lemma keeps_reads:
  assumes "wt.emits is_read m"
  shows "keeps_latch (on_world m)"
proof -
  have "\<not> unknown_outcome ev" if "is_read ev" for ev using that by (cases ev) auto
  then show ?thesis
    using assms unfolding keeps_latch_def latched_def on_world_def
    by (auto dest!: wt.emitsD[OF assms] simp: list_all_iff split: prod.splits)
qed

text \<open>A mutation followed by the latch on its error.\<close>

lemma keeps_mutation:
  assumes "\<And>w tr res w' tr'. m (w, tr) = (res, (w', tr')) \<Longrightarrow>
      \<exists>ev. tr' = tr @ ev \<and> (\<forall>x \<in> set ev. unknown_outcome x \<longrightarrow> (\<exists>e. res = Inl e \<and> ambiguous e))"
    and "\<And>x. keeps_latch (k x)" "\<And>e. keeps_latch (j e)"
  shows "keeps_latch (attempt (on_world m) (\<lambda>res. case res of Inr x \<Rightarrow> k x | Inl e \<Rightarrow> andthen (latch e) (\<lambda>_. j e)))"
  unfolding keeps_latch_def
proof (intro allI impI)
  fix s r s'
  assume run: "attempt (on_world m) (\<lambda>res. case res of Inr x \<Rightarrow> k x | Inl e \<Rightarrow> andthen (latch e) (\<lambda>_. j e)) s = (r, s')"
    and l: "latched s"
  obtain w tr h where s: "s = ((w, tr), h)" by (cases s; cases "fst s") auto
  obtain res w1 tr1 where m: "m (w, tr) = (res, (w1, tr1))" by (metis prod.exhaust)
  then obtain ev where ev: "tr1 = tr @ ev" "\<forall>x \<in> set ev. unknown_outcome x \<longrightarrow> (\<exists>e. res = Inl e \<and> ambiguous e)"
    using assms(1) by blast
  note run' = run[unfolded s attempt_on_world[of m "(w, tr)" res "(w1, tr1)", OF m]]
  show "latched s' \<and> (hd_uncertain (snd s) \<longrightarrow> hd_uncertain (snd s'))"
  proof (cases res)
    case (Inr x)
    then have "latched ((w1, tr1), h)" using l ev by (auto simp: latched_def s)
    moreover have "k x ((w1, tr1), h) = (r, s')" using run' Inr by simp
    ultimately show ?thesis using assms(2)[of x] unfolding keeps_latch_def by (fastforce simp: s)
  next
    case (Inl e)
    let ?h = "if ambiguous e then h\<lparr>hd_uncertain := True\<rparr> else h"
    have "latched ((w1, tr1), ?h)" using l ev Inl by (auto simp: latched_def s)
    moreover have "j e ((w1, tr1), ?h) = (r, s')"
      using run' Inl by (auto simp: andthen_def attempt_def latch_def split: if_splits)
    ultimately have "latched s' \<and> (hd_uncertain ?h \<longrightarrow> hd_uncertain (snd s'))"
      using assms(3)[of e] unfolding keeps_latch_def by fastforce
    then show ?thesis by (auto simp: s split: if_splits)
  qed
qed

lemma put_unknown:
  assumes "put (traced S) k b c m (w, tr) = (res, (w', tr'))"
  shows "\<exists>ev. tr' = tr @ ev \<and> (\<forall>x \<in> set ev. unknown_outcome x \<longrightarrow> (\<exists>e. res = Inl e \<and> ambiguous e))"
  using put_log[OF assms] by (cases res) (auto simp: err_of_def)

lemma upload_unknown:
  assumes "st_UploadFile (traced S) k f i (w, tr) = (res, (w', tr'))"
  shows "\<exists>ev. tr' = tr @ ev \<and> (\<forall>x \<in> set ev. unknown_outcome x \<longrightarrow> (\<exists>e. res = Inl e \<and> ambiguous e))"
  using assms by (auto simp: traced_def logged_def err_of_def split: prod.splits sum.splits)

lemma keeps_upload_one: "keeps_latch (upload_one (traced S) key f sz hash)"
  unfolding upload_one_def by (rule keeps_mutation, erule upload_unknown, rule keeps_pure, rule keeps_pure)

lemma keeps_commit_and_read: "keeps_latch (commit_and_read (traced S) r c)"
proof -
  let ?put = "put (traced S) (backup_key r (cmt_BackupUID c) @ ''commit.json'') (render (enc_Commit c)) Create []"
  let ?rest = "\<lambda>res :: err + info. attempt (on_world (readCommit (traced S) r (cmt_BackupUID c))) (\<lambda>rd. case rd of
       Inl re \<Rightarrow> (case res of Inl e \<Rightarrow> fail e | Inr _ \<Rightarrow> fail re)
     | Inr (winner, wb, wi) \<Rightarrow>
         if cmt_RequestSHA256 winner \<noteq> cmt_RequestSHA256 c then fail ErrIdentity
         else andthen (on_world (verifyWinner (traced S) r winner wb)) (\<lambda>_.
           ret \<lparr>res_Commit = winner, res_Bytes = wb, res_PublishedAt = inf_Modified wi\<rparr>))"
  have rest: "keeps_latch (?rest res)" for res
    by (auto intro!: keeps_attempt keeps_andthen keeps_reads emits_intros keeps_pure split: sum.splits prod.splits)
  have eq: "andthen (case res of Inr _ \<Rightarrow> ret () | Inl e \<Rightarrow> latch e) (\<lambda>_. ?rest res) =
      (case res of Inr x \<Rightarrow> ?rest (Inr x) | Inl e \<Rightarrow> andthen (latch e) (\<lambda>_. ?rest (Inl e)))" for res
    by (cases res) (auto simp: andthen_def attempt_def ret_def fun_eq_iff)
  have whole: "commit_and_read (traced S) r c = attempt (on_world ?put)
      (\<lambda>res. case res of Inr x \<Rightarrow> ?rest (Inr x) | Inl e \<Rightarrow> andthen (latch e) (\<lambda>_. ?rest (Inl e)))"
    unfolding commit_and_read_def by (rule arg_cong[of _ _ "attempt (on_world ?put)"], rule ext, rule eq)
  show ?thesis unfolding whole by (rule keeps_mutation, erule put_unknown, rule rest, rule rest)
qed

lemma keeps_publish_payload:
  assumes "\<And>m. chk = Some m \<Longrightarrow> wt.emits is_read m"
  shows "keeps_latch (publish_payload (traced S) r a c manifest files chk)"
proof -
  have "keeps_latch (case chk of None \<Rightarrow> ret () | Some m \<Rightarrow> on_world m)"
    using assms by (auto intro: keeps_pure keeps_reads split: option.splits)
  then show ?thesis
    unfolding publish_payload_def upload_files_def verify_files_def
    by (auto intro!: keeps_andthen keeps_pure keeps_reads keeps_each keeps_upload_one emits_intros split: prod.splits)
qed

lemma publish_keeps_latch:
  assumes "\<And>m. chk = Some m \<Longrightarrow> wt.emits is_read m"
    and run: "publish (traced S) r a used c manifest files chk ((w, []), h) = ((res, used'), s')"
  shows "latched s'"
proof -
  let ?chk = "andthen get_hold (\<lambda>h. on_world (Hold_check (traced S) r h))"
  obtain cr s1 where c1: "?chk ((w, []), h) = (cr, s1)" by (metis prod.exhaust)
  have "keeps_latch ?chk" by (auto intro!: keeps_andthen keeps_pure keeps_reads emits_intros)
  moreover have "latched ((w, []), h)" by (simp add: latched_def)
  ultimately have l1: "latched s1" using c1 keeps_latchD by blast
  have k: "keeps_latch (andthen (publish_payload (traced S) r a c manifest files chk) (\<lambda>_. commit_and_read (traced S) r c))"
    by (intro keeps_andthen keeps_publish_payload keeps_commit_and_read assms(1))
  show ?thesis
    using run c1 l1 keeps_latchD[OF k _ l1] by (cases cr) (auto simp: publish_def split: if_splits prod.splits)
qed

end
