(* ===== verification/Gate_Protocol.thy ===== *)
theory Gate_Protocol
  imports Gate
begin

text \<open>
  The gate under concurrency: any number of processes run \<open>changeGate\<close> against one gate object,
  and a conditional PUT can be delayed, duplicated in its effect on the client (an ambiguous
  answer) or lost. The processes' decisions are \<open>gate_decide\<close> and \<open>gate_write\<close> of the model of
  \<open>changeGate\<close>; the store compares the gate a writer read with the current one, which is what a
  content ETag does, and is sound here because every write raises the generation.
\<close>

section \<open>The system\<close>

datatype outcome =
    Acked
  | Refused err
  | Lost

datatype phase =
    Reading bool
  | Waiting bool gate gate
  | Finished outcome

text \<open>A request in flight: its client, whether it is a barrier, the gate it expects, the gate it writes.\<close>

type_synonym request_id = "nat \<times> bool \<times> gate \<times> gate"

record gate_system =
  gs_gate :: gate
  gs_pending :: "request_id set"
  gs_applied :: "request_id set"
  gs_rejected :: "request_id set"
  gs_client :: "nat \<Rightarrow> (gate_op \<times> phase) option"

definition initial_system :: "gate \<Rightarrow> gate_system" where
  "initial_system g = \<lparr>gs_gate = g, gs_pending = {}, gs_applied = {}, gs_rejected = {}, gs_client = (\<lambda>_. None)\<rparr>"

abbreviation set_phase :: "nat \<Rightarrow> gate_op \<Rightarrow> phase \<Rightarrow> gate_system \<Rightarrow> gate_system" where
  "set_phase i op ph s \<equiv> s\<lparr>gs_client := (gs_client s)(i \<mapsto> (op, ph))\<rparr>"

text \<open>\<open>UUID()\<close> never repeats a nonce.\<close>

definition fresh_nonce :: "gate_system \<Rightarrow> string \<Rightarrow> bool" where
  "fresh_nonce s nonce \<longleftrightarrow>
     (\<forall>(i, b, g, g2) \<in> gs_pending s \<union> gs_applied s \<union> gs_rejected s. gat_Nonce g2 \<noteq> nonce)"

text \<open>
  One step. \<open>decide\<close> reads the current gate and decides; \<open>refuse\<close> is an error of the change itself
  in a round that is not a barrier; \<open>lose\<close> is every other way a call ends without an answer
  (a failed read, too many rounds, a crash); the last rules are the store and the answers.
\<close>

inductive gate_step :: "identity \<Rightarrow> gate_system \<Rightarrow> gate_system \<Rightarrow> bool" for idn where
  start: "gs_client s i = None \<Longrightarrow> gate_step idn s (set_phase i op (Reading False) s)"
| decide_done: "gs_client s i = Some (op, Reading b) \<Longrightarrow> gate_decide (change_of op) b (gs_gate s) = Inr None \<Longrightarrow>
    gate_step idn s (set_phase i op (Finished Acked) s)"
| refuse: "gs_client s i = Some (op, Reading False) \<Longrightarrow> change_of op (gs_gate s) = Inl e \<Longrightarrow>
    gate_step idn s (set_phase i op (Finished (Refused e)) s)"
| decide_put: "gs_client s i = Some (op, Reading b) \<Longrightarrow> gate_decide (change_of op) b (gs_gate s) = Inr (Some g1) \<Longrightarrow>
    gate_write idn nonce g1 = Inr g2 \<Longrightarrow> fresh_nonce s nonce \<Longrightarrow>
    gate_step idn s ((set_phase i op (Waiting b (gs_gate s) g2) s)
      \<lparr>gs_pending := insert (i, b, gs_gate s, g2) (gs_pending s)\<rparr>)"
| lose: "gs_client s i = Some (op, ph) \<Longrightarrow> (\<forall>oc. ph \<noteq> Finished oc) \<Longrightarrow> gate_step idn s (set_phase i op (Finished Lost) s)"
| apply_put: "(i, b, gs_gate s, g2) \<in> gs_pending s \<Longrightarrow>
    gate_step idn s (s\<lparr>gs_gate := g2, gs_pending := gs_pending s - {(i, b, gs_gate s, g2)},
      gs_applied := insert (i, b, gs_gate s, g2) (gs_applied s)\<rparr>)"
| reject_put: "q \<in> gs_pending s \<Longrightarrow>
    gate_step idn s (s\<lparr>gs_pending := gs_pending s - {q}, gs_rejected := insert q (gs_rejected s)\<rparr>)"
| answer_ok: "gs_client s i = Some (op, Waiting b g g2) \<Longrightarrow> (i, b, g, g2) \<in> gs_applied s \<Longrightarrow>
    gate_step idn s (set_phase i op (if b then Reading False else Finished Acked) s)"
| answer_failed: "gs_client s i = Some (op, Waiting b g g2) \<Longrightarrow> (i, b, g, g2) \<in> gs_rejected s \<Longrightarrow>
    gate_step idn s (set_phase i op (Reading b) s)"
| answer_ambiguous: "gs_client s i = Some (op, Waiting b g g2) \<Longrightarrow>
    gate_step idn s (set_phase i op (Reading True) s)"

inductive reachable_gate :: "identity \<Rightarrow> gate_system \<Rightarrow> bool" for idn where
  reach_init: "gate_ok idn g \<Longrightarrow> reachable_gate idn (initial_system g)"
| reach_step: "reachable_gate idn s \<Longrightarrow> gate_step idn s s' \<Longrightarrow> reachable_gate idn s'"

section \<open>Invariants\<close>

definition started :: "gate_system \<Rightarrow> gate_op \<Rightarrow> bool" where
  "started s op \<longleftrightarrow> (\<exists>i ph. gs_client s i = Some (op, ph))"

text \<open>Every request in flight follows from its client's operation on the gate it expects.\<close>

definition request_ok :: "identity \<Rightarrow> gate_system \<Rightarrow> request_id \<Rightarrow> bool" where
  "request_ok idn s q \<longleftrightarrow> (case q of (i, b, g, g2) \<Rightarrow>
     \<exists>op ph. gs_client s i = Some (op, ph) \<and> gate_ok idn g2 \<and> follows op g g2 \<and> gen g2 = gen g + 1 \<and> gen g \<le> gen (gs_gate s) \<and>
       (\<not> b \<longrightarrow> (\<forall>h. op = OpAdd h \<longrightarrow> h \<in> set (gat_Holders g2)) \<and> (\<forall>o'. op = OpAcquire o' \<longrightarrow> gat_Owner g2 = Some o')))"

text \<open>What an applied request or a decision established lasts until its undoing is started.\<close>

definition holds_on :: "gate_system \<Rightarrow> gate_op \<Rightarrow> bool" where
  "holds_on s op \<longleftrightarrow>
     (\<forall>h. op = OpAdd h \<longrightarrow> \<not> started s (OpRemove h) \<longrightarrow> h \<in> set (gat_Holders (gs_gate s))) \<and>
     (\<forall>o'. op = OpAcquire o' \<longrightarrow> \<not> started s (OpRelease o') \<longrightarrow> gat_Owner (gs_gate s) = Some o')"

definition acked_ok :: "gate_system \<Rightarrow> bool" where
  "acked_ok s \<longleftrightarrow>
     (\<forall>i op. gs_client s i = Some (op, Finished Acked) \<longrightarrow> holds_on s op) \<and>
     (\<forall>i g g2. (i, False, g, g2) \<in> gs_applied s \<longrightarrow> (\<forall>op ph. gs_client s i = Some (op, ph) \<longrightarrow> holds_on s op))"

definition gate_inv :: "identity \<Rightarrow> gate_system \<Rightarrow> bool" where
  "gate_inv idn s \<longleftrightarrow> gate_ok idn (gs_gate s) \<and>
     (\<forall>q \<in> gs_pending s \<union> gs_applied s \<union> gs_rejected s. request_ok idn s q) \<and> acked_ok s"

lemma step_client:
  assumes "gate_step idn s s'" "gs_client s i = Some (op, ph)"
  shows "\<exists>ph'. gs_client s' i = Some (op, ph')"
  using assms by (cases rule: gate_step.cases) auto

lemma step_started: "gate_step idn s s' \<Longrightarrow> started s op \<Longrightarrow> started s' op"
  unfolding started_def using step_client by blast

text \<open>The gate changes only by a request whose expected gate is the current one.\<close>

lemma step_gate:
  assumes "gate_step idn s s'"
  shows "gs_gate s' = gs_gate s \<or> (\<exists>i b. (i, b, gs_gate s, gs_gate s') \<in> gs_pending s)"
  using assms by (cases rule: gate_step.cases) auto

lemma step_follows:
  assumes "gate_inv idn s" "gate_step idn s s'"
  shows "gate_ok idn (gs_gate s')" "gen (gs_gate s) \<le> gen (gs_gate s')"
    "gs_gate s' = gs_gate s \<or> (\<exists>op. started s op \<and> follows op (gs_gate s) (gs_gate s'))"
proof -
  consider "gs_gate s' = gs_gate s" | i b where "(i, b, gs_gate s, gs_gate s') \<in> gs_pending s"
    using step_gate[OF assms(2)] by blast
  then have "gate_ok idn (gs_gate s') \<and> gen (gs_gate s) \<le> gen (gs_gate s') \<and>
      (gs_gate s' = gs_gate s \<or> (\<exists>op. started s op \<and> follows op (gs_gate s) (gs_gate s')))"
  proof cases
    case 1
    then show ?thesis using assms(1) by (simp add: gate_inv_def)
  next
    case 2
    then have "request_ok idn s (i, b, gs_gate s, gs_gate s')" using assms(1) by (auto simp: gate_inv_def)
    then obtain op ph where "gs_client s i = Some (op, ph)" "gate_ok idn (gs_gate s')"
      "follows op (gs_gate s) (gs_gate s')" "gen (gs_gate s') = gen (gs_gate s) + 1" by (auto simp: request_ok_def)
    then show ?thesis unfolding started_def by fastforce
  qed
  then show "gate_ok idn (gs_gate s')" "gen (gs_gate s) \<le> gen (gs_gate s')"
    "gs_gate s' = gs_gate s \<or> (\<exists>op. started s op \<and> follows op (gs_gate s) (gs_gate s'))" by auto
qed

lemma holds_on_step:
  assumes "gate_inv idn s" "gate_step idn s s'" "holds_on s op"
  shows "holds_on s' op"
  using step_follows(3)[OF assms(1,2)] step_started[OF assms(2)] assms(3)
  by (auto simp: holds_on_def follows_def)

lemma request_ok_step:
  assumes "gate_inv idn s" "gate_step idn s s'" "request_ok idn s q"
  shows "request_ok idn s' q"
proof -
  obtain i b g g2 where q: "q = (i, b, g, g2)" by (cases q)
  from assms(3) obtain op ph where c: "gs_client s i = Some (op, ph)" and rest: "gate_ok idn g2" "follows op g g2"
    "gen g2 = gen g + 1" "gen g \<le> gen (gs_gate s)"
    "\<not> b \<longrightarrow> (\<forall>h. op = OpAdd h \<longrightarrow> h \<in> set (gat_Holders g2)) \<and> (\<forall>o'. op = OpAcquire o' \<longrightarrow> gat_Owner g2 = Some o')"
    by (auto simp: request_ok_def q)
  obtain ph' where "gs_client s' i = Some (op, ph')" using step_client[OF assms(2) c] by blast
  moreover have "gen g \<le> gen (gs_gate s')" using step_follows(2)[OF assms(1,2)] rest(4) by simp
  ultimately show ?thesis using rest by (auto simp: request_ok_def q)
qed

text \<open>The requests of the next state: those of this one, and the one a client issues.\<close>

lemma step_requests:
  assumes "gate_step idn s s'"
    and "q \<in> gs_pending s' \<union> gs_applied s' \<union> gs_rejected s'"
  shows "q \<in> gs_pending s \<union> gs_applied s \<union> gs_rejected s \<or>
    (\<exists>i op b g1 g2 nonce. q = (i, b, gs_gate s, g2) \<and> gs_client s i = Some (op, Reading b) \<and> gs_gate s' = gs_gate s \<and>
      gate_decide (change_of op) b (gs_gate s) = Inr (Some g1) \<and> gate_write idn nonce g1 = Inr g2)"
  using assms by (cases rule: gate_step.cases) auto

lemma requests_step:
  assumes "gate_inv idn s" "gate_step idn s s'" "q \<in> gs_pending s' \<union> gs_applied s' \<union> gs_rejected s'"
  shows "request_ok idn s' q"
  using step_requests[OF assms(2,3)]
proof
  assume "q \<in> gs_pending s \<union> gs_applied s \<union> gs_rejected s"
  then show ?thesis using assms(1,2) request_ok_step by (auto simp: gate_inv_def)
next
  assume "\<exists>i op b g1 g2 nonce. q = (i, b, gs_gate s, g2) \<and> gs_client s i = Some (op, Reading b) \<and> gs_gate s' = gs_gate s \<and>
      gate_decide (change_of op) b (gs_gate s) = Inr (Some g1) \<and> gate_write idn nonce g1 = Inr g2"
  then obtain i op b g1 g2 nonce where q: "q = (i, b, gs_gate s, g2)" "gs_client s i = Some (op, Reading b)"
    "gs_gate s' = gs_gate s" "gate_decide (change_of op) b (gs_gate s) = Inr (Some g1)" "gate_write idn nonce g1 = Inr g2"
    by blast
  have ok: "gate_ok idn (gs_gate s)" using assms(1) by (simp add: gate_inv_def)
  note e = round_effect[OF ok q(4,5)]
  obtain ph' where "gs_client s' i = Some (op, ph')" using step_client[OF assms(2) q(2)] by blast
  then show ?thesis using e q(1,3) by (auto simp: request_ok_def)
qed

lemma decide_done_holds:
  assumes "gate_decide (change_of op) b (gs_gate s) = Inr None"
  shows "holds_on s op"
proof -
  obtain g' where "change_of op (gs_gate s) = Inr (True, g')"
    using assms by (auto simp: gate_decide_def split: if_splits)
  then show ?thesis using change_of_done[of op "gs_gate s" g'] by (auto simp: holds_on_def)
qed

lemma step_acked:
  assumes "gate_step idn s s'" "gs_client s' i = Some (op, Finished Acked)"
  shows "gs_client s i = Some (op, Finished Acked) \<or> (\<exists>b. gate_decide (change_of op) b (gs_gate s) = Inr None) \<or>
    (\<exists>g g2 ph. (i, False, g, g2) \<in> gs_applied s \<and> gs_client s i = Some (op, ph))"
  using assms by (cases rule: gate_step.cases) (auto split: if_splits)

lemma step_applied:
  assumes "gate_step idn s s'" "(i, b, g, g2) \<in> gs_applied s'"
  shows "(i, b, g, g2) \<in> gs_applied s \<or>
    ((i, b, g, g2) \<in> gs_pending s \<and> gs_gate s' = g2 \<and> gs_client s' = gs_client s)"
  using assms by (cases rule: gate_step.cases) auto

lemma acked_step:
  assumes "gate_inv idn s" "gate_step idn s s'"
  shows "acked_ok s'"
proof -
  have keep: "holds_on s' op" if "holds_on s op" for op by (rule holds_on_step[OF assms that])
  have req: "\<exists>op ph. gs_client s i = Some (op, ph)"
    if "(i, b, g, g2) \<in> gs_applied s \<union> gs_pending s" for i b g g2
  proof -
    have "request_ok idn s (i, b, g, g2)" using assms(1) that unfolding gate_inv_def by blast
    then show ?thesis unfolding request_ok_def by blast
  qed
  have same: "op = op'" if "gs_client s i = Some (op, ph)" "gs_client s' i = Some (op', ph')" for i op ph op' ph'
    using step_client[OF assms(2) that(1)] that(2) by auto
  have fin: "holds_on s op" if "gs_client s i = Some (op, Finished Acked)" for i op
    using assms(1) that by (auto simp: gate_inv_def acked_ok_def)
  have app: "holds_on s op" if "(i, False, g, g2) \<in> gs_applied s" "gs_client s i = Some (op, ph)" for i g g2 op ph
    using assms(1) that unfolding gate_inv_def acked_ok_def by blast
  have new: "holds_on s' op"
    if "(i, False, g, g2) \<in> gs_pending s" "gs_gate s' = g2" "gs_client s' i = Some (op, ph)" for i g g2 op ph
  proof -
    have "request_ok idn s (i, False, g, g2)" using assms(1) that(1) unfolding gate_inv_def by blast
    from request_ok_step[OF assms this] that(2,3) show ?thesis by (auto simp: request_ok_def holds_on_def)
  qed
  show ?thesis unfolding acked_ok_def
  proof (intro conjI allI impI)
    fix i op assume "gs_client s' i = Some (op, Finished Acked)"
    from step_acked[OF assms(2) this] show "holds_on s' op" using fin app decide_done_holds keep by blast
  next
    fix i g g2 op ph assume a: "(i, False, g, g2) \<in> gs_applied s'" "gs_client s' i = Some (op, ph)"
    from step_applied[OF assms(2) a(1)] show "holds_on s' op"
      using app keep new a(2) req same by (metis UnI1)
  qed
qed

lemma gate_inv_step: "gate_inv idn s \<Longrightarrow> gate_step idn s s' \<Longrightarrow> gate_inv idn s'"
  using step_follows(1) requests_step acked_step by (auto simp: gate_inv_def[of idn s'])

lemma reachable_inv: "reachable_gate idn s \<Longrightarrow> gate_inv idn s"
proof (induction rule: reachable_gate.induct)
  case (reach_init g)
  then show ?case by (simp add: gate_inv_def initial_system_def acked_ok_def)
next
  case (reach_step s s')
  then show ?case by (blast intro: gate_inv_step)
qed

section \<open>Fencing of delayed requests\<close>

text \<open>
  A request is dead when the gate has moved past the generation it expects: it can never be
  applied. A client reads without a barrier, or has ended by a decision of its own, only when
  all its earlier requests are dead; while it waits, only the request it waits for is alive,
  and while it has a barrier to place, nothing is known.
\<close>

definition dead :: "gate_system \<Rightarrow> request_id \<Rightarrow> bool" where
  "dead s q \<longleftrightarrow> (case q of (i, b, g, g2) \<Rightarrow> gen g < gen (gs_gate s))"

definition old_requests :: "gate_system \<Rightarrow> nat \<Rightarrow> request_id set" where
  "old_requests s i = {q \<in> gs_pending s. fst q = i}"

definition client_fenced :: "gate_system \<Rightarrow> nat \<Rightarrow> phase \<Rightarrow> bool" where
  "client_fenced s i ph \<longleftrightarrow>
     ((ph = Reading False \<or> (\<exists>e. ph = Finished (Refused e))) \<longrightarrow> (\<forall>q \<in> old_requests s i. dead s q)) \<and>
     (\<forall>g g2. ph = Waiting False g g2 \<longrightarrow> (\<forall>q \<in> old_requests s i. q = (i, False, g, g2) \<or> dead s q)) \<and>
     (\<forall>g g2. ph = Waiting True g g2 \<longrightarrow> (\<forall>q \<in> old_requests s i. gen (fst (snd (snd q))) \<le> gen g))"

definition fence_inv :: "gate_system \<Rightarrow> bool" where
  "fence_inv s \<longleftrightarrow> gs_pending s \<inter> (gs_applied s \<union> gs_rejected s) = {} \<and> (\<forall>q \<in> gs_applied s. dead s q) \<and>
     (\<forall>i op ph. gs_client s i = Some (op, ph) \<longrightarrow> client_fenced s i ph)"

lemma dead_step: "gate_inv idn s \<Longrightarrow> gate_step idn s s' \<Longrightarrow> dead s q \<Longrightarrow> dead s' q"
  using step_follows(2) by (fastforce simp: dead_def)

lemma dead_not_applied: "dead s (i, b, g, g2) \<Longrightarrow> g \<noteq> gs_gate s"
  by (auto simp: dead_def)

text \<open>A client that does not act keeps its fence.\<close>

lemma client_fenced_mono:
  assumes "client_fenced s i ph" "old_requests s' i \<subseteq> old_requests s i" "\<And>q. dead s q \<Longrightarrow> dead s' q"
  shows "client_fenced s' i ph"
  using assms unfolding client_fenced_def by blast

lemma step_other:
  assumes "gate_step idn s s'" "gs_client s' i = gs_client s i" "gs_client s i = Some (op, ph)"
  shows "old_requests s' i \<subseteq> old_requests s i"
  using assms by (cases rule: gate_step.cases) (auto simp: old_requests_def split: if_splits)

lemma pending_client:
  assumes "gate_inv idn s" "q \<in> old_requests s i"
  shows "\<exists>op ph. gs_client s i = Some (op, ph)" "gen (fst (snd (snd q))) \<le> gen (gs_gate s)"
proof -
  have "request_ok idn s q" "fst q = i" using assms by (auto simp: gate_inv_def old_requests_def)
  then show "\<exists>op ph. gs_client s i = Some (op, ph)" "gen (fst (snd (snd q))) \<le> gen (gs_gate s)"
    by (cases q; auto simp: request_ok_def)+
qed

text \<open>The client that acts: what it enters, by the kind of the step.\<close>

lemma step_acting:
  assumes "gate_inv idn s" "fence_inv s" "gate_step idn s s'" "gs_client s' i \<noteq> gs_client s i"
    and "gs_client s' i = Some (op, ph)"
  shows "client_fenced s' i ph"
  using assms(3)
proof (cases rule: gate_step.cases)
  case (start j op')
  then have "old_requests s' i = {}" using assms(1,4) pending_client(1)[OF assms(1), of _ i]
    by (auto simp: old_requests_def split: if_splits)
  then show ?thesis by (simp add: client_fenced_def)
next
  case (refuse j op' e)
  with assms(4) have i: "i = j" by (auto split: if_splits)
  have "client_fenced s i (Reading False)" using assms(2) refuse(2) i by (simp add: fence_inv_def)
  then show ?thesis using refuse assms(5) i by (auto simp: client_fenced_def old_requests_def dead_def)
next
  case (decide_put j op' b g1 nonce g2)
  with assms(4) have i: "i = j" by (auto split: if_splits)
  have r: "client_fenced s i (Reading b)" using assms(2) decide_put(2) i by (simp add: fence_inv_def)
  have "old_requests s' i = insert (i, b, gs_gate s, g2) (old_requests s i)" "gs_gate s' = gs_gate s"
    "ph = Waiting b (gs_gate s) g2" using decide_put assms(5) i by (auto simp: old_requests_def)
  then show ?thesis using r pending_client(2)[OF assms(1), of _ i] by (cases b) (auto simp: client_fenced_def dead_def)
next
  case (answer_ok j op' b g g2)
  with assms(4) have i: "i = j" by (auto split: if_splits)
  have r: "client_fenced s i (Waiting b g g2)" "dead s (j, b, g, g2)" using assms(2) answer_ok i by (auto simp: fence_inv_def)
  have "old_requests s' i = old_requests s i" "gs_gate s' = gs_gate s" "ph = (if b then Reading False else Finished Acked)"
    using answer_ok assms(5) i by (auto simp: old_requests_def)
  then show ?thesis using r by (cases b) (fastforce simp: client_fenced_def dead_def)+
next
  case (answer_failed j op' b g g2)
  with assms(4) have i: "i = j" by (auto split: if_splits)
  have r: "client_fenced s i (Waiting b g g2)" "(i, b, g, g2) \<notin> gs_pending s" using assms(2) answer_failed i
    by (auto simp: fence_inv_def)
  have "old_requests s' i = old_requests s i" "gs_gate s' = gs_gate s" "ph = Reading b"
    using answer_failed assms(5) i by (auto simp: old_requests_def)
  moreover have "(i, b, g, g2) \<notin> old_requests s i" using r(2) by (simp add: old_requests_def)
  ultimately show ?thesis using r(1) by (cases b) (auto simp: client_fenced_def dead_def)
qed (use assms(4,5) in \<open>auto simp: client_fenced_def split: if_splits\<close>)

lemma step_sets:
  assumes "gate_inv idn s" "fence_inv s" "gate_step idn s s'"
  shows "gs_pending s' \<inter> (gs_applied s' \<union> gs_rejected s') = {}" "\<forall>q \<in> gs_applied s'. dead s' q"
proof -
  have old: "gs_pending s \<inter> (gs_applied s \<union> gs_rejected s) = {}" "\<forall>q \<in> gs_applied s. dead s q"
    using assms(2) by (auto simp: fence_inv_def)
  show "gs_pending s' \<inter> (gs_applied s' \<union> gs_rejected s') = {}"
    using assms(3)
  proof (cases rule: gate_step.cases)
    case (decide_put i op b g1 nonce g2)
    then have "(i, b, gs_gate s, g2) \<notin> gs_applied s \<union> gs_rejected s"
      using gate_write_effect(4)[OF decide_put(4)] by (force simp: fresh_nonce_def)
    then show ?thesis using old decide_put by auto
  qed (use old in auto)
  show "\<forall>q \<in> gs_applied s'. dead s' q"
  proof
    fix q assume q: "q \<in> gs_applied s'"
    obtain i b g g2 where q': "q = (i, b, g, g2)" by (cases q)
    from step_applied[OF assms(3) q[unfolded q']] show "dead s' q"
    proof
      assume "(i, b, g, g2) \<in> gs_applied s"
      then show ?thesis using old(2) dead_step[OF assms(1,3)] q' by blast
    next
      assume a: "(i, b, g, g2) \<in> gs_pending s \<and> gs_gate s' = g2 \<and> gs_client s' = gs_client s"
      then have "request_ok idn s (i, b, g, g2)" using assms(1) by (auto simp: gate_inv_def)
      then show ?thesis using a by (auto simp: q' dead_def request_ok_def)
    qed
  qed
qed

lemma fence_inv_step:
  assumes "gate_inv idn s" "fence_inv s" "gate_step idn s s'"
  shows "fence_inv s'"
  unfolding fence_inv_def
proof (intro conjI allI impI)
  fix i op ph assume c: "gs_client s' i = Some (op, ph)"
  show "client_fenced s' i ph"
  proof (cases "gs_client s' i = gs_client s i")
    case True
    with c have old: "gs_client s i = Some (op, ph)" by simp
    have "client_fenced s i ph" using assms(2) old by (auto simp: fence_inv_def)
    then show ?thesis
      by (rule client_fenced_mono) (use step_other[OF assms(3) True old] dead_step[OF assms(1,3)] in auto)
  next
    case False
    then show ?thesis by (rule step_acting[OF assms _ c])
  qed
qed (use step_sets[OF assms] in auto)

lemma reachable_fence: "reachable_gate idn s \<Longrightarrow> fence_inv s"
proof (induction rule: reachable_gate.induct)
  case (reach_init g)
  then show ?case by (simp add: fence_inv_def initial_system_def)
next
  case (reach_step s s')
  then show ?case using fence_inv_step reachable_inv by blast
qed

text \<open>After a refusal the client is done, and none of its requests is ever applied.\<close>

lemma refused_step:
  assumes "gate_inv idn s" "fence_inv s" "gate_step idn s s'" "gs_client s i = Some (op, Finished (Refused e))"
  shows "gs_client s' i = Some (op, Finished (Refused e))"
    "(i, b, g, g2) \<in> gs_applied s' \<Longrightarrow> (i, b, g, g2) \<in> gs_applied s"
proof -
  show "gs_client s' i = Some (op, Finished (Refused e))"
    using assms(3,4) by (cases rule: gate_step.cases) (auto split: if_splits)
  assume a: "(i, b, g, g2) \<in> gs_applied s'"
  have dead: "\<forall>q \<in> old_requests s i. dead s q" using assms(2,4) by (auto simp: fence_inv_def client_fenced_def)
  show "(i, b, g, g2) \<in> gs_applied s"
    using assms(3) a dead dead_not_applied by (cases rule: gate_step.cases) (force simp: old_requests_def)+
qed

lemma refused_final:
  assumes "(gate_step idn)\<^sup>*\<^sup>* s s'" "reachable_gate idn s" "gs_client s i = Some (op, Finished (Refused e))"
  shows "reachable_gate idn s' \<and> gs_client s' i = Some (op, Finished (Refused e)) \<and>
    (\<forall>b g g2. (i, b, g, g2) \<in> gs_applied s' \<longrightarrow> (i, b, g, g2) \<in> gs_applied s)"
  using assms
proof (induction rule: rtranclp_induct)
  case (step y z)
  then show ?case
    using refused_step[OF reachable_inv[of idn y] reachable_fence[of idn y] step(2)] reach_step by blast
qed simp

section \<open>An operation nobody interferes with\<close>

definition nonces :: "gate_system \<Rightarrow> string set" where
  "nonces s = (\<lambda>(i, b, g, g2). gat_Nonce g2) ` (gs_pending s \<union> gs_applied s \<union> gs_rejected s)"

lemma fresh_nonces: "fresh_nonce s n \<longleftrightarrow> n \<notin> nonces s"
  unfolding fresh_nonce_def nonces_def by (force simp: image_iff split: prod.splits)

lemma uncontended:
  assumes "reachable_gate idn s" "gs_client s i = None"
    and d: "gate_decide (change_of op) False (gs_gate s) = Inr (Some g1)" and w: "gate_write idn nonce g1 = Inr g2"
    and fresh: "nonce \<notin> nonces s"
  shows "\<exists>s'. reachable_gate idn s' \<and> gs_gate s' = g2 \<and> gs_client s' = (gs_client s)(i \<mapsto> (op, Finished Acked)) \<and>
    nonces s' = insert nonce (nonces s)"
proof -
  let ?q = "(i, False, gs_gate s, g2)"
  let ?s1 = "set_phase i op (Reading False) s"
  let ?s2 = "(set_phase i op (Waiting False (gs_gate s) g2) ?s1)\<lparr>gs_pending := insert ?q (gs_pending s)\<rparr>"
  let ?s3 = "?s2\<lparr>gs_gate := g2, gs_pending := gs_pending ?s2 - {?q}, gs_applied := insert ?q (gs_applied s)\<rparr>"
  let ?s4 = "set_phase i op (Finished Acked) ?s3"
  have s1: "reachable_gate idn ?s1" using assms(1) gate_step.start[OF assms(2), of idn op] by (rule reach_step)
  have fr: "fresh_nonce ?s1 nonce" using fresh by (simp add: fresh_nonces) (simp add: nonces_def)
  have "gate_step idn ?s1 ?s2"
    using gate_step.decide_put[of ?s1 i op False g1 idn nonce g2] d w fr by simp
  with s1 have s2: "reachable_gate idn ?s2" by (rule reach_step)
  have "gate_step idn ?s2 ?s3" using gate_step.apply_put[of i False ?s2 g2 idn] by simp
  with s2 have s3: "reachable_gate idn ?s3" by (rule reach_step)
  have "gate_step idn ?s3 ?s4" using gate_step.answer_ok[of ?s3 i op False "gs_gate s" g2 idn] by simp
  with s3 have s4: "reachable_gate idn ?s4" by (rule reach_step)
  have "?q \<notin> gs_pending s" using fresh gate_write_effect(4)[OF w] by (force simp: nonces_def)
  then have "nonces ?s4 = insert nonce (nonces s)" using gate_write_effect(4)[OF w] by (auto simp: nonces_def)
  with s4 show ?thesis by (intro exI[of _ ?s4]) simp
qed

lemma uncontended_refusal:
  assumes "reachable_gate idn s" "gs_client s i = None" "change_of op (gs_gate s) = Inl e"
  shows "\<exists>s'. reachable_gate idn s' \<and> gs_client s' i = Some (op, Finished (Refused e))"
proof -
  let ?s1 = "set_phase i op (Reading False) s"
  have s1: "reachable_gate idn ?s1" using assms(1) gate_step.start[OF assms(2), of idn op] by (rule reach_step)
  have "gate_step idn ?s1 (set_phase i op (Finished (Refused e)) ?s1)"
    using gate_step.refuse[of ?s1 i op e idn] assms(3) by simp
  with s1 have "reachable_gate idn (set_phase i op (Finished (Refused e)) ?s1)" by (rule reach_step)
  then show ?thesis by (intro exI) auto
qed

end
