(* ===== verification/Schema_Properties.thy ===== *)
theory Schema_Properties
  imports Schema
begin

text \<open>
  The properties of the document layer, with a concrete repository identity and a concrete
  full and differential commit as witnesses.
\<close>

section \<open>A concrete repository\<close>

definition example_hash :: string where
  "example_hash = ''0123456789abcdef0123456789abcdef0123456789abcdef0123456789abcdef''"

definition example_identity :: identity where
  "example_identity = \<lparr>idn_Schema = 1, idn_RepositoryID = ''11111111-2222-4333-8444-555555555555'',
     idn_PostgresMajor = 18, idn_SystemIdentifier = ''7012345678901234567'', idn_WALSegmentBytes = 16777216,
     idn_WriterClusterUID = ''aaaaaaaa-bbbb-4ccc-8ddd-eeeeeeeeeeee'', idn_CreatedAt = ''2026-01-02T03:04:05Z''\<rparr>"

definition example_artifact :: "int \<Rightarrow> string \<Rightarrow> u32 option \<Rightarrow> artifact" where
  "example_artifact i role oid = \<lparr>art_Index = i, art_Role = role, art_TablespaceOID = oid, art_Compression = ''gzip'',
     art_StoredBytes = 100, art_RawBytes = 1000, art_StoredSHA256 = example_hash, art_RawSHA256 = example_hash\<rparr>"

definition example_commit :: commit where
  "example_commit = \<lparr>cmt_Schema = 1, cmt_RepositoryID = ''11111111-2222-4333-8444-555555555555'',
     cmt_BackupUID = ''10000000-0000-4000-8000-000000000001'', cmt_AttemptID = ''20000000-0000-4000-8000-000000000002'',
     cmt_RequestSHA256 = example_hash, cmt_Kind = ''full'', cmt_ParentBackupUID = None,
     cmt_RootBackupUID = ''10000000-0000-4000-8000-000000000001'', cmt_SystemIdentifier = ''7012345678901234567'',
     cmt_PostgresMajor = 18, cmt_ToolVersion = ''18.6'', cmt_Timeline = 1, cmt_ChecksumVersion = 1,
     cmt_CaptureInstanceUID = ''30000000-0000-4000-8000-000000000003'',
     cmt_PostmasterStartedAt = ''2026-01-02T00:00:00Z'', cmt_StartedAt = ''2026-01-03T00:00:00Z'',
     cmt_StoppedAt = ''2026-01-03T00:10:00.5Z'', cmt_StartLSN = ''0/2000028'', cmt_StopLSN = ''0/2000158'',
     cmt_RedoLSN = ''0/2000028'', cmt_BundledWALStartLSN = ''0/2000000'', cmt_BundledWALEndLSN = ''0/2000158'',
     cmt_WALRanges = [\<lparr>wr_Timeline = 1, wr_StartLSN = ''0/2000000'', wr_EndLSN = ''0/2000158''\<rparr>],
     cmt_BackupLabel = ''label'', cmt_TablespaceMap = '''', cmt_RootManifestSHA256 = None, cmt_ManifestBytes = 5000,
     cmt_ManifestSHA256 = example_hash, cmt_Tablespaces = Some [\<lparr>tsp_OID = 16385, tsp_Name = ''fast''\<rparr>],
     cmt_Artifacts = [example_artifact 0 ''base'' None, example_artifact 1 ''tablespace'' (Some 16385),
       example_artifact 2 ''wal'' None]\<rparr>"

lemma example_identity_valid: "Identity_Validate example_identity = Inr ()"
  by code_simp

lemma example_commit_valid: "Commit_validate example_commit example_identity = Inr ()"
  by code_simp

lemma example_commit_small: "int (length (render (enc_Commit example_commit))) \<le> commitLimit"
  by code_simp

section \<open>Properties\<close>

text \<open>C31. Every commit that passes validation against a valid repository identity survives
  storage: the bytes \<open>json.Marshal\<close> writes, if they fit the commit limit, pass the UTF-8 check,
  the surrogate check, the field check and the typed decode of \<open>strict\<close>, and give back exactly
  the same commit.\<close>

theorem Commit_roundtrip:
  assumes "Identity_Validate idn = Inr ()" "Commit_validate c idn = Inr ()"
    and "int (length (render (enc_Commit c))) \<le> commitLimit"
  shows "strict Commit_type dec_Commit (render (enc_Commit c)) commitLimit = Inr c"
  by (rule commit_doc.strict_marshal) (use assms Commit_validate_printable in auto)

theorem Commit_roundtrip_witness:
  "strict Commit_type dec_Commit (render (enc_Commit example_commit)) commitLimit = Inr example_commit"
  by (rule Commit_roundtrip[OF example_identity_valid example_commit_valid example_commit_small])

text \<open>C32. A valid commit lists exactly one base archive, exactly one WAL archive and exactly one
  archive per tablespace: the tablespace OIDs of its archives are a permutation of its
  tablespaces' OIDs, archive \<open>i\<close> has index \<open>i\<close>, and the raw bytes including the manifest stay
  within the backup limit.\<close>

theorem Commit_archives_complete:
  assumes "Commit_validate c idn = Inr ()"
  shows "\<exists>ts. cmt_Tablespaces c = Some ts \<and> length (with_role ''base'' (cmt_Artifacts c)) = 1 \<and>
    length (with_role ''wal'' (cmt_Artifacts c)) = 1 \<and> distinct (map tsp_OID ts) \<and>
    mset (role_oids (cmt_Artifacts c)) = mset (map tsp_OID ts) \<and>
    (\<forall>i < length (cmt_Artifacts c). art_Index (cmt_Artifacts c ! i) = int i) \<and>
    cmt_ManifestBytes c + (\<Sum>a\<leftarrow>cmt_Artifacts c. art_RawBytes a) \<le> MaxBackupBytes"
  using commit_archives[OF Commit_validate_parts(6)[OF assms]] by (auto simp: artifact_ok_def)

theorem Commit_archives_complete_witness:
  "mset (role_oids (cmt_Artifacts example_commit)) = {#16385#}"
  using Commit_archives_complete[OF example_commit_valid] by (auto simp: example_commit_def)

text \<open>Log positions have one spelling: \<open>ParseLSN\<close> reads back what \<open>%X/%X\<close> prints for every
  64-bit position, and accepts no other text for it.\<close>

theorem LSN_bijection: "ParseLSN s = Some n \<longleftrightarrow> s = format_LSN n"
  using ParseLSN_format ParseLSN_canonical by blast

text \<open>Accepted timestamps have one spelling per instant, so comparing the texts of two valid
  documents is comparing the instants.\<close>

theorem stamp_unique:
  assumes "stamp s = (t, True)" "stamp s' = (t', True)"
  shows "t = t' \<longleftrightarrow> s = s'"
  using assms stamp_canonical by (metis prod.inject)

theorem stamp_unique_witness:
  "(stamp ''2026-01-03T00:10:00.5Z'' = (1767399000500000000, True)) \<and>
   (stamp ''2026-01-03T00:00:00Z'' = (1767398400000000000, True)) \<and>
   ((1767399000500000000 :: int) = 1767398400000000000) = (''2026-01-03T00:10:00.5Z'' = ''2026-01-03T00:00:00Z'')"
proof -
  have a: "stamp ''2026-01-03T00:10:00.5Z'' = (1767399000500000000, True)" by code_simp
  have b: "stamp ''2026-01-03T00:00:00Z'' = (1767398400000000000, True)" by code_simp
  show ?thesis using stamp_unique[OF a b] a b by blast
qed

text \<open>The identifiers the repository generates are valid identifiers: for every 16 random
  bytes the UUID of version 4, and for every accepted restore target the operation identifier
  of version 8 derived from SHA-256.\<close>

theorem generated_ids_valid:
  "(byte_list b \<and> length b = 16 \<longrightarrow> validID (UUID b)) \<and>
   (RestoreOperationID target fingerprint = Some op \<longrightarrow> validID op)"
  using validID_UUID validID_RestoreOperationID by blast

theorem generated_ids_valid_witness: "validID (UUID [0..15]) \<and> UUID [0..15] = ''00010203-0405-4607-8809-0a0b0c0d0e0f''"
proof -
  have "byte_list [0..15]" "length [0..15 :: int] = 16" by (auto simp: byte_list_def)
  moreover have "UUID [0..15] = ''00010203-0405-4607-8809-0a0b0c0d0e0f''" by code_simp
  ultimately show ?thesis using generated_ids_valid[of "[0..15]"] by blast
qed

end
