(* ===== verification/Gate_Properties.thy ===== *)
theory Gate_Properties
  imports Gate_Protocol Schema_Properties
begin

text \<open>
  The properties of the admission gate, with concrete executions as witnesses: a backup that is
  admitted, a collection that is refused, and one that enters after the backup has left.
\<close>

section \<open>Concrete gates\<close>

definition example_gate :: gate where
  "example_gate = \<lparr>gat_Schema = 1, gat_RepositoryID = ''11111111-2222-4333-8444-555555555555'', gat_Generation = ''0'',
     gat_Nonce = ''50000000-0000-4000-8000-000000000000'', gat_Owner = None, gat_Holders = []\<rparr>"

definition example_holder :: holder where
  "example_holder = \<lparr>hld_ID = ''60000000-0000-4000-8000-000000000001'', hld_Kind = ''backup'',
     hld_TargetClusterUID = ''aaaaaaaa-bbbb-4ccc-8ddd-eeeeeeeeeeee'',
     hld_OperationID = ''10000000-0000-4000-8000-000000000001'',
     hld_ProcessID = Some ''70000000-0000-4000-8000-000000000001''\<rparr>"

definition example_owner :: owner where
  "example_owner = \<lparr>own_OperationID = ''80000000-0000-4000-8000-000000000001'',
     own_ProcessID = ''70000000-0000-4000-8000-000000000002'', own_Kind = ''gc''\<rparr>"

definition nonce1 :: string where "nonce1 = ''50000000-0000-4000-8000-000000000001''"
definition nonce2 :: string where "nonce2 = ''50000000-0000-4000-8000-000000000002''"
definition nonce3 :: string where "nonce3 = ''50000000-0000-4000-8000-000000000003''"

definition held_gate :: gate where
  "held_gate = example_gate\<lparr>gat_Generation := ''1'', gat_Nonce := nonce1, gat_Holders := [example_holder]\<rparr>"

definition freed_gate :: gate where
  "freed_gate = example_gate\<lparr>gat_Generation := ''2'', gat_Nonce := nonce2\<rparr>"

definition owned_gate :: gate where
  "owned_gate = example_gate\<lparr>gat_Generation := ''3'', gat_Nonce := nonce3, gat_Owner := Some example_owner\<rparr>"

lemma example_gate_ok: "gate_ok example_identity example_gate"
  by code_simp

lemma example_rounds:
  "res_bind (gate_decide (change_of (OpAdd example_holder)) False example_gate)
     (\<lambda>g. gate_write example_identity nonce1 (the g)) = Inr held_gate"
  "res_bind (gate_decide (change_of (OpRemove example_holder)) False held_gate)
     (\<lambda>g. gate_write example_identity nonce2 (the g)) = Inr freed_gate"
  "res_bind (gate_decide (change_of (OpAcquire example_owner)) False freed_gate)
     (\<lambda>g. gate_write example_identity nonce3 (the g)) = Inr owned_gate"
  "change_of (OpAcquire example_owner) held_gate = Inl ErrBlocked"
  by code_simp+

lemma example_decisions:
  "gate_decide (change_of (OpAdd example_holder)) False example_gate \<noteq> Inr None"
  "gate_decide (change_of (OpRemove example_holder)) False held_gate \<noteq> Inr None"
  "gate_decide (change_of (OpAcquire example_owner)) False freed_gate \<noteq> Inr None"
  by code_simp+

lemma example_step:
  assumes "reachable_gate example_identity s" "gs_client s i = None"
    and "res_bind (gate_decide (change_of op) False (gs_gate s)) (\<lambda>g. gate_write example_identity nonce (the g)) = Inr g2"
    and "gate_decide (change_of op) False (gs_gate s) \<noteq> Inr None" and "nonce \<notin> nonces s"
  shows "\<exists>s'. reachable_gate example_identity s' \<and> gs_gate s' = g2 \<and>
    gs_client s' = (gs_client s)(i \<mapsto> (op, Finished Acked)) \<and> nonces s' = insert nonce (nonces s)"
proof -
  obtain n where n: "gate_decide (change_of op) False (gs_gate s) = Inr n" "gate_write example_identity nonce (the n) = Inr g2"
    using assms(3) by auto
  then obtain g1 where "gate_decide (change_of op) False (gs_gate s) = Inr (Some g1)"
    "gate_write example_identity nonce g1 = Inr g2" using assms(4) by (cases n) auto
  then show ?thesis by (rule uncontended[OF assms(1,2) _ _ assms(5)])
qed

text \<open>The backup is admitted.\<close>

lemma example_held: "\<exists>s. reachable_gate example_identity s \<and> gs_gate s = held_gate \<and>
    gs_client s = [0 \<mapsto> (OpAdd example_holder, Finished Acked)] \<and> nonces s = {nonce1}"
  using example_step[of "initial_system example_gate" 0 "OpAdd example_holder" nonce1 held_gate]
    example_rounds(1) example_decisions(1) reach_init[OF example_gate_ok]
  by (simp add: initial_system_def nonces_def)

text \<open>It leaves, and a collection enters.\<close>

lemma example_owned: "\<exists>s. reachable_gate example_identity s \<and> gs_gate s = owned_gate \<and>
    gs_client s = [0 \<mapsto> (OpAdd example_holder, Finished Acked), 1 \<mapsto> (OpRemove example_holder, Finished Acked),
      2 \<mapsto> (OpAcquire example_owner, Finished Acked)]"
proof -
  have ne: "nonce2 \<noteq> nonce1" "nonce3 \<noteq> nonce1" "nonce3 \<noteq> nonce2" by code_simp+
  obtain s1 where s1: "reachable_gate example_identity s1" "gs_gate s1 = held_gate"
    "gs_client s1 = [0 \<mapsto> (OpAdd example_holder, Finished Acked)]" "nonces s1 = {nonce1}" using example_held by blast
  obtain s2 where s2: "reachable_gate example_identity s2" "gs_gate s2 = freed_gate"
    "gs_client s2 = (gs_client s1)(1 \<mapsto> (OpRemove example_holder, Finished Acked))" "nonces s2 = {nonce2, nonce1}"
    using example_step[OF s1(1), of 1 "OpRemove example_holder" nonce2 freed_gate] s1 example_rounds(2)
      example_decisions(2) ne by auto
  obtain s3 where s3: "reachable_gate example_identity s3" "gs_gate s3 = owned_gate"
    "gs_client s3 = (gs_client s2)(2 \<mapsto> (OpAcquire example_owner, Finished Acked))"
    using example_step[OF s2(1), of 2 "OpAcquire example_owner" nonce3 owned_gate] s1 s2 example_rounds(3)
      example_decisions(3) ne by auto
  show ?thesis using s1 s2 s3 by (intro exI[of _ s3]) simp
qed

section \<open>Properties\<close>

text \<open>C1. Acknowledged admission is durable: in every state reachable by any interleaving of any
  number of processes, with delayed, lost and ambiguously answered conditional writes, a holder
  whose \<open>addHolder\<close> has returned success is in the gate, and no collection owns the gate, for as
  long as nobody has started to remove that holder.\<close>

theorem gate_admission_durable:
  assumes "reachable_gate idn s" "gs_client s i = Some (OpAdd h, Finished Acked)" "\<not> started s (OpRemove h)"
  shows "h \<in> set (gat_Holders (gs_gate s)) \<and> gat_Owner (gs_gate s) = None"
proof -
  have inv: "gate_inv idn s" by (rule reachable_inv[OF assms(1)])
  then have "h \<in> set (gat_Holders (gs_gate s))"
    using assms(2,3) by (auto simp: gate_inv_def acked_ok_def holds_on_def)
  moreover have "\<forall>o'. gat_Owner (gs_gate s) = Some o' \<longrightarrow> gat_Holders (gs_gate s) = []"
    using inv gate_okD(6) by (auto simp: gate_inv_def)
  ultimately show ?thesis by (cases "gat_Owner (gs_gate s)") auto
qed

theorem gate_admission_durable_witness:
  "\<exists>s. reachable_gate example_identity s \<and> gs_client s 0 = Some (OpAdd example_holder, Finished Acked) \<and>
    example_holder \<in> set (gat_Holders (gs_gate s)) \<and> gat_Owner (gs_gate s) = None"
proof -
  obtain s where s: "reachable_gate example_identity s" "gs_client s = [0 \<mapsto> (OpAdd example_holder, Finished Acked)]"
    using example_held by blast
  have "gs_client s 0 = Some (OpAdd example_holder, Finished Acked)" "\<not> started s (OpRemove example_holder)"
    by (auto simp: s(2) started_def split: if_splits)
  from gate_admission_durable[OF s(1) this] this(1) s(1) show ?thesis by blast
qed

text \<open>C28. Holders and the collection owner exclude each other: if a hold and a collection have
  both been acknowledged, then the removal of the one or the release of the other has been
  started; at no time are both in force.\<close>

theorem gate_exclusion:
  assumes "reachable_gate idn s" "gs_client s i = Some (OpAdd h, Finished Acked)"
    and "gs_client s j = Some (OpAcquire o', Finished Acked)"
  shows "started s (OpRemove h) \<or> started s (OpRelease o')"
proof (rule ccontr)
  assume "\<not> ?thesis"
  then have n: "\<not> started s (OpRemove h)" "\<not> started s (OpRelease o')" by auto
  have "gate_inv idn s" by (rule reachable_inv[OF assms(1)])
  then have "h \<in> set (gat_Holders (gs_gate s))" "gat_Owner (gs_gate s) = Some o'" "gate_ok idn (gs_gate s)"
    using assms(2,3) n by (auto simp: gate_inv_def acked_ok_def holds_on_def)
  then show False using gate_okD(6) by fastforce
qed

theorem gate_exclusion_witness:
  "\<exists>s. reachable_gate example_identity s \<and> gs_client s 0 = Some (OpAdd example_holder, Finished Acked) \<and>
    gs_client s 2 = Some (OpAcquire example_owner, Finished Acked) \<and>
    (started s (OpRemove example_holder) \<or> started s (OpRelease example_owner))"
proof -
  obtain s where s: "reachable_gate example_identity s"
    "gs_client s = [0 \<mapsto> (OpAdd example_holder, Finished Acked), 1 \<mapsto> (OpRemove example_holder, Finished Acked),
      2 \<mapsto> (OpAcquire example_owner, Finished Acked)]" using example_owned by blast
  have "gs_client s 0 = Some (OpAdd example_holder, Finished Acked)" "gs_client s 2 = Some (OpAcquire example_owner, Finished Acked)"
    by (auto simp: s(2))
  from gate_exclusion[OF s(1) this] this s(1) show ?thesis by blast
qed



text \<open>C36. Every gate a round writes is valid, fits the gate limit, reads back through \<open>strict\<close> as
  itself, carries the next generation and the fresh nonce, and differs from the gate that was
  read only by the operation's own change.\<close>

theorem gate_write_sound:
  assumes "Identity_Validate idn = Inr ()" "Gate_validate g idn = Inr ()"
    and "gate_decide (change_of op) barrier g = Inr (Some g1)" "gate_write idn nonce g1 = Inr g2"
  shows "Gate_validate g2 idn = Inr () \<and> strict Gate_type dec_Gate (render (enc_Gate g2)) gateLimit = Inr g2 \<and>
    gen g2 = gen g + 1 \<and> gat_Nonce g2 = nonce \<and> follows op g g2"
proof -
  have ok: "gate_ok idn g" using assms(2) by (simp add: gate_ok_def)
  note e = round_effect[OF ok assms(3,4)] and w = gate_write_effect[OF assms(4)]
  have "strict Gate_type dec_Gate (render (enc_Gate g2)) gateLimit = Inr g2"
    by (rule gate_doc.strict_marshal) (use gate_ok_printable[OF e(1) assms(1)] w(5) in auto)
  then show ?thesis using e(1-3) w(4) by (auto simp: gate_ok_def)
qed

theorem gate_write_sound_witness:
  "strict Gate_type dec_Gate (render (enc_Gate held_gate)) gateLimit = Inr held_gate \<and> gen held_gate = gen example_gate + 1"
proof -
  obtain g1 where "gate_decide (change_of (OpAdd example_holder)) False example_gate = Inr (Some g1)"
    "gate_write example_identity nonce1 g1 = Inr held_gate"
    using example_rounds(1) example_decisions(1) by (cases "gate_decide (change_of (OpAdd example_holder)) False example_gate") auto
  from gate_write_sound[OF example_identity_valid _ this] example_gate_ok show ?thesis by (simp add: gate_ok_def)
qed

end
