(* ===== verification/Publication_Properties.thy ===== *)
theory Publication_Properties
  imports Publication_Order Gate_Properties
begin

text \<open>
  The properties of publication, with runs against a small concrete store as witnesses: one in
  which the commit is written, one in which an upload ends ambiguously.
\<close>

section \<open>A concrete store and attempt\<close>

definition example_repo :: repo where
  "example_repo = \<lparr>rp_id = example_identity, rp_root = root_of (idn_RepositoryID example_identity),
     rp_process = ''70000000-0000-4000-8000-000000000001''\<rparr>"

definition example_info :: info where
  "example_info = \<lparr>inf_Key = [], inf_ETag = ''e'', inf_Size = 1, inf_Modified = 1767399000500000000, inf_Metadata = []\<rparr>"

text \<open>The gate holds the example holder; every stored payload is the byte \<open>x\<close>.\<close>

definition stub_sys :: "err + (upload \<times> info) \<Rightarrow> unit sys" where
  "stub_sys up = \<lparr>
     st_CheckBucketSafety = (\<lambda>w. (Inr (), w)),
     st_Head = (\<lambda>k w. (Inr example_info, w)),
     st_Read = (\<lambda>k n w. (if k = gate_key example_repo then Inr (render (enc_Gate held_gate), example_info)
        else Inl (S3Error NotFound False), w)),
     st_PutFile = (\<lambda>k b i c m w. (Inr example_info, w)),
     st_UploadFile = (\<lambda>k b i w. (up, w)),
     st_Download = (\<lambda>k i w. (Inr (''x'', example_info), w)),
     st_List = (\<lambda>p n w. (([], None), w)),
     st_Delete = (\<lambda>k w. (Inr (), w)),
     st_Abort = (\<lambda>u w. (Inr (), w)),
     st_ListUploads = (\<lambda>p n w. (([], None), w)),
     os_temp = (\<lambda>w. (True, w)),
     os_rand = (\<lambda>w. ([0..15], w)),
     os_now = (\<lambda>w. (1767399000500000000, w)),
     os_ctx = (\<lambda>w. (False, w)),
     os_sleep = (\<lambda>n w. (Inr (), w)),
     gunzip = Some,
     gz = (\<lambda>b. b),
     gz_open = (\<lambda>b. True)\<rparr>"

definition stub_artifact :: "int \<Rightarrow> string \<Rightarrow> artifact" where
  "stub_artifact i role = \<lparr>art_Index = i, art_Role = role, art_TablespaceOID = None, art_Compression = ''none'',
     art_StoredBytes = 1, art_RawBytes = 1, art_StoredSHA256 = digest ''x'', art_RawSHA256 = digest ''x''\<rparr>"

definition stub_commit :: commit where
  "stub_commit = example_commit\<lparr>cmt_ManifestBytes := 1, cmt_ManifestSHA256 := digest ''x'', cmt_Tablespaces := Some [],
     cmt_Artifacts := [stub_artifact 0 ''base'', stub_artifact 1 ''wal'']\<rparr>"

definition stub_attempt :: attempt_handle where
  "stub_attempt = \<lparr>att_request = \<lparr>req_Schema = 1, req_RepositoryID = ''11111111-2222-4333-8444-555555555555'',
       req_BackupUID = ''10000000-0000-4000-8000-000000000001'', req_WriterClusterUID = ''aaaaaaaa-bbbb-4ccc-8ddd-eeeeeeeeeeee'',
       req_RequestedKind = ''full'', req_RootBackupUID = None, req_ConfigSHA256 = example_hash\<rparr>,
     att_claim = \<lparr>clm_Schema = 1, clm_RepositoryID = ''11111111-2222-4333-8444-555555555555'',
       clm_BackupUID = ''10000000-0000-4000-8000-000000000001'', clm_AttemptID = ''20000000-0000-4000-8000-000000000002'',
       clm_ProcessID = ''70000000-0000-4000-8000-000000000001'', clm_RequestSHA256 = example_hash\<rparr>\<rparr>"

definition stub_hold :: hold where
  "stub_hold = \<lparr>hd_holder = example_holder, hd_closed = False, hd_uncertain = False\<rparr>"

lemma stub_commit_valid: "Commit_validate stub_commit example_identity = Inr ()"
proof -
  note p = Commit_validate_parts[OF example_commit_valid]
  have "commit_head_ok stub_commit example_identity" "commit_times_ok stub_commit" "commit_positions_ok stub_commit"
    using p(1,2,3) by (simp_all add: stub_commit_def commit_head_ok_def commit_times_ok_def commit_positions_ok_def cong: option.case_cong)
  moreover have "commit_kind_ok stub_commit" by (simp add: commit_kind_ok_def stub_commit_def example_commit_def)
  moreover have "commit_texts_ok stub_commit" using p(4) by (simp add: stub_commit_def commit_texts_ok_def MaxManifestBytes_def)
  moreover have "commit_files stub_commit = Inr ()"
    by (simp add: stub_commit_def commit_files_def check_artifact_def artifact_ok_def stub_artifact_def
        MaxArtifactBytes_def MaxBackupBytes_def Let_def)
  ultimately show ?thesis by (simp add: Commit_validate_def)
qed

lemma stub_gate:
  "strict Gate_type dec_Gate (render (enc_Gate held_gate)) gateLimit = Inr held_gate"
  "Gate_validate held_gate example_identity = Inr ()" "hold_live example_holder held_gate"
  by code_simp+

lemma length_digest [simp]: "length (digest b) = 64"
  by (simp add: digest_def)

lemma stub_commit_small: "int (length (render (enc_Commit stub_commit))) \<le> commitLimit"
proof -
  have n: "render_bound (enc_int 0) \<le> 5" "render_bound (enc_int 1) \<le> 5" "render_bound (enc_int 18) \<le> 5" "render_bound (enc_u32 1) \<le> 5"
    by code_simp+
  have "render_bound (enc_Commit stub_commit) \<le> commitLimit"
    using n by (simp add: enc_WALRange_def enc_Artifact_def enc_list_def enc_ptr_def commitLimit_def stub_commit_def example_commit_def enc_Commit_def stub_artifact_def example_hash_def)
  then show ?thesis using length_render order_trans by blast
qed

section \<open>Two runs\<close>

lemmas act_simps = andthen_def attempt_def ret_def fail_def lift_def check_def on_world_def get_hold_def latch_def
  logged_def pass_def err_of_def

lemma andthen_ok: "m s = (Inr x, s1) \<Longrightarrow> andthen m k s = k x s1"
  and andthen_err: "m s = (Inl e, s1) \<Longrightarrow> andthen m k s = (Inl e, s1)"
  and attempt_run: "m s = (r, s1) \<Longrightarrow> attempt m j s = j r s1"
  and on_world_run: "n w = (r, w1) \<Longrightarrow> on_world n (w, h) = (r, (w1, h))"
  by (simp_all add: andthen_def attempt_def fail_def on_world_def)

lemmas act_run = andthen_ok andthen_err attempt_run on_world_run ret_def fail_def lift_def check_def get_hold_def

lemma example_repo_id [simp]: "rp_id example_repo = example_identity"
  by (simp add: example_repo_def)

lemma stub_readGate: "readGate (traced (stub_sys up)) example_repo (w, tr) = (Inr (held_gate, example_info), (w, tr @ [EvRead (gate_key example_repo)]))"
proof -
  have "st_Read (traced (stub_sys up)) (gate_key example_repo) gateLimit (w, tr) =
    (Inr (render (enc_Gate held_gate), example_info), (w, tr @ [EvRead (gate_key example_repo)]))"
    by (simp add: traced_def stub_sys_def logged_def)
  then show ?thesis using stub_gate by (simp add: readGate_def act_run)
qed

lemma stub_check: "Hold_check (traced (stub_sys up)) example_repo stub_hold (w, tr) = (Inr (), (w, tr @ [EvRead (gate_key example_repo)]))"
  using stub_gate by (simp add: Hold_check_def stub_hold_def stub_readGate act_run)

lemma stub_ids: "publish_ids_ok stub_attempt stub_commit [''x'', ''x'']"
  by (simp add: publish_ids_ok_def stub_attempt_def stub_commit_def example_commit_def)

lemma stub_full: "verify_parent (traced (stub_sys up)) example_repo stub_commit = ret ()"
  by (simp add: verify_parent_def stub_commit_def example_commit_def)

lemma stub_verify: "verifyFile (traced (stub_sys up)) ''x'' 1 (digest ''x'') ''none'' 1 (digest ''x'') (w, tr) = (Inr (), (w, tr))"
  by (simp add: verifyFile_def act_simps ctx_err_def traced_def stub_sys_def raw_of_def)

lemma stub_artifacts: "cmt_Artifacts stub_commit = [stub_artifact 0 ''base'', stub_artifact 1 ''wal'']" "cmt_ManifestBytes stub_commit = 1"
  "cmt_ManifestSHA256 stub_commit = digest ''x''"
  by (simp_all add: stub_commit_def)

lemma stub_files: "verify_files (traced (stub_sys up)) stub_commit ''x'' [''x'', ''x''] (w, tr) = (Inr (), (w, tr))"
  by (simp add: verify_files_def stub_artifacts stub_artifact_def andthen_def attempt_def ret_def stub_verify)

abbreviation stub_integrity :: integrity where
  "stub_integrity \<equiv> \<lparr>itg_Size = 1, itg_SHA256 = digest ''x''\<rparr>"

abbreviation stub_key :: "int \<Rightarrow> string" where
  "stub_key i \<equiv> artifact_key example_repo (cmt_BackupUID stub_commit) (cmt_AttemptID stub_commit) i ''none''"

lemma stub_upload: "upload_one (traced (stub_sys (Inr u))) key ''x'' 1 (digest ''x'') ((w, tr), h) =
    (Inr (), ((w, tr @ [EvUpload key ''x'' stub_integrity None]), h))"
  and stub_upload_unknown: "upload_one (traced (stub_sys (Inl (S3Error Transient True)))) key ''x'' 1 (digest ''x'') ((w, tr), h) =
    (Inl (S3Error Transient True), ((w, tr @ [EvUpload key ''x'' stub_integrity (Some (S3Error Transient True))]), h\<lparr>hd_uncertain := True\<rparr>))"
  by (simp_all add: upload_one_def act_simps traced_def stub_sys_def)

lemma stub_download: "downloadVerify (traced (stub_sys up)) key 1 (digest ''x'') ''none'' 1 (digest ''x'') (w, tr) =
    (Inr (), (w, tr @ [EvDownload key stub_integrity None]))"
proof -
  have "downloadVerify (traced (stub_sys up)) key 1 (digest ''x'') ''none'' 1 (digest ''x'') (w, tr) =
    verifyFile (traced (stub_sys up)) ''x'' 1 (digest ''x'') ''none'' 1 (digest ''x'') (w, tr @ [EvDownload key stub_integrity None])"
    by (simp add: downloadVerify_def act_simps) (simp add: traced_def stub_sys_def act_simps)
  then show ?thesis by (simp add: stub_verify)
qed

lemma stub_run_unknown:
  "publish (traced (stub_sys (Inl (S3Error Transient True)))) example_repo stub_attempt False stub_commit ''x'' [''x'', ''x''] chk (((), []), stub_hold) =
    ((Inl (S3Error Transient True), True),
     (((), [EvRead (gate_key example_repo), EvUpload (manifest_key example_repo stub_commit) ''x'' stub_integrity (Some (S3Error Transient True))]),
      stub_hold\<lparr>hd_uncertain := True\<rparr>))"
proof -
  have "publish_payload (traced (stub_sys (Inl (S3Error Transient True)))) example_repo stub_attempt stub_commit ''x'' [''x'', ''x''] chk
      (((), tr), stub_hold) = (Inl (S3Error Transient True),
     (((), tr @ [EvUpload (manifest_key example_repo stub_commit) ''x'' stub_integrity (Some (S3Error Transient True))]),
      stub_hold\<lparr>hd_uncertain := True\<rparr>))" for tr
    using stub_commit_valid stub_ids
    by (simp add: publish_payload_def upload_files_def act_run stub_full stub_files stub_artifacts stub_upload_unknown)
  then show ?thesis by (simp add: publish_def stub_check act_run)
qed

lemma stub_artifact_run:
  "commit_artifact_key example_repo stub_commit (stub_artifact i rl) = stub_key i" "art_StoredBytes (stub_artifact i rl) = 1"
  "art_StoredSHA256 (stub_artifact i rl) = digest ''x''" "art_Compression (stub_artifact i rl) = ''none''"
  "art_RawBytes (stub_artifact i rl) = 1" "art_RawSHA256 (stub_artifact i rl) = digest ''x''"
  by (simp_all add: commit_artifact_key_def stub_artifact_def)

lemma stub_run:
  "publish (traced (stub_sys (Inr u))) example_repo stub_attempt False stub_commit ''x'' [''x'', ''x''] None (((), []), stub_hold) =
    ((Inl (S3Error NotFound False), True),
     (((), EvRead (gate_key example_repo) #
        map (\<lambda>k. EvUpload k ''x'' stub_integrity None) [manifest_key example_repo stub_commit, stub_key 0, stub_key 1] @
        map (\<lambda>k. EvDownload k stub_integrity None) [manifest_key example_repo stub_commit, stub_key 0, stub_key 1] @
        [EvPut (backup_key example_repo (cmt_BackupUID stub_commit) @ ''commit.json'') (render (enc_Commit stub_commit)) Create None,
         EvRead (backup_key example_repo (cmt_BackupUID stub_commit) @ ''commit.json'')]), stub_hold))"
proof -
  let ?S = "traced (stub_sys (Inr u))"
  let ?ks = "[manifest_key example_repo stub_commit, stub_key 0, stub_key 1]"
  have up: "upload_files ?S example_repo stub_commit ''x'' [''x'', ''x''] (((), tr), stub_hold) =
      (Inr (), (((), tr @ map (\<lambda>k. EvUpload k ''x'' stub_integrity None) ?ks), stub_hold))" for tr
    by (simp add: upload_files_def act_run stub_artifacts stub_upload stub_artifact_run)
  have vf: "verifyPayload ?S example_repo stub_commit ((), tr) = (Inr (), ((), tr @ map (\<lambda>k. EvDownload k stub_integrity None) ?ks))" for tr
    by (simp add: verifyPayload_def verify_manifest_def act_run stub_artifacts stub_download stub_artifact_run)
  have ctx: "ctx_err ?S ((), tr) = (Inr (), ((), tr))" for tr by (simp add: ctx_err_def traced_def stub_sys_def pass_def)
  have p: "publish_payload ?S example_repo stub_attempt stub_commit ''x'' [''x'', ''x''] None (((), tr), stub_hold) =
     (Inr (), (((), tr @ map (\<lambda>k. EvUpload k ''x'' stub_integrity None) ?ks @ map (\<lambda>k. EvDownload k stub_integrity None) ?ks), stub_hold))" for tr
    using stub_commit_valid stub_ids stub_commit_small
    by (simp add: publish_payload_def act_run stub_full stub_files up vf ctx)
  let ?key = "backup_key example_repo (cmt_BackupUID stub_commit) @ ''commit.json''"
  have put: "put ?S ?key b Create [] ((), tr) = (Inr example_info, ((), tr @ [EvPut ?key b Create None]))" for b tr
    by (simp add: put_def traced_def stub_sys_def pass_def logged_def err_of_def)
  have v: "validID (cmt_BackupUID stub_commit)"
    using Commit_validate_parts(1)[OF stub_commit_valid] by (auto simp: commit_head_ok_def)
  have ne: "?key \<noteq> gate_key example_repo" by (simp add: backup_key_def gate_key_def)
  have rd: "st_Read ?S ?key n ((), tr) = (Inl (S3Error NotFound False), ((), tr @ [EvRead ?key]))" for n tr
    using ne by (simp add: traced_def stub_sys_def logged_def)
  have "commit_and_read ?S example_repo stub_commit (((), tr), stub_hold) = (Inl (S3Error NotFound False),
      (((), tr @ [EvPut ?key (render (enc_Commit stub_commit)) Create None, EvRead ?key]), stub_hold))" for tr
    by (simp add: commit_and_read_def act_run put readCommit_def v rd)
  then show ?thesis by (simp add: publish_def stub_check act_run p)
qed


section \<open>Properties\<close>

text \<open>C3. The commit document is written last: in every call to \<open>publish\<close>, either nothing is PUT,
  or the attempt was unused, the commit is valid, and exactly one PUT is made, a creation of the
  commit document, after every payload file was uploaded with success and after every one of them
  was downloaded again with the size and digest the commit records; only reads follow it. The
  caller's final check \<open>chk\<close> is arbitrary but for the storage calls it makes itself.\<close>

theorem publish_commit_last:
  assumes "publish (traced S) r a used c manifest files (map_option pass chk) ((w, []), h) = ((res, used'), ((w', tr), h'))"
  shows "list_all not_put tr \<or>
    (\<exists>up vf e post. tr = up @ vf @ EvPut (backup_key r (cmt_BackupUID c) @ ''commit.json'') (render (enc_Commit c)) Create e # post \<and>
       \<not> used \<and> Commit_validate c (rp_id r) = Inr () \<and> list_all not_put (up @ vf) \<and> upload_events r c manifest files \<subseteq> set up \<and>
       verify_events r c \<subseteq> set vf \<and> list_all is_read post)"
  using publish_log[OF _ assms] emits_pass by (force simp: map_option_case split: option.splits)

theorem publish_commit_last_witness:
  "\<exists>up vf e post. snd (fst (snd (publish (traced (stub_sys (Inr (\<lparr>upl_Key = [], upl_ID = []\<rparr>, example_info)))) example_repo stub_attempt
       False stub_commit ''x'' [''x'', ''x''] None (((), []), stub_hold)))) =
     up @ vf @ EvPut (backup_key example_repo (cmt_BackupUID stub_commit) @ ''commit.json'') (render (enc_Commit stub_commit)) Create e # post \<and>
     upload_events example_repo stub_commit ''x'' [''x'', ''x''] \<subseteq> set up \<and> verify_events example_repo stub_commit \<subseteq> set vf"
  using publish_commit_last[of "stub_sys (Inr (\<lparr>upl_Key = [], upl_ID = []\<rparr>, example_info))" example_repo stub_attempt False stub_commit
      "''x''" "[''x'', ''x'']" None, unfolded option.map, OF stub_run] stub_run
  by auto

text \<open>C4. An outcome that is not known closes the hold's operation: when any PUT or upload of a
  call to \<open>publish\<close>, or of a call to \<open>PublishChecked\<close> with a final check of the caller's, ends
  ambiguously, the hold is latched as uncertain, and closing it then fails with \<open>ErrUncertain\<close> and
  leaves the gate entry alone, so that no collection can start. The check \<open>chk\<close> may do anything to
  the world and may fail; it makes no recorded call of its own.\<close>

theorem publish_latches:
  assumes "publish (traced S) r a used c manifest files (map_option pass chk) ((w, []), h) = ((res, used'), ((w', tr), h')) \<or>
      PublishChecked (traced S) r a used c manifest files (map_option pass chk) ((w, []), h) = ((res, used'), ((w', tr), h'))"
    and "ev \<in> set tr" "unknown_outcome ev"
  shows "hd_uncertain h' \<and> fst (fst (Hold_Close S r h' w')) = Inl ErrUncertain \<and> snd (Hold_Close S r h' w') = w'"
proof -
  have "publish (traced S) r a used c manifest files (map_option pass chk) ((w, []), h) = ((res, used'), ((w', tr), h'))"
    using assms(1,2) by (auto simp: PublishChecked_def split: if_splits)
  then have "latched ((w', tr), h')" by (rule publish_keeps_latch[rotated]) (auto intro: emits_pass)
  then show ?thesis using assms(2,3) by (auto simp: latched_def Hold_Close_def)
qed

theorem publish_latches_witness:
  "\<exists>h'. snd (snd (PublishChecked (traced (stub_sys (Inl (S3Error Transient True)))) example_repo stub_attempt False stub_commit ''x'' [''x'', ''x'']
       (Some (pass (\<lambda>w. (Inr (), w)))) (((), []), stub_hold))) = h' \<and>
     fst (fst (Hold_Close (stub_sys (Inl (S3Error Transient True))) example_repo h' ())) = Inl ErrUncertain"
proof -
  have run: "PublishChecked (traced (stub_sys (Inl (S3Error Transient True)))) example_repo stub_attempt False stub_commit ''x'' [''x'', ''x'']
      (map_option pass (Some (\<lambda>w. (Inr (), w)))) (((), []), stub_hold) = ((Inl (S3Error Transient True), True),
     (((), [EvRead (gate_key example_repo), EvUpload (manifest_key example_repo stub_commit) ''x'' stub_integrity (Some (S3Error Transient True))]),
      stub_hold\<lparr>hd_uncertain := True\<rparr>))"
    using stub_run_unknown by (simp add: PublishChecked_def)
  show ?thesis
    using publish_latches[OF disjI2[OF run], of "EvUpload (manifest_key example_repo stub_commit) ''x'' stub_integrity (Some (S3Error Transient True))"]
      run by simp
qed

end
