(* ===== verification/Wal_Names.thy ===== *)
theory Wal_Names
  imports Gate
begin

text \<open>
  PostgreSQL file names of the WAL archive (repository/plan.go, repository/gc.go and
  repository/retention_inventory.go): the grammar, the arithmetic that depends on the segment
  size, the storage key of a name, and the numeric position of a complete segment. Positions
  of distinct segment names are distinct and aligned.
\<close>

section \<open>Names\<close>

definition hexes :: "nat \<Rightarrow> string \<Rightarrow> bool" where
  "hexes n s \<longleftrightarrow> length s = n \<and> list_all upper_hex s"

definition walRE :: "string \<Rightarrow> bool" where
  "walRE name \<longleftrightarrow>
     (hexes 24 (take 24 name) \<and> (drop 24 name = [] \<or> drop 24 name = ''.partial'')) \<or>
     (hexes 8 (take 8 name) \<and> drop 8 name = ''.history'') \<or>
     (hexes 24 (take 24 name) \<and> slice name 24 25 = ''.'' \<and> hexes 8 (slice name 25 33) \<and> drop 33 name = ''.backup'')"

definition ValidWALFilename :: "string \<Rightarrow> bool" where
  "ValidWALFilename name \<longleftrightarrow> walRE name \<and> slice name 0 8 \<noteq> ''00000000''"

text \<open>\<open>strconv.ParseUint(s, 16, 32)\<close> of a field whose error is ignored: 0 when it fails.\<close>

definition hex_field :: "string \<Rightarrow> u64" where
  "hex_field s = (case parse_uint 16 32 s of Some n \<Rightarrow> of_int n | None \<Rightarrow> 0)"

definition walTimeline :: "string \<Rightarrow> int \<Rightarrow> err + u32" where
  "walTimeline name sz =
     (if \<not> segment_size_ok sz then Inl ErrInvalid
      else if \<not> walRE name then Inl ErrInvalid
      else case parse_uint 16 32 (slice name 0 8) of
        None \<Rightarrow> Inl ErrInvalid
      | Some t \<Rightarrow>
         if t = 0 then Inl ErrInvalid
         else if \<not> has_suffix name ''.history'' \<and> hex_field (slice name 16 24) \<ge> of_int (2 ^ 32 div sz) then Inl ErrInvalid
         else if \<not> has_suffix name ''.history'' \<and> has_suffix name ''.backup'' \<and> hex_field (slice name 25 33) \<ge> of_int sz
           then Inl ErrInvalid
         else Inr (of_int t))"

definition ValidateWALName :: "string \<Rightarrow> int \<Rightarrow> err + unit" where
  "ValidateWALName name sz = res_bind (walTimeline name sz) (\<lambda>_. Inr ())"

definition WALKey :: "repo \<Rightarrow> string \<Rightarrow> err + string" where
  "WALKey r name = res_bind (walTimeline name (idn_WALSegmentBytes (rp_id r))) (\<lambda>t.
     Inr (rp_root r @ ''wal/'' @ format_HEX8 (uint t) @ ''/'' @ name))"

text \<open>\<open>log<<32 | seg*uint64(size)\<close>.\<close>

definition segment_start :: "string \<Rightarrow> int \<Rightarrow> u64" where
  "segment_start name sz = or (push_bit 32 (hex_field (slice name 8 16))) (hex_field (slice name 16 24) * of_int sz)"

definition ArchivePosition :: "string \<Rightarrow> int \<Rightarrow> err + (u32 \<times> u64)" where
  "ArchivePosition name sz = (case walTimeline name sz of
     Inl _ \<Rightarrow> Inl ErrInvalid
   | Inr t \<Rightarrow> if length name \<noteq> 24 then Inl ErrInvalid else Inr (t, segment_start name sz))"

section \<open>Fields of a name\<close>

lemma of_base_inj:
  assumes "0 < b" "length ds = length es" "\<forall>d \<in> set ds. 0 \<le> d \<and> d < b" "\<forall>d \<in> set es. 0 \<le> d \<and> d < b"
    and "of_base b ds = of_base b es"
  shows "ds = es"
  using assms(2-)
proof (induction ds arbitrary: es rule: rev_induct)
  case (snoc d ds)
  then obtain e es' where es: "es = es' @ [e]" by (cases es rule: rev_cases) auto
  have eq: "b * of_base b ds + d = b * of_base b es' + e" using snoc.prems(4) es by (simp add: of_base_snoc)
  have r: "0 \<le> d" "d < b" "0 \<le> e" "e < b" using snoc.prems(2,3) es by auto
  have "(b * of_base b ds + d) mod b = d" "(b * of_base b es' + e) mod b = e" using r by simp_all
  then have de: "d = e" using eq by simp
  then have "of_base b ds = of_base b es'" using eq assms(1) by simp
  then have "ds = es'" using snoc es by auto
  then show ?case using es de by simp
qed simp

lemma upper_hex_inj: "upper_hex c \<Longrightarrow> upper_hex d \<Longrightarrow> digit_value c = digit_value d \<Longrightarrow> c = d"
  using upper_hex_value by (metis option.inject)

lemma hexes_value:
  assumes "hexes n s" "n \<le> 8" "0 < n"
  shows "\<exists>v. parse_uint 16 32 s = Some v \<and> 0 \<le> v \<and> v < 2 ^ 32 \<and> v = of_base 16 (map (\<lambda>c. the (digit_value c)) s)"
proof -
  have "\<forall>d \<in> set (map (\<lambda>c. the (digit_value c)) s). 0 \<le> d \<and> d < (16 :: int)"
    using assms(1) upper_hex_value by (force simp: hexes_def list_all_iff)
  then have "0 \<le> of_base 16 (map (\<lambda>c. the (digit_value c)) s) \<and> of_base 16 (map (\<lambda>c. the (digit_value c)) s) < 16 ^ n"
    using of_base_less[of 16 "map (\<lambda>c. the (digit_value c)) s"] of_base_nonneg[of 16 "map (\<lambda>c. the (digit_value c)) s"] assms(1)
    by (auto simp: hexes_def)
  moreover have "(16 :: int) ^ n \<le> 16 ^ 8" using assms(2) by (intro power_increasing) auto
  moreover have "list_all (is_digit 16) s"
    using assms(1) upper_hex_value by (force simp: hexes_def list_all_iff is_digit_def)
  moreover have "s \<noteq> []" using assms by (auto simp: hexes_def)
  ultimately show ?thesis by (simp add: parse_uint_def Let_def)
qed

lemma hexes_inj:
  assumes "hexes n s" "hexes n t" "n \<le> 8" "0 < n" "parse_uint 16 32 s = parse_uint 16 32 t"
  shows "s = t"
proof -
  let ?v = "\<lambda>s. map (\<lambda>c. the (digit_value c)) s"
  have "of_base 16 (?v s) = of_base 16 (?v t)" using hexes_value[OF assms(1,3,4)] hexes_value[OF assms(2-4)] assms(5) by auto
  moreover have "\<forall>d \<in> set (?v s). 0 \<le> d \<and> d < (16 :: int)" "\<forall>d \<in> set (?v t). 0 \<le> d \<and> d < (16 :: int)"
    using assms(1,2) upper_hex_value by (force simp: hexes_def list_all_iff)+
  ultimately have "?v s = ?v t" using assms(1,2) by (intro of_base_inj[of 16]) (auto simp: hexes_def)
  moreover have "inj_on (\<lambda>c. the (digit_value c)) (set s \<union> set t)"
  proof (rule inj_onI)
    fix c d assume cd: "c \<in> set s \<union> set t" "d \<in> set s \<union> set t" "the (digit_value c) = the (digit_value d)"
    then have "upper_hex c" "upper_hex d" using assms(1,2) by (auto simp: hexes_def list_all_iff)
    then show "c = d" using upper_hex_inj cd(3) upper_hex_value by (metis option.sel)
  qed
  ultimately show ?thesis by (rule map_inj_on)
qed

lemma walRE_segment:
  assumes "walRE name" "length name = 24"
  shows "hexes 24 name"
  using assms by (auto simp: walRE_def hexes_def slice_def dest: arg_cong[of _ _ length])

lemma hexes_slice: "hexes 24 name \<Longrightarrow> i \<le> j \<Longrightarrow> j \<le> 24 \<Longrightarrow> hexes (j - i) (slice name i j)"
  by (auto simp: hexes_def slice_def list_all_iff dest!: in_set_dropD in_set_takeD)

lemma segment_fields: "length name = 24 \<Longrightarrow> name = slice name 0 8 @ slice name 8 16 @ slice name 16 24"
  using append_take_drop_id[of 8 name] append_take_drop_id[of 8 "drop 8 name"] by (simp add: slice_def drop_take)

section \<open>Positions\<close>

text \<open>A segment size divides four gibibytes, and a segment number below the quotient leaves the
  two summands of a position disjoint.\<close>

lemma power_of_two_and:
  assumes "0 < (n :: nat)" "and (int n) (int n - 1) = 0"
  shows "\<exists>k. n = 2 ^ k"
  using assms
proof (induction n rule: less_induct)
  case (less n)
  show ?case
  proof (cases "even n")
    case True
    then obtain m where m: "n = 2 * m" by blast
    then have mp: "0 < m" using less.prems by simp
    have "and (int m) (int m - 1) = 0"
    proof -
      have "drop_bit 1 (and (int n) (int n - 1)) = and (drop_bit 1 (int n)) (drop_bit 1 (int n - 1))" by simp
      moreover have "drop_bit 1 (int n) = int m" "drop_bit 1 (int n - 1) = int m - 1" using m mp by (auto simp: drop_bit_eq_div)
      ultimately show ?thesis using less.prems(2) by simp
    qed
    then obtain k where "m = 2 ^ k" using less.IH[of m] m mp by auto
    then show ?thesis using m by (intro exI[of _ "Suc k"]) simp
  next
    case False
    have "n = 1"
    proof (rule ccontr)
      assume "n \<noteq> 1"
      obtain m where m: "n = 2 * m + 1" using False by (elim oddE)
      then have "m > 0" using \<open>n \<noteq> 1\<close> by simp
      have "drop_bit 1 (and (int n) (int n - 1)) = and (drop_bit 1 (int n)) (drop_bit 1 (int n - 1))" by simp
      moreover have "drop_bit 1 (int n) = int m" "drop_bit 1 (int n - 1) = int m" using m by (auto simp: drop_bit_eq_div)
      ultimately show False using less.prems(2) \<open>m > 0\<close> by simp
    qed
    then show ?thesis by (intro exI[of _ 0]) simp
  qed
qed

lemma segment_size_power:
  assumes "segment_size_ok sz"
  shows "\<exists>k. sz = 2 ^ k \<and> 20 \<le> k \<and> k \<le> 30"
proof -
  have "0 < nat sz" "int (nat sz) = sz" using assms by (auto simp: segment_size_ok_def)
  then obtain k where k: "nat sz = 2 ^ k" using power_of_two_and[of "nat sz"] assms by (auto simp: segment_size_ok_def)
  then have sk: "sz = 2 ^ k" using \<open>int (nat sz) = sz\<close> by (metis of_nat_numeral of_nat_power)
  have "(2 :: int) ^ 20 \<le> 2 ^ k" "(2 :: int) ^ k \<le> 2 ^ 30" using assms sk by (auto simp: segment_size_ok_def)
  then have "20 \<le> k" "k \<le> 30" using power_le_imp_le_exp[of "2 :: int"] by (auto simp del: power_numeral)
  then show ?thesis using sk by blast
qed

lemma segment_not_history: "hexes 24 name \<Longrightarrow> \<not> has_suffix name ''.history''"
proof
  assume h: "hexes 24 name" and "has_suffix name ''.history''"
  then have "drop 16 name = ''.history''" by (simp add: has_suffix_def hexes_def)
  then have "CHR ''.'' \<in> set name" by (metis in_set_dropD list.set_intros(1))
  moreover have "\<not> upper_hex CHR ''.''" by code_simp
  ultimately show False using h by (auto simp: hexes_def list_all_iff)
qed

lemma position_words:
  assumes "0 \<le> a" "a < 2 ^ 32" "0 \<le> b" "b < 2 ^ 32"
  shows "uint (or (push_bit 32 (of_int a)) (of_int b) :: u64) = a * 2 ^ 32 + b"
proof -
  let ?x = "uint (or (push_bit 32 (of_int a)) (of_int b) :: u64)"
  have "drop_bit 32 ?x = a" using lsn_words(1)[OF assms] unfolding uint_drop_bit .
  then have "?x div 2 ^ 32 = a" by (simp only: drop_bit_eq_div)
  moreover have "?x mod 2 ^ 32 = b"
  proof -
    have m: "uint (0xFFFFFFFF :: u64) = mask 32" by (simp add: mask_eq_exp_minus_1)
    have "take_bit 32 ?x = b" using lsn_words(2)[OF assms] unfolding uint_and m take_bit_eq_mask .
    then show ?thesis by (simp only: take_bit_eq_mod)
  qed
  ultimately show ?thesis using div_mult_mod_eq[of ?x "2 ^ 32"] by simp
qed

lemma u64_of_int_less: "0 \<le> a \<Longrightarrow> a < 2 ^ 64 \<Longrightarrow> 0 \<le> b \<Longrightarrow> b < 2 ^ 64 \<Longrightarrow> (of_int a :: u64) < of_int b \<longleftrightarrow> a < b"
  by (simp add: word_less_def uint_word_of_int take_bit_int_eq_self)

text \<open>What a complete segment's name is made of.\<close>

lemma ArchivePosition_fields:
  assumes "ArchivePosition name sz = Inr (t, start)"
  shows "\<exists>a b c. parse_uint 16 32 (slice name 0 8) = Some a \<and> parse_uint 16 32 (slice name 8 16) = Some b \<and>
    parse_uint 16 32 (slice name 16 24) = Some c \<and> uint t = a \<and> 0 < a \<and> 0 \<le> b \<and> b < 2 ^ 32 \<and> 0 \<le> c \<and> c * sz < 2 ^ 32 \<and>
    uint start = b * 2 ^ 32 + c * sz \<and> hexes 24 name \<and> segment_size_ok sz"
proof -
  have l: "length name = 24" and w: "walTimeline name sz = Inr t" and st: "start = segment_start name sz"
    using assms by (auto simp: ArchivePosition_def split: sum.splits if_splits)
  have ok: "segment_size_ok sz" and re: "walRE name" using w by (auto simp: walTimeline_def split: if_splits)
  have h: "hexes 24 name" by (rule walRE_segment[OF re l])
  obtain a where a: "parse_uint 16 32 (slice name 0 8) = Some a" "0 \<le> a" "a < 2 ^ 32"
    using hexes_value[OF hexes_slice[OF h, of 0 8]] by auto
  obtain b where b: "parse_uint 16 32 (slice name 8 16) = Some b" "0 \<le> b" "b < 2 ^ 32"
    using hexes_value[OF hexes_slice[OF h, of 8 16]] by auto
  obtain c where c: "parse_uint 16 32 (slice name 16 24) = Some c" "0 \<le> c" "c < 2 ^ 32"
    using hexes_value[OF hexes_slice[OF h, of 16 24]] by auto
  have nh: "\<not> has_suffix name ''.history''" by (rule segment_not_history[OF h])
  have sz: "0 < sz" "sz < 2 ^ 64" "0 \<le> 2 ^ 32 div sz" "2 ^ 32 div sz < 2 ^ 64"
    using ok by (auto simp: segment_size_ok_def pos_imp_zdiv_nonneg_iff intro: le_less_trans[OF zdiv_mono2[of _ 1]])
  have "t = of_int a" "a \<noteq> 0" "\<not> hex_field (slice name 16 24) \<ge> of_int (2 ^ 32 div sz)"
    using w a(1) nh ok re by (auto simp: walTimeline_def split: if_splits)
  then have t: "uint t = a" "0 < a" and cl: "c < 2 ^ 32 div sz"
    using a c sz by (auto simp: uint_word_of_int take_bit_int_eq_self hex_field_def not_le u64_of_int_less)
  have "(c + 1) * sz \<le> 2 ^ 32" using mult_right_mono[of "c + 1" "2 ^ 32 div sz" sz] cl sz(1) pos_mod_sign[OF sz(1), of "2 ^ 32"] div_mult_mod_eq[of "2 ^ 32" sz] by linarith
  then have cs: "c * sz < 2 ^ 32" using sz(1) by (simp add: distrib_right)
  have "start = or (push_bit 32 (of_int b)) (of_int (c * sz))" using b c by (simp add: st segment_start_def hex_field_def)
  then have "uint start = b * 2 ^ 32 + c * sz" using position_words[OF b(2,3) _ cs] c(2) sz(1) by simp
  then show ?thesis using a b c t cs h ok by auto
qed

lemma ArchivePosition_inj:
  assumes "ArchivePosition n1 sz = Inr p" "ArchivePosition n2 sz = Inr p"
  shows "n1 = n2"
proof -
  obtain t start where p: "p = (t, start)" by (cases p)
  obtain a b c where f1: "parse_uint 16 32 (slice n1 0 8) = Some a" "parse_uint 16 32 (slice n1 8 16) = Some b"
    "parse_uint 16 32 (slice n1 16 24) = Some c" "uint t = a" "0 \<le> b" "0 \<le> c" "c * sz < 2 ^ 32" "uint start = b * 2 ^ 32 + c * sz"
    "hexes 24 n1" "segment_size_ok sz" using ArchivePosition_fields[OF assms(1)[unfolded p]] by auto
  obtain a' b' c' where f2: "parse_uint 16 32 (slice n2 0 8) = Some a'" "parse_uint 16 32 (slice n2 8 16) = Some b'"
    "parse_uint 16 32 (slice n2 16 24) = Some c'" "uint t = a'" "0 \<le> b'" "0 \<le> c'" "c' * sz < 2 ^ 32" "uint start = b' * 2 ^ 32 + c' * sz"
    "hexes 24 n2" using ArchivePosition_fields[OF assms(2)[unfolded p]] by auto
  have sz: "0 < sz" using f1(10) by (auto simp: segment_size_ok_def)
  have nn: "0 \<le> c * sz" "0 \<le> c' * sz" using f1(6) f2(6) sz by auto
  have "(b * 2 ^ 32 + c * sz) div 2 ^ 32 = b" "(b' * 2 ^ 32 + c' * sz) div 2 ^ 32 = b'" using nn f1(7) f2(7) by simp_all
  then have "b = b'" using f1(8) f2(8) by simp
  then have "c * sz = c' * sz" using f1(8) f2(8) by auto
  then have "c = c'" using sz by simp
  have same: "slice n1 i (i + 8) = slice n2 i (i + 8)" if "parse_uint 16 32 (slice n1 i (i + 8)) = parse_uint 16 32 (slice n2 i (i + 8))" "i + 8 \<le> 24" for i
    by (rule hexes_inj[of 8]) (use that hexes_slice[OF f1(9), of i "i + 8"] hexes_slice[OF f2(9), of i "i + 8"] in auto)
  have "slice n1 0 8 = slice n2 0 8" "slice n1 8 16 = slice n2 8 16" "slice n1 16 24 = slice n2 16 24"
    using same[of 0] same[of 8] same[of 16] f1(1-4) f2(1-4) \<open>b = b'\<close> \<open>c = c'\<close> by auto
  then show ?thesis using segment_fields[of n1] segment_fields[of n2] f1(9) f2(9) by (metis hexes_def)
qed

end
