(* ===== verification/Recovery_Plan.thy ===== *)
theory Recovery_Plan
  imports Wal_Names
begin

text \<open>
  Recovery plans (repository/plan.go, repository/recovery.go, repository/coverage.go): the
  target, the timeline path and the frozen plan document, their validation, the choice of a
  base backup for a target (\<open>eligible\<close>, \<open>newer\<close>), the parser of PostgreSQL timeline histories,
  and the classification of archive names by a plan.
\<close>

section \<open>Documents\<close>

record target =
  tgt_Kind :: string
  tgt_Value :: string
  tgt_Exclusive :: bool
  tgt_BackupUID :: "string option"
  tgt_Timeline :: u32

definition Target_type :: gotype where
  "Target_type = TStruct [(''kind'', TString), (''value'', TString), (''exclusive'', TBool), (''backup_uid'', TPointer TString),
     (''timeline'', TNumber)]"

definition enc_Target :: "target \<Rightarrow> json" where
  "enc_Target v = JObj [(''kind'', JStr (tgt_Kind v)), (''value'', JStr (tgt_Value v)), (''exclusive'', JBool (tgt_Exclusive v)),
     (''backup_uid'', enc_ptr JStr (tgt_BackupUID v)), (''timeline'', enc_u32 (tgt_Timeline v))]"

definition dec_Target :: "json \<Rightarrow> target option" where
  "dec_Target j =
     Option.bind (fld j ''kind'' dec_str) (\<lambda>x0. Option.bind (fld j ''value'' dec_str) (\<lambda>x1.
     Option.bind (fld j ''exclusive'' dec_bool) (\<lambda>x2.
     Option.bind (fld j ''backup_uid'' (dec_ptr dec_str)) (\<lambda>x3.
     Option.bind (fld j ''timeline'' dec_u32) (\<lambda>x4.
     Some \<lparr>tgt_Kind = x0, tgt_Value = x1, tgt_Exclusive = x2, tgt_BackupUID = x3, tgt_Timeline = x4\<rparr>)))))"

record timeline =
  tml_ID :: u32
  tml_ForkLSN :: "string option"

definition Timeline_type :: gotype where
  "Timeline_type = TStruct [(''id'', TNumber), (''fork_lsn'', TPointer TString)]"

definition enc_Timeline :: "timeline \<Rightarrow> json" where
  "enc_Timeline v = JObj [(''id'', enc_u32 (tml_ID v)), (''fork_lsn'', enc_ptr JStr (tml_ForkLSN v))]"

definition dec_Timeline :: "json \<Rightarrow> timeline option" where
  "dec_Timeline j =
     Option.bind (fld j ''id'' dec_u32) (\<lambda>x0.
     Option.bind (fld j ''fork_lsn'' (dec_ptr dec_str)) (\<lambda>x1.
     Some \<lparr>tml_ID = x0, tml_ForkLSN = x1\<rparr>))"

text \<open>A nil \<open>RequiredArchive\<close> is \<open>None\<close>.\<close>

record plan =
  pln_Schema :: int
  pln_Source :: identity
  pln_DestinationRepositoryID :: string
  pln_TargetClusterUID :: string
  pln_BootstrapSHA256 :: string
  pln_OperationID :: string
  pln_LifetimeHoldID :: string
  pln_ReaderHoldID :: string
  pln_Target :: target
  pln_Path :: "timeline list"
  pln_Chain :: "commit list"
  pln_RequiredArchive :: "wal_range list option"

definition Plan_type :: gotype where
  "Plan_type = TStruct [(''schema'', TNumber), (''source'', Identity_type), (''destination_repository_id'', TString),
     (''target_cluster_uid'', TString), (''bootstrap_sha256'', TString), (''operation_id'', TString),
     (''lifetime_hold_id'', TString), (''reader_hold_id'', TString), (''target'', Target_type),
     (''path'', TSlice Timeline_type), (''chain'', TSlice Commit_type), (''required_archive'', TSlice WALRange_type)]"

definition enc_Plan :: "plan \<Rightarrow> json" where
  "enc_Plan v = JObj [(''schema'', enc_int (pln_Schema v)), (''source'', enc_Identity (pln_Source v)),
     (''destination_repository_id'', JStr (pln_DestinationRepositoryID v)),
     (''target_cluster_uid'', JStr (pln_TargetClusterUID v)), (''bootstrap_sha256'', JStr (pln_BootstrapSHA256 v)),
     (''operation_id'', JStr (pln_OperationID v)), (''lifetime_hold_id'', JStr (pln_LifetimeHoldID v)),
     (''reader_hold_id'', JStr (pln_ReaderHoldID v)), (''target'', enc_Target (pln_Target v)),
     (''path'', enc_list enc_Timeline (pln_Path v)), (''chain'', enc_list enc_Commit (pln_Chain v)),
     (''required_archive'', enc_ptr (enc_list enc_WALRange) (pln_RequiredArchive v))]"

definition dec_Plan :: "json \<Rightarrow> plan option" where
  "dec_Plan j =
     Option.bind (fld j ''schema'' dec_int) (\<lambda>x0. Option.bind (fld j ''source'' dec_Identity) (\<lambda>x1.
     Option.bind (fld j ''destination_repository_id'' dec_str) (\<lambda>x2.
     Option.bind (fld j ''target_cluster_uid'' dec_str) (\<lambda>x3.
     Option.bind (fld j ''bootstrap_sha256'' dec_str) (\<lambda>x4.
     Option.bind (fld j ''operation_id'' dec_str) (\<lambda>x5.
     Option.bind (fld j ''lifetime_hold_id'' dec_str) (\<lambda>x6.
     Option.bind (fld j ''reader_hold_id'' dec_str) (\<lambda>x7.
     Option.bind (fld j ''target'' dec_Target) (\<lambda>x8.
     Option.bind (fld j ''path'' (dec_list dec_Timeline)) (\<lambda>x9.
     Option.bind (fld j ''chain'' (dec_list dec_Commit)) (\<lambda>x10.
     Option.bind (fld j ''required_archive'' (dec_ptr (dec_list dec_WALRange))) (\<lambda>x11.
     Some \<lparr>pln_Schema = x0, pln_Source = x1, pln_DestinationRepositoryID = x2, pln_TargetClusterUID = x3,
       pln_BootstrapSHA256 = x4, pln_OperationID = x5, pln_LifetimeHoldID = x6, pln_ReaderHoldID = x7,
       pln_Target = x8, pln_Path = x9, pln_Chain = x10, pln_RequiredArchive = x11\<rparr>))))))))))))"

section \<open>Targets\<close>

definition Target_validate :: "target \<Rightarrow> err + unit" where
  "Target_validate t =
     (if tgt_Timeline t = 0 \<or> (case tgt_BackupUID t of None \<Rightarrow> False | Some u \<Rightarrow> \<not> validID u) then Inl ErrInvalid
      else if tgt_Kind t = ''latest'' then (if tgt_Value t \<noteq> [] \<or> tgt_Exclusive t then Inl ErrInvalid else Inr ())
      else if tgt_Kind t = ''time'' then (if timeTarget (tgt_Value t) = None then Inl ErrInvalid else Inr ())
      else if tgt_Kind t = ''lsn'' then (if ParseLSN (tgt_Value t) = None then Inl ErrInvalid else Inr ())
      else if tgt_Kind t = ''name'' then
        (if \<not> validText (tgt_Value t) 63 \<or> tgt_Exclusive t \<or> tgt_BackupUID t = None then Inl ErrInvalid else Inr ())
      else if tgt_Kind t = ''xid'' then
        (case decimal (tgt_Value t) of
           None \<Rightarrow> Inl ErrInvalid
         | Some n \<Rightarrow> if n < 3 \<or> n > 2 ^ 32 - 1 \<or> tgt_BackupUID t = None then Inl ErrInvalid else Inr ())
      else if tgt_Kind t = ''immediate'' then
        (if tgt_Value t \<noteq> [] \<or> tgt_Exclusive t \<or> tgt_BackupUID t = None then Inl ErrInvalid else Inr ())
      else Inl ErrInvalid)"

section \<open>Choosing a base backup\<close>

fun index_of :: "('a \<Rightarrow> bool) \<Rightarrow> 'a list \<Rightarrow> nat option" where
  "index_of P [] = None"
| "index_of P (x # xs) = (if P x then Some 0 else map_option Suc (index_of P xs))"

text \<open>The position a timeline forks at: \<open>None\<close> for a nil or malformed \<open>ForkLSN\<close>.\<close>

definition fork_at :: "timeline \<Rightarrow> u64 option" where
  "fork_at t = Option.bind (tml_ForkLSN t) ParseLSN"

definition target_after :: "target \<Rightarrow> commit \<Rightarrow> timeline list \<Rightarrow> bool" where
  "target_after t c later =
     (if tgt_Kind t = ''time'' then
        (case (stamp (cmt_StoppedAt c), timeTarget (tgt_Value t)) of
           ((stop, ok), Some tt) \<Rightarrow> ok \<and> stop < tt
         | _ \<Rightarrow> False)
      else if tgt_Kind t = ''lsn'' then
        (case ParseLSN (tgt_Value t) of
           None \<Rightarrow> False
         | Some tli \<Rightarrow> lsn_or_zero (cmt_StopLSN c) < tli \<and>
             list_all (\<lambda>v. case fork_at v of None \<Rightarrow> False | Some fork \<Rightarrow> fork \<le> tli) later)
      else True)"

definition eligible :: "commit \<Rightarrow> target \<Rightarrow> timeline list \<Rightarrow> bool" where
  "eligible c t path =
     (if (case tgt_BackupUID t of None \<Rightarrow> False | Some u \<Rightarrow> u \<noteq> cmt_BackupUID c) then False
      else case index_of (\<lambda>v. tml_ID v = cmt_Timeline c) path of
        None \<Rightarrow> False
      | Some idx \<Rightarrow>
         if idx + 1 < length path \<and> (case fork_at (path ! (idx + 1)) of
              None \<Rightarrow> True | Some fork \<Rightarrow> fork \<le> lsn_or_zero (cmt_StopLSN c)) then False
         else target_after t c (drop (idx + 1) path))"

definition newer :: "commit \<Rightarrow> commit \<Rightarrow> bool" where
  "newer a b = (let ta = fst (stamp (cmt_StoppedAt a)); tb = fst (stamp (cmt_StoppedAt b)) in
     if ta \<noteq> tb then ta > tb else cmt_BackupUID a > cmt_BackupUID b)"

section \<open>Validating a plan\<close>

text \<open>The path loop: the IDs seen so far, oldest first, and the last fork position.\<close>

definition check_node :: "timeline \<Rightarrow> u32 list \<times> u64 \<Rightarrow> err + u32 list \<times> u64" where
  "check_node t = (\<lambda>(ids, lst).
     if tml_ID t = 0 then Inl ErrInvalid
     else if tml_ID t \<in> set ids then Inl ErrInvalid
     else if ids = [] then (if tml_ForkLSN t \<noteq> None then Inl ErrInvalid else Inr (ids @ [tml_ID t], lst))
     else if tml_ID t \<le> last ids then Inl ErrInvalid
     else case fork_at t of
       None \<Rightarrow> Inl ErrInvalid
     | Some n \<Rightarrow> if n < lst then Inl ErrInvalid else Inr (ids @ [tml_ID t], n))"

text \<open>The coverage loop: the position reached and the index of its timeline.\<close>

definition check_range :: "timeline list \<Rightarrow> wal_range \<Rightarrow> u64 \<times> nat \<Rightarrow> err + u64 \<times> nat" where
  "check_range path w = (\<lambda>(pos, pi). case (ParseLSN (wr_StartLSN w), ParseLSN (wr_EndLSN w)) of
     (Some a, Some b) \<Rightarrow>
       if a \<noteq> pos \<or> a \<ge> b \<or> wr_Timeline w \<noteq> tml_ID (path ! pi) then Inl ErrInvalid
       else if pi + 1 < length path then
         (let fork = (case fork_at (path ! (pi + 1)) of Some n \<Rightarrow> n | None \<Rightarrow> 0) in
          if b > fork then Inl ErrInvalid
          else if b = fork then Inr (b, pi + 1) else Inr (b, pi))
       else Inr (b, pi)
   | _ \<Rightarrow> Inl ErrInvalid)"

definition plan_ids_ok :: "plan \<Rightarrow> bool" where
  "plan_ids_ok p \<longleftrightarrow>
     pln_Schema p = 1 \<and> Identity_Validate (pln_Source p) = Inr () \<and> validID (pln_DestinationRepositoryID p) \<and>
     pln_DestinationRepositoryID p \<noteq> idn_RepositoryID (pln_Source p) \<and> validID (pln_TargetClusterUID p) \<and>
     pln_TargetClusterUID p \<noteq> idn_WriterClusterUID (pln_Source p) \<and> validID (pln_ReaderHoldID p) \<and>
     RestoreOperationID (pln_TargetClusterUID p) (pln_BootstrapSHA256 p) = Some (pln_OperationID p) \<and>
     pln_LifetimeHoldID p = pln_OperationID p"

definition plan_sizes_ok :: "plan \<Rightarrow> bool" where
  "plan_sizes_ok p \<longleftrightarrow> 1 \<le> length (pln_Chain p) \<and> length (pln_Chain p) \<le> 2 \<and> 1 \<le> length (pln_Path p) \<and>
     length (pln_Path p) \<le> 1024 \<and> (case pln_RequiredArchive p of None \<Rightarrow> False | Some ws \<Rightarrow> length ws \<le> 1024)"

definition check_chain :: "plan \<Rightarrow> err + unit" where
  "check_chain p =
     res_bind (fold_res (\<lambda>c _. Commit_validate c (pln_Source p)) (pln_Chain p) ()) (\<lambda>_.
     if cmt_Kind (pln_Chain p ! 0) \<noteq> ''full'' then Inl ErrCorrupt
     else if length (pln_Chain p) = 2 then validateParent (pln_Chain p ! 1) (pln_Chain p ! 0)
     else Inr ())"

definition plan_ranges :: "plan \<Rightarrow> wal_range list" where
  "plan_ranges p = (case pln_RequiredArchive p of Some ws \<Rightarrow> ws | None \<Rightarrow> [])"

definition check_coverage :: "plan \<Rightarrow> commit \<Rightarrow> err + unit" where
  "check_coverage p sel = (let
     pi0 = (case index_of (\<lambda>v. tml_ID v = cmt_Timeline sel) (pln_Path p) of Some i \<Rightarrow> i | None \<Rightarrow> 0);
     final = length (pln_Path p) - 1 in
     res_bind (fold_res (check_range (pln_Path p)) (plan_ranges p) (lsn_or_zero (cmt_BundledWALEndLSN sel), pi0)) (\<lambda>(pos, pi).
     if plan_ranges p \<noteq> [] \<and> pi \<noteq> final then Inl ErrInvalid
     else if tgt_Kind (pln_Target p) \<noteq> ''immediate'' \<and> pi \<noteq> final then Inl ErrInvalid
     else Inr ()))"

definition Plan_Validate :: "plan \<Rightarrow> err + unit" where
  "Plan_Validate p =
     (if \<not> plan_ids_ok p then Inl ErrIdentity
      else res_bind (Target_validate (pln_Target p)) (\<lambda>_.
        if \<not> plan_sizes_ok p then Inl ErrCapacity
        else res_bind (check_chain p) (\<lambda>_.
        res_bind (fold_res check_node (pln_Path p) ([], 0)) (\<lambda>_.
        if tml_ID (last (pln_Path p)) \<noteq> tgt_Timeline (pln_Target p) then Inl ErrInvalid
        else if \<not> eligible (last (pln_Chain p)) (pln_Target p) (pln_Path p) then Inl ErrInvalid
        else check_coverage p (last (pln_Chain p))))))"

section \<open>Timeline histories\<close>

text \<open>The runes of a text: a byte that starts no well-formed rune stands alone.\<close>

function runes :: "string \<Rightarrow> string list" where
  "runes s = (if s = [] then [] else let n = max 1 (utf8_len s) in take n s # runes (drop n s))"
  by pat_completeness auto
termination
  by (relation "measure length") (auto simp: Let_def)

declare runes.simps [simp del]

text \<open>\<open>unicode.IsSpace\<close> on the encoded rune.\<close>

definition space_rune :: "string \<Rightarrow> bool" where
  "space_rune r \<longleftrightarrow> (case map (\<lambda>c. of_char c :: int) r of
       [a] \<Rightarrow> (9 \<le> a \<and> a \<le> 13) \<or> a = 32
     | [a, b] \<Rightarrow> a = 194 \<and> (b = 133 \<or> b = 160)
     | [a, b, c] \<Rightarrow> (a = 225 \<and> b = 154 \<and> c = 128) \<or>
         (a = 226 \<and> b = 128 \<and> ((128 \<le> c \<and> c \<le> 138) \<or> c = 168 \<or> c = 169 \<or> c = 175)) \<or>
         (a = 226 \<and> b = 129 \<and> c = 159) \<or> (a = 227 \<and> b = 128 \<and> c = 128)
     | _ \<Rightarrow> False)"

definition trim_space :: "string \<Rightarrow> string" where
  "trim_space s = concat (rev (dropWhile space_rune (rev (dropWhile space_rune (runes s)))))"

text \<open>\<open>strings.Fields\<close>: the maximal runs without space.\<close>

fun fields_of :: "string list \<Rightarrow> string \<Rightarrow> string list" where
  "fields_of [] cur = (if cur = [] then [] else [cur])"
| "fields_of (r # rs) cur =
     (if space_rune r then (if cur = [] then [] else [cur]) @ fields_of rs [] else fields_of rs (cur @ r))"

definition str_fields :: "string \<Rightarrow> string list" where
  "str_fields s = fields_of (runes s) []"

record history_state =
  hs_path :: "timeline list"
  hs_previous :: u32
  hs_last :: u64

definition history_fork :: "history_state \<Rightarrow> string option" where
  "history_fork h = (if hs_path h = [] then None else Some (format_LSN (hs_last h)))"

definition history_line :: "u32 \<Rightarrow> string \<Rightarrow> history_state \<Rightarrow> err + history_state" where
  "history_line tli raw h = (let line = trim_space raw in
     if line = [] \<or> has_prefix line ''#'' then Inr h
     else let fs = str_fields line in
       if length fs < 3 \<or> length (hs_path h) \<ge> 1023 then Inl ErrCorrupt
       else case (parse_uint 10 32 (fs ! 0), ParseLSN (fs ! 1)) of
         (Some n, Some e) \<Rightarrow>
           if n = 0 \<or> (of_int n :: u32) \<le> hs_previous h \<or> (of_int n :: u32) \<ge> tli \<or> (hs_path h \<noteq> [] \<and> e < hs_last h) then Inl ErrCorrupt
           else Inr \<lparr>hs_path = hs_path h @ [\<lparr>tml_ID = of_int n, tml_ForkLSN = history_fork h\<rparr>], hs_previous = of_int n, hs_last = e\<rparr>
       | _ \<Rightarrow> Inl ErrCorrupt)"

definition ParseHistory :: "u32 \<Rightarrow> bytes \<Rightarrow> err + timeline list" where
  "ParseHistory tli b =
     (if tli \<le> 1 \<or> b = [] \<or> int (length b) > 1048576 then Inl ErrInvalid
      else res_bind (fold_res (history_line tli) (split_on (CHR 0x0A) b) \<lparr>hs_path = [], hs_previous = 0, hs_last = 0\<rparr>) (\<lambda>h.
        if hs_path h = [] then Inl ErrCorrupt
        else Inr (hs_path h @ [\<lparr>tml_ID = tli, tml_ForkLSN = Some (format_LSN (hs_last h))\<rparr>])))"

section \<open>Coverage\<close>

definition intersects :: "int \<Rightarrow> u32 \<Rightarrow> u64 \<Rightarrow> wal_range \<Rightarrow> bool" where
  "intersects sz tli start w \<longleftrightarrow> wr_Timeline w = tli \<and>
     (let a = lsn_or_zero (wr_StartLSN w); b = lsn_or_zero (wr_EndLSN w) in start < b \<and> (a < start \<or> a - start < of_int sz))"

definition Coverage :: "plan \<Rightarrow> string \<Rightarrow> err + bool \<times> bool" where
  "Coverage p name =
     res_bind (Plan_Validate p) (\<lambda>_.
     res_bind (walTimeline name (idn_WALSegmentBytes (pln_Source p))) (\<lambda>tli.
     if has_suffix name ''.history'' then Inr (False, list_ex (\<lambda>t. tml_ID t = tli \<and> tli > 1) (pln_Path p))
     else if length name \<noteq> 24 then Inr (False, False)
     else let sz = idn_WALSegmentBytes (pln_Source p); start = segment_start name sz in
       Inr (list_ex (intersects sz tli start) (cmt_WALRanges (last (pln_Chain p))),
            list_ex (intersects sz tli start) (plan_ranges p))))"

end
