(* ===== verification/Catalog.thy ===== *)
theory Catalog
  imports Publication Recovery_Plan
begin

text \<open>
  The backup catalog (repository/catalog.go, repository/inventory.go), the scans built on it
  (repository/differential.go, repository/backup_history.go) and the writer's opening
  (repository/writer.go). A spool file is the list of the entries written to it; every local
  file operation may fail, which \<open>disk\<close> asks the world.
\<close>

section \<open>Keys\<close>

definition disk :: "'w sys \<Rightarrow> ('w, unit) act" where
  "disk S w = (case os_temp S w of (ok, w') \<Rightarrow> (if ok then Inr () else Inl OsErr, w'))"

definition backup_parts :: "repo \<Rightarrow> string \<Rightarrow> string list" where
  "backup_parts r key = split_on (CHR ''/'') (trim_prefix key (rp_root r @ ''backups/''))"

text \<open>\<open>uid, kind, ok\<close>: \<open>None\<close> when not \<open>ok\<close>.\<close>

definition catalogKey :: "repo \<Rightarrow> string \<Rightarrow> (string \<times> string) option" where
  "catalogKey r key = (let p = backup_parts r key in
     if \<not> has_prefix key (rp_root r @ ''backups/'') \<or> length p < 2 \<or> \<not> validID (p ! 0) then None
     else if length p = 2 then
       (if p ! 1 = ''commit.json'' then Some (p ! 0, ''commit'')
        else if p ! 1 = ''request.json'' \<or> p ! 1 = ''retired.json'' then Some (p ! 0, ''metadata'')
        else None)
     else if length p < 4 \<or> p ! 1 \<noteq> ''attempts'' \<or> \<not> validID (p ! 2) then None
     else if length p = 4 \<and> (p ! 3 = ''claim.json'' \<or> p ! 3 = ''manifest.pg.json'') then Some (p ! 0, ''attempt'')
     else if length p = 5 \<and> p ! 3 = ''data'' then
       (let name = trim_suffix (p ! 4) ''.gz'' in
        if \<not> has_suffix name ''.tar'' then None
        else case decimal (trim_suffix name ''.tar'') of
          Some n \<Rightarrow> if n < 66 then Some (p ! 0, ''artifact'') else None
        | None \<Rightarrow> None)
     else None)"

text \<open>Called for keys \<open>catalogKey\<close> accepts, so a third part exists when there are not two.\<close>

definition validateListedMetadata :: "'w sys \<Rightarrow> repo \<Rightarrow> string \<Rightarrow> ('w, unit) act" where
  "validateListedMetadata S r key = (let p = backup_parts r key; uid = p ! 0 in
     if length p = 2 then
       andthen (st_Read S key smallLimit) (\<lambda>(b, _).
         if p ! 1 = ''request.json'' then
           (case strict Request_type dec_Request b smallLimit of
              Inl _ \<Rightarrow> fail ErrCorrupt
            | Inr q \<Rightarrow> check (Request_validate q (rp_id r) = Inr () \<and> req_BackupUID q = uid) ErrCorrupt)
         else if p ! 1 = ''retired.json'' then
           (case strict Retirement_type dec_Retirement b smallLimit of
              Inl _ \<Rightarrow> fail ErrCorrupt
            | Inr rt \<Rightarrow> andthen (readCommit S r uid) (\<lambda>(_, cb, _). lift (Retirement_validate rt (rp_id r) uid (digest cb))))
         else fail ErrCorrupt)
     else
       andthen (readClaim S r uid (p ! 2)) (\<lambda>cl.
       andthen (st_Read S (backup_key r uid @ ''request.json'') smallLimit) (\<lambda>(qb, _).
         case strict Request_type dec_Request qb smallLimit of
           Inl _ \<Rightarrow> fail ErrCorrupt
         | Inr q \<Rightarrow> check (Request_validate q (rp_id r) = Inr () \<and> req_BackupUID q = uid \<and> digest qb = clm_RequestSHA256 cl)
             ErrCorrupt)))"

section \<open>The spool\<close>

record limits =
  lim_MaxRecords :: int
  lim_MaxSpoolBytes :: int

definition CatalogLimits_validate :: "limits \<Rightarrow> err + unit" where
  "CatalogLimits_validate l =
     (if lim_MaxRecords l < 1 \<or> lim_MaxRecords l > MaxCatalogRecords \<or> lim_MaxSpoolBytes l < commitLimit \<or>
         lim_MaxSpoolBytes l > 2 ^ 40 then Inl ErrCapacity else Inr ())"

record entry =
  ent_Commit :: commit
  ent_CommitSHA256 :: string
  ent_PublishedAt :: instant
  ent_Retired :: bool

text \<open>\<open>json.Marshal\<close> of an entry: a time outside the years 0 to 9999 has no JSON form.\<close>

definition enc_Entry :: "entry \<Rightarrow> json" where
  "enc_Entry v = JObj [(''Commit'', enc_Commit (ent_Commit v)), (''CommitSHA256'', JStr (ent_CommitSHA256 v)),
     (''PublishedAt'', JStr (format_rfc3339 (ent_PublishedAt v))), (''Retired'', JBool (ent_Retired v))]"

definition json_time :: "instant \<Rightarrow> bool" where
  "json_time t = (let y = fst (civil (t div 1000000000 div 86400)) in 0 \<le> y \<and> y \<le> 9999)"

record spool =
  spl_count :: int
  spl_size :: int
  spl_entries :: "entry list"

definition spool_live :: "'w sys \<Rightarrow> repo \<Rightarrow> limits \<Rightarrow> commit \<Rightarrow> int \<Rightarrow> ('w, int) act" where
  "spool_live S r l c cnt =
     (if cnt + 1 > lim_MaxRecords l then fail ErrCapacity
      else andthen (parentMetadata S r c) (\<lambda>_. andthen (payloadMetadata S r c) (\<lambda>_. ret (cnt + 1))))"

definition spool_entry :: "'w sys \<Rightarrow> limits \<Rightarrow> entry \<Rightarrow> int \<Rightarrow> spool \<Rightarrow> ('w, spool) act" where
  "spool_entry S l en cnt s =
     (if \<not> json_time (ent_PublishedAt en) then fail OsErr
      else let sz = spl_size s + int (length (render (enc_Entry en)) + 1) in
        if sz > lim_MaxSpoolBytes l then fail ErrCapacity
        else andthen (disk S) (\<lambda>_. ret \<lparr>spl_count = cnt, spl_size = sz, spl_entries = spl_entries s @ [en]\<rparr>))"

definition spool_item :: "'w sys \<Rightarrow> repo \<Rightarrow> limits \<Rightarrow> info \<Rightarrow> spool \<Rightarrow> ('w, spool) act" where
  "spool_item S r l i s = (case catalogKey r (inf_Key i) of
     None \<Rightarrow> fail ErrCorrupt
   | Some (uid, kind) \<Rightarrow>
      if kind \<noteq> ''commit'' then andthen (validateListedMetadata S r (inf_Key i)) (\<lambda>_. ret s)
      else andthen (readCommit S r uid) (\<lambda>(c, b, inf).
        andthen (requestFor S r c) (\<lambda>_.
        attempt (live S r c b) (\<lambda>le. case le of
          Inr _ \<Rightarrow> andthen (spool_live S r l c (spl_count s)) (\<lambda>cnt.
            spool_entry S l \<lparr>ent_Commit = c, ent_CommitSHA256 = digest b, ent_PublishedAt = inf_Modified inf, ent_Retired = False\<rparr> cnt s)
        | Inl e \<Rightarrow> if e \<noteq> ErrRetired then fail e
            else spool_entry S l \<lparr>ent_Commit = c, ent_CommitSHA256 = digest b, ent_PublishedAt = inf_Modified inf, ent_Retired = True\<rparr>
              (spl_count s) s))))"

definition spoolCatalog :: "'w sys \<Rightarrow> repo \<Rightarrow> limits \<Rightarrow> ('w, entry list) act" where
  "spoolCatalog S r l =
     andthen (disk S) (\<lambda>_.
     andthen (list_with (st_List S (rp_root r @ ''backups/'') MaxCatalogRecords) (spool_item S r l)
       \<lparr>spl_count = 0, spl_size = 0, spl_entries = []\<rparr>) (\<lambda>s.
     andthen (disk S) (\<lambda>_.
     andthen (disk S) (\<lambda>_. ret (spl_entries s)))))"

text \<open>\<open>scanEntries\<close>: the context is checked before every entry and before the end is accepted.\<close>

fun scan_loop :: "'w sys \<Rightarrow> entry list \<Rightarrow> (entry \<Rightarrow> 'v \<Rightarrow> ('w, 'v) act) \<Rightarrow> 'v \<Rightarrow> ('w, 'v) act" where
  "scan_loop S [] visit v = andthen (ctx_err S) (\<lambda>_. andthen (disk S) (\<lambda>_. ret v))"
| "scan_loop S (en # es) visit v =
     andthen (ctx_err S) (\<lambda>_. andthen (disk S) (\<lambda>_. andthen (visit en v) (scan_loop S es visit)))"

definition scanEntries :: "'w sys \<Rightarrow> entry list \<Rightarrow> (entry \<Rightarrow> 'v \<Rightarrow> ('w, 'v) act) \<Rightarrow> 'v \<Rightarrow> ('w, 'v) act" where
  "scanEntries S es visit v = andthen (disk S) (\<lambda>_. scan_loop S es visit v)"

text \<open>A catalog names its hold by the holder entry, which is unique to it.\<close>

record catalog =
  cat_holder :: holder
  cat_entries :: "entry list"
  cat_closed :: bool

definition Hold_Catalog :: "'w sys \<Rightarrow> repo \<Rightarrow> hold \<Rightarrow> limits \<Rightarrow> ('w, catalog) act" where
  "Hold_Catalog S r h l =
     andthen (Hold_check S r h) (\<lambda>_.
     andthen (lift (CatalogLimits_validate l)) (\<lambda>_.
     andthen (spoolCatalog S r l) (\<lambda>es. ret \<lparr>cat_holder = hd_holder h, cat_entries = es, cat_closed = False\<rparr>)))"

definition Visit :: "'w sys \<Rightarrow> repo \<Rightarrow> hold \<Rightarrow> catalog \<Rightarrow> (entry \<Rightarrow> 'v \<Rightarrow> ('w, 'v) act) \<Rightarrow> 'v \<Rightarrow> ('w, 'v) act" where
  "Visit S r h c visit v =
     (if cat_closed c then fail ErrClosed
      else andthen (Hold_check S r h) (\<lambda>_. scanEntries S (cat_entries c) visit v))"

text \<open>\<open>Close\<close>: closed for good; the file's close and removal may fail.\<close>

definition Catalog_Close :: "'w sys \<Rightarrow> catalog \<Rightarrow> 'w \<Rightarrow> ((err + unit) \<times> catalog) \<times> 'w" where
  "Catalog_Close S c w =
     (if cat_closed c then ((Inr (), c), w)
      else case attempt (disk S) (\<lambda>e. attempt (disk S) (\<lambda>re. lift (case e of Inl _ \<Rightarrow> e | Inr _ \<Rightarrow> re))) w of (res, w') \<Rightarrow> ((res, c\<lparr>cat_closed := True\<rparr>), w'))"

section \<open>Differential backups\<close>

text \<open>The choice of \<open>BeginDifferential\<close> and of \<open>Select\<close>: the newest acceptable entry.\<close>

definition pick :: "(commit \<Rightarrow> bool) \<Rightarrow> entry \<Rightarrow> commit option \<Rightarrow> commit option" where
  "pick P en chosen =
     (if \<not> ent_Retired en \<and> P (ent_Commit en) \<and> (case chosen of None \<Rightarrow> True | Some c \<Rightarrow> newer (ent_Commit en) c)
      then Some (ent_Commit en) else chosen)"

definition choose_root :: "'w sys \<Rightarrow> repo \<Rightarrow> (commit \<Rightarrow> bool) \<Rightarrow> ('w, string) act" where
  "choose_root S r elig =
     andthen (spoolCatalog S r \<lparr>lim_MaxRecords = MaxCatalogRecords, lim_MaxSpoolBytes = 268435456\<rparr>) (\<lambda>es.
     andthen (scanEntries S es (\<lambda>en sel. let sel' = pick (\<lambda>c. cmt_Kind c = ''full'' \<and> elig c) en sel in
         andthen (ctx_err S) (\<lambda>_. ret sel')) None) (\<lambda>sel.
     case sel of None \<Rightarrow> fail ErrBlocked | Some c \<Rightarrow> ret (cmt_BackupUID c)))"

definition frozen_root :: "'w sys \<Rightarrow> repo \<Rightarrow> (commit \<Rightarrow> bool) \<Rightarrow> request \<Rightarrow> ('w, string option) act" where
  "frozen_root S r elig q =
     attempt (st_Read S (backup_key r (req_BackupUID q) @ ''request.json'') smallLimit) (\<lambda>rd. case rd of
       Inr (b, _) \<Rightarrow> (case strict Request_type dec_Request b smallLimit of
           Inl _ \<Rightarrow> fail ErrIdentity
         | Inr frozen \<Rightarrow>
            if Request_validate frozen (rp_id r) \<noteq> Inr () \<or> req_RequestedKind frozen \<noteq> ''differential'' then fail ErrIdentity
            else ret (req_RootBackupUID frozen))
     | Inl e \<Rightarrow> if Is e NotFound then andthen (choose_root S r elig) (\<lambda>uid. ret (Some uid)) else fail e)"

definition BeginDifferential :: "'w sys \<Rightarrow> repo \<Rightarrow> request \<Rightarrow> (commit \<Rightarrow> bool) \<Rightarrow> ('w \<times> hold, begun \<times> commit option) act" where
  "BeginDifferential S r q elig =
     andthen get_hold (\<lambda>h.
     andthen (on_world (Hold_check S r h)) (\<lambda>_.
     if req_RequestedKind q \<noteq> ''differential'' \<or> \<not> validID (req_BackupUID q) \<or> hld_Kind (hd_holder h) \<noteq> ''backup'' \<or>
        req_BackupUID q \<noteq> hld_OperationID (hd_holder h) then fail ErrInvalid
     else andthen (on_world (frozen_root S r elig q)) (\<lambda>root. let q' = q\<lparr>req_RootBackupUID := root\<rparr> in
     andthen (begin_attempt S r q') (\<lambda>bg. case bg of
       Winner w \<Rightarrow> ret (bg, None)
     | Fresh a \<Rightarrow> andthen (on_world (readCommit S r (case root of Some u \<Rightarrow> u | None \<Rightarrow> []))) (\<lambda>(c, _, _). ret (bg, Some c))))))"

section \<open>Publication history\<close>

record backup_history =
  bhs_Full :: instant
  bhs_Differential :: instant

definition history_item :: "'w sys \<Rightarrow> repo \<Rightarrow> info \<Rightarrow> backup_history \<Rightarrow> ('w, backup_history) act" where
  "history_item S r i h =
     andthen (ctx_err S) (\<lambda>_. case catalogKey r (inf_Key i) of
       None \<Rightarrow> fail ErrCorrupt
     | Some (uid, kind) \<Rightarrow>
        if kind \<noteq> ''commit'' then andthen (validateListedMetadata S r (inf_Key i)) (\<lambda>_. ret h)
        else andthen (readCommit S r uid) (\<lambda>(c, _, pub).
          andthen (requestFor S r c) (\<lambda>_.
          andthen (if cmt_Kind c = ''differential'' then
              andthen (readCommit S r (cmt_RootBackupUID c)) (\<lambda>(p, _, _). lift (validateParent c p))
            else ret ()) (\<lambda>_. let m = inf_Modified pub in
          if m = zero_instant \<or> m div 1000000000 \<le> 0 then fail ErrCorrupt
          else if cmt_Kind c = ''differential'' then
            ret (if m > bhs_Differential h then h\<lparr>bhs_Differential := m\<rparr> else h)
          else ret (if m > bhs_Full h then h\<lparr>bhs_Full := m\<rparr> else h)))))"

definition ReadBackupHistory :: "'w sys \<Rightarrow> string \<Rightarrow> string \<Rightarrow> ('w, backup_history) act" where
  "ReadBackupHistory S rid writer =
     (if \<not> validID rid \<or> \<not> validID writer then fail ErrInvalid
      else andthen (st_Read S (root_of rid @ ''repository.json'') smallLimit) (\<lambda>(b, _).
        case strict Identity_type dec_Identity b smallLimit of
          Inl _ \<Rightarrow> fail ErrIdentity
        | Inr idn \<Rightarrow>
           if Identity_Validate idn \<noteq> Inr () \<or> idn_RepositoryID idn \<noteq> rid \<or> idn_WriterClusterUID idn \<noteq> writer then fail ErrIdentity
           else let r = \<lparr>rp_id = idn, rp_root = root_of rid, rp_process = []\<rparr> in
             andthen (list_with (st_List S (root_of rid @ ''backups/'') MaxCatalogRecords) (history_item S r)
               \<lparr>bhs_Full = zero_instant, bhs_Differential = zero_instant\<rparr>) (\<lambda>h.
             andthen (ctx_err S) (\<lambda>_. ret h))))"

end
