(* ===== verification/Recovery_Lemmas.thy ===== *)
theory Recovery_Lemmas
  imports Recovery_Plan
begin

text \<open>
  What validation of a recovery plan establishes: ascending paths, histories that produce
  them, contiguous archive coverage, and the meaning of \<open>Coverage\<close> as an intersection of
  sets of log positions.
\<close>

section \<open>Paths\<close>

lemma check_node_step:
  assumes "check_node t (ids, lst) = Inr (ids', lst')"
  shows "ids' = ids @ [tml_ID t]" "tml_ID t \<noteq> 0" "ids = [] \<longleftrightarrow> tml_ForkLSN t = None"
    "ids \<noteq> [] \<Longrightarrow> last ids < tml_ID t \<and> fork_at t = Some lst' \<and> lst \<le> lst'" "ids = [] \<Longrightarrow> lst' = lst"
  using assms by (auto simp: check_node_def fork_at_def bind_eq_Some_conv split: if_splits option.splits)

text \<open>A path that passes: ascending IDs, and a fork position for every timeline but the first.\<close>

lemma check_nodes:
  assumes "fold_res check_node path (ids, lst) = Inr (ids', lst')" "sorted_wrt (<) ids"
  shows "ids' = ids @ map tml_ID path \<and> sorted_wrt (<) ids' \<and> (\<forall>k < length path. 0 < k \<or> ids \<noteq> [] \<longrightarrow> fork_at (path ! k) \<noteq> None)"
  using assms
proof (induction path arbitrary: ids lst)
  case (Cons t path)
  obtain i l where s: "check_node t (ids, lst) = Inr (i, l)" "fold_res check_node path (i, l) = Inr (ids', lst')"
    using Cons.prems(1) by auto
  note st = check_node_step[OF s(1)]
  have "x < tml_ID t" if "x \<in> set ids" for x
    using st(4) Cons.prems(2) that by (cases ids rule: rev_cases) (auto simp: sorted_wrt_append intro: less_trans)
  then have so: "sorted_wrt (<) i" using Cons.prems(2) by (auto simp: st(1) sorted_wrt_append)
  show ?case using Cons.IH[OF s(2) so] st by (auto simp: nth_Cons')
qed simp

lemma path_ascending:
  assumes "fold_res check_node path ([], 0) = Inr s"
  shows "sorted_wrt (<) (map tml_ID path)" "\<And>k. 0 < k \<Longrightarrow> k < length path \<Longrightarrow> fork_at (path ! k) \<noteq> None"
  using check_nodes[of path "[]" 0 "fst s" "snd s"] assms by auto

section \<open>Histories\<close>

definition history_inv :: "u32 \<Rightarrow> history_state \<Rightarrow> bool" where
  "history_inv tli h \<longleftrightarrow> length (hs_path h) \<le> 1023 \<and>
     (\<exists>lst. fold_res check_node (hs_path h) ([], 0) = Inr (map tml_ID (hs_path h), lst) \<and> lst \<le> hs_last h) \<and>
     (hs_path h \<noteq> [] \<longrightarrow> hs_previous h = tml_ID (last (hs_path h)) \<and> hs_previous h < tli)"

lemma fork_at_format [simp]: "fork_at \<lparr>tml_ID = i, tml_ForkLSN = Some (format_LSN n)\<rparr> = Some n"
  by (simp add: fork_at_def ParseLSN_format)

lemma check_node_next:
  assumes "fold_res check_node path ([], 0) = Inr (map tml_ID path, lst)" "path \<noteq> []" "lst \<le> n" "tml_ID (last path) < i"
  shows "fold_res check_node (path @ [\<lparr>tml_ID = i, tml_ForkLSN = Some (format_LSN n)\<rparr>]) ([], 0) = Inr (map tml_ID path @ [i], n)"
proof -
  have so: "sorted_wrt (<) (map tml_ID path)" by (rule path_ascending[OF assms(1)])
  have "i \<notin> set (map tml_ID path)"
    using so assms(2,4) by (cases path rule: rev_cases) (auto simp: sorted_wrt_append)
  moreover have "i \<noteq> 0" using assms(4) by (auto simp: word_less_nat_alt)
  moreover have "last (map tml_ID path) < i" using assms(2,4) by (simp add: last_map)
  ultimately show ?thesis using assms(1-3) by (simp add: fold_res_append check_node_def not_less not_le)
qed

lemma history_line_inv:
  assumes "history_line tli raw h = Inr h'" "history_inv tli h"
  shows "history_inv tli h'"
proof (cases "h' = h")
  case True
  then show ?thesis using assms(2) by simp
next
  case False
  let ?line = "trim_space raw"
  let ?fs = "str_fields ?line"
  obtain n e where ne: "parse_uint 10 32 (?fs ! 0) = Some n" "ParseLSN (?fs ! 1) = Some e"
    using assms(1) False by (auto simp: history_line_def Let_def split: if_splits option.splits)
  have step: "length (hs_path h) < 1023" "n \<noteq> 0" "\<not> (of_int n :: u32) \<le> hs_previous h" "\<not> (of_int n :: u32) \<ge> tli"
    "\<not> (hs_path h \<noteq> [] \<and> e < hs_last h)"
    "h' = \<lparr>hs_path = hs_path h @ [\<lparr>tml_ID = of_int n, tml_ForkLSN = history_fork h\<rparr>], hs_previous = of_int n, hs_last = e\<rparr>"
    using assms(1) False ne by (auto simp: history_line_def Let_def split: if_splits)
  have nz: "(of_int n :: u32) \<noteq> 0" using step(3) by (auto simp: word_le_nat_alt)
  obtain lst where lst: "fold_res check_node (hs_path h) ([], 0) = Inr (map tml_ID (hs_path h), lst)" "lst \<le> hs_last h"
    using assms(2) by (auto simp: history_inv_def)
  show ?thesis
  proof (cases "hs_path h = []")
    case True
    then show ?thesis using step nz by (auto simp: history_inv_def history_fork_def check_node_def)
  next
    case False
    then have "fold_res check_node (hs_path h') ([], 0) = Inr (map tml_ID (hs_path h) @ [of_int n], hs_last h)"
      using check_node_next[OF lst(1) False lst(2), of "of_int n"] assms(2) step
      by (auto simp: history_fork_def history_inv_def not_le)
    then show ?thesis using step False by (auto simp: history_inv_def not_le not_less)
  qed
qed

lemma ParseHistory_valid_path:
  assumes "ParseHistory tli b = Inr p"
  shows "\<exists>lst. fold_res check_node p ([], 0) = Inr (map tml_ID p, lst)" "tml_ID (last p) = tli" "2 \<le> length p" "length p \<le> 1024"
proof -
  obtain h where h: "fold_res (history_line tli) (split_on (CHR 0x0A) b) \<lparr>hs_path = [], hs_previous = 0, hs_last = 0\<rparr> = Inr h"
    "hs_path h \<noteq> []" "p = hs_path h @ [\<lparr>tml_ID = tli, tml_ForkLSN = Some (format_LSN (hs_last h))\<rparr>]"
    using assms by (auto simp: ParseHistory_def split: if_splits)
  have "history_inv tli h"
    by (rule fold_res_invariant[OF h(1)]) (auto simp: history_inv_def[of _ "\<lparr>hs_path = [], hs_previous = 0, hs_last = 0\<rparr>"] intro: history_line_inv)
  then show "\<exists>lst. fold_res check_node p ([], 0) = Inr (map tml_ID p, lst)" "tml_ID (last p) = tli" "2 \<le> length p" "length p \<le> 1024"
    using check_node_next[of "hs_path h" _ "hs_last h" tli] h(2,3) by (cases "hs_path h"; auto simp: history_inv_def)+
qed

section \<open>Coverage of a valid plan\<close>

text \<open>The log positions of a range, and the fork position of the \<open>k\<close>-th timeline of a path.\<close>

definition span :: "wal_range \<Rightarrow> int set" where
  "span w = {uint (lsn_or_zero (wr_StartLSN w)) ..< uint (lsn_or_zero (wr_EndLSN w))}"

definition fork_pos :: "timeline list \<Rightarrow> nat \<Rightarrow> int" where
  "fork_pos path k = (case fork_at (path ! k) of Some n \<Rightarrow> uint n | None \<Rightarrow> 0)"

text \<open>From \<open>lo\<close> on timeline \<open>i\<close> to \<open>hi\<close> on timeline \<open>j\<close>, every position is in a range of its timeline.\<close>

definition covers :: "timeline list \<Rightarrow> wal_range list \<Rightarrow> nat \<Rightarrow> int \<Rightarrow> nat \<Rightarrow> int \<Rightarrow> bool" where
  "covers path ws i lo j hi \<longleftrightarrow> (\<forall>k x. i \<le> k \<and> k \<le> j \<and> (if k = i then lo else fork_pos path k) \<le> x \<and>
      x < (if k = j then hi else fork_pos path (k + 1)) \<longrightarrow> (\<exists>w \<in> set ws. wr_Timeline w = tml_ID (path ! k) \<and> x \<in> span w))"

lemma check_range_step:
  assumes "check_range path w (pos, i) = Inr (pos', i')" "i < length path" "\<forall>k < length path. 0 < k \<longrightarrow> fork_at (path ! k) \<noteq> None"
  shows "span w = {uint pos ..< uint pos'}" "wr_Timeline w = tml_ID (path ! i)" "lsn_or_zero (wr_EndLSN w) = pos'" "pos < pos'"
    "i' = i \<or> (i' = i + 1 \<and> i' < length path \<and> uint pos' = fork_pos path i')"
proof -
  obtain a b where ab: "ParseLSN (wr_StartLSN w) = Some a" "ParseLSN (wr_EndLSN w) = Some b"
    using assms(1) by (auto simp: check_range_def split: option.splits)
  have s: "a = pos" "a < b" "wr_Timeline w = tml_ID (path ! i)" "pos' = b"
    "i' = i \<or> (i' = i + 1 \<and> i' < length path \<and> uint b = fork_pos path i')"
    using assms ab by (auto simp: check_range_def Let_def fork_pos_def not_le split: if_splits option.splits)
  then show "span w = {uint pos ..< uint pos'}" "wr_Timeline w = tml_ID (path ! i)" "lsn_or_zero (wr_EndLSN w) = pos'" "pos < pos'"
    "i' = i \<or> (i' = i + 1 \<and> i' < length path \<and> uint pos' = fork_pos path i')"
    using ab by (auto simp: span_def lsn_or_zero_def)
qed

lemma coversD:
  "covers path ws i lo j hi \<Longrightarrow> i \<le> k \<Longrightarrow> k \<le> j \<Longrightarrow> (if k = i then lo else fork_pos path k) \<le> x \<Longrightarrow>
   x < (if k = j then hi else fork_pos path (k + 1)) \<Longrightarrow> \<exists>w \<in> set ws. wr_Timeline w = tml_ID (path ! k) \<and> x \<in> span w"
  unfolding covers_def by blast

lemma covers_Cons_same:
  assumes "covers path ws i b j hi" "span w = {a ..< b}" "wr_Timeline w = tml_ID (path ! i)"
  shows "covers path (w # ws) i a j hi"
  unfolding covers_def
proof (intro allI impI, elim conjE)
  fix k x assume k: "i \<le> k" "k \<le> j" "(if k = i then a else fork_pos path k) \<le> x" "x < (if k = j then hi else fork_pos path (k + 1))"
  show "\<exists>w \<in> set (w # ws). wr_Timeline w = tml_ID (path ! k) \<and> x \<in> span w"
  proof (cases "k = i \<and> x < b")
    case True
    then show ?thesis using k assms(2,3) by auto
  next
    case False
    then have "(if k = i then b else fork_pos path k) \<le> x" using k(3) by auto
    from coversD[OF assms(1) k(1,2) this k(4)] show ?thesis by auto
  qed
qed

lemma covers_Cons_next:
  assumes "covers path ws (i + 1) b j hi" "span w = {a ..< b}" "wr_Timeline w = tml_ID (path ! i)" "b = fork_pos path (i + 1)" "i + 1 \<le> j"
  shows "covers path (w # ws) i a j hi"
  unfolding covers_def
proof (intro allI impI, elim conjE)
  fix k x assume k: "i \<le> k" "k \<le> j" "(if k = i then a else fork_pos path k) \<le> x" "x < (if k = j then hi else fork_pos path (k + 1))"
  show "\<exists>w \<in> set (w # ws). wr_Timeline w = tml_ID (path ! k) \<and> x \<in> span w"
  proof (cases "k = i")
    case True
    then show ?thesis using k assms by auto
  next
    case False
    then have "i + 1 \<le> k" "(if k = i + 1 then b else fork_pos path k) \<le> x" using k(1,3) assms(4) by auto
    from coversD[OF assms(1) this(1) k(2) this(2) k(4)] show ?thesis by auto
  qed
qed

lemma check_ranges_cover:
  assumes "fold_res (check_range path) ws (pos, i) = Inr (pos', i')" "i < length path" "\<forall>k < length path. 0 < k \<longrightarrow> fork_at (path ! k) \<noteq> None"
  shows "i \<le> i' \<and> i' < length path \<and> covers path ws i (uint pos) i' (uint pos') \<and>
    pos' = (if ws = [] then pos else lsn_or_zero (wr_EndLSN (last ws))) \<and> list_all (\<lambda>w. lsn_or_zero (wr_StartLSN w) < lsn_or_zero (wr_EndLSN w)) ws"
  using assms(1,2)
proof (induction ws arbitrary: pos i)
  case Nil
  then show ?case by (auto simp: covers_def)
next
  case (Cons w ws)
  obtain p k where s: "check_range path w (pos, i) = Inr (p, k)" "fold_res (check_range path) ws (p, k) = Inr (pos', i')"
    using Cons.prems(1) by auto
  note st = check_range_step[OF s(1) Cons.prems(2) assms(3)]
  have kl: "k < length path" using st(5) Cons.prems(2) by auto
  note IH = Cons.IH[OF s(2) kl]
  have "covers path (w # ws) i (uint pos) i' (uint pos')"
    using st(5)
  proof
    assume "k = i"
    then show ?thesis using IH st by (intro covers_Cons_same[of path ws i "uint p"]) auto
  next
    assume "k = i + 1 \<and> k < length path \<and> uint p = fork_pos path k"
    then show ?thesis using IH st by (intro covers_Cons_next[of path ws i "uint p"]) auto
  qed
  moreover have "lsn_or_zero (wr_StartLSN w) < lsn_or_zero (wr_EndLSN w)"
    using s(1) by (auto simp: check_range_def lsn_or_zero_def not_le split: option.splits if_splits)
  ultimately show ?case using IH st(3,5) by auto
qed

section \<open>What a valid plan is\<close>

lemma index_of_Some: "index_of P xs = Some i \<Longrightarrow> i < length xs \<and> P (xs ! i)"
  by (induction xs arbitrary: i) (auto split: if_splits)

lemma Plan_Validate_parts:
  assumes "Plan_Validate p = Inr ()"
  shows "plan_ids_ok p" "Target_validate (pln_Target p) = Inr ()" "plan_sizes_ok p" "check_chain p = Inr ()"
    "\<exists>s. fold_res check_node (pln_Path p) ([], 0) = Inr s" "tml_ID (last (pln_Path p)) = tgt_Timeline (pln_Target p)"
    "eligible (last (pln_Chain p)) (pln_Target p) (pln_Path p)" "check_coverage p (last (pln_Chain p)) = Inr ()"
  using assms by (auto simp: Plan_Validate_def split: if_splits)

lemma eligible_index:
  assumes "eligible c t path"
  shows "\<exists>i. index_of (\<lambda>v. tml_ID v = cmt_Timeline c) path = Some i \<and> i < length path \<and> tml_ID (path ! i) = cmt_Timeline c"
  using assms index_of_Some by (fastforce simp: eligible_def split: if_splits option.splits)

definition plan_frontier :: "plan \<Rightarrow> u64" where
  "plan_frontier p = (if plan_ranges p = [] then lsn_or_zero (cmt_BundledWALEndLSN (last (pln_Chain p)))
     else lsn_or_zero (wr_EndLSN (last (plan_ranges p))))"

lemma Plan_Validate_covers:
  assumes "Plan_Validate p = Inr ()"
  shows "\<exists>i j. i \<le> j \<and> j < length (pln_Path p) \<and> tml_ID (pln_Path p ! i) = cmt_Timeline (last (pln_Chain p)) \<and>
    (tgt_Kind (pln_Target p) \<noteq> ''immediate'' \<or> plan_ranges p \<noteq> [] \<longrightarrow> j = length (pln_Path p) - 1) \<and>
    covers (pln_Path p) (plan_ranges p) i (uint (lsn_or_zero (cmt_BundledWALEndLSN (last (pln_Chain p))))) j (uint (plan_frontier p))"
    "list_all (\<lambda>w. lsn_or_zero (wr_StartLSN w) < lsn_or_zero (wr_EndLSN w)) (plan_ranges p)"
proof -
  note v = Plan_Validate_parts[OF assms]
  let ?sel = "last (pln_Chain p)"
  obtain s where s: "fold_res check_node (pln_Path p) ([], 0) = Inr s" using v(5) by blast
  obtain i where i: "index_of (\<lambda>v. tml_ID v = cmt_Timeline ?sel) (pln_Path p) = Some i" "i < length (pln_Path p)"
    "tml_ID (pln_Path p ! i) = cmt_Timeline ?sel" using eligible_index[OF v(7)] by blast
  obtain pos j where f: "fold_res (check_range (pln_Path p)) (plan_ranges p) (lsn_or_zero (cmt_BundledWALEndLSN ?sel), i) = Inr (pos, j)"
    "plan_ranges p \<noteq> [] \<longrightarrow> j = length (pln_Path p) - 1" "tgt_Kind (pln_Target p) \<noteq> ''immediate'' \<longrightarrow> j = length (pln_Path p) - 1"
    using v(8) by (auto simp: check_coverage_def i(1) Let_def split: if_splits)
  have c: "i \<le> j \<and> j < length (pln_Path p) \<and> covers (pln_Path p) (plan_ranges p) i (uint (lsn_or_zero (cmt_BundledWALEndLSN ?sel))) j (uint pos) \<and>
      pos = plan_frontier p \<and> list_all (\<lambda>w. lsn_or_zero (wr_StartLSN w) < lsn_or_zero (wr_EndLSN w)) (plan_ranges p)"
    using check_ranges_cover[OF f(1) i(2)] path_ascending(2)[OF s] by (auto simp: plan_frontier_def)
  show "\<exists>i j. i \<le> j \<and> j < length (pln_Path p) \<and> tml_ID (pln_Path p ! i) = cmt_Timeline ?sel \<and>
    (tgt_Kind (pln_Target p) \<noteq> ''immediate'' \<or> plan_ranges p \<noteq> [] \<longrightarrow> j = length (pln_Path p) - 1) \<and>
    covers (pln_Path p) (plan_ranges p) i (uint (lsn_or_zero (cmt_BundledWALEndLSN ?sel))) j (uint (plan_frontier p))"
    using c f(2,3) i(3) by blast
  show "list_all (\<lambda>w. lsn_or_zero (wr_StartLSN w) < lsn_or_zero (wr_EndLSN w)) (plan_ranges p)" using c by simp
qed

section \<open>Intersection\<close>

lemma intersects_span:
  assumes "0 < sz" "sz < 2 ^ 64" "lsn_or_zero (wr_StartLSN w) < lsn_or_zero (wr_EndLSN w)"
  shows "intersects sz tli start w \<longleftrightarrow> wr_Timeline w = tli \<and> (\<exists>x \<in> span w. uint start \<le> x \<and> x < uint start + sz)"
proof -
  define a b where "a = lsn_or_zero (wr_StartLSN w)" and "b = lsn_or_zero (wr_EndLSN w)"
  have ab: "uint a < uint b" using assms(3) by (simp add: a_def b_def word_less_def)
  have szu: "uint (of_int sz :: u64) = sz" using assms(1,2) by (simp add: uint_word_of_int take_bit_int_eq_self)
  have d: "uint (a - start) = uint a - uint start" if "\<not> a < start"
    using that by (simp add: uint_sub_if' word_less_def)
  have "start < b \<and> (a < start \<or> a - start < of_int sz) \<longleftrightarrow> uint start < uint b \<and> uint a < uint start + sz"
  proof (cases "a < start")
    case True
    then show ?thesis using assms(1) by (auto simp: word_less_def)
  next
    case False
    then show ?thesis using d szu by (auto simp: word_less_def)
  qed
  also have "\<dots> \<longleftrightarrow> (\<exists>x. uint a \<le> x \<and> x < uint b \<and> uint start \<le> x \<and> x < uint start + sz)"
    using ab assms(1) by (auto intro!: exI[of _ "max (uint a) (uint start)"])
  finally show ?thesis by (auto simp: intersects_def span_def Let_def a_def b_def)
qed

end
