(* ===== verification/Recovery.thy ===== *)
theory Recovery
  imports Catalog Recovery_Lemmas
begin

text \<open>
  Resolving a restore (repository/recovery.go, repository/plan.go): the archive inventory, the
  ancestry of every timeline in it, the newest eligible backup, the required archive ranges
  with every segment present, and the frozen plan, its revalidation and its private file.
\<close>

section \<open>Reading the source\<close>

definition ReadSource :: "'w sys \<Rightarrow> repo \<Rightarrow> hold \<Rightarrow> ('w, 'a) act \<Rightarrow> ('w, 'a) act" where
  "ReadSource S r h fn =
     (if hld_Kind (hd_holder h) \<noteq> ''restore-reader'' then fail ErrIdentity
      else andthen (Hold_check S r h) (\<lambda>_. fn))"

definition archive_item :: "repo \<Rightarrow> info \<Rightarrow> string list \<Rightarrow> ('w, string list) act" where
  "archive_item r i names = (let pre = rp_root r @ ''wal/''; p = split_on (CHR ''/'') (trim_prefix (inf_Key i) pre) in
     if \<not> has_prefix (inf_Key i) pre \<or> length p \<noteq> 2 \<or> length (p ! 0) \<noteq> 8 \<or> int (length names) \<ge> MaxCatalogRecords then fail ErrCorrupt
     else case walTimeline (p ! 1) (idn_WALSegmentBytes (rp_id r)) of
       Inl _ \<Rightarrow> fail ErrCorrupt
     | Inr t \<Rightarrow> if p ! 0 \<noteq> format_HEX8 (uint t) then fail ErrCorrupt else ret (names @ [p ! 1]))"

definition ArchiveNames :: "'w sys \<Rightarrow> repo \<Rightarrow> hold \<Rightarrow> ('w, string list) act" where
  "ArchiveNames S r h = ReadSource S r h (list_with (st_List S (rp_root r @ ''wal/'') MaxCatalogRecords) (archive_item r) [])"

section \<open>Select\<close>

definition path_shape :: "timeline list \<Rightarrow> bool" where
  "path_shape path \<longleftrightarrow> path \<noteq> [] \<and> length path \<le> 1024 \<and>
     list_all (\<lambda>(i, t). tml_ID t \<noteq> 0 \<and> (i = 0 \<longleftrightarrow> tml_ForkLSN t = None)) (enumerate 0 path)"

text \<open>The visitor shared by \<open>Select\<close> and \<open>Resolve\<close>.\<close>

definition newest_eligible :: "'w sys \<Rightarrow> repo \<Rightarrow> hold \<Rightarrow> catalog \<Rightarrow> target \<Rightarrow> timeline list \<Rightarrow> ('w, commit) act" where
  "newest_eligible S r h cat t path =
     andthen (Visit S r h cat (\<lambda>en sel. ret (pick (\<lambda>c. eligible c t path) en sel)) None) (\<lambda>sel.
     case sel of None \<Rightarrow> fail ErrBlocked | Some c \<Rightarrow> ret c)"

definition read_chain :: "'w sys \<Rightarrow> repo \<Rightarrow> commit \<Rightarrow> ('w, commit list) act" where
  "read_chain S r c =
     (if cmt_Kind c = ''differential'' then andthen (readCommit S r (parent_uid c)) (\<lambda>(p, _, _). ret [p, c])
      else ret [c])"

definition bind_plan :: "repo \<Rightarrow> hold \<Rightarrow> commit list \<Rightarrow> plan \<Rightarrow> plan" where
  "bind_plan r h chain p = p\<lparr>pln_Schema := 1, pln_Source := rp_id r, pln_TargetClusterUID := hld_TargetClusterUID (hd_holder h),
     pln_OperationID := hld_OperationID (hd_holder h), pln_LifetimeHoldID := hld_OperationID (hd_holder h),
     pln_ReaderHoldID := hld_ID (hd_holder h), pln_Chain := chain\<rparr>"

definition Select :: "'w sys \<Rightarrow> repo \<Rightarrow> hold \<Rightarrow> catalog \<Rightarrow> plan \<Rightarrow> ('w, plan) act" where
  "Select S r h cat template =
     (if cat_holder cat \<noteq> hd_holder h \<or> hld_Kind (hd_holder h) \<noteq> ''restore-reader'' then fail ErrIdentity
      else if Target_validate (pln_Target template) \<noteq> Inr () then fail ErrInvalid
      else if \<not> path_shape (pln_Path template) then fail ErrInvalid
      else andthen (newest_eligible S r h cat (pln_Target template) (pln_Path template)) (\<lambda>chosen.
        andthen (Hold_check S r h) (\<lambda>_.
        andthen (readCommit S r (cmt_BackupUID chosen)) (\<lambda>(c, b, _).
        andthen (verifyWinner S r c b) (\<lambda>_.
        andthen (read_chain S r c) (\<lambda>chain. let p = bind_plan r h chain template in
        andthen (lift (Plan_Validate p)) (\<lambda>_. ret p)))))))"

section \<open>Resolve\<close>

text \<open>What the archive names say: timelines seen, segments by timeline and start, histories.\<close>

record archive_facts =
  af_timelines :: "u32 list"
  af_segments :: "(u32 \<times> u64) list"
  af_histories :: "u32 list"

definition archive_name :: "int \<Rightarrow> string \<Rightarrow> archive_facts \<Rightarrow> err + archive_facts" where
  "archive_name sz name f =
     res_bind (walTimeline name sz) (\<lambda>t.
     if has_suffix name ''.partial'' then Inr f
     else Inr \<lparr>af_timelines = t # af_timelines f,
       af_segments = (if length name = 24 then (t, segment_start name sz) # af_segments f else af_segments f),
       af_histories = (if has_suffix name ''.history'' then t # af_histories f else af_histories f)\<rparr>)"

text \<open>The paths read so far, as an association list, and the timelines known to be ancestors.\<close>

record ancestry =
  anc_paths :: "(u32 \<times> timeline list) list"
  anc_ancestors :: "u32 list"

definition check_ancestor :: "u32 list \<Rightarrow> timeline list \<Rightarrow> nat \<times> timeline \<Rightarrow> ancestry \<Rightarrow> err + ancestry" where
  "check_ancestor histories p ia s = (case ia of (i, a) \<Rightarrow>
     if tml_ID a > 1 \<and> tml_ID a \<notin> set histories then Inl ErrCorrupt
     else case map_of (anc_paths s) (tml_ID a) of
       Some known \<Rightarrow> if known \<noteq> take (i + 1) p then Inl ErrCorrupt else Inr (s\<lparr>anc_ancestors := tml_ID a # anc_ancestors s\<rparr>)
     | None \<Rightarrow> Inr (s\<lparr>anc_ancestors := tml_ID a # anc_ancestors s\<rparr>))"

definition history_name :: "u32 \<Rightarrow> string" where
  "history_name t = format_HEX8 (uint t) @ ''.history''"

definition read_path :: "u32 list \<Rightarrow> (string \<Rightarrow> ('w, bytes) act) \<Rightarrow> u32 \<Rightarrow> ancestry \<Rightarrow> ('w, ancestry) act" where
  "read_path histories readHistory t s =
     (if t = 1 then ret s
      else if t \<notin> set histories then fail ErrCorrupt
      else andthen (readHistory (history_name t)) (\<lambda>b.
        andthen (lift (ParseHistory t b)) (\<lambda>p.
        lift (fold_res (check_ancestor histories p) (enumerate 0 (butlast p)) (s\<lparr>anc_paths := (t, p) # anc_paths s\<rparr>)))))"

text \<open>With no timeline asked for, the only timeline that is nobody's ancestor.\<close>

definition pick_leaf :: "u32 list \<Rightarrow> u32 \<Rightarrow> u32 \<Rightarrow> err + u32" where
  "pick_leaf ancestors t cur = (if t \<in> set ancestors then Inr cur else if cur \<noteq> 0 then Inl ErrBlocked else Inr t)"

text \<open>Every segment from \<open>start\<close> to the frontier is in the inventory.\<close>

function walk_segments :: "(u64 \<Rightarrow> bool) \<Rightarrow> u64 \<Rightarrow> u64 \<Rightarrow> u64 \<Rightarrow> int \<Rightarrow> err + unit" where
  "walk_segments has step frontier start cnt =
     (if \<not> start < frontier then Inr ()
      else if cnt + 1 > MaxCatalogRecords \<or> \<not> has start then Inl ErrBlocked
      else if start > - 1 - step then Inl ErrCapacity
      else walk_segments has step frontier (start + step) (cnt + 1))"
  by pat_completeness auto
termination
  by (relation "measure (\<lambda>(_, _, _, _, cnt). nat (MaxCatalogRecords + 1 - cnt))") auto

declare walk_segments.simps [simp del]

definition frontier_of :: "int \<Rightarrow> archive_facts \<Rightarrow> timeline list \<Rightarrow> nat \<Rightarrow> timeline \<Rightarrow> u64 \<Rightarrow> err + u64" where
  "frontier_of sz f path i t pos =
     (if i + 1 < length path then Inr (case fork_at (path ! (i + 1)) of Some n \<Rightarrow> n | None \<Rightarrow> 0)
      else fold_res (\<lambda>(_, start) fr. if start > - 1 - of_int sz then Inl ErrCapacity else Inr (max fr (start + of_int sz)))
        (filter (\<lambda>(t', _). t' = tml_ID t) (af_segments f)) pos)"

definition require_timeline :: "int \<Rightarrow> archive_facts \<Rightarrow> timeline list \<Rightarrow> commit \<Rightarrow> nat \<times> timeline \<Rightarrow> u64 \<times> wal_range list
    \<Rightarrow> err + u64 \<times> wal_range list" where
  "require_timeline sz f path sel it s = (case (it, s) of ((i, t), (pos, ranges)) \<Rightarrow>
     if tml_ID t < cmt_Timeline sel then Inr (pos, ranges)
     else res_bind (frontier_of sz f path i t pos) (\<lambda>frontier.
       if frontier > pos then
         res_bind (walk_segments (\<lambda>x. (tml_ID t, x) \<in> set (af_segments f)) (of_int sz) frontier (align_down (of_int sz) pos) 0)
           (\<lambda>_. Inr (frontier, ranges @ [\<lparr>wr_Timeline = tml_ID t, wr_StartLSN = format_LSN pos, wr_EndLSN = format_LSN frontier\<rparr>]))
       else Inr (frontier, ranges)))"

definition required_archive :: "int \<Rightarrow> archive_facts \<Rightarrow> target \<Rightarrow> timeline list \<Rightarrow> commit \<Rightarrow> err + wal_range list" where
  "required_archive sz f t path sel =
     (if tgt_Kind t = ''immediate'' then Inr []
      else res_bind (fold_res (require_timeline sz f path sel) (enumerate 0 path) (lsn_or_zero (cmt_BundledWALEndLSN sel), []))
        (\<lambda>(_, ranges). Inr ranges))"

definition check_inputs :: "'w sys \<Rightarrow> repo \<Rightarrow> hold \<Rightarrow> (commit \<Rightarrow> ('w, unit) act) \<Rightarrow> commit \<Rightarrow> ('w, unit) act" where
  "check_inputs S r h checkInput sel =
     andthen (checkInput sel) (\<lambda>_.
     if cmt_Kind sel = ''differential'' then ReadSource S r h (andthen (readParent S r sel) checkInput) else ret ())"

text \<open>The timelines of the archive, of the live backups and of the target, ascending.\<close>

definition timeline_ids :: "u32 list \<Rightarrow> target \<Rightarrow> u32 list" where
  "timeline_ids ts t = sort (remdups (if tgt_Timeline t \<noteq> 0 then tgt_Timeline t # ts else ts))"

definition resolve_target :: "u32 list \<Rightarrow> ancestry \<Rightarrow> target \<Rightarrow> err + target" where
  "resolve_target ids s t =
     (if tgt_Timeline t \<noteq> 0 then Inr t
      else res_bind (fold_res (pick_leaf (anc_ancestors s)) ids 0) (\<lambda>leaf. Inr (t\<lparr>tgt_Timeline := leaf\<rparr>)))"

definition resolve_paths :: "'w sys \<Rightarrow> repo \<Rightarrow> hold \<Rightarrow> catalog \<Rightarrow> archive_facts \<Rightarrow> target \<Rightarrow> (string \<Rightarrow> ('w, bytes) act)
    \<Rightarrow> ('w, target \<times> timeline list) act" where
  "resolve_paths S r h cat f t readHistory =
     andthen (Visit S r h cat (\<lambda>en ts. ret (if ent_Retired en then ts else cmt_Timeline (ent_Commit en) # ts)) (af_timelines f)) (\<lambda>ts.
     let ids = timeline_ids ts t in
     if ids = [] \<or> length ids > 1024 then fail ErrCapacity
     else andthen (each_fold (read_path (af_histories f) readHistory) ids
         \<lparr>anc_paths = [(1, [\<lparr>tml_ID = 1, tml_ForkLSN = None\<rparr>])], anc_ancestors = []\<rparr>) (\<lambda>s.
       andthen (lift (resolve_target ids s t)) (\<lambda>t'. case map_of (anc_paths s) (tgt_Timeline t') of
         None \<Rightarrow> fail ErrInvalid
       | Some path \<Rightarrow> if path = [] \<or> Target_validate t' \<noteq> Inr () then fail ErrInvalid else ret (t', path))))"

definition Resolve :: "'w sys \<Rightarrow> repo \<Rightarrow> hold \<Rightarrow> catalog \<Rightarrow> plan \<Rightarrow> string list \<Rightarrow> (commit \<Rightarrow> ('w, unit) act)
    \<Rightarrow> (string \<Rightarrow> ('w, bytes) act) \<Rightarrow> ('w, plan) act" where
  "Resolve S r h cat template names checkInput readHistory = (let sz = idn_WALSegmentBytes (rp_id r) in
     if cat_holder cat \<noteq> hd_holder h \<or> int (length names) > MaxCatalogRecords then fail ErrInvalid
     else andthen (lift (fold_res (archive_name sz) names \<lparr>af_timelines = [], af_segments = [], af_histories = []\<rparr>)) (\<lambda>f.
       andthen (resolve_paths S r h cat f (pln_Target template) readHistory) (\<lambda>(t, path).
       andthen (newest_eligible S r h cat t path) (\<lambda>sel.
       andthen (check_inputs S r h checkInput sel) (\<lambda>_.
       andthen (lift (required_archive sz f t path sel)) (\<lambda>ranges.
       Select S r h cat (template\<lparr>pln_Target := t, pln_Path := path, pln_RequiredArchive := Some ranges\<rparr>)))))))"

section \<open>ValidatePlan\<close>

definition same_commit :: "'w sys \<Rightarrow> repo \<Rightarrow> commit \<Rightarrow> ('w, unit) act" where
  "same_commit S r c =
     andthen (readCommit S r (cmt_BackupUID c)) (\<lambda>(got, b, _).
     if digest (render (enc_Commit c)) \<noteq> digest (render (enc_Commit got)) then fail ErrIdentity
     else verifyWinner S r got b)"

definition ValidatePlan :: "'w sys \<Rightarrow> repo \<Rightarrow> hold \<Rightarrow> plan \<Rightarrow> ('w, plan) act" where
  "ValidatePlan S r h p =
     andthen (Hold_check S r h) (\<lambda>_.
     if hld_Kind (hd_holder h) \<noteq> ''restore-reader'' \<or> Plan_Validate p \<noteq> Inr () \<or> pln_Source p \<noteq> rp_id r \<or>
        pln_TargetClusterUID p \<noteq> hld_TargetClusterUID (hd_holder h) \<or> pln_OperationID p \<noteq> hld_OperationID (hd_holder h)
     then fail ErrIdentity
     else andthen (each (same_commit S r) (pln_Chain p)) (\<lambda>_. ret (p\<lparr>pln_ReaderHoldID := hld_ID (hd_holder h)\<rparr>)))"

end
