(* ===== verification/Recovery_Archive.thy ===== *)
theory Recovery_Archive
  imports Recovery Traces
begin

text \<open>
  The required archive of a resolved plan is in the inventory: the segment walk visits every
  aligned position of a range, so every segment \<open>Coverage\<close> asks the archive for has its name
  in the list \<open>Resolve\<close> was given.
\<close>

section \<open>Segments of the required archive\<close>

lemma walk_segments_all:
  assumes "walk_segments has step frontier start cnt = Inr ()" "unat start \<le> unat y" "y < frontier"
    "unat step dvd unat y - unat start" "step \<noteq> 0"
  shows "has y"
  using assms
proof (induction has step frontier start cnt rule: walk_segments.induct)
  case (1 has step frontier start cnt)
  have lt: "start < frontier" using "1.prems"(2,3) by (auto simp: word_less_nat_alt)
  have ok: "\<not> (cnt + 1 > MaxCatalogRecords \<or> \<not> has start)" "\<not> start > - 1 - step"
    and rest: "walk_segments has step frontier (start + step) (cnt + 1) = Inr ()"
    using "1.prems"(1) lt by (auto simp: walk_segments.simps[of has step frontier start] split: if_splits)
  show ?case
  proof (cases "unat y = unat start")
    case True
    then show ?thesis using ok(1) by (simp add: word_unat_eq_iff[symmetric])
  next
    case False
    have "unat start \<le> unat (- 1 - step :: u64)" using ok(2) by (simp add: word_le_nat_alt not_less)
    moreover have "unat (- 1 - step :: u64) = 2 ^ 64 - 1 - unat step"
      using unsigned_less[of step, where 'a = nat]
      by (simp add: unat_sub_if' unsigned_minus_1_eq_mask mask_eq_exp_minus_1 less_le_not_le)
    ultimately have sum: "unat (start + step) = unat start + unat step"
      using unsigned_less[of step, where 'a = nat] by (intro unat_add_lem[THEN iffD1]) simp
    have "unat step \<le> unat y - unat start" using "1.prems"(4) False "1.prems"(2) by (intro dvd_imp_le) auto
    then have "unat (start + step) \<le> unat y" "unat step dvd unat y - unat (start + step)"
      using "1.prems"(2,4) by (auto simp: sum) (metis diff_diff_left dvd_diff_nat dvd_refl)
    then show ?thesis using "1.IH"[OF _ _ ok(2) rest] lt ok(1) "1.prems"(3,5) by auto
  qed
qed

definition present :: "int \<Rightarrow> archive_facts \<Rightarrow> wal_range \<Rightarrow> bool" where
  "present sz f w \<longleftrightarrow> (\<forall>y. unat (of_int sz :: u64) dvd unat y \<and> intersects sz (wr_Timeline w) y w \<longrightarrow>
     (wr_Timeline w, y) \<in> set (af_segments f))"

lemma intersects_aligned:
  assumes "unat step dvd unat y" "pos < y \<or> pos - y < (step :: u64)" "step \<noteq> 0"
  shows "unat (align_down step pos) \<le> unat y \<and> unat step dvd unat y - unat (align_down step pos)"
proof -
  have "unat pos div unat step * unat step \<le> unat y"
  proof (cases "pos < y")
    case True
    then show ?thesis by (metis div_times_less_eq_dividend le_trans less_imp_le word_less_nat_alt)
  next
    case False
    then have "unat (pos - y) = unat pos - unat y" by (simp add: unat_sub word_le_nat_alt not_less)
    then have "unat pos < unat y + unat step" using assms(2) False by (simp add: word_less_nat_alt not_less)
    moreover obtain m where m: "unat y = unat step * m" using assms(1) by blast
    ultimately have "unat pos < unat step * (m + 1)" by simp
    then have "unat pos div unat step < m + 1" using assms(3) by (simp add: less_mult_imp_div_less mult.commute)
    then show ?thesis using m by simp
  qed
  then show ?thesis using assms(1) by (simp add: unat_align_down)
qed

lemma require_timeline_present:
  assumes "require_timeline sz f path sel it s = Inr s'" "\<forall>w \<in> set (snd s). present sz f w" "0 < sz" "sz < 2 ^ 64"
  shows "\<forall>w \<in> set (snd s'). present sz f w"
proof -
  obtain i t pos ranges where it: "it = (i, t)" "s = (pos, ranges)" by (cases it; cases s)
  show ?thesis
  proof (cases "snd s' = ranges")
    case True
    then show ?thesis using assms(2) it by simp
  next
    case False
    then obtain fr where fr: "fr > pos"
      "walk_segments (\<lambda>x. (tml_ID t, x) \<in> set (af_segments f)) (of_int sz) fr (align_down (of_int sz) pos) 0 = Inr ()"
      "snd s' = ranges @ [\<lparr>wr_Timeline = tml_ID t, wr_StartLSN = format_LSN pos, wr_EndLSN = format_LSN fr\<rparr>]"
      using assms(1) it by (auto simp: require_timeline_def split: if_splits)
    have nz: "(of_int sz :: u64) \<noteq> 0"
      using assms(3,4) uint_word_of_int[of sz, where 'a = 64] take_bit_int_eq_self[of sz 64] by (auto simp del: of_int_eq_0_iff) 
    have "present sz f \<lparr>wr_Timeline = tml_ID t, wr_StartLSN = format_LSN pos, wr_EndLSN = format_LSN fr\<rparr>"
      unfolding present_def
    proof (intro allI impI, elim conjE)
      fix y assume al: "unat (of_int sz :: u64) dvd unat y"
        and x: "intersects sz (wr_Timeline \<lparr>wr_Timeline = tml_ID t, wr_StartLSN = format_LSN pos, wr_EndLSN = format_LSN fr\<rparr>) y
          \<lparr>wr_Timeline = tml_ID t, wr_StartLSN = format_LSN pos, wr_EndLSN = format_LSN fr\<rparr>"
      then have y: "y < fr" "pos < y \<or> pos - y < (of_int sz :: u64)"
        by (auto simp: intersects_def Let_def lsn_or_zero_def ParseLSN_format)
      from intersects_aligned[OF al y(2) nz] walk_segments_all[OF fr(2) _ y(1) _ nz]
      show "(wr_Timeline \<lparr>wr_Timeline = tml_ID t, wr_StartLSN = format_LSN pos, wr_EndLSN = format_LSN fr\<rparr>, y) \<in> set (af_segments f)" by simp
    qed
    then show ?thesis using assms(2) it fr(3) by auto
  qed
qed

lemma required_archive_present:
  assumes "required_archive sz f t path sel = Inr ranges" "0 < sz" "sz < 2 ^ 64"
  shows "\<forall>w \<in> set ranges. present sz f w"
proof (cases "tgt_Kind t = ''immediate''")
  case True
  then show ?thesis using assms(1) by (simp add: required_archive_def)
next
  case False
  then obtain s where s: "fold_res (require_timeline sz f path sel) (enumerate 0 path) (lsn_or_zero (cmt_BundledWALEndLSN sel), []) = Inr s"
    "ranges = snd s" using assms(1) by (auto simp: required_archive_def)
  show ?thesis unfolding s(2)
    by (rule fold_res_invariant[OF s(1), of "\<lambda>s. \<forall>w \<in> set (snd s). present sz f w"]) (auto dest: require_timeline_present[OF _ _ assms(2,3)])
qed

lemma archive_name_segments:
  assumes "archive_name sz name f = Inr f'" "(t, y) \<in> set (af_segments f')"
  shows "(t, y) \<in> set (af_segments f) \<or> ArchivePosition name sz = Inr (t, y)"
  using assms by (auto simp: archive_name_def ArchivePosition_def split: if_splits)

lemma archive_facts_segments:
  assumes "fold_res (archive_name sz) names f0 = Inr f" "af_segments f0 = []" "(t, y) \<in> set (af_segments f)"
  shows "\<exists>name \<in> set names. ArchivePosition name sz = Inr (t, y)"
proof -
  let ?I = "\<lambda>f. \<forall>t y. (t, y) \<in> set (af_segments f) \<longrightarrow> (\<exists>name \<in> set names. ArchivePosition name sz = Inr (t, y))"
  have "?I f"
    by (rule fold_res_invariant[OF assms(1), of ?I]) (use assms(2) archive_name_segments in \<open>auto, blast\<close>)
  then show ?thesis using assms(3) by blast
qed

text \<open>What \<open>Resolve\<close> and \<open>Select\<close> return.\<close>

lemma Select_result:
  assumes "Select S r h cat template w = (Inr p, w')"
  shows "Plan_Validate p = Inr ()" "pln_Path p = pln_Path template" "pln_Target p = pln_Target template"
    "pln_RequiredArchive p = pln_RequiredArchive template" "pln_Source p = rp_id r"
    "pln_TargetClusterUID p = hld_TargetClusterUID (hd_holder h)" "pln_ReaderHoldID p = hld_ID (hd_holder h)"
proof -
  obtain chain where "p = bind_plan r h chain template" "Plan_Validate p = Inr ()"
    using assms by (auto simp: Select_def andthen_Inr fail_def lift_def ret_def Let_def split: if_splits prod.splits)
  then show "Plan_Validate p = Inr ()" "pln_Path p = pln_Path template" "pln_Target p = pln_Target template"
    "pln_RequiredArchive p = pln_RequiredArchive template" "pln_Source p = rp_id r"
    "pln_TargetClusterUID p = hld_TargetClusterUID (hd_holder h)" "pln_ReaderHoldID p = hld_ID (hd_holder h)"
    by (simp_all add: bind_plan_def)
qed

lemma Resolve_result:
  assumes "Resolve S r h cat template names checkInput readHistory w = (Inr p, w')"
  shows "\<exists>f t path sel ranges. fold_res (archive_name (idn_WALSegmentBytes (rp_id r))) names
      \<lparr>af_timelines = [], af_segments = [], af_histories = []\<rparr> = Inr f \<and>
    required_archive (idn_WALSegmentBytes (rp_id r)) f t path sel = Inr ranges \<and> pln_RequiredArchive p = Some ranges \<and> pln_Path p = path \<and>
    pln_Target p = t \<and> Plan_Validate p = Inr () \<and> pln_Source p = rp_id r"
proof -
  obtain f w1 tp w2 sel w3 w4 ranges w5 where s:
    "fold_res (archive_name (idn_WALSegmentBytes (rp_id r))) names \<lparr>af_timelines = [], af_segments = [], af_histories = []\<rparr> = Inr f"
    "required_archive (idn_WALSegmentBytes (rp_id r)) f (fst tp) (snd tp) sel = Inr ranges"
    "Select S r h cat (template\<lparr>pln_Target := fst tp, pln_Path := snd tp, pln_RequiredArchive := Some ranges\<rparr>) w5 = (Inr p, w')"
    using assms by (auto simp: Resolve_def andthen_Inr fail_def lift_def Let_def split: if_splits prod.splits)
  from s(1,2) Select_result[OF s(3)] show ?thesis by auto
qed

lemma segment_start_aligned:
  assumes "ArchivePosition name sz = Inr (t, start)"
  shows "unat (of_int sz :: u64) dvd unat start" "0 < sz" "sz < 2 ^ 64"
proof -
  obtain b c where bc: "uint start = b * 2 ^ 32 + c * sz" and ok: "segment_size_ok sz"
    using ArchivePosition_fields[OF assms] by blast
  show sz: "0 < sz" "sz < 2 ^ 64" using ok by (auto simp: segment_size_ok_def)
  obtain k where k: "sz = 2 ^ k" "k \<le> 30" using segment_size_power[OF ok] by blast
  have "sz dvd 2 ^ 32" unfolding k(1) by (rule le_imp_power_dvd) (use k(2) in simp)
  then have d: "sz dvd uint start" unfolding bc by (meson dvd_add dvd_mult dvd_triv_right)
  have u: "uint (of_int sz :: u64) = sz" using sz by (simp add: uint_word_of_int take_bit_int_eq_self)
  show "unat (of_int sz :: u64) dvd unat start"
    by (metis d u of_nat_dvd_iff uint_nat)
qed

lemma resolved_segments_present:
  assumes res: "Resolve S r h cat template names checkInput readHistory w = (Inr p, w')"
    and cov: "Coverage p name = Inr (bundle, True)" "length name = 24"
  shows "name \<in> set names"
proof -
  let ?sz = "idn_WALSegmentBytes (rp_id r)"
  obtain f t path sel ranges where R: "fold_res (archive_name ?sz) names \<lparr>af_timelines = [], af_segments = [], af_histories = []\<rparr> = Inr f"
    "required_archive ?sz f t path sel = Inr ranges" "pln_RequiredArchive p = Some ranges" "pln_Source p = rp_id r"
    using Resolve_result[OF res] by blast
  obtain tli where tli: "walTimeline name ?sz = Inr tli" using cov R(4) by (auto simp: Coverage_def)
  have pos: "ArchivePosition name ?sz = Inr (tli, segment_start name ?sz)" using tli cov(2) by (simp add: ArchivePosition_def)
  note al = segment_start_aligned[OF pos]
  have "\<not> has_suffix name ''.history''"
    using ArchivePosition_fields[OF pos] segment_not_history by blast
  then obtain wr where wr: "wr \<in> set ranges" "intersects ?sz tli (segment_start name ?sz) wr"
    using cov R(3,4) tli by (auto simp: Coverage_def plan_ranges_def list_ex_iff Let_def split: if_splits)
  have "wr_Timeline wr = tli" using wr(2) by (simp add: intersects_def)
  then have "(tli, segment_start name ?sz) \<in> set (af_segments f)"
    using required_archive_present[OF R(2) al(2,3)] wr al(1) by (auto simp: present_def)
  then obtain name' where "name' \<in> set names" "ArchivePosition name' ?sz = Inr (tli, segment_start name ?sz)"
    using archive_facts_segments[OF R(1)] by auto
  then show ?thesis using ArchivePosition_inj[OF _ pos] by blast
qed

end
