(* ===== verification/Recovery_Files.thy ===== *)
theory Recovery_Files
  imports Recovery_Plan Traces
begin

text \<open>
  The private plan file of a restore (\<open>SavePlan\<close>, \<open>ReadPlan\<close> of repository/plan.go). A directory
  is its files and the outcomes its next operations will have: each operation either succeeds
  or fails, a failing write leaving some prefix of the data. \<open>SavePlan\<close> replaces the plan file
  atomically, whichever operation fails.
\<close>

section \<open>A directory\<close>

text \<open>\<open>None\<close> is a success; \<open>Some k\<close> a failure, after \<open>k\<close> bytes when the operation is a write.\<close>

record dir =
  dir_files :: "string \<Rightarrow> bytes option"
  dir_faults :: "nat option list"

definition next_op :: "dir \<Rightarrow> nat option \<times> dir" where
  "next_op d = (case dir_faults d of [] \<Rightarrow> (None, d) | f # fs \<Rightarrow> (f, d\<lparr>dir_faults := fs\<rparr>))"

definition try_op :: "(dir, unit) act" where
  "try_op d = (case next_op d of (f, d') \<Rightarrow> (if f = None then Inr () else Inl OsErr, d'))"

definition set_file :: "string \<Rightarrow> bytes option \<Rightarrow> dir \<Rightarrow> dir" where
  "set_file name b d = d\<lparr>dir_files := (dir_files d)(name := b)\<rparr>"

text \<open>\<open>OpenFile\<close> with \<open>O_CREATE|O_EXCL\<close>, \<open>Write\<close>, \<open>Remove\<close> and \<open>Rename\<close>.\<close>

definition create_file :: "string \<Rightarrow> (dir, unit) act" where
  "create_file name = andthen try_op (\<lambda>_ d. if dir_files d name \<noteq> None then (Inl OsErr, d) else (Inr (), set_file name (Some []) d))"

definition write_file :: "string \<Rightarrow> bytes \<Rightarrow> (dir, unit) act" where
  "write_file name b d = (case next_op d of
     (None, d') \<Rightarrow> (Inr (), set_file name (Some b) d')
   | (Some k, d') \<Rightarrow> (Inl OsErr, set_file name (Some (take k b)) d'))"

definition remove_file :: "string \<Rightarrow> (dir, unit) act" where
  "remove_file name = andthen try_op (\<lambda>_ d. (Inr (), set_file name None d))"

definition rename_file :: "string \<Rightarrow> string \<Rightarrow> (dir, unit) act" where
  "rename_file a b = andthen try_op (\<lambda>_ d. (Inr (), set_file a None (set_file b (dir_files d a) d)))"

section \<open>SavePlan and ReadPlan\<close>

definition plan_file :: string where
  "plan_file = ''recovery.json''"

definition temp_name :: "string \<Rightarrow> string" where
  "temp_name uuid = ''recovery-'' @ uuid @ ''.json''"

text \<open>\<open>defer root.Remove(name)\<close>: its own result is dropped.\<close>

definition finally_remove :: "string \<Rightarrow> (dir, 'a) act \<Rightarrow> (dir, 'a) act" where
  "finally_remove name m = attempt m (\<lambda>res. attempt (remove_file name) (\<lambda>_. lift res))"

text \<open>Write and sync, then close whatever happened; the first error counts.\<close>

definition write_closed :: "string \<Rightarrow> bytes \<Rightarrow> (dir, unit) act" where
  "write_closed name b =
     attempt (andthen (write_file name b) (\<lambda>_. try_op)) (\<lambda>e.
     attempt try_op (\<lambda>ce. lift (case e of Inl _ \<Rightarrow> e | Inr _ \<Rightarrow> ce)))"

definition SavePlan :: "bool \<Rightarrow> string \<Rightarrow> plan \<Rightarrow> (dir, unit) act" where
  "SavePlan absolute uuid p = (let b = render (enc_Plan p); name = temp_name uuid in
     if Plan_Validate p \<noteq> Inr () \<or> \<not> absolute then fail ErrInvalid
     else if int (length b) > commitLimit then fail ErrCapacity
     else andthen try_op (\<lambda>_.
       andthen (create_file name) (\<lambda>_.
       finally_remove name (
         andthen (write_closed name b) (\<lambda>_.
         andthen (rename_file name plan_file) (\<lambda>_.
         andthen try_op (\<lambda>_. try_op)))))))"

definition ReadPlan :: "(dir, plan) act" where
  "ReadPlan =
     andthen try_op (\<lambda>_.
     andthen (andthen try_op (\<lambda>_ d. (case dir_files d plan_file of None \<Rightarrow> Inl OsErr | Some b \<Rightarrow> Inr b, d))) (\<lambda>b.
     attempt try_op (\<lambda>st.
     if st \<noteq> Inr () \<or> int (length b) > commitLimit then fail ErrCapacity
     else andthen try_op (\<lambda>_.
       if \<not> utf8_valid b then fail ErrInvalid
       else andthen (lift (strict Plan_type dec_Plan b commitLimit)) (\<lambda>p.
         andthen (lift (Plan_Validate p)) (\<lambda>_. ret p))))))"

section \<open>Atomic replacement\<close>

lemma temp_not_plan [simp]: "temp_name uuid \<noteq> plan_file"
  by (simp add: temp_name_def plan_file_def)

lemma try_op_files: "try_op d = (r, d') \<Longrightarrow> dir_files d' = dir_files d"
  by (auto simp: try_op_def next_op_def split: list.splits prod.splits)

text \<open>Actions that touch at most the file \<open>name\<close>.\<close>

definition touches :: "string set \<Rightarrow> (dir, 'a) act \<Rightarrow> bool" where
  "touches N m \<longleftrightarrow> (\<forall>d r d'. m d = (r, d') \<longrightarrow> (\<forall>n. n \<notin> N \<longrightarrow> dir_files d' n = dir_files d n))"

lemma touchesD: "touches N m \<Longrightarrow> m d = (r, d') \<Longrightarrow> n \<notin> N \<Longrightarrow> dir_files d' n = dir_files d n"
  unfolding touches_def by blast

lemma touches_attempt: "touches N m \<Longrightarrow> (\<And>r. touches N (k r)) \<Longrightarrow> touches N (attempt m k)"
  unfolding touches_def attempt_def by (auto split: prod.splits)

lemma touches_andthen: "touches N m \<Longrightarrow> (\<And>x. touches N (k x)) \<Longrightarrow> touches N (andthen m k)"
  unfolding andthen_def by (rule touches_attempt) (auto simp: touches_def fail_def split: sum.split)

lemma touches_basic: "touches N try_op" "touches N (lift res)" "name \<in> N \<Longrightarrow> touches N (create_file name)"
  "name \<in> N \<Longrightarrow> touches N (write_file name b)" "name \<in> N \<Longrightarrow> touches N (remove_file name)"
  "a \<in> N \<Longrightarrow> b \<in> N \<Longrightarrow> touches N (rename_file a b)"
proof -
  show t: "touches N try_op" by (auto simp: touches_def dest: try_op_files)
  show "touches N (lift res)" by (simp add: touches_def lift_def)
  show "touches N (create_file name)" if "name \<in> N"
    unfolding create_file_def by (rule touches_andthen[OF t]) (use that in \<open>auto simp: touches_def set_file_def\<close>)
  show "touches N (remove_file name)" if "name \<in> N"
    unfolding remove_file_def by (rule touches_andthen[OF t]) (use that in \<open>auto simp: touches_def set_file_def\<close>)
  show "touches N (rename_file a b)" if "a \<in> N" "b \<in> N"
    unfolding rename_file_def by (rule touches_andthen[OF t]) (use that in \<open>auto simp: touches_def set_file_def\<close>)
  show "touches N (write_file name b)" if "name \<in> N"
    using that by (auto simp: touches_def write_file_def next_op_def set_file_def split: prod.splits option.splits list.splits)
qed

lemma write_closed_ok:
  assumes "write_closed name b d = (Inr (), d')"
  shows "dir_files d' name = Some b"
  using assms
  by (auto simp: write_closed_def attempt_def andthen_def lift_def fail_def write_file_def set_file_def
      split: prod.splits sum.splits option.splits dest!: try_op_files)

lemma rename_write_replaces:
  assumes "andthen (write_closed name b) (\<lambda>_. andthen (rename_file name plan_file) (\<lambda>_. andthen try_op (\<lambda>_. try_op))) d = (res, d')"
    and "name \<noteq> plan_file"
  shows "dir_files d' plan_file = dir_files d plan_file \<or> dir_files d' plan_file = Some b"
    "res = Inr () \<Longrightarrow> dir_files d' plan_file = Some b"
proof -
  have wc: "touches {name} (write_closed name b)"
    unfolding write_closed_def by (intro touches_attempt touches_andthen touches_basic) auto
  have tt: "touches {} (andthen try_op (\<lambda>_. try_op))" by (intro touches_andthen touches_basic)
  have keep: "dir_files d1 plan_file = dir_files d plan_file" if "write_closed name b d = (r1, d1)" for r1 d1
    using touchesD[OF wc that, of plan_file] assms(2) by auto
  have ren: "dir_files d2 plan_file = dir_files d1 name \<and> r2 = Inr () \<or> dir_files d2 plan_file = dir_files d1 plan_file \<and> r2 \<noteq> Inr ()"
    if "rename_file name plan_file d1 = (r2, d2)" for r2 d1 d2
    using that assms(2)
    by (auto simp: rename_file_def andthen_def attempt_def fail_def set_file_def split: prod.splits sum.splits dest!: try_op_files)
  from andthen_split[OF assms(1)]
  have "(dir_files d' plan_file = dir_files d plan_file \<and> res \<noteq> Inr ()) \<or> dir_files d' plan_file = Some b"
  proof (elim disjE exE conjE)
    fix e assume "write_closed name b d = (Inl e, d')" "res = Inl e"
    then show ?thesis using keep by simp
  next
    fix u d1 assume w: "write_closed name b d = (Inr u, d1)"
      and r: "andthen (rename_file name plan_file) (\<lambda>_. andthen try_op (\<lambda>_. try_op)) d1 = (res, d')"
    have wb: "dir_files d1 name = Some b" using write_closed_ok w by (metis unit_eq)
    from andthen_split[OF r] show ?thesis
    proof (elim disjE exE conjE)
      fix e assume "rename_file name plan_file d1 = (Inl e, d')" "res = Inl e"
      then show ?thesis using ren keep[OF w] by force
    next
      fix u2 d2 assume r2: "rename_file name plan_file d1 = (Inr u2, d2)" and t: "andthen try_op (\<lambda>_. try_op) d2 = (res, d')"
      have "dir_files d2 plan_file = Some b" using ren[OF r2] wb by auto
      then show ?thesis using touchesD[OF tt t, of plan_file] by simp
    qed
  qed
  then show "dir_files d' plan_file = dir_files d plan_file \<or> dir_files d' plan_file = Some b"
    "res = Inr () \<Longrightarrow> dir_files d' plan_file = Some b" by auto
qed

lemma SavePlan_body:
  assumes "SavePlan absolute uuid p d = (res, d')"
  obtains (refused) e where "res = Inl e" "dir_files d' = dir_files d"
    | (early) e where "res = Inl e" "\<And>n. n \<noteq> temp_name uuid \<Longrightarrow> dir_files d' n = dir_files d n"
    | (body) d1 d2 where "Plan_Validate p = Inr ()" "absolute" "int (length (render (enc_Plan p))) \<le> commitLimit"
        "\<And>n. n \<noteq> temp_name uuid \<Longrightarrow> dir_files d1 n = dir_files d n"
        "andthen (write_closed (temp_name uuid) (render (enc_Plan p))) (\<lambda>_. andthen (rename_file (temp_name uuid) plan_file)
          (\<lambda>_. andthen try_op (\<lambda>_. try_op))) d1 = (res, d2)"
        "\<And>n. n \<noteq> temp_name uuid \<Longrightarrow> dir_files d' n = dir_files d2 n"
proof (cases "Plan_Validate p \<noteq> Inr () \<or> \<not> absolute \<or> int (length (render (enc_Plan p))) > commitLimit")
  case True
  then show ?thesis using assms refused by (auto simp: SavePlan_def fail_def Let_def split: if_splits)
next
  case False
  let ?name = "temp_name uuid"
  let ?rest = "andthen (write_closed ?name (render (enc_Plan p))) (\<lambda>_. andthen (rename_file ?name plan_file) (\<lambda>_. andthen try_op (\<lambda>_. try_op)))"
  have run: "andthen try_op (\<lambda>_. andthen (create_file ?name) (\<lambda>_. finally_remove ?name ?rest)) d = (res, d')"
    using assms False by (simp add: SavePlan_def Let_def)
  have cr: "touches {?name} (create_file ?name)" and rm: "touches {?name} (remove_file ?name)" by (auto intro: touches_basic)
  from andthen_split[OF run] show ?thesis
  proof (elim disjE exE conjE)
    fix e assume "try_op d = (Inl e, d')" "res = Inl e"
    then show ?thesis using refused try_op_files by blast
  next
    fix u d0 assume t: "try_op d = (Inr u, d0)" and r: "andthen (create_file ?name) (\<lambda>_. finally_remove ?name ?rest) d0 = (res, d')"
    note t' = try_op_files[OF t]
    from andthen_split[OF r] show ?thesis
    proof (elim disjE exE conjE)
      fix e assume "create_file ?name d0 = (Inl e, d')" "res = Inl e"
      then show ?thesis using early touchesD[OF cr] t' by auto
    next
      fix u d1 assume c: "create_file ?name d0 = (Inr u, d1)" and f: "finally_remove ?name ?rest d1 = (res, d')"
      obtain r2 d2 where r2: "?rest d1 = (r2, d2)" by (metis prod.exhaust)
      obtain r3 d3 where r3: "remove_file ?name d2 = (r3, d3)" by (metis prod.exhaust)
      have "res = r2" "d' = d3" using f r2 r3 by (auto simp: finally_remove_def attempt_def lift_def)
      then show ?thesis using body[of d1 d2] False touchesD[OF cr c] t' r2 touchesD[OF rm r3] by auto
    qed
  qed
qed

lemma SavePlan_replaces:
  assumes "SavePlan absolute uuid p d = (res, d')"
  shows "(dir_files d' plan_file = dir_files d plan_file \<or> dir_files d' plan_file = Some (render (enc_Plan p))) \<and>
    (res = Inr () \<longrightarrow> dir_files d' plan_file = Some (render (enc_Plan p)) \<and> Plan_Validate p = Inr () \<and>
       int (length (render (enc_Plan p))) \<le> commitLimit)"
proof -
  have n: "temp_name uuid \<noteq> plan_file" "plan_file \<noteq> temp_name uuid" by (rule temp_not_plan) (metis temp_not_plan)
  from assms show ?thesis
  proof (cases rule: SavePlan_body)
    case (body d1 d2)
    then show ?thesis
      using rename_write_replaces[OF body(5) n(1)] body(4)[OF n(2)] body(6)[OF n(2)] by auto
  qed (use n in auto)
qed

section \<open>Reading the plan back\<close>

lemma digit_ascii: "dec_digit c \<Longrightarrow> byte c < 128"
  by (auto simp: dec_digit_def is_digit_def digit_value_def byte_def Let_def split: if_splits)

lemma digits_ascii: "list_all dec_digit s \<Longrightarrow> ascii s"
  by (induction s) (auto intro: digit_ascii)

lemma getnum_ascii: "getnum fixed s = Some (v, r) \<Longrightarrow> ascii r \<Longrightarrow> ascii s"
  by (induction fixed s rule: getnum.induct) (auto split: if_splits intro: digit_ascii)

lemma literal_ascii: "literal c s = Some r \<Longrightarrow> byte c < 128 \<Longrightarrow> ascii r \<Longrightarrow> ascii s"
  by (auto simp: literal_def split: list.splits if_splits)

lemma parse_year_ascii: "parse_year s = Some (y, r) \<Longrightarrow> ascii r \<Longrightarrow> ascii s"
  using ascii_append[of "take 4 s" "drop 4 s"] by (auto simp: parse_year_def intro: digits_ascii split: if_splits)

lemma parse_frac_ascii: "parse_frac s = (v, r) \<Longrightarrow> ascii r \<Longrightarrow> ascii s"
proof -
  assume a: "parse_frac s = (v, r)" "ascii r"
  show "ascii s"
  proof (cases "r = s")
    case False
    then obtain c t where s: "s = c # t" "c = CHR ''.'' \<or> c = CHR '',''" "r = dropWhile dec_digit t"
      using a(1) by (auto simp: parse_frac_def Let_def split: list.splits if_splits)
    have "ascii (takeWhile dec_digit t)" by (rule digits_ascii) (auto simp: list_all_iff dest: set_takeWhileD)
    then have "ascii (takeWhile dec_digit t @ dropWhile dec_digit t)" using a(2) s(3) unfolding ascii_append by simp
    moreover have "byte c < 128" using s(2) by (auto simp: byte_def)
    ultimately show ?thesis using s(1) by simp
  qed (use a in simp)
qed

lemma getnum_two: "getnum True s = Some (v, r) \<Longrightarrow> \<exists>a b. s = a # b # r \<and> dec_digit a \<and> dec_digit b"
  by (cases "(True, s)" rule: getnum.cases) (auto split: if_splits)

lemma parse_zone_ascii: "parse_zone s = Some (v, r) \<Longrightarrow> ascii r \<Longrightarrow> ascii s"
proof -
  assume a: "parse_zone s = Some (v, r)" "ascii r"
  then obtain c t where s: "s = c # t" by (cases s) (auto simp: parse_zone_def)
  show "ascii s"
  proof (cases "c = CHR ''Z''")
    case True
    then show ?thesis using a s by (auto simp: parse_zone_def byte_def)
  next
    case False
    then have l: "6 \<le> length s" "s ! 3 = CHR '':''" using a(1) s by (auto simp: parse_zone_def split: if_splits)
    then obtain x y z u w q where t: "t = x # y # z # u # w # q"
      using s by (auto simp: numeral_eq_Suc Suc_le_length_iff)
    have sl: "slice s 1 3 = [x, y]" "slice s 4 6 = [u, w]" "drop 6 s = q" by (simp_all add: s t slice_def)
    obtain m n where "getnum True [x, y] = Some m" "getnum True [u, w] = Some n" "r = q" "c = CHR ''+'' \<or> c = CHR ''-''"
      using a(1) False l s sl by (auto simp: parse_zone_def split: if_splits option.splits prod.splits)
    then show ?thesis
      using a(2) l(2) by (auto simp: s t byte_def split: if_splits dest!: digit_ascii)
  qed
qed

lemma ascii_timeTarget [ascii_intros]: "timeTarget s = Some t \<Longrightarrow> ascii s"
proof -
  have lits: "byte (CHR ''-'') < 128" "byte (CHR ''T'') < 128" "byte (CHR '':'') < 128" by (simp_all add: byte_def)
  have frac: "parse_zone (snd (parse_frac s)) = Some (v, []) \<Longrightarrow> ascii s" for s v
    using parse_frac_ascii[of s] parse_zone_ascii[of "snd (parse_frac s)" v "[]"] by (metis ascii_Nil prod.collapse)
  assume "timeTarget s = Some t"
  then obtain z where "parse_rfc3339 s = Some z" by (auto simp: timeTarget_def)
  then show "ascii s"
    unfolding parse_rfc3339_def
    by (auto simp: bind_eq_Some_conv in_range_def Let_def case_prod_beta split: if_splits
        intro!: lits elim!: parse_year_ascii literal_ascii getnum_ascii parse_zone_ascii frac)
qed

lemma target_codec [simp]:
  "json_ok (enc_Target v) \<longleftrightarrow> utf8_valid (tgt_Kind v) \<and> utf8_valid (tgt_Value v) \<and> (\<forall>u. tgt_BackupUID v = Some u \<longrightarrow> utf8_valid u)"
  "dec_Target (enc_Target v) = Some v" "2 < n \<Longrightarrow> shape n Target_type (enc_Target v) = Inr ()"
proof -
  assume assms: "2 < n"
  show "shape n Target_type (enc_Target v) = Inr ()"
    unfolding Target_type_def enc_Target_def by (rule shape_object) (use assms in auto)
qed (auto simp: enc_Target_def dec_Target_def fld_def dec_bool_def utf8_valid_ascii byte_def)

lemma timeline_codec [simp]:
  "json_ok (enc_Timeline v) \<longleftrightarrow> (\<forall>u. tml_ForkLSN v = Some u \<longrightarrow> utf8_valid u)"
  "dec_Timeline (enc_Timeline v) = Some v" "2 < n \<Longrightarrow> shape n Timeline_type (enc_Timeline v) = Inr ()"
proof -
  assume assms: "2 < n"
  show "shape n Timeline_type (enc_Timeline v) = Inr ()"
    unfolding Timeline_type_def enc_Timeline_def by (rule shape_object) (use assms in auto)
qed (auto simp: enc_Timeline_def dec_Timeline_def fld_def utf8_valid_ascii byte_def)

lemma commit_shape:
  assumes "4 < n" "cmt_Tablespaces v \<noteq> None"
  shows "shape n Commit_type (enc_Commit v) = Inr ()"
proof -
  obtain ts where ts: "cmt_Tablespaces v = Some ts" using assms(2) by auto
  have lists: "shape (n - 1) (TSlice WALRange_type) (enc_list enc_WALRange (cmt_WALRanges v)) = Inr ()"
    "shape (n - 1) (TSlice Tablespace_type) (enc_ptr (enc_list enc_Tablespace) (cmt_Tablespaces v)) = Inr ()"
    "shape (n - 1) (TSlice Artifact_type) (enc_list enc_Artifact (cmt_Artifacts v)) = Inr ()"
    using assms(1) by (auto intro!: shape_enc_list simp: ts enc_ptr_def)
  show ?thesis unfolding Commit_type_def enc_Commit_def by (rule shape_object) (use lists assms(1) in auto)
qed

lemma identity_shape: "2 < n \<Longrightarrow> shape n Identity_type (enc_Identity v) = Inr ()"
  unfolding Identity_type_def enc_Identity_def by (rule shape_object) auto

definition Plan_printable :: "plan \<Rightarrow> bool" where
  "Plan_printable p \<longleftrightarrow> pln_RequiredArchive p \<noteq> None \<and> (\<forall>c \<in> set (pln_Chain p). Commit_printable c) \<and> json_ok (enc_Plan p)"

interpretation plan_doc: document Plan_type enc_Plan dec_Plan Plan_printable
proof (unfold_locales)
  fix p assume ok: "Plan_printable p"
  then show j: "json_ok (enc_Plan p)" by (simp add: Plan_printable_def)
  obtain ws where ws: "pln_RequiredArchive p = Some ws" using ok by (auto simp: Plan_printable_def)
  have lists: "shape 24 (TSlice Timeline_type) (enc_list enc_Timeline (pln_Path p)) = Inr ()"
    "shape 24 (TSlice Commit_type) (enc_list enc_Commit (pln_Chain p)) = Inr ()"
    "shape 24 (TSlice WALRange_type) (enc_ptr (enc_list enc_WALRange) (pln_RequiredArchive p)) = Inr ()"
    using ok by (auto intro!: shape_enc_list commit_shape simp: ws enc_ptr_def Plan_printable_def Commit_printable_def)
  show "shape 25 Plan_type (enc_Plan p) = Inr ()"
    unfolding Plan_type_def enc_Plan_def by (rule shape_object) (use lists in \<open>auto simp: identity_shape\<close>)
  have src: "json_ok (enc_Identity (pln_Source p))" and sch: "int64_ok (pln_Schema p)" using j by (auto simp: enc_Plan_def)
  have pa: "dec_list dec_Timeline (enc_list enc_Timeline (pln_Path p)) = Some (pln_Path p)" by (rule dec_enc_list) simp
  have ch: "dec_list dec_Commit (enc_list enc_Commit (pln_Chain p)) = Some (pln_Chain p)"
    by (rule dec_enc_list) (use ok commit_doc.dec_enc in \<open>auto simp: Plan_printable_def\<close>)
  have wl: "dec_list dec_WALRange (enc_list enc_WALRange xs) = Some xs" for xs by (rule dec_enc_list) simp
  have wp: "dec_ptr (dec_list dec_WALRange) (enc_ptr (enc_list enc_WALRange) (pln_RequiredArchive p)) = Some (pln_RequiredArchive p)"
    by (rule dec_enc_ptr) (simp add: wl, simp add: enc_list_def)
  show "dec_Plan (enc_Plan p) = Some p"
    using identity_doc.dec_enc[OF src] sch by (simp add: dec_Plan_def enc_Plan_def fld_def pa ch wp)
qed

lemma path_forks_ascii:
  "fold_res check_node path s = Inr s' \<Longrightarrow> t \<in> set path \<Longrightarrow> tml_ForkLSN t = Some u \<Longrightarrow> ascii u"
  using fold_res_elem[of check_node path s s' t]
  by (auto simp: check_node_def fork_at_def intro: ascii_intros split: if_splits option.splits prod.splits)

lemma ranges_ascii:
  "fold_res (check_range path) ws s = Inr s' \<Longrightarrow> w \<in> set ws \<Longrightarrow> ascii (wr_StartLSN w) \<and> ascii (wr_EndLSN w)"
  using fold_res_elem[of "check_range path" ws s s' w]
  by (auto simp: check_range_def intro: ascii_intros split: option.splits prod.splits)

lemma target_printable:
  assumes "Target_validate t = Inr ()"
  shows "json_ok (enc_Target t)"
  using assms
  by (auto simp: Target_validate_def utf8_literal intro: printable_intros ascii_timeTarget[THEN ascii_utf8] split: if_splits option.splits)

lemma Plan_Validate_printable:
  assumes "Plan_Validate p = Inr ()"
  shows "Plan_printable p"
proof -
  have v: "plan_ids_ok p" "Target_validate (pln_Target p) = Inr ()" "plan_sizes_ok p" "check_chain p = Inr ()"
    "\<exists>s. fold_res check_node (pln_Path p) ([], 0) = Inr s" "check_coverage p (last (pln_Chain p)) = Inr ()"
    using assms by (auto simp: Plan_Validate_def split: if_splits)
  obtain ws where ws: "pln_RequiredArchive p = Some ws" using v(3) by (auto simp: plan_sizes_ok_def split: option.splits)
  obtain s0 s1 where rg: "fold_res (check_range (pln_Path p)) ws s0 = Inr s1"
    using v(6) ws by (auto simp: check_coverage_def plan_ranges_def Let_def)
  have src: "Identity_Validate (pln_Source p) = Inr ()" using v(1) by (simp add: plan_ids_ok_def)
  have chain: "Commit_printable c" if "c \<in> set (pln_Chain p)" for c
  proof -
    obtain u where "fold_res (\<lambda>c _. Commit_validate c (pln_Source p)) (pln_Chain p) () = Inr u" using v(4) by (auto simp: check_chain_def)
    then have "Commit_validate c (pln_Source p) = Inr ()" using fold_res_elem[OF _ that] by fastforce
    then show ?thesis by (rule Commit_validate_printable[OF src])
  qed
  have ids: "utf8_valid (pln_DestinationRepositoryID p)" "utf8_valid (pln_TargetClusterUID p)" "utf8_valid (pln_ReaderHoldID p)"
    "utf8_valid (pln_OperationID p)" "utf8_valid (pln_LifetimeHoldID p)" "utf8_valid (pln_BootstrapSHA256 p)" "pln_Schema p = 1"
    using v(1) validID_RestoreOperationID[of "pln_TargetClusterUID p" "pln_BootstrapSHA256 p" "pln_OperationID p"]
    by (auto simp: plan_ids_ok_def RestoreOperationID_def intro: printable_intros split: if_splits)
  have "json_ok (enc_Plan p)"
    using ids target_printable[OF v(2)] Identity_printable[OF src] chain v(5) path_forks_ascii ranges_ascii[OF rg]
    by (auto simp: enc_Plan_def Commit_printable_def ws int64_ok_def utf8_literal intro: ascii_utf8)
  then show ?thesis using ws chain by (simp add: Plan_printable_def)
qed

lemma ReadPlan_after:
  assumes "dir_files d plan_file = Some (render (enc_Plan p))" "dir_faults d = []" "Plan_Validate p = Inr ()"
    "int (length (render (enc_Plan p))) \<le> commitLimit"
  shows "ReadPlan d = (Inr p, d)"
proof -
  have pr: "Plan_printable p" by (rule Plan_Validate_printable[OF assms(3)])
  have st: "strict Plan_type dec_Plan (render (enc_Plan p)) commitLimit = Inr p"
    by (rule plan_doc.strict_marshal[OF pr assms(4)])
  have u: "utf8_valid (render (enc_Plan p))" using pr by (intro utf8_valid_render) (simp add: Plan_printable_def)
  have t: "try_op d = (Inr (), d)" by (simp add: try_op_def next_op_def assms(2))
  show ?thesis using assms u st by (simp add: ReadPlan_def andthen_def attempt_def t lift_def ret_def fail_def)
qed

end
