(* ===== verification/Recovery_Properties.thy ===== *)
theory Recovery_Properties
  imports Recovery_Archive Recovery_Files Schema_Properties
begin

text \<open>
  The properties of restore planning: archive names and positions, timeline histories, the
  coverage a valid plan promises, the completeness of a resolved plan's archive, and the plan
  file.
\<close>

section \<open>A concrete plan\<close>

definition example_target :: string where
  "example_target = ''cccccccc-dddd-4eee-8fff-000000000001''"

definition example_operation :: string where
  "example_operation = the (RestoreOperationID example_target example_hash)"

definition example_plan :: plan where
  "example_plan = \<lparr>pln_Schema = 1, pln_Source = example_identity, pln_DestinationRepositoryID = ''99999999-2222-4333-8444-555555555555'',
     pln_TargetClusterUID = example_target, pln_BootstrapSHA256 = example_hash, pln_OperationID = example_operation,
     pln_LifetimeHoldID = example_operation, pln_ReaderHoldID = ''77777777-2222-4333-8444-555555555555'',
     pln_Target = \<lparr>tgt_Kind = ''latest'', tgt_Value = [], tgt_Exclusive = False, tgt_BackupUID = None, tgt_Timeline = 1\<rparr>,
     pln_Path = [\<lparr>tml_ID = 1, tml_ForkLSN = None\<rparr>], pln_Chain = [example_commit],
     pln_RequiredArchive = Some [\<lparr>wr_Timeline = 1, wr_StartLSN = ''0/2000158'', wr_EndLSN = ''0/4000000''\<rparr>]\<rparr>"

lemma example_operation_id: "RestoreOperationID example_target example_hash = Some example_operation"
proof -
  have "validID example_target" "hashRE example_hash" by code_simp+
  then show ?thesis by (simp add: example_operation_def RestoreOperationID_def)
qed

lemma example_positions: "ParseLSN ''0/2000158'' = Some 0x2000158" "ParseLSN ''0/4000000'' = Some 0x4000000"
  by code_simp+

lemma example_commit_places: "cmt_Timeline example_commit = 1" "lsn_or_zero (cmt_BundledWALEndLSN example_commit) = 0x2000158"
  by (simp_all add: example_commit_def lsn_or_zero_def example_positions)

lemma example_plan_valid: "Plan_Validate example_plan = Inr ()"
proof -
  have "plan_ids_ok example_plan"
  proof -
    have "validID ''99999999-2222-4333-8444-555555555555''" "''99999999-2222-4333-8444-555555555555'' \<noteq> idn_RepositoryID example_identity"
      "validID example_target" "example_target \<noteq> idn_WriterClusterUID example_identity" "validID ''77777777-2222-4333-8444-555555555555''"
      by code_simp+
    then show ?thesis using example_operation_id example_identity_valid by (simp add: plan_ids_ok_def example_plan_def)
  qed
  moreover have "Target_validate (pln_Target example_plan) = Inr ()" "plan_sizes_ok example_plan"
    "fold_res check_node (pln_Path example_plan) ([], 0) = Inr ([1], 0)"
    "tml_ID (last (pln_Path example_plan)) = tgt_Timeline (pln_Target example_plan)"
    by (simp_all add: example_plan_def Target_validate_def plan_sizes_ok_def check_node_def)
  moreover have "check_chain example_plan = Inr ()"
    using example_commit_valid by (simp add: check_chain_def example_plan_def) (simp add: example_commit_def)
  moreover have "eligible example_commit (pln_Target example_plan) (pln_Path example_plan)"
    by (simp add: eligible_def example_plan_def target_after_def) (simp add: example_commit_def)
  moreover have "check_coverage example_plan example_commit = Inr ()"
    by (simp add: check_coverage_def example_plan_def plan_ranges_def check_range_def example_commit_places example_positions)
  moreover have "last (pln_Chain example_plan) = example_commit" by (simp add: example_plan_def)
  ultimately show ?thesis by (simp add: Plan_Validate_def)
qed

text \<open>The complete segments a plan requires from the archive.\<close>

definition archive_segments :: "plan \<Rightarrow> string set" where
  "archive_segments p = {name. length name = 24 \<and> (\<exists>bundle. Coverage p name = Inr (bundle, True))}"

section \<open>Properties\<close>

text \<open>Segment names and log positions correspond: two names of complete segments that the
  archive accepts for the same timeline and whose byte ranges share a position are the same name, and
  no segment runs past the end of the 64-bit log.\<close>

theorem ArchivePosition_disjoint:
  assumes "ArchivePosition n1 sz = Inr (t, s1)" "ArchivePosition n2 sz = Inr (t, s2)"
    and "uint s1 \<le> x" "x < uint s1 + sz" "uint s2 \<le> x" "x < uint s2 + sz"
  shows "n1 = n2 \<and> uint s1 + sz \<le> 2 ^ 64"
proof -
  obtain b1 c1 where f1: "uint s1 = b1 * 2 ^ 32 + c1 * sz" "b1 < 2 ^ 32" "c1 * sz < 2 ^ 32" and ok: "segment_size_ok sz"
    using ArchivePosition_fields[OF assms(1)] by blast
  obtain b2 c2 where f2: "uint s2 = b2 * 2 ^ 32 + c2 * sz" using ArchivePosition_fields[OF assms(2)] by blast
  obtain k where k: "sz = 2 ^ k" "k \<le> 30" using segment_size_power[OF ok] by blast
  obtain m where m: "(2 :: int) ^ 32 = sz * m" using le_imp_power_dvd[of k 32 "2 :: int"] k by (auto simp: dvd_def)
  have sz: "0 < sz" using k by simp
  have e: "uint s1 = sz * (b1 * m + c1)" "uint s2 = sz * (b2 * m + c2)" using f1(1) f2 m by (simp_all add: algebra_simps)
  have "x div sz = b1 * m + c1" "x div sz = b2 * m + c2"
    using assms(3-6) e sz by (auto intro!: int_div_pos_eq[of _ _ _ "x - sz * _"])
  then have "s1 = s2" using e by (metis word_uint_eq_iff)
  moreover have "uint s1 + sz \<le> 2 ^ 64"
  proof -
    have "c1 * sz < m * sz" using f1(3) m by (simp add: mult.commute)
    then have "c1 + 1 \<le> m" using sz by simp
    moreover have "0 < m" using m sz by (metis zero_less_mult_pos zero_less_power zero_less_numeral)
    then have "(b1 + 1) * m \<le> 2 ^ 32 * m" using f1(2) by (intro mult_right_mono) auto
    then have "b1 * m + m \<le> 2 ^ 32 * m" by (simp add: distrib_right)
    ultimately have "b1 * m + c1 + 1 \<le> 2 ^ 32 * m" by linarith
    then have "sz * (b1 * m + c1 + 1) \<le> sz * (2 ^ 32 * m)" using sz by simp
    then show ?thesis using e(1) m by (simp add: algebra_simps)
  qed
  ultimately show ?thesis using ArchivePosition_inj assms(1,2) by blast
qed

theorem ArchivePosition_disjoint_witness:
  "uint (0x03000000 :: u64) + 16777216 \<le> 2 ^ 64 \<and> ArchivePosition ''000000010000000000000003'' 16777216 = Inr (1, 0x03000000)"
proof -
  have "ArchivePosition ''000000010000000000000003'' 16777216 = Inr (1, 0x03000000)" by code_simp
  from ArchivePosition_disjoint[OF this this, of 50331650] this show ?thesis by simp
qed

text \<open>A parsed timeline history is a valid recovery path: \<open>ParseHistory\<close> only returns paths
  that end in the requested timeline, have strictly ascending IDs, a fork position on every
  timeline but the first, forks in ascending order, and at most 1024 timelines; they pass the
  path check of \<open>Plan.Validate\<close>.\<close>

theorem ParseHistory_path:
  assumes "ParseHistory tli b = Inr p"
  shows "(\<exists>lst. fold_res check_node p ([], 0) = Inr (map tml_ID p, lst)) \<and> tml_ID (last p) = tli \<and>
    sorted_wrt (<) (map tml_ID p) \<and> 2 \<le> length p \<and> length p \<le> 1024"
  using ParseHistory_valid_path[OF assms] path_ascending(1) by blast

theorem ParseHistory_path_witness:
  "sorted_wrt (<) (map tml_ID [\<lparr>tml_ID = 1, tml_ForkLSN = None\<rparr>, \<lparr>tml_ID = 3, tml_ForkLSN = Some ''0/3000000''\<rparr>]) \<and>
   ParseHistory 3 ''1 0/3000000 promoted'' = Inr [\<lparr>tml_ID = 1, tml_ForkLSN = None\<rparr>, \<lparr>tml_ID = 3, tml_ForkLSN = Some ''0/3000000''\<rparr>]"
proof -
  have "ParseHistory 3 ''1 0/3000000 promoted'' = Inr [\<lparr>tml_ID = 1, tml_ForkLSN = None\<rparr>, \<lparr>tml_ID = 3, tml_ForkLSN = Some ''0/3000000''\<rparr>]"
    by code_simp
  from ParseHistory_path[OF this] this show ?thesis by simp
qed

text \<open>A valid plan promises an unbroken log: from the end of the WAL bundled with the selected
  backup, along every later timeline of the path between its own fork and the next, up to the
  frontier, every position lies in a required archive range of that timeline; unless the target is
  immediate the path is followed to its last timeline.\<close>

theorem Plan_archive_contiguous:
  assumes "Plan_Validate p = Inr ()" "tgt_Kind (pln_Target p) \<noteq> ''immediate''"
  shows "\<exists>i. i < length (pln_Path p) \<and> tml_ID (pln_Path p ! i) = cmt_Timeline (last (pln_Chain p)) \<and>
    covers (pln_Path p) (plan_ranges p) i (uint (lsn_or_zero (cmt_BundledWALEndLSN (last (pln_Chain p)))))
      (length (pln_Path p) - 1) (uint (plan_frontier p))"
proof -
  obtain i j where "i \<le> j" "j < length (pln_Path p)" "j = length (pln_Path p) - 1" "tml_ID (pln_Path p ! i) = cmt_Timeline (last (pln_Chain p))"
    "covers (pln_Path p) (plan_ranges p) i (uint (lsn_or_zero (cmt_BundledWALEndLSN (last (pln_Chain p))))) j (uint (plan_frontier p))"
    using Plan_Validate_covers(1)[OF assms(1)] assms(2) by blast
  then show ?thesis by (intro exI[of _ i]) auto
qed

theorem Plan_archive_contiguous_witness:
  "covers [\<lparr>tml_ID = 1, tml_ForkLSN = None\<rparr>] [\<lparr>wr_Timeline = 1, wr_StartLSN = ''0/2000158'', wr_EndLSN = ''0/4000000''\<rparr>] 0 0x2000158 0 0x4000000"
proof -
  have d: "tgt_Kind (pln_Target example_plan) \<noteq> ''immediate''" "pln_Path example_plan = [\<lparr>tml_ID = 1, tml_ForkLSN = None\<rparr>]"
    "plan_ranges example_plan = [\<lparr>wr_Timeline = 1, wr_StartLSN = ''0/2000158'', wr_EndLSN = ''0/4000000''\<rparr>]"
    "last (pln_Chain example_plan) = example_commit"
    by (simp_all add: example_plan_def plan_ranges_def)
  have f: "plan_frontier example_plan = 0x4000000" by (simp add: plan_frontier_def d lsn_or_zero_def example_positions)
  show ?thesis using Plan_archive_contiguous[OF example_plan_valid d(1)] by (simp add: d f example_commit_places)
qed

text \<open>\<open>Coverage\<close> means intersection: for a complete segment, the two answers say whether any
  position of the segment lies in the WAL bundled with the selected backup, and whether any lies in a
  required archive range of its timeline.\<close>

theorem Coverage_intersection:
  assumes "Coverage p name = Inr (bundle, remote)" "ArchivePosition name (idn_WALSegmentBytes (pln_Source p)) = Inr (tli, start)"
  shows "(bundle \<longleftrightarrow> (\<exists>w \<in> set (cmt_WALRanges (last (pln_Chain p))). wr_Timeline w = tli \<and>
      span w \<inter> {uint start ..< uint start + idn_WALSegmentBytes (pln_Source p)} \<noteq> {})) \<and>
    (remote \<longleftrightarrow> (\<exists>w \<in> set (plan_ranges p). wr_Timeline w = tli \<and>
      span w \<inter> {uint start ..< uint start + idn_WALSegmentBytes (pln_Source p)} \<noteq> {}))"
proof -
  let ?sz = "idn_WALSegmentBytes (pln_Source p)"
  have v: "Plan_Validate p = Inr ()" using assms(1) by (auto simp: Coverage_def)
  have w: "walTimeline name ?sz = Inr tli" "length name = 24" "start = segment_start name ?sz"
    using assms(2) by (auto simp: ArchivePosition_def split: sum.splits if_splits)
  note al = segment_start_aligned[OF assms(2)]
  have nh: "\<not> has_suffix name ''.history''" using ArchivePosition_fields[OF assms(2)] segment_not_history by blast
  have br: "bundle = list_ex (intersects ?sz tli start) (cmt_WALRanges (last (pln_Chain p)))"
    "remote = list_ex (intersects ?sz tli start) (plan_ranges p)"
    using assms(1) v w nh by (auto simp: Coverage_def Let_def)
  have sp: "intersects ?sz tli start r \<longleftrightarrow> wr_Timeline r = tli \<and> span r \<inter> {uint start ..< uint start + ?sz} \<noteq> {}"
    if "lsn_or_zero (wr_StartLSN r) < lsn_or_zero (wr_EndLSN r)" for r
    using intersects_span[OF al(2,3) that, of tli start] by auto
  have rem: "remote = (\<exists>w \<in> set (plan_ranges p). wr_Timeline w = tli \<and> span w \<inter> {uint start ..< uint start + ?sz} \<noteq> {})"
    using Plan_Validate_covers(2)[OF v] by (auto simp: br(2) list_ex_iff list_all_iff sp)
  have "last (pln_Chain p) \<in> set (pln_Chain p)"
    using Plan_Validate_parts(3)[OF v] by (intro last_in_set) (auto simp: plan_sizes_ok_def)
  moreover obtain u where "fold_res (\<lambda>c _. Commit_validate c (pln_Source p)) (pln_Chain p) () = Inr u"
    using Plan_Validate_parts(4)[OF v] by (auto simp: check_chain_def)
  ultimately have "Commit_validate (last (pln_Chain p)) (pln_Source p) = Inr ()" using fold_res_elem by fastforce
  from Commit_validate_parts(3)[OF this]
  have "lsn_or_zero (wr_StartLSN r) < lsn_or_zero (wr_EndLSN r)" if "r \<in> set (cmt_WALRanges (last (pln_Chain p)))" for r
    using that by (auto simp: commit_positions_ok_def lsn_or_zero_def split: option.splits)
  then have "bundle = (\<exists>w \<in> set (cmt_WALRanges (last (pln_Chain p))). wr_Timeline w = tli \<and> span w \<inter> {uint start ..< uint start + ?sz} \<noteq> {})"
    by (auto simp: br(1) list_ex_iff sp)
  with rem show ?thesis by blast
qed

theorem Coverage_intersection_witness:
  "Coverage example_plan ''000000010000000000000002'' = Inr (True, True) \<and>
   span \<lparr>wr_Timeline = 1, wr_StartLSN = ''0/2000158'', wr_EndLSN = ''0/4000000''\<rparr> \<inter> {0x2000000 ..< 0x3000000} \<noteq> {}"
proof -
  have pos: "ArchivePosition ''000000010000000000000002'' 16777216 = Inr (1, 0x2000000)" by code_simp
  then have w: "walTimeline ''000000010000000000000002'' 16777216 = Inr 1" "segment_start ''000000010000000000000002'' 16777216 = 0x2000000"
    by (auto simp: ArchivePosition_def split: sum.splits)
  have d: "idn_WALSegmentBytes (pln_Source example_plan) = 16777216" "pln_Chain example_plan = [example_commit]"
    "plan_ranges example_plan = [\<lparr>wr_Timeline = 1, wr_StartLSN = ''0/2000158'', wr_EndLSN = ''0/4000000''\<rparr>]"
    "cmt_WALRanges example_commit = [\<lparr>wr_Timeline = 1, wr_StartLSN = ''0/2000000'', wr_EndLSN = ''0/2000158''\<rparr>]"
    by (simp_all add: example_plan_def plan_ranges_def example_identity_def example_commit_def)
  have "ParseLSN ''0/2000000'' = Some 0x2000000" "\<not> has_suffix ''000000010000000000000002'' ''.history''" by code_simp+
  then have c: "Coverage example_plan ''000000010000000000000002'' = Inr (True, True)"
    by (simp add: Coverage_def example_plan_valid d w intersects_def lsn_or_zero_def example_positions)
  from Coverage_intersection[OF c, of 1 "0x2000000"] pos c show ?thesis by (simp add: d)
qed

text \<open>C33. \<open>Resolve\<close> only freezes archive that exists: every complete segment the returned plan
  requires from the archive is one of the names of the inventory it was given. No interior gap
  can be frozen into a plan.\<close>

theorem Resolve_archive_complete:
  "case fst (Resolve S r h cat template names checkInput readHistory w) of
     Inl _ \<Rightarrow> True
   | Inr p \<Rightarrow> Plan_Validate p = Inr () \<and> pln_Source p = rp_id r \<and> archive_segments p \<subseteq> set names"
proof (cases "Resolve S r h cat template names checkInput readHistory w")
  case (Pair res w')
  show ?thesis
  proof (cases res)
    case (Inr p)
    then have run: "Resolve S r h cat template names checkInput readHistory w = (Inr p, w')" using Pair by simp
    have "archive_segments p \<subseteq> set names"
      using resolved_segments_present[OF run] by (auto simp: archive_segments_def)
    then show ?thesis using Resolve_result[OF run] Pair Inr by auto
  qed (simp add: Pair)
qed

text \<open>C34. Saving a plan is atomic and reads back: whichever file operation fails, the plan file
  afterwards is the old one or the complete new one; after a success it is the new one, and
  \<open>ReadPlan\<close> returns exactly the plan that was saved.\<close>

theorem SavePlan_atomic:
  assumes "SavePlan absolute uuid p d = (res, d')"
  shows "(dir_files d' plan_file = dir_files d plan_file \<or> dir_files d' plan_file = Some (render (enc_Plan p))) \<and>
    (res = Inr () \<longrightarrow> fst (ReadPlan (d'\<lparr>dir_faults := []\<rparr>)) = Inr p)"
  using SavePlan_replaces[OF assms] ReadPlan_after[of "d'\<lparr>dir_faults := []\<rparr>" p] by auto

lemma example_plan_small: "int (length (render (enc_Plan example_plan))) \<le> commitLimit"
proof -
  have op: "length example_operation = 36"
    using validID_RestoreOperationID[OF example_operation_id] by (simp add: validID_def uuidRE_def)
  have parts: "render_bound (enc_Commit example_commit) \<le> 100000" "render_bound (enc_Identity example_identity) \<le> 10000"
    "render_bound (enc_int 1) \<le> 10" "render_bound (enc_u32 1) \<le> 10" "length example_hash = 64" "length example_target = 36"
    by code_simp+
  have "render_bound (enc_Plan example_plan) \<le> commitLimit"
    using parts by (simp add: enc_Plan_def example_plan_def op enc_Target_def enc_Timeline_def enc_WALRange_def enc_ptr_def enc_list_def commitLimit_def)
  then show ?thesis using length_render order_trans by blast
qed

theorem SavePlan_atomic_witness:
  "\<exists>d'. SavePlan True ''u'' example_plan \<lparr>dir_files = (\<lambda>_. None), dir_faults = []\<rparr> = (Inr (), d') \<and>
     fst (ReadPlan (d'\<lparr>dir_faults := []\<rparr>)) = Inr example_plan"
proof -
  let ?d = "\<lparr>dir_files = (\<lambda>_. None), dir_faults = []\<rparr>"
  obtain res d' where run: "SavePlan True ''u'' example_plan ?d = (res, d')" by (metis prod.exhaust)
  have "fst (SavePlan True ''u'' example_plan ?d) = Inr ()"
    using example_plan_valid example_plan_small
    by (simp add: SavePlan_def Let_def andthen_def attempt_def finally_remove_def create_file_def write_closed_def write_file_def
        rename_file_def remove_file_def try_op_def next_op_def set_file_def lift_def)
  then have "res = Inr ()" using run by simp
  with SavePlan_atomic[OF run] run show ?thesis by auto
qed

end
