(* ===== verification/Collection.thy ===== *)
theory Collection
  imports Catalog
begin

text \<open>
  Garbage collection (repository/gc.go) and the inventories that feed it
  (repository/retention_inventory.go): the owner's admission and release, validation of the
  complete victim list, the persisted plan and the bounded destructive phase, the archive
  inventory and the discovery of abandoned payloads and uploads.
\<close>

section \<open>Documents\<close>

record policy =
  pol_WindowSeconds :: int
  pol_MinimumFulls :: int

definition enc_Policy :: "policy \<Rightarrow> json" where
  "enc_Policy v = JObj [(''window_seconds'', enc_int (pol_WindowSeconds v)), (''minimum_fulls'', enc_int (pol_MinimumFulls v))]"


record victim =
  vic_Kind :: string
  vic_BackupUID :: "string option"
  vic_AttemptID :: "string option"
  vic_Index :: "int option"
  vic_Compression :: "string option"
  vic_UploadID :: "string option"
  vic_WALName :: "string option"
  vic_ExpectedETag :: "string option"
  vic_SHA256 :: string
  vic_RawBytes :: int

definition enc_Victim :: "victim \<Rightarrow> json" where
  "enc_Victim v = JObj [(''kind'', JStr (vic_Kind v)), (''backup_uid'', enc_ptr JStr (vic_BackupUID v)),
     (''attempt_id'', enc_ptr JStr (vic_AttemptID v)), (''index'', enc_ptr enc_int (vic_Index v)),
     (''compression'', enc_ptr JStr (vic_Compression v)), (''upload_id'', enc_ptr JStr (vic_UploadID v)),
     (''wal_name'', enc_ptr JStr (vic_WALName v)), (''expected_etag'', enc_ptr JStr (vic_ExpectedETag v)),
     (''sha256'', JStr (vic_SHA256 v)), (''raw_bytes'', enc_int (vic_RawBytes v))]"


record gc_plan =
  gcp_Schema :: int
  gcp_RepositoryID :: string
  gcp_OperationID :: string
  gcp_ProcessID :: string
  gcp_Cutoff :: string
  gcp_Policy :: policy
  gcp_Victims :: "victim list"

definition enc_GCPlan :: "gc_plan \<Rightarrow> json" where
  "enc_GCPlan v = JObj [(''schema'', enc_int (gcp_Schema v)), (''repository_id'', JStr (gcp_RepositoryID v)),
     (''operation_id'', JStr (gcp_OperationID v)), (''process_id'', JStr (gcp_ProcessID v)),
     (''cutoff'', JStr (gcp_Cutoff v)), (''policy'', enc_Policy (gcp_Policy v)),
     (''victims'', enc_list enc_Victim (gcp_Victims v))]"


record wal_retirement =
  wrt_Schema :: int
  wrt_State :: string
  wrt_RepositoryID :: string
  wrt_Name :: string
  wrt_RawBytes :: int
  wrt_RawSHA256 :: string
  wrt_GCOperationID :: string

definition WALRetirement_type :: gotype where
  "WALRetirement_type = TStruct [(''schema'', TNumber), (''state'', TString), (''repository_id'', TString), (''name'', TString),
     (''raw_bytes'', TNumber), (''raw_sha256'', TString), (''gc_operation_id'', TString)]"

definition enc_WALRetirement :: "wal_retirement \<Rightarrow> json" where
  "enc_WALRetirement v = JObj [(''schema'', enc_int (wrt_Schema v)), (''state'', JStr (wrt_State v)),
     (''repository_id'', JStr (wrt_RepositoryID v)), (''name'', JStr (wrt_Name v)),
     (''raw_bytes'', enc_int (wrt_RawBytes v)), (''raw_sha256'', JStr (wrt_RawSHA256 v)),
     (''gc_operation_id'', JStr (wrt_GCOperationID v))]"

definition dec_WALRetirement :: "json \<Rightarrow> wal_retirement option" where
  "dec_WALRetirement j =
     Option.bind (fld j ''schema'' dec_int) (\<lambda>x0. Option.bind (fld j ''state'' dec_str) (\<lambda>x1.
     Option.bind (fld j ''repository_id'' dec_str) (\<lambda>x2. Option.bind (fld j ''name'' dec_str) (\<lambda>x3.
     Option.bind (fld j ''raw_bytes'' dec_int) (\<lambda>x4.
     Option.bind (fld j ''raw_sha256'' dec_str) (\<lambda>x5.
     Option.bind (fld j ''gc_operation_id'' dec_str) (\<lambda>x6.
     Some \<lparr>wrt_Schema = x0, wrt_State = x1, wrt_RepositoryID = x2, wrt_Name = x3, wrt_RawBytes = x4, wrt_RawSHA256 = x5,
       wrt_GCOperationID = x6\<rparr>)))))))"

section \<open>The owner\<close>

text \<open>\<open>started\<close> is \<open>None\<close> while it is the zero time; \<open>catalog\<close> is the kept spool.\<close>

record gc_owner =
  gco_owner :: owner
  gco_started :: "instant option"
  gco_catalog :: "entry list option"
  gco_requests :: int
  gco_closed :: bool
  gco_uncertain :: bool
  gco_executed :: bool

definition get_side :: "('w \<times> 'r, 'r) act" where
  "get_side = (\<lambda>(w, x). (Inr x, (w, x)))"

definition upd_side :: "('r \<Rightarrow> 'r) \<Rightarrow> ('w \<times> 'r, unit) act" where
  "upd_side f = (\<lambda>(w, x). (Inr (), (w, f x)))"

definition GCCatalogBytes :: int where
  "GCCatalogBytes = 268435456"

definition now_of :: "'w sys \<Rightarrow> ('w, instant) act" where
  "now_of S w = (case os_now S w of (t, w') \<Rightarrow> (Inr t, w'))"

text \<open>\<open>nb\<close> is \<open>gcNotBefore\<close> of the repository handle.\<close>

definition AcquireGC :: "'w sys \<Rightarrow> repo \<Rightarrow> instant \<Rightarrow> ('w, gc_owner) act" where
  "AcquireGC S r nb =
     andthen (st_CheckBucketSafety S) (\<lambda>_.
     andthen (now_of S) (\<lambda>now.
     andthen (if nb - now > 0 then os_sleep S (nb - now) else ret ()) (\<lambda>_.
     andthen (new_UUID S) (\<lambda>op. let o' = \<lparr>own_OperationID = op, own_ProcessID = rp_process r, own_Kind = ''gc''\<rparr> in
     andthen (changeGate S r (acquire_change o')) (\<lambda>_.
     ret \<lparr>gco_owner = o', gco_started = None, gco_catalog = None, gco_requests = 0, gco_closed = False, gco_uncertain = False,
       gco_executed = False\<rparr>)))))"

definition GC_check :: "'w sys \<Rightarrow> repo \<Rightarrow> gc_owner \<Rightarrow> ('w, unit) act" where
  "GC_check S r g =
     andthen (ctx_err S) (\<lambda>_.
     if gco_closed g then fail ErrClosed
     else if gco_uncertain g then fail ErrUncertain
     else andthen (readGate S r) (\<lambda>(gate, _).
       if gat_Owner gate \<noteq> Some (gco_owner g) then fail ErrBlocked else ret ()))"

definition GC_Inventory :: "'w sys \<Rightarrow> repo \<Rightarrow> limits \<Rightarrow> (entry \<Rightarrow> 'v \<Rightarrow> ('w, 'v) act) \<Rightarrow> 'v \<Rightarrow> ('w \<times> gc_owner, 'v) act" where
  "GC_Inventory S r l visit v =
     andthen get_side (\<lambda>g.
     andthen (on_world (GC_check S r g)) (\<lambda>_.
     andthen (lift (CatalogLimits_validate l)) (\<lambda>_.
     if gco_executed g \<or> gco_catalog g \<noteq> None then fail ErrInvalid
     else if lim_MaxSpoolBytes l > GCCatalogBytes then fail ErrCapacity
     else andthen (on_world (spoolCatalog S r l)) (\<lambda>es.
       andthen (on_world (scanEntries S es visit v)) (\<lambda>v.
       andthen (upd_side (\<lambda>g. g\<lparr>gco_catalog := Some es\<rparr>)) (\<lambda>_. ret v))))))"

section \<open>Victims\<close>

definition opt_is :: "'a option \<Rightarrow> ('a \<Rightarrow> bool) \<Rightarrow> bool" where
  "opt_is v P = (case v of None \<Rightarrow> False | Some x \<Rightarrow> P x)"

definition validate_wal_victim :: "'w sys \<Rightarrow> repo \<Rightarrow> victim \<Rightarrow> ('w, unit) act" where
  "validate_wal_victim S r v = (case (vic_WALName v, vic_ExpectedETag v) of
     (Some name, Some etag) \<Rightarrow>
       if etag = [] \<or> length etag > 256 \<or> vic_BackupUID v \<noteq> None \<or> vic_AttemptID v \<noteq> None \<or> vic_Index v \<noteq> None \<or>
          vic_Compression v \<noteq> None \<or> vic_UploadID v \<noteq> None then fail ErrInvalid
       else if length name \<noteq> 24 \<or> vic_RawBytes v \<noteq> idn_WALSegmentBytes (rp_id r) then fail ErrInvalid
       else andthen (lift (WALKey r name)) (\<lambda>key.
         andthen (st_Head S key) (\<lambda>i. let m = inf_Metadata i in
         if inf_ETag i \<noteq> etag \<or> meta_get m ''cnpg-format'' \<noteq> ''wal-v1'' \<or>
            meta_get m ''cnpg-system-id'' \<noteq> idn_SystemIdentifier (rp_id r) \<or> meta_get m ''cnpg-raw-sha256'' \<noteq> vic_SHA256 v \<or>
            meta_get m ''cnpg-raw-bytes'' \<noteq> format_int (vic_RawBytes v) then fail ErrIdentity
         else ret ()))
   | _ \<Rightarrow> fail ErrInvalid)"

text \<open>The shape of a payload victim, after its attempt was found to be claimed.\<close>

definition payload_shape_ok :: "victim \<Rightarrow> bool" where
  "payload_shape_ok v =
     (if vic_Kind v = ''delete-manifest'' then vic_Index v = None \<and> vic_Compression v = None \<and> vic_UploadID v = None
      else if vic_Kind v = ''delete-artifact'' \<or> vic_Kind v = ''abort-artifact'' then
        opt_is (vic_Index v) (\<lambda>i. 0 \<le> i \<and> i < 66) \<and> opt_is (vic_Compression v) (\<lambda>c. c = ''none'' \<or> c = ''gzip'') \<and>
        (if vic_Kind v = ''abort-artifact'' then opt_is (vic_UploadID v) (\<lambda>u. validText u 2048) else vic_UploadID v = None)
      else if vic_Kind v = ''abort-manifest'' then
        vic_Index v = None \<and> vic_Compression v = None \<and> opt_is (vic_UploadID v) (\<lambda>u. validText u 2048)
      else False)"

definition payload_unused :: "'w sys \<Rightarrow> repo \<Rightarrow> string \<Rightarrow> string \<Rightarrow> string list \<Rightarrow> err + commit \<times> bytes \<times> info \<Rightarrow> ('w, unit) act" where
  "payload_unused S r uid att retired rc = (case rc of
     Inr (c, b, _) \<Rightarrow>
       if cmt_AttemptID c = att then
         attempt (live S r c b) (\<lambda>le. case le of
           Inl e \<Rightarrow> if e = ErrRetired then ret () else fail e
         | Inr _ \<Rightarrow> if uid \<in> set retired then ret () else fail ErrBlocked)
       else ret ()
   | Inl e \<Rightarrow> if Is e NotFound then ret () else fail e)"

definition validateVictim :: "'w sys \<Rightarrow> repo \<Rightarrow> victim \<Rightarrow> string list \<Rightarrow> ('w, unit) act" where
  "validateVictim S r v retired =
     (if \<not> hashRE (vic_SHA256 v) \<or> vic_RawBytes v < 0 then fail ErrInvalid
      else if vic_Kind v = ''retire-wal'' then validate_wal_victim S r v
      else case vic_BackupUID v of
        None \<Rightarrow> fail ErrInvalid
      | Some uid \<Rightarrow>
         if \<not> validID uid \<or> vic_WALName v \<noteq> None \<or> vic_ExpectedETag v \<noteq> None then fail ErrInvalid
         else attempt (readCommit S r uid) (\<lambda>rc.
           if vic_Kind v = ''retire-backup'' then
             (if vic_AttemptID v \<noteq> None \<or> vic_Index v \<noteq> None \<or> vic_Compression v \<noteq> None \<or> vic_UploadID v \<noteq> None then fail ErrInvalid
              else case rc of Inl e \<Rightarrow> fail e
              | Inr (_, b, _) \<Rightarrow> if digest b \<noteq> vic_SHA256 v then fail ErrIdentity else ret ())
           else case vic_AttemptID v of
             None \<Rightarrow> fail ErrInvalid
           | Some att \<Rightarrow>
              if \<not> validID att then fail ErrInvalid
              else andthen (payload_unused S r uid att retired rc) (\<lambda>_.
                andthen (readClaim S r uid att) (\<lambda>_.
                if payload_shape_ok v then ret () else fail ErrInvalid))))"

section \<open>Destruction\<close>

definition retire_backup :: "'w sys \<Rightarrow> repo \<Rightarrow> owner \<Rightarrow> string \<Rightarrow> string \<Rightarrow> ('w, unit) act" where
  "retire_backup S r o' uid hash = (let key = backup_key r uid @ ''retired.json'';
       rt = \<lparr>ret_Schema = 1, ret_RepositoryID = idn_RepositoryID (rp_id r), ret_BackupUID = uid, ret_CommitSHA256 = hash,
         ret_GCOperationID = own_OperationID o'\<rparr> in
     attempt (put S key (render (enc_Retirement rt)) Create []) (\<lambda>res. case res of
       Inr _ \<Rightarrow> ret ()
     | Inl e \<Rightarrow>
        if Is e Precondition then
          andthen (st_Read S key smallLimit) (\<lambda>(old, _). case strict Retirement_type dec_Retirement old smallLimit of
            Inl _ \<Rightarrow> fail ErrCorrupt
          | Inr got \<Rightarrow> lift (Retirement_validate got (rp_id r) uid hash))
        else fail e))"

definition retire_wal :: "'w sys \<Rightarrow> repo \<Rightarrow> owner \<Rightarrow> victim \<Rightarrow> string \<Rightarrow> string \<Rightarrow> ('w, unit) act" where
  "retire_wal S r o' v name etag =
     andthen (lift (WALKey r name)) (\<lambda>key. let rt = \<lparr>wrt_Schema = 1, wrt_State = ''retired'', wrt_RepositoryID = idn_RepositoryID (rp_id r),
         wrt_Name = name, wrt_RawBytes = vic_RawBytes v, wrt_RawSHA256 = vic_SHA256 v, wrt_GCOperationID = own_OperationID o'\<rparr> in
     andthen (put S key (render (enc_WALRetirement rt)) (Match etag) [(''cnpg-format'', ''wal-retired-v1'')]) (\<lambda>_. ret ()))"

text \<open>The string behind a pointer the validation found non-nil.\<close>

definition deref :: "string option \<Rightarrow> string" where
  "deref v = (case v of Some x \<Rightarrow> x | None \<Rightarrow> [])"

definition payload_key :: "repo \<Rightarrow> victim \<Rightarrow> string" where
  "payload_key r v = (case vic_Index v of
     None \<Rightarrow> attempt_key r (deref (vic_BackupUID v)) (deref (vic_AttemptID v)) @ ''manifest.pg.json''
   | Some i \<Rightarrow> artifact_key r (deref (vic_BackupUID v)) (deref (vic_AttemptID v)) i (deref (vic_Compression v)))"

definition destroy :: "'w sys \<Rightarrow> repo \<Rightarrow> owner \<Rightarrow> victim \<Rightarrow> ('w, unit) act" where
  "destroy S r o' v =
     (if vic_Kind v = ''retire-backup'' then retire_backup S r o' (deref (vic_BackupUID v)) (vic_SHA256 v)
      else if vic_Kind v = ''retire-wal'' then retire_wal S r o' v (deref (vic_WALName v)) (deref (vic_ExpectedETag v))
      else if has_prefix (vic_Kind v) ''abort-'' then st_Abort S \<lparr>upl_Key = payload_key r v, upl_ID = deref (vic_UploadID v)\<rparr>
      else st_Delete S (payload_key r v))"

section \<open>Execute\<close>

definition gc_plan_ok :: "repo \<Rightarrow> owner \<Rightarrow> gc_plan \<Rightarrow> bool" where
  "gc_plan_ok r o' p \<longleftrightarrow>
     gcp_Schema p = 1 \<and> gcp_RepositoryID p = idn_RepositoryID (rp_id r) \<and> gcp_OperationID p = own_OperationID o' \<and>
     gcp_ProcessID p = own_ProcessID o' \<and> 1 \<le> length (gcp_Victims p) \<and> length (gcp_Victims p) \<le> 128 \<and>
     snd (stamp (gcp_Cutoff p)) \<and> 3600 \<le> pol_WindowSeconds (gcp_Policy p) \<and> pol_WindowSeconds (gcp_Policy p) \<le> 3650 * 86400 \<and>
     1 \<le> pol_MinimumFulls (gcp_Policy p) \<and> pol_MinimumFulls (gcp_Policy p) \<le> 100"

text \<open>A live child that is not retired yet.\<close>

definition live_child :: "string \<Rightarrow> string list \<Rightarrow> entry \<Rightarrow> bool" where
  "live_child uid retired en \<longleftrightarrow>
     \<not> ent_Retired en \<and> cmt_ParentBackupUID (ent_Commit en) = Some uid \<and> cmt_BackupUID (ent_Commit en) \<notin> set retired"

definition check_victim :: "'w sys \<Rightarrow> repo \<Rightarrow> entry list \<Rightarrow> victim \<Rightarrow> string list \<times> bool \<Rightarrow> ('w, string list \<times> bool) act" where
  "check_victim S r es v s = (case s of (retired, wal) \<Rightarrow> let wal' = (wal \<or> vic_Kind v = ''retire-wal'') in
     if vic_Kind v = ''retire-backup'' \<and> wal' then fail ErrInvalid
     else andthen (validateVictim S r v retired) (\<lambda>_.
       if vic_Kind v = ''retire-backup'' then
         andthen (scanEntries S es (\<lambda>en u. if live_child (deref (vic_BackupUID v)) retired en then fail ErrBlocked else ret ()) ()) (\<lambda>_.
         ret (deref (vic_BackupUID v) # retired, wal'))
       else ret (retired, wal')))"

definition gc_latch :: "err \<Rightarrow> ('w \<times> gc_owner, unit) act" where
  "gc_latch e = upd_side (\<lambda>g. if ambiguous e then g\<lparr>gco_uncertain := True\<rparr> else g)"

definition gc_plan_key :: "repo \<Rightarrow> gc_plan \<Rightarrow> string" where
  "gc_plan_key r p = rp_root r @ ''gc/'' @ gcp_OperationID p @ ''.json''"

text \<open>One destructive request, with the budgets of the whole phase before it.\<close>

definition start_clock :: "'w sys \<Rightarrow> ('w \<times> gc_owner, unit) act" where
  "start_clock S =
     andthen get_side (\<lambda>g.
     andthen (on_world (now_of S)) (\<lambda>now. case gco_started g of
       None \<Rightarrow> upd_side (\<lambda>g. g\<lparr>gco_started := Some now\<rparr>)
     | Some t \<Rightarrow> if now - t \<ge> 30000000000 then fail ErrCapacity else ret ()))"

definition destroy_one :: "'w sys \<Rightarrow> repo \<Rightarrow> victim \<Rightarrow> ('w \<times> gc_owner, unit) act" where
  "destroy_one S r v =
     andthen get_side (\<lambda>g.
     if gco_requests g \<ge> 128 then fail ErrCapacity
     else andthen (on_world (GC_check S r g)) (\<lambda>_.
       andthen (start_clock S) (\<lambda>_.
       andthen (upd_side (\<lambda>g. g\<lparr>gco_requests := gco_requests g + 1\<rparr>)) (\<lambda>_.
       attempt (on_world (destroy S r (gco_owner g) v)) (\<lambda>res. case res of
         Inr _ \<Rightarrow> ret ()
       | Inl e \<Rightarrow> andthen (gc_latch e) (\<lambda>_. fail e))))))"

definition gc_entries :: "'w sys \<Rightarrow> repo \<Rightarrow> ('w \<times> gc_owner, entry list) act" where
  "gc_entries S r =
     andthen get_side (\<lambda>g. case gco_catalog g of
       Some es \<Rightarrow> ret es
     | None \<Rightarrow> andthen (on_world (spoolCatalog S r \<lparr>lim_MaxRecords = MaxCatalogRecords, lim_MaxSpoolBytes = GCCatalogBytes\<rparr>)) (\<lambda>es.
         andthen (upd_side (\<lambda>g. g\<lparr>gco_catalog := Some es\<rparr>)) (\<lambda>_. ret es)))"

definition persist_plan :: "'w sys \<Rightarrow> repo \<Rightarrow> gc_plan \<Rightarrow> ('w \<times> gc_owner, unit) act" where
  "persist_plan S r p = (let b = render (enc_GCPlan p) in
     if int (length b) > commitLimit then fail ErrCapacity
     else attempt (on_world (put S (gc_plan_key r p) b Create [])) (\<lambda>res. case res of
       Inr _ \<Rightarrow> ret ()
     | Inl e \<Rightarrow> andthen (gc_latch e) (\<lambda>_. fail e)))"

definition GC_Execute :: "'w sys \<Rightarrow> repo \<Rightarrow> gc_plan \<Rightarrow> ('w \<times> gc_owner, unit) act" where
  "GC_Execute S r p =
     andthen get_side (\<lambda>g.
     andthen (on_world (GC_check S r g)) (\<lambda>_.
     if gco_executed g then fail ErrClosed
     else andthen (upd_side (\<lambda>g. g\<lparr>gco_executed := True\<rparr>)) (\<lambda>_.
       if \<not> gc_plan_ok r (gco_owner g) p then fail ErrInvalid
       else andthen (gc_entries S r) (\<lambda>es.
         andthen (on_world (each_fold (check_victim S r es) (gcp_Victims p) ([], False))) (\<lambda>_.
         andthen (persist_plan S r p) (\<lambda>_.
         each (destroy_one S r) (gcp_Victims p)))))))"

text \<open>\<open>Close\<close> also returns the new \<open>gcNotBefore\<close>.\<close>

definition GC_Close :: "'w sys \<Rightarrow> repo \<Rightarrow> gc_owner \<Rightarrow> 'w \<Rightarrow> ((err + unit) \<times> gc_owner \<times> instant) \<times> 'w" where
  "GC_Close S r g w = (let g' = g\<lparr>gco_closed := True, gco_catalog := None\<rparr> in case os_now S w of
     (now, w1) \<Rightarrow>
       if gco_uncertain g then ((Inl ErrUncertain, g', now + 1000000000), w1)
       else case andthen (changeGate S r (release_change (gco_owner g))) (\<lambda>_. os_sleep S 1000000000) w1 of
         (res, w2) \<Rightarrow> ((res, g', now + 1000000000), w2))"

section \<open>The archive inventory\<close>

record wal_object =
  wob_Name :: string
  wob_ETag :: string
  wob_SHA256 :: string
  wob_RawBytes :: int
  wob_Retired :: bool

definition retired_slot_ok :: "repo \<Rightarrow> string \<Rightarrow> wal_retirement \<Rightarrow> bool" where
  "retired_slot_ok r name rt \<longleftrightarrow> wrt_Schema rt = 1 \<and> wrt_State rt = ''retired'' \<and> wrt_RepositoryID rt = idn_RepositoryID (rp_id r) \<and>
     wrt_Name rt = name \<and> length name = 24 \<and> wrt_RawBytes rt = idn_WALSegmentBytes (rp_id r) \<and> hashRE (wrt_RawSHA256 rt) \<and>
     validID (wrt_GCOperationID rt)"

text \<open>The raw size an archive slot's metadata declares, when everything about it is in order.\<close>

definition slot_raw_bytes :: "repo \<Rightarrow> string \<Rightarrow> info \<Rightarrow> int option" where
  "slot_raw_bytes r name i = (let m = inf_Metadata i; segment = (length name = 24 \<or> has_suffix name ''.partial'');
       mx = (if segment then idn_WALSegmentBytes (rp_id r) else 1048576) in
     case parse_int64 (meta_get m ''cnpg-raw-bytes'') of
       None \<Rightarrow> None
     | Some raw \<Rightarrow>
        if raw < 1 \<or> raw > mx \<or> (segment \<and> raw \<noteq> mx) \<or> format_int raw \<noteq> meta_get m ''cnpg-raw-bytes'' \<or> inf_Size i < 1 \<or>
           inf_Size i > mx + 1048576 \<or> meta_get m ''cnpg-format'' \<noteq> ''wal-v1'' \<or>
           meta_get m ''cnpg-system-id'' \<noteq> idn_SystemIdentifier (rp_id r) \<or> \<not> hashRE (meta_get m ''cnpg-raw-sha256'') \<or>
           \<not> hashRE (meta_get m ''cnpg-stored-sha256'') \<or>
           (meta_get m ''cnpg-compression'' \<noteq> ''none'' \<and> meta_get m ''cnpg-compression'' \<noteq> ''gzip'') then None
        else if meta_get m ''cnpg-compression'' = ''none'' \<and> inf_Size i \<noteq> raw then None
        else Some raw)"

definition archive_slot :: "'w sys \<Rightarrow> repo \<Rightarrow> string \<Rightarrow> string \<Rightarrow> info \<Rightarrow> ('w, wal_object) act" where
  "archive_slot S r key name i = (let m = inf_Metadata i in
     if meta_get m ''cnpg-format'' = ''wal-retired-v1'' then
       andthen (st_Read S key smallLimit) (\<lambda>(b, _). case strict WALRetirement_type dec_WALRetirement b smallLimit of
         Inl _ \<Rightarrow> fail ErrCorrupt
       | Inr rt \<Rightarrow> if \<not> retired_slot_ok r name rt then fail ErrCorrupt
           else ret \<lparr>wob_Name = name, wob_ETag = inf_ETag i, wob_SHA256 = wrt_RawSHA256 rt, wob_RawBytes = wrt_RawBytes rt, wob_Retired = True\<rparr>)
     else case slot_raw_bytes r name i of
       None \<Rightarrow> fail ErrCorrupt
     | Some raw \<Rightarrow> ret \<lparr>wob_Name = name, wob_ETag = inf_ETag i, wob_SHA256 = meta_get m ''cnpg-raw-sha256'', wob_RawBytes = raw,
         wob_Retired = False\<rparr>)"

definition inventory_item :: "'w sys \<Rightarrow> repo \<Rightarrow> (wal_object \<Rightarrow> 'v \<Rightarrow> ('w, 'v) act) \<Rightarrow> info \<Rightarrow> 'v \<Rightarrow> ('w, 'v) act" where
  "inventory_item S r visit i v = (let pre = rp_root r @ ''wal/''; p = split_on (CHR ''/'') (trim_prefix (inf_Key i) pre) in
     if \<not> has_prefix (inf_Key i) pre \<or> length p \<noteq> 2 then fail ErrCorrupt
     else if WALKey r (p ! 1) \<noteq> Inr (inf_Key i) then fail ErrCorrupt
     else andthen (st_Head S (inf_Key i)) (\<lambda>h.
       if inf_ETag h = [] \<or> length (inf_ETag h) > 256 then fail ErrCorrupt
       else andthen (archive_slot S r (inf_Key i) (p ! 1) h) (\<lambda>ob. visit ob v)))"

definition ArchiveInventory :: "'w sys \<Rightarrow> repo \<Rightarrow> gc_owner \<Rightarrow> (wal_object \<Rightarrow> 'v \<Rightarrow> ('w, 'v) act) \<Rightarrow> 'v \<Rightarrow> ('w, 'v) act" where
  "ArchiveInventory S r g visit v =
     andthen (GC_check S r g) (\<lambda>_.
     list_with (st_List S (rp_root r @ ''wal/'') MaxCatalogRecords) (inventory_item S r visit) v)"

definition GC_Plan :: "repo \<Rightarrow> gc_owner \<Rightarrow> string \<Rightarrow> policy \<Rightarrow> victim list \<Rightarrow> gc_plan" where
  "GC_Plan r g cutoff policy victims = \<lparr>gcp_Schema = 1, gcp_RepositoryID = idn_RepositoryID (rp_id r),
     gcp_OperationID = own_OperationID (gco_owner g), gcp_ProcessID = own_ProcessID (gco_owner g), gcp_Cutoff = cutoff,
     gcp_Policy = policy, gcp_Victims = victims\<rparr>"

section \<open>Cleanup\<close>

definition str_contains :: "string \<Rightarrow> string \<Rightarrow> bool" where
  "str_contains s t = list_ex (\<lambda>i. has_prefix (drop i s) t) [0..<Suc (length s)]"

definition cleanup_eligible :: "'w sys \<Rightarrow> repo \<Rightarrow> string \<Rightarrow> string \<Rightarrow> ('w, bool) act" where
  "cleanup_eligible S r uid att =
     attempt (readCommit S r uid) (\<lambda>rc. case rc of
       Inl e \<Rightarrow> if Is e NotFound then ret True else fail e
     | Inr (c, b, _) \<Rightarrow> attempt (live S r c b) (\<lambda>le. case le of
         Inl e \<Rightarrow> if e = ErrRetired then ret True else fail e
       | Inr _ \<Rightarrow> ret (cmt_AttemptID c \<noteq> att)))"

definition payload_victim :: "string list \<Rightarrow> string \<Rightarrow> string \<Rightarrow> string \<Rightarrow> victim option" where
  "payload_victim parts uid att hash = (let base = \<lparr>vic_Kind = [], vic_BackupUID = Some uid, vic_AttemptID = Some att, vic_Index = None,
       vic_Compression = None, vic_UploadID = None, vic_WALName = None, vic_ExpectedETag = None, vic_SHA256 = hash, vic_RawBytes = 0\<rparr> in
     if parts ! 3 = ''manifest.pg.json'' then Some (base\<lparr>vic_Kind := ''delete-manifest''\<rparr>)
     else if parts ! 3 = ''data'' \<and> length parts = 5 then
       (let cmpr = (if has_suffix (parts ! 4) ''.gz'' then ''gzip'' else ''none''); name = trim_suffix (parts ! 4) ''.gz'' in
        case decimal (trim_suffix name ''.tar'') of
          Some n \<Rightarrow> if n \<ge> 66 then None
            else Some (base\<lparr>vic_Kind := ''delete-artifact'', vic_Index := Some n, vic_Compression := Some cmpr\<rparr>)
        | None \<Rightarrow> None)
     else None)"

text \<open>With an upload, \<open>delete-\<close> becomes \<open>abort-\<close>.\<close>

definition upload_victim :: "string \<Rightarrow> victim \<Rightarrow> victim" where
  "upload_victim upload v = (if upload = [] then v
     else v\<lparr>vic_Kind := ''abort-'' @ drop 7 (vic_Kind v), vic_UploadID := Some upload\<rparr>)"

definition cleanup_candidate :: "'w sys \<Rightarrow> repo \<Rightarrow> int \<Rightarrow> string \<Rightarrow> string \<Rightarrow> victim list \<Rightarrow> ('w, victim list) act" where
  "cleanup_candidate S r limit key upload vs = (case catalogKey r key of
     None \<Rightarrow> fail ErrCorrupt
   | Some (uid, _) \<Rightarrow>
      andthen (validateListedMetadata S r key) (\<lambda>_. let parts = backup_parts r key in
      if length parts < 4 then fail ErrCorrupt
      else andthen (cleanup_eligible S r uid (parts ! 2)) (\<lambda>yes.
        if \<not> yes then ret vs
        else andthen (readClaim S r uid (parts ! 2)) (\<lambda>cl. case payload_victim parts uid (parts ! 2) (clm_RequestSHA256 cl) of
          None \<Rightarrow> fail ErrCorrupt
        | Some v0 \<Rightarrow> let v = upload_victim upload v0 in
           andthen (validateVictim S r v []) (\<lambda>_. ret (if int (length vs) < limit then vs @ [v] else vs))))))"

definition Cleanup :: "'w sys \<Rightarrow> repo \<Rightarrow> gc_owner \<Rightarrow> int \<Rightarrow> ('w, victim list) act" where
  "Cleanup S r g limit =
     andthen (GC_check S r g) (\<lambda>_.
     if limit < 1 \<or> limit > 128 then fail ErrInvalid
     else andthen (list_with (st_List S (rp_root r @ ''backups/'') MaxCatalogRecords) (\<lambda>i vs.
         if catalogKey r (inf_Key i) = None then fail ErrCorrupt
         else if has_suffix (inf_Key i) ''/manifest.pg.json'' \<or> str_contains (inf_Key i) ''/data/'' then
           cleanup_candidate S r limit (inf_Key i) [] vs
         else ret vs) []) (\<lambda>vs.
       list_with (st_ListUploads S (rp_root r @ ''backups/'') MaxCatalogRecords) (\<lambda>u vs.
         if \<not> validText (upl_ID u) 2048 then fail ErrCorrupt else cleanup_candidate S r limit (upl_Key u) (upl_ID u) vs) vs))"

end
