(* ===== verification/Wal_Files.thy ===== *)
theory Wal_Files
  imports Collection Recovery_Files
begin

text \<open>
  The WAL archive (wal/wal.go): the limits of a file name, the metadata of a stored file,
  retrieval with verification of the raw bytes, synchronous archiving, and the restore of a file
  into PostgreSQL's WAL directory.
\<close>

section \<open>Files and their limits\<close>

text \<open>The store is an argument of the operations; \<open>wf_Store\<close> tells whether the field is set.\<close>

record wal_files =
  wf_Repository :: "repo option"
  wf_Store :: bool
  wf_Compression :: string

definition MaxSingleSize :: int where
  "MaxSingleSize = 1074790400"

definition segmentSized :: "string \<Rightarrow> bool" where
  "segmentSized name \<longleftrightarrow> length name = 24 \<or> has_suffix name ''.partial''"

definition Limits :: "wal_files \<Rightarrow> string \<Rightarrow> err + repo \<times> string \<times> int" where
  "Limits w name = (case wf_Repository w of
     None \<Rightarrow> Inl WALInvalid
   | Some r \<Rightarrow>
      if \<not> wf_Store w \<or> (wf_Compression w \<noteq> ''none'' \<and> wf_Compression w \<noteq> ''gzip'') then Inl WALInvalid
      else case WALKey r name of
        Inl _ \<Rightarrow> Inl WALInvalid
      | Inr key \<Rightarrow> Inr (r, key, if segmentSized name then idn_WALSegmentBytes (rp_id r) else 1048576))"

text \<open>A local operation: whatever its error is, \<open>ErrLocal\<close> is returned.\<close>

definition local_io :: "('w, 'a) act \<Rightarrow> ('w, 'a) act" where
  "local_io m = attempt m (\<lambda>res. case res of Inl _ \<Rightarrow> fail WALLocal | Inr x \<Rightarrow> ret x)"

section \<open>Metadata\<close>

fun hex_decode :: "string \<Rightarrow> int list option" where
  "hex_decode [] = Some []"
| "hex_decode [c] = None"
| "hex_decode (a # b # cs) = (case (digit_value a, digit_value b) of
     (Some x, Some y) \<Rightarrow> map_option (\<lambda>bs. (16 * x + y) # bs) (hex_decode cs)
   | _ \<Rightarrow> None)"

definition hashValid :: "string \<Rightarrow> bool" where
  "hashValid v = (case hex_decode v of None \<Rightarrow> False | Some b \<Rightarrow> length b = 32 \<and> hex_encode b = v)"

definition wal_metadata :: "wal_files \<Rightarrow> string \<Rightarrow> info \<Rightarrow> err + integrity" where
  "wal_metadata w name i = res_bind (Limits w name) (\<lambda>(r, _, mx). let m = inf_Metadata i in
     if meta_get m ''cnpg-format'' = ''wal-retired-v1'' then Inl WALExpired
     else case parse_int64 (meta_get m ''cnpg-raw-bytes'') of
       None \<Rightarrow> Inl WALCorrupt
     | Some raw \<Rightarrow>
        if format_int raw \<noteq> meta_get m ''cnpg-raw-bytes'' \<or> raw < 1 \<or> raw > mx \<or> (segmentSized name \<and> raw \<noteq> mx) \<or>
           inf_Size i < 1 \<or> inf_Size i > mx + 1048576 \<or> meta_get m ''cnpg-format'' \<noteq> ''wal-v1'' \<or>
           meta_get m ''cnpg-system-id'' \<noteq> idn_SystemIdentifier (rp_id r) \<or> \<not> hashValid (meta_get m ''cnpg-raw-sha256'') \<or>
           \<not> hashValid (meta_get m ''cnpg-stored-sha256'') \<or>
           (meta_get m ''cnpg-compression'' \<noteq> ''none'' \<and> meta_get m ''cnpg-compression'' \<noteq> ''gzip'') then Inl WALCorrupt
        else Inr \<lparr>itg_Size = raw, itg_SHA256 = meta_get m ''cnpg-raw-sha256''\<rparr>)"

section \<open>Retrieve\<close>

definition DownloadWAL :: "'w sys \<Rightarrow> string \<Rightarrow> integrity \<Rightarrow> ('w, bytes \<times> info) act" where
  "DownloadWAL S key expected = (if itg_Size expected > MaxSingleSize then fail (failure Invalid) else st_Download S key expected)"

text \<open>The copy of the decompressed stream into the output file, bounded by one byte more than the
  declared size.\<close>

definition copy_verified :: "'w sys \<Rightarrow> string \<Rightarrow> bytes \<Rightarrow> integrity \<Rightarrow> ('w, bytes) act" where
  "copy_verified S compression b raw =
     attempt (ctx_err S) (\<lambda>c. andthen (local_io (disk S)) (\<lambda>_. case (c, raw_of S compression b) of
       (Inr _, Some x) \<Rightarrow> if int (length x) \<noteq> itg_Size raw \<or> digest x \<noteq> itg_SHA256 raw then fail WALCorrupt else ret x
     | _ \<Rightarrow> fail WALCorrupt))"

definition unpack :: "'w sys \<Rightarrow> info \<Rightarrow> bytes \<Rightarrow> integrity \<Rightarrow> ('w, bytes) act" where
  "unpack S i spool raw = (let compression = meta_get (inf_Metadata i) ''cnpg-compression''; b = take (nat (inf_Size i)) spool in
     if compression = ''gzip'' \<and> \<not> gz_open S b then fail WALCorrupt
     else andthen (local_io (disk S)) (\<lambda>_.
       andthen (local_io (disk S)) (\<lambda>_.
       andthen (copy_verified S compression b raw) (\<lambda>x.
       andthen (ctx_err S) (\<lambda>_.
       andthen (local_io (disk S)) (\<lambda>_. ret x))))))"

text \<open>The bytes are those of the output file after a success; after a failure no caller reads it.\<close>

definition Retrieve :: "'w sys \<Rightarrow> wal_files \<Rightarrow> string \<Rightarrow> ('w, integrity \<times> bytes) act" where
  "Retrieve S w name =
     andthen (lift (Limits w name)) (\<lambda>(r, key, mx).
     attempt (st_Head S key) (\<lambda>h. case h of
       Inl e \<Rightarrow> if \<not> Is e HeadMissing then fail e else andthen (st_Read S key 65536) (\<lambda>_. fail e)
     | Inr i \<Rightarrow>
        andthen (lift (wal_metadata w name i)) (\<lambda>raw.
        andthen (local_io (disk S)) (\<lambda>_.
        andthen (DownloadWAL S key \<lparr>itg_Size = inf_Size i, itg_SHA256 = meta_get (inf_Metadata i) ''cnpg-stored-sha256''\<rparr>) (\<lambda>(b, got).
        andthen (lift (wal_metadata w name got)) (\<lambda>gotRaw.
        if gotRaw \<noteq> raw \<or> meta_get (inf_Metadata got) ''cnpg-compression'' \<noteq> meta_get (inf_Metadata i) ''cnpg-compression'' \<or>
           meta_get (inf_Metadata got) ''cnpg-stored-sha256'' \<noteq> meta_get (inf_Metadata i) ''cnpg-stored-sha256'' then fail WALCorrupt
        else andthen (unpack S i b raw) (\<lambda>x. ret (raw, x))))))))"

section \<open>Archive\<close>

record file_stat =
  fst_Regular :: bool
  fst_Size :: int
  fst_ModTime :: instant

text \<open>What the open source file shows: its attributes before and after (\<open>None\<close> when \<open>Stat\<close> fails)
  and the bytes a reader of it gets, up to the end or a read error.\<close>

record source =
  src_Stat :: "file_stat option"
  src_Data :: bytes
  src_Broken :: bool
  src_After :: "file_stat option"

definition source_ok :: "string \<Rightarrow> int \<Rightarrow> file_stat \<Rightarrow> bool" where
  "source_ok name mx st \<longleftrightarrow>
     fst_Regular st \<and> 1 \<le> fst_Size st \<and> fst_Size st \<le> mx \<and> (segmentSized name \<longrightarrow> fst_Size st = mx)"

definition source_same :: "file_stat \<Rightarrow> source \<Rightarrow> bytes \<Rightarrow> bool" where
  "source_same st src x = (case src_After src of
     None \<Rightarrow> False
   | Some after \<Rightarrow> int (length x) = fst_Size st \<and> fst_Size after = fst_Size st \<and> fst_ModTime after = fst_ModTime st)"

text \<open>The bounded copy of the source into the spool, with its compressed form.\<close>

definition spool_source :: "'w sys \<Rightarrow> wal_files \<Rightarrow> file_stat \<Rightarrow> int \<Rightarrow> source \<Rightarrow> ('w, bytes \<times> bytes) act" where
  "spool_source S w st mx src = (let x = take (nat (min (fst_Size st + 1) (mx + 1))) (src_Data src) in
     andthen (local_io (ctx_err S)) (\<lambda>_.
     andthen (local_io (disk S)) (\<lambda>_.
     if src_Broken src then fail WALLocal
     else ret (x, if wf_Compression w = ''gzip'' then gz S x else x))))"

definition archive_metadata :: "repo \<Rightarrow> wal_files \<Rightarrow> bytes \<Rightarrow> bytes \<Rightarrow> metadata" where
  "archive_metadata r w x stored = [(''cnpg-format'', ''wal-v1''), (''cnpg-system-id'', idn_SystemIdentifier (rp_id r)),
     (''cnpg-raw-bytes'', format_int (int (length x))), (''cnpg-raw-sha256'', digest x), (''cnpg-stored-sha256'', digest stored),
     (''cnpg-compression'', wf_Compression w)]"

text \<open>Whether a failed PUT may still have left, or found, the object.\<close>

definition put_settled :: "err + info \<Rightarrow> bool" where
  "put_settled res = (case res of Inr _ \<Rightarrow> True | Inl e \<Rightarrow> Is e Precondition \<or> Is e Conflict \<or> ambiguous e)"

definition verify_archived :: "'w sys \<Rightarrow> wal_files \<Rightarrow> string \<Rightarrow> bytes \<Rightarrow> err + info \<Rightarrow> ('w, unit) act" where
  "verify_archived S w name x putErr =
     andthen (local_io (disk S)) (\<lambda>_.
     attempt (Retrieve S w name) (\<lambda>rt. case rt of
       Inl e \<Rightarrow> (case putErr of Inl pe \<Rightarrow> if Is e NotFound then fail pe else fail e | Inr _ \<Rightarrow> fail e)
     | Inr (got, _) \<Rightarrow>
        if itg_Size got \<noteq> int (length x) \<or> itg_SHA256 got \<noteq> digest x then fail WALConflict else ret ()))"

definition Archive :: "'w sys \<Rightarrow> wal_files \<Rightarrow> string \<Rightarrow> source option \<Rightarrow> ('w, unit) act" where
  "Archive S w name source =
     andthen (lift (Limits w name)) (\<lambda>(r, key, mx). case source of
       None \<Rightarrow> fail WALInvalid
     | Some src \<Rightarrow> (case src_Stat src of
         None \<Rightarrow> fail WALLocal
       | Some st \<Rightarrow>
          if \<not> source_ok name mx st then fail WALInvalid
          else andthen (local_io (disk S)) (\<lambda>_.
            andthen (spool_source S w st mx src) (\<lambda>(x, stored).
            if \<not> source_same st src x then fail WALInvalid
            else andthen (local_io (disk S)) (\<lambda>_.
              if int (length stored) > mx + 1048576 then fail WALLocal
              else andthen (local_io (disk S)) (\<lambda>_.
                attempt (st_PutFile S key stored \<lparr>itg_Size = int (length stored), itg_SHA256 = digest stored\<rparr> Create (archive_metadata r w x stored)) (\<lambda>res.
                if \<not> put_settled res then (case res of Inl e \<Rightarrow> fail e | Inr _ \<Rightarrow> ret ())
                else verify_archived S w name x res)))))))"

section \<open>Restore\<close>

definition on_dir :: "(dir, 'a) act \<Rightarrow> ('w \<times> dir, 'a) act" where
  "on_dir m = (\<lambda>(w, d). case m d of (res, d') \<Rightarrow> (res, (w, d')))"

definition restore_tmp :: string where
  "restore_tmp = ''.cnpg-wal-restore''"

text \<open>The deferred close and removal of the temporary; their results are dropped.\<close>

definition with_tmp :: "('w \<times> dir, 'a) act \<Rightarrow> ('w \<times> dir, 'a) act" where
  "with_tmp m = attempt m (\<lambda>res. attempt (on_dir try_op) (\<lambda>_. attempt (on_dir (remove_file restore_tmp)) (\<lambda>_. lift res)))"

text \<open>Retrieval into the temporary, its close, and the rename onto the destination.\<close>

definition restore_file :: "'w sys \<Rightarrow> wal_files \<Rightarrow> string \<Rightarrow> string \<Rightarrow> ('w \<times> dir, unit) act" where
  "restore_file S w name destination =
     andthen (on_world (Retrieve S w name)) (\<lambda>(raw, x).
     andthen (\<lambda>(v, d). (Inr (), (v, set_file restore_tmp (Some x) d))) (\<lambda>_.
     andthen (local_io (on_dir try_op)) (\<lambda>_.
     andthen (on_world (ctx_err S)) (\<lambda>_.
     andthen (local_io (on_dir (rename_file restore_tmp destination))) (\<lambda>_.
     local_io (on_dir try_op))))))"

definition restore_locked :: "'w sys \<Rightarrow> wal_files \<Rightarrow> string \<Rightarrow> string \<Rightarrow> ('w \<times> dir, unit) act" where
  "restore_locked S w name destination =
     andthen (local_io (on_dir try_op)) (\<lambda>_.
     andthen (local_io (on_dir try_op)) (\<lambda>_.
     andthen (local_io (on_dir (remove_file restore_tmp))) (\<lambda>_.
     andthen (local_io (on_dir (create_file restore_tmp))) (\<lambda>_.
     with_tmp (restore_file S w name destination)))))"

definition Restore :: "'w sys \<Rightarrow> wal_files \<Rightarrow> string \<Rightarrow> string \<Rightarrow> ('w \<times> dir, unit) act" where
  "Restore S w name destination =
     andthen (lift (Limits w name)) (\<lambda>_.
     if destination \<noteq> name \<and> destination \<noteq> ''RECOVERYXLOG'' \<and> destination \<noteq> ''RECOVERYHISTORY'' then fail WALInvalid
     else restore_locked S w name destination)"

end
