(* ===== verification/Collection_Order.thy ===== *)
theory Collection_Order
  imports Collection Publication_Order
begin

text \<open>
  The order of the calls of garbage collection: validation only reads, the plan document is
  created before the first destructive request, the requests follow the plan, and an unclear
  outcome stops the phase and marks the owner.
\<close>

section \<open>Inventories only read\<close>

lemma emits_disk [emits_intros]: "wt.emits A (disk (traced S))"
  by (rule wt.emitsI) (auto simp: disk_def traced_def pass_def split: prod.splits)

lemma emits_now_of [emits_intros]: "wt.emits A (now_of (traced S))"
  by (rule wt.emitsI) (auto simp: now_of_def traced_def pass_def split: prod.splits)

lemma emits_get_side [emits_intros]: "ht.emits A get_side"
  by (auto simp: ht.emits_def get_side_def)

lemma emits_upd_side [emits_intros]: "ht.emits A (upd_side f)"
  by (auto simp: ht.emits_def upd_side_def)

lemma emits_gc_latch [emits_intros]: "ht.emits A (gc_latch e)"
  unfolding gc_latch_def by (rule emits_upd_side)

lemma reads_payloadMetadata [emits_intros]: "wt.emits is_read (payloadMetadata (traced S) r c)"
  unfolding payloadMetadata_def by (auto intro!: emits_intros)

lemma reads_parentMetadata [emits_intros]: "wt.emits is_read (parentMetadata (traced S) r c)"
  unfolding parentMetadata_def by (auto intro!: emits_intros)

lemma reads_validateListedMetadata [emits_intros]: "wt.emits is_read (validateListedMetadata (traced S) r key)"
  unfolding validateListedMetadata_def Let_def by (auto intro!: emits_intros split: prod.splits sum.splits)

lemma reads_spool_item: "wt.emits is_read (spool_item (traced S) r l i s)"
  unfolding spool_item_def spool_live_def spool_entry_def Let_def
  by (auto intro!: emits_intros split: prod.splits sum.splits option.splits)

lemma reads_spoolCatalog [emits_intros]: "wt.emits is_read (spoolCatalog (traced S) r l)"
  unfolding spoolCatalog_def by (auto intro!: emits_intros reads_spool_item)

lemma emits_scan_loop: "(\<And>en v. wt.emits A (visit en v)) \<Longrightarrow> wt.emits A (scan_loop (traced S) es visit v)"
  by (induction es arbitrary: v) (auto intro!: emits_intros)

lemma emits_scanEntries [emits_intros]: "(\<And>en v. wt.emits A (visit en v)) \<Longrightarrow> wt.emits A (scanEntries (traced S) es visit v)"
  unfolding scanEntries_def by (auto intro!: emits_intros emits_scan_loop)

lemma reads_GC_check [emits_intros]: "wt.emits is_read (GC_check (traced S) r g)"
  unfolding GC_check_def by (auto intro!: emits_intros split: prod.splits)

lemma reads_validateVictim [emits_intros]: "wt.emits is_read (validateVictim (traced S) r v retired)"
  unfolding validateVictim_def validate_wal_victim_def payload_unused_def Let_def
  by (auto intro!: emits_intros split: prod.splits sum.splits option.splits)

lemma reads_check_victim [emits_intros]: "wt.emits is_read (check_victim (traced S) r es v s)"
  unfolding check_victim_def Let_def by (auto intro!: emits_intros split: prod.splits)

lemma reads_gc_entries [emits_intros]: "ht.emits is_read (gc_entries (traced S) r)"
  unfolding gc_entries_def by (auto intro!: emits_intros split: option.splits)

lemma reads_start_clock [emits_intros]: "ht.emits is_read (start_clock (traced S))"
  unfolding start_clock_def by (auto intro!: emits_intros split: option.splits)

section \<open>The destructive requests\<close>

text \<open>The one request that destroys a victim: a creation of the retirement document, a replacement
  of exactly the expected WAL object, an abort of the recorded upload or a deletion of the payload.\<close>

definition victim_request :: "repo \<Rightarrow> owner \<Rightarrow> victim \<Rightarrow> event \<Rightarrow> bool" where
  "victim_request r o' v ev =
     (if vic_Kind v = ''retire-backup'' then
        (\<exists>b e. ev = EvPut (backup_key r (deref (vic_BackupUID v)) @ ''retired.json'') b Create e)
      else if vic_Kind v = ''retire-wal'' then
        (\<exists>key b e. WALKey r (deref (vic_WALName v)) = Inr key \<and> ev = EvPut key b (Match (deref (vic_ExpectedETag v))) e)
      else if has_prefix (vic_Kind v) ''abort-'' then
        (\<exists>e. ev = EvAbort \<lparr>upl_Key = payload_key r v, upl_ID = deref (vic_UploadID v)\<rparr> e)
      else (\<exists>e. ev = EvDelete (payload_key r v) e))"

fun outcome :: "event \<Rightarrow> err option" where
  "outcome (EvPut _ _ _ e) = e"
| "outcome (EvUpload _ _ _ e) = e"
| "outcome (EvDownload _ _ e) = e"
| "outcome (EvDelete _ e) = e"
| "outcome (EvAbort _ e) = e"
| "outcome _ = None"

text \<open>The request went through, or the backup was found to be retired already.\<close>

definition settled :: "victim \<Rightarrow> event \<Rightarrow> bool" where
  "settled v ev = (case outcome ev of None \<Rightarrow> True | Some e \<Rightarrow> vic_Kind v = ''retire-backup'' \<and> Is e Precondition)"

text \<open>An outcome that leaves the effect of a request unknown; a failed precondition says that there
  was none.\<close>

definition doubtful :: "event \<Rightarrow> bool" where
  "doubtful ev = (case outcome ev of None \<Rightarrow> False | Some e \<Rightarrow> \<not> is_read ev \<and> ambiguous e \<and> \<not> Is e Precondition)"

lemma settled_not_doubtful: "settled v ev \<Longrightarrow> \<not> doubtful ev"
  by (auto simp: settled_def doubtful_def split: option.splits)

lemma reads_not_doubtful: "list_all is_read tr \<Longrightarrow> \<not> list_ex doubtful tr"
  by (induction tr) (auto simp: doubtful_def split: option.splits)

lemma read_not_doubtful [simp]: "\<not> doubtful (EvRead k)" "\<not> doubtful (EvPut k b c None)"
  by (auto simp: doubtful_def)

text \<open>The log of the destructive phase: for each victim in turn, a read of the gate, the victim's
  request, and reads; it may stop after any of them, and goes on only when the request settled.\<close>

inductive executes :: "repo \<Rightarrow> owner \<Rightarrow> victim list \<Rightarrow> event list \<Rightarrow> bool" for r o' where
  stop: "list_all is_read tr \<Longrightarrow> executes r o' vs tr"
| request: "victim_request r o' v ev \<Longrightarrow> list_all is_read post \<Longrightarrow> executes r o' (v # vs) (EvRead (gate_key r) # ev # post)"
| step: "victim_request r o' v ev \<Longrightarrow> settled v ev \<Longrightarrow> list_all is_read post \<Longrightarrow> executes r o' vs rest \<Longrightarrow>
    executes r o' (v # vs) (EvRead (gate_key r) # ev # post @ rest)"

lemma GC_check_log:
  assumes "GC_check (traced S) r g (w, tr) = (Inr (), (w', tr'))"
  shows "tr' = tr @ [EvRead (gate_key r)]"
  using assms
  by (auto simp: GC_check_def readGate_def andthen_Inr ctx_err_def traced_def pass_def logged_def lift_def ret_def fail_def
      split: prod.splits if_splits)

lemma destroy_log:
  assumes "destroy (traced S) r o' v (w, tr) = (res, (w', tr'))"
  shows "tr' = tr \<and> (\<exists>e. res = Inl e) \<or>
    (\<exists>ev post. tr' = tr @ ev # post \<and> victim_request r o' v ev \<and> list_all is_read post \<and> (res = Inr () \<longrightarrow> settled v ev) \<and>
      (doubtful ev \<longrightarrow> (\<exists>e. res = Inl e \<and> ambiguous e)))"
proof -
  consider (backup) "vic_Kind v = ''retire-backup''" | (wal) "vic_Kind v = ''retire-wal''" "vic_Kind v \<noteq> ''retire-backup''"
    | (abort) "vic_Kind v \<noteq> ''retire-backup''" "vic_Kind v \<noteq> ''retire-wal''" "has_prefix (vic_Kind v) ''abort-''"
    | (delete) "vic_Kind v \<noteq> ''retire-backup''" "vic_Kind v \<noteq> ''retire-wal''" "\<not> has_prefix (vic_Kind v) ''abort-''" by blast
  then show ?thesis
  proof cases
    case backup
    let ?key = "backup_key r (deref (vic_BackupUID v)) @ ''retired.json''"
    let ?b = "render (enc_Retirement \<lparr>ret_Schema = 1, ret_RepositoryID = idn_RepositoryID (rp_id r), ret_BackupUID = deref (vic_BackupUID v),
      ret_CommitSHA256 = vic_SHA256 v, ret_GCOperationID = own_OperationID o'\<rparr>)"
    define k where "k = (\<lambda>res :: err + info. case res of
       Inr _ \<Rightarrow> ret ()
     | Inl e \<Rightarrow>
        if Is e Precondition then
          andthen (st_Read (traced S) ?key smallLimit) (\<lambda>(old, _). case strict Retirement_type dec_Retirement old smallLimit of
            Inl _ \<Rightarrow> fail ErrCorrupt
          | Inr got \<Rightarrow> lift (Retirement_validate got (rp_id r) (deref (vic_BackupUID v)) (vic_SHA256 v)))
        else fail e)"
    have run: "attempt (put (traced S) ?key ?b Create []) k (w, tr) = (res, (w', tr'))"
      using assms backup by (simp add: destroy_def retire_backup_def Let_def k_def)
    have k: "wt.emits is_read (k x)" for x unfolding k_def by (auto intro!: emits_intros split: sum.splits prod.splits)
    obtain p w1 tr1 where p: "put (traced S) ?key ?b Create [] (w, tr) = (p, (w1, tr1))" by (metis prod.exhaust)
    have "k p (w1, tr1) = (res, (w', tr'))" using run p by (simp add: attempt_def)
    from this wt.emitsD[OF k this] put_log[OF p] backup show ?thesis
      by (fastforce simp: victim_request_def k_def fail_def settled_def doubtful_def err_of_def split: sum.splits if_splits)
  next
    case wal
    show ?thesis
    proof (cases "WALKey r (deref (vic_WALName v))")
      case (Inl e)
      then show ?thesis using assms wal by (auto simp: destroy_def retire_wal_def andthen_def attempt_def lift_def fail_def)
    next
      case (Inr key)
      obtain b m where "andthen (put (traced S) key b (Match (deref (vic_ExpectedETag v))) m) (\<lambda>_. ret ()) (w, tr) = (res, (w', tr'))"
        using assms wal Inr by (auto simp: destroy_def retire_wal_def andthen_def attempt_def lift_def Let_def)
      then obtain p where "put (traced S) key b (Match (deref (vic_ExpectedETag v))) m (w, tr) = (p, (w', tr'))" "\<forall>e. p = Inl e \<longrightarrow> res = Inl e"
        by (auto simp: andthen_def attempt_def ret_def fail_def split: prod.splits sum.splits)
      with put_log[OF this(1)] Inr wal show ?thesis by (cases p) (auto simp: victim_request_def settled_def doubtful_def err_of_def)
    qed
  next
    case abort
    then show ?thesis using assms by (cases res) (auto simp: destroy_def traced_def logged_def victim_request_def settled_def doubtful_def err_of_def split: prod.splits)
  next
    case delete
    then show ?thesis using assms by (cases res) (auto simp: destroy_def traced_def logged_def victim_request_def settled_def doubtful_def err_of_def split: prod.splits)
  qed
qed

lemma on_world_iff: "on_world m ((w, tr), g) = (res, s') \<longleftrightarrow> (\<exists>w' tr'. m (w, tr) = (res, (w', tr')) \<and> s' = ((w', tr'), g))"
  by (auto simp: on_world_def split: prod.splits)

lemma start_clock_log:
  assumes "start_clock (traced S) ((w, tr), g) = (res, ((w', tr'), g'))"
  shows "tr' = tr" "gco_owner g' = gco_owner g"
  using assms
  by (auto simp: start_clock_def andthen_def attempt_def get_side_def on_world_def now_of_def traced_def pass_def upd_side_def ret_def fail_def
      split: prod.splits sum.splits option.splits if_splits)

lemma get_side_then [simp]: "andthen get_side k (x, g) = k g (x, g)"
  by (simp add: andthen_def attempt_def get_side_def)

lemma upd_side_then [simp]: "andthen (upd_side f) k (x, g) = k () (x, f g)"
  by (simp add: andthen_def attempt_def upd_side_def)

lemma andthen_on_world: "m w = (r, w') \<Longrightarrow> andthen (on_world m) k (w, g) = (case r of Inl e \<Rightarrow> fail e | Inr x \<Rightarrow> k x) (w', g)"
  by (cases r) (simp_all add: andthen_def attempt_def on_world_def fail_def)

lemma destroy_one_log:
  assumes "destroy_one (traced S) r v ((w, tr), g) = (res, ((w', tr'), g'))"
  shows "gco_owner g' = gco_owner g \<and>
    ((\<exists>post. tr' = tr @ post \<and> list_all is_read post \<and> res \<noteq> Inr ()) \<or>
     (\<exists>ev post. tr' = tr @ EvRead (gate_key r) # ev # post \<and> victim_request r (gco_owner g) v ev \<and> list_all is_read post \<and> (res = Inr () \<longrightarrow> settled v ev) \<and>
       (doubtful ev \<longrightarrow> (\<exists>e. res = Inl e) \<and> gco_uncertain g')))"
proof (cases "gco_requests g \<ge> 128")
  case True
  then show ?thesis using assms by (auto simp: destroy_one_def andthen_def attempt_def get_side_def fail_def)
next
  case False
  let ?tail = "\<lambda>_ :: unit. andthen (upd_side (\<lambda>g. g\<lparr>gco_requests := gco_requests g + 1\<rparr>)) (\<lambda>_.
       attempt (on_world (destroy (traced S) r (gco_owner g) v)) (\<lambda>res. case res of
         Inr _ \<Rightarrow> ret ()
       | Inl e \<Rightarrow> andthen (gc_latch e) (\<lambda>_. fail e)))"
  have run: "andthen (on_world (GC_check (traced S) r g)) (\<lambda>_. andthen (start_clock (traced S)) ?tail) ((w, tr), g) = (res, ((w', tr'), g'))"
    using assms False by (simp only: destroy_one_def get_side_then if_False)
  from andthen_split[OF run] show ?thesis
  proof (elim disjE exE conjE)
    fix e assume "on_world (GC_check (traced S) r g) ((w, tr), g) = (Inl e, ((w', tr'), g'))" "res = Inl e"
    then show ?thesis using wt.emitsD[OF reads_GC_check, of S r g "(w, tr)"] by (auto simp: on_world_iff)
  next
    fix u s1 assume c: "on_world (GC_check (traced S) r g) ((w, tr), g) = (Inr u, s1)"
      and r1: "andthen (start_clock (traced S)) ?tail s1 = (res, ((w', tr'), g'))"
    then obtain w1 where s1: "s1 = ((w1, tr @ [EvRead (gate_key r)]), g)" using GC_check_log by (fastforce simp: on_world_iff)
    from andthen_split[OF r1] show ?thesis
    proof (elim disjE exE conjE)
      fix e assume sc: "start_clock (traced S) s1 = (Inl e, ((w', tr'), g'))" and e: "res = Inl e"
      from start_clock_log[OF sc[unfolded s1]] e show ?thesis by auto
    next
      fix u2 s2 assume sc: "start_clock (traced S) s1 = (Inr u2, s2)" and t: "?tail u2 s2 = (res, ((w', tr'), g'))"
      obtain w2 tr2 g2 where s2: "s2 = ((w2, tr2), g2)" by (metis prod.exhaust)
      note sl = start_clock_log[OF sc[unfolded s1 s2]]
      obtain dr w3 tr3 where d: "destroy (traced S) r (gco_owner g) v (w2, tr2) = (dr, (w3, tr3))" by (metis prod.exhaust)
      have "tr' = tr3 \<and> gco_owner g' = gco_owner g2 \<and> ((\<exists>e. dr = Inl e) \<longrightarrow> res \<noteq> Inr ()) \<and> (res = Inr () \<longrightarrow> dr = Inr ()) \<and>
          ((\<exists>e. dr = Inl e \<and> ambiguous e) \<longrightarrow> (\<exists>e. res = Inl e) \<and> gco_uncertain g')"
        using t d unfolding s2
        by (auto simp: andthen_def attempt_def upd_side_def on_world_def gc_latch_def ret_def fail_def split: sum.splits if_splits)
      then show ?thesis using destroy_log[OF d] sl by auto
    qed
  qed
qed

lemma each_destroy_log:
  assumes "each (destroy_one (traced S) r) vs ((w, tr), g) = (res, ((w', tr'), g'))"
  shows "\<exists>rest. tr' = tr @ rest \<and> executes r (gco_owner g) vs rest \<and> (list_ex doubtful rest \<longrightarrow> gco_uncertain g')"
  using assms
proof (induction vs arbitrary: w tr g)
  case Nil
  then show ?case by (auto simp: ret_def intro: executes.stop)
next
  case (Cons v vs)
  obtain r1 w1 tr1 g1 where d: "destroy_one (traced S) r v ((w, tr), g) = (r1, ((w1, tr1), g1))" by (metis prod.exhaust)
  note dl = destroy_one_log[OF d]
  have two: "executes r (gco_owner g) (v # vs) (EvRead (gate_key r) # ev # post)" if "victim_request r (gco_owner g) v ev" "list_all is_read post" for ev post
    by (rule executes.request[OF that])
  show ?case
  proof (cases r1)
    case (Inl e)
    then have "tr' = tr1" "g' = g1" using Cons.prems d by (auto simp: andthen_def attempt_def fail_def)
    then show ?thesis using dl two by (fastforce intro: executes.stop simp: reads_not_doubtful)
  next
    case (Inr u)
    then have rest: "each (destroy_one (traced S) r) vs ((w1, tr1), g1) = (res, ((w', tr'), g'))"
      using Cons.prems d by (simp add: andthen_def attempt_def)
    from Cons.IH[OF rest] dl obtain rest where r: "tr' = tr1 @ rest" "executes r (gco_owner g) vs rest"
      "list_ex doubtful rest \<longrightarrow> gco_uncertain g'" by auto
    from dl Inr obtain ev post where e: "tr1 = tr @ EvRead (gate_key r) # ev # post" "victim_request r (gco_owner g) v ev" "list_all is_read post"
      "settled v ev" by auto
    then show ?thesis using r executes.step[OF e(2,4,3) r(2)] settled_not_doubtful reads_not_doubtful
      by (intro exI[of _ "EvRead (gate_key r) # ev # post @ rest"]) auto
  qed
qed


section \<open>The order of the victims\<close>

text \<open>No backup is retired after a WAL object, and a backup only after every live child in the
  catalog.\<close>

definition victims_ordered :: "entry list \<Rightarrow> victim list \<Rightarrow> bool" where
  "victims_ordered es vs \<longleftrightarrow>
     (\<forall>i j. i < j \<and> j < length vs \<and> vic_Kind (vs ! i) = ''retire-wal'' \<longrightarrow> vic_Kind (vs ! j) \<noteq> ''retire-backup'') \<and>
     (\<forall>i < length vs. vic_Kind (vs ! i) = ''retire-backup'' \<longrightarrow>
        (\<forall>en \<in> set es. \<not> ent_Retired en \<and> cmt_ParentBackupUID (ent_Commit en) = Some (deref (vic_BackupUID (vs ! i))) \<longrightarrow>
          (\<exists>j < i. vic_Kind (vs ! j) = ''retire-backup'' \<and> deref (vic_BackupUID (vs ! j)) = cmt_BackupUID (ent_Commit en))))"

lemma scan_loop_all:
  "scan_loop S es (\<lambda>en u. if P en then fail ErrBlocked else ret ()) () w = (Inr u, w') \<Longrightarrow> \<forall>en \<in> set es. \<not> P en"
  by (induction es arbitrary: w) (auto simp: andthen_Inr fail_def split: if_splits)

lemma check_victim_ok:
  assumes "check_victim S r es v (retired, wal) w = (Inr (retired', wal'), w')"
  shows "wal' \<longleftrightarrow> wal \<or> vic_Kind v = ''retire-wal''"
    "vic_Kind v = ''retire-backup'' \<Longrightarrow> \<not> wal \<and> retired' = deref (vic_BackupUID v) # retired \<and>
       (\<forall>en \<in> set es. \<not> live_child (deref (vic_BackupUID v)) retired en)"
    "vic_Kind v \<noteq> ''retire-backup'' \<Longrightarrow> retired' = retired"
  using assms
  by (auto simp: check_victim_def Let_def andthen_Inr scanEntries_def ret_def fail_def split: if_splits dest!: scan_loop_all)

lemma each_fold_snoc:
  "each_fold f (xs @ [x]) v s = (Inr y, s') \<Longrightarrow> \<exists>u s1. each_fold f xs v s = (Inr u, s1) \<and> f x u s1 = (Inr y, s')"
proof (induction xs arbitrary: v s)
  case (Cons a xs)
  then show ?case by (simp add: andthen_Inr) blast
qed (auto simp: andthen_Inr ret_def)

lemma checked_victims_ordered:
  assumes "each_fold (check_victim S r es) vs ([], False) w = (Inr s, w')"
  shows "victims_ordered es vs \<and> set (fst s) = {deref (vic_BackupUID v) | v. v \<in> set vs \<and> vic_Kind v = ''retire-backup''} \<and>
    (snd s \<longleftrightarrow> (\<exists>v \<in> set vs. vic_Kind v = ''retire-wal''))"
  using assms
proof (induction vs arbitrary: s w' rule: rev_induct)
  case Nil
  then show ?case by (auto simp: ret_def victims_ordered_def)
next
  case (snoc v vs)
  from each_fold_snoc[OF snoc.prems] obtain retired wal w1 where
    f: "each_fold (check_victim S r es) vs ([], False) w = (Inr (retired, wal), w1)" and
    c: "check_victim S r es v (retired, wal) w1 = (Inr (fst s, snd s), w')" by auto
  note IH = snoc.IH[OF f] and ok = check_victim_ok[OF c]
  have o: "victims_ordered es vs" and w: "wal \<longleftrightarrow> (\<exists>v \<in> set vs. vic_Kind v = ''retire-wal'')"
    and rt: "set retired = {deref (vic_BackupUID v) | v. v \<in> set vs \<and> vic_Kind v = ''retire-backup''}" using IH by auto
  have "victims_ordered es (vs @ [v])"
    unfolding victims_ordered_def
  proof (intro conjI allI impI ballI)
    fix i j assume a: "i < j \<and> j < length (vs @ [v]) \<and> vic_Kind ((vs @ [v]) ! i) = ''retire-wal''"
    show "vic_Kind ((vs @ [v]) ! j) \<noteq> ''retire-backup''"
    proof (cases "j < length vs")
      case True
      then show ?thesis using a o by (auto simp: victims_ordered_def nth_append)
    next
      case False
      then have "j = length vs" "i < length vs" "vic_Kind (vs ! i) = ''retire-wal''" using a by (auto simp: nth_append)
      then show ?thesis using w ok(2) nth_mem by fastforce
    qed
  next
    fix i en assume i: "i < length (vs @ [v])" and k: "vic_Kind ((vs @ [v]) ! i) = ''retire-backup''" and en: "en \<in> set es"
      and ch: "\<not> ent_Retired en \<and> cmt_ParentBackupUID (ent_Commit en) = Some (deref (vic_BackupUID ((vs @ [v]) ! i)))"
    show "\<exists>j<i. vic_Kind ((vs @ [v]) ! j) = ''retire-backup'' \<and> deref (vic_BackupUID ((vs @ [v]) ! j)) = cmt_BackupUID (ent_Commit en)"
    proof (cases "i < length vs")
      case True
      then obtain j where "j < i" "vic_Kind (vs ! j) = ''retire-backup''" "deref (vic_BackupUID (vs ! j)) = cmt_BackupUID (ent_Commit en)"
        using o[unfolded victims_ordered_def, THEN conjunct2, rule_format, of i en] k en ch by (auto simp: nth_append)
      then show ?thesis using True by (intro exI[of _ j]) (simp add: nth_append)
    next
      case False
      then have il: "i = length vs" using i by simp
      then have "cmt_BackupUID (ent_Commit en) \<in> set retired" using ok(2) k ch en by (auto simp: live_child_def)
      then obtain j where "j < length vs" "vic_Kind (vs ! j) = ''retire-backup''" "deref (vic_BackupUID (vs ! j)) = cmt_BackupUID (ent_Commit en)"
        unfolding rt by (auto simp: in_set_conv_nth)
      then show ?thesis using il by (intro exI[of _ j]) (simp add: nth_append)
    qed
  qed
  moreover have "set (fst s) = {deref (vic_BackupUID x) | x. x \<in> set (vs @ [v]) \<and> vic_Kind x = ''retire-backup''}"
    using ok(2,3) rt by (cases "vic_Kind v = ''retire-backup''") auto
  moreover have "snd s \<longleftrightarrow> (\<exists>v \<in> set (vs @ [v]). vic_Kind v = ''retire-wal'')" using ok(1) w by auto
  ultimately show ?case by blast
qed


section \<open>The validation of the victims\<close>

text \<open>What a valid victim is, from the answers of the store between the states \<open>s\<close> and \<open>s'\<close>. The WAL
  object is still the one the plan names: HEAD answers its ETag, its format, this system and the raw
  size and digest on record.\<close>

definition wal_confirmed :: "'w sys \<Rightarrow> repo \<Rightarrow> victim \<Rightarrow> 'w \<Rightarrow> 'w \<Rightarrow> bool" where
  "wal_confirmed S r v s s' \<longleftrightarrow> (\<exists>name etag key i. vic_WALName v = Some name \<and> vic_ExpectedETag v = Some etag \<and>
     etag \<noteq> [] \<and> length etag \<le> 256 \<and> length name = 24 \<and> vic_RawBytes v = idn_WALSegmentBytes (rp_id r) \<and>
     WALKey r name = Inr key \<and> st_Head S key s = (Inr i, s') \<and> inf_ETag i = etag \<and>
     meta_get (inf_Metadata i) ''cnpg-format'' = ''wal-v1'' \<and> meta_get (inf_Metadata i) ''cnpg-system-id'' = idn_SystemIdentifier (rp_id r) \<and>
     meta_get (inf_Metadata i) ''cnpg-raw-sha256'' = vic_SHA256 v \<and> meta_get (inf_Metadata i) ''cnpg-raw-bytes'' = format_int (vic_RawBytes v))"

text \<open>The backup's commit reads back with the digest of the plan.\<close>

definition backup_confirmed :: "'w sys \<Rightarrow> repo \<Rightarrow> victim \<Rightarrow> 'w \<Rightarrow> 'w \<Rightarrow> bool" where
  "backup_confirmed S r v s s' \<longleftrightarrow> (\<exists>uid c b i. vic_BackupUID v = Some uid \<and> validID uid \<and>
     readCommit S r uid s = (Inr (c, b, i), s') \<and> digest b = vic_SHA256 v)"

text \<open>An attempt is abandoned when its backup has no commit, when another attempt was committed, when
  the committed backup is retired, or when the same plan retires it first.\<close>

definition attempt_abandoned :: "'w sys \<Rightarrow> repo \<Rightarrow> string list \<Rightarrow> string \<Rightarrow> string \<Rightarrow> 'w \<Rightarrow> 'w \<Rightarrow> bool" where
  "attempt_abandoned S r retired uid att s s' \<longleftrightarrow>
     (\<exists>e. readCommit S r uid s = (Inl e, s') \<and> Is e NotFound) \<or>
     (\<exists>c b i. readCommit S r uid s = (Inr (c, b, i), s') \<and> cmt_AttemptID c \<noteq> att) \<or>
     (\<exists>c b i s1. readCommit S r uid s = (Inr (c, b, i), s1) \<and> live S r c b s1 = (Inl ErrRetired, s')) \<or>
     (\<exists>c b i s1. readCommit S r uid s = (Inr (c, b, i), s1) \<and> live S r c b s1 = (Inr (), s') \<and> uid \<in> set retired)"

definition payload_confirmed :: "'w sys \<Rightarrow> repo \<Rightarrow> string list \<Rightarrow> victim \<Rightarrow> 'w \<Rightarrow> 'w \<Rightarrow> bool" where
  "payload_confirmed S r retired v s s' \<longleftrightarrow> (\<exists>uid att s1 cl. vic_BackupUID v = Some uid \<and> validID uid \<and> vic_AttemptID v = Some att \<and>
     validID att \<and> attempt_abandoned S r retired uid att s s1 \<and> readClaim S r uid att s1 = (Inr cl, s') \<and> payload_shape_ok v)"

definition victim_valid :: "'w sys \<Rightarrow> repo \<Rightarrow> string list \<Rightarrow> victim \<Rightarrow> 'w \<Rightarrow> 'w \<Rightarrow> bool" where
  "victim_valid S r retired v s s' \<longleftrightarrow> hashRE (vic_SHA256 v) \<and> 0 \<le> vic_RawBytes v \<and>
     (if vic_Kind v = ''retire-wal'' then wal_confirmed S r v s s'
      else if vic_Kind v = ''retire-backup'' then backup_confirmed S r v s s'
      else payload_confirmed S r retired v s s')"

text \<open>Every victim of the list is valid, one after the other, each from the state the one before it
  left; a backup's catalog scan for live children follows its validation.\<close>

primrec validated :: "'w sys \<Rightarrow> repo \<Rightarrow> entry list \<Rightarrow> string list \<Rightarrow> victim list \<Rightarrow> 'w \<Rightarrow> 'w \<Rightarrow> bool" where
  "validated S r es retired [] s s' \<longleftrightarrow> s' = s"
| "validated S r es retired (v # vs) s s' \<longleftrightarrow> (\<exists>s1. victim_valid S r retired v s s1 \<and>
     (if vic_Kind v = ''retire-backup'' then
        (\<exists>s2. scanEntries S es (\<lambda>en u. if live_child (deref (vic_BackupUID v)) retired en then fail ErrBlocked else ret ()) () s1 = (Inr (), s2) \<and>
           validated S r es (deref (vic_BackupUID v) # retired) vs s2 s')
      else validated S r es retired vs s1 s'))"

lemma validate_wal_victim_Inr: "validate_wal_victim S r v s = (Inr (), s') \<Longrightarrow> wal_confirmed S r v s s'"
  by (auto simp: validate_wal_victim_def wal_confirmed_def Let_def andthen_Inr lift_def ret_def fail_def split: option.splits if_splits)

lemma payload_unused_Inr:
  assumes "readCommit S r uid s = (rc, s1)" "payload_unused S r uid att retired rc s1 = (Inr (), s')"
  shows "attempt_abandoned S r retired uid att s s'"
  using assms
  by (auto simp: payload_unused_def attempt_abandoned_def attempt_def ret_def fail_def
      split: sum.splits prod.splits if_splits)

lemma validateVictim_Inr:
  assumes "validateVictim S r v retired s = (Inr (), s')"
  shows "victim_valid S r retired v s s'"
proof (cases "vic_Kind v = ''retire-wal''")
  case True
  then show ?thesis using assms validate_wal_victim_Inr by (fastforce simp: validateVictim_def victim_valid_def fail_def split: if_splits)
next
  case wal: False
  obtain uid where uid: "vic_BackupUID v = Some uid" "validID uid" and h: "hashRE (vic_SHA256 v)" "0 \<le> vic_RawBytes v"
    using assms wal by (auto simp: validateVictim_def fail_def split: if_splits option.splits)
  obtain rc s1 where rc: "readCommit S r uid s = (rc, s1)" by (cases "readCommit S r uid s")
  show ?thesis
  proof (cases "vic_Kind v = ''retire-backup''")
    case True
    then show ?thesis using assms wal uid h rc
      by (auto simp: validateVictim_def victim_valid_def backup_confirmed_def attempt_def ret_def fail_def split: if_splits sum.splits)
  next
    case False
    from assms wal uid False rc obtain att s2 cl where "vic_AttemptID v = Some att" "validID att"
      "payload_unused S r uid att retired rc s1 = (Inr (), s2)" "readClaim S r uid att s2 = (Inr cl, s')" "payload_shape_ok v"
      by (auto simp: validateVictim_def attempt_def andthen_Inr ret_def fail_def split: if_splits option.splits)
    then show ?thesis using wal False uid h payload_unused_Inr[OF rc] by (auto simp: victim_valid_def payload_confirmed_def)
  qed
qed

lemma checked_victims_validated:
  "each_fold (check_victim S r es) vs (retired, wal) s = (Inr x, s') \<Longrightarrow> validated S r es retired vs s s'"
proof (induction vs arbitrary: retired wal s)
  case (Cons v vs)
  obtain st s1 where c: "check_victim S r es v (retired, wal) s = (Inr st, s1)"
    and rest: "each_fold (check_victim S r es) vs st s1 = (Inr x, s')" using Cons.prems by (auto simp: andthen_Inr)
  note IH = Cons.IH[of "fst st" "snd st" s1, simplified, OF rest]
  from c obtain s2 where v: "validateVictim S r v retired s = (Inr (), s2)"
    and t: "if vic_Kind v = ''retire-backup'' then fst st = deref (vic_BackupUID v) # retired \<and>
        scanEntries S es (\<lambda>en u. if live_child (deref (vic_BackupUID v)) retired en then fail ErrBlocked else ret ()) () s2 = (Inr (), s1)
      else fst st = retired \<and> s2 = s1"
    by (auto simp: check_victim_def Let_def andthen_Inr ret_def fail_def split: if_splits)
  show ?case using IH t validateVictim_Inr[OF v] by (auto split: if_splits)
qed (auto simp: ret_def)

section \<open>The whole of Execute\<close>

text \<open>The log of \<open>Execute\<close>: reads only, or reads, the creation of the plan document, and, when that
  succeeded, the destructive phase.\<close>

inductive execution :: "repo \<Rightarrow> owner \<Rightarrow> gc_plan \<Rightarrow> event list \<Rightarrow> bool" for r o' p where
  refused: "list_all is_read tr \<Longrightarrow> execution r o' p tr"
| unplanned: "list_all is_read pre \<Longrightarrow> execution r o' p (pre @ [EvPut (gc_plan_key r p) (render (enc_GCPlan p)) Create (Some e)])"
| planned: "list_all is_read pre \<Longrightarrow> executes r o' (gcp_Victims p) rest \<Longrightarrow> length (gcp_Victims p) \<le> 128 \<Longrightarrow>
    execution r o' p (pre @ EvPut (gc_plan_key r p) (render (enc_GCPlan p)) Create None # rest)"

lemma gc_entries_log:
  assumes "gc_entries (traced S) r ((w, tr), g) = (res, ((w', tr'), g'))"
  shows "\<exists>ev. tr' = tr @ ev \<and> list_all is_read ev" "gco_owner g' = gco_owner g" "\<And>es. res = Inr es \<Longrightarrow> gco_catalog g' = Some es"
proof -
  show "\<exists>ev. tr' = tr @ ev \<and> list_all is_read ev" using ht.emitsD[OF reads_gc_entries assms] by simp
  show "gco_owner g' = gco_owner g" "\<And>es. res = Inr es \<Longrightarrow> gco_catalog g' = Some es"
    using assms by (auto simp: gc_entries_def andthen_def attempt_def on_world_def get_side_def upd_side_def ret_def fail_def
        split: prod.splits sum.splits option.splits)
qed

lemma persist_plan_log:
  assumes "persist_plan (traced S) r p ((w, tr), g) = (res, ((w', tr'), g'))"
  shows "gco_owner g' = gco_owner g \<and> gco_catalog g' = gco_catalog g \<and>
    (tr' = tr \<and> (\<exists>e. res = Inl e) \<or>
     (\<exists>e. tr' = tr @ [EvPut (gc_plan_key r p) (render (enc_GCPlan p)) Create (Some e)] \<and> res = Inl e \<and>
       (ambiguous e \<longrightarrow> gco_uncertain g')) \<or>
     tr' = tr @ [EvPut (gc_plan_key r p) (render (enc_GCPlan p)) Create None] \<and> res = Inr ())"
proof (cases "int (length (render (enc_GCPlan p))) > commitLimit")
  case True
  then show ?thesis using assms by (auto simp: persist_plan_def fail_def)
next
  case False
  obtain pr w1 tr1 where p: "put (traced S) (gc_plan_key r p) (render (enc_GCPlan p)) Create [] (w, tr) = (pr, (w1, tr1))"
    by (metis prod.exhaust)
  show ?thesis using assms False put_log[OF p]
    by (auto simp: persist_plan_def Let_def p on_world_def ret_def fail_def andthen_def attempt_def gc_latch_def upd_side_def err_of_def
        split: sum.splits)
qed

section \<open>What an action leaves alone\<close>

locale observer =
  fixes view :: "'s \<Rightarrow> 'o"
begin

definition keeps :: "('s, 'a) act \<Rightarrow> bool" where
  "keeps m \<longleftrightarrow> (\<forall>s r s'. m s = (r, s') \<longrightarrow> view s' = view s)"

lemma keptD: "keeps m \<Longrightarrow> m s = (r, s') \<Longrightarrow> view s' = view s"
  by (auto simp: keeps_def)

lemma kept_ret: "keeps (ret x)"
  and kept_fail: "keeps (fail e)"
  by (auto simp: keeps_def ret_def fail_def)

lemma kept_attempt: "keeps m \<Longrightarrow> (\<And>x. keeps (k x)) \<Longrightarrow> keeps (attempt m k)"
  unfolding keeps_def attempt_def by (auto split: prod.splits)

lemma kept_andthen: "keeps m \<Longrightarrow> (\<And>x. keeps (k x)) \<Longrightarrow> keeps (andthen m k)"
  unfolding andthen_def by (rule kept_attempt) (auto intro: kept_fail split: sum.split)

lemma kept_each: "(\<And>x. keeps (f x)) \<Longrightarrow> keeps (each f xs)"
  by (induction xs) (auto intro: kept_ret kept_andthen)

lemmas kept_rules = kept_ret kept_fail kept_attempt kept_andthen kept_each

end

abbreviation kept_catalog :: "'w \<times> gc_owner \<Rightarrow> entry list option" where
  "kept_catalog \<equiv> (\<lambda>s. gco_catalog (snd s))"

interpretation kc: observer kept_catalog .

lemma keeps_catalog_side: "kc.keeps get_side" "kc.keeps (on_world m)" "(\<And>g. gco_catalog (f g) = gco_catalog g) \<Longrightarrow> kc.keeps (upd_side f)"
  by (auto simp: kc.keeps_def get_side_def on_world_def upd_side_def split: prod.splits)

lemma keeps_catalog_destroy: "kc.keeps (destroy_one S r v)"
  unfolding destroy_one_def start_clock_def gc_latch_def
  by (auto intro!: kc.kept_rules keeps_catalog_side split: sum.splits option.splits)

lemma persist_destroy_log:
  assumes "andthen (persist_plan (traced S) r p) (\<lambda>_. each (destroy_one (traced S) r) (gcp_Victims p)) ((w, tr), g) = (res, ((w', tr'), g'))"
    and "length (gcp_Victims p) \<le> 128" "list_all is_read pre"
  shows "\<exists>ev. tr' = tr @ ev \<and> execution r (gco_owner g) p (pre @ ev) \<and> gco_catalog g' = gco_catalog g \<and>
    (list_ex doubtful ev \<longrightarrow> gco_uncertain g') \<and>
    (ev = [] \<or> (\<exists>e rest. ev = EvPut (gc_plan_key r p) (render (enc_GCPlan p)) Create e # rest))"
  using andthen_split[OF assms(1)]
proof (elim disjE exE conjE)
  fix e assume a: "persist_plan (traced S) r p ((w, tr), g) = (Inl e, ((w', tr'), g'))"
  note l = persist_plan_log[OF a]
  then have "tr' = tr \<or> tr' = tr @ [EvPut (gc_plan_key r p) (render (enc_GCPlan p)) Create (Some e)] \<and> (ambiguous e \<longrightarrow> gco_uncertain g')" by auto
  then show ?thesis using l execution.refused[OF assms(3)] execution.unplanned[OF assms(3)] by (auto simp: doubtful_def)
next
  fix u s1 assume a: "persist_plan (traced S) r p ((w, tr), g) = (Inr u, s1)"
    and b: "each (destroy_one (traced S) r) (gcp_Victims p) s1 = (res, ((w', tr'), g'))"
  obtain w1 tr1 g1 where s1: "s1 = ((w1, tr1), g1)" by (metis prod.exhaust)
  from persist_plan_log[OF a[unfolded s1]] have l: "gco_owner g1 = gco_owner g" "gco_catalog g1 = gco_catalog g"
    "tr1 = tr @ [EvPut (gc_plan_key r p) (render (enc_GCPlan p)) Create None]" by auto
  from each_destroy_log[OF b[unfolded s1]] l obtain rest where rest: "tr' = tr1 @ rest" "executes r (gco_owner g) (gcp_Victims p) rest"
    "list_ex doubtful rest \<longrightarrow> gco_uncertain g'" by auto
  have "gco_catalog g' = gco_catalog g1" using kc.keptD[OF kc.kept_each b] keeps_catalog_destroy s1 by fastforce
  then show ?thesis using l rest execution.planned[OF assms(3) rest(2) assms(2)] by auto
qed

text \<open>The plan went on record, with the outcome \<open>e\<close>, only after the whole list was validated from the
  state in which the catalog was at hand.\<close>

definition plan_validated :: "'w sys \<Rightarrow> repo \<Rightarrow> gc_plan \<Rightarrow> ('w \<times> event list) \<times> gc_owner \<Rightarrow> event list \<Rightarrow> entry list \<Rightarrow> bool" where
  "plan_validated S r p s tr es \<longleftrightarrow> (\<exists>s1 s2 g1 e rest. gc_entries (traced S) r s = (Inr es, (s1, g1)) \<and>
     validated (traced S) r es [] (gcp_Victims p) s1 s2 \<and> victims_ordered es (gcp_Victims p) \<and>
     tr = wtrace s2 @ EvPut (gc_plan_key r p) (render (enc_GCPlan p)) Create e # rest)"

lemma check_and_run_log:
  assumes run: "andthen (gc_entries (traced S) r) (\<lambda>es.
      andthen (on_world (each_fold (check_victim (traced S) r es) (gcp_Victims p) ([], False))) (\<lambda>_.
      andthen (persist_plan (traced S) r p) (\<lambda>_. each (destroy_one (traced S) r) (gcp_Victims p)))) ((w, tr), g) = (res, ((w', tr'), g'))"
    and "length (gcp_Victims p) \<le> 128" "list_all is_read pre"
  shows "\<exists>ev. tr' = tr @ ev \<and> execution r (gco_owner g) p (pre @ ev) \<and> (list_ex doubtful ev \<longrightarrow> gco_uncertain g') \<and>
    (list_all is_read ev \<or> (\<exists>es. gco_catalog g' = Some es \<and> plan_validated S r p ((w, tr), g) tr' es))"
  using andthen_split[OF run]
proof (elim disjE exE conjE)
  fix e assume "gc_entries (traced S) r ((w, tr), g) = (Inl e, ((w', tr'), g'))"
  from gc_entries_log[OF this] assms(3) show ?thesis by (auto intro!: execution.refused simp: reads_not_doubtful)
next
  fix es s1 assume a: "gc_entries (traced S) r ((w, tr), g) = (Inr es, s1)"
    and b: "andthen (on_world (each_fold (check_victim (traced S) r es) (gcp_Victims p) ([], False))) (\<lambda>_.
      andthen (persist_plan (traced S) r p) (\<lambda>_. each (destroy_one (traced S) r) (gcp_Victims p))) s1 = (res, ((w', tr'), g'))"
  obtain w1 tr1 g1 where s1: "s1 = ((w1, tr1), g1)" by (metis prod.exhaust)
  from gc_entries_log[OF a[unfolded s1]] obtain e1 where e1: "tr1 = tr @ e1" "list_all is_read e1" "gco_owner g1 = gco_owner g"
    "gco_catalog g1 = Some es" by auto
  have reads: "wt.emits is_read (each_fold (check_victim (traced S) r es) (gcp_Victims p) ([], False))" by (auto intro!: emits_intros)
  obtain cr w2 tr2 where c: "each_fold (check_victim (traced S) r es) (gcp_Victims p) ([], False) (w1, tr1) = (cr, (w2, tr2))" by (metis prod.exhaust)
  from wt.emitsD[OF reads c] obtain e2 where e2: "tr2 = tr1 @ e2" "list_all is_read e2" by auto
  show ?thesis
  proof (cases cr)
    case (Inl e)
    then have "tr' = tr2" using b c by (auto simp: s1 andthen_def attempt_def on_world_def fail_def)
    then show ?thesis using e1 e2 assms(3) by (intro exI[of _ "e1 @ e2"]) (auto intro: execution.refused simp: reads_not_doubtful)
  next
    case (Inr s)
    then have "andthen (persist_plan (traced S) r p) (\<lambda>_. each (destroy_one (traced S) r) (gcp_Victims p)) ((w2, tr2), g1) = (res, ((w', tr'), g'))"
      using b c by (simp add: s1 andthen_on_world)
    from persist_destroy_log[OF this assms(2), of "pre @ e1 @ e2"] assms(3) e1 e2 obtain ev where
      ev: "tr' = tr2 @ ev" "execution r (gco_owner g) p ((pre @ e1 @ e2) @ ev)" "gco_catalog g' = Some es"
      "list_ex doubtful ev \<longrightarrow> gco_uncertain g'"
      "ev = [] \<or> (\<exists>e rest. ev = EvPut (gc_plan_key r p) (render (enc_GCPlan p)) Create e # rest)" by auto
    have "ev \<noteq> [] \<Longrightarrow> plan_validated S r p ((w, tr), g) tr' es"
      using a[unfolded s1] checked_victims_validated[OF c[unfolded Inr]] checked_victims_ordered[OF c[unfolded Inr]] ev
      by (force simp: plan_validated_def)
    then show ?thesis using e1 e2 ev reads_not_doubtful[OF e1(2)] reads_not_doubtful[OF e2(2)]
      by (intro exI[of _ "e1 @ e2 @ ev"]) auto
  qed
qed

lemma GC_Execute_log:
  assumes run: "GC_Execute (traced S) r p ((w, tr), g) = (res, ((w', tr'), g'))"
  shows "\<exists>ev. tr' = tr @ ev \<and> execution r (gco_owner g) p ev \<and> (list_ex doubtful ev \<longrightarrow> gco_uncertain g') \<and>
    (list_all is_read ev \<or> gc_plan_ok r (gco_owner g) p \<and> \<not> gco_executed g \<and> (\<exists>es s1. gco_catalog g' = Some es \<and>
      GC_check (traced S) r g (w, tr) = (Inr (), s1) \<and> plan_validated S r p (s1, g\<lparr>gco_executed := True\<rparr>) tr' es))"
proof -
  obtain cr w1 tr1 where c: "GC_check (traced S) r g (w, tr) = (cr, (w1, tr1))" by (metis prod.exhaust)
  from wt.emitsD[OF reads_GC_check c] obtain e1 where e1: "tr1 = tr @ e1" "list_all is_read e1" by auto
  let ?rest = "andthen (gc_entries (traced S) r) (\<lambda>es.
      andthen (on_world (each_fold (check_victim (traced S) r es) (gcp_Victims p) ([], False))) (\<lambda>_.
      andthen (persist_plan (traced S) r p) (\<lambda>_. each (destroy_one (traced S) r) (gcp_Victims p))))"
  show ?thesis
  proof (cases "(\<exists>e. cr = Inl e) \<or> gco_executed g \<or> \<not> gc_plan_ok r (gco_owner g) p")
    case True
    then have "tr' = tr1" using run c
      by (auto simp: GC_Execute_def andthen_def attempt_def on_world_def upd_side_def get_side_def fail_def split: sum.splits if_splits)
    then show ?thesis using e1 by (auto intro: execution.refused simp: reads_not_doubtful)
  next
    case False
    then have "?rest ((w1, tr1), g\<lparr>gco_executed := True\<rparr>) = (res, ((w', tr'), g'))" using run c
      by (cases cr) (simp_all add: GC_Execute_def andthen_on_world c)
    from check_and_run_log[OF this _ e1(2)] False e1 obtain ev where ev: "tr' = tr1 @ ev" "execution r (gco_owner g) p (e1 @ ev)" "list_ex doubtful ev \<longrightarrow> gco_uncertain g'"
      "list_all is_read ev \<or> (\<exists>es. gco_catalog g' = Some es \<and> plan_validated S r p ((w1, tr1), g\<lparr>gco_executed := True\<rparr>) tr' es)"
      by (auto simp: gc_plan_ok_def)
    moreover have "cr = Inr ()" using False by (cases cr) auto
    ultimately show ?thesis using False e1 c reads_not_doubtful[OF e1(2)] by (intro exI[of _ "e1 @ ev"]) auto
  qed
qed

end
