(* ===== verification/Wal_Order.thy ===== *)
theory Wal_Order
  imports Wal_Files Collection_Order
begin

text \<open>
  What the calls of the WAL archive have seen when they succeed: a retrieval verified the raw
  bytes, an acknowledged archive call verified the stored object after its own PUT.
\<close>

section \<open>Digests\<close>

lemma lower_hex_value: "lower_hex c \<Longrightarrow> \<exists>d. digit_value c = Some d \<and> 0 \<le> d \<and> d < 16 \<and> digit_char d = c"
  by (auto simp: lower_hex_def digit_value_def digit_char_def Let_def)

lemma digit_value_range: "digit_value c = Some d \<Longrightarrow> 0 \<le> d \<and> d < 16"
  by (auto simp: digit_value_def Let_def split: if_splits)

lemma hex_decode_lower:
  "even (length v) \<Longrightarrow> list_all lower_hex v \<Longrightarrow> \<exists>bs. hex_decode v = Some bs \<and> hex_encode bs = v \<and> 2 * length bs = length v"
proof (induction v rule: hex_decode.induct)
  case (3 a b cs)
  then obtain x y where x: "digit_value a = Some x" "0 \<le> x" "x < 16" "digit_char x = a"
    and y: "digit_value b = Some y" "0 \<le> y" "y < 16" "digit_char y = b" using lower_hex_value[of a] lower_hex_value[of b] by auto
  with 3 obtain bs where bs: "hex_decode cs = Some bs" "hex_encode bs = cs" "2 * length bs = length cs" by auto
  have "(16 * x + y) div 16 = x" "(16 * x + y) mod 16 = y" using x y by auto
  then show ?case using bs x y by (simp add: hex_encode_def)
qed (auto simp: hex_encode_def)

lemma hex_decode_byte_list: "hex_decode v = Some bs \<Longrightarrow> byte_list bs \<and> 2 * length bs = length v"
proof (induction v arbitrary: bs rule: hex_decode.induct)
  case (3 a b cs)
  then obtain x y cs' where v: "digit_value a = Some x" "digit_value b = Some y" "hex_decode cs = Some cs'" "bs = (16 * x + y) # cs'"
    by (auto split: option.splits)
  then have "byte_list cs'" "2 * length cs' = length cs" using 3 by auto
  then show ?case using v digit_value_range[OF v(1)] digit_value_range[OF v(2)] by (auto simp: byte_list_def)
qed (auto simp: byte_list_def)

lemma hashValid_iff: "hashValid v \<longleftrightarrow> hashRE v"
proof
  assume "hashValid v"
  then obtain b where b: "hex_decode v = Some b" "length b = 32" "hex_encode b = v" by (auto simp: hashValid_def split: option.splits)
  then show "hashRE v" using hex_decode_byte_list[OF b(1)] hex_encode_lower[of b] by (auto simp: hashRE_def)
next
  assume "hashRE v"
  then show "hashValid v" using hex_decode_lower[of v] by (auto simp: hashRE_def hashValid_def)
qed

section \<open>Retrieval\<close>

lemma attempt_iff: "attempt m k s = (y, s') \<longleftrightarrow> (\<exists>r s1. m s = (r, s1) \<and> k r s1 = (y, s'))"
  by (auto simp: attempt_def split: prod.splits)

lemma local_io_Inr: "local_io m s = (Inr x, s') \<longleftrightarrow> m s = (Inr x, s')"
  by (auto simp: local_io_def attempt_def ret_def fail_def split: prod.splits sum.splits)

lemma lift_Inr: "lift r s = (Inr x, s') \<longleftrightarrow> r = Inr x \<and> s' = s"
  by (auto simp: lift_def)

lemma unpack_Inr:
  assumes "unpack S i b raw s = (Inr x, s')"
  shows "raw_of S (meta_get (inf_Metadata i) ''cnpg-compression'') (take (nat (inf_Size i)) b) = Some x \<and>
    int (length x) = itg_Size raw \<and> digest x = itg_SHA256 raw"
proof -
  from assms obtain s1 s2 where "copy_verified S (meta_get (inf_Metadata i) ''cnpg-compression'') (take (nat (inf_Size i)) b) raw s1 = (Inr x, s2)"
    by (auto simp: unpack_def Let_def andthen_Inr fail_def ret_def split: if_splits)
  then show ?thesis
    by (auto simp: copy_verified_def attempt_def andthen_Inr fail_def ret_def split: prod.splits sum.splits option.splits if_splits)
qed

lemma Retrieve_Inr:
  assumes "Retrieve S w name s = (Inr (raw, x), s')"
  obtains r key mx i b got s1 s2 s3 where "Limits w name = Inr (r, key, mx)" "st_Head S key s = (Inr i, s1)"
    "wal_metadata w name i = Inr raw" "wal_metadata w name got = Inr raw" "disk S s1 = (Inr (), s2)"
    "st_Download S key \<lparr>itg_Size = inf_Size i, itg_SHA256 = meta_get (inf_Metadata i) ''cnpg-stored-sha256''\<rparr> s2 = (Inr (b, got), s3)"
    "unpack S i b raw s3 = (Inr x, s')"
proof -
  from assms obtain r key mx where l: "Limits w name = Inr (r, key, mx)" by (auto simp: Retrieve_def andthen_Inr lift_Inr)
  from assms obtain i s1 where h: "st_Head S key s = (Inr i, s1)"
    unfolding Retrieve_def by (auto simp: andthen_Inr lift_Inr l attempt_def fail_def split: prod.splits sum.splits if_splits)
  from assms[unfolded Retrieve_def] l h obtain s2 b got s3 where
    "wal_metadata w name i = Inr raw" "wal_metadata w name got = Inr raw" "disk S s1 = (Inr (), s2)"
    "DownloadWAL S key \<lparr>itg_Size = inf_Size i, itg_SHA256 = meta_get (inf_Metadata i) ''cnpg-stored-sha256''\<rparr> s2 = (Inr (b, got), s3)"
    "unpack S i b raw s3 = (Inr x, s')"
    by (auto simp: andthen_Inr lift_Inr local_io_Inr attempt_def fail_def ret_def split: prod.splits if_splits)
  then show thesis using that[OF l h] by (auto simp: DownloadWAL_def fail_def split: if_splits)
qed

text \<open>Local work leaves the log alone.\<close>

lemma emits_local_io: "wt.emits A m \<Longrightarrow> wt.emits A (local_io m)"
  unfolding local_io_def by (auto intro!: emits_intros split: sum.splits)

lemma emits_unpack: "wt.emits A (unpack (traced S) i b raw)"
  unfolding unpack_def copy_verified_def Let_def
  by (auto intro!: emits_intros emits_local_io emits_disk split: sum.splits option.splits)

lemma silent: "wt.emits (\<lambda>_. False) m \<Longrightarrow> m (v, tr) = (res, (v', tr')) \<Longrightarrow> tr' = tr"
  by (drule (1) wt.emitsD) (auto simp: list_all_iff)

text \<open>What a successful retrieval has seen: the object's header, and a download of exactly that
  object whose raw bytes have the declared size and digest.\<close>

definition retrieved :: "'w sys \<Rightarrow> wal_files \<Rightarrow> string \<Rightarrow> string \<Rightarrow> integrity \<Rightarrow> bytes \<Rightarrow> event list \<Rightarrow> bool" where
  "retrieved S w name key raw x ev \<longleftrightarrow> (\<exists>i b got u u'. let itg = \<lparr>itg_Size = inf_Size i, itg_SHA256 = meta_get (inf_Metadata i) ''cnpg-stored-sha256''\<rparr> in
     ev = [EvHead key, EvDownload key itg None] \<and> wal_metadata w name i = Inr raw \<and> wal_metadata w name got = Inr raw \<and>
     st_Download S key itg u = (Inr (b, got), u') \<and>
     raw_of S (meta_get (inf_Metadata i) ''cnpg-compression'') (take (nat (inf_Size i)) b) = Some x \<and>
     int (length x) = itg_Size raw \<and> digest x = itg_SHA256 raw)"

lemma retrieved_size: "retrieved S w name key raw x ev \<Longrightarrow> int (length x) = itg_Size raw \<and> digest x = itg_SHA256 raw"
  by (auto simp: retrieved_def Let_def)

lemma raw_of_traced [simp]: "raw_of (traced S) = raw_of S"
  by (intro ext) (simp add: raw_of_def traced_def)

lemma Retrieve_log:
  assumes "Retrieve (traced S) w name (v, tr) = (Inr (raw, x), (v', tr'))"
  shows "\<exists>r key mx ev. Limits w name = Inr (r, key, mx) \<and> tr' = tr @ ev \<and> retrieved S w name key raw x ev"
proof -
  from Retrieve_Inr[OF assms] obtain r key mx i b got s1 s2 s3 where
    l: "Limits w name = Inr (r, key, mx)" and h: "st_Head (traced S) key (v, tr) = (Inr i, s1)" and
    m: "wal_metadata w name i = Inr raw" "wal_metadata w name got = Inr raw" and d: "disk (traced S) s1 = (Inr (), s2)" and
    dl: "st_Download (traced S) key \<lparr>itg_Size = inf_Size i, itg_SHA256 = meta_get (inf_Metadata i) ''cnpg-stored-sha256''\<rparr> s2 = (Inr (b, got), s3)" and
    u: "unpack (traced S) i b raw s3 = (Inr x, (v', tr'))" by metis
  obtain v1 v2 v3 tr2 tr3 where s: "s1 = (v1, tr @ [EvHead key])" "s2 = (v2, tr2)" "s3 = (v3, tr3)"
    using h by (cases s2; cases s3) (auto simp: traced_def logged_def split: prod.splits)
  have "tr2 = tr @ [EvHead key]" using silent[OF emits_disk d[unfolded s]] .
  moreover have "tr' = tr3" using silent[OF emits_unpack u[unfolded s]] .
  moreover have "st_Download S key \<lparr>itg_Size = inf_Size i, itg_SHA256 = meta_get (inf_Metadata i) ''cnpg-stored-sha256''\<rparr> v2 = (Inr (b, got), v3)"
    "tr3 = tr2 @ [EvDownload key \<lparr>itg_Size = inf_Size i, itg_SHA256 = meta_get (inf_Metadata i) ''cnpg-stored-sha256''\<rparr> None]"
    using dl s by (auto simp: traced_def logged_def err_of_def split: prod.splits)
  ultimately show ?thesis using l m unpack_Inr[OF u] unfolding retrieved_def Let_def by fastforce
qed


section \<open>Archiving\<close>

lemma verify_archived_log:
  assumes "verify_archived (traced S) w name x pe (v, tr) = (Inr (), (v', tr'))"
  shows "\<exists>r key mx raw y ev. Limits w name = Inr (r, key, mx) \<and> tr' = tr @ ev \<and> retrieved S w name key raw y ev \<and>
    itg_Size raw = int (length x) \<and> itg_SHA256 raw = digest x"
proof -
  from assms obtain u s1 res s2 where d: "disk (traced S) (v, tr) = (Inr u, s1)" and rd: "Retrieve (traced S) w name s1 = (res, s2)" and
    k: "(case res of Inl e \<Rightarrow> (case pe of Inl pe \<Rightarrow> if Is e NotFound then fail pe else fail e | Inr _ \<Rightarrow> fail e)
       | Inr (got, _) \<Rightarrow> if itg_Size got \<noteq> int (length x) \<or> itg_SHA256 got \<noteq> digest x then fail WALConflict else ret ()) s2 = (Inr (), (v', tr'))"
    unfolding verify_archived_def andthen_Inr local_io_Inr attempt_iff by blast
  from k obtain raw y where "res = Inr (raw, y)" by (cases res; cases pe) (auto simp: fail_def split: if_splits)
  with k rd have rt: "Retrieve (traced S) w name s1 = (Inr (raw, y), (v', tr'))"
    and eq: "itg_Size raw = int (length x)" "itg_SHA256 raw = digest x" by (auto simp: fail_def ret_def split: if_splits)
  obtain v1 where s1: "s1 = (v1, tr)" using silent[OF emits_disk] d by (metis prod.exhaust)
  from Retrieve_log[OF rt[unfolded s1]] eq show ?thesis by fastforce
qed

lemma spool_source_Inr:
  assumes "spool_source S w st mx src s = (Inr (x, stored), s')" "source_ok name mx st" "source_same st src x"
  shows "x = src_Data src \<and> stored = (if wf_Compression w = ''gzip'' then gz S (src_Data src) else src_Data src) \<and>
    int (length (src_Data src)) = fst_Size st"
proof -
  from assms(1) have x: "x = take (nat (min (fst_Size st + 1) (mx + 1))) (src_Data src)" and
    st: "stored = (if wf_Compression w = ''gzip'' then gz S x else x)"
    by (auto simp: spool_source_def Let_def andthen_Inr fail_def ret_def split: if_splits)
  have len: "int (length x) = fst_Size st" using assms(3) by (auto simp: source_same_def split: option.splits)
  have "fst_Size st \<le> mx" using assms(2) by (auto simp: source_ok_def)
  then have "length x = min (length (src_Data src)) (nat (fst_Size st + 1))" by (simp add: x min_def)
  then have "length (src_Data src) = length x" using len by linarith
  then have "x = src_Data src" using x by (metis take_all_iff length_take min.absorb_iff2 nle_le)
  then show ?thesis using st len by simp
qed

lemma emits_spool_source: "wt.emits A (spool_source (traced S) w st mx src)"
  unfolding spool_source_def Let_def by (auto intro!: emits_intros emits_local_io)

lemma Archive_log:
  assumes "Archive (traced S) w name (Some src) (v, tr) = (Inr (), (v', tr'))"
  shows "\<exists>r key mx e raw y ev. Limits w name = Inr (r, key, mx) \<and>
    tr' = tr @ EvPut key (if wf_Compression w = ''gzip'' then gz S (src_Data src) else src_Data src) Create e # ev \<and>
    retrieved S w name key raw y ev \<and> length y = length (src_Data src) \<and> digest y = digest (src_Data src)"
proof -
  from assms obtain r key mx st where l: "Limits w name = Inr (r, key, mx)" and st: "src_Stat src = Some st" "source_ok name mx st"
    by (auto simp: Archive_def andthen_Inr lift_Inr fail_def split: option.splits if_splits)
  from assms l st obtain s1 s2 s3 s4 x stored res s5 where
    d1: "disk (traced S) (v, tr) = (Inr (), s1)" and sp: "spool_source (traced S) w st mx src s1 = (Inr (x, stored), s2)" and
    same: "source_same st src x" and d2: "disk (traced S) s2 = (Inr (), s3)" and d3: "disk (traced S) s3 = (Inr (), s4)" and
    p: "st_PutFile (traced S) key stored \<lparr>itg_Size = int (length stored), itg_SHA256 = digest stored\<rparr> Create (archive_metadata r w x stored) s4 = (res, s5)" and
    va: "verify_archived (traced S) w name x res s5 = (Inr (), (v', tr'))"
    by (auto simp: Archive_def andthen_Inr lift_Inr local_io_Inr attempt_iff fail_def ret_def put_settled_def split: prod.splits sum.splits if_splits)
  obtain v1 where s1: "s1 = (v1, tr)" using silent[OF emits_disk] d1 by (metis prod.exhaust)
  obtain v2 where s2: "s2 = (v2, tr)" using silent[OF emits_spool_source] sp s1 by (metis prod.exhaust)
  obtain v3 where s3: "s3 = (v3, tr)" using silent[OF emits_disk] d2 s2 by (metis prod.exhaust)
  obtain v4 where s4: "s4 = (v4, tr)" using silent[OF emits_disk] d3 s3 by (metis prod.exhaust)
  obtain v5 where s5: "s5 = (v5, tr @ [EvPut key stored Create (err_of res)])" using p s4 by (auto simp: traced_def logged_def split: prod.splits)
  note x = spool_source_Inr[OF sp st(2) same]
  from verify_archived_log[OF va[unfolded s5]] l obtain raw y ev where
    "tr' = (tr @ [EvPut key stored Create (err_of res)]) @ ev" "retrieved S w name key raw y ev" "itg_Size raw = int (length x)" "itg_SHA256 raw = digest x"
    by auto
  moreover from this x have "length y = length (src_Data src)" "digest y = digest (src_Data src)" using retrieved_size by fastforce+
  moreover have "gz (traced S) = gz S" by (simp add: traced_def)
  ultimately show ?thesis using l x by auto
qed

section \<open>Restoring\<close>

lemma Limits_name_not_tmp: "Limits w name = Inr l \<Longrightarrow> name \<noteq> restore_tmp"
proof
  assume "Limits w name = Inr l" "name = restore_tmp"
  moreover have "\<not> walRE restore_tmp" by code_simp
  ultimately show False by (auto simp: Limits_def WALKey_def walTimeline_def split: option.splits sum.splits if_splits)
qed

text \<open>The bytes that a retrieval from the world \<open>v\<close> verified: HEAD on the name's key answered an object
  whose metadata fits the name, a download of exactly that object followed, and its raw bytes have
  the size and the digest that its metadata declares.\<close>

definition restored :: "'w sys \<Rightarrow> wal_files \<Rightarrow> string \<Rightarrow> 'w \<Rightarrow> bytes \<Rightarrow> bool" where
  "restored S w name v x \<longleftrightarrow> (\<exists>r key mx i raw b got v1 v2 v3. Limits w name = Inr (r, key, mx) \<and>
     st_Head S key v = (Inr i, v1) \<and> wal_metadata w name i = Inr raw \<and> disk S v1 = (Inr (), v2) \<and>
     st_Download S key \<lparr>itg_Size = inf_Size i, itg_SHA256 = meta_get (inf_Metadata i) ''cnpg-stored-sha256''\<rparr> v2 = (Inr (b, got), v3) \<and>
     wal_metadata w name got = Inr raw \<and>
     raw_of S (meta_get (inf_Metadata i) ''cnpg-compression'') (take (nat (inf_Size i)) b) = Some x \<and>
     int (length x) = itg_Size raw \<and> digest x = itg_SHA256 raw)"

lemma Retrieve_restored:
  assumes "Retrieve S w name v = (Inr (raw, x), v')"
  shows "restored S w name v x"
  using assms by (rule Retrieve_Inr) (drule unpack_Inr, unfold restored_def, blast)

abbreviation at_dest :: "string \<Rightarrow> bytes option \<Rightarrow> 'w \<times> dir \<Rightarrow> bool" where
  "at_dest dst old \<equiv> (\<lambda>s. dir_files (snd s) dst = old)"

abbreviation before_dest :: "'w \<Rightarrow> string \<Rightarrow> bytes option \<Rightarrow> 'w \<times> dir \<Rightarrow> bool" where
  "before_dest v dst old \<equiv> (\<lambda>s. fst s = v \<and> at_dest dst old s)"

lemma triple_local_dir:
  assumes "touches {restore_tmp} m" "dst \<noteq> restore_tmp"
  shows "triple (before_dest v dst old) (local_io (on_dir m)) (\<lambda>_. before_dest v dst old) (at_dest dst old)"
  using assms by (intro tripleI) (auto simp: local_io_def attempt_def on_dir_def ret_def fail_def split: prod.splits sum.splits dest: touchesD)

lemma triple_quiet:
  assumes "touches {} m" 
  shows "triple (\<lambda>s. dir_files (snd s) = f) (local_io (on_dir m)) (\<lambda>_ s. dir_files (snd s) = f) (\<lambda>s. dir_files (snd s) = f)"
  using assms by (intro tripleI) (fastforce simp: local_io_def attempt_def on_dir_def ret_def fail_def split: prod.splits sum.splits dest: touchesD)+

lemma triple_on_world: "(\<And>v x v'. m v = (Inr x, v') \<Longrightarrow> Q x) \<Longrightarrow>
    triple (\<lambda>s. P (snd s)) (on_world m) (\<lambda>x s. P (snd s) \<and> Q x) (\<lambda>s. P (snd s))"
  by (rule tripleI) (auto simp: on_world_def split: prod.splits)


definition renamed :: "'w sys \<Rightarrow> wal_files \<Rightarrow> string \<Rightarrow> 'w \<Rightarrow> string \<Rightarrow> bytes option \<Rightarrow> 'w \<times> dir \<Rightarrow> bool" where
  "renamed S w name v dst old s \<longleftrightarrow> at_dest dst old s \<or> (\<exists>x. restored S w name v x \<and> at_dest dst (Some x) s)"

lemma restore_file_triple:
  assumes "dst \<noteq> restore_tmp"
  shows "triple (before_dest v dst old) (restore_file S w name dst)
    (\<lambda>_ s. \<exists>x. restored S w name v x \<and> at_dest dst (Some x) s) (renamed S w name v dst old)"
  unfolding restore_file_def
proof (rule triple_andthen[where R = "\<lambda>p s. at_dest dst old s \<and> restored S w name v (snd p)"])
  show "triple (before_dest v dst old) (on_world (Retrieve S w name)) (\<lambda>p s. at_dest dst old s \<and> restored S w name v (snd p)) (renamed S w name v dst old)"
    by (rule tripleI) (auto simp: on_world_def renamed_def split: prod.splits dest: Retrieve_restored)
next
  fix p :: "integrity \<times> bytes"
  obtain raw x where p: "p = (raw, x)" by (cases p)
  let ?J = "\<lambda>s. at_dest dst old s \<and> dir_files (snd s) restore_tmp = Some x \<and> restored S w name v x"
  let ?K = "\<lambda>s. restored S w name v x \<and> at_dest dst (Some x) s"
  have j: "triple ?J (local_io (on_dir try_op)) (\<lambda>_. ?J) (renamed S w name v dst old)"
    by (rule tripleI) (auto simp: local_io_def attempt_def on_dir_def ret_def fail_def renamed_def split: prod.splits sum.splits dest!: try_op_files)
  have k: "triple ?K (local_io (on_dir try_op)) (\<lambda>_ s. \<exists>x. restored S w name v x \<and> at_dest dst (Some x) s) (renamed S w name v dst old)"
    by (rule tripleI) (auto simp: local_io_def attempt_def on_dir_def ret_def fail_def renamed_def split: prod.splits sum.splits dest!: try_op_files)
  have c: "triple ?J (on_world (ctx_err S)) (\<lambda>_. ?J) (renamed S w name v dst old)"
    by (rule tripleI) (auto simp: on_world_def renamed_def split: prod.splits)
  have r: "triple ?J (local_io (on_dir (rename_file restore_tmp dst))) (\<lambda>_. ?K) (renamed S w name v dst old)"
    using assms by (intro tripleI) (auto simp: local_io_def attempt_def on_dir_def ret_def fail_def renamed_def rename_file_def andthen_def set_file_def
        split: prod.splits sum.splits dest!: try_op_files)
  have s: "triple (\<lambda>s. at_dest dst old s \<and> restored S w name v (snd p)) (\<lambda>(v, d). (Inr (), (v, set_file restore_tmp (Some x) d))) (\<lambda>_. ?J) (renamed S w name v dst old)"
    using assms by (intro tripleI) (auto simp: set_file_def p)
  show "triple (\<lambda>s. at_dest dst old s \<and> restored S w name v (snd p)) ((\<lambda>(raw, x).
     andthen (\<lambda>(v, d). (Inr (), (v, set_file restore_tmp (Some x) d))) (\<lambda>_.
     andthen (local_io (on_dir try_op)) (\<lambda>_.
     andthen (on_world (ctx_err S)) (\<lambda>_.
     andthen (local_io (on_dir (rename_file restore_tmp dst))) (\<lambda>_.
     local_io (on_dir try_op)))))) p) (\<lambda>_ s. \<exists>x. restored S w name v x \<and> at_dest dst (Some x) s) (renamed S w name v dst old)"
    unfolding p prod.case by (intro triple_andthen[OF s[unfolded p]] triple_andthen[OF j] triple_andthen[OF c] triple_andthen[OF r] k)
qed

lemma with_tmp_triple:
  assumes "dst \<noteq> restore_tmp" "triple P m Q E" "\<And>x s s'. Q x s \<Longrightarrow> dir_files (snd s') dst = dir_files (snd s) dst \<Longrightarrow> Q x s'"
    "\<And>s s'. E s \<Longrightarrow> dir_files (snd s') dst = dir_files (snd s) dst \<Longrightarrow> E s'"
  shows "triple P (with_tmp m) Q E"
proof -
  have q: "triple P' (attempt (on_dir try_op) (\<lambda>_. attempt (on_dir (remove_file restore_tmp)) (\<lambda>_. lift res))) Q E"
    if "\<And>s s'. P' s \<Longrightarrow> dir_files (snd s') dst = dir_files (snd s) dst \<Longrightarrow> (case res of Inr x \<Rightarrow> Q x s' | Inl e \<Rightarrow> E s')" for P' res
  proof -
    have tt: "touches {restore_tmp} (attempt try_op (\<lambda>_. attempt (remove_file restore_tmp) (\<lambda>_. lift res)))"
      by (intro touches_attempt touches_basic) auto
    have t: "dir_files d' dst = dir_files d dst \<and> r = res"
      if "attempt try_op (\<lambda>_. attempt (remove_file restore_tmp) (\<lambda>_. lift res)) d = (r, d')" for d r d'
    proof
      show "dir_files d' dst = dir_files d dst" by (rule tt[unfolded touches_def, rule_format, OF that]) (use assms(1) in simp)
      show "r = res" using that by (auto simp: attempt_def lift_def split: prod.splits)
    qed
    have "\<exists>d'. attempt (on_dir try_op) (\<lambda>_. attempt (on_dir (remove_file restore_tmp)) (\<lambda>_. lift res)) (v, d) = (res, (v, d')) \<and>
        dir_files d' dst = dir_files d dst" for v :: 'a and d
    proof -
      obtain r1 d1 r2 d2 where e: "try_op d = (r1, d1)" "remove_file restore_tmp d1 = (r2, d2)" by (metis prod.exhaust)
      then show ?thesis using t[of d res d2] by (simp add: attempt_def on_dir_def lift_def)
    qed
    note run = this
    show ?thesis
    proof (unfold triple_def, intro allI impI)
      fix s assume P: "P' s"
      obtain v d where s: "s = (v, d)" by (cases s)
      from run[of v d] obtain d' where
        "attempt (on_dir try_op) (\<lambda>_. attempt (on_dir (remove_file restore_tmp)) (\<lambda>_. lift res)) s = (res, (v, d'))" "dir_files d' dst = dir_files d dst"
        unfolding s by blast
      with that[OF P, of "(v, d')"] s
      show "case attempt (on_dir try_op) (\<lambda>_. attempt (on_dir (remove_file restore_tmp)) (\<lambda>_. lift res)) s of (Inr x, s') \<Rightarrow> Q x s' | (Inl e, s') \<Rightarrow> E s'"
        by (cases res) auto
    qed
  qed
  show ?thesis unfolding with_tmp_def
    by (rule triple_attempt[OF assms(2)]; rule q) (auto intro: assms(3,4))
qed

lemma Restore_triple:
  assumes "destination = name \<or> destination = ''RECOVERYXLOG'' \<or> destination = ''RECOVERYHISTORY''" "Limits w name = Inr l"
  shows "triple (before_dest v destination old) (Restore S w name destination) (\<lambda>_ s. \<exists>x. restored S w name v x \<and> at_dest destination (Some x) s)
    (renamed S w name v destination old)"
proof -
  have ne: "destination \<noteq> restore_tmp" using assms(1) Limits_name_not_tmp[OF assms(2)] by (auto simp: restore_tmp_def)
  let ?E = "renamed S w name v destination old"
  have d: "triple (before_dest v destination old) (local_io (on_dir m)) (\<lambda>_. before_dest v destination old) ?E" if "touches {restore_tmp} m" for m :: "(dir, unit) act"
    by (rule triple_weaken[OF triple_local_dir[OF that ne]]) (auto simp: renamed_def)
  have "triple (before_dest v destination old) (restore_locked S w name destination) (\<lambda>_ s. \<exists>x. restored S w name v x \<and> at_dest destination (Some x) s) ?E"
    unfolding restore_locked_def
    by (intro triple_andthen[OF d] touches_basic with_tmp_triple[OF ne restore_file_triple[OF ne]]) (auto simp: renamed_def)
  moreover have "Restore S w name destination = restore_locked S w name destination"
    using assms by (auto simp: Restore_def andthen_def attempt_def lift_def)
  ultimately show ?thesis by simp
qed

lemma Restore_atomic_result:
  assumes "Restore S w name destination (v, d) = (res, (v', d'))"
  shows "dir_files d' destination = dir_files d destination \<and> res \<noteq> Inr () \<or>
    (\<exists>x. restored S w name v x \<and> dir_files d' destination = Some x)"
proof (cases "(\<exists>l. Limits w name = Inr l) \<and> (destination = name \<or> destination = ''RECOVERYXLOG'' \<or> destination = ''RECOVERYHISTORY'')")
  case True
  then obtain l where "Limits w name = Inr l" by auto
  note t = Restore_triple[OF _ this, of destination v "dir_files d destination" S]
  show ?thesis using True tripleD_ok[OF t, of "(v, d)" "()" "(v', d')"] tripleD_err[OF t, of "(v, d)" _ "(v', d')"] assms
    by (cases res) (auto simp: renamed_def)
next
  case False
  then show ?thesis using assms by (cases "Limits w name") (auto simp: Restore_def andthen_def attempt_def lift_def fail_def split: if_splits)
qed

end
