(* ===== verification/Collection_Properties.thy ===== *)
theory Collection_Properties
  imports Collection_Order Publication_Properties
begin

text \<open>
  The properties of garbage collection, with a run against a concrete store in which the plan's
  creation ends ambiguously.
\<close>

section \<open>A run whose plan is not known to be stored\<close>

definition wal_info :: info where
  "wal_info = example_info\<lparr>inf_Metadata := [(''cnpg-format'', ''wal-v1''), (''cnpg-system-id'', idn_SystemIdentifier example_identity),
     (''cnpg-raw-sha256'', example_hash), (''cnpg-raw-bytes'', format_int (idn_WALSegmentBytes example_identity))]\<rparr>"

definition gc_sys :: "unit sys" where
  "gc_sys = (stub_sys (Inl ErrInvalid))\<lparr>
     st_Head := (\<lambda>k w. (Inr wal_info, w)),
     st_Read := (\<lambda>k n w. (Inr (render (enc_Gate owned_gate), example_info), w)),
     st_PutFile := (\<lambda>k b i c m w. (Inl (S3Error Transient True), w))\<rparr>"

definition example_gc :: gc_owner where
  "example_gc = \<lparr>gco_owner = example_owner, gco_started = None, gco_catalog = Some [], gco_requests = 0, gco_closed = False,
     gco_uncertain = False, gco_executed = False\<rparr>"

definition wal_victim :: victim where
  "wal_victim = \<lparr>vic_Kind = ''retire-wal'', vic_BackupUID = None, vic_AttemptID = None, vic_Index = None, vic_Compression = None,
     vic_UploadID = None, vic_WALName = Some ''000000010000000000000001'', vic_ExpectedETag = Some ''e'', vic_SHA256 = example_hash,
     vic_RawBytes = idn_WALSegmentBytes example_identity\<rparr>"

definition example_gc_plan :: gc_plan where
  "example_gc_plan = GC_Plan example_repo example_gc ''2026-01-03T00:10:00.5Z'' \<lparr>pol_WindowSeconds = 3600, pol_MinimumFulls = 1\<rparr> [wal_victim]"

lemma gc_gate:
  "strict Gate_type dec_Gate (render (enc_Gate owned_gate)) gateLimit = Inr owned_gate"
  "Gate_validate owned_gate example_identity = Inr ()" "gat_Owner owned_gate = Some example_owner"
  by code_simp+

lemma gc_check_run: "GC_check (traced gc_sys) example_repo example_gc (w, tr) = (Inr (), (w, tr @ [EvRead (gate_key example_repo)]))"
proof -
  have "st_Read (traced gc_sys) (gate_key example_repo) gateLimit (w, tr) =
    (Inr (render (enc_Gate owned_gate), example_info), (w, tr @ [EvRead (gate_key example_repo)]))"
    by (simp add: traced_def gc_sys_def logged_def)
  moreover have "ctx_err (traced gc_sys) (w, tr) = (Inr (), (w, tr))" by (simp add: ctx_err_def traced_def gc_sys_def stub_sys_def pass_def)
  ultimately show ?thesis using gc_gate by (simp add: GC_check_def readGate_def act_run example_gc_def)
qed

lemma gc_plan_fine: "gc_plan_ok example_repo example_owner example_gc_plan" "int (length (render (enc_GCPlan example_gc_plan))) \<le> commitLimit"
  by code_simp+

lemma wal_victim_run:
  "check_victim (traced gc_sys) example_repo [] wal_victim ([], False) ((), tr) =
     (Inr ([], True), ((), tr @ [EvHead (rp_root example_repo @ ''wal/00000001/000000010000000000000001'')]))"
proof -
  let ?key = "rp_root example_repo @ ''wal/00000001/000000010000000000000001''"
  have key: "WALKey example_repo ''000000010000000000000001'' = Inr ?key" by code_simp
  have head: "st_Head (traced gc_sys) ?key ((), tr) = (Inr wal_info, ((), tr @ [EvHead ?key]))"
    by (simp add: traced_def gc_sys_def logged_def)
  have m: "inf_ETag wal_info = ''e''" "meta_get (inf_Metadata wal_info) ''cnpg-format'' = ''wal-v1''"
    "meta_get (inf_Metadata wal_info) ''cnpg-system-id'' = idn_SystemIdentifier example_identity"
    "meta_get (inf_Metadata wal_info) ''cnpg-raw-sha256'' = example_hash"
    "meta_get (inf_Metadata wal_info) ''cnpg-raw-bytes'' = format_int (idn_WALSegmentBytes example_identity)"
    "hashRE example_hash" "\<not> idn_WALSegmentBytes example_identity < 0" by code_simp+
  show ?thesis
    by (simp add: check_victim_def Let_def validateVictim_def validate_wal_victim_def wal_victim_def m key act_run head)
qed

lemma gc_run:
  "GC_Execute (traced gc_sys) example_repo example_gc_plan (((), []), example_gc) =
    (Inl (S3Error Transient True),
     (((), [EvRead (gate_key example_repo), EvHead (rp_root example_repo @ ''wal/00000001/000000010000000000000001''),
        EvPut (gc_plan_key example_repo example_gc_plan) (render (enc_GCPlan example_gc_plan)) Create (Some (S3Error Transient True))]),
      example_gc\<lparr>gco_executed := True, gco_uncertain := True\<rparr>))"
proof -
  let ?g = "example_gc\<lparr>gco_executed := True\<rparr>"
  have es: "gc_entries (traced gc_sys) example_repo (((), tr), ?g) = (Inr [], (((), tr), ?g))" for tr
    by (simp add: gc_entries_def example_gc_def ret_def)
  have put: "put (traced gc_sys) k b c m ((), tr) = (Inl (S3Error Transient True), ((), tr @ [EvPut k b c (Some (S3Error Transient True))]))" for k b c m tr
    by (simp add: put_def traced_def gc_sys_def stub_sys_def pass_def logged_def err_of_def)
  have pp: "persist_plan (traced gc_sys) example_repo example_gc_plan (((), tr), ?g) = (Inl (S3Error Transient True),
     (((), tr @ [EvPut (gc_plan_key example_repo example_gc_plan) (render (enc_GCPlan example_gc_plan)) Create (Some (S3Error Transient True))]),
      ?g\<lparr>gco_uncertain := True\<rparr>))" for tr
    using gc_plan_fine(2) by (simp add: persist_plan_def Let_def act_run put gc_latch_def)
  have v: "gcp_Victims example_gc_plan = [wal_victim]" by (simp add: example_gc_plan_def GC_Plan_def)
  have o: "gco_owner example_gc = example_owner" "\<not> gco_executed example_gc" by (simp_all add: example_gc_def)
  show ?thesis
    using gc_plan_fine(1) by (simp add: GC_Execute_def act_run gc_check_run o es v wal_victim_run pp)
qed

section \<open>Properties\<close>

text \<open>C5. Nothing is destroyed before its completely validated plan is on record: every call to \<open>Execute\<close>
  either only reads, or reads, creates the plan document and stops when that fails, or goes on to send
  the requests of the plan's at most 128 victims in the plan's order, each one directly after a fresh
  read of the gate, and nothing further after a request that did not go through. In the second and
  third case the gate named this owner, the plan is its own and its first, and between the catalog and
  the creation of the plan document the store confirmed every victim in turn: each WAL object by a
  HEAD with the expected ETag, size and digest, each backup by its commit's digest, each payload by a
  claim of an attempt that is abandoned or that the same plan retires. The list was in order against
  the kept catalog: no backup is retired after a WAL object, and none before its live children.\<close>

theorem Execute_plan_first:
  "case GC_Execute (traced S) r p ((w, []), g) of (res, ((w', tr), g')) \<Rightarrow>
     execution r (gco_owner g) p tr \<and>
     (list_all is_read tr \<or> gc_plan_ok r (gco_owner g) p \<and> \<not> gco_executed g \<and>
       (\<exists>es s1 s2 s3 g2 e rest. gco_catalog g' = Some es \<and> GC_check (traced S) r g (w, []) = (Inr (), s1) \<and>
          gc_entries (traced S) r (s1, g\<lparr>gco_executed := True\<rparr>) = (Inr es, (s2, g2)) \<and>
          validated (traced S) r es [] (gcp_Victims p) s2 s3 \<and> victims_ordered es (gcp_Victims p) \<and>
          tr = wtrace s3 @ EvPut (gc_plan_key r p) (render (enc_GCPlan p)) Create e # rest))"
  by (fastforce dest!: GC_Execute_log simp: plan_validated_def split: prod.split)

theorem Execute_plan_first_witness:
  "\<exists>s3 e rest. snd (fst (snd (GC_Execute (traced gc_sys) example_repo example_gc_plan (((), []), example_gc)))) =
       wtrace s3 @ EvPut (gc_plan_key example_repo example_gc_plan) (render (enc_GCPlan example_gc_plan)) Create e # rest \<and>
     validated (traced gc_sys) example_repo [] [] [wal_victim] ((), [EvRead (gate_key example_repo)]) s3"
proof -
  have "gc_entries (traced gc_sys) example_repo (x, example_gc\<lparr>gco_executed := True\<rparr>) = (Inr [], (x, example_gc\<lparr>gco_executed := True\<rparr>))" for x
    by (simp add: gc_entries_def example_gc_def ret_def)
  moreover have "gcp_Victims example_gc_plan = [wal_victim]" by (simp add: example_gc_plan_def GC_Plan_def)
  ultimately show ?thesis
    using Execute_plan_first[where S = gc_sys and r = example_repo and p = example_gc_plan and w = "()" and g = example_gc]
    unfolding gc_run by (auto simp: gc_check_run simp del: validated.simps)
qed

text \<open>C6. When the plan's creation or any destructive request ends with its effect unknown, the owner
  is marked uncertain, and \<open>Close\<close> then returns \<open>ErrUncertain\<close> without a single storage call: the
  collection keeps the gate, and no writer is admitted while a delayed deletion may still land.\<close>

theorem Execute_latches:
  assumes "GC_Execute (traced S) r p ((w, []), g) = (res, ((w', tr), g'))"
    and "ev \<in> set tr" "doubtful ev"
  shows "gco_uncertain g' \<and> fst (fst (GC_Close (traced S) r g' (w', tr))) = Inl ErrUncertain \<and> snd (snd (GC_Close (traced S) r g' (w', tr))) = tr"
proof -
  from GC_Execute_log[OF assms(1)] have "list_ex doubtful tr \<longrightarrow> gco_uncertain g'" by auto
  then have "gco_uncertain g'" using assms(2,3) by (auto simp: list_ex_iff)
  then show ?thesis by (simp add: GC_Close_def Let_def traced_def pass_def split: prod.split)
qed

theorem Execute_latches_witness:
  "\<exists>w' tr g'. GC_Execute (traced gc_sys) example_repo example_gc_plan (((), []), example_gc) = (Inl (S3Error Transient True), ((w', tr), g')) \<and>
     gco_uncertain g' \<and> fst (fst (GC_Close (traced gc_sys) example_repo g' (w', tr))) = Inl ErrUncertain"
  using Execute_latches[OF gc_run, of "EvPut (gc_plan_key example_repo example_gc_plan) (render (enc_GCPlan example_gc_plan)) Create (Some (S3Error Transient True))"]
    gc_run by (simp add: doubtful_def ambiguous_def)

end
