(* ===== verification/Wal_Properties.thy ===== *)
theory Wal_Properties
  imports Wal_Order Collection_Properties
begin

text \<open>
  The properties of the WAL archive, with a small concrete archive as witness.
\<close>

section \<open>Metadata of an archived file\<close>

lemma Limits_parts:
  assumes "Limits w name = Inr (r, key, mx)"
  shows "wf_Repository w = Some r" "wf_Compression w = ''none'' \<or> wf_Compression w = ''gzip''" "WALKey r name = Inr key"
    "mx = (if segmentSized name then idn_WALSegmentBytes (rp_id r) else 1048576)"
    "mx \<le> 1073741824"
proof -
  show p: "wf_Repository w = Some r" "wf_Compression w = ''none'' \<or> wf_Compression w = ''gzip''" "WALKey r name = Inr key"
    "mx = (if segmentSized name then idn_WALSegmentBytes (rp_id r) else 1048576)"
    using assms by (auto simp: Limits_def split: option.splits sum.splits if_splits)
  have "segment_size_ok (idn_WALSegmentBytes (rp_id r))" using p(3) by (auto simp: WALKey_def walTimeline_def split: if_splits)
  then show "mx \<le> 1073741824" using p(4) by (auto simp: segment_size_ok_def)
qed

lemma meta_get_archive:
  "meta_get (archive_metadata r w x st) ''cnpg-format'' = ''wal-v1''"
  "meta_get (archive_metadata r w x st) ''cnpg-system-id'' = idn_SystemIdentifier (rp_id r)"
  "meta_get (archive_metadata r w x st) ''cnpg-raw-bytes'' = format_int (int (length x))"
  "meta_get (archive_metadata r w x st) ''cnpg-raw-sha256'' = digest x"
  "meta_get (archive_metadata r w x st) ''cnpg-stored-sha256'' = digest st"
  "meta_get (archive_metadata r w x st) ''cnpg-compression'' = wf_Compression w"
  by (simp_all add: meta_get_def archive_metadata_def)

lemma archived_metadata:
  assumes "Limits w name = Inr (r, key, mx)" "source_ok name mx st" "int (length x) = fst_Size st"
    and "inf_Metadata i = archive_metadata r w x stored" "1 \<le> inf_Size i" "inf_Size i \<le> mx + 1048576"
  shows "wal_metadata w name i = Inr \<lparr>itg_Size = int (length x), itg_SHA256 = digest x\<rparr>"
proof -
  note l = Limits_parts[OF assms(1)]
  have "int (length x) \<le> 1073741824" "1 \<le> int (length x)" using assms(2,3) l(5) by (auto simp: source_ok_def)
  then have "parse_int64 (format_int (int (length x))) = Some (int (length x))" by (intro parse_format_int) (simp add: int64_ok_def)
  then show ?thesis using assms l(2)
    by (simp add: wal_metadata_def Let_def meta_get_archive source_ok_def hashValid_iff)
qed

section \<open>A concrete archive\<close>

definition example_files :: wal_files where
  "example_files = \<lparr>wf_Repository = Some example_repo, wf_Store = True, wf_Compression = ''none''\<rparr>"

definition history_key :: string where
  "history_key = rp_root example_repo @ ''wal/00000002/00000002.history''"

definition history_stat :: file_stat where
  "history_stat = \<lparr>fst_Regular = True, fst_Size = 1, fst_ModTime = 0\<rparr>"

definition history_info :: info where
  "history_info = example_info\<lparr>inf_Metadata := archive_metadata example_repo example_files ''x'' ''x''\<rparr>"

definition archive_sys :: "unit sys" where
  "archive_sys = (stub_sys (Inl ErrInvalid))\<lparr>st_Head := (\<lambda>k w. (Inr history_info, w)), st_Download := (\<lambda>k i w. (Inr (''x'', history_info), w))\<rparr>"

lemma history_limits: "Limits example_files ''00000002.history'' = Inr (example_repo, history_key, 1048576)"
  by code_simp

lemma history_source: "source_ok ''00000002.history'' 1048576 history_stat"
  by code_simp

lemma archive_sys_calls:
  "disk archive_sys () = (Inr (), ())" "ctx_err archive_sys () = (Inr (), ())" "st_Head archive_sys k () = (Inr history_info, ())"
  "st_Download archive_sys k j () = (Inr (''x'', history_info), ())" "gunzip archive_sys = Some" "gz archive_sys b = b" "gz_open archive_sys b"
  by (simp_all add: archive_sys_def stub_sys_def disk_def ctx_err_def)

lemma history_retrieve: "Retrieve archive_sys example_files ''00000002.history'' () = (Inr (\<lparr>itg_Size = 1, itg_SHA256 = digest ''x''\<rparr>, ''x''), ())"
proof -
  have m: "wal_metadata example_files ''00000002.history'' history_info = Inr \<lparr>itg_Size = 1, itg_SHA256 = digest ''x''\<rparr>"
    using archived_metadata[OF history_limits history_source, of "''x''" history_info "''x''"]
    by (simp add: history_stat_def history_info_def example_info_def)
  have i: "inf_Size history_info = 1" "meta_get (inf_Metadata history_info) ''cnpg-compression'' = ''none''"
    by (simp_all add: history_info_def example_info_def meta_get_archive example_files_def)
  show ?thesis
    by (simp add: Retrieve_def act_run history_limits archive_sys_calls m DownloadWAL_def MaxSingleSize_def i local_io_def unpack_def
        copy_verified_def Let_def raw_of_def)
qed

definition empty_dir :: dir where
  "empty_dir = \<lparr>dir_files = \<lambda>_. None, dir_faults = []\<rparr>"

lemma history_restore: "fst (Restore archive_sys example_files ''00000002.history'' ''00000002.history'' ((), empty_dir)) = Inr ()"
proof -
  have t: "try_op d = (Inr (), d)" if "dir_faults d = []" for d using that by (simp add: try_op_def next_op_def)
  show ?thesis
    by (simp add: Restore_def restore_locked_def with_tmp_def restore_file_def act_run history_limits history_retrieve archive_sys_calls local_io_def
        on_dir_def t remove_file_def create_file_def rename_file_def set_file_def empty_dir_def)
qed

section \<open>Properties\<close>

text \<open>C8. An acknowledged archive call has verified the stored object: whenever \<open>Archive\<close> succeeds, it
  made exactly one PUT, a creation of the file's key with the source's bytes in the configured
  compression, and afterwards read the object's header and downloaded it; the raw bytes of that
  download have the length and the SHA-256 of the source, under the size, identity and digests its
  metadata declares. A local success, a precondition failure or an ambiguous answer is never
  enough.\<close>

theorem Archive_acknowledges:
  "case Archive (traced S) w name (Some src) (v, []) of (Inl _, _) \<Rightarrow> True
   | (Inr _, (v', tr)) \<Rightarrow> \<exists>r key mx e raw y ev. Limits w name = Inr (r, key, mx) \<and>
       tr = EvPut key (if wf_Compression w = ''gzip'' then gz S (src_Data src) else src_Data src) Create e # ev \<and>
       retrieved S w name key raw y ev \<and> length y = length (src_Data src) \<and> digest y = digest (src_Data src)"
  using Archive_log[of S w name src v "[]"] by (auto split: prod.splits sum.splits)

text \<open>C9. Restoring a WAL file is atomic: whichever local or remote operation fails, the destination
  keeps what it had, or holds the complete bytes of a verified retrieval, and it always holds those
  when \<open>Restore\<close> succeeds. Verified means that, from the world \<open>Restore\<close> was called in, HEAD on the
  name's key answered an object whose metadata fits the name, the download of exactly that stored
  size and digest succeeded with the same metadata, and the decompressed bytes have the raw size and
  the raw SHA-256 that the metadata declares.\<close>

theorem Restore_atomic:
  "case Restore S w name destination (v, d) of (res, (v', d')) \<Rightarrow>
     if res = Inr () then \<exists>x. restored S w name v x \<and> dir_files d' destination = Some x
     else dir_files d' destination = dir_files d destination \<or> (\<exists>x. restored S w name v x \<and> dir_files d' destination = Some x)"
  using Restore_atomic_result[of S w name destination v d] by (auto split: prod.splits)

theorem Restore_atomic_witness:
  "\<exists>x. restored archive_sys example_files ''00000002.history'' () x \<and>
     dir_files (snd (snd (Restore archive_sys example_files ''00000002.history'' ''00000002.history'' ((), empty_dir)))) ''00000002.history'' = Some x"
  using Restore_atomic[where S = archive_sys and w = example_files and name = "''00000002.history''" and destination = "''00000002.history''"
      and v = "()" and d = empty_dir] history_restore
  by (auto split: prod.splits)

text \<open>The end of the archive is never made up: when the header request fails with anything but
  the unauthenticated absence \<open>HeadMissing\<close>, \<open>Retrieve\<close> makes no further call and returns that very
  error; after \<open>HeadMissing\<close> it returns what the authenticated GET reports, and without an error
  there the absence is not confirmed.\<close>

theorem Retrieve_first_error:
  assumes "Limits w name = Inr (r, key, mx)" "st_Head S key v = (Inl e, v1)"
  shows "Retrieve (traced S) w name (v, []) =
    (if Is e HeadMissing then (case st_Read S key 65536 v1 of (Inl e', v2) \<Rightarrow> (Inl e', (v2, [EvHead key, EvRead key]))
       | (Inr _, v2) \<Rightarrow> (Inl e, (v2, [EvHead key, EvRead key])))
     else (Inl e, (v1, [EvHead key])))"
proof -
  have "st_Head (traced S) key (v, []) = (Inl e, (v1, [EvHead key]))" using assms(2) by (simp add: traced_def logged_def)
  moreover have "st_Read (traced S) key n (v1, [EvHead key]) = (case st_Read S key n v1 of (x, v2) \<Rightarrow> (x, (v2, [EvHead key, EvRead key])))" for n
    by (simp add: traced_def logged_def)
  ultimately show ?thesis using assms(1) by (simp add: Retrieve_def act_run andthen_def attempt_def split: prod.splits sum.splits)
qed

theorem Retrieve_first_error_witness:
  "Retrieve (traced (archive_sys\<lparr>st_Head := (\<lambda>k w. (Inl (S3Error HeadMissing False), w))\<rparr>)) example_files ''00000002.history'' ((), []) =
    (Inl (S3Error NotFound False), ((), [EvHead history_key, EvRead history_key]))"
proof -
  have "history_key \<noteq> gate_key example_repo" by code_simp
  then show ?thesis
    using Retrieve_first_error[OF history_limits, of "archive_sys\<lparr>st_Head := (\<lambda>k w. (Inl (S3Error HeadMissing False), w))\<rparr>" "()" "S3Error HeadMissing False" "()"]
    by (simp add: archive_sys_def stub_sys_def)
qed

text \<open>C35. Archived files come back: when storage serves the object an \<open>Archive\<close> call wrote (the stored
  bytes under their digest, with its metadata), the gzip reader inverts the writer, and local
  operations succeed, \<open>Retrieve\<close> returns the source's bytes, for both compressions and every
  admissible name and size.\<close>

theorem Archive_Retrieve_roundtrip:
  assumes "Limits w name = Inr (r, key, mx)" "source_ok name mx st" "int (length x) = fst_Size st"
    and "stored = (if wf_Compression w = ''gzip'' then gz S x else x)" "stored \<noteq> []" "int (length stored) \<le> mx + 1048576"
    and "gunzip S (gz S x) = Some x" "gz_open S (gz S x)"
    and "inf_Size i = int (length stored)" "inf_Metadata i = archive_metadata r w x stored"
    and "st_Head S key s = (Inr i, s)" "st_Download S key \<lparr>itg_Size = int (length stored), itg_SHA256 = digest stored\<rparr> s = (Inr (stored, i), s)"
    and "disk S s = (Inr (), s)" "ctx_err S s = (Inr (), s)"
  shows "Retrieve S w name s = (Inr (\<lparr>itg_Size = int (length x), itg_SHA256 = digest x\<rparr>, x), s)"
proof -
  let ?raw = "\<lparr>itg_Size = int (length x), itg_SHA256 = digest x\<rparr>"
  note l = Limits_parts[OF assms(1)]
  have "1 \<le> int (length stored)" using assms(5) by (cases stored) auto
  then have m: "wal_metadata w name i = Inr ?raw" using archived_metadata[OF assms(1-3,10)] assms(6,9) by simp
  have dl: "DownloadWAL S key \<lparr>itg_Size = inf_Size i, itg_SHA256 = meta_get (inf_Metadata i) ''cnpg-stored-sha256''\<rparr> s = (Inr (stored, i), s)"
    using assms(6,9,10,12) l(5) by (simp add: DownloadWAL_def MaxSingleSize_def meta_get_archive)
  have io: "local_io (disk S) s = (Inr (), s)" by (simp add: local_io_Inr assms(13))
  have raw: "raw_of S (wf_Compression w) stored = Some x" using assms(4,7) by (simp add: raw_of_def)
  have "unpack S i stored ?raw s = (Inr x, s)"
    using assms(4,8,9,10,14) raw io
    by (simp add: unpack_def copy_verified_def Let_def meta_get_archive act_run)
  then show ?thesis using m io dl by (simp add: Retrieve_def act_run assms(1,11))
qed

theorem Archive_Retrieve_roundtrip_witness:
  "Retrieve archive_sys example_files ''00000002.history'' () = (Inr (\<lparr>itg_Size = 1, itg_SHA256 = digest ''x''\<rparr>, ''x''), ())"
  using Archive_Retrieve_roundtrip[OF history_limits history_source, of "''x''" "''x''" archive_sys history_info "()"] archive_sys_calls
  by (simp add: history_stat_def example_files_def history_info_def example_info_def)

text \<open>Two packages agree on what an archive object is: the collector's inventory accepts a live
  slot exactly when the WAL reader accepts its metadata, with the same raw size, but for
  uncompressed objects whose stored size is not the raw size.\<close>

theorem archive_slots_agree:
  assumes "Limits w name = Inr (r, key, mx)"
  shows "slot_raw_bytes r name i = (case wal_metadata w name i of
     Inl _ \<Rightarrow> None
   | Inr raw \<Rightarrow> if meta_get (inf_Metadata i) ''cnpg-compression'' = ''none'' \<and> inf_Size i \<noteq> itg_Size raw then None else Some (itg_Size raw))"
  using Limits_parts[OF assms] assms
  by (auto simp: slot_raw_bytes_def wal_metadata_def Let_def segmentSized_def hashValid_iff split: option.splits)

theorem archive_slots_agree_witness:
  "slot_raw_bytes example_repo ''00000002.history'' history_info = Some 1"
proof -
  have "wal_metadata example_files ''00000002.history'' history_info = Inr \<lparr>itg_Size = int (length ''x''), itg_SHA256 = digest ''x''\<rparr>"
    by (rule archived_metadata[OF history_limits history_source, where stored = "''x''"]) (simp_all add: history_stat_def history_info_def example_info_def)
  then show ?thesis using archive_slots_agree[OF history_limits, of history_info] by (simp add: history_info_def example_info_def)
qed

end
