(* ===== verification/Retention_Run.thy ===== *)
theory Retention_Run
  imports Retention_Planner Wal_Files
begin

text \<open>
  One retention batch (retention/run.go): the inventory of backups, archive objects and timeline
  histories becomes the planner's input, the planner's decision and the abandoned payloads become
  a bounded list of victims, and the collection executes it. The state is the world with the
  collection's owner, beside the result that the function fills in as it goes.
\<close>

section \<open>Options and results\<close>

record options =
  opt_Enabled :: bool
  opt_DryRun :: bool
  opt_Window :: int
  opt_MinimumFulls :: int
  opt_FirstRequired :: "hint option"

record run_result =
  rr_Decision :: decision
  rr_Planned :: int
  rr_Executed :: bool
  rr_OperationID :: string

definition zero_decision :: decision where
  "zero_decision = \<lparr>Keep = Map.empty, Expire = [], Current = 0, WALFloor = 0, Shortened = False\<rparr>"

definition zero_result :: run_result where
  "zero_result = \<lparr>rr_Decision = zero_decision, rr_Planned = 0, rr_Executed = False, rr_OperationID = []\<rparr>"

definition options_ok :: "options \<Rightarrow> bool" where
  "options_ok o' \<longleftrightarrow> 3600000000000 \<le> opt_Window o' \<and> opt_Window o' \<le> 3650 * 86400000000000 \<and>
     1 \<le> opt_MinimumFulls o' \<and> opt_MinimumFulls o' \<le> 100"

section \<open>The planning facts\<close>

text \<open>The lists and maps the two inventory callbacks fill: \<open>timelines\<close> is the set of map keys.\<close>

record facts =
  fa_Backups :: "backup list"
  fa_hashes :: "string \<rightharpoonup> string"
  fa_timelines :: "u32 list"
  fa_budget :: int
  fa_Segments :: "Retention_Planner.segment list"
  fa_objects :: "wal_object list"
  fa_histories :: "u32 \<rightharpoonup> string"

definition zero_facts :: facts where
  "zero_facts = \<lparr>fa_Backups = [], fa_hashes = Map.empty, fa_timelines = [1], fa_budget = 0, fa_Segments = [], fa_objects = [],
     fa_histories = Map.empty\<rparr>"

definition reserve :: "int \<Rightarrow> facts \<Rightarrow> err + facts" where
  "reserve n f = (let budget = fa_budget f + n in if budget > 268435456 then Inl ErrCapacity else Inr (f\<lparr>fa_budget := budget\<rparr>))"

text \<open>\<open>n, _ := ParseLSN(s)\<close>: 0 when it fails.\<close>

definition lsn_or_zero :: "string \<Rightarrow> u64" where
  "lsn_or_zero s = (case ParseLSN s of Some n \<Rightarrow> n | None \<Rightarrow> 0)"

definition backup_of :: "commit \<Rightarrow> backup" where
  "backup_of c = \<lparr>ID = cmt_BackupUID c, Parent = deref (cmt_ParentBackupUID c), Timeline = cmt_Timeline c,
     Completed = fst (stamp (cmt_StoppedAt c)), Start = lsn_or_zero (cmt_StartLSN c), Redo = lsn_or_zero (cmt_RedoLSN c),
     End = lsn_or_zero (cmt_BundledWALEndLSN c)\<rparr>"

definition note_entry :: "entry \<Rightarrow> facts \<Rightarrow> err + facts" where
  "note_entry en f =
     (if ent_Retired en then Inr f
      else res_bind (reserve 1024 f) (\<lambda>f. let c = ent_Commit en in
        Inr (f\<lparr>fa_Backups := fa_Backups f @ [backup_of c], fa_hashes := (fa_hashes f)(cmt_BackupUID c \<mapsto> ent_CommitSHA256 en),
          fa_timelines := cmt_Timeline c # fa_timelines f\<rparr>)))"

definition note_object :: "repo \<Rightarrow> wal_object \<Rightarrow> facts \<Rightarrow> err + facts" where
  "note_object r ob f =
     res_bind (reserve 1024 f) (\<lambda>f.
     res_bind (ArchivePosition (take 8 (wob_Name ob) @ ''0000000000000000'') (idn_WALSegmentBytes (rp_id r))) (\<lambda>(observed, _).
     let f = f\<lparr>fa_timelines := observed # fa_timelines f\<rparr> in
     if length (wob_Name ob) = 24 then
       res_bind (ArchivePosition (wob_Name ob) (idn_WALSegmentBytes (rp_id r))) (\<lambda>(t, start).
       Inr (f\<lparr>fa_Segments := fa_Segments f @ [\<lparr>SegTimeline = t, SegStart = start, SegLive = \<not> wob_Retired ob\<rparr>],
         fa_objects := fa_objects f @ [ob]\<rparr>))
     else if has_suffix (wob_Name ob) ''.history'' then Inr (f\<lparr>fa_histories := (fa_histories f)(observed \<mapsto> wob_Name ob)\<rparr>)
     else Inr f))"

section \<open>Timeline paths\<close>

definition convert_node :: "timeline \<Rightarrow> tnode" where
  "convert_node t = \<lparr>Node = tml_ID t, Fork = (case tml_ForkLSN t of Some s \<Rightarrow> lsn_or_zero s | None \<Rightarrow> 0)\<rparr>"

definition timeline_path :: "'w sys \<Rightarrow> wal_files \<Rightarrow> (u32 \<rightharpoonup> string) \<Rightarrow> u32 \<Rightarrow> ('w, tnode list) act" where
  "timeline_path S files histories tli =
     (if tli = 1 then ret [\<lparr>Node = 1, Fork = 0\<rparr>]
      else case histories tli of
        None \<Rightarrow> fail RetentionCoverage
      | Some name \<Rightarrow>
         andthen (disk S) (\<lambda>_.
         andthen (Retrieve S files name) (\<lambda>(_, b).
         andthen (disk S) (\<lambda>_.
         andthen (lift (ParseHistory tli b)) (\<lambda>path. ret (map convert_node path))))))"

definition read_paths :: "'w sys \<Rightarrow> wal_files \<Rightarrow> facts \<Rightarrow> ('w, tnode list list) act" where
  "read_paths S files f =
     each_fold (\<lambda>tli ps. andthen (timeline_path S files (fa_histories f) tli) (\<lambda>p. ret (ps @ [p]))) (sort (remdups (fa_timelines f))) []"

section \<open>Decision and victims\<close>

text \<open>\<open>Plan\<close> never runs out of fuel (\<open>Plan_terminates\<close>), so its only error is \<open>ErrCoverage\<close>.\<close>

definition decide :: "inventory \<Rightarrow> instant \<Rightarrow> options \<Rightarrow> err + decision" where
  "decide iv now o' =
     (if Backups iv = [] then Inr (zero_decision\<lparr>Shortened := True\<rparr>)
      else case Retention_Planner.Plan iv (now - opt_Window o') (opt_MinimumFulls o') (opt_FirstRequired o') of
        Inl _ \<Rightarrow> Inl RetentionCoverage
      | Inr d \<Rightarrow> Inr d)"

definition zero_victim :: victim where
  "zero_victim = \<lparr>vic_Kind = [], vic_BackupUID = None, vic_AttemptID = None, vic_Index = None, vic_Compression = None, vic_UploadID = None,
     vic_WALName = None, vic_ExpectedETag = None, vic_SHA256 = [], vic_RawBytes = 0\<rparr>"

definition backup_victim :: "(string \<rightharpoonup> string) \<Rightarrow> string \<Rightarrow> victim" where
  "backup_victim hashes uid = zero_victim\<lparr>vic_Kind := ''retire-backup'', vic_BackupUID := Some uid,
     vic_SHA256 := (case hashes uid of Some h \<Rightarrow> h | None \<Rightarrow> [])\<rparr>"

definition segment_victim :: "wal_object \<Rightarrow> victim" where
  "segment_victim ob = zero_victim\<lparr>vic_Kind := ''retire-wal'', vic_WALName := Some (wob_Name ob), vic_ExpectedETag := Some (wob_ETag ob),
     vic_SHA256 := wob_SHA256 ob, vic_RawBytes := wob_RawBytes ob\<rparr>"

text \<open>\<open>if len(victims) == 128 { break }\<close> before every append.\<close>

fun fill :: "victim list \<Rightarrow> victim list \<Rightarrow> victim list" where
  "fill vs [] = vs"
| "fill vs (v # rest) = (if length vs = 128 then vs else fill (vs @ [v]) rest)"

definition retirable :: "decision \<Rightarrow> Retention_Planner.segment \<Rightarrow> bool" where
  "retirable d seg \<longleftrightarrow> SegLive seg \<and> SegTimeline seg = Current d \<and> SegStart seg < WALFloor d"

fun fill_segments :: "decision \<Rightarrow> victim list \<Rightarrow> (Retention_Planner.segment \<times> wal_object) list \<Rightarrow> victim list" where
  "fill_segments d vs [] = vs"
| "fill_segments d vs ((seg, ob) # rest) =
     (if length vs = 128 then vs
      else fill_segments d (if retirable d seg then vs @ [segment_victim ob] else vs) rest)"

definition assemble :: "facts \<Rightarrow> decision \<Rightarrow> victim list \<Rightarrow> victim list" where
  "assemble f d cleanup = (let vs = fill (fill [] (map (backup_victim (fa_hashes f)) (Expire d))) cleanup in
     if length (Expire d) \<le> 128 \<and> length vs < 128 then fill_segments d vs (zip (fa_Segments f) (fa_objects f)) else vs)"

section \<open>Run\<close>

definition set_result :: "(run_result \<Rightarrow> run_result) \<Rightarrow> ('s \<times> run_result, unit) act" where
  "set_result = upd_side"

text \<open>The part between admission and the deferred \<open>Close\<close>; \<open>segment_bytes\<close> is \<open>uint64(WALSegmentBytes)\<close>.\<close>

definition inventories :: "'w sys \<Rightarrow> repo \<Rightarrow> wal_files \<Rightarrow> ('w \<times> gc_owner, facts \<times> inventory) act" where
  "inventories S r files =
     andthen (GC_Inventory S r \<lparr>lim_MaxRecords = MaxCatalogRecords, lim_MaxSpoolBytes = GCCatalogBytes\<rparr>
       (\<lambda>en f. lift (note_entry en f)) zero_facts) (\<lambda>f.
     andthen get_side (\<lambda>g.
     andthen (on_world (ArchiveInventory S r g (\<lambda>ob f. lift (note_object r ob f)) f)) (\<lambda>f.
     andthen (on_world (read_paths S files f)) (\<lambda>paths.
     ret (f, \<lparr>Backups = fa_Backups f, Paths = paths, Segments = fa_Segments f, SegmentBytes = of_int (idn_WALSegmentBytes (rp_id r))\<rparr>)))))"

definition plan_victims :: "'w sys \<Rightarrow> repo \<Rightarrow> wal_files \<Rightarrow> instant \<Rightarrow> options \<Rightarrow> (('w \<times> gc_owner) \<times> run_result, victim list) act" where
  "plan_victims S r files now o' =
     andthen (on_world (inventories S r files)) (\<lambda>(f, iv).
     andthen (lift (decide iv now o')) (\<lambda>d.
     andthen (set_result (\<lambda>x. x\<lparr>rr_Decision := d\<rparr>)) (\<lambda>_.
     andthen (on_world get_side) (\<lambda>g.
     andthen (on_world (on_world (Cleanup S r g 128))) (\<lambda>cleanup.
     let vs = assemble f d cleanup in
     andthen (set_result (\<lambda>x. x\<lparr>rr_Planned := int (length vs)\<rparr>)) (\<lambda>_. ret vs))))))"

definition run_batch :: "'w sys \<Rightarrow> repo \<Rightarrow> wal_files \<Rightarrow> instant \<Rightarrow> options \<Rightarrow> (('w \<times> gc_owner) \<times> run_result, unit) act" where
  "run_batch S r files now o' =
     andthen (plan_victims S r files now o') (\<lambda>vs.
     if opt_DryRun o' \<or> vs = [] then ret ()
     else andthen (on_world get_side) (\<lambda>g.
       attempt (on_world (GC_Execute S r (GC_Plan r g (format_rfc3339 (now - opt_Window o'))
           \<lparr>pol_WindowSeconds = opt_Window o' div 1000000000, pol_MinimumFulls = opt_MinimumFulls o'\<rparr> vs))) (\<lambda>e.
       andthen (set_result (\<lambda>x. x\<lparr>rr_Executed := (e = Inr ())\<rparr>)) (\<lambda>_. lift e))))"

definition err_list :: "err + 'a \<Rightarrow> err list" where
  "err_list r = (case r of Inl e \<Rightarrow> [e] | Inr _ \<Rightarrow> [])"

text \<open>\<open>Run\<close> returns the result and the joined errors, none when the error is nil; the repository is
  \<open>None\<close> when it is nil, and \<open>nb\<close> its \<open>gcNotBefore\<close>.\<close>

definition Run :: "'w sys \<Rightarrow> repo option \<Rightarrow> instant \<Rightarrow> wal_files \<Rightarrow> instant \<Rightarrow> options \<Rightarrow> 'w \<Rightarrow> (run_result \<times> err list) \<times> 'w" where
  "Run S repo nb files now o' w =
     (if \<not> opt_Enabled o' then ((zero_result, []), w)
      else case repo of
        None \<Rightarrow> ((zero_result, [ErrInvalid]), w)
      | Some r \<Rightarrow>
         if \<not> options_ok o' then ((zero_result, [ErrInvalid]), w)
         else case AcquireGC S r nb w of
           (Inl e, w1) \<Rightarrow> ((zero_result, [e]), w1)
         | (Inr g, w1) \<Rightarrow> (case run_batch S r files now o' ((w1, g), zero_result\<lparr>rr_OperationID := own_OperationID (gco_owner g)\<rparr>) of
             (e, ((w2, g2), result)) \<Rightarrow> (case GC_Close S r g2 w2 of
               ((ce, _, _), w3) \<Rightarrow> ((result, err_list e @ err_list ce), w3))))"

end
