(* ===== verification/Retention_Order.thy ===== *)
theory Retention_Order
  imports Retention_Run Collection_Order Wal_Order Retention_Properties
begin

text \<open>
  The victims of a retention batch: the list is bounded and in the order the collection demands,
  and nothing on it is needed by a backup the decision keeps. What a dry run does.
\<close>

section \<open>The victim list\<close>

lemma fill_take: "length vs \<le> 128 \<Longrightarrow> fill vs xs = vs @ take (128 - length vs) xs"
proof (induction xs arbitrary: vs)
  case (Cons x xs)
  have "127 - length vs = n" if "128 - length vs = Suc n" for n using that by arith
  then show ?case using Cons by (cases "128 - length vs") auto
qed simp

lemma fill_segments_take:
  "length vs \<le> 128 \<Longrightarrow> fill_segments d vs zs = vs @ take (128 - length vs) (map (\<lambda>z. segment_victim (snd z)) (filter (\<lambda>z. retirable d (fst z)) zs))"
proof (induction zs arbitrary: vs)
  case (Cons z zs)
  have "127 - length vs = n" if "128 - length vs = Suc n" for n using that by arith
  then show ?case using Cons by (cases z; cases "128 - length vs") auto
qed simp

lemma assemble_parts:
  obtains k n where "assemble f d cleanup =
      map (backup_victim (fa_hashes f)) (take 128 (Expire d)) @ take k cleanup @
      take n (map (\<lambda>z. segment_victim (snd z)) (filter (\<lambda>z. retirable d (fst z)) (zip (fa_Segments f) (fa_objects f))))"
    "length (assemble f d cleanup) \<le> 128" "0 < n \<Longrightarrow> length (Expire d) \<le> 128"
proof -
  let ?b = "map (backup_victim (fa_hashes f)) (take 128 (Expire d))"
  let ?c = "take (128 - length ?b) cleanup"
  have b: "fill [] (map (backup_victim (fa_hashes f)) (Expire d)) = ?b" by (simp add: fill_take take_map)
  have c: "fill ?b cleanup = ?b @ ?c" by (rule fill_take) simp
  have len: "length (?b @ ?c) \<le> 128" by simp
  show thesis
  proof (cases "length (Expire d) \<le> 128 \<and> length (?b @ ?c) < 128")
    case True
    then have "assemble f d cleanup = ?b @ ?c @ take (128 - length (?b @ ?c)) (map (\<lambda>z. segment_victim (snd z))
        (filter (\<lambda>z. retirable d (fst z)) (zip (fa_Segments f) (fa_objects f))))"
      by (simp only: assemble_def Let_def b c fill_segments_take[OF len]) simp
    then show thesis using True by (intro that[of "128 - length ?b" "128 - length (?b @ ?c)"]) auto
  next
    case False
    then have "assemble f d cleanup = ?b @ ?c" by (simp only: assemble_def Let_def b c if_False)
    then show thesis using len by (intro that[of "128 - length ?b" 0]) auto
  qed
qed

lemma nth_append_right_mem: "\<not> i < length xs \<Longrightarrow> i < length (xs @ ys) \<Longrightarrow> (xs @ ys) ! i \<in> set ys"
  by (simp add: nth_append)

lemma victim_kinds [simp]: "vic_Kind (backup_victim h uid) = ''retire-backup''" "vic_Kind (segment_victim ob) = ''retire-wal''"
  "vic_BackupUID (backup_victim h uid) = Some uid" "vic_WALName (segment_victim ob) = Some (wob_Name ob)"
  by (simp_all add: backup_victim_def segment_victim_def)

text \<open>Cleanup only deletes and aborts.\<close>

definition payload_kind :: "victim \<Rightarrow> bool" where
  "payload_kind v \<longleftrightarrow> vic_Kind v \<noteq> ''retire-backup'' \<and> vic_Kind v \<noteq> ''retire-wal''"

lemma assemble_ordered:
  assumes exp: "\<And>xs u ys en. Expire d = xs @ u # ys \<Longrightarrow> en \<in> set es \<Longrightarrow> \<not> ent_Retired en \<Longrightarrow> cmt_ParentBackupUID (ent_Commit en) = Some u \<Longrightarrow>
      cmt_BackupUID (ent_Commit en) \<in> set xs"
    and cl: "list_all payload_kind cleanup"
  shows "victims_ordered es (assemble f d cleanup)"
proof -
  obtain k n where a: "assemble f d cleanup =
      map (backup_victim (fa_hashes f)) (take 128 (Expire d)) @ take k cleanup @
      take n (map (\<lambda>z. segment_victim (snd z)) (filter (\<lambda>z. retirable d (fst z)) (zip (fa_Segments f) (fa_objects f))))"
    by (rule assemble_parts[of f d cleanup]) blast
  let ?b = "map (backup_victim (fa_hashes f)) (take 128 (Expire d))" and ?c = "take k cleanup"
  let ?s = "take n (map (\<lambda>z. segment_victim (snd z)) (filter (\<lambda>z. retirable d (fst z)) (zip (fa_Segments f) (fa_objects f))))"
  have late: "vic_Kind v \<noteq> ''retire-backup''" if "v \<in> set (?c @ ?s)" for v
    using that cl by (auto simp: list_all_iff payload_kind_def dest!: in_set_takeD)
  have early: "vic_Kind ((?b @ ?c @ ?s) ! i) \<noteq> ''retire-wal''" if "i < length ?b" for i
    using that by (simp add: nth_append)
  have backup: "i < length ?b" if "i < length (?b @ ?c @ ?s)" "vic_Kind ((?b @ ?c @ ?s) ! i) = ''retire-backup''" for i
  proof (rule ccontr)
    assume "\<not> i < length ?b"
    then have "(?b @ ?c @ ?s) ! i \<in> set (?c @ ?s)" using that(1) by (rule nth_append_right_mem)
    then show False using late that(2) by blast
  qed
  show ?thesis unfolding a victims_ordered_def
  proof (intro conjI allI impI ballI)
    fix i j assume "i < j \<and> j < length (?b @ ?c @ ?s) \<and> vic_Kind ((?b @ ?c @ ?s) ! i) = ''retire-wal''"
    then show "vic_Kind ((?b @ ?c @ ?s) ! j) \<noteq> ''retire-backup''" using backup[of j] early[of i] by auto
  next
    fix i en assume i: "i < length (?b @ ?c @ ?s)" "vic_Kind ((?b @ ?c @ ?s) ! i) = ''retire-backup''" and en: "en \<in> set es"
      and ch: "\<not> ent_Retired en \<and> cmt_ParentBackupUID (ent_Commit en) = Some (deref (vic_BackupUID ((?b @ ?c @ ?s) ! i)))"
    note ib = backup[OF i]
    then have il: "i < length (Expire d)" "i < 128" and at: "(?b @ ?c @ ?s) ! i = backup_victim (fa_hashes f) (Expire d ! i)"
      by (simp_all add: nth_append)
    have "cmt_BackupUID (ent_Commit en) \<in> set (take i (Expire d))"
      using exp[OF id_take_nth_drop[OF il(1)] en] ch at by (simp add: deref_def)
    then obtain j where j: "j < i" "Expire d ! j = cmt_BackupUID (ent_Commit en)" using il by (auto simp: in_set_conv_nth)
    then show "\<exists>j<i. vic_Kind ((?b @ ?c @ ?s) ! j) = ''retire-backup'' \<and> deref (vic_BackupUID ((?b @ ?c @ ?s) ! j)) = cmt_BackupUID (ent_Commit en)"
      using il ib by (intro exI[of _ j]) (simp add: nth_append deref_def)
  qed
qed


section \<open>The inventories\<close>

text \<open>Runs that succeed, read backwards.\<close>

lemma ok_get_side: "get_side (w, g) = (Inr g1, s1) \<longleftrightarrow> g1 = g \<and> s1 = (w, g)"
  and ok_upd_side: "upd_side u (w, g) = (Inr x1, s1) \<longleftrightarrow> s1 = (w, u g)"
  and ok_on_world: "on_world q (w, g) = (Inr x2, s2) \<longleftrightarrow> (\<exists>w'. q w = (Inr x2, w') \<and> s2 = (w', g))"
  by (auto simp: get_side_def upd_side_def on_world_def split: option.splits prod.splits)

lemmas ok_simps = andthen_Inr lift_Inr ok_if ok_option ok_prod ok_fail ok_ret ok_get_side ok_upd_side ok_on_world

lemma scan_loop_fold:
  "scan_loop S es (\<lambda>en f. lift (h en f)) f w = (Inr f', w') \<Longrightarrow> fold_res h es f = Inr f'"
  by (induction es arbitrary: f w) (auto simp: andthen_Inr ret_def lift_Inr)

definition live_backups :: "entry list \<Rightarrow> backup list" where
  "live_backups es = map (\<lambda>en. backup_of (ent_Commit en)) (filter (\<lambda>en. \<not> ent_Retired en) es)"

text \<open>The entry a planned retirement names.\<close>

definition live_entry :: "entry list \<Rightarrow> string \<Rightarrow> string \<Rightarrow> bool" where
  "live_entry es uid hash \<longleftrightarrow> (\<exists>en \<in> set es. \<not> ent_Retired en \<and> cmt_BackupUID (ent_Commit en) = uid \<and> ent_CommitSHA256 en = hash)"

lemma live_entry_Cons: "live_entry (en # es) uid hash \<longleftrightarrow>
    \<not> ent_Retired en \<and> cmt_BackupUID (ent_Commit en) = uid \<and> ent_CommitSHA256 en = hash \<or> live_entry es uid hash"
  by (auto simp: live_entry_def)

lemma note_entries:
  "fold_res note_entry es f = Inr f' \<Longrightarrow> fa_Backups f' = fa_Backups f @ live_backups es \<and> fa_Segments f' = fa_Segments f \<and>
     fa_objects f' = fa_objects f \<and> fa_histories f' = fa_histories f \<and> set (fa_timelines f') = set (fa_timelines f) \<union> Timeline ` set (live_backups es) \<and>
     dom (fa_hashes f') = dom (fa_hashes f) \<union> ID ` set (live_backups es) \<and>
     (\<forall>uid h. fa_hashes f' uid = Some h \<longrightarrow> fa_hashes f uid = Some h \<or> live_entry es uid h)"
proof (induction es arbitrary: f)
  case (Cons en es)
  then obtain f1 where f1: "note_entry en f = Inr f1" "fold_res note_entry es f1 = Inr f'" by (auto simp: res_bind_Inr)
  show ?case
  proof (cases "ent_Retired en")
    case True
    then show ?thesis using f1(1) Cons.IH[OF f1(2)] by (auto simp: note_entry_def live_backups_def live_entry_Cons)
  next
    case False
    then have "fa_Backups f1 = fa_Backups f @ [backup_of (ent_Commit en)]" "fa_Segments f1 = fa_Segments f" "fa_objects f1 = fa_objects f"
      "fa_histories f1 = fa_histories f" "fa_timelines f1 = cmt_Timeline (ent_Commit en) # fa_timelines f"
      "fa_hashes f1 = (fa_hashes f)(cmt_BackupUID (ent_Commit en) \<mapsto> ent_CommitSHA256 en)"
      using f1(1) by (auto simp: note_entry_def reserve_def Let_def split: if_splits)
    note eqs = this and IH = Cons.IH[OF f1(2)]
    have "fa_hashes f uid = Some h \<or> live_entry (en # es) uid h" if "fa_hashes f' uid = Some h" for uid h
    proof -
      have "fa_hashes f1 uid = Some h \<or> live_entry es uid h" using IH that by blast
      then show ?thesis using eqs(6) False by (auto simp: live_entry_Cons split: if_splits)
    qed
    moreover have "live_backups (en # es) = backup_of (ent_Commit en) # live_backups es" "Timeline (backup_of c) = cmt_Timeline c"
      "ID (backup_of c) = cmt_BackupUID c" for c using False by (simp_all add: live_backups_def backup_of_def)
    ultimately show ?thesis using eqs IH by (auto simp del: fun_upd_apply)
  qed
qed (simp add: live_backups_def)

text \<open>What the archive inventory saw: for every listed key its HEAD answer and the object it stands
  for, in the order of the listing, each from the state the one before it left.\<close>

primrec archive_seen :: "'w sys \<Rightarrow> repo \<Rightarrow> info list \<Rightarrow> wal_object list \<Rightarrow> 'w \<Rightarrow> 'w \<Rightarrow> bool" where
  "archive_seen S r [] obs s s' \<longleftrightarrow> obs = [] \<and> s' = s"
| "archive_seen S r (i # items) obs s s' \<longleftrightarrow> (\<exists>name h ob rest s1 s2. obs = ob # rest \<and> WALKey r name = Inr (inf_Key i) \<and>
     st_Head S (inf_Key i) s = (Inr h, s1) \<and> archive_slot S r (inf_Key i) name h s1 = (Inr ob, s2) \<and>
     wob_Name ob = name \<and> wob_ETag ob = inf_ETag h \<and> wob_Retired ob = (meta_get (inf_Metadata h) ''cnpg-format'' = ''wal-retired-v1'') \<and>
     archive_seen S r items rest s2 s')"

lemma archive_slot_ob:
  "archive_slot S r key name h s = (Inr ob, s') \<Longrightarrow> wob_Name ob = name \<and> wob_ETag ob = inf_ETag h \<and>
     wob_Retired ob = (meta_get (inf_Metadata h) ''cnpg-format'' = ''wal-retired-v1'')"
  by (auto simp: archive_slot_def Let_def ok_runs split: if_splits)

lemma inventory_items_seen:
  "each_fold (inventory_item S r (\<lambda>ob f. lift (note_object r ob f))) items f s = (Inr f', s') \<Longrightarrow>
     \<exists>obs. archive_seen S r items obs s s' \<and> fold_res (note_object r) obs f = Inr f'"
proof (induction items arbitrary: f s)
  case (Cons i items)
  then obtain f1 s1 where a: "inventory_item S r (\<lambda>ob f. lift (note_object r ob f)) i f s = (Inr f1, s1)"
    and b: "each_fold (inventory_item S r (\<lambda>ob f. lift (note_object r ob f))) items f1 s1 = (Inr f', s')" by (auto simp: andthen_Inr)
  from Cons.IH[OF b] obtain rest where r: "archive_seen S r items rest s1 s'" "fold_res (note_object r) rest f1 = Inr f'" by blast
  from a obtain name h ob s2 where "WALKey r name = Inr (inf_Key i)" "st_Head S (inf_Key i) s = (Inr h, s2)"
    "archive_slot S r (inf_Key i) name h s2 = (Inr ob, s1)" "note_object r ob f = Inr f1"
    by (auto simp: inventory_item_def Let_def andthen_Inr fail_def lift_Inr split: if_splits)
  then show ?case using r archive_slot_ob by (intro exI[of _ "ob # rest"]) fastforce
qed (auto simp: ret_def)

text \<open>The timeline of an archive name, and the segments and objects kept in step.\<close>

definition name_timeline :: "repo \<Rightarrow> string \<Rightarrow> u32 \<Rightarrow> bool" where
  "name_timeline r name t \<longleftrightarrow> (\<exists>s. ArchivePosition (take 8 name @ ''0000000000000000'') (idn_WALSegmentBytes (rp_id r)) = Inr (t, s))"

definition segment_of :: "repo \<Rightarrow> Retention_Planner.segment \<Rightarrow> wal_object \<Rightarrow> bool" where
  "segment_of r seg ob \<longleftrightarrow> ArchivePosition (wob_Name ob) (idn_WALSegmentBytes (rp_id r)) = Inr (SegTimeline seg, SegStart seg) \<and>
     SegLive seg = (\<not> wob_Retired ob)"

abbreviation segment_objects :: "wal_object list \<Rightarrow> wal_object list" where
  "segment_objects \<equiv> filter (\<lambda>ob. length (wob_Name ob) = 24)"

definition history_of :: "repo \<Rightarrow> wal_object list \<Rightarrow> u32 \<Rightarrow> string \<Rightarrow> bool" where
  "history_of r obs t name \<longleftrightarrow> (\<exists>ob \<in> set obs. wob_Name ob = name \<and> has_suffix name ''.history'' \<and> name_timeline r name t)"

lemma note_objects:
  "fold_res (note_object r) obs f = Inr f' \<Longrightarrow> fa_Backups f' = fa_Backups f \<and> fa_hashes f' = fa_hashes f \<and>
     (\<exists>segs. fa_Segments f' = fa_Segments f @ segs \<and> list_all2 (segment_of r) segs (segment_objects obs)) \<and>
     fa_objects f' = fa_objects f @ segment_objects obs \<and>
     set (fa_timelines f') = set (fa_timelines f) \<union> {t. \<exists>ob \<in> set obs. name_timeline r (wob_Name ob) t} \<and>
     (\<forall>t name. fa_histories f' t = Some name \<longrightarrow> fa_histories f t = Some name \<or> history_of r obs t name)"
proof (induction obs arbitrary: f)
  case (Cons ob obs)
  then obtain f1 where n: "note_object r ob f = Inr f1" and f1: "fold_res (note_object r) obs f1 = Inr f'" by (auto simp: res_bind_Inr)
  from n obtain t s where t: "ArchivePosition (take 8 (wob_Name ob) @ ''0000000000000000'') (idn_WALSegmentBytes (rp_id r)) = Inr (t, s)"
    and up: "\<exists>u s'. ArchivePosition (wob_Name ob) (idn_WALSegmentBytes (rp_id r)) = Inr (u, s') \<and> length (wob_Name ob) = 24 \<and>
        f1 = f\<lparr>fa_budget := fa_budget f + 1024, fa_timelines := t # fa_timelines f,
          fa_Segments := fa_Segments f @ [\<lparr>SegTimeline = u, SegStart = s', SegLive = \<not> wob_Retired ob\<rparr>], fa_objects := fa_objects f @ [ob]\<rparr> \<or>
      length (wob_Name ob) \<noteq> 24 \<and> has_suffix (wob_Name ob) ''.history'' \<and>
        f1 = f\<lparr>fa_budget := fa_budget f + 1024, fa_timelines := t # fa_timelines f, fa_histories := (fa_histories f)(t \<mapsto> wob_Name ob)\<rparr> \<or>
      length (wob_Name ob) \<noteq> 24 \<and> f1 = f\<lparr>fa_budget := fa_budget f + 1024, fa_timelines := t # fa_timelines f\<rparr>"
    unfolding note_object_def reserve_def Let_def
    by (cases "length (wob_Name ob) = 24"; cases "has_suffix (wob_Name ob) ''.history''") (auto simp: res_bind_Inr split: if_splits)
  from up have a: "fa_Backups f1 = fa_Backups f" "fa_hashes f1 = fa_hashes f" "fa_timelines f1 = t # fa_timelines f"
      "fa_objects f1 = fa_objects f @ segment_objects [ob]"
      "\<exists>segs. fa_Segments f1 = fa_Segments f @ segs \<and> list_all2 (segment_of r) segs (segment_objects [ob])"
      "fa_histories f1 = fa_histories f \<or> fa_histories f1 = (fa_histories f)(t \<mapsto> wob_Name ob) \<and> has_suffix (wob_Name ob) ''.history''"
    by (auto simp: segment_of_def)
  have nt: "name_timeline r (wob_Name ob) t' \<longleftrightarrow> t' = t" for t' using t by (auto simp: name_timeline_def)
  note IH = Cons.IH[OF f1]
  from a(5) IH obtain segs segs' where "fa_Segments f1 = fa_Segments f @ segs" "list_all2 (segment_of r) segs (segment_objects [ob])"
    "fa_Segments f' = fa_Segments f1 @ segs'" "list_all2 (segment_of r) segs' (segment_objects obs)" by blast
  then have "fa_Segments f' = fa_Segments f @ (segs @ segs') \<and> list_all2 (segment_of r) (segs @ segs') (segment_objects (ob # obs))"
    using list_all2_appendI[of "segment_of r" segs "segment_objects [ob]" segs' "segment_objects obs"] by (simp split: if_splits)
  moreover have "fa_histories f u = Some name \<or> history_of r (ob # obs) u name" if "fa_histories f' u = Some name" for u name
  proof -
    have "fa_histories f1 u = Some name \<or> history_of r obs u name" using IH that by blast
    then show ?thesis using a(6) nt by (auto simp: history_of_def split: if_splits)
  qed
  ultimately show ?case using IH a(1-4) nt by auto
qed simp

text \<open>The timeline paths: timeline 1 has no history; any other one is parsed from the bytes that
  \<open>Retrieve\<close> returned for a history file of the inventory.\<close>

primrec paths_read :: "'w sys \<Rightarrow> repo \<Rightarrow> wal_files \<Rightarrow> wal_object list \<Rightarrow> u32 list \<Rightarrow> tnode list list \<Rightarrow> 'w \<Rightarrow> 'w \<Rightarrow> bool" where
  "paths_read S r files obs [] ps s s' \<longleftrightarrow> ps = [] \<and> s' = s"
| "paths_read S r files obs (t # ts) ps s s' \<longleftrightarrow> (\<exists>p rest s1. ps = p # rest \<and> paths_read S r files obs ts rest s1 s' \<and>
     (if t = 1 then p = [\<lparr>Node = 1, Fork = 0\<rparr>] \<and> s1 = s
      else \<exists>name sa sb itg b path. history_of r obs t name \<and> disk S s = (Inr (), sa) \<and> Retrieve S files name sa = (Inr (itg, b), sb) \<and>
        disk S sb = (Inr (), s1) \<and> ParseHistory t b = Inr path \<and> p = map convert_node path))"

lemma read_paths_read:
  assumes "\<And>t name. histories t = Some name \<Longrightarrow> history_of r obs t name"
    and "each_fold (\<lambda>tli ps. andthen (timeline_path S files histories tli) (\<lambda>p. ret (ps @ [p]))) ts ps s = (Inr ps', s')"
  shows "\<exists>new. ps' = ps @ new \<and> paths_read S r files obs ts new s s'"
  using assms(2)
proof (induction ts arbitrary: ps s)
  case (Cons t ts)
  from Cons.prems obtain p s1 where p: "timeline_path S files histories t s = (Inr p, s1)"
    and rest: "each_fold (\<lambda>tli ps. andthen (timeline_path S files histories tli) (\<lambda>p. ret (ps @ [p]))) ts (ps @ [p]) s1 = (Inr ps', s')"
    by (auto simp: andthen_Inr ok_ret)
  from Cons.IH[OF rest] obtain new where new: "ps' = ps @ p # new" "paths_read S r files obs ts new s1 s'" by auto
  from p have "if t = 1 then p = [\<lparr>Node = 1, Fork = 0\<rparr>] \<and> s1 = s
      else \<exists>name sa sb itg b path. history_of r obs t name \<and> disk S s = (Inr (), sa) \<and> Retrieve S files name sa = (Inr (itg, b), sb) \<and>
        disk S sb = (Inr (), s1) \<and> ParseHistory t b = Inr path \<and> p = map convert_node path"
    using assms(1) by (auto simp: timeline_path_def andthen_Inr lift_Inr ret_def fail_def split: if_splits option.splits) metis
  then show ?case using new by (intro exI[of _ "p # new"]) auto
qed (auto simp: ret_def)

text \<open>The inventory of a batch, from the answers of the store: the live entries of the catalog
  \<open>es\<close>, a segment for each listed object with a segment's name, live unless it is retired, and the
  path of timeline 1 and of every timeline that a live backup or a listed object is on.\<close>

definition surveyed :: "'w sys \<Rightarrow> repo \<Rightarrow> wal_files \<Rightarrow> gc_owner \<Rightarrow> 'w \<Rightarrow> 'w \<Rightarrow> entry list \<Rightarrow> wal_object list \<Rightarrow> inventory \<Rightarrow> bool" where
  "surveyed S r files g s s' es obs iv \<longleftrightarrow> (\<exists>s1 s2 s3 s4 s5 s6 f items ts.
     GC_check S r g s = (Inr (), s1) \<and>
     spoolCatalog S r \<lparr>lim_MaxRecords = MaxCatalogRecords, lim_MaxSpoolBytes = GCCatalogBytes\<rparr> s1 = (Inr es, s2) \<and>
     scanEntries S es (\<lambda>en f. lift (note_entry en f)) zero_facts s2 = (Inr f, s3) \<and>
     GC_check S r (g\<lparr>gco_catalog := Some es\<rparr>) s3 = (Inr (), s4) \<and>
     st_List S (rp_root r @ ''wal/'') MaxCatalogRecords s4 = ((items, None), s5) \<and>
     archive_seen S r items obs s5 s6 \<and>
     sorted ts \<and> distinct ts \<and>
     set ts = {1} \<union> Timeline ` set (live_backups es) \<union> {t. \<exists>ob \<in> set obs. name_timeline r (wob_Name ob) t} \<and>
     paths_read S r files obs ts (Paths iv) s6 s' \<and>
     Backups iv = live_backups es \<and> list_all2 (segment_of r) (Segments iv) (segment_objects obs) \<and>
     SegmentBytes iv = of_int (idn_WALSegmentBytes (rp_id r)))"

lemma inventories_surveyed:
  assumes "inventories S r files (w, g) = (Inr (f, iv), (w', g'))"
  shows "\<exists>es obs. surveyed S r files g w w' es obs iv \<and> g' = g\<lparr>gco_catalog := Some es\<rparr> \<and>
    fa_Segments f = Segments iv \<and> fa_objects f = segment_objects obs \<and> dom (fa_hashes f) = ID ` set (live_backups es) \<and>
    (\<forall>uid h. fa_hashes f uid = Some h \<longrightarrow> live_entry es uid h)"
proof -
  from assms obtain f0 es w1 w2 w3 w4 w6 paths where
    c1: "GC_check S r g w = (Inr (), w1)" and
    sp: "spoolCatalog S r \<lparr>lim_MaxRecords = MaxCatalogRecords, lim_MaxSpoolBytes = GCCatalogBytes\<rparr> w1 = (Inr es, w2)" and
    sc: "scanEntries S es (\<lambda>en f. lift (note_entry en f)) zero_facts w2 = (Inr f0, w3)" and
    c2: "GC_check S r (g\<lparr>gco_catalog := Some es\<rparr>) w3 = (Inr (), w4)" and
    ls: "list_with (st_List S (rp_root r @ ''wal/'') MaxCatalogRecords) (inventory_item S r (\<lambda>ob f. lift (note_object r ob f))) f0 w4 = (Inr f, w6)" and
    rp: "read_paths S files f w6 = (Inr paths, w')" and g': "g' = g\<lparr>gco_catalog := Some es\<rparr>" and
    iv: "iv = \<lparr>Backups = fa_Backups f, Paths = paths, Segments = fa_Segments f, SegmentBytes = of_int (idn_WALSegmentBytes (rp_id r))\<rparr>"
    by (auto simp: inventories_def GC_Inventory_def ArchiveInventory_def ok_simps)
  from ls obtain items w5 where l: "st_List S (rp_root r @ ''wal/'') MaxCatalogRecords w4 = ((items, None), w5)"
    and ef: "each_fold (inventory_item S r (\<lambda>ob f. lift (note_object r ob f))) items f0 w5 = (Inr f, w6)"
    by (auto simp: list_with_def andthen_Inr ret_def fail_def split: prod.splits option.splits)
  from inventory_items_seen[OF ef] obtain obs where obs: "archive_seen S r items obs w5 w6" "fold_res (note_object r) obs f0 = Inr f" by blast
  from sc have "fold_res note_entry es zero_facts = Inr f0" by (auto simp: scanEntries_def andthen_Inr dest: scan_loop_fold)
  note ne = note_entries[OF this, unfolded zero_facts_def, simplified] and no = note_objects[OF obs(2)]
  have hist: "history_of r obs t name" if "fa_histories f t = Some name" for t name using ne no that by auto
  from read_paths_read[OF hist rp[unfolded read_paths_def]]
  have pr: "paths_read S r files obs (sort (remdups (fa_timelines f))) paths w6 w'" by auto
  have ts: "set (sort (remdups (fa_timelines f))) = {1} \<union> Timeline ` set (live_backups es) \<union> {t. \<exists>ob \<in> set obs. name_timeline r (wob_Name ob) t}"
    using ne no by auto
  have iv': "Backups iv = live_backups es" "list_all2 (segment_of r) (Segments iv) (segment_objects obs)" using ne no by (auto simp: iv)
  have "surveyed S r files g w w' es obs iv"
    unfolding surveyed_def
    by (intro exI[of _ w1] exI[of _ w2] exI[of _ w3] exI[of _ w4] exI[of _ w5] exI[of _ w6] exI[of _ f0] exI[of _ items]
        exI[of _ "sort (remdups (fa_timelines f))"] conjI c1 sp sc c2 l obs(1) ts iv') (simp_all add: iv pr)
  moreover have "fa_Segments f = Segments iv" "fa_objects f = segment_objects obs" "dom (fa_hashes f) = ID ` set (live_backups es)"
    "\<forall>uid h. fa_hashes f uid = Some h \<longrightarrow> live_entry es uid h" using ne no by (auto simp: iv)
  ultimately show ?thesis using g' by blast
qed

section \<open>Cleanup\<close>

text \<open>Cleanup only deletes and aborts, and only what it confirmed to be abandoned on the way from
  \<open>s\<close> to \<open>s'\<close>.\<close>

definition confirmed_between :: "'w sys \<Rightarrow> repo \<Rightarrow> 'w \<times> event list \<Rightarrow> 'w \<times> event list \<Rightarrow> victim \<Rightarrow> bool" where
  "confirmed_between S r s s' v \<longleftrightarrow> (\<exists>s1 s2 before after. payload_confirmed (traced S) r [] v s1 s2 \<and>
     wtrace s1 = wtrace s @ before \<and> wtrace s' = wtrace s2 @ after)"

definition found :: "'w sys \<Rightarrow> repo \<Rightarrow> 'w \<times> event list \<Rightarrow> victim list \<Rightarrow> 'w \<times> event list \<Rightarrow> bool" where
  "found S r s0 vs s \<longleftrightarrow> (\<exists>ev. wtrace s = wtrace s0 @ ev) \<and> list_all (\<lambda>v. payload_kind v \<and> confirmed_between S r s0 s v) vs"

lemma found_later: "found S r s0 vs s \<Longrightarrow> wtrace s' = wtrace s @ ev \<Longrightarrow> found S r s0 vs s'"
  unfolding found_def list_all_iff confirmed_between_def by (metis append.assoc)

lemma found_emits: "wt.emits A m \<Longrightarrow> m s = (x, s') \<Longrightarrow> found S r s0 vs s \<Longrightarrow> found S r s0 vs s'"
  by (meson found_later wt.emitsD)

lemma each_fold_keeps:
  assumes "\<And>x u s u' s'. I u s \<Longrightarrow> h x u s = (Inr u', s') \<Longrightarrow> I u' s'"
  shows "I u s \<Longrightarrow> each_fold h xs u s = (Inr u', s') \<Longrightarrow> I u' s'"
proof (induction xs arbitrary: u s)
  case (Cons x xs)
  then show ?case using assms by (fastforce simp: andthen_Inr)
qed (simp add: ret_def)

lemma payload_victim_kind: "payload_victim parts uid att hash = Some v \<Longrightarrow> vic_Kind v = ''delete-manifest'' \<or> vic_Kind v = ''delete-artifact''"
  by (auto simp: payload_victim_def Let_def split: if_splits option.splits)

lemma upload_victim_kind: "vic_Kind v = ''delete-manifest'' \<or> vic_Kind v = ''delete-artifact'' \<Longrightarrow> payload_kind (upload_victim u v)"
  by (auto simp: upload_victim_def payload_kind_def)

lemma cleanup_candidate_found:
  assumes run: "cleanup_candidate (traced S) r limit key u vs s = (Inr vs', s')" and "found S r s0 vs s"
  shows "found S r s0 vs' s'"
proof -
  obtain uid y where k: "catalogKey r key = Some (uid, y)" using run by (auto simp: cleanup_candidate_def ok_runs)
  let ?att = "backup_parts r key ! 2"
  obtain yes s1 s2 where s1: "validateListedMetadata (traced S) r key s = (Inr (), s1)"
    and s2: "cleanup_eligible (traced S) r uid ?att s1 = (Inr yes, s2)"
    using run by (auto simp: cleanup_candidate_def k ok_runs Let_def split: if_splits)
  have "wt.emits is_read (cleanup_eligible (traced S) r uid ?att)"
    unfolding cleanup_eligible_def by (auto intro!: emits_intros split: prod.splits sum.splits)
  note el = this
  have "found S r s0 vs s1" by (rule found_emits[OF reads_validateListedMetadata s1 assms(2)])
  then have f2: "found S r s0 vs s2" by (rule found_emits[OF el s2])
  show ?thesis
  proof (cases yes)
    case False
    then show ?thesis using run s1 s2 f2 by (auto simp: cleanup_candidate_def k Let_def ok_runs split: if_splits)
  next
    case True
    then obtain cl v0 s3 where cl: "readClaim (traced S) r uid ?att s2 = (Inr cl, s3)"
      and v0: "payload_victim (backup_parts r key) uid ?att (clm_RequestSHA256 cl) = Some v0"
      and vv: "validateVictim (traced S) r (upload_victim u v0) [] s3 = (Inr (), s')"
      and vs': "vs' = (if int (length vs) < limit then vs @ [upload_victim u v0] else vs)"
      using run s1 s2 by (auto simp: cleanup_candidate_def k Let_def ok_runs split: if_splits)
    have f3: "found S r s0 vs s3" by (rule found_emits[OF reads_readClaim cl f2])
    have pk: "payload_kind (upload_victim u v0)" by (rule upload_victim_kind[OF payload_victim_kind[OF v0]])
    then have "payload_confirmed (traced S) r [] (upload_victim u v0) s3 s'"
      using validateVictim_Inr[OF vv] by (auto simp: victim_valid_def payload_kind_def)
    moreover obtain ev where "wtrace s3 = wtrace s0 @ ev" using f3 by (auto simp: found_def)
    ultimately have "confirmed_between S r s0 s' (upload_victim u v0)"
      unfolding confirmed_between_def by (intro exI[of _ s3] exI[of _ s'] exI[of _ ev] exI[of _ "[]"]) simp
    then show ?thesis using found_emits[OF reads_validateVictim vv f3] vs' pk by (simp add: found_def)
  qed
qed

lemma list_with_keeps:
  assumes "\<And>x u s u' s'. I u s \<Longrightarrow> h x u s = (Inr u', s') \<Longrightarrow> I u' s'" "\<And>y s1. l s = (y, s1) \<Longrightarrow> I u s1"
    and "list_with l h u s = (Inr u', s')"
  shows "I u' s'"
proof -
  from assms(3) obtain items e s1 where l: "l s = ((items, e), s1)" and "each_fold h items u s1 = (Inr u', s')"
    by (auto simp: list_with_def andthen_Inr ret_def fail_def split: prod.splits option.splits)
  then show ?thesis using each_fold_keeps[where I = I and h = h and xs = items] assms(1) assms(2)[OF l] by metis
qed

lemma found_listed:
  "found S r s0 vs s \<Longrightarrow> st_List (traced S) p n s = (y, s1) \<Longrightarrow> found S r s0 vs s1"
  "found S r s0 vs s \<Longrightarrow> st_ListUploads (traced S) p n s = (z, s1) \<Longrightarrow> found S r s0 vs s1"
  by (cases s; auto simp: traced_def split: prod.splits intro: found_later)+

lemma Cleanup_found:
  assumes "Cleanup (traced S) r g limit s = (Inr vs, s')"
  shows "found S r s vs s'"
proof -
  from assms obtain s1 s2 vs1 where
    c: "GC_check (traced S) r g s = (Inr (), s1)" and
    l: "list_with (st_List (traced S) (rp_root r @ ''backups/'') MaxCatalogRecords) (\<lambda>i vs.
         if catalogKey r (inf_Key i) = None then fail ErrCorrupt
         else if has_suffix (inf_Key i) ''/manifest.pg.json'' \<or> str_contains (inf_Key i) ''/data/'' then
           cleanup_candidate (traced S) r limit (inf_Key i) [] vs
         else ret vs) [] s1 = (Inr vs1, s2)" and
    u: "list_with (st_ListUploads (traced S) (rp_root r @ ''backups/'') MaxCatalogRecords) (\<lambda>u vs.
         if \<not> validText (upl_ID u) 2048 then fail ErrCorrupt else cleanup_candidate (traced S) r limit (upl_Key u) (upl_ID u) vs) vs1 s2 = (Inr vs, s')"
    by (auto simp: Cleanup_def andthen_Inr fail_def split: if_splits)
  have "found S r s [] s" by (simp add: found_def)
  then have "found S r s [] s1" by (rule found_emits[OF reads_GC_check c])
  then have "found S r s vs1 s2"
    by (intro list_with_keeps[of "found S r s", OF _ _ l])
      (auto simp: fail_def ret_def split: if_splits intro: found_listed(1) dest: cleanup_candidate_found)
  then show ?thesis
    by (intro list_with_keeps[of "found S r s", OF _ _ u])
      (auto simp: fail_def split: if_splits intro: found_listed(2) dest: cleanup_candidate_found)
qed

section \<open>From the inventories to the victims\<close>

text \<open>What a victim may destroy: a live catalog entry that the decision does not keep, under its
  commit's digest; a live archive object, under its ETag, at a position that no kept backup needs on
  any timeline path; or a payload that was confirmed to be abandoned.\<close>

definition victim_unneeded :: "'w sys \<Rightarrow> repo \<Rightarrow> entry list \<Rightarrow> wal_object list \<Rightarrow> inventory \<Rightarrow> decision \<Rightarrow>
    'w \<times> event list \<Rightarrow> 'w \<times> event list \<Rightarrow> victim \<Rightarrow> bool" where
  "victim_unneeded S r es obs iv d s s' v \<longleftrightarrow>
     (if vic_Kind v = ''retire-backup'' then
        (\<exists>uid. vic_BackupUID v = Some uid \<and> Keep d uid = None \<and> live_entry es uid (vic_SHA256 v))
      else if vic_Kind v = ''retire-wal'' then
        (\<exists>ob \<in> set obs. \<exists>t start. vic_WALName v = Some (wob_Name ob) \<and> vic_ExpectedETag v = Some (wob_ETag ob) \<and>
           vic_SHA256 v = wob_SHA256 ob \<and> vic_RawBytes v = wob_RawBytes ob \<and> length (wob_Name ob) = 24 \<and> \<not> wob_Retired ob \<and>
           ArchivePosition (wob_Name ob) (idn_WALSegmentBytes (rp_id r)) = Inr (t, start) \<and>
           (\<forall>b \<in> set (Backups iv). \<forall>path \<in> set (Paths iv). Keep d (ID b) \<noteq> None \<and> reachable b path \<longrightarrow> (t, start) \<notin> replay_needs iv b path))
      else confirmed_between S r s s' v)"

lemma decide_cases:
  assumes "decide iv now o' = Inr d"
  shows "Backups iv = [] \<and> Expire d = [] \<and> WALFloor d = 0 \<or> Retention_Planner.Plan iv (now - opt_Window o') (opt_MinimumFulls o') (opt_FirstRequired o') = Inr d"
  using assms by (auto simp: decide_def zero_decision_def split: if_splits sum.splits)

lemma expired_backup:
  assumes "decide iv now o' = Inr d" "Backups iv = live_backups es" "uid \<in> set (Expire d)"
    and "dom (fa_hashes f) = ID ` set (live_backups es)" "\<forall>uid h. fa_hashes f uid = Some h \<longrightarrow> live_entry es uid h"
  shows "Keep d uid = None \<and> live_entry es uid (vic_SHA256 (backup_victim (fa_hashes f) uid))"
proof -
  have "Keep d uid = None \<and> uid \<in> dom (fa_hashes f)" using decide_cases[OF assms(1)] expired_in_order assms(2,3,4) by fastforce
  then show ?thesis using assms(5) by (auto simp: backup_victim_def)
qed

lemma retirable_unneeded:
  assumes "decide iv now o' = Inr d" "seg \<in> set (Segments iv)" "retirable d seg"
    and "b \<in> set (Backups iv)" "path \<in> set (Paths iv)" "Keep d (ID b) \<noteq> None" "reachable b path"
  shows "(SegTimeline seg, SegStart seg) \<notin> replay_needs iv b path"
proof
  assume n: "(SegTimeline seg, SegStart seg) \<in> replay_needs iv b path"
  have "Retention_Planner.Plan iv (now - opt_Window o') (opt_MinimumFulls o') (opt_FirstRequired o') = Inr d"
    using decide_cases[OF assms(1)] assms(4) by auto
  from kept_replay_live[OF this assms(4,6,5,7) n] assms(3) show False by (auto simp: retirable_def)
qed

lemma assemble_unneeded:
  assumes d: "decide iv now o' = Inr d" and bs: "Backups iv = live_backups es"
    and segs: "fa_Segments f = Segments iv" "fa_objects f = segment_objects obs" "list_all2 (segment_of r) (Segments iv) (segment_objects obs)"
    and hs: "dom (fa_hashes f) = ID ` set (live_backups es)" "\<forall>uid h. fa_hashes f uid = Some h \<longrightarrow> live_entry es uid h"
    and cl: "list_all (\<lambda>v. payload_kind v \<and> confirmed_between S r s s' v) cleanup"
  shows "list_all (victim_unneeded S r es obs iv d s s') (assemble f d cleanup)"
  unfolding list_all_iff
proof
  fix v assume v: "v \<in> set (assemble f d cleanup)"
  then consider (backup) uid where "uid \<in> set (Expire d)" "v = backup_victim (fa_hashes f) uid"
    | (payload) "payload_kind v" "confirmed_between S r s s' v"
    | (wal) seg ob where "(seg, ob) \<in> set (zip (fa_Segments f) (fa_objects f))" "retirable d seg" "v = segment_victim ob"
    using cl by (rule_tac assemble_parts[of f d cleanup]) (fastforce simp: list_all_iff dest!: in_set_takeD)
  then show "victim_unneeded S r es obs iv d s s' v"
  proof cases
    case backup
    then show ?thesis using expired_backup[OF d bs _ hs] by (simp add: victim_unneeded_def)
  next
    case payload
    then show ?thesis by (simp add: payload_kind_def victim_unneeded_def)
  next
    case wal
    have so: "segment_of r seg ob" using wal(1) segs unfolding list_all2_iff by fastforce
    have mem: "seg \<in> set (Segments iv)" "ob \<in> set obs" "length (wob_Name ob) = 24"
      using wal(1) segs(1,2) by (auto dest: set_zip_leftD set_zip_rightD)
    have "\<not> wob_Retired ob" using wal(2) so by (simp add: retirable_def segment_of_def)
    then show ?thesis using wal(3) so mem retirable_unneeded[OF d mem(1) wal(2)]
      by (auto simp: victim_unneeded_def segment_of_def segment_victim_def intro!: bexI[of _ ob])
  qed
qed

lemma live_child_before:
  assumes "decide iv now o' = Inr d" "Backups iv = live_backups es" "Expire d = xs @ u # ys"
    and "en \<in> set es" "\<not> ent_Retired en" "cmt_ParentBackupUID (ent_Commit en) = Some u"
  shows "cmt_BackupUID (ent_Commit en) \<in> set xs"
proof -
  let ?c = "backup_of (ent_Commit en)"
  have "?c \<in> set (Backups iv)" "Parent ?c = u" "ID ?c = cmt_BackupUID (ent_Commit en)"
    using assms(2,4-6) by (auto simp: live_backups_def backup_of_def deref_def)
  moreover from this(1) assms(1) have "Retention_Planner.Plan iv (now - opt_Window o') (opt_MinimumFulls o') (opt_FirstRequired o') = Inr d"
    using decide_cases by fastforce
  from expired_in_order[OF this] have "\<And>c. c \<in> set (Backups iv) \<Longrightarrow> Parent c = u \<Longrightarrow> ID c \<in> set xs" using assms(3) by blast
  ultimately show ?thesis by metis
qed

lemma plan_victims_safe:
  assumes "plan_victims (traced S) r files now o' ((s, g), x) = (Inr vs, ((s', g'), x'))"
  shows "\<exists>es obs iv s1. surveyed (traced S) r files g s s1 es obs iv \<and> g' = g\<lparr>gco_catalog := Some es\<rparr> \<and>
    decide iv now o' = Inr (rr_Decision x') \<and> length vs \<le> 128 \<and> victims_ordered es vs \<and>
    list_all (victim_unneeded S r es obs iv (rr_Decision x') s1 s') vs"
proof -
  from assms obtain f iv cleanup s1 where
    inv: "inventories (traced S) r files (s, g) = (Inr (f, iv), (s1, g'))" and d: "decide iv now o' = Inr (rr_Decision x')" and
    cl: "Cleanup (traced S) r g' 128 s1 = (Inr cleanup, s')" and vs: "vs = assemble f (rr_Decision x') cleanup"
    by (auto simp: plan_victims_def set_result_def ok_simps Let_def)
  from inventories_surveyed[OF inv] obtain es obs where sv: "surveyed (traced S) r files g s s1 es obs iv" and
    p: "g' = g\<lparr>gco_catalog := Some es\<rparr>" "fa_Segments f = Segments iv" "fa_objects f = segment_objects obs"
    "dom (fa_hashes f) = ID ` set (live_backups es)" "\<forall>uid h. fa_hashes f uid = Some h \<longrightarrow> live_entry es uid h" by blast
  have q: "Backups iv = live_backups es" "list_all2 (segment_of r) (Segments iv) (segment_objects obs)" using sv by (auto simp: surveyed_def)
  have c: "list_all (\<lambda>v. payload_kind v \<and> confirmed_between S r s1 s' v) cleanup" using Cleanup_found[OF cl] by (simp add: found_def)
  then have "list_all payload_kind cleanup" by (simp add: list_all_iff)
  then have "victims_ordered es vs" unfolding vs by (rule assemble_ordered[rotated]) (rule live_child_before[OF d q(1)])
  moreover have "length vs \<le> 128" unfolding vs by (rule assemble_parts[of f "rr_Decision x'" cleanup])
  moreover have "list_all (victim_unneeded S r es obs iv (rr_Decision x') s1 s') vs"
    unfolding vs by (rule assemble_unneeded[OF d q(1) p(2,3) q(2) p(4,5) c])
  ultimately show ?thesis using sv p(1) d by blast
qed

section \<open>The calls of a batch\<close>

text \<open>Reads, and writes of the gate.\<close>

definition gate_call :: "repo \<Rightarrow> event \<Rightarrow> bool" where
  "gate_call r ev \<longleftrightarrow> is_read ev \<or> (\<exists>b c e. ev = EvPut (gate_key r) b c e)"

abbreviation btrace :: "(('w \<times> event list) \<times> 'r) \<times> 'q \<Rightarrow> event list" where
  "btrace \<equiv> (\<lambda>s. snd (fst (fst s)))"

interpretation bt: recorder btrace .

lemma gate_call_read: "wt.emits is_read m \<Longrightarrow> wt.emits (gate_call r) m"
  by (erule wt.emits_mono) (simp add: gate_call_def)

lemma gate_call_readh: "ht.emits is_read m \<Longrightarrow> ht.emits (gate_call r) m"
  by (erule ht.emits_mono) (simp add: gate_call_def)

lemma gate_put: "wt.emits (gate_call r) (put (traced S) (gate_key r) b c m)"
  by (rule emits_put) (simp add: gate_call_def)

lemma gate_change_rounds: "wt.emits (gate_call r) (change_rounds n barrier (traced S) r change)"
proof (induction n arbitrary: barrier)
  case (Suc n)
  then show ?case
    by (auto intro!: wt.emits_andthen wt.emits_attempt gate_put gate_call_read[OF reads_readGate] emits_new_UUID wt.emits_lift
        wt.emits_ret wt.emits_fail split: option.splits prod.splits sum.splits)
qed (simp add: wt.emits_fail)

lemma gate_AcquireGC: "wt.emits (gate_call r) (AcquireGC (traced S) r nb)"
  unfolding AcquireGC_def changeGate_def Let_def
  by (auto intro!: wt.emits_andthen gate_change_rounds emits_safety emits_now_of emits_sleep emits_new_UUID wt.emits_ret)

lemma gate_GC_Close:
  assumes "GC_Close (traced S) r g (w, tr) = (x, (w', tr'))"
  shows "\<exists>ev. tr' = tr @ ev \<and> list_all (gate_call r) ev"
proof -
  have e: "wt.emits (gate_call r) (andthen (changeGate (traced S) r (release_change (gco_owner g))) (\<lambda>_. os_sleep (traced S) 1000000000))"
    unfolding changeGate_def by (intro wt.emits_andthen gate_change_rounds emits_sleep)
  obtain now w1 where n: "os_now S w = (now, w1)" by (metis prod.exhaust)
  obtain res w2 tr2 where r: "andthen (changeGate (traced S) r (release_change (gco_owner g))) (\<lambda>_. os_sleep (traced S) 1000000000) (w1, tr) = (res, (w2, tr2))"
    by (metis prod.exhaust)
  have "os_now (traced S) (w, tr) = (now, (w1, tr))" using n by (simp add: traced_def pass_def)
  then show ?thesis using assms r wt.emitsD[OF e r] by (auto simp: GC_Close_def Let_def split: if_splits)
qed

lemma reads_list_uploads:
  assumes "\<And>i v. wt.emits A (f i v)" "A (EvList p)"
  shows "wt.emits A (list_with (st_ListUploads (traced S) p n) f v)"
proof (rule wt.emitsI)
  fix s res s' assume run: "list_with (st_ListUploads (traced S) p n) f v s = (res, s')"
  obtain w tr where s: "s = (w, tr)" by (cases s)
  obtain items e w1 where l: "st_ListUploads S p n w = ((items, e), w1)" by (metis prod.exhaust)
  have "wt.emits A (andthen (each_fold f items v) (\<lambda>v. case e of None \<Rightarrow> ret v | Some e \<Rightarrow> fail e))"
    by (intro wt.emits_andthen wt.emits_each_fold assms) (auto intro: wt.emits_rules split: option.split)
  moreover have "andthen (each_fold f items v) (\<lambda>v. case e of None \<Rightarrow> ret v | Some e \<Rightarrow> fail e) (w1, tr @ [EvList p]) = (res, s')"
    using run by (simp add: list_with_def traced_def s l)
  ultimately obtain ev where "snd s' = tr @ [EvList p] @ ev" "list_all A ev" using wt.emitsD by fastforce
  then show "\<exists>ev. snd s' = snd s @ ev \<and> list_all A ev" using assms(2) by (intro exI[of _ "[EvList p] @ ev"]) (simp add: s)
qed

lemma reads_cleanup_candidate: "wt.emits is_read (cleanup_candidate (traced S) r l key u vs)"
  unfolding cleanup_candidate_def cleanup_eligible_def Let_def
  by (auto intro!: emits_intros split: option.splits prod.splits sum.splits)

lemma reads_Cleanup: "wt.emits is_read (Cleanup (traced S) r g l)"
  unfolding Cleanup_def by (auto intro!: emits_intros reads_list_uploads reads_cleanup_candidate)

lemma reads_ArchiveInventory: "(\<And>ob f. wt.emits is_read (visit ob f)) \<Longrightarrow> wt.emits is_read (ArchiveInventory (traced S) r g visit f)"
  unfolding ArchiveInventory_def inventory_item_def archive_slot_def Let_def
  by (auto intro!: emits_intros split: option.splits prod.splits sum.splits)

lemma reads_Retrieve: "wt.emits is_read (Retrieve (traced S) w name)"
  unfolding Retrieve_def DownloadWAL_def
  by (auto intro!: emits_intros emits_local_io emits_unpack split: prod.splits sum.splits)

lemma reads_read_paths: "wt.emits is_read (read_paths (traced S) files f)"
  unfolding read_paths_def timeline_path_def
  by (auto intro!: emits_intros reads_Retrieve split: option.splits prod.splits)

lemma reads_inventories: "ht.emits is_read (inventories (traced S) r files)"
  unfolding inventories_def GC_Inventory_def
  by (auto intro!: emits_intros reads_ArchiveInventory reads_read_paths)

lemma bt_on_world: "ht.emits A m \<Longrightarrow> bt.emits A (on_world m)"
  by (rule bt.emitsI) (auto simp: on_world_def dest: ht.emitsD split: prod.splits)

lemma bt_set_result: "bt.emits A (set_result f)"
  by (rule bt.emitsI) (auto simp: set_result_def upd_side_def)

lemma reads_plan_victims: "bt.emits is_read (plan_victims (traced S) r files now o')"
  unfolding plan_victims_def Let_def
  by (auto intro!: bt.emits_rules bt_on_world bt_set_result reads_inventories emits_get_side emits_on_world reads_Cleanup split: prod.splits)

lemma dry_run_batch: "opt_DryRun o' \<Longrightarrow> bt.emits is_read (run_batch (traced S) r files now o')"
  unfolding run_batch_def by (auto intro!: bt.emits_rules reads_plan_victims)

lemma dry_Run_log:
  assumes "opt_DryRun o'" "Run (traced S) (Some r) nb files now o' (w, tr) = (res, (w', tr'))"
  shows "\<exists>ev. tr' = tr @ ev \<and> list_all (gate_call r) ev"
proof (cases "opt_Enabled o' \<and> options_ok o'")
  case False
  then show ?thesis using assms(2) by (auto simp: Run_def split: if_splits)
next
  case True
  obtain a w1 tr1 where a: "AcquireGC (traced S) r nb (w, tr) = (a, (w1, tr1))" by (metis prod.exhaust)
  from wt.emitsD[OF gate_AcquireGC a] obtain e1 where e1: "tr1 = tr @ e1" "list_all (gate_call r) e1" by auto
  show ?thesis
  proof (cases a)
    case (Inl e)
    then show ?thesis using assms(2) True a e1 by (auto simp: Run_def)
  next
    case (Inr g)
    obtain e w2 tr2 g2 rs where b: "run_batch (traced S) r files now o' (((w1, tr1), g), zero_result\<lparr>rr_OperationID := own_OperationID (gco_owner g)\<rparr>) =
      (e, (((w2, tr2), g2), rs))" by (metis prod.exhaust)
    from bt.emitsD[OF dry_run_batch[OF assms(1)] b] obtain e2 where e2: "tr2 = tr1 @ e2" "list_all is_read e2" by auto
    obtain c w3 tr3 where c: "GC_Close (traced S) r g2 (w2, tr2) = (c, (w3, tr3))" by (metis prod.exhaust)
    from gate_GC_Close[OF c] obtain e3 where e3: "tr3 = tr2 @ e3" "list_all (gate_call r) e3" by auto
    have "tr' = tr3" using assms(2) True a Inr b c by (auto simp: Run_def split: prod.splits)
    moreover have "list_all (gate_call r) e2" using e2(2) by (auto simp: list_all_iff gate_call_def)
    ultimately show ?thesis using e1 e2 e3 by (intro exI[of _ "e1 @ e2 @ e3"]) auto
  qed
qed

end
