(* ===== verification/Retention_Run_Properties.thy ===== *)
theory Retention_Run_Properties
  imports Retention_Order Wal_Properties
begin

text \<open>The properties of a retention batch, across the planner, the inventories and the collection.\<close>

section \<open>A batch with an abandoned upload\<close>

text \<open>The catalog is empty, the archive holds one segment, and one claimed attempt has left an upload
  of its manifest behind.\<close>

definition batch_request :: request where
  "batch_request = att_request stub_attempt"

definition batch_claim :: claim where
  "batch_claim = (att_claim stub_attempt)\<lparr>clm_RequestSHA256 := digest (render (enc_Request batch_request))\<rparr>"

abbreviation batch_uid :: string where
  "batch_uid \<equiv> ''10000000-0000-4000-8000-000000000001''"

abbreviation batch_att :: string where
  "batch_att \<equiv> ''20000000-0000-4000-8000-000000000002''"

abbreviation batch_wal :: string where
  "batch_wal \<equiv> ''000000010000000000000001''"

definition batch_key :: string where
  "batch_key = attempt_key example_repo batch_uid batch_att @ ''manifest.pg.json''"

definition batch_slot :: info where
  "batch_slot = \<lparr>inf_Key = rp_root example_repo @ ''wal/00000001/000000010000000000000001'', inf_ETag = ''e'', inf_Size = idn_WALSegmentBytes example_identity,
     inf_Modified = 0, inf_Metadata = inf_Metadata wal_info @ [(''cnpg-stored-sha256'', example_hash), (''cnpg-compression'', ''none'')]\<rparr>"

definition batch_sys :: "unit sys" where
  "batch_sys = (stub_sys (Inl ErrInvalid))\<lparr>
     st_Head := (\<lambda>k w. (Inr batch_slot, w)),
     st_Read := (\<lambda>k n w. (if k = gate_key example_repo then Inr (render (enc_Gate owned_gate), example_info)
       else if k = attempt_key example_repo batch_uid batch_att @ ''claim.json'' then Inr (render (enc_Claim batch_claim), example_info)
       else if k = backup_key example_repo batch_uid @ ''request.json'' then Inr (render (enc_Request batch_request), example_info)
       else Inl (S3Error NotFound False), w)),
     st_List := (\<lambda>p n w. ((if p = rp_root example_repo @ ''wal/'' then [batch_slot] else [], None), w)),
     st_ListUploads := (\<lambda>p n w. (([\<lparr>upl_Key = batch_key, upl_ID = ''u1''\<rparr>], None), w))\<rparr>"

definition batch_options :: options where
  "batch_options = \<lparr>opt_Enabled = True, opt_DryRun = True, opt_Window = 3600000000000, opt_MinimumFulls = 1, opt_FirstRequired = None\<rparr>"

abbreviation batch_owner :: gc_owner where
  "batch_owner \<equiv> example_gc\<lparr>gco_catalog := None\<rparr>"

definition batch_victim :: victim where
  "batch_victim = \<lparr>vic_Kind = ''abort-manifest'', vic_BackupUID = Some batch_uid, vic_AttemptID = Some batch_att, vic_Index = None, vic_Compression = None,
     vic_UploadID = Some ''u1'', vic_WALName = None, vic_ExpectedETag = None, vic_SHA256 = digest (render (enc_Request batch_request)), vic_RawBytes = 0\<rparr>"

lemma batch_calls:
  "st_Head (traced batch_sys) k (w, tr) = (Inr batch_slot, (w, tr @ [EvHead k]))"
  "st_List (traced batch_sys) p n (w, tr) = ((if p = rp_root example_repo @ ''wal/'' then [batch_slot] else [], None), (w, tr @ [EvList p]))"
  "st_ListUploads (traced batch_sys) p n (w, tr) = (([\<lparr>upl_Key = batch_key, upl_ID = ''u1''\<rparr>], None), (w, tr @ [EvList p]))"
  "disk (traced batch_sys) s = (Inr (), s)" "ctx_err (traced batch_sys) s = (Inr (), s)"
  by (cases s; simp add: traced_def batch_sys_def stub_sys_def logged_def disk_def ctx_err_def pass_def)+

lemma batch_reads:
  "st_Read (traced batch_sys) (gate_key example_repo) n (w, tr) = (Inr (render (enc_Gate owned_gate), example_info), (w, tr @ [EvRead (gate_key example_repo)]))"
  "st_Read (traced batch_sys) (attempt_key example_repo batch_uid batch_att @ ''claim.json'') n (w, tr) =
     (Inr (render (enc_Claim batch_claim), example_info), (w, tr @ [EvRead (attempt_key example_repo batch_uid batch_att @ ''claim.json'')]))"
  "st_Read (traced batch_sys) (backup_key example_repo batch_uid @ ''request.json'') n (w, tr) =
     (Inr (render (enc_Request batch_request), example_info), (w, tr @ [EvRead (backup_key example_repo batch_uid @ ''request.json'')]))"
  "st_Read (traced batch_sys) (backup_key example_repo batch_uid @ ''commit.json'') n (w, tr) =
     (Inl (S3Error NotFound False), (w, tr @ [EvRead (backup_key example_repo batch_uid @ ''commit.json'')]))"
  by (simp_all add: traced_def batch_sys_def logged_def gate_key_def backup_key_def attempt_key_def)

lemma batch_check: "gco_owner g = example_owner \<Longrightarrow> \<not> gco_closed g \<Longrightarrow> \<not> gco_uncertain g \<Longrightarrow>
    GC_check (traced batch_sys) example_repo g (w, tr) = (Inr (), (w, tr @ [EvRead (gate_key example_repo)]))"
  using gc_gate by (simp add: GC_check_def readGate_def act_run batch_calls batch_reads)

lemma batch_documents:
  "strict Request_type dec_Request (render (enc_Request batch_request)) smallLimit = Inr batch_request"
  "Request_validate batch_request example_identity = Inr ()"
  by code_simp+

lemma batch_claim_strict: "strict Claim_type dec_Claim (render (enc_Claim batch_claim)) smallLimit = Inr batch_claim"
proof (rule claim_doc.strict_marshal)
  have "utf8_valid (digest b)" for b using hashRE_digest[of b] by (auto intro: printable_intros)
  then show "json_ok (enc_Claim batch_claim)"
    by (simp add: enc_Claim_def batch_claim_def stub_attempt_def) code_simp
  have "render_bound (enc_int 1) \<le> 5" by code_simp
  then have "render_bound (enc_Claim batch_claim) \<le> smallLimit"
    by (simp add: enc_Claim_def batch_claim_def stub_attempt_def smallLimit_def)
  then show "int (length (render (enc_Claim batch_claim))) \<le> smallLimit" using length_render order_trans by blast
qed

lemma batch_readClaim: "readClaim (traced batch_sys) example_repo batch_uid batch_att (w, tr) =
    (Inr batch_claim, (w, tr @ [EvRead (attempt_key example_repo batch_uid batch_att @ ''claim.json'')]))"
proof -
  have "validID batch_uid" "validID batch_att" "validID (clm_ProcessID (att_claim stub_attempt))" by code_simp+
  moreover have "clm_Schema batch_claim = 1" "clm_BackupUID batch_claim = batch_uid" "clm_ProcessID batch_claim = clm_ProcessID (att_claim stub_attempt)"
    "clm_AttemptID batch_claim = batch_att" "clm_RepositoryID batch_claim = idn_RepositoryID example_identity" "hashRE (clm_RequestSHA256 batch_claim)"
    by (simp_all add: batch_claim_def stub_attempt_def example_identity_def)
  ultimately show ?thesis by (simp add: readClaim_def act_run batch_reads batch_claim_strict)
qed

lemma batch_candidate:
  "cleanup_candidate (traced batch_sys) example_repo 128 batch_key ''u1'' [] ((), tr) = (Inr [batch_victim], ((), tr @ map EvRead
     [attempt_key example_repo batch_uid batch_att @ ''claim.json'', backup_key example_repo batch_uid @ ''request.json'',
      backup_key example_repo batch_uid @ ''commit.json'', attempt_key example_repo batch_uid batch_att @ ''claim.json'',
      backup_key example_repo batch_uid @ ''commit.json'', attempt_key example_repo batch_uid batch_att @ ''claim.json'']))"
proof -
  have p: "backup_parts example_repo batch_key = [batch_uid, ''attempts'', batch_att, ''manifest.pg.json'']"
    "catalogKey example_repo batch_key = Some (batch_uid, ''attempt'')" "validID batch_uid" "validID batch_att" "validText ''u1'' 2048" by code_simp+
  have rc: "readCommit (traced batch_sys) example_repo batch_uid (w, tr) =
      (Inl (S3Error NotFound False), (w, tr @ [EvRead (backup_key example_repo batch_uid @ ''commit.json'')]))" for w tr
    using p(3) by (simp add: readCommit_def act_run batch_reads)
  have vm: "validateListedMetadata (traced batch_sys) example_repo batch_key ((), tr) = (Inr (), ((), tr @ map EvRead
      [attempt_key example_repo batch_uid batch_att @ ''claim.json'', backup_key example_repo batch_uid @ ''request.json'']))" for tr
    using batch_documents
    by (simp add: validateListedMetadata_def Let_def p act_run batch_readClaim batch_reads)
      (simp add: batch_claim_def batch_request_def stub_attempt_def)
  have v0: "payload_victim (backup_parts example_repo batch_key) batch_uid batch_att (clm_RequestSHA256 batch_claim) =
      Some (batch_victim\<lparr>vic_Kind := ''delete-manifest'', vic_UploadID := None\<rparr>)"
    by (simp add: payload_victim_def Let_def p batch_victim_def batch_claim_def)
  have v: "upload_victim ''u1'' (batch_victim\<lparr>vic_Kind := ''delete-manifest'', vic_UploadID := None\<rparr>) = batch_victim"
    by (simp add: upload_victim_def batch_victim_def)
  have vv: "validateVictim (traced batch_sys) example_repo batch_victim [] ((), tr) = (Inr (), ((), tr @ map EvRead
      [backup_key example_repo batch_uid @ ''commit.json'', attempt_key example_repo batch_uid batch_att @ ''claim.json'']))" for tr
    using p by (simp add: validateVictim_def batch_victim_def act_run rc payload_unused_def batch_readClaim payload_shape_ok_def opt_is_def)
  show ?thesis
    by (simp add: cleanup_candidate_def p(2) act_run vm Let_def) (simp add: p(1) cleanup_eligible_def act_run rc batch_readClaim v0[unfolded p(1)] v vv)
qed

lemma batch_cleanup: "gco_owner g = example_owner \<Longrightarrow> \<not> gco_closed g \<Longrightarrow> \<not> gco_uncertain g \<Longrightarrow>
    fst (Cleanup (traced batch_sys) example_repo g 128 ((), tr)) = Inr [batch_victim]"
proof -
  assume "gco_owner g = example_owner" "\<not> gco_closed g" "\<not> gco_uncertain g"
  moreover have "validText ''u1'' 2048" by code_simp
  ultimately show ?thesis
    by (simp add: Cleanup_def act_run batch_check list_with_def batch_calls batch_candidate)
qed

lemma batch_object:
  "inventory_item (traced batch_sys) example_repo (\<lambda>ob f. lift (note_object example_repo ob f)) batch_slot f ((), tr) =
     (note_object example_repo \<lparr>wob_Name = batch_wal, wob_ETag = ''e'', wob_SHA256 = example_hash, wob_RawBytes = idn_WALSegmentBytes example_identity,
        wob_Retired = False\<rparr> f, ((), tr @ [EvHead (inf_Key batch_slot)]))"
proof -
  have "has_prefix (inf_Key batch_slot) (rp_root example_repo @ ''wal/'')"
    "split_on (CHR ''/'') (trim_prefix (inf_Key batch_slot) (rp_root example_repo @ ''wal/'')) = [''00000001'', batch_wal]"
    "WALKey example_repo batch_wal = Inr (inf_Key batch_slot)" "slot_raw_bytes example_repo batch_wal batch_slot = Some (idn_WALSegmentBytes example_identity)"
    "inf_ETag batch_slot = ''e''" "meta_get (inf_Metadata batch_slot) ''cnpg-format'' = ''wal-v1''"
    "meta_get (inf_Metadata batch_slot) ''cnpg-raw-sha256'' = example_hash" by code_simp+
  then show ?thesis by (simp add: inventory_item_def Let_def act_run batch_calls archive_slot_def)
qed

lemma batch_note: "\<exists>f. note_object example_repo \<lparr>wob_Name = batch_wal, wob_ETag = ''e'', wob_SHA256 = example_hash,
    wob_RawBytes = idn_WALSegmentBytes example_identity, wob_Retired = False\<rparr> zero_facts = Inr f \<and> fa_Backups f = [] \<and> set (fa_timelines f) = {1}"
proof -
  have "ArchivePosition batch_wal (idn_WALSegmentBytes example_identity) = Inr (1, 0x1000000)"
    "ArchivePosition ''000000010000000000000000'' (idn_WALSegmentBytes example_identity) = Inr (1, 0)" by code_simp+
  then show ?thesis by (auto simp: note_object_def reserve_def zero_facts_def Let_def)
qed

lemma batch_survey:
  "\<exists>f iv s. inventories (traced batch_sys) example_repo example_files (((), []), batch_owner) = (Inr (f, iv), (s, batch_owner\<lparr>gco_catalog := Some []\<rparr>)) \<and>
     Backups iv = []"
proof -
  obtain f where f: "note_object example_repo \<lparr>wob_Name = batch_wal, wob_ETag = ''e'', wob_SHA256 = example_hash,
    wob_RawBytes = idn_WALSegmentBytes example_identity, wob_Retired = False\<rparr> zero_facts = Inr f" "fa_Backups f = []" "set (fa_timelines f) = {1}"
    using batch_note by blast
  have "set (sort (remdups (fa_timelines f))) = {1}" "length (sort (remdups (fa_timelines f))) = 1" using f(3) by (simp_all add: length_remdups_card_conv)
  then have ts: "sort (remdups (fa_timelines f)) = [1]" by (cases "sort (remdups (fa_timelines f))") auto
  have o: "gco_owner example_gc = example_owner" "\<not> gco_closed example_gc" "\<not> gco_uncertain example_gc" "\<not> gco_executed example_gc" by (simp_all add: example_gc_def)
  have sp: "spoolCatalog (traced batch_sys) example_repo l ((), tr) = (Inr [], ((), tr @ [EvList (rp_root example_repo @ ''backups/'')]))" for l tr
    by (simp add: spoolCatalog_def act_run batch_calls list_with_def)
  have sc: "scanEntries (traced batch_sys) [] v x s = (Inr x, s)" for v :: "entry \<Rightarrow> facts \<Rightarrow> _" and x s
    by (simp add: scanEntries_def act_run batch_calls)
  have rp: "read_paths (traced batch_sys) example_files f s = (Inr [[\<lparr>Node = 1, Fork = 0\<rparr>]], s)" for s
    by (simp add: read_paths_def ts timeline_path_def act_run)
  have lim: "CatalogLimits_validate \<lparr>lim_MaxRecords = MaxCatalogRecords, lim_MaxSpoolBytes = GCCatalogBytes\<rparr> = Inr ()" by code_simp
  show ?thesis
    by (simp add: inventories_def GC_Inventory_def ArchiveInventory_def act_run batch_check o lim sp sc upd_side_def list_with_def batch_calls batch_object f rp)
qed

lemma batch_run:
  "fst (plan_victims (traced batch_sys) example_repo example_files now batch_options ((((), []), batch_owner), zero_result)) = Inr [batch_victim]"
proof -
  obtain f iv s where i: "inventories (traced batch_sys) example_repo example_files (((), []), batch_owner) = (Inr (f, iv), (s, batch_owner\<lparr>gco_catalog := Some []\<rparr>))"
    "Backups iv = []" using batch_survey by blast
  have d: "decide iv now batch_options = Inr (zero_decision\<lparr>Shortened := True\<rparr>)" using i(2) by (simp add: decide_def)
  obtain s2 where c: "Cleanup (traced batch_sys) example_repo (batch_owner\<lparr>gco_catalog := Some []\<rparr>) 128 s = (Inr [batch_victim], s2)"
    using batch_cleanup[of "batch_owner\<lparr>gco_catalog := Some []\<rparr>" "snd s"] by (cases s; cases "Cleanup (traced batch_sys) example_repo (batch_owner\<lparr>gco_catalog := Some []\<rparr>) 128 s") (auto simp: example_gc_def)
  have k: "fill_segments (zero_decision\<lparr>Shortened := True\<rparr>) vs zs = vs" for vs zs
    by (induction "zero_decision\<lparr>Shortened := True\<rparr>" vs zs rule: fill_segments.induct) (simp_all add: retirable_def zero_decision_def)
  have a: "assemble f (zero_decision\<lparr>Shortened := True\<rparr>) [batch_victim] = [batch_victim]"
    by (simp add: assemble_def Let_def k) (simp add: zero_decision_def)
  show ?thesis
    by (simp add: plan_victims_def act_run i(1) d set_result_def Let_def c[simplified] a on_world_def get_side_def upd_side_def andthen_def attempt_def)
qed

section \<open>Properties\<close>

text \<open>C7. A retention batch never plans to destroy what it promises to keep. Whenever the planning part
  of \<open>Run\<close> succeeds, it planned over the inventory the store answered in this very run: the live
  entries of the complete catalog that the collection keeps, one segment for every listed archive
  object with a segment's name, live unless its slot is retired, and the path of every timeline that
  a live backup or a listed object is on, parsed from the retrieved history. The list has at most
  128 victims in an order the collection accepts (no backup after a WAL object, none before its live
  children). Every retired backup is a live entry the decision does not keep, under its commit's
  digest; every retired WAL object is a live object under its ETag, at a position that replay of no
  kept backup needs on any timeline path; every payload deletion or aborted upload belongs to a
  claimed attempt that was confirmed during the run to be uncommitted, superseded or retired.\<close>

theorem Run_plan_safe:
  "case plan_victims (traced S) r files now o' (((w, []), g), x) of (Inl _, _) \<Rightarrow> True
   | (Inr vs, ((s', g'), x')) \<Rightarrow> \<exists>es obs iv s1. surveyed (traced S) r files g (w, []) s1 es obs iv \<and>
       g' = g\<lparr>gco_catalog := Some es\<rparr> \<and> decide iv now o' = Inr (rr_Decision x') \<and> length vs \<le> 128 \<and> victims_ordered es vs \<and>
       list_all (victim_unneeded S r es obs iv (rr_Decision x') s1 s') vs"
  using plan_victims_safe[of S r files now o' "(w, [])" g x] by (auto split: prod.splits sum.splits)

theorem Run_plan_safe_witness:
  "\<exists>es obs iv s1 s'.
     fst (plan_victims (traced batch_sys) example_repo example_files 0 batch_options ((((), []), batch_owner), zero_result)) = Inr [batch_victim] \<and>
     surveyed (traced batch_sys) example_repo example_files batch_owner ((), []) s1 es obs iv \<and> victims_ordered es [batch_victim] \<and>
     confirmed_between batch_sys example_repo s1 s' batch_victim"
proof -
  obtain s' g' x' where r: "plan_victims (traced batch_sys) example_repo example_files 0 batch_options ((((), []), batch_owner), zero_result) =
      (Inr [batch_victim], ((s', g'), x'))"
    using batch_run[of 0] by (metis prod.exhaust fst_conv)
  have k: "vic_Kind batch_victim = ''abort-manifest''" by (simp add: batch_victim_def)
  have "victim_unneeded S r es obs iv d s1 s' batch_victim \<longleftrightarrow> confirmed_between S r s1 s' batch_victim" for S :: "unit sys" and r es obs iv d s1
    by (simp add: victim_unneeded_def k)
  with Run_plan_safe[where S = batch_sys and r = example_repo and files = example_files and now = 0 and o' = batch_options and w = "()" and g = batch_owner
      and x = zero_result, unfolded r prod.case sum.case]
  show ?thesis using batch_run[of 0] unfolding list.pred_inject by blast
qed

text \<open>A dry run changes nothing but the gate: in a batch with \<open>DryRun\<close> set, whatever fails on the
  way, every storage call is a read or a write of the gate document.\<close>

theorem Run_dry_run:
  "case Run (traced S) (Some r) nb files now (o'\<lparr>opt_DryRun := True\<rparr>) (w, []) of (_, (_, tr)) \<Rightarrow> list_all (gate_call r) tr"
  using dry_Run_log[of "o'\<lparr>opt_DryRun := True\<rparr>" S r nb files now w "[]"] by (auto split: prod.splits)

end
