(* ===== verification/Guard_Config.thy ===== *)
theory Guard_Config
  imports Recovery_Files
begin

text \<open>
  The configuration of the recovery guard (recoveryguard/config.go): identities, targets and
  their validation, the documents read from disk and from the control socket, the accepted
  command line, and the installation of the helper executable.
\<close>

section \<open>Data\<close>

record rg_target =
  tgt_PVCUID :: string
  tgt_Mount :: string

record rg_config =
  cfg_ClusterUID :: string
  cfg_OperationUID :: string
  cfg_Targets :: "rg_target list"

record rg_owner =
  gow_ClusterUID :: string
  gow_OperationUID :: string
  gow_PodUID :: string
  gow_GuardUID :: string

record rg_tuple =
  tup_Owner :: rg_owner
  tup_SidecarUID :: string

definition zero_owner :: rg_owner where
  "zero_owner = \<lparr>gow_ClusterUID = [], gow_OperationUID = [], gow_PodUID = [], gow_GuardUID = []\<rparr>"

definition zero_tuple :: rg_tuple where
  "zero_tuple = \<lparr>tup_Owner = zero_owner, tup_SidecarUID = []\<rparr>"

definition HelperPath :: string where
  "HelperPath = ''/cnpg-backup/bin/cnpg-backup''"

definition maxMessage :: int where
  "maxMessage = 32768"

section \<open>Patterns\<close>

definition ascii_letter :: "char \<Rightarrow> bool" where
  "ascii_letter c = (let n = of_char c :: int in (65 \<le> n \<and> n \<le> 90) \<or> (97 \<le> n \<and> n \<le> 122))"

definition ascii_digit :: "char \<Rightarrow> bool" where
  "ascii_digit c = (let n = of_char c :: int in 48 \<le> n \<and> n \<le> 57)"

definition tablespaces_dir :: string where
  "tablespaces_dir = ''/var/lib/postgresql/tablespaces/''"

definition tablespace_name :: "string \<Rightarrow> bool" where
  "tablespace_name s = (case s of
     [] \<Rightarrow> False
   | c # cs \<Rightarrow> (ascii_letter c \<or> c = CHR ''_'') \<and> length cs \<le> 62 \<and>
       list_all (\<lambda>c. ascii_letter c \<or> ascii_digit c \<or> c = CHR ''_'' \<or> c = CHR ''$'') cs)"

definition tablespacePattern :: "string \<Rightarrow> bool" where
  "tablespacePattern s \<longleftrightarrow> has_prefix s tablespaces_dir \<and> tablespace_name (drop (length tablespaces_dir) s)"

definition log_field :: "string \<Rightarrow> bool" where
  "log_field s = (case s of
     [] \<Rightarrow> False
   | c # cs \<Rightarrow> ascii_letter c \<and> length cs \<le> 63 \<and>
       list_all (\<lambda>c. ascii_letter c \<or> ascii_digit c \<or> c = CHR ''_'' \<or> c = CHR ''.'' \<or> c = CHR ''-'') cs)"

section \<open>Validation\<close>

definition Tuple_Validate :: "rg_tuple \<Rightarrow> err + unit" where
  "Tuple_Validate t =
     (if list_all uuidRE [gow_ClusterUID (tup_Owner t), gow_OperationUID (tup_Owner t), gow_PodUID (tup_Owner t), gow_GuardUID (tup_Owner t),
         tup_SidecarUID t]
      then Inr () else Inl (PlainErr ''invalid recovery tuple''))"

text \<open>The random bytes are an argument.\<close>

definition NewUUID :: "int list \<Rightarrow> string" where
  "NewUUID b = uuid_text (uuid_bits 64 b)"

definition data_mount :: string where
  "data_mount = ''/var/lib/postgresql/data''"

definition wal_mount :: string where
  "wal_mount = ''/var/lib/postgresql/wal''"

definition check_target :: "rg_target \<Rightarrow> string list \<times> string list \<Rightarrow> err + string list \<times> string list" where
  "check_target t = (\<lambda>(uids, mounts).
     if \<not> uuidRE (tgt_PVCUID t) \<or> tgt_PVCUID t \<in> set uids \<or> tgt_Mount t \<in> set mounts
     then Inl (PlainErr ''duplicate or invalid target'')
     else if tgt_Mount t \<noteq> data_mount \<and> tgt_Mount t \<noteq> wal_mount \<and> \<not> tablespacePattern (tgt_Mount t)
     then Inl (PlainErr ''unsupported target mount'')
     else Inr (tgt_PVCUID t # uids, tgt_Mount t # mounts))"

definition Config_Validate :: "rg_config \<Rightarrow> err + unit" where
  "Config_Validate c =
     (if \<not> uuidRE (cfg_ClusterUID c) \<or> \<not> uuidRE (cfg_OperationUID c) \<or> length (cfg_Targets c) < 1 \<or> length (cfg_Targets c) > 66
      then Inl (PlainErr ''invalid recovery identity or target count'')
      else res_bind (fold_res check_target (cfg_Targets c) ([], [])) (\<lambda>(uids, mounts).
        if data_mount \<notin> set mounts then Inl (PlainErr ''PGDATA target missing'') else Inr ()))"

definition Config_owner :: "rg_config \<Rightarrow> string \<Rightarrow> string \<Rightarrow> err + rg_owner" where
  "Config_owner c pod guard_uid =
     res_bind (Config_Validate c) (\<lambda>_.
     if \<not> uuidRE pod \<or> \<not> uuidRE guard_uid then Inl (PlainErr ''invalid Pod or guard identity'')
     else Inr \<lparr>gow_ClusterUID = cfg_ClusterUID c, gow_OperationUID = cfg_OperationUID c, gow_PodUID = pod, gow_GuardUID = guard_uid\<rparr>)"

definition sortedTargets :: "rg_config \<Rightarrow> rg_target list" where
  "sortedTargets c = sort_slice (\<lambda>a b. tgt_PVCUID a < tgt_PVCUID b) (cfg_Targets c)"

section \<open>Documents\<close>

text \<open>\<open>dec\<close> is \<open>encoding/json\<close> on one value with unknown fields refused: the value and whether only
  white space follows it.\<close>

definition Decode :: "(bytes \<Rightarrow> ('a \<times> bool) option) \<Rightarrow> bytes \<Rightarrow> err + 'a" where
  "Decode dec data =
     (if int (length data) > maxMessage then Inl (PlainErr ''local control document too large'')
      else case dec data of
        None \<Rightarrow> Inl (PlainErr ''invalid local control document'')
      | Some (v, at_end) \<Rightarrow> if at_end then Inr v else Inl (PlainErr ''trailing local control document''))"

text \<open>\<open>file\<close> is the outcome of opening and reading the file.\<close>

definition LoadConfig :: "(bytes \<Rightarrow> (rg_config \<times> bool) option) \<Rightarrow> err + bytes \<Rightarrow> err + rg_config" where
  "LoadConfig dec file =
     res_bind file (\<lambda>b.
     res_bind (Decode dec (take (nat (maxMessage + 1)) b)) (\<lambda>c.
     res_bind (Config_Validate c) (\<lambda>_. Inr c)))"

section \<open>The command line\<close>

definition recovery_argv :: "bool \<Rightarrow> string list" where
  "recovery_argv separateWAL = [''/controller/manager'', ''instance'', ''restore''] @
     (if separateWAL then [''--pg-wal'', ''/var/lib/postgresql/wal/pg_wal''] else [])"

definition log_flags :: "string list" where
  "log_flags = [''--log-level='', ''--log-field-level='', ''--log-field-timestamp='']"

definition log_levels :: "string list" where
  "log_levels = [''error'', ''warning'', ''info'', ''debug'', ''trace'']"

definition take_flag :: "string \<Rightarrow> string list \<Rightarrow> err + string list" where
  "take_flag flag remaining = (case remaining of
     [] \<Rightarrow> Inr remaining
   | a # rest \<Rightarrow>
      if \<not> has_prefix a flag then Inr remaining
      else let value = trim_prefix a flag in
        if flag = ''--log-level='' then
          (if value \<notin> set log_levels then Inl (PlainErr ''unexpected CNPG log level'') else Inr rest)
        else if \<not> log_field value then Inl (PlainErr ''unsupported CNPG log field'') else Inr rest)"

definition WrapArgv :: "string list \<Rightarrow> string list \<Rightarrow> bool \<Rightarrow> err + string list" where
  "WrapArgv command args separateWAL = (let original = command @ args; expected = recovery_argv separateWAL in
     if length original < length expected \<or> take (length expected) original \<noteq> expected
     then Inl (PlainErr ''unexpected CNPG recovery argv'')
     else res_bind (fold_res take_flag log_flags (drop (length expected) original)) (\<lambda>remaining.
       if remaining \<noteq> [] then Inl (PlainErr ''unexpected CNPG recovery flags'')
       else Inr ([HelperPath, ''recovery-guard'', ''--''] @ original)))"

definition ValidateArgv :: "rg_config \<Rightarrow> string list \<Rightarrow> err + unit" where
  "ValidateArgv c argv =
     res_bind (WrapArgv argv [] (list_ex (\<lambda>t. tgt_Mount t = wal_mount) (cfg_Targets c))) (\<lambda>_. Inr ())"

section \<open>The helper executable\<close>

definition helper_limit :: int where
  "helper_limit = 134217728"

text \<open>\<open>source\<close> is the opened executable's content, \<open>None\<close> when it cannot be opened; \<open>tmp\<close> is the name
  \<open>os.CreateTemp\<close> picks, \<open>''name''\<close> the destination's base name in the same directory.\<close>

definition InstallHelper :: "bytes option \<Rightarrow> string \<Rightarrow> string \<Rightarrow> (dir, unit) act" where
  "InstallHelper source tmp name = (case source of
     None \<Rightarrow> fail OsErr
   | Some b \<Rightarrow> let data = take (nat (helper_limit + 1)) b in
      andthen (create_file tmp) (\<lambda>_.
      finally_remove tmp (
        andthen (write_file tmp data) (\<lambda>_.
        if int (length data) > helper_limit then fail (PlainErr ''helper exceeds executable size limit'')
        else andthen try_op (\<lambda>_.
          andthen try_op (\<lambda>_.
          andthen try_op (\<lambda>_.
          andthen (rename_file tmp name) (\<lambda>_.
          andthen try_op (\<lambda>_. try_op)))))))))"

end
