(* ===== verification/Guard_Admission.thy ===== *)
theory Guard_Admission
  imports Guard_Config
begin

text \<open>
  The terminal admission gate of a recovery sidecar (recoveryguard/session.go, \<open>Admission\<close> and
  \<open>Task\<close>). Every method holds the mutex, so the behaviours of any number of callers are the
  sequences of its atomic steps; \<open>drain\<close>, which gives the mutex up twice and then waits, is three
  steps of a waiter.
\<close>

section \<open>State\<close>

text \<open>\<open>drained\<close> counts how often the channel was closed: a second close panics.\<close>

record admission =
  ad_config :: rg_config
  ad_pod :: string
  ad_process :: string
  ad_tuple :: rg_tuple
  ad_started :: bool
  ad_closed :: bool
  ad_active :: int
  ad_drained :: nat
  ad_canceled :: bool
  ad_afterDrain :: bool

definition newAdmission :: "rg_config \<Rightarrow> string \<Rightarrow> string \<Rightarrow> admission" where
  "newAdmission c pod process = \<lparr>ad_config = c\<lparr>cfg_Targets := sortedTargets c\<rparr>, ad_pod = pod, ad_process = process, ad_tuple = zero_tuple,
     ad_started = False, ad_closed = False, ad_active = 0, ad_drained = 0, ad_canceled = False, ad_afterDrain = False\<rparr>"

text \<open>\<open>b1\<close> and \<open>b2\<close> are the random bytes of the two identities.\<close>

definition NewAdmission :: "rg_config \<Rightarrow> string \<Rightarrow> int list \<Rightarrow> int list \<Rightarrow> err + admission" where
  "NewAdmission c pod b1 b2 = res_bind (Config_owner c pod (NewUUID b1)) (\<lambda>_. Inr (newAdmission c pod (NewUUID b2)))"

section \<open>Methods\<close>

text \<open>\<open>verified\<close> is the outcome of \<open>verifyOwner\<close>, which only reads the target volumes.\<close>

definition begin_session :: "admission \<Rightarrow> rg_owner \<Rightarrow> bool \<Rightarrow> (err + rg_tuple) \<times> admission" where
  "begin_session a owner verified = (let expected = \<lparr>gow_ClusterUID = cfg_ClusterUID (ad_config a),
       gow_OperationUID = cfg_OperationUID (ad_config a), gow_PodUID = ad_pod a, gow_GuardUID = gow_GuardUID owner\<rparr> in
     if \<not> uuidRE (gow_GuardUID owner) \<or> owner \<noteq> expected then (Inl (StatusErr CodeFailedPrecondition), a)
     else if ad_started a \<or> ad_closed a then (Inl (StatusErr CodeFailedPrecondition), a)
     else if \<not> verified then (Inl (StatusErr CodeFailedPrecondition), a)
     else let tuple = \<lparr>tup_Owner = owner, tup_SidecarUID = ad_process a\<rparr> in
       (Inr tuple, a\<lparr>ad_started := True, ad_tuple := tuple\<rparr>))"

definition Admit :: "admission \<Rightarrow> rg_tuple \<Rightarrow> (err + unit) \<times> admission" where
  "Admit a tuple =
     (if \<not> ad_started a \<or> ad_closed a \<or> tuple \<noteq> ad_tuple a then (Inl (StatusErr CodeFailedPrecondition), a)
      else if ad_active a \<ge> 4 then (Inl (StatusErr CodeResourceExhausted), a)
      else (Inr (), a\<lparr>ad_active := ad_active a + 1\<rparr>))"

definition ActiveTuple :: "admission \<Rightarrow> err + rg_tuple" where
  "ActiveTuple a = (if \<not> ad_started a \<or> ad_closed a then Inl (StatusErr CodeFailedPrecondition) else Inr (ad_tuple a))"

text \<open>\<open>close(a.drained)\<close>.\<close>

definition close_drained :: "admission \<Rightarrow> admission" where
  "close_drained a = a\<lparr>ad_drained := ad_drained a + 1\<rparr>"

text \<open>The body \<open>once.Do\<close> runs for a task; \<open>task_once\<close> says whether it ran already.\<close>

definition Done :: "bool \<Rightarrow> admission \<Rightarrow> admission" where
  "Done task_once a =
     (if task_once then a
      else let a = a\<lparr>ad_active := ad_active a - 1\<rparr> in
        if ad_closed a \<and> ad_active a = 0 then close_drained a else a)"

definition Admission_Close :: "admission \<Rightarrow> admission" where
  "Admission_Close a =
     (if ad_closed a then a
      else let a = a\<lparr>ad_closed := True, ad_canceled := True\<rparr> in
        if ad_active a = 0 then close_drained a else a)"

text \<open>\<open>fn\<close> is whether the callback is non-nil.\<close>

definition AfterDrain :: "admission \<Rightarrow> bool \<Rightarrow> (err + unit) \<times> admission" where
  "AfterDrain a fn =
     (if ad_started a \<or> ad_closed a \<or> ad_afterDrain a \<or> \<not> fn then (Inl (PlainErr ''drain callback already bound''), a)
      else (Inr (), a\<lparr>ad_afterDrain := True\<rparr>))"

definition drain_valid :: "admission \<Rightarrow> rg_tuple \<Rightarrow> bool" where
  "drain_valid a tuple \<longleftrightarrow> ad_started a \<and> \<not> ad_closed a \<and> tuple = ad_tuple a"

text \<open>What \<open>drain\<close> returns from its \<open>select\<close>: \<open>ctx_first\<close> when the context's channel was taken,
  \<open>ctx_err\<close> the context's state afterwards, \<open>callback\<close> the outcome of the bound callback.\<close>

definition drain_result :: "admission \<Rightarrow> bool \<Rightarrow> bool \<Rightarrow> (err + unit) \<Rightarrow> err + unit" where
  "drain_result a ctx_first canceled callback =
     (if ctx_first then Inl CtxErr
      else if canceled then Inl CtxErr
      else if ad_afterDrain a then callback
      else Inr ())"

section \<open>Interleavings\<close>

text \<open>A waiter is a call of \<open>drain\<close>: past its check, past \<open>Close\<close>, or returned.\<close>

datatype waiter = Checked | Waiting | Returned "err + unit"

record adm_system =
  as_adm :: admission
  as_tasks :: "nat \<rightharpoonup> bool"
  as_waiters :: "nat \<rightharpoonup> waiter"

inductive adm_step :: "adm_system \<Rightarrow> adm_system \<Rightarrow> bool" where
  start: "adm_step s (s\<lparr>as_adm := snd (begin_session (as_adm s) owner verified)\<rparr>)"
| after_drain: "adm_step s (s\<lparr>as_adm := snd (AfterDrain (as_adm s) fn)\<rparr>)"
| refuse: "Admit (as_adm s) tuple = (Inl e, a) \<Longrightarrow> adm_step s (s\<lparr>as_adm := a\<rparr>)"
| admit: "Admit (as_adm s) tuple = (Inr u, a) \<Longrightarrow> as_tasks s t = None \<Longrightarrow>
    adm_step s (s\<lparr>as_adm := a, as_tasks := (as_tasks s)(t \<mapsto> False)\<rparr>)"
| finish: "as_tasks s t = Some once \<Longrightarrow>
    adm_step s (s\<lparr>as_adm := Done once (as_adm s), as_tasks := (as_tasks s)(t \<mapsto> True)\<rparr>)"
| close: "adm_step s (s\<lparr>as_adm := Admission_Close (as_adm s)\<rparr>)"
| drain_check: "drain_valid (as_adm s) tuple \<Longrightarrow> as_waiters s w = None \<Longrightarrow> adm_step s (s\<lparr>as_waiters := (as_waiters s)(w \<mapsto> Checked)\<rparr>)"
| drain_close: "as_waiters s w = Some Checked \<Longrightarrow>
    adm_step s (s\<lparr>as_adm := Admission_Close (as_adm s), as_waiters := (as_waiters s)(w \<mapsto> Waiting)\<rparr>)"
| drain_timeout: "as_waiters s w = Some Waiting \<Longrightarrow>
    adm_step s (s\<lparr>as_waiters := (as_waiters s)(w \<mapsto> Returned (drain_result (as_adm s) True canceled callback))\<rparr>)"
| drain_return: "as_waiters s w = Some Waiting \<Longrightarrow> ad_drained (as_adm s) > 0 \<Longrightarrow>
    adm_step s (s\<lparr>as_waiters := (as_waiters s)(w \<mapsto> Returned (drain_result (as_adm s) False canceled callback))\<rparr>)"

definition initial_adm :: "rg_config \<Rightarrow> string \<Rightarrow> string \<Rightarrow> adm_system" where
  "initial_adm c pod process = \<lparr>as_adm = newAdmission c pod process, as_tasks = Map.empty, as_waiters = Map.empty\<rparr>"

abbreviation adm_reachable :: "rg_config \<Rightarrow> string \<Rightarrow> string \<Rightarrow> adm_system \<Rightarrow> bool" where
  "adm_reachable c pod process s \<equiv> adm_step\<^sup>*\<^sup>* (initial_adm c pod process) s"

end
