(* ===== verification/Guard_Session.thy ===== *)
theory Guard_Session
  imports Guard_Admission
begin

text \<open>
  The control session between the guard and its sidecar (recoveryguard/session.go) and the
  guard's supervision loop (recoveryguard/guard_linux.go). The outcome of every call that leaves
  the package (the stream, the shared admission, processes, timers, locks) is an argument, and
  the effects that matter are listed in the order the function has them.
\<close>

section \<open>Messages\<close>

record control_message =
  msg_Kind :: string
  msg_Tuple :: rg_tuple

definition enc_rg_owner :: "rg_owner \<Rightarrow> json" where
  "enc_rg_owner v = JObj [(''clusterUID'', JStr (gow_ClusterUID v)), (''operationUID'', JStr (gow_OperationUID v)),
     (''podUID'', JStr (gow_PodUID v)), (''guardUID'', JStr (gow_GuardUID v))]"

definition enc_rg_tuple :: "rg_tuple \<Rightarrow> json" where
  "enc_rg_tuple v = JObj [(''owner'', enc_rg_owner (tup_Owner v)), (''sidecarUID'', JStr (tup_SidecarUID v))]"

definition enc_control :: "control_message \<Rightarrow> json" where
  "enc_control v = JObj [(''kind'', JStr (msg_Kind v)), (''tuple'', enc_rg_tuple (msg_Tuple v))]"

type_synonym decoder = "bytes \<Rightarrow> (control_message \<times> bool) option"

text \<open>\<open>frame\<close> is the outcome of \<open>RecvMsg\<close>.\<close>

definition receive :: "decoder \<Rightarrow> err + bytes \<Rightarrow> err + control_message" where
  "receive dec frame = res_bind frame (\<lambda>b. case Decode dec b of Inl _ \<Rightarrow> Inl (StatusErr CodeInvalidArgument) | Inr msg \<Rightarrow> Inr msg)"

text \<open>What is handed to \<open>SendMsg\<close>.\<close>

definition send_bytes :: "control_message \<Rightarrow> bytes" where
  "send_bytes msg = render (enc_control msg)"

section \<open>The server side\<close>

datatype ctl_effect = DidBegin rg_tuple | DidSend bytes | DidDrain rg_tuple "err + unit" | DidClose

record server_env =
  se_first :: "err + bytes"
  se_begin :: "rg_owner \<Rightarrow> err + rg_tuple"
  se_begun :: "err + unit"
  se_second :: "err + bytes"
  se_drain :: "rg_tuple \<Rightarrow> err + unit"
  se_drained :: "err + unit"

text \<open>From the successful \<open>begin\<close> on, up to the deferred \<open>Close\<close>.\<close>

definition session_body :: "decoder \<Rightarrow> server_env \<Rightarrow> rg_tuple \<Rightarrow> (err + unit) \<times> ctl_effect list" where
  "session_body dec E tuple = (let begun = send_bytes \<lparr>msg_Kind = ''begun'', msg_Tuple = tuple\<rparr> in case se_begun E of
     Inl e \<Rightarrow> (Inl e, [DidSend begun])
   | Inr _ \<Rightarrow> (case receive dec (se_second E) of
       Inl e \<Rightarrow> (Inl e, [DidSend begun])
     | Inr msg \<Rightarrow>
        if msg_Kind msg \<noteq> ''drain'' \<or> msg_Tuple msg \<noteq> tuple then (Inl (StatusErr CodeFailedPrecondition), [DidSend begun])
        else case se_drain E tuple of
          Inl e \<Rightarrow> (Inl e, [DidSend begun, DidDrain tuple (Inl e)])
        | Inr _ \<Rightarrow> (se_drained E, [DidSend begun, DidDrain tuple (Inr ()),
            DidSend (send_bytes \<lparr>msg_Kind = ''drained'', msg_Tuple = tuple\<rparr>)])))"

definition session :: "decoder \<Rightarrow> server_env \<Rightarrow> (err + unit) \<times> ctl_effect list" where
  "session dec E = (case receive dec (se_first E) of
     Inl e \<Rightarrow> (Inl e, [])
   | Inr msg \<Rightarrow>
      if msg_Kind msg \<noteq> ''begin'' \<or> tup_SidecarUID (msg_Tuple msg) \<noteq> [] then (Inl (StatusErr CodeInvalidArgument), [])
      else case se_begin E (tup_Owner (msg_Tuple msg)) of
        Inl e \<Rightarrow> (Inl e, [])
      | Inr tuple \<Rightarrow> (case session_body dec E tuple of (res, effs) \<Rightarrow> (res, DidBegin tuple # effs @ [DidClose])))"

section \<open>The client side\<close>

record client_env =
  ce_dial :: "err + unit"
  ce_stream :: "err + unit"
  ce_send :: "err + unit"
  ce_reply :: "err + bytes"

definition Begin :: "decoder \<Rightarrow> client_env \<Rightarrow> rg_owner \<Rightarrow> err + rg_tuple" where
  "Begin dec E owner =
     res_bind (ce_dial E) (\<lambda>_.
     res_bind (ce_stream E) (\<lambda>_.
     res_bind (ce_send E) (\<lambda>_. case receive dec (ce_reply E) of
       Inl _ \<Rightarrow> Inl (PlainErr ''Begin was not acknowledged by the configured sidecar'')
     | Inr msg \<Rightarrow>
        if msg_Kind msg \<noteq> ''begun'' \<or> tup_Owner (msg_Tuple msg) \<noteq> owner \<or> \<not> uuidRE (tup_SidecarUID (msg_Tuple msg))
        then Inl (PlainErr ''Begin was not acknowledged by the configured sidecar'') else Inr (msg_Tuple msg))))"

text \<open>The value the receiving goroutine puts on \<open>done\<close>.\<close>

definition session_done :: "decoder \<Rightarrow> rg_tuple \<Rightarrow> err + bytes \<Rightarrow> err + unit" where
  "session_done dec tuple frame = (case receive dec frame of
     Inl e \<Rightarrow> Inl e
   | Inr msg \<Rightarrow> if msg_Kind msg \<noteq> ''drained'' \<or> msg_Tuple msg \<noteq> tuple then Inl (PlainErr ''invalid Drain acknowledgment'') else Inr ())"

text \<open>\<open>acked\<close> is the received value, \<open>None\<close> when the context's channel was taken first.\<close>

definition Session_drain :: "err + unit \<Rightarrow> (err + unit) option \<Rightarrow> err + unit" where
  "Session_drain sent acked = res_bind sent (\<lambda>_. case acked of None \<Rightarrow> Inl CtxErr | Some r \<Rightarrow> r)"

section \<open>The supervision loop\<close>

datatype wait_status = Exited int | Signaled int

text \<open>What the \<open>select\<close> of the loop can take, with the outcome of the calls its case makes:
  \<open>kill\<close> whether \<open>kill(-1, ...)\<close> failed other than with \<open>ESRCH\<close>.\<close>

datatype guard_event =
    CtxDone bool
  | SessionDone bool
  | KillAfter bool
  | ReapDeadline
  | Reaped int wait_status bool
  | NoChild bool "err + unit" bool "err + unit"
  | ReapFailed

record guard_state =
  gs_exit :: int
  gs_mainExited :: bool
  gs_stopping :: bool
  gs_uncertain :: bool
  gs_ctxChan :: bool
  gs_sessionChan :: bool
  gs_killChan :: bool
  gs_deadlineChan :: bool

definition guard_init :: guard_state where
  "guard_init = \<lparr>gs_exit = 2, gs_mainExited = False, gs_stopping = False, gs_uncertain = False, gs_ctxChan = True, gs_sessionChan = True,
     gs_killChan = False, gs_deadlineChan = False\<rparr>"

definition terminate :: "bool \<Rightarrow> guard_state \<Rightarrow> guard_state" where
  "terminate kill_failed g =
     (if gs_stopping g then g
      else g\<lparr>gs_stopping := True, gs_uncertain := gs_uncertain g \<or> kill_failed, gs_killChan := True, gs_deadlineChan := True\<rparr>)"

text \<open>Exit code, error, and whether \<open>held.release()\<close> was called.\<close>

type_synonym guard_result = "int \<times> err option \<times> bool"

definition status_code :: "wait_status \<Rightarrow> int" where
  "status_code st = (case st of Exited n \<Rightarrow> n | Signaled n \<Rightarrow> 128 + n)"

definition no_child :: "guard_state \<Rightarrow> bool \<Rightarrow> err + unit \<Rightarrow> bool \<Rightarrow> err + unit \<Rightarrow> guard_result" where
  "no_child g canceled drain canceled2 release =
     (if \<not> gs_mainExited g \<or> gs_uncertain g \<or> canceled then (2, Some TargetUncertain, False)
      else if drain \<noteq> Inr () \<or> canceled2 then (2, Some TargetUncertain, False)
      else case release of Inl e \<Rightarrow> (2, Some e, True) | Inr _ \<Rightarrow> (gs_exit g, None, True))"

text \<open>A channel that is nil is never taken, so its event leaves the loop where it is.\<close>

definition guard_step :: "int \<Rightarrow> guard_state \<Rightarrow> guard_event \<Rightarrow> guard_result + guard_state" where
  "guard_step pid g ev = (case ev of
     CtxDone kf \<Rightarrow> if \<not> gs_ctxChan g then Inr g else Inr (terminate kf (g\<lparr>gs_uncertain := True, gs_ctxChan := False\<rparr>))
   | SessionDone kf \<Rightarrow> if \<not> gs_sessionChan g then Inr g else Inr (terminate kf (g\<lparr>gs_uncertain := True, gs_sessionChan := False\<rparr>))
   | KillAfter kf \<Rightarrow> if \<not> gs_killChan g then Inr g else Inr (g\<lparr>gs_uncertain := gs_uncertain g \<or> kf, gs_killChan := False\<rparr>)
   | ReapDeadline \<Rightarrow> if \<not> gs_deadlineChan g then Inr g else Inl (2, Some TargetUncertain, False)
   | Reaped p st kf \<Rightarrow> if p = pid then Inr (terminate kf (g\<lparr>gs_mainExited := True, gs_exit := status_code st\<rparr>)) else Inr g
   | NoChild c1 dr c2 rl \<Rightarrow> Inl (no_child g c1 dr c2 rl)
   | ReapFailed \<Rightarrow> Inl (2, Some TargetUncertain, False))"

text \<open>\<open>None\<close> while the loop still waits.\<close>

fun guard_loop :: "int \<Rightarrow> guard_state \<Rightarrow> guard_event list \<Rightarrow> guard_result option" where
  "guard_loop pid g [] = None"
| "guard_loop pid g (ev # evs) = (case guard_step pid g ev of Inl res \<Rightarrow> Some res | Inr g' \<Rightarrow> guard_loop pid g' evs)"

section \<open>Run\<close>

text \<open>\<open>ge_begin\<close> is the outcome of \<open>Begin\<close>, \<open>ge_timer\<close> whether its timer could still be stopped.\<close>

record guard_env =
  ge_pid1 :: bool
  ge_random :: "int list"
  ge_acquire :: "rg_owner \<Rightarrow> err + unit"
  ge_begin :: "rg_owner \<Rightarrow> err + rg_tuple"
  ge_timer :: bool
  ge_canceled :: bool
  ge_start :: "err + int"
  ge_events :: "guard_event list"

definition Guard_Run :: "rg_config \<Rightarrow> string \<Rightarrow> string list \<Rightarrow> guard_env \<Rightarrow> guard_result option" where
  "Guard_Run c pod argv E =
     (if \<not> ge_pid1 E then Some (2, Some (PlainErr ''recovery-guard requires PID1 in a private PID namespace''), False)
      else case Config_owner c pod (NewUUID (ge_random E)) of
        Inl e \<Rightarrow> Some (2, Some e, False)
      | Inr owner \<Rightarrow> (case ValidateArgv c argv of
          Inl e \<Rightarrow> Some (2, Some e, False)
        | Inr _ \<Rightarrow> (case ge_acquire E owner of
            Inl e \<Rightarrow> Some (2, Some e, False)
          | Inr _ \<Rightarrow>
             if \<not> ge_timer E \<or> (case ge_begin E owner of Inl _ \<Rightarrow> True | Inr _ \<Rightarrow> False) \<or> ge_canceled E then Some (2, Some TargetUncertain, False)
             else case ge_start E of
               Inl _ \<Rightarrow> Some (2, Some TargetUncertain, False)
             | Inr pid \<Rightarrow> guard_loop pid guard_init (ge_events E))))"

end
