(* ===== verification/Guard_Protocol.thy ===== *)
theory Guard_Protocol
  imports Guard_Admission
begin

text \<open>
  The admission gate under every interleaving: its invariant, the phases it promises to its
  clients with the simulation, and what holds once it is closed.
\<close>

section \<open>Invariant\<close>

definition outstanding :: "adm_system \<Rightarrow> nat set" where
  "outstanding s = {t. as_tasks s t = Some False}"

definition adm_inv :: "adm_system \<Rightarrow> bool" where
  "adm_inv s \<longleftrightarrow> (let a = as_adm s in
     finite (outstanding s) \<and> ad_active a = int (card (outstanding s)) \<and> ad_active a \<le> 4 \<and>
     ad_drained a = (if ad_closed a \<and> ad_active a = 0 then 1 else 0) \<and>
     ad_canceled a = ad_closed a \<and> (dom (as_tasks s) \<noteq> {} \<longrightarrow> ad_started a) \<and>
     (\<forall>w. as_waiters s w = Some Waiting \<or> (\<exists>r. as_waiters s w = Some (Returned r)) \<longrightarrow> ad_closed a) \<and>
     (\<forall>w. as_waiters s w = Some (Returned (Inr ())) \<longrightarrow> outstanding s = {}))"

lemma outstanding_admit: "as_tasks s t = None \<Longrightarrow> outstanding (s\<lparr>as_adm := a, as_tasks := (as_tasks s)(t \<mapsto> False)\<rparr>) = insert t (outstanding s) \<and> t \<notin> outstanding s"
  by (auto simp: outstanding_def)

lemma outstanding_finish: "outstanding (s\<lparr>as_adm := a, as_tasks := (as_tasks s)(t \<mapsto> True)\<rparr>) = outstanding s - {t}"
  by (auto simp: outstanding_def)

lemma outstanding_other [simp]: "outstanding (s\<lparr>as_adm := a\<rparr>) = outstanding s" "outstanding (s\<lparr>as_waiters := v\<rparr>) = outstanding s"
  "outstanding (s\<lparr>as_adm := a, as_waiters := v\<rparr>) = outstanding s"
  by (auto simp: outstanding_def)

lemma adm_inv_step:
  assumes "adm_step s s'" "adm_inv s"
  shows "adm_inv s'"
  using assms
proof cases
  case (start owner verified)
  then show ?thesis using assms(2) by (auto simp: adm_inv_def begin_session_def Let_def)
next
  case (after_drain fn)
  then show ?thesis using assms(2) by (auto simp: adm_inv_def AfterDrain_def Let_def)
next
  case (refuse tuple e a)
  then show ?thesis using assms(2) by (auto simp: adm_inv_def Admit_def Let_def split: if_splits)
next
  case (admit tuple u a t)
  note o = outstanding_admit[OF admit(3), where a = a]
  have a: "a = (as_adm s)\<lparr>ad_active := ad_active (as_adm s) + 1\<rparr>" "ad_started (as_adm s)" "\<not> ad_closed (as_adm s)" "ad_active (as_adm s) < 4"
    using admit(2) by (auto simp: Admit_def split: if_splits)
  then show ?thesis using assms(2) o unfolding admit(1) by (auto simp: adm_inv_def Let_def)
next
  case (finish t once)
  note o = outstanding_finish[where a = "Done once (as_adm s)" and s = s and t = t]
  show ?thesis
  proof (cases once)
    case True
    then have "t \<notin> outstanding s" using finish(2) by (auto simp: outstanding_def)
    then show ?thesis using assms(2) o finish(2) True unfolding finish(1) by (auto simp: adm_inv_def Let_def Done_def)
  next
    case False
    then have "t \<in> outstanding s" using finish(2) by (auto simp: outstanding_def)
    then have "card (outstanding s) = Suc (card (outstanding s - {t}))"
      using assms(2) unfolding adm_inv_def Let_def by (intro card.remove) (elim conjE)
    then show ?thesis using assms(2) o finish(2) False unfolding finish(1)
      by (auto simp: adm_inv_def Let_def Done_def close_drained_def)
  qed
next
  case close
  then show ?thesis using assms(2) by (auto simp: adm_inv_def Admission_Close_def close_drained_def Let_def)
next
  case (drain_check tuple w)
  then show ?thesis using assms(2) by (auto simp: adm_inv_def Let_def)
next
  case (drain_close w)
  then show ?thesis using assms(2) by (auto simp: adm_inv_def Admission_Close_def close_drained_def Let_def split: if_splits)
next
  case (drain_timeout w canceled callback)
  then show ?thesis using assms(2) by (auto simp: adm_inv_def Let_def drain_result_def)
next
  case (drain_return w canceled callback)
  then show ?thesis using assms(2) by (auto simp: adm_inv_def Let_def split: if_splits)
qed

lemma adm_inv_reachable: "adm_reachable c pod process s \<Longrightarrow> adm_inv s"
proof (induction rule: rtranclp_induct)
  case base
  show ?case by (simp add: initial_adm_def newAdmission_def adm_inv_def outstanding_def)
qed (rule adm_inv_step)


section \<open>Specification\<close>

text \<open>The promise of an admission: fresh, open for one session with its outstanding tasks, or closed
  for good with the tasks that still run.\<close>

datatype adm_phase = Fresh | Open rg_tuple "nat set" | Closed "nat set"

inductive phase_step :: "rg_config \<Rightarrow> string \<Rightarrow> string \<Rightarrow> adm_phase \<Rightarrow> adm_phase \<Rightarrow> bool" for c pod process where
  opens: "gow_ClusterUID ow = cfg_ClusterUID c \<Longrightarrow> gow_OperationUID ow = cfg_OperationUID c \<Longrightarrow> gow_PodUID ow = pod \<Longrightarrow>
    phase_step c pod process Fresh (Open \<lparr>tup_Owner = ow, tup_SidecarUID = process\<rparr> {})"
| admits: "t \<notin> T \<Longrightarrow> card T < 4 \<Longrightarrow> phase_step c pod process (Open tup T) (Open tup (insert t T))"
| finishes: "phase_step c pod process (Open tup T) (Open tup (T - {t}))"
| drains: "phase_step c pod process (Closed T) (Closed (T - {t}))"
| closes: "phase_step c pod process (Open tup T) (Closed T)"
| aborts: "phase_step c pod process Fresh (Closed {})"
| stutters: "phase_step c pod process p p"

definition phase_of :: "adm_system \<Rightarrow> adm_phase" where
  "phase_of s = (if ad_closed (as_adm s) then Closed (outstanding s)
     else if ad_started (as_adm s) then Open (ad_tuple (as_adm s)) (outstanding s) else Fresh)"

text \<open>Identity is fixed at construction.\<close>

definition adm_identity :: "rg_config \<Rightarrow> string \<Rightarrow> string \<Rightarrow> admission \<Rightarrow> bool" where
  "adm_identity c pod process a \<longleftrightarrow> cfg_ClusterUID (ad_config a) = cfg_ClusterUID c \<and> cfg_OperationUID (ad_config a) = cfg_OperationUID c \<and>
     ad_pod a = pod \<and> ad_process a = process"

lemma adm_identity_step: "adm_step s s' \<Longrightarrow> adm_identity c pod process (as_adm s) \<Longrightarrow> adm_identity c pod process (as_adm s')"
  by (induction rule: adm_step.induct)
    (auto simp: adm_identity_def begin_session_def AfterDrain_def Admit_def Done_def Admission_Close_def close_drained_def Let_def split: if_splits)

lemma adm_identity_reachable: "adm_reachable c pod process s \<Longrightarrow> adm_identity c pod process (as_adm s)"
proof (induction rule: rtranclp_induct)
  case base
  show ?case by (simp add: initial_adm_def newAdmission_def adm_identity_def)
qed (rule adm_identity_step)

lemma phase_of_close: "phase_of (s\<lparr>as_adm := Admission_Close (as_adm s)\<rparr>) = Closed (outstanding s)"
  by (simp add: phase_of_def Admission_Close_def close_drained_def Let_def)

lemma unstarted_idle: "adm_inv s \<Longrightarrow> \<not> ad_started (as_adm s) \<Longrightarrow> outstanding s = {}"
  by (auto simp: adm_inv_def Let_def outstanding_def)

lemma close_refines:
  assumes "adm_inv s"
  shows "phase_step c pod process (phase_of s) (Closed (outstanding s))"
  using unstarted_idle[OF assms] by (auto simp: phase_of_def intro: phase_step.intros)

lemma adm_step_refines:
  assumes "adm_step s s'" "adm_inv s" "adm_identity c pod process (as_adm s)"
  shows "phase_step c pod process (phase_of s) (phase_of s')"
  using assms
proof cases
  case (start owner verified)
  then show ?thesis using assms(3) unstarted_idle[OF assms(2)]
    by (auto simp: phase_of_def begin_session_def Let_def adm_identity_def intro!: phase_step.intros dest: arg_cong[of owner _ gow_ClusterUID]
        arg_cong[of owner _ gow_OperationUID] arg_cong[of owner _ gow_PodUID])
next
  case (after_drain fn)
  then have "phase_of s' = phase_of s" by (auto simp: phase_of_def AfterDrain_def)
  then show ?thesis by (simp add: phase_step.stutters)
next
  case (refuse tuple e a)
  then have "phase_of s' = phase_of s" by (auto simp: phase_of_def Admit_def split: if_splits)
  then show ?thesis by (simp add: phase_step.stutters)
next
  case (admit tuple u a t)
  note o = outstanding_admit[OF admit(3), where a = a]
  show ?thesis using admit o assms(2) by (auto simp: phase_of_def Admit_def adm_inv_def Let_def split: if_splits intro!: phase_step.admits)
next
  case (finish t once)
  note o = outstanding_finish[where a = "Done once (as_adm s)" and s = s and t = t]
  show ?thesis using finish o
    by (auto simp: phase_of_def Done_def close_drained_def Let_def intro: phase_step.finishes phase_step.drains
        phase_step.stutters[of c pod process Fresh])
next
  case close
  then show ?thesis using close_refines[OF assms(2)] by (simp add: phase_of_close)
next
  case (drain_check tuple w)
  then have "phase_of s' = phase_of s" by (auto simp: phase_of_def)
  then show ?thesis by (simp add: phase_step.stutters)
next
  case (drain_close w)
  then have "phase_of s' = Closed (outstanding s)" by (simp add: phase_of_def Admission_Close_def close_drained_def Let_def)
  then show ?thesis using close_refines[OF assms(2)] by simp
next
  case (drain_timeout w canceled callback)
  then have "phase_of s' = phase_of s" by (auto simp: phase_of_def)
  then show ?thesis by (simp add: phase_step.stutters)
next
  case (drain_return w canceled callback)
  then have "phase_of s' = phase_of s" by (auto simp: phase_of_def)
  then show ?thesis by (simp add: phase_step.stutters)
qed

section \<open>After the close\<close>

lemma closed_step: "adm_step s s' \<Longrightarrow> ad_closed (as_adm s) \<Longrightarrow>
    ad_closed (as_adm s') \<and> dom (as_tasks s') = dom (as_tasks s) \<and> outstanding s' \<subseteq> outstanding s"
  by (induction rule: adm_step.induct)
    (auto simp: begin_session_def AfterDrain_def Admit_def Done_def Admission_Close_def close_drained_def Let_def outstanding_def split: if_splits)

lemma closed_steps: "adm_step\<^sup>*\<^sup>* s s' \<Longrightarrow> ad_closed (as_adm s) \<Longrightarrow>
    ad_closed (as_adm s') \<and> dom (as_tasks s') = dom (as_tasks s) \<and> outstanding s' \<subseteq> outstanding s"
proof (induction rule: rtranclp_induct)
  case (step y z)
  then show ?case using closed_step[OF step.hyps(2)] by blast
qed simp

end
