(* ===== verification/Guard_Supervision.thy ===== *)
theory Guard_Supervision
  imports Guard_Session Guard_Protocol
begin

text \<open>
  What the supervision loop has seen when it releases the target locks, and what the sidecar has
  done when it acknowledges the drain.
\<close>

section \<open>When the loop releases\<close>

text \<open>The loop's state after a prefix of events it did not return on.\<close>

inductive guard_path :: "int \<Rightarrow> guard_event list \<Rightarrow> guard_state \<Rightarrow> bool" for pid where
  nil: "guard_path pid [] guard_init"
| snoc: "guard_path pid evs g \<Longrightarrow> guard_step pid g ev = Inr g' \<Longrightarrow> guard_path pid (evs @ [ev]) g'"

fun worrying :: "guard_event \<Rightarrow> bool" where
  "worrying (CtxDone _) = True"
| "worrying (SessionDone _) = True"
| "worrying _ = False"

lemma guard_path_calm:
  "guard_path pid evs g \<Longrightarrow> \<not> gs_uncertain g \<Longrightarrow> list_all (\<lambda>ev. \<not> worrying ev) evs \<and> gs_ctxChan g \<and> gs_sessionChan g"
  by (induction rule: guard_path.induct) (auto simp: guard_init_def guard_step_def terminate_def split: guard_event.splits if_splits)

text \<open>The main process was reaped, and the exit code is the one of its last report.\<close>

definition main_reaped :: "int \<Rightarrow> guard_event list \<Rightarrow> int \<Rightarrow> bool" where
  "main_reaped pid evs code \<longleftrightarrow> (\<exists>pre st kf post. evs = pre @ Reaped pid st kf # post \<and> code = status_code st \<and> (\<forall>st' kf'. Reaped pid st' kf' \<notin> set post))"

lemma main_reaped_snoc: "main_reaped pid evs code \<Longrightarrow> (\<And>st kf. ev \<noteq> Reaped pid st kf) \<Longrightarrow> main_reaped pid (evs @ [ev]) code"
proof -
  assume "main_reaped pid evs code" and ne: "\<And>st kf. ev \<noteq> Reaped pid st kf"
  then obtain pre st kf post where "evs = pre @ Reaped pid st kf # post" "code = status_code st" "\<forall>st' kf'. Reaped pid st' kf' \<notin> set post"
    unfolding main_reaped_def by blast
  then show ?thesis unfolding main_reaped_def using ne by (intro exI[of _ pre] exI[of _ st] exI[of _ kf] exI[of _ "post @ [ev]"]) auto
qed

lemma main_reaped_now: "main_reaped pid (evs @ [Reaped pid st kf]) (status_code st)"
  unfolding main_reaped_def by (intro exI[of _ evs] exI[of _ st] exI[of _ kf] exI[of _ "[]"]) simp

lemma guard_path_main: "guard_path pid evs g \<Longrightarrow> gs_mainExited g \<Longrightarrow> main_reaped pid evs (gs_exit g)"
proof (induction rule: guard_path.induct)
  case nil
  then show ?case by (simp add: guard_init_def)
next
  case (snoc evs g ev g')
  show ?case
  proof (cases "\<exists>st kf. ev = Reaped pid st kf")
    case True
    then show ?thesis using snoc by (auto simp: guard_step_def terminate_def main_reaped_now)
  next
    case False
    then have "gs_mainExited g" "gs_exit g' = gs_exit g" using snoc
      by (auto simp: guard_step_def terminate_def split: guard_event.splits if_splits)
    then show ?thesis using snoc.IH main_reaped_snoc False by metis
  qed
qed

lemma guard_loop_path:
  assumes "guard_loop pid g evs = Some res" "guard_path pid done g"
  shows "\<exists>pre ev post g'. evs = pre @ ev # post \<and> guard_path pid (done @ pre) g' \<and> guard_step pid g' ev = Inl res"
  using assms
proof (induction evs arbitrary: g "done")
  case (Cons ev evs)
  show ?case
  proof (cases "guard_step pid g ev")
    case (Inl r)
    then show ?thesis using Cons.prems by (intro exI[of _ "[]"]) auto
  next
    case (Inr g1)
    then have "guard_loop pid g1 evs = Some res" "guard_path pid (done @ [ev]) g1" using Cons.prems by (auto intro: guard_path.snoc)
    from Cons.IH[OF this] obtain pre ev' post g' where "evs = pre @ ev' # post" "guard_path pid ((done @ [ev]) @ pre) g'" "guard_step pid g' ev' = Inl res" by blast
    then show ?thesis by (intro exI[of _ "ev # pre"]) auto
  qed
qed simp

lemma guard_loop_release:
  assumes "guard_loop pid guard_init evs = Some (code, e, True)"
  shows "\<exists>pre rl post. evs = pre @ NoChild False (Inr ()) False rl # post \<and> list_all (\<lambda>ev. \<not> worrying ev) pre \<and>
    (case rl of Inl re \<Rightarrow> code = 2 \<and> e = Some re | Inr _ \<Rightarrow> e = None \<and> main_reaped pid pre code) \<and> (\<exists>x. main_reaped pid pre x)"
proof -
  from guard_loop_path[OF assms guard_path.nil] obtain pre ev post g' where
    evs: "evs = pre @ ev # post" and p: "guard_path pid pre g'" and st: "guard_step pid g' ev = Inl (code, e, True)" by auto
  from st obtain c1 dr c2 rl where ev: "ev = NoChild c1 dr c2 rl" and nc: "no_child g' c1 dr c2 rl = (code, e, True)"
    by (auto simp: guard_step_def split: guard_event.splits if_splits)
  then have "gs_mainExited g'" "\<not> gs_uncertain g'" "\<not> c1" "dr = Inr ()" "\<not> c2"
    "case rl of Inl re \<Rightarrow> code = 2 \<and> e = Some re | Inr _ \<Rightarrow> e = None \<and> code = gs_exit g'"
    by (auto simp: no_child_def split: if_splits sum.splits)
  then show ?thesis using evs ev guard_path_calm[OF p] guard_path_main[OF p] by (cases rl) fastforce+
qed

lemma Guard_Run_loop:
  assumes "Guard_Run c pod argv E = Some (code, e, True)"
  shows "\<exists>owner tuple pid. Config_owner c pod (NewUUID (ge_random E)) = Inr owner \<and> ge_acquire E owner = Inr () \<and> ge_begin E owner = Inr tuple \<and>
    ge_start E = Inr pid \<and> guard_loop pid guard_init (ge_events E) = Some (code, e, True)"
  using assms by (auto simp: Guard_Run_def split: if_splits sum.splits)

section \<open>The acknowledgment\<close>

lemma drained_not_begun: "send_bytes \<lparr>msg_Kind = ''drained'', msg_Tuple = t\<rparr> \<noteq> send_bytes \<lparr>msg_Kind = ''begun'', msg_Tuple = u\<rparr>"
proof -
  have "esc ''drained'' = ''drained''" "esc ''begun'' = ''begun''" by code_simp+
  then show ?thesis by (simp add: send_bytes_def enc_control_def quote_json_def)
qed

lemma session_effects:
  assumes "session dec E = (res, effs)" "DidSend (send_bytes \<lparr>msg_Kind = ''drained'', msg_Tuple = tuple\<rparr>) \<in> set effs"
  shows "\<exists>t. effs = [DidBegin t, DidSend (send_bytes \<lparr>msg_Kind = ''begun'', msg_Tuple = t\<rparr>), DidDrain t (Inr ()),
      DidSend (send_bytes \<lparr>msg_Kind = ''drained'', msg_Tuple = t\<rparr>), DidClose]"
  using assms drained_not_begun
  by (auto simp: session_def session_body_def Let_def split: sum.splits if_splits prod.splits)

end
