(* ===== verification/Guard_Locks.thy ===== *)
theory Guard_Locks
  imports Guard_Session Collection
begin

text \<open>
  The durable ownership of the target volumes (recoveryguard/locks_linux.go): a lock file and an
  owner marker per volume, taken in the order of the volume identities, verified by the sidecar
  and released at the end. The system calls are a record of operations over an arbitrary world,
  each named by the mount it acts on.
\<close>

section \<open>System calls\<close>

record fstat =
  fs_Regular :: bool
  fs_Nlink :: int
  fs_Uid :: int
  fs_Private :: bool

text \<open>\<open>fs_Private\<close> is \<open>Mode&0077 == 0\<close>. \<open>vs_mkdir\<close> and \<open>vs_flock\<close> return \<open>False\<close> for \<open>EEXIST\<close> and
  \<open>EWOULDBLOCK\<close>, \<open>vs_present\<close> returns \<open>False\<close> for \<open>ENOENT\<close>; any other failure is an error.\<close>

record 'w vol_sys =
  vs_euid :: int
  vs_open :: "string \<Rightarrow> ('w, unit) act"
  vs_mkdir :: "string \<Rightarrow> ('w, bool) act"
  vs_opendir :: "string \<Rightarrow> ('w, unit) act"
  vs_statdir :: "string \<Rightarrow> ('w, fstat) act"
  vs_syncroot :: "string \<Rightarrow> ('w, unit) act"
  vs_openlock :: "string \<Rightarrow> ('w, unit) act"
  vs_statlock :: "string \<Rightarrow> ('w, fstat) act"
  vs_flock :: "string \<Rightarrow> ('w, bool) act"
  vs_present :: "string \<Rightarrow> ('w, bool) act"
  vs_create :: "string \<Rightarrow> ('w, unit) act"
  vs_write :: "string \<Rightarrow> bytes \<Rightarrow> ('w, unit) act"
  vs_sync :: "string \<Rightarrow> ('w, unit) act"
  vs_closefile :: "string \<Rightarrow> ('w, unit) act"
  vs_syncdir :: "string \<Rightarrow> ('w, unit) act"
  vs_openowner :: "string \<Rightarrow> ('w, unit) act"
  vs_statowner :: "string \<Rightarrow> ('w, fstat) act"
  vs_readowner :: "string \<Rightarrow> ('w, bytes) act"
  vs_unlink :: "string \<Rightarrow> ('w, unit) act"
  vs_close :: "string \<Rightarrow> 'w \<Rightarrow> 'w"

section \<open>Volumes and markers\<close>

record marker =
  mk_Owner :: rg_owner
  mk_Targets :: "rg_target list"

record ownership =
  ow_volumes :: "string list"
  ow_marker :: marker

definition enc_rg_target :: "rg_target \<Rightarrow> json" where
  "enc_rg_target v = JObj [(''pvcUID'', JStr (tgt_PVCUID v)), (''mount'', JStr (tgt_Mount v))]"

definition enc_marker :: "marker \<Rightarrow> json" where
  "enc_marker v = JObj [(''owner'', enc_rg_owner (mk_Owner v)), (''targets'', enc_list enc_rg_target (mk_Targets v))]"

definition privateRegular :: "'w vol_sys \<Rightarrow> ('w, fstat) act \<Rightarrow> ('w, unit) act" where
  "privateRegular V stat =
     andthen stat (\<lambda>s. if \<not> fs_Regular s \<or> fs_Nlink s \<noteq> 1 \<or> fs_Uid s \<noteq> vs_euid V \<or> \<not> fs_Private s then fail TargetUncertain else ret ())"

definition openVolume :: "'w vol_sys \<Rightarrow> string \<Rightarrow> ('w, unit) act" where
  "openVolume V path =
     andthen (vs_open V path) (\<lambda>_.
     andthen (vs_mkdir V path) (\<lambda>_.
     andthen (vs_opendir V path) (\<lambda>_.
     andthen (vs_statdir V path) (\<lambda>s.
     if fs_Uid s \<noteq> vs_euid V \<or> \<not> fs_Private s then fail TargetUncertain
     else andthen (vs_syncroot V path) (\<lambda>_.
       andthen (vs_openlock V path) (\<lambda>_.
       privateRegular V (vs_statlock V path)))))))"

section \<open>acquire\<close>

text \<open>The side state is \<open>held.volumes\<close>.\<close>

definition lock_target :: "'w vol_sys \<Rightarrow> rg_target \<Rightarrow> ('w \<times> string list, unit) act" where
  "lock_target V t =
     andthen (on_world (openVolume V (tgt_Mount t))) (\<lambda>_.
     andthen (upd_side (\<lambda>vs. vs @ [tgt_Mount t])) (\<lambda>_.
     andthen (on_world (vs_flock V (tgt_Mount t))) (\<lambda>got. if got then ret () else fail TargetBusy)))"

definition check_absent :: "'w vol_sys \<Rightarrow> string \<Rightarrow> ('w \<times> string list, unit) act" where
  "check_absent V m = andthen (on_world (vs_present V m)) (\<lambda>there. if there then fail TargetUncertain else ret ())"

text \<open>All four calls are made; any failure counts.\<close>

definition write_marker :: "'w vol_sys \<Rightarrow> bytes \<Rightarrow> string \<Rightarrow> ('w \<times> string list, unit) act" where
  "write_marker V data m =
     attempt (on_world (vs_create V m)) (\<lambda>res. case res of
       Inl _ \<Rightarrow> fail TargetUncertain
     | Inr _ \<Rightarrow>
        attempt (on_world (vs_write V m data)) (\<lambda>we.
        attempt (on_world (vs_sync V m)) (\<lambda>se.
        attempt (on_world (vs_closefile V m)) (\<lambda>ce.
        attempt (on_world (vs_syncdir V m)) (\<lambda>de.
        if we = Inr () \<and> se = Inr () \<and> ce = Inr () \<and> de = Inr () then ret () else fail TargetUncertain)))))"

definition acquire_all :: "'w vol_sys \<Rightarrow> marker \<Rightarrow> ('w \<times> string list, unit) act" where
  "acquire_all V mk =
     andthen (each (lock_target V) (mk_Targets mk)) (\<lambda>_.
     andthen get_side (\<lambda>vols.
     andthen (each (check_absent V) vols) (\<lambda>_.
     each (write_marker V (render (enc_marker mk))) vols)))"

definition close_volumes :: "'w vol_sys \<Rightarrow> string list \<Rightarrow> 'w \<Rightarrow> 'w" where
  "close_volumes V = fold (vs_close V)"

definition acquire :: "'w vol_sys \<Rightarrow> rg_config \<Rightarrow> rg_owner \<Rightarrow> ('w, ownership) act" where
  "acquire V c owner w = (let mk = \<lparr>mk_Owner = owner, mk_Targets = sortedTargets c\<rparr> in case acquire_all V mk (w, []) of
     (Inl e, (w', vols)) \<Rightarrow> (Inl e, close_volumes V vols w')
   | (Inr _, (w', vols)) \<Rightarrow> (Inr \<lparr>ow_volumes = vols, ow_marker = mk\<rparr>, w'))"

section \<open>readMarker, verifyOwner and release\<close>

definition readMarker :: "'w vol_sys \<Rightarrow> (bytes \<Rightarrow> (marker \<times> bool) option) \<Rightarrow> string \<Rightarrow> ('w, marker) act" where
  "readMarker V dec m =
     attempt (vs_openowner V m) (\<lambda>res. case res of
       Inl _ \<Rightarrow> fail TargetUncertain
     | Inr _ \<Rightarrow>
        andthen (privateRegular V (vs_statowner V m)) (\<lambda>_.
        andthen (vs_readowner V m) (\<lambda>b. lift (Decode dec (take (nat (maxMessage + 1)) b)))))"

definition verify_target :: "'w vol_sys \<Rightarrow> (bytes \<Rightarrow> (marker \<times> bool) option) \<Rightarrow> marker \<Rightarrow> rg_target \<Rightarrow> ('w, unit) act" where
  "verify_target V dec expected t =
     attempt (openVolume V (tgt_Mount t)) (\<lambda>res. case res of
       Inl _ \<Rightarrow> fail TargetUncertain
     | Inr _ \<Rightarrow>
        attempt (andthen (readMarker V dec (tgt_Mount t)) (\<lambda>m.
          if m \<noteq> expected then fail TargetUncertain
          else attempt (vs_flock V (tgt_Mount t)) (\<lambda>lk. if lk = Inr False then ret () else fail TargetUncertain))) (\<lambda>e.
        (\<lambda>w. (e, vs_close V (tgt_Mount t) w))))"

definition verifyOwner :: "'w vol_sys \<Rightarrow> (bytes \<Rightarrow> (marker \<times> bool) option) \<Rightarrow> rg_config \<Rightarrow> rg_owner \<Rightarrow> ('w, unit) act" where
  "verifyOwner V dec c owner = (let expected = \<lparr>mk_Owner = owner, mk_Targets = sortedTargets c\<rparr> in
     each (verify_target V dec expected) (mk_Targets expected))"

definition same_marker :: "'w vol_sys \<Rightarrow> (bytes \<Rightarrow> (marker \<times> bool) option) \<Rightarrow> marker \<Rightarrow> string \<Rightarrow> ('w, unit) act" where
  "same_marker V dec mk m = attempt (readMarker V dec m) (\<lambda>res. if res = Inr mk then ret () else fail TargetUncertain)"

definition remove_marker :: "'w vol_sys \<Rightarrow> string \<Rightarrow> ('w, unit) act" where
  "remove_marker V m =
     attempt (vs_unlink V m) (\<lambda>res. case res of
       Inl _ \<Rightarrow> fail TargetUncertain
     | Inr _ \<Rightarrow> attempt (vs_syncdir V m) (\<lambda>sr. if sr = Inr () then ret () else fail TargetUncertain))"

definition release :: "'w vol_sys \<Rightarrow> (bytes \<Rightarrow> (marker \<times> bool) option) \<Rightarrow> ownership \<Rightarrow> ('w, unit) act" where
  "release V dec h =
     andthen (each (same_marker V dec (ow_marker h)) (ow_volumes h)) (\<lambda>_.
     each (remove_marker V) (ow_volumes h))"

section \<open>Recording\<close>

datatype vol_event =
    VLock string "err + bool"
  | VCreate string
  | VWrite string bytes "err + unit"
  | VMarker string "err + bytes"
  | VUnlink string
  | VClose string

definition vtraced :: "'w vol_sys \<Rightarrow> ('w \<times> vol_event list) vol_sys" where
  "vtraced V = \<lparr>
     vs_euid = vs_euid V,
     vs_open = (\<lambda>m. pass_call (vs_open V m)),
     vs_mkdir = (\<lambda>m. pass_call (vs_mkdir V m)),
     vs_opendir = (\<lambda>m. pass_call (vs_opendir V m)),
     vs_statdir = (\<lambda>m. pass_call (vs_statdir V m)),
     vs_syncroot = (\<lambda>m. pass_call (vs_syncroot V m)),
     vs_openlock = (\<lambda>m. pass_call (vs_openlock V m)),
     vs_statlock = (\<lambda>m. pass_call (vs_statlock V m)),
     vs_flock = (\<lambda>m. log_call (VLock m) (vs_flock V m)),
     vs_present = (\<lambda>m. pass_call (vs_present V m)),
     vs_create = (\<lambda>m. log_call (\<lambda>_. VCreate m) (vs_create V m)),
     vs_write = (\<lambda>m b. log_call (VWrite m b) (vs_write V m b)),
     vs_sync = (\<lambda>m. pass_call (vs_sync V m)),
     vs_closefile = (\<lambda>m. pass_call (vs_closefile V m)),
     vs_syncdir = (\<lambda>m. pass_call (vs_syncdir V m)),
     vs_openowner = (\<lambda>m. pass_call (vs_openowner V m)),
     vs_statowner = (\<lambda>m. pass_call (vs_statowner V m)),
     vs_readowner = (\<lambda>m. log_call (VMarker m) (vs_readowner V m)),
     vs_unlink = (\<lambda>m. log_call (\<lambda>_. VUnlink m) (vs_unlink V m)),
     vs_close = (\<lambda>m (w, tr). (vs_close V m w, tr @ [VClose m]))\<rparr>"

end
