(* ===== verification/Guard_Order.thy ===== *)
theory Guard_Order
  imports Guard_Locks Collection_Order
begin

text \<open>
  The order of the lock operations on the target volumes: what acquisition, verification and
  release record, as instances of the recorder and observer interfaces.
\<close>

section \<open>What the lock operations record\<close>

named_theorems vol_intros \<open>what the volume operations record\<close>

lemma vemits_side: "st.emits A get_side" "st.emits A (upd_side f)"
  by (auto simp: st.emits_def get_side_def upd_side_def)

lemma vemits_calls:
  "ct.emits A (vs_open (vtraced V) m)" "ct.emits A (vs_mkdir (vtraced V) m)" "ct.emits A (vs_opendir (vtraced V) m)"
  "ct.emits A (vs_statdir (vtraced V) m)" "ct.emits A (vs_syncroot (vtraced V) m)" "ct.emits A (vs_openlock (vtraced V) m)"
  "ct.emits A (vs_statlock (vtraced V) m)" "ct.emits A (vs_present (vtraced V) m)" "ct.emits A (vs_sync (vtraced V) m)"
  "ct.emits A (vs_closefile (vtraced V) m)" "ct.emits A (vs_syncdir (vtraced V) m)" "ct.emits A (vs_openowner (vtraced V) m)"
  "ct.emits A (vs_statowner (vtraced V) m)"
  "(\<And>r. A (VLock m r)) \<Longrightarrow> ct.emits A (vs_flock (vtraced V) m)"
  "(\<And>r. A (VMarker m r)) \<Longrightarrow> ct.emits A (vs_readowner (vtraced V) m)"
  "A (VCreate m) \<Longrightarrow> ct.emits A (vs_create (vtraced V) m)"
  "(\<And>r. A (VWrite m b r)) \<Longrightarrow> ct.emits A (vs_write (vtraced V) m b)"
  "A (VUnlink m) \<Longrightarrow> ct.emits A (vs_unlink (vtraced V) m)"
  by (simp_all add: vtraced_def emits_pass_call emits_log_call)

lemmas [vol_intros] = vemits_calls vemits_side side_emits_on_world ct.emits_rules st.emits_rules

lemma vemits_private [vol_intros]: "ct.emits A stat \<Longrightarrow> ct.emits A (privateRegular (vtraced V) stat)"
  unfolding privateRegular_def by (auto intro!: vol_intros)

lemma vemits_openVolume [vol_intros]: "ct.emits A (openVolume (vtraced V) m)"
  unfolding openVolume_def by (auto intro!: vol_intros)

lemma vemits_readMarker [vol_intros]: "(\<And>r. A (VMarker m r)) \<Longrightarrow> ct.emits A (readMarker (vtraced V) dec m)"
  unfolding readMarker_def by (auto intro!: vol_intros split: sum.splits)

fun quiet :: "vol_event \<Rightarrow> bool" where
  "quiet (VCreate _) = False"
| "quiet (VWrite _ _ _) = False"
| "quiet (VUnlink _) = False"
| "quiet _ = True"

fun keeps_markers :: "vol_event \<Rightarrow> bool" where
  "keeps_markers (VUnlink _) = False"
| "keeps_markers _ = True"

lemma quiet_keeps: "list_all quiet ev \<Longrightarrow> list_all keeps_markers ev"
  by (auto simp: list_all_iff) (metis keeps_markers.elims(3) quiet.simps(3))

lemma each_log_ex:
  assumes "each f xs s = (Inr (), s')"
    and "\<And>x s s'. x \<in> set xs \<Longrightarrow> f x s = (Inr (), s') \<Longrightarrow> \<exists>ev. tr s' = tr s @ ev \<and> Q x ev"
    and mono: "\<And>x a b c. Q x b \<Longrightarrow> Q x (a @ b @ c)"
  shows "\<exists>ev. tr s' = tr s @ ev \<and> (\<forall>x \<in> set xs. Q x ev)"
  using assms(1,2)
proof (induction xs arbitrary: s)
  case Nil
  then show ?case by (simp add: ret_def)
next
  case (Cons y ys)
  then obtain s1 where s1: "f y s = (Inr (), s1)" "each f ys s1 = (Inr (), s')" by (auto simp: andthen_Inr)
  obtain e1 where e1: "tr s1 = tr s @ e1" "Q y e1" using Cons.prems(2)[OF _ s1(1)] by auto
  obtain e2 where e2: "tr s' = tr s1 @ e2" "\<forall>x \<in> set ys. Q x e2" using Cons.IH[OF s1(2)] Cons.prems(2) by fastforce
  have "Q y (e1 @ e2)" "\<forall>x \<in> set ys. Q x (e1 @ e2)" using mono[of y e1 "[]" e2] mono[of _ e2 e1 "[]"] e1 e2 by auto
  then show ?case using e1 e2 by auto
qed

section \<open>Acquisition\<close>

lemma lock_target_log:
  assumes "lock_target (vtraced V) t s = (Inr (), s')"
  shows "\<exists>ev. side_calls s' = side_calls s @ ev \<and> VLock (tgt_Mount t) (Inr True) \<in> set ev \<and> list_all quiet ev" "snd s' = snd s @ [tgt_Mount t]"
proof -
  obtain w tr vs where s: "s = ((w, tr), vs)" by (metis prod.exhaust)
  from assms obtain w1 tr1 w2 tr2 where o: "openVolume (vtraced V) (tgt_Mount t) (w, tr) = (Inr (), (w1, tr1))"
    and f: "vs_flock (vtraced V) (tgt_Mount t) (w1, tr1) = (Inr True, (w2, tr2))" and s': "s' = ((w2, tr2), vs @ [tgt_Mount t])"
    by (auto simp: lock_target_def s andthen_Inr on_world_Inr upd_side_def ret_def fail_def split: if_splits)
  from ct.emitsD[OF vemits_openVolume[where A = "\<lambda>_. False"] o] have "tr1 = tr" by (auto simp: list_all_iff)
  then show "\<exists>ev. side_calls s' = side_calls s @ ev \<and> VLock (tgt_Mount t) (Inr True) \<in> set ev \<and> list_all quiet ev" "snd s' = snd s @ [tgt_Mount t]"
    using f s s' by (auto simp: vtraced_def log_call_def split: prod.splits)
qed

lemma quiet_lock_phase: "st.emits quiet (each (lock_target (vtraced V)) ts)"
  unfolding lock_target_def by (auto intro!: vol_intros)

lemma quiet_absent_phase: "st.emits quiet (each (check_absent (vtraced V)) ms)"
  unfolding check_absent_def by (auto intro!: vol_intros)

lemma keeps_write_phase: "st.emits keeps_markers (each (write_marker (vtraced V) b) ms)"
  unfolding write_marker_def by (auto intro!: vol_intros split: sum.splits)

lemma lock_phase_side: "each (lock_target V) ts s = (Inr (), s') \<Longrightarrow> snd s' = snd s @ map tgt_Mount ts"
proof (induction ts arbitrary: s)
  case (Cons t ts)
  have "lock_target V t s = (Inr (), s1) \<Longrightarrow> snd s1 = snd s @ [tgt_Mount t]" for s1
    by (cases s) (auto simp: lock_target_def andthen_Inr on_world_Inr upd_side_def ret_def fail_def split: if_splits)
  with Cons show ?case by (fastforce simp: andthen_Inr)
qed (simp add: ret_def)

lemma write_marker_log:
  assumes "write_marker (vtraced V) b m s = (Inr (), s')"
  shows "\<exists>ev. side_calls s' = side_calls s @ ev \<and> VWrite m b (Inr ()) \<in> set ev"
  using assms by (cases s)
    (auto simp: write_marker_def attempt_def on_world_def vtraced_def log_call_def pass_call_def ret_def fail_def split: prod.splits sum.splits if_splits)


lemma lock_phase_log:
  assumes "each (lock_target (vtraced V)) ts s = (Inr (), s')"
  shows "\<exists>ev. side_calls s' = side_calls s @ ev \<and> (\<forall>t \<in> set ts. VLock (tgt_Mount t) (Inr True) \<in> set ev)"
  by (rule each_log_ex[OF assms]) (use lock_target_log in blast, auto)

lemma write_phase_log:
  assumes "each (write_marker (vtraced V) b) ms s = (Inr (), s')"
  shows "\<exists>ev. side_calls s' = side_calls s @ ev \<and> (\<forall>m \<in> set ms. VWrite m b (Inr ()) \<in> set ev)"
  by (rule each_log_ex[OF assms]) (use write_marker_log in blast, auto)

abbreviation held_volumes :: "'w \<times> string list \<Rightarrow> string list" where
  "held_volumes \<equiv> snd"

interpretation ks: observer held_volumes .

lemma held_on_world: "ks.keeps (on_world m)"
  by (auto simp: ks.keeps_def on_world_def split: prod.splits)

lemma keeps_held: "ks.keeps (each (check_absent V) ms)" "ks.keeps (each (write_marker V b) ms)"
  unfolding check_absent_def write_marker_def by (auto intro!: ks.kept_rules held_on_world split: sum.splits)

definition locks_then :: "string list \<Rightarrow> vol_event list \<Rightarrow> bool" where
  "locks_then ms tr \<longleftrightarrow> (\<forall>pre ev post. tr = pre @ ev # post \<longrightarrow> \<not> quiet ev \<longrightarrow> (\<forall>m \<in> set ms. VLock m (Inr True) \<in> set pre))"

lemma locks_then_quiet: "list_all quiet tr \<Longrightarrow> locks_then ms tr"
  by (auto simp: locks_then_def)

lemma locks_then_append:
  assumes "list_all quiet a" "\<forall>m \<in> set ms. VLock m (Inr True) \<in> set a"
  shows "locks_then ms (a @ b)"
  unfolding locks_then_def
proof (intro allI impI)
  fix pre ev post assume "a @ b = pre @ ev # post" "\<not> quiet ev"
  then obtain c where "pre = a @ c" using assms(1)
    by (auto simp: append_eq_append_conv2 Cons_eq_append_conv append_eq_Cons_conv list_all_iff)
  then show "\<forall>m \<in> set ms. VLock m (Inr True) \<in> set pre" using assms(2) by auto
qed

lemma acquire_all_log:
  assumes "acquire_all (vtraced V) mk s = (r, s')" "snd s = []"
  defines "ms \<equiv> map tgt_Mount (mk_Targets mk)"
  shows "\<exists>ev. side_calls s' = side_calls s @ ev \<and> list_all keeps_markers ev \<and> (list_all quiet ev \<or> (\<exists>a b. ev = a @ b \<and> list_all quiet a \<and> (\<forall>m \<in> set ms. VLock m (Inr True) \<in> set a))) \<and>
    (case r of Inl _ \<Rightarrow> True | Inr _ \<Rightarrow> snd s' = ms \<and> (\<forall>m \<in> set ms. VWrite m (render (enc_marker mk)) (Inr ()) \<in> set ev \<and> VLock m (Inr True) \<in> set ev))"
proof -
  note kq = quiet_keeps
  from andthen_split[OF assms(1)[unfolded acquire_all_def]] show ?thesis
  proof (elim disjE exE conjE)
    fix e assume "each (lock_target (vtraced V)) (mk_Targets mk) s = (Inl e, s')" "r = Inl e"
    with st.emitsD[OF quiet_lock_phase] kq show ?thesis by fastforce
  next
    fix x s1
    assume 1: "each (lock_target (vtraced V)) (mk_Targets mk) s = (Inr x, s1)"
      and 2: "andthen get_side (\<lambda>vols. andthen (each (check_absent (vtraced V)) vols) (\<lambda>_. each (write_marker (vtraced V) (render (enc_marker mk))) vols)) s1 = (r, s')"
    have vols: "snd s1 = ms" using lock_phase_side[of "vtraced V" "mk_Targets mk" s s1] 1 assms(2) by (simp add: ms_def)
    obtain a where a: "side_calls s1 = side_calls s @ a" "list_all quiet a" "\<forall>m \<in> set ms. VLock m (Inr True) \<in> set a"
      using st.emitsD[OF quiet_lock_phase 1] lock_phase_log[of V "mk_Targets mk" s s1] 1 by (fastforce simp: ms_def)
    from 2 vols have "andthen (each (check_absent (vtraced V)) ms) (\<lambda>_. each (write_marker (vtraced V) (render (enc_marker mk))) ms) s1 = (r, s')"
      by (cases s1) simp
    from andthen_split[OF this] show ?thesis
    proof (elim disjE exE conjE)
      fix e assume "each (check_absent (vtraced V)) ms s1 = (Inl e, s')" "r = Inl e"
      with st.emitsD[OF quiet_absent_phase] obtain b where "side_calls s' = side_calls s1 @ b" "list_all quiet b" by fastforce
      then show ?thesis using a kq \<open>r = Inl e\<close> by (intro exI[of _ "a @ b"]) auto
    next
      fix x s2
      assume 3: "each (check_absent (vtraced V)) ms s1 = (Inr x, s2)" and 4: "each (write_marker (vtraced V) (render (enc_marker mk))) ms s2 = (r, s')"
      from st.emitsD[OF quiet_absent_phase 3] obtain b where b: "side_calls s2 = side_calls s1 @ b" "list_all quiet b" by blast
      from st.emitsD[OF keeps_write_phase 4] obtain d where d: "side_calls s' = side_calls s2 @ d" "list_all keeps_markers d" by blast
      have side: "snd s' = snd s1" using ks.keptD[OF keeps_held(1) 3] ks.keptD[OF keeps_held(2) 4] by simp
      have w: "r = Inr () \<Longrightarrow> \<forall>m \<in> set ms. VWrite m (render (enc_marker mk)) (Inr ()) \<in> set d"
        using write_phase_log[of V "render (enc_marker mk)" ms s2 s'] 4 d(1) by auto
      show ?thesis using a b d w kq side vols
        by (intro exI[of _ "a @ b @ d"] conjI) (auto split: sum.split)
    qed
  qed
qed


lemma close_volumes_log: "\<exists>ev. snd (close_volumes (vtraced V) ms (w, tr)) = tr @ ev \<and> list_all quiet ev"
proof (induction ms arbitrary: w tr)
  case (Cons m ms)
  from Cons[of "vs_close V m w" "tr @ [VClose m]"] show ?case by (auto simp: close_volumes_def vtraced_def)
qed (simp add: close_volumes_def)

lemma acquire_log:
  assumes "acquire (vtraced V) c owner (w, []) = (r, (w', tr))"
  defines "ms \<equiv> map tgt_Mount (sortedTargets c)"
  shows "list_all keeps_markers tr" "locks_then ms tr"
    "r = Inr h \<Longrightarrow> ow_volumes h = ms \<and> ow_marker h = \<lparr>mk_Owner = owner, mk_Targets = sortedTargets c\<rparr> \<and>
       (\<forall>m \<in> set ms. VLock m (Inr True) \<in> set tr \<and> VWrite m (render (enc_marker (ow_marker h))) (Inr ()) \<in> set tr)"
proof -
  let ?mk = "\<lparr>mk_Owner = owner, mk_Targets = sortedTargets c\<rparr>"
  obtain r1 w1 tr1 vols where run: "acquire_all (vtraced V) ?mk ((w, []), []) = (r1, ((w1, tr1), vols))" by (metis prod.exhaust)
  from acquire_all_log[OF run] have all: "list_all keeps_markers tr1"
    "list_all quiet tr1 \<or> (\<exists>a b. tr1 = a @ b \<and> list_all quiet a \<and> (\<forall>m \<in> set ms. VLock m (Inr True) \<in> set a))"
    "r1 = Inr () \<Longrightarrow> vols = ms \<and> (\<forall>m \<in> set ms. VWrite m (render (enc_marker ?mk)) (Inr ()) \<in> set tr1 \<and> VLock m (Inr True) \<in> set tr1)"
    by (auto simp: ms_def)
  have "\<exists>ev. tr = tr1 @ ev \<and> list_all quiet ev"
    using assms(1) run close_volumes_log[of V vols w1 tr1] by (auto simp: acquire_def Let_def split: sum.splits)
  then obtain ev where ev: "tr = tr1 @ ev" "list_all quiet ev" by blast
  show "list_all keeps_markers tr" using ev all(1) quiet_keeps by simp
  show "locks_then ms tr" using all(2) ev locks_then_quiet locks_then_append by auto
  assume "r = Inr h"
  then have "r1 = Inr ()" "h = \<lparr>ow_volumes = vols, ow_marker = ?mk\<rparr>" using assms(1) run by (auto simp: acquire_def Let_def split: sum.splits)
  then show "ow_volumes h = ms \<and> ow_marker h = ?mk \<and>
       (\<forall>m \<in> set ms. VLock m (Inr True) \<in> set tr \<and> VWrite m (render (enc_marker (ow_marker h))) (Inr ()) \<in> set tr)"
    using all(3) ev by auto
qed

section \<open>Release and verification\<close>

definition reads_as :: "(bytes \<Rightarrow> (marker \<times> bool) option) \<Rightarrow> marker \<Rightarrow> vol_event list \<Rightarrow> string \<Rightarrow> bool" where
  "reads_as dec mk tr m \<longleftrightarrow> (\<exists>b. VMarker m (Inr b) \<in> set tr \<and> Decode dec (take (nat (maxMessage + 1)) b) = Inr mk)"

lemma reads_as_mono: "reads_as dec mk b m \<Longrightarrow> reads_as dec mk (a @ b @ c) m"
  by (auto simp: reads_as_def)

lemma readMarker_log:
  assumes "readMarker (vtraced V) dec m s = (Inr mk, s')"
  shows "\<exists>ev. calls s' = calls s @ ev \<and> reads_as dec mk ev m"
proof -
  obtain s1 s2 s3 x b u where o: "vs_openowner (vtraced V) m s = (Inr u, s1)"
    and p: "privateRegular (vtraced V) (vs_statowner (vtraced V) m) s1 = (Inr x, s2)"
    and rd: "vs_readowner (vtraced V) m s2 = (Inr b, s3)" and l: "lift (Decode dec (take (nat (maxMessage + 1)) b)) s3 = (Inr mk, s')"
    using assms by (auto simp: readMarker_def attempt_def andthen_Inr fail_def split: prod.splits sum.splits)
  have "calls s1 = calls s" using ct.emitsD[OF vemits_calls(12)[where A = "\<lambda>_. False"] o] by (auto simp: list_all_iff)
  moreover have "calls s2 = calls s1" using ct.emitsD[OF vemits_private[OF vemits_calls(13), where A = "\<lambda>_. False"] p] by (auto simp: list_all_iff)
  moreover have "calls s3 = calls s2 @ [VMarker m (Inr b)]" using rd by (auto simp: vtraced_def log_call_def split: prod.splits)
  moreover have "s' = s3" "Decode dec (take (nat (maxMessage + 1)) b) = Inr mk" using l by (auto simp: lift_def)
  ultimately show ?thesis by (intro exI[of _ "[VMarker m (Inr b)]"]) (auto simp: reads_as_def)
qed

lemma same_marker_log:
  assumes "same_marker (vtraced V) dec mk m s = (Inr (), s')"
  shows "\<exists>ev. calls s' = calls s @ ev \<and> reads_as dec mk ev m"
  using assms readMarker_log[of V dec m s mk s']
  by (auto simp: same_marker_def attempt_def ret_def fail_def split: prod.splits if_splits)

lemma check_phase_log:
  assumes "each (same_marker (vtraced V) dec mk) ms s = (Inr (), s')"
  shows "\<exists>ev. calls s' = calls s @ ev \<and> (\<forall>m \<in> set ms. reads_as dec mk ev m)"
  by (rule each_log_ex[OF assms]) (use same_marker_log reads_as_mono in blast)+

lemma quiet_check_phase: "ct.emits quiet (each (same_marker (vtraced V) dec mk) ms)"
  unfolding same_marker_def by (auto intro!: vol_intros)

definition checked_before :: "(bytes \<Rightarrow> (marker \<times> bool) option) \<Rightarrow> marker \<Rightarrow> string list \<Rightarrow> vol_event list \<Rightarrow> bool" where
  "checked_before dec mk ms tr \<longleftrightarrow> (\<forall>pre m post. tr = pre @ VUnlink m # post \<longrightarrow> (\<forall>m' \<in> set ms. reads_as dec mk pre m'))"

lemma checked_before_append:
  assumes "list_all quiet a" "\<forall>m \<in> set ms. reads_as dec mk a m"
  shows "checked_before dec mk ms (a @ b)"
  unfolding checked_before_def
proof (intro allI impI)
  fix pre m post assume "a @ b = pre @ VUnlink m # post"
  then obtain c where "pre = a @ c" using assms(1)
    by (auto simp: append_eq_append_conv2 Cons_eq_append_conv append_eq_Cons_conv list_all_iff)
  then show "\<forall>m' \<in> set ms. reads_as dec mk pre m'" using assms(2) reads_as_mono[of dec mk a _ "[]" c] by auto
qed

lemma remove_marker_log:
  assumes "remove_marker (vtraced V) m s = (Inr (), s')"
  shows "\<exists>ev. calls s' = calls s @ ev \<and> VUnlink m \<in> set ev"
  using assms by (cases s) (auto simp: remove_marker_def attempt_def vtraced_def log_call_def pass_call_def ret_def fail_def split: prod.splits sum.splits if_splits)

lemma release_log:
  assumes "release (vtraced V) dec h (w, []) = (r, (w', tr))"
  shows "checked_before dec (ow_marker h) (ow_volumes h) tr" "r = Inr () \<Longrightarrow> m \<in> set (ow_volumes h) \<Longrightarrow> VUnlink m \<in> set tr"
proof -
  have main: "checked_before dec (ow_marker h) (ow_volumes h) tr \<and> (r = Inr () \<longrightarrow> (\<forall>m \<in> set (ow_volumes h). VUnlink m \<in> set tr))"
    using andthen_split[OF assms[unfolded release_def]]
  proof (elim disjE exE conjE)
    fix e assume "each (same_marker (vtraced V) dec (ow_marker h)) (ow_volumes h) (w, []) = (Inl e, (w', tr))" "r = Inl e"
    with ct.emitsD[OF quiet_check_phase] show ?thesis by (fastforce simp: checked_before_def list_all_iff)
  next
    fix x s1
    assume 1: "each (same_marker (vtraced V) dec (ow_marker h)) (ow_volumes h) (w, []) = (Inr x, s1)"
      and 2: "each (remove_marker (vtraced V)) (ow_volumes h) s1 = (r, (w', tr))"
    have q: "list_all quiet (snd s1)" using ct.emitsD[OF quiet_check_phase 1] by auto
    have c: "\<forall>m \<in> set (ow_volumes h). reads_as dec (ow_marker h) (snd s1) m" using check_phase_log[of V dec "ow_marker h" "ow_volumes h" _ s1] 1 by fastforce
    have "ct.emits (\<lambda>_. True) (each (remove_marker (vtraced V)) (ow_volumes h))"
      unfolding remove_marker_def by (auto intro!: vol_intros split: sum.splits)
    from ct.emitsD[OF this 2] obtain b where "tr = snd s1 @ b" by auto
    moreover have "r = Inr () \<Longrightarrow> \<exists>ev. calls (w', tr) = calls s1 @ ev \<and> (\<forall>m \<in> set (ow_volumes h). VUnlink m \<in> set ev)"
      using 2 by (intro each_log_ex[where f = "remove_marker (vtraced V)"]) (simp, rule remove_marker_log, auto)
    ultimately show ?thesis using checked_before_append[OF q c] by auto
  qed
  then show "checked_before dec (ow_marker h) (ow_volumes h) tr" "r = Inr () \<Longrightarrow> m \<in> set (ow_volumes h) \<Longrightarrow> VUnlink m \<in> set tr" by auto
qed

lemma verify_target_log:
  assumes "verify_target (vtraced V) dec mk t s = (Inr (), s')"
  shows "\<exists>ev. calls s' = calls s @ ev \<and> reads_as dec mk ev (tgt_Mount t) \<and> VLock (tgt_Mount t) (Inr False) \<in> set ev"
proof -
  let ?m = "tgt_Mount t"
  obtain s1 s2 s3 where o: "openVolume (vtraced V) ?m s = (Inr (), s1)" and rm: "readMarker (vtraced V) dec ?m s1 = (Inr mk, s2)"
    and fl: "vs_flock (vtraced V) ?m s2 = (Inr False, s3)" and cl: "s' = vs_close (vtraced V) ?m s3"
    using assms by (auto simp: verify_target_def attempt_def andthen_def fail_def ret_def split: prod.splits sum.splits if_splits)
  have "calls s1 = calls s" using ct.emitsD[OF vemits_openVolume[where A = "\<lambda>_. False"] o] by (auto simp: list_all_iff)
  moreover have "calls s3 = calls s2 @ [VLock ?m (Inr False)]" using fl by (auto simp: vtraced_def log_call_def split: prod.splits)
  moreover have "calls s' = calls s3 @ [VClose ?m]" using cl by (auto simp: vtraced_def split: prod.splits)
  moreover obtain ev where "calls s2 = calls s1 @ ev" "reads_as dec mk ev ?m" using readMarker_log[OF rm] by blast
  ultimately show ?thesis using reads_as_mono[of dec mk ev ?m "[]" "[VLock ?m (Inr False), VClose ?m]"]
    by (intro exI[of _ "ev @ [VLock ?m (Inr False), VClose ?m]"]) auto
qed

lemma verifyOwner_log:
  assumes "verifyOwner (vtraced V) dec c owner s = (Inr (), s')"
  shows "\<exists>ev. calls s' = calls s @ ev \<and> (\<forall>t \<in> set (sortedTargets c).
    reads_as dec \<lparr>mk_Owner = owner, mk_Targets = sortedTargets c\<rparr> ev (tgt_Mount t) \<and> VLock (tgt_Mount t) (Inr False) \<in> set ev)"
  using assms unfolding verifyOwner_def Let_def by (intro each_log_ex[where f = "verify_target (vtraced V) dec _"])
    (auto intro: reads_as_mono dest: verify_target_log)

end
