(* ===== verification/Guard_Properties.thy ===== *)
theory Guard_Properties
  imports Guard_Supervision Guard_Order
begin

text \<open>
  What the recovery guard and its sidecar guarantee: the admission and its drain, the release
  of the targets, the ownership of the whole target set, and the accepted command line.
\<close>

section \<open>Admission\<close>

text \<open>C13. When a drain has returned success, no admitted task is running, none will ever run and none can be admitted: from
  that state on, along every interleaving of calls of the admission, the set of outstanding tasks is
  empty, no task is added, \<open>Admit\<close> and \<open>ActiveTuple\<close> are refused and the tasks' context stays cancelled.\<close>
theorem drain_certificate:
  assumes "adm_reachable c pod process s" "as_waiters s w = Some (Returned (Inr ()))" "adm_step\<^sup>*\<^sup>* s s'"
  shows "outstanding s' = {} \<and> dom (as_tasks s') = dom (as_tasks s) \<and> ad_canceled (as_adm s') \<and>
    Admit (as_adm s') tuple = (Inl (StatusErr CodeFailedPrecondition), as_adm s') \<and>
    ActiveTuple (as_adm s') = Inl (StatusErr CodeFailedPrecondition)"
proof -
  have i: "adm_inv s" "adm_inv s'" using adm_inv_reachable assms by (blast, meson adm_inv_reachable rtranclp_trans)
  then have "ad_closed (as_adm s)" "outstanding s = {}" using assms(2) unfolding adm_inv_def Let_def by blast+
  with closed_steps[OF assms(3)] have "ad_closed (as_adm s')" "outstanding s' = {}" "dom (as_tasks s') = dom (as_tasks s)" by auto
  moreover from this(1) have "ad_canceled (as_adm s')" using i(2) unfolding adm_inv_def Let_def by blast
  ultimately show ?thesis by (simp add: Admit_def ActiveTuple_def)
qed

lemma phase_drained:
  assumes "adm_inv s"
  shows "ad_drained (as_adm s) = 1 \<longleftrightarrow> phase_of s = Closed {}" "ad_drained (as_adm s) \<le> 1"
  using assms card_0_eq[of "outstanding s"] by (auto simp: adm_inv_def Let_def phase_of_def split: if_splits)

text \<open>C16. The admission refines its specification: under the abstraction \<open>phase_of\<close> every atomic step of
  a reachable admission is a step of the three-phase machine (fresh, open for one tuple of this cluster,
  operation, Pod and process with at most four outstanding tasks, closed for good) or leaves the phase, and
  the drained channel is closed exactly in the phase where the admission is closed and nothing is outstanding.\<close>
theorem admission_refines:
  assumes "adm_reachable c pod process s" "adm_step s s'"
  shows "phase_of (initial_adm c pod process) = Fresh \<and> phase_step c pod process (phase_of s) (phase_of s') \<and>
    (ad_drained (as_adm s') = 1 \<longleftrightarrow> phase_of s' = Closed {})"
proof -
  have i: "adm_inv s" "adm_inv s'" using adm_inv_reachable assms by (blast, meson adm_inv_reachable rtranclp.rtrancl_into_rtrancl)
  show ?thesis using adm_step_refines[OF assms(2) i(1) adm_identity_reachable[OF assms(1)]] phase_drained[OF i(2)]
    by (simp add: phase_of_def initial_adm_def newAdmission_def)
qed

definition finish_task :: "nat \<Rightarrow> adm_system \<Rightarrow> adm_system" where
  "finish_task t s = s\<lparr>as_adm := Done (as_tasks s t = Some True) (as_adm s), as_tasks := (as_tasks s)(t \<mapsto> True)\<rparr>"

lemma finish_tasks:
  assumes "distinct ts" "set ts = outstanding s"
  shows "adm_step\<^sup>*\<^sup>* s (fold finish_task ts s) \<and> outstanding (fold finish_task ts s) = {} \<and> as_waiters (fold finish_task ts s) = as_waiters s"
  using assms
proof (induction ts arbitrary: s)
  case Nil
  then show ?case by simp
next
  case (Cons t ts)
  have t: "as_tasks s t = Some False" using Cons.prems(2) by (auto simp: outstanding_def)
  have st: "adm_step s (finish_task t s)" using adm_step.finish[OF t] t by (simp add: finish_task_def)
  have "outstanding (finish_task t s) = outstanding s - {t}" by (simp add: finish_task_def outstanding_finish)
  then have "set ts = outstanding (finish_task t s)" using Cons.prems by auto
  from Cons.IH[OF _ this] Cons.prems(1) st show ?case by (auto simp: finish_task_def intro: converse_rtranclp_into_rtranclp)
qed

text \<open>C17. A drain never waits for something that cannot happen: whenever a drain waits on a reachable
  admission, finishing the outstanding tasks, in any order, leads to a state where the drained
  channel was closed exactly once, and from there the waiting drain can return success.\<close>
theorem drain_completes:
  assumes "adm_reachable c pod process s" "as_waiters s w = Some Waiting" "distinct ts" "set ts = outstanding s"
  shows "adm_step\<^sup>*\<^sup>* s (fold finish_task ts s) \<and> ad_drained (as_adm (fold finish_task ts s)) = 1 \<and>
    adm_step (fold finish_task ts s) ((fold finish_task ts s)\<lparr>as_waiters := (as_waiters s)(w \<mapsto> Returned (Inr ()))\<rparr>)"
proof -
  let ?s = "fold finish_task ts s"
  have f: "adm_step\<^sup>*\<^sup>* s ?s" "outstanding ?s = {}" "as_waiters ?s = as_waiters s" using finish_tasks[OF assms(3,4)] by auto
  have i: "adm_inv s" "adm_inv ?s" using adm_inv_reachable assms(1) f(1) by (blast, meson adm_inv_reachable rtranclp_trans)
  have "ad_closed (as_adm s)" using i(1) assms(2) unfolding adm_inv_def Let_def by blast
  then have "ad_closed (as_adm ?s)" using closed_steps[OF f(1)] by blast
  then have d: "ad_drained (as_adm ?s) = 1" using phase_drained(1)[OF i(2)] f(2) by (simp add: phase_of_def)
  have "drain_result (as_adm ?s) False False (Inr ()) = Inr ()" by (simp add: drain_result_def)
  with adm_step.drain_return[of ?s w False "Inr ()"] show ?thesis using f d assms(2) by simp
qed

text \<open>The run the witnesses use: a session begins, one task is admitted, a drain closes the admission and
  waits, the task finishes and the drain returns.\<close>

definition uid_of :: "char \<Rightarrow> string" where
  "uid_of k = replicate 8 k @ ''-'' @ replicate 4 k @ ''-'' @ replicate 4 k @ ''-'' @ replicate 4 k @ ''-'' @ replicate 12 k"

definition ex_config :: rg_config where
  "ex_config = \<lparr>cfg_ClusterUID = uid_of CHR ''a'', cfg_OperationUID = uid_of CHR ''b'',
     cfg_Targets = [\<lparr>tgt_PVCUID = uid_of CHR ''2'', tgt_Mount = wal_mount\<rparr>, \<lparr>tgt_PVCUID = uid_of CHR ''1'', tgt_Mount = data_mount\<rparr>]\<rparr>"

definition ex_owner :: rg_owner where
  "ex_owner = \<lparr>gow_ClusterUID = uid_of CHR ''a'', gow_OperationUID = uid_of CHR ''b'', gow_PodUID = uid_of CHR ''c'', gow_GuardUID = uid_of CHR ''d''\<rparr>"

definition ex_tuple :: rg_tuple where
  "ex_tuple = \<lparr>tup_Owner = ex_owner, tup_SidecarUID = uid_of CHR ''e''\<rparr>"

abbreviation ex_initial :: adm_system where
  "ex_initial \<equiv> initial_adm ex_config (uid_of CHR ''c'') (uid_of CHR ''e'')"

definition ex_open :: adm_system where
  "ex_open = ex_initial\<lparr>as_adm := (as_adm ex_initial)\<lparr>ad_started := True, ad_tuple := ex_tuple\<rparr>\<rparr>"

definition ex_waiting :: adm_system where
  "ex_waiting = ex_open\<lparr>as_adm := (as_adm ex_open)\<lparr>ad_active := 1, ad_closed := True, ad_canceled := True\<rparr>, as_tasks := [0 \<mapsto> False], as_waiters := [7 \<mapsto> Waiting]\<rparr>"

lemma ex_begin: "begin_session (as_adm ex_initial) ex_owner True = (Inr ex_tuple, as_adm ex_open)"
proof -
  have "uuidRE (uid_of CHR ''d'')" by code_simp
  then show ?thesis by (simp add: begin_session_def ex_open_def ex_tuple_def ex_owner_def initial_adm_def newAdmission_def ex_config_def Let_def)
qed

lemma ex_open_step: "adm_step ex_initial ex_open"
  using adm_step.start[of ex_initial ex_owner True] ex_begin by (simp add: ex_open_def)

lemma ex_waiting_reachable: "adm_step\<^sup>*\<^sup>* ex_initial ex_waiting"
proof -
  let ?a1 = "(as_adm ex_open)\<lparr>ad_active := 1\<rparr>"
  let ?s2 = "ex_open\<lparr>as_adm := ?a1, as_tasks := [0 \<mapsto> False]\<rparr>"
  have idle: "ad_started (as_adm ex_open)" "\<not> ad_closed (as_adm ex_open)" "ad_active (as_adm ex_open) = 0" "ad_tuple (as_adm ex_open) = ex_tuple"
    "as_tasks ex_open = Map.empty" "as_waiters ex_open = Map.empty"
    by (simp_all add: ex_open_def initial_adm_def newAdmission_def)
  have 2: "adm_step ex_open ?s2" using adm_step.admit[of ex_open ex_tuple "()" ?a1 0] idle by (simp add: Admit_def)
  have 3: "adm_step ?s2 (?s2\<lparr>as_waiters := [7 \<mapsto> Checked]\<rparr>)"
    using adm_step.drain_check[of ?s2 ex_tuple 7] idle by (simp add: drain_valid_def)
  let ?s3 = "?s2\<lparr>as_waiters := [7 \<mapsto> Checked]\<rparr>"
  have "ex_waiting = ?s3\<lparr>as_adm := Admission_Close (as_adm ?s3), as_waiters := (as_waiters ?s3)(7 \<mapsto> Waiting)\<rparr>"
    using idle by (intro adm_system.equality) (simp_all add: Admission_Close_def Let_def ex_waiting_def)
  then have 4: "adm_step ?s3 ex_waiting" using adm_step.drain_close[of ?s3 7] by simp
  from ex_open_step 2 3 4 show ?thesis by (meson rtranclp.rtrancl_into_rtrancl rtranclp.rtrancl_refl)
qed

lemma ex_returned: "adm_step\<^sup>*\<^sup>* ex_initial ((finish_task 0 ex_waiting)\<lparr>as_waiters := [7 \<mapsto> Returned (Inr ())]\<rparr>)"
proof -
  let ?s = "finish_task 0 ex_waiting"
  have s: "ad_drained (as_adm ?s) = 1" "as_waiters ?s = [7 \<mapsto> Waiting]" "ad_afterDrain (as_adm ?s) = False"
    by (simp_all add: finish_task_def ex_waiting_def Done_def close_drained_def Let_def ex_open_def initial_adm_def newAdmission_def)
  have "adm_step ex_waiting ?s" using adm_step.finish[of ex_waiting 0 False] by (simp add: finish_task_def ex_waiting_def)
  moreover have "adm_step ?s (?s\<lparr>as_waiters := [7 \<mapsto> Returned (Inr ())]\<rparr>)"
    using adm_step.drain_return[of ?s 7 False "Inr ()"] s by (simp add: drain_result_def)
  ultimately show ?thesis using ex_waiting_reachable by (meson rtranclp.rtrancl_into_rtrancl)
qed

theorem drain_certificate_witness: "outstanding ((finish_task 0 ex_waiting)\<lparr>as_waiters := [7 \<mapsto> Returned (Inr ())]\<rparr>) = {}"
  using drain_certificate[OF ex_returned _ rtranclp.rtrancl_refl, of 7 ex_tuple] by simp

theorem admission_refines_witness: "phase_step ex_config (uid_of CHR ''c'') (uid_of CHR ''e'') Fresh (Open ex_tuple {})"
proof -
  have "phase_of ex_initial = Fresh" "phase_of ex_open = Open ex_tuple {}"
    by (simp_all add: phase_of_def ex_open_def initial_adm_def newAdmission_def outstanding_def)
  with admission_refines[OF rtranclp.rtrancl_refl ex_open_step] show ?thesis by simp
qed

theorem drain_completes_witness: "ad_drained (as_adm (fold finish_task [0] ex_waiting)) = 1"
proof -
  have "as_waiters ex_waiting 7 = Some Waiting" "outstanding ex_waiting = {0}" by (simp_all add: ex_waiting_def outstanding_def)
  with drain_completes[OF ex_waiting_reachable, of 7 "[0]"] show ?thesis by simp
qed


section \<open>Supervision and ownership\<close>

text \<open>C14. \<open>Run\<close> removes the owner markers only with proof that nothing touches the targets any more: it
  acquired the targets and was acknowledged by the sidecar for its own owner, neither the Pod's
  context nor the session ended before, the main process was reaped, the kernel then reported
  no child left, and the sidecar acknowledged the terminal drain with the context still alive. Only
  then can the exit code be the main process's, and a failed removal is reported as 2.\<close>
theorem Run_releases_last:
  assumes "Guard_Run c pod argv E = Some (code, e, True)"
  shows "\<exists>owner tuple pid pre rl post. Config_owner c pod (NewUUID (ge_random E)) = Inr owner \<and> ge_acquire E owner = Inr () \<and>
    ge_begin E owner = Inr tuple \<and> ge_start E = Inr pid \<and>
    ge_events E = pre @ NoChild False (Inr ()) False rl # post \<and> list_all (\<lambda>ev. \<not> worrying ev) pre \<and> (\<exists>x. main_reaped pid pre x) \<and>
    (case rl of Inl re \<Rightarrow> code = 2 \<and> e = Some re | Inr _ \<Rightarrow> e = None \<and> main_reaped pid pre code)"
  using Guard_Run_loop[OF assms] guard_loop_release by blast

definition ex_guard :: guard_env where
  "ex_guard = \<lparr>ge_pid1 = True, ge_random = replicate 16 0, ge_acquire = (\<lambda>_. Inr ()), ge_begin = (\<lambda>_. Inr ex_tuple), ge_timer = True,
     ge_canceled = False, ge_start = Inr 9, ge_events = [Reaped 12 (Exited 1) False, Reaped 9 (Signaled 9) False, NoChild False (Inr ()) False (Inr ())]\<rparr>"

definition ex_guard_argv :: "string list" where
  "ex_guard_argv = recovery_argv True @ [''--log-level=info'', ''--log-field-timestamp=ts'']"

lemma ex_guard_run: "Guard_Run ex_config (uid_of CHR ''c'') ex_guard_argv ex_guard = Some (137, None, True)"
  by code_simp

theorem Run_releases_last_witness: "\<exists>x. main_reaped 9 [Reaped 12 (Exited 1) False, Reaped 9 (Signaled 9) False] x"
proof -
  have no: "NoChild a b d f \<noteq> Reaped p st kf" for a b d f p st kf by simp
  from Run_releases_last[OF ex_guard_run] obtain pid pre rl post x where "ge_start ex_guard = Inr pid"
    "ge_events ex_guard = pre @ NoChild False (Inr ()) False rl # post" "main_reaped pid pre x" by blast
  moreover from this have "pid = 9" "pre = [Reaped 12 (Exited 1) False, Reaped 9 (Signaled 9) False]"
    by (auto simp: ex_guard_def Cons_eq_append_conv)
  ultimately show ?thesis by blast
qed

text \<open>C15. The whole set of target volumes is owned or none is touched: whatever the system calls answer, \<open>acquire\<close> never
  removes a marker, writes or creates none before it holds the exclusive lock of every volume, and when it succeeds
  each volume's lock is held and its marker file carries the encoded owner and sorted target set; \<open>release\<close> removes
  no marker before it has read every volume's marker back and found the one it holds, and when it succeeds every marker
  is removed; \<open>verifyOwner\<close> accepts only when every volume's marker is the expected one and its lock is taken by another.\<close>
theorem targets_owned_together:
  "(case acquire (vtraced V) c owner (w, []) of (r, (w', tr)) \<Rightarrow>
      (\<forall>m. VUnlink m \<notin> set tr) \<and> locks_then (map tgt_Mount (sortedTargets c)) tr \<and>
      (case r of Inl _ \<Rightarrow> True | Inr h \<Rightarrow> ow_volumes h = map tgt_Mount (sortedTargets c) \<and>
         list_all (\<lambda>m. VLock m (Inr True) \<in> set tr \<and> VWrite m (render (enc_marker (ow_marker h))) (Inr ()) \<in> set tr) (ow_volumes h))) \<and>
   (case release (vtraced V) dec h (w, []) of (r, (w', tr)) \<Rightarrow> checked_before dec (ow_marker h) (ow_volumes h) tr \<and>
      (case r of Inl _ \<Rightarrow> True | Inr _ \<Rightarrow> list_all (\<lambda>m. VUnlink m \<in> set tr) (ow_volumes h))) \<and>
   (case verifyOwner (vtraced V) dec c owner (w, []) of (Inl _, _) \<Rightarrow> True
    | (Inr _, (w', tr)) \<Rightarrow> list_all (\<lambda>t. reads_as dec \<lparr>mk_Owner = owner, mk_Targets = sortedTargets c\<rparr> tr (tgt_Mount t) \<and>
        VLock (tgt_Mount t) (Inr False) \<in> set tr) (sortedTargets c))"
proof (intro conjI)
  show "case acquire (vtraced V) c owner (w, []) of (r, (w', tr)) \<Rightarrow>
      (\<forall>m. VUnlink m \<notin> set tr) \<and> locks_then (map tgt_Mount (sortedTargets c)) tr \<and>
      (case r of Inl _ \<Rightarrow> True | Inr h \<Rightarrow> ow_volumes h = map tgt_Mount (sortedTargets c) \<and>
         list_all (\<lambda>m. VLock m (Inr True) \<in> set tr \<and> VWrite m (render (enc_marker (ow_marker h))) (Inr ()) \<in> set tr) (ow_volumes h))"
  proof -
    obtain r w' tr where run: "acquire (vtraced V) c owner (w, []) = (r, (w', tr))" by (metis prod.exhaust)
    have "VUnlink m \<notin> set tr" for m using acquire_log(1)[OF run] by (auto simp: list_all_iff)
    then show ?thesis using acquire_log(2,3)[OF run] run by (auto simp: list_all_iff split: sum.split)
  qed
  show "case release (vtraced V) dec h (w, []) of (r, (w', tr)) \<Rightarrow> checked_before dec (ow_marker h) (ow_volumes h) tr \<and>
      (case r of Inl _ \<Rightarrow> True | Inr _ \<Rightarrow> list_all (\<lambda>m. VUnlink m \<in> set tr) (ow_volumes h))"
    using release_log[of V dec h w] by (auto simp: list_all_iff split: prod.split sum.split)
  show "case verifyOwner (vtraced V) dec c owner (w, []) of (Inl _, _) \<Rightarrow> True
    | (Inr _, (w', tr)) \<Rightarrow> list_all (\<lambda>t. reads_as dec \<lparr>mk_Owner = owner, mk_Targets = sortedTargets c\<rparr> tr (tgt_Mount t) \<and>
        VLock (tgt_Mount t) (Inr False) \<in> set tr) (sortedTargets c)"
    using verifyOwner_log[of V dec c owner "(w, [])"] by (fastforce simp: list_all_iff split: prod.split sum.split)
qed

section \<open>The command line\<close>

definition flag_value :: "string \<Rightarrow> string \<Rightarrow> bool" where
  "flag_value flag v \<longleftrightarrow> (if flag = ''--log-level='' then v \<in> set log_levels else log_field v)"

definition optional_flag :: "string \<Rightarrow> string list \<Rightarrow> bool" where
  "optional_flag flag xs \<longleftrightarrow> xs = [] \<or> (\<exists>v. xs = [flag @ v] \<and> flag_value flag v)"

lemma take_flag_cases:
  "take_flag flag [] = Inr []"
  "\<not> has_prefix a flag \<Longrightarrow> take_flag flag (a # xs) = Inr (a # xs)"
  "take_flag flag ((flag @ v) # xs) = Inr ys \<longleftrightarrow> flag_value flag v \<and> ys = xs"
  unfolding take_flag_def flag_value_def trim_prefix_def has_prefix_def by (auto simp: Let_def)

lemma take_flag_Inr:
  assumes "take_flag flag xs = Inr ys"
  shows "\<exists>a. optional_flag flag a \<and> xs = a @ ys"
proof (cases "\<exists>a zs. xs = a # zs \<and> has_prefix a flag")
  case True
  then obtain v zs where xs: "xs = (flag @ v) # zs" using has_prefix_iff by blast
  then have "flag_value flag v" "ys = zs" using assms by (simp_all only: take_flag_cases(3))
  then show ?thesis by (intro exI[of _ "[flag @ v]"]) (simp add: optional_flag_def xs)
next
  case False
  then have "ys = xs" using assms by (cases xs) (auto simp: take_flag_cases(1,2))
  then show ?thesis by (intro exI[of _ "[]"]) (simp add: optional_flag_def)
qed

lemma take_flag_skip: "optional_flag g b \<Longrightarrow> (\<And>v. \<not> has_prefix (g @ v) flag) \<Longrightarrow> take_flag flag c = Inr c \<Longrightarrow> take_flag flag (b @ c) = Inr (b @ c)"
  by (auto simp: optional_flag_def take_flag_cases(2))

lemma take_flag_takes: "optional_flag flag a \<Longrightarrow> take_flag flag c = Inr c \<Longrightarrow> take_flag flag (a @ c) = Inr c"
  by (auto simp: optional_flag_def take_flag_cases(3))

lemma flags_distinct: "\<not> has_prefix (''--log-field-level='' @ v) ''--log-level=''" "\<not> has_prefix (''--log-field-timestamp='' @ v) ''--log-level=''"
  "\<not> has_prefix (''--log-field-timestamp='' @ v) ''--log-field-level=''"
  by (simp_all add: has_prefix_def)

lemma take_flags_done: "fold_res take_flag log_flags xs = Inr [] \<longleftrightarrow>
    (\<exists>a b c. xs = a @ b @ c \<and> optional_flag ''--log-level='' a \<and> optional_flag ''--log-field-level='' b \<and> optional_flag ''--log-field-timestamp='' c)"
proof
  assume "fold_res take_flag log_flags xs = Inr []"
  then obtain ys zs where "take_flag ''--log-level='' xs = Inr ys" "take_flag ''--log-field-level='' ys = Inr zs"
    "take_flag ''--log-field-timestamp='' zs = Inr []"
    by (auto simp: log_flags_def)
  from take_flag_Inr[OF this(1)] take_flag_Inr[OF this(2)] take_flag_Inr[OF this(3)]
  show "\<exists>a b c. xs = a @ b @ c \<and> optional_flag ''--log-level='' a \<and> optional_flag ''--log-field-level='' b \<and> optional_flag ''--log-field-timestamp='' c"
    by auto
next
  assume "\<exists>a b c. xs = a @ b @ c \<and> optional_flag ''--log-level='' a \<and> optional_flag ''--log-field-level='' b \<and> optional_flag ''--log-field-timestamp='' c"
  then obtain a b c where abc: "xs = a @ b @ c" "optional_flag ''--log-level='' a" "optional_flag ''--log-field-level='' b"
    "optional_flag ''--log-field-timestamp='' c" by blast
  have c: "take_flag ''--log-level='' c = Inr c" "take_flag ''--log-field-level='' c = Inr c"
    using take_flag_skip[OF abc(4), of _ "[]"] flags_distinct by (simp_all add: take_flag_cases(1))
  have b: "take_flag ''--log-level='' (b @ c) = Inr (b @ c)" using take_flag_skip[OF abc(3) _ c(1)] flags_distinct by blast
  show "fold_res take_flag log_flags xs = Inr []"
    using take_flag_takes[OF abc(2) b] take_flag_takes[OF abc(3) c(2)] take_flag_takes[OF abc(4), of "[]"] abc(1)
    by (simp add: log_flags_def take_flag_cases(1))
qed

text \<open>\<open>WrapArgv\<close> accepts exactly the documented command lines: CNPG's restore invocation, with the separate WAL directory when the cluster has one, followed
  by at most one log level of the five, one level field and one timestamp field, in this order; it then runs the unchanged command line
  below the helper, and refuses every other one.\<close>
theorem WrapArgv_language:
  "WrapArgv command args separateWAL = Inr out \<longleftrightarrow> out = [HelperPath, ''recovery-guard'', ''--''] @ command @ args \<and>
     (\<exists>a b c. command @ args = recovery_argv separateWAL @ a @ b @ c \<and>
        optional_flag ''--log-level='' a \<and> optional_flag ''--log-field-level='' b \<and> optional_flag ''--log-field-timestamp='' c)"
proof -
  let ?o = "command @ args" and ?e = "recovery_argv separateWAL"
  have split: "length ?e \<le> length ?o \<and> take (length ?e) ?o = ?e \<longleftrightarrow> (\<exists>rest. ?o = ?e @ rest)"
    by (metis append_take_drop_id append_eq_conv_conj length_append le_add1)
  have done_iff: "res_bind r (\<lambda>remaining. if remaining \<noteq> [] then Inl e else Inr x) = Inr out \<longleftrightarrow> r = Inr [] \<and> out = x" for r :: "err + string list" and e x
    by (cases r) auto
  have "WrapArgv command args separateWAL = Inr out \<longleftrightarrow> (\<exists>rest. ?o = ?e @ rest) \<and>
      fold_res take_flag log_flags (drop (length ?e) ?o) = Inr [] \<and> out = [HelperPath, ''recovery-guard'', ''--''] @ ?o"
    unfolding WrapArgv_def Let_def split[symmetric] done_iff[symmetric] by (auto simp: not_less)
  then show ?thesis unfolding take_flags_done by (metis append_eq_conv_conj)
qed
end
