(* ===== verification/Store_Text.thy ===== *)
theory Store_Text
  imports Storage
begin

text \<open>
  The names and checks of the storage adapter (s3store/store.go, s3store/objects.go): object keys
  and prefixes, entity tags, integrity records, the options of a request, and the construction of a
  store from a configuration. \<open>crypto/md5\<close> and \<open>encoding/base64\<close> are modelled as the adapter uses
  them for the transport checksum.
\<close>

section \<open>MD5 and Base64\<close>

definition md5_k :: "u32 list" where
  "md5_k = map of_int [
     3614090360, 3905402710, 606105819, 3250441966, 4118548399, 1200080426, 2821735955, 4249261313,
     1770035416, 2336552879, 4294925233, 2304563134, 1804603682, 4254626195, 2792965006, 1236535329,
     4129170786, 3225465664, 643717713, 3921069994, 3593408605, 38016083, 3634488961, 3889429448,
     568446438, 3275163606, 4107603335, 1163531501, 2850285829, 4243563512, 1735328473, 2368359562,
     4294588738, 2272392833, 1839030562, 4259657740, 2763975236, 1272893353, 4139469664, 3200236656,
     681279174, 3936430074, 3572445317, 76029189, 3654602809, 3873151461, 530742520, 3299628645,
     4096336452, 1126891415, 2878612391, 4237533241, 1700485571, 2399980690, 4293915773, 2240044497,
     1873313359, 4264355552, 2734768916, 1309151649, 4149444226, 3174756917, 718787259, 3951481745]"

definition md5_shift :: "nat \<Rightarrow> nat" where
  "md5_shift i = [[7, 12, 17, 22], [5, 9, 14, 20], [4, 11, 16, 23], [6, 10, 15, 21]] ! (i div 16) ! (i mod 4)"

definition le_bytes :: "nat \<Rightarrow> int \<Rightarrow> int list" where
  "le_bytes k n = rev (be_bytes k n)"

fun le_words :: "int list \<Rightarrow> u32 list" where
  "le_words (a # b # c # d # r) = of_int (((d * 256 + c) * 256 + b) * 256 + a) # le_words r"
| "le_words _ = []"

definition md5_pad :: "int list \<Rightarrow> int list" where
  "md5_pad m = m @ [128] @ replicate ((119 - length m mod 64) mod 64) 0 @ le_bytes 8 (8 * int (length m) mod 2 ^ 64)"

fun md5_round :: "u32 list \<Rightarrow> nat \<Rightarrow> u32 list \<Rightarrow> u32 list" where
  "md5_round M i [a, b, c, d] = (let
     (f, g) = (if i < 16 then (or (and b c) (and (not b) d), i)
       else if i < 32 then (or (and d b) (and (not d) c), (5 * i + 1) mod 16)
       else if i < 48 then (xor (xor b c) d, (3 * i + 5) mod 16)
       else (xor c (or b (not d)), 7 * i mod 16))
   in [d, b + word_rotl (md5_shift i) (f + a + md5_k ! i + M ! g), b, c])"
| "md5_round M i s = s"

definition md5_block :: "u32 list \<Rightarrow> u32 list \<Rightarrow> u32 list" where
  "md5_block M s = map2 (+) s (fold (md5_round M) [0..<64] s)"

fun md5_blocks :: "nat \<Rightarrow> u32 list \<Rightarrow> u32 list \<Rightarrow> u32 list" where
  "md5_blocks 0 ws s = s"
| "md5_blocks (Suc n) ws s = md5_blocks n (drop 16 ws) (md5_block (take 16 ws) s)"

definition md5 :: "bytes \<Rightarrow> int list" where
  "md5 m = (let ws = le_words (md5_pad (map of_char m)) in
     concat (map (\<lambda>w. le_bytes 4 (uint w)) (md5_blocks (length ws div 16) ws (map of_int [1732584193, 4023233417, 2562383102, 271733878]))))"

definition base64_char :: "int \<Rightarrow> char" where
  "base64_char n = (''ABCDEFGHIJKLMNOPQRSTUVWXYZabcdefghijklmnopqrstuvwxyz0123456789+/'' ! nat n)"

fun base64 :: "int list \<Rightarrow> string" where
  "base64 [] = []"
| "base64 [a] = [base64_char (a div 4), base64_char (a mod 4 * 16), CHR ''='', CHR ''='']"
| "base64 [a, b] = [base64_char (a div 4), base64_char (a mod 4 * 16 + b div 16), base64_char (b mod 16 * 4), CHR ''='']"
| "base64 (a # b # c # r) = base64_char (a div 4) # base64_char (a mod 4 * 16 + b div 16) # base64_char (b mod 16 * 4 + c div 64) #
     base64_char (c mod 64) # base64 r"

section \<open>Text\<close>

text \<open>\<open>range\<close> over a string yields runes: a byte above 127 is part of a rune above 126 or of an invalid
  sequence, which yields U+FFFD.\<close>

definition plain :: "string \<Rightarrow> bool" where
  "plain v \<longleftrightarrow> list_all (\<lambda>c. 32 \<le> (of_char c :: int) \<and> (of_char c :: int) \<le> 126) v"

definition contains_any :: "string \<Rightarrow> char list \<Rightarrow> bool" where
  "contains_any v cs \<longleftrightarrow> list_ex (\<lambda>c. c \<in> set cs) v"

definition validPath :: "string \<Rightarrow> bool" where
  "validPath v \<longleftrightarrow> v \<noteq> [] \<and> plain v \<and> \<not> contains_any v [CHR 0x5c, CHR ''%'', CHR ''?'', CHR ''#''] \<and>
     list_all (\<lambda>p. p \<noteq> [] \<and> p \<noteq> ''.'' \<and> p \<noteq> ''..'') (split_on (CHR ''/'') v)"

text \<open>\<open>strings.ToLower\<close> on header names, which are ASCII.\<close>

definition to_lower_char :: "char \<Rightarrow> char" where
  "to_lower_char c = (let n = of_char c :: nat in if 65 \<le> n \<and> n \<le> 90 then char_of (n + 32) else c)"

definition to_lower :: "string \<Rightarrow> string" where
  "to_lower = map to_lower_char"

section \<open>Sizes\<close>

definition PartSize :: int where
  "PartSize = 67108864"

definition MaxArtifactSize :: int where
  "MaxArtifactSize = 549755813888"

definition Store_MaxSingleSize :: int where
  "Store_MaxSingleSize = 1074790400"

definition MaxMetadataSize :: int where
  "MaxMetadataSize = 4194304"

definition validIntegrity :: "integrity \<Rightarrow> int \<Rightarrow> bool" where
  "validIntegrity v lim \<longleftrightarrow> length (itg_SHA256 v) = 64 \<and> itg_Size v \<ge> 0 \<and> itg_Size v \<le> lim \<and>
     list_all (\<lambda>c. is_digit 16 c) (itg_SHA256 v) \<and> to_lower (itg_SHA256 v) = itg_SHA256 v"

definition validETag :: "string \<Rightarrow> bool" where
  "validETag s \<longleftrightarrow> s \<noteq> [] \<and> length s \<le> 256 \<and> plain s \<and> \<not> contains_any s [CHR 0x22, CHR 0x0d, CHR 0x0a]"

section \<open>The store\<close>

record store =
  so_bucket :: string
  so_prefix :: string
  so_metadataTimeout :: int
  so_operationTimeout :: int
  so_walTimeout :: int
  so_artifacts :: int
  so_wal :: int
  so_workers :: int

definition store_key :: "store \<Rightarrow> string \<Rightarrow> err + string" where
  "store_key s k =
     (if length k > 1024 \<or> \<not> validPath k then Inl (failure Invalid)
      else let k = (if so_prefix s \<noteq> [] then so_prefix s @ ''/'' @ k else k) in
        if length k > 1024 then Inl (failure Invalid) else Inr k)"

text \<open>On an error the Go function still returns a string, which no caller uses.\<close>

definition listPrefix :: "store \<Rightarrow> string \<Rightarrow> err + string" where
  "listPrefix s p =
     (if p = [] then (if so_prefix s = [] then Inr [] else Inr (so_prefix s @ ''/''))
      else let trail = has_suffix p ''/'' in
        res_bind (store_key s (trim_suffix p ''/'')) (\<lambda>k. Inr (if trail then k @ ''/'' else k)))"

definition relative :: "store \<Rightarrow> string \<Rightarrow> string" where
  "relative s k = (if so_prefix s \<noteq> [] then trim_prefix k (so_prefix s @ ''/'') else k)"

section \<open>Request options\<close>

record put_options =
  po_UserMetadata :: metadata
  po_ContentType :: string
  po_DisableMultipart :: bool
  po_SendContentMd5 :: bool
  po_IfNoneMatch :: string
  po_IfMatch :: string

text \<open>One step of the loop over the metadata map, in the order the iteration takes.\<close>

definition check_metadata :: "string \<times> string \<Rightarrow> int \<Rightarrow> err + int" where
  "check_metadata = (\<lambda>(k, v) sz. let sz = sz + int (length k) + int (length v) in
     if sz > 8192 then Inl (failure Limit)
     else if \<not> has_prefix k ''cnpg-'' \<or> \<not> plain k \<or> \<not> plain v \<or> contains_any k [CHR '':'', CHR '' '', CHR 0x09] then Inl (failure Invalid)
     else Inr sz)"

definition artifactOptions :: "metadata \<Rightarrow> err + put_options" where
  "artifactOptions md =
     (if length md > 128 then Inl (failure Limit)
      else res_bind (fold_res check_metadata md 0) (\<lambda>_.
        Inr \<lparr>po_UserMetadata = md, po_ContentType = (if meta_get md ''cnpg-format'' = ''wal-retired-v1'' then ''application/json'' else ''application/octet-stream''),
          po_DisableMultipart = False, po_SendContentMd5 = False, po_IfNoneMatch = [], po_IfMatch = []\<rparr>))"

definition put_options_for :: "condition \<Rightarrow> metadata \<Rightarrow> err + put_options" where
  "put_options_for c md =
     (if cnd_Create c = (cnd_Match c \<noteq> []) \<or> cnd_Match c \<noteq> [] \<and> \<not> validETag (cnd_Match c) then Inl (failure Invalid)
      else res_bind (artifactOptions md) (\<lambda>p. let p = p\<lparr>po_DisableMultipart := True, po_SendContentMd5 := True\<rparr> in
        Inr (if cnd_Create c then p\<lparr>po_IfNoneMatch := ''*''\<rparr> else p\<lparr>po_IfMatch := cnd_Match c\<rparr>)))"

section \<open>New\<close>

record store_config =
  sc_Endpoint :: string
  sc_Bucket :: string
  sc_Prefix :: string
  sc_Signature :: string
  sc_Addressing :: string
  sc_Region :: string
  sc_AccessKey :: string
  sc_SecretKey :: string
  sc_SessionToken :: string
  sc_CA :: bytes
  sc_ConnectTimeout :: int
  sc_MetadataTimeout :: int
  sc_DataRequestTimeout :: int
  sc_OperationTimeout :: int
  sc_WALUploadTimeout :: int
  sc_ArtifactUploads :: int
  sc_PartWorkers :: int
  sc_WALUploads :: int

record parsed_url =
  url_Scheme :: string
  url_Host :: string
  url_User :: bool
  url_RawQuery :: string
  url_ForceQuery :: bool
  url_Fragment :: string
  url_Path :: string
  url_RawPath :: string

text \<open>What \<open>New\<close> asks of \<open>net/url\<close>, of the SDK's \<open>s3utils\<close>, of \<open>encoding/pem\<close> and \<open>crypto/x509\<close>. \<open>ne_pem\<close>
  decodes the next block: its type, whether it has headers, whether it parses as a CA certificate,
  and the rest.\<close>

record new_env =
  ne_parse :: "string \<Rightarrow> parsed_url option"
  ne_express :: "string \<Rightarrow> parsed_url \<Rightarrow> bool"
  ne_amazon :: "parsed_url \<Rightarrow> bool"
  ne_bucketName :: "string \<Rightarrow> bool"
  ne_systemPool :: bool
  ne_pem :: "bytes \<Rightarrow> (string \<times> bool \<times> bool \<times> bytes) option"
  ne_core :: bool

definition second :: int where
  "second = 1000000000"

definition default_duration :: "int \<Rightarrow> int \<Rightarrow> int \<Rightarrow> int \<Rightarrow> err + int" where
  "default_duration v def lo hi = (let v = (if v = 0 then def else v) in if v < lo \<or> v > hi then Inl (failure Invalid) else Inr v)"

text \<open>\<open>bytes.TrimSpace\<close>: the code points of \<open>unicode.IsSpace\<close>, in UTF-8.\<close>

definition space_runes :: "bytes list" where
  "space_runes = [[CHR 0x09], [CHR 0x0a], [CHR 0x0b], [CHR 0x0c], [CHR 0x0d], [CHR 0x20],
     [CHR 0xc2, CHR 0x85], [CHR 0xc2, CHR 0xa0], [CHR 0xe1, CHR 0x9a, CHR 0x80], [CHR 0xe2, CHR 0x80, CHR 0x80], [CHR 0xe2, CHR 0x80, CHR 0x81], [CHR 0xe2, CHR 0x80, CHR 0x82],
     [CHR 0xe2, CHR 0x80, CHR 0x83], [CHR 0xe2, CHR 0x80, CHR 0x84], [CHR 0xe2, CHR 0x80, CHR 0x85], [CHR 0xe2, CHR 0x80, CHR 0x86], [CHR 0xe2, CHR 0x80, CHR 0x87], [CHR 0xe2, CHR 0x80, CHR 0x88],
     [CHR 0xe2, CHR 0x80, CHR 0x89], [CHR 0xe2, CHR 0x80, CHR 0x8a], [CHR 0xe2, CHR 0x80, CHR 0xa8], [CHR 0xe2, CHR 0x80, CHR 0xa9], [CHR 0xe2, CHR 0x80, CHR 0xaf], [CHR 0xe2, CHR 0x81, CHR 0x9f],
     [CHR 0xe3, CHR 0x80, CHR 0x80]]"

primrec trim_left :: "nat \<Rightarrow> bytes \<Rightarrow> bytes" where
  "trim_left 0 b = b"
| "trim_left (Suc n) b = (case find (has_prefix b) space_runes of None \<Rightarrow> b | Some r \<Rightarrow> trim_left n (drop (length r) b))"

primrec trim_right :: "nat \<Rightarrow> bytes \<Rightarrow> bytes" where
  "trim_right 0 b = b"
| "trim_right (Suc n) b = (case find (has_suffix b) space_runes of None \<Rightarrow> b | Some r \<Rightarrow> trim_right n (take (length b - length r) b))"

definition space_trimmed :: "bytes \<Rightarrow> bytes" where
  "space_trimmed b = (let b = trim_left (length b) b in trim_right (length b) b)"

text \<open>The bundle loop; each round must consume, which \<open>pem.Decode\<close> does.\<close>

fun check_bundle :: "nat \<Rightarrow> new_env \<Rightarrow> bytes \<Rightarrow> err + unit" where
  "check_bundle 0 E b = Inl (failure Invalid)"
| "check_bundle (Suc n) E b =
     (if space_trimmed b = [] then Inr ()
      else case ne_pem E b of
        None \<Rightarrow> Inl (failure Invalid)
      | Some (ty, headers, ca, rest) \<Rightarrow>
         if ty \<noteq> ''CERTIFICATE'' \<or> headers \<or> \<not> has_prefix (space_trimmed b) ''-----BEGIN CERTIFICATE-----'' then Inl (failure Invalid)
         else if \<not> ca then Inl (failure Invalid)
         else check_bundle n E rest)"

definition check_endpoint :: "new_env \<Rightarrow> store_config \<Rightarrow> err + parsed_url" where
  "check_endpoint E c = (case ne_parse E (sc_Endpoint c) of
     None \<Rightarrow> Inl (failure Invalid)
   | Some u \<Rightarrow>
      if url_Scheme u \<noteq> ''https'' \<or> url_Host u = [] \<or> url_User u \<or> url_RawQuery u \<noteq> [] \<or> url_ForceQuery u \<or> url_Fragment u \<noteq> [] \<or>
         (url_Path u \<noteq> [] \<and> url_Path u \<noteq> ''/'') \<or> url_RawPath u \<noteq> [] \<or> has_suffix (sc_Endpoint c) ''#'' then Inl (failure Invalid) else Inr u)"

definition check_credentials :: "store_config \<Rightarrow> err + unit" where
  "check_credentials c =
     (if sc_Signature c \<noteq> ''v2'' \<and> sc_Signature c \<noteq> ''v4'' \<or> sc_Addressing c \<noteq> ''path'' \<or> sc_Region c = [] \<or> \<not> plain (sc_Region c) \<or>
         sc_AccessKey c = [] \<or> sc_SecretKey c = [] \<or> \<not> plain (sc_AccessKey c) \<or> \<not> plain (sc_SecretKey c) \<or> \<not> plain (sc_SessionToken c) \<or>
         sc_Signature c = ''v2'' \<and> sc_SessionToken c \<noteq> [] then Inl (failure Invalid) else Inr ())"

definition default_count :: "int \<Rightarrow> err + int" where
  "default_count n = (let n = (if n = 0 then 2 else n) in if n < 1 \<or> n > 2 then Inl (failure Invalid) else Inr n)"

definition NewStore :: "new_env \<Rightarrow> store_config \<Rightarrow> err + store" where
  "NewStore E c =
     res_bind (check_endpoint E c) (\<lambda>u.
     res_bind (check_credentials c) (\<lambda>_.
     if ne_express E (sc_Bucket c) u \<or> sc_Signature c = ''v2'' \<and> ne_amazon E u then Inl (failure Invalid)
     else if \<not> ne_bucketName E (sc_Bucket c) \<or> length (sc_Prefix c) > 128 \<or> sc_Prefix c \<noteq> [] \<and> \<not> validPath (sc_Prefix c) then Inl (failure Invalid)
     else
       res_bind (default_duration (sc_ConnectTimeout c) (10 * second) second (60 * second)) (\<lambda>_.
       res_bind (default_duration (sc_MetadataTimeout c) (30 * second) second (120 * second)) (\<lambda>meta.
       res_bind (default_duration (sc_DataRequestTimeout c) (900 * second) (10 * second) (3600 * second)) (\<lambda>_.
       res_bind (default_duration (sc_OperationTimeout c) (86400 * second) (60 * second) (604800 * second)) (\<lambda>oper.
       res_bind (default_duration (sc_WALUploadTimeout c) (120 * second) (10 * second) (900 * second)) (\<lambda>wal.
       res_bind (default_count (sc_ArtifactUploads c)) (\<lambda>na.
       res_bind (default_count (sc_PartWorkers c)) (\<lambda>nw.
       res_bind (default_count (sc_WALUploads c)) (\<lambda>nl.
       if \<not> ne_systemPool E then Inl (failure TLS)
       else if int (length (sc_CA c)) > 1048576 then Inl (failure Invalid)
       else res_bind (check_bundle (length (sc_CA c) + 1) E (sc_CA c)) (\<lambda>_.
         if \<not> ne_core E then Inl (failure Invalid)
         else Inr \<lparr>so_bucket = sc_Bucket c, so_prefix = sc_Prefix c, so_metadataTimeout = meta, so_operationTimeout = oper, so_walTimeout = wal,
           so_artifacts = na, so_wal = nl, so_workers = nw\<rparr>)))))))))))"

end
