(* ===== verification/Store_Objects.thy ===== *)
theory Store_Objects
  imports Store_Text Traces
begin

text \<open>
  The object operations of the storage adapter (s3store/objects.go, s3store/list.go and the
  checks of s3store/checks.go). The SDK's \<open>minio.Core\<close>, the context, the transfer slots and the
  local files are a record of operations over an arbitrary world.
\<close>

section \<open>The SDK and the environment\<close>

record sdk_object =
  sdo_Key :: string
  sdo_ETag :: string
  sdo_Size :: int
  sdo_Modified :: instant
  sdo_UserMetadata :: metadata
  sdo_VersionID :: string

record sdk_upload =
  sdu_Bucket :: string
  sdu_Key :: string
  sdu_ETag :: string
  sdu_VersionID :: string

text \<open>The body of a GET: the bytes it delivers before it ends or fails, and whether closing it fails.\<close>

record body =
  bd_Bytes :: bytes
  bd_Fail :: bool
  bd_CloseFail :: bool

text \<open>A caller-owned source file: its bytes, whether \<open>Stat\<close> succeeds and whether it is regular.\<close>

record spool_file =
  sp_Bytes :: bytes
  sp_Stat :: bool
  sp_Regular :: bool

datatype slot = LocalWAL | LocalArtifacts | ProcessWAL | ProcessArtifacts

record uploads_page =
  upg_Uploads :: "(string \<times> string) list"
  upg_CommonPrefixes :: nat
  upg_IsTruncated :: bool
  upg_NextKeyMarker :: string
  upg_NextUploadIDMarker :: string

record sdk_part =
  spt_Number :: int
  spt_Size :: int
  spt_ETag :: string

record parts_page =
  ppg_Parts :: "sdk_part list"
  ppg_IsTruncated :: bool
  ppg_Next :: int

text \<open>\<open>co_canceled\<close> is \<open>ctx.Err() != nil\<close>; \<open>co_sleep n\<close> the timer of the n-th retry against the context;
  \<open>co_slot\<close> a send on a slot channel against the context; \<open>co_copy\<close> whether \<open>copyContext\<close> got its
  source without an error of the context or the file; \<open>co_file\<close> an operation on a local file. An
  iterator's values are those it yields until it ends. The bucket configuration errors carry
  their HTTP status.\<close>

record 'w sdk =
  co_PutObject :: "string \<Rightarrow> bytes \<Rightarrow> string \<Rightarrow> string \<Rightarrow> put_options \<Rightarrow> 'w \<Rightarrow> (sdk_error + sdk_upload) \<times> 'w"
  co_StatObject :: "string \<Rightarrow> 'w \<Rightarrow> (sdk_error + sdk_object) \<times> 'w"
  co_GetObject :: "string \<Rightarrow> 'w \<Rightarrow> (sdk_error + sdk_object \<times> body) \<times> 'w"
  co_RemoveObject :: "string \<Rightarrow> 'w \<Rightarrow> (sdk_error + unit) \<times> 'w"
  co_ListObjects :: "string \<Rightarrow> 'w \<Rightarrow> (sdk_error + sdk_object) list \<times> 'w"
  co_ListUploads :: "string \<Rightarrow> string \<Rightarrow> string \<Rightarrow> 'w \<Rightarrow> (sdk_error + uploads_page) \<times> 'w"
  co_ListParts :: "string \<Rightarrow> string \<Rightarrow> int \<Rightarrow> 'w \<Rightarrow> (sdk_error + parts_page) \<times> 'w"
  co_NewUpload :: "string \<Rightarrow> put_options \<Rightarrow> 'w \<Rightarrow> (sdk_error + string) \<times> 'w"
  co_PutPart :: "string \<Rightarrow> string \<Rightarrow> int \<Rightarrow> bytes \<Rightarrow> string \<Rightarrow> 'w \<Rightarrow> (sdk_error + string) \<times> 'w"
  co_Complete :: "string \<Rightarrow> string \<Rightarrow> (int \<times> string) list \<Rightarrow> put_options \<Rightarrow> 'w \<Rightarrow> (sdk_error + sdk_upload) \<times> 'w"
  co_AbortUpload :: "string \<Rightarrow> string \<Rightarrow> 'w \<Rightarrow> (sdk_error + unit) \<times> 'w"
  co_Versioning :: "'w \<Rightarrow> (sdk_error + string) \<times> 'w"
  co_Lifecycle :: "'w \<Rightarrow> (sdk_error \<times> int + nat option) \<times> 'w"
  co_ObjectLock :: "'w \<Rightarrow> (sdk_error \<times> int + string) \<times> 'w"
  co_canceled :: "'w \<Rightarrow> bool \<times> 'w"
  co_sleep :: "nat \<Rightarrow> 'w \<Rightarrow> bool \<times> 'w"
  co_slot :: "slot \<Rightarrow> 'w \<Rightarrow> bool \<times> 'w"
  co_unslot :: "slot \<Rightarrow> 'w \<Rightarrow> 'w"
  co_copy :: "'w \<Rightarrow> bool \<times> 'w"
  co_file :: "'w \<Rightarrow> bool \<times> 'w"
  co_rand :: "'w \<Rightarrow> int list option \<times> 'w"

definition ask :: "('w \<Rightarrow> 'a \<times> 'w) \<Rightarrow> ('w, 'a) act" where
  "ask m w = (case m w of (x, w') \<Rightarrow> (Inr x, w'))"

text \<open>A call of the SDK whose error goes through \<open>classify\<close>.\<close>

definition sdk_call :: "bool \<Rightarrow> ('w \<Rightarrow> (sdk_error + 'a) \<times> 'w) \<Rightarrow> ('w, 'a) act" where
  "sdk_call mutation m w = (case m w of (Inl e, w') \<Rightarrow> (Inl (classify e mutation), w') | (Inr x, w') \<Rightarrow> (Inr x, w'))"

definition local_op :: "'w sdk \<Rightarrow> ('w, unit) act" where
  "local_op C = andthen (ask (co_file C)) (\<lambda>ok. if ok then ret () else fail (failure LocalIO))"

section \<open>Slots and retries\<close>

definition acquire_slot :: "'w sdk \<Rightarrow> slot \<Rightarrow> ('w, unit) act" where
  "acquire_slot C s = andthen (ask (co_slot C s)) (\<lambda>ok. if ok then ret () else fail (failure Canceled))"

definition release_slot :: "'w sdk \<Rightarrow> slot \<Rightarrow> ('w, unit) act" where
  "release_slot C s w = (Inr (), co_unslot C s w)"

text \<open>\<open>acquireData\<close> with the deferred release around the rest of the caller.\<close>

definition acquireData :: "'w sdk \<Rightarrow> slot \<Rightarrow> slot \<Rightarrow> ('w, 'a) act \<Rightarrow> ('w, 'a) act" where
  "acquireData C loc glob m =
     andthen (acquire_slot C loc) (\<lambda>_.
     attempt (acquire_slot C glob) (\<lambda>r. case r of
       Inl e \<Rightarrow> andthen (release_slot C loc) (\<lambda>_. fail e)
     | Inr _ \<Rightarrow> attempt m (\<lambda>r. andthen (release_slot C glob) (\<lambda>_. andthen (release_slot C loc) (\<lambda>_. lift r)))))"

text \<open>The loop of \<open>retryRead\<close> with \<open>n\<close> of its five rounds done.\<close>

function retry_from :: "'w sdk \<Rightarrow> ('w, 'a) act \<Rightarrow> nat \<Rightarrow> err \<Rightarrow> ('w, 'a) act" where
  "retry_from C fn n prev =
     (if n \<ge> 5 then fail prev
      else andthen (ask (co_canceled C)) (\<lambda>canceled.
        if canceled then fail (failure Canceled)
        else andthen (if n > 0 then ask (co_sleep C n) else ret True) (\<lambda>woke.
          if \<not> woke then fail (failure Canceled)
          else attempt fn (\<lambda>r. case r of
            Inr x \<Rightarrow> ret x
          | Inl e \<Rightarrow> if \<not> Is e Transient then fail e else retry_from C fn (n + 1) e))))"
  by pat_completeness auto
termination by (relation "measure (\<lambda>(_, _, n, _). 5 - n)") auto

declare retry_from.simps [simp del]

definition retryRead :: "'w sdk \<Rightarrow> ('w, 'a) act \<Rightarrow> ('w, 'a) act" where
  "retryRead C fn = retry_from C fn 0 (failure Unknown)"

section \<open>Objects\<close>

definition info_of :: "sdk_object \<Rightarrow> info" where
  "info_of v = \<lparr>inf_Key = sdo_Key v, inf_ETag = sdo_ETag v, inf_Size = sdo_Size v, inf_Modified = sdo_Modified v,
     inf_Metadata = map (\<lambda>(k, x). (to_lower k, x)) (sdo_UserMetadata v)\<rparr>"

definition classifyLocal :: "'w sdk \<Rightarrow> ('w, 'a) act" where
  "classifyLocal C = andthen (ask (co_canceled C)) (\<lambda>canceled. fail (failure (if canceled then Canceled else LocalIO)))"

definition checkFile :: "'w sdk \<Rightarrow> spool_file option \<Rightarrow> integrity \<Rightarrow> ('w, string) act" where
  "checkFile C f expected = (case f of
     None \<Rightarrow> fail (failure Invalid)
   | Some f \<Rightarrow>
      if \<not> sp_Stat f then fail (failure LocalIO)
      else if \<not> sp_Regular f \<or> int (length (sp_Bytes f)) \<noteq> itg_Size expected then fail (failure Invalid)
      else andthen (ask (co_copy C)) (\<lambda>ok.
        if \<not> ok then classifyLocal C
        else if digest (sp_Bytes f) \<noteq> itg_SHA256 expected then fail (failure Corrupt)
        else ret (base64 (md5 (sp_Bytes f)))))"

definition spool_bytes :: "spool_file option \<Rightarrow> bytes" where
  "spool_bytes f = (case f of None \<Rightarrow> [] | Some f \<Rightarrow> sp_Bytes f)"

definition PutFile :: "'w sdk \<Rightarrow> store \<Rightarrow> string \<Rightarrow> spool_file option \<Rightarrow> integrity \<Rightarrow> condition \<Rightarrow> metadata \<Rightarrow> ('w, info) act" where
  "PutFile C s key f expected c md =
     andthen (lift (store_key s key)) (\<lambda>k.
     andthen (lift (put_options_for c md)) (\<lambda>opts.
     if \<not> validIntegrity expected Store_MaxSingleSize then fail (failure Invalid)
     else acquireData C LocalWAL ProcessWAL (
       andthen (checkFile C f expected) (\<lambda>sum.
       andthen (sdk_call True (co_PutObject C k (spool_bytes f) sum (itg_SHA256 expected) opts)) (\<lambda>v.
       if \<not> validETag (sdu_ETag v) \<or> sdu_VersionID v \<noteq> [] then fail (S3Error Corrupt True)
       else ret \<lparr>inf_Key = key, inf_ETag = sdu_ETag v, inf_Size = itg_Size expected, inf_Modified = zero_instant, inf_Metadata = []\<rparr>)))))"

definition Head :: "'w sdk \<Rightarrow> store \<Rightarrow> string \<Rightarrow> ('w, info) act" where
  "Head C s key =
     andthen (lift (store_key s key)) (\<lambda>k.
     andthen (sdk_call False (co_StatObject C k)) (\<lambda>v.
     if \<not> validETag (sdo_ETag v) \<or> sdo_Size v < 0 \<or> sdo_VersionID v \<noteq> [] then fail (failure Corrupt)
     else ret (info_of (v\<lparr>sdo_Key := key\<rparr>))))"

text \<open>Reading at most \<open>n\<close> bytes of a body: a failure behind the limit is not seen.\<close>

definition read_limited :: "nat \<Rightarrow> body \<Rightarrow> bytes \<times> bool" where
  "read_limited n b = (take n (bd_Bytes b), bd_Fail b \<and> length (bd_Bytes b) < n)"

definition transient_or_canceled :: "'w sdk \<Rightarrow> ('w, 'a) act" where
  "transient_or_canceled C = andthen (ask (co_canceled C)) (\<lambda>canceled. fail (failure (if canceled then Canceled else Transient)))"

definition read_once :: "'w sdk \<Rightarrow> string \<Rightarrow> string \<Rightarrow> int \<Rightarrow> ('w, bytes \<times> info) act" where
  "read_once C key k lim =
     andthen (sdk_call False (co_GetObject C k)) (\<lambda>(v, r).
     if sdo_Size v < 0 \<or> sdo_Size v > lim \<or> \<not> validETag (sdo_ETag v) \<or> sdo_VersionID v \<noteq> [] then fail (failure Corrupt)
     else case read_limited (nat (lim + 1)) r of (b, failed) \<Rightarrow>
       if failed then transient_or_canceled C
       else if int (length b) \<noteq> sdo_Size v then fail (failure Corrupt)
       else if bd_CloseFail r then fail (failure Transient)
       else ret (b, info_of (v\<lparr>sdo_Key := key\<rparr>)))"

definition Read :: "'w sdk \<Rightarrow> store \<Rightarrow> string \<Rightarrow> int \<Rightarrow> ('w, bytes \<times> info) act" where
  "Read C s key lim =
     andthen (lift (store_key s key)) (\<lambda>k.
     if lim < 1 \<or> lim > MaxMetadataSize then fail (failure Invalid)
     else retryRead C (read_once C key k lim))"

text \<open>\<open>co_file\<close> is asked for the truncation, the seek, the writes and the sync of the destination, in this order.\<close>

definition download_rest :: "'w sdk \<Rightarrow> string \<Rightarrow> integrity \<Rightarrow> sdk_object \<times> body \<Rightarrow> ('w, bytes \<times> info) act" where
  "download_rest C key expected = (\<lambda>(v, r).
     if sdo_Size v \<noteq> itg_Size expected \<or> \<not> validETag (sdo_ETag v) \<or> sdo_VersionID v \<noteq> [] then fail (failure Corrupt)
     else case read_limited (nat (itg_Size expected + 1)) r of (b, failed) \<Rightarrow>
       andthen (local_op C) (\<lambda>_.
       andthen (ask (co_copy C)) (\<lambda>ok.
       if failed \<or> \<not> ok then transient_or_canceled C
       else if int (length b) \<noteq> itg_Size expected \<or> digest b \<noteq> itg_SHA256 expected then fail (failure Corrupt)
       else if bd_CloseFail r then fail (failure Transient)
       else andthen (local_op C) (\<lambda>_. ret (b, info_of (v\<lparr>sdo_Key := key\<rparr>))))))"

definition download_once :: "'w sdk \<Rightarrow> string \<Rightarrow> string \<Rightarrow> integrity \<Rightarrow> ('w, bytes \<times> info) act" where
  "download_once C key k expected =
     andthen (local_op C) (\<lambda>_.
     andthen (local_op C) (\<lambda>_.
     andthen (sdk_call False (co_GetObject C k)) (download_rest C key expected)))"

text \<open>\<open>dst\<close> is whether the destination is non-nil.\<close>

definition download :: "'w sdk \<Rightarrow> store \<Rightarrow> string \<Rightarrow> bool \<Rightarrow> integrity \<Rightarrow> slot \<Rightarrow> ('w, bytes \<times> info) act" where
  "download C s key dst expected loc =
     andthen (lift (store_key s key)) (\<lambda>k.
     if \<not> dst \<or> \<not> validIntegrity expected MaxArtifactSize then fail (failure Invalid)
     else acquireData C loc (if loc = LocalWAL then ProcessWAL else ProcessArtifacts) (retryRead C (download_once C key k expected)))"

definition Download :: "'w sdk \<Rightarrow> store \<Rightarrow> string \<Rightarrow> bool \<Rightarrow> integrity \<Rightarrow> ('w, bytes \<times> info) act" where
  "Download C s key dst expected = download C s key dst expected LocalArtifacts"

definition Store_DownloadWAL :: "'w sdk \<Rightarrow> store \<Rightarrow> string \<Rightarrow> bool \<Rightarrow> integrity \<Rightarrow> ('w, bytes \<times> info) act" where
  "Store_DownloadWAL C s key dst expected =
     (if itg_Size expected > Store_MaxSingleSize then fail (failure Invalid) else download C s key dst expected LocalWAL)"

definition Delete :: "'w sdk \<Rightarrow> store \<Rightarrow> string \<Rightarrow> ('w, unit) act" where
  "Delete C s key = andthen (lift (store_key s key)) (\<lambda>k. sdk_call True (co_RemoveObject C k))"

definition valid_uploadID :: "string \<Rightarrow> bool" where
  "valid_uploadID u \<longleftrightarrow> u \<noteq> [] \<and> length u \<le> 2048 \<and> plain u"

definition Abort :: "'w sdk \<Rightarrow> store \<Rightarrow> upload \<Rightarrow> ('w, unit) act" where
  "Abort C s u =
     andthen (lift (store_key s (upl_Key u))) (\<lambda>k.
     if \<not> valid_uploadID (upl_ID u) then fail (failure Invalid)
     else sdk_call True (co_AbortUpload C k (upl_ID u)))"

section \<open>Listings\<close>

definition MaxInventory :: int where
  "MaxInventory = 1000000"

text \<open>The loop of \<open>List\<close> over the iterator's values, with the last key, the count and the visitor's state.\<close>

fun list_loop :: "'w sdk \<Rightarrow> store \<Rightarrow> string \<Rightarrow> int \<Rightarrow> (info \<Rightarrow> 'v \<Rightarrow> ('w, 'v) act) \<Rightarrow> (sdk_error + sdk_object) list \<Rightarrow> string \<Rightarrow> int \<Rightarrow> 'v \<Rightarrow> ('w, 'v) act" where
  "list_loop C s p lim visit [] prev n v = andthen (ask (co_canceled C)) (\<lambda>canceled. if canceled then fail (failure Canceled) else ret v)"
| "list_loop C s p lim visit (Inl e # vs) prev n v = fail (classify e False)"
| "list_loop C s p lim visit (Inr x # vs) prev n v =
     (if n + 1 > lim then fail (failure Limit)
      else if \<not> has_prefix (sdo_Key x) p \<or> sdo_Key x \<le> prev \<or> sdo_Size x < 0 \<or> \<not> validETag (sdo_ETag x) then fail (failure Corrupt)
      else let rel = relative s (sdo_Key x) in case store_key s rel of
        Inl _ \<Rightarrow> fail (failure Corrupt)
      | Inr _ \<Rightarrow> andthen (visit (info_of (x\<lparr>sdo_Key := rel\<rparr>)) v) (list_loop C s p lim visit vs (sdo_Key x) (n + 1)))"

definition Store_List :: "'w sdk \<Rightarrow> store \<Rightarrow> string \<Rightarrow> int \<Rightarrow> (info \<Rightarrow> 'v \<Rightarrow> ('w, 'v) act) \<Rightarrow> 'v \<Rightarrow> ('w, 'v) act" where
  "Store_List C s p lim visit v =
     andthen (lift (listPrefix s p)) (\<lambda>p.
     if lim < 1 \<or> lim > MaxInventory then fail (failure Invalid)
     else andthen (ask (co_ListObjects C p)) (\<lambda>vs. list_loop C s p lim visit vs [] 0 v))"

text \<open>The uploads of one page.\<close>

definition visit_upload :: "store \<Rightarrow> string \<Rightarrow> int \<Rightarrow> (upload \<Rightarrow> 'v \<Rightarrow> ('w, 'v) act) \<Rightarrow> string \<times> string \<Rightarrow> int \<times> 'v \<Rightarrow> ('w, int \<times> 'v) act" where
  "visit_upload s p lim visit = (\<lambda>(key, uid) (n, v).
     if n + 1 > lim then fail (failure Limit)
     else if \<not> has_prefix key p \<or> \<not> valid_uploadID uid then fail (failure Corrupt)
     else let rel = relative s key in case store_key s rel of
       Inl _ \<Rightarrow> fail (failure Corrupt)
     | Inr _ \<Rightarrow> andthen (visit \<lparr>upl_Key = rel, upl_ID = uid\<rparr> v) (\<lambda>v. ret (n + 1, v)))"

text \<open>The page loop, with the number of pages it may still fetch.\<close>

fun upload_pages :: "'w sdk \<Rightarrow> store \<Rightarrow> string \<Rightarrow> int \<Rightarrow> (upload \<Rightarrow> 'v \<Rightarrow> ('w, 'v) act) \<Rightarrow> nat \<Rightarrow> string \<Rightarrow> string \<Rightarrow> int \<times> 'v \<Rightarrow> ('w, 'v) act" where
  "upload_pages C s p lim visit 0 key uid nv = fail (failure Limit)"
| "upload_pages C s p lim visit (Suc pages) key uid nv =
     andthen (sdk_call False (co_ListUploads C p key uid)) (\<lambda>pg.
     if length (upg_Uploads pg) > 1000 \<or> upg_CommonPrefixes pg \<noteq> 0 then fail (failure Corrupt)
     else andthen (each_fold (visit_upload s p lim visit) (upg_Uploads pg) nv) (\<lambda>nv.
       if \<not> upg_IsTruncated pg then ret (snd nv)
       else if upg_NextKeyMarker pg = [] \<or> upg_NextKeyMarker pg < key \<or> upg_NextKeyMarker pg = key \<and> upg_NextUploadIDMarker pg = uid \<or>
         upg_NextUploadIDMarker pg = [] then fail (failure Corrupt)
       else upload_pages C s p lim visit pages (upg_NextKeyMarker pg) (upg_NextUploadIDMarker pg) nv))"

definition ListUploads :: "'w sdk \<Rightarrow> store \<Rightarrow> string \<Rightarrow> int \<Rightarrow> (upload \<Rightarrow> 'v \<Rightarrow> ('w, 'v) act) \<Rightarrow> 'v \<Rightarrow> ('w, 'v) act" where
  "ListUploads C s p lim visit v =
     andthen (lift (listPrefix s p)) (\<lambda>p.
     if lim < 1 \<or> lim > MaxInventory then fail (failure Invalid)
     else upload_pages C s p lim visit 10001 [] [] (0, v))"

record part =
  prt_Number :: int
  prt_Size :: int
  prt_ETag :: string

definition trim_quotes :: "string \<Rightarrow> string" where
  "trim_quotes e = rev (dropWhile (\<lambda>c. c = CHR 0x22) (rev (dropWhile (\<lambda>c. c = CHR 0x22) e)))"

definition visit_part :: "(part \<Rightarrow> 'v \<Rightarrow> ('w, 'v) act) \<Rightarrow> sdk_part \<Rightarrow> int \<times> int \<times> 'v \<Rightarrow> ('w, int \<times> int \<times> 'v) act" where
  "visit_part visit p = (\<lambda>(prev, n, v). let etag = trim_quotes (spt_ETag p) in
     if n + 1 > 8192 then fail (failure Limit)
     else if spt_Number p \<le> prev \<or> spt_Size p < 0 \<or> spt_Size p > PartSize \<or> \<not> validETag etag then fail (failure Corrupt)
     else andthen (visit \<lparr>prt_Number = spt_Number p, prt_Size = spt_Size p, prt_ETag = etag\<rparr> v) (\<lambda>v. ret (spt_Number p, n + 1, v)))"

fun part_pages :: "'w sdk \<Rightarrow> string \<Rightarrow> string \<Rightarrow> (part \<Rightarrow> 'v \<Rightarrow> ('w, 'v) act) \<Rightarrow> nat \<Rightarrow> int \<Rightarrow> int \<times> 'v \<Rightarrow> ('w, 'v) act" where
  "part_pages C k uid visit 0 from nv = fail (failure Limit)"
| "part_pages C k uid visit (Suc pages) from nv =
     andthen (sdk_call False (co_ListParts C k uid from)) (\<lambda>pg.
     andthen (each_fold (visit_part visit) (ppg_Parts pg) (from, nv)) (\<lambda>(prev, nv).
     if \<not> ppg_IsTruncated pg then ret (snd nv)
     else if ppg_Next pg \<le> from \<or> ppg_Next pg \<noteq> prev then fail (failure Corrupt)
     else part_pages C k uid visit pages (ppg_Next pg) nv))"

definition ListParts :: "'w sdk \<Rightarrow> store \<Rightarrow> upload \<Rightarrow> (part \<Rightarrow> 'v \<Rightarrow> ('w, 'v) act) \<Rightarrow> 'v \<Rightarrow> ('w, 'v) act" where
  "ListParts C s u visit v =
     andthen (lift (store_key s (upl_Key u))) (\<lambda>k.
     if \<not> valid_uploadID (upl_ID u) then fail (failure Invalid)
     else part_pages C k (upl_ID u) visit 11 0 (0, v))"

section \<open>Checks\<close>

definition sdk_code :: "sdk_error \<Rightarrow> string" where
  "sdk_code e = (case e of SdkResponse c \<Rightarrow> c | _ \<Rightarrow> [])"

definition CheckBucketSafety :: "'w sdk \<Rightarrow> ('w, unit) act" where
  "CheckBucketSafety C =
     andthen (sdk_call False (co_Versioning C)) (\<lambda>status.
     if status \<noteq> [] then fail (failure Unsupported)
     else andthen (ask (co_Lifecycle C)) (\<lambda>lc.
       andthen (case lc of
           Inl (e, code) \<Rightarrow> if sdk_code e \<noteq> ''NoSuchLifecycleConfiguration'' \<or> code \<noteq> 404 then fail (classify e False) else ret ()
         | Inr rules \<Rightarrow> if rules \<noteq> Some 0 then fail (failure Unsupported) else ret ()) (\<lambda>_.
       andthen (ask (co_ObjectLock C)) (\<lambda>lk. case lk of
           Inl (e, code) \<Rightarrow> if sdk_code e \<noteq> ''ObjectLockConfigurationNotFoundError'' \<or> code \<noteq> 404 then fail (classify e False) else ret ()
         | Inr lock \<Rightarrow> if lock \<noteq> [] then fail (failure Unsupported) else ret ()))))"

definition probe_put :: "'w sdk \<Rightarrow> store \<Rightarrow> string \<Rightarrow> bytes \<Rightarrow> condition \<Rightarrow> ('w, info) act" where
  "probe_put C s key data c =
     andthen (local_op C) (\<lambda>_.
     andthen (local_op C) (\<lambda>_.
     PutFile C s key (Some \<lparr>sp_Bytes = data, sp_Stat = True, sp_Regular = True\<rparr>) \<lparr>itg_Size = int (length data), itg_SHA256 = digest data\<rparr> c []))"

text \<open>The write must be refused with a failed precondition.\<close>

definition must_refuse :: "('w, info) act \<Rightarrow> ('w, unit) act" where
  "must_refuse m = attempt m (\<lambda>r. case r of
     Inr _ \<Rightarrow> fail (failure Unsupported)
   | Inl e \<Rightarrow> if Is e Precondition then ret () else fail e)"

definition probe_text :: "int list \<Rightarrow> bytes" where
  "probe_text token = ''cnpg storage probe original '' @ hex_encode token"

definition probe_content :: "'w sdk \<Rightarrow> store \<Rightarrow> string \<Rightarrow> bytes \<Rightarrow> string \<Rightarrow> ('w, unit) act" where
  "probe_content C s key data etag =
     andthen (Read C s key 1024) (\<lambda>(got, head). if got \<noteq> data \<or> inf_ETag head \<noteq> etag then fail (failure Unsupported) else ret ())"

definition run_probes :: "'w sdk \<Rightarrow> store \<Rightarrow> string \<Rightarrow> string \<Rightarrow> string \<Rightarrow> bytes \<Rightarrow> bytes \<Rightarrow> ('w, unit) act" where
  "run_probes C s base k0 k1 a b =
     andthen (probe_put C s k0 a Create) (\<lambda>original.
     andthen (must_refuse (probe_put C s k0 b Create)) (\<lambda>_.
     andthen (probe_content C s k0 a (inf_ETag original)) (\<lambda>_.
     andthen (must_refuse (probe_put C s k1 b (Match (inf_ETag original)))) (\<lambda>_.
     andthen (probe_put C s k0 b (Match (inf_ETag original))) (\<lambda>newer.
     if inf_ETag newer = inf_ETag original then fail (failure Unsupported)
     else andthen (must_refuse (probe_put C s k0 a (Match (inf_ETag original)))) (\<lambda>_.
       andthen (probe_content C s k0 b (inf_ETag newer)) (\<lambda>_.
       andthen (Head C s k0) (\<lambda>stat.
       if inf_ETag stat \<noteq> inf_ETag newer \<or> inf_Size stat \<noteq> int (length b) then fail (failure Unsupported)
       else andthen (Store_List C s base 10 (\<lambda>v n. if inf_Key v \<noteq> k0 \<or> inf_ETag v \<noteq> inf_ETag newer then fail (failure Unsupported) else ret (n + 1)) (0 :: int)) (\<lambda>n.
         if n \<noteq> 1 then fail (failure Unsupported) else ret ())))))))))"

text \<open>The returned keys, also on failure, and the error.\<close>

definition CheckConditions :: "'w sdk \<Rightarrow> store \<Rightarrow> string \<Rightarrow> 'w \<Rightarrow> (string list \<times> err option) \<times> 'w" where
  "CheckConditions C s root w = (case store_key s root of
     Inl e \<Rightarrow> (([], Some e), w)
   | Inr _ \<Rightarrow> (case co_rand C w of
       (None, w) \<Rightarrow> (([], Some (failure LocalIO)), w)
     | (Some b, w) \<Rightarrow>
        let token = uuid_bits 64 b; base = root @ ''/'' @ uuid_text token @ ''/'';
            k0 = base @ ''conditional''; k1 = base @ ''missing''; a = probe_text token in
        (case andthen (local_op C) (\<lambda>_. run_probes C s base k0 k1 a (''replacement '' @ a)) w of
           (r, w) \<Rightarrow> (([k0, k1], err_of r), w))))"

end
