(* ===== verification/Store_Multipart.thy ===== *)
theory Store_Multipart
  imports Store_Objects
begin

text \<open>
  Multipart uploads (s3store/multipart.go): the part workers with their channel of jobs as a step
  relation over every schedule, and \<open>UploadFile\<close> around them.
\<close>

section \<open>Parts\<close>

definition part_count :: "integrity \<Rightarrow> nat" where
  "part_count expected = nat ((itg_Size expected + PartSize - 1) div PartSize)"

definition part_bytes :: "bytes \<Rightarrow> nat \<Rightarrow> bytes" where
  "part_bytes b i = take (nat PartSize) (drop (i * nat PartSize) b)"

text \<open>One iteration of a worker, up to its error handling. The worker's context is cancelled with the caller's and
  by \<open>stop\<close>.\<close>

definition part_upload :: "'w sdk \<Rightarrow> string \<Rightarrow> string \<Rightarrow> bytes \<Rightarrow> bool \<Rightarrow> nat \<Rightarrow> ('w, string) act" where
  "part_upload C k uid b stopped i =
     andthen (ask (co_copy C)) (\<lambda>ok.
     if \<not> ok then andthen (ask (co_canceled C)) (\<lambda>canceled. fail (failure (if canceled \<or> stopped then Canceled else LocalIO)))
     else andthen (sdk_call True (co_PutPart C k uid (int i + 1) (part_bytes b i) (base64 (md5 (part_bytes b i))))) (\<lambda>etag.
       if \<not> validETag etag then fail (S3Error Corrupt True) else ret etag))"

text \<open>What \<open>first\<close> becomes when a worker fails.\<close>

definition merge_error :: "err option \<Rightarrow> err \<Rightarrow> err option" where
  "merge_error first e = (case first of
     None \<Rightarrow> Some e
   | Some (S3Error k a) \<Rightarrow> (case e of S3Error _ b \<Rightarrow> Some (S3Error k (a \<or> b)) | _ \<Rightarrow> first)
   | _ \<Rightarrow> first)"

section \<open>Workers\<close>

datatype worker = Idle | Busy nat | Exited

text \<open>\<open>us_canceled\<close> is set once the caller's context is done, which is permanent.\<close>

record up_state =
  us_next :: nat
  us_sending :: bool
  us_workers :: "worker list"
  us_parts :: "(int \<times> string) list"
  us_first :: "err option"
  us_stopped :: bool
  us_canceled :: bool

definition up_init :: "nat \<Rightarrow> integrity \<Rightarrow> up_state" where
  "up_init workers expected = \<lparr>us_next = 0, us_sending = True, us_workers = replicate workers Idle, us_parts = replicate (part_count expected) (0, []),
     us_first = None, us_stopped = False, us_canceled = False\<rparr>"

inductive up_step :: "'w sdk \<Rightarrow> string \<Rightarrow> string \<Rightarrow> bytes \<Rightarrow> up_state \<times> 'w \<Rightarrow> up_state \<times> 'w \<Rightarrow> bool" for C k uid b where
  cancel: "\<not> us_canceled us \<Longrightarrow> up_step C k uid b (us, w) (us\<lparr>us_canceled := True\<rparr>, w)"
| take_job: "us_sending us \<Longrightarrow> us_next us < length (us_parts us) \<Longrightarrow> j < length (us_workers us) \<Longrightarrow> us_workers us ! j = Idle \<Longrightarrow>
    up_step C k uid b (us, w) (us\<lparr>us_workers := (us_workers us)[j := Busy (us_next us)], us_next := us_next us + 1\<rparr>, w)"
| break_send: "us_sending us \<Longrightarrow> us_next us < length (us_parts us) \<Longrightarrow> us_stopped us \<or> us_canceled us \<Longrightarrow>
    up_step C k uid b (us, w) (us\<lparr>us_sending := False\<rparr>, w)"
| all_sent: "us_sending us \<Longrightarrow> us_next us = length (us_parts us) \<Longrightarrow> up_step C k uid b (us, w) (us\<lparr>us_sending := False\<rparr>, w)"
| jobs_closed: "\<not> us_sending us \<Longrightarrow> j < length (us_workers us) \<Longrightarrow> us_workers us ! j = Idle \<Longrightarrow>
    up_step C k uid b (us, w) (us\<lparr>us_workers := (us_workers us)[j := Exited]\<rparr>, w)"
| part_done: "j < length (us_workers us) \<Longrightarrow> us_workers us ! j = Busy i \<Longrightarrow> part_upload C k uid b (us_stopped us) i w = (Inr etag, w') \<Longrightarrow>
    up_step C k uid b (us, w) (us\<lparr>us_workers := (us_workers us)[j := Idle], us_parts := (us_parts us)[i := (int i + 1, etag)]\<rparr>, w')"
| part_failed: "j < length (us_workers us) \<Longrightarrow> us_workers us ! j = Busy i \<Longrightarrow> part_upload C k uid b (us_stopped us) i w = (Inl e, w') \<Longrightarrow>
    up_step C k uid b (us, w) (us\<lparr>us_workers := (us_workers us)[j := Exited], us_first := merge_error (us_first us) e, us_stopped := True\<rparr>, w')"

text \<open>\<open>wg.Wait()\<close> has returned.\<close>

definition up_done :: "up_state \<Rightarrow> bool" where
  "up_done us \<longleftrightarrow> \<not> us_sending us \<and> list_all (\<lambda>x. x = Exited) (us_workers us)"

section \<open>UploadFile\<close>

definition finish_upload :: "'w sdk \<Rightarrow> store \<Rightarrow> string \<Rightarrow> string \<Rightarrow> integrity \<Rightarrow> put_options \<Rightarrow> upload \<Rightarrow> up_state \<Rightarrow> ('w, upload \<times> (err + info)) act" where
  "finish_upload C s key k expected opts u us = (case us_first us of
     Some e \<Rightarrow> ret (u, Inl e)
   | None \<Rightarrow>
      andthen (ask (co_canceled C)) (\<lambda>canceled.
      if canceled \<or> us_canceled us then ret (u, Inl (failure Canceled))
      else attempt (sdk_call True (co_Complete C k (upl_ID u) (us_parts us) opts)) (\<lambda>r. case r of
        Inl e \<Rightarrow> ret (u, Inl e)
      | Inr v \<Rightarrow>
         if \<not> validETag (sdu_ETag v) \<or> sdu_VersionID v \<noteq> [] \<or> sdu_Bucket v \<noteq> so_bucket s \<or> sdu_Key v \<noteq> k then ret (u, Inl (S3Error Corrupt True))
         else ret (u, Inr \<lparr>inf_Key = key, inf_ETag = sdu_ETag v, inf_Size = itg_Size expected, inf_Modified = zero_instant, inf_Metadata = []\<rparr>))))"

text \<open>\<open>run\<close> is the schedule of the workers: it takes their initial state to the state after \<open>wg.Wait()\<close>.\<close>

type_synonym 'w schedule = "string \<Rightarrow> string \<Rightarrow> bytes \<Rightarrow> up_state \<times> 'w \<Rightarrow> up_state \<times> 'w"

definition upload_body :: "'w sdk \<Rightarrow> 'w schedule \<Rightarrow> store \<Rightarrow> string \<Rightarrow> string \<Rightarrow> spool_file option \<Rightarrow> integrity \<Rightarrow> put_options \<Rightarrow> ('w, upload \<times> (err + info)) act" where
  "upload_body C run s key k f expected opts = (let u = \<lparr>upl_Key = key, upl_ID = []\<rparr> in
     attempt (checkFile C f expected) (\<lambda>r. case r of
       Inl e \<Rightarrow> ret (u, Inl e)
     | Inr _ \<Rightarrow> attempt (sdk_call True (co_NewUpload C k opts)) (\<lambda>r. case r of
         Inl e \<Rightarrow> ret (u, Inl e)
       | Inr uid \<Rightarrow> let u = u\<lparr>upl_ID := uid\<rparr> in
          if \<not> valid_uploadID uid then ret (u, Inl (S3Error Corrupt True))
          else (\<lambda>w. case run k uid (spool_bytes f) (up_init (nat (so_workers s)) expected, w) of (us, w') \<Rightarrow>
            finish_upload C s key k expected opts u us w'))))"

definition UploadFile :: "'w sdk \<Rightarrow> 'w schedule \<Rightarrow> store \<Rightarrow> string \<Rightarrow> spool_file option \<Rightarrow> integrity \<Rightarrow> metadata \<Rightarrow> 'w \<Rightarrow> (upload \<times> (err + info)) \<times> 'w" where
  "UploadFile C run s key f expected md w = (let u = \<lparr>upl_Key = key, upl_ID = []\<rparr> in
     case store_key s key of
       Inl e \<Rightarrow> ((u, Inl e), w)
     | Inr k \<Rightarrow>
        if \<not> validIntegrity expected MaxArtifactSize \<or> itg_Size expected = 0 then ((u, Inl (failure Invalid)), w)
        else case artifactOptions md of
          Inl e \<Rightarrow> ((u, Inl e), w)
        | Inr opts \<Rightarrow> (case acquireData C LocalArtifacts ProcessArtifacts (upload_body C run s key k f expected opts) w of
            (Inl e, w') \<Rightarrow> ((u, Inl e), w')
          | (Inr res, w') \<Rightarrow> (res, w')))"

end
