(* ===== verification/Store_Order.thy ===== *)
theory Store_Order
  imports Store_Multipart
begin

text \<open>
  What the operations of the storage adapter send: recorded calls of the SDK, one request per
  mutation, and slots that are given back.
\<close>

section \<open>Recording\<close>

datatype store_event =
    CallPut string bytes put_options "sdk_error + sdk_upload"
  | CallRemove string "sdk_error + unit"
  | CallNewUpload string "sdk_error + string"
  | CallPart string string int bytes "sdk_error + string"
  | CallComplete string string "(int \<times> string) list" "sdk_error + sdk_upload"
  | CallAbort string string "sdk_error + unit"
  | CallGet string "sdk_error + sdk_object \<times> body"
  | CallStat string
  | CallPage
  | Acquired slot bool
  | Released slot

definition straced :: "'w sdk \<Rightarrow> ('w \<times> store_event list) sdk" where
  "straced C = \<lparr>
     co_PutObject = (\<lambda>k b m h p. log_call (CallPut k b p) (co_PutObject C k b m h p)),
     co_StatObject = (\<lambda>k. log_call (\<lambda>_. CallStat k) (co_StatObject C k)),
     co_GetObject = (\<lambda>k. log_call (CallGet k) (co_GetObject C k)),
     co_RemoveObject = (\<lambda>k. log_call (CallRemove k) (co_RemoveObject C k)),
     co_ListObjects = (\<lambda>p. log_call (\<lambda>_. CallPage) (co_ListObjects C p)),
     co_ListUploads = (\<lambda>p k u. log_call (\<lambda>_. CallPage) (co_ListUploads C p k u)),
     co_ListParts = (\<lambda>k u n. log_call (\<lambda>_. CallPage) (co_ListParts C k u n)),
     co_NewUpload = (\<lambda>k p. log_call (CallNewUpload k) (co_NewUpload C k p)),
     co_PutPart = (\<lambda>k u n b m. log_call (CallPart k u n b) (co_PutPart C k u n b m)),
     co_Complete = (\<lambda>k u ps p. log_call (CallComplete k u ps) (co_Complete C k u ps p)),
     co_AbortUpload = (\<lambda>k u. log_call (CallAbort k u) (co_AbortUpload C k u)),
     co_Versioning = pass_call (co_Versioning C),
     co_Lifecycle = pass_call (co_Lifecycle C),
     co_ObjectLock = pass_call (co_ObjectLock C),
     co_canceled = pass_call (co_canceled C),
     co_sleep = (\<lambda>n. pass_call (co_sleep C n)),
     co_slot = (\<lambda>s. log_call (Acquired s) (co_slot C s)),
     co_unslot = (\<lambda>s (w, tr). (co_unslot C s w, tr @ [Released s])),
     co_copy = pass_call (co_copy C),
     co_file = pass_call (co_file C),
     co_rand = pass_call (co_rand C)\<rparr>"

lemma straced_mutations:
  "co_PutObject (straced C) k b m h p = log_call (CallPut k b p) (co_PutObject C k b m h p)"
  "co_NewUpload (straced C) k p = log_call (CallNewUpload k) (co_NewUpload C k p)"
  "co_PutPart (straced C) k u n b m = log_call (CallPart k u n b) (co_PutPart C k u n b m)"
  "co_Complete (straced C) k u ps p = log_call (CallComplete k u ps) (co_Complete C k u ps p)"
  by (simp_all add: straced_def)

fun mutating :: "store_event \<Rightarrow> bool" where
  "mutating (CallGet _ _) = False"
| "mutating (CallStat _) = False"
| "mutating CallPage = False"
| "mutating (Acquired _ _) = False"
| "mutating (Released _) = False"
| "mutating _ = True"

text \<open>The mutating requests of a trace.\<close>

abbreviation mutations :: "store_event list \<Rightarrow> store_event list" where
  "mutations \<equiv> filter mutating"

section \<open>What each action sends\<close>

named_theorems sends_intros \<open>what the actions of the storage adapter record\<close>

lemma emits_ask_pass: "ct.emits A (ask (pass_call m))"
  by (rule ct.emitsI) (auto simp: ask_def pass_call_def split: prod.splits)

lemma emits_ask_log: "(\<And>r. A (ev r)) \<Longrightarrow> ct.emits A (ask (log_call ev m))"
  by (rule ct.emitsI) (auto simp: ask_def log_call_def split: prod.splits)

lemma emits_sdk_log: "(\<And>r. A (ev r)) \<Longrightarrow> ct.emits A (sdk_call mt (log_call ev m))"
  by (rule ct.emitsI) (auto simp: sdk_call_def log_call_def split: prod.splits sum.splits)

lemma emits_sdk_pass: "ct.emits A (sdk_call mt (pass_call m))"
  by (rule ct.emitsI) (auto simp: sdk_call_def pass_call_def split: prod.splits sum.splits)

lemma emits_sdk:
  "ct.emits A (ask (co_canceled (straced C)))" "ct.emits A (ask (co_sleep (straced C) n))" "ct.emits A (ask (co_copy (straced C)))"
  "ct.emits A (ask (co_file (straced C)))" "ct.emits A (sdk_call mt (co_Versioning (straced C)))"
  "ct.emits A (ask (co_Lifecycle (straced C)))" "ct.emits A (ask (co_ObjectLock (straced C)))"
  "(\<And>b. A (Acquired sl b)) \<Longrightarrow> ct.emits A (ask (co_slot (straced C) sl))"
  "(\<And>r. A (CallGet k r)) \<Longrightarrow> ct.emits A (sdk_call mt (co_GetObject (straced C) k))"
  "A (CallStat k) \<Longrightarrow> ct.emits A (sdk_call mt (co_StatObject (straced C) k))"
  "A CallPage \<Longrightarrow> ct.emits A (ask (co_ListObjects (straced C) p))"
  "A CallPage \<Longrightarrow> ct.emits A (sdk_call mt (co_ListUploads (straced C) p k u))"
  "A CallPage \<Longrightarrow> ct.emits A (sdk_call mt (co_ListParts (straced C) k u i))"
  by (simp_all add: straced_def emits_ask_pass emits_ask_log emits_sdk_log emits_sdk_pass)

lemmas [sends_intros] = emits_sdk ct.emits_rules

lemma emits_local_op [sends_intros]: "ct.emits A (local_op (straced C))"
  unfolding local_op_def by (auto intro!: sends_intros)

lemma emits_classifyLocal [sends_intros]: "ct.emits A (classifyLocal (straced C))"
  unfolding classifyLocal_def by (auto intro!: sends_intros)

lemma emits_transient [sends_intros]: "ct.emits A (transient_or_canceled (straced C))"
  unfolding transient_or_canceled_def by (auto intro!: sends_intros)

lemma emits_checkFile [sends_intros]: "ct.emits A (checkFile (straced C) f expected)"
  unfolding checkFile_def by (auto intro!: sends_intros split: option.splits)

lemma emits_retry:
  assumes "ct.emits A fn"
  shows "ct.emits A (retry_from (straced C) fn n e)"
proof (induction "5 - n" arbitrary: n e rule: less_induct)
  case less
  have "ct.emits A (retry_from (straced C) fn (n + 1) e')" if "\<not> 5 \<le> n" for e' using less[of "n + 1"] that by simp
  then show ?case by (subst retry_from.simps) (auto intro!: sends_intros assms split: sum.splits)
qed

lemma emits_retryRead [sends_intros]: "ct.emits A fn \<Longrightarrow> ct.emits A (retryRead (straced C) fn)"
  unfolding retryRead_def by (rule emits_retry)

lemma emits_read_once [sends_intros]: "(\<And>r. A (CallGet k r)) \<Longrightarrow> ct.emits A (read_once (straced C) key k lim)"
  unfolding read_once_def by (auto intro!: sends_intros split: prod.splits)

lemma emits_download_rest [sends_intros]: "ct.emits A (download_rest (straced C) key expected x)"
  unfolding download_rest_def by (auto intro!: sends_intros split: prod.splits)

lemma emits_download_once [sends_intros]: "(\<And>r. A (CallGet k r)) \<Longrightarrow> ct.emits A (download_once (straced C) key k lim)"
  unfolding download_once_def by (auto intro!: sends_intros)

lemma sends_Read: "(\<And>k r. A (CallGet k r)) \<Longrightarrow> ct.emits A (Read (straced C) s key lim)"
  unfolding Read_def by (auto intro!: sends_intros)

lemma sends_Head: "(\<And>k. A (CallStat k)) \<Longrightarrow> ct.emits A (Head (straced C) s key)"
  unfolding Head_def by (auto intro!: sends_intros)

section \<open>Slots\<close>

text \<open>Around an action that touches no slot, both slots are taken and given back in the reverse order, or none is kept.\<close>

lemma acquireData_log:
  assumes "acquireData (straced C) loc glob m (w, tr) = (r, (w', tr'))"
    and m: "\<And>s r' s'. m s = (r', s') \<Longrightarrow> \<exists>ev. calls s' = calls s @ ev \<and> Q r' ev"
  shows "tr' = tr @ [Acquired loc False] \<and> r = Inl (failure Canceled) \<or>
    tr' = tr @ [Acquired loc True, Acquired glob False, Released loc] \<and> r = Inl (failure Canceled) \<or>
    (\<exists>ev. tr' = tr @ [Acquired loc True, Acquired glob True] @ ev @ [Released glob, Released loc] \<and> Q r ev)"
proof -
  obtain a w1 where 1: "co_slot C loc w = (a, w1)" by (metis prod.exhaust)
  obtain b w2 where 2: "co_slot C glob w1 = (b, w2)" by (metis prod.exhaust)
  obtain r3 w3 tr3 where 3: "m (w2, tr @ [Acquired loc True, Acquired glob True]) = (r3, (w3, tr3))" by (metis prod.exhaust)
  from m[OF 3] obtain ev where "tr3 = tr @ [Acquired loc True, Acquired glob True] @ ev" "Q r3 ev" by auto
  then show ?thesis using assms(1) 1 2 3
    by (auto simp: acquireData_def acquire_slot_def release_slot_def straced_def log_call_def ask_def andthen_def attempt_def
        ret_def fail_def lift_def failure_def split: if_splits)
qed


section \<open>One request per mutation\<close>

fun committing :: "store_event \<Rightarrow> bool" where
  "committing (CallPut _ _ _ _) = True"
| "committing (CallRemove _ _) = True"
| "committing (CallComplete _ _ _ _) = True"
| "committing (CallAbort _ _ _) = True"
| "committing _ = False"

fun refused_by :: "store_event \<Rightarrow> sdk_error option" where
  "refused_by (CallPut _ _ _ (Inl e)) = Some e"
| "refused_by (CallRemove _ (Inl e)) = Some e"
| "refused_by (CallComplete _ _ _ (Inl e)) = Some e"
| "refused_by (CallAbort _ _ (Inl e)) = Some e"
| "refused_by _ = None"

text \<open>At most one request that can change the visible objects; success means it was accepted, an error that is not ambiguous that none was sent or the store
  refused it for good.\<close>

definition sent_once :: "err option \<Rightarrow> store_event list \<Rightarrow> bool" where
  "sent_once res tr \<longleftrightarrow> (case filter committing tr of
     [] \<Rightarrow> res \<noteq> None
   | [m] \<Rightarrow> (case res of
       None \<Rightarrow> refused_by m = None
     | Some e \<Rightarrow> ambiguous e \<or> (\<exists>x k. refused_by m = Some x \<and> classify x True = S3Error k False \<and> definitive k \<and> e = S3Error k False))
   | _ \<Rightarrow> False)"

lemma sent_once_cong: "filter committing tr = filter committing tr' \<Longrightarrow> sent_once e tr = sent_once e tr'"
  by (simp add: sent_once_def)

lemma quiet_committing: "list_all (\<lambda>e. \<not> committing e) tr \<Longrightarrow> filter committing tr = []"
  by (simp add: filter_empty_conv list_all_iff)

lemma sent_nothing: "list_all (\<lambda>e. \<not> committing e) tr \<Longrightarrow> sent_once (Some e) tr"
  by (simp add: sent_once_def quiet_committing)

lemma classify_once: "ambiguous (classify x True) \<or> (\<exists>k. classify x True = S3Error k False \<and> definitive k)"
  using classify_mutation_definitive by blast

lemma sent_refused: "committing m \<Longrightarrow> refused_by m = Some x \<Longrightarrow> sent_once (Some (classify x True)) [m]"
  using classify_once[of x] by (auto simp: sent_once_def)

lemma sent_ambiguous: "committing m \<Longrightarrow> sent_once (Some (S3Error k True)) [m]"
  by (simp add: sent_once_def)

lemma sent_accepted: "committing m \<Longrightarrow> refused_by m = None \<Longrightarrow> sent_once None [m]"
  by (simp add: sent_once_def)

lemma silent_checkFile: "checkFile (straced C) f expected s = (r, s') \<Longrightarrow> calls s' = calls s"
  using ct.emitsD[OF emits_checkFile[where A = "\<lambda>_. False"]] by (fastforce simp: list_all_iff)

definition put_body :: "'w sdk \<Rightarrow> string \<Rightarrow> string \<Rightarrow> spool_file option \<Rightarrow> integrity \<Rightarrow> put_options \<Rightarrow> ('w, info) act" where
  "put_body C key k f expected opts =
     andthen (checkFile C f expected) (\<lambda>sum.
     andthen (sdk_call True (co_PutObject C k (spool_bytes f) sum (itg_SHA256 expected) opts)) (\<lambda>v.
     if \<not> validETag (sdu_ETag v) \<or> sdu_VersionID v \<noteq> [] then fail (S3Error Corrupt True)
     else ret \<lparr>inf_Key = key, inf_ETag = sdu_ETag v, inf_Size = itg_Size expected, inf_Modified = zero_instant, inf_Metadata = []\<rparr>))"

lemma put_body_log:
  assumes "put_body (straced C) key k f expected opts s = (r, s')"
  shows "\<exists>ev. calls s' = calls s @ ev \<and> sent_once (err_of r) ev"
proof -
  obtain r1 s1 where c: "checkFile (straced C) f expected s = (r1, s1)" by (metis prod.exhaust)
  note q = silent_checkFile[OF c]
  show ?thesis
  proof (cases r1)
    case (Inl e)
    then show ?thesis using assms c q by (auto simp: put_body_def andthen_def attempt_def fail_def err_of_def sent_once_def)
  next
    case (Inr sum)
    obtain w1 tr1 where s1: "s1 = (w1, tr1)" by (metis prod.exhaust)
    obtain v w2 where p: "co_PutObject C k (spool_bytes f) sum (itg_SHA256 expected) opts w1 = (v, w2)" by (metis prod.exhaust)
    then show ?thesis using assms c q Inr s1
      by (cases v) (auto simp: put_body_def andthen_def attempt_def fail_def ret_def err_of_def sdk_call_def straced_mutations log_call_def
          intro!: sent_refused sent_ambiguous sent_accepted split: if_splits)
  qed
qed

lemma sent_once_slots:
  "sent_once e ([Acquired a x, Acquired b y] @ ev @ [Released c, Released d]) = sent_once e ev"
  by (rule sent_once_cong) simp

lemma acquireData_once:
  assumes "acquireData (straced C) loc glob m (w, tr) = (r, (w', tr'))"
    and "\<And>s r' s'. m s = (r', s') \<Longrightarrow> \<exists>ev. calls s' = calls s @ ev \<and> sent_once (err_of r') ev"
  shows "\<exists>ev. tr' = tr @ ev \<and> sent_once (err_of r) ev"
proof -
  have "tr' = tr @ [Acquired loc False] \<and> r = Inl (failure Canceled) \<or>
    tr' = tr @ [Acquired loc True, Acquired glob False, Released loc] \<and> r = Inl (failure Canceled) \<or>
    (\<exists>ev. tr' = tr @ [Acquired loc True, Acquired glob True] @ ev @ [Released glob, Released loc] \<and> sent_once (err_of r) ev)"
    by (rule acquireData_log[OF assms(1)]) (rule assms(2))
  then show ?thesis
  proof (elim disjE exE conjE)
    fix ev assume "tr' = tr @ [Acquired loc True, Acquired glob True] @ ev @ [Released glob, Released loc]" "sent_once (err_of r) ev"
    then show ?thesis using sent_once_slots[of "err_of r" loc True glob True ev glob loc] by (metis append_assoc)
  qed (auto simp: err_of_def sent_once_def)
qed

lemma PutFile_sends:
  assumes "PutFile (straced C) s key f expected c md (w, []) = (r, (w', tr))"
  shows "sent_once (err_of r) tr"
proof -
  consider (early) e where "r = Inl e" "tr = []"
    | (sent) k opts where "acquireData (straced C) LocalWAL ProcessWAL (put_body (straced C) key k f expected opts) (w, []) = (r, (w', tr))"
    using assms by (auto simp: PutFile_def put_body_def andthen_def attempt_def lift_def fail_def split: sum.splits if_splits)
  then show ?thesis
  proof cases
    case early
    then show ?thesis by (simp add: err_of_def sent_once_def)
  next
    case sent
    from acquireData_once[OF sent put_body_log] show ?thesis by auto
  qed
qed

lemma sdk_call_sends:
  assumes "sdk_call True (log_call ev m) s = (r, s')" "\<And>r. committing (ev r)" "\<And>e. refused_by (ev (Inl e)) = Some e" "\<And>x. refused_by (ev (Inr x)) = None"
  shows "\<exists>ev. calls s' = calls s @ ev \<and> sent_once (err_of r) ev"
  using assms(1) by (auto simp: sdk_call_def log_call_def err_of_def intro!: sent_refused sent_accepted assms(2-) split: prod.splits sum.splits)

lemma Delete_sends:
  assumes "Delete (straced C) s key (w, []) = (r, (w', tr))"
  shows "sent_once (err_of r) tr"
proof (cases "store_key s key")
  case (Inl e)
  then show ?thesis using assms by (auto simp: Delete_def andthen_def attempt_def lift_def fail_def err_of_def sent_once_def)
next
  case (Inr k)
  then have "sdk_call True (log_call (CallRemove k) (co_RemoveObject C k)) (w, []) = (r, (w', tr))"
    using assms by (simp add: Delete_def andthen_def attempt_def lift_def straced_def)
  from sdk_call_sends[OF this] show ?thesis by auto
qed

lemma Abort_sends:
  assumes "Abort (straced C) s u (w, []) = (r, (w', tr))"
  shows "sent_once (err_of r) tr"
proof (cases "store_key s (upl_Key u)")
  case (Inl e)
  then show ?thesis using assms by (auto simp: Abort_def andthen_def attempt_def lift_def fail_def err_of_def sent_once_def)
next
  case (Inr k)
  show ?thesis
  proof (cases "valid_uploadID (upl_ID u)")
    case True
    then have "sdk_call True (log_call (CallAbort k (upl_ID u)) (co_AbortUpload C k (upl_ID u))) (w, []) = (r, (w', tr))"
      using assms Inr by (simp add: Abort_def andthen_def attempt_def lift_def straced_def)
    from sdk_call_sends[OF this] show ?thesis by auto
  next
    case False
    then show ?thesis using assms Inr by (auto simp: Abort_def andthen_def attempt_def lift_def fail_def err_of_def sent_once_def)
  qed
qed


section \<open>Retries\<close>

context recorder
begin

definition at_most :: "('e \<Rightarrow> bool) \<Rightarrow> nat \<Rightarrow> ('s, 'a) act \<Rightarrow> bool" where
  "at_most A n m \<longleftrightarrow> (\<forall>s r s'. m s = (r, s') \<longrightarrow> (\<exists>ev. trace s' = trace s @ ev \<and> length (filter A ev) \<le> n))"

lemma at_mostI: "(\<And>s r s'. m s = (r, s') \<Longrightarrow> \<exists>ev. trace s' = trace s @ ev \<and> length (filter A ev) \<le> n) \<Longrightarrow> at_most A n m"
  by (auto simp: at_most_def)

lemma at_mostD: "at_most A n m \<Longrightarrow> m s = (r, s') \<Longrightarrow> \<exists>ev. trace s' = trace s @ ev \<and> length (filter A ev) \<le> n"
  by (auto simp: at_most_def)

lemma at_most_silent: "emits (\<lambda>_. False) m \<Longrightarrow> at_most A n m"
  by (rule at_mostI) (auto dest!: emitsD simp: list_all_iff)

lemma at_most_attempt:
  assumes "at_most A i m" "\<And>r. at_most A j (k r)"
  shows "at_most A (i + j) (attempt m k)"
proof (rule at_mostI)
  fix s r s' assume "attempt m k s = (r, s')"
  then obtain r1 s1 where 1: "m s = (r1, s1)" "k r1 s1 = (r, s')" by (auto simp: attempt_def split: prod.splits)
  from at_mostD[OF assms(1) 1(1)] at_mostD[OF assms(2) 1(2)] obtain e1 e2 where
    "trace s1 = trace s @ e1" "length (filter A e1) \<le> i" "trace s' = trace s1 @ e2" "length (filter A e2) \<le> j" by blast
  then show "\<exists>ev. trace s' = trace s @ ev \<and> length (filter A ev) \<le> i + j" by (intro exI[of _ "e1 @ e2"]) auto
qed

lemma at_most_fail: "at_most A n (fail e)"
  by (rule at_most_silent) (rule emits_fail)

lemma at_most_ret: "at_most A n (ret x)"
  by (rule at_most_silent) (rule emits_ret)

lemma at_most_if: "(b \<Longrightarrow> at_most A n m) \<Longrightarrow> (\<not> b \<Longrightarrow> at_most A n m') \<Longrightarrow> at_most A n (if b then m else m')"
  by simp

lemma at_most_mono: "at_most A i m \<Longrightarrow> i \<le> j \<Longrightarrow> at_most A j m"
  by (meson at_mostD at_mostI le_trans)

lemma at_most_andthen: "at_most A i m \<Longrightarrow> (\<And>x. at_most A j (k x)) \<Longrightarrow> at_most A (i + j) (andthen m k)"
  unfolding andthen_def by (rule at_most_attempt) (auto intro: at_most_fail split: sum.split)

end

lemma retry_at_most:
  assumes "ct.emits (\<lambda>_. False) (ask (co_canceled C))" "\<And>n. ct.emits (\<lambda>_. False) (ask (co_sleep C n))" "ct.at_most A 1 fn"
  shows "ct.at_most A (5 - n) (retry_from C fn n e)"
proof (induction "5 - n" arbitrary: n e rule: less_induct)
  case less
  show ?case
  proof (cases "n \<ge> 5")
    case True
    then show ?thesis by (subst retry_from.simps) (simp add: ct.at_most_fail)
  next
    case False
    then have "ct.at_most A (5 - (n + 1)) (retry_from C fn (n + 1) e')" for e' using less[of "n + 1"] by simp
    then have "ct.at_most A (5 - (n + 1)) (case r of Inr x \<Rightarrow> ret x | Inl e \<Rightarrow> if \<not> Is e Transient then fail e else retry_from C fn (n + 1) e)" for r
      by (auto intro: ct.at_most_fail ct.at_most_ret split: sum.split)
    from ct.at_most_attempt[OF assms(3) this] have step: "ct.at_most A (1 + (5 - (n + 1)))
        (attempt fn (\<lambda>r. case r of Inr x \<Rightarrow> ret x | Inl e \<Rightarrow> if \<not> Is e Transient then fail e else retry_from C fn (n + 1) e))" .
    have "ct.at_most A 0 (if n > 0 then ask (co_sleep C n) else ret True)"
      by (intro ct.at_most_if ct.at_most_silent[OF assms(2)] ct.at_most_ret)
    then have "ct.at_most A (0 + (0 + (1 + (5 - (n + 1))))) (andthen (ask (co_canceled C)) (\<lambda>canceled. if canceled then fail (failure Canceled)
        else andthen (if n > 0 then ask (co_sleep C n) else ret True) (\<lambda>woke. if \<not> woke then fail (failure Canceled)
          else attempt fn (\<lambda>r. case r of Inr x \<Rightarrow> ret x | Inl e \<Rightarrow> if \<not> Is e Transient then fail e else retry_from C fn (n + 1) e))))"
      by (intro ct.at_most_andthen ct.at_most_if ct.at_most_fail ct.at_most_ret step ct.at_most_silent[OF assms(1)] ct.at_most_silent[OF assms(2)])
    then have "ct.at_most A (0 + (0 + (1 + (5 - (n + 1))))) (retry_from C fn n e)"
      using False by (subst retry_from.simps) simp
    then show ?thesis by (rule ct.at_most_mono) (use False in linarith)
  qed
qed

lemma retry_result:
  "retry_from C fn n e s = (Inr x, s') \<Longrightarrow> (\<And>s s'. fn s = (Inr x, s') \<Longrightarrow> Q) \<Longrightarrow> Q"
proof (induction "5 - n" arbitrary: n e s rule: less_induct)
  case less
  have n: "\<not> n \<ge> 5" using less.prems(1) by (subst (asm) retry_from.simps) (auto simp: fail_def)
  have "(\<exists>s2. fn s2 = (Inr x, s')) \<or> (\<exists>e' s3. retry_from C fn (n + 1) e' s3 = (Inr x, s'))"
    using less.prems(1) n by (subst (asm) retry_from.simps) (auto simp: ask_def andthen_def attempt_def fail_def ret_def split: if_splits sum.splits prod.splits)
  then show ?case using less.hyps[of "n + 1"] less.prems(2) n by (metis diff_less_mono2 less_add_one not_le)
qed


end
