(* ===== verification/Store_Upload.thy ===== *)
theory Store_Upload
  imports Store_Order
begin

text \<open>
  Multipart uploads under every schedule of the part workers: the parts of a completed upload are
  the whole file, the workers terminate without a deadlock, and one request completes.
\<close>

section \<open>Parts\<close>

lemma PartSize_pos: "0 < nat PartSize"
  by (simp add: PartSize_def)

lemma concat_parts: "0 < m \<Longrightarrow> concat (map (\<lambda>i. take m (drop (i * m) b)) [0..<n]) = take (n * m) b"
proof (induction n)
  case (Suc n)
  have "take (Suc n * m) b = take (n * m) b @ take m (drop (n * m) b)" using take_add[of "n * m" m b] by (simp add: add.commute)
  then show ?case using Suc by simp
qed simp

lemma part_count_enough:
  assumes "int (length b) = itg_Size expected"
  shows "length b \<le> part_count expected * nat PartSize"
proof -
  have "itg_Size expected \<le> (itg_Size expected + PartSize - 1) div PartSize * PartSize" by (simp add: PartSize_def)
  then show ?thesis using assms unfolding part_count_def PartSize_def by simp
qed

lemma parts_whole:
  assumes "int (length b) = itg_Size expected"
  shows "concat (map (part_bytes b) [0..<part_count expected]) = b"
  using concat_parts[OF PartSize_pos, of b "part_count expected"] part_count_enough[OF assms] 
  by (simp add: part_bytes_def[abs_def])

section \<open>The workers under every schedule\<close>

fun is_part :: "store_event \<Rightarrow> bool" where
  "is_part (CallPart _ _ _ _ _) = True"
| "is_part _ = False"

lemma part_upload_log:
  assumes "part_upload (straced C) k uid b st i (w, tr) = (r, (w', tr'))"
  shows "\<exists>ev. tr' = tr @ ev \<and> list_all is_part ev \<and> (\<forall>etag. r = Inr etag \<longrightarrow> CallPart k uid (int i + 1) (part_bytes b i) (Inr etag) \<in> set ev)"
  using assms
  by (auto simp: part_upload_def andthen_def attempt_def ask_def straced_def pass_call_def log_call_def sdk_call_def fail_def ret_def
      split: prod.splits if_splits sum.splits)

definition uploaded :: "string \<Rightarrow> string \<Rightarrow> bytes \<Rightarrow> store_event list \<Rightarrow> nat \<Rightarrow> int \<times> string \<Rightarrow> bool" where
  "uploaded k uid b tr i p \<longleftrightarrow> fst p = int i + 1 \<and> CallPart k uid (int i + 1) (part_bytes b i) (Inr (snd p)) \<in> set tr"

definition up_inv :: "string \<Rightarrow> string \<Rightarrow> bytes \<Rightarrow> nat \<Rightarrow> up_state \<Rightarrow> store_event list \<Rightarrow> bool" where
  "up_inv k uid b n us tr \<longleftrightarrow> length (us_parts us) = n \<and> us_next us \<le> n \<and>
     (us_stopped us \<longleftrightarrow> us_first us \<noteq> None) \<and> (\<not> us_sending us \<longrightarrow> us_next us = n \<or> us_stopped us \<or> us_canceled us) \<and>
     (\<forall>j < length (us_workers us). \<forall>i. us_workers us ! j = Busy i \<longrightarrow> i < us_next us) \<and>
     (\<forall>i < us_next us. (\<exists>j < length (us_workers us). us_workers us ! j = Busy i) \<or> uploaded k uid b tr i (us_parts us ! i) \<or> us_first us \<noteq> None)"

lemma uploaded_more: "uploaded k uid b tr i p \<Longrightarrow> uploaded k uid b (tr @ ev) i p"
  by (auto simp: uploaded_def)

lemma merge_error_some: "merge_error x e \<noteq> None"
  by (auto simp: merge_error_def split: option.split err.split)

lemma busy_before: "ws[j := x] ! a = Busy i \<Longrightarrow> x \<noteq> Busy i \<Longrightarrow> ws ! a = Busy i"
  by (metis list_update_beyond not_less nth_list_update nth_list_update_eq nth_list_update_neq)

lemma up_inv_step:
  assumes "up_step (straced C) k uid b (us, (w, tr)) (us', (w', tr'))" "up_inv k uid b n us acc"
  shows "\<exists>ev. tr' = tr @ ev \<and> list_all is_part ev \<and> up_inv k uid b n us' (acc @ ev)"
  using assms(1)
proof cases
  case cancel
  then show ?thesis using assms(2) by (auto simp: up_inv_def)
next
  case (take_job j)
  then show ?thesis using assms(2) by (auto simp: up_inv_def nth_list_update less_Suc_eq) (metis worker.distinct(1))+
next
  case break_send
  then show ?thesis using assms(2) by (auto simp: up_inv_def)
next
  case all_sent
  then show ?thesis using assms(2) by (auto simp: up_inv_def)
next
  case (jobs_closed j)
  then show ?thesis using assms(2) by (auto simp: up_inv_def nth_list_update) (metis worker.distinct(1))+
next
  case (part_done j i etag)
  from part_upload_log[OF part_done(4)] obtain ev where ev: "tr' = tr @ ev" "list_all is_part ev"
    and up: "uploaded k uid b (acc @ ev) i (int i + 1, etag)" by (auto simp: uploaded_def)
  have i: "i < n" "i < us_next us" using assms(2) part_done(2,3) by (auto simp: up_inv_def)
  have "(\<exists>j' < length (us_workers us'). us_workers us' ! j' = Busy i') \<or> uploaded k uid b (acc @ ev) i' (us_parts us' ! i') \<or> us_first us' \<noteq> None"
    if lt: "i' < us_next us" for i'
  proof (cases "i' = i")
    case True
    then show ?thesis using up part_done i assms(2) by (auto simp: up_inv_def)
  next
    case False
    then consider j' where "j' < length (us_workers us)" "us_workers us ! j' = Busy i'" | "uploaded k uid b acc i' (us_parts us ! i')" | "us_first us \<noteq> None"
      using lt assms(2) unfolding up_inv_def by blast
    then show ?thesis
    proof cases
      case 1
      then have "j' \<noteq> j" using part_done(3) False by auto
      then show ?thesis using 1 part_done(1) by (intro disjI1 exI[of _ j']) simp
    qed (use part_done(1) False uploaded_more in auto)
  qed
  then have "up_inv k uid b n us' (acc @ ev)" using assms(2) part_done(1) i by (auto simp: up_inv_def dest!: busy_before)
  then show ?thesis using ev by blast
next
  case (part_failed j i e)
  from part_upload_log[OF part_failed(4)] obtain ev where ev: "tr' = tr @ ev" "list_all is_part ev" by blast
  moreover have "up_inv k uid b n us' (acc @ ev)"
    using assms(2) part_failed merge_error_some[of "us_first us" e] by (auto simp: up_inv_def dest!: busy_before)
  ultimately show ?thesis by blast
qed

lemma up_inv_steps:
  assumes "(up_step (straced C) k uid b)\<^sup>*\<^sup>* (us, s) (us', s')" "up_inv k uid b n us []"
  shows "\<exists>ev. calls s' = calls s @ ev \<and> list_all is_part ev \<and> up_inv k uid b n us' ev"
  using assms(1)
proof (induction "(us', s')" arbitrary: us' s' rule: rtranclp_induct)
  case base
  then show ?case using assms(2) by simp
next
  case (step y)
  obtain us1 w1 tr1 w' tr' where y: "y = (us1, (w1, tr1))" "s' = (w', tr')" by (metis prod.exhaust)
  from step.hyps(3)[OF y(1)] obtain ev where ev: "tr1 = calls s @ ev" "list_all is_part ev" "up_inv k uid b n us1 ev" by auto
  from up_inv_step[OF _ ev(3), of C w1 tr1 us' w' tr'] step.hyps(2) y obtain ev' where "tr' = tr1 @ ev'" "list_all is_part ev'" "up_inv k uid b n us' (ev @ ev')" by auto
  then show ?case using ev y by (intro exI[of _ "ev @ ev'"]) auto
qed

lemma up_init_inv: "up_inv k uid b (part_count expected) (up_init m expected) tr"
  by (auto simp: up_inv_def up_init_def)

text \<open>After \<open>wg.Wait()\<close> without an error and without cancellation every part was uploaded.\<close>

lemma up_done_all:
  assumes "up_inv k uid b n us tr" "up_done us" "us_first us = None" "\<not> us_canceled us" "i < n"
  shows "uploaded k uid b tr i (us_parts us ! i)"
proof -
  have "us_next us = n" using assms by (auto simp: up_inv_def up_done_def)
  moreover have "us_workers us ! j \<noteq> Busy i" if "j < length (us_workers us)" for j using assms(2) that by (auto simp: up_done_def list_all_length)
  ultimately show ?thesis using assms by (auto simp: up_inv_def)
qed

section \<open>Termination of the workers\<close>

fun worker_work :: "worker \<Rightarrow> nat" where
  "worker_work Idle = 1"
| "worker_work (Busy _) = 3"
| "worker_work Exited = 0"

definition up_work :: "up_state \<Rightarrow> nat" where
  "up_work us = 4 * (length (us_parts us) - us_next us) + (if us_sending us then 1 else 0) + (if us_canceled us then 0 else 1) + sum_list (map worker_work (us_workers us))"

lemma sum_list_update: "j < length xs \<Longrightarrow> sum_list (map f (xs[j := x])) + f (xs ! j) = sum_list (map f xs) + (f x :: nat)"
proof (induction xs arbitrary: j)
  case (Cons y ys)
  then show ?case by (cases j) auto
qed simp

lemma up_step_work: "up_step C k uid b s s' \<Longrightarrow> up_work (fst s') < up_work (fst s)"
proof (induction rule: up_step.induct)
  case (take_job us j w)
  then show ?case using sum_list_update[of j "us_workers us" worker_work "Busy (us_next us)"] by (simp add: up_work_def)
next
  case (jobs_closed us j w)
  then show ?case using sum_list_update[of j "us_workers us" worker_work Exited] by (simp add: up_work_def)
next
  case (part_done j us i w etag w')
  then show ?case using sum_list_update[of j "us_workers us" worker_work Idle] by (simp add: up_work_def)
next
  case (part_failed j us i w e w')
  then show ?case using sum_list_update[of j "us_workers us" worker_work Exited] by (simp add: up_work_def)
qed (auto simp: up_work_def)

text \<open>While the sender or a worker runs, something can happen.\<close>

lemma up_progress:
  assumes "\<not> up_done us" "us_next us \<le> length (us_parts us)" "us_workers us \<noteq> []" "list_ex (\<lambda>x. x = Exited) (us_workers us) \<longrightarrow> \<not> us_sending us \<or> us_stopped us"
  shows "\<exists>us' w'. up_step C k uid b (us, w) (us', w') \<and> us_canceled us' = us_canceled us"
proof -
  consider (busy) j i where "j < length (us_workers us)" "us_workers us ! j = Busy i" | (idle) j where "j < length (us_workers us)" "us_workers us ! j = Idle" "us_sending us"
    | (closing) j where "j < length (us_workers us)" "us_workers us ! j = Idle" "\<not> us_sending us" | (dead) "us_sending us" "list_all (\<lambda>x. x = Exited) (us_workers us)"
    using assms(1) unfolding up_done_def list_all_length by (metis worker.exhaust)
  then show ?thesis
  proof cases
    case busy
    obtain r w' where "part_upload C k uid b (us_stopped us) i w = (r, w')" by (metis prod.exhaust)
    then show ?thesis using up_step.part_done[OF busy, where C = C and w = w and w' = w'] up_step.part_failed[OF busy, where C = C and w = w and w' = w']
      by (cases r) fastforce+
  next
    case idle
    show ?thesis
    proof (cases "us_next us < length (us_parts us)")
      case True
      then show ?thesis using up_step.take_job[OF idle(3) True idle(1,2)] by fastforce
    next
      case False
      then show ?thesis using up_step.all_sent[OF idle(3)] assms(2) by fastforce
    qed
  next
    case closing
    then show ?thesis using up_step.jobs_closed[OF closing(3,1,2)] by fastforce
  next
    case dead
    then have "us_stopped us" using assms(3,4) by (cases "us_workers us") auto
    then show ?thesis using up_step.break_send[OF dead(1)] up_step.all_sent[OF dead(1)] assms(2) by (cases "us_next us < length (us_parts us)") fastforce+
  qed
qed


section \<open>A sequential schedule\<close>

text \<open>Workers exit only after an error or the close of the channel.\<close>

definition up_alive :: "up_state \<Rightarrow> bool" where
  "up_alive us \<longleftrightarrow> us_next us \<le> length (us_parts us) \<and> us_workers us \<noteq> [] \<and> (list_ex (\<lambda>x. x = Exited) (us_workers us) \<longrightarrow> \<not> us_sending us \<or> us_stopped us)"

lemma list_ex_Exited_update: "list_ex (\<lambda>x. x = Exited) (ws[j := x]) \<Longrightarrow> x \<noteq> Exited \<Longrightarrow> list_ex (\<lambda>x. x = Exited) ws"
  by (auto simp: list_ex_iff dest!: set_update_subset_insert[THEN subsetD])

lemma up_alive_step: "up_step C k uid b s s' \<Longrightarrow> up_alive (fst s) \<Longrightarrow> up_alive (fst s')"
  by (induction rule: up_step.induct) (auto simp: up_alive_def dest: list_ex_Exited_update)

definition worker_index :: "(worker \<Rightarrow> bool) \<Rightarrow> worker list \<Rightarrow> nat option" where
  "worker_index P ws = List.find (\<lambda>j. P (ws ! j)) [0..<length ws]"

definition next_step :: "'w sdk \<Rightarrow> string \<Rightarrow> string \<Rightarrow> bytes \<Rightarrow> up_state \<times> 'w \<Rightarrow> up_state \<times> 'w" where
  "next_step C k uid b = (\<lambda>(us, w). case worker_index (\<lambda>x. x \<noteq> Idle \<and> x \<noteq> Exited) (us_workers us) of
     Some j \<Rightarrow> (case us_workers us ! j of
       Busy i \<Rightarrow> (case part_upload C k uid b (us_stopped us) i w of
         (Inr etag, w') \<Rightarrow> (us\<lparr>us_workers := (us_workers us)[j := Idle], us_parts := (us_parts us)[i := (int i + 1, etag)]\<rparr>, w')
       | (Inl e, w') \<Rightarrow> (us\<lparr>us_workers := (us_workers us)[j := Exited], us_first := merge_error (us_first us) e, us_stopped := True\<rparr>, w'))
     | _ \<Rightarrow> (us, w))
   | None \<Rightarrow>
      if us_sending us \<and> (us_stopped us \<or> us_next us = length (us_parts us)) then (us\<lparr>us_sending := False\<rparr>, w)
      else case worker_index (\<lambda>x. x = Idle) (us_workers us) of
        None \<Rightarrow> (us, w)
      | Some j \<Rightarrow>
         if us_sending us then (us\<lparr>us_workers := (us_workers us)[j := Busy (us_next us)], us_next := us_next us + 1\<rparr>, w)
         else (us\<lparr>us_workers := (us_workers us)[j := Exited]\<rparr>, w))"

lemma worker_index_Some: "worker_index P ws = Some j \<Longrightarrow> j < length ws \<and> P (ws ! j)"
  by (auto simp: worker_index_def find_Some_iff)

lemma worker_index_None: "worker_index P ws = None \<Longrightarrow> j < length ws \<Longrightarrow> \<not> P (ws ! j)"
  by (auto simp: worker_index_def find_None_iff)

lemma next_step_up:
  assumes "up_alive us" "\<not> up_done us"
  shows "up_step C k uid b (us, w) (next_step C k uid b (us, w))"
proof (cases "worker_index (\<lambda>x. x \<noteq> Idle \<and> x \<noteq> Exited) (us_workers us)")
  case (Some j)
  note j = worker_index_Some[OF Some]
  obtain i where i: "us_workers us ! j = Busy i" using j by (cases "us_workers us ! j") auto
  obtain r w' where "part_upload C k uid b (us_stopped us) i w = (r, w')" by (metis prod.exhaust)
  then show ?thesis using up_step.part_done[OF _ i] up_step.part_failed[OF _ i] Some i j by (cases r) (auto simp: next_step_def)
next
  case None
  note busy = worker_index_None[OF None]
  show ?thesis
  proof (cases "us_sending us \<and> (us_stopped us \<or> us_next us = length (us_parts us))")
    case True
    then show ?thesis using None assms(1) up_step.break_send[of us C k uid b w] up_step.all_sent[of us C k uid b w]
      by (cases "us_next us = length (us_parts us)") (auto simp: next_step_def up_alive_def)
  next
    case False
    show ?thesis
    proof (cases "worker_index (\<lambda>x. x = Idle) (us_workers us)")
      case (Some j)
      then show ?thesis using False None worker_index_Some[OF Some] assms(1) up_step.take_job[of us j C k uid b w] up_step.jobs_closed[of us j C k uid b w]
        by (cases "us_sending us") (auto simp: next_step_def up_alive_def)
    next
      case none: None
      have all: "us_workers us ! j = Exited" if "j < length (us_workers us)" for j using worker_index_None[OF none that] busy[OF that] by auto
      then have "list_all (\<lambda>x. x = Exited) (us_workers us)" by (simp add: list_all_length)
      moreover from this have "list_ex (\<lambda>x. x = Exited) (us_workers us)" using assms(1) by (cases "us_workers us") (auto simp: up_alive_def)
      ultimately show ?thesis using assms False by (auto simp: up_done_def up_alive_def)
    qed
  qed
qed

definition seq_run :: "'w sdk \<Rightarrow> 'w schedule" where
  "seq_run C k uid b s = ((\<lambda>s. if up_done (fst s) then s else next_step C k uid b s) ^^ up_work (fst s)) s"

lemma iterate_run:
  assumes "up_alive (fst s)" "up_work (fst s) \<le> n"
  shows "(up_step C k uid b)\<^sup>*\<^sup>* s (((\<lambda>s. if up_done (fst s) then s else next_step C k uid b s) ^^ n) s) \<and>
    up_done (fst (((\<lambda>s. if up_done (fst s) then s else next_step C k uid b s) ^^ n) s))"
  using assms
proof (induction n arbitrary: s)
  case 0
  then have "list_all (\<lambda>x. worker_work x = 0) (us_workers (fst s))" "\<not> us_sending (fst s)" by (auto simp: up_work_def list_all_iff split: if_splits)
  moreover have "worker_work x = 0 \<Longrightarrow> x = Exited" for x by (cases x) auto
  ultimately show ?case by (auto simp: up_done_def list_all_iff)
next
  case (Suc n)
  show ?case
  proof (cases "up_done (fst s)")
    case True
    then have "((\<lambda>s. if up_done (fst s) then s else next_step C k uid b s) ^^ m) s = s" for m by (induction m) auto
    then show ?thesis using True by (metis rtranclp.rtrancl_refl)
  next
    case False
    obtain us w where s: "s = (us, w)" by (metis prod.exhaust)
    note st = next_step_up[of us C k uid b w]
    then have "up_step C k uid b s (next_step C k uid b s)" using Suc.prems False s by simp
    from up_alive_step[OF this] up_step_work[OF this] Suc.prems have "up_alive (fst (next_step C k uid b s))" "up_work (fst (next_step C k uid b s)) \<le> n" by auto
    from Suc.IH[OF this] \<open>up_step C k uid b s (next_step C k uid b s)\<close> False show ?thesis
      by (simp add: funpow_Suc_right del: funpow.simps) (meson converse_rtranclp_into_rtranclp)
  qed
qed

text \<open>A schedule takes the workers' initial state, by steps of the relation, to a state where all have exited.\<close>

definition runs_workers :: "'w sdk \<Rightarrow> 'w schedule \<Rightarrow> bool" where
  "runs_workers C run \<longleftrightarrow> (\<forall>k uid b m expected w. m \<ge> 1 \<longrightarrow>
     (up_step C k uid b)\<^sup>*\<^sup>* (up_init m expected, w) (run k uid b (up_init m expected, w)) \<and> up_done (fst (run k uid b (up_init m expected, w))))"

lemma seq_run_runs: "runs_workers C (seq_run C)"
proof -
  have "up_alive (up_init m expected)" if "m \<ge> 1" for m expected using that by (auto simp: up_alive_def up_init_def list_ex_iff)
  then have "up_alive (fst (up_init m expected, w))" if "m \<ge> 1" for m expected and w :: 'a using that by simp
  from iterate_run[OF this order_refl] show ?thesis unfolding runs_workers_def seq_run_def by blast
qed

section \<open>The whole upload\<close>

text \<open>Before a completion request for parts the trace holds the accepted upload of each of them, and together they are the file.\<close>

definition completed_whole :: "bytes \<Rightarrow> store_event list \<Rightarrow> bool" where
  "completed_whole b tr \<longleftrightarrow> (\<forall>pre k uid parts r post. tr = pre @ CallComplete k uid parts r # post \<longrightarrow>
     concat (map (part_bytes b) [0..<length parts]) = b \<and> (\<forall>i < length parts. uploaded k uid b pre i (parts ! i)))"

lemma no_complete: "list_all (\<lambda>e. \<not> committing e) tr \<Longrightarrow> completed_whole b tr"
  by (auto simp: completed_whole_def)

lemma completed_wrap: "completed_whole b ev \<Longrightarrow> list_all (\<lambda>e. \<not> committing e) a \<Longrightarrow> list_all (\<lambda>e. \<not> committing e) c \<Longrightarrow> completed_whole b (a @ ev @ c)"
  unfolding completed_whole_def
proof (intro allI impI)
  fix pre k uid parts r post
  assume w: "\<forall>pre k uid parts r post. ev = pre @ CallComplete k uid parts r # post \<longrightarrow>
     concat (map (part_bytes b) [0..<length parts]) = b \<and> (\<forall>i < length parts. uploaded k uid b pre i (parts ! i))"
    and q: "list_all (\<lambda>e. \<not> committing e) a" "list_all (\<lambda>e. \<not> committing e) c" and eq: "a @ ev @ c = pre @ CallComplete k uid parts r # post"
  have na: "CallComplete k uid parts r \<notin> set a" "CallComplete k uid parts r \<notin> set c" using q by (auto simp: list_all_iff)
  from eq obtain pre' where pre: "pre = a @ pre'" "ev @ c = pre' @ CallComplete k uid parts r # post"
    using na by (auto simp: append_eq_append_conv2 Cons_eq_append_conv append_eq_Cons_conv)
  then obtain post' where "ev = pre' @ CallComplete k uid parts r # post'"
    using na(2) by (auto simp: append_eq_append_conv2 Cons_eq_append_conv append_eq_Cons_conv)
  with w have "concat (map (part_bytes b) [0..<length parts]) = b" "\<forall>i < length parts. uploaded k uid b pre' i (parts ! i)" by blast+
  then show "concat (map (part_bytes b) [0..<length parts]) = b \<and> (\<forall>i < length parts. uploaded k uid b pre i (parts ! i))"
    using pre(1) by (auto simp: uploaded_def)
qed

lemma completed_last:
  assumes "list_all (\<lambda>e. \<not> committing e) a" "concat (map (part_bytes b) [0..<length parts]) = b" "\<forall>i < length parts. uploaded k uid b a i (parts ! i)"
  shows "completed_whole b (a @ [CallComplete k uid parts x])"
  unfolding completed_whole_def
proof (intro allI impI)
  fix pre k' uid' parts' r' post assume eq: "a @ [CallComplete k uid parts x] = pre @ CallComplete k' uid' parts' r' # post"
  have "CallComplete k' uid' parts' r' \<notin> set a" using assms(1) by (auto simp: list_all_iff)
  with eq have "pre = a" "k' = k" "uid' = uid" "parts' = parts" by (auto simp: append_eq_append_conv2 Cons_eq_append_conv append_eq_Cons_conv)
  then show "concat (map (part_bytes b) [0..<length parts']) = b \<and> (\<forall>i < length parts'. uploaded k' uid' b pre i (parts' ! i))" using assms(2,3) by simp
qed

lemma is_part_quiet: "list_all is_part ev \<Longrightarrow> list_all (\<lambda>e. \<not> committing e) ev"
proof -
  have "is_part e \<Longrightarrow> \<not> committing e" for e by (cases e) auto
  then show "list_all is_part ev \<Longrightarrow> list_all (\<lambda>e. \<not> committing e) ev" by (auto simp: list_all_iff)
qed

lemma finish_upload_log:
  assumes "finish_upload (straced C) s key k expected opts u us (w, tr) = (r, (w', tr'))"
    and inv: "up_inv k (upl_ID u) b (part_count expected) us tr0" and dn: "up_done us" and size: "int (length b) = itg_Size expected"
  shows "\<exists>ev res. tr' = tr @ ev \<and> r = Inr (u, res) \<and> sent_once (err_of res) ev \<and> (ev = [] \<or> (\<exists>x. ev = [CallComplete k (upl_ID u) (us_parts us) x] \<and>
      concat (map (part_bytes b) [0..<length (us_parts us)]) = b \<and> (\<forall>i < length (us_parts us). uploaded k (upl_ID u) b tr0 i (us_parts us ! i))))"
proof (cases "us_first us")
  case (Some e)
  then show ?thesis using assms(1) by (auto simp: finish_upload_def ret_def err_of_def sent_once_def)
next
  case None
  obtain c w1 where c: "co_canceled C w = (c, w1)" by (metis prod.exhaust)
  show ?thesis
  proof (cases "c \<or> us_canceled us")
    case True
    then show ?thesis using assms(1) None c
      by (auto simp: finish_upload_def straced_def pass_call_def ask_def andthen_def attempt_def ret_def err_of_def sent_once_def)
  next
    case False
    have n: "length (us_parts us) = part_count expected" using inv by (simp add: up_inv_def)
    have parts: "concat (map (part_bytes b) [0..<length (us_parts us)]) = b" "\<forall>i < length (us_parts us). uploaded k (upl_ID u) b tr0 i (us_parts us ! i)"
      using parts_whole[OF size] up_done_all[OF inv dn None] False n by auto
    obtain v w2 where v: "co_Complete C k (upl_ID u) (us_parts us) opts w1 = (v, w2)" by (metis prod.exhaust)
    have cc: "ask (co_canceled (straced C)) (w, tr) = (Inr c, (w1, tr))" using c by (simp add: straced_def pass_call_def ask_def)
    show ?thesis using assms(1) None False v cc parts
      by (cases v) (auto simp: finish_upload_def straced_mutations log_call_def sdk_call_def andthen_def attempt_def ret_def err_of_def
          intro!: sent_refused sent_ambiguous sent_accepted split: if_splits)
  qed
qed

lemma checkFile_ok:
  assumes "checkFile C f expected s = (Inr cs, s')"
  shows "int (length (spool_bytes f)) = itg_Size expected" "digest (spool_bytes f) = itg_SHA256 expected"
  using assms by (auto simp: checkFile_def classifyLocal_def spool_bytes_def andthen_def attempt_def ask_def fail_def ret_def
      split: option.splits if_splits prod.splits)

text \<open>What the body of an upload records, with the slots held around it.\<close>

definition upload_ok :: "bytes \<Rightarrow> err + upload \<times> (err + info) \<Rightarrow> store_event list \<Rightarrow> bool" where
  "upload_ok b r ev \<longleftrightarrow> (\<exists>u res. r = Inr (u, res) \<and> sent_once (err_of res) ev \<and> completed_whole b ev)"

lemma upload_body_log:
  assumes "upload_body (straced C) run s key k f expected opts st = (r, st')" "runs_workers (straced C) run" "so_workers s \<ge> 1"
  shows "\<exists>ev. calls st' = calls st @ ev \<and> upload_ok (spool_bytes f) r ev"
proof -
  let ?u = "\<lparr>upl_Key = key, upl_ID = []\<rparr>"
  have quiet: ?thesis if "r = Inr (u, Inl e)" "calls st' = calls st @ ev" "list_all (\<lambda>e. \<not> committing e) ev" for u e ev
    using that by (auto simp: upload_ok_def err_of_def intro: sent_nothing no_complete)
  obtain r1 st1 where c: "checkFile (straced C) f expected st = (r1, st1)" by (metis prod.exhaust)
  note q = silent_checkFile[OF c]
  show ?thesis
  proof (cases r1)
    case (Inl e)
    then show ?thesis using assms(1) c q quiet[of ?u e "[]"] by (simp add: upload_body_def attempt_def ret_def Let_def)
  next
    case (Inr cs)
    obtain w1 tr1 where st1: "st1 = (w1, tr1)" by (metis prod.exhaust)
    obtain v w2 where n: "co_NewUpload C k opts w1 = (v, w2)" by (metis prod.exhaust)
    show ?thesis
    proof (cases v)
      case (Inl e)
      then show ?thesis using assms(1) c q n st1 Inr quiet[of ?u "classify e True" "[CallNewUpload k v]"]
        by (auto simp: upload_body_def attempt_def ret_def straced_mutations log_call_def sdk_call_def Let_def)
    next
      case uid: (Inr uid)
      let ?tr = "tr1 @ [CallNewUpload k v]" and ?v = "?u\<lparr>upl_ID := uid\<rparr>"
      show ?thesis
      proof (cases "valid_uploadID uid")
        case False
        then show ?thesis using assms(1) c q n st1 Inr uid quiet[of ?v "S3Error Corrupt True" "[CallNewUpload k v]"]
          by (auto simp: upload_body_def attempt_def ret_def straced_mutations log_call_def sdk_call_def Let_def)
      next
        case True
        obtain us w3 tr3 where run: "run k uid (spool_bytes f) (up_init (nat (so_workers s)) expected, (w2, ?tr)) = (us, (w3, tr3))" by (metis prod.exhaust)
        have "nat (so_workers s) \<ge> 1" using assms(3) by simp
        then have steps: "(up_step (straced C) k uid (spool_bytes f))\<^sup>*\<^sup>* (up_init (nat (so_workers s)) expected, (w2, ?tr)) (us, (w3, tr3))" and dn: "up_done us"
          using assms(2) run unfolding runs_workers_def by (metis fst_conv)+
        from up_inv_steps[OF steps up_init_inv] obtain ev where inv: "up_inv k uid (spool_bytes f) (part_count expected) us ev"
          and ev: "tr3 = ?tr @ ev" "list_all is_part ev" by auto
        have fin: "finish_upload (straced C) s key k expected opts ?v us (w3, tr3) = (r, st')"
          using assms(1) c n st1 Inr uid True run by (simp add: upload_body_def attempt_def straced_mutations log_call_def sdk_call_def Let_def)
        obtain w' tr' where st': "st' = (w', tr')" by (metis prod.exhaust)
        have ok: "int (length (spool_bytes f)) = itg_Size expected" using checkFile_ok(1)[OF c[unfolded Inr]] .
        from finish_upload_log[OF fin[unfolded st'] _ dn ok, of ev] inv obtain ev2 res where f2: "tr' = tr3 @ ev2" "r = Inr (?v, res)" "sent_once (err_of res) ev2"
          "ev2 = [] \<or> (\<exists>x. ev2 = [CallComplete k uid (us_parts us) x] \<and> concat (map (part_bytes (spool_bytes f)) [0..<length (us_parts us)]) = spool_bytes f \<and>
             (\<forall>i < length (us_parts us). uploaded k uid (spool_bytes f) ev i (us_parts us ! i)))" by auto
        have qe: "list_all (\<lambda>e. \<not> committing e) (CallNewUpload k v # ev)" using is_part_quiet[OF ev(2)] by simp
        have "sent_once (err_of res) ((CallNewUpload k v # ev) @ ev2)" using f2(3) quiet_committing[OF qe] sent_once_cong[of "(CallNewUpload k v # ev) @ ev2" ev2] by simp
        moreover have "completed_whole (spool_bytes f) ((CallNewUpload k v # ev) @ ev2)"
          using f2(4) no_complete[OF qe] completed_last[OF qe] by (auto simp: uploaded_def)
        ultimately show ?thesis using f2(1,2) ev(1) q st1 st' by (intro exI[of _ "(CallNewUpload k v # ev) @ ev2"]) (auto simp: upload_ok_def)
      qed
    qed
  qed
qed


lemma UploadFile_log:
  assumes "UploadFile (straced C) run s key f expected md (w, []) = ((u, r), (w', tr))" "runs_workers (straced C) run" "so_workers s \<ge> 1"
  shows "sent_once (err_of r) tr \<and> completed_whole (spool_bytes f) tr"
proof -
  consider (early) e where "r = Inl e" "tr = []"
    | (sent) k opts r1 where "acquireData (straced C) LocalArtifacts ProcessArtifacts (upload_body (straced C) run s key k f expected opts) (w, []) = (r1, (w', tr))"
        "case r1 of Inl e \<Rightarrow> r = Inl e | Inr res \<Rightarrow> res = (u, r)"
    using assms(1) by (auto simp: UploadFile_def Let_def split: sum.splits if_splits prod.splits)
  then show ?thesis
  proof cases
    case early
    then show ?thesis by (simp add: err_of_def sent_once_def completed_whole_def)
  next
    case sent
    have "tr = [] @ [Acquired LocalArtifacts False] \<and> r1 = Inl (failure Canceled) \<or>
      tr = [] @ [Acquired LocalArtifacts True, Acquired ProcessArtifacts False, Released LocalArtifacts] \<and> r1 = Inl (failure Canceled) \<or>
      (\<exists>ev. tr = [] @ [Acquired LocalArtifacts True, Acquired ProcessArtifacts True] @ ev @ [Released ProcessArtifacts, Released LocalArtifacts] \<and> upload_ok (spool_bytes f) r1 ev)"
      by (rule acquireData_log[OF sent(1)]) (rule upload_body_log[OF _ assms(2,3)])
    then show ?thesis
    proof (elim disjE exE conjE)
      fix ev assume tr: "tr = [] @ [Acquired LocalArtifacts True, Acquired ProcessArtifacts True] @ ev @ [Released ProcessArtifacts, Released LocalArtifacts]"
        and "upload_ok (spool_bytes f) r1 ev"
      then have ok: "sent_once (err_of r) ev" "completed_whole (spool_bytes f) ev" using sent(2) by (auto simp: upload_ok_def)
      from completed_wrap[OF ok(2), of "[Acquired LocalArtifacts True, Acquired ProcessArtifacts True]" "[Released ProcessArtifacts, Released LocalArtifacts]"]
        ok(1) show ?thesis unfolding tr by (simp add: sent_once_def)
    qed (use sent(2) in \<open>auto simp: err_of_def sent_once_def intro!: no_complete\<close>)
  qed
qed

end
