(* ===== verification/Store_Transport.thy ===== *)
theory Store_Transport
  imports Store_Order
begin

text \<open>
  The HTTP transport below the SDK (s3store/transport.go): which requests are retried, how a
  response becomes an error kind, and the check of XML documents. \<open>net/http\<close> and the tokens and
  values \<open>encoding/xml\<close> produces are parameters.
\<close>

section \<open>XML documents\<close>

text \<open>The decoder's tokens: attribute names with their name space, the raw text of character data, and whether an instruction
  stands at the start of the document.\<close>

datatype xml_token =
    StartElement "(string \<times> string) list"
  | EndElement
  | CharData bytes
  | ProcInst string bytes bool
  | Directive
  | Comment

definition xml_space :: "char \<Rightarrow> bool" where
  "xml_space c \<longleftrightarrow> c \<in> {CHR '' '', CHR 0x09, CHR 0x0d, CHR 0x0a}"

definition eat :: "string \<Rightarrow> string \<Rightarrow> string option" where
  "eat p s = (if has_prefix s p then Some (drop (length p) s) else None)"

definition eat_quoted :: "(string \<Rightarrow> string) \<Rightarrow> string list \<Rightarrow> string \<Rightarrow> string option" where
  "eat_quoted norm vals s = (case s of
     [] \<Rightarrow> None
   | q # r \<Rightarrow>
      if q \<noteq> CHR 0x22 \<and> q \<noteq> CHR 0x27 then None
      else case List.find (\<lambda>v. norm (take (length v) r) = v \<and> take 1 (drop (length v) r) = [q]) vals of
        None \<Rightarrow> None
      | Some v \<Rightarrow> Some (drop (length v + 1) r))"

definition decl_attribute :: "string \<Rightarrow> (string \<Rightarrow> string) \<Rightarrow> string list \<Rightarrow> string \<Rightarrow> string option" where
  "decl_attribute name norm vals s = (case eat name s of
     None \<Rightarrow> None
   | Some s \<Rightarrow> (case eat ''='' (dropWhile xml_space s) of None \<Rightarrow> None | Some s \<Rightarrow> eat_quoted norm vals (dropWhile xml_space s)))"

definition decl_optional :: "string \<Rightarrow> (string \<Rightarrow> string) \<Rightarrow> string list \<Rightarrow> string \<Rightarrow> string" where
  "decl_optional name norm vals s = (case s of
     c # _ \<Rightarrow> if xml_space c then (case decl_attribute name norm vals (dropWhile xml_space s) of Some r \<Rightarrow> r | None \<Rightarrow> s) else s
   | [] \<Rightarrow> s)"

definition xmlDeclaration :: "string \<Rightarrow> bool" where
  "xmlDeclaration s = (case decl_attribute ''version'' (\<lambda>v. v) [''1.0''] s of
     None \<Rightarrow> False
   | Some s \<Rightarrow> dropWhile xml_space (decl_optional ''standalone'' (\<lambda>v. v) [''yes'', ''no''] (decl_optional ''encoding'' to_lower [''utf-8''] s)) = [])"

text \<open>The loop of \<open>validXMLDocument\<close>; \<open>eof\<close> is whether the decoder ended with \<open>io.EOF\<close>.\<close>

fun xml_scan :: "bool \<Rightarrow> xml_token list \<Rightarrow> int \<Rightarrow> int \<Rightarrow> bool" where
  "xml_scan eof [] depth roots = (eof \<and> depth = 0 \<and> roots = 1)"
| "xml_scan eof (StartElement names # ts) depth roots =
     (if \<not> distinct names then False
      else if depth = 0 then (if roots + 1 > 1 then False else xml_scan eof ts (depth + 1) (roots + 1))
      else xml_scan eof ts (depth + 1) roots)"
| "xml_scan eof (EndElement # ts) depth roots = xml_scan eof ts (depth - 1) roots"
| "xml_scan eof (CharData raw # ts) depth roots = (if depth = 0 \<and> \<not> list_all xml_space raw then False else xml_scan eof ts depth roots)"
| "xml_scan eof (ProcInst target body at_start # ts) depth roots =
     (if to_lower target = ''xml'' \<and> (target \<noteq> ''xml'' \<or> \<not> at_start \<or> \<not> xmlDeclaration body) then False else xml_scan eof ts depth roots)"
| "xml_scan eof (Directive # ts) depth roots = False"
| "xml_scan eof (Comment # ts) depth roots = xml_scan eof ts depth roots"

section \<open>Requests and responses\<close>

record http_request =
  rq_Method :: string
  rq_Scheme :: string
  rq_Host :: string
  rq_Path :: string
  rq_RawQuery :: string
  rq_Query :: "(string \<times> string) list"
  rq_ContentLength :: int
  rq_IfMatch :: string
  rq_Timeout :: "int option"
  rq_Page :: "int option"

text \<open>\<open>rq_Page\<close> is the value the page budget of the context reaches with this request, \<open>rq_Timeout\<close> the context's request timeout,
  \<open>rs_DateOk\<close> whether the \<open>Last-Modified\<close> header parses.\<close>

record response =
  rs_Status :: int
  rs_ContentEncoding :: string
  rs_ContentLength :: int
  rs_ETag :: string
  rs_DateOk :: bool
  rs_Body :: body

text \<open>A reply whose body streams and whose slot is given back when it is closed, or one that was read completely.\<close>

datatype reply = Streaming response | Drained response

text \<open>The errors of \<open>http.Transport\<close>, as \<open>classify\<close> tells them apart.\<close>

datatype net_error = NetCanceled | NetDeadline | NetCertificate | NetOther

definition net_sdk :: "net_error \<Rightarrow> sdk_error" where
  "net_sdk e = (case e of NetCanceled \<Rightarrow> SdkCanceled | NetDeadline \<Rightarrow> SdkDeadline | NetCertificate \<Rightarrow> SdkCertificate | NetOther \<Rightarrow> SdkResponse [])"

record xml_list =
  xl_Root :: string
  xl_Truncated :: "bool option"
  xl_Next :: string
  xl_Contents :: nat
  xl_Prefixes :: nat

record 'w wire =
  wi_endpoint :: string
  wi_metadata :: int
  wi_data :: int
  wi_slot :: "int \<Rightarrow> 'w \<Rightarrow> bool \<times> 'w"
  wi_unslot :: "'w \<Rightarrow> 'w"
  wi_round :: "int \<Rightarrow> http_request \<Rightarrow> 'w \<Rightarrow> (net_error + response) \<times> 'w"
  xm_tokens :: "bytes \<Rightarrow> xml_token list \<times> bool"
  xm_error :: "bytes \<Rightarrow> (string \<times> string) option"
  xm_list :: "bytes \<Rightarrow> xml_list option"
  xm_initiate :: "bytes \<Rightarrow> (string \<times> string \<times> string) option"

definition validXMLDocument :: "'w wire \<Rightarrow> bytes \<Rightarrow> bool" where
  "validXMLDocument T b = (case xm_tokens T b of (ts, eof) \<Rightarrow> xml_scan eof ts 0 0)"

definition responseLimit :: int where
  "responseLimit = 4194304"

definition trim_slashes :: "string \<Rightarrow> string" where
  "trim_slashes p = rev (dropWhile (\<lambda>c. c = CHR ''/'') (rev (dropWhile (\<lambda>c. c = CHR ''/'') p)))"

definition dataGet :: "http_request \<Rightarrow> bool" where
  "dataGet r \<longleftrightarrow> rq_Method r = ''GET'' \<and> rq_RawQuery r = [] \<and> CHR ''/'' \<in> set (trim_slashes (rq_Path r))"

definition has_query :: "http_request \<Rightarrow> string \<Rightarrow> bool" where
  "has_query r k \<longleftrightarrow> map_of (rq_Query r) k \<noteq> None"

definition get_query :: "http_request \<Rightarrow> string \<Rightarrow> string" where
  "get_query r k = (case map_of (rq_Query r) k of Some v \<Rightarrow> v | None \<Rightarrow> [])"

definition request_timeout :: "'w wire \<Rightarrow> http_request \<Rightarrow> int" where
  "request_timeout T r = (let t = (if dataGet r \<or> rq_Method r = ''PUT'' \<and> (rq_ContentLength r > MaxMetadataSize \<or> has_query r ''partNumber'') then wi_data T else wi_metadata T)
     in case rq_Timeout r of None \<Rightarrow> t | Some d \<Rightarrow> min t d)"

section \<open>Classification of a response\<close>

text \<open>The error a failed control response becomes; \<open>None\<close> hands it to the SDK.\<close>

definition error_response :: "http_request \<Rightarrow> int \<Rightarrow> (string \<times> string) option \<Rightarrow> kind option" where
  "error_response r status parsed =
     (if rq_Method r = ''HEAD'' \<and> status = 404 then Some HeadMissing
      else if rq_Method r = ''HEAD'' \<and> status = 403 then Some Auth
      else let by_code = (case parsed of
          None \<Rightarrow> None
        | Some (root, code) \<Rightarrow>
           if code = ''NoSuchKey'' \<and> status = 404 \<and> dataGet r then Some NotFound
           else if code = ''NoSuchKey'' \<and> status = 404 \<and> rq_Method r = ''PUT'' \<and> rq_RawQuery r = [] \<and> rq_IfMatch r \<noteq> [] then Some Precondition
           else if code = ''PreconditionFailed'' \<and> status = 412 then Some Precondition
           else if status = 409 then Some Conflict
           else if status = 401 \<or> status = 403 then Some Auth
           else None)
        in case by_code of
          Some k \<Rightarrow> Some k
        | None \<Rightarrow> if status = 429 \<or> status \<ge> 500 then Some Transient else if parsed = None then Some Unknown else None)"

text \<open>The root element a listing or configuration document must have, and whether it is a listing.\<close>

definition expected_root :: "http_request \<Rightarrow> (string \<times> bool) option" where
  "expected_root r =
     (if get_query r ''list-type'' = ''2'' then Some (''ListBucketResult'', True)
      else if has_query r ''uploads'' then Some (''ListMultipartUploadsResult'', True)
      else if has_query r ''uploadId'' then Some (''ListPartsResult'', True)
      else if has_query r ''versioning'' then Some (''VersioningConfiguration'', False)
      else if has_query r ''lifecycle'' then Some (''LifecycleConfiguration'', False)
      else if has_query r ''object-lock'' then Some (''ObjectLockConfiguration'', False)
      else None)"

definition listing_ok :: "http_request \<Rightarrow> string \<Rightarrow> bool \<Rightarrow> xml_list option \<Rightarrow> bool" where
  "listing_ok r root listing parsed = (case parsed of
     None \<Rightarrow> False
   | Some p \<Rightarrow> xl_Root p = root \<and> (listing \<longrightarrow> xl_Truncated p \<noteq> None) \<and>
       \<not> (root = ''ListBucketResult'' \<and> (xl_Contents p > 1000 \<or> xl_Prefixes p > 0 \<or>
           xl_Truncated p = Some True \<and> (xl_Next p = [] \<or> xl_Next p = get_query r ''continuation-token''))))"

text \<open>A completely read control response: the error, or \<open>None\<close> when the SDK gets it.\<close>

definition control_error :: "'w wire \<Rightarrow> http_request \<Rightarrow> int \<Rightarrow> bytes \<Rightarrow> kind option" where
  "control_error T r status b =
     (if int (length b) > responseLimit then Some Limit
      else let validXML = validXMLDocument T b in
        if status \<ge> 400 then
          error_response r status (if validXML then (case xm_error T b of Some (root, code) \<Rightarrow> if root = ''Error'' then Some (root, code) else None | None \<Rightarrow> None) else None)
        else if b \<noteq> [] \<and> \<not> validXML then Some Corrupt
        else if status = 200 \<and> rq_Method r = ''GET'' \<and> (case expected_root r of None \<Rightarrow> False | Some (root, listing) \<Rightarrow> \<not> listing_ok r root listing (xm_list T b)) then Some Corrupt
        else if status = 200 \<and> rq_Method r = ''POST'' \<and> has_query r ''uploads'' \<and>
          (case xm_initiate T b of None \<Rightarrow> True | Some (root, bucket, key) \<Rightarrow> root \<noteq> ''InitiateMultipartUploadResult'' \<or> ''/'' @ bucket @ ''/'' @ key \<noteq> rq_Path r) then Some Corrupt
        else None)"

section \<open>once and RoundTrip\<close>

definition wire_release :: "'w wire \<Rightarrow> ('w, unit) act" where
  "wire_release T w = (Inr (), wi_unslot T w)"

definition once_send :: "'w wire \<Rightarrow> http_request \<Rightarrow> ('w, response) act" where
  "once_send T r w = (case wi_round T (request_timeout T r) r w of
     (Inr resp, w') \<Rightarrow> (Inr resp, w')
   | (Inl e, w') \<Rightarrow> (let e = classify (net_sdk e) False in Inl (if Is e Unknown then failure Transient else e), wi_unslot T w'))"

definition once_reply :: "'w wire \<Rightarrow> http_request \<Rightarrow> response \<Rightarrow> ('w, reply) act" where
  "once_reply T r resp =
     (if rs_Status resp \<ge> 300 \<and> rs_Status resp < 400 then andthen (wire_release T) (\<lambda>_. fail (failure Unsupported))
      else if dataGet r \<and> rs_Status resp < 300 \<and> rs_Status resp \<noteq> 200 then andthen (wire_release T) (\<lambda>_. fail (failure Corrupt))
      else if dataGet r \<and> rs_Status resp = 200 then
        (if rs_ContentEncoding resp \<noteq> [] \<or> rs_ContentLength resp < 0 \<or> \<not> validETag (trim_quotes (rs_ETag resp)) \<or> \<not> rs_DateOk resp
         then andthen (wire_release T) (\<lambda>_. fail (failure Corrupt)) else ret (Streaming resp))
      else case read_limited (nat (responseLimit + 1)) (rs_Body resp) of (b, failed) \<Rightarrow>
        andthen (wire_release T) (\<lambda>_.
        if failed \<or> bd_CloseFail (rs_Body resp) then fail (failure Transient)
        else case control_error T r (rs_Status resp) b of
          Some k \<Rightarrow> fail (failure k)
        | None \<Rightarrow> ret (Drained (resp\<lparr>rs_Body := \<lparr>bd_Bytes = b, bd_Fail = False, bd_CloseFail = False\<rparr>\<rparr>))))"

definition once :: "'w wire \<Rightarrow> http_request \<Rightarrow> ('w, reply) act" where
  "once T r =
     andthen (ask (wi_slot T (request_timeout T r))) (\<lambda>got.
     if \<not> got then fail (failure Canceled)
     else andthen (once_send T r) (once_reply T r))"

definition RoundTrip :: "'w sdk \<Rightarrow> 'w wire \<Rightarrow> http_request \<Rightarrow> ('w, reply) act" where
  "RoundTrip C T r =
     (if rq_Scheme r \<noteq> ''https'' \<or> rq_Host r \<noteq> wi_endpoint T then fail (failure Unsupported)
      else if (case rq_Page r of None \<Rightarrow> False | Some n \<Rightarrow> n > 10001) then fail (failure Limit)
      else if rq_Method r = ''GET'' \<and> \<not> dataGet r \<or> rq_Method r = ''HEAD'' then retryRead C (once T r)
      else once T r)"

end
