(* ===== verification/Store_Wire.thy ===== *)
theory Store_Wire
  imports Store_Transport
begin

text \<open>
  What the transport puts on the network: recorded round trips, the connection slot, and the
  replies that prove absence.
\<close>

section \<open>Recording\<close>

datatype wire_event =
    WireSlot bool
  | WireFree
  | WireSend http_request "net_error + response"

text \<open>The environment of a traced wire: nothing of it is recorded.\<close>

definition passing :: "'w sdk \<Rightarrow> ('w \<times> 'e list) sdk" where
  "passing C = \<lparr>
     co_PutObject = (\<lambda>k b m h p. pass_call (co_PutObject C k b m h p)),
     co_StatObject = (\<lambda>k. pass_call (co_StatObject C k)),
     co_GetObject = (\<lambda>k. pass_call (co_GetObject C k)),
     co_RemoveObject = (\<lambda>k. pass_call (co_RemoveObject C k)),
     co_ListObjects = (\<lambda>p. pass_call (co_ListObjects C p)),
     co_ListUploads = (\<lambda>p k u. pass_call (co_ListUploads C p k u)),
     co_ListParts = (\<lambda>k u n. pass_call (co_ListParts C k u n)),
     co_NewUpload = (\<lambda>k p. pass_call (co_NewUpload C k p)),
     co_PutPart = (\<lambda>k u n b m. pass_call (co_PutPart C k u n b m)),
     co_Complete = (\<lambda>k u ps p. pass_call (co_Complete C k u ps p)),
     co_AbortUpload = (\<lambda>k u. pass_call (co_AbortUpload C k u)),
     co_Versioning = pass_call (co_Versioning C),
     co_Lifecycle = pass_call (co_Lifecycle C),
     co_ObjectLock = pass_call (co_ObjectLock C),
     co_canceled = pass_call (co_canceled C),
     co_sleep = (\<lambda>n. pass_call (co_sleep C n)),
     co_slot = (\<lambda>s. pass_call (co_slot C s)),
     co_unslot = (\<lambda>s (w, tr). (co_unslot C s w, tr)),
     co_copy = pass_call (co_copy C),
     co_file = pass_call (co_file C),
     co_rand = pass_call (co_rand C)\<rparr>"

definition wtraced :: "'w wire \<Rightarrow> ('w \<times> wire_event list) wire" where
  "wtraced T = \<lparr>wi_endpoint = wi_endpoint T, wi_metadata = wi_metadata T, wi_data = wi_data T,
     wi_slot = (\<lambda>n. log_call WireSlot (wi_slot T n)),
     wi_unslot = (\<lambda>(w, tr). (wi_unslot T w, tr @ [WireFree])),
     wi_round = (\<lambda>n r. log_call (WireSend r) (wi_round T n r)),
     xm_tokens = xm_tokens T, xm_error = xm_error T, xm_list = xm_list T, xm_initiate = xm_initiate T\<rparr>"

lemma passing_silent: "ct.emits (\<lambda>_. False) (ask (co_canceled (passing C)))" "ct.emits (\<lambda>_. False) (ask (co_sleep (passing C) n))"
  by (simp_all add: passing_def emits_ask_pass)

lemma wtraced_fields [simp]: "wi_endpoint (wtraced T) = wi_endpoint T" "wi_metadata (wtraced T) = wi_metadata T" "wi_data (wtraced T) = wi_data T"
  "wi_slot (wtraced T) n = log_call WireSlot (wi_slot T n)" "wi_unslot (wtraced T) = (\<lambda>(w, tr). (wi_unslot T w, tr @ [WireFree]))"
  "wi_round (wtraced T) n r = log_call (WireSend r) (wi_round T n r)"
  "xm_tokens (wtraced T) = xm_tokens T" "xm_error (wtraced T) = xm_error T" "xm_list (wtraced T) = xm_list T" "xm_initiate (wtraced T) = xm_initiate T"
  by (simp_all add: wtraced_def)

lemma wtraced_pure [simp]: "request_timeout (wtraced T) r = request_timeout T r" "validXMLDocument (wtraced T) b = validXMLDocument T b"
  unfolding request_timeout_def validXMLDocument_def by (simp_all only: wtraced_fields)

lemma wtraced_control [simp]: "control_error (wtraced T) r n b = control_error T r n b"
  unfolding control_error_def by (simp only: wtraced_fields wtraced_pure)

fun is_send :: "wire_event \<Rightarrow> bool" where
  "is_send (WireSend _ _) = True"
| "is_send _ = False"

abbreviation sends :: "wire_event list \<Rightarrow> nat" where
  "sends tr \<equiv> length (filter is_send tr)"

section \<open>One attempt\<close>

text \<open>A reply of the store that proves the absence of the object: an authenticated GET answered with 404 and a complete error document with this code.\<close>

definition says_absent :: "'w wire \<Rightarrow> http_request \<Rightarrow> wire_event list \<Rightarrow> bool" where
  "says_absent T r tr \<longleftrightarrow> dataGet r \<and> (\<exists>resp b root. WireSend r (Inr resp) \<in> set tr \<and> rs_Status resp = 404 \<and> \<not> bd_Fail (rs_Body resp) \<and> b = bd_Bytes (rs_Body resp) \<and>
     validXMLDocument T b \<and> root = ''Error'' \<and> xm_error T b = Some (root, ''NoSuchKey''))"

definition wire_held :: "wire_event list \<Rightarrow> int" where
  "wire_held tr = int (length (filter (\<lambda>e. e = WireSlot True) tr)) - int (length (filter (\<lambda>e. e = WireFree) tr))"

definition streaming :: "err + reply \<Rightarrow> bool" where
  "streaming res \<longleftrightarrow> (\<exists>resp. res = Inr (Streaming resp))"

definition only_sends :: "http_request \<Rightarrow> wire_event list \<Rightarrow> bool" where
  "only_sends r tr \<longleftrightarrow> list_all (\<lambda>e. case e of WireSend q _ \<Rightarrow> q = r | _ \<Rightarrow> True) tr"

text \<open>What one attempt records: at most one request, the slot given back unless the body still streams, and absence only from such a reply.\<close>

definition attempt_ok :: "'w wire \<Rightarrow> http_request \<Rightarrow> err + reply \<Rightarrow> wire_event list \<Rightarrow> bool" where
  "attempt_ok T r res ev \<longleftrightarrow> sends ev \<le> 1 \<and> only_sends r ev \<and> wire_held ev = (if streaming res then 1 else 0) \<and>
     (\<forall>e. res = Inl e \<longrightarrow> Is e NotFound \<longrightarrow> says_absent T r ev)"

lemma error_response_NotFound: "error_response r st parsed = Some NotFound \<Longrightarrow> dataGet r \<and> st = 404 \<and> (\<exists>root. parsed = Some (root, ''NoSuchKey''))"
  by (auto simp: error_response_def Let_def split: if_splits option.splits)

lemma control_error_NotFound:
  assumes "control_error T r st b = Some NotFound"
  shows "dataGet r \<and> st = 404 \<and> validXMLDocument T b \<and> xm_error T b = Some (''Error'', ''NoSuchKey'') \<and> int (length b) \<le> responseLimit"
  using assms by (auto simp: control_error_def Let_def split: if_splits option.splits dest!: error_response_NotFound)

lemma read_limited_all: "read_limited n bd = (b, False) \<Longrightarrow> length b < n \<Longrightarrow> b = bd_Bytes bd \<and> \<not> bd_Fail bd"
  by (auto simp: read_limited_def min_def split: if_splits)

lemma once_reply_log:
  assumes "once_reply (wtraced T) r resp (w, tr) = (res, s')"
  shows "\<exists>ev. calls s' = tr @ ev \<and> ev = (if streaming res then [] else [WireFree]) \<and>
    (\<forall>e. res = Inl e \<longrightarrow> Is e NotFound \<longrightarrow> dataGet r \<and> rs_Status resp = 404 \<and> \<not> bd_Fail (rs_Body resp) \<and> validXMLDocument T (bd_Bytes (rs_Body resp)) \<and>
       xm_error T (bd_Bytes (rs_Body resp)) = Some (''Error'', ''NoSuchKey''))"
proof -
  have rel: "wire_release (wtraced T) (w, tr) = (Inr (), (wi_unslot T w, tr @ [WireFree]))" for w tr by (simp add: wire_release_def)
  obtain b failed where rd: "read_limited (nat (responseLimit + 1)) (rs_Body resp) = (b, failed)" by (metis prod.exhaust)
  have absent: "dataGet r \<and> rs_Status resp = 404 \<and> \<not> bd_Fail (rs_Body resp) \<and> validXMLDocument T (bd_Bytes (rs_Body resp)) \<and> xm_error T (bd_Bytes (rs_Body resp)) = Some (''Error'', ''NoSuchKey'')"
    if "control_error T r (rs_Status resp) b = Some NotFound" "\<not> failed"
    using control_error_NotFound[OF that(1)] read_limited_all[of "nat (responseLimit + 1)" "rs_Body resp" b] rd that(2) by (auto simp: responseLimit_def)
  have refuse: "andthen (wire_release (wtraced T)) (\<lambda>_. m) (w, tr) = m (wi_unslot T w, tr @ [WireFree])" for m :: "('a \<times> wire_event list, reply) act"
    by (simp add: andthen_def attempt_def rel)
  consider (early) k where "once_reply (wtraced T) r resp (w, tr) = (Inl (failure k), (wi_unslot T w, tr @ [WireFree]))" "k \<noteq> NotFound"
    | (stream) "once_reply (wtraced T) r resp (w, tr) = (Inr (Streaming resp), (w, tr))"
    | (control) "once_reply (wtraced T) r resp (w, tr) = (if failed \<or> bd_CloseFail (rs_Body resp) then fail (failure Transient)
        else case control_error T r (rs_Status resp) b of
          Some k \<Rightarrow> fail (failure k)
        | None \<Rightarrow> ret (Drained (resp\<lparr>rs_Body := \<lparr>bd_Bytes = b, bd_Fail = False, bd_CloseFail = False\<rparr>\<rparr>))) (wi_unslot T w, tr @ [WireFree])"
  proof -
    let ?redirect = "rs_Status resp \<ge> 300 \<and> rs_Status resp < 400" and ?odd = "dataGet r \<and> rs_Status resp < 300 \<and> rs_Status resp \<noteq> 200"
      and ?data = "dataGet r \<and> rs_Status resp = 200"
      and ?bad = "rs_ContentEncoding resp \<noteq> [] \<or> rs_ContentLength resp < 0 \<or> \<not> validETag (trim_quotes (rs_ETag resp)) \<or> \<not> rs_DateOk resp"
    consider (redirect) ?redirect | (odd) "\<not> ?redirect" ?odd | (bad) "\<not> ?redirect" "\<not> ?odd" ?data ?bad | (good) "\<not> ?redirect" "\<not> ?odd" ?data "\<not> ?bad"
      | (ctl) "\<not> ?redirect" "\<not> ?odd" "\<not> ?data" by blast
    then show thesis
    proof cases
      case redirect
      then show thesis by (intro early[of Unsupported]) (simp_all only: once_reply_def if_P refuse, simp_all add: fail_def)
    next
      case odd
      then show thesis using refuse[of "fail (failure Corrupt)"] by (intro early[of Corrupt]) (simp_all only: once_reply_def if_P if_not_P, simp_all add: fail_def)
    next
      case bad
      then show thesis using refuse[of "fail (failure Corrupt)"] by (intro early[of Corrupt]) (simp_all only: once_reply_def if_P if_not_P, simp_all add: fail_def)
    next
      case good
      then show thesis by (intro stream) (simp only: once_reply_def if_P if_not_P, simp add: ret_def)
    next
      case ctl
      then show thesis by (intro control) (simp only: once_reply_def if_not_P rd prod.case wtraced_control if_False, simp only: refuse)
    qed
  qed
  then show ?thesis
  proof cases
    case control
    then show ?thesis using assms absent by (auto simp: streaming_def fail_def ret_def failure_def split: if_splits option.splits)
  qed (use assms in \<open>auto simp: streaming_def failure_def\<close>)
qed

lemma once_log:
  assumes "once (wtraced T) r s = (res, s')"
  shows "\<exists>ev. calls s' = calls s @ ev \<and> attempt_ok T r res ev"
proof -
  obtain w tr where s: "s = (w, tr)" by (metis prod.exhaust)
  obtain g w1 where g: "wi_slot T (request_timeout T r) w = (g, w1)" by (metis prod.exhaust)
  obtain x w2 where x: "wi_round T (request_timeout T r) r w1 = (x, w2)" by (metis prod.exhaust)
  have slot: "ask (wi_slot (wtraced T) (request_timeout T r)) s = (Inr g, (w1, tr @ [WireSlot g]))" using g s by (simp add: ask_def log_call_def)
  note defs = attempt_ok_def only_sends_def wire_held_def streaming_def failure_def says_absent_def
  show ?thesis
  proof (cases g)
    case False
    then show ?thesis using assms slot by (auto simp: once_def andthen_def attempt_def fail_def s defs)
  next
    case True
    show ?thesis
    proof (cases x)
      case (Inl e)
      have "\<not> Is (classify (net_sdk e) False) NotFound" by (cases e) (auto simp: net_sdk_def classify_def code_kind_def)
      moreover have "once_send (wtraced T) r (w1, tr @ [WireSlot True]) = (Inl (if Is (classify (net_sdk e) False) Unknown then failure Transient else classify (net_sdk e) False),
          (wi_unslot T w2, tr @ [WireSlot True, WireSend r (Inl e), WireFree]))"
        using x Inl by (simp add: once_send_def log_call_def Let_def)
      ultimately show ?thesis using assms slot True by (auto simp: once_def andthen_def attempt_def fail_def s defs)
    next
      case (Inr resp)
      then have send: "once_send (wtraced T) r (w1, tr @ [WireSlot True]) = (Inr resp, (w2, tr @ [WireSlot True, WireSend r (Inr resp)]))"
        using x by (simp add: once_send_def log_call_def)
      have "once_reply (wtraced T) r resp (w2, tr @ [WireSlot True, WireSend r (Inr resp)]) = (res, s')"
        using assms slot True send by (simp add: once_def andthen_def attempt_def s)
      from once_reply_log[OF this] obtain ev where ev: "calls s' = tr @ [WireSlot True, WireSend r (Inr resp)] @ ev" "ev = (if streaming res then [] else [WireFree])"
        "\<forall>e. res = Inl e \<longrightarrow> Is e NotFound \<longrightarrow> dataGet r \<and> rs_Status resp = 404 \<and> \<not> bd_Fail (rs_Body resp) \<and> validXMLDocument T (bd_Bytes (rs_Body resp)) \<and>
          xm_error T (bd_Bytes (rs_Body resp)) = Some (''Error'', ''NoSuchKey'')" by auto
      have "attempt_ok T r res ([WireSlot True, WireSend r (Inr resp)] @ ev)"
        unfolding attempt_ok_def using ev(2,3) by (auto simp: only_sends_def wire_held_def says_absent_def)
      then show ?thesis using ev(1) s by auto
    qed
  qed
qed


section \<open>RoundTrip\<close>

lemma RoundTrip_refused:
  assumes "rq_Scheme r \<noteq> ''https'' \<or> rq_Host r \<noteq> wi_endpoint T"
  shows "RoundTrip C (wtraced T) r s = (Inl (failure Unsupported), s)"
  using assms by (simp add: RoundTrip_def fail_def)

definition control_read :: "http_request \<Rightarrow> bool" where
  "control_read r \<longleftrightarrow> rq_Method r = ''GET'' \<and> \<not> dataGet r \<or> rq_Method r = ''HEAD''"

text \<open>Over any number of attempts, as long as every attempt but the last failed.\<close>

lemma attempts_append:
  assumes "attempt_ok T r (Inl e) a" "only_sends r b" "wire_held b = (if streaming res then 1 else 0)"
  shows "only_sends r (a @ b)" "wire_held (a @ b) = (if streaming res then 1 else 0)"
  using assms by (auto simp: attempt_ok_def only_sends_def wire_held_def streaming_def)

lemma andthen_run: "m s = (Inr x, s1) \<Longrightarrow> andthen m k s = k x s1"
  and attempt_run: "m s = (r, s1) \<Longrightarrow> attempt m k' s = k' r s1"
  by (simp_all add: andthen_def attempt_def)

lemma retry_wire:
  "retry_from (passing C) (once (wtraced T) r) n e s = (res, s') \<Longrightarrow> \<not> Is e NotFound \<Longrightarrow> \<not> dataGet r \<Longrightarrow>
   \<exists>ev. calls s' = calls s @ ev \<and> only_sends r ev \<and> wire_held ev = (if streaming res then 1 else 0) \<and> (\<forall>e. res = Inl e \<longrightarrow> \<not> Is e NotFound)"
proof (induction "5 - n" arbitrary: n e s rule: less_induct)
  case less
  obtain w tr where s: "s = (w, tr)" by (metis prod.exhaust)
  show ?case
  proof (cases "n \<ge> 5")
    case True
    then show ?thesis using less.prems by (subst (asm) retry_from.simps) (auto simp: fail_def only_sends_def wire_held_def streaming_def)
  next
    case False
    obtain c w1 where c: "ask (co_canceled (passing C)) s = (Inr c, (w1, tr))" by (cases "co_canceled C w") (auto simp: passing_def pass_call_def ask_def s)
    have "\<exists>k w2. (if n > 0 then ask (co_sleep (passing C) n) else ret True) (w1, tr) = (Inr k, (w2, tr))"
      by (cases "co_sleep C n w1") (auto simp: passing_def pass_call_def ask_def ret_def)
    then obtain k w2 where k: "(if n > 0 then ask (co_sleep (passing C) n) else ret True) (w1, tr) = (Inr k, (w2, tr))" by blast
    obtain r3 s3 where f: "once (wtraced T) r (w2, tr) = (r3, s3)" by (metis prod.exhaust)
    from once_log[OF f] obtain ev where ev: "calls s3 = tr @ ev" "attempt_ok T r r3 ev" by auto
    then have nf: "r3 = Inl e' \<Longrightarrow> \<not> Is e' NotFound" for e' using less.prems(3) by (auto simp: attempt_ok_def says_absent_def)
    have run: "retry_from (passing C) (once (wtraced T) r) n e s = (if c then (Inl (failure Canceled), (w1, tr)) else if \<not> k then (Inl (failure Canceled), (w2, tr))
        else case r3 of Inr x \<Rightarrow> (Inr x, s3) | Inl e' \<Rightarrow> if \<not> Is e' Transient then (Inl e', s3) else retry_from (passing C) (once (wtraced T) r) (n + 1) e' s3)"
      using False by (subst retry_from.simps, cases c; cases k) (simp_all add: andthen_run[where m = "ask (co_canceled (passing C))" and s = s, OF c]
          andthen_run[where m = "if n > 0 then ask (co_sleep (passing C) n) else ret True" and s = "(w1, tr)", OF k]
          attempt_run[where m = "once (wtraced T) r" and s = "(w2, tr)", OF f] fail_def ret_def del: if_split split: sum.split)
    consider (stop) "res = Inl (failure Canceled)" "calls s' = tr" | (last) "res = r3" "s' = s3"
      | (again) e' where "r3 = Inl e'" "retry_from (passing C) (once (wtraced T) r) (n + 1) e' s3 = (res, s')"
    proof (cases "c \<or> \<not> k")
      case True
      then show thesis using less.prems(1) run stop by (cases c) auto
    next
      case go: False
      show thesis
      proof (cases r3)
        case (Inl e')
        show thesis
        proof (cases "Is e' Transient")
          case True
          then show thesis using less.prems(1) run again[OF Inl] go Inl by simp
        next
          case False
          then show thesis using less.prems(1) run last go Inl by simp
        qed
      next
        case (Inr x)
        then show thesis using less.prems(1) run last go by simp
      qed
    qed
    then show ?thesis
    proof cases
      case stop
      then show ?thesis using s by (auto simp: only_sends_def wire_held_def streaming_def failure_def)
    next
      case last
      then show ?thesis using ev nf s by (auto simp: attempt_ok_def)
    next
      case again
      have "5 - (n + 1) < 5 - n" using False by linarith
      from less.hyps[OF this again(2) nf[OF again(1)] less.prems(3)] obtain ev' where
        "calls s' = calls s3 @ ev'" "only_sends r ev'" "wire_held ev' = (if streaming res then 1 else 0)" "\<forall>e. res = Inl e \<longrightarrow> \<not> Is e NotFound" by auto
      then show ?thesis using ev again(1) attempts_append[of T r e' ev ev' res] s by (intro exI[of _ "ev @ ev'"]) auto
    qed
  qed
qed

end
