(* ===== verification/Writer.thy ===== *)
theory Writer
  imports Gate Store_Upload Store_Wire
begin

text \<open>
  Opening a repository for writing (repository/writer.go, \<open>Initialize\<close> of repository/repository.go), and the storage
  adapter as the store of the repository: the operations of \<open>s3store.Store\<close> in the place of the
  interface \<open>Storage\<close>.
\<close>

section \<open>Initialize and OpenWriter\<close>

text \<open>\<open>probe\<close> is \<open>CheckConditions\<close> below a given root; \<open>ws\<close> whether the workspace is an existing absolute directory.\<close>

definition Initialize :: "'w sys \<Rightarrow> (string \<Rightarrow> ('w, unit) act) \<Rightarrow> identity \<Rightarrow> bool \<Rightarrow> ('w, repo) act" where
  "Initialize S probe idn ws =
     (if Identity_Validate idn \<noteq> Inr () then fail ErrInvalid
      else andthen (st_CheckBucketSafety S) (\<lambda>_.
        andthen (new_UUID S) (\<lambda>p.
        andthen (probe (root_of (idn_RepositoryID idn) @ ''probes/'' @ p)) (\<lambda>_.
        andthen (initialize S idn) (\<lambda>_. Open S idn ws)))))"

definition open_expected :: "'w sys \<Rightarrow> identity \<Rightarrow> bool \<Rightarrow> ('w, repo) act" where
  "open_expected S expected ws =
     andthen (OpenSource S (idn_RepositoryID expected) ws) (\<lambda>r.
     if expected\<lparr>idn_CreatedAt := idn_CreatedAt (rp_id r)\<rparr> \<noteq> rp_id r then fail ErrIdentity else ret r)"

text \<open>The identity to initialize with: the interrupted initialization's own timestamp when there is one.\<close>

definition resume_identity :: "'w sys \<Rightarrow> identity \<Rightarrow> ('w, identity) act" where
  "resume_identity S expected =
     attempt (st_Read S (''v1/'' @ idn_RepositoryID expected @ ''/repository.json'') smallLimit) (\<lambda>rd. case rd of
       Inr (b, _) \<Rightarrow> (case strict Identity_type dec_Identity b smallLimit of
         Inl _ \<Rightarrow> fail ErrCorrupt
       | Inr existing \<Rightarrow>
          if Identity_Validate existing \<noteq> Inr () then fail ErrCorrupt
          else if expected\<lparr>idn_CreatedAt := idn_CreatedAt existing\<rparr> \<noteq> existing then fail ErrIdentity
          else ret existing)
     | Inl e \<Rightarrow> if \<not> Is e NotFound then fail e else ret expected)"

definition OpenWriter :: "'w sys \<Rightarrow> (string \<Rightarrow> ('w, unit) act) \<Rightarrow> identity \<Rightarrow> bool \<Rightarrow> ('w, repo) act" where
  "OpenWriter S probe expected ws =
     attempt (open_expected S expected ws) (\<lambda>r. case r of
       Inr r \<Rightarrow> ret r
     | Inl e \<Rightarrow>
        if \<not> Is e NotFound then fail e
        else (\<lambda>w. case os_now S w of (now, w) \<Rightarrow>
          andthen (resume_identity S (expected\<lparr>idn_CreatedAt := format_rfc3339 now\<rparr>)) (\<lambda>idn.
          attempt (Initialize S probe idn ws) (\<lambda>r. case r of
            Inr r \<Rightarrow> ret r
          | Inl e \<Rightarrow> attempt (open_expected S idn ws) (\<lambda>again. case again of Inr winner \<Rightarrow> ret winner | Inl _ \<Rightarrow> fail e))) w))"

section \<open>The adapter as the repository's store\<close>

abbreviation spool_of :: "bytes \<Rightarrow> spool_file option" where
  "spool_of b \<equiv> Some \<lparr>sp_Bytes = b, sp_Stat = True, sp_Regular = True\<rparr>"

text \<open>The items a listing visits, and its error.\<close>

definition visited :: "('w \<times> 'i list, unit) act \<Rightarrow> 'w \<Rightarrow> ('i list \<times> err option) \<times> 'w" where
  "visited m w = (case m (w, []) of (r, (w', items)) \<Rightarrow> ((items, err_of r), w'))"

definition push :: "'i \<Rightarrow> unit \<Rightarrow> ('w \<times> 'i list, unit) act" where
  "push i u = (\<lambda>(w, items). (Inr (), (w, items @ [i])))"

definition upload_result :: "(upload \<times> (err + info)) \<times> 'w \<Rightarrow> (err + upload \<times> info) \<times> 'w" where
  "upload_result = (\<lambda>((u, r), w). (case r of Inl e \<Rightarrow> Inl e | Inr i \<Rightarrow> Inr (u, i), w))"

definition store_sys :: "'w sdk \<Rightarrow> 'w schedule \<Rightarrow> store \<Rightarrow> 'w sys \<Rightarrow> 'w sys" where
  "store_sys C run s S = S\<lparr>
     st_CheckBucketSafety := CheckBucketSafety C,
     st_Head := Head C s,
     st_Read := Read C s,
     st_PutFile := (\<lambda>k b i c m. PutFile C s k (spool_of b) i c m),
     st_UploadFile := (\<lambda>k b i w. upload_result (UploadFile C run s k (spool_of b) i [] w)),
     st_Download := (\<lambda>k i. Download C s k True i),
     st_List := (\<lambda>p n. visited (Store_List (passing C) s p n push ())),
     st_Delete := Delete C s,
     st_Abort := Abort C s,
     st_ListUploads := (\<lambda>p n. visited (ListUploads (passing C) s p n push ()))\<rparr>"

definition probe_conditions :: "'w sdk \<Rightarrow> store \<Rightarrow> string \<Rightarrow> ('w, unit) act" where
  "probe_conditions C s root w = (case CheckConditions C s root w of ((_, None), w') \<Rightarrow> (Inr (), w') | ((_, Some e), w') \<Rightarrow> (Inl e, w'))"

section \<open>Lineage\<close>

lemma Open_id: "Open S idn ws s = (Inr r, s') \<Longrightarrow> rp_id r = idn"
  by (auto simp: Open_def andthen_Inr fail_def ret_def Let_def split: if_splits prod.splits)

lemma Initialize_id: "Initialize S probe idn ws s = (Inr r, s') \<Longrightarrow> rp_id r = idn"
  by (auto simp: Initialize_def andthen_Inr fail_def split: if_splits dest: Open_id)

definition same_lineage :: "identity \<Rightarrow> identity \<Rightarrow> bool" where
  "same_lineage a b \<longleftrightarrow> a\<lparr>idn_CreatedAt := []\<rparr> = b\<lparr>idn_CreatedAt := []\<rparr>"

lemma same_lineage_created [simp]: "same_lineage (a\<lparr>idn_CreatedAt := t\<rparr>) b = same_lineage a b" "same_lineage a a"
  by (simp_all add: same_lineage_def)

lemma same_lineage_iff: "same_lineage a b \<longleftrightarrow> a\<lparr>idn_CreatedAt := idn_CreatedAt b\<rparr> = b"
  unfolding same_lineage_def by (cases a; cases b) auto

lemma open_expected_id: "open_expected S expected ws s = (Inr r, s') \<Longrightarrow> same_lineage expected (rp_id r)"
  by (auto simp: open_expected_def andthen_Inr fail_def ret_def same_lineage_iff split: if_splits)

lemma resume_identity_id: "resume_identity S expected s = (Inr idn, s') \<Longrightarrow> same_lineage expected idn"
  by (auto simp: resume_identity_def attempt_def fail_def ret_def same_lineage_iff split: if_splits sum.splits prod.splits)

lemma OpenWriter_id:
  assumes "OpenWriter S probe expected ws s = (Inr r, s')"
  shows "same_lineage expected (rp_id r)"
proof -
  obtain r1 s1 where o: "open_expected S expected ws s = (r1, s1)" by (metis prod.exhaust)
  show ?thesis
  proof (cases r1)
    case (Inr x)
    then show ?thesis using assms o open_expected_id[of S expected ws s r s'] by (auto simp: OpenWriter_def attempt_def ret_def)
  next
    case (Inl e)
    then obtain now s2 idn s3 where i: "resume_identity S (expected\<lparr>idn_CreatedAt := format_rfc3339 now\<rparr>) s2 = (Inr idn, s3)"
      and rest: "attempt (Initialize S probe idn ws) (\<lambda>r. case r of Inr r \<Rightarrow> ret r
          | Inl e \<Rightarrow> attempt (open_expected S idn ws) (\<lambda>again. case again of Inr winner \<Rightarrow> ret winner | Inl _ \<Rightarrow> fail e)) s3 = (Inr r, s')"
      using assms o by (auto simp: OpenWriter_def attempt_run[where m = "open_expected S expected ws" and s = s, OF o] fail_def andthen_Inr split: if_splits prod.splits)
    have l: "same_lineage expected idn" using resume_identity_id[OF i] by simp
    have "rp_id r = idn \<or> same_lineage idn (rp_id r)" using rest
      by (auto simp: attempt_def ret_def fail_def split: sum.splits prod.splits dest: Initialize_id open_expected_id)
    then show ?thesis using l by (auto simp: same_lineage_def)
  qed
qed

end
