(* ===== verification/Store_Properties.thy ===== *)
theory Store_Properties
  imports Store_Upload Store_Wire
begin

text \<open>
  What the storage adapter guarantees to the repository: confined keys, mutations sent once,
  whole multipart uploads, verified downloads, complete listings and an authenticated absence.
\<close>

section \<open>Keys\<close>

lemma split_on_append: "split_on c (xs @ c # ys) = split_on c xs @ split_on c ys"
proof (induction xs)
  case (Cons x xs)
  then show ?case using split_on_nonempty[of c xs] by (cases "split_on c xs") auto
qed simp

lemma validPath_join: "validPath p \<Longrightarrow> validPath k \<Longrightarrow> validPath (p @ ''/'' @ k)"
  using split_on_append[of "CHR ''/''" p k] by (auto simp: validPath_def plain_def contains_any_def)

lemma store_key_shape:
  assumes "store_key s k = Inr full"
  shows "validPath k" "length full \<le> 1024" "full = (if so_prefix s \<noteq> [] then so_prefix s @ ''/'' @ k else k)"
  using assms by (auto simp: store_key_def Let_def split: if_splits)

lemma relative_key: "store_key s k = Inr full \<Longrightarrow> relative s full = k"
  using store_key_shape(3)[of s k full] by (auto simp: relative_def trim_prefix_def has_prefix_def)

lemma NewStore_prefix: "NewStore E c = Inr s \<Longrightarrow> so_prefix s = [] \<or> validPath (so_prefix s)"
  by (auto simp: NewStore_def split: if_splits)

text \<open>Every object key of a store stays below its prefix and reads back: for a store that \<open>New\<close> accepted, an accepted key maps to
  a clean path without empty, dot or dot-dot elements of at most 1024 bytes, below the configured prefix, \<open>relative\<close> returns the key, and so distinct
  keys never share an object.\<close>
theorem keys_confined:
  assumes "NewStore E c = Inr s" "store_key s k = Inr full"
  shows "validPath full \<and> length full \<le> 1024 \<and> relative s full = k \<and> (so_prefix s = [] \<or> has_prefix full (so_prefix s @ ''/'')) \<and>
    (store_key s k' = Inr full \<longleftrightarrow> k' = k)"
proof -
  note sh = store_key_shape[OF assms(2)]
  have "k' = k" if "store_key s k' = Inr full" using relative_key[OF that] relative_key[OF assms(2)] by simp
  then have "store_key s k' = Inr full \<longleftrightarrow> k' = k" using assms(2) by blast
  then show ?thesis using sh NewStore_prefix[OF assms(1)] relative_key[OF assms(2)] validPath_join[OF _ sh(1)]
    by (auto simp: has_prefix_def)
qed

section \<open>Slots\<close>

fun slot_event :: "store_event \<Rightarrow> bool" where
  "slot_event (Acquired _ _) = True"
| "slot_event (Released _) = True"
| "slot_event _ = False"

text \<open>The slots held after a trace.\<close>

definition held :: "slot \<Rightarrow> store_event list \<Rightarrow> int" where
  "held s tr = int (length (filter (\<lambda>e. e = Acquired s True) tr)) - int (length (filter (\<lambda>e. e = Released s) tr))"

lemma held_quiet: "list_all (\<lambda>e. \<not> slot_event e) tr \<Longrightarrow> held s tr = 0"
  by (induction tr) (auto simp: held_def)

lemma held_append: "held s (a @ b) = held s a + held s b"
  by (simp add: held_def)

lemma acquireData_balanced:
  assumes "acquireData (straced C) loc glob m (w, []) = (r, (w', tr))"
    and "\<And>s r' s'. m s = (r', s') \<Longrightarrow> \<exists>ev. calls s' = calls s @ ev \<and> list_all (\<lambda>e. \<not> slot_event e) ev"
  shows "held x tr = 0"
proof -
  have "tr = [] @ [Acquired loc False] \<and> r = Inl (failure Canceled) \<or>
      tr = [] @ [Acquired loc True, Acquired glob False, Released loc] \<and> r = Inl (failure Canceled) \<or>
      (\<exists>ev. tr = [] @ [Acquired loc True, Acquired glob True] @ ev @ [Released glob, Released loc] \<and> list_all (\<lambda>e. \<not> slot_event e) ev)"
    by (rule acquireData_log[OF assms(1)]) (rule assms(2))
  then show ?thesis using held_quiet[of _ x] by (auto simp: held_append) (auto simp: held_def)
qed

lemma put_body_quiet: "ct.emits (\<lambda>e. \<not> slot_event e) (put_body (straced C) key k f expected opts)"
  unfolding put_body_def straced_mutations by (auto intro!: sends_intros emits_sdk_log)

lemma is_part_slot: "list_all is_part ev \<Longrightarrow> list_all (\<lambda>e. \<not> slot_event e) ev"
proof -
  have "is_part e \<Longrightarrow> \<not> slot_event e" for e by (cases e) auto
  then show "list_all is_part ev \<Longrightarrow> list_all (\<lambda>e. \<not> slot_event e) ev" by (auto simp: list_all_iff)
qed

lemma finish_quiet: "ct.emits (\<lambda>e. \<not> slot_event e) (finish_upload (straced C) s key k expected opts u us)"
  unfolding finish_upload_def straced_mutations by (auto intro!: sends_intros emits_sdk_log split: option.splits sum.splits)

lemma run_quiet:
  assumes "runs_workers (straced C) run" "m \<ge> 1" "run k uid b (up_init m expected, s) = (us, s')"
  shows "\<exists>ev. calls s' = calls s @ ev \<and> list_all (\<lambda>e. \<not> slot_event e) ev"
proof -
  have "(up_step (straced C) k uid b)\<^sup>*\<^sup>* (up_init m expected, s) (us, s')" using assms unfolding runs_workers_def by metis
  from up_inv_steps[OF this up_init_inv] is_part_slot show ?thesis by blast
qed

lemma upload_body_quiet:
  assumes "runs_workers (straced C) run" "so_workers s \<ge> 1"
  shows "ct.emits (\<lambda>e. \<not> slot_event e) (upload_body (straced C) run s key k f expected opts)"
proof -
  have m: "nat (so_workers s) \<ge> 1" using assms(2) by simp
  have "ct.emits (\<lambda>e. \<not> slot_event e) (\<lambda>w. case run k uid b (up_init (nat (so_workers s)) expected, w) of (us, w') \<Rightarrow> finish_upload (straced C) s key k expected opts u us w')" for uid b u
  proof (rule ct.emitsI)
    fix st r st' assume "(case run k uid b (up_init (nat (so_workers s)) expected, st) of (us, w') \<Rightarrow> finish_upload (straced C) s key k expected opts u us w') = (r, st')"
    then obtain us st1 where 1: "run k uid b (up_init (nat (so_workers s)) expected, st) = (us, st1)" "finish_upload (straced C) s key k expected opts u us st1 = (r, st')"
      by (auto split: prod.splits)
    from run_quiet[OF assms(1) m 1(1)] ct.emitsD[OF finish_quiet 1(2)] show "\<exists>ev. calls st' = calls st @ ev \<and> list_all (\<lambda>e. \<not> slot_event e) ev" by auto
  qed
  then show ?thesis unfolding upload_body_def straced_mutations Let_def by (auto intro!: sends_intros emits_sdk_log split: sum.splits)
qed


lemma PutFile_balanced:
  assumes "PutFile (straced C) s key f expected c md (w, []) = (r, (w', tr))"
  shows "held x tr = 0"
proof -
  consider (early) "tr = []"
    | (sent) k opts where "acquireData (straced C) LocalWAL ProcessWAL (put_body (straced C) key k f expected opts) (w, []) = (r, (w', tr))"
    using assms by (auto simp: PutFile_def put_body_def andthen_def attempt_def lift_def fail_def split: sum.splits if_splits)
  then show ?thesis by cases (auto simp: held_def dest: acquireData_balanced[OF _ ct.emitsD[OF put_body_quiet]])
qed

lemma download_balanced:
  assumes "download (straced C) s key dst expected loc (w, []) = (r, (w', tr))"
  shows "held x tr = 0"
proof -
  have q: "ct.emits (\<lambda>e. \<not> slot_event e) (retryRead (straced C) (download_once (straced C) key k expected))" for k by (auto intro!: sends_intros)
  consider (early) "tr = []"
    | (sent) k where "acquireData (straced C) loc (if loc = LocalWAL then ProcessWAL else ProcessArtifacts) (retryRead (straced C) (download_once (straced C) key k expected)) (w, []) = (r, (w', tr))"
    using assms by (auto simp: download_def andthen_def attempt_def lift_def fail_def split: sum.splits if_splits)
  then show ?thesis by cases (auto simp: held_def dest: acquireData_balanced[OF _ ct.emitsD[OF q]])
qed

lemma UploadFile_balanced:
  assumes "UploadFile (straced C) run s key f expected md (w, []) = (r, (w', tr))" "runs_workers (straced C) run" "so_workers s \<ge> 1"
  shows "held x tr = 0"
proof -
  consider (early) "tr = []"
    | (sent) k opts r1 where "acquireData (straced C) LocalArtifacts ProcessArtifacts (upload_body (straced C) run s key k f expected opts) (w, []) = (r1, (w', tr))"
    using assms(1) by (auto simp: UploadFile_def Let_def split: sum.splits if_splits prod.splits)
  then show ?thesis by cases (auto simp: held_def dest: acquireData_balanced[OF _ ct.emitsD[OF upload_body_quiet[OF assms(2,3)]]])
qed

section \<open>Mutations\<close>

text \<open>C18. A conditional PUT, a DELETE and an abort send at most one request, whatever the store, the context and the local files do: success means that
  request was accepted, and an error without the ambiguity flag means that nothing was sent or that the store refused it with a
  failed precondition, a conflict or a refused authentication. The transfer slots are given back in every case.\<close>
theorem mutations_sent_once:
  "(case PutFile (straced C) s key f expected c md (w, []) of (r, (w', tr)) \<Rightarrow> sent_once (err_of r) tr \<and> held x tr = 0) \<and>
   (case Delete (straced C) s key (w, []) of (r, (w', tr)) \<Rightarrow> sent_once (err_of r) tr) \<and>
   (case Abort (straced C) s u (w, []) of (r, (w', tr)) \<Rightarrow> sent_once (err_of r) tr)"
  using PutFile_sends PutFile_balanced Delete_sends Abort_sends by (auto split: prod.split)

text \<open>C19. A multipart upload is completed only as a whole: under every schedule of the part workers, before the completion request every part it lists
  was uploaded under this upload and answered with the listed tag, the parts are the bytes of the whole verified
  file in order, at most one completion request is sent, an error without the ambiguity flag means none was accepted, and the slots are given back.\<close>
theorem UploadFile_whole:
  assumes "runs_workers (straced C) run" "so_workers s \<ge> 1"
  shows "case UploadFile (straced C) run s key f expected md (w, []) of ((u, r), (w', tr)) \<Rightarrow>
    sent_once (err_of r) tr \<and> completed_whole (spool_bytes f) tr \<and> held x tr = 0"
  using UploadFile_log[OF _ assms] UploadFile_balanced[OF _ assms] by (auto split: prod.split)

text \<open>C37. The part workers always end: every step of a schedule decreases the work left, so no schedule is infinite, and as long as the sender or a worker has not
  ended some step other than a cancellation is possible, also after errors and cancellation.\<close>
theorem upload_workers_end:
  assumes "(up_step C k uid b)\<^sup>*\<^sup>* (up_init m expected, w) (us, w')" "m \<ge> 1"
  shows "(up_done us \<or> (\<exists>us2 w2. up_step C k uid b (us, w') (us2, w2) \<and> us_canceled us2 = us_canceled us)) \<and> wfP (\<lambda>s2 s1. up_step C k uid b s1 s2)"
proof -
  have "up_alive (fst (us, w'))" using assms(1)
  proof (induction "(us, w')" arbitrary: us w' rule: rtranclp_induct)
    case base
    then show ?case using assms(2) by (auto simp: up_alive_def up_init_def list_ex_iff)
  next
    case (step y)
    then show ?case using up_alive_step by (metis prod.collapse)
  qed
  then have "up_done us \<or> (\<exists>us2 w2. up_step C k uid b (us, w') (us2, w2) \<and> us_canceled us2 = us_canceled us)"
    using up_progress[of us C k uid b w'] by (auto simp: up_alive_def)
  moreover have "wfP (\<lambda>s2 s1. up_step C k uid b s1 s2)"
    by (rule wfp_if_convertible_to_nat[where f = "\<lambda>s. up_work (fst s)"]) (rule up_step_work)
  ultimately show ?thesis by blast
qed

section \<open>Reads\<close>

fun is_get :: "store_event \<Rightarrow> bool" where
  "is_get (CallGet _ _) = True"
| "is_get _ = False"

abbreviation gets :: "store_event list \<Rightarrow> nat" where
  "gets tr \<equiv> length (filter is_get tr)"

lemma get_at_most: "ct.at_most is_get 1 (sdk_call False (co_GetObject (straced C) k))"
  by (rule ct.at_mostI) (auto simp: straced_def sdk_call_def log_call_def split: prod.splits sum.splits)

lemma download_once_gets: "ct.at_most is_get 1 (download_once (straced C) key k expected)"
proof -
  have *: "ct.at_most is_get (0 + (0 + (1 + 0))) (download_once (straced C) key k expected)"
    unfolding download_once_def
    by (intro ct.at_most_andthen get_at_most) (auto intro!: ct.at_most_silent sends_intros split: prod.splits)
  then show ?thesis by simp
qed

lemma transient_never: "transient_or_canceled C s \<noteq> (Inr x, s')"
  by (auto simp: transient_or_canceled_def andthen_Inr fail_def)

lemma download_once_ok:
  assumes "download_once C key k expected s = (Inr (b, i), s')"
  shows "int (length b) = itg_Size expected \<and> digest b = itg_SHA256 expected \<and> inf_Key i = key"
proof -
  obtain x s1 where "download_rest C key expected x s1 = (Inr (b, i), s')" using assms unfolding download_once_def andthen_Inr by blast
  then show ?thesis by (auto simp: download_rest_def andthen_Inr transient_never fail_def ret_def info_of_def split: if_splits prod.splits)
qed

text \<open>A download that succeeds has delivered exactly the expected bytes: their number and SHA-256 are the expected ones; it asks for the object at most
  five times, changes nothing in the store, and gives its slots back.\<close>
theorem Download_verified:
  "case download (straced C) s key dst expected loc (w, []) of (r, (w', tr)) \<Rightarrow>
     gets tr \<le> 5 \<and> mutations tr = [] \<and> held x tr = 0 \<and>
     (case r of Inl _ \<Rightarrow> True | Inr (b, i) \<Rightarrow> int (length b) = itg_Size expected \<and> digest b = itg_SHA256 expected \<and> inf_Key i = key)"
proof -
  obtain r w' tr where run: "download (straced C) s key dst expected loc (w, []) = (r, (w', tr))" by (metis prod.exhaust)
  let ?q = "\<lambda>r ev. gets ev \<le> 5 \<and> mutations ev = [] \<and> (case r of Inl _ \<Rightarrow> True | Inr (b, i) \<Rightarrow> int (length b) = itg_Size expected \<and> digest b = itg_SHA256 expected \<and> inf_Key i = key)"
  have body: "\<exists>ev. calls s' = calls s1 @ ev \<and> ?q r' ev" if "retryRead (straced C) (download_once (straced C) key k expected) s1 = (r', s')" for k s1 r' s'
  proof -
    from ct.at_mostD[OF retry_at_most[OF emits_sdk(1) emits_sdk(2) download_once_gets] that[unfolded retryRead_def]] obtain ev where ev: "calls s' = calls s1 @ ev" "gets ev \<le> 5" by auto
    have "ct.emits (\<lambda>e. \<not> mutating e) (retryRead (straced C) (download_once (straced C) key k expected))" by (auto intro!: sends_intros)
    from ct.emitsD[OF this that] ev(1) have "mutations ev = []" by (auto simp: list_all_iff filter_empty_conv)
    moreover have "case r' of Inl _ \<Rightarrow> True | Inr (b, i) \<Rightarrow> int (length b) = itg_Size expected \<and> digest b = itg_SHA256 expected \<and> inf_Key i = key"
    proof (cases r')
      case (Inr x)
      from that[unfolded this retryRead_def] show ?thesis
        by (rule retry_result) (use Inr download_once_ok in \<open>cases x, fastforce\<close>)
    qed simp
    ultimately show ?thesis using ev by blast
  qed
  have "?q r tr"
  proof -
    consider (early) e where "tr = []" "r = Inl e"
      | (sent) k where "acquireData (straced C) loc (if loc = LocalWAL then ProcessWAL else ProcessArtifacts) (retryRead (straced C) (download_once (straced C) key k expected)) (w, []) = (r, (w', tr))"
      using run by (auto simp: download_def andthen_def attempt_def lift_def fail_def split: sum.splits if_splits)
    then show ?thesis
    proof cases
      case sent
      have "tr = [] @ [Acquired loc False] \<and> r = Inl (failure Canceled) \<or>
        tr = [] @ [Acquired loc True, Acquired (if loc = LocalWAL then ProcessWAL else ProcessArtifacts) False, Released loc] \<and> r = Inl (failure Canceled) \<or>
        (\<exists>ev. tr = [] @ [Acquired loc True, Acquired (if loc = LocalWAL then ProcessWAL else ProcessArtifacts) True] @ ev @ [Released (if loc = LocalWAL then ProcessWAL else ProcessArtifacts), Released loc] \<and> ?q r ev)"
        by (rule acquireData_log[OF sent]) (rule body)
      then show ?thesis by auto
    qed simp
  qed
  then show ?thesis using run download_balanced[OF run] by simp
qed

lemma ret_andthen: "andthen (ret x) k = k x"
  by (rule ext) (simp add: andthen_def attempt_def ret_def)

section \<open>Listings\<close>

definition listed :: "store \<Rightarrow> sdk_object \<Rightarrow> info" where
  "listed s x = info_of (x\<lparr>sdo_Key := relative s (sdo_Key x)\<rparr>)"

abbreviation collect :: "info \<Rightarrow> info list \<Rightarrow> ('w, info list) act" where
  "collect \<equiv> (\<lambda>i v. ret (v @ [i]))"

lemma list_loop_complete:
  assumes "list_loop C s p lim collect vs prev n acc w = (Inr items, w')" "n \<le> lim"
  shows "\<exists>xs. vs = map Inr xs \<and> items = acc @ map (listed s) xs \<and> sorted_wrt (<) (prev # map sdo_Key xs) \<and> n + int (length xs) \<le> lim \<and>
    list_all (\<lambda>x. has_prefix (sdo_Key x) p \<and> sdo_Size x \<ge> 0 \<and> validETag (sdo_ETag x) \<and> (\<exists>k. store_key s (relative s (sdo_Key x)) = Inr k)) xs"
  using assms
proof (induction vs arbitrary: prev n acc w)
  case Nil
  then show ?case by (auto simp: andthen_Inr ret_def fail_def split: if_splits)
next
  case (Cons v vs)
  obtain x where v: "v = Inr x" using Cons.prems(1) by (cases v) (auto simp: fail_def)
  have c: "n + 1 \<le> lim" "has_prefix (sdo_Key x) p" "prev < sdo_Key x" "sdo_Size x \<ge> 0" "validETag (sdo_ETag x)" "\<exists>k. store_key s (relative s (sdo_Key x)) = Inr k"
    and rest: "list_loop C s p lim collect vs (sdo_Key x) (n + 1) (acc @ [listed s x]) w = (Inr items, w')"
    using Cons.prems(1) v by (auto simp: Let_def fail_def ret_andthen listed_def split: if_splits sum.splits)
  from Cons.IH[OF rest c(1)] obtain xs where xs: "vs = map Inr xs" "items = (acc @ [listed s x]) @ map (listed s) xs" "sorted_wrt (<) (sdo_Key x # map sdo_Key xs)"
    "n + 1 + int (length xs) \<le> lim"
    "list_all (\<lambda>x. has_prefix (sdo_Key x) p \<and> sdo_Size x \<ge> 0 \<and> validETag (sdo_ETag x) \<and> (\<exists>k. store_key s (relative s (sdo_Key x)) = Inr k)) xs" by blast
  then show ?case using c v by (intro exI[of _ "x # xs"]) (auto intro: less_trans)
qed

lemma listPrefix_shape:
  assumes "listPrefix s q = Inr p" "so_prefix s \<noteq> []"
  shows "has_prefix p (so_prefix s @ ''/'')"
  using assms by (auto simp: listPrefix_def Let_def has_prefix_def dest!: store_key_shape(3) split: if_splits)

lemma key_of_relative:
  assumes "listPrefix s q = Inr p" "has_prefix key p" "store_key s (relative s key) = Inr k"
  shows "k = key"
proof (cases "so_prefix s = []")
  case True
  then show ?thesis using store_key_shape(3)[OF assms(3)] by (simp add: relative_def)
next
  case False
  from listPrefix_shape[OF assms(1) False] obtain p' where p': "p = (so_prefix s @ ''/'') @ p'" unfolding has_prefix_iff by blast
  from assms(2) obtain q' where "key = p @ q'" unfolding has_prefix_iff by blast
  then have key: "key = (so_prefix s @ ''/'') @ p' @ q'" using p' by simp
  have "trim_prefix (a @ c) a = c" for a c by (simp add: trim_prefix_def has_prefix_def)
  then have "relative s key = p' @ q'" using False unfolding relative_def key by metis
  then show ?thesis using store_key_shape(3)[OF assms(3)] False key by simp
qed

text \<open>A listing that returns no error is the whole inventory of its prefix: the visited items are exactly the objects the SDK's iterator yielded, none of them an error,
  in strictly ascending order of their keys, at most the allowed number, each below the requested prefix, and the relative key of each leads back to its object.\<close>
theorem List_complete:
  "case Store_List C s q lim collect [] w of
     (Inl _, _) \<Rightarrow> True
   | (Inr items, _) \<Rightarrow> \<exists>p xs w1. listPrefix s q = Inr p \<and> co_ListObjects C p w = (map Inr xs, w1) \<and> items = map (listed s) xs \<and>
       sorted_wrt (<) (map sdo_Key xs) \<and> int (length xs) \<le> lim \<and> lim \<le> MaxInventory \<and>
       list_all (\<lambda>x. has_prefix (sdo_Key x) p \<and> store_key s (inf_Key (listed s x)) = Inr (sdo_Key x)) xs"
proof -
  obtain r w' where run: "Store_List C s q lim collect [] w = (r, w')" by (metis prod.exhaust)
  show ?thesis
  proof (cases r)
    case (Inl e)
    then show ?thesis using run by simp
  next
    case (Inr items)
    then obtain p vs w1 where p: "listPrefix s q = Inr p" "\<not> (lim < 1 \<or> lim > MaxInventory)" "co_ListObjects C p w = (vs, w1)"
      "list_loop C s p lim collect vs [] 0 [] w1 = (Inr items, w')"
      using run by (auto simp: Store_List_def andthen_Inr lift_def ask_def fail_def split: if_splits prod.splits)
    from list_loop_complete[OF p(4)] p(2) obtain xs where xs: "vs = map Inr xs" "items = map (listed s) xs" "sorted_wrt (<) (map sdo_Key xs)" "int (length xs) \<le> lim"
      "list_all (\<lambda>x. has_prefix (sdo_Key x) p \<and> (\<exists>k. store_key s (relative s (sdo_Key x)) = Inr k)) xs" by (auto simp: list_all_iff)
    have "list_all (\<lambda>x. has_prefix (sdo_Key x) p \<and> store_key s (inf_Key (listed s x)) = Inr (sdo_Key x)) xs"
      using xs(5) key_of_relative[OF p(1)] by (auto simp: list_all_iff listed_def info_of_def)
    then show ?thesis using Inr run p xs by auto
  qed
qed

section \<open>The network\<close>

text \<open>C20. The transport sends a request only to its own endpoint over TLS, and at most once unless it is an idempotent control read: everything but a GET without an object body and a HEAD, in
  particular every PUT, POST and DELETE, reaches the network at most once and control reads at most five times, all of them this request;
  absence of an object is reported only when a GET of the object was answered with 404 and a complete, well-formed \<open>NoSuchKey\<close> error document; and the connection
  slot is given back unless the returned body still streams.\<close>
theorem RoundTrip_sends:
  "case RoundTrip (passing C) (wtraced T) r (w, []) of (res, (w', tr)) \<Rightarrow>
     sends tr \<le> (if control_read r then 5 else 1) \<and> only_sends r tr \<and>
     (tr = [] \<or> rq_Scheme r = ''https'' \<and> rq_Host r = wi_endpoint T) \<and>
     wire_held tr = (if streaming res then 1 else 0) \<and>
     (case res of Inr _ \<Rightarrow> True | Inl e \<Rightarrow> if Is e NotFound then says_absent T r tr else True)"
proof -
  obtain res w' tr where run: "RoundTrip (passing C) (wtraced T) r (w, []) = (res, (w', tr))" by (metis prod.exhaust)
  consider (early) k where "res = Inl (failure k)" "k \<noteq> NotFound" "tr = []"
    | (retry) "control_read r" "retry_from (passing C) (once (wtraced T) r) 0 (failure Unknown) (w, []) = (res, (w', tr))" "rq_Scheme r = ''https''" "rq_Host r = wi_endpoint T"
    | (single) "\<not> control_read r" "once (wtraced T) r (w, []) = (res, (w', tr))" "rq_Scheme r = ''https''" "rq_Host r = wi_endpoint T"
    using run by (auto simp: RoundTrip_def control_read_def retryRead_def fail_def split: if_splits)
  then show ?thesis
  proof cases
    case early
    then show ?thesis using run by (simp add: only_sends_def wire_held_def streaming_def failure_def)
  next
    case retry
    have nd: "\<not> dataGet r" using retry(1) by (auto simp: control_read_def dataGet_def)
    have "ct.at_most is_send 1 (once (wtraced T) r)" by (rule ct.at_mostI) (use once_log in \<open>fastforce simp: attempt_ok_def\<close>)
    from ct.at_mostD[OF retry_at_most[OF passing_silent this] retry(2)] have "sends tr \<le> 5" by auto
    moreover from retry_wire[OF retry(2) _ nd] have "only_sends r tr" "wire_held tr = (if streaming res then 1 else 0)" "\<forall>e. res = Inl e \<longrightarrow> \<not> Is e NotFound"
      by (auto simp: failure_def)
    ultimately show ?thesis using run retry by (auto split: sum.split)
  next
    case single
    from once_log[OF single(2)] have "attempt_ok T r res tr" by auto
    then show ?thesis using run single by (auto simp: attempt_ok_def split: sum.split)
  qed
qed


section \<open>Examples\<close>

definition ex_new :: new_env where
  "ex_new = \<lparr>ne_parse = (\<lambda>_. Some \<lparr>url_Scheme = ''https'', url_Host = ''s3.example'', url_User = False, url_RawQuery = [], url_ForceQuery = False,
     url_Fragment = [], url_Path = [], url_RawPath = []\<rparr>), ne_express = (\<lambda>_ _. False), ne_amazon = (\<lambda>_. False), ne_bucketName = (\<lambda>_. True),
     ne_systemPool = True, ne_pem = (\<lambda>_. None), ne_core = True\<rparr>"

definition ex_store_config :: store_config where
  "ex_store_config = \<lparr>sc_Endpoint = ''https://s3.example'', sc_Bucket = ''backups'', sc_Prefix = ''prod/pg'', sc_Signature = ''v4'', sc_Addressing = ''path'',
     sc_Region = ''eu'', sc_AccessKey = ''a'', sc_SecretKey = ''b'', sc_SessionToken = [], sc_CA = [], sc_ConnectTimeout = 0, sc_MetadataTimeout = 0,
     sc_DataRequestTimeout = 0, sc_OperationTimeout = 0, sc_WALUploadTimeout = 0, sc_ArtifactUploads = 0, sc_PartWorkers = 0, sc_WALUploads = 1\<rparr>"

definition ex_store :: store where
  "ex_store = \<lparr>so_bucket = ''backups'', so_prefix = ''prod/pg'', so_metadataTimeout = 30 * second, so_operationTimeout = 86400 * second,
     so_walTimeout = 120 * second, so_artifacts = 2, so_wal = 1, so_workers = 2\<rparr>"

text \<open>A store without a world that accepts everything.\<close>

definition ex_sdk :: "unit sdk" where
  "ex_sdk = \<lparr>co_PutObject = (\<lambda>k b m h p w. (Inr \<lparr>sdu_Bucket = ''backups'', sdu_Key = k, sdu_ETag = ''e'', sdu_VersionID = []\<rparr>, w)),
     co_StatObject = (\<lambda>k w. (Inl SdkCanceled, w)), co_GetObject = (\<lambda>k w. (Inl SdkCanceled, w)), co_RemoveObject = (\<lambda>k w. (Inr (), w)),
     co_ListObjects = (\<lambda>p w. ([], w)), co_ListUploads = (\<lambda>p k u w. (Inl SdkCanceled, w)), co_ListParts = (\<lambda>k u n w. (Inl SdkCanceled, w)),
     co_NewUpload = (\<lambda>k p w. (Inr ''u'', w)), co_PutPart = (\<lambda>k u n b m w. (Inr ''e'', w)),
     co_Complete = (\<lambda>k u ps p w. (Inr \<lparr>sdu_Bucket = ''backups'', sdu_Key = k, sdu_ETag = ''e'', sdu_VersionID = []\<rparr>, w)),
     co_AbortUpload = (\<lambda>k u w. (Inr (), w)), co_Versioning = (\<lambda>w. (Inr [], w)), co_Lifecycle = (\<lambda>w. (Inr (Some 0), w)), co_ObjectLock = (\<lambda>w. (Inr [], w)),
     co_canceled = (\<lambda>w. (False, w)), co_sleep = (\<lambda>n w. (True, w)), co_slot = (\<lambda>s w. (True, w)), co_unslot = (\<lambda>s w. w),
     co_copy = (\<lambda>w. (True, w)), co_file = (\<lambda>w. (True, w)), co_rand = (\<lambda>w. (Some (replicate 16 0), w))\<rparr>"

lemma ex_NewStore: "NewStore ex_new ex_store_config = Inr ex_store"
  by code_simp

theorem keys_confined_witness: "validPath ''prod/pg/base.tar'' \<and> relative ex_store ''prod/pg/base.tar'' = ''base.tar''"
proof -
  have "store_key ex_store ''base.tar'' = Inr ''prod/pg/base.tar''" by code_simp
  from keys_confined[OF ex_NewStore this, of "[]"] show ?thesis by blast
qed

theorem UploadFile_whole_witness:
  "case UploadFile (straced ex_sdk) (seq_run (straced ex_sdk)) ex_store ''base.tar'' (Some \<lparr>sp_Bytes = ''abc'', sp_Stat = True, sp_Regular = True\<rparr>)
      \<lparr>itg_Size = 3, itg_SHA256 = digest ''abc''\<rparr> [] ((), []) of
     ((u, r), (w', tr)) \<Rightarrow> sent_once (err_of r) tr \<and> completed_whole ''abc'' tr \<and> held LocalArtifacts tr = 0"
proof -
  have "so_workers ex_store \<ge> 1" by (simp add: ex_store_def)
  from UploadFile_whole[OF seq_run_runs this, where C = ex_sdk and key = "''base.tar''" and f = "Some \<lparr>sp_Bytes = ''abc'', sp_Stat = True, sp_Regular = True\<rparr>"
      and expected = "\<lparr>itg_Size = 3, itg_SHA256 = digest ''abc''\<rparr>" and md = "[]" and w = "()" and x = LocalArtifacts]
  show ?thesis by (simp add: spool_bytes_def)
qed

theorem upload_workers_end_witness:
  "wfP (\<lambda>s2 s1. up_step ex_sdk ''k'' ''u'' ''abc'' s1 s2)"
  using upload_workers_end[OF rtranclp.rtrancl_refl, where C = ex_sdk and k = "''k''" and uid = "''u''" and b = "''abc''" and w = "()" and m = 2 and expected = "\<lparr>itg_Size = 3, itg_SHA256 = []\<rparr>"] by simp

end
