(* ===== verification/Writer_Properties.thy ===== *)
theory Writer_Properties
  imports Writer Store_Properties
begin

text \<open>
  The repository on the storage adapter: the contract the repository relies on and its
  interpretation on the adapter, and the lineage of an opened writer.
\<close>

section \<open>The contract of the store\<close>

text \<open>What the repository relies on: a download returns the bytes asked for, and a read is bounded and carries a usable entity tag.\<close>

locale honest_storage =
  fixes S :: "'w sys"
  assumes download_ok: "st_Download S k i w = (Inr (b, x), w') \<Longrightarrow> int (length b) = itg_Size i \<and> digest b = itg_SHA256 i"
    and read_ok: "st_Read S k n w = (Inr (b, x), w') \<Longrightarrow> int (length b) \<le> n \<and> inf_Size x = int (length b) \<and> validETag (inf_ETag x)"
begin

text \<open>The condition of a gate update is one the adapter accepts.\<close>

lemma gate_condition:
  assumes "readGate S r w = (Inr (g, x), w')"
  shows "\<exists>opts. put_options_for (Match (inf_ETag x)) [] = Inr opts \<and> po_IfMatch opts = inf_ETag x \<and> po_IfNoneMatch opts = []"
proof -
  from assms obtain b w1 where "st_Read S (gate_key r) gateLimit w = (Inr (b, x), w1)"
    by (auto simp: readGate_def andthen_Inr ret_def split: prod.splits)
  from read_ok[OF this] have "validETag (inf_ETag x)" by blast
  then show ?thesis by (auto simp: put_options_for_def artifactOptions_def validETag_def Let_def)
qed

text \<open>A manifest that does not verify was not delivered by the store: the download failed, or the operation was cancelled.\<close>

lemma manifest_verified:
  assumes "st_Download S (manifest_key r c) \<lparr>itg_Size = cmt_ManifestBytes c, itg_SHA256 = cmt_ManifestSHA256 c\<rparr> w = (Inr (b, x), w1)"
    "os_temp S w0 = (True, w)" "os_ctx S w1 = (False, w2)" "os_ctx S w2 = (False, w3)"
  shows "verify_manifest S r c w0 = (Inr (), w3)"
  using assms download_ok[OF assms(1)]
  by (simp add: verify_manifest_def downloadVerify_def verifyFile_def andthen_def attempt_def ctx_err_def raw_of_def ret_def)

end

section \<open>The adapter keeps it\<close>

lemma acquireData_ok:
  assumes "acquireData C loc glob m w = (Inr x, w')"
  obtains w1 w2 where "m w1 = (Inr x, w2)"
proof -
  obtain s1 where "attempt (acquire_slot C glob) (\<lambda>r. case r of Inl e \<Rightarrow> andthen (release_slot C loc) (\<lambda>_. fail e)
     | Inr _ \<Rightarrow> attempt m (\<lambda>r. andthen (release_slot C glob) (\<lambda>_. andthen (release_slot C loc) (\<lambda>_. lift r)))) s1 = (Inr x, w')"
    using assms unfolding acquireData_def andthen_Inr by blast
  moreover obtain r2 s2 where r2: "acquire_slot C glob s1 = (r2, s2)" by (metis prod.exhaust)
  ultimately have run: "(case r2 of Inl e \<Rightarrow> andthen (release_slot C loc) (\<lambda>_. fail e)
     | Inr _ \<Rightarrow> attempt m (\<lambda>r. andthen (release_slot C glob) (\<lambda>_. andthen (release_slot C loc) (\<lambda>_. lift r)))) s2 = (Inr x, w')"
    by (simp add: attempt_def)
  obtain r3 s3 where r3: "m s2 = (r3, s3)" by (metis prod.exhaust)
  have "r3 = Inr x" using run r3 by (cases r2) (auto simp: attempt_def andthen_def release_slot_def fail_def lift_def)
  then show thesis using r3 that by blast
qed

lemma Download_ok:
  assumes "Download C s k True i w = (Inr (b, x), w')"
  shows "int (length b) = itg_Size i \<and> digest b = itg_SHA256 i"
proof -
  obtain key w1 where "acquireData C LocalArtifacts ProcessArtifacts (retryRead C (download_once C k key i)) w1 = (Inr (b, x), w')"
    using assms by (auto simp: Download_def download_def andthen_Inr lift_def fail_def split: if_splits)
  then obtain w2 w3 where "retryRead C (download_once C k key i) w2 = (Inr (b, x), w3)" by (rule acquireData_ok)
  then show ?thesis unfolding retryRead_def by (rule retry_result) (drule download_once_ok, simp)
qed

lemma read_once_ok: "read_once C key k lim w = (Inr (b, x), w') \<Longrightarrow> int (length b) \<le> lim \<and> inf_Size x = int (length b) \<and> validETag (inf_ETag x)"
  by (auto simp: read_once_def andthen_Inr fail_def ret_def info_of_def transient_never split: if_splits prod.splits)

lemma Read_ok:
  assumes "Read C s k n w = (Inr (b, x), w')"
  shows "int (length b) \<le> n \<and> inf_Size x = int (length b) \<and> validETag (inf_ETag x)"
proof -
  obtain key w1 where "retry_from C (read_once C k key n) 0 (failure Unknown) w1 = (Inr (b, x), w')"
    using assms by (auto simp: Read_def retryRead_def andthen_Inr lift_def fail_def split: if_splits)
  then show ?thesis by (rule retry_result) (rule read_once_ok)
qed

interpretation adapter: honest_storage "store_sys C run s S"
  by unfold_locales (simp_all add: store_sys_def Download_ok Read_ok)


section \<open>Opening for writing\<close>

text \<open>Opening a repository for writing never adopts a foreign lineage: whatever the store answers, also under concurrent first writers and after an interrupted initialization,
  a returned repository has the expected repository identifier, PostgreSQL major version, system identifier, segment size and cluster; only the
  creation time may be another writer's. On the storage adapter the condition of its gate updates is always one the adapter accepts.\<close>
theorem OpenWriter_lineage:
  "(case OpenWriter S probe expected ws w of (Inl _, _) \<Rightarrow> True | (Inr r, _) \<Rightarrow> same_lineage expected (rp_id r)) \<and>
   (case readGate (store_sys C run s S) r w of (Inl _, _) \<Rightarrow> True
    | (Inr (g, x), _) \<Rightarrow> \<exists>opts. put_options_for (Match (inf_ETag x)) [] = Inr opts \<and> po_IfMatch opts = inf_ETag x \<and> po_IfNoneMatch opts = [])"
  using OpenWriter_id[of S probe expected ws w] adapter.gate_condition[of C run s S r w] by (auto split: prod.split sum.split)

end
