(* ===== verification/Go_Path.thy ===== *)
theory Go_Path
  imports Json
begin

text \<open>
  What the program uses of Go's \<open>path\<close>, \<open>path/filepath\<close> and of \<open>time.ParseDuration\<close>.
\<close>

section \<open>Paths\<close>

text \<open>\<open>path.Clean\<close>, element by element; the last argument is the output so far, last element first.\<close>

fun clean_elems :: "bool \<Rightarrow> string list \<Rightarrow> string list \<Rightarrow> string list" where
  "clean_elems rooted [] out = rev out"
| "clean_elems rooted (e # es) out =
     (if e = [] \<or> e = ''.'' then clean_elems rooted es out
      else if e = ''..'' then
        (if out \<noteq> [] \<and> hd out \<noteq> ''..'' then clean_elems rooted es (List.tl out)
         else if rooted then clean_elems rooted es out
         else clean_elems rooted es (e # out))
      else clean_elems rooted es (e # out))"

definition Clean :: "string \<Rightarrow> string" where
  "Clean p = (let rooted = has_prefix p ''/''; r = join_with (CHR ''/'') (clean_elems rooted (split_on (CHR ''/'') p) []) in
     if rooted then CHR ''/'' # r else if r = [] then ''.'' else r)"

definition IsAbs :: "string \<Rightarrow> bool" where
  "IsAbs p = has_prefix p ''/''"

text \<open>\<open>filepath.Join\<close>: the non-empty elements joined and cleaned.\<close>

definition path_join :: "string list \<Rightarrow> string" where
  "path_join ps = (case filter (\<lambda>p. p \<noteq> []) ps of [] \<Rightarrow> [] | qs \<Rightarrow> Clean (join_with (CHR ''/'') qs))"

text \<open>\<open>filepath.Base\<close>: the last element, after the trailing slashes are taken off.\<close>

definition path_base :: "string \<Rightarrow> string" where
  "path_base p = (if p = [] then ''.'' else
     let q = rev (dropWhile (\<lambda>c. c = CHR ''/'') (rev p)) in
     if q = [] then ''/'' else last (split_on (CHR ''/'') q))"

text \<open>\<open>filepath.Dir\<close>: all but the last element, cleaned.\<close>

definition path_dir :: "string \<Rightarrow> string" where
  "path_dir p = Clean (rev (dropWhile (\<lambda>c. c \<noteq> CHR ''/'') (rev p)))"

section \<open>Durations\<close>

text \<open>\<open>time.ParseDuration\<close>. \<open>lead_int\<close> is \<open>leadingInt\<close>, which fails above \<open>1<<63\<close>; \<open>lead_frac\<close> is
  \<open>leadingFraction\<close>, which drops the digits that no longer fit: the fraction, its scale and the
  rest. The fraction is scaled in \<open>float64\<close> arithmetic, which is the argument \<open>fl\<close>:
  \<open>fl f unit scale = uint64(float64(f) * (float64(unit) / scale))\<close>.\<close>

fun lead_int :: "string \<Rightarrow> int \<Rightarrow> (int \<times> string) option" where
  "lead_int [] x = Some (x, [])"
| "lead_int (c # s) x =
     (if \<not> is_digit 10 c then Some (x, c # s)
      else if x > 2 ^ 63 div 10 then None
      else let x = x * 10 + (of_char c - 48) in if x > 2 ^ 63 then None else lead_int s x)"

fun lead_frac :: "string \<Rightarrow> int \<Rightarrow> int \<Rightarrow> bool \<Rightarrow> int \<times> int \<times> string" where
  "lead_frac [] x scale full = (x, scale, [])"
| "lead_frac (c # s) x scale full =
     (if \<not> is_digit 10 c then (x, scale, c # s)
      else if full then lead_frac s x scale full
      else if x > (2 ^ 63 - 1) div 10 then lead_frac s x scale True
      else let y = x * 10 + (of_char c - 48) in
        if y > 2 ^ 63 then lead_frac s x scale True else lead_frac s y (scale * 10) full)"

definition duration_unit :: "string \<Rightarrow> int option" where
  "duration_unit u = map_of
     [(''ns'', 1), (''us'', 1000), ([CHR 0xC2, CHR 0xB5, CHR ''s''], 1000), ([CHR 0xCE, CHR 0xBC, CHR ''s''], 1000),
      (''ms'', 1000000), (''s'', 1000000000), (''m'', 60000000000), (''h'', 3600000000000)] u"

text \<open>One round of the loop: what it adds and the rest.\<close>

definition duration_round :: "(int \<Rightarrow> int \<Rightarrow> int \<Rightarrow> int) \<Rightarrow> string \<Rightarrow> (int \<times> string) option" where
  "duration_round fl s =
     (if s = [] \<or> \<not> (hd s = CHR ''.'' \<or> is_digit 10 (hd s)) then None
      else Option.bind (lead_int s 0) (\<lambda>(v, s1).
        let pre = (length s1 \<noteq> length s);
            (f, scale, s2) = (case s1 of c # t \<Rightarrow> if c = CHR ''.'' then lead_frac t 0 1 False else (0, 1, s1) | [] \<Rightarrow> (0, 1, s1));
            post = (case s1 of c # t \<Rightarrow> c = CHR ''.'' \<and> length s2 \<noteq> length t | [] \<Rightarrow> False);
            u = takeWhile (\<lambda>c. c \<noteq> CHR ''.'' \<and> \<not> is_digit 10 c) s2
        in if \<not> pre \<and> \<not> post \<or> u = [] then None
           else Option.bind (duration_unit u) (\<lambda>k.
             if v > 2 ^ 63 div k then None
             else let v = v * k + (if f > 0 then fl f k scale else 0) in
               if v > 2 ^ 63 then None else Some (v, drop (length u) s2))))"

lemma lead_int_length: "lead_int s x = Some (v, r) \<Longrightarrow> length r \<le> length s"
  by (induction s x rule: lead_int.induct) (auto simp: Let_def split: if_splits)

lemma lead_frac_length: "lead_frac s x sc b = (f, sc', r) \<Longrightarrow> length r \<le> length s"
  by (induction s x sc b rule: lead_frac.induct) (auto simp: Let_def split: if_splits)

lemma duration_round_shorter: "duration_round fl s = Some (v, r) \<Longrightarrow> length r < length s"
proof -
  assume a: "duration_round fl s = Some (v, r)"
  then obtain v1 s1 where l: "lead_int s 0 = Some (v1, s1)" by (auto simp: duration_round_def split: if_splits Option.bind_splits)
  obtain f sc s2 where p: "(case s1 of c # t \<Rightarrow> if c = CHR ''.'' then lead_frac t 0 1 False else (0, 1, s1) | [] \<Rightarrow> (0, 1, s1)) = (f, sc, s2)"
    by (metis prod_cases3)
  have "length s2 \<le> length s1" using p by (cases s1) (auto dest!: lead_frac_length split: if_splits)
  then have "length s2 \<le> length s" using lead_int_length[OF l] by simp
  moreover have "takeWhile (\<lambda>c. c \<noteq> CHR ''.'' \<and> \<not> is_digit 10 c) s2 \<noteq> []"
    "r = drop (length (takeWhile (\<lambda>c. c \<noteq> CHR ''.'' \<and> \<not> is_digit 10 c) s2)) s2"
    using a p l by (auto simp: duration_round_def Let_def split: if_splits Option.bind_splits prod.splits)
  moreover have "s2 \<noteq> []" using calculation(2) by auto
  ultimately show ?thesis by (cases s2) (auto split: if_splits)
qed

function duration_loop :: "(int \<Rightarrow> int \<Rightarrow> int \<Rightarrow> int) \<Rightarrow> string \<Rightarrow> int \<Rightarrow> int option" where
  "duration_loop fl s d =
     (if s = [] then Some d
      else case duration_round fl s of
        None \<Rightarrow> None
      | Some (v, r) \<Rightarrow> if d + v > 2 ^ 63 then None else duration_loop fl r (d + v))"
  by pat_completeness auto
termination
  by (relation "measure (\<lambda>(fl, s, d). length s)") (auto dest: duration_round_shorter)

declare duration_loop.simps [simp del]

definition ParseDuration :: "(int \<Rightarrow> int \<Rightarrow> int \<Rightarrow> int) \<Rightarrow> string \<Rightarrow> int option" where
  "ParseDuration fl orig = (let signed = (orig \<noteq> [] \<and> (hd orig = CHR ''-'' \<or> hd orig = CHR ''+'')); neg = has_prefix orig ''-'';
       s = (if signed then drop 1 orig else orig) in
     if s = ''0'' then Some 0
     else if s = [] then None
     else case duration_loop fl s 0 of
       None \<Rightarrow> None
     | Some d \<Rightarrow> if neg then Some (- d) else if d > 2 ^ 63 - 1 then None else Some d)"

section \<open>Clean paths\<close>

lemma join_split [simp]: "join_with c (split_on c s) = s"
proof (induction s)
  case (Cons x s)
  have "join_with c ((y # a) # as) = y # join_with c (a # as)" for y a as by (cases as) auto
  then show ?case using Cons split_on_nonempty[of c s] by (cases "split_on c s") auto
qed simp

lemma split_join: "xs \<noteq> [] \<Longrightarrow> \<forall>x \<in> set xs. c \<notin> set x \<Longrightarrow> split_on c (join_with c xs) = xs"
  by (induction c xs rule: join_with.induct) (auto simp: split_on_fresh split_on_app)

lemma split_on_free: "p \<in> set (split_on c s) \<Longrightarrow> c \<notin> set p"
proof (induction s arbitrary: p)
  case (Cons x s)
  then show ?case by (cases "split_on c s") (auto split: if_splits)
qed simp

text \<open>An element a clean path can have, and the shape of its element list: \<open>..\<close> only in front.\<close>

definition path_elem :: "string \<Rightarrow> bool" where
  "path_elem e \<longleftrightarrow> e \<noteq> [] \<and> e \<noteq> ''.''"

definition dots_first :: "string list \<Rightarrow> bool" where
  "dots_first es \<longleftrightarrow> list_all path_elem es \<and> (''..'' \<in> set es \<longrightarrow> hd es = ''..'')"

lemma clean_elems_shape:
  "list_all path_elem out \<Longrightarrow> (''..'' \<in> set out \<longrightarrow> last out = ''..'') \<Longrightarrow> dots_first (clean_elems rooted es out)"
proof (induction rooted es out rule: clean_elems.induct)
  case (1 rooted out)
  then show ?case by (auto simp: dots_first_def hd_rev list_all_iff)
next
  case (2 rooted e es out)
  consider "e = [] \<or> e = ''.''" | "e = ''..''" "out \<noteq> []" "hd out \<noteq> ''..''" | "e = ''..''" "out = [] \<or> hd out = ''..''"
    | "e \<notin> {[], ''.'', ''..''}" by auto
  then show ?case
  proof cases
    case 1 then show ?thesis using 2 by simp
  next
    case 2
    then obtain x ys where o: "out = x # ys" by (cases out) auto
    have "''..'' \<in> set ys \<longrightarrow> last ys = ''..''" using "2.prems" o 2 by (auto split: if_splits)
    then show ?thesis using "2.IH"(2) "2.prems" 2 o by simp
  next
    case 3
    then show ?thesis using "2.IH"(3,4) "2.prems" by (cases out) (auto simp: path_elem_def)
  next
    case 4
    then show ?thesis using "2.IH"(5) "2.prems" by (auto simp: path_elem_def)
  qed
qed

lemma clean_elems_plain: "list_all (\<lambda>e. path_elem e \<and> e \<noteq> ''..'') es \<Longrightarrow> clean_elems rooted es out = rev out @ es"
  by (induction rooted es out rule: clean_elems.induct) (auto simp: path_elem_def)

lemma clean_elems_free: "\<forall>e \<in> set es \<union> set out. c \<notin> set e \<Longrightarrow> e \<in> set (clean_elems rooted es out) \<Longrightarrow> c \<notin> set e"
proof (induction rooted es out rule: clean_elems.induct)
  case (2 rooted e es out)
  then show ?case by (cases out) (auto split: if_splits)
qed auto

lemma join_with_Nil: "join_with c xs = [] \<longleftrightarrow> xs = [] \<or> xs = [[]]"
  by (induction c xs rule: join_with.induct) auto

text \<open>A relative path other than \<open>.\<close> that \<open>path.Clean\<close> leaves alone.\<close>

lemma Clean_relative:
  assumes c: "Clean p = p" and r: "\<not> has_prefix p ''/''" and d: "p \<noteq> ''.''"
  shows "dots_first (split_on (CHR ''/'') p)"
proof -
  let ?es = "clean_elems False (split_on (CHR ''/'') p) []"
  have s: "dots_first ?es" by (rule clean_elems_shape) auto
  have p: "p = join_with (CHR ''/'') ?es" and ne: "?es \<noteq> []"
    using c r d by (auto simp: Clean_def Let_def split: if_splits)
  have "split_on (CHR ''/'') (join_with (CHR ''/'') ?es) = ?es"
    by (rule split_join[OF ne]) (auto dest: clean_elems_free[rotated] split_on_free)
  then show ?thesis using s p by metis
qed

lemma Clean_plain:
  assumes "list_all (\<lambda>e. path_elem e \<and> e \<noteq> ''..'') (split_on (CHR ''/'') p)" "\<not> has_prefix p ''/''"
  shows "Clean p = p"
proof -
  have "p \<noteq> []" using assms(1) by (auto simp: path_elem_def)
  then show ?thesis using assms(2) clean_elems_plain[OF assms(1), of False "[]"] by (simp add: Clean_def Let_def)
qed

end
