(* ===== verification/Config_Spec.thy ===== *)
theory Config_Spec
  imports Go_Path Go_Digest Store_Text
begin

text \<open>
  The Repository document (configuration/repository.go): its defaults, its validation and the
  strict decoding of configuration JSON. Kubernetes' name checks and resource quantities and
  \<open>net/url\<close> are the fields of \<open>config_env\<close>; \<open>'q\<close> is the type of a quantity.
\<close>

section \<open>The document\<close>

definition GiB :: int where
  "GiB = 1073741824"

record selector =
  sel_Name :: string
  sel_Key :: string

record s3_spec =
  s3_Endpoint :: string
  s3_Bucket :: string
  s3_Prefix :: string
  s3_Signature :: string
  s3_Addressing :: string
  s3_Region :: string
  s3_AccessKeySecret :: selector
  s3_SecretKeySecret :: selector
  s3_SessionTokenSecret :: "selector option"
  s3_CAConfigMap :: "selector option"
  s3_Encryption :: string

record io_spec =
  io_ConnectTimeout :: string
  io_MetadataTimeout :: string
  io_DataRequestTimeout :: string
  io_OperationTimeout :: string
  io_WALUploadTimeout :: string
  io_ArtifactUploads :: int
  io_PartWorkers :: int
  io_WALUploads :: int

record retention_spec =
  rt_Enabled :: bool
  rt_DryRun :: bool
  rt_Window :: string
  rt_MinimumFulls :: int
  rt_Interval :: string

record workspace_spec =
  ws_StorageClassName :: string
  ws_Size :: string

record native_spec =
  nv_MaxBackupBytes :: int
  nv_MaxBootstrapWALBytes :: int
  nv_MaxRestoredBytes :: int
  nv_MaxReferenceAge :: string
  nv_CaptureTimeout :: string

record freshness_spec =
  fr_FullMaxAge :: string
  fr_DifferentialMaxAge :: string

text \<open>What the code reads of \<open>core.ResourceRequirements\<close>.\<close>

record 'q resource_spec =
  rq_Requests :: "(string \<times> 'q) list"
  rq_Limits :: "(string \<times> 'q) list"
  rq_Claims :: "string list"

record 'q repo_spec =
  sp_RepositoryID :: string
  sp_S3 :: s3_spec
  sp_Compression :: string
  sp_IO :: io_spec
  sp_Retention :: retention_spec
  sp_Workspace :: workspace_spec
  sp_Native :: native_spec
  sp_Resources :: "'q resource_spec"
  sp_BackupFreshness :: freshness_spec

text \<open>\<open>ce_dns\<close> and \<open>ce_key\<close> are whether \<open>validation.IsDNS1123Subdomain\<close> and \<open>IsConfigMapKey\<close> find no
  fault, \<open>ce_quantity\<close> is \<open>resource.ParseQuantity\<close>, \<open>ce_must\<close> its \<open>MustParse\<close> on the constants of the
  source, and \<open>ce_float\<close> the floating point step of \<open>time.ParseDuration\<close>.\<close>

record 'q config_env =
  ce_url :: "string \<Rightarrow> parsed_url option"
  ce_dns :: "string \<Rightarrow> bool"
  ce_key :: "string \<Rightarrow> bool"
  ce_quantity :: "string \<Rightarrow> 'q option"
  ce_must :: "string \<Rightarrow> 'q"
  ce_value :: "'q \<Rightarrow> int"
  ce_sign :: "'q \<Rightarrow> int"
  ce_cmp :: "'q \<Rightarrow> 'q \<Rightarrow> int"
  ce_float :: "int \<Rightarrow> int \<Rightarrow> int \<Rightarrow> int"

definition no_selector :: selector where
  "no_selector = \<lparr>sel_Name = [], sel_Key = []\<rparr>"

definition Defaults :: "'q config_env \<Rightarrow> 'q repo_spec" where
  "Defaults E = \<lparr>sp_RepositoryID = [],
     sp_S3 = \<lparr>s3_Endpoint = [], s3_Bucket = [], s3_Prefix = [], s3_Signature = ''v4'', s3_Addressing = ''path'', s3_Region = ''us-east-1'',
       s3_AccessKeySecret = no_selector, s3_SecretKeySecret = no_selector, s3_SessionTokenSecret = None, s3_CAConfigMap = None, s3_Encryption = ''bucket-default''\<rparr>,
     sp_Compression = ''gzip'',
     sp_IO = \<lparr>io_ConnectTimeout = ''10s'', io_MetadataTimeout = ''30s'', io_DataRequestTimeout = ''15m'', io_OperationTimeout = ''24h'', io_WALUploadTimeout = ''120s'',
       io_ArtifactUploads = 2, io_PartWorkers = 2, io_WALUploads = 2\<rparr>,
     sp_Retention = \<lparr>rt_Enabled = False, rt_DryRun = True, rt_Window = [], rt_MinimumFulls = 2, rt_Interval = ''1h''\<rparr>,
     sp_Workspace = \<lparr>ws_StorageClassName = [], ws_Size = ''256Gi''\<rparr>,
     sp_Native = \<lparr>nv_MaxBackupBytes = 32 * GiB, nv_MaxBootstrapWALBytes = 8 * GiB, nv_MaxRestoredBytes = 32 * GiB, nv_MaxReferenceAge = ''192h'', nv_CaptureTimeout = ''6h''\<rparr>,
     sp_Resources = \<lparr>rq_Requests = [(''cpu'', ce_must E ''100m''), (''memory'', ce_must E ''256Mi'')], rq_Limits = [(''cpu'', ce_must E ''2''), (''memory'', ce_must E ''3Gi'')], rq_Claims = []\<rparr>,
     sp_BackupFreshness = \<lparr>fr_FullMaxAge = [], fr_DifferentialMaxAge = []\<rparr>\<rparr>"

section \<open>Validate\<close>

definition duration_in :: "'q config_env \<Rightarrow> string \<Rightarrow> int \<Rightarrow> int \<Rightarrow> bool" where
  "duration_in E v lo hi = (case ParseDuration (ce_float E) v of None \<Rightarrow> False | Some d \<Rightarrow> lo \<le> d \<and> d \<le> hi)"

definition Selector_Validate :: "'q config_env \<Rightarrow> selector \<Rightarrow> bool" where
  "Selector_Validate E s \<longleftrightarrow> ce_dns E (sel_Name s) \<and> sel_Name s \<noteq> [] \<and> ce_key E (sel_Key s) \<and> sel_Key s \<noteq> []"

text \<open>\<open>url.Hostname\<close>: the host without a valid port and without the brackets of an IP literal.\<close>

definition optional_port :: "string \<Rightarrow> bool" where
  "optional_port p \<longleftrightarrow> p = [] \<or> hd p = CHR '':'' \<and> list_all (is_digit 10) (drop 1 p)"

definition Hostname :: "string \<Rightarrow> string" where
  "Hostname host = (let port = rev (takeWhile (\<lambda>c. c \<noteq> CHR '':'') (rev host));
       h = (if CHR '':'' \<in> set host \<and> optional_port (CHR '':'' # port) then take (length host - length port - 1) host else host) in
     if has_prefix h ''['' \<and> has_suffix h '']'' then take (length h - 2) (drop 1 h) else h)"

definition endpoint_ok :: "'q config_env \<Rightarrow> string \<Rightarrow> bool" where
  "endpoint_ok E v = (case ce_url E v of
     None \<Rightarrow> False
   | Some u \<Rightarrow> url_Scheme u = ''https'' \<and> url_Host u \<noteq> [] \<and> Hostname (url_Host u) \<noteq> [] \<and> \<not> url_User u \<and> url_RawQuery u = [] \<and> \<not> url_ForceQuery u \<and>
       url_Fragment u = [] \<and> url_RawPath u = [] \<and> (url_Path u = [] \<or> url_Path u = ''/''))"

definition prefix_ok :: "string \<Rightarrow> bool" where
  "prefix_ok p \<longleftrightarrow> p \<noteq> [] \<and> length p \<le> 128 \<and> Clean p = p \<and> \<not> has_prefix p ''/'' \<and> \<not> contains_any p [CHR 0x5c, CHR ''%'', CHR ''?'', CHR ''#''] \<and>
     p \<noteq> ''.'' \<and> p \<noteq> ''..'' \<and> \<not> has_prefix p ''../''"

definition durations :: "'q repo_spec \<Rightarrow> (string \<times> int \<times> int) list" where
  "durations s =
     [(io_ConnectTimeout (sp_IO s), second, 60 * second), (io_MetadataTimeout (sp_IO s), second, 120 * second),
      (io_DataRequestTimeout (sp_IO s), 10 * second, 3600 * second), (io_OperationTimeout (sp_IO s), 60 * second, 604800 * second),
      (io_WALUploadTimeout (sp_IO s), 10 * second, 900 * second), (nv_MaxReferenceAge (sp_Native s), 3600 * second, 2592000 * second),
      (nv_CaptureTimeout (sp_Native s), 60 * second, 21600 * second), (rt_Interval (sp_Retention s), 300 * second, 86400 * second)]"

definition ten_years :: int where
  "ten_years = 3650 * 86400 * second"

definition retention_ok :: "'q config_env \<Rightarrow> retention_spec \<Rightarrow> bool" where
  "retention_ok E r \<longleftrightarrow> 1 \<le> rt_MinimumFulls r \<and> rt_MinimumFulls r \<le> 100 \<and> \<not> (rt_Enabled r \<and> rt_Window r = []) \<and>
     (rt_Window r = [] \<or> duration_in E (rt_Window r) (3600 * second) ten_years)"

definition native_ok :: "native_spec \<Rightarrow> bool" where
  "native_ok n \<longleftrightarrow> 1 \<le> nv_MaxBackupBytes n \<and> nv_MaxBackupBytes n \<le> 1024 * GiB \<and> 1 \<le> nv_MaxBootstrapWALBytes n \<and>
     nv_MaxBootstrapWALBytes n \<le> 256 * GiB \<and> nv_MaxBootstrapWALBytes n \<le> nv_MaxBackupBytes n \<and>
     1 \<le> nv_MaxRestoredBytes n \<and> nv_MaxRestoredBytes n \<le> 1024 * GiB"

definition workspace_ok :: "'q config_env \<Rightarrow> workspace_spec \<Rightarrow> bool" where
  "workspace_ok E w = (case ce_quantity E (ws_Size w) of
     None \<Rightarrow> False
   | Some q \<Rightarrow> GiB \<le> ce_value E q \<and> ce_value E q \<le> 8192 * GiB \<and> ws_StorageClassName w \<noteq> [] \<and> ce_dns E (ws_StorageClassName w))"

definition resource_ok :: "'q config_env \<Rightarrow> 'q resource_spec \<Rightarrow> string \<times> string \<Rightarrow> bool" where
  "resource_ok E r = (\<lambda>(name, lim). case (map_of (rq_Requests r) name, map_of (rq_Limits r) name) of
     (Some q, Some l) \<Rightarrow> ce_sign E q > 0 \<and> ce_sign E l > 0 \<and> ce_cmp E q l \<le> 0 \<and> ce_cmp E l (ce_must E lim) \<le> 0
   | _ \<Rightarrow> False)"

text \<open>The tests in the order of the code, each with the field it names.\<close>

definition spec_checks :: "'q config_env \<Rightarrow> 'q repo_spec \<Rightarrow> (bool \<times> string) list" where
  "spec_checks E s = (let c = sp_S3 s; r = sp_Resources s in
     [(uuidRE (sp_RepositoryID s), ''repositoryID''),
      (endpoint_ok E (s3_Endpoint c), ''s3.endpoint''),
      (ce_dns E (s3_Bucket c) \<and> 3 \<le> length (s3_Bucket c) \<and> length (s3_Bucket c) \<le> 63, ''s3.bucket''),
      (prefix_ok (s3_Prefix c), ''s3.prefix''),
      (plain (s3_Prefix c), ''s3.prefix''),
      (s3_Signature c = ''v2'' \<or> s3_Signature c = ''v4'', ''s3.signature''),
      (s3_Addressing c = ''path'' \<and> s3_Encryption c = ''bucket-default'' \<and> s3_Region c \<noteq> [] \<and> length (s3_Region c) \<le> 64, ''s3.addressing/encryption/region''),
      (Selector_Validate E (s3_AccessKeySecret c) \<and> Selector_Validate E (s3_SecretKeySecret c), ''s3 credential references''),
      (case s3_SessionTokenSecret c of None \<Rightarrow> True | Some t \<Rightarrow> s3_Signature c = ''v4'' \<and> Selector_Validate E t, ''s3.sessionTokenSecret''),
      (case s3_CAConfigMap c of None \<Rightarrow> True | Some t \<Rightarrow> Selector_Validate E t, ''s3.caConfigMap''),
      (sp_Compression s = ''gzip'' \<or> sp_Compression s = ''none'', ''compression'')] @
     map (\<lambda>(v, lo, hi). (duration_in E v lo hi, ''duration bounds'')) (durations s) @
     map (\<lambda>n. (1 \<le> n \<and> n \<le> 2, ''io concurrency'')) [io_ArtifactUploads (sp_IO s), io_PartWorkers (sp_IO s), io_WALUploads (sp_IO s)] @
     [(retention_ok E (sp_Retention s), ''retention'')] @
     map (\<lambda>v. (v = [] \<or> duration_in E v (60 * second) ten_years, ''backupFreshness''))
       [fr_FullMaxAge (sp_BackupFreshness s), fr_DifferentialMaxAge (sp_BackupFreshness s)] @
     [(native_ok (sp_Native s), ''native byte budgets''),
      (workspace_ok E (sp_Workspace s), ''workspace''),
      (rq_Claims r = [] \<and> length (rq_Requests r) = 2 \<and> length (rq_Limits r) = 2, ''resources'')] @
     map (\<lambda>v. (resource_ok E r v, ''resources'')) [(''cpu'', ''2''), (''memory'', ''3Gi'')])"

fun first_failed :: "(bool \<times> string) list \<Rightarrow> err + unit" where
  "first_failed [] = Inr ()"
| "first_failed ((ok, field) # cs) = (if ok then first_failed cs else Inl (PlainErr (''invalid Repository.spec.'' @ field)))"

definition Spec_Validate :: "'q config_env \<Rightarrow> 'q repo_spec \<Rightarrow> err + unit" where
  "Spec_Validate E s = first_failed (spec_checks E s)"

lemma first_failed_ok: "first_failed cs = Inr u \<longleftrightarrow> list_all fst cs"
  by (induction cs rule: first_failed.induct) auto

section \<open>Strict JSON\<close>

text \<open>\<open>Decoder.Token\<close> turns a number into a \<open>float64\<close> and fails out of its range: when the value is at
  least half a unit in the last place above the largest finite number. The exponent is read as
  \<open>strconv\<close> does, which stops adding digits at 10000.\<close>

definition clamped_exp :: "string \<Rightarrow> int" where
  "clamped_exp ds = foldl (\<lambda>e c. if e < 10000 then e * 10 + (of_char c - 48) else e) 0 ds"

definition float_range :: "string \<Rightarrow> bool" where
  "float_range s = (let s = trim_prefix s ''-'';
       m = takeWhile (\<lambda>c. c \<noteq> CHR ''e'' \<and> c \<noteq> CHR ''E'') s;
       x = drop (length m + 1) s;
       ex = (if has_prefix x ''-'' then - clamped_exp (drop 1 x) else clamped_exp (trim_prefix x ''+''));
       i = takeWhile (\<lambda>c. c \<noteq> CHR ''.'') m;
       f = drop (length i + 1) m;
       k = ex - int (length f);
       v = of_base 10 (map (\<lambda>c. of_char c - 48) (i @ f));
       top = 2 ^ 1024 - 2 ^ 970 in
     if k \<ge> 0 then v * 10 ^ nat k < top else v < top * 10 ^ nat (- k))"

text \<open>The recursive \<open>scan\<close>, on the value the tokens spell.\<close>

fun scan_ok :: "nat \<Rightarrow> json \<Rightarrow> bool" where
  "scan_ok depth (JObj ms) \<longleftrightarrow> depth \<le> 32 \<and> distinct (map fst ms) \<and> (\<forall>(k, v) \<in> set ms. scan_ok (depth + 1) v)"
| "scan_ok depth (JArr vs) \<longleftrightarrow> depth \<le> 32 \<and> (\<forall>v \<in> set vs. scan_ok (depth + 1) v)"
| "scan_ok depth (JNum n) \<longleftrightarrow> depth \<le> 32 \<and> float_range n"
| "scan_ok depth _ \<longleftrightarrow> depth \<le> 32"

text \<open>\<open>dec\<close> is the typed decoder of the destination with \<open>DisallowUnknownFields\<close>.\<close>

definition StrictJSONLimit :: "(bytes \<Rightarrow> 'a option) \<Rightarrow> bytes \<Rightarrow> int \<Rightarrow> err + 'a" where
  "StrictJSONLimit dec data maxBytes =
     (if maxBytes \<le> 0 \<or> int (length data) > maxBytes \<or> \<not> utf8_valid data then Inl (PlainErr ''invalid bounded JSON'')
      else case parse_value (2 * length data + 1) data of
        None \<Rightarrow> Inl (PlainErr ''invalid JSON document'')
      | Some (j, rest) \<Rightarrow>
         if \<not> scan_ok 0 j then Inl (PlainErr ''invalid JSON document'')
         else if skip_ws rest \<noteq> [] then Inl (PlainErr ''trailing JSON document'')
         else case dec data of None \<Rightarrow> Inl (PlainErr ''invalid or unknown configuration field'') | Some x \<Rightarrow> Inr x)"

definition StrictJSON :: "(bytes \<Rightarrow> 'a option) \<Rightarrow> bytes \<Rightarrow> err + 'a" where
  "StrictJSON dec data = StrictJSONLimit dec data 262144"

text \<open>\<open>dec s data\<close> decodes into \<open>s\<close>: members the document leaves out keep their value.\<close>

definition DecodeSpec :: "'q config_env \<Rightarrow> ('q repo_spec \<Rightarrow> bytes \<Rightarrow> 'q repo_spec option) \<Rightarrow> bytes \<Rightarrow> err + 'q repo_spec" where
  "DecodeSpec E dec data =
     res_bind (StrictJSON (dec (Defaults E)) data) (\<lambda>s.
     res_bind (Spec_Validate E s) (\<lambda>_. Inr s))"

definition Spec_Hash :: "('q repo_spec \<Rightarrow> bytes) \<Rightarrow> 'q repo_spec \<Rightarrow> string" where
  "Spec_Hash marshal s = digest (marshal s)"

definition SameStorage :: "'q repo_spec \<Rightarrow> 'q repo_spec \<Rightarrow> bool" where
  "SameStorage s t \<longleftrightarrow> sp_RepositoryID s = sp_RepositoryID t \<and> s3_Endpoint (sp_S3 s) = s3_Endpoint (sp_S3 t) \<and> s3_Bucket (sp_S3 s) = s3_Bucket (sp_S3 t) \<and>
     s3_Prefix (sp_S3 s) = s3_Prefix (sp_S3 t) \<and> s3_Signature (sp_S3 s) = s3_Signature (sp_S3 t) \<and> s3_Addressing (sp_S3 s) = s3_Addressing (sp_S3 t) \<and>
     s3_Region (sp_S3 s) = s3_Region (sp_S3 t)"

section \<open>What validation gives\<close>

text \<open>The prefix test of the document is the path test of the storage adapter, with its length.\<close>

lemma prefix_contract: "prefix_ok p \<and> plain p \<longleftrightarrow> validPath p \<and> length p \<le> 128"
proof
  assume a: "prefix_ok p \<and> plain p"
  then have d: "dots_first (split_on (CHR ''/'') p)" by (intro Clean_relative) (auto simp: prefix_ok_def)
  have "''..'' \<notin> set (split_on (CHR ''/'') p)"
  proof
    assume "''..'' \<in> set (split_on (CHR ''/'') p)"
    then have "hd (split_on (CHR ''/'') p) = ''..''" using d by (simp add: dots_first_def)
    then obtain es where es: "split_on (CHR ''/'') p = ''..'' # es" by (metis list.collapse split_on_nonempty)
    then have "p = ''..'' \<or> has_prefix p ''../''"
      using join_split[of "CHR ''/''" p] by (cases es) (auto simp: has_prefix_iff)
    then show False using a by (auto simp: prefix_ok_def)
  qed
  then show "validPath p \<and> length p \<le> 128" using a d by (auto simp: prefix_ok_def validPath_def dots_first_def path_elem_def list_all_iff)
next
  assume a: "validPath p \<and> length p \<le> 128"
  then have e: "list_all (\<lambda>e. path_elem e \<and> e \<noteq> ''..'') (split_on (CHR ''/'') p)" by (auto simp: validPath_def path_elem_def list_all_iff)
  have h: "q \<noteq> [] \<and> q \<noteq> ''.'' \<and> q \<noteq> ''..''" if "split_on (CHR ''/'') p = q # qs" for q qs using e that by (auto simp: path_elem_def)
  have "\<not> has_prefix p ''/''" using h by (fastforce simp: has_prefix_iff)
  moreover have "\<not> has_prefix p ''../''" using h by (fastforce simp: has_prefix_iff)
  moreover have "p \<noteq> ''.''" "p \<noteq> ''..''" using h by auto
  ultimately show "prefix_ok p \<and> plain p" using a Clean_plain[OF e] by (auto simp: prefix_ok_def validPath_def)
qed

end
