(* ===== verification/Config_Snapshot.thy ===== *)
theory Config_Snapshot
  imports Config_Spec Storage
begin

text \<open>
  Credential and trust snapshots (configuration/snapshot.go, native.go, store.go, authorize.go):
  each operation opens one generation of a kubelet projection and reads every member through it.
  File descriptors are numbers. \<open>crypto/x509\<close>, \<open>crypto/tls\<close> and \<open>encoding/pem\<close> are the fields of
  \<open>trust_env\<close>; \<open>'c\<close> is the type of a parsed certificate.
\<close>

section \<open>Reading a projection\<close>

text \<open>\<open>pj_open\<close> opens a path below a root, \<open>pj_read f n\<close> is \<open>io.ReadAll\<close> of at most \<open>n\<close> bytes, \<open>pj_stat\<close> is
  whether the file exists, or the error other than absence.\<close>

record 'w proj_sys =
  pj_eval :: "string \<Rightarrow> ('w, string) act"
  pj_root :: "string \<Rightarrow> ('w, nat) act"
  pj_open :: "nat \<Rightarrow> string \<Rightarrow> ('w, nat) act"
  pj_read :: "nat \<Rightarrow> int \<Rightarrow> ('w, bytes) act"
  pj_stat :: "nat \<Rightarrow> string \<Rightarrow> ('w, bool) act"
  pj_pool :: "('w, unit) act"
  pj_now :: "'w \<Rightarrow> instant \<times> 'w"

definition Projection :: "'w proj_sys \<Rightarrow> string \<Rightarrow> ('w, nat) act" where
  "Projection P directory =
     attempt (pj_eval P (path_join [directory, ''..data''])) (\<lambda>r. case r of
       Inl _ \<Rightarrow> fail (PlainErr ''projection generation unavailable'')
     | Inr generation \<Rightarrow> pj_root P generation)"

definition Proj_Read :: "'w proj_sys \<Rightarrow> nat \<Rightarrow> string \<Rightarrow> int \<Rightarrow> ('w, bytes) act" where
  "Proj_Read P root path limit =
     attempt (pj_open P root path) (\<lambda>r. case r of
       Inl _ \<Rightarrow> fail (PlainErr ''projected input missing'')
     | Inr f \<Rightarrow> attempt (pj_read P f (limit + 1)) (\<lambda>r. case r of
         Inl _ \<Rightarrow> fail (PlainErr ''projected input exceeds limit'')
       | Inr b \<Rightarrow> if int (length b) > limit then fail (PlainErr ''projected input exceeds limit'') else ret b))"

section \<open>Trust\<close>

text \<open>\<open>tx_pem\<close> decodes the next block: its type, its bytes and the rest. \<open>tx_pair\<close> is \<open>tls.X509KeyPair\<close>:
  the certificate chain as DER. \<open>tx_verify now roots intermediates leaf\<close> is \<open>Certificate.Verify\<close> with
  the client authentication usage.\<close>

record 'c pool =
  cp_system :: bool
  cp_certs :: "'c list"

record 'c trust_env =
  tx_pem :: "bytes \<Rightarrow> (string \<times> bytes \<times> bytes) option"
  tx_parse :: "bytes \<Rightarrow> 'c option"
  tx_isCA :: "'c \<Rightarrow> bool"
  tx_notBefore :: "'c \<Rightarrow> instant"
  tx_notAfter :: "'c \<Rightarrow> instant"
  tx_name :: "'c \<Rightarrow> string"
  tx_pair :: "bytes \<Rightarrow> bytes \<Rightarrow> bytes list option"
  tx_verify :: "instant \<Rightarrow> 'c pool \<Rightarrow> 'c list \<Rightarrow> 'c \<Rightarrow> bool"

text \<open>\<open>time.Now().Before(NotBefore) || !time.Now().Before(NotAfter)\<close>: the clock is read again for the second test.\<close>

definition valid_now :: "'w proj_sys \<Rightarrow> 'c trust_env \<Rightarrow> 'c \<Rightarrow> ('w, bool) act" where
  "valid_now P X c w = (case pj_now P w of (t, w) \<Rightarrow>
     if t < tx_notBefore X c then (Inr False, w)
     else case pj_now P w of (t, w) \<Rightarrow> (Inr (t < tx_notAfter X c), w))"

text \<open>The bundle loop. \<open>pem.Decode\<close> returns a rest shorter than its input, so one round per byte is enough.\<close>

fun pool_loop :: "nat \<Rightarrow> 'w proj_sys \<Rightarrow> 'c trust_env \<Rightarrow> bytes \<Rightarrow> 'c pool \<Rightarrow> nat \<Rightarrow> ('w, 'c pool \<times> nat) act" where
  "pool_loop n P X [] pool k = ret (pool, k)"
| "pool_loop 0 P X data pool k = fail (PlainErr ''invalid CA bundle'')"
| "pool_loop (Suc n) P X data pool k = (case tx_pem X data of
     None \<Rightarrow> fail (PlainErr ''invalid CA bundle'')
   | Some (ty, der, rest) \<Rightarrow>
      if ty \<noteq> ''CERTIFICATE'' then fail (PlainErr ''invalid CA bundle'')
      else case tx_parse X der of
        None \<Rightarrow> fail (PlainErr ''invalid or expired CA'')
      | Some c \<Rightarrow> if \<not> tx_isCA X c then fail (PlainErr ''invalid or expired CA'')
          else andthen (valid_now P X c) (\<lambda>ok.
            if \<not> ok then fail (PlainErr ''invalid or expired CA'')
            else pool_loop n P X rest (pool\<lparr>cp_certs := cp_certs pool @ [c]\<rparr>) (k + 1)))"

definition CAPool :: "'w proj_sys \<Rightarrow> 'c trust_env \<Rightarrow> bytes \<Rightarrow> bool \<Rightarrow> ('w, 'c pool) act" where
  "CAPool P X data system =
     andthen (if system then attempt (pj_pool P) (\<lambda>r. case r of Inl _ \<Rightarrow> fail (PlainErr ''system trust unavailable'') | Inr _ \<Rightarrow> ret ()) else ret ()) (\<lambda>_.
     andthen (pool_loop (length data) P X data \<lparr>cp_system = system, cp_certs = []\<rparr> 0) (\<lambda>(pool, k).
     if k = 0 then fail (PlainErr ''empty CA bundle'') else ret pool))"

definition VerifyClient :: "'w proj_sys \<Rightarrow> 'c trust_env \<Rightarrow> 'c list \<Rightarrow> 'c pool \<Rightarrow> string \<Rightarrow> ('w, unit) act" where
  "VerifyClient P X chain roots name w = (case chain of
     [] \<Rightarrow> (Inl (PlainErr ''unexpected manager client identity''), w)
   | leaf # rest \<Rightarrow>
      if tx_name X leaf \<noteq> name then (Inl (PlainErr ''unexpected manager client identity''), w)
      else case pj_now P w of (t, w) \<Rightarrow>
        if tx_verify X t roots rest leaf then (Inr (), w) else (Inl (PlainErr ''untrusted manager client''), w))"

section \<open>Repository snapshots\<close>

record 'q snapshot =
  sn_Spec :: "'q repo_spec"
  sn_AccessKey :: bytes
  sn_SecretKey :: bytes
  sn_SessionToken :: bytes
  sn_CA :: bytes

definition read_secret :: "'w proj_sys \<Rightarrow> nat \<Rightarrow> string \<Rightarrow> string \<Rightarrow> ('w, bytes) act" where
  "read_secret P root path what =
     attempt (Proj_Read P root path 65536) (\<lambda>r. case r of
       Inl _ \<Rightarrow> fail (PlainErr what)
     | Inr b \<Rightarrow> if b = [] then fail (PlainErr what) else ret b)"

definition read_trust :: "'w proj_sys \<Rightarrow> 'c trust_env \<Rightarrow> nat \<Rightarrow> string \<Rightarrow> selector option \<Rightarrow> ('w, bytes) act" where
  "read_trust P X root role sel = (case sel of
     Some _ \<Rightarrow>
       andthen (Proj_Read P root (role @ ''/ca.crt'') 262144) (\<lambda>data.
       attempt (CAPool P X data True) (\<lambda>r. case r of Inl _ \<Rightarrow> fail (PlainErr ''invalid trust snapshot'') | Inr _ \<Rightarrow> ret data))
   | None \<Rightarrow> attempt (pj_pool P) (\<lambda>r. case r of Inl _ \<Rightarrow> fail (PlainErr ''invalid trust snapshot'') | Inr _ \<Rightarrow> ret []))"

definition loadRepositorySnapshot :: "'w proj_sys \<Rightarrow> 'c trust_env \<Rightarrow> (bytes \<Rightarrow> err + 'q repo_spec) \<Rightarrow> nat \<Rightarrow> string \<Rightarrow> ('w, 'q snapshot) act" where
  "loadRepositorySnapshot P X decode root role =
     andthen (Proj_Read P root (role @ ''/repository.json'') 262144) (\<lambda>data.
     andthen (lift (decode data)) (\<lambda>spec.
     andthen (read_secret P root (role @ ''/accessKey'') ''invalid credential snapshot'') (\<lambda>access.
     andthen (read_secret P root (role @ ''/secretKey'') ''invalid credential snapshot'') (\<lambda>secret.
     andthen (if s3_SessionTokenSecret (sp_S3 spec) \<noteq> None then read_secret P root (role @ ''/sessionToken'') ''invalid token snapshot'' else ret []) (\<lambda>token.
     andthen (read_trust P X root role (s3_CAConfigMap (sp_S3 spec))) (\<lambda>ca.
     ret \<lparr>sn_Spec = spec, sn_AccessKey = access, sn_SecretKey = secret, sn_SessionToken = token, sn_CA = ca\<rparr>))))))"

definition repository_role :: "string \<Rightarrow> bool" where
  "repository_role role \<longleftrightarrow> role = ''destination'' \<or> role = ''source''"

definition LoadSnapshot :: "'w proj_sys \<Rightarrow> 'c trust_env \<Rightarrow> (bytes \<Rightarrow> err + 'q repo_spec) \<Rightarrow> string \<Rightarrow> string \<Rightarrow> ('w, 'q snapshot) act" where
  "LoadSnapshot P X decode directory role =
     (if \<not> repository_role role then fail (PlainErr ''invalid repository role'')
      else andthen (Projection P directory) (\<lambda>root. loadRepositorySnapshot P X decode root role))"

definition LoadSnapshotFromRoot :: "'w proj_sys \<Rightarrow> 'c trust_env \<Rightarrow> (bytes \<Rightarrow> err + 'q repo_spec) \<Rightarrow> nat \<Rightarrow> string \<Rightarrow> ('w, 'q snapshot) act" where
  "LoadSnapshotFromRoot P X decode root role =
     (if \<not> repository_role role then fail (PlainErr ''invalid repository role'') else loadRepositorySnapshot P X decode root role)"

section \<open>Capture snapshots\<close>

record 'q capture_snapshot =
  cs_Repository :: "'q snapshot"
  cs_Certificate :: bytes
  cs_Key :: bytes
  cs_ServerCA :: bytes

fun parse_chain :: "'c trust_env \<Rightarrow> bytes list \<Rightarrow> err + 'c list" where
  "parse_chain X [] = Inr []"
| "parse_chain X (der # ders) = (case tx_parse X der of
     None \<Rightarrow> Inl (PlainErr ''invalid native client chain'')
   | Some c \<Rightarrow> res_bind (parse_chain X ders) (\<lambda>cs. Inr (c # cs)))"

definition LoadCaptureSnapshotFromRoot :: "'w proj_sys \<Rightarrow> 'c trust_env \<Rightarrow> (bytes \<Rightarrow> err + 'q repo_spec) \<Rightarrow> nat \<Rightarrow> ('w, 'q capture_snapshot) act" where
  "LoadCaptureSnapshotFromRoot P X decode root =
     andthen (loadRepositorySnapshot P X decode root ''destination'') (\<lambda>repo.
     andthen (Proj_Read P root ''native/tls.crt'' 262144) (\<lambda>cert.
     andthen (Proj_Read P root ''native/tls.key'' 65536) (\<lambda>key.
     andthen (Proj_Read P root ''native/ca.crt'' 262144) (\<lambda>ca.
     case tx_pair X cert key of
       None \<Rightarrow> fail (PlainErr ''invalid native replication certificate/key'')
     | Some ders \<Rightarrow>
        andthen (Proj_Read P root ''native/client-ca.crt'' 262144) (\<lambda>clientCA.
        andthen (CAPool P X clientCA False) (\<lambda>roots.
        andthen (lift (parse_chain X ders)) (\<lambda>chain.
        attempt (VerifyClient P X chain roots ''streaming_replica'') (\<lambda>r. case r of
          Inl _ \<Rightarrow> fail (PlainErr ''native replication identity must be streaming_replica with current client-CA trust'')
        | Inr _ \<Rightarrow>
           andthen (CAPool P X ca False) (\<lambda>_.
           ret \<lparr>cs_Repository = repo, cs_Certificate = cert, cs_Key = key, cs_ServerCA = ca\<rparr>)))))))))"

definition LoadCaptureSnapshot :: "'w proj_sys \<Rightarrow> 'c trust_env \<Rightarrow> (bytes \<Rightarrow> err + 'q repo_spec) \<Rightarrow> string \<Rightarrow> ('w, 'q capture_snapshot) act" where
  "LoadCaptureSnapshot P X decode directory =
     andthen (Projection P directory) (LoadCaptureSnapshotFromRoot P X decode)"

section \<open>The manager's TLS configuration\<close>

text \<open>The fields the code sets; \<open>tc_client\<close> is the name the \<open>VerifyConnection\<close> closure checks.\<close>

record 'c tls_config =
  tc_MinVersion :: string
  tc_NextProtos :: "string list"
  tc_Certificates :: "bytes list"
  tc_ClientAuth :: string
  tc_ClientCAs :: "'c pool"
  tc_client :: string

definition overlap_trust :: "'w proj_sys \<Rightarrow> 'c trust_env \<Rightarrow> nat \<Rightarrow> bytes \<Rightarrow> ('w, bytes) act" where
  "overlap_trust P X root ca =
     attempt (pj_stat P root ''client-ca-next.crt'') (\<lambda>r. case r of
       Inl _ \<Rightarrow> fail (PlainErr ''overlap trust projection unavailable'')
     | Inr False \<Rightarrow> ret ca
     | Inr True \<Rightarrow>
         andthen (Proj_Read P root ''client-ca-next.crt'' 262144) (\<lambda>next.
         andthen (CAPool P X next False) (\<lambda>_. ret (ca @ [CHR 0x0a] @ next))))"

definition LoadManagerTLS :: "'w proj_sys \<Rightarrow> 'c trust_env \<Rightarrow> string \<Rightarrow> string \<Rightarrow> ('w, 'c tls_config) act" where
  "LoadManagerTLS P X directory clientName =
     andthen (Projection P directory) (\<lambda>root.
     andthen (Proj_Read P root ''tls.crt'' 262144) (\<lambda>cert.
     andthen (Proj_Read P root ''tls.key'' 65536) (\<lambda>key.
     andthen (Proj_Read P root ''client-ca.crt'' 262144) (\<lambda>ca.
     case tx_pair X cert key of
       None \<Rightarrow> fail (PlainErr ''invalid manager leaf/key snapshot'')
     | Some ders \<Rightarrow>
        (case tx_parse X (hd ders) of
           None \<Rightarrow> fail (PlainErr ''invalid manager leaf'')
         | Some leaf \<Rightarrow>
            andthen (valid_now P X leaf) (\<lambda>ok.
            if \<not> ok then fail (PlainErr ''invalid manager leaf'')
            else andthen (overlap_trust P X root ca) (\<lambda>ca.
              andthen (CAPool P X ca False) (\<lambda>roots.
              if clientName = [] then fail (PlainErr ''client identity is required'')
              else ret \<lparr>tc_MinVersion = ''TLS1.3'', tc_NextProtos = [''h2''], tc_Certificates = ders, tc_ClientAuth = ''RequireAndVerifyClientCert'',
                tc_ClientCAs = roots, tc_client = clientName\<rparr>))))))))"

section \<open>Authorization of each call\<close>

text \<open>The peer of a call: none, without TLS information (\<open>Some None\<close>), or the certificates it presented.
  \<open>handler\<close> runs under the 30 seconds of the bounded context.\<close>

definition ManagerAuthorization :: "'w proj_sys \<Rightarrow> 'c trust_env \<Rightarrow> string \<Rightarrow> string \<Rightarrow> 'c list option option \<Rightarrow> (int \<Rightarrow> ('w, 'r) act) \<Rightarrow> ('w, 'r) act" where
  "ManagerAuthorization P X directory clientName peer handler =
     attempt (LoadManagerTLS P X directory clientName) (\<lambda>r. case (r, peer) of
       (Inr current, Some (Some chain)) \<Rightarrow>
         attempt (VerifyClient P X chain (tc_ClientCAs current) clientName) (\<lambda>v. case v of
           Inl _ \<Rightarrow> fail (StatusErr CodeUnauthenticated)
         | Inr _ \<Rightarrow> handler (30 * second))
     | _ \<Rightarrow> fail (StatusErr CodeUnauthenticated))"

section \<open>The store of a snapshot\<close>

definition duration_of :: "'q config_env \<Rightarrow> string \<Rightarrow> int" where
  "duration_of E v = (case ParseDuration (ce_float E) v of Some d \<Rightarrow> d | None \<Rightarrow> 0)"

definition snapshot_config :: "'q config_env \<Rightarrow> 'q snapshot \<Rightarrow> store_config" where
  "snapshot_config E sn = (let c = sp_S3 (sn_Spec sn); i = sp_IO (sn_Spec sn) in
     \<lparr>sc_Endpoint = s3_Endpoint c, sc_Bucket = s3_Bucket c, sc_Prefix = s3_Prefix c, sc_Signature = s3_Signature c, sc_Addressing = s3_Addressing c,
      sc_Region = s3_Region c, sc_AccessKey = sn_AccessKey sn, sc_SecretKey = sn_SecretKey sn, sc_SessionToken = sn_SessionToken sn, sc_CA = sn_CA sn,
      sc_ConnectTimeout = duration_of E (io_ConnectTimeout i), sc_MetadataTimeout = duration_of E (io_MetadataTimeout i),
      sc_DataRequestTimeout = duration_of E (io_DataRequestTimeout i), sc_OperationTimeout = duration_of E (io_OperationTimeout i),
      sc_WALUploadTimeout = duration_of E (io_WALUploadTimeout i),
      sc_ArtifactUploads = io_ArtifactUploads i, sc_PartWorkers = io_PartWorkers i, sc_WALUploads = io_WALUploads i\<rparr>)"

definition Snapshot_Store :: "'q config_env \<Rightarrow> new_env \<Rightarrow> 'q snapshot \<Rightarrow> err + store" where
  "Snapshot_Store E NE sn =
     res_bind (Spec_Validate E (sn_Spec sn)) (\<lambda>_. NewStore NE (snapshot_config E sn))"

end
