(* ===== verification/Config_Capacity.thy ===== *)
theory Config_Capacity
  imports Config_Snapshot
begin

text \<open>
  Capacity budgets (configuration/capacity.go): the kernel's mount inventory, the check that every
  budget names its own finite filesystem with enough room, and the space a capture needs. Byte
  counts are \<open>int64\<close>, block counts \<open>uint64\<close>; where the code mixes them the wrap-around is written out.
\<close>

section \<open>Machine integers\<close>

definition s64 :: "int \<Rightarrow> int" where
  "s64 x = (x + 2 ^ 63) mod 2 ^ 64 - 2 ^ 63"

definition to_u64 :: "int \<Rightarrow> int" where
  "to_u64 x = x mod 2 ^ 64"

text \<open>Go's division of integers truncates.\<close>

definition go_div :: "int \<Rightarrow> int \<Rightarrow> int" where
  "go_div a b = (if (a < 0) = (b < 0) then \<bar>a\<bar> div \<bar>b\<bar> else - (\<bar>a\<bar> div \<bar>b\<bar>))"

lemma s64_id: "- (2 ^ 63) \<le> x \<Longrightarrow> x < 2 ^ 63 \<Longrightarrow> s64 x = x"
  unfolding s64_def by (subst mod_pos_pos_trivial) auto

section \<open>Text\<close>

text \<open>\<open>strings.Fields\<close>: maximal runs without a space rune; \<open>cur\<close> is the run so far, reversed. The first
  byte of a space rune cannot be inside another rune, so the scan may go byte by byte.\<close>

function fields_from :: "string \<Rightarrow> string \<Rightarrow> string list" where
  "fields_from [] cur = (if cur = [] then [] else [rev cur])"
| "fields_from (c # s) cur = (case find (has_prefix (c # s)) space_runes of
     Some r \<Rightarrow> (if cur = [] then [] else [rev cur]) @ fields_from (drop (length r - 1) s) []
   | None \<Rightarrow> fields_from s (c # cur))"
  by pat_completeness auto
termination
  by (relation "measure (\<lambda>(s, cur). length s)") auto

definition Fields :: "string \<Rightarrow> string list" where
  "Fields s = fields_from s []"

definition Contains :: "string \<Rightarrow> string \<Rightarrow> bool" where
  "Contains s sub = list_ex (\<lambda>i. has_prefix (drop i s) sub) [0..<length s + 1]"

text \<open>The octal escapes of a mount record.\<close>

fun unescape :: "string \<Rightarrow> string" where
  "unescape (a # b # c # d # s) =
     (if a = CHR 0x5c then
        (if [b, c, d] = ''040'' then CHR '' '' # unescape s
         else if [b, c, d] = ''011'' then CHR 0x09 # unescape s
         else if [b, c, d] = ''012'' then CHR 0x0a # unescape s
         else if [b, c, d] = ''134'' then CHR 0x5c # unescape s
         else a # unescape (b # c # d # s))
      else a # unescape (b # c # d # s))"
| "unescape s = s"

text \<open>\<open>bufio.ScanLines\<close> drops one carriage return before the newline.\<close>

definition drop_cr :: "string \<Rightarrow> string" where
  "drop_cr l = trim_suffix l [CHR 0x0d]"

section \<open>The mount inventory\<close>

record fs_budget =
  fb_Mount :: string
  fb_LimitBytes :: int
  fb_RequiredBytes :: int

record mountRecord =
  mr_device :: string
  mr_root :: string
  mr_path :: string
  mr_fs :: string
  mr_readOnly :: bool

definition parse_mount :: "string \<Rightarrow> mountRecord option" where
  "parse_mount l = (let fields = Fields l; separator = length (takeWhile (\<lambda>f. f \<noteq> ''-'') fields) in
     if separator = length fields \<or> length fields < 10 \<or> separator < 6 \<or> separator + 3 \<ge> length fields then None
     else Some \<lparr>mr_device = fields ! 2, mr_root = unescape (fields ! 3), mr_path = unescape (fields ! 4), mr_fs = fields ! (separator + 1),
       mr_readOnly = Contains ('','' @ fields ! 5 @ '','') '',ro,'' \<or> Contains ('','' @ fields ! (separator + 3) @ '','') '',ro,''\<rparr>)"

text \<open>The scanner's lines; the text after the last newline is a line when it is not empty. A line that
  fills the buffer of 64 KiB ends the scan with an error.\<close>

definition scan_lines :: "bytes \<Rightarrow> string list" where
  "scan_lines data = (let ls = split_on (CHR 0x0a) data in if last ls = [] then butlast ls else ls)"

fun mount_loop :: "string list \<Rightarrow> int \<Rightarrow> mountRecord list \<Rightarrow> err + mountRecord list" where
  "mount_loop [] used res = Inr res"
| "mount_loop (l # ls) used res =
     (if int (length l) \<ge> 65536 then Inl (PlainErr ''token too long'')
      else let used = used + int (length (drop_cr l)) + 1 in
        if used > 1048576 \<or> length res \<ge> 4096 then Inl (PlainErr ''mount inventory exceeds limit'')
        else case parse_mount (drop_cr l) of
          None \<Rightarrow> Inl (PlainErr ''invalid mount inventory'')
        | Some m \<Rightarrow> mount_loop ls used (res @ [m]))"

text \<open>The content of the file and whether reading it failed after it.\<close>

definition mounts :: "bytes \<times> bool \<Rightarrow> err + mountRecord list" where
  "mounts = (\<lambda>(data, broken).
     res_bind (mount_loop (scan_lines (take (nat 1048577) data)) 0 []) (\<lambda>res.
       if broken \<and> int (length data) < 1048577 then Inl OsErr else Inr res))"

definition finiteMount :: "mountRecord list \<Rightarrow> string \<Rightarrow> err + mountRecord" where
  "finiteMount inventory path = (case filter (\<lambda>m. mr_path m = path) inventory of
     [m] \<Rightarrow> if mr_root m \<noteq> ''/'' \<or> (mr_fs m \<noteq> ''ext4'' \<and> mr_fs m \<noteq> ''xfs'') \<or> mr_readOnly m \<or> has_prefix (mr_device m) ''0:''
       then Inl (PlainErr ''require a dedicated writable finite ext4/xfs filesystem, not local-path/emptyDir/subpath/NFS'') else Inr m
   | _ \<Rightarrow> Inl (PlainErr ''require a dedicated writable finite ext4/xfs filesystem, not local-path/emptyDir/subpath/NFS''))"

section \<open>Free space\<close>

text \<open>What the code reads of \<open>unix.Statfs_t\<close>.\<close>

record statfs =
  sf_Type :: int
  sf_Bsize :: int
  sf_Blocks :: int
  sf_Bavail :: int

definition checkSpace :: "fs_budget \<Rightarrow> statfs \<Rightarrow> err + unit" where
  "checkSpace b st =
     (if fb_LimitBytes b \<le> 0 \<or> fb_LimitBytes b > 8192 * GiB \<or> fb_RequiredBytes b < 0 \<or> fb_RequiredBytes b > fb_LimitBytes b \<or> sf_Bsize st \<le> 0 \<or>
         sf_Blocks st > to_u64 (fb_LimitBytes b) div to_u64 (sf_Bsize st)
      then Inl (PlainErr ''actual filesystem exceeds declared hard limit or invalid phase budget'')
      else if sf_Bavail st > sf_Blocks st \<or> sf_Bavail st < to_u64 (go_div (s64 (fb_RequiredBytes b + sf_Bsize st - 1)) (sf_Bsize st))
      then Inl (PlainErr ''insufficient per-filesystem free capacity'')
      else Inr ())"

text \<open>\<open>cs_mountinfo\<close> opens the inventory: its content and whether a read failed. \<open>cs_fstat\<close> is the device
  number of a directory, major and minor.\<close>

record 'w cap_sys =
  cs_mountinfo :: "('w, bytes \<times> bool) act"
  cs_eval :: "string \<Rightarrow> ('w, string) act"
  cs_opendir :: "string \<Rightarrow> ('w, nat) act"
  cs_fstatfs :: "nat \<Rightarrow> ('w, statfs) act"
  cs_fstat :: "nat \<Rightarrow> ('w, int \<times> int) act"

definition EXT4_SUPER_MAGIC :: int where
  "EXT4_SUPER_MAGIC = 0xEF53"

definition XFS_SUPER_MAGIC :: int where
  "XFS_SUPER_MAGIC = 0x58465342"

text \<open>The checks on the open directory; \<open>fmt.Errorf\<close> with \<open>%w\<close> keeps the error of \<open>checkSpace\<close>.\<close>

definition check_device :: "'w cap_sys \<Rightarrow> fs_budget \<Rightarrow> string \<Rightarrow> nat \<Rightarrow> ('w, unit) act" where
  "check_device C b device fd =
     attempt (andthen (cs_fstatfs C fd) (\<lambda>fs. andthen (cs_fstat C fd) (\<lambda>d. ret (fs, d)))) (\<lambda>r. case r of
       Inl _ \<Rightarrow> fail (PlainErr ''capacity mount changed or unsupported filesystem'')
     | Inr (fs, (major, minor)) \<Rightarrow>
        if format_uint major @ '':'' @ format_uint minor \<noteq> device \<or> (sf_Type fs \<noteq> EXT4_SUPER_MAGIC \<and> sf_Type fs \<noteq> XFS_SUPER_MAGIC)
        then fail (PlainErr ''capacity mount changed or unsupported filesystem'')
        else lift (checkSpace b fs))"

definition check_budget :: "'w cap_sys \<Rightarrow> mountRecord list \<Rightarrow> fs_budget \<Rightarrow> string list \<Rightarrow> ('w, string list) act" where
  "check_budget C inventory b seen =
     (if \<not> IsAbs (fb_Mount b) \<or> Clean (fb_Mount b) \<noteq> fb_Mount b \<or> fb_Mount b = ''/'' then fail (PlainErr ''invalid capacity mount'')
      else attempt (cs_eval C (fb_Mount b)) (\<lambda>r.
        if r \<noteq> Inr (fb_Mount b) then fail (PlainErr ''capacity mount aliases are unsupported'')
        else andthen (lift (finiteMount inventory (fb_Mount b))) (\<lambda>m.
          if mr_device m \<in> set seen then fail (PlainErr ''workspace and targets must have independent filesystem limits'')
          else attempt (cs_opendir C (fb_Mount b)) (\<lambda>r. case r of
              Inl _ \<Rightarrow> fail (PlainErr ''capacity mount unavailable'')
            | Inr fd \<Rightarrow> andthen (check_device C b (mr_device m) fd) (\<lambda>_. ret (mr_device m # seen))))))"

definition CheckCapacity :: "'w cap_sys \<Rightarrow> fs_budget list \<Rightarrow> ('w, unit) act" where
  "CheckCapacity C budgets =
     (if length budgets < 1 \<or> length budgets > 67 then fail (PlainErr ''invalid filesystem budget count'')
      else attempt (cs_mountinfo C) (\<lambda>r. case r of
          Inl _ \<Rightarrow> fail (PlainErr ''mount inventory unavailable'')
        | Inr file \<Rightarrow> andthen (lift (mounts file)) (\<lambda>inventory.
            andthen (each_fold (check_budget C inventory) budgets []) (\<lambda>_. ret ()))))"

section \<open>Budgets\<close>

definition CapacityMargin :: "int \<Rightarrow> int" where
  "CapacityMargin n = max GiB (go_div (s64 (n + 9)) 10)"

definition CaptureCapacity :: "native_spec \<Rightarrow> err + int" where
  "CaptureCapacity n =
     (if nv_MaxBackupBytes n < 1 \<or> nv_MaxBackupBytes n > 1024 * GiB \<or> nv_MaxBootstrapWALBytes n < 1 \<or> nv_MaxBootstrapWALBytes n > 256 * GiB \<or>
         nv_MaxBootstrapWALBytes n > nv_MaxBackupBytes n then Inl (PlainErr ''invalid native capacity budgets'')
      else let a = nv_MaxBackupBytes n;
        spool = s64 (a + max GiB (go_div (s64 (a + 99)) 100));
        peak = s64 (a + spool + nv_MaxBootstrapWALBytes n + 8192 * 100000)
      in Inr (s64 (peak + CapacityMargin peak)))"

definition LoadCapacity :: "'w proj_sys \<Rightarrow> (bytes \<Rightarrow> fs_budget list option) \<Rightarrow> string \<Rightarrow> ('w, fs_budget list) act" where
  "LoadCapacity P dec directory =
     andthen (Projection P directory) (\<lambda>root.
     andthen (Proj_Read P root ''capacity.json'' 65536) (\<lambda>data.
     lift (StrictJSON dec data)))"

section \<open>Lemmas\<close>

text \<open>What an accepted filesystem has: the declared limit bounds its size and the required bytes are free.\<close>

definition room_for :: "fs_budget \<Rightarrow> statfs \<Rightarrow> bool" where
  "room_for b st \<longleftrightarrow> 0 \<le> fb_RequiredBytes b \<and> fb_RequiredBytes b \<le> sf_Bavail st * sf_Bsize st \<and>
     sf_Blocks st * sf_Bsize st \<le> fb_LimitBytes b \<and> fb_LimitBytes b \<le> 8192 * GiB"

lemma div_bounds: "0 < k \<Longrightarrow> 0 \<le> x \<Longrightarrow> 0 \<le> x div k \<and> x div k \<le> (x :: int)"
  by (metis div_by_1 int_one_le_iff_zero_less pos_imp_zdiv_nonneg_iff zdiv_mono2 zero_less_one)

lemma tenth_up: "n \<le> 10 * ((n + 9) div (10 :: int))"
  by presburger

lemma blocks_cover:
  assumes "0 \<le> r" "0 < s" "(r + s - 1) div s \<le> (n :: int)"
  shows "r \<le> n * s"
proof -
  have "(r + s - 1) div s * s + (r + s - 1) mod s = r + s - 1" by (rule div_mult_mod_eq)
  moreover have "(r + s - 1) mod s < s" using assms(2) by (rule pos_mod_bound)
  moreover have "(r + s - 1) div s * s \<le> n * s" using assms by (intro mult_right_mono) auto
  ultimately show ?thesis by linarith
qed

lemma blocks_within:
  assumes "0 < s" "n \<le> l div (s :: int)"
  shows "n * s \<le> l"
proof -
  have "l div s * s + l mod s = l" by (rule div_mult_mod_eq)
  moreover have "0 \<le> l mod s" using assms(1) by (rule pos_mod_sign)
  moreover have "n * s \<le> l div s * s" using assms by (intro mult_right_mono) auto
  ultimately show ?thesis by linarith
qed

lemma checkSpace_room:
  assumes "checkSpace b st = Inr ()" "sf_Bsize st < 2 ^ 62"
  shows "room_for b st"
proof -
  have a: "0 < fb_LimitBytes b" "fb_LimitBytes b \<le> 8192 * GiB" "0 \<le> fb_RequiredBytes b" "fb_RequiredBytes b \<le> fb_LimitBytes b" "0 < sf_Bsize st"
    "sf_Blocks st \<le> to_u64 (fb_LimitBytes b) div to_u64 (sf_Bsize st)"
    "to_u64 (go_div (s64 (fb_RequiredBytes b + sf_Bsize st - 1)) (sf_Bsize st)) \<le> sf_Bavail st"
    using assms(1) by (auto simp: checkSpace_def split: if_splits)
  have lim: "to_u64 (fb_LimitBytes b) = fb_LimitBytes b" "to_u64 (sf_Bsize st) = sf_Bsize st"
    using a assms(2) by (auto simp: to_u64_def GiB_def)
  have w: "s64 (fb_RequiredBytes b + sf_Bsize st - 1) = fb_RequiredBytes b + sf_Bsize st - 1"
    by (rule s64_id) (use a assms(2) in \<open>auto simp: GiB_def\<close>)
  let ?n = "(fb_RequiredBytes b + sf_Bsize st - 1) div sf_Bsize st"
  have "0 \<le> ?n" using a div_bounds[of "sf_Bsize st" "fb_RequiredBytes b + sf_Bsize st - 1"] by linarith
  moreover have "?n \<le> fb_RequiredBytes b + sf_Bsize st - 1" using a div_bounds[of "sf_Bsize st" "fb_RequiredBytes b + sf_Bsize st - 1"] by linarith
  ultimately have "to_u64 ?n = ?n" using a assms(2) by (auto simp: to_u64_def GiB_def)
  then have "?n \<le> sf_Bavail st" using a w by (simp add: go_div_def)
  then have "fb_RequiredBytes b \<le> sf_Bavail st * sf_Bsize st" by (rule blocks_cover[OF a(3,5)])
  moreover have "sf_Blocks st * sf_Bsize st \<le> fb_LimitBytes b"
    using blocks_within[OF a(5)] a(6) unfolding lim .
  ultimately show ?thesis using a by (simp add: room_for_def)
qed

text \<open>The space of a capture does not overflow, and leaves a tenth and at least a gibibyte beyond its parts.\<close>

lemma CaptureCapacity_bounds:
  assumes "CaptureCapacity n = Inr c"
  shows "c < 2 ^ 63" "2 * nv_MaxBackupBytes n + nv_MaxBootstrapWALBytes n + 8192 * 100000 + 2 * GiB \<le> c"
    "11 * (2 * nv_MaxBackupBytes n + nv_MaxBootstrapWALBytes n + 8192 * 100000) \<le> 10 * c"
proof -
  let ?a = "nv_MaxBackupBytes n" and ?b = "nv_MaxBootstrapWALBytes n"
  have r: "1 \<le> ?a" "?a \<le> 1024 * GiB" "1 \<le> ?b" "?b \<le> 256 * GiB" using assms by (auto simp: CaptureCapacity_def split: if_splits)
  define sp where "sp = ?a + max GiB ((?a + 99) div 100)"
  define pk where "pk = ?a + sp + ?b + 819200000"
  have "(?a + 99) div 100 \<le> 100 * ?a div 100" by (rule zdiv_mono1) (use r(1) in auto)
  then have sb: "?a + GiB \<le> sp" "sp \<le> ?a + GiB + ?a" using r(1) by (simp_all add: sp_def GiB_def)
  have pb: "0 \<le> pk" "pk < 2 ^ 60" using r sb by (simp_all add: pk_def GiB_def)
  have tenth: "(pk + 9) div 10 \<le> pk + 9" "pk \<le> 10 * ((pk + 9) div 10)" using pb(1) div_bounds[of 10 "pk + 9"] tenth_up[of pk] by linarith+
  have s1: "s64 (?a + 99) = ?a + 99" by (rule s64_id) (use r in \<open>simp_all add: GiB_def\<close>)
  have s2: "s64 sp = sp" by (rule s64_id) (use r sb in \<open>simp_all add: GiB_def\<close>)
  have s3: "s64 pk = pk" by (rule s64_id) (use pb in simp_all)
  have s4: "s64 (pk + 9) = pk + 9" by (rule s64_id) (use pb in simp_all)
  have m: "CapacityMargin pk = max GiB ((pk + 9) div 10)" using pb by (simp add: CapacityMargin_def s4 go_div_def)
  have mb: "GiB \<le> CapacityMargin pk" "(pk + 9) div 10 \<le> CapacityMargin pk" "CapacityMargin pk \<le> GiB + (pk + 9)"
    unfolding m using pb tenth by (simp_all add: GiB_def)
  have s5: "s64 (pk + CapacityMargin pk) = pk + CapacityMargin pk"
    by (rule s64_id) (use pb mb in \<open>simp_all add: GiB_def\<close>)
  have "go_div (s64 (?a + 99)) 100 = (?a + 99) div 100" using r by (simp add: s1 go_div_def)
  then have c: "c = pk + CapacityMargin pk"
    using assms s2 s3 s5 by (auto simp: CaptureCapacity_def Let_def sp_def[symmetric] pk_def[symmetric] split: if_splits)
  show "c < 2 ^ 63" unfolding c using pb mb by (simp add: GiB_def)
  show "2 * ?a + ?b + 8192 * 100000 + 2 * GiB \<le> c" unfolding c using sb mb by (simp add: pk_def)
  show "11 * (2 * ?a + ?b + 8192 * 100000) \<le> 10 * c" unfolding c using sb r mb tenth by (simp add: pk_def GiB_def)
qed

end
