(* ===== verification/Config_Properties.thy ===== *)
theory Config_Properties
  imports Config_Capacity Traces
begin

text \<open>
  What the configuration package guarantees to the operations that use it: one generation per
  snapshot, current trust for every call, filesystems with room, and a validated document the
  storage adapter takes as it is.
\<close>

section \<open>One generation\<close>

datatype proj_event =
    PjEval string
  | PjRoot string "err + nat"
  | PjOpen nat string
  | PjStat nat string

definition ptraced :: "'w proj_sys \<Rightarrow> ('w \<times> proj_event list) proj_sys" where
  "ptraced P = \<lparr>pj_eval = (\<lambda>p. log_call (\<lambda>_. PjEval p) (pj_eval P p)), pj_root = (\<lambda>p. log_call (PjRoot p) (pj_root P p)),
     pj_open = (\<lambda>r p. log_call (\<lambda>_. PjOpen r p) (pj_open P r p)), pj_read = (\<lambda>f n. pass_call (pj_read P f n)),
     pj_stat = (\<lambda>r p. log_call (\<lambda>_. PjStat r p) (pj_stat P r p)), pj_pool = pass_call (pj_pool P), pj_now = pass_call (pj_now P)\<rparr>"

text \<open>The calls below one root, and a log that opens at most one root and reads only below it.\<close>

fun below :: "nat \<Rightarrow> proj_event \<Rightarrow> bool" where
  "below root (PjOpen r _) = (r = root)"
| "below root (PjStat r _) = (r = root)"
| "below root _ = False"

fun one_generation :: "string \<Rightarrow> proj_event list \<Rightarrow> bool" where
  "one_generation dir [] = True"
| "one_generation dir [PjEval d] = (d = path_join [dir, ''..data''])"
| "one_generation dir (PjEval d # PjRoot g (Inl e) # tr) = (d = path_join [dir, ''..data''] \<and> tr = [])"
| "one_generation dir (PjEval d # PjRoot g (Inr root) # tr) = (d = path_join [dir, ''..data''] \<and> list_all (below root) tr)"
| "one_generation dir _ = False"

lemma ptraced_fields [simp]:
  "pj_eval (ptraced P) p = log_call (\<lambda>_. PjEval p) (pj_eval P p)" "pj_root (ptraced P) p = log_call (PjRoot p) (pj_root P p)"
  "pj_open (ptraced P) r p = log_call (\<lambda>_. PjOpen r p) (pj_open P r p)" "pj_read (ptraced P) f n = pass_call (pj_read P f n)"
  "pj_stat (ptraced P) r p = log_call (\<lambda>_. PjStat r p) (pj_stat P r p)" "pj_pool (ptraced P) = pass_call (pj_pool P)" "pj_now (ptraced P) = pass_call (pj_now P)"
  by (simp_all add: ptraced_def)

named_theorems below_intros

lemmas [below_intros] = ct.emits_rules emits_log_call emits_pass_call

lemma below_Proj_Read [below_intros]: "ct.emits (below root) (Proj_Read (ptraced P) root path limit)"
  unfolding Proj_Read_def by (auto intro!: below_intros split: sum.splits)

lemma below_valid_now [below_intros]: "ct.emits (below root) (valid_now (ptraced P) X c)"
  by (rule ct.emitsI) (auto simp: valid_now_def pass_call_def split: prod.splits if_splits)

lemma below_pool_loop [below_intros]: "ct.emits (below root) (pool_loop n (ptraced P) X data pool k)"
  by (induction n "ptraced P" X data pool k rule: pool_loop.induct)
    (auto intro!: below_intros split: option.splits prod.splits)

lemma below_CAPool [below_intros]: "ct.emits (below root) (CAPool (ptraced P) X data system)"
  unfolding CAPool_def by (auto intro!: below_intros split: sum.splits prod.splits)

lemma below_VerifyClient [below_intros]: "ct.emits (below root) (VerifyClient (ptraced P) X chain roots name)"
  by (rule ct.emitsI) (auto simp: VerifyClient_def pass_call_def split: prod.splits if_splits list.splits)

lemma below_secret [below_intros]: "ct.emits (below root) (read_secret (ptraced P) root path what)"
  and below_trust [below_intros]: "ct.emits (below root) (read_trust (ptraced P) X root role sel)"
  and below_overlap [below_intros]: "ct.emits (below root) (overlap_trust (ptraced P) X root ca)"
  unfolding read_secret_def read_trust_def overlap_trust_def by (auto intro!: below_intros split: sum.splits option.splits bool.splits)

lemma below_loadRepositorySnapshot [below_intros]: "ct.emits (below root) (loadRepositorySnapshot (ptraced P) X decode root role)"
  unfolding loadRepositorySnapshot_def by (auto intro!: below_intros)

lemma below_LoadCaptureSnapshot [below_intros]: "ct.emits (below root) (LoadCaptureSnapshotFromRoot (ptraced P) X decode root)"
  unfolding LoadCaptureSnapshotFromRoot_def by (auto intro!: below_intros split: option.splits sum.splits)

text \<open>Whatever is read below the root after \<open>Projection\<close>, the log is of one generation.\<close>

lemma projection_log:
  assumes "andthen (Projection (ptraced P) dir) k (w, []) = (r, (w', tr))" "\<And>root. ct.emits (below root) (k root)"
  shows "one_generation dir tr"
proof -
  from andthen_split[OF assms(1)] consider (no) e where "Projection (ptraced P) dir (w, []) = (Inl e, (w', tr))"
    | (yes) root w1 tr1 where "Projection (ptraced P) dir (w, []) = (Inr root, (w1, tr1))" "k root (w1, tr1) = (r, (w', tr))" by force
  then show ?thesis
  proof cases
    case no
    then show ?thesis by (auto simp: Projection_def attempt_def log_call_def fail_def split: prod.splits sum.splits)
  next
    case yes
    from ct.emitsD[OF assms(2) yes(2)] obtain ev where ev: "tr = tr1 @ ev" "list_all (below root) ev" by auto
    from yes(1) obtain g where "tr1 = [PjEval (path_join [dir, ''..data'']), PjRoot g (Inr root)]"
      by (auto simp: Projection_def attempt_def log_call_def fail_def split: prod.splits sum.splits)
    then show ?thesis using ev by simp
  qed
qed

lemma below_LoadManagerTLS:
  "LoadManagerTLS (ptraced P) X dir name (w, []) = (r, (w', tr)) \<Longrightarrow> one_generation dir tr"
  unfolding LoadManagerTLS_def by (erule projection_log) (auto intro!: below_intros split: option.splits)

text \<open>Every snapshot is of one kubelet generation: a load resolves \<open>..data\<close> once, opens that generation once,
  and reads every member (the document, the credentials, the certificates, the trust bundles) below that root,
  whatever the kubelet swaps in the meantime.\<close>
theorem snapshot_one_generation:
  "(case LoadSnapshot (ptraced P) X decode dir role (w, []) of (_, (_, tr)) \<Rightarrow> one_generation dir tr) \<and>
   (case LoadCaptureSnapshot (ptraced P) X decode dir (w, []) of (_, (_, tr)) \<Rightarrow> one_generation dir tr) \<and>
   (case LoadManagerTLS (ptraced P) X dir name (w, []) of (_, (_, tr)) \<Rightarrow> one_generation dir tr) \<and>
   (case LoadCapacity (ptraced P) dec dir (w, []) of (_, (_, tr)) \<Rightarrow> one_generation dir tr)"
  using projection_log[of P dir "\<lambda>root. loadRepositorySnapshot (ptraced P) X decode root role" w]
    projection_log[of P dir "LoadCaptureSnapshotFromRoot (ptraced P) X decode" w] below_LoadManagerTLS[of P X dir name w]
    projection_log[of P dir "\<lambda>root. andthen (Proj_Read (ptraced P) root ''capacity.json'' 65536) (\<lambda>data. lift (StrictJSON dec data))" w]
  by (auto simp: LoadSnapshot_def LoadCaptureSnapshot_def LoadCapacity_def fail_def below_intros split: prod.splits)

section \<open>Current trust\<close>

lemma pool_loop_CA:
  "pool_loop n P X data pool k w = (Inr (pool', k'), w') \<Longrightarrow>
   \<exists>cs. cp_certs pool' = cp_certs pool @ cs \<and> list_all (tx_isCA X) cs \<and> k' = k + length cs \<and> cp_system pool' = cp_system pool"
proof (induction n P X data pool k arbitrary: w rule: pool_loop.induct)
  case (3 n P X d ds pool k)
  obtain der rest c w1 where p: "tx_pem X (d # ds) = Some (''CERTIFICATE'', der, rest)" "tx_parse X der = Some c" "tx_isCA X c"
    and l: "pool_loop n P X rest (pool\<lparr>cp_certs := cp_certs pool @ [c]\<rparr>) (k + 1) w1 = (Inr (pool', k'), w')"
    using "3.prems" by (auto simp: fail_def dest!: andthen_split split: option.splits if_splits)
  from "3.IH"[OF p(1) refl refl _ p(2) _ _ l] p(3) show ?case by force
qed (auto simp: ret_def fail_def)

lemma CAPool_CA: "CAPool P X data system w = (Inr pool, w') \<Longrightarrow> cp_certs pool \<noteq> [] \<and> list_all (tx_isCA X) (cp_certs pool) \<and> cp_system pool = system"
  by (auto simp: CAPool_def ret_def fail_def dest!: andthen_split pool_loop_CA split: if_splits)

lemma LoadManagerTLS_pool:
  "LoadManagerTLS P X dir name w = (Inr c, w') \<Longrightarrow>
   name \<noteq> [] \<and> cp_certs (tc_ClientCAs c) \<noteq> [] \<and> list_all (tx_isCA X) (cp_certs (tc_ClientCAs c)) \<and> \<not> cp_system (tc_ClientCAs c)"
  by (auto simp: LoadManagerTLS_def ret_def fail_def dest!: andthen_split CAPool_CA split: if_splits option.splits)

text \<open>The client of a connection is trusted at the world \<open>w\<close> of a call: the trust bundle on disk loads, as
  \<open>current\<close> and leaving \<open>w1\<close>, and the leaf the peer presented has the expected name and a chain to the
  bundle that is valid at the time read then, which leaves \<open>w2\<close>.\<close>

definition client_trusted :: "'w proj_sys \<Rightarrow> 'c trust_env \<Rightarrow> string \<Rightarrow> string \<Rightarrow> 'c list option option \<Rightarrow> 'w \<Rightarrow> 'c tls_config \<Rightarrow> 'w \<Rightarrow> bool" where
  "client_trusted P X dir name peer w current w2 \<longleftrightarrow> (\<exists>leaf rest t w1. LoadManagerTLS P X dir name w = (Inr current, w1) \<and>
     peer = Some (Some (leaf # rest)) \<and> name \<noteq> [] \<and> tx_name X leaf = name \<and> pj_now P w1 = (t, w2) \<and>
     tx_verify X t (tc_ClientCAs current) rest leaf)"

lemma ManagerAuthorization_trusted:
  assumes "client_trusted P X dir name peer w current w2"
  shows "ManagerAuthorization P X dir name peer handler w = handler (30 * second) w2"
  using assms by (auto simp: client_trusted_def ManagerAuthorization_def VerifyClient_def attempt_def)

lemma ManagerAuthorization_refused:
  assumes "\<nexists>current w2. client_trusted P X dir name peer w current w2"
  shows "\<exists>w'. (\<forall>h. ManagerAuthorization P X dir name peer h w = (Inl (StatusErr CodeUnauthenticated), w')) \<and>
    (w' = snd (LoadManagerTLS P X dir name w) \<or> w' = snd (pj_now P (snd (LoadManagerTLS P X dir name w))))"
proof -
  obtain q w1 where q: "LoadManagerTLS P X dir name w = (q, w1)" by (cases "LoadManagerTLS P X dir name w")
  show ?thesis
  proof (cases "\<exists>current chain. q = Inr current \<and> peer = Some (Some chain)")
    case False
    then show ?thesis using q by (cases q; cases peer) (auto simp: ManagerAuthorization_def attempt_def fail_def split: option.splits)
  next
    case True
    then obtain current chain where c: "q = Inr current" "peer = Some (Some chain)" by blast
    obtain v w' where v: "VerifyClient P X chain (tc_ClientCAs current) name w1 = (v, w')" by (cases "VerifyClient P X chain (tc_ClientCAs current) name w1")
    have "\<exists>e. v = Inl e" "w' = w1 \<or> w' = snd (pj_now P w1)"
      using assms v c q LoadManagerTLS_pool[of P X dir name w]
      by (auto simp: client_trusted_def VerifyClient_def split: list.splits if_splits prod.splits)
    then show ?thesis using q c v by (auto simp: ManagerAuthorization_def attempt_def fail_def)
  qed
qed

definition steady_projection :: "unit proj_sys" where
  "steady_projection = \<lparr>pj_eval = \<lambda>p w. (Inr p, w), pj_root = \<lambda>p w. (Inr 7, w), pj_open = \<lambda>r p w. (Inr 8, w), pj_read = \<lambda>f n w. (Inr ''x'', w),
     pj_stat = \<lambda>r p w. (Inr False, w), pj_pool = \<lambda>w. (Inr (), w), pj_now = \<lambda>w. (5, w)\<rparr>"

text \<open>One authority, and certificates named by their subject.\<close>

definition one_authority :: "string trust_env" where
  "one_authority = \<lparr>tx_pem = \<lambda>b. Some (''CERTIFICATE'', b, []), tx_parse = Some, tx_isCA = (\<lambda>c. c = ''x''), tx_notBefore = \<lambda>_. 0, tx_notAfter = \<lambda>_. 10,
     tx_name = id, tx_pair = \<lambda>c k. Some [c], tx_verify = \<lambda>t roots rest leaf. cp_certs roots = [''x''] \<and> t < 10\<rparr>"

lemma steady_tls: "\<exists>current. LoadManagerTLS steady_projection one_authority ''/tls'' ''operator'' () = (Inr current, ()) \<and> cp_certs (tc_ClientCAs current) = [''x'']"
  by (simp add: LoadManagerTLS_def Projection_def Proj_Read_def valid_now_def overlap_trust_def CAPool_def andthen_def attempt_def ret_def fail_def
      steady_projection_def one_authority_def)

lemma steady_trusted: "\<exists>current. client_trusted steady_projection one_authority ''/tls'' ''operator'' (Some (Some [''operator''])) () current ()"
proof -
  obtain current where "LoadManagerTLS steady_projection one_authority ''/tls'' ''operator'' () = (Inr current, ())" "cp_certs (tc_ClientCAs current) = [''x'']"
    using steady_tls by blast
  then show ?thesis by (auto simp: client_trusted_def) (auto simp: steady_projection_def one_authority_def)
qed

text \<open>C39. A call reaches its handler exactly when the trust bundle on disk at this call loads, and the client of the
  connection has the expected name and a chain to one of the bundle's CA certificates, valid at the time of the call; the
  handler then runs once, under 30 seconds, and its answer is the answer. Otherwise the answer is \<open>Unauthenticated\<close>, the
  same for every handler, in the world the checks left: no handler has run.\<close>
theorem ManagerAuthorization_current:
  fixes handler :: "int \<Rightarrow> ('w, 'r) act"
  shows "if \<exists>current w2. client_trusted P X dir name peer w current w2 then
     (\<exists>current w2. client_trusted P X dir name peer w current w2 \<and> cp_certs (tc_ClientCAs current) \<noteq> [] \<and>
        list_all (tx_isCA X) (cp_certs (tc_ClientCAs current)) \<and> \<not> cp_system (tc_ClientCAs current) \<and>
        ManagerAuthorization P X dir name peer handler w = handler (30 * second) w2)
   else
     (\<exists>w'. (\<forall>h :: int \<Rightarrow> ('w, 'r) act. ManagerAuthorization P X dir name peer h w = (Inl (StatusErr CodeUnauthenticated), w')) \<and>
        (w' = snd (LoadManagerTLS P X dir name w) \<or> w' = snd (pj_now P (snd (LoadManagerTLS P X dir name w)))))"
proof (cases "\<exists>current w2. client_trusted P X dir name peer w current w2")
  case True
  then obtain current w2 where c: "client_trusted P X dir name peer w current w2" by blast
  then have "cp_certs (tc_ClientCAs current) \<noteq> [] \<and> list_all (tx_isCA X) (cp_certs (tc_ClientCAs current)) \<and> \<not> cp_system (tc_ClientCAs current)"
    using LoadManagerTLS_pool[of P X dir name w current] by (auto simp: client_trusted_def)
  then show ?thesis unfolding if_P[OF True] using ManagerAuthorization_trusted[OF c] c by blast
next
  case False
  show ?thesis unfolding if_not_P[OF False] by (rule ManagerAuthorization_refused[OF False])
qed

theorem ManagerAuthorization_current_witness:
  "ManagerAuthorization steady_projection one_authority ''/tls'' ''operator'' (Some (Some [''operator''])) (\<lambda>limit w. (Inr limit, w)) () =
     (Inr (30 * second), ())"
proof -
  have t: "\<exists>current w2. client_trusted steady_projection one_authority ''/tls'' ''operator'' (Some (Some [''operator''])) () current w2"
    using steady_trusted by blast
  show ?thesis
    using ManagerAuthorization_current[of steady_projection one_authority "''/tls''" "''operator''" "Some (Some [''operator''])" "()"
        "\<lambda>limit w. (Inr limit, w)"] unfolding if_P[OF t] by auto
qed

section \<open>The storage adapter\<close>

text \<open>What only the adapter checks of a snapshot whose document is valid.\<close>

definition adapter_accepts :: "new_env \<Rightarrow> 'q snapshot \<Rightarrow> bool" where
  "adapter_accepts NE sn = (let c = sp_S3 (sn_Spec sn) in case ne_parse NE (s3_Endpoint c) of
     None \<Rightarrow> False
   | Some u \<Rightarrow> \<not> has_suffix (s3_Endpoint c) ''#'' \<and> plain (s3_Region c) \<and>
       sn_AccessKey sn \<noteq> [] \<and> sn_SecretKey sn \<noteq> [] \<and> plain (sn_AccessKey sn) \<and> plain (sn_SecretKey sn) \<and> plain (sn_SessionToken sn) \<and>
       (s3_Signature c = ''v4'' \<or> sn_SessionToken sn = [] \<and> \<not> ne_amazon NE u) \<and> \<not> ne_express NE (s3_Bucket c) u \<and> ne_bucketName NE (s3_Bucket c) \<and>
       ne_systemPool NE \<and> int (length (sn_CA sn)) \<le> 1048576 \<and> check_bundle (length (sn_CA sn) + 1) NE (sn_CA sn) = Inr () \<and> ne_core NE)"

definition snapshot_store :: "'q config_env \<Rightarrow> 'q snapshot \<Rightarrow> store" where
  "snapshot_store E sn = (let c = sp_S3 (sn_Spec sn); i = sp_IO (sn_Spec sn) in
     \<lparr>so_bucket = s3_Bucket c, so_prefix = s3_Prefix c, so_metadataTimeout = duration_of E (io_MetadataTimeout i), so_operationTimeout = duration_of E (io_OperationTimeout i),
      so_walTimeout = duration_of E (io_WALUploadTimeout i), so_artifacts = io_ArtifactUploads i, so_wal = io_WALUploads i, so_workers = io_PartWorkers i\<rparr>)"

lemma duration_default: "duration_in E v lo hi \<Longrightarrow> 0 < lo \<Longrightarrow> default_duration (duration_of E v) d lo hi = Inr (duration_of E v)"
  by (auto simp: duration_in_def duration_of_def default_duration_def split: option.splits)

lemma second_pos: "0 < second"
  by (simp add: second_def)

lemma Validate_parts:
  assumes "Spec_Validate E s = Inr ()"
  shows "endpoint_ok E (s3_Endpoint (sp_S3 s))" "validPath (s3_Prefix (sp_S3 s))" "length (s3_Prefix (sp_S3 s)) \<le> 128" "s3_Prefix (sp_S3 s) \<noteq> []"
    "s3_Signature (sp_S3 s) = ''v2'' \<or> s3_Signature (sp_S3 s) = ''v4''" "s3_Addressing (sp_S3 s) = ''path''" "s3_Region (sp_S3 s) \<noteq> []"
    "list_all (\<lambda>(v, lo, hi). duration_in E v lo hi) (durations s)"
    "list_all (\<lambda>n. 1 \<le> n \<and> n \<le> 2) [io_ArtifactUploads (sp_IO s), io_PartWorkers (sp_IO s), io_WALUploads (sp_IO s)]"
proof -
  have c: "list_all fst (spec_checks E s)" using assms by (simp add: Spec_Validate_def first_failed_ok)
  note u = c[unfolded spec_checks_def Let_def list.pred_map list_all_append]
  show "endpoint_ok E (s3_Endpoint (sp_S3 s))" "s3_Addressing (sp_S3 s) = ''path''" "s3_Region (sp_S3 s) \<noteq> []"
    "s3_Signature (sp_S3 s) = ''v2'' \<or> s3_Signature (sp_S3 s) = ''v4''"
    using u by simp_all
  have p: "prefix_ok (s3_Prefix (sp_S3 s))" "plain (s3_Prefix (sp_S3 s))" using u by simp_all
  then show "s3_Prefix (sp_S3 s) \<noteq> []" by (simp add: prefix_ok_def)
  from p show "validPath (s3_Prefix (sp_S3 s))" "length (s3_Prefix (sp_S3 s)) \<le> 128" using prefix_contract[of "s3_Prefix (sp_S3 s)"] by simp_all
  show "list_all (\<lambda>(v, lo, hi). duration_in E v lo hi) (durations s)" using u by (simp add: case_prod_unfold comp_def)
  show "list_all (\<lambda>n. 1 \<le> n \<and> n \<le> 2) [io_ArtifactUploads (sp_IO s), io_PartWorkers (sp_IO s), io_WALUploads (sp_IO s)]" using u by simp
qed

lemma default_count_id: "1 \<le> n \<Longrightarrow> n \<le> 2 \<Longrightarrow> default_count n = Inr n"
  by (simp add: default_count_def)

text \<open>C38. A document that validates needs no further judgement of the adapter on its endpoint, prefix, signature, addressing,
  timeouts and concurrency: a store is built exactly when the adapter's own checks pass (printable region and credentials, the
  SDK's bucket and endpoint rules, the trust bundle), and it carries the document's bucket, prefix, timeouts and limits unchanged.\<close>
theorem Store_of_validated_spec:
  assumes "Spec_Validate E (sn_Spec sn) = Inr ()" "ce_url E = ne_parse NE"
  shows "case Snapshot_Store E NE sn of
      Inr st \<Rightarrow> adapter_accepts NE sn \<and> st = snapshot_store E sn
    | Inl _ \<Rightarrow> \<not> adapter_accepts NE sn"
proof -
  let ?s = "sn_Spec sn" and ?c = "snapshot_config E sn"
  note v = Validate_parts[OF assms(1)]
  obtain u where u: "ne_parse NE (s3_Endpoint (sp_S3 ?s)) = Some u" using v(1) assms(2) by (auto simp: endpoint_ok_def split: option.splits)
  have ep: "check_endpoint NE ?c = (if has_suffix (s3_Endpoint (sp_S3 ?s)) ''#'' then Inl (failure Invalid) else Inr u)"
    using v(1) u assms(2) by (auto simp: check_endpoint_def snapshot_config_def Let_def endpoint_ok_def split: option.splits)
  have d: "duration_in E (io_ConnectTimeout (sp_IO ?s)) second (60 * second)" "duration_in E (io_MetadataTimeout (sp_IO ?s)) second (120 * second)"
    "duration_in E (io_DataRequestTimeout (sp_IO ?s)) (10 * second) (3600 * second)" "duration_in E (io_OperationTimeout (sp_IO ?s)) (60 * second) (604800 * second)"
    "duration_in E (io_WALUploadTimeout (sp_IO ?s)) (10 * second) (900 * second)"
    using v(8) by (auto simp: durations_def)
  have p: "second > 0" "10 * second > 0" "60 * second > 0" using second_pos by auto
  note dd = duration_default[OF d(1) p(1)] duration_default[OF d(2) p(1)] duration_default[OF d(3) p(2)] duration_default[OF d(4) p(3)] duration_default[OF d(5) p(2)]
  have n: "default_count (io_ArtifactUploads (sp_IO ?s)) = Inr (io_ArtifactUploads (sp_IO ?s))" "default_count (io_PartWorkers (sp_IO ?s)) = Inr (io_PartWorkers (sp_IO ?s))"
    "default_count (io_WALUploads (sp_IO ?s)) = Inr (io_WALUploads (sp_IO ?s))" using v(9) by (auto intro!: default_count_id)
  have "NewStore NE ?c = (if adapter_accepts NE sn then Inr (snapshot_store E sn) else NewStore NE ?c) \<and>
      (adapter_accepts NE sn \<or> (\<exists>e. NewStore NE ?c = Inl e))"
    using v u ep dd n
    by (cases "check_bundle (length (sn_CA sn) + 1) NE (sn_CA sn)")
       (auto simp: NewStore_def adapter_accepts_def check_credentials_def snapshot_config_def snapshot_store_def Let_def)
  then show ?thesis using assms(1) by (auto simp: Snapshot_Store_def split: if_splits)
qed

section \<open>Room on every filesystem\<close>

datatype cap_event =
    CapStatfs "err + statfs"
  | CapDevice "err + int \<times> int"

definition cap_traced :: "'w cap_sys \<Rightarrow> ('w \<times> cap_event list) cap_sys" where
  "cap_traced C = \<lparr>cs_mountinfo = pass_call (cs_mountinfo C), cs_eval = (\<lambda>p. pass_call (cs_eval C p)), cs_opendir = (\<lambda>p. pass_call (cs_opendir C p)),
     cs_fstatfs = (\<lambda>fd. log_call CapStatfs (cs_fstatfs C fd)), cs_fstat = (\<lambda>fd. log_call CapDevice (cs_fstat C fd))\<rparr>"

definition filesystems :: "cap_event list \<Rightarrow> statfs list" where
  "filesystems tr = List.map_filter (\<lambda>e. case e of CapStatfs (Inr st) \<Rightarrow> Some st | _ \<Rightarrow> None) tr"

definition devices :: "cap_event list \<Rightarrow> string list" where
  "devices tr = List.map_filter (\<lambda>e. case e of CapDevice (Inr (a, b)) \<Rightarrow> Some (format_uint a @ '':'' @ format_uint b) | _ \<Rightarrow> None) tr"

lemma cap_lists_append [simp]:
  "filesystems (a @ b) = filesystems a @ filesystems b" "devices (a @ b) = devices a @ devices b"
  by (simp_all add: filesystems_def devices_def map_filter_def)

lemma check_budget_log:
  assumes "check_budget (cap_traced C) mounted b seen (w, tr) = (Inr seen', (w', tr'))"
  shows "\<exists>st dev. filesystems tr' = filesystems tr @ [st] \<and> devices tr' = devices tr @ [dev] \<and> seen' = dev # seen \<and> dev \<notin> set seen \<and> checkSpace b st = Inr ()"
  using assms
  by (auto simp: check_budget_def check_device_def cap_traced_def attempt_def andthen_def lift_def ret_def fail_def pass_call_def log_call_def
      filesystems_def devices_def map_filter_def split: if_splits prod.splits sum.splits)

lemma check_budgets_log:
  "each_fold (check_budget (cap_traced C) mounted) budgets seen (w, tr) = (Inr seen', (w', tr')) \<Longrightarrow>
   \<exists>sts devs. filesystems tr' = filesystems tr @ sts \<and> list_all2 (\<lambda>b st. checkSpace b st = Inr ()) budgets sts \<and>
     devices tr' = devices tr @ devs \<and> length devs = length budgets \<and> distinct devs \<and> set devs \<inter> set seen = {}"
proof (induction budgets arbitrary: seen w tr)
  case (Cons b budgets)
  from Cons.prems obtain seen1 w1 tr1 where 1: "check_budget (cap_traced C) mounted b seen (w, tr) = (Inr seen1, (w1, tr1))"
    and 2: "each_fold (check_budget (cap_traced C) mounted) budgets seen1 (w1, tr1) = (Inr seen', (w', tr'))"
    by (auto dest!: andthen_split)
  from check_budget_log[OF 1] obtain st dev where b: "filesystems tr1 = filesystems tr @ [st]" "devices tr1 = devices tr @ [dev]" "seen1 = dev # seen"
    "dev \<notin> set seen" "checkSpace b st = Inr ()" by auto
  from Cons.IH[OF 2] obtain sts devs where r: "filesystems tr' = filesystems tr1 @ sts" "list_all2 (\<lambda>b st. checkSpace b st = Inr ()) budgets sts"
    "devices tr' = devices tr1 @ devs" "length devs = length budgets" "distinct devs" "set devs \<inter> set seen1 = {}" by auto
  have "filesystems tr' = filesystems tr @ (st # sts)" "list_all2 (\<lambda>b st. checkSpace b st = Inr ()) (b # budgets) (st # sts)"
    "devices tr' = devices tr @ (dev # devs)" "length (dev # devs) = length (b # budgets)" "distinct (dev # devs)" "set (dev # devs) \<inter> set seen = {}"
    using b r by auto
  then show ?case by blast
qed (simp add: ret_def)

text \<open>C40. When the capacity check passes, every budget's mount was a filesystem of its own (no two budgets share a device), its size
  was within the declared limit and its free blocks hold the required bytes, margin included; block sizes below \<open>2 ^ 62\<close> keep the
  rounding from wrapping around.\<close>
theorem CheckCapacity_room:
  assumes "CheckCapacity (cap_traced C) budgets (w, []) = (Inr (), (w', tr))" "list_all (\<lambda>st. sf_Bsize st < 2 ^ 62) (filesystems tr)"
  shows "list_all2 room_for budgets (filesystems tr) \<and> length (devices tr) = length budgets \<and> distinct (devices tr)"
proof -
  from assms(1) obtain mounted w1 tr1 seen where e: "each_fold (check_budget (cap_traced C) mounted) budgets [] (w1, tr1) = (Inr seen, (w', tr))" and t: "tr1 = []"
    by (auto simp: CheckCapacity_def cap_traced_def[of C] attempt_def pass_call_def lift_def ret_def fail_def andthen_def split: if_splits prod.splits sum.splits)
  from check_budgets_log[OF e] obtain sts where "filesystems tr = sts" "list_all2 (\<lambda>b st. checkSpace b st = Inr ()) budgets sts"
    "length (devices tr) = length budgets" "distinct (devices tr)" by (auto simp: t filesystems_def devices_def map_filter_def)
  moreover from this(2) assms(2) have "list_all2 room_for budgets sts" unfolding calculation(1)
    by (induction rule: list_all2_induct) (auto intro: checkSpace_room)
  ultimately show ?thesis by simp
qed

section \<open>Examples\<close>

text \<open>A host with one filesystem of a mebibyte, all of it free.\<close>

definition ex_capacity :: "unit cap_sys" where
  "ex_capacity = \<lparr>cs_mountinfo = ret (''36 35 98:0 / /mnt rw - ext4 /dev/vda rw x'' @ [CHR 0x0a], False), cs_eval = ret, cs_opendir = (\<lambda>_. ret 3),
     cs_fstatfs = (\<lambda>_. ret \<lparr>sf_Type = EXT4_SUPER_MAGIC, sf_Bsize = 4096, sf_Blocks = 256, sf_Bavail = 256\<rparr>), cs_fstat = (\<lambda>_. ret (98, 0))\<rparr>"

definition ex_budget :: fs_budget where
  "ex_budget = \<lparr>fb_Mount = ''/mnt'', fb_LimitBytes = 1048576, fb_RequiredBytes = 1000000\<rparr>"

definition ex_cap_log :: "cap_event list" where
  "ex_cap_log = [CapStatfs (Inr \<lparr>sf_Type = EXT4_SUPER_MAGIC, sf_Bsize = 4096, sf_Blocks = 256, sf_Bavail = 256\<rparr>), CapDevice (Inr (98, 0))]"

lemma ex_mounts: "mounts (''36 35 98:0 / /mnt rw - ext4 /dev/vda rw x'' @ [CHR 0x0a], False) =
  Inr [\<lparr>mr_device = ''98:0'', mr_root = ''/'', mr_path = ''/mnt'', mr_fs = ''ext4'', mr_readOnly = False\<rparr>]"
proof -
  have "mount_loop (scan_lines (''36 35 98:0 / /mnt rw - ext4 /dev/vda rw x'' @ [CHR 0x0a])) 0 [] =
      Inr [\<lparr>mr_device = ''98:0'', mr_root = ''/'', mr_path = ''/mnt'', mr_fs = ''ext4'', mr_readOnly = False\<rparr>]" by code_simp
  then show ?thesis by (simp add: mounts_def)
qed

lemma ex_check_budget: "check_budget (cap_traced ex_capacity) [\<lparr>mr_device = ''98:0'', mr_root = ''/'', mr_path = ''/mnt'', mr_fs = ''ext4'', mr_readOnly = False\<rparr>]
  ex_budget [] ((), []) = (Inr [''98:0''], ((), ex_cap_log))"
  by code_simp

lemma ex_check: "CheckCapacity (cap_traced ex_capacity) [ex_budget] ((), []) = (Inr (), ((), ex_cap_log))"
proof -
  have "cs_mountinfo (cap_traced ex_capacity) ((), []) = (Inr (''36 35 98:0 / /mnt rw - ext4 /dev/vda rw x'' @ [CHR 0x0a], False), ((), []))"
    by (simp add: cap_traced_def ex_capacity_def pass_call_def ret_def)
  then show ?thesis using ex_mounts ex_check_budget
    by (simp add: CheckCapacity_def attempt_def andthen_def lift_def ret_def fail_def)
qed

theorem CheckCapacity_room_witness:
  "list_all2 room_for [ex_budget] (filesystems ex_cap_log) \<and> length (devices ex_cap_log) = 1 \<and> distinct (devices ex_cap_log)"
proof -
  have "list_all (\<lambda>st. sf_Bsize st < 2 ^ 62) (filesystems ex_cap_log)" by (simp add: ex_cap_log_def filesystems_def map_filter_def)
  from CheckCapacity_room[OF ex_check this] show ?thesis by simp
qed

definition ex_new_env :: new_env where
  "ex_new_env = \<lparr>ne_parse = (\<lambda>_. Some \<lparr>url_Scheme = ''https'', url_Host = ''s3.example'', url_User = False, url_RawQuery = [], url_ForceQuery = False,
     url_Fragment = [], url_Path = [], url_RawPath = []\<rparr>), ne_express = (\<lambda>_ _. False), ne_amazon = (\<lambda>_. False), ne_bucketName = (\<lambda>_. True),
     ne_systemPool = True, ne_pem = (\<lambda>_. None), ne_core = True\<rparr>"

definition ex_config_env :: "int config_env" where
  "ex_config_env = \<lparr>ce_url = ne_parse ex_new_env, ce_dns = (\<lambda>_. True), ce_key = (\<lambda>_. True), ce_quantity = (\<lambda>_. Some (256 * GiB)), ce_must = (\<lambda>_. 1),
     ce_value = (\<lambda>q. q), ce_sign = sgn, ce_cmp = (\<lambda>a b. sgn (a - b)), ce_float = (\<lambda>f u s. f * u div s)\<rparr>"

definition ex_spec :: "int repo_spec" where
  "ex_spec = (let d = Defaults ex_config_env; sel = \<lparr>sel_Name = ''s3'', sel_Key = ''k''\<rparr> in d
     \<lparr>sp_RepositoryID := ''01234567-89ab-4def-8123-456789abcdef'',
      sp_S3 := (sp_S3 d)\<lparr>s3_Endpoint := ''https://s3.example'', s3_Bucket := ''backups'', s3_Prefix := ''prod/pg'', s3_AccessKeySecret := sel, s3_SecretKeySecret := sel\<rparr>,
      sp_Workspace := (sp_Workspace d)\<lparr>ws_StorageClassName := ''fast''\<rparr>\<rparr>)"

definition ex_snapshot :: "int snapshot" where
  "ex_snapshot = \<lparr>sn_Spec = ex_spec, sn_AccessKey = ''a'', sn_SecretKey = ''b'', sn_SessionToken = [], sn_CA = []\<rparr>"

theorem Store_of_validated_spec_witness:
  "case Snapshot_Store ex_config_env ex_new_env ex_snapshot of
     Inr st \<Rightarrow> adapter_accepts ex_new_env ex_snapshot \<and> st = snapshot_store ex_config_env ex_snapshot
   | Inl _ \<Rightarrow> \<not> adapter_accepts ex_new_env ex_snapshot"
proof -
  have "Spec_Validate ex_config_env (sn_Spec ex_snapshot) = Inr ()" by code_simp
  moreover have "ce_url ex_config_env = ne_parse ex_new_env" by (simp add: ex_config_env_def)
  ultimately show ?thesis by (rule Store_of_validated_spec)
qed

end
