(* ===== verification/Pg_Native.thy ===== *)
theory Pg_Native
  imports Config_Capacity Wal_Files
begin

text \<open>
  Native PostgreSQL inputs (postgres/archive.go): the backup manifest, the tar archives of a base
  backup and the names of WAL segments. The manifest is read from its bytes. \<open>archive/tar\<close> is the
  argument \<open>untar\<close>, which splits a stream into members.
\<close>

section \<open>Paths and hashes\<close>

definition ErrInput :: err where
  "ErrInput = PlainErr ''invalid or over-budget native input''"

definition maxEntries :: int where
  "maxEntries = 100000"

definition maxFileBytes :: int where
  "maxFileBytes = 1074790400"

definition nativePath :: "string \<Rightarrow> bool" where
  "nativePath p \<longleftrightarrow> p \<noteq> [] \<and> length p \<le> 1023 \<and> Clean p = p \<and> \<not> IsAbs p \<and> \<not> contains_any p [CHR 0x00, CHR 0x5c, CHR 0x0d, CHR 0x0a] \<and>
     list_all (\<lambda>c. c \<noteq> [] \<and> c \<noteq> ''.'' \<and> c \<noteq> ''..'') (split_on (CHR ''/'') p)"

definition hashText :: "string \<Rightarrow> bool" where
  "hashText s = (case hex_decode s of None \<Rightarrow> False | Some b \<Rightarrow> length b = 32)"

section \<open>Typed decoding\<close>

text \<open>\<open>encoding/json\<close> finds the field of a member by its name, or else by its name under case folding; two
  letters outside ASCII fold to ASCII ones, the long s and the Kelvin sign. \<open>null\<close> leaves the destination alone.\<close>

fun json_fold :: "string \<Rightarrow> string" where
  "json_fold [] = []"
| "json_fold (c # s) =
     (if has_prefix (c # s) [CHR 0xC5, CHR 0xBF] then CHR ''S'' # json_fold (drop 1 s)
      else if has_prefix (c # s) [CHR 0xE2, CHR 0x84, CHR 0xAA] then CHR ''K'' # json_fold (drop 2 s)
      else (if 97 \<le> (of_char c :: nat) \<and> (of_char c :: nat) \<le> 122 then char_of ((of_char c :: nat) - 32) else c) # json_fold s)"

definition json_field :: "(string \<times> 'f) list \<Rightarrow> string \<Rightarrow> 'f option" where
  "json_field fs k = (case map_of fs k of Some f \<Rightarrow> Some f | None \<Rightarrow> map_option snd (find (\<lambda>(n, _). json_fold n = json_fold k) fs))"

definition dec_into :: "(string \<times> (json \<Rightarrow> 'a \<Rightarrow> 'a option)) list \<Rightarrow> 'a \<Rightarrow> json \<Rightarrow> 'a option" where
  "dec_into fs x j = (case j of
     JNull \<Rightarrow> Some x
   | JObj ms \<Rightarrow> fold (\<lambda>(k, v) acc. Option.bind acc (\<lambda>a. Option.bind (json_field fs k) (\<lambda>f. f v a))) ms (Some x)
   | _ \<Rightarrow> None)"

definition into :: "(json \<Rightarrow> 'b option) \<Rightarrow> ('b \<Rightarrow> 'a \<Rightarrow> 'a) \<Rightarrow> json \<Rightarrow> 'a \<Rightarrow> 'a option" where
  "into dec upd j x = (if j = JNull then Some x else map_option (\<lambda>v. upd v x) (dec j))"

definition dec_bytes :: "(json \<Rightarrow> 'a option) \<Rightarrow> bytes \<Rightarrow> 'a option" where
  "dec_bytes dec b = Option.bind (parse_json b) dec"

section \<open>The manifest\<close>

record native_manifest =
  nm_SystemIdentifier :: int
  nm_Files :: "(string \<times> int) list"
  nm_Ranges :: "wal_range list"

record manifest_file =
  mf_Path :: string
  mf_EncodedPath :: string
  mf_Size :: int
  mf_LastModified :: string
  mf_ChecksumAlgorithm :: string
  mf_Checksum :: string

definition dec_manifest_file :: "json \<Rightarrow> manifest_file option" where
  "dec_manifest_file = dec_into
     [(''Path'', into dec_str (\<lambda>v f. f\<lparr>mf_Path := v\<rparr>)), (''Encoded-Path'', into dec_str (\<lambda>v f. f\<lparr>mf_EncodedPath := v\<rparr>)),
      (''Size'', into dec_int (\<lambda>v f. f\<lparr>mf_Size := v\<rparr>)), (''Last-Modified'', into dec_str (\<lambda>v f. f\<lparr>mf_LastModified := v\<rparr>)),
      (''Checksum-Algorithm'', into dec_str (\<lambda>v f. f\<lparr>mf_ChecksumAlgorithm := v\<rparr>)), (''Checksum'', into dec_str (\<lambda>v f. f\<lparr>mf_Checksum := v\<rparr>))]
     \<lparr>mf_Path = [], mf_EncodedPath = [], mf_Size = 0, mf_LastModified = [], mf_ChecksumAlgorithm = [], mf_Checksum = []\<rparr>"

definition dec_range :: "json \<Rightarrow> wal_range option" where
  "dec_range = dec_into
     [(''Timeline'', into dec_u32 (\<lambda>v f. f\<lparr>wr_Timeline := v\<rparr>)), (''Start-LSN'', into dec_str (\<lambda>v f. f\<lparr>wr_StartLSN := v\<rparr>)), (''End-LSN'', into dec_str (\<lambda>v f. f\<lparr>wr_EndLSN := v\<rparr>))]
     \<lparr>wr_Timeline = 0, wr_StartLSN = [], wr_EndLSN = []\<rparr>"

definition dec_slice :: "(json \<Rightarrow> 'a option) \<Rightarrow> json \<Rightarrow> 'a list option" where
  "dec_slice dec j = (if j = JNull then Some [] else dec_list dec j)"

text \<open>A value with the bytes that spell it (\<open>json.RawMessage\<close>), the elements of an array after its bracket and the
  members of an object after its brace. The number bounds the nesting as in \<open>parse_value\<close>.\<close>

definition raw_value :: "nat \<Rightarrow> string \<Rightarrow> ((json \<times> string) \<times> string) option" where
  "raw_value n s = map_option (\<lambda>(j, r). ((j, take (length (skip_ws s) - length r) (skip_ws s)), r)) (parse_value n s)"

fun raw_elems :: "nat \<Rightarrow> string \<Rightarrow> ((json \<times> string) list \<times> string) option" where
  "raw_elems 0 s = None"
| "raw_elems (Suc n) s = Option.bind (raw_value (2 * length s + 1) s) (\<lambda>(v, r). case skip_ws r of
     [] \<Rightarrow> None
   | c # t \<Rightarrow>
      if c = CHR '','' then map_option (\<lambda>(vs, t). (v # vs, t)) (raw_elems n t)
      else if c = CHR '']'' then Some ([v], t) else None)"

fun raw_members :: "nat \<Rightarrow> string \<Rightarrow> ((string \<times> json \<times> string) list \<times> string) option" where
  "raw_members 0 s = None"
| "raw_members (Suc n) s = (case skip_ws s of
     [] \<Rightarrow> None
   | q # k \<Rightarrow>
      if q \<noteq> CHR 0x22 then None
      else Option.bind (parse_str k) (\<lambda>(key, r). case skip_ws r of
          [] \<Rightarrow> None
        | d # u \<Rightarrow>
           if d \<noteq> CHR '':'' then None
           else Option.bind (raw_value (2 * length u + 1) u) (\<lambda>(v, r). case skip_ws r of
               [] \<Rightarrow> None
             | c # t \<Rightarrow>
                if c = CHR '','' then map_option (\<lambda>(ms, t). ((key, v) # ms, t)) (raw_members n t)
                else if c = CHR ''}'' then Some ([(key, v)], t) else None)))"

definition raw_array :: "string \<Rightarrow> (json \<times> string) list option" where
  "raw_array s = (case skip_ws s of
     c # r \<Rightarrow> if c \<noteq> CHR ''['' then None
       else (case skip_ws r of d # t \<Rightarrow> if d = CHR '']'' then Some [] else map_option fst (raw_elems (length r) r) | [] \<Rightarrow> None)
   | [] \<Rightarrow> None)"

definition raw_object :: "string \<Rightarrow> ((string \<times> json \<times> string) list \<times> string) option" where
  "raw_object s = (case skip_ws s of
     c # r \<Rightarrow> if c \<noteq> CHR ''{'' then None
       else (case skip_ws r of d # t \<Rightarrow> if d = CHR ''}'' then Some ([], t) else raw_members (length r) r | [] \<Rightarrow> None)
   | [] \<Rightarrow> None)"

definition wal_dir :: string where
  "wal_dir = ''pg_wal/''"

definition status_dir :: string where
  "status_dir = ''pg_wal/archive_status/''"

text \<open>One record of \<open>Files\<close>.\<close>

definition scan_file :: "bool \<Rightarrow> json \<times> string \<Rightarrow> (string \<times> int) list \<Rightarrow> err + (string \<times> int) list" where
  "scan_file synthetic = (\<lambda>(j, raw) files.
     if int (length raw) > 16384 \<or> int (length files) \<ge> maxEntries then Inl ErrInput
     else case StrictJSON (dec_bytes dec_manifest_file) raw of
       Inl _ \<Rightarrow> Inl ErrInput
     | Inr f \<Rightarrow>
        if (mf_Path f = []) = (mf_EncodedPath f = []) \<or> mf_Size f < 0 \<or> mf_Size f > maxFileBytes \<or> mf_LastModified f = [] then Inl ErrInput
        else case (if mf_EncodedPath f \<noteq> [] then map_option (map char_of) (hex_decode (mf_EncodedPath f)) else Some (mf_Path f)) of
          None \<Rightarrow> Inl ErrInput
        | Some p \<Rightarrow>
           if \<not> nativePath p then Inl ErrInput
           else let walFile = has_prefix p wal_dir \<and> ValidWALFilename (trim_prefix p wal_dir);
                    done = has_prefix p status_dir \<and> has_suffix p ''.done'' \<and> mf_Size f = 0 \<and> ValidWALFilename (trim_suffix (trim_prefix p status_dir) ''.done'');
                    unchecksummed = synthetic \<and> (walFile \<or> done) \<and> mf_ChecksumAlgorithm f = [] \<and> mf_Checksum f = []
             in if \<not> unchecksummed \<and> (mf_ChecksumAlgorithm f \<noteq> ''SHA256'' \<or> \<not> hashText (mf_Checksum f)) then Inl ErrInput
                else if p \<in> fst ` set files then Inl ErrInput
                else Inr (files @ [(p, mf_Size f)]))"

definition range_fine :: "wal_range \<Rightarrow> bool" where
  "range_fine r = (case (ParseLSN (wr_StartLSN r), ParseLSN (wr_EndLSN r)) of
     (Some a, Some b) \<Rightarrow> wr_Timeline r \<noteq> 0 \<and> a < b
   | _ \<Rightarrow> False)"

text \<open>One member of the document; \<open>seen\<close> are the keys so far.\<close>

definition scan_member :: "bool \<Rightarrow> string \<times> json \<times> string \<Rightarrow> string list \<times> native_manifest \<Rightarrow> err + string list \<times> native_manifest" where
  "scan_member synthetic = (\<lambda>(key, j, raw) (seen, m).
     if key \<in> set seen then Inl ErrInput
     else res_bind
       (if key = ''PostgreSQL-Backup-Manifest-Version'' then (if dec_int j = Some 2 then Inr m else Inl ErrInput)
        else if key = ''System-Identifier'' then
          (case j of JNum s \<Rightarrow> (case parse_uint 10 64 s of Some n \<Rightarrow> if n = 0 then Inl ErrInput else Inr (m\<lparr>nm_SystemIdentifier := n\<rparr>) | None \<Rightarrow> Inl ErrInput) | _ \<Rightarrow> Inl ErrInput)
        else if key = ''Manifest-Checksum'' then (case j of JStr s \<Rightarrow> if hashText s then Inr m else Inl ErrInput | _ \<Rightarrow> Inl ErrInput)
        else if key = ''Files'' then
          (case raw_array raw of
             None \<Rightarrow> Inl ErrInput
           | Some es \<Rightarrow> res_bind (fold_res (scan_file synthetic) es (nm_Files m)) (\<lambda>fs. Inr (m\<lparr>nm_Files := fs\<rparr>)))
        else if key = ''WAL-Ranges'' then
          (if int (length raw) > 4096 then Inl ErrInput
           else case StrictJSON (dec_bytes (dec_slice dec_range)) raw of
             Inl _ \<Rightarrow> Inl ErrInput
           | Inr rs \<Rightarrow> if length rs \<noteq> 1 \<or> \<not> list_all range_fine rs then Inl ErrInput else Inr (m\<lparr>nm_Ranges := nm_Ranges m @ rs\<rparr>))
        else Inl ErrInput)
       (\<lambda>m. Inr (key # seen, m)))"

text \<open>\<open>data\<close> is what the reader delivers, \<open>ok\<close> whether it ended without an error. The whole document is split before its
  members are judged; the code judges them while it reads, and every failure is the same error.\<close>

definition scanManifest :: "bytes \<times> bool \<Rightarrow> bool \<Rightarrow> err + native_manifest" where
  "scanManifest = (\<lambda>(data, ok) synthetic. let d = take (nat (MaxManifestBytes + 1)) data in
     case raw_object d of
       None \<Rightarrow> Inl ErrInput
     | Some (ms, rest) \<Rightarrow>
        res_bind (fold_res (scan_member synthetic) ms ([], \<lparr>nm_SystemIdentifier = 0, nm_Files = [], nm_Ranges = []\<rparr>)) (\<lambda>(seen, m).
          if length seen \<noteq> 5 \<or> nm_Files m = [] then Inl ErrInput
          else if (\<not> ok \<and> int (length data) \<le> MaxManifestBytes) \<or> skip_ws rest \<noteq> [] \<or> int (length d - length rest) > MaxManifestBytes then Inl ErrInput
          else Inr m))"

definition ScanManifest :: "bytes \<times> bool \<Rightarrow> err + native_manifest" where
  "ScanManifest r = scanManifest r False"

end
