(* ===== verification/Pg_Archive.thy ===== *)
theory Pg_Archive
  imports Pg_Native
begin

text \<open>
  The tar archives of a base backup (postgres/archive.go): the bounded scan that accepts only plain
  files and directories of one consistent tree, the copy of a member, and WAL segment names.
\<close>

section \<open>Streams\<close>

text \<open>What the code reads of a tar header. \<open>th_Ustar\<close> is whether the format is USTAR or unknown, \<open>th_PAX\<close> whether there are
  PAX records.\<close>

datatype tar_type = TypeReg | TypeDir | TypeOther

record tar_header =
  th_Name :: string
  th_Type :: tar_type
  th_Ustar :: bool
  th_PAX :: bool
  th_Linkname :: string
  th_Size :: int

text \<open>A member's content, and whether it could be read to its end.\<close>

record tar_member =
  tm_Header :: tar_header
  tm_Data :: bytes
  tm_Whole :: bool

text \<open>How the members end: \<open>Next\<close> returned \<open>io.EOF\<close> after consuming some bytes, or failed.\<close>

datatype tar_end = TarEOF int | TarError

text \<open>\<open>tar_Rest\<close> are the bytes of the limited input after what \<open>archive/tar\<close> consumed, \<open>tar_Clean\<close> whether they could be read.\<close>

record tar_stream =
  tar_Members :: "tar_member list"
  tar_End :: tar_end
  tar_Rest :: bytes
  tar_Clean :: bool

section \<open>The scan\<close>

record archive_inventory =
  ai_files :: "(string \<times> int) list"
  ai_dirs :: "string list"
  ai_entries :: int
  ai_bytes :: int

text \<open>The loop over \<open>path.Dir\<close> up to the dot, for a path of plain elements: its proper ancestors, nearest first.\<close>

definition ancestors :: "string \<Rightarrow> string list" where
  "ancestors p = (let es = split_on (CHR ''/'') p in map (\<lambda>n. join_with (CHR ''/'') (take n es)) (rev [1..<length es]))"

definition ancestors_fine :: "(string \<times> tar_type) list \<Rightarrow> string \<Rightarrow> bool" where
  "ancestors_fine seen p = list_all (\<lambda>a. case map_of seen a of Some t \<Rightarrow> t = TypeDir | None \<Rightarrow> True) (ancestors p)"

definition entry_name :: "tar_header \<Rightarrow> string" where
  "entry_name h = (if th_Type h = TypeDir then
       let name = trim_suffix (th_Name h) ''/'' in
       if name = ''./pg_wal/archive_status'' \<or> name = ''./pg_wal/summaries'' then trim_prefix name ''./'' else name
     else th_Name h)"

definition header_fine :: "tar_header \<Rightarrow> bool" where
  "header_fine h \<longleftrightarrow> nativePath (entry_name h) \<and> th_Ustar h \<and> \<not> th_PAX h \<and> th_Linkname h = [] \<and> 0 \<le> th_Size h \<and> th_Size h \<le> maxFileBytes \<and>
     (th_Type h = TypeReg \<or> th_Type h = TypeDir)"

text \<open>The state of the loop: the inventory, the map \<open>seen\<close> and the padding of the last member.\<close>

record scan_state =
  sc_inv :: archive_inventory
  sc_seen :: "(string \<times> tar_type) list"
  sc_padding :: int

definition scan_entry :: "int \<Rightarrow> (string \<Rightarrow> int \<Rightarrow> bytes \<times> bool \<Rightarrow> ('w, unit) act) \<Rightarrow> tar_member \<Rightarrow> scan_state \<Rightarrow> ('w, scan_state) act" where
  "scan_entry limit visit m st = (let h = tm_Header m; name = entry_name h in
     if \<not> header_fine h then fail ErrInput
     else if name \<in> fst ` set (sc_seen st) then fail ErrInput
     else let seen = (name, th_Type h) # sc_seen st in
       if \<not> ancestors_fine seen name then fail ErrInput
       else let inv = sc_inv st; inv = inv\<lparr>ai_entries := ai_entries inv + 1, ai_bytes := ai_bytes inv + th_Size h\<rparr> in
         if ai_entries inv > maxEntries \<or> ai_bytes inv > limit \<or> th_Type h = TypeDir \<and> th_Size h \<noteq> 0 then fail ErrInput
         else let inv = (if th_Type h = TypeDir then inv\<lparr>ai_dirs := ai_dirs inv @ [name]\<rparr> else inv\<lparr>ai_files := ai_files inv @ [(name, th_Size h)]\<rparr>) in
           andthen (if th_Type h = TypeReg then visit name (th_Size h) (tm_Data m, tm_Whole m) else ret ()) (\<lambda>_.
             if \<not> tm_Whole m then fail ErrInput
             else ret \<lparr>sc_inv = inv, sc_seen = seen, sc_padding = (512 - th_Size h mod 512) mod 512\<rparr>))"

definition scan_start :: scan_state where
  "scan_start = \<lparr>sc_inv = \<lparr>ai_files = [], ai_dirs = [], ai_entries = 0, ai_bytes = 0\<rparr>, sc_seen = [], sc_padding = 0\<rparr>"

text \<open>The second round over every name seen, with the context looked at each time; the map's order is not fixed, here it is
  the order of the entries.\<close>

definition scan_again :: "('w, unit) act \<Rightarrow> scan_state \<Rightarrow> ('w, unit) act" where
  "scan_again alive st = each (\<lambda>(name, _). andthen alive (\<lambda>_. check (ancestors_fine (sc_seen st) name) ErrInput)) (rev (sc_seen st))"

definition scanArchive :: "(bytes \<Rightarrow> tar_stream) \<Rightarrow> ('w, unit) act \<Rightarrow> bytes \<Rightarrow> int \<Rightarrow> (string \<Rightarrow> int \<Rightarrow> bytes \<times> bool \<Rightarrow> ('w, unit) act) \<Rightarrow> ('w, archive_inventory) act" where
  "scanArchive untar alive data limit visit = (let s = untar (take (nat (limit + 1)) data) in
     andthen (each_fold (scan_entry limit visit) (tar_Members s) scan_start) (\<lambda>st.
       case tar_End s of
         TarError \<Rightarrow> fail ErrInput
       | TarEOF n \<Rightarrow>
          if n \<noteq> 1024 + sc_padding st then fail ErrInput
          else if \<not> tar_Clean s \<or> int (length (tar_Rest s)) > 10240 \<or> \<not> list_all (\<lambda>c. c = CHR 0x00) (tar_Rest s) \<or> int (length data) > limit then fail ErrInput
          else andthen (scan_again alive st) (\<lambda>_. ret (sc_inv st))))"

section \<open>WAL segment names\<close>

text \<open>The arguments are a timeline and a position; \<open>leftHex\<close> panics on numbers of more than eight digits, which a quotient by at
  least a mebibyte does not have.\<close>

definition leftHex :: "int \<Rightarrow> string" where
  "leftHex n = (let s = map digit_char (to_base 16 n) in replicate (8 - length s) (CHR ''0'') @ s)"

definition to_upper_char :: "char \<Rightarrow> char" where
  "to_upper_char c = (let n = of_char c :: nat in if 97 \<le> n \<and> n \<le> 122 then char_of (n - 32) else c)"

definition WALFilename :: "u32 \<Rightarrow> u64 \<Rightarrow> int \<Rightarrow> string" where
  "WALFilename timeline lsn segmentBytes = (let n = uint lsn div segmentBytes; per = 2 ^ 32 div segmentBytes in
     map to_upper_char (leftHex (uint timeline) @ leftHex (n div per) @ leftHex (n mod per)))"

section \<open>Lemmas\<close>

lemma validPath_native: "nativePath p \<Longrightarrow> list_all (\<lambda>e. path_elem e \<and> e \<noteq> ''..'') (split_on (CHR ''/'') p)"
  by (auto simp: nativePath_def path_elem_def list_all_iff)

text \<open>What the scan has established of the names seen so far.\<close>

definition scan_inv :: "int \<Rightarrow> scan_state \<Rightarrow> bool" where
  "scan_inv limit st \<longleftrightarrow> distinct (map fst (sc_seen st)) \<and> list_all (\<lambda>(n, t). nativePath n \<and> t \<noteq> TypeOther) (sc_seen st) \<and>
     map fst (ai_files (sc_inv st)) = map fst (filter (\<lambda>(n, t). t = TypeReg) (rev (sc_seen st))) \<and>
     ai_dirs (sc_inv st) = map fst (filter (\<lambda>(n, t). t = TypeDir) (rev (sc_seen st))) \<and>
     ai_entries (sc_inv st) = int (length (sc_seen st)) \<and> ai_entries (sc_inv st) \<le> maxEntries \<and>
     ai_bytes (sc_inv st) = sum_list (map snd (ai_files (sc_inv st))) \<and> (sc_seen st = [] \<or> ai_bytes (sc_inv st) \<le> limit) \<and>
     list_all (\<lambda>(n, z). 0 \<le> z \<and> z \<le> maxFileBytes) (ai_files (sc_inv st))"

lemma scan_entry_inv:
  assumes "scan_inv limit st" "scan_entry limit visit m st w = (Inr st', w')"
  shows "scan_inv limit st'"
proof -
  let ?h = "tm_Header m"
  have h: "header_fine ?h" "entry_name ?h \<notin> fst ` set (sc_seen st)" using assms(2) by (auto simp: scan_entry_def Let_def fail_def split: if_splits)
  show ?thesis
    using assms h
    by (cases "th_Type ?h") (auto simp: scan_entry_def Let_def scan_inv_def header_fine_def ok_runs split: if_splits)
qed

lemma scan_again_fine:
  "scan_again alive st w = (Inr (), w') \<Longrightarrow> (n, t) \<in> set (sc_seen st) \<Longrightarrow> ancestors_fine (sc_seen st) n"
proof -
  have "each (\<lambda>(name, _). andthen alive (\<lambda>_. check (ancestors_fine S name) ErrInput)) xs w = (Inr (), w') \<Longrightarrow> (n, t) \<in> set xs \<Longrightarrow> ancestors_fine S n"
    for S xs w by (induction xs arbitrary: w) (auto simp: ok_runs)
  then show "scan_again alive st w = (Inr (), w') \<Longrightarrow> (n, t) \<in> set (sc_seen st) \<Longrightarrow> ancestors_fine (sc_seen st) n"
    unfolding scan_again_def by (metis set_rev)
qed

text \<open>A tree: distinct plain paths, none of them below a file.\<close>

definition archive_tree :: "int \<Rightarrow> archive_inventory \<Rightarrow> bool" where
  "archive_tree limit a \<longleftrightarrow> (let files = map fst (ai_files a); names = files @ ai_dirs a in
     distinct names \<and> list_all nativePath names \<and> list_all (\<lambda>p. list_all (\<lambda>q. q \<notin> set files) (ancestors p)) names \<and>
     int (length names) = ai_entries a \<and> ai_entries a \<le> maxEntries \<and> sum_list (map snd (ai_files a)) = ai_bytes a \<and> ai_bytes a \<le> limit \<and>
     list_all (\<lambda>(n, z). 0 \<le> z \<and> z \<le> maxFileBytes) (ai_files a))"

lemma keys_partition:
  "distinct (map fst xs) \<Longrightarrow> distinct (map fst (filter (\<lambda>(n, t). t = TypeReg) xs) @ map fst (filter (\<lambda>(n, t). t = TypeDir) xs))"
  "\<forall>(n, t) \<in> set xs. t = TypeReg \<or> t = TypeDir \<Longrightarrow> length (filter (\<lambda>(n, t). t = TypeReg) xs) + length (filter (\<lambda>(n, t). t = TypeDir) xs) = length xs"
  "\<forall>(n, t) \<in> set xs. t = TypeReg \<or> t = TypeDir \<Longrightarrow>
     fst ` set (filter (\<lambda>(n, t). t = TypeReg) xs) \<union> fst ` set (filter (\<lambda>(n, t). t = TypeDir) xs) = fst ` set xs"
  by (induction xs) (auto 0 3 simp: image_iff)

lemma seen_names:
  assumes "scan_inv limit st"
  shows "set (map fst (ai_files (sc_inv st)) @ ai_dirs (sc_inv st)) = fst ` set (sc_seen st)"
    and "distinct (map fst (ai_files (sc_inv st)) @ ai_dirs (sc_inv st))"
    and "length (map fst (ai_files (sc_inv st)) @ ai_dirs (sc_inv st)) = length (sc_seen st)"
proof -
  have "t = TypeReg \<or> t = TypeDir" if "(n, t) \<in> set (sc_seen st)" for n t using assms that by (cases t) (auto simp: scan_inv_def list_all_iff)
  then have r: "\<forall>(n, t) \<in> set (sc_seen st). t = TypeReg \<or> t = TypeDir" by auto
  have d: "distinct (map fst (rev (sc_seen st)))" using assms by (simp add: scan_inv_def rev_map[symmetric])
  have e: "map fst (ai_files (sc_inv st)) = map fst (filter (\<lambda>(n, t). t = TypeReg) (rev (sc_seen st)))" "ai_dirs (sc_inv st) = map fst (filter (\<lambda>(n, t). t = TypeDir) (rev (sc_seen st)))"
    using assms by (simp_all add: scan_inv_def)
  have r': "\<forall>(n, t) \<in> set (rev (sc_seen st)). t = TypeReg \<or> t = TypeDir" using r by simp
  show "set (map fst (ai_files (sc_inv st)) @ ai_dirs (sc_inv st)) = fst ` set (sc_seen st)"
    unfolding e set_append set_map keys_partition(3)[OF r'] set_rev ..
  show "distinct (map fst (ai_files (sc_inv st)) @ ai_dirs (sc_inv st))" unfolding e by (rule keys_partition(1)[OF d])
  show "length (map fst (ai_files (sc_inv st)) @ ai_dirs (sc_inv st)) = length (sc_seen st)"
    unfolding e length_append length_map keys_partition(2)[OF r'] length_rev ..
qed

lemma scan_state_tree:
  assumes i: "scan_inv limit st" and l: "0 \<le> limit" and a: "\<And>n t. (n, t) \<in> set (sc_seen st) \<Longrightarrow> ancestors_fine (sc_seen st) n"
  shows "archive_tree limit (sc_inv st)"
proof -
  let ?files = "map fst (ai_files (sc_inv st))" and ?names = "map fst (ai_files (sc_inv st)) @ ai_dirs (sc_inv st)"
  have d: "distinct (map fst (sc_seen st))" using i by (simp add: scan_inv_def)
  have nf: "q \<notin> set ?files" if "p \<in> set ?names" "q \<in> set (ancestors p)" for p q
  proof
    assume "q \<in> set ?files"
    moreover have "?files = map fst (filter (\<lambda>(n, t). t = TypeReg) (rev (sc_seen st)))" using i by (simp add: scan_inv_def)
    ultimately have "q \<in> set (map fst (filter (\<lambda>(n, t). t = TypeReg) (rev (sc_seen st))))" by metis
    then have "(q, TypeReg) \<in> set (sc_seen st)" by auto
    then have "map_of (sc_seen st) q = Some TypeReg" using d by simp
    moreover have "p \<in> fst ` set (sc_seen st)" using that(1) seen_names(1)[OF i] by blast
    then have "ancestors_fine (sc_seen st) p" using a by force
    ultimately show False using that(2) by (auto simp: ancestors_fine_def list_all_iff)
  qed
  have "list_all nativePath ?names" using i seen_names(1)[OF i] by (force simp: scan_inv_def list_all_iff)
  moreover have "ai_bytes (sc_inv st) \<le> limit" using i l by (cases "sc_seen st = []") (auto simp: scan_inv_def)
  ultimately show ?thesis using i seen_names(2,3)[OF i] nf by (auto simp: archive_tree_def Let_def list_all_iff scan_inv_def)
qed

section \<open>Segment names read back\<close>

lemma of_base_zeros: "of_base b (replicate k 0 @ ds) = of_base b ds"
  by (induction k) (simp_all add: of_base_def)

lemma upper_digit: "0 \<le> d \<Longrightarrow> d < 16 \<Longrightarrow> to_upper_char (digit_char d) = digit_CHAR d"
proof -
  assume "0 \<le> d" "d < 16"
  then have n: "nat d \<in> set [0..<16]" "int (nat d) = d" by auto
  have "list_all (\<lambda>k. to_upper_char (digit_char (int k)) = digit_CHAR (int k)) [0..<16]" by code_simp
  then have "to_upper_char (digit_char (int (nat d))) = digit_CHAR (int (nat d))" using n(1) unfolding list_all_iff by blast
  then show ?thesis by (simp only: n(2))
qed

lemma leftHex_field:
  assumes "0 \<le> n" "n < 2 ^ 32"
  shows "hexes 8 (map to_upper_char (leftHex n))" "parse_uint 16 32 (map to_upper_char (leftHex n)) = Some n"
proof -
  note h = format_HEX_half[OF assms]
  have d: "\<forall>d \<in> set (to_base 16 n). 0 \<le> d \<and> d < 16" using assms(1) to_base_digits[of 16 n] by auto
  have u: "map to_upper_char (map digit_char (to_base 16 n)) = format_HEX n" using d by (simp add: format_HEX_def upper_digit)
  have z: "to_upper_char (CHR ''0'') = CHR ''0''" by code_simp
  have e: "map to_upper_char (leftHex n) = replicate (8 - length (format_HEX n)) (CHR ''0'') @ format_HEX n"
    using u by (simp add: leftHex_def Let_def z format_HEX_def)
  have uh: "upper_hex (CHR ''0'')" "is_digit 16 (CHR ''0'')" "the (digit_value (CHR ''0'')) = 0" by code_simp+
  show "hexes 8 (map to_upper_char (leftHex n))" unfolding e using h(1) uh(1) by (auto simp: hexes_def lsn_half_def list_all_iff)
  show "parse_uint 16 32 (map to_upper_char (leftHex n)) = Some n" unfolding e
    using h(2) uh by (auto simp: parse_uint_def Let_def of_base_zeros list_all_iff split: if_splits)
qed

lemma segment_not_backup: "hexes 24 name \<Longrightarrow> \<not> has_suffix name ''.backup''"
proof
  assume h: "hexes 24 name" and "has_suffix name ''.backup''"
  then have "drop 17 name = ''.backup''" by (simp add: has_suffix_def hexes_def)
  then have "CHR ''.'' \<in> set name" by (metis in_set_dropD list.set_intros(1))
  moreover have "\<not> upper_hex CHR ''.''" by code_simp
  ultimately show False using h by (auto simp: hexes_def list_all_iff)
qed

lemma zdiv_less_bound: "0 < (b :: int) \<Longrightarrow> a < b * c \<Longrightarrow> a div b < c"
  using blocks_within[of b c a] by (cases "c \<le> a div b") (auto simp: mult.commute)

lemma segment_position:
  assumes "segment_size_ok sz" and n_def: "n = uint (lsn :: u64) div sz" and per_def: "per = 2 ^ 32 div sz"
  shows "0 \<le> n div per" "n div per < 2 ^ 32" "0 \<le> n mod per" "n mod per < per" "0 < per" "per \<le> 2 ^ 12" "n div per * 2 ^ 32 + n mod per * sz = uint lsn div sz * sz"
    "per * sz = 2 ^ 32"
proof -
  obtain k where k: "sz = 2 ^ k" "20 \<le> k" "k \<le> 30" using segment_size_power[OF assms(1)] by auto
  have p: "per = 2 ^ (32 - k)" using k by (simp add: per_def power_diff)
  show pp: "0 < per" by (simp add: p)
  have "(2 :: int) ^ (32 - k) \<le> 2 ^ 12" using k by (intro power_increasing) auto
  then show "per \<le> 2 ^ 12" by (simp add: p)
  have n0: "0 \<le> n" using k by (simp add: n_def pos_imp_zdiv_nonneg_iff)
  show "0 \<le> n div per" "0 \<le> n mod per" "n mod per < per" using n0 pp by (simp_all add: pos_imp_zdiv_nonneg_iff)
  show ps: "per * sz = 2 ^ 32" using k by (simp add: p power_add[symmetric])
  have "n div per = uint lsn div (sz * per)" unfolding n_def using k by (simp add: zdiv_zmult2_eq p)
  then have "n div per = uint lsn div 2 ^ 32" using ps by (simp add: mult.commute)
  moreover have "uint lsn < 2 ^ 32 * 2 ^ 32" using uint_lt2p[of lsn] by simp
  ultimately show "n div per < 2 ^ 32" using zdiv_less_bound[of "2 ^ 32" "uint lsn" "2 ^ 32"] by simp
  have "(n div per * per + n mod per) * sz = n * sz" by simp
  then show "n div per * 2 ^ 32 + n mod per * sz = uint lsn div sz * sz" unfolding distrib_right mult.assoc ps by (simp add: n_def)
qed

text \<open>The name of the segment that holds a position is the name the repository reads back as that segment.\<close>

lemma WALFilename_position:
  assumes "segment_size_ok sz" "timeline \<noteq> 0"
  shows "\<exists>start. ArchivePosition (WALFilename timeline lsn sz) sz = Inr (timeline, start) \<and> uint start = uint lsn div sz * sz"
proof -
  define n per where "n = uint lsn div sz" and "per = 2 ^ 32 div sz"
  note pos = segment_position[OF assms(1) n_def per_def]
  let ?a = "map to_upper_char (leftHex (uint timeline))" and ?b = "map to_upper_char (leftHex (n div per))" and ?c = "map to_upper_char (leftHex (n mod per))"
  have t: "0 \<le> uint timeline" "uint timeline < 2 ^ 32" using uint_lt2p[of timeline] by auto
  have "per \<le> 2 ^ 32" using pos(6) by simp
  then have c: "0 \<le> n mod per" "n mod per < 2 ^ 32" using pos(3) less_le_trans[OF pos(4)] by blast+
  note A = leftHex_field[OF t] and B = leftHex_field[OF pos(1,2)] and C = leftHex_field[OF c]
  have name: "WALFilename timeline lsn sz = ?a @ ?b @ ?c" by (simp add: WALFilename_def Let_def n_def per_def)
  let ?n = "?a @ ?b @ ?c"
  have l: "length ?a = 8" "length ?b = 8" "length ?c = 8" using A(1) B(1) C(1) by (auto simp: hexes_def)
  have s: "slice ?n 0 8 = ?a" "slice ?n 8 16 = ?b" "slice ?n 16 24 = ?c" using l by (auto simp: slice_def)
  have h: "hexes 24 ?n" using A(1) B(1) C(1) by (simp add: hexes_def)
  have l24: "length ?n = 24" using l by simp
  then have "take 24 ?n = ?n" "drop 24 ?n = []" by (simp_all only: take_all drop_all order_refl)
  then have re: "walRE ?n" using h unfolding walRE_def by metis
  have "per < 2 ^ 64" using pos(6) by simp
  then have "\<not> hex_field ?c \<ge> of_int per" using C(2) c pos by (simp add: hex_field_def not_le u64_of_int_less)
  moreover have "uint timeline \<noteq> 0" using assms(2) by (simp add: uint_0_iff)
  ultimately have "walTimeline ?n sz = Inr timeline"
    using re assms(1) s A(2) segment_not_history[OF h] segment_not_backup[OF h] by (simp add: walTimeline_def per_def)
  moreover have "uint (segment_start ?n sz) = n div per * 2 ^ 32 + n mod per * sz"
  proof -
    have "n mod per * sz < 2 ^ 32"
    proof -
      have "n mod per * sz < per * sz" using pos(4) assms(1) by (intro mult_strict_right_mono) (auto simp: segment_size_ok_def)
      then show ?thesis by (simp only: pos(8))
    qed
    moreover have "0 \<le> n mod per * sz" using c assms(1) by (auto simp: segment_size_ok_def)
    ultimately show ?thesis unfolding segment_start_def s hex_field_def B(2) C(2) using position_words[OF pos(1,2), of "n mod per * sz"] by simp
  qed
  ultimately show ?thesis using h pos(7) unfolding name by (auto simp: ArchivePosition_def hexes_def)
qed

end
