(* ===== verification/Pg_Control.thy ===== *)
theory Pg_Control
  imports Pg_Archive
begin

text \<open>
  Reading what PostgreSQL says about itself (postgres/control.go, label_time.go and the parsers of
  preflight.go, capture.go and restore_input.go): control data, server settings, the backup label,
  the tablespace map and tool versions. \<open>json.Unmarshal\<close> into a Go struct is a decoder argument.
\<close>

section \<open>Text\<close>

text \<open>\<open>strings.SplitN(s, sep, 2)\<close> when \<open>sep\<close> occurs: before and after its first occurrence.\<close>

fun cut_at :: "string \<Rightarrow> string \<Rightarrow> (string \<times> string) option" where
  "cut_at sep [] = (if sep = [] then Some ([], []) else None)"
| "cut_at sep (c # s) =
     (if has_prefix (c # s) sep then Some ([], drop (length sep) (c # s))
      else map_option (\<lambda>(a, b). (c # a, b)) (cut_at sep s))"

text \<open>Go maps of strings: the latest entry t0, the zero value for a missing key; equality of maps whose keys are
  distinct, where a nil map differs from an empty one.\<close>

type_synonym str_map = "(string \<times> string) list"

definition same_map :: "str_map option \<Rightarrow> str_map option \<Rightarrow> bool" where
  "same_map a b = (case (a, b) of (None, None) \<Rightarrow> True | (Some x, Some y) \<Rightarrow> set x = set y | _ \<Rightarrow> False)"

definition map_list :: "'a list option \<Rightarrow> 'a list" where
  "map_list m = (case m of None \<Rightarrow> [] | Some l \<Rightarrow> l)"

section \<open>Control data\<close>

definition control_line :: "str_map \<Rightarrow> string \<Rightarrow> str_map" where
  "control_line fs line = (case cut_at '':'' line of
     None \<Rightarrow> fs
   | Some (a, b) \<Rightarrow> (space_trimmed a, space_trimmed b) # fs)"

definition controlFields :: "string \<Rightarrow> str_map" where
  "controlFields output = foldl control_line [] (split_on (CHR 0x0a) output)"

definition validateControl :: "str_map \<Rightarrow> err + unit" where
  "validateControl f =
     (if meta_get f ''Database block size'' \<noteq> ''8192'' \<or> meta_get f ''Blocks per segment of large relation'' \<noteq> ''131072'' \<or> meta_get f ''WAL block size'' \<noteq> ''8192''
      then Inl (PlainErr ''unsupported actual PostgreSQL control layout'')
      else case parse_uint 10 64 (meta_get f ''Database system identifier'') of
        None \<Rightarrow> Inl (PlainErr ''invalid actual PostgreSQL system identity'')
      | Some system \<Rightarrow>
         if system = 0 then Inl (PlainErr ''invalid actual PostgreSQL system identity'')
         else case parse_int64 (meta_get f ''Bytes per WAL segment'') of
           None \<Rightarrow> Inl (PlainErr ''unsupported actual WAL segment size'')
         | Some wal \<Rightarrow>
            if \<not> segment_size_ok wal then Inl (PlainErr ''unsupported actual WAL segment size'')
            else if meta_get f ''Data page checksum version'' \<noteq> ''0'' \<and> meta_get f ''Data page checksum version'' \<noteq> ''1''
            then Inl (PlainErr ''unsupported actual checksum layout'')
            else Inr ())"

record control =
  ctl_SystemIdentifier :: string
  ctl_WALSegmentBytes :: int

text \<open>\<open>output\<close> is the result of \<open>pg_controldata\<close>.\<close>

definition ReadControl :: "('w, bytes) act \<Rightarrow> ('w, control) act" where
  "ReadControl pg_controldata =
     andthen pg_controldata (\<lambda>b. let fs = controlFields b in
     andthen (lift (validateControl fs)) (\<lambda>_.
     ret \<lparr>ctl_SystemIdentifier = meta_get fs ''Database system identifier'',
       ctl_WALSegmentBytes = (case parse_int64 (meta_get fs ''Bytes per WAL segment'') of Some n \<Rightarrow> n | None \<Rightarrow> 0)\<rparr>))"

record capture_control =
  cc_System :: string
  cc_Segment :: int
  cc_Timeline :: u32
  cc_Checksum :: int

definition timeline_key :: string where
  "timeline_key = ''Latest checkpoint'' @ [CHR 0x27] @ ''s TimeLineID''"

definition parseCaptureControl :: "string \<Rightarrow> err + capture_control" where
  "parseCaptureControl output = (let f = controlFields output in
     res_bind (validateControl f) (\<lambda>_.
     if meta_get f ''pg_control version number'' \<noteq> ''1800'' \<or> meta_get f ''Catalog version number'' \<noteq> ''202506291'' then Inl ErrInput
     else case parse_uint 10 32 (meta_get f timeline_key) of
       None \<Rightarrow> Inl ErrInput
     | Some t \<Rightarrow> if t = 0 then Inl ErrInput
         else Inr \<lparr>cc_System = meta_get f ''Database system identifier'',
           cc_Segment = (case parse_int64 (meta_get f ''Bytes per WAL segment'') of Some n \<Rightarrow> n | None \<Rightarrow> 0),
           cc_Timeline = of_int t, cc_Checksum = (if meta_get f ''Data page checksum version'' = ''1'' then 1 else 0)\<rparr>))"

section \<open>Server settings\<close>

record connection =
  cn_Host :: string
  cn_Tablespaces :: "str_map option"

record server_state =
  sv_Version :: int
  sv_Role :: string
  sv_Primary :: bool
  sv_BlockSize :: int
  sv_SegmentSize :: int
  sv_FullPageWrites :: string
  sv_WALLevel :: string
  sv_SummarizeWAL :: string
  sv_SummaryMinutes :: int
  sv_ArchiveSeconds :: int
  sv_ArchiveMode :: string
  sv_Tablespaces :: "str_map option"
  sv_TablespaceOIDs :: "(string \<times> u32) list option"
  sv_Postmaster :: string
  sv_Clock :: string
  sv_LogTimezone :: string
  sv_ConfigLoaded :: string
  sv_FreeSenders :: int
  sv_FreeSlots :: int

definition validHost :: "string \<Rightarrow> bool" where
  "validHost host \<longleftrightarrow> 1 \<le> length host \<and> length host \<le> 253 \<and> has_suffix host ''.svc'' \<and>
     list_all (\<lambda>c. let n = of_char c :: nat in 97 \<le> n \<and> n \<le> 122 \<or> 48 \<le> n \<and> n \<le> 57 \<or> c = CHR ''-'' \<or> c = CHR ''.'') host"

definition validateState :: "'q config_env \<Rightarrow> server_state \<Rightarrow> connection \<Rightarrow> native_spec \<Rightarrow> err + unit" where
  "validateState E s c n =
     (if sv_Version s \<noteq> 180006 \<or> sv_Role s \<noteq> ''streaming_replica'' \<or> \<not> sv_Primary s \<or> sv_BlockSize s \<noteq> 8192 \<or> sv_SegmentSize s \<noteq> 1073741824 \<or>
         sv_FullPageWrites s \<noteq> ''on'' \<or> (sv_WALLevel s \<noteq> ''replica'' \<and> sv_WALLevel s \<noteq> ''logical'') \<or> sv_SummarizeWAL s \<noteq> ''on''
      then Inl (PlainErr ''unsupported actual PostgreSQL version/role/primary/physical WAL settings'')
      else case (ParseDuration (ce_float E) (nv_MaxReferenceAge n), ParseDuration (ce_float E) (nv_CaptureTimeout n)) of
        (Some age, Some timeout) \<Rightarrow>
          if sv_SummaryMinutes s \<le> go_div (s64 (s64 (age + timeout) + 86400 * second)) (60 * second) \<or>
             sv_SummaryMinutes s > go_div ten_years (60 * second) \<or> sv_ArchiveSeconds s < 1 \<or> sv_ArchiveSeconds s > 60
          then Inl (PlainErr ''actual WAL summary retention/archive timeout outside supported profile'')
          else if \<not> same_map (sv_Tablespaces s) (cn_Tablespaces c)
          then Inl (PlainErr ''actual PostgreSQL tablespace layout differs from CNPG-managed targets'')
          else Inr ()
      | _ \<Rightarrow> Inl (PlainErr ''time: invalid duration''))"

definition nativeVersion :: "bytes \<Rightarrow> string \<Rightarrow> bool" where
  "nativeVersion b tool \<longleftrightarrow> has_prefix b (tool @ '' (PostgreSQL) 18.6 '') \<or> b = tool @ '' (PostgreSQL) 18.6'' @ [CHR 0x0a]"

section \<open>The backup label\<close>

text \<open>A repeated key is refused only when its first value is not empty, as in the code.\<close>

definition label_line :: "string \<Rightarrow> str_map \<Rightarrow> err + str_map" where
  "label_line line fs = (case cut_at '': '' line of
     None \<Rightarrow> Inl ErrInput
   | Some (a, b) \<Rightarrow> if meta_get fs a \<noteq> [] then Inl ErrInput else Inr ((a, b) # fs))"

definition lsn_or_zero :: "string \<Rightarrow> u64" where
  "lsn_or_zero s = (case ParseLSN s of Some n \<Rightarrow> n | None \<Rightarrow> 0)"

definition parseLabel :: "commit \<Rightarrow> int \<Rightarrow> err + string" where
  "parseLabel c segment =
     res_bind (fold_res label_line (split_on (CHR 0x0a) (trim_suffix (cmt_BackupLabel c) [CHR 0x0a])) []) (\<lambda>f.
     let lsn = lsn_or_zero (cmt_StartLSN c) in
     if meta_get f ''START WAL LOCATION'' \<noteq> cmt_StartLSN c @ '' (file '' @ WALFilename (cmt_Timeline c) lsn segment @ '')'' \<or>
        meta_get f ''BACKUP METHOD'' \<noteq> ''streamed'' \<or> meta_get f ''BACKUP FROM'' \<noteq> ''primary'' \<or>
        meta_get f ''START TIMELINE'' \<noteq> format_uint (uint (cmt_Timeline c)) then Inl ErrInput
     else case ParseLSN (meta_get f ''CHECKPOINT LOCATION'') of
       None \<Rightarrow> Inl ErrInput
     | Some checkpoint \<Rightarrow> if checkpoint < lsn \<or> checkpoint \<ge> lsn_or_zero (cmt_StopLSN c) then Inl ErrInput else Inr (meta_get f ''START TIME''))"

definition map_line :: "str_map \<Rightarrow> string \<Rightarrow> string list \<Rightarrow> err + string list" where
  "map_line expected line seen = (case cut_at '' '' line of
     None \<Rightarrow> Inl ErrInput
   | Some (a, b) \<Rightarrow> if a \<in> set seen \<or> meta_get expected a = [] \<or> meta_get expected a \<noteq> b then Inl ErrInput else Inr (a # seen))"

definition expected_map :: "tablespace list \<Rightarrow> connection \<Rightarrow> str_map" where
  "expected_map tables conn = map (\<lambda>t. (format_uint (uint (tsp_OID t)), meta_get (map_list (cn_Tablespaces conn)) (tsp_Name t))) (rev tables)"

definition validateTablespaceMap :: "string \<Rightarrow> tablespace list \<Rightarrow> connection \<Rightarrow> err + unit" where
  "validateTablespaceMap txt tables conn = (let expected = expected_map tables conn; lines = split_on (CHR 0x0a) (trim_suffix txt [CHR 0x0a]) in
     if length lines \<noteq> length (remdups (map fst expected)) then Inl ErrInput
     else res_bind (fold_res (map_line expected) lines []) (\<lambda>_. Inr ()))"

section \<open>The label's time\<close>

definition six_hours :: int where
  "six_hours = 21600 * second"

definition truncate_second :: "instant \<Rightarrow> instant" where
  "truncate_second t = t - t mod second"

definition labelTimeBounds :: "string \<Rightarrow> string \<Rightarrow> err + instant \<times> instant" where
  "labelTimeBounds began stopped = (case (parse_rfc3339 began, parse_rfc3339 stopped) of
     (Some (t0, _), Some (t1, _)) \<Rightarrow>
       if t1 < t0 \<or> t1 - t0 > six_hours then Inl ErrInput else Inr (truncate_second t0, truncate_second t1)
   | _ \<Rightarrow> Inl ErrInput)"

text \<open>SQL text is written with a backquote for its single quote, a tilde for its double quote and a caret for a line end.\<close>

definition sql :: "string \<Rightarrow> string" where
  "sql t = map (\<lambda>c. if c = CHR 0x60 then CHR 0x27 else if c = CHR 0x7e then CHR 0x22 else if c = CHR 0x5e then CHR 0x0a else c) t"

definition hex_operand :: "string \<Rightarrow> string" where
  "hex_operand s = sql ''convert_from(decode(`'' @ hex_encode (map of_char s) @ sql ''`,`hex`),`UTF8`)''"

definition label_query :: "int \<Rightarrow> int \<Rightarrow> string \<Rightarrow> string \<Rightarrow> string \<Rightarrow> string" where
  "label_query t0 t1 zone loaded label =
     sql ''WITH settings AS MATERIALIZED (^ SELECT set_config(`TimeZone`, current_setting(`log_timezone`), true) AS zone^ ), matches AS (^ SELECT t FROM settings, generate_series(to_timestamp('' @
     format_int t0 @ sql ''), to_timestamp('' @ format_int t1 @
     sql ''), interval `1 second`) AS t^ WHERE to_char(t, CASE WHEN settings.zone = '' @ zone @
     sql ''^ AND to_char(pg_conf_load_time() AT TIME ZONE `UTC`,`YYYY-MM-DD~T~HH24:MI:SS.US~Z~`) = '' @ loaded @
     sql ''^ THEN `YYYY-MM-DD HH24:MI:SS TZ` ELSE NULL END) = '' @ label @
     sql ''^ ) SELECT json_build_object(`matches`, count(*), `started`,^ to_char(min(t) AT TIME ZONE `UTC`,`YYYY-MM-DD~T~HH24:MI:SS~Z~`)) FROM matches;''"

definition labelTimeQuery :: "string \<Rightarrow> string \<Rightarrow> string \<Rightarrow> string \<Rightarrow> string \<Rightarrow> err + string" where
  "labelTimeQuery label began stopped zone loaded = (case labelTimeBounds began stopped of
     Inl _ \<Rightarrow> Inl ErrInput
   | Inr (t0, t1) \<Rightarrow>
      if length label < 21 \<or> length label > 128 \<or> zone = [] \<or> length zone > 256 \<or> loaded = [] then Inl ErrInput
      else Inr (label_query (t0 div second) (t1 div second) (hex_operand zone) (hex_operand loaded) (hex_operand label)))"

text \<open>\<open>dec\<close> decodes the answer: the number of matches and the time.\<close>

definition normalizedLabelTime :: "(bytes \<Rightarrow> (int \<times> string) option) \<Rightarrow> bytes \<Rightarrow> string \<Rightarrow> string \<Rightarrow> err + string" where
  "normalizedLabelTime dec output began stopped = (case (labelTimeBounds began stopped, dec output) of
     (Inr (t0, t1), Some (matches, started)) \<Rightarrow>
       if matches \<noteq> 1 then Inl ErrInput
       else (case parse_rfc3339 started of
           None \<Rightarrow> Inl ErrInput
         | Some (t, _) \<Rightarrow> if t < t0 \<or> t > t1 then Inl ErrInput else Inr (format_rfc3339 t))
   | _ \<Rightarrow> Inl ErrInput)"

end
