(* ===== verification/Pg_Capacity.thy ===== *)
theory Pg_Capacity
  imports Pg_Control
begin

text \<open>
  Space for a restore (postgres/restore_capacity.go, the budget of restore_differential.go): the
  layout the manager authorizes, the mounts it needs, and the bytes each mount must have free before
  downloads and before output. Sizes are sums of at most a few dozen \<open>int64\<close> values below \<open>2 ^ 43\<close>, so they
  are integers here.
\<close>

section \<open>Layouts\<close>

definition pg_workspace :: string where
  "pg_workspace = ''/cnpg-backup/work''"

definition liveData :: string where
  "liveData = ''/var/lib/postgresql/data/pgdata''"

record restore_layout =
  rl_PGDATA :: string
  rl_WALDirectory :: string
  rl_Tablespaces :: str_map

definition tablespaceName :: "string \<Rightarrow> bool" where
  "tablespaceName s = (case s of
     [] \<Rightarrow> False
   | c # r \<Rightarrow> (let letter = (\<lambda>c. let n = of_char c :: nat in 65 \<le> n \<and> n \<le> 90 \<or> 97 \<le> n \<and> n \<le> 122 \<or> c = CHR ''_'') in
       letter c \<and> length r \<le> 62 \<and> list_all (\<lambda>d. letter d \<or> is_digit 10 d \<or> d = CHR ''$'') r))"

definition tablespace_target :: "string \<Rightarrow> string" where
  "tablespace_target name = ''/var/lib/postgresql/tablespaces/'' @ name @ ''/data''"

definition check_table :: "restore_layout \<Rightarrow> tablespace \<Rightarrow> u32 list \<Rightarrow> err + u32 list" where
  "check_table l t seen =
     (if \<not> tablespaceName (tsp_Name t) \<or> tsp_OID t = 0 \<or> tsp_OID t \<in> set seen \<or> meta_get (rl_Tablespaces l) (tsp_Name t) \<noteq> tablespace_target (tsp_Name t)
      then Inl ErrInput else Inr (tsp_OID t # seen))"

definition validateRestoreLayout :: "restore_layout \<Rightarrow> tablespace list \<Rightarrow> err + unit" where
  "validateRestoreLayout l tables =
     (if rl_PGDATA l \<noteq> liveData \<or> (rl_WALDirectory l \<noteq> liveData @ ''/pg_wal'' \<and> rl_WALDirectory l \<noteq> ''/var/lib/postgresql/wal/pg_wal'') \<or>
         length (rl_Tablespaces l) \<noteq> length tables then Inl ErrInput
      else res_bind (fold_res (check_table l) tables []) (\<lambda>_. Inr ()))"

definition restoreMounts :: "restore_layout \<Rightarrow> string list" where
  "restoreMounts l = sort_slice (<)
     ([pg_workspace, path_dir (rl_PGDATA l)] @
      (if rl_WALDirectory l \<noteq> rl_PGDATA l @ ''/pg_wal'' then [path_dir (rl_WALDirectory l)] else []) @
      map (\<lambda>(_, p). path_dir p) (rl_Tablespaces l))"

section \<open>Budgets\<close>

text \<open>The map by mount, in the order of the slice.\<close>

definition add_budget :: "fs_budget \<Rightarrow> fs_budget list \<Rightarrow> err + fs_budget list" where
  "add_budget b set' =
     (if fb_LimitBytes b \<le> 0 \<or> fb_LimitBytes b > 8192 * GiB then Inl ErrInput
      else if fb_Mount b \<in> set (map fb_Mount set') then Inl ErrInput
      else Inr (set' @ [b\<lparr>fb_RequiredBytes := 0\<rparr>]))"

definition restoreBudgetSet :: "fs_budget list \<Rightarrow> restore_layout \<Rightarrow> err + fs_budget list" where
  "restoreBudgetSet budgets l = (let expected = restoreMounts l in
     if length expected \<noteq> length budgets then Inl ErrInput
     else res_bind (fold_res add_budget budgets []) (\<lambda>bs.
       if \<not> list_all (\<lambda>p. p \<in> set (map fb_Mount bs)) expected then Inl ErrInput else Inr bs))"

definition need_of :: "(string \<times> int) list \<Rightarrow> string \<Rightarrow> int" where
  "need_of want p = (case map_of want p of Some n \<Rightarrow> n | None \<Rightarrow> 0)"

definition finishRestoreBudgets :: "fs_budget list \<Rightarrow> (string \<times> int) list \<Rightarrow> fs_budget list" where
  "finishRestoreBudgets bs want = sort_slice (\<lambda>a b. fb_Mount a < fb_Mount b)
     (map (\<lambda>b. let n = need_of want (fb_Mount b) in b\<lparr>fb_RequiredBytes := n + CapacityMargin n\<rparr>) bs)"

record download_sums =
  ds_raw :: int
  ds_stored :: int
  ds_wal :: int

definition add_artifact :: "native_spec \<Rightarrow> artifact \<Rightarrow> download_sums \<Rightarrow> err + download_sums" where
  "add_artifact n a s =
     (if art_RawBytes a \<le> 0 \<or> art_RawBytes a > nv_MaxBackupBytes n \<or> art_StoredBytes a \<le> 0 \<or> art_StoredBytes a > MaxArtifactBytes then Inl ErrInput
      else Inr \<lparr>ds_raw = ds_raw s + art_RawBytes a, ds_stored = ds_stored s + art_StoredBytes a,
        ds_wal = ds_wal s + (if art_Role a = ''wal'' then art_RawBytes a else 0)\<rparr>)"

definition spool_limit :: "native_spec \<Rightarrow> int" where
  "spool_limit n = nv_MaxBackupBytes n + max GiB ((nv_MaxBackupBytes n + 99) div 100)"

definition restoreDownloadBudget :: "commit \<Rightarrow> native_spec \<Rightarrow> fs_budget list \<Rightarrow> restore_layout \<Rightarrow> int \<Rightarrow> err + fs_budget list" where
  "restoreDownloadBudget c n budgets l unit =
     res_bind (CaptureCapacity n) (\<lambda>_.
     if nv_MaxRestoredBytes n < 1 \<or> nv_MaxRestoredBytes n > 1024 * GiB then Inl ErrInput
     else res_bind (restoreBudgetSet budgets l) (\<lambda>bs.
       res_bind (fold_res (add_artifact n) (cmt_Artifacts c) \<lparr>ds_raw = cmt_ManifestBytes c, ds_stored = cmt_ManifestBytes c, ds_wal = 0\<rparr>) (\<lambda>s.
       if ds_raw s > nv_MaxBackupBytes n \<or> ds_wal s > nv_MaxBootstrapWALBytes n \<or> ds_stored s > spool_limit n then Inl ErrInput
       else if unit < 8192 \<or> unit > 1048576 then Inl ErrInput
       else Inr (finishRestoreBudgets bs [(pg_workspace, ds_raw s + ds_stored s + ds_wal s + unit * (maxEntries + 256))]))))"

text \<open>\<open>unix.Statfs\<close> of a mount, as its block size.\<close>

definition restoreAllocationUnit :: "(string \<Rightarrow> ('w, int) act) \<Rightarrow> string \<Rightarrow> ('w, int) act" where
  "restoreAllocationUnit bsize mount =
     andthen (bsize mount) (\<lambda>n. if n \<le> 0 \<or> n > 1048576 then fail ErrInput else ret (max 8192 n))"

definition restoreDownloadCapacity :: "(string \<Rightarrow> ('w, int) act) \<Rightarrow> commit \<Rightarrow> native_spec \<Rightarrow> fs_budget list \<Rightarrow> restore_layout \<Rightarrow> ('w, fs_budget list) act" where
  "restoreDownloadCapacity bsize c n budgets l =
     andthen (restoreAllocationUnit bsize pg_workspace) (\<lambda>unit. lift (restoreDownloadBudget c n budgets l unit))"

section \<open>Output\<close>

text \<open>The directories an inventory makes, implicit parents included; the check follows every insertion.\<close>

definition add_dir :: "int \<Rightarrow> string \<Rightarrow> string list \<Rightarrow> err + string list" where
  "add_dir files p dirs = (let dirs = List.insert p dirs in if int (length dirs) + files > maxEntries then Inl ErrInput else Inr dirs)"

definition add_dirs :: "int \<Rightarrow> string \<Rightarrow> string list \<Rightarrow> err + string list" where
  "add_dirs files p dirs = (if p = ''.'' then Inr dirs else fold_res (add_dir files) (p # ancestors p) dirs)"

definition nativeDirectories :: "archive_inventory \<Rightarrow> err + string list" where
  "nativeDirectories a =
     fold_res (add_dirs (int (length (ai_files a)))) (ai_dirs a @ map (\<lambda>(p, _). path_dir p) (ai_files a)) [''.'']"

definition blocks_up :: "int \<Rightarrow> int \<Rightarrow> int" where
  "blocks_up n unit = (n + unit - 1) div unit * unit"

definition inventoryAllocation :: "archive_inventory \<Rightarrow> int \<Rightarrow> err + int \<times> int" where
  "inventoryAllocation a unit =
     res_bind (nativeDirectories a) (\<lambda>dirs. let nodes = int (length dirs) + int (length (ai_files a)) in
       Inr (nodes * unit + sum_list (map (\<lambda>(_, n). blocks_up n unit) (ai_files a)), nodes))"

record full_input =
  fi_directory :: string
  fi_manifest :: native_manifest
  fi_archives :: "(string \<times> archive_inventory) list"
  fi_walCheck :: string
  fi_metadata :: string

record output_sums =
  os_need :: "(string \<times> int) list"
  os_nodes :: int
  os_total :: int

definition add_need :: "string \<Rightarrow> int \<Rightarrow> (string \<times> int) list \<Rightarrow> (string \<times> int) list" where
  "add_need p n want = (p, need_of want p + n) # want"

definition commit_tables :: "commit \<Rightarrow> tablespace list" where
  "commit_tables c = map_list (cmt_Tablespaces c)"

definition oid_mounts :: "commit \<Rightarrow> restore_layout \<Rightarrow> str_map" where
  "oid_mounts c l = map (\<lambda>t. (format_uint (uint (tsp_OID t)) @ ''.tar'', path_dir (meta_get (rl_Tablespaces l) (tsp_Name t)))) (rev (commit_tables c))"

definition output_archive :: "commit \<Rightarrow> restore_layout \<Rightarrow> (string \<times> int) list \<Rightarrow> string \<times> archive_inventory \<Rightarrow> output_sums \<Rightarrow> err + output_sums" where
  "output_archive c l units = (\<lambda>(name, a) s.
     let mount = (if name \<noteq> ''base.tar'' \<and> name \<noteq> ''pg_wal.tar'' then meta_get (oid_mounts c l) name else path_dir (rl_PGDATA l)) in
     if mount = [] then Inl ErrInput
     else res_bind (inventoryAllocation a (need_of units mount)) (\<lambda>(bytes, cnt).
       let s = \<lparr>os_need = add_need mount bytes (os_need s), os_nodes = os_nodes s + cnt, os_total = os_total s + ai_bytes a\<rparr> in
       if name = ''pg_wal.tar'' \<and> rl_WALDirectory l \<noteq> rl_PGDATA l @ ''/pg_wal'' then
         (let walMount = path_dir (rl_WALDirectory l); unit = need_of units walMount in
          res_bind (inventoryAllocation a unit) (\<lambda>(bytes, _). Inr (s\<lparr>os_need := add_need walMount (bytes + 4 * unit) (os_need s)\<rparr>)))
       else Inr s))"

definition restoreOutputBudget :: "full_input \<Rightarrow> commit \<Rightarrow> native_spec \<Rightarrow> fs_budget list \<Rightarrow> restore_layout \<Rightarrow> (string \<times> int) list \<Rightarrow> err + fs_budget list" where
  "restoreOutputBudget inp c n budgets l units =
     (if \<not> list_all (\<lambda>m. 8192 \<le> need_of units m \<and> need_of units m \<le> 1048576) (restoreMounts l) then Inl ErrInput
      else res_bind (restoreDownloadBudget c n budgets l (need_of units pg_workspace)) (\<lambda>initial.
        res_bind (restoreBudgetSet budgets l) (\<lambda>bs.
        res_bind (fold_res (output_archive c l units) (fi_archives inp) \<lparr>os_need = [], os_nodes = 0, os_total = cmt_ManifestBytes c\<rparr>) (\<lambda>s.
        if os_nodes s > maxEntries \<or> os_total s > nv_MaxRestoredBytes n then Inl ErrInput
        else let pgMount = path_dir (rl_PGDATA l); unit = need_of units pgMount;
               want = add_need pgMount (blocks_up (cmt_ManifestBytes c) unit + unit * (int (length (commit_tables c)) + 8)) (os_need s) in
          Inr (map (\<lambda>b. if fb_Mount b = pg_workspace then (case find (\<lambda>i. fb_Mount i = pg_workspace) initial of Some i \<Rightarrow> i | None \<Rightarrow> b) else b)
            (finishRestoreBudgets bs want))))))"

text \<open>The units of every mount, then the budget.\<close>

definition collect_unit :: "(string \<Rightarrow> ('w, int) act) \<Rightarrow> string \<Rightarrow> (string \<times> int) list \<Rightarrow> ('w, (string \<times> int) list) act" where
  "collect_unit bsize mount units = andthen (restoreAllocationUnit bsize mount) (\<lambda>u. ret ((mount, u) # units))"

definition restoreOutputCapacity :: "(string \<Rightarrow> ('w, int) act) \<Rightarrow> full_input \<Rightarrow> commit \<Rightarrow> native_spec \<Rightarrow> fs_budget list \<Rightarrow> restore_layout \<Rightarrow> ('w, fs_budget list) act" where
  "restoreOutputCapacity bsize inp c n budgets l =
     andthen (each_fold (collect_unit bsize) (restoreMounts l) []) (\<lambda>units. lift (restoreOutputBudget inp c n budgets l units))"

section \<open>A full and its differential\<close>

definition add_chain :: "native_spec \<Rightarrow> fs_budget list \<Rightarrow> restore_layout \<Rightarrow> int \<Rightarrow> commit \<Rightarrow> int \<Rightarrow> err + int" where
  "add_chain n budgets l unit c want =
     res_bind (restoreDownloadBudget c n budgets l unit) (\<lambda>b.
       Inr (want + sum_list (map fb_RequiredBytes (filter (\<lambda>v. fb_Mount v = pg_workspace) b)) +
         (cmt_ManifestBytes c + sum_list (map art_RawBytes (cmt_Artifacts c))) + unit * (maxEntries + 256)))"

definition differentialRestoreBudget :: "commit list \<Rightarrow> native_spec \<Rightarrow> fs_budget list \<Rightarrow> restore_layout \<Rightarrow> int \<Rightarrow> err + fs_budget list" where
  "differentialRestoreBudget chain n budgets l unit = (case chain of
     [f, d] \<Rightarrow>
       if cmt_Kind f \<noteq> ''full'' \<or> cmt_Kind d \<noteq> ''differential'' then Inl ErrInput
       else res_bind (restoreBudgetSet budgets l) (\<lambda>bs.
         res_bind (fold_res (add_chain n budgets l unit) [f, d] 0) (\<lambda>scratch.
         let out = map (\<lambda>p. (path_dir p, nv_MaxRestoredBytes n + unit * (maxEntries + 256))) (rl_PGDATA l # map snd (rl_Tablespaces l));
             wal = (if rl_WALDirectory l \<noteq> rl_PGDATA l @ ''/pg_wal'' then [(path_dir (rl_WALDirectory l), nv_MaxBootstrapWALBytes n + unit * (maxEntries + 256))] else []);
             res = finishRestoreBudgets bs (wal @ out @ [(pg_workspace, scratch)]) in
         if sum_list (map fb_RequiredBytes res) > 8192 * GiB then Inl ErrCapacity else Inr res))
   | _ \<Rightarrow> Inl ErrInput)"

end
