(* ===== verification/Pg_Host.thy ===== *)
theory Pg_Host
  imports Pg_Capacity Collection
begin

text \<open>
  The operating system below the native operations: files, directories, processes and the context,
  as a record of operations over an arbitrary world. Operations below an \<open>os.Root\<close> take the root's directory and a
  relative name. The bounded process runner of postgres/command.go and the workspace lock of
  postgres/workspace.go are modelled over interfaces of their own.
\<close>

section \<open>Files\<close>

text \<open>What the code reads of a \<open>FileInfo\<close>; \<open>None\<close> stands for a file that does not exist.\<close>

record file_info =
  fs_dir :: bool
  fs_regular :: bool
  fs_symlink :: bool
  fs_size :: int
  fs_perm :: int

text \<open>\<open>h_mkdir\<close> and \<open>h_remove\<close> answer whether something was made or removed; the false answer is \<open>os.IsExist\<close> and
  \<open>os.IsNotExist\<close>. \<open>h_readdir\<close> lists a directory: names and whether each is a regular file. \<open>h_read\<close> opens a file: its content and whether it could be read to the end. \<open>h_walk\<close> is
  \<open>filepath.WalkDir\<close>: the entries in its order, with their path below the root, and the error it ended with.\<close>

record 'w host =
  h_ctx :: "('w, unit) act"
  h_now :: "'w \<Rightarrow> instant \<times> 'w"
  h_run :: "string list \<Rightarrow> string \<Rightarrow> string list \<Rightarrow> ('w, bytes) act"
  h_eval :: "string \<Rightarrow> ('w, string) act"
  h_lstat :: "string \<Rightarrow> ('w, file_info option) act"
  h_readdir :: "string \<Rightarrow> ('w, (string \<times> bool) list) act"
  h_walk :: "string \<Rightarrow> 'w \<Rightarrow> ((string \<times> file_info option) list \<times> err option) \<times> 'w"
  h_readlink :: "string \<Rightarrow> ('w, string) act"
  h_read :: "string \<Rightarrow> ('w, bytes \<times> bool) act"
  h_mkdir :: "string \<Rightarrow> ('w, bool) act"
  h_mkdirTemp :: "string \<Rightarrow> string \<Rightarrow> ('w, string) act"
  h_chmod :: "string \<Rightarrow> int \<Rightarrow> ('w, unit) act"
  h_write :: "string \<Rightarrow> bytes \<Rightarrow> ('w, unit) act"
  h_syncDir :: "string \<Rightarrow> ('w, unit) act"
  h_removeAll :: "string \<Rightarrow> ('w, unit) act"
  h_openRoot :: "string \<Rightarrow> ('w, unit) act"
  h_mkdirAll :: "string \<Rightarrow> string \<Rightarrow> ('w, unit) act"
  h_create :: "string \<Rightarrow> string \<Rightarrow> ('w, nat) act"
  h_append :: "nat \<Rightarrow> bytes \<Rightarrow> ('w, unit) act"
  h_sync :: "nat \<Rightarrow> ('w, unit) act"
  h_close :: "nat \<Rightarrow> ('w, unit) act"
  h_symlink :: "string \<Rightarrow> string \<Rightarrow> string \<Rightarrow> ('w, unit) act"
  h_remove :: "string \<Rightarrow> string \<Rightarrow> ('w, bool) act"
  h_rootRemoveAll :: "string \<Rightarrow> string \<Rightarrow> ('w, unit) act"
  h_download :: "string \<Rightarrow> int \<Rightarrow> ('w, bytes) act"
  h_spool :: "string \<Rightarrow> ('w, unit) act"
  h_bsize :: "string \<Rightarrow> ('w, int) act"

text \<open>A \<open>defer\<close> whose action cannot change the result.\<close>

definition deferred :: "('w, unit) act \<Rightarrow> ('w, 'a) act \<Rightarrow> ('w, 'a) act" where
  "deferred d m = attempt m (\<lambda>r. attempt d (\<lambda>_. lift r))"

text \<open>A run beside a local variable that closures update.\<close>

definition with_side :: "'r \<Rightarrow> ('w \<times> 'r, 'a) act \<Rightarrow> ('w, 'a \<times> 'r) act" where
  "with_side x m w = (case m (w, x) of (Inr a, (w', y)) \<Rightarrow> (Inr (a, y), w') | (Inl e, (w', _)) \<Rightarrow> (Inl e, w'))"

definition env_C :: "string list" where
  "env_C = [''LANG=C'', ''LC_ALL=C'']"

text \<open>\<open>fileHash\<close>: the digest of the whole file, read under the context.\<close>

definition fileHash :: "'w host \<Rightarrow> string \<Rightarrow> ('w, string) act" where
  "fileHash H path = andthen (h_read H path) (\<lambda>(b, ok). if ok then ret (digest b) else andthen (h_ctx H) (\<lambda>_. fail OsErr))"

definition fileSize :: "'w host \<Rightarrow> string \<Rightarrow> ('w, int) act" where
  "fileSize H path = andthen (h_lstat H path) (\<lambda>st. case st of None \<Rightarrow> fail OsErr | Some i \<Rightarrow> ret (fs_size i))"

section \<open>Copying a member\<close>

text \<open>The content is what the reader delivers and whether it ends without an error; one byte beyond the size is asked for.\<close>

definition copyMember :: "'w host \<Rightarrow> string \<Rightarrow> string \<Rightarrow> int \<Rightarrow> bytes \<times> bool \<Rightarrow> ('w, unit) act" where
  "copyMember H root name sz = (\<lambda>(data, ok).
     if \<not> nativePath name then fail ErrInput
     else andthen (h_mkdirAll H root (path_dir name)) (\<lambda>_.
       andthen (h_create H root name) (\<lambda>f. let d = take (nat (sz + 1)) data in
       attempt (andthen (h_append H f d) (\<lambda>_.
           if \<not> ok \<and> int (length d) \<le> sz then fail OsErr
           else if int (length d) \<noteq> sz then fail ErrInput
           else h_sync H f)) (\<lambda>r.
         attempt (h_close H f) (\<lambda>ce. case r of Inl e \<Rightarrow> fail e | Inr _ \<Rightarrow> lift ce)))))"

section \<open>Native commands (postgres/command.go)\<close>

datatype wait_result = WaitReaped | WaitInterrupted | WaitNoChild | WaitFailed

text \<open>The end of a started command: the error of \<open>cmd.Wait\<close> and the writes to its two outputs.\<close>

record exec_end =
  ee_error :: bool
  ee_out :: "bytes list"
  ee_diag :: "bytes list"

record 'w proc_sys =
  pr_subreaper :: "('w, unit) act"
  pr_start :: "string list \<Rightarrow> string \<Rightarrow> string list \<Rightarrow> ('w, nat) act"
  pr_wait :: "nat \<Rightarrow> 'w \<Rightarrow> exec_end \<times> 'w"
  pr_kill :: "nat \<Rightarrow> 'w \<Rightarrow> unit \<times> 'w"
  pr_wait4 :: "nat \<Rightarrow> 'w \<Rightarrow> wait_result \<times> 'w"
  pr_ctx :: "('w, unit) act"

definition native_tools :: "string list" where
  "native_tools = [''psql'', ''pg_controldata'', ''pg_basebackup'', ''pg_verifybackup'', ''pg_waldump'', ''pg_combinebackup'']"

definition tools_dir :: string where
  "tools_dir = ''/usr/lib/postgresql/18/bin/''"

record command_output =
  co_data :: bytes
  co_exceeded :: bool

definition output_write :: "bytes \<Rightarrow> command_output \<Rightarrow> command_output" where
  "output_write p b = (let remaining = 1048576 - int (length (co_data b)) in
     if int (length p) > remaining then b\<lparr>co_data := co_data b @ take (nat remaining) p, co_exceeded := True\<rparr>
     else b\<lparr>co_data := co_data b @ p\<rparr>)"

definition collected :: "bytes list \<Rightarrow> command_output" where
  "collected ws = fold output_write ws \<lparr>co_data = [], co_exceeded = False\<rparr>"

text \<open>The reaping loop; it may wait forever.\<close>

partial_function (option) reap :: "'w proc_sys \<Rightarrow> nat \<Rightarrow> 'w \<Rightarrow> ((err + unit) \<times> 'w) option" where
  "reap P pid w = (case pr_wait4 P pid w of (r, w') \<Rightarrow>
     if r = WaitNoChild then Some (Inr (), w')
     else if r = WaitFailed then Some (Inl (PlainErr ''native child drain uncertain''), w')
     else reap P pid w')"

definition native_result :: "'w proc_sys \<Rightarrow> exec_end \<Rightarrow> ('w, bytes) act" where
  "native_result P e = (let out = collected (ee_out e); diag = collected (ee_diag e) in
     andthen (pr_ctx P) (\<lambda>_.
     if co_exceeded out \<or> co_exceeded diag then fail CtxErr
     else if ee_error e \<or> co_data diag \<noteq> [] then fail (PlainErr ''native command failed (authentication, input, capacity or output limit)'')
     else ret (co_data out)))"

definition run_started :: "'w proc_sys \<Rightarrow> nat \<Rightarrow> 'w \<Rightarrow> ((err + bytes) \<times> 'w) option" where
  "run_started P pid w = (case pr_wait P pid w of (e, w) \<Rightarrow> case pr_kill P pid w of (_, w) \<Rightarrow>
     Option.bind (reap P pid w) (\<lambda>(r, w). case r of Inl e' \<Rightarrow> Some (Inl e', w) | Inr _ \<Rightarrow> Some (native_result P e w)))"

definition runNative :: "'w proc_sys \<Rightarrow> string list \<Rightarrow> string \<Rightarrow> string list \<Rightarrow> 'w \<Rightarrow> ((err + bytes) \<times> 'w) option" where
  "runNative P env executable args w = (case pr_subreaper P w of
     (Inl _, w) \<Rightarrow> Some (Inl (PlainErr ''native child ownership unavailable''), w)
   | (Inr _, w) \<Rightarrow> (case pr_start P env executable args w of
       (Inl _, w) \<Rightarrow> Some (Inl (PlainErr ''native executable could not start''), w)
     | (Inr pid, w) \<Rightarrow> run_started P pid w))"

definition runTool :: "'w proc_sys \<Rightarrow> string list \<Rightarrow> string \<Rightarrow> string list \<Rightarrow> 'w \<Rightarrow> ((err + bytes) \<times> 'w) option" where
  "runTool P env tool args w = (if tool \<notin> set native_tools then Some (Inl (PlainErr ''unsupported native executable''), w)
     else runNative P env (tools_dir @ tool) args w)"

section \<open>The workspace lock (postgres/workspace.go)\<close>

text \<open>What the code reads of the lock file, and its operations below the workspace directory. \<open>wk_owner\<close> opens the owner
  file: \<open>None\<close> when it does not exist, otherwise at most 130 bytes of it, and whether it is a private regular file.\<close>

record lock_stat =
  ls_regular :: bool
  ls_private :: bool
  ls_nlink :: int
  ls_owned :: bool

record 'w work_sys =
  wk_pid :: "'w \<Rightarrow> int \<times> 'w"
  wk_root :: "string \<Rightarrow> ('w, unit) act"
  wk_lockFile :: "('w, nat) act"
  wk_lockStat :: "nat \<Rightarrow> ('w, lock_stat) act"
  wk_flock :: "nat \<Rightarrow> ('w, unit) act"
  wk_owner :: "('w, (bytes \<times> bool) option) act"
  wk_lstat :: "('w, file_info option) act"
  wk_createOwner :: "('w, nat) act"
  wk_writeOwner :: "nat \<Rightarrow> bytes \<Rightarrow> ('w, unit) act"
  wk_syncOwner :: "nat \<Rightarrow> ('w, unit) act"
  wk_removeNative :: "('w, unit) act"
  wk_mkdirNative :: "('w, unit) act"
  wk_syncRoot :: "('w, unit) act"
  wk_close :: "nat \<Rightarrow> ('w, unit) act"

definition claim_workspace :: "'w work_sys \<Rightarrow> string \<Rightarrow> ('w, unit) act" where
  "claim_workspace K pod =
     andthen (wk_owner K) (\<lambda>o'. case o' of
       None \<Rightarrow>
         attempt (wk_lstat K) (\<lambda>r. if r \<noteq> Inr None then fail ErrInput
           else andthen (wk_createOwner K) (\<lambda>f.
             andthen (wk_writeOwner K f (pod @ [CHR 0x0a])) (\<lambda>_. wk_syncOwner K f)))
     | Some (b, private) \<Rightarrow> check (private \<and> b = pod @ [CHR 0x0a]) ErrInput)"

definition reset_workspace :: "'w work_sys \<Rightarrow> ('w, unit) act" where
  "reset_workspace K =
     andthen (wk_lstat K) (\<lambda>st.
     andthen (check (case st of None \<Rightarrow> True | Some i \<Rightarrow> fs_dir i \<and> fs_perm i = 448) ErrInput) (\<lambda>_.
     andthen (wk_removeNative K) (\<lambda>_.
     andthen (wk_mkdirNative K) (\<lambda>_.
     wk_syncRoot K))))"

text \<open>Under the lock file: its checks, the lock, the owner and the fresh directory.\<close>

definition own_workspace :: "'w work_sys \<Rightarrow> string \<Rightarrow> nat \<Rightarrow> ('w, unit) act" where
  "own_workspace K pod f = attempt (wk_lockStat K f) (\<lambda>r. case r of
      Inl _ \<Rightarrow> fail ErrInput
    | Inr st \<Rightarrow>
       if \<not> ls_regular st \<or> \<not> ls_private st \<or> ls_nlink st \<noteq> 1 \<or> \<not> ls_owned st then fail ErrInput
       else attempt (wk_flock K f) (\<lambda>r. case r of
           Inl _ \<Rightarrow> fail (PlainErr ''native workspace still owned by a sidecar or native descendant'')
         | Inr _ \<Rightarrow> andthen (claim_workspace K pod) (\<lambda>_. reset_workspace K)))"

definition acquireWorkspaceAt :: "'w work_sys \<Rightarrow> string \<Rightarrow> string \<Rightarrow> ('w, nat) act" where
  "acquireWorkspaceAt K directory pod =
     (if pod = [] \<or> length pod > 128 then fail ErrInput
      else andthen (wk_root K directory) (\<lambda>_.
        andthen (wk_lockFile K) (\<lambda>f.
        attempt (own_workspace K pod f) (\<lambda>r.
          case r of Inr _ \<Rightarrow> ret f | Inl e \<Rightarrow> attempt (wk_close K f) (\<lambda>_. fail e)))))"

definition AcquireWorkspace :: "'w work_sys \<Rightarrow> string \<Rightarrow> ('w, nat) act" where
  "AcquireWorkspace K pod w = (case wk_pid K w of (p, w) \<Rightarrow>
     if p \<noteq> 1 then (Inl (PlainErr ''native workspace requires private-namespace PID1''), w)
     else acquireWorkspaceAt K pg_workspace pod w)"

end
