(* ===== verification/Pg_Restore.thy ===== *)
theory Pg_Restore
  imports Pg_Host
begin

text \<open>
  The physical restore (postgres/restore_input.go, restore_materialize.go, restore_differential.go,
  restore.go): downloading and decoding the originals of a plan, scanning them before any native
  tool runs, extracting, combining, relocating WAL, and the whole of \<open>RestoreFull\<close>. \<open>untar\<close> and \<open>gunz\<close> stand for
  \<open>archive/tar\<close> and \<open>compress/gzip\<close>; \<open>run\<close> starts a native tool.
\<close>

section \<open>Downloads\<close>

definition artifactName :: "artifact \<Rightarrow> string" where
  "artifactName a =
     (if art_Role a = ''base'' then ''base.tar''
      else if art_Role a = ''wal'' then ''pg_wal.tar''
      else if art_Role a = ''tablespace'' then (case art_TablespaceOID a of Some o' \<Rightarrow> format_uint (uint o') @ ''.tar'' | None \<Rightarrow> [])
      else [])"

text \<open>\<open>gunz b\<close>: \<open>None\<close> when the header is refused, otherwise what the first member decompresses to, whether it ends well, and
  the bytes after it.\<close>

definition decoded :: "(bytes \<Rightarrow> (bytes \<times> bool \<times> bytes) option) \<Rightarrow> string \<Rightarrow> bytes \<Rightarrow> (bytes \<times> bool \<times> bytes) option" where
  "decoded gunz compression b = (if compression = ''none'' then Some (b, True, []) else if compression = ''gzip'' then gunz b else None)"

text \<open>\<open>h_ctx\<close> stands for the read of the spooled source by \<open>fileHash\<close>: its error is the context's or that of the read, and is
  returned as it is. A failing copy is a failing \<open>h_append\<close>.\<close>

definition decodeOriginal :: "'w host \<Rightarrow> (bytes \<Rightarrow> (bytes \<times> bool \<times> bytes) option) \<Rightarrow> bytes \<Rightarrow> nat \<Rightarrow> integrity \<Rightarrow> integrity \<Rightarrow> string \<Rightarrow> ('w, unit) act" where
  "decodeOriginal H gunz src dst stored raw compression =
     (if int (length src) \<noteq> itg_Size stored then fail ErrInput
      else andthen (h_ctx H) (\<lambda>_.
      if digest src \<noteq> itg_SHA256 stored then fail ErrInput
      else case decoded gunz compression src of
        None \<Rightarrow> fail ErrInput
      | Some (out, whole, rest) \<Rightarrow> let d = take (nat (itg_Size raw + 1)) out in
          andthen (h_append H dst d) (\<lambda>_.
          if \<not> whole \<and> int (length out) \<le> itg_Size raw then fail OsErr
          else if int (length d) \<noteq> itg_Size raw \<or> digest d \<noteq> itg_SHA256 raw then fail ErrInput
          else if rest \<noteq> [] then fail ErrInput
          else h_sync H dst)))"

definition download_one :: "'w host \<Rightarrow> (bytes \<Rightarrow> (bytes \<times> bool \<times> bytes) option) \<Rightarrow> commit \<Rightarrow> string \<Rightarrow> string \<Rightarrow> int \<Rightarrow> string \<Rightarrow> integrity \<Rightarrow> integrity \<Rightarrow> string \<Rightarrow> ('w, unit) act" where
  "download_one H gunz c scratch dir index name stored raw compression =
     andthen (h_spool H scratch) (\<lambda>_.
     andthen (h_download H (cmt_BackupUID c) index) (\<lambda>b.
     andthen (h_create H dir name) (\<lambda>dst.
     attempt (decodeOriginal H gunz b dst stored raw compression) (\<lambda>r.
     attempt (h_close H dst) (\<lambda>ce. case r of Inl e \<Rightarrow> fail e | Inr _ \<Rightarrow> lift ce)))))"

definition stored_of :: "artifact \<Rightarrow> integrity" where
  "stored_of a = \<lparr>itg_Size = art_StoredBytes a, itg_SHA256 = art_StoredSHA256 a\<rparr>"

definition raw_of_artifact :: "artifact \<Rightarrow> integrity" where
  "raw_of_artifact a = \<lparr>itg_Size = art_RawBytes a, itg_SHA256 = art_RawSHA256 a\<rparr>"

definition download_artifact :: "'w host \<Rightarrow> (bytes \<Rightarrow> (bytes \<times> bool \<times> bytes) option) \<Rightarrow> commit \<Rightarrow> string \<Rightarrow> string \<Rightarrow> nat \<times> artifact \<Rightarrow> ('w, unit) act" where
  "download_artifact H gunz c scratch dir = (\<lambda>(i, a).
     if artifactName a = [] then fail ErrInput
     else download_one H gunz c scratch dir (int i) (artifactName a) (stored_of a) (raw_of_artifact a) (art_Compression a))"

definition manifest_integrity :: "commit \<Rightarrow> integrity" where
  "manifest_integrity c = \<lparr>itg_Size = cmt_ManifestBytes c, itg_SHA256 = cmt_ManifestSHA256 c\<rparr>"

definition make_dir :: "'w host \<Rightarrow> string \<Rightarrow> ('w, unit) act" where
  "make_dir H d = andthen (h_mkdir H d) (\<lambda>made. if made then ret () else fail OsErr)"

definition new_input :: "string \<Rightarrow> full_input" where
  "new_input dir = \<lparr>fi_directory = dir, fi_manifest = \<lparr>nm_SystemIdentifier = 0, nm_Files = [], nm_Ranges = []\<rparr>, fi_archives = [], fi_walCheck = [], fi_metadata = []\<rparr>"

definition downloadFull :: "'w host \<Rightarrow> (bytes \<Rightarrow> (bytes \<times> bool \<times> bytes) option) \<Rightarrow> commit \<Rightarrow> string \<Rightarrow> ('w, full_input) act" where
  "downloadFull H gunz c scratch = (let dir = path_join [scratch, ''tar''] in
     andthen (make_dir H dir) (\<lambda>_.
     andthen (download_one H gunz c scratch dir (- 1) ''backup_manifest'' (manifest_integrity c) (manifest_integrity c) ''none'') (\<lambda>_.
     andthen (each (download_artifact H gunz c scratch dir) (enumerate 0 (cmt_Artifacts c))) (\<lambda>_.
     ret (new_input dir)))))"

section \<open>Scanning the originals\<close>

text \<open>The visitor of one archive; the side is the map \<open>actual\<close>.\<close>

definition wal_member_ok :: "int \<Rightarrow> string \<Rightarrow> int \<Rightarrow> bool" where
  "wal_member_ok segment p sz =
     (if has_prefix p ''archive_status/'' \<and> has_suffix p ''.done'' then
        (let base = trim_suffix (trim_prefix p ''archive_status/'') ''.done'' in sz = 0 \<and> length base = 24 \<and> ValidWALFilename base)
      else length p = 24 \<and> ValidWALFilename p \<and> sz = segment)"

definition visit_original :: "artifact \<Rightarrow> int \<Rightarrow> string \<Rightarrow> int \<Rightarrow> bytes \<times> bool \<Rightarrow> ('w \<times> (string \<times> int) list, unit) act" where
  "visit_original a segment p sz b =
     (if art_Role a = ''wal'' then check (wal_member_ok segment p sz) ErrInput
      else let full = (if art_Role a = ''tablespace'' then ''pg_tblspc/'' @ trim_suffix (artifactName a) ''.tar'' @ ''/'' @ p else p) in
        if art_Role a = ''base'' \<and> (has_prefix p ''pg_tblspc/'' \<or> has_prefix p ''pg_wal/'') then fail ErrInput
        else andthen get_side (\<lambda>actual.
          if full \<in> fst ` set actual then fail ErrInput else upd_side (\<lambda>m. m @ [(full, sz)])))"

definition dir_allowed :: "string \<Rightarrow> string \<Rightarrow> bool" where
  "dir_allowed role d \<longleftrightarrow>
     \<not> (role = ''base'' \<and> has_prefix d ''pg_tblspc/'') \<and>
     \<not> (role = ''base'' \<and> has_prefix d ''pg_wal/'' \<and> d \<noteq> ''pg_wal/archive_status'' \<and> d \<noteq> ''pg_wal/summaries'') \<and>
     \<not> (role = ''wal'' \<and> d \<noteq> ''archive_status'' \<and> d \<noteq> ''summaries'')"

record scan_sums =
  ss_entries :: int
  ss_raw :: int
  ss_archives :: "(string \<times> archive_inventory) list"

definition read_checked :: "'w host \<Rightarrow> string \<Rightarrow> integrity \<Rightarrow> ('w, unit) act" where
  "read_checked H path want =
     attempt (fileSize H path) (\<lambda>r. if r \<noteq> Inr (itg_Size want) then fail ErrInput
       else attempt (fileHash H path) (\<lambda>r. if r \<noteq> Inr (itg_SHA256 want) then fail ErrInput else ret ()))"

definition scan_artifact :: "'w host \<Rightarrow> (bytes \<Rightarrow> tar_stream) \<Rightarrow> string \<Rightarrow> int \<Rightarrow> native_spec \<Rightarrow> artifact \<Rightarrow> scan_sums \<Rightarrow> ('w \<times> (string \<times> int) list, scan_sums) act" where
  "scan_artifact H untar directory segment n a s = (let name = artifactName a; path = path_join [directory, name] in
     if name = [] then fail ErrInput
     else andthen (on_world (read_checked H path (raw_of_artifact a))) (\<lambda>_.
       andthen (on_world (h_read H path)) (\<lambda>(b, _).
       andthen (scanArchive untar (on_world (h_ctx H)) b (art_RawBytes a) (visit_original a segment)) (\<lambda>inventory.
       let s = \<lparr>ss_entries = ss_entries s + ai_entries inventory, ss_raw = ss_raw s + art_RawBytes a, ss_archives = (name, inventory) # ss_archives s\<rparr> in
       if \<not> list_all (dir_allowed (art_Role a)) (ai_dirs inventory) then fail ErrInput
       else if ss_entries s > maxEntries \<or> ss_raw s > nv_MaxBackupBytes n \<or> art_Role a = ''wal'' \<and> art_RawBytes a > nv_MaxBootstrapWALBytes n then fail ErrInput
       else andthen (lift (nativeDirectories inventory)) (\<lambda>_. ret s)))))"

text \<open>Equality of the archives' files and the manifest's; the two label files are the only exceptions.\<close>

definition label_file :: "string \<Rightarrow> bool" where
  "label_file p \<longleftrightarrow> p = ''backup_label'' \<or> p = ''tablespace_map''"

definition inventory_equal :: "(string \<times> int) list \<Rightarrow> (string \<times> int) list \<Rightarrow> bool" where
  "inventory_equal actual files \<longleftrightarrow>
     list_all (\<lambda>(p, sz). if label_file p then sz \<le> 65536 else map_of files p = Some sz) actual \<and>
     list_all (\<lambda>(p, sz). map_of actual p = Some sz) files"

definition archiveBytes :: "commit \<Rightarrow> string \<Rightarrow> int" where
  "archiveBytes c name = (case find (\<lambda>a. artifactName a = name) (cmt_Artifacts c) of Some a \<Rightarrow> art_RawBytes a | None \<Rightarrow> 0)"

definition metadata_file :: "string \<Rightarrow> bool" where
  "metadata_file p \<longleftrightarrow> p = ''backup_label'' \<or> p = ''tablespace_map'' \<or> p = ''global/pg_control''"

definition visit_metadata :: "'w host \<Rightarrow> string \<Rightarrow> string \<Rightarrow> int \<Rightarrow> bytes \<times> bool \<Rightarrow> ('w, unit) act" where
  "visit_metadata H root p sz b = (if metadata_file p then (if sz > 65536 then fail ErrInput else copyMember H root p sz b) else ret ())"

definition extractArchive :: "'w host \<Rightarrow> (bytes \<Rightarrow> tar_stream) \<Rightarrow> full_input \<Rightarrow> commit \<Rightarrow> string \<Rightarrow> string \<Rightarrow> ('w, unit) act" where
  "extractArchive H untar inp c name directory =
     andthen (h_openRoot H directory) (\<lambda>_.
     andthen (h_read H (path_join [fi_directory inp, name])) (\<lambda>(b, _).
     andthen (scanArchive untar (h_ctx H) b (archiveBytes c name) (copyMember H directory)) (\<lambda>inventory.
     each (\<lambda>d. andthen (h_ctx H) (\<lambda>_. h_mkdirAll H directory d)) (ai_dirs inventory))))"

text \<open>The file's content when it could be read, and whether it was absent.\<close>

definition read_small :: "'w host \<Rightarrow> string \<Rightarrow> ('w, bytes option) act" where
  "read_small H path =
     andthen (h_lstat H path) (\<lambda>st. case st of None \<Rightarrow> ret None | Some _ \<Rightarrow>
       andthen (h_read H path) (\<lambda>(b, ok). if ok then ret (Some b) else fail OsErr))"

definition own_connection :: "commit \<Rightarrow> connection" where
  "own_connection c = \<lparr>cn_Host = [], cn_Tablespaces = Some (map (\<lambda>t. (tsp_Name t, tablespace_target (tsp_Name t))) (rev (commit_tables c)))\<rparr>"

definition check_table_map :: "commit \<Rightarrow> err + bytes option \<Rightarrow> err + unit" where
  "check_table_map c r =
     (if commit_tables c = [] then
        (case r of Inl _ \<Rightarrow> Inl ErrInput | Inr b \<Rightarrow> if map_list b \<noteq> [] \<or> cmt_TablespaceMap c \<noteq> [] then Inl ErrInput else Inr ())
      else if r \<noteq> Inr (Some (cmt_TablespaceMap c)) then Inl ErrInput
      else validateTablespaceMap (cmt_TablespaceMap c) (commit_tables c) (own_connection c))"

definition scan_metadata :: "'w host \<Rightarrow> (bytes \<Rightarrow> tar_stream) \<Rightarrow> full_input \<Rightarrow> commit \<Rightarrow> int \<Rightarrow> ('w, full_input) act" where
  "scan_metadata H untar inp c segment = (let base = path_dir (fi_directory inp); meta = path_join [base, ''metadata'']; walcheck = path_join [base, ''walcheck''];
       inp = inp\<lparr>fi_metadata := meta, fi_walCheck := walcheck\<rparr> in
     andthen (make_dir H meta) (\<lambda>_.
     andthen (make_dir H walcheck) (\<lambda>_.
     andthen (h_openRoot H meta) (\<lambda>_.
     andthen (h_read H (path_join [fi_directory inp, ''base.tar''])) (\<lambda>(b, _).
     andthen (scanArchive untar (h_ctx H) b (archiveBytes c ''base.tar'') (visit_metadata H meta)) (\<lambda>_.
     attempt (read_small H (path_join [meta, ''backup_label''])) (\<lambda>r.
     if r \<noteq> Inr (Some (cmt_BackupLabel c)) then fail ErrInput
     else andthen (lift (parseLabel c segment)) (\<lambda>_.
       attempt (read_small H (path_join [meta, ''tablespace_map''])) (\<lambda>r.
       andthen (lift (check_table_map c r)) (\<lambda>_.
       andthen (extractArchive H untar inp c ''pg_wal.tar'' walcheck) (\<lambda>_. ret inp)))))))))))"

definition scan_input :: "'w host \<Rightarrow> (bytes \<Rightarrow> tar_stream) \<Rightarrow> full_input \<Rightarrow> commit \<Rightarrow> int \<Rightarrow> native_spec \<Rightarrow> ('w, full_input) act" where
  "scan_input H untar inp c segment n = (let path = path_join [fi_directory inp, ''backup_manifest''] in
     andthen (read_checked H path (manifest_integrity c)) (\<lambda>_.
     andthen (h_read H path) (\<lambda>b.
     andthen (lift (ScanManifest b)) (\<lambda>m.
     if format_uint (nm_SystemIdentifier m) \<noteq> cmt_SystemIdentifier c \<or> nm_Ranges m \<noteq> cmt_WALRanges c then fail ErrInput
     else andthen (with_side [] (each_fold (scan_artifact H untar (fi_directory inp) segment n) (cmt_Artifacts c) \<lparr>ss_entries = 0, ss_raw = cmt_ManifestBytes c, ss_archives = []\<rparr>)) (\<lambda>(s, actual).
       if \<not> inventory_equal actual (nm_Files m) then fail ErrInput
       else scan_metadata H untar (inp\<lparr>fi_manifest := m, fi_archives := ss_archives s\<rparr>) c segment)))))"

section \<open>Native verification\<close>

definition verifyRestoreWAL :: "(string \<Rightarrow> string list \<Rightarrow> ('w, bytes) act) \<Rightarrow> string \<Rightarrow> wal_range list \<Rightarrow> ('w, unit) act" where
  "verifyRestoreWAL run dir ranges =
     (if length ranges \<noteq> 1 then fail ErrInput
      else each (\<lambda>r. if \<not> range_fine r then fail ErrInput
        else andthen (run ''pg_waldump'' [''--quiet'', ''--path='' @ dir, ''--timeline='' @ format_uint (uint (wr_Timeline r)), ''--start='' @ wr_StartLSN r, ''--end='' @ wr_EndLSN r]) (\<lambda>_. ret ())) ranges)"

definition verifybackup :: "(string \<Rightarrow> string list \<Rightarrow> ('w, bytes) act) \<Rightarrow> string \<Rightarrow> ('w, unit) act" where
  "verifybackup run dir = andthen (run ''pg_verifybackup'' [''--exit-on-error'', ''--no-parse-wal'', dir]) (\<lambda>_. ret ())"

definition verify_input :: "(string \<Rightarrow> string list \<Rightarrow> ('w, bytes) act) \<Rightarrow> full_input \<Rightarrow> commit \<Rightarrow> int \<Rightarrow> ('w, unit) act" where
  "verify_input run inp c segment =
     andthen (run ''pg_controldata'' [fi_metadata inp]) (\<lambda>b.
     andthen (lift (parseCaptureControl b)) (\<lambda>control.
     if control \<noteq> \<lparr>cc_System = cmt_SystemIdentifier c, cc_Segment = segment, cc_Timeline = cmt_Timeline c, cc_Checksum = cmt_ChecksumVersion c\<rparr> then fail ErrInput
     else andthen (verifybackup run (fi_directory inp)) (\<lambda>_. verifyRestoreWAL run (fi_walCheck inp) (nm_Ranges (fi_manifest inp)))))"

end
