(* ===== verification/Pg_Materialize.thy ===== *)
theory Pg_Materialize
  imports Pg_Restore Recovery_Plan
begin

text \<open>
  The output of a restore (postgres/restore_materialize.go, restore_differential.go, restore.go):
  empty targets, extraction, native verification, the bootstrap transforms, the relocation of WAL to
  its own volume, the combination of a full and its differential, and \<open>RestoreFull\<close>.
\<close>

section \<open>Targets\<close>

definition emptyRestoreRoot :: "'w host \<Rightarrow> string \<Rightarrow> ('w, unit) act" where
  "emptyRestoreRoot H directory =
     attempt (h_eval H (path_dir directory)) (\<lambda>r. if r \<noteq> Inr (path_dir directory) then fail ErrInput
       else andthen (h_mkdir H directory) (\<lambda>_.
         attempt (h_lstat H directory) (\<lambda>r. case r of
           Inr (Some st) \<Rightarrow>
             if \<not> fs_dir st \<or> fs_symlink st then fail ErrInput
             else andthen (h_readdir H directory) (\<lambda>es. if es \<noteq> [] then fail ErrInput else h_chmod H directory 448)
         | _ \<Rightarrow> fail ErrInput)))"

text \<open>Directories are synced in the reverse of the walk's order, then the parent. The walk's callback looks at the context at
  every entry.\<close>

definition walk_live :: "'w host \<Rightarrow> (string \<times> file_info option) list \<Rightarrow> ('w, unit) act" where
  "walk_live H es = each (\<lambda>_. h_ctx H) es"

definition syncRestoreTree :: "'w host \<Rightarrow> string \<Rightarrow> ('w, unit) act" where
  "syncRestoreTree H directory w = (case h_walk H directory w of ((es, broken), w) \<Rightarrow>
     andthen (walk_live H es) (\<lambda>_. case broken of
       Some e \<Rightarrow> fail e
     | None \<Rightarrow> andthen (each (h_syncDir H) (rev (map fst (filter (\<lambda>(_, i). case i of Some st \<Rightarrow> fs_dir st | None \<Rightarrow> False) es)))) (\<lambda>_.
         h_syncDir H (path_dir directory))) w)"

section \<open>WAL bundles\<close>

definition bundle_name :: "string \<Rightarrow> bool" where
  "bundle_name name \<longleftrightarrow> length name = 24 \<and> ValidWALFilename name"

definition bundle_file :: "'w host \<Rightarrow> string \<Rightarrow> string \<times> int \<Rightarrow> (string \<times> integrity) list \<Rightarrow> ('w, (string \<times> integrity) list) act" where
  "bundle_file H directory = (\<lambda>(name, sz) res.
     if \<not> bundle_name name then ret res
     else attempt (h_lstat H (directory @ ''/'' @ name)) (\<lambda>r. case r of
       Inr (Some st) \<Rightarrow>
         if \<not> fs_regular st \<or> fs_size st \<noteq> sz then fail ErrInput
         else andthen (fileHash H (directory @ ''/'' @ name)) (\<lambda>hash. ret (res @ [(name, \<lparr>itg_Size = sz, itg_SHA256 = hash\<rparr>)]))
     | _ \<Rightarrow> fail ErrInput))"

definition bundleIntegrity :: "'w host \<Rightarrow> string \<Rightarrow> archive_inventory \<Rightarrow> ('w, (string \<times> integrity) list) act" where
  "bundleIntegrity H directory a =
     andthen (h_openRoot H directory) (\<lambda>_.
     andthen (each_fold (bundle_file H directory) (ai_files a) []) (\<lambda>res.
     if res = [] then fail ErrInput else ret res))"

definition copy_wal :: "'w host \<Rightarrow> string \<Rightarrow> string \<Rightarrow> string \<times> int \<Rightarrow> ('w, unit) act" where
  "copy_wal H pgdata target = (\<lambda>(name, sz).
     andthen (h_read H (pgdata @ ''/pg_wal/'' @ name)) (\<lambda>src. copyMember H target name sz src))"

text \<open>Copy, compare and sync before the old directory is removed and replaced by a link.\<close>

definition bundle_moved :: "'w host \<Rightarrow> string \<Rightarrow> string \<Rightarrow> archive_inventory \<Rightarrow> (string \<times> integrity) list \<Rightarrow> ('w, unit) act" where
  "bundle_moved H pgdata target a expected =
     andthen (h_openRoot H target) (\<lambda>_.
     andthen (each (copy_wal H pgdata target) (ai_files a)) (\<lambda>_.
     andthen (lift (nativeDirectories a)) (\<lambda>dirs.
     andthen (each (h_mkdirAll H target) (List.insert ''summaries'' (List.insert ''archive_status'' dirs))) (\<lambda>_.
     andthen (bundleIntegrity H target a) (\<lambda>copied.
     if set copied \<noteq> set expected then fail ErrInput
     else andthen (syncRestoreTree H target) (\<lambda>_. h_ctx H))))))"

definition relocateRestoreWAL :: "'w host \<Rightarrow> string \<Rightarrow> string \<Rightarrow> archive_inventory \<Rightarrow> (string \<times> integrity) list \<Rightarrow> ('w, unit) act" where
  "relocateRestoreWAL H pgdata target a expected =
     andthen (bundle_moved H pgdata target a expected) (\<lambda>_.
     andthen (h_rootRemoveAll H pgdata ''pg_wal'') (\<lambda>_.
     h_symlink H pgdata target ''pg_wal''))"

section \<open>Materialization\<close>

definition wal_inside :: "restore_layout \<Rightarrow> bool" where
  "wal_inside l \<longleftrightarrow> rl_WALDirectory l = rl_PGDATA l @ ''/pg_wal''"

definition extract_table :: "'w host \<Rightarrow> (bytes \<Rightarrow> tar_stream) \<Rightarrow> full_input \<Rightarrow> commit \<Rightarrow> restore_layout \<Rightarrow> tablespace \<Rightarrow> ('w, unit) act" where
  "extract_table H untar inp c l t = (let oid = format_uint (uint (tsp_OID t)); target = meta_get (rl_Tablespaces l) (tsp_Name t) in
     andthen (extractArchive H untar inp c (oid @ ''.tar'') target) (\<lambda>_.
     h_symlink H (rl_PGDATA l) target (''pg_tblspc/'' @ oid)))"

definition extractOriginal :: "'w host \<Rightarrow> (bytes \<Rightarrow> tar_stream) \<Rightarrow> (string \<Rightarrow> string list \<Rightarrow> ('w, bytes) act) \<Rightarrow> full_input \<Rightarrow> commit \<Rightarrow> restore_layout \<Rightarrow> ('w, unit) act" where
  "extractOriginal H untar run inp c l =
     (let targets = sort_slice (<) (rl_PGDATA l # (if wal_inside l then [] else [rl_WALDirectory l]) @ map snd (rl_Tablespaces l)) in
     andthen (each (emptyRestoreRoot H) targets) (\<lambda>_.
     andthen (extractArchive H untar inp c ''base.tar'' (rl_PGDATA l)) (\<lambda>_.
     andthen (h_openRoot H (rl_PGDATA l)) (\<lambda>_.
     andthen (h_mkdirAll H (rl_PGDATA l) ''pg_wal'') (\<lambda>_.
     andthen (h_mkdirAll H (rl_PGDATA l) ''pg_tblspc'') (\<lambda>_.
     andthen (extractArchive H untar inp c ''pg_wal.tar'' (rl_PGDATA l @ ''/pg_wal'')) (\<lambda>_.
     andthen (each (extract_table H untar inp c l) (commit_tables c)) (\<lambda>_.
     andthen (h_read H (path_join [fi_directory inp, ''backup_manifest''])) (\<lambda>manifest.
     andthen (copyMember H (rl_PGDATA l) ''backup_manifest'' (cmt_ManifestBytes c) manifest) (\<lambda>_.
     andthen (verifybackup run (rl_PGDATA l)) (\<lambda>_.
     verifyRestoreWAL run (rl_PGDATA l @ ''/pg_wal'') (nm_Ranges (fi_manifest inp)))))))))))))"

definition wal_inventory :: "full_input \<Rightarrow> archive_inventory" where
  "wal_inventory inp = (case map_of (fi_archives inp) ''pg_wal.tar'' of Some a \<Rightarrow> a | None \<Rightarrow> \<lparr>ai_files = [], ai_dirs = [], ai_entries = 0, ai_bytes = 0\<rparr>)"

definition remove_map :: "'w host \<Rightarrow> commit \<Rightarrow> restore_layout \<Rightarrow> ('w, unit) act" where
  "remove_map H c l = andthen (h_remove H (rl_PGDATA l) ''tablespace_map'') (\<lambda>removed.
     if \<not> removed \<and> commit_tables c \<noteq> [] then fail OsErr else ret ())"

definition finish_restore :: "'w host \<Rightarrow> full_input \<Rightarrow> commit \<Rightarrow> restore_layout \<Rightarrow> ('w, (string \<times> integrity) list) act" where
  "finish_restore H inp c l = (let a = wal_inventory inp in
     andthen (h_openRoot H (rl_PGDATA l)) (\<lambda>_.
     andthen (remove_map H c l) (\<lambda>_.
     andthen (bundleIntegrity H (rl_PGDATA l @ ''/pg_wal'') a) (\<lambda>expected.
     andthen (if wal_inside l then ret () else relocateRestoreWAL H (rl_PGDATA l) (rl_WALDirectory l) a expected) (\<lambda>_.
     andthen (each (syncRestoreTree H) (rl_PGDATA l # rl_WALDirectory l # map snd (rl_Tablespaces l))) (\<lambda>_.
     andthen (bundleIntegrity H (rl_WALDirectory l) a) (\<lambda>actual.
     if set actual \<noteq> set expected then fail ErrInput
     else andthen (h_ctx H) (\<lambda>_. ret actual))))))))"

definition materialize :: "'w host \<Rightarrow> (bytes \<Rightarrow> tar_stream) \<Rightarrow> (string \<Rightarrow> string list \<Rightarrow> ('w, bytes) act) \<Rightarrow> full_input \<Rightarrow> commit \<Rightarrow> restore_layout \<Rightarrow> ('w, (string \<times> integrity) list) act" where
  "materialize H untar run inp c l = andthen (extractOriginal H untar run inp c l) (\<lambda>_. finish_restore H inp c l)"

section \<open>A full and its differential\<close>

definition inputLayout :: "string \<Rightarrow> commit \<Rightarrow> restore_layout" where
  "inputLayout directory c = \<lparr>rl_PGDATA = directory @ ''/data'', rl_WALDirectory = directory @ ''/data/pg_wal'',
     rl_Tablespaces = map (\<lambda>t. (tsp_Name t, directory @ ''/ts-'' @ format_uint (uint (tsp_OID t)))) (rev (commit_tables c))\<rparr>"

definition escape_eq :: "string \<Rightarrow> string" where
  "escape_eq s = concat (map (\<lambda>c. if c = CHR ''='' then [CHR 0x5c, CHR ''=''] else [c]) s)"

definition combineArgs :: "restore_layout \<Rightarrow> restore_layout \<Rightarrow> commit \<Rightarrow> restore_layout \<Rightarrow> string list" where
  "combineArgs full differential c output =
     [''--copy'', ''--manifest-checksums=SHA256'', ''--output='' @ rl_PGDATA output] @
     map (\<lambda>t. ''--tablespace-mapping='' @ escape_eq (meta_get (rl_Tablespaces differential) (tsp_Name t)) @ ''='' @ escape_eq (meta_get (rl_Tablespaces output) (tsp_Name t))) (commit_tables c) @
     [rl_PGDATA full, rl_PGDATA differential]"

text \<open>One entry of the walk over the output: nodes and bytes so far.\<close>

definition synthetic_entry :: "'w host \<Rightarrow> restore_layout \<Rightarrow> native_spec \<Rightarrow> string \<times> file_info option \<Rightarrow> int \<times> int \<Rightarrow> ('w, int \<times> int) act" where
  "synthetic_entry H l n = (\<lambda>(p, info) (nodes, bytes).
     andthen (h_ctx H) (\<lambda>_.
     if nodes + 1 > maxEntries then fail ErrInput
     else case info of
       None \<Rightarrow> fail OsErr
     | Some st \<Rightarrow>
        if fs_symlink st then
          (if rl_Tablespaces l = [] then fail ErrInput
           else attempt (h_readlink H p) (\<lambda>r. case r of
               Inl _ \<Rightarrow> fail ErrInput
             | Inr actual \<Rightarrow> if path_dir p = rl_PGDATA l @ ''/pg_tblspc'' \<and> actual \<in> set (map snd (rl_Tablespaces l)) then ret (nodes + 1, bytes) else fail ErrInput))
        else if fs_dir st then ret (nodes + 1, bytes)
        else if \<not> fs_regular st then fail ErrInput
        else if fs_size st > maxFileBytes \<or> bytes + fs_size st > nv_MaxRestoredBytes n then fail (PlainErr ''native synthetic output budget exceeded'')
        else ret (nodes + 1, bytes + fs_size st)))"

definition synthetic_root :: "'w host \<Rightarrow> restore_layout \<Rightarrow> native_spec \<Rightarrow> string \<Rightarrow> int \<times> int \<Rightarrow> ('w, int \<times> int) act" where
  "synthetic_root H l n root s w = (case h_walk H root w of ((es, broken), w) \<Rightarrow>
     andthen (each_fold (synthetic_entry H l n) es s) (\<lambda>s. case broken of Some e \<Rightarrow> fail e | None \<Rightarrow> ret s) w)"

definition checkSyntheticSize :: "'w host \<Rightarrow> restore_layout \<Rightarrow> native_spec \<Rightarrow> ('w, unit) act" where
  "checkSyntheticSize H l n = andthen (each_fold (synthetic_root H l n) (rl_PGDATA l # map snd (rl_Tablespaces l)) (0, 0)) (\<lambda>_. ret ())"

text \<open>The goroutine that polls while \<open>pg_combinebackup\<close> runs ends with the result \<open>monitored\<close>, which is received after the tool.\<close>

definition runCombine :: "(string \<Rightarrow> string list \<Rightarrow> ('w, bytes) act) \<Rightarrow> ('w, unit) act \<Rightarrow> string list \<Rightarrow> ('w, unit) act" where
  "runCombine run monitored args =
     attempt (run ''pg_combinebackup'' args) (\<lambda>r. attempt monitored (\<lambda>m. case r of Inl e \<Rightarrow> fail e | Inr _ \<Rightarrow> lift m))"

definition combine_roots :: "restore_layout \<Rightarrow> string list" where
  "combine_roots l = filter (\<lambda>p. p \<noteq> rl_PGDATA l @ ''/pg_wal'') (rl_PGDATA l # rl_WALDirectory l # map snd (rl_Tablespaces l))"

definition combineOriginals :: "'w host \<Rightarrow> (bytes \<Rightarrow> tar_stream) \<Rightarrow> (string \<Rightarrow> string list \<Rightarrow> ('w, bytes) act) \<Rightarrow> ('w, unit) act \<Rightarrow> full_input list \<Rightarrow> commit list \<Rightarrow> restore_layout \<Rightarrow> native_spec \<Rightarrow>
    ('w, (string \<times> integrity) list) act" where
  "combineOriginals H untar run monitored inputs chain l n = (case (inputs, chain) of
     ([fi, di], [f, d]) \<Rightarrow>
       (let lf = inputLayout (path_dir (fi_directory fi)) f; ld = inputLayout (path_dir (fi_directory di)) d in
        andthen (extractOriginal H untar run fi f lf) (\<lambda>_.
        andthen (extractOriginal H untar run di d ld) (\<lambda>_.
        andthen (each (emptyRestoreRoot H) (combine_roots l)) (\<lambda>_.
        andthen (runCombine run monitored (combineArgs lf ld d l)) (\<lambda>_.
        andthen (checkSyntheticSize H l n) (\<lambda>_.
        andthen (h_read H (rl_PGDATA l @ ''/backup_manifest'')) (\<lambda>b.
        andthen (lift (scanManifest b True)) (\<lambda>m.
        if format_uint (nm_SystemIdentifier m) \<noteq> cmt_SystemIdentifier d \<or> length (nm_Ranges m) \<noteq> 1 \<or> nm_Ranges m ! 0 \<noteq> cmt_WALRanges d ! 0 then fail ErrInput
        else andthen (verifybackup run (rl_PGDATA l)) (\<lambda>_.
          andthen (verifyRestoreWAL run (rl_PGDATA l @ ''/pg_wal'') (nm_Ranges m)) (\<lambda>_.
          finish_restore H di d l))))))))))
   | _ \<Rightarrow> fail ErrInput)"

section \<open>RestoreFull\<close>

text \<open>The space monitor: at each tick the margins are checked again, until the work is done or the context ends.\<close>

datatype monitor_event = MonitorDone | MonitorCanceled | MonitorTick

definition margin_budgets :: "fs_budget list \<Rightarrow> fs_budget list" where
  "margin_budgets bs = map (\<lambda>b. b\<lparr>fb_RequiredBytes := CapacityMargin (fb_RequiredBytes b)\<rparr>) bs"

fun monitorRestoreSpace :: "'w cap_sys \<Rightarrow> ('w, unit) act \<Rightarrow> fs_budget list \<Rightarrow> monitor_event list \<Rightarrow> ('w, unit) act" where
  "monitorRestoreSpace C cancel bs [] = ret ()"
| "monitorRestoreSpace C cancel bs (MonitorDone # es) = ret ()"
| "monitorRestoreSpace C cancel bs (MonitorCanceled # es) = fail CtxErr"
| "monitorRestoreSpace C cancel bs (MonitorTick # es) =
     attempt (CheckCapacity C (margin_budgets bs)) (\<lambda>r. case r of
       Inl e \<Rightarrow> attempt cancel (\<lambda>_. fail e)
     | Inr _ \<Rightarrow> monitorRestoreSpace C cancel bs es)"

definition NativeWorkspace :: string where
  "NativeWorkspace = pg_workspace @ ''/native''"

text \<open>What the operation finds around it: the hold's identifier when there is one, whether the workspace lock is held,
  whether the restore slot is free, the results of the monitor goroutines at their receive, and the floating point step of
  \<open>time.ParseDuration\<close>.\<close>

record 'w restore_env =
  re_hold :: "string option"
  re_locked :: bool
  re_free :: bool
  re_mon1 :: "fs_budget list \<Rightarrow> ('w, unit) act"
  re_mon2 :: "fs_budget list \<Rightarrow> ('w, unit) act"
  re_monC :: "('w, unit) act"
  re_float :: "int \<Rightarrow> int \<Rightarrow> int \<Rightarrow> int"

definition largest_unit :: "'w host \<Rightarrow> string \<Rightarrow> int \<Rightarrow> ('w, int) act" where
  "largest_unit H mount unit = andthen (restoreAllocationUnit (h_bsize H) mount) (\<lambda>u. ret (max unit u))"

text \<open>For a chain of two the budget of the full alone is computed first and its result, error included, is replaced.\<close>

definition first_budgets :: "'w host \<Rightarrow> plan \<Rightarrow> native_spec \<Rightarrow> fs_budget list \<Rightarrow> restore_layout \<Rightarrow> ('w, fs_budget list) act" where
  "first_budgets H p n budgets l =
     attempt (restoreDownloadCapacity (h_bsize H) (pln_Chain p ! 0) n budgets l) (\<lambda>r.
     if length (pln_Chain p) = 2 then
       andthen (each_fold (largest_unit H) (restoreMounts l) 0) (\<lambda>unit. lift (differentialRestoreBudget (pln_Chain p) n budgets l unit))
     else lift r)"

definition fetch_input :: "'w host \<Rightarrow> (bytes \<Rightarrow> (bytes \<times> bool \<times> bytes) option) \<Rightarrow> (bytes \<Rightarrow> tar_stream) \<Rightarrow> plan \<Rightarrow> native_spec \<Rightarrow> string \<Rightarrow> nat \<times> commit \<Rightarrow> full_input list \<Rightarrow> ('w, full_input list) act" where
  "fetch_input H gunz untar p n scratch = (\<lambda>(i, c) inputs. let dir = path_join [scratch, format_uint (int i)] in
     andthen (make_dir H dir) (\<lambda>_.
     andthen (downloadFull H gunz c dir) (\<lambda>inp.
     andthen (scan_input H untar inp c (idn_WALSegmentBytes (pln_Source p)) n) (\<lambda>inp. ret (inputs @ [inp])))))"

definition run_env :: "string list" where
  "run_env = env_C @ [''HOME=/nonexistent'']"

definition tool_versions :: "'w host \<Rightarrow> string \<Rightarrow> ('w, unit) act" where
  "tool_versions H tool =
     attempt (h_run H run_env tool [''--version'']) (\<lambda>r. case r of
       Inr b \<Rightarrow> if nativeVersion b tool then ret () else fail (PlainErr ''native restore tool version mismatch'')
     | Inl _ \<Rightarrow> fail (PlainErr ''native restore tool version mismatch''))"

text \<open>After the inputs are scanned: the output budget, the second monitor, the tools.\<close>

definition restore_native :: "'w host \<Rightarrow> (bytes \<Rightarrow> tar_stream) \<Rightarrow> 'w restore_env \<Rightarrow> plan \<Rightarrow> native_spec \<Rightarrow> restore_layout \<Rightarrow> full_input list \<Rightarrow> ('w, (string \<times> integrity) list) act" where
  "restore_native H untar R p n l inputs =
     andthen (each (tool_versions H) [''pg_verifybackup'', ''pg_waldump'', ''pg_controldata'', ''pg_combinebackup'']) (\<lambda>_.
     andthen (each (\<lambda>(inp, c). verify_input (h_run H run_env) inp c (idn_WALSegmentBytes (pln_Source p))) (zip inputs (pln_Chain p))) (\<lambda>_.
     andthen (if length inputs = 2 then combineOriginals H untar (h_run H run_env) (re_monC R) inputs (pln_Chain p) l n
       else materialize H untar (h_run H run_env) (inputs ! 0) (last (pln_Chain p)) l) (\<lambda>res.
     andthen (h_ctx H) (\<lambda>_. ret res))))"

text \<open>Joining a monitor: its error counts when the work had none.\<close>

definition joined :: "('w, unit) act \<Rightarrow> ('w, 'a) act \<Rightarrow> ('w, 'a) act" where
  "joined mon m = attempt m (\<lambda>r. attempt mon (\<lambda>me. case (r, me) of (Inr _, Inl e) \<Rightarrow> fail e | _ \<Rightarrow> lift r))"

text \<open>The second part runs under the second monitor, the first under the first; \<open>Inr (Inl e)\<close> is an error of the first monitor
  received when the second is already running.\<close>

definition restore_work :: "'w host \<Rightarrow> 'w cap_sys \<Rightarrow> (bytes \<Rightarrow> (bytes \<times> bool \<times> bytes) option) \<Rightarrow> (bytes \<Rightarrow> tar_stream) \<Rightarrow> 'w restore_env \<Rightarrow> plan \<Rightarrow> native_spec \<Rightarrow> fs_budget list \<Rightarrow> restore_layout \<Rightarrow>
    fs_budget list \<Rightarrow> ('w, (string \<times> integrity) list) act" where
  "restore_work H C gunz untar R p n budgets l phase =
     attempt (andthen (h_mkdirTemp H NativeWorkspace ''restore-'') (\<lambda>scratch.
         attempt (andthen (each_fold (fetch_input H gunz untar p n scratch) (enumerate 0 (pln_Chain p)) []) (\<lambda>inputs.
           andthen (if length inputs = 1 then restoreOutputCapacity (h_bsize H) (inputs ! 0) (last (pln_Chain p)) n budgets l else ret phase) (\<lambda>phase2.
           andthen (CheckCapacity C phase2) (\<lambda>_. ret (inputs, phase2))))) (\<lambda>r. ret (scratch, r)))) (\<lambda>r.
       case r of
         Inl e \<Rightarrow> attempt (re_mon1 R phase) (\<lambda>_. fail e)
       | Inr (scratch, Inl e) \<Rightarrow> attempt (h_removeAll H scratch) (\<lambda>_. attempt (re_mon1 R phase) (\<lambda>_. fail e))
       | Inr (scratch, Inr (inputs, phase2)) \<Rightarrow>
          attempt (re_mon1 R phase) (\<lambda>m1.
          joined (re_mon2 R phase2) (deferred (h_removeAll H scratch)
            (case m1 of Inl e \<Rightarrow> fail e | Inr _ \<Rightarrow> restore_native H untar R p n l inputs))))"

definition RestoreFull :: "'w host \<Rightarrow> 'w cap_sys \<Rightarrow> (bytes \<Rightarrow> (bytes \<times> bool \<times> bytes) option) \<Rightarrow> (bytes \<Rightarrow> tar_stream) \<Rightarrow> 'w restore_env \<Rightarrow> plan \<Rightarrow> native_spec \<Rightarrow> fs_budget list \<Rightarrow> restore_layout \<Rightarrow>
    ('w, (string \<times> integrity) list) act" where
  "RestoreFull H C gunz untar R p n budgets l =
     andthen (lift (Plan_Validate p)) (\<lambda>_.
     if re_hold R \<noteq> Some (pln_ReaderHoldID p) \<or> \<not> re_locked R then fail (PlainErr ''restore requires source reader and exclusive native workspace'')
     else if \<not> re_free R then fail (PlainErr ''native restore already active'')
     else andthen (lift (validateRestoreLayout l (commit_tables (last (pln_Chain p))))) (\<lambda>_.
       andthen (first_budgets H p n budgets l) (\<lambda>phase.
       andthen (CheckCapacity C phase) (\<lambda>_.
       attempt (h_eval H NativeWorkspace) (\<lambda>r.
       if r \<noteq> Inr NativeWorkspace then fail ErrInput
       else case ParseDuration (re_float R) (nv_CaptureTimeout n) of
         None \<Rightarrow> fail ErrInput
       | Some d \<Rightarrow> if d \<le> 0 \<or> d > six_hours then fail ErrInput
           else restore_work H C gunz untar R p n budgets l phase)))))"

end
