(* ===== verification/Pg_Capture.thy ===== *)
theory Pg_Capture
  imports Pg_Materialize Config_Snapshot
begin

text \<open>
  Capturing a backup (postgres/capture.go, preflight.go, differential.go): the preflight of a server, opening a capture, the
  source checks around it, and the capture itself from \<open>pg_basebackup\<close> to the spooled artifacts of a commit. Deadlines of
  commands are part of the outcome of \<open>h_run\<close>; logging is left out.
\<close>

section \<open>Connection\<close>

definition dec_str_map :: "json \<Rightarrow> str_map option" where
  "dec_str_map j = (case j of
     JObj ms \<Rightarrow> those (map (\<lambda>(k, v). case v of JStr s \<Rightarrow> Some (k, s) | JNull \<Rightarrow> Some (k, []) | _ \<Rightarrow> None) ms)
   | _ \<Rightarrow> None)"

definition dec_connection :: "json \<Rightarrow> connection option" where
  "dec_connection = dec_into [(''host'', into dec_str (\<lambda>v c. c\<lparr>cn_Host := v\<rparr>)), (''tablespaces'', into dec_str_map (\<lambda>v c. c\<lparr>cn_Tablespaces := Some v\<rparr>))]
     \<lparr>cn_Host = [], cn_Tablespaces = None\<rparr>"

definition dec_budget :: "json \<Rightarrow> fs_budget option" where
  "dec_budget = dec_into [(''mount'', into dec_str (\<lambda>v b. b\<lparr>fb_Mount := v\<rparr>)), (''limitBytes'', into dec_int (\<lambda>v b. b\<lparr>fb_LimitBytes := v\<rparr>)),
      (''requiredBytes'', into dec_int (\<lambda>v b. b\<lparr>fb_RequiredBytes := v\<rparr>))]
     \<lparr>fb_Mount = [], fb_LimitBytes = 0, fb_RequiredBytes = 0\<rparr>"

definition dec_budgets :: "bytes \<Rightarrow> fs_budget list option" where
  "dec_budgets = dec_bytes (dec_slice dec_budget)"

text \<open>The private files of a connection (in the order the map yields them) and the environment of \<open>libpq\<close>.\<close>

definition write_private :: "'w host \<Rightarrow> string \<Rightarrow> string \<times> bytes \<Rightarrow> ('w, unit) act" where
  "write_private H directory = (\<lambda>(name, v). attempt (h_write H (path_join [directory, name]) v) (\<lambda>r. case r of
     Inl _ \<Rightarrow> fail (PlainErr ''native private snapshot write failed'') | Inr _ \<Rightarrow> ret ()))"

definition service_text :: "string \<Rightarrow> string \<Rightarrow> string" where
  "service_text directory host = concat (map (\<lambda>l. l @ [CHR 0x0a])
     [''[local]'', ''host='' @ host, ''hostaddr=127.0.0.1'', ''port=5432'', ''user=streaming_replica'', ''dbname=postgres'', ''sslmode=verify-full'', ''connect_timeout=10'',
      ''sslcert='' @ directory @ ''/client.crt'', ''sslkey='' @ directory @ ''/client.key'', ''sslrootcert='' @ directory @ ''/server-ca.crt''])"

definition prepareConnection :: "'w host \<Rightarrow> string \<Rightarrow> string \<Rightarrow> 'q capture_snapshot \<Rightarrow> string \<Rightarrow> ('w, string list) act" where
  "prepareConnection H directory host s application =
     andthen (each (write_private H directory) [(''client.crt'', cs_Certificate s), (''client.key'', cs_Key s), (''server-ca.crt'', cs_ServerCA s)]) (\<lambda>_.
     attempt (h_write H (path_join [directory, ''service.conf'']) (service_text directory host)) (\<lambda>r. case r of
       Inl _ \<Rightarrow> fail (PlainErr ''native service snapshot write failed'')
     | Inr _ \<Rightarrow> ret (env_C @ [''HOME=/nonexistent'', ''PGSERVICE=local'', ''PGSERVICEFILE='' @ path_join [directory, ''service.conf''], ''PGPASSFILE=/nonexistent'',
         ''PGOPTIONS=-c search_path=pg_catalog -c statement_timeout=30000'', ''PGAPPNAME='' @ application])))"

definition psql_args :: "string \<Rightarrow> string list" where
  "psql_args query = [''-X'', ''-A'', ''-t'', ''--no-password'', ''-v'', ''ON_ERROR_STOP=1'', ''-c'', query]"

text \<open>The query is a constant of the source; its answer is decoded by \<open>json.Unmarshal\<close>, the argument \<open>ps_dec\<close>. The second
  decoder is that of the label query.\<close>

record pg_codec =
  ps_sql :: string
  ps_dec :: "bytes \<Rightarrow> server_state option"
  ps_label :: "bytes \<Rightarrow> (int \<times> string) option"

section \<open>Preflight\<close>

definition controlAt :: "'w host \<Rightarrow> string \<Rightarrow> ('w, capture_control) act" where
  "controlAt H directory = andthen (h_run H env_C ''pg_controldata'' [directory]) (\<lambda>b. lift (parseCaptureControl b))"

definition same_path :: "'w host \<Rightarrow> err \<Rightarrow> string \<Rightarrow> ('w, unit) act" where
  "same_path H e p = attempt (h_eval H p) (\<lambda>r. if r = Inr p then ret () else fail e)"

definition load_connection :: "'w proj_sys \<Rightarrow> nat \<Rightarrow> err \<Rightarrow> err \<Rightarrow> ('w, connection \<times> fs_budget list) act" where
  "load_connection P root e1 e2 =
     andthen (Proj_Read P root ''native/connection.json'' 65536) (\<lambda>b.
     case StrictJSON (dec_bytes dec_connection) b of
       Inl _ \<Rightarrow> fail e1
     | Inr c \<Rightarrow>
        if length (map_list (cn_Tablespaces c)) > 64 \<or> \<not> validHost (cn_Host c) then fail e1
        else andthen (Proj_Read P root ''capacity.json'' 65536) (\<lambda>b.
          case StrictJSON dec_budgets b of Inl _ \<Rightarrow> fail e2 | Inr budgets \<Rightarrow> ret (c, budgets)))"

definition wal_mount_dir :: string where
  "wal_mount_dir = ''/var/lib/postgresql/wal''"

definition expected_wal :: "fs_budget list \<Rightarrow> string" where
  "expected_wal budgets = (if list_ex (\<lambda>b. fb_Mount b = wal_mount_dir) budgets then wal_mount_dir @ ''/pg_wal'' else liveData @ ''/pg_wal'')"

definition preflight_budgets :: "bool \<Rightarrow> fs_budget list \<Rightarrow> fs_budget list" where
  "preflight_budgets wal budgets = map (\<lambda>b. if fb_Mount b = pg_workspace then b\<lparr>fb_RequiredBytes := 1048576\<rparr>
     else if wal then b\<lparr>fb_RequiredBytes := 0\<rparr> else b) budgets"

definition check_server :: "'w host \<Rightarrow> 'q config_env \<Rightarrow> pg_codec \<Rightarrow> bool \<Rightarrow> string list \<Rightarrow> connection \<Rightarrow> native_spec \<Rightarrow> ('w, unit) act" where
  "check_server H E Q wal env c n =
     andthen (h_run H env ''psql'' (psql_args (ps_sql Q))) (\<lambda>b. case ps_dec Q b of
       None \<Rightarrow> fail (PlainErr ''invalid native metadata response'')
     | Some s \<Rightarrow>
        if wal \<and> sv_ArchiveMode s \<noteq> ''on'' \<and> sv_ArchiveMode s \<noteq> ''always'' then fail (PlainErr ''actual archive_mode must be on or always'')
        else andthen (lift (validateState E (if wal then s\<lparr>sv_Primary := True\<rparr> else s) c n)) (\<lambda>_.
          andthen (h_run H env_C ''pg_controldata'' [liveData]) (\<lambda>b. lift (validateControl (controlFields b)))))"

definition checkFromRoot :: "'w host \<Rightarrow> 'w cap_sys \<Rightarrow> 'w proj_sys \<Rightarrow> 'c trust_env \<Rightarrow> 'q config_env \<Rightarrow> (bytes \<Rightarrow> err + 'q repo_spec) \<Rightarrow> pg_codec \<Rightarrow> bool \<Rightarrow> nat \<Rightarrow> bool \<Rightarrow> ('w, unit) act" where
  "checkFromRoot H C P X E decode Q locked root wal =
     andthen (LoadCaptureSnapshotFromRoot P X decode root) (\<lambda>s.
     andthen (load_connection P root (PlainErr ''invalid native connection projection'') (PlainErr ''invalid native capacity projection'')) (\<lambda>(c, budgets).
     if \<not> list_ex (\<lambda>b. fb_Mount b = pg_workspace) budgets then fail (PlainErr ''native workspace unavailable'')
     else andthen (CheckCapacity C (preflight_budgets wal budgets)) (\<lambda>_.
       attempt (h_eval H (liveData @ ''/pg_wal'')) (\<lambda>r.
       if r \<noteq> Inr (expected_wal budgets) then fail (PlainErr ''actual WAL layout differs from declared CNPG volume'')
       else andthen (each (same_path H (PlainErr ''unmanaged actual data/tablespace symlink layout'')) (liveData # map snd (map_list (cn_Tablespaces c)))) (\<lambda>_.
         attempt (h_mkdirTemp H (if locked then NativeWorkspace else pg_workspace) ''native-auth-'') (\<lambda>r. case r of
           Inl _ \<Rightarrow> fail (PlainErr ''native private workspace unavailable'')
         | Inr directory \<Rightarrow> deferred (h_removeAll H directory)
             (andthen (prepareConnection H directory (cn_Host c) s ''cnpg-backup-preflight'') (\<lambda>env.
              check_server H E Q wal env c (sp_Native (sn_Spec (cs_Repository s))))))))))) "

definition Preflight_Check :: "'w host \<Rightarrow> 'w cap_sys \<Rightarrow> 'w proj_sys \<Rightarrow> 'c trust_env \<Rightarrow> 'q config_env \<Rightarrow> (bytes \<Rightarrow> err + 'q repo_spec) \<Rightarrow> pg_codec \<Rightarrow> bool \<Rightarrow> string \<Rightarrow> ('w, unit) act" where
  "Preflight_Check H C P X E decode Q locked projection =
     andthen (Projection P projection) (\<lambda>root. checkFromRoot H C P X E decode Q locked root False)"

definition CheckWAL :: "'w host \<Rightarrow> 'w cap_sys \<Rightarrow> 'w proj_sys \<Rightarrow> 'c trust_env \<Rightarrow> 'q config_env \<Rightarrow> (bytes \<Rightarrow> err + 'q repo_spec) \<Rightarrow> pg_codec \<Rightarrow> bool \<Rightarrow> nat \<Rightarrow> ('w, control) act" where
  "CheckWAL H C P X E decode Q locked root =
     andthen (checkFromRoot H C P X E decode Q locked root True) (\<lambda>_. ReadControl (h_run H env_C ''pg_controldata'' [liveData]))"

section \<open>Opening a capture\<close>

record 'q capture =
  cp_Snapshot :: "'q capture_snapshot"
  cp_Connection :: connection
  cp_Directory :: string
  cp_env :: "string list"
  cp_before :: server_state
  cp_control :: capture_control
  cp_budgets :: "fs_budget list"
  cp_peak :: int

definition capture_native :: "'q capture \<Rightarrow> native_spec" where
  "capture_native c = sp_Native (sn_Spec (cs_Repository (cp_Snapshot c)))"

definition capture_state :: "'w host \<Rightarrow> 'q config_env \<Rightarrow> pg_codec \<Rightarrow> string list \<Rightarrow> connection \<Rightarrow> native_spec \<Rightarrow> ('w, server_state) act" where
  "capture_state H E Q env conn n =
     andthen (h_run H env ''psql'' (psql_args (ps_sql Q))) (\<lambda>b. case ps_dec Q b of
       None \<Rightarrow> fail ErrInput
     | Some s \<Rightarrow> andthen (lift (validateState E s conn n)) (\<lambda>_.
         case (parse_rfc3339 (sv_Postmaster s), parse_rfc3339 (sv_Clock s)) of
           (Some (pm, _), Some (now, _)) \<Rightarrow>
             if now < pm \<or> length (map_list (sv_TablespaceOIDs s)) \<noteq> length (map_list (sv_Tablespaces s)) then fail ErrInput
             else ret (s\<lparr>sv_Postmaster := format_rfc3339 pm, sv_Clock := format_rfc3339 now\<rparr>)
         | _ \<Rightarrow> fail ErrInput))"

definition capture_peak :: "native_spec \<Rightarrow> int \<Rightarrow> int \<Rightarrow> int" where
  "capture_peak n base segment = s64 (base + spool_limit n + 6 * (segment + 1048576) + 16777216)"

definition capture_budgets :: "int \<Rightarrow> fs_budget list \<Rightarrow> fs_budget list" where
  "capture_budgets peak budgets = map (\<lambda>b. b\<lparr>fb_RequiredBytes := (if fb_Mount b = pg_workspace then peak else 0)\<rparr>) budgets"

definition capture_tools :: "string list" where
  "capture_tools = [''pg_basebackup'', ''pg_verifybackup'', ''pg_waldump'', ''pg_controldata'', ''psql'']"

definition check_tool :: "'w host \<Rightarrow> string list \<Rightarrow> string \<Rightarrow> ('w, unit) act" where
  "check_tool H env tool = attempt (h_run H env tool [''--version'']) (\<lambda>r. case r of
     Inr b \<Rightarrow> if nativeVersion b tool then ret () else fail (PlainErr ''native tool version mismatch'')
   | Inl _ \<Rightarrow> fail (PlainErr ''native tool version mismatch''))"

definition open_source :: "'w host \<Rightarrow> 'q config_env \<Rightarrow> pg_codec \<Rightarrow> 'q capture \<Rightarrow> ('w, 'q capture) act" where
  "open_source H E Q c =
     andthen (prepareConnection H (cp_Directory c) (cn_Host (cp_Connection c)) (cp_Snapshot c) ''cnpg-backup'') (\<lambda>env.
     andthen (each (check_tool H env) capture_tools) (\<lambda>_.
     andthen (capture_state H E Q env (cp_Connection c) (capture_native c)) (\<lambda>before.
     if sv_ArchiveMode before \<noteq> ''on'' \<and> sv_ArchiveMode before \<noteq> ''always'' then fail (PlainErr ''capture requires actual archive_mode on or always'')
     else if sv_FreeSenders before < 2 \<or> sv_FreeSlots before < 1 then fail (PlainErr ''capture requires two available walsenders and one temporary slot'')
     else attempt (controlAt H liveData) (\<lambda>r.
       if r \<noteq> Inr (cp_control c) then fail (PlainErr ''source control changed during preflight'')
       else ret (c\<lparr>cp_env := env, cp_before := before\<rparr>)))))"

definition zero_state :: server_state where
  "zero_state = \<lparr>sv_Version = 0, sv_Role = [], sv_Primary = False, sv_BlockSize = 0, sv_SegmentSize = 0, sv_FullPageWrites = [], sv_WALLevel = [], sv_SummarizeWAL = [],
     sv_SummaryMinutes = 0, sv_ArchiveSeconds = 0, sv_ArchiveMode = [], sv_Tablespaces = None, sv_TablespaceOIDs = None, sv_Postmaster = [], sv_Clock = [],
     sv_LogTimezone = [], sv_ConfigLoaded = [], sv_FreeSenders = 0, sv_FreeSlots = 0\<rparr>"

definition OpenCapture :: "'w host \<Rightarrow> 'w cap_sys \<Rightarrow> 'w proj_sys \<Rightarrow> 'c trust_env \<Rightarrow> 'q config_env \<Rightarrow> (bytes \<Rightarrow> err + 'q repo_spec) \<Rightarrow> pg_codec \<Rightarrow> nat \<Rightarrow> ('w, 'q capture) act" where
  "OpenCapture H C P X E decode Q root =
     andthen (LoadCaptureSnapshotFromRoot P X decode root) (\<lambda>s. let n = sp_Native (sn_Spec (cs_Repository s)) in
     andthen (load_connection P root ErrInput ErrInput) (\<lambda>(conn, budgets).
     andthen (controlAt H liveData) (\<lambda>control.
     andthen (lift (CaptureCapacity n)) (\<lambda>base. let peak = capture_peak n base (cc_Segment control); wal = expected_wal budgets in
     if \<not> list_ex (\<lambda>b. fb_Mount b = pg_workspace) budgets then fail ErrInput
     else andthen (CheckCapacity C (capture_budgets peak budgets)) (\<lambda>_.
       attempt (h_eval H (liveData @ ''/pg_wal'')) (\<lambda>r.
       if r \<noteq> Inr wal then fail ErrInput
       else andthen (each (same_path H ErrInput) (liveData # wal # map snd (map_list (cn_Tablespaces conn)))) (\<lambda>_.
         andthen (h_mkdirTemp H NativeWorkspace ''capture-'') (\<lambda>directory.
         attempt (open_source H E Q \<lparr>cp_Snapshot = s, cp_Connection = conn, cp_Directory = directory, cp_env = [], cp_before = zero_state, cp_control = control,
             cp_budgets = capture_budgets peak budgets, cp_peak = peak\<rparr>) (\<lambda>r. case r of
           Inr c \<Rightarrow> ret c
         | Inl e \<Rightarrow> attempt (h_removeAll H directory) (\<lambda>_. fail e)))))))))) "

definition Capture_Close :: "'w host \<Rightarrow> 'q capture \<Rightarrow> ('w, unit) act" where
  "Capture_Close H c = (if cp_Directory c \<noteq> [] then attempt (h_removeAll H (cp_Directory c)) (\<lambda>_. ret ()) else ret ())"

definition Capture_Identity :: "'q capture \<Rightarrow> string \<Rightarrow> string \<Rightarrow> identity" where
  "Capture_Identity c repositoryID clusterUID = \<lparr>idn_Schema = 1, idn_RepositoryID = repositoryID, idn_PostgresMajor = 18, idn_SystemIdentifier = cc_System (cp_control c),
     idn_WALSegmentBytes = cc_Segment (cp_control c), idn_WriterClusterUID = clusterUID, idn_CreatedAt = []\<rparr>"

text \<open>\<open>reflect.DeepEqual\<close> of two states: maps compare as maps.\<close>

definition same_state :: "server_state \<Rightarrow> server_state \<Rightarrow> bool" where
  "same_state s t \<longleftrightarrow> s\<lparr>sv_Tablespaces := None, sv_TablespaceOIDs := None\<rparr> = t\<lparr>sv_Tablespaces := None, sv_TablespaceOIDs := None\<rparr> \<and>
     same_map (sv_Tablespaces s) (sv_Tablespaces t) \<and>
     (case (sv_TablespaceOIDs s, sv_TablespaceOIDs t) of (None, None) \<Rightarrow> True | (Some a, Some b) \<Rightarrow> set a = set b | _ \<Rightarrow> False)"

definition instant_of :: "string \<Rightarrow> instant" where
  "instant_of s = (case parse_rfc3339 s of Some (t, _) \<Rightarrow> t | None \<Rightarrow> zero_instant)"

definition Postflight :: "'w host \<Rightarrow> 'q config_env \<Rightarrow> pg_codec \<Rightarrow> 'q capture \<Rightarrow> ('w, string) act" where
  "Postflight H E Q c =
     andthen (capture_state H E Q (cp_env c) (cp_Connection c) (capture_native c)) (\<lambda>s. let clock = sv_Clock s; b = cp_before c in
     if \<not> same_state (s\<lparr>sv_Clock := sv_Clock b, sv_FreeSenders := sv_FreeSenders b, sv_FreeSlots := sv_FreeSlots b\<rparr>) b
     then fail (PlainErr ''capture source changed (restart, role, settings or tablespaces)'')
     else attempt (controlAt H liveData) (\<lambda>r.
       if r \<noteq> Inr (cp_control c) then fail (PlainErr ''capture physical identity changed'')
       else if instant_of clock < instant_of (sv_Clock b) then fail (PlainErr ''source clock moved backwards'')
       else ret clock))"

section \<open>Reference backups\<close>

definition eligibleFullAt :: "'q config_env \<Rightarrow> 'q capture \<Rightarrow> commit \<Rightarrow> string \<Rightarrow> string \<Rightarrow> err + unit" where
  "eligibleFullAt E c root podUID clock =
     (case (ParseDuration (ce_float E) (nv_MaxReferenceAge (capture_native c)), parse_rfc3339 (cmt_StartedAt root), parse_rfc3339 (cmt_StoppedAt root), parse_rfc3339 clock) of
        (Some age, Some (start, _), Some (stop, _), Some (now, _)) \<Rightarrow>
          if age \<le> 0 \<or> now - start > age \<or> stop < start \<or> stop > now \<or> cmt_Kind root \<noteq> ''full'' \<or> cmt_PostgresMajor root \<noteq> 18 \<or> cmt_ToolVersion root \<noteq> ''18.6'' \<or>
             cmt_SystemIdentifier root \<noteq> cc_System (cp_control c) \<or> cmt_Timeline root \<noteq> cc_Timeline (cp_control c) \<or> cmt_ChecksumVersion root \<noteq> cc_Checksum (cp_control c) \<or>
             podUID = [] \<or> cmt_CaptureInstanceUID root \<noteq> podUID \<or> cmt_PostmasterStartedAt root \<noteq> sv_Postmaster (cp_before c)
          then Inl (PlainErr ''differential requires an eligible original full on the same primary/postmaster/checksum/timeline; request a new full explicitly'') else Inr ()
      | _ \<Rightarrow> Inl (PlainErr ''differential requires an eligible original full on the same primary/postmaster/checksum/timeline; request a new full explicitly''))"

definition EligibleFull :: "'q config_env \<Rightarrow> 'q capture \<Rightarrow> commit \<Rightarrow> string \<Rightarrow> err + unit" where
  "EligibleFull E c root podUID = eligibleFullAt E c root podUID (sv_Clock (cp_before c))"

end
