(* ===== verification/Pg_Backup.thy ===== *)
theory Pg_Backup
  imports Pg_Capture
begin

text \<open>
  The capture itself (second half of postgres/capture.go, \<open>Differential\<close> of differential.go): from \<open>pg_basebackup\<close> through the
  scan of its archives, the label, native verification and compression to the commit of a backup. The temporary files of the
  compression, \<open>compress/gzip\<close> and \<open>statfs\<close> are an interface of their own; open files are represented by their paths.
\<close>

section \<open>Compression\<close>

text \<open>\<open>sp_gzip\<close> are the writes a gzip writer of level one makes for its input up to its \<open>Close\<close>; \<open>sp_statfs\<close> are block size and
  available blocks.\<close>

record 'w spool_sys =
  sp_temp :: "string \<Rightarrow> string \<Rightarrow> ('w, nat \<times> string) act"
  sp_remove :: "string \<Rightarrow> ('w, unit) act"
  sp_gzip :: "bytes \<Rightarrow> bytes list"
  sp_statfs :: "string \<Rightarrow> ('w, int \<times> int) act"

text \<open>\<open>cappedWriter.Write\<close> before a file and a digest; the state is what is left and the bytes so far.\<close>

definition capped_write :: "'w host \<Rightarrow> nat \<Rightarrow> bytes \<Rightarrow> int \<times> bytes \<Rightarrow> ('w, int \<times> bytes) act" where
  "capped_write H f p = (\<lambda>(left, done). if int (length p) > left then fail ErrInput
     else andthen (h_append H f p) (\<lambda>_. ret (left - int (length p), done @ p)))"

text \<open>The copy reads through a buffer of 128 KiB.\<close>

fun blocks :: "nat \<Rightarrow> bytes \<Rightarrow> bytes list" where
  "blocks n b = (if n = 0 \<or> b = [] then [] else take n b # blocks n (drop n b))"

declare blocks.simps [simp del]

definition spool_writes :: "'w spool_sys \<Rightarrow> string \<Rightarrow> bytes \<Rightarrow> bytes list option" where
  "spool_writes Z compression b = (if compression = ''gzip'' then Some (sp_gzip Z b) else if compression = ''none'' then Some (blocks 131072 b) else None)"

definition spool_fill :: "'w host \<Rightarrow> 'w spool_sys \<Rightarrow> nat \<Rightarrow> bytes \<times> bool \<Rightarrow> string \<Rightarrow> int \<Rightarrow> ('w, artifact) act" where
  "spool_fill H Z f raw compression cap = (case spool_writes Z compression (fst raw) of
     None \<Rightarrow> fail ErrInput
   | Some ws \<Rightarrow>
      andthen (each_fold (capped_write H f) ws (cap, [])) (\<lambda>(left, done).
      andthen (h_ctx H) (\<lambda>_.
      if \<not> snd raw then fail OsErr
      else andthen (h_sync H f) (\<lambda>_.
        ret \<lparr>art_Index = 0, art_Role = [], art_TablespaceOID = None, art_Compression = compression, art_StoredBytes = cap - left, art_RawBytes = int (length (fst raw)),
          art_StoredSHA256 = digest done, art_RawSHA256 = digest (fst raw)\<rparr>))))"

definition spool :: "'w host \<Rightarrow> 'w spool_sys \<Rightarrow> bytes \<times> bool \<Rightarrow> string \<Rightarrow> string \<Rightarrow> int \<Rightarrow> ('w, string \<times> artifact) act" where
  "spool H Z raw dir compression cap =
     andthen (sp_temp Z dir ''spool-'') (\<lambda>(f, path).
     attempt (spool_fill H Z f raw compression cap) (\<lambda>r. case r of
       Inr a \<Rightarrow> ret (path, a)
     | Inl e \<Rightarrow> attempt (h_close H f) (\<lambda>_. attempt (sp_remove Z path) (\<lambda>_. fail e))))"

section \<open>The capacity monitor\<close>

record use_sums =
  us_count :: int
  us_used :: int
  us_raw :: int
  us_wal :: int
  us_spools :: int

definition use_entry :: "string \<Rightarrow> string \<times> file_info option \<Rightarrow> use_sums \<Rightarrow> err + use_sums" where
  "use_entry directory = (\<lambda>(p, info) u. let u = u\<lparr>us_count := us_count u + 1\<rparr> in
     if us_count u > maxEntries + 1000 then Inl ErrInput
     else case info of
       None \<Rightarrow> Inl OsErr
     | Some st \<Rightarrow>
        if \<not> fs_regular st \<and> \<not> fs_dir st then Inl ErrInput
        else if fs_dir st then Inr u
        else let z = fs_size st; rel = trim_prefix p (directory @ ''/'') in
          Inr (u\<lparr>us_used := us_used u + z, us_raw := us_raw u + (if has_prefix rel ''tar/'' then z else 0),
            us_wal := (if rel = ''tar/pg_wal.tar'' then z else us_wal u), us_spools := us_spools u + (if has_prefix rel ''spool-'' then z else 0)\<rparr>))"

definition within_use :: "native_spec \<Rightarrow> int \<Rightarrow> use_sums \<Rightarrow> int \<times> int \<Rightarrow> bool" where
  "within_use n peak u = (\<lambda>(bsize, bavail). us_used u \<le> peak \<and> us_raw u \<le> nv_MaxBackupBytes n \<and> us_wal u \<le> nv_MaxBootstrapWALBytes n \<and>
     us_spools u \<le> spool_limit n \<and> 0 < bsize \<and> GiB div bsize \<le> bavail)"

definition monitor_tick :: "'w host \<Rightarrow> 'w spool_sys \<Rightarrow> 'q capture \<Rightarrow> 'w \<Rightarrow> bool \<times> 'w" where
  "monitor_tick H Z c w = (case h_walk H (cp_Directory c) w of ((es, broken), w) \<Rightarrow>
     (case sp_statfs Z pg_workspace w of (s, w) \<Rightarrow>
       (case (fold_res (use_entry (cp_Directory c)) es \<lparr>us_count = 0, us_used = 0, us_raw = 0, us_wal = 0, us_spools = 0\<rparr>, broken, s) of
          (Inr u, None, Inr fs) \<Rightarrow> within_use (capture_native c) (cp_peak c) u fs
        | _ \<Rightarrow> False, w)))"

fun capture_monitor :: "'w host \<Rightarrow> 'w spool_sys \<Rightarrow> ('w, unit) act \<Rightarrow> 'q capture \<Rightarrow> monitor_event list \<Rightarrow> ('w, unit) act" where
  "capture_monitor H Z cancel c [] = ret ()"
| "capture_monitor H Z cancel c (MonitorDone # es) = ret ()"
| "capture_monitor H Z cancel c (MonitorCanceled # es) = fail CtxErr"
| "capture_monitor H Z cancel c (MonitorTick # es) = (\<lambda>w. case monitor_tick H Z c w of
     (True, w) \<Rightarrow> capture_monitor H Z cancel c es w
   | (False, w) \<Rightarrow> attempt cancel (\<lambda>_. fail (PlainErr ''native capture capacity exceeded'')) w)"

section \<open>The base backup\<close>

record captured =
  cd_Commit :: commit
  cd_Manifest :: string
  cd_Files :: "string list"

definition basebackup_args :: "string \<Rightarrow> string option \<Rightarrow> string list" where
  "basebackup_args dir reference = [''--no-password'', ''--pgdata='' @ dir, ''--format=tar'', ''--wal-method=stream'', ''--checkpoint=spread'', ''--manifest-checksums=SHA256''] @
     (case reference of None \<Rightarrow> [] | Some p \<Rightarrow> [''--incremental='' @ p])"

text \<open>The source clocks around \<open>pg_basebackup\<close>.\<close>

definition take_base :: "'w host \<Rightarrow> 'q config_env \<Rightarrow> pg_codec \<Rightarrow> 'q capture \<Rightarrow> string \<Rightarrow> string \<Rightarrow> (commit \<times> string) option \<Rightarrow> ('w, string \<times> string) act" where
  "take_base H E Q c podUID dir reference =
     andthen (Postflight H E Q c) (\<lambda>began.
     andthen (lift (case reference of None \<Rightarrow> Inr () | Some (root, _) \<Rightarrow> eligibleFullAt E c root podUID began)) (\<lambda>_.
     andthen (h_run H (cp_env c) ''pg_basebackup'' (basebackup_args dir (map_option snd reference))) (\<lambda>_.
     andthen (Postflight H E Q c) (\<lambda>stopped. ret (began, stopped)))))"

definition base_commit :: "'q capture \<Rightarrow> string \<Rightarrow> string \<Rightarrow> native_manifest \<Rightarrow> int \<Rightarrow> commit option \<Rightarrow> commit" where
  "base_commit c podUID stopped m sz reference = (let r = nm_Ranges m ! 0; k = cp_control c in
     \<lparr>cmt_Schema = 1, cmt_RepositoryID = [], cmt_BackupUID = [], cmt_AttemptID = [], cmt_RequestSHA256 = [],
      cmt_Kind = (case reference of None \<Rightarrow> ''full'' | Some _ \<Rightarrow> ''differential''), cmt_ParentBackupUID = map_option cmt_BackupUID reference,
      cmt_RootBackupUID = (case reference of None \<Rightarrow> [] | Some f \<Rightarrow> cmt_BackupUID f), cmt_SystemIdentifier = cc_System k, cmt_PostgresMajor = 18, cmt_ToolVersion = ''18.6'',
      cmt_Timeline = cc_Timeline k, cmt_ChecksumVersion = cc_Checksum k, cmt_CaptureInstanceUID = podUID, cmt_PostmasterStartedAt = sv_Postmaster (cp_before c),
      cmt_StartedAt = [], cmt_StoppedAt = stopped, cmt_StartLSN = wr_StartLSN r, cmt_StopLSN = wr_EndLSN r, cmt_RedoLSN = wr_StartLSN r,
      cmt_BundledWALStartLSN = wr_StartLSN r, cmt_BundledWALEndLSN = wr_EndLSN r, cmt_WALRanges = nm_Ranges m, cmt_BackupLabel = [], cmt_TablespaceMap = [],
      cmt_RootManifestSHA256 = map_option cmt_ManifestSHA256 reference, cmt_ManifestBytes = sz, cmt_ManifestSHA256 = [], cmt_Tablespaces = Some [], cmt_Artifacts = []\<rparr>)"

definition read_manifest :: "'w host \<Rightarrow> 'q capture \<Rightarrow> string \<Rightarrow> string \<Rightarrow> string \<Rightarrow> commit option \<Rightarrow> ('w, native_manifest \<times> commit) act" where
  "read_manifest H c podUID path stopped reference =
     andthen (h_read H path) (\<lambda>b.
     attempt (fileSize H path) (\<lambda>st. case st of
       Inl _ \<Rightarrow> fail ErrInput
     | Inr sz \<Rightarrow>
        if sz > MaxManifestBytes then fail ErrInput
        else (case ScanManifest b of
          Inl _ \<Rightarrow> fail ErrInput
        | Inr m \<Rightarrow>
           if format_uint (nm_SystemIdentifier m) \<noteq> cc_System (cp_control c) \<or> wr_Timeline (nm_Ranges m ! 0) \<noteq> cc_Timeline (cp_control c) then fail ErrInput
           else andthen (fileHash H path) (\<lambda>hash. ret (m, (base_commit c podUID stopped m sz reference)\<lparr>cmt_ManifestSHA256 := hash\<rparr>)))))"

section \<open>The archives\<close>

definition captured_tables :: "server_state \<Rightarrow> err + tablespace list" where
  "captured_tables s = (let os = map_list (sv_TablespaceOIDs s) in
     if list_ex (\<lambda>(_, oid). oid = 0) os then Inl ErrInput
     else Inr (sort_slice (\<lambda>a b. tsp_OID a < tsp_OID b) (map (\<lambda>(name, oid). \<lparr>tsp_OID = oid, tsp_Name = name\<rparr>) os)))"

definition archive_names :: "tablespace list \<Rightarrow> string list" where
  "archive_names ts = [''base.tar'', ''pg_wal.tar''] @ map (\<lambda>t. format_uint (uint (tsp_OID t)) @ ''.tar'') ts"

definition captured_files :: "'w host \<Rightarrow> string \<Rightarrow> string list \<Rightarrow> ('w, unit) act" where
  "captured_files H dir names = attempt (h_readdir H dir) (\<lambda>r. case r of
     Inl _ \<Rightarrow> fail ErrInput
   | Inr es \<Rightarrow> if length es \<noteq> length names + 1 \<or> \<not> list_all snd es then fail ErrInput else ret ())"

text \<open>The visitor of archive \<open>i\<close>; the side is the map \<open>actual\<close>.\<close>

definition visit_captured :: "'w host \<Rightarrow> 'q capture \<Rightarrow> string \<Rightarrow> string \<Rightarrow> nat \<Rightarrow> string \<Rightarrow> string \<Rightarrow> int \<Rightarrow> bytes \<times> bool \<Rightarrow> ('w \<times> (string \<times> int) list, unit) act" where
  "visit_captured H c walDir metaDir i name p sz b =
     (if i = 1 then
        (if p = ''archive_status'' \<or> has_prefix p ''archive_status/'' then check (sz = 0 \<and> has_suffix p ''.done'') ErrInput
         else if \<not> ValidWALFilename p \<or> CHR ''/'' \<in> set p \<or> length p \<noteq> 24 \<or> sz \<noteq> cc_Segment (cp_control c) then fail ErrInput
         else on_world (copyMember H walDir p sz b))
      else let full = (if i \<ge> 2 then ''pg_tblspc/'' @ trim_suffix name ''.tar'' @ ''/'' @ p else p) in
        andthen get_side (\<lambda>actual.
        if full \<in> fst ` set actual then fail ErrInput
        else andthen (upd_side (\<lambda>m. m @ [(full, sz)])) (\<lambda>_.
          if i = 0 \<and> metadata_file p then (if sz > 65536 then fail ErrInput else on_world (copyMember H metaDir p sz b)) else ret ())))"

definition scan_captured :: "'w host \<Rightarrow> (bytes \<Rightarrow> tar_stream) \<Rightarrow> 'q capture \<Rightarrow> string \<Rightarrow> string \<Rightarrow> string \<Rightarrow> nat \<times> string \<Rightarrow> int \<times> int \<Rightarrow> ('w \<times> (string \<times> int) list, int \<times> int) act" where
  "scan_captured H untar c dir walDir metaDir = (\<lambda>(i, name) (whole, entryCount). let path = path_join [dir, name]; n = capture_native c in
     andthen (on_world (h_read H path)) (\<lambda>(b, _).
     andthen (on_world (fileSize H path)) (\<lambda>sz.
     if whole + sz > nv_MaxBackupBytes n \<or> i = 1 \<and> sz > nv_MaxBootstrapWALBytes n then fail ErrInput
     else andthen (scanArchive untar (on_world (h_ctx H)) b sz (visit_captured H c walDir metaDir i name)) (\<lambda>inventory.
       if entryCount + ai_entries inventory > maxEntries then fail ErrInput else ret (whole + sz, entryCount + ai_entries inventory)))))"

definition captured_equal :: "(string \<times> int) list \<Rightarrow> (string \<times> int) list \<Rightarrow> bool" where
  "captured_equal actual files \<longleftrightarrow>
     list_all (\<lambda>(p, sz). label_file p \<or> map_of files p = Some sz) actual \<and> list_all (\<lambda>(p, sz). map_of actual p = Some sz) files"

section \<open>Label and control\<close>

definition read_whole :: "'w host \<Rightarrow> string \<Rightarrow> ('w, bytes) act" where
  "read_whole H path = andthen (h_read H path) (\<lambda>(b, ok). if ok then ret b else fail OsErr)"

definition captured_map :: "'w host \<Rightarrow> 'q capture \<Rightarrow> string \<Rightarrow> commit \<Rightarrow> ('w, commit) act" where
  "captured_map H c metaDir cm = (let path = path_join [metaDir, ''tablespace_map''] in
     if commit_tables cm \<noteq> [] then
       andthen (read_whole H path) (\<lambda>b.
       andthen (lift (validateTablespaceMap b (commit_tables cm) (cp_Connection c))) (\<lambda>_. ret (cm\<lparr>cmt_TablespaceMap := b\<rparr>)))
     else attempt (read_small H path) (\<lambda>r. case r of
       Inl _ \<Rightarrow> fail ErrInput
     | Inr b \<Rightarrow> if map_list b \<noteq> [] then fail ErrInput else ret cm))"

definition label_commit :: "'w host \<Rightarrow> pg_codec \<Rightarrow> 'q capture \<Rightarrow> string \<Rightarrow> string \<Rightarrow> string \<Rightarrow> commit \<Rightarrow> ('w, commit) act" where
  "label_commit H Q c metaDir began stopped cm =
     andthen (read_whole H (path_join [metaDir, ''backup_label''])) (\<lambda>label. let cm = cm\<lparr>cmt_BackupLabel := label\<rparr> in
     andthen (lift (parseLabel cm (cc_Segment (cp_control c)))) (\<lambda>labelTime.
     andthen (lift (labelTimeQuery labelTime began stopped (sv_LogTimezone (cp_before c)) (sv_ConfigLoaded (cp_before c)))) (\<lambda>query.
     andthen (h_run H (cp_env c) ''psql'' (psql_args query)) (\<lambda>output.
     andthen (lift (normalizedLabelTime (ps_label Q) output began stopped)) (\<lambda>started.
     andthen (captured_map H c metaDir (cm\<lparr>cmt_StartedAt := started\<rparr>)) (\<lambda>cm.
     attempt (controlAt H metaDir) (\<lambda>r. if r \<noteq> Inr (cp_control c) then fail (PlainErr ''captured control identity mismatch'') else ret cm)))))))"

definition VerifyWAL :: "'w host \<Rightarrow> string \<Rightarrow> wal_range list \<Rightarrow> ('w, unit) act" where
  "VerifyWAL H directory ranges = verifyRestoreWAL (h_run H env_C) directory ranges"

section \<open>The capture\<close>

definition spool_archive :: "'w host \<Rightarrow> 'w spool_sys \<Rightarrow> 'q capture \<Rightarrow> string \<Rightarrow> tablespace list \<Rightarrow> nat \<times> string \<Rightarrow> (string \<times> artifact) list \<Rightarrow> ('w, (string \<times> artifact) list) act" where
  "spool_archive H Z c dir ts = (\<lambda>(i, name) res.
     andthen (h_read H (path_join [dir, name])) (\<lambda>raw.
     andthen (spool H Z raw (cp_Directory c) (sp_Compression (sn_Spec (cs_Repository (cp_Snapshot c)))) (spool_limit (capture_native c))) (\<lambda>(path, a).
     ret (res @ [(path, a\<lparr>art_Index := int i, art_Role := (if i = 1 then ''wal'' else if i \<ge> 2 then ''tablespace'' else ''base''),
       art_TablespaceOID := (if i \<ge> 2 then Some (tsp_OID (ts ! (i - 2))) else None)\<rparr>)]))))"

definition check_captured :: "'w host \<Rightarrow> (bytes \<Rightarrow> tar_stream) \<Rightarrow> pg_codec \<Rightarrow> 'q capture \<Rightarrow> string \<Rightarrow> string \<Rightarrow> string \<Rightarrow> native_manifest \<Rightarrow> commit \<Rightarrow> ('w, commit) act" where
  "check_captured H untar Q c dir began stopped m cm =
     (let walDir = path_join [cp_Directory c, ''walcheck'']; metaDir = path_join [cp_Directory c, ''metadata'']; names = archive_names (commit_tables cm) in
     andthen (captured_files H dir names) (\<lambda>_.
     attempt (andthen (make_dir H walDir) (\<lambda>_. make_dir H metaDir)) (\<lambda>r. case r of Inl _ \<Rightarrow> fail ErrInput | Inr _ \<Rightarrow>
     andthen (h_openRoot H walDir) (\<lambda>_.
     andthen (h_openRoot H metaDir) (\<lambda>_.
     andthen (with_side [] (each_fold (scan_captured H untar c dir walDir metaDir) (enumerate 0 names) (cmt_ManifestBytes cm, 0))) (\<lambda>(_, actual).
     if \<not> captured_equal actual (nm_Files m) then fail ErrInput
     else andthen (label_commit H Q c metaDir began stopped cm) (\<lambda>cm.
       andthen (verifybackup (h_run H (cp_env c)) dir) (\<lambda>_.
       andthen (VerifyWAL H walDir (nm_Ranges m)) (\<lambda>_. ret cm)))))))))"

definition capture_body :: "'w host \<Rightarrow> 'w spool_sys \<Rightarrow> (bytes \<Rightarrow> tar_stream) \<Rightarrow> 'q config_env \<Rightarrow> pg_codec \<Rightarrow> 'q capture \<Rightarrow> string \<Rightarrow> (commit \<times> string) option \<Rightarrow> ('w, captured) act" where
  "capture_body H Z untar E Q c podUID reference = (let dir = path_join [cp_Directory c, ''tar'']; path = path_join [dir, ''backup_manifest''] in
     andthen (take_base H E Q c podUID dir reference) (\<lambda>(began, stopped).
     andthen (read_manifest H c podUID path stopped (map_option fst reference)) (\<lambda>(m, cm).
     andthen (lift (captured_tables (cp_before c))) (\<lambda>ts.
     andthen (check_captured H untar Q c dir began stopped m (cm\<lparr>cmt_Tablespaces := Some ts\<rparr>)) (\<lambda>cm.
     andthen (each_fold (spool_archive H Z c dir ts) (enumerate 0 (archive_names ts)) []) (\<lambda>res.
     if sum_list (map (art_StoredBytes \<circ> snd) res) > spool_limit (capture_native c) then fail ErrInput
     else andthen (Postflight H E Q c) (\<lambda>_.
       ret \<lparr>cd_Commit = cm\<lparr>cmt_Artifacts := map snd res\<rparr>, cd_Manifest = path, cd_Files = map fst res\<rparr>)))))))"

text \<open>The monitor's goroutine is received after the work; its error counts when the work had none.\<close>

definition capture_run :: "'w host \<Rightarrow> 'w spool_sys \<Rightarrow> (bytes \<Rightarrow> tar_stream) \<Rightarrow> 'q config_env \<Rightarrow> pg_codec \<Rightarrow> ('w, unit) act \<Rightarrow> 'q capture \<Rightarrow> string \<Rightarrow> (commit \<times> string) option \<Rightarrow> ('w, captured) act" where
  "capture_run H Z untar E Q monitored c podUID reference = joined monitored (capture_body H Z untar E Q c podUID reference)"

definition Full :: "'w host \<Rightarrow> 'w spool_sys \<Rightarrow> (bytes \<Rightarrow> tar_stream) \<Rightarrow> 'q config_env \<Rightarrow> pg_codec \<Rightarrow> ('w, unit) act \<Rightarrow> 'q capture \<Rightarrow> string \<Rightarrow> ('w, captured) act" where
  "Full H Z untar E Q monitored c podUID = capture_run H Z untar E Q monitored c podUID None"

text \<open>\<open>download\<close> is \<open>Hold.DownloadInput\<close> into the new file.\<close>

definition Differential :: "'w host \<Rightarrow> 'w spool_sys \<Rightarrow> (bytes \<Rightarrow> tar_stream) \<Rightarrow> 'q config_env \<Rightarrow> pg_codec \<Rightarrow> ('w, unit) act \<Rightarrow> 'q capture \<Rightarrow> string \<Rightarrow> commit \<Rightarrow> ('w, captured) act" where
  "Differential H Z untar E Q monitored c podUID root = (let p = path_join [cp_Directory c, ''reference_manifest''] in
     andthen (lift (EligibleFull E c root podUID)) (\<lambda>_.
     andthen (h_create H (cp_Directory c) ''reference_manifest'') (\<lambda>f.
     deferred (h_close H f)
       (andthen (h_download H (cmt_BackupUID root) (- 1)) (\<lambda>b.
        andthen (h_append H f b) (\<lambda>_.
        andthen (fileHash H p) (\<lambda>hash.
        attempt (fileSize H p) (\<lambda>st.
        if st \<noteq> Inr (cmt_ManifestBytes root) \<or> hash \<noteq> cmt_ManifestSHA256 root then fail ErrInput
        else andthen (h_read H p) (\<lambda>b. case ScanManifest b of
            Inl _ \<Rightarrow> fail ErrInput
          | Inr m \<Rightarrow>
             if format_uint (nm_SystemIdentifier m) \<noteq> cmt_SystemIdentifier root \<or> length (nm_Ranges m) \<noteq> 1 \<or> wr_Timeline (nm_Ranges m ! 0) \<noteq> cmt_Timeline root \<or>
                wr_StartLSN (nm_Ranges m ! 0) \<noteq> cmt_StartLSN root \<or> wr_EndLSN (nm_Ranges m ! 0) \<noteq> cmt_StopLSN root then fail ErrInput
             else andthen (h_sync H f) (\<lambda>_. capture_run H Z untar E Q monitored c podUID (Some (root, p)))))))))))) "

end
