(* ===== verification/Pg_Order.thy ===== *)
theory Pg_Order
  imports Pg_Backup Traces
begin

text \<open>
  Recording what the native operations do: the files they write, what they read back, the tools
  they run and the trees they replace.
\<close>

section \<open>Events\<close>

datatype host_event =
    HvRun "string list" string "string list" "err + bytes"
  | HvRead string "err + bytes \<times> bool"
  | HvCreate string string "err + nat"
  | HvAppend nat bytes "err + unit"
  | HvSync nat "err + unit"
  | HvClose nat "err + unit"
  | HvSyncDir string "err + unit"
  | HvWalk string "(string \<times> file_info option) list \<times> err option"
  | HvReplace string string "err + unit"
  | HvLink string string string "err + unit"

definition hrecorded :: "'w host \<Rightarrow> ('w \<times> host_event list) host" where
  "hrecorded H = \<lparr>h_ctx = pass_call (h_ctx H), h_now = pass_call (h_now H), h_run = (\<lambda>env t args. log_call (HvRun env t args) (h_run H env t args)),
     h_eval = (\<lambda>p. pass_call (h_eval H p)), h_lstat = (\<lambda>p. pass_call (h_lstat H p)), h_readdir = (\<lambda>p. pass_call (h_readdir H p)), h_walk = (\<lambda>p. log_call (HvWalk p) (h_walk H p)),
     h_readlink = (\<lambda>p. pass_call (h_readlink H p)), h_read = (\<lambda>p. log_call (HvRead p) (h_read H p)), h_mkdir = (\<lambda>p. pass_call (h_mkdir H p)),
     h_mkdirTemp = (\<lambda>d p. pass_call (h_mkdirTemp H d p)), h_chmod = (\<lambda>p m. pass_call (h_chmod H p m)), h_write = (\<lambda>p b. pass_call (h_write H p b)),
     h_syncDir = (\<lambda>p. log_call (HvSyncDir p) (h_syncDir H p)), h_removeAll = (\<lambda>p. pass_call (h_removeAll H p)), h_openRoot = (\<lambda>p. pass_call (h_openRoot H p)),
     h_mkdirAll = (\<lambda>r p. pass_call (h_mkdirAll H r p)), h_create = (\<lambda>r p. log_call (HvCreate r p) (h_create H r p)), h_append = (\<lambda>f b. log_call (HvAppend f b) (h_append H f b)),
     h_sync = (\<lambda>f. log_call (HvSync f) (h_sync H f)), h_close = (\<lambda>f. log_call (HvClose f) (h_close H f)), h_symlink = (\<lambda>r t p. log_call (HvLink r t p) (h_symlink H r t p)),
     h_remove = (\<lambda>r p. pass_call (h_remove H r p)), h_rootRemoveAll = (\<lambda>r p. log_call (HvReplace r p) (h_rootRemoveAll H r p)),
     h_download = (\<lambda>u i. pass_call (h_download H u i)), h_spool = (\<lambda>d. pass_call (h_spool H d)), h_bsize = (\<lambda>p. pass_call (h_bsize H p))\<rparr>"

lemma hrecorded_fields [simp]:
  "h_ctx (hrecorded H) = pass_call (h_ctx H)" "h_now (hrecorded H) = pass_call (h_now H)"
  "h_run (hrecorded H) env t args = log_call (HvRun env t args) (h_run H env t args)" "h_eval (hrecorded H) p = pass_call (h_eval H p)"
  "h_lstat (hrecorded H) p = pass_call (h_lstat H p)" "h_readdir (hrecorded H) p = pass_call (h_readdir H p)" "h_walk (hrecorded H) p = log_call (HvWalk p) (h_walk H p)"
  "h_readlink (hrecorded H) p = pass_call (h_readlink H p)" "h_read (hrecorded H) p = log_call (HvRead p) (h_read H p)" "h_mkdir (hrecorded H) p = pass_call (h_mkdir H p)"
  "h_mkdirTemp (hrecorded H) d p = pass_call (h_mkdirTemp H d p)" "h_chmod (hrecorded H) p m = pass_call (h_chmod H p m)" "h_write (hrecorded H) p b = pass_call (h_write H p b)"
  "h_syncDir (hrecorded H) p = log_call (HvSyncDir p) (h_syncDir H p)" "h_removeAll (hrecorded H) p = pass_call (h_removeAll H p)" "h_openRoot (hrecorded H) p = pass_call (h_openRoot H p)"
  "h_mkdirAll (hrecorded H) r p = pass_call (h_mkdirAll H r p)" "h_create (hrecorded H) r p = log_call (HvCreate r p) (h_create H r p)"
  "h_append (hrecorded H) f b = log_call (HvAppend f b) (h_append H f b)" "h_sync (hrecorded H) f = log_call (HvSync f) (h_sync H f)" "h_close (hrecorded H) f = log_call (HvClose f) (h_close H f)"
  "h_symlink (hrecorded H) r t p = log_call (HvLink r t p) (h_symlink H r t p)" "h_remove (hrecorded H) r p = pass_call (h_remove H r p)"
  "h_rootRemoveAll (hrecorded H) r p = log_call (HvReplace r p) (h_rootRemoveAll H r p)" "h_download (hrecorded H) u i = pass_call (h_download H u i)"
  "h_spool (hrecorded H) d = pass_call (h_spool H d)" "h_bsize (hrecorded H) p = pass_call (h_bsize H p)"
  by (simp_all add: hrecorded_def)

definition zrecorded :: "'w spool_sys \<Rightarrow> ('w \<times> host_event list) spool_sys" where
  "zrecorded Z = \<lparr>sp_temp = (\<lambda>d p. pass_call (sp_temp Z d p)), sp_remove = (\<lambda>p. pass_call (sp_remove Z p)), sp_gzip = sp_gzip Z, sp_statfs = (\<lambda>p. pass_call (sp_statfs Z p))\<rparr>"

lemma zrecorded_fields [simp]:
  "sp_temp (zrecorded Z) d p = pass_call (sp_temp Z d p)" "sp_remove (zrecorded Z) p = pass_call (sp_remove Z p)" "sp_gzip (zrecorded Z) = sp_gzip Z"
  "sp_statfs (zrecorded Z) p = pass_call (sp_statfs Z p)"
  by (simp_all add: zrecorded_def)

definition crecorded :: "'w cap_sys \<Rightarrow> ('w \<times> host_event list) cap_sys" where
  "crecorded C = \<lparr>cs_mountinfo = pass_call (cs_mountinfo C), cs_eval = (\<lambda>p. pass_call (cs_eval C p)), cs_opendir = (\<lambda>p. pass_call (cs_opendir C p)),
     cs_fstatfs = (\<lambda>f. pass_call (cs_fstatfs C f)), cs_fstat = (\<lambda>f. pass_call (cs_fstat C f))\<rparr>"

lemma crecorded_fields [simp]:
  "cs_mountinfo (crecorded C) = pass_call (cs_mountinfo C)" "cs_eval (crecorded C) p = pass_call (cs_eval C p)" "cs_opendir (crecorded C) p = pass_call (cs_opendir C p)"
  "cs_fstatfs (crecorded C) f = pass_call (cs_fstatfs C f)" "cs_fstat (crecorded C) f = pass_call (cs_fstat C f)"
  by (simp_all add: crecorded_def)

lemma log_call_iff: "log_call ev m (w, tr) = (r, (w', tr')) \<longleftrightarrow> m w = (r, w') \<and> tr' = tr @ [ev r]"
  and pass_call_iff: "pass_call m (w, tr) = (r, (w', tr')) \<longleftrightarrow> m w = (r, w') \<and> tr' = tr"
  by (auto simp: log_call_def pass_call_def split: prod.splits)

section \<open>Reading successful runs backwards\<close>

text \<open>A run over the recorded host, split at its first call.\<close>

lemma rec_log: "log_call ev m s = (r, s') \<longleftrightarrow> m (fst s) = (r, fst s') \<and> snd s' = snd s @ [ev r]"
  and rec_pass: "pass_call m s = (r, s') \<longleftrightarrow> m (fst s) = (r, fst s') \<and> snd s' = snd s"
  by (cases s; cases s'; simp add: log_call_iff pass_call_iff)+

lemmas rec_runs = ok_runs rec_log rec_pass

definition quiet :: "('w \<times> 'e list, 'a) act \<Rightarrow> bool" where
  "quiet m \<longleftrightarrow> ct.emits (\<lambda>_. False) m"

lemma quietD: "quiet m \<Longrightarrow> m s = (r, s') \<Longrightarrow> snd s' = snd s"
  unfolding quiet_def by (drule ct.emitsD) (auto simp: list_all_iff)

section \<open>Copies\<close>

text \<open>The bytes were given to a new file, which was synced and closed.\<close>

definition file_events :: "string \<Rightarrow> string \<Rightarrow> nat \<Rightarrow> bytes \<Rightarrow> host_event list" where
  "file_events root name f b = [HvCreate root name (Inr f), HvAppend f b (Inr ()), HvSync f (Inr ()), HvClose f (Inr ())]"

lemma copyMember_run:
  assumes "copyMember (hrecorded H) root name sz (data, ok) s = (Inr (), s')"
  shows "\<exists>f. snd s' = snd s @ file_events root name f data \<and> int (length data) = sz \<and> nativePath name"
proof -
  obtain f where "snd s' = snd s @ file_events root name f (take (nat (sz + 1)) data)" "int (length (take (nat (sz + 1)) data)) = sz" "nativePath name"
    using assms by (auto simp: copyMember_def Let_def rec_runs ok_attempt file_events_def simp del: length_take take_all_iff)
  moreover have "take (nat (sz + 1)) data = data" if "int (length (take (nat (sz + 1)) data)) = sz" using that by auto
  ultimately show ?thesis by metis
qed

lemma copy_wal_run:
  assumes "copy_wal (hrecorded H) pgdata target (name, sz) s = (Inr (), s')"
  shows "\<exists>f d ok. snd s' = snd s @ HvRead (pgdata @ ''/pg_wal/'' @ name) (Inr (d, ok)) # file_events target name f d \<and> int (length d) = sz"
  using assms by (auto simp: copy_wal_def rec_runs dest!: copyMember_run)

text \<open>Every file of the inventory, one after the other.\<close>

fun copies :: "string \<Rightarrow> string \<Rightarrow> (string \<times> int) list \<Rightarrow> host_event list \<Rightarrow> bool" where
  "copies pgdata target [] ev \<longleftrightarrow> ev = []"
| "copies pgdata target ((name, sz) # xs) ev \<longleftrightarrow> (\<exists>f d ok ev'. ev = HvRead (pgdata @ ''/pg_wal/'' @ name) (Inr (d, ok)) # file_events target name f d @ ev' \<and>
     int (length d) = sz \<and> copies pgdata target xs ev')"

lemma copies_run:
  "each (copy_wal (hrecorded H) pgdata target) xs s = (Inr (), s') \<Longrightarrow> \<exists>ev. snd s' = snd s @ ev \<and> copies pgdata target xs ev"
proof (induction xs arbitrary: s)
  case (Cons x xs)
  obtain name sz where x: "x = (name, sz)" by (cases x)
  from Cons.prems obtain s1 where "copy_wal (hrecorded H) pgdata target (name, sz) s = (Inr (), s1)" "each (copy_wal (hrecorded H) pgdata target) xs s1 = (Inr (), s')"
    by (auto simp: andthen_Inr x)
  from copy_wal_run[OF this(1)] Cons.IH[OF this(2)] show ?case unfolding x by fastforce
qed (simp add: ret_def)

section \<open>Bundles and trees\<close>

lemma bundle_file_run:
  assumes "bundle_file (hrecorded H) dir (name, sz) res s = (Inr res', s')"
  shows "\<exists>ev. snd s' = snd s @ ev \<and> (\<forall>(n, i) \<in> set res' - set res. \<exists>b. HvRead (dir @ ''/'' @ n) (Inr (b, True)) \<in> set ev \<and> itg_SHA256 i = digest b)"
  using assms by (auto simp: bundle_file_def fileHash_def rec_runs ok_attempt split: sum.splits option.splits)

lemma bundle_fold_run:
  "each_fold (bundle_file (hrecorded H) dir) xs res s = (Inr res', s') \<Longrightarrow>
   \<exists>ev. snd s' = snd s @ ev \<and> (\<forall>(n, i) \<in> set res' - set res. \<exists>b. HvRead (dir @ ''/'' @ n) (Inr (b, True)) \<in> set ev \<and> itg_SHA256 i = digest b)"
proof (induction xs arbitrary: res s)
  case (Cons x xs)
  obtain name sz where x: "x = (name, sz)" by (cases x)
  from Cons.prems obtain res1 s1 where a: "bundle_file (hrecorded H) dir (name, sz) res s = (Inr res1, s1)" and b: "each_fold (bundle_file (hrecorded H) dir) xs res1 s1 = (Inr res', s')"
    by (auto simp: andthen_Inr x)
  from bundle_file_run[OF a] Cons.IH[OF b] obtain e1 e2 where
    e: "snd s1 = snd s @ e1" "\<forall>(n, i) \<in> set res1 - set res. \<exists>b. HvRead (dir @ ''/'' @ n) (Inr (b, True)) \<in> set e1 \<and> itg_SHA256 i = digest b"
      "snd s' = snd s1 @ e2" "\<forall>(n, i) \<in> set res' - set res1. \<exists>b. HvRead (dir @ ''/'' @ n) (Inr (b, True)) \<in> set e2 \<and> itg_SHA256 i = digest b" by blast
  show ?case by (rule exI[of _ "e1 @ e2"]) (use e in fastforce)
qed (simp add: ret_def)

lemma bundle_run:
  assumes "bundleIntegrity (hrecorded H) dir a s = (Inr res, s')"
  shows "\<exists>ev. snd s' = snd s @ ev \<and> (\<forall>(n, i) \<in> set res. \<exists>b. HvRead (dir @ ''/'' @ n) (Inr (b, True)) \<in> set ev \<and> itg_SHA256 i = digest b)"
  using assms by (auto simp: bundleIntegrity_def rec_runs dest!: bundle_fold_run)

definition tree_dirs :: "(string \<times> file_info option) list \<Rightarrow> string list" where
  "tree_dirs es = map fst (filter (\<lambda>(_, i). case i of Some st \<Rightarrow> fs_dir st | None \<Rightarrow> False) es)"

lemma syncs_run: "each (h_syncDir (hrecorded H)) ds s = (Inr (), s') \<Longrightarrow> snd s' = snd s @ map (\<lambda>d. HvSyncDir d (Inr ())) ds"
  by (induction ds arbitrary: s) (auto simp: rec_runs)

lemma walk_live_quiet: "quiet (walk_live (hrecorded H) es)"
  unfolding quiet_def walk_live_def by (auto intro!: ct.emits_rules emits_pass_call)

lemma syncTree_split:
  assumes "h_walk H dir w = ((es, broken), w1)"
  shows "syncRestoreTree (hrecorded H) dir (w, tr) = andthen (walk_live (hrecorded H) es) (\<lambda>_. case broken of Some e \<Rightarrow> fail e
     | None \<Rightarrow> andthen (each (h_syncDir (hrecorded H)) (rev (tree_dirs es))) (\<lambda>_. h_syncDir (hrecorded H) (path_dir dir))) (w1, tr @ [HvWalk dir (es, broken)])"
  unfolding syncRestoreTree_def tree_dirs_def hrecorded_fields log_call_def by (simp add: assms)

lemma syncTree_run:
  assumes "syncRestoreTree (hrecorded H) dir s = (Inr (), s')"
  shows "\<exists>es. snd s' = snd s @ HvWalk dir (es, None) # map (\<lambda>d. HvSyncDir d (Inr ())) (rev (tree_dirs es) @ [path_dir dir])"
proof -
  obtain w tr where s: "s = (w, tr)" by (cases s)
  obtain es broken w1 where k: "h_walk H dir w = ((es, broken), w1)" by (metis prod.exhaust)
  show ?thesis using assms unfolding s syncTree_split[OF k]
    by (auto simp: rec_runs dest!: quietD[OF walk_live_quiet] syncs_run intro!: exI[of _ es])
qed

section \<open>Nothing replaced\<close>

fun is_replace :: "host_event \<Rightarrow> bool" where
  "is_replace (HvReplace _ _ _) = True"
| "is_replace (HvLink _ _ _ _) = True"
| "is_replace _ = False"

named_theorems keep_intros

lemmas [keep_intros] = ct.emits_rules emits_log_call emits_pass_call

lemma keep_copyMember [keep_intros]: "ct.emits (\<lambda>e. \<not> is_replace e) (copyMember (hrecorded H) root name sz b)"
  unfolding copyMember_def by (auto intro!: keep_intros simp: Let_def split: prod.splits sum.splits)

lemma keep_fileHash [keep_intros]: "ct.emits (\<lambda>e. \<not> is_replace e) (fileHash (hrecorded H) p)"
  unfolding fileHash_def by (auto intro!: keep_intros split: prod.splits)

lemma keep_bundle [keep_intros]: "ct.emits (\<lambda>e. \<not> is_replace e) (bundleIntegrity (hrecorded H) dir a)"
  unfolding bundleIntegrity_def bundle_file_def by (auto intro!: keep_intros split: prod.splits sum.splits option.splits)

lemma keep_copies [keep_intros]: "ct.emits (\<lambda>e. \<not> is_replace e) (copy_wal (hrecorded H) pgdata target x)"
  unfolding copy_wal_def by (auto intro!: keep_intros split: prod.splits)

lemma keep_syncTree [keep_intros]: "ct.emits (\<lambda>e. \<not> is_replace e) (syncRestoreTree (hrecorded H) dir)"
proof (rule ct.emitsI)
  fix s r s' assume run: "syncRestoreTree (hrecorded H) dir s = (r, s')"
  obtain w tr where s: "s = (w, tr)" by (cases s)
  obtain es broken w1 where k: "h_walk H dir w = ((es, broken), w1)" by (metis prod.exhaust)
  let ?m = "andthen (walk_live (hrecorded H) es) (\<lambda>_. case broken of Some e \<Rightarrow> fail e
     | None \<Rightarrow> andthen (each (h_syncDir (hrecorded H)) (rev (tree_dirs es))) (\<lambda>_. h_syncDir (hrecorded H) (path_dir dir)))"
  have "ct.emits (\<lambda>e. \<not> is_replace e) ?m" unfolding walk_live_def by (auto intro!: keep_intros split: option.splits)
  moreover have "?m (w1, tr @ [HvWalk dir (es, broken)]) = (r, s')" using run unfolding s syncTree_split[OF k] .
  ultimately obtain ev where "snd s' = (tr @ [HvWalk dir (es, broken)]) @ ev" "list_all (\<lambda>e. \<not> is_replace e) ev" using ct.emitsD by fastforce
  then show "\<exists>ev. snd s' = snd s @ ev \<and> list_all (\<lambda>e. \<not> is_replace e) ev" by (intro exI[of _ "HvWalk dir (es, broken) # ev"]) (simp add: s)
qed

end
