(* ===== verification/Pg_Tools.thy ===== *)
theory Pg_Tools
  imports Pg_Order "HOL-Library.Sublist"
begin

text \<open>
  The native tools a restore runs: their exact sequence and arguments on success, a prefix of it otherwise.
\<close>

section \<open>Runs\<close>

fun run_of :: "host_event \<Rightarrow> (string \<times> string list) option" where
  "run_of (HvRun _ t args _) = Some (t, args)"
| "run_of _ = None"

definition tool_runs :: "host_event list \<Rightarrow> (string \<times> string list) list" where
  "tool_runs tr = List.map_filter run_of tr"

lemma tool_runs_append [simp]: "tool_runs (a @ b) = tool_runs a @ tool_runs b"
  by (simp add: tool_runs_def map_filter_def)

definition tools :: "(string \<times> string list) list \<Rightarrow> ('w \<times> host_event list, 'a) act \<Rightarrow> bool" where
  "tools L m \<longleftrightarrow> (\<forall>s r s'. m s = (r, s') \<longrightarrow> (\<exists>ev. tool_runs (snd s') = tool_runs (snd s) @ ev \<and> prefix ev L \<and> (case r of Inr _ \<Rightarrow> ev = L | Inl _ \<Rightarrow> True)))"

definition post :: "('a \<Rightarrow> bool) \<Rightarrow> ('s, 'a) act \<Rightarrow> bool" where
  "post Q m \<longleftrightarrow> (\<forall>s x s'. m s = (Inr x, s') \<longrightarrow> Q x)"

lemma toolsD: "tools L m \<Longrightarrow> m s = (r, s') \<Longrightarrow> \<exists>ev. tool_runs (snd s') = tool_runs (snd s) @ ev \<and> prefix ev L \<and> (case r of Inr _ \<Rightarrow> ev = L | Inl _ \<Rightarrow> True)"
  unfolding tools_def by blast

lemma toolsI: "(\<And>s r s'. m s = (r, s') \<Longrightarrow> \<exists>ev. tool_runs (snd s') = tool_runs (snd s) @ ev \<and> prefix ev L \<and> (case r of Inr _ \<Rightarrow> ev = L | Inl _ \<Rightarrow> True)) \<Longrightarrow> tools L m"
  unfolding tools_def by blast

abbreviation no_run :: "host_event \<Rightarrow> bool" where
  "no_run e \<equiv> run_of e = None"

lemma no_runs: "list_all no_run ev \<Longrightarrow> tool_runs ev = []"
  by (induction ev) (auto simp: tool_runs_def map_filter_def)

lemma tools_none: "ct.emits no_run m \<Longrightarrow> tools [] m"
proof (rule toolsI)
  fix s r s' assume "ct.emits no_run m" "m s = (r, s')"
  then obtain ev where "snd s' = snd s @ ev" "list_all no_run ev" using ct.emitsD by blast
  then show "\<exists>ev. tool_runs (snd s') = tool_runs (snd s) @ ev \<and> prefix ev [] \<and> (case r of Inr _ \<Rightarrow> ev = [] | Inl _ \<Rightarrow> True)" by (auto simp: no_runs split: sum.splits)
qed

lemma tools_seq:
  assumes m: "tools L m" and q: "post Q m" and k: "\<And>x. Q x \<Longrightarrow> tools L' (k x)"
  shows "tools (L @ L') (andthen m k)"
proof (rule toolsI)
  fix s r s' assume "andthen m k s = (r, s')"
  then consider (no) e where "m s = (Inl e, s')" "r = Inl e" | (yes) x s1 where "m s = (Inr x, s1)" "k x s1 = (r, s')" using andthen_split by fast
  then show "\<exists>ev. tool_runs (snd s') = tool_runs (snd s) @ ev \<and> prefix ev (L @ L') \<and> (case r of Inr _ \<Rightarrow> ev = L @ L' | Inl _ \<Rightarrow> True)"
  proof cases
    case no
    then show ?thesis using toolsD[OF m no(1)] by (auto intro: prefix_order.trans)
  next
    case yes
    then have "Q x" using q unfolding post_def by blast
    from toolsD[OF k[OF this] yes(2)] toolsD[OF m yes(1)] show ?thesis by (auto split: sum.splits)
  qed
qed

lemma tools_andthen: "tools L m \<Longrightarrow> (\<And>x. tools L' (k x)) \<Longrightarrow> tools (L @ L') (andthen m k)"
  by (rule tools_seq[where Q = "\<lambda>_. True"]) (auto simp: post_def)

lemma tools_after: "ct.emits no_run m \<Longrightarrow> (\<And>x. tools L (k x)) \<Longrightarrow> tools L (andthen m k)"
  using tools_andthen[OF tools_none] by fastforce

lemma tools_after_post: "ct.emits no_run m \<Longrightarrow> post Q m \<Longrightarrow> (\<And>x. Q x \<Longrightarrow> tools L (k x)) \<Longrightarrow> tools L (andthen m k)"
  using tools_seq[OF tools_none, of m Q L k] by simp

lemma tools_before: "tools L m \<Longrightarrow> (\<And>x. ct.emits no_run (k x)) \<Longrightarrow> tools L (andthen m k)"
  using tools_andthen[of L m "[]" k] tools_none by fastforce

lemma tools_run: "tools [(t, args)] (h_run (hrecorded H) env t args)"
  by (rule toolsI) (auto simp: rec_log tool_runs_def map_filter_def split: sum.splits)

lemma tools_fail: "tools L (fail e)"
  by (rule toolsI) (auto simp: fail_def)

lemma tools_each:
  assumes "\<And>x. x \<in> set xs \<Longrightarrow> tools (L x) (f x)"
  shows "tools (concat (map L xs)) (each f xs)"
  using assms
proof (induction xs)
  case (Cons x xs)
  then show ?case using tools_andthen[of "L x" "f x" "concat (map L xs)" "\<lambda>_. each f xs"] by simp
qed (simp add: tools_none ct.emits_ret)

text \<open>A quiet call that follows whatever the outcome, and keeps it or turns it into an error.\<close>

lemma tools_then:
  assumes m: "tools L m" and k: "\<And>r. ct.emits no_run (k r)" and f: "\<And>e s. \<exists>e' s'. k (Inl e) s = (Inl e', s')"
  shows "tools L (attempt m k)"
proof (rule toolsI)
  fix s r s' assume "attempt m k s = (r, s')"
  then obtain q s1 where a: "m s = (q, s1)" and b: "k q s1 = (r, s')" by (auto simp: ok_attempt)
  from ct.emitsD[OF k b] have "tool_runs (snd s') = tool_runs (snd s1)" by (auto simp: no_runs)
  moreover have "case r of Inr _ \<Rightarrow> \<exists>x. q = Inr x | Inl _ \<Rightarrow> True"
  proof (cases q)
    case (Inl e)
    obtain e' s2 where "k (Inl e) s1 = (Inl e', s2)" using f by blast
    then show ?thesis using b Inl by auto
  qed (simp split: sum.splits)
  ultimately show "\<exists>ev. tool_runs (snd s') = tool_runs (snd s) @ ev \<and> prefix ev L \<and> (case r of Inr _ \<Rightarrow> ev = L | Inl _ \<Rightarrow> True)"
    using toolsD[OF m a] by (auto split: sum.splits)
qed

lemma tools_deferred: "ct.emits no_run d \<Longrightarrow> tools L m \<Longrightarrow> tools L (deferred d m)"
  unfolding deferred_def by (rule tools_then) (auto intro!: ct.emits_rules simp: attempt_def lift_def split: prod.splits)

lemma tools_joined: "ct.emits no_run mon \<Longrightarrow> tools L m \<Longrightarrow> tools L (joined mon m)"
  unfolding joined_def by (rule tools_then) (auto intro!: ct.emits_rules simp: attempt_def lift_def fail_def split: prod.splits sum.splits)

section \<open>The lists\<close>

definition waldump_run :: "string \<Rightarrow> wal_range \<Rightarrow> string \<times> string list" where
  "waldump_run dir r = (''pg_waldump'', [''--quiet'', ''--path='' @ dir, ''--timeline='' @ format_uint (uint (wr_Timeline r)), ''--start='' @ wr_StartLSN r, ''--end='' @ wr_EndLSN r])"

definition verify_run :: "string \<Rightarrow> string \<times> string list" where
  "verify_run dir = (''pg_verifybackup'', [''--exit-on-error'', ''--no-parse-wal'', dir])"

definition cluster_runs :: "string \<Rightarrow> commit \<Rightarrow> (string \<times> string list) list" where
  "cluster_runs dir c = [verify_run dir, waldump_run (dir @ ''/pg_wal'') (cmt_WALRanges c ! 0)]"

definition original_runs :: "full_input \<Rightarrow> commit \<Rightarrow> (string \<times> string list) list" where
  "original_runs inp c = [(''pg_controldata'', [fi_metadata inp]), verify_run (fi_directory inp), waldump_run (fi_walCheck inp) (cmt_WALRanges c ! 0)]"

lemma tools_waldump: "tools [waldump_run dir (ranges ! 0)] (verifyRestoreWAL (h_run (hrecorded H) env) dir ranges)"
proof (cases "length ranges = 1")
  case True
  then obtain r where r: "ranges = [r]" by (cases ranges) auto
  show ?thesis
  proof (cases "range_fine r")
    case True
    have "tools [waldump_run dir r] (andthen (andthen (h_run (hrecorded H) env ''pg_waldump'' (snd (waldump_run dir r))) (\<lambda>_. ret ())) (\<lambda>_. ret ()))"
      by (rule tools_before, rule tools_before) (use tools_run[of "''pg_waldump''" "snd (waldump_run dir r)"] in \<open>auto simp: waldump_run_def intro: ct.emits_ret simp del: hrecorded_fields\<close>)
    then show ?thesis using True by (simp add: verifyRestoreWAL_def r waldump_run_def del: hrecorded_fields)
  next
    case False
    then show ?thesis by (simp add: verifyRestoreWAL_def r andthen_def attempt_def fail_def tools_def)
  qed
qed (simp add: verifyRestoreWAL_def tools_fail)

lemma tools_verifybackup: "tools [verify_run dir] (verifybackup (h_run (hrecorded H) env) dir)"
  unfolding verifybackup_def verify_run_def by (rule tools_before[OF tools_run]) (rule ct.emits_ret)

section \<open>Everything else runs no tool\<close>

named_theorems norun_intros

lemmas [norun_intros] = ct.emits_rules st.emits_rules emits_log_call emits_pass_call side_emits_on_world

lemma norun_fileHash [norun_intros]: "ct.emits no_run (fileHash (hrecorded H) p)"
  and norun_fileSize [norun_intros]: "ct.emits no_run (fileSize (hrecorded H) p)"
  unfolding fileHash_def fileSize_def by (auto intro!: norun_intros split: prod.splits option.splits)

lemma norun_read_checked [norun_intros]: "ct.emits no_run (read_checked (hrecorded H) p want)"
  and norun_make_dir [norun_intros]: "ct.emits no_run (make_dir (hrecorded H) d)"
  and norun_read_small [norun_intros]: "ct.emits no_run (read_small (hrecorded H) p)"
  unfolding read_checked_def make_dir_def read_small_def by (auto intro!: norun_intros split: prod.splits option.splits)

lemma norun_copyMember [norun_intros]: "ct.emits no_run (copyMember (hrecorded H) root name sz b)"
  unfolding copyMember_def by (auto intro!: norun_intros simp: Let_def split: prod.splits sum.splits)

lemma norun_decodeOriginal [norun_intros]: "ct.emits no_run (decodeOriginal (hrecorded H) gunz src dst stored raw compression)"
  unfolding decodeOriginal_def by (auto intro!: norun_intros simp: Let_def split: option.splits prod.splits)

lemma norun_downloadFull [norun_intros]: "ct.emits no_run (downloadFull (hrecorded H) gunz c scratch)"
  unfolding downloadFull_def download_artifact_def download_one_def Let_def by (auto intro!: norun_intros split: prod.splits sum.splits)

lemma scanArchive_emits:
  assumes "ct.emits A alive" "\<And>p z b. ct.emits A (visit p z b)"
  shows "ct.emits A (scanArchive untar alive data limit visit)"
  unfolding scanArchive_def scan_entry_def scan_again_def Let_def using assms
  by (auto intro!: ct.emits_rules split: tar_end.splits prod.splits)

lemma scanArchive_side_emits:
  assumes "st.emits A alive" "\<And>p z b. st.emits A (visit p z b)"
  shows "st.emits A (scanArchive untar alive data limit visit)"
  unfolding scanArchive_def scan_entry_def scan_again_def Let_def using assms
  by (auto intro!: st.emits_rules split: tar_end.splits prod.splits)

lemma side_quiet [norun_intros]: "st.emits A get_side" "st.emits A (upd_side f)"
  by (auto simp: st.emits_def get_side_def upd_side_def split: prod.splits)

lemma norun_visit [norun_intros]: "st.emits no_run (visit_original a segment p z b)"
  unfolding visit_original_def Let_def by (auto intro!: norun_intros)

lemma norun_scan_artifact [norun_intros]: "st.emits no_run (scan_artifact (hrecorded H) untar dir segment n a s)"
  unfolding scan_artifact_def Let_def by (auto intro!: norun_intros scanArchive_side_emits split: prod.splits)

lemma with_side_emits: "st.emits A m \<Longrightarrow> ct.emits A (with_side x m)"
  by (rule ct.emitsI) (auto simp: with_side_def dest!: st.emitsD split: prod.splits sum.splits)

lemma norun_extract [norun_intros]: "ct.emits no_run (extractArchive (hrecorded H) untar inp c name dir)"
  unfolding extractArchive_def by (auto intro!: norun_intros scanArchive_emits split: prod.splits)

lemma norun_scan_metadata [norun_intros]: "ct.emits no_run (scan_metadata (hrecorded H) untar inp c segment)"
  unfolding scan_metadata_def visit_metadata_def Let_def by (auto intro!: norun_intros scanArchive_emits split: prod.splits)

lemma norun_scan_input [norun_intros]: "ct.emits no_run (scan_input (hrecorded H) untar inp c segment n)"
  unfolding scan_input_def Let_def by (auto intro!: norun_intros with_side_emits split: prod.splits)

lemma norun_fetch [norun_intros]: "ct.emits no_run (fetch_input (hrecorded H) gunz untar p n scratch x inputs)"
  unfolding fetch_input_def Let_def by (auto intro!: norun_intros split: prod.splits)

lemma norun_CheckCapacity [norun_intros]: "ct.emits no_run (CheckCapacity (crecorded C) bs)"
  unfolding CheckCapacity_def check_budget_def check_device_def by (auto intro!: norun_intros split: sum.splits prod.splits)

lemma norun_unit [norun_intros]: "ct.emits no_run (restoreAllocationUnit (h_bsize (hrecorded H)) m)"
  unfolding restoreAllocationUnit_def by (auto intro!: norun_intros split: sum.splits)

lemma norun_budgets [norun_intros]: "ct.emits no_run (first_budgets (hrecorded H) p n bs l)"
  "ct.emits no_run (restoreOutputCapacity (h_bsize (hrecorded H)) inp c n bs l)"
  unfolding first_budgets_def restoreDownloadCapacity_def restoreOutputCapacity_def largest_unit_def collect_unit_def by (auto intro!: norun_intros split: sum.splits)

lemma norun_empty [norun_intros]: "ct.emits no_run (emptyRestoreRoot (hrecorded H) d)"
  unfolding emptyRestoreRoot_def by (auto intro!: norun_intros split: sum.splits option.splits)

lemma norun_walk:
  assumes "\<And>es broken. ct.emits no_run (k es broken)"
  shows "ct.emits no_run (\<lambda>w. case h_walk (hrecorded H) d w of ((es, broken), w) \<Rightarrow> k es broken w)"
proof (rule ct.emitsI)
  fix s r s' assume run: "(case h_walk (hrecorded H) d s of ((es, broken), w) \<Rightarrow> k es broken w) = (r, s')"
  obtain w tr es broken w1 where s: "s = (w, tr)" and k: "h_walk H d w = ((es, broken), w1)" by (metis prod.exhaust)
  from run have "k es broken (w1, tr @ [HvWalk d (es, broken)]) = (r, s')" by (simp add: s k log_call_def)
  from ct.emitsD[OF assms this] show "\<exists>ev. snd s' = snd s @ ev \<and> list_all no_run ev" by (auto simp: s)
qed

lemma norun_syncTree [norun_intros]: "ct.emits no_run (syncRestoreTree (hrecorded H) d)"
  unfolding syncRestoreTree_def walk_live_def by (rule norun_walk) (auto intro!: norun_intros split: option.splits)

lemma norun_synthetic [norun_intros]: "ct.emits no_run (checkSyntheticSize (hrecorded H) l n)"
proof -
  have "ct.emits no_run (synthetic_root (hrecorded H) l n root u)" for root u
    unfolding synthetic_root_def synthetic_entry_def by (rule norun_walk) (auto intro!: norun_intros split: option.splits sum.splits prod.splits)
  then show ?thesis unfolding checkSyntheticSize_def by (auto intro!: norun_intros)
qed

lemma norun_bundle [norun_intros]: "ct.emits no_run (bundleIntegrity (hrecorded H) d a)"
  unfolding bundleIntegrity_def bundle_file_def by (auto intro!: norun_intros split: sum.splits option.splits)

lemma norun_finish [norun_intros]: "ct.emits no_run (finish_restore (hrecorded H) inp c l)"
  unfolding finish_restore_def relocateRestoreWAL_def bundle_moved_def copy_wal_def remove_map_def Let_def
  by (auto intro!: norun_intros split: prod.splits)

lemma norun_extract_table [norun_intros]: "ct.emits no_run (extract_table (hrecorded H) untar inp c l t)"
  unfolding extract_table_def Let_def by (auto intro!: norun_intros)

section \<open>The tools of a restore\<close>

lemma tools_extractOriginal:
  assumes "nm_Ranges (fi_manifest inp) ! 0 = cmt_WALRanges c ! 0"
  shows "tools (cluster_runs (rl_PGDATA l) c) (extractOriginal (hrecorded H) untar (h_run (hrecorded H) env) inp c l)"
proof -
  have "tools ([verify_run (rl_PGDATA l)] @ [waldump_run (rl_PGDATA l @ ''/pg_wal'') (nm_Ranges (fi_manifest inp) ! 0)])
      (andthen (verifybackup (h_run (hrecorded H) env) (rl_PGDATA l)) (\<lambda>_. verifyRestoreWAL (h_run (hrecorded H) env) (rl_PGDATA l @ ''/pg_wal'') (nm_Ranges (fi_manifest inp))))"
    by (rule tools_andthen[OF tools_verifybackup tools_waldump])
  then have t: "tools (cluster_runs (rl_PGDATA l) c)
      (andthen (verifybackup (h_run (hrecorded H) env) (rl_PGDATA l)) (\<lambda>_. verifyRestoreWAL (h_run (hrecorded H) env) (rl_PGDATA l @ ''/pg_wal'') (nm_Ranges (fi_manifest inp))))"
    by (simp add: cluster_runs_def assms)
  show ?thesis unfolding extractOriginal_def Let_def by (intro tools_after t) (auto intro!: norun_intros)
qed

lemma tools_verify_input:
  assumes "nm_Ranges (fi_manifest inp) ! 0 = cmt_WALRanges c ! 0"
  shows "tools (original_runs inp c) (verify_input (h_run (hrecorded H) env) inp c segment)"
proof -
  let ?run = "h_run (hrecorded H) env"
  have v: "tools ([verify_run (fi_directory inp)] @ [waldump_run (fi_walCheck inp) (nm_Ranges (fi_manifest inp) ! 0)])
      (andthen (verifybackup ?run (fi_directory inp)) (\<lambda>_. verifyRestoreWAL ?run (fi_walCheck inp) (nm_Ranges (fi_manifest inp))))"
    by (rule tools_andthen[OF tools_verifybackup tools_waldump])
  have "tools ([(''pg_controldata'', [fi_metadata inp])] @ [verify_run (fi_directory inp)] @ [waldump_run (fi_walCheck inp) (nm_Ranges (fi_manifest inp) ! 0)]) (verify_input ?run inp c segment)"
    unfolding verify_input_def using v by (intro tools_andthen[OF tools_run] tools_after) (auto intro: norun_intros tools_fail)
  then show ?thesis by (simp add: original_runs_def assms)
qed

definition combine_run :: "full_input \<Rightarrow> full_input \<Rightarrow> commit \<Rightarrow> commit \<Rightarrow> restore_layout \<Rightarrow> string \<times> string list" where
  "combine_run fi di f d l = (''pg_combinebackup'', combineArgs (inputLayout (path_dir (fi_directory fi)) f) (inputLayout (path_dir (fi_directory di)) d) d l)"

definition combined_runs :: "full_input \<Rightarrow> full_input \<Rightarrow> commit \<Rightarrow> commit \<Rightarrow> restore_layout \<Rightarrow> (string \<times> string list) list" where
  "combined_runs fi di f d l = cluster_runs (path_dir (fi_directory fi) @ ''/data'') f @ cluster_runs (path_dir (fi_directory di) @ ''/data'') d @
     [combine_run fi di f d l] @ cluster_runs (rl_PGDATA l) d"

lemma tools_runCombine: "ct.emits no_run mon \<Longrightarrow> tools [(''pg_combinebackup'', args)] (runCombine (h_run (hrecorded H) env) mon args)"
  unfolding runCombine_def by (rule tools_then[OF tools_run]) (auto intro!: norun_intros simp: attempt_def fail_def split: sum.splits prod.splits)

lemma tools_combineOriginals:
  assumes "nm_Ranges (fi_manifest fi) ! 0 = cmt_WALRanges f ! 0" "nm_Ranges (fi_manifest di) ! 0 = cmt_WALRanges d ! 0" "ct.emits no_run mon"
  shows "tools (combined_runs fi di f d l) (combineOriginals (hrecorded H) untar (h_run (hrecorded H) env) mon [fi, di] [f, d] l n)"
proof -
  let ?run = "h_run (hrecorded H) env"
  have tail: "tools (cluster_runs (rl_PGDATA l) d)
      (andthen (verifybackup ?run (rl_PGDATA l)) (\<lambda>_. andthen (verifyRestoreWAL ?run (rl_PGDATA l @ ''/pg_wal'') (nm_Ranges m)) (\<lambda>_. finish_restore (hrecorded H) di d l)))"
    if r: "nm_Ranges m ! 0 = cmt_WALRanges d ! 0" for m
  proof -
    have "tools ([verify_run (rl_PGDATA l)] @ [waldump_run (rl_PGDATA l @ ''/pg_wal'') (nm_Ranges m ! 0)])
        (andthen (verifybackup ?run (rl_PGDATA l)) (\<lambda>_. andthen (verifyRestoreWAL ?run (rl_PGDATA l @ ''/pg_wal'') (nm_Ranges m)) (\<lambda>_. finish_restore (hrecorded H) di d l)))"
      by (intro tools_andthen[OF tools_verifybackup] tools_before[OF tools_waldump] norun_intros)
    then show ?thesis using r by (simp add: cluster_runs_def)
  qed
  have rd: "ct.emits no_run (h_read (hrecorded H) p)" for p by (auto intro: norun_intros)
  let ?lf = "inputLayout (path_dir (fi_directory fi)) f" and ?ld = "inputLayout (path_dir (fi_directory di)) d"
  have "tools (cluster_runs (rl_PGDATA ?lf) f @ cluster_runs (rl_PGDATA ?ld) d @ [combine_run fi di f d l] @ cluster_runs (rl_PGDATA l) d)
      (combineOriginals (hrecorded H) untar ?run mon [fi, di] [f, d] l n)"
    unfolding combineOriginals_def combine_run_def using assms
    by (auto simp: Let_def simp del: hrecorded_fields append_Cons append_Nil intro!: tools_andthen tools_extractOriginal tools_runCombine tools_after[OF norun_synthetic]
        tools_after[of "each _ _"] tools_after[of "h_read _ _"] tools_after[of "lift _"] tail tools_fail rd ct.emits_rules norun_empty)
  then show ?thesis by (simp add: combined_runs_def inputLayout_def)
qed

section \<open>The directories of the inputs\<close>

definition input_at :: "string \<Rightarrow> nat \<Rightarrow> full_input" where
  "input_at scratch i = (let dir = path_join [path_join [scratch, format_uint (int i)], ''tar''] in
     (new_input dir)\<lparr>fi_metadata := path_join [path_dir dir, ''metadata''], fi_walCheck := path_join [path_dir dir, ''walcheck'']\<rparr>)"

definition fetched :: "string \<Rightarrow> nat \<times> commit \<Rightarrow> full_input \<Rightarrow> bool" where
  "fetched scratch = (\<lambda>(i, c) inp. fi_directory inp = fi_directory (input_at scratch i) \<and> fi_metadata inp = fi_metadata (input_at scratch i) \<and>
     fi_walCheck inp = fi_walCheck (input_at scratch i) \<and> nm_Ranges (fi_manifest inp) = cmt_WALRanges c)"

lemma scan_metadata_input:
  "scan_metadata H untar inp c segment s = (Inr inp', s') \<Longrightarrow>
   inp' = inp\<lparr>fi_metadata := path_join [path_dir (fi_directory inp), ''metadata''], fi_walCheck := path_join [path_dir (fi_directory inp), ''walcheck'']\<rparr>"
  unfolding scan_metadata_def Let_def by (auto simp: ok_runs ok_attempt)

lemma scan_input_input:
  "scan_input H untar inp c segment n s = (Inr inp', s') \<Longrightarrow> fi_directory inp' = fi_directory inp \<and> fi_metadata inp' = path_join [path_dir (fi_directory inp), ''metadata''] \<and>
     fi_walCheck inp' = path_join [path_dir (fi_directory inp), ''walcheck''] \<and> nm_Ranges (fi_manifest inp') = cmt_WALRanges c"
  unfolding scan_input_def Let_def by (auto simp: ok_runs dest!: scan_metadata_input)

lemma fetch_input_run:
  "fetch_input H gunz untar p n scratch x inputs s = (Inr inputs', s') \<Longrightarrow> \<exists>inp. inputs' = inputs @ [inp] \<and> fetched scratch x inp"
  unfolding fetch_input_def downloadFull_def Let_def
  by (cases x) (auto simp: ok_runs fetched_def input_at_def new_input_def Let_def dest!: scan_input_input)

lemma fetch_fold:
  "each_fold (fetch_input H gunz untar p n scratch) xs inputs s = (Inr inputs', s') \<Longrightarrow> \<exists>new. inputs' = inputs @ new \<and> list_all2 (fetched scratch) xs new"
proof (induction xs arbitrary: inputs s)
  case (Cons x xs)
  from Cons.prems obtain i1 s1 where "fetch_input H gunz untar p n scratch x inputs s = (Inr i1, s1)" "each_fold (fetch_input H gunz untar p n scratch) xs i1 s1 = (Inr inputs', s')"
    by (auto simp: andthen_Inr)
  with fetch_input_run[OF this(1)] Cons.IH[OF this(2)] show ?case by fastforce
qed (simp add: ret_def)

section \<open>RestoreFull\<close>

definition restore_tools :: "string list" where
  "restore_tools = [''pg_verifybackup'', ''pg_waldump'', ''pg_controldata'', ''pg_combinebackup'']"

definition restore_runs :: "string \<Rightarrow> plan \<Rightarrow> restore_layout \<Rightarrow> (string \<times> string list) list" where
  "restore_runs scratch p l = map (\<lambda>t. (t, [''--version''])) restore_tools @ concat (map (\<lambda>(i, c). original_runs (input_at scratch i) c) (enumerate 0 (pln_Chain p))) @
     (case pln_Chain p of [f, d] \<Rightarrow> combined_runs (input_at scratch 0) (input_at scratch 1) f d l | cs \<Rightarrow> cluster_runs (rl_PGDATA l) (last cs))"

lemma tools_version: "tools [(t, [''--version''])] (tool_versions (hrecorded H) t)"
  unfolding tool_versions_def by (rule tools_then[OF tools_run]) (auto intro!: norun_intros simp: fail_def split: sum.splits)

lemma tools_versions: "tools (map (\<lambda>t. (t, [''--version''])) ts) (each (tool_versions (hrecorded H)) ts)"
  using tools_each[of ts "\<lambda>t. [(t, [''--version''])]" "tool_versions (hrecorded H)", OF tools_version] by simp

lemma tools_verify_all:
  "list_all2 (fetched scratch) (enumerate k cs) inputs \<Longrightarrow>
   tools (concat (map (\<lambda>(i, c). original_runs (input_at scratch i) c) (enumerate k cs))) (each (\<lambda>(inp, c). verify_input (h_run (hrecorded H) env) inp c segment) (zip inputs cs))"
proof (induction cs arbitrary: k inputs)
  case (Cons c cs)
  then obtain inp rest where i: "inputs = inp # rest" and f: "fetched scratch (k, c) inp" and r: "list_all2 (fetched scratch) (enumerate (Suc k) cs) rest" by (auto simp: list_all2_Cons1)
  have "tools (original_runs inp c) (verify_input (h_run (hrecorded H) env) inp c segment)" using f by (intro tools_verify_input) (simp add: fetched_def)
  moreover have "original_runs inp c = original_runs (input_at scratch k) c" using f by (simp add: original_runs_def fetched_def)
  ultimately have "tools (original_runs (input_at scratch k) c @ concat (map (\<lambda>(i, c). original_runs (input_at scratch i) c) (enumerate (Suc k) cs)))
      (andthen (verify_input (h_run (hrecorded H) env) inp c segment) (\<lambda>_. each (\<lambda>(inp, c). verify_input (h_run (hrecorded H) env) inp c segment) (zip rest cs)))"
    using Cons.IH[OF r] by (intro tools_andthen) (simp_all del: hrecorded_fields)
  then show ?case by (simp add: i del: hrecorded_fields)
qed (simp add: tools_none norun_intros)

definition rrecorded :: "'w restore_env \<Rightarrow> ('w \<times> host_event list) restore_env" where
  "rrecorded R = \<lparr>re_hold = re_hold R, re_locked = re_locked R, re_free = re_free R, re_mon1 = (\<lambda>b. pass_call (re_mon1 R b)), re_mon2 = (\<lambda>b. pass_call (re_mon2 R b)),
     re_monC = pass_call (re_monC R), re_float = re_float R\<rparr>"

lemma norun_monitors [norun_intros]:
  "ct.emits A (re_mon1 (rrecorded R) b)" "ct.emits A (re_mon2 (rrecorded R) b)" "ct.emits A (re_monC (rrecorded R))"
  by (auto simp: rrecorded_def intro: emits_pass_call)

lemma tools_build:
  assumes "list_all2 (fetched scratch) (enumerate 0 (pln_Chain p)) inputs" "pln_Chain p \<noteq> []" "length (pln_Chain p) \<le> 2"
  shows "tools (case pln_Chain p of [f, d] \<Rightarrow> combined_runs (input_at scratch 0) (input_at scratch 1) f d l | cs \<Rightarrow> cluster_runs (rl_PGDATA l) (last cs))
    (if length inputs = 2 then combineOriginals (hrecorded H) untar (h_run (hrecorded H) env) (re_monC (rrecorded R)) inputs (pln_Chain p) l n
       else materialize (hrecorded H) untar (h_run (hrecorded H) env) (inputs ! 0) (last (pln_Chain p)) l)"
proof -
  consider (full) c where "pln_Chain p = [c]" | (diff) f d where "pln_Chain p = [f, d]" using assms(2,3) by (cases "pln_Chain p" rule: list.exhaust; cases "tl (pln_Chain p)") auto
  then show ?thesis
  proof cases
    case full
    then obtain inp where i: "inputs = [inp]" and f: "fetched scratch (0, c) inp" using assms(1) by (auto simp: list_all2_Cons1)
    show ?thesis using full f unfolding i materialize_def
      by (simp del: hrecorded_fields) (intro tools_before tools_extractOriginal norun_intros, simp add: fetched_def)
  next
    case diff
    then obtain fi di where i: "inputs = [fi, di]" and f: "fetched scratch (0, f) fi" "fetched scratch (1, d) di" using assms(1) by (auto simp: list_all2_Cons1)
    have "combined_runs (input_at scratch 0) (input_at scratch 1) f d l = combined_runs fi di f d l" using f by (simp add: combined_runs_def combine_run_def fetched_def)
    then show ?thesis using diff f tools_combineOriginals[OF _ _ norun_monitors(3), of fi f di d] by (simp add: i fetched_def del: hrecorded_fields)
  qed
qed

lemma tools_restore_native:
  assumes "list_all2 (fetched scratch) (enumerate 0 (pln_Chain p)) inputs" "pln_Chain p \<noteq> []" "length (pln_Chain p) \<le> 2"
  shows "tools (restore_runs scratch p l) (restore_native (hrecorded H) untar (rrecorded R) p n l inputs)"
  unfolding restore_native_def restore_runs_def restore_tools_def[symmetric]
  by (intro tools_andthen[OF tools_versions] tools_andthen[OF tools_verify_all[OF assms(1)]] tools_before[OF tools_build[OF assms]]) (auto intro!: norun_intros)

lemma restore_work_tools:
  assumes "restore_work (hrecorded H) (crecorded C) gunz untar (rrecorded R) p n budgets l phase s = (r, s')" "pln_Chain p \<noteq> []" "length (pln_Chain p) \<le> 2"
  shows "\<exists>scratch ev. tool_runs (snd s') = tool_runs (snd s) @ ev \<and> prefix ev (restore_runs scratch p l) \<and> (case r of Inr _ \<Rightarrow> ev = restore_runs scratch p l | Inl _ \<Rightarrow> True)"
proof -
  let ?H = "hrecorded H"
  define first where "first = andthen (h_mkdirTemp ?H NativeWorkspace ''restore-'') (\<lambda>scratch.
         attempt (andthen (each_fold (fetch_input ?H gunz untar p n scratch) (enumerate 0 (pln_Chain p)) []) (\<lambda>inputs.
           andthen (if length inputs = 1 then restoreOutputCapacity (h_bsize ?H) (inputs ! 0) (last (pln_Chain p)) n budgets l else ret phase) (\<lambda>phase2.
           andthen (CheckCapacity (crecorded C) phase2) (\<lambda>_. ret (inputs, phase2))))) (\<lambda>r. ret (scratch, r)))"
  have q: "ct.emits no_run first" unfolding first_def by (auto intro!: norun_intros)
  obtain x s1 where f: "first s = (x, s1)" by (metis prod.exhaust)
  have s1: "tool_runs (snd s1) = tool_runs (snd s)" using ct.emitsD[OF q f] by (auto simp: no_runs)
  have run: "(case x of Inl e \<Rightarrow> attempt (re_mon1 (rrecorded R) phase) (\<lambda>_. fail e)
       | Inr (scratch, Inl e) \<Rightarrow> attempt (h_removeAll ?H scratch) (\<lambda>_. attempt (re_mon1 (rrecorded R) phase) (\<lambda>_. fail e))
       | Inr (scratch, Inr (inputs, phase2)) \<Rightarrow>
          attempt (re_mon1 (rrecorded R) phase) (\<lambda>m1.
          joined (re_mon2 (rrecorded R) phase2) (deferred (h_removeAll ?H scratch)
            (case m1 of Inl e \<Rightarrow> fail e | Inr _ \<Rightarrow> restore_native ?H untar (rrecorded R) p n l inputs)))) s1 = (r, s')"
    using assms(1) unfolding restore_work_def first_def[symmetric] ok_attempt[of first] f by (simp del: hrecorded_fields)
  have quiet: "\<exists>scratch ev. tool_runs (snd s') = tool_runs (snd s) @ ev \<and> prefix ev (restore_runs scratch p l) \<and> (case r of Inr _ \<Rightarrow> ev = restore_runs scratch p l | Inl _ \<Rightarrow> True)"
    if "ct.emits no_run m" "m s1 = (r, s')" "\<exists>e. r = Inl e" for m :: "('a \<times> host_event list, (string \<times> integrity) list) act"
    using ct.emitsD[OF that(1,2)] that(3) s1 by (auto simp: no_runs)
  show ?thesis
  proof (cases x)
    case (Inl e)
    show ?thesis by (rule quiet[of "attempt (re_mon1 (rrecorded R) phase) (\<lambda>_. fail e)"]) (use run Inl in \<open>auto intro!: norun_intros simp: attempt_def fail_def split: prod.splits\<close>)
  next
    case (Inr y)
    obtain scratch z where y: "y = (scratch, z)" by (cases y)
    show ?thesis
    proof (cases z)
      case (Inl e)
      show ?thesis by (rule quiet[of "attempt (h_removeAll ?H scratch) (\<lambda>_. attempt (re_mon1 (rrecorded R) phase) (\<lambda>_. fail e))"])
        (use run \<open>x = Inr y\<close> y Inl in \<open>auto intro!: norun_intros simp: attempt_def fail_def split: prod.splits\<close>)
    next
      case (Inr a)
      obtain inputs phase2 where a: "a = (inputs, phase2)" by (cases a)
      have fx: "first s = (Inr (scratch, Inr (inputs, phase2)), s1)" using f \<open>x = Inr y\<close> y Inr a by simp
      have "list_all2 (fetched scratch) (enumerate 0 (pln_Chain p)) inputs"
        using fx unfolding first_def by (auto simp: ok_runs ok_attempt simp del: hrecorded_fields dest!: fetch_fold)
      note nat = tools_restore_native[OF this assms(2,3), of l H untar R n]
      obtain m1 s2 where m1: "re_mon1 (rrecorded R) phase s1 = (m1, s2)" by (metis prod.exhaust)
      have s2: "tool_runs (snd s2) = tool_runs (snd s1)" using ct.emitsD[OF norun_monitors(1) m1, of no_run] by (auto simp: no_runs)
      have "tools (restore_runs scratch p l) (joined (re_mon2 (rrecorded R) phase2) (deferred (h_removeAll ?H scratch)
            (case m1 of Inl e \<Rightarrow> fail e | Inr _ \<Rightarrow> restore_native ?H untar (rrecorded R) p n l inputs)))"
        by (intro tools_joined tools_deferred norun_monitors) (use nat in \<open>auto intro: norun_intros tools_fail split: sum.splits\<close>)
      moreover have "joined (re_mon2 (rrecorded R) phase2) (deferred (h_removeAll ?H scratch)
            (case m1 of Inl e \<Rightarrow> fail e | Inr _ \<Rightarrow> restore_native ?H untar (rrecorded R) p n l inputs)) s2 = (r, s')"
        using run \<open>x = Inr y\<close> y Inr a m1 by (simp add: attempt_def del: hrecorded_fields)
      ultimately show ?thesis using toolsD s1 s2 by fastforce
    qed
  qed
qed

text \<open>The runs of an operation that chooses its scratch directory.\<close>

definition restores :: "plan \<Rightarrow> restore_layout \<Rightarrow> ('w \<times> host_event list, 'a) act \<Rightarrow> bool" where
  "restores p l m \<longleftrightarrow> (\<forall>s r s'. m s = (r, s') \<longrightarrow> (\<exists>scratch ev. tool_runs (snd s') = tool_runs (snd s) @ ev \<and> prefix ev (restore_runs scratch p l) \<and>
     (case r of Inr _ \<Rightarrow> ev = restore_runs scratch p l | Inl _ \<Rightarrow> True)))"

lemma restores_fail: "restores p l (fail e)"
  by (auto simp: restores_def fail_def)

lemma restores_attempt:
  assumes "ct.emits no_run m" "\<And>r. restores p l (k r)"
  shows "restores p l (attempt m k)"
proof (unfold restores_def, intro allI impI)
  fix s r s' assume "attempt m k s = (r, s')"
  then obtain q s1 where b: "m s = (q, s1)" "k q s1 = (r, s')" by (auto simp: ok_attempt)
  have "tool_runs (snd s1) = tool_runs (snd s)" using ct.emitsD[OF assms(1) b(1)] by (auto simp: no_runs)
  then show "\<exists>scratch ev. tool_runs (snd s') = tool_runs (snd s) @ ev \<and> prefix ev (restore_runs scratch p l) \<and> (case r of Inr _ \<Rightarrow> ev = restore_runs scratch p l | Inl _ \<Rightarrow> True)"
    using assms(2)[of q] b(2) unfolding restores_def by metis
qed

lemma restores_andthen: "ct.emits no_run m \<Longrightarrow> (\<And>x. restores p l (k x)) \<Longrightarrow> restores p l (andthen m k)"
  unfolding andthen_def by (rule restores_attempt) (auto intro: restores_fail split: sum.splits)

lemma restores_RestoreFull:
  assumes "pln_Chain p \<noteq> []" "length (pln_Chain p) \<le> 2"
  shows "restores p l (RestoreFull (hrecorded H) (crecorded C) gunz untar (rrecorded R) p n budgets l)"
proof -
  have "restores p l (restore_work (hrecorded H) (crecorded C) gunz untar (rrecorded R) p n budgets l phase)" for phase
    unfolding restores_def using restore_work_tools[OF _ assms] by blast
  then show ?thesis unfolding RestoreFull_def
    by (auto intro!: restores_andthen restores_attempt norun_intros intro: restores_fail split: option.splits)
qed

end
