(* ===== verification/Pg_Process.thy ===== *)
theory Pg_Process
  imports Pg_Order
begin

text \<open>
  Commands, the workspace and the label query: what the process runner does before it returns, what an acquisition
  of the workspace has checked before it removes anything, and the text of the query around its operands.
\<close>

section \<open>Native commands\<close>

datatype proc_event =
    PvSubreaper "err + unit"
  | PvStart "string list" string "string list" "err + nat"
  | PvWait nat
  | PvKill nat
  | PvWait4 nat wait_result

definition precorded :: "'w proc_sys \<Rightarrow> ('w \<times> proc_event list) proc_sys" where
  "precorded P = \<lparr>pr_subreaper = log_call PvSubreaper (pr_subreaper P), pr_start = (\<lambda>env t args. log_call (PvStart env t args) (pr_start P env t args)),
     pr_wait = (\<lambda>pid. log_call (\<lambda>_. PvWait pid) (pr_wait P pid)), pr_kill = (\<lambda>pid. log_call (\<lambda>_. PvKill pid) (pr_kill P pid)),
     pr_wait4 = (\<lambda>pid. log_call (PvWait4 pid) (pr_wait4 P pid)), pr_ctx = pass_call (pr_ctx P)\<rparr>"

lemma precorded_fields:
  "pr_wait (precorded P) pid = log_call (\<lambda>_. PvWait pid) (pr_wait P pid)" "pr_kill (precorded P) pid = log_call (\<lambda>_. PvKill pid) (pr_kill P pid)"
  "pr_subreaper (precorded P) = log_call PvSubreaper (pr_subreaper P)" "pr_start (precorded P) env exe args = log_call (PvStart env exe args) (pr_start P env exe args)"
  by (simp_all add: precorded_def)

text \<open>Within \<open>n\<close> calls \<open>wait4\<close> answers that no child is left, or fails.\<close>

fun childless :: "'w proc_sys \<Rightarrow> nat \<Rightarrow> nat \<Rightarrow> 'w \<Rightarrow> bool" where
  "childless P pid 0 w = False"
| "childless P pid (Suc n) w = (case pr_wait4 P pid w of (r, w') \<Rightarrow> r = WaitNoChild \<or> r = WaitFailed \<or> childless P pid n w')"

definition busy :: "wait_result \<Rightarrow> bool" where
  "busy r \<longleftrightarrow> r = WaitReaped \<or> r = WaitInterrupted"

lemma reap_step:
  "reap P pid w = (case pr_wait4 P pid w of (r, w') \<Rightarrow> if r = WaitNoChild then Some (Inr (), w') else if r = WaitFailed then Some (Inl (PlainErr ''native child drain uncertain''), w') else reap P pid w')"
  by (subst reap.simps) (auto split: prod.splits)

lemma reap_childless:
  assumes "reap P pid w = Some y"
  shows "\<exists>n. childless P pid n w"
proof -
  have "(\<lambda>((P, pid), w) _. \<exists>n. childless P pid n w) ((P, pid), w) y"
  proof (rule reap.raw_induct[OF _ assms])
    fix f :: "'a proc_sys \<Rightarrow> nat \<Rightarrow> 'a \<Rightarrow> ((err + unit) \<times> 'a) option" and P pid w z
    assume IH: "\<And>P pid w y. f P pid w = Some y \<Longrightarrow> (\<lambda>((P, pid), w) _. \<exists>n. childless P pid n w) ((P, pid), w) y"
      and run: "(case pr_wait4 P pid w of (r, w') \<Rightarrow> if r = WaitNoChild then Some (Inr (), w')
        else if r = WaitFailed then Some (Inl (PlainErr ''native child drain uncertain''), w') else f P pid w') = Some z"
    obtain r w1 where s: "pr_wait4 P pid w = (r, w1)" by (metis prod.exhaust)
    have "\<exists>n. childless P pid (Suc n) w" using run s IH[of P pid w1] by (cases r) auto
    then show "(\<lambda>((P, pid), w) _. \<exists>n. childless P pid n w) ((P, pid), w) z" by (simp del: childless.simps) blast
  qed
  then show ?thesis by simp
qed

definition drained :: "nat \<Rightarrow> err + unit \<Rightarrow> proc_event list \<Rightarrow> bool" where
  "drained pid r tr \<longleftrightarrow> (\<exists>rs q. tr = map (PvWait4 pid) (rs @ [q]) \<and> list_all busy rs \<and> (case r of Inr _ \<Rightarrow> q = WaitNoChild | Inl e \<Rightarrow> q = WaitFailed \<and> e = PlainErr ''native child drain uncertain''))"

lemma reap_trace:
  "childless P pid n w \<Longrightarrow> \<exists>r w' ev. reap (precorded P) pid (w, tr) = Some (r, (w', tr @ ev)) \<and> drained pid r ev"
proof (induction n arbitrary: w tr)
  case (Suc n)
  obtain q w1 where s: "pr_wait4 P pid w = (q, w1)" by (metis prod.exhaust)
  have c: "pr_wait4 (precorded P) pid (w, tr) = (q, (w1, tr @ [PvWait4 pid q]))" using s by (simp add: precorded_def log_call_def)
  show ?case
  proof (cases "q = WaitNoChild \<or> q = WaitFailed")
    case True
    then show ?thesis by (subst reap_step) (auto simp: c drained_def intro: exI[of _ "[]"])
  next
    case False
    then have "childless P pid n w1" using Suc.prems s by simp
    from Suc.IH[OF this, of "tr @ [PvWait4 pid q]"] obtain r w' ev where
      r: "reap (precorded P) pid (w1, tr @ [PvWait4 pid q]) = Some (r, (w', tr @ PvWait4 pid q # ev))" and "drained pid r ev" by auto
    then obtain rs l where "ev = map (PvWait4 pid) (rs @ [l])" "list_all busy rs" "case r of Inr _ \<Rightarrow> l = WaitNoChild | Inl e \<Rightarrow> l = WaitFailed \<and> e = PlainErr ''native child drain uncertain''"
      by (auto simp: drained_def)
    moreover have "busy q" using False by (cases q) (auto simp: busy_def)
    ultimately have "drained pid r (PvWait4 pid q # ev)" unfolding drained_def by (intro exI[of _ "q # rs"] exI[of _ l]) simp
    moreover have "reap (precorded P) pid (w, tr) = Some (r, (w', tr @ PvWait4 pid q # ev))" using False by (subst reap_step) (simp add: c r)
    ultimately show ?thesis by blast
  qed
qed simp

lemma childless_recorded: "childless (precorded P) pid n (w, tr) = childless P pid n w"
  by (induction n arbitrary: w tr) (auto simp: precorded_def log_call_def split: prod.splits)

lemma reap_outcome:
  "case reap (precorded P) pid (w, tr) of None \<Rightarrow> \<forall>n. \<not> childless P pid n w
   | Some (r, (w', tr')) \<Rightarrow> \<exists>ev. tr' = tr @ ev \<and> drained pid r ev"
proof (cases "\<exists>n. childless P pid n w")
  case True
  then show ?thesis using reap_trace[of P pid _ w tr] by fastforce
next
  case False
  then have "reap (precorded P) pid (w, tr) = None" using reap_childless[of "precorded P" pid "(w, tr)"]
    by (cases "reap (precorded P) pid (w, tr)") (auto simp: childless_recorded)
  then show ?thesis using False by simp
qed

section \<open>Output\<close>

lemma collected_bound: "int (length (co_data (collected ws))) \<le> 1048576"
proof -
  have "int (length (co_data b)) \<le> 1048576 \<Longrightarrow> int (length (co_data (fold output_write ws b))) \<le> 1048576" for b
    by (induction ws arbitrary: b) (auto simp: output_write_def Let_def)
  then show ?thesis by (simp add: collected_def)
qed

lemma native_result_trace: "native_result (precorded P) e (w, tr) = (r, (w', tr')) \<Longrightarrow> tr' = tr \<and> (case r of Inr b \<Rightarrow> length b \<le> 1048576 \<and> \<not> ee_error e | Inl _ \<Rightarrow> True)"
  using collected_bound[of "ee_out e"]
  by (auto simp: native_result_def Let_def precorded_def andthen_def attempt_def pass_call_def fail_def ret_def split: sum.splits prod.splits if_splits)

text \<open>A command that was started: waited for, its group killed, and every descendant reaped.\<close>

definition owned_run :: "string list \<Rightarrow> string \<Rightarrow> string list \<Rightarrow> err + bytes \<Rightarrow> proc_event list \<Rightarrow> bool" where
  "owned_run env exe args r tr \<longleftrightarrow> (\<exists>pid d ev. tr = [PvSubreaper (Inr ()), PvStart env exe args (Inr pid), PvWait pid, PvKill pid] @ ev \<and> drained pid d ev \<and>
     (case r of Inr out \<Rightarrow> d = Inr () \<and> length out \<le> 1048576 | Inl e \<Rightarrow> d = Inr () \<or> d = Inl e))"

text \<open>The world when the reaping of a started command begins.\<close>

definition after_kill :: "'w proc_sys \<Rightarrow> nat \<Rightarrow> 'w \<Rightarrow> 'w" where
  "after_kill P pid w = snd (pr_kill P pid (snd (pr_wait P pid w)))"

lemma run_started_outcome:
  "case run_started (precorded P) pid (w, [PvSubreaper (Inr ()), PvStart env exe args (Inr pid)]) of
     None \<Rightarrow> \<forall>n. \<not> childless P pid n (after_kill P pid w)
   | Some (r, (w', tr)) \<Rightarrow> owned_run env exe args r tr"
proof -
  obtain e w1 where e: "pr_wait P pid w = (e, w1)" by (metis prod.exhaust)
  obtain u w2 where u: "pr_kill P pid w1 = (u, w2)" by (metis prod.exhaust)
  let ?tr = "[PvSubreaper (Inr ()), PvStart env exe args (Inr pid), PvWait pid, PvKill pid]"
  have k: "run_started (precorded P) pid (w, [PvSubreaper (Inr ()), PvStart env exe args (Inr pid)]) =
      Option.bind (reap (precorded P) pid (w2, ?tr)) (\<lambda>(r, w). case r of Inl e' \<Rightarrow> Some (Inl e', w) | Inr _ \<Rightarrow> Some (native_result (precorded P) e w))"
    using e u by (simp add: run_started_def log_call_def precorded_fields)
  show ?thesis
  proof (cases "reap (precorded P) pid (w2, ?tr)")
    case None
    then show ?thesis using k reap_outcome[of P pid w2 ?tr] e u by (auto simp: after_kill_def)
  next
    case (Some y)
    obtain d w3 tr3 where y: "y = (d, (w3, tr3))" by (cases y) auto
    with Some reap_outcome[of P pid w2 ?tr] obtain ev where ev: "tr3 = ?tr @ ev" "drained pid d ev" by auto
    obtain r w' tr' where n: "native_result (precorded P) e (w3, tr3) = (r, (w', tr'))" by (metis prod.exhaust)
    from native_result_trace[OF n] show ?thesis using k Some y ev n
      by (cases d; cases r) (auto simp: owned_run_def)
  qed
qed


section \<open>The workspace\<close>

datatype work_event =
    WvLockStat nat "err + lock_stat"
  | WvFlock nat "err + unit"
  | WvOwner "err + (bytes \<times> bool) option"
  | WvNative "err + file_info option"
  | WvCreateOwner "err + nat"
  | WvWriteOwner nat bytes "err + unit"
  | WvSyncOwner nat "err + unit"
  | WvRemoveNative "err + unit"
  | WvMkdirNative "err + unit"
  | WvSyncRoot "err + unit"
  | WvClose nat "err + unit"

definition krecorded :: "'w work_sys \<Rightarrow> ('w \<times> work_event list) work_sys" where
  "krecorded K = \<lparr>wk_pid = pass_call (wk_pid K), wk_root = (\<lambda>d. pass_call (wk_root K d)), wk_lockFile = pass_call (wk_lockFile K),
     wk_lockStat = (\<lambda>f. log_call (WvLockStat f) (wk_lockStat K f)), wk_flock = (\<lambda>f. log_call (WvFlock f) (wk_flock K f)), wk_owner = log_call WvOwner (wk_owner K),
     wk_lstat = log_call WvNative (wk_lstat K), wk_createOwner = log_call WvCreateOwner (wk_createOwner K), wk_writeOwner = (\<lambda>f b. log_call (WvWriteOwner f b) (wk_writeOwner K f b)),
     wk_syncOwner = (\<lambda>f. log_call (WvSyncOwner f) (wk_syncOwner K f)), wk_removeNative = log_call WvRemoveNative (wk_removeNative K), wk_mkdirNative = log_call WvMkdirNative (wk_mkdirNative K),
     wk_syncRoot = log_call WvSyncRoot (wk_syncRoot K), wk_close = (\<lambda>f. log_call (WvClose f) (wk_close K f))\<rparr>"

lemma krecorded_fields [simp]:
  "wk_root (krecorded K) d = pass_call (wk_root K d)" "wk_lockFile (krecorded K) = pass_call (wk_lockFile K)"
  "wk_lockStat (krecorded K) f = log_call (WvLockStat f) (wk_lockStat K f)" "wk_flock (krecorded K) f = log_call (WvFlock f) (wk_flock K f)" "wk_owner (krecorded K) = log_call WvOwner (wk_owner K)"
  "wk_lstat (krecorded K) = log_call WvNative (wk_lstat K)" "wk_createOwner (krecorded K) = log_call WvCreateOwner (wk_createOwner K)"
  "wk_writeOwner (krecorded K) f b = log_call (WvWriteOwner f b) (wk_writeOwner K f b)"
  "wk_syncOwner (krecorded K) f = log_call (WvSyncOwner f) (wk_syncOwner K f)" "wk_removeNative (krecorded K) = log_call WvRemoveNative (wk_removeNative K)"
  "wk_mkdirNative (krecorded K) = log_call WvMkdirNative (wk_mkdirNative K)"
  "wk_syncRoot (krecorded K) = log_call WvSyncRoot (wk_syncRoot K)" "wk_close (krecorded K) f = log_call (WvClose f) (wk_close K f)"
  by (simp_all add: krecorded_def)

fun is_removal :: "work_event \<Rightarrow> bool" where
  "is_removal (WvRemoveNative _) = True"
| "is_removal (WvMkdirNative _) = True"
| "is_removal _ = False"

text \<open>The owner file names the pod already, or the workspace was unused and the name has been written and synced.\<close>

definition claimed :: "string \<Rightarrow> work_event list \<Rightarrow> bool" where
  "claimed pod ev \<longleftrightarrow> ev = [WvOwner (Inr (Some (pod @ [CHR 0x0a], True)))] \<or>
     (\<exists>g. ev = [WvOwner (Inr None), WvNative (Inr None), WvCreateOwner (Inr g), WvWriteOwner g (pod @ [CHR 0x0a]) (Inr ()), WvSyncOwner g (Inr ())])"

lemma claim_run: "claim_workspace (krecorded K) pod s = (Inr (), s') \<Longrightarrow> \<exists>ev. snd s' = snd s @ ev \<and> claimed pod ev"
  by (auto simp: claim_workspace_def rec_runs ok_attempt claimed_def)

named_theorems tidy_intros

lemmas [tidy_intros] = ct.emits_rules emits_log_call emits_pass_call

lemma tidy_claim [tidy_intros]: "ct.emits (\<lambda>e. \<not> is_removal e) (claim_workspace (krecorded K) pod)"
  unfolding claim_workspace_def by (auto intro!: tidy_intros split: option.splits)

definition private_dir :: "file_info option \<Rightarrow> bool" where
  "private_dir st \<longleftrightarrow> (case st of None \<Rightarrow> True | Some i \<Rightarrow> fs_dir i \<and> fs_perm i = 448)"

text \<open>The calls of the reset: nothing, or the removal of a private directory and what followed.\<close>

definition reset_log :: "err + unit \<Rightarrow> work_event list \<Rightarrow> bool" where
  "reset_log r ev \<longleftrightarrow> (\<exists>q. ev = [WvNative q] \<and> (\<exists>e. r = Inl e)) \<or>
     (\<exists>st q rest. ev = [WvNative (Inr st), WvRemoveNative q] @ rest \<and> private_dir st \<and> (case r of
        Inr _ \<Rightarrow> q = Inr () \<and> rest = [WvMkdirNative (Inr ()), WvSyncRoot (Inr ())]
      | Inl _ \<Rightarrow> rest = [] \<or> (\<exists>m. rest = [WvMkdirNative m]) \<or> (\<exists>m y. rest = [WvMkdirNative m, WvSyncRoot y])))"

lemma reset_run: "reset_workspace (krecorded K) s = (r, s') \<Longrightarrow> \<exists>ev. snd s' = snd s @ ev \<and> reset_log r ev"
proof -
  assume run: "reset_workspace (krecorded K) s = (r, s')"
  obtain w tr where s: "s = (w, tr)" by (cases s)
  show ?thesis using run unfolding s
    by (cases r) (force simp: reset_workspace_def reset_log_def private_dir_def andthen_def attempt_def log_call_def check_def fail_def
      split: prod.splits sum.splits option.splits if_splits)+
qed

definition lock_fine :: "lock_stat \<Rightarrow> bool" where
  "lock_fine st \<longleftrightarrow> ls_regular st \<and> ls_private st \<and> ls_nlink st = 1 \<and> ls_owned st"

text \<open>The log of an acquisition that reached the removal.\<close>

definition owned_reset :: "string \<Rightarrow> nat \<Rightarrow> err + unit \<Rightarrow> work_event list \<Rightarrow> bool" where
  "owned_reset pod f r ev \<longleftrightarrow> (\<exists>st own res. ev = [WvLockStat f (Inr st), WvFlock f (Inr ())] @ own @ res \<and> lock_fine st \<and> claimed pod own \<and> reset_log r res)"

lemma reset_log_error: "reset_log (Inr ()) [WvNative q] = False"
  by (auto simp: reset_log_def)

lemma locked_run:
  assumes "own_workspace (krecorded K) pod f s = (r, s')"
  shows "\<exists>ev. snd s' = snd s @ ev \<and> ((\<exists>e. r = Inl e) \<and> list_all (\<lambda>e. \<not> is_removal e) ev \<or> owned_reset pod f r ev)"
proof -
  obtain q s1 where st: "wk_lockStat (krecorded K) f s = (q, s1)" by (metis prod.exhaust)
  have e1: "snd s1 = snd s @ [WvLockStat f q]" using st by (simp add: rec_log)
  obtain x s2 where fl: "wk_flock (krecorded K) f s1 = (x, s2)" by (metis prod.exhaust)
  have e2: "snd s2 = snd s1 @ [WvFlock f x]" using fl by (simp add: rec_log)
  obtain c s3 where cl: "claim_workspace (krecorded K) pod s2 = (c, s3)" by (metis prod.exhaust)
  show ?thesis
  proof (cases "\<exists>l. q = Inr l \<and> lock_fine l \<and> x = Inr () \<and> c = Inr ()")
    case True
    then obtain l where l: "q = Inr l" "lock_fine l" and x: "x = Inr ()" "c = Inr ()" by blast
    then have res: "reset_workspace (krecorded K) s3 = (r, s')" using assms st fl cl by (simp add: own_workspace_def attempt_def andthen_def lock_fine_def)
    from claim_run[OF cl[unfolded x]] reset_run[OF res] obtain own ev where "snd s3 = snd s2 @ own" "claimed pod own" "snd s' = snd s3 @ ev" "reset_log r ev" by blast
    then show ?thesis using e1 e2 l x unfolding owned_reset_def by (intro exI[of _ "[WvLockStat f (Inr l), WvFlock f (Inr ())] @ own @ ev"]) auto
  next
    case False
    from ct.emitsD[OF tidy_claim cl] obtain own where own: "snd s3 = snd s2 @ own" "list_all (\<lambda>e. \<not> is_removal e) own" by blast
    show ?thesis using False assms st fl cl e1 e2 own
      by (auto simp: own_workspace_def attempt_def andthen_def lock_fine_def fail_def split: sum.splits if_splits)
  qed
qed


section \<open>The label query\<close>

abbreviation quote :: char where
  "quote \<equiv> CHR 0x27"

definition quoted_hex :: "string \<Rightarrow> string" where
  "quoted_hex s = [quote] @ hex_encode (map of_char s) @ [quote]"

text \<open>The text of the query around its three operands; only the head depends on the times.\<close>

definition query_head :: "int \<Rightarrow> int \<Rightarrow> string" where
  "query_head t0 t1 = sql ''WITH settings AS MATERIALIZED (^ SELECT set_config(`TimeZone`, current_setting(`log_timezone`), true) AS zone^ ), matches AS (^ SELECT t FROM settings, generate_series(to_timestamp('' @
     format_int t0 @ sql ''), to_timestamp('' @ format_int t1 @ sql ''), interval `1 second`) AS t^ WHERE to_char(t, CASE WHEN settings.zone = convert_from(decode(''"

definition query_loaded :: string where
  "query_loaded = sql '',`hex`),`UTF8`)^ AND to_char(pg_conf_load_time() AT TIME ZONE `UTC`,`YYYY-MM-DD~T~HH24:MI:SS.US~Z~`) = convert_from(decode(''"

definition query_label :: string where
  "query_label = sql '',`hex`),`UTF8`)^ THEN `YYYY-MM-DD HH24:MI:SS TZ` ELSE NULL END) = convert_from(decode(''"

definition query_tail :: string where
  "query_tail = sql '',`hex`),`UTF8`)^ ) SELECT json_build_object(`matches`, count(*), `started`,^ to_char(min(t) AT TIME ZONE `UTC`,`YYYY-MM-DD~T~HH24:MI:SS~Z~`)) FROM matches;''"

lemma label_query_text:
  "label_query t0 t1 (hex_operand zone) (hex_operand loaded) (hex_operand label) =
   query_head t0 t1 @ quoted_hex zone @ query_loaded @ quoted_hex loaded @ query_label @ quoted_hex label @ query_tail"
  unfolding label_query_def hex_operand_def query_head_def query_loaded_def query_label_def query_tail_def quoted_hex_def sql_def by simp

definition quotes :: "string \<Rightarrow> nat" where
  "quotes s = length (filter (\<lambda>c. c = quote) s)"

lemma frame_quotes: "even (quotes query_loaded)" "even (quotes query_label)" "even (quotes query_tail)"
  by code_simp+

lemma quotes_append: "quotes (a @ b) = quotes a + quotes b"
  by (simp add: quotes_def)

lemma digit_no_quote: "0 \<le> d \<Longrightarrow> d < 16 \<Longrightarrow> digit_char d \<noteq> quote"
  using digit_char_value[of d] by (auto simp: digit_value_def)

lemma format_int_quotes: "quotes (format_int n) = 0"
proof -
  have "digit_char d \<noteq> quote" if "d \<in> set (to_base 10 m)" "0 \<le> m" for d m
    using to_base_digits[of 10 m] that by (intro digit_no_quote) force+
  then show ?thesis by (auto simp: quotes_def format_int_def format_uint_def filter_empty_conv)
qed

lemma head_quotes: "even (quotes (query_head t0 t1))"
proof -
  have "even (quotes (sql ''WITH settings AS MATERIALIZED (^ SELECT set_config(`TimeZone`, current_setting(`log_timezone`), true) AS zone^ ), matches AS (^ SELECT t FROM settings, generate_series(to_timestamp(''))"
    "even (quotes (sql ''), to_timestamp(''))" "even (quotes (sql ''), interval `1 second`) AS t^ WHERE to_char(t, CASE WHEN settings.zone = convert_from(decode(''))" by code_simp+
  then show ?thesis by (simp add: query_head_def quotes_append format_int_quotes)
qed

lemma of_char_byte: "0 \<le> (of_char c :: int) \<and> (of_char c :: int) < 256"
  using of_nat_of_char[of c, where ?'a = int, symmetric] nat_of_char_less_256[of c] by simp

lemma hex_round: "hex_decode (hex_encode (map of_char s)) = Some (map of_char s)"
proof (induction s)
  case (Cons c s)
  have d: "0 \<le> (of_char c :: int) div 16" "(of_char c :: int) div 16 < 16" "0 \<le> (of_char c :: int) mod 16" "(of_char c :: int) mod 16 < 16"
    using of_char_byte[of c] by auto
  then show ?case using Cons by (simp add: hex_encode_def digit_char_value)
qed (simp add: hex_encode_def)

lemma hex_text: "list_all lower_hex (hex_encode (map of_char s))"
  by (rule hex_encode_lower) (use of_char_byte in \<open>auto simp: byte_list_def\<close>)

end
