(* ===== verification/Pg_Properties.thy ===== *)
theory Pg_Properties
  imports Pg_Tools Pg_Process
begin

text \<open>
  What the native operations guarantee: accepted archives are trees, stored archives decode to what was captured, the
  tools of a restore run in one fixed order, nothing is replaced before its copy is safe, no command returns before its
  descendants are gone, the workspace is reset only by its owner, and no captured text reaches the syntax of a query.
\<close>

section \<open>Archives\<close>

lemma scan_start_inv: "scan_inv limit scan_start"
  by (simp add: scan_inv_def scan_start_def maxEntries_def)

text \<open>C24. An archive that the scan accepts is a tree: its entries have distinct plain relative paths, no entry lies below a regular
  file, it has at most a hundred thousand entries of bounded size, their bytes add up to the recorded total, and that total and
  the archive itself are within the limit.\<close>
theorem scanArchive_tree:
  assumes "scanArchive untar alive data limit visit w = (Inr a, w')" "0 \<le> limit"
  shows "archive_tree limit a \<and> int (length data) \<le> limit"
proof -
  define s where "s = untar (take (nat (limit + 1)) data)"
  obtain st w1 where f: "each_fold (scan_entry limit visit) (tar_Members s) scan_start w = (Inr st, w1)"
    and r: "scan_again alive st w1 = (Inr (), w')" and a: "a = sc_inv st" and l: "int (length data) \<le> limit"
    using assms(1) unfolding scanArchive_def Let_def s_def[symmetric] by (cases "tar_End s") (auto simp: ok_runs)
  have "scan_inv limit st" using f by (rule each_fold_inv[where I = "scan_inv limit", rotated 2]) (auto intro: scan_entry_inv scan_start_inv)
  then show ?thesis using scan_state_tree[of limit st] scan_again_fine[OF r] assms(2) l a by blast
qed

definition tree_stream :: tar_stream where
  "tree_stream = \<lparr>tar_Members = [\<lparr>tm_Header = \<lparr>th_Name = ''global/'', th_Type = TypeDir, th_Ustar = True, th_PAX = False, th_Linkname = [], th_Size = 0\<rparr>, tm_Data = [], tm_Whole = True\<rparr>,
      \<lparr>tm_Header = \<lparr>th_Name = ''global/pg_control'', th_Type = TypeReg, th_Ustar = True, th_PAX = False, th_Linkname = [], th_Size = 2\<rparr>, tm_Data = ''ok'', tm_Whole = True\<rparr>],
     tar_End = TarEOF 1534, tar_Rest = [], tar_Clean = True\<rparr>"

theorem scanArchive_tree_witness:
  "archive_tree 9 \<lparr>ai_files = [(''global/pg_control'', 2)], ai_dirs = [''global''], ai_entries = 2, ai_bytes = 2\<rparr> \<and> int (length ''archive'') \<le> 9"
proof -
  have run: "scanArchive (\<lambda>_. tree_stream) (ret ()) ''archive'' 9 (\<lambda>p z b. ret ()) () =
      (Inr \<lparr>ai_files = [(''global/pg_control'', 2)], ai_dirs = [''global''], ai_entries = 2, ai_bytes = 2\<rparr>, ())" by code_simp
  show ?thesis by (rule scanArchive_tree[OF run]) simp
qed

section \<open>Compression\<close>

lemma blocks_concat: "0 < n \<Longrightarrow> concat (blocks n b) = b"
  by (induction n b rule: blocks.induct) (simp add: blocks.simps)

text \<open>What a fold of capped writes has passed on.\<close>

lemma capped_write_ok:
  "capped_write H f p (left, done) w = (Inr u, w') \<longleftrightarrow> int (length p) \<le> left \<and> h_append H f p w = (Inr (), w') \<and> u = (left - int (length p), done @ p)"
  by (auto simp: capped_write_def ok_runs)

lemma capped_writes:
  "each_fold (capped_write H f) ws (left, done) w = (Inr (left', done'), w') \<Longrightarrow>
   done' = done @ concat ws \<and> left' = left - int (length (concat ws)) \<and> (0 \<le> left \<longrightarrow> 0 \<le> left')"
proof (induction ws arbitrary: left "done" w)
  case (Cons p ws)
  from Cons.prems obtain w1 where "each_fold (capped_write H f) ws (left - int (length p), done @ p) w1 = (Inr (left', done'), w')" "int (length p) \<le> left"
    by (auto simp: capped_write_ok andthen_Inr)
  with Cons.IH[OF this(1)] show ?case by auto
qed (simp add: ret_def)

lemma capped_trace:
  "each_fold (capped_write (hrecorded H) f) ws u s = (Inr u', s') \<Longrightarrow> snd s' = snd s @ map (\<lambda>p. HvAppend f p (Inr ())) ws"
proof (induction ws arbitrary: u s)
  case (Cons p ws)
  obtain left d where u: "u = (left, d)" by (cases u)
  from Cons.prems obtain s1 where "each_fold (capped_write (hrecorded H) f) ws (left - int (length p), d @ p) s1 = (Inr u', s')" "snd s1 = snd s @ [HvAppend f p (Inr ())]"
    by (auto simp: capped_write_ok andthen_Inr u rec_log)
  with Cons.IH[OF this(1)] show ?case by simp
qed (simp add: ret_def)

text \<open>What was written to the file that \<open>spool\<close> returns, and the artifact that describes it.\<close>

lemma spool_fill_artifact:
  assumes "spool_fill (hrecorded H) Z f (raw, ok) compression cap s = (Inr a, s')" "0 \<le> cap"
  shows "\<exists>ws. spool_writes Z compression raw = Some ws \<and> ok \<and> snd s' = snd s @ map (\<lambda>p. HvAppend f p (Inr ())) ws @ [HvSync f (Inr ())] \<and>
    stored_of a = \<lparr>itg_Size = int (length (concat ws)), itg_SHA256 = digest (concat ws)\<rparr> \<and>
    raw_of_artifact a = \<lparr>itg_Size = int (length raw), itg_SHA256 = digest raw\<rparr> \<and> art_Compression a = compression \<and> int (length (concat ws)) \<le> cap"
proof -
  obtain ws left d s1 where ws: "spool_writes Z compression raw = Some ws" and w: "each_fold (capped_write (hrecorded H) f) ws (cap, []) s = (Inr (left, d), s1)"
    and s': "snd s' = snd s1 @ [HvSync f (Inr ())]" and ok: ok
    and a: "stored_of a = \<lparr>itg_Size = cap - left, itg_SHA256 = digest d\<rparr>" "raw_of_artifact a = \<lparr>itg_Size = int (length raw), itg_SHA256 = digest raw\<rparr>" "art_Compression a = compression"
    using assms(1) by (auto simp: spool_fill_def rec_runs stored_of_def raw_of_artifact_def)
  show ?thesis using ws s' ok a capped_writes[OF w] capped_trace[OF w] assms(2) by auto
qed

text \<open>C21. Compression and decompression are inverse on the stored bytes: when \<open>spool\<close> succeeds, the source was read to its end,
  the bytes written to the new file are synced, within the cap and described by the artifact, and \<open>decodeOriginal\<close> on those
  bytes, with the integrities and the compression the artifact records, reads them through, gives exactly the raw archive and syncs
  it; nothing but a failing read, write or sync is left to go wrong.\<close>
theorem spool_decodes:
  assumes "\<And>b. gunz (concat (sp_gzip Z b)) = Some (b, True, [])" "spool (hrecorded H) (zrecorded Z) (raw, ok) dir compression cap (w, []) = (Inr (path, a), (w', tr))" "0 \<le> cap"
  shows "\<exists>f ws. tr = map (\<lambda>p. HvAppend f p (Inr ())) ws @ [HvSync f (Inr ())] \<and> int (length (concat ws)) \<le> cap \<and> ok \<and>
    stored_of a = \<lparr>itg_Size = int (length (concat ws)), itg_SHA256 = digest (concat ws)\<rparr> \<and> art_RawBytes a = int (length raw) \<and>
    decodeOriginal G gunz (concat ws) dst (stored_of a) (raw_of_artifact a) (art_Compression a) =
      andthen (h_ctx G) (\<lambda>_. andthen (h_append G dst raw) (\<lambda>_. h_sync G dst))"
proof -
  obtain f w1 where run: "spool_fill (hrecorded H) (zrecorded Z) f (raw, ok) compression cap (w1, []) = (Inr a, (w', tr))"
    using assms(2) by (auto simp: spool_def rec_runs ok_attempt split: sum.splits)
  from spool_fill_artifact[OF this assms(3)] obtain ws where ws: "spool_writes (zrecorded Z) compression raw = Some ws"
    and k: ok "tr = map (\<lambda>p. HvAppend f p (Inr ())) ws @ [HvSync f (Inr ())]" "stored_of a = \<lparr>itg_Size = int (length (concat ws)), itg_SHA256 = digest (concat ws)\<rparr>"
    and r: "raw_of_artifact a = \<lparr>itg_Size = int (length raw), itg_SHA256 = digest raw\<rparr>" and c: "art_Compression a = compression" and l: "int (length (concat ws)) \<le> cap" by auto
  have d: "decoded gunz compression (concat ws) = Some (raw, True, [])"
    using ws assms(1) by (auto simp: spool_writes_def decoded_def blocks_concat split: if_splits)
  have rb: "art_RawBytes a = int (length raw)" using r by (simp add: raw_of_artifact_def)
  have "decodeOriginal G gunz (concat ws) dst (stored_of a) (raw_of_artifact a) (art_Compression a) =
      andthen (h_ctx G) (\<lambda>_. andthen (h_append G dst raw) (\<lambda>_. h_sync G dst))"
    using k(3) r c d by (simp add: decodeOriginal_def Let_def)
  then show ?thesis using k l rb by blast
qed

text \<open>A host on which every call succeeds, and a codec that stores.\<close>

definition ex_host :: "unit host" where
  "ex_host = \<lparr>h_ctx = ret (), h_now = (\<lambda>w. (0, w)), h_run = (\<lambda>_ _ _. ret []), h_eval = ret, h_lstat = (\<lambda>_. ret None), h_readdir = (\<lambda>_. ret []), h_walk = (\<lambda>_ w. (([], None), w)),
     h_readlink = ret, h_read = (\<lambda>_. ret ([], True)), h_mkdir = (\<lambda>_. ret True), h_mkdirTemp = (\<lambda>d p. ret (d @ ''/'' @ p)), h_chmod = (\<lambda>_ _. ret ()), h_write = (\<lambda>_ _. ret ()),
     h_syncDir = (\<lambda>_. ret ()), h_removeAll = (\<lambda>_. ret ()), h_openRoot = (\<lambda>_. ret ()), h_mkdirAll = (\<lambda>_ _. ret ()), h_create = (\<lambda>_ _. ret 3), h_append = (\<lambda>_ _. ret ()),
     h_sync = (\<lambda>_. ret ()), h_close = (\<lambda>_. ret ()), h_symlink = (\<lambda>_ _ _. ret ()), h_remove = (\<lambda>_ _. ret True), h_rootRemoveAll = (\<lambda>_ _. ret ()), h_download = (\<lambda>_ _. ret []),
     h_spool = (\<lambda>_. ret ()), h_bsize = (\<lambda>_. ret 4096)\<rparr>"

definition ex_spool :: "unit spool_sys" where
  "ex_spool = \<lparr>sp_temp = (\<lambda>d p. ret (7, d @ ''/'' @ p)), sp_remove = (\<lambda>_. ret ()), sp_gzip = (\<lambda>b. [''gz'', b]), sp_statfs = (\<lambda>_. ret (4096, 1000000))\<rparr>"

definition ex_artifact :: artifact where
  "ex_artifact = \<lparr>art_Index = 0, art_Role = [], art_TablespaceOID = None, art_Compression = ''gzip'', art_StoredBytes = 6, art_RawBytes = 4,
     art_StoredSHA256 = digest ''gzdata'', art_RawSHA256 = digest ''data''\<rparr>"

lemma ex_spooled: "spool (hrecorded ex_host) (zrecorded ex_spool) (''data'', True) ''/w'' ''gzip'' 9 ((), []) =
    (Inr (''/w/spool-'', ex_artifact), ((), [HvAppend 7 ''gz'' (Inr ()), HvAppend 7 ''data'' (Inr ()), HvSync 7 (Inr ())]))"
  by (simp add: spool_def spool_fill_def spool_writes_def rec_runs ok_attempt capped_write_ok split_paired_Ex ex_artifact_def ex_host_def ex_spool_def)

theorem spool_decodes_witness:
  "\<exists>f ws. [HvAppend 7 ''gz'' (Inr ()), HvAppend 7 ''data'' (Inr ()), HvSync 7 (Inr ())] = map (\<lambda>p. HvAppend f p (Inr ())) ws @ [HvSync f (Inr ())] \<and>
    int (length (concat ws)) \<le> 9 \<and> True \<and> stored_of ex_artifact = \<lparr>itg_Size = int (length (concat ws)), itg_SHA256 = digest (concat ws)\<rparr> \<and>
    art_RawBytes ex_artifact = int (length ''data'') \<and>
    decodeOriginal ex_host (\<lambda>b. Some (drop 2 b, True, [])) (concat ws) 4 (stored_of ex_artifact) (raw_of_artifact ex_artifact) (art_Compression ex_artifact) =
      andthen (h_ctx ex_host) (\<lambda>_. andthen (h_append ex_host 4 ''data'') (\<lambda>_. h_sync ex_host 4))"
  by (rule spool_decodes[OF _ ex_spooled]) (simp_all add: ex_spool_def)

section \<open>The relocation of WAL\<close>

lemma keep_bundle_moved: "ct.emits (\<lambda>e. \<not> is_replace e) (bundle_moved (hrecorded H) pgdata target a expected)"
  unfolding bundle_moved_def by (auto intro!: keep_intros split: prod.splits)

lemma mkdirs_quiet: "quiet (each (h_mkdirAll (hrecorded H) target) ds)"
  unfolding quiet_def by (auto intro!: ct.emits_rules emits_pass_call)

text \<open>What happened before a WAL directory may be replaced.\<close>

definition moved :: "string \<Rightarrow> string \<Rightarrow> archive_inventory \<Rightarrow> (string \<times> integrity) list \<Rightarrow> host_event list \<Rightarrow> bool" where
  "moved pgdata target a expected tr \<longleftrightarrow> (\<exists>c b es. tr = c @ b @ HvWalk target (es, None) # map (\<lambda>d. HvSyncDir d (Inr ())) (rev (tree_dirs es) @ [path_dir target]) \<and>
     copies pgdata target (ai_files a) c \<and> (\<forall>(name, i) \<in> set expected. \<exists>d. HvRead (target @ ''/'' @ name) (Inr (d, True)) \<in> set b \<and> itg_SHA256 i = digest d))"

lemma bundle_moved_run:
  assumes "bundle_moved (hrecorded H) pgdata target a expected (w, []) = (Inr (), (w', tr))"
  shows "moved pgdata target a expected tr"
proof -
  obtain s1 s2 s3 s4 s5 dirs res where
    "snd s1 = []" "each (copy_wal (hrecorded H) pgdata target) (ai_files a) s1 = (Inr (), s2)" "each (h_mkdirAll (hrecorded H) target) dirs s2 = (Inr (), s3)"
    "bundleIntegrity (hrecorded H) target a s3 = (Inr res, s4)" "set res = set expected" "syncRestoreTree (hrecorded H) target s4 = (Inr (), s5)" "tr = snd s5"
    using assms unfolding bundle_moved_def by (auto simp: rec_runs)
  with copies_run[OF this(2)] quietD[OF mkdirs_quiet this(3)] bundle_run[OF this(4)] syncTree_run[OF this(6)] show ?thesis
    unfolding moved_def by fastforce
qed

text \<open>C23. The WAL directory of a restored cluster is replaced by a link only after all of its files are safe on the other
  volume: for every outcome of every call, either nothing was replaced, or every file of the bundle had been read, written with
  its exact size to a new file, synced and closed, every segment had then been read back from the target with the digest
  measured before, and every directory of the target and its parent had been synced; only then the old directory was removed,
  once, and the link made.\<close>
theorem relocate_after_copy:
  "case relocateRestoreWAL (hrecorded H) pgdata target a expected (w, []) of (r, (w', tr)) \<Rightarrow>
     (\<exists>e. r = Inl e \<and> list_all (\<lambda>ev. \<not> is_replace ev) tr) \<or>
     (\<exists>before q. moved pgdata target a expected before \<and> list_all (\<lambda>ev. \<not> is_replace ev) before \<and>
        (case q of Inl e \<Rightarrow> r = Inl e \<and> tr = before @ [HvReplace pgdata ''pg_wal'' q] | Inr _ \<Rightarrow> tr = before @ [HvReplace pgdata ''pg_wal'' q, HvLink pgdata target ''pg_wal'' r]))"
proof -
  obtain r1 w1 tr1 where b: "bundle_moved (hrecorded H) pgdata target a expected (w, []) = (r1, (w1, tr1))" by (metis prod.exhaust)
  have k: "list_all (\<lambda>ev. \<not> is_replace ev) tr1" using ct.emitsD[OF keep_bundle_moved b] by auto
  show ?thesis
  proof (cases r1)
    case (Inl e)
    then show ?thesis using b k by (simp add: relocateRestoreWAL_def andthen_def attempt_def fail_def)
  next
    case (Inr u)
    then have m: "moved pgdata target a expected tr1" using bundle_moved_run b by simp
    obtain q w2 where q: "h_rootRemoveAll H pgdata ''pg_wal'' w1 = (q, w2)" by (metis prod.exhaust)
    obtain z w3 where z: "h_symlink H pgdata target ''pg_wal'' w2 = (z, w3)" by (metis prod.exhaust)
    have "case relocateRestoreWAL (hrecorded H) pgdata target a expected (w, []) of (r, (w', tr)) \<Rightarrow>
        (case q of Inl e \<Rightarrow> r = Inl e \<and> tr = tr1 @ [HvReplace pgdata ''pg_wal'' q] | Inr _ \<Rightarrow> tr = tr1 @ [HvReplace pgdata ''pg_wal'' q, HvLink pgdata target ''pg_wal'' r])"
      using q z by (cases q) (auto simp: relocateRestoreWAL_def andthen_def attempt_def fail_def b Inr log_call_def)
    then show ?thesis using m k by (simp only: case_prod_beta) blast
  qed
qed

section \<open>The tools of a restore\<close>

text \<open>C22. A restore runs a fixed sequence of native tools: the four version checks; for every original of the chain its control data,
  \<open>pg_verifybackup\<close> over the downloaded archives and \<open>pg_waldump\<close> over exactly the range of its commit; then, for a full,
  the verification of the extracted cluster and its WAL, and for a differential the verification of both extracted inputs, one
  \<open>pg_combinebackup\<close> of the full and the differential, and the verification of the result and its WAL. A successful restore ran
  all of them with these arguments; any other ran a prefix.\<close>
theorem RestoreFull_tools:
  "case RestoreFull (hrecorded H) (crecorded C) gunz untar (rrecorded R) p n budgets l (w, []) of (r, (w', tr)) \<Rightarrow>
     \<exists>scratch. prefix (tool_runs tr) (restore_runs scratch p l) \<and> (case r of Inr _ \<Rightarrow> tool_runs tr = restore_runs scratch p l | Inl _ \<Rightarrow> True)"
proof -
  obtain r w' tr where run: "RestoreFull (hrecorded H) (crecorded C) gunz untar (rrecorded R) p n budgets l (w, []) = (r, (w', tr))" by (metis prod.exhaust)
  show ?thesis
  proof (cases "Plan_Validate p")
    case (Inl e)
    then show ?thesis using run by (auto simp: RestoreFull_def andthen_def attempt_def lift_def fail_def tool_runs_def map_filter_def)
  next
    case (Inr u)
    then have ch: "pln_Chain p \<noteq> []" "length (pln_Chain p) \<le> 2" by (auto simp: Plan_Validate_def plan_sizes_ok_def split: if_splits)
    from restores_RestoreFull[OF ch, of l H C gunz untar R n budgets] run
    have "\<exists>scratch ev. tool_runs (snd (w', tr)) = tool_runs (snd (w, [])) @ ev \<and> prefix ev (restore_runs scratch p l) \<and>
        (case r of Inr _ \<Rightarrow> ev = restore_runs scratch p l | Inl _ \<Rightarrow> True)" unfolding restores_def by blast
    moreover have "tool_runs [] = []" by (simp add: tool_runs_def map_filter_def)
    ultimately show ?thesis using run by simp
  qed
qed

section \<open>Commands\<close>

text \<open>C25. A native command never outlives its call. When \<open>runNative\<close> returns and the command had been started, it was waited for, its
  process group killed, and \<open>wait4\<close> called until the kernel answered that no child is left; only then the output (at most a
  mebibyte) is returned, and any other answer of the kernel is reported as an uncertain drain. It fails to return only when the
  kernel never stops reporting children.\<close>
theorem runNative_drains:
  "case runNative (precorded P) env exe args (w, []) of
     None \<Rightarrow> \<exists>pid w1 w2. pr_subreaper P w = (Inr (), w1) \<and> pr_start P env exe args w1 = (Inr pid, w2) \<and> (\<forall>n. \<not> childless P pid n (after_kill P pid w2))
   | Some (r, (w', tr)) \<Rightarrow> owned_run env exe args r tr \<or> (\<exists>e q. r = Inl e \<and> (tr = [PvSubreaper q] \<or> (\<exists>x. tr = [PvSubreaper q, PvStart env exe args (Inl x)])))"
proof -
  obtain q w1 where q: "pr_subreaper P w = (q, w1)" by (metis prod.exhaust)
  obtain z w2 where z: "pr_start P env exe args w1 = (z, w2)" by (metis prod.exhaust)
  show ?thesis
  proof (cases q)
    case (Inl e)
    then show ?thesis using q by (simp add: runNative_def precorded_fields log_call_def)
  next
    case (Inr u)
    show ?thesis
    proof (cases z)
      case (Inl e)
      then show ?thesis using q z \<open>q = Inr u\<close> by (simp add: runNative_def precorded_fields log_call_def)
    next
      case (Inr pid)
      then have "runNative (precorded P) env exe args (w, []) = run_started (precorded P) pid (w2, [PvSubreaper (Inr ()), PvStart env exe args (Inr pid)])"
        using q z \<open>q = Inr u\<close> by (simp add: runNative_def precorded_fields log_call_def)
      then show ?thesis using run_started_outcome[where P = P and pid = pid and w = w2 and env = env and exe = exe and args = args] q z Inr \<open>q = Inr u\<close>
        by (auto split: option.splits)
    qed
  qed
qed

section \<open>The workspace\<close>

text \<open>C26. The workspace is reset only by its owner: whatever the calls answer, the native directory is removed and made anew only
  after the lock file was found to be the private single-linked regular file of this user, the lock was taken, and the
  owner file names this pod, or there was neither owner nor directory and the name has been written and synced. The lock is
  returned exactly when all of that succeeded, and closed on every failure after the removal.\<close>
theorem acquireWorkspace_owned:
  "case acquireWorkspaceAt (krecorded K) directory pod (w, []) of (r, (w', tr)) \<Rightarrow>
     (\<exists>e. r = Inl e) \<and> list_all (\<lambda>e. \<not> is_removal e) tr \<or>
     (case r of Inr f \<Rightarrow> owned_reset pod f (Inr ()) tr | Inl e \<Rightarrow> \<exists>f ev z. tr = ev @ [WvClose f z] \<and> owned_reset pod f (Inl e) ev)"
proof -
  note k = acquireWorkspaceAt_def[of "krecorded K" directory pod]
  show ?thesis
  proof (cases "pod = [] \<or> length pod > 128 \<or> (\<exists>e w1. wk_root K directory w = (Inl e, w1)) \<or> (\<exists>w1 e w2. wk_root K directory w = (Inr (), w1) \<and> wk_lockFile K w1 = (Inl e, w2))")
    case True
    then show ?thesis unfolding k by (auto simp: fail_def andthen_def attempt_def pass_call_def)
  next
    case False
    obtain a w1 where a: "wk_root K directory w = (a, w1)" by (metis prod.exhaust)
    obtain b w2 where b: "wk_lockFile K w1 = (b, w2)" by (metis prod.exhaust)
    obtain f where f: "a = Inr ()" "b = Inr f" using False a b by (cases a; cases b) auto
    obtain r w3 tr where r: "own_workspace (krecorded K) pod f (w2, []) = (r, (w3, tr))" by (metis prod.exhaust)
    obtain z w4 where z: "wk_close K f w3 = (z, w4)" by (metis prod.exhaust)
    from locked_run[OF r] show ?thesis unfolding k using False a b f r z
      by (cases r) (auto simp: fail_def andthen_def attempt_def pass_call_def log_call_def ret_def)
  qed
qed


section \<open>The label query\<close>

text \<open>C27. Nothing captured reaches the syntax of the label query: the query is a fixed text, into which only the two times in decimal
  and, inside string literals, the hexadecimal forms of the zone, the configuration time and the label are placed; each literal is
  opened and closed by the fixed text, has no character but hexadecimal digits, and decodes to the original bytes.\<close>
theorem labelTimeQuery_literals:
  "case labelTimeQuery label began stopped zone loaded of
     Inl e \<Rightarrow> e = ErrInput
   | Inr q \<Rightarrow> (\<exists>t0 t1. q = query_head t0 t1 @ quoted_hex zone @ query_loaded @ quoted_hex loaded @ query_label @ quoted_hex label @ query_tail \<and>
       even (quotes (query_head t0 t1)) \<and> even (quotes query_loaded) \<and> even (quotes query_label) \<and> even (quotes query_tail) \<and>
       list_all (\<lambda>s. list_all lower_hex (hex_encode (map of_char s)) \<and> hex_decode (hex_encode (map of_char s)) = Some (map of_char s)) [zone, loaded, label])"
  using head_quotes frame_quotes hex_text hex_round
  by (auto simp: labelTimeQuery_def label_query_text split: sum.splits)

end
