(* ===== verification/Plugin_Cluster.thy ===== *)
theory Plugin_Cluster
  imports Pg_Capture Guard_Config Recovery_Files Guard_Admission
begin

text \<open>
  The Cluster definition as the plugin reads it (cnpgi/cluster.go), the recovery target and the reduced
  definition of a restore (recovery_plan.go), the capacity budgets and names of a placement (capacity.go,
  collisions.go) and the retention workspace (retention_workspace.go); then the durable plan of a restore with its
  guard identity (recovery_plan.go): validation, the plan file, the paths of WAL files (the path checks of wal.go) and the
  configuration PostgreSQL is started with. Parsing and printing of a definition go
  through Kubernetes' own object types; they are the fields of \<open>cluster_env\<close>, with its name check.
\<close>

section \<open>The definition\<close>

definition DatabaseDigest :: string where
  "DatabaseDigest = ''sha256:de8dc8b70c7f26b6d353cc64b67d38037b9a94592ba8b789ca4d6f44762d6fa4''"

definition PluginName :: string where
  "PluginName = ''cnpg-backup.djosh34.github.io''"

record plugin =
  plg_Name :: string
  plg_IsWALArchiver :: bool
  plg_Parameters :: metadata

text \<open>What the code reads of \<open>meta.ObjectMeta\<close>; \<open>om_Other\<close> are the members it never reads.\<close>

record object_meta =
  om_Name :: string
  om_Namespace :: string
  om_UID :: string
  om_Annotations :: metadata
  om_Other :: "(string \<times> json) list"

record tablespace_spec =
  tbs_Name :: string
  tbs_Size :: string

record recovery_spec =
  rcs_Source :: string
  rcs_RecoveryTarget :: "(string \<times> json) list"

record external_cluster =
  ext_Name :: string
  ext_Plugin :: "plugin option"

record cluster_spec =
  cs_ImageName :: string
  cs_StorageSize :: string
  cs_Parameters :: metadata
  cs_PostgresUID :: int
  cs_PostgresGID :: int
  cs_Plugins :: "plugin list"
  cs_Replica :: bytes
  cs_WALStorage :: bytes
  cs_Tablespaces :: "tablespace_spec list"
  cs_Recovery :: "recovery_spec option"
  cs_ExternalClusters :: "external_cluster list"
  cs_ReplicationTLSSecret :: string
  cs_ServerCASecret :: string
  cs_ClientCASecret :: string

record cluster =
  cl_APIVersion :: string
  cl_Kind :: string
  cl_Metadata :: object_meta
  cl_Spec :: cluster_spec

text \<open>\<open>cle_parse\<close> and \<open>cle_text\<close> are \<open>json.Unmarshal\<close> and \<open>json.Marshal\<close> of a \<open>Cluster\<close>, \<open>cle_bootstrap\<close> is
  \<open>json.Marshal\<close> of its bootstrap section, \<open>cle_dns\<close> whether \<open>validation.IsDNS1123Subdomain\<close> finds no fault.\<close>

record cluster_env =
  cle_parse :: "bytes \<Rightarrow> cluster option"
  cle_text :: "cluster \<Rightarrow> bytes"
  cle_bootstrap :: "recovery_spec option \<Rightarrow> bytes"
  cle_dns :: "string \<Rightarrow> bool"

definition default_ids :: "cluster_spec \<Rightarrow> cluster_spec" where
  "default_ids s = s\<lparr>cs_PostgresUID := (if cs_PostgresUID s = 0 then 26 else cs_PostgresUID s),
     cs_PostgresGID := (if cs_PostgresGID s = 0 then 26 else cs_PostgresGID s)\<rparr>"

definition ParseCluster :: "cluster_env \<Rightarrow> bytes \<Rightarrow> err + cluster" where
  "ParseCluster K data = (case (if int (length data) > 1048576 then None else cle_parse K data) of
     None \<Rightarrow> Inl (PlainErr ''invalid CNPG Cluster definition'')
   | Some c \<Rightarrow>
      if cl_APIVersion c \<noteq> ''postgresql.cnpg.io/v1'' \<or> cl_Kind c \<noteq> ''Cluster'' \<or> \<not> cle_dns K (om_Name (cl_Metadata c)) \<or>
         om_Name (cl_Metadata c) = [] \<or> om_Namespace (cl_Metadata c) = [] then Inl (PlainErr ''invalid CNPG Cluster definition'')
      else Inr (c\<lparr>cl_Spec := default_ids (cl_Spec c)\<rparr>))"

section \<open>Names and targets\<close>

definition replace_name_char :: "char \<Rightarrow> char" where
  "replace_name_char ch = (if ch = CHR ''_'' \<or> ch = CHR ''$'' then CHR ''-'' else ch)"

text \<open>\<open>strings.ToLower\<close> is that of ASCII here: a name with any other letter is refused beside it.\<close>

definition tablespaceVolume :: "string \<Rightarrow> string" where
  "tablespaceVolume name = ''tbs-'' @ to_lower (map replace_name_char (if has_prefix name ''_'' then CHR ''1'' # drop 1 name else name))"

definition letter :: "char \<Rightarrow> bool" where
  "letter ch \<longleftrightarrow> (let n = of_char ch :: nat in (65 \<le> n \<and> n \<le> 90) \<or> (97 \<le> n \<and> n \<le> 122))"

text \<open>\<open>^[A-Za-z_][A-Za-z0-9_$]{0,62}$\<close>.\<close>

definition tablespace_name_ok :: "string \<Rightarrow> bool" where
  "tablespace_name_ok name \<longleftrightarrow> name \<noteq> [] \<and> length name \<le> 63 \<and> (letter (hd name) \<or> hd name = CHR ''_'') \<and>
     list_all (\<lambda>ch. letter ch \<or> is_digit 10 ch \<or> ch = CHR ''_'' \<or> ch = CHR ''$'') (drop 1 name)"

definition check_tablespace :: "tablespace_spec \<Rightarrow> string list \<Rightarrow> err + string list" where
  "check_tablespace t seen = (let name = tablespaceVolume (tbs_Name t) in
     if \<not> tablespace_name_ok (tbs_Name t) \<or> name \<in> set seen then Inl (PlainErr ''unsupported or colliding managed tablespace name'')
     else Inr (name # seen))"

text \<open>One member of the target, as the iteration over the map meets it.\<close>

definition target_kind :: "string \<Rightarrow> string option" where
  "target_kind k = map_of [(''targetTime'', ''time''), (''targetLSN'', ''lsn''), (''targetName'', ''name''), (''targetXID'', ''xid'')] k"

definition target_member :: "string \<times> json \<Rightarrow> target \<Rightarrow> err + target" where
  "target_member = (\<lambda>(k, v) t.
     if k = ''exclusive'' then (case v of JBool b \<Rightarrow> Inr (t\<lparr>tgt_Exclusive := b\<rparr>) | _ \<Rightarrow> Inl ErrInvalid)
     else if k = ''backupID'' then (case v of JStr s \<Rightarrow> if s = [] then Inl ErrInvalid else Inr (t\<lparr>tgt_BackupUID := Some s\<rparr>) | _ \<Rightarrow> Inl ErrInvalid)
     else if k = ''targetTLI'' then (case v of
         JStr s \<Rightarrow> (case parse_uint 10 32 s of
             None \<Rightarrow> Inl ErrInvalid
           | Some n \<Rightarrow> if n = 0 \<or> format_uint n \<noteq> s then Inl ErrInvalid else Inr (t\<lparr>tgt_Timeline := of_int n\<rparr>))
       | _ \<Rightarrow> Inl ErrInvalid)
     else if k = ''targetImmediate'' then (case v of
         JBool b \<Rightarrow> if \<not> b then Inr t else if tgt_Kind t \<noteq> ''latest'' then Inl ErrInvalid else Inr (t\<lparr>tgt_Kind := ''immediate''\<rparr>)
       | _ \<Rightarrow> Inl ErrInvalid)
     else case target_kind k of
       None \<Rightarrow> Inl ErrInvalid
     | Some kind \<Rightarrow> (case v of
         JStr s \<Rightarrow> if s = [] \<or> tgt_Kind t \<noteq> ''latest'' then Inl ErrInvalid else Inr (t\<lparr>tgt_Kind := kind, tgt_Value := s\<rparr>)
       | _ \<Rightarrow> Inl ErrInvalid))"

definition latest_target :: target where
  "latest_target = \<lparr>tgt_Kind = ''latest'', tgt_Value = [], tgt_Exclusive = False, tgt_BackupUID = None, tgt_Timeline = 0\<rparr>"

definition recoveryTarget :: "(string \<times> json) list \<Rightarrow> err + target" where
  "recoveryTarget members =
     res_bind (fold_res target_member members latest_target) (\<lambda>t.
     res_bind (Target_validate (if tgt_Timeline t = 0 then t\<lparr>tgt_Timeline := 1\<rparr> else t)) (\<lambda>_. Inr t))"

section \<open>Repositories\<close>

definition unsupported :: err where
  "unsupported = PlainErr ''unsupported Cluster plugin configuration''"

definition wal_settings_ok :: "metadata \<Rightarrow> bool" where
  "wal_settings_ok p \<longleftrightarrow> meta_get p ''wal_level'' \<in> {[], ''replica'', ''logical''} \<and> meta_get p ''full_page_writes'' \<in> {[], ''on''} \<and>
     meta_get p ''summarize_wal'' \<in> {[], ''on''}"

definition plugin_destination :: "plugin \<Rightarrow> string \<Rightarrow> err + string" where
  "plugin_destination p destination =
     (if plg_Name p \<noteq> PluginName then (if plg_IsWALArchiver p then Inl unsupported else Inr destination)
      else if destination \<noteq> [] \<or> length (plg_Parameters p) \<noteq> 1 \<or> meta_get (plg_Parameters p) ''repository'' = [] then Inl unsupported
      else Inr (meta_get (plg_Parameters p) ''repository''))"

text \<open>The plugin of an external cluster, when it is the recovery's source and this plugin.\<close>

definition source_plugin :: "recovery_spec \<Rightarrow> external_cluster \<Rightarrow> plugin option" where
  "source_plugin rc x = (case ext_Plugin x of
     None \<Rightarrow> None | Some p \<Rightarrow> if ext_Name x = rcs_Source rc \<and> plg_Name p = PluginName then Some p else None)"

definition external_source :: "recovery_spec \<Rightarrow> external_cluster \<Rightarrow> string \<Rightarrow> err + string" where
  "external_source rc x source = (case source_plugin rc x of
     None \<Rightarrow> Inr source
   | Some p \<Rightarrow> if source \<noteq> [] \<or> length (plg_Parameters p) \<noteq> 1 then Inl unsupported else Inr (meta_get (plg_Parameters p) ''repository''))"

definition recovery_source :: "cluster_spec \<Rightarrow> string \<Rightarrow> err + string" where
  "recovery_source s destination = (case cs_Recovery s of
     None \<Rightarrow> Inr []
   | Some rc \<Rightarrow> res_bind (fold_res (external_source rc) (cs_ExternalClusters s) []) (\<lambda>source.
       if source = [] \<or> source = destination then Inl unsupported
       else case recoveryTarget (rcs_RecoveryTarget rc) of Inl _ \<Rightarrow> Inl unsupported | Inr _ \<Rightarrow> Inr source))"

definition raw_present :: "bytes \<Rightarrow> bool" where
  "raw_present b \<longleftrightarrow> b \<noteq> [] \<and> b \<noteq> ''null''"

definition Repositories :: "cluster_env \<Rightarrow> cluster \<Rightarrow> err + string \<times> string" where
  "Repositories K c = (let s = cl_Spec c in
     if cs_PostgresUID s \<le> 0 \<or> cs_PostgresGID s \<le> 0 \<or> length (cs_Tablespaces s) > 64 \<or> raw_present (cs_Replica s) then Inl unsupported
     else if \<not> has_suffix (cs_ImageName s) (''@'' @ DatabaseDigest) then Inl (PlainErr ''initial support requires the pinned PostgreSQL18.6 image digest'')
     else res_bind (fold_res check_tablespace (cs_Tablespaces s) []) (\<lambda>_.
       if \<not> wal_settings_ok (cs_Parameters s) then Inl (PlainErr ''incompatible PostgreSQL WAL settings'')
       else res_bind (fold_res plugin_destination (cs_Plugins s) []) (\<lambda>destination.
         if destination = [] then Inl unsupported
         else res_bind (recovery_source s destination) (\<lambda>source.
           if \<not> list_all (\<lambda>name. name = [] \<or> cle_dns K name) [destination, source] then Inl unsupported
           else if meta_get (om_Annotations (cl_Metadata c)) ''cnpg.io/skipEmptyWalArchiveCheck'' \<noteq> [] then Inl unsupported
           else Inr (destination, source)))))"

section \<open>Identity\<close>

definition BootstrapFingerprint :: "cluster_env \<Rightarrow> cluster \<Rightarrow> string" where
  "BootstrapFingerprint K c = digest (cle_bootstrap K (cs_Recovery (cl_Spec c)))"

text \<open>\<open>id, _ :=\<close>: the empty string when the identity is refused.\<close>

definition OperationUID :: "cluster_env \<Rightarrow> cluster \<Rightarrow> string" where
  "OperationUID K c = (case RestoreOperationID (om_UID (cl_Metadata c)) (BootstrapFingerprint K c) of None \<Rightarrow> [] | Some x \<Rightarrow> x)"

definition ValidateBackup :: "string \<Rightarrow> metadata \<Rightarrow> err + unit" where
  "ValidateBackup tgt parameters =
     (if tgt \<noteq> ''primary'' \<or> length parameters \<noteq> 1 \<or> meta_get parameters ''backupType'' \<notin> {''full'', ''differential''}
      then Inl (PlainErr ''plugin backups require target primary and explicit backupType full or differential'') else Inr ())"

text \<open>The definition a restore keeps beside its plan: nothing that may hold a credential.\<close>

definition recoveryCluster :: "cluster \<Rightarrow> cluster" where
  "recoveryCluster c = (let m = cl_Metadata c; s = cl_Spec c in
     c\<lparr>cl_Metadata := \<lparr>om_Name = om_Name m, om_Namespace = om_Namespace m, om_UID = om_UID m, om_Annotations = [], om_Other = []\<rparr>,
       cl_Spec := s\<lparr>cs_ImageName := ''ghcr.io/cloudnative-pg/postgresql@'' @ DatabaseDigest,
         cs_Plugins := filter (\<lambda>p. plg_Name p = PluginName) (cs_Plugins s),
         cs_ExternalClusters := (case cs_Recovery s of None \<Rightarrow> [] | Some rc \<Rightarrow> filter (\<lambda>x. source_plugin rc x \<noteq> None) (cs_ExternalClusters s)),
         cs_Parameters := [],
         cs_WALStorage := (if raw_present (cs_WALStorage s) then ''{}'' else cs_WALStorage s),
         cs_ReplicationTLSSecret := [], cs_ServerCASecret := [], cs_ClientCASecret := []\<rparr>\<rparr>)"

section \<open>Capacity of a placement\<close>

text \<open>\<open>json.Unmarshal\<close> into a struct with one string member: other members are skipped.\<close>

definition size_member :: "json \<Rightarrow> string option" where
  "size_member j = (case j of
     JNull \<Rightarrow> Some []
   | JObj ms \<Rightarrow> fold (\<lambda>(k, v) acc. Option.bind acc (\<lambda>a. if json_fold k \<noteq> ''SIZE'' \<or> v = JNull then Some a else dec_str v)) ms (Some [])
   | _ \<Rightarrow> None)"

definition add_budget :: "'q config_env \<Rightarrow> string \<times> string \<Rightarrow> fs_budget list \<Rightarrow> err + fs_budget list" where
  "add_budget E = (\<lambda>(path, sz) acc. case ce_quantity E sz of
     None \<Rightarrow> Inl (PlainErr ''each target requires an explicit supported finite capacity'')
   | Some q \<Rightarrow> if ce_value E q < GiB \<or> ce_value E q > 8192 * GiB then Inl (PlainErr ''each target requires an explicit supported finite capacity'')
       else Inr (acc @ [\<lparr>fb_Mount = path, fb_LimitBytes = ce_value E q, fb_RequiredBytes = 0\<rparr>]))"

definition wal_volume :: "cluster_spec \<Rightarrow> err + (string \<times> string) list" where
  "wal_volume s = (if \<not> raw_present (cs_WALStorage s) then Inr []
     else case dec_bytes size_member (cs_WALStorage s) of
       None \<Rightarrow> Inl (PlainErr ''invalid WAL storage'')
     | Some sz \<Rightarrow> Inr [(''/var/lib/postgresql/wal'', sz)])"

definition placementCapacity :: "'q config_env \<Rightarrow> cluster \<Rightarrow> 'q repo_spec \<Rightarrow> err + fs_budget list" where
  "placementCapacity E c sp = (let s = cl_Spec c in
     res_bind (fold_res (add_budget E) [(''/cnpg-backup/work'', ws_Size (sp_Workspace sp)), (''/var/lib/postgresql/data'', cs_StorageSize s)] []) (\<lambda>acc.
     res_bind (wal_volume s) (\<lambda>wal.
     res_bind (fold_res (add_budget E) wal acc) (\<lambda>acc.
     fold_res (add_budget E) (map (\<lambda>t. (''/var/lib/postgresql/tablespaces/'' @ tbs_Name t, tbs_Size t)) (cs_Tablespaces s)) acc))))"

definition CheckMountedCapacity :: "'w proj_sys \<Rightarrow> 'w cap_sys \<Rightarrow> ('w, unit) act" where
  "CheckMountedCapacity P C = andthen (LoadCapacity P dec_budgets ''/cnpg-backup/projection'') (CheckCapacity C)"

section \<open>Collisions\<close>

text \<open>What the code reads of a container and of a Pod specification here: names and mount paths.\<close>

definition uniquePlacementNames :: "string list \<Rightarrow> (string \<times> string list) list \<Rightarrow> (string \<times> string list) list \<Rightarrow> err + unit" where
  "uniquePlacementNames volumes containers inits =
     res_bind (fold_res (\<lambda>v seen. if v \<in> set seen then Inl (PlainErr ''duplicate volume name'') else Inr (v # seen)) volumes []) (\<lambda>_.
     res_bind (fold_res (\<lambda>(name, paths) seen.
        if name \<in> set seen then Inl (PlainErr ''duplicate container name'')
        else res_bind (fold_res (\<lambda>p ps. if p \<in> set ps then Inl (PlainErr ''duplicate mount path'') else Inr (p # ps)) paths []) (\<lambda>_. Inr (name # seen)))
        (containers @ inits) []) (\<lambda>_. Inr ()))"

section \<open>The retention workspace\<close>

definition retentionWorkspacePath :: string where
  "retentionWorkspacePath = ''/cnpg-backup/retention''"

definition retentionMountBytes :: int where
  "retentionMountBytes = 536870912"

definition GCWorkspaceBytes :: int where
  "GCWorkspaceBytes = 402653184"

text \<open>What the callback of the walk is given: an error, an entry without attributes, or its size and whether it is a
  directory or a regular file.\<close>

datatype walk_entry = WalkFailed | NoInfo | Entry int bool

definition count_entry :: "walk_entry \<Rightarrow> int \<times> int \<Rightarrow> err + int \<times> int" where
  "count_entry x = (\<lambda>(used, entries).
     if x = WalkFailed then Inl OsErr
     else if entries + 1 > 1024 then Inl ErrCapacity
     else case x of
       Entry sz regular \<Rightarrow>
         if \<not> regular then Inl ErrInvalid
         else let used = s64 (used + s64 (sz + 8192)) in
           if used > retentionMountBytes - GCWorkspaceBytes then Inl ErrCapacity else Inr (used, entries + 1)
     | _ \<Rightarrow> Inl OsErr)"

record 'w scratch_sys =
  ss_statfs :: "string \<Rightarrow> ('w, statfs) act"
  ss_walk :: "string \<Rightarrow> 'w \<Rightarrow> walk_entry list \<times> 'w"
  ss_temp :: "string \<Rightarrow> string \<Rightarrow> ('w, string) act"

definition newRetentionWorkspace :: "'w scratch_sys \<Rightarrow> string \<Rightarrow> ('w, string) act" where
  "newRetentionWorkspace R root =
     andthen (ss_statfs R root) (\<lambda>st.
     if sf_Bsize st \<le> 0 \<or> sf_Bavail st < GCWorkspaceBytes div sf_Bsize st + 1 then fail ErrCapacity
     else andthen (\<lambda>w. case ss_walk R root w of (es, w') \<Rightarrow> (fold_res count_entry es (0, 0), w')) (\<lambda>_. ss_temp R root ''batch-''))"

section \<open>Paths\<close>

definition pgdataPath :: string where
  "pgdataPath = ''/var/lib/postgresql/data/pgdata''"

definition pgdataWAL :: string where
  "pgdataWAL = pgdataPath @ ''/pg_wal''"

definition walVolume :: string where
  "walVolume = ''/var/lib/postgresql/wal/pg_wal''"

definition workspacePath :: string where
  "workspacePath = ''/cnpg-backup/work''"

definition projectionPath :: string where
  "projectionPath = ''/cnpg-backup/projection''"

definition helperPlanPath :: string where
  "helperPlanPath = ''/cnpg-backup/state/recovery.json''"

definition recoveryDirectory :: "string \<Rightarrow> string" where
  "recoveryDirectory operation = ''/var/lib/postgresql/data/.cnpg-backup/'' @ operation"

definition physicalWAL :: "cluster \<Rightarrow> string" where
  "physicalWAL c = (if raw_present (cs_WALStorage (cl_Spec c)) then walVolume else pgdataWAL)"

record wal_placement =
  wp_ClusterUID :: string
  wp_Namespace :: string
  wp_Cluster :: string
  wp_Repository :: string
  wp_WALDirectory :: string

definition zero_placement :: wal_placement where
  "zero_placement = \<lparr>wp_ClusterUID = [], wp_Namespace = [], wp_Cluster = [], wp_Repository = [], wp_WALDirectory = []\<rparr>"

definition dec_WALPlacement :: "json \<Rightarrow> wal_placement option" where
  "dec_WALPlacement = dec_into
     [(''clusterUID'', into dec_str (\<lambda>v p. p\<lparr>wp_ClusterUID := v\<rparr>)), (''namespace'', into dec_str (\<lambda>v p. p\<lparr>wp_Namespace := v\<rparr>)),
      (''cluster'', into dec_str (\<lambda>v p. p\<lparr>wp_Cluster := v\<rparr>)), (''repository'', into dec_str (\<lambda>v p. p\<lparr>wp_Repository := v\<rparr>)),
      (''walDirectory'', into dec_str (\<lambda>v p. p\<lparr>wp_WALDirectory := v\<rparr>))] zero_placement"

definition walBasename :: "string \<Rightarrow> wal_placement \<Rightarrow> err + string" where
  "walBasename path p =
     (if \<not> IsAbs path \<or> Clean path \<noteq> path then Inl WALInvalid
      else if path_dir path \<noteq> pgdataWAL \<and> path_dir path \<noteq> wp_WALDirectory p then Inl WALInvalid
      else if wp_WALDirectory p \<noteq> pgdataWAL \<and> wp_WALDirectory p \<noteq> walVolume then Inl WALInvalid
      else Inr (path_base path))"

text \<open>The checks on a parsed definition; \<open>restore\<close> takes the name from the request, archiving from the path.\<close>

definition wal_names_ok :: "cluster_env \<Rightarrow> cluster \<Rightarrow> string \<Rightarrow> string \<Rightarrow> bool \<Rightarrow> err + unit" where
  "wal_names_ok K c path source restore = (case Repositories K c of
     Inl _ \<Rightarrow> Inl WALInvalid
   | Inr _ \<Rightarrow> res_bind (walBasename path (zero_placement\<lparr>wp_WALDirectory := physicalWAL c\<rparr>)) (\<lambda>name.
       let source = (if restore then source else name) in
       if \<not> ValidWALFilename source then Inl WALInvalid
       else if restore \<and> name \<noteq> source \<and> name \<noteq> ''RECOVERYXLOG'' \<and> name \<noteq> ''RECOVERYHISTORY'' then Inl WALInvalid
       else Inr ()))"

definition validateWALPaths :: "cluster_env \<Rightarrow> bytes \<Rightarrow> string \<Rightarrow> string \<Rightarrow> bool \<Rightarrow> err + unit" where
  "validateWALPaths K data path source restore = (case ParseCluster K data of
     Inl _ \<Rightarrow> Inl WALInvalid | Inr c \<Rightarrow> wal_names_ok K c path source restore)"

definition recoveryDestination :: "cluster_env \<Rightarrow> cluster \<Rightarrow> string \<Rightarrow> string \<Rightarrow> err + string" where
  "recoveryDestination K c name destination =
     (if \<not> ValidWALFilename name then Inl ErrInvalid
      else let destination = (if has_prefix destination ''pg_wal/'' then pgdataPath @ ''/'' @ destination else destination) in
        res_bind (validateWALPaths K (cle_text K c) destination name True) (\<lambda>_. Inr (path_base destination)))"

definition restoreConfig :: "u32 \<Rightarrow> string" where
  "restoreConfig timeline =
     ''restore_command = '' @ [CHR 0x27] @ ''exec /cnpg-backup/bin/cnpg-backup wal-fetch --plan /cnpg-backup/state/recovery.json -- '' @
     [CHR 0x22] @ ''%f'' @ [CHR 0x22, CHR '' '', CHR 0x22] @ ''%p'' @ [CHR 0x22, CHR 0x27, CHR 0x0a] @
     ''recovery_target_action = '' @ [CHR 0x27] @ ''promote'' @ [CHR 0x27, CHR 0x0a] @
     ''recovery_target_timeline = '' @ [CHR 0x27] @ format_uint (uint timeline) @ [CHR 0x27, CHR 0x0a]"

section \<open>The plan\<close>

record recovery_plan =
  rpl_Plan :: plan
  rpl_Tuple :: rg_tuple
  rpl_ClusterDefinition :: bytes
  rpl_Bundled :: "(string \<times> integrity) list"
  rpl_Materialized :: bool

record recovery_placement =
  rpp_ClusterUID :: string
  rpp_Namespace :: string
  rpp_Cluster :: string
  rpp_OperationID :: string
  rpp_BootstrapSHA256 :: string
  rpp_Source :: string
  rpp_Destination :: string
  rpp_SourceConfigSHA256 :: string
  rpp_DestinationConfigSHA256 :: string

definition dec_RecoveryPlacement :: "json \<Rightarrow> recovery_placement option" where
  "dec_RecoveryPlacement = dec_into
     [(''clusterUID'', into dec_str (\<lambda>v p. p\<lparr>rpp_ClusterUID := v\<rparr>)), (''namespace'', into dec_str (\<lambda>v p. p\<lparr>rpp_Namespace := v\<rparr>)),
      (''cluster'', into dec_str (\<lambda>v p. p\<lparr>rpp_Cluster := v\<rparr>)), (''operationID'', into dec_str (\<lambda>v p. p\<lparr>rpp_OperationID := v\<rparr>)),
      (''bootstrapSHA256'', into dec_str (\<lambda>v p. p\<lparr>rpp_BootstrapSHA256 := v\<rparr>)), (''source'', into dec_str (\<lambda>v p. p\<lparr>rpp_Source := v\<rparr>)),
      (''destination'', into dec_str (\<lambda>v p. p\<lparr>rpp_Destination := v\<rparr>)), (''sourceConfigSHA256'', into dec_str (\<lambda>v p. p\<lparr>rpp_SourceConfigSHA256 := v\<rparr>)),
      (''destinationConfigSHA256'', into dec_str (\<lambda>v p. p\<lparr>rpp_DestinationConfigSHA256 := v\<rparr>))]
     \<lparr>rpp_ClusterUID = [], rpp_Namespace = [], rpp_Cluster = [], rpp_OperationID = [], rpp_BootstrapSHA256 = [], rpp_Source = [], rpp_Destination = [],
      rpp_SourceConfigSHA256 = [], rpp_DestinationConfigSHA256 = []\<rparr>"

definition bundled_ok :: "plan \<Rightarrow> string \<times> integrity \<Rightarrow> bool" where
  "bundled_ok p = (\<lambda>(name, v). (case Coverage p name of Inl _ \<Rightarrow> False | Inr _ \<Rightarrow> True) \<and> length name = 24 \<and>
     itg_Size v = idn_WALSegmentBytes (pln_Source p) \<and> hashValid (itg_SHA256 v))"

definition recovery_identity_ok :: "cluster_env \<Rightarrow> cluster \<Rightarrow> plan \<Rightarrow> bool" where
  "recovery_identity_ok K c p = (case Repositories K c of
     Inl _ \<Rightarrow> False
   | Inr (dst, src) \<Rightarrow> dst \<noteq> src \<and> cs_Recovery (cl_Spec c) \<noteq> None \<and> om_UID (cl_Metadata c) = pln_TargetClusterUID p \<and>
       OperationUID K c = pln_OperationID p \<and> BootstrapFingerprint K c = pln_BootstrapSHA256 p)"

text \<open>The target of the definition, with the plan's timeline when it names none.\<close>

definition bound_target :: "cluster \<Rightarrow> plan \<Rightarrow> err + target" where
  "bound_target c p = (case cs_Recovery (cl_Spec c) of
     None \<Rightarrow> Inl ErrIdentity
   | Some rc \<Rightarrow> res_bind (recoveryTarget (rcs_RecoveryTarget rc)) (\<lambda>t.
       Inr (if tgt_Timeline t = 0 then t\<lparr>tgt_Timeline := tgt_Timeline (pln_Target p)\<rparr> else t)))"

definition RecoveryPlan_validate :: "cluster_env \<Rightarrow> recovery_plan \<Rightarrow> err + unit" where
  "RecoveryPlan_validate K rp = (let p = rpl_Plan rp; owner = tup_Owner (rpl_Tuple rp) in
     if Plan_Validate p \<noteq> Inr () then Inl ErrInvalid
     else res_bind (ParseCluster K (rpl_ClusterDefinition rp)) (\<lambda>c.
       if cle_text K (recoveryCluster c) \<noteq> rpl_ClusterDefinition rp then Inl ErrInvalid
       else if \<not> recovery_identity_ok K c p then Inl ErrIdentity
       else res_bind (bound_target c p) (\<lambda>t.
         if t \<noteq> pln_Target p then Inl ErrIdentity
         else if Tuple_Validate (rpl_Tuple rp) \<noteq> Inr () \<or> gow_ClusterUID owner \<noteq> pln_TargetClusterUID p \<or> gow_OperationUID owner \<noteq> pln_OperationID p
           then Inl ErrIdentity
         else if int (length (rpl_Bundled rp)) > 262144 then Inl ErrCapacity
         else if rpl_Materialized rp \<and> rpl_Bundled rp = [] then Inl ErrCorrupt
         else if \<not> list_all (bundled_ok p) (rpl_Bundled rp) then Inl ErrCorrupt
         else Inr ())))"

section \<open>The plan file\<close>

definition recoveryPlanLimit :: int where
  "recoveryPlanLimit = 16777216"

definition enc_owner :: "rg_owner \<Rightarrow> json" where
  "enc_owner v = JObj [(''clusterUID'', JStr (gow_ClusterUID v)), (''operationUID'', JStr (gow_OperationUID v)), (''podUID'', JStr (gow_PodUID v)),
     (''guardUID'', JStr (gow_GuardUID v))]"

definition enc_tuple :: "rg_tuple \<Rightarrow> json" where
  "enc_tuple v = JObj [(''owner'', enc_owner (tup_Owner v)), (''sidecarUID'', JStr (tup_SidecarUID v))]"

definition enc_integrity :: "integrity \<Rightarrow> json" where
  "enc_integrity v = JObj [(''Size'', JNum (format_int (itg_Size v))), (''SHA256'', JStr (itg_SHA256 v))]"

text \<open>\<open>json.Marshal\<close> sorts the keys of the map. The definition is embedded as it is: a validated plan holds the
  printer's own output.\<close>

definition recovery_text :: "recovery_plan \<Rightarrow> bytes" where
  "recovery_text rp = ''{'' @ quote_json ''plan'' @ '':'' @ render (enc_Plan (rpl_Plan rp)) @ '','' @ quote_json ''tuple'' @ '':'' @ render (enc_tuple (rpl_Tuple rp)) @
     '','' @ quote_json ''cluster_definition'' @ '':'' @ rpl_ClusterDefinition rp @ '','' @ quote_json ''bundled'' @ '':'' @
     render (JObj (map (\<lambda>(k, v). (k, enc_integrity v)) (sort_slice (\<lambda>x y. fst x < fst y) (rpl_Bundled rp)))) @ '','' @
     quote_json ''materialized'' @ '':'' @ render (JBool (rpl_Materialized rp)) @ ''}''"

definition saveRecovery :: "cluster_env \<Rightarrow> string \<Rightarrow> recovery_plan \<Rightarrow> (dir, unit) act" where
  "saveRecovery K uuid rp = (let b = recovery_text rp; name = temp_name uuid in
     andthen (lift (RecoveryPlan_validate K rp)) (\<lambda>_.
     if int (length b) > recoveryPlanLimit then fail ErrCapacity
     else andthen try_op (\<lambda>_.
       andthen (create_file name) (\<lambda>_.
       finally_remove name (
         andthen (write_closed name b) (\<lambda>_.
         andthen (rename_file name plan_file) (\<lambda>_.
         andthen try_op (\<lambda>_. try_op))))))))"

text \<open>\<open>None\<close>: the file, or its directory, does not exist. \<open>dec\<close> is the typed decoder of \<open>RecoveryPlan\<close>.\<close>

definition readRecovery :: "cluster_env \<Rightarrow> (bytes \<Rightarrow> recovery_plan option) \<Rightarrow> (dir, recovery_plan option) act" where
  "readRecovery K dec =
     andthen try_op (\<lambda>_.
     andthen try_op (\<lambda>_ d. case dir_files d plan_file of
       None \<Rightarrow> (Inr None, d)
     | Some b \<Rightarrow>
        attempt try_op (\<lambda>st.
        if st \<noteq> Inr () \<or> int (length b) > recoveryPlanLimit then fail ErrInvalid
        else andthen try_op (\<lambda>_.
          andthen (lift (StrictJSONLimit dec b recoveryPlanLimit)) (\<lambda>rp.
          andthen (lift (RecoveryPlan_validate K rp)) (\<lambda>_. ret (Some rp))))) d))"

end
