(* ===== verification/Plugin_Wal.thy ===== *)
theory Plugin_Wal
  imports Plugin_Cluster Recovery Wal_Files Writer
begin

text \<open>
  The WAL callbacks (cnpgi/wal.go, recovery_wal.go, wal_fetch.go): opening an archive for one callback, archiving, restoring
  on a running instance, and restoring during a recovery, where an absent file may be an optional miss. The state of the
  restores is the world beside the WAL directory. Cancelling contexts and closing handles change nothing that is modelled.
\<close>

section \<open>The services' surroundings\<close>

text \<open>The bounded channels of the callbacks.\<close>

datatype call_slot = WalCallbacks | SingleWALData | CaptureSlot

text \<open>The surroundings of the packages the services call, with: \<open>ps_storage\<close> and \<open>ps_probe\<close>, the operations of an
  adapter and its capability check; \<open>ps_expired\<close>, whether the error of the context is that of its deadline; \<open>ps_take\<close>, a
  channel raced against the context; \<open>ps_source\<close>, a file of the WAL directory opened for reading; \<open>ps_ws\<close>, whether
  the workspace is an existing directory.\<close>

record ('w, 'q, 'c) plugin_sys =
  ps_proj :: "'w proj_sys"
  ps_trust :: "'c trust_env"
  ps_config :: "'q config_env"
  ps_decode :: "bytes \<Rightarrow> err + 'q repo_spec"
  ps_new :: new_env
  ps_host :: "'w host"
  ps_cap :: "'w cap_sys"
  ps_codec :: pg_codec
  ps_cluster :: cluster_env
  ps_storage :: "store \<Rightarrow> 'w sys"
  ps_probe :: "store \<Rightarrow> string \<Rightarrow> ('w, unit) act"
  ps_expired :: "'w \<Rightarrow> bool"
  ps_take :: "call_slot \<Rightarrow> 'w \<Rightarrow> bool \<times> 'w"
  ps_give :: "call_slot \<Rightarrow> 'w \<Rightarrow> 'w"
  ps_source :: "string \<Rightarrow> string \<Rightarrow> ('w, source) act"
  ps_locked :: bool
  ps_ws :: bool

definition acquire :: "('w, 'q, 'c) plugin_sys \<Rightarrow> call_slot \<Rightarrow> ('w, unit) act" where
  "acquire G c w = (case ps_take G c w of (taken, w') \<Rightarrow> (if taken then Inr () else Inl CtxErr, w'))"

text \<open>\<open>defer func() { <-slot }()\<close> after a successful send.\<close>

definition in_slot :: "('w, 'q, 'c) plugin_sys \<Rightarrow> call_slot \<Rightarrow> ('w, 'a) act \<Rightarrow> ('w, 'a) act" where
  "in_slot G c m = andthen (acquire G c) (\<lambda>_ w. case m w of (r, w') \<Rightarrow> (r, ps_give G c w'))"

definition in_slot_beside :: "('w, 'q, 'c) plugin_sys \<Rightarrow> call_slot \<Rightarrow> ('w \<times> 'd, 'a) act \<Rightarrow> ('w \<times> 'd, 'a) act" where
  "in_slot_beside G c m = andthen (on_world (acquire G c)) (\<lambda>_ s. case m s of (r, (w, d)) \<Rightarrow> (r, (ps_give G c w, d)))"

section \<open>Errors\<close>

text \<open>\<open>expired\<close> tells \<open>context.DeadlineExceeded\<close> from \<open>context.Canceled\<close>.\<close>

definition wal_code :: "bool \<Rightarrow> err \<Rightarrow> grpc_code" where
  "wal_code expired e =
     (if Is e NotFound then CodeNotFound
      else if e = WALInvalid then CodeInvalidArgument
      else if e = WALConflict then CodeAlreadyExists
      else if e = WALCorrupt \<or> Is e Corrupt then CodeDataLoss
      else if Is e Auth then CodePermissionDenied
      else if e = CtxErr \<and> expired then CodeDeadlineExceeded
      else if e = CtxErr \<or> Is e Canceled then CodeCanceled
      else if Is e Transient \<or> Is e TLS \<or> Is e Unknown then CodeUnavailable
      else if e = WALLocal \<or> Is e LocalIO then CodeResourceExhausted
      else CodeFailedPrecondition)"

definition walError :: "bool \<Rightarrow> err \<Rightarrow> err" where
  "walError expired e = StatusErr (wal_code expired e)"

definition answer :: "('w, 'q, 'c) plugin_sys \<Rightarrow> ('w, 'a) act \<Rightarrow> ('w, 'a) act" where
  "answer G m w = (case m w of (Inl e, w') \<Rightarrow> (Inl (walError (ps_expired G w') e), w') | (Inr x, w') \<Rightarrow> (Inr x, w'))"

definition answer_beside :: "('w, 'q, 'c) plugin_sys \<Rightarrow> ('w \<times> 'd, 'a) act \<Rightarrow> ('w \<times> 'd, 'a) act" where
  "answer_beside G m s = (case m s of (Inl e, (w, d)) \<Rightarrow> (Inl (walError (ps_expired G w) e), (w, d)) | (Inr x, s') \<Rightarrow> (Inr x, s'))"

section \<open>Opening an archive\<close>

definition validateWALRequest :: "cluster_env \<Rightarrow> cluster \<Rightarrow> wal_placement \<Rightarrow> err + unit" where
  "validateWALRequest K c p = (case Repositories K c of
     Inl _ \<Rightarrow> Inl WALInvalid
   | Inr (dst, _) \<Rightarrow> if om_UID (cl_Metadata c) \<noteq> wp_ClusterUID p \<or> om_Namespace (cl_Metadata c) \<noteq> wp_Namespace p \<or>
       om_Name (cl_Metadata c) \<noteq> wp_Cluster p \<or> dst \<noteq> wp_Repository p then Inl WALInvalid else Inr ())"

definition holds_wal :: "string \<Rightarrow> fs_budget \<Rightarrow> bool" where
  "holds_wal directory b \<longleftrightarrow> fb_Mount b = path_dir directory \<or> directory = pgdataWAL \<and> fb_Mount b = path_dir pgdataPath"

definition wal_budget :: "string \<Rightarrow> int \<Rightarrow> bool \<Rightarrow> fs_budget \<Rightarrow> fs_budget" where
  "wal_budget directory segmentBytes archive b = b\<lparr>fb_RequiredBytes :=
     (if holds_wal directory b \<and> \<not> archive then s64 (2 * segmentBytes + 16777216)
      else if fb_Mount b = workspacePath then s64 (6 * (segmentBytes + 1048576) + 16777216) else 0)\<rparr>"

text \<open>The budgets the loop leaves behind, when both filesystems are there.\<close>

definition walCapacity :: "fs_budget list \<Rightarrow> string \<Rightarrow> int \<Rightarrow> bool \<Rightarrow> err + fs_budget list" where
  "walCapacity budgets directory segmentBytes archive =
     (if \<not> list_ex (\<lambda>b. fb_Mount b = workspacePath) budgets \<or> \<not> list_ex (holds_wal directory) budgets then Inl WALInvalid
      else Inr (map (wal_budget directory segmentBytes archive) budgets))"

record wal_operation =
  wo_files :: wal_files
  wo_store :: store
  wo_placement :: wal_placement
  wo_single :: bool

definition read_strict :: "('w, 'q, 'c) plugin_sys \<Rightarrow> nat \<Rightarrow> string \<Rightarrow> (bytes \<Rightarrow> 'a option) \<Rightarrow> err \<Rightarrow> ('w, 'a) act" where
  "read_strict G root name dec e =
     andthen (Proj_Read (ps_proj G) root name 65536) (\<lambda>b. case StrictJSON dec b of Inl _ \<Rightarrow> fail e | Inr x \<Rightarrow> ret x)"

definition destination_identity :: "'q repo_spec \<Rightarrow> control \<Rightarrow> string \<Rightarrow> identity" where
  "destination_identity sp control writer = \<lparr>idn_Schema = 1, idn_RepositoryID = sp_RepositoryID sp, idn_PostgresMajor = 18,
     idn_SystemIdentifier = ctl_SystemIdentifier control, idn_WALSegmentBytes = ctl_WALSegmentBytes control, idn_WriterClusterUID = writer, idn_CreatedAt = []\<rparr>"

definition wal_control :: "('w, 'q, 'c) plugin_sys \<Rightarrow> nat \<Rightarrow> bool \<Rightarrow> ('w, control) act" where
  "wal_control G root archive =
     (if archive then CheckWAL (ps_host G) (ps_cap G) (ps_proj G) (ps_trust G) (ps_config G) (ps_decode G) (ps_codec G) (ps_locked G) root
      else ReadControl (h_run (ps_host G) env_C ''pg_controldata'' [liveData]))"

text \<open>The physical directory is what both paths resolve to.\<close>

definition wal_directory_ok :: "('w, 'q, 'c) plugin_sys \<Rightarrow> string \<Rightarrow> string list \<Rightarrow> ('w, unit) act" where
  "wal_directory_ok G directory = each (\<lambda>path. attempt (h_eval (ps_host G) path) (\<lambda>r. if r = Inr directory then ret () else fail WALInvalid))"

definition open_repository :: "('w, 'q, 'c) plugin_sys \<Rightarrow> 'w sys \<Rightarrow> store \<Rightarrow> identity \<Rightarrow> bool \<Rightarrow> ('w, repo) act" where
  "open_repository G S st idn archive =
     (if archive then OpenWriter S (ps_probe G st) idn (ps_ws G)
      else andthen (OpenSource S (idn_RepositoryID idn) (ps_ws G)) (\<lambda>r.
        if idn\<lparr>idn_CreatedAt := idn_CreatedAt (rp_id r)\<rparr> \<noteq> rp_id r then fail ErrIdentity else ret r))"

text \<open>A missing repository or gate is not an absent WAL file.\<close>

definition not_absent :: "('w, 'a) act \<Rightarrow> ('w, 'a) act" where
  "not_absent m = attempt m (\<lambda>r. case r of Inl e \<Rightarrow> fail (if Is e NotFound then ErrIdentity else e) | Inr x \<Rightarrow> ret x)"

definition openWAL :: "('w, 'q, 'c) plugin_sys \<Rightarrow> bytes \<Rightarrow> bool \<Rightarrow> ('w, wal_operation) act" where
  "openWAL G clusterText archive =
     andthen (Projection (ps_proj G) projectionPath) (\<lambda>root.
     andthen (read_strict G root ''wal.json'' (dec_bytes dec_WALPlacement) WALInvalid) (\<lambda>p.
     andthen (lift (ParseCluster (ps_cluster G) clusterText)) (\<lambda>c.
     andthen (lift (validateWALRequest (ps_cluster G) c p)) (\<lambda>_.
     andthen (LoadCaptureSnapshotFromRoot (ps_proj G) (ps_trust G) (ps_decode G) root) (\<lambda>snap. let sp = sn_Spec (cs_Repository snap) in
     andthen (wal_control G root archive) (\<lambda>control.
     andthen (read_strict G root ''capacity.json'' dec_budgets WALInvalid) (\<lambda>budgets.
     andthen (lift (walCapacity budgets (wp_WALDirectory p) (ctl_WALSegmentBytes control) archive)) (\<lambda>budgets.
     andthen (CheckCapacity (ps_cap G) budgets) (\<lambda>_.
     andthen (wal_directory_ok G (wp_WALDirectory p) [pgdataWAL, wp_WALDirectory p]) (\<lambda>_.
     andthen (local_io (h_openRoot (ps_host G) (wp_WALDirectory p))) (\<lambda>_.
     andthen (lift (Snapshot_Store (ps_config G) (ps_new G) (cs_Repository snap))) (\<lambda>st. let S = ps_storage G st in
     andthen (if archive then st_CheckBucketSafety S else ret ()) (\<lambda>_.
     andthen (not_absent (open_repository G S st (destination_identity sp control (wp_ClusterUID p)) archive)) (\<lambda>r.
     ret \<lparr>wo_files = \<lparr>wf_Repository = Some r, wf_Store = True, wf_Compression = sp_Compression sp\<rparr>, wo_store = st, wo_placement = p,
          wo_single = (io_WALUploads (sp_IO sp) = 1)\<rparr>))))))))))))))"

section \<open>The callbacks of an instance\<close>

definition data_slot :: "('w, 'q, 'c) plugin_sys \<Rightarrow> wal_operation \<Rightarrow> ('w \<times> 'd, 'a) act \<Rightarrow> ('w \<times> 'd, 'a) act" where
  "data_slot G opn m = (if wo_single opn then in_slot_beside G SingleWALData m else m)"

record archive_request =
  arq_ClusterDefinition :: bytes
  arq_SourceFileName :: string
  arq_Parameters :: metadata

definition archive_opened :: "('w, 'q, 'c) plugin_sys \<Rightarrow> wal_operation \<Rightarrow> string \<Rightarrow> ('w, unit) act" where
  "archive_opened G opn path =
     andthen (lift (walBasename path (wo_placement opn))) (\<lambda>name.
     andthen (lift (Limits (wo_files opn) name)) (\<lambda>_.
     andthen (ps_source G (wp_WALDirectory (wo_placement opn)) name) (\<lambda>src.
     Archive (ps_storage G (wo_store opn)) (wo_files opn) name (Some src))))"

definition WAL_Archive :: "('w, 'q, 'c) plugin_sys \<Rightarrow> archive_request option \<Rightarrow> ('w, unit) act" where
  "WAL_Archive G req = answer G (case req of
     None \<Rightarrow> fail WALInvalid
   | Some q \<Rightarrow>
      if arq_Parameters q \<noteq> [] then fail WALInvalid
      else andthen (lift (validateWALPaths (ps_cluster G) (arq_ClusterDefinition q) (arq_SourceFileName q) [] False)) (\<lambda>_.
        in_slot G WalCallbacks (
          andthen (openWAL G (arq_ClusterDefinition q) True) (\<lambda>opn.
          let m = archive_opened G opn (arq_SourceFileName q) in
          if wo_single opn then in_slot G SingleWALData m else m))))"

datatype restore_mode = ModeUnspecified | ModeRecovery | ModeRewind | ModeOther int

record restore_request =
  rrq_ClusterDefinition :: bytes
  rrq_SourceWalName :: string
  rrq_DestinationFileName :: string
  rrq_Mode :: restore_mode
  rrq_Parameters :: metadata

definition known_mode :: "restore_mode \<Rightarrow> bool" where
  "known_mode m = (case m of ModeOther _ \<Rightarrow> False | _ \<Rightarrow> True)"

definition WAL_Restore :: "('w, 'q, 'c) plugin_sys \<Rightarrow> restore_request option \<Rightarrow> ('w \<times> dir, unit) act" where
  "WAL_Restore G req = answer_beside G (case req of
     None \<Rightarrow> fail WALInvalid
   | Some q \<Rightarrow>
      if rrq_Parameters q \<noteq> [] \<or> \<not> known_mode (rrq_Mode q) then fail WALInvalid
      else andthen (lift (validateWALPaths (ps_cluster G) (rrq_ClusterDefinition q) (rrq_DestinationFileName q) (rrq_SourceWalName q) True)) (\<lambda>_.
        in_slot_beside G WalCallbacks (
          andthen (on_world (openWAL G (rrq_ClusterDefinition q) False)) (\<lambda>opn.
          data_slot G opn (
            andthen (lift (walBasename (rrq_DestinationFileName q) (wo_placement opn))) (\<lambda>name.
            Restore (ps_storage G (wo_store opn)) (wo_files opn) (rrq_SourceWalName q) name))))))"

section \<open>Restoring during a recovery\<close>

text \<open>The reads of a file in buffers of 128 KiB, each after a look at the context, up to the end or a read error.\<close>

function chop :: "nat \<Rightarrow> 'a list \<Rightarrow> 'a list list" where
  "chop n xs = (if n = 0 \<or> xs = [] then [] else take n xs # chop n (drop n xs))"
  by pat_completeness auto
termination by (relation "measure (\<lambda>(n, xs). length xs)") auto

declare chop.simps [simp del]

fun bundle_loop :: "'w sys \<Rightarrow> bytes list \<Rightarrow> bool \<Rightarrow> int \<Rightarrow> bytes \<Rightarrow> ('w, bytes) act" where
  "bundle_loop S [] broken expected got = andthen (ctx_err S) (\<lambda>_. if broken then fail WALLocal else ret got)"
| "bundle_loop S (x # xs) broken expected got =
     andthen (ctx_err S) (\<lambda>_. if int (length (got @ x)) > expected then fail WALCorrupt else bundle_loop S xs broken expected (got @ x))"

definition local_read :: "'w sys \<Rightarrow> source \<Rightarrow> file_stat \<Rightarrow> integrity \<Rightarrow> ('w, unit) act" where
  "local_read S src st expected =
     andthen (bundle_loop S (chop 131072 (src_Data src)) (src_Broken src) (itg_Size expected) []) (\<lambda>x. case src_After src of
       None \<Rightarrow> fail WALCorrupt
     | Some after \<Rightarrow>
         if int (length x) \<noteq> itg_Size expected \<or> fst_Size after \<noteq> fst_Size st \<or> fst_ModTime after \<noteq> fst_ModTime st \<or> digest x \<noteq> itg_SHA256 expected
         then fail WALCorrupt else ret ())"

text \<open>\<open>opened\<close> is the open of the local file without following links.\<close>

definition verifyLocalBundle :: "'w sys \<Rightarrow> ('w, source) act \<Rightarrow> integrity \<Rightarrow> ('w, unit) act" where
  "verifyLocalBundle S opened expected =
     attempt opened (\<lambda>r. case r of
       Inl _ \<Rightarrow> fail WALCorrupt
     | Inr src \<Rightarrow> (case src_Stat src of
         None \<Rightarrow> fail WALCorrupt
       | Some st \<Rightarrow> if \<not> fst_Regular st \<or> fst_Size st \<noteq> itg_Size expected then fail WALCorrupt else local_read S src st expected))"

definition plan_frontier :: "plan \<Rightarrow> u64" where
  "plan_frontier p = lsn_or_zero (case rev (plan_ranges p) of
     [] \<Rightarrow> cmt_BundledWALEndLSN (last (pln_Chain p)) | w # _ \<Rightarrow> wr_EndLSN w)"

definition optionalFuture :: "plan \<Rightarrow> string \<Rightarrow> bool" where
  "optionalFuture p name \<longleftrightarrow>
     (if has_suffix name ''.history'' then True
      else if length name \<noteq> 24 then False
      else if (case parse_uint 16 32 (take 8 name) of Some n \<Rightarrow> of_int n | None \<Rightarrow> (0 :: u32)) \<noteq> tgt_Timeline (pln_Target p) then False
      else segment_start name (idn_WALSegmentBytes (pln_Source p)) \<ge> plan_frontier p)"

definition restoreSourceWAL :: "('w, 'q, 'c) plugin_sys \<Rightarrow> 'w sys \<Rightarrow> wal_files \<Rightarrow> recovery_plan \<Rightarrow> string \<Rightarrow> string \<Rightarrow> string \<Rightarrow> ('w \<times> dir, unit) act" where
  "restoreSourceWAL G S source rp directory name destination = (case Coverage (rpl_Plan rp) name of
     Inl _ \<Rightarrow> fail WALInvalid
   | Inr (bundle, remote) \<Rightarrow>
      attempt (Restore S source name destination) (\<lambda>r. case r of
        Inr _ \<Rightarrow> ret ()
      | Inl e \<Rightarrow>
         if \<not> Is e NotFound then fail e
         else if remote then fail ErrBlocked
         else if bundle then (case map_of (rpl_Bundled rp) name of
             None \<Rightarrow> fail WALCorrupt
           | Some expected \<Rightarrow> andthen (on_world (verifyLocalBundle S (ps_source G directory name) expected)) (\<lambda>_. fail (failure NotFound)))
         else if \<not> optionalFuture (rpl_Plan rp) name then fail ErrBlocked
         else fail (failure NotFound)))"

text \<open>The fields of the service a WAL callback reads, and \<open>errRecoveryClosed\<close>.\<close>

record recovery_view =
  rv_ready :: bool
  rv_closed :: bool
  rv_plan :: recovery_plan
  rv_hold :: hold
  rv_repo :: repo
  rv_files :: wal_files
  rv_store :: store
  rv_budgets :: "fs_budget list"

definition errRecoveryClosed :: err where
  "errRecoveryClosed = PlainErr ''recovery is closed or ownership is uncertain''"

text \<open>The admission and the service's fields in the world.\<close>

record 'w task_sys =
  tk_get :: "'w \<Rightarrow> admission"
  tk_put :: "admission \<Rightarrow> 'w \<Rightarrow> 'w"
  tk_view :: "'w \<Rightarrow> recovery_view"

text \<open>\<open>task, e := s.admission.Admit(tuple)\<close> with \<open>defer task.Done()\<close>.\<close>

definition in_task :: "'w task_sys \<Rightarrow> rg_tuple \<Rightarrow> ('w \<times> 'd, 'a) act \<Rightarrow> ('w \<times> 'd, 'a) act" where
  "in_task A tuple m = (\<lambda>(w, d). case Admit (tk_get A w) tuple of
     (Inl e, a) \<Rightarrow> (Inl e, (tk_put A a w, d))
   | (Inr _, a) \<Rightarrow> (case m (tk_put A a w, d) of (r, (w', d')) \<Rightarrow> (r, (tk_put A (Done False (tk_get A w')) w', d'))))"

definition dec_owner :: "json \<Rightarrow> rg_owner option" where
  "dec_owner = dec_into [(''clusterUID'', into dec_str (\<lambda>v p. p\<lparr>gow_ClusterUID := v\<rparr>)), (''operationUID'', into dec_str (\<lambda>v p. p\<lparr>gow_OperationUID := v\<rparr>)),
     (''podUID'', into dec_str (\<lambda>v p. p\<lparr>gow_PodUID := v\<rparr>)), (''guardUID'', into dec_str (\<lambda>v p. p\<lparr>gow_GuardUID := v\<rparr>))] zero_owner"

definition dec_tuple :: "json \<Rightarrow> rg_tuple option" where
  "dec_tuple = dec_into [(''owner'', into dec_owner (\<lambda>v p. p\<lparr>tup_Owner := v\<rparr>)), (''sidecarUID'', into dec_str (\<lambda>v p. p\<lparr>tup_SidecarUID := v\<rparr>))] zero_tuple"

text \<open>The part under the reader's hold: whether the source was called, beside its outcome.\<close>

definition source_call :: "('w, 'q, 'c) plugin_sys \<Rightarrow> recovery_view \<Rightarrow> cluster \<Rightarrow> string \<Rightarrow> string \<Rightarrow> ('w \<times> dir, unit) act" where
  "source_call G v c name destination = (let S = ps_storage G (rv_store v) in
     if hld_Kind (hd_holder (rv_hold v)) \<noteq> ''restore-reader'' then fail (StatusErr CodeFailedPrecondition)
     else attempt (on_world (Hold_check S (rv_repo v) (rv_hold v))) (\<lambda>r. case r of
       Inl _ \<Rightarrow> fail (StatusErr CodeFailedPrecondition)
     | Inr _ \<Rightarrow> answer_beside G (restoreSourceWAL G S (rv_files v) (rv_plan v) (physicalWAL c) name destination)))"

definition view_ok :: "recovery_view \<Rightarrow> rg_tuple \<Rightarrow> bytes \<Rightarrow> bool" where
  "view_ok v tuple data \<longleftrightarrow> rv_ready v \<and> \<not> rv_closed v \<and> tuple = rpl_Tuple (rv_plan v) \<and> data = rpl_ClusterDefinition (rv_plan v)"

definition recovery_checks :: "('w, 'q, 'c) plugin_sys \<Rightarrow> recovery_view \<Rightarrow> cluster \<Rightarrow> ('w, unit) act" where
  "recovery_checks G v c =
     andthen (lift (walCapacity (rv_budgets v) (physicalWAL c) (idn_WALSegmentBytes (pln_Source (rpl_Plan (rv_plan v)))) False)) (\<lambda>budgets.
     andthen (CheckCapacity (ps_cap G) budgets) (\<lambda>_.
     andthen (wal_directory_ok G (physicalWAL c) [physicalWAL c, pgdataWAL]) (\<lambda>_.
     local_io (h_openRoot (ps_host G) (physicalWAL c)))))"

definition admitted_call :: "('w, 'q, 'c) plugin_sys \<Rightarrow> 'w task_sys \<Rightarrow> restore_request \<Rightarrow> rg_tuple \<Rightarrow> cluster \<Rightarrow> string \<Rightarrow> ('w \<times> dir, unit) act" where
  "admitted_call G A q tuple c destination = (\<lambda>(w, d). let v = tk_view A w in
     (if \<not> view_ok v tuple (rrq_ClusterDefinition q) then answer_beside G (fail errRecoveryClosed)
      else andthen (answer_beside G (on_world (recovery_checks G v c))) (\<lambda>_. source_call G v c (rrq_SourceWalName q) destination)) (w, d))"

definition recoveryWAL_Restore :: "('w, 'q, 'c) plugin_sys \<Rightarrow> 'w task_sys \<Rightarrow> restore_request option \<Rightarrow> ('w \<times> dir, unit) act" where
  "recoveryWAL_Restore G A req = (case req of
     None \<Rightarrow> answer_beside G (fail WALInvalid)
   | Some q \<Rightarrow>
      if rrq_Mode q \<noteq> ModeRecovery \<or> length (rrq_Parameters q) \<noteq> 1 then answer_beside G (fail WALInvalid)
      else case (StrictJSON (dec_bytes dec_tuple) (meta_get (rrq_Parameters q) ''recoveryID''), ParseCluster (ps_cluster G) (rrq_ClusterDefinition q)) of
        (Inr tuple, Inr c) \<Rightarrow> (case recoveryDestination (ps_cluster G) c (rrq_SourceWalName q) (rrq_DestinationFileName q) of
            Inl _ \<Rightarrow> answer_beside G (fail WALInvalid)
          | Inr destination \<Rightarrow> in_task A tuple (
              andthen (answer_beside G (on_world (acquire G WalCallbacks))) (\<lambda>_ s.
              case admitted_call G A q tuple c destination s of (r, (w, d)) \<Rightarrow> (r, (ps_give G WalCallbacks w, d)))))
      | _ \<Rightarrow> answer_beside G (fail WALInvalid))"

section \<open>The command PostgreSQL runs\<close>

definition fetch_exit :: "err + unit \<Rightarrow> int" where
  "fetch_exit r = (case r of Inr _ \<Rightarrow> 0 | Inl e \<Rightarrow> if e = StatusErr CodeNotFound then 1 else 255)"

text \<open>\<open>client\<close> is the call over the socket, as its status; \<open>None\<close> is a panic.\<close>

definition fetchWAL :: "(restore_request \<Rightarrow> 'w \<Rightarrow> (err + unit) option \<times> 'w) \<Rightarrow> recovery_plan \<Rightarrow> string \<Rightarrow> string \<Rightarrow> 'w \<Rightarrow> int \<times> 'w" where
  "fetchWAL client rp name destination w =
     (case client \<lparr>rrq_ClusterDefinition = rpl_ClusterDefinition rp, rrq_SourceWalName = name, rrq_DestinationFileName = destination,
          rrq_Mode = ModeRecovery, rrq_Parameters = [(''recoveryID'', render (enc_tuple (rpl_Tuple rp)))]\<rparr> w of
        (None, w') \<Rightarrow> (255, w') | (Some r, w') \<Rightarrow> (fetch_exit r, w'))"

text \<open>\<open>dial\<close> is whether \<open>grpc.NewClient\<close> succeeds; \<open>state\<close> is the directory of the helper plan.\<close>

definition WALFetch :: "cluster_env \<Rightarrow> (bytes \<Rightarrow> recovery_plan option) \<Rightarrow> bool \<Rightarrow> dir \<Rightarrow>
    (restore_request \<Rightarrow> 'w \<Rightarrow> (err + unit) option \<times> 'w) \<Rightarrow> string list \<Rightarrow> 'w \<Rightarrow> int \<times> 'w" where
  "WALFetch K dec dial state client args w =
     (if length args \<noteq> 5 \<or> args ! 0 \<noteq> ''--plan'' \<or> args ! 1 \<noteq> helperPlanPath \<or> args ! 2 \<noteq> ''--'' then (255, w)
      else case fst (readRecovery K dec state) of
        Inr (Some rp) \<Rightarrow>
          if \<not> rpl_Materialized rp then (255, w)
          else (case ParseCluster K (rpl_ClusterDefinition rp) of
            Inl _ \<Rightarrow> (255, w)
          | Inr c \<Rightarrow> (case recoveryDestination K c (args ! 3) (args ! 4) of
              Inl _ \<Rightarrow> (255, w)
            | Inr _ \<Rightarrow> if \<not> dial then (255, w) else fetchWAL client rp (args ! 3) (args ! 4) w))
      | _ \<Rightarrow> (255, w))"

end
