(* ===== verification/Plugin_Properties.thy ===== *)
theory Plugin_Properties
  imports Plugin_Wal Wal_Order
begin

text \<open>
  The Cluster definition under the operations of a restore: its target does not depend on the order of a
  map, and the reduced definition a restore keeps stands for the original one. Then what the answers of the WAL
  callbacks mean: which errors become which status, and what a recovery has verified before PostgreSQL is told
  that a file does not exist.
\<close>

section \<open>Folds that commute\<close>

lemma fold_res_move:
  assumes "\<And>y t. y \<in> set xs \<Longrightarrow> res_bind (f x t) (f y) = res_bind (f y t) (f x)"
  shows "res_bind (f x s) (fold_res f xs) = res_bind (fold_res f xs s) (f x)"
  using assms
proof (induction xs arbitrary: s)
  case (Cons y ys)
  have "res_bind (f x s) (fold_res f (y # ys)) = res_bind (res_bind (f x s) (f y)) (fold_res f ys)"
    by (cases "f x s") auto
  also have "\<dots> = res_bind (res_bind (f y s) (f x)) (fold_res f ys)" using Cons.prems by simp
  also have "\<dots> = res_bind (fold_res f (y # ys) s) (f x)"
    using Cons.IH Cons.prems by (cases "f y s") auto
  finally show ?case .
next
  case Nil
  show ?case by (cases "f x s") auto
qed

lemma fold_res_perm:
  assumes "mset xs = mset ys"
    and "\<And>x y t. x \<in> set xs \<Longrightarrow> y \<in> set xs \<Longrightarrow> x \<noteq> y \<Longrightarrow> res_bind (f x t) (f y) = res_bind (f y t) (f x)"
  shows "fold_res f xs s = fold_res f ys s"
  using assms
proof (induction xs arbitrary: ys s)
  case (Cons x xs)
  then have "x \<in> set ys" by (metis list.set_intros(1) mset_eq_setD)
  then obtain us vs where ys: "ys = us @ x # vs" by (meson split_list)
  then have m: "mset xs = mset (us @ vs)" using Cons.prems(1) by simp
  have sub: "set us \<subseteq> set (x # xs)" using mset_eq_setD[OF m] by auto
  have comm: "res_bind (f x t) (f y) = res_bind (f y t) (f x)" if "y \<in> set us" for y t
  proof (cases "y = x")
    case False
    then show ?thesis using Cons.prems(2) that sub by auto
  qed simp
  have "fold_res f ys s = res_bind (res_bind (fold_res f us s) (f x)) (fold_res f vs)"
    by (cases "fold_res f us s") (auto simp: ys fold_res_append)
  also have "\<dots> = res_bind (res_bind (f x s) (fold_res f us)) (fold_res f vs)" using fold_res_move[of us f x s] comm by simp
  also have "\<dots> = res_bind (f x s) (fold_res f (us @ vs))" by (cases "f x s") (auto simp: fold_res_append)
  also have "\<dots> = fold_res f (x # xs) s"
    using Cons.IH[OF m] Cons.prems(2) by (cases "f x s") auto
  finally show ?case by simp
qed simp

section \<open>The target\<close>

text \<open>What a member does, whatever the target is when the iteration meets it.\<close>

lemma target_member_form:
  obtains (bad) "\<And>t. target_member a t = Inl ErrInvalid"
    | (skip) "\<And>t. target_member a t = Inr t"
    | (exclusive) b where "fst a = ''exclusive''" "\<And>t. target_member a t = Inr (t\<lparr>tgt_Exclusive := b\<rparr>)"
    | (backup) u where "fst a = ''backupID''" "\<And>t. target_member a t = Inr (t\<lparr>tgt_BackupUID := u\<rparr>)"
    | (timeline) n where "fst a = ''targetTLI''" "\<And>t. target_member a t = Inr (t\<lparr>tgt_Timeline := n\<rparr>)"
    | (kind) k g where "k \<noteq> ''latest''" "\<And>t. target_member a t =
        (if tgt_Kind t \<noteq> ''latest'' then Inl ErrInvalid else Inr (t\<lparr>tgt_Kind := k, tgt_Value := g (tgt_Value t)\<rparr>))"
proof -
  obtain key v where a: "a = (key, v)" by force
  consider "key = ''exclusive''" | "key = ''backupID''" | "key = ''targetTLI''" | "key = ''targetImmediate''"
    | k where "target_kind key = Some k" "key \<notin> {''exclusive'', ''backupID'', ''targetTLI'', ''targetImmediate''}"
    | "target_kind key = None" "key \<notin> {''exclusive'', ''backupID'', ''targetTLI'', ''targetImmediate''}"
    by (cases "target_kind key") auto
  then show thesis
  proof cases
    case 1
    show thesis
    proof (cases v)
      case (JBool b)
      then show thesis using exclusive[of b] 1 a by (simp add: target_member_def)
    qed (use 1 a bad in \<open>simp_all add: target_member_def\<close>)
  next
    case 2
    show thesis
    proof (cases v)
      case (JStr u)
      then show thesis using backup[of "Some u"] bad 2 a by (cases "u = []") (simp_all add: target_member_def)
    qed (use 2 a bad in \<open>simp_all add: target_member_def\<close>)
  next
    case 3
    show thesis
    proof (cases v)
      case (JStr u)
      show thesis
      proof (cases "parse_uint 10 32 u")
        case None
        then show thesis using bad 3 a JStr by (simp add: target_member_def)
      next
        case (Some n)
        then show thesis using bad timeline[of "of_int n"] 3 a JStr by (cases "n = 0 \<or> format_uint n \<noteq> u") (simp_all add: target_member_def)
      qed
    qed (use 3 a bad in \<open>simp_all add: target_member_def\<close>)
  next
    case 4
    show thesis
    proof (cases v)
      case (JBool b)
      then show thesis using skip kind[of "''immediate''" id] 4 a by (cases b) (simp_all add: target_member_def)
    qed (use 4 a bad in \<open>simp_all add: target_member_def\<close>)
  next
    case 5
    have k: "k \<noteq> ''latest''" using 5(1) by (auto simp: target_kind_def split: if_splits)
    show thesis
    proof (cases v)
      case (JStr u)
      then show thesis using bad kind[OF k, of "\<lambda>_. u"] 5 a by (cases "u = []") (simp_all add: target_member_def)
    qed (use 5 a bad in \<open>simp_all add: target_member_def\<close>)
  next
    case 6
    then show thesis using bad a by (simp add: target_member_def)
  qed
qed

lemma target_member_commutes:
  assumes "fst a \<noteq> fst b"
  shows "res_bind (target_member a t) (target_member b) = res_bind (target_member b t) (target_member a)"
  using assms by (cases a rule: target_member_form; cases b rule: target_member_form) auto

section \<open>The reduced definition\<close>

lemma fold_plugin_filter:
  "fold_res plugin_destination ps d = Inr x \<Longrightarrow> fold_res plugin_destination (filter (\<lambda>p. plg_Name p = PluginName) ps) d = Inr x"
proof (induction ps arbitrary: d)
  case (Cons p ps)
  then show ?case by (cases "plugin_destination p d") (auto simp: plugin_destination_def split: if_splits)
qed simp

lemma fold_source_filter:
  "fold_res (external_source rc) (filter (\<lambda>x. source_plugin rc x \<noteq> None) xs) v = fold_res (external_source rc) xs v"
proof (induction xs arbitrary: v)
  case (Cons y ys)
  show ?case
  proof (cases "source_plugin rc y")
    case None
    then show ?thesis using Cons by (simp add: external_source_def)
  next
    case (Some p)
    then show ?thesis using Cons by (cases "external_source rc y v") auto
  qed
qed simp

lemma reduced_image: "has_suffix (''ghcr.io/cloudnative-pg/postgresql@'' @ DatabaseDigest) (''@'' @ DatabaseDigest)"
  by (simp add: has_suffix_def DatabaseDigest_def)

lemma Repositories_reduced: "Repositories K c = Inr rs \<Longrightarrow> Repositories K (recoveryCluster c) = Inr rs"
proof -
  assume r: "Repositories K c = Inr rs"
  let ?s = "cl_Spec c" and ?t = "cl_Spec (recoveryCluster c)"
  obtain dst src where rs: "rs = (dst, src)" by force
  have s: "cs_PostgresUID ?s > 0" "cs_PostgresGID ?s > 0" "length (cs_Tablespaces ?s) \<le> 64" "\<not> raw_present (cs_Replica ?s)"
    and t: "\<exists>x. fold_res check_tablespace (cs_Tablespaces ?s) [] = Inr x"
    and p: "fold_res plugin_destination (cs_Plugins ?s) [] = Inr dst" "dst \<noteq> []"
    and q: "recovery_source ?s dst = Inr src"
    and n: "list_all (\<lambda>name. name = [] \<or> cle_dns K name) [dst, src]"
    using r rs by (auto simp: Repositories_def Let_def split: if_splits)
  have f: "cs_PostgresUID ?t = cs_PostgresUID ?s" "cs_PostgresGID ?t = cs_PostgresGID ?s" "cs_Tablespaces ?t = cs_Tablespaces ?s"
    "cs_Replica ?t = cs_Replica ?s" "cs_Parameters ?t = []" "cs_Plugins ?t = filter (\<lambda>p. plg_Name p = PluginName) (cs_Plugins ?s)"
    "cs_ImageName ?t = ''ghcr.io/cloudnative-pg/postgresql@'' @ DatabaseDigest" "om_Annotations (cl_Metadata (recoveryCluster c)) = []"
    by (simp_all add: recoveryCluster_def Let_def)
  have q': "recovery_source ?t dst = Inr src"
    using q by (cases "cs_Recovery ?s") (simp_all add: recovery_source_def recoveryCluster_def Let_def fold_source_filter[simplified])
  show ?thesis
    unfolding Repositories_def Let_def f
    using s t n p(2) fold_plugin_filter[OF p(1)] q' reduced_image rs by (auto simp: wal_settings_ok_def meta_get_def)
qed

lemma recoveryCluster_idem: "recoveryCluster (recoveryCluster c) = recoveryCluster c"
  by (cases "cs_Recovery (cl_Spec c)") (simp_all add: recoveryCluster_def Let_def filter_filter raw_present_def)

section \<open>Properties\<close>

text \<open>The recovery target does not depend on the order in which Go's map iteration delivers its members: for a map, whose
  keys are distinct, every order yields the same target or the same refusal. In particular a target that names
  two kinds at once is refused however the iteration meets them.\<close>

theorem recoveryTarget_order:
  assumes "mset xs = mset ys" "distinct (map fst xs)"
  shows "recoveryTarget xs = recoveryTarget ys"
proof -
  have "fold_res target_member xs latest_target = fold_res target_member ys latest_target"
  proof (rule fold_res_perm[OF assms(1)])
    fix x y t assume "x \<in> set xs" "y \<in> set xs" "x \<noteq> y"
    then show "res_bind (target_member x t) (target_member y) = res_bind (target_member y t) (target_member x)"
      using assms(2) by (intro target_member_commutes) (metis distinct_map inj_on_def)
  qed
  then show ?thesis by (simp add: recoveryTarget_def)
qed

theorem recoveryTarget_order_witness:
  "recoveryTarget [(''targetLSN'', JStr ''0/3000000''), (''targetTLI'', JStr ''2''), (''exclusive'', JBool True)] =
   recoveryTarget [(''exclusive'', JBool True), (''targetTLI'', JStr ''2''), (''targetLSN'', JStr ''0/3000000'')] \<and>
   recoveryTarget [(''targetLSN'', JStr ''0/3000000''), (''targetTLI'', JStr ''2''), (''exclusive'', JBool True)] =
     Inr \<lparr>tgt_Kind = ''lsn'', tgt_Value = ''0/3000000'', tgt_Exclusive = True, tgt_BackupUID = None, tgt_Timeline = 2\<rparr>"
proof
  show "recoveryTarget [(''targetLSN'', JStr ''0/3000000''), (''targetTLI'', JStr ''2''), (''exclusive'', JBool True)] =
    recoveryTarget [(''exclusive'', JBool True), (''targetTLI'', JStr ''2''), (''targetLSN'', JStr ''0/3000000'')]"
    by (rule recoveryTarget_order) simp_all
  show "recoveryTarget [(''targetLSN'', JStr ''0/3000000''), (''targetTLI'', JStr ''2''), (''exclusive'', JBool True)] =
     Inr \<lparr>tgt_Kind = ''lsn'', tgt_Value = ''0/3000000'', tgt_Exclusive = True, tgt_BackupUID = None, tgt_Timeline = 2\<rparr>"
    by code_simp
qed

text \<open>C30. The definition a restore keeps stands for the original and carries no credentials: whenever the plugin accepts a Cluster, it
  accepts the reduced one with the same repositories, the same operation identity, bootstrap fingerprint and WAL directory; reducing
  again changes nothing; and annotations, PostgreSQL parameters, certificate secrets, other plugins and other external clusters are gone.\<close>

theorem recoveryCluster_stands:
  "case Repositories K c of Inl _ \<Rightarrow> True | Inr rs \<Rightarrow> (let k = recoveryCluster c in
     Repositories K k = Inr rs \<and> OperationUID K k = OperationUID K c \<and> BootstrapFingerprint K k = BootstrapFingerprint K c \<and>
     physicalWAL k = physicalWAL c \<and> recoveryCluster k = k \<and>
     om_Annotations (cl_Metadata k) = [] \<and> om_Other (cl_Metadata k) = [] \<and> cs_Parameters (cl_Spec k) = [] \<and>
     cs_ReplicationTLSSecret (cl_Spec k) = [] \<and> cs_ServerCASecret (cl_Spec k) = [] \<and> cs_ClientCASecret (cl_Spec k) = [] \<and>
     list_all (\<lambda>p. plg_Name p = PluginName) (cs_Plugins (cl_Spec k)) \<and>
     list_all (\<lambda>x. \<exists>p. ext_Plugin x = Some p \<and> plg_Name p = PluginName) (cs_ExternalClusters (cl_Spec k)))"
proof (cases "Repositories K c")
  case (Inr rs)
  then show ?thesis using Repositories_reduced[OF Inr] recoveryCluster_idem[of c]
    by (auto simp: Let_def OperationUID_def BootstrapFingerprint_def physicalWAL_def recoveryCluster_def raw_present_def list_all_iff source_plugin_def split: option.splits if_splits)
qed simp

section \<open>Status codes\<close>

lemma Is_other [simp]: "\<not> Is (PlainErr t) k" "\<not> Is WALInvalid k" "\<not> Is WALLocal k" "\<not> Is CtxErr k" "\<not> Is (StatusErr c) k" "\<not> Is OsErr k"
  "\<not> Is ErrBlocked k" "\<not> Is WALCorrupt k"
  by (simp_all add: Is_def)

lemma wal_code_NotFound [simp]: "wal_code expired e = CodeNotFound \<longleftrightarrow> Is e NotFound"
  by (simp add: wal_code_def)

lemma answer_beside_ok: "answer_beside G m s = (Inr x, s') \<longleftrightarrow> m s = (Inr x, s')"
  by (cases "m s"; cases "fst (m s)") (auto simp: answer_beside_def)

lemma answer_beside_Inl: "answer_beside G m s = (Inl e, s') \<longleftrightarrow> (\<exists>e0. m s = (Inl e0, s') \<and> e = walError (ps_expired G (fst s')) e0)"
  by (cases "m s"; cases "fst (m s)") (auto simp: answer_beside_def)

lemma answer_beside_NotFound: "answer_beside G m s = (Inl (StatusErr CodeNotFound), s') \<Longrightarrow> \<exists>e. m s = (Inl e, s') \<and> Is e NotFound"
  by (auto simp: answer_beside_Inl walError_def dest: sym[of CodeNotFound])

section \<open>Local checks are never an absence\<close>

text \<open>An action whose errors are no storage errors.\<close>

definition local_errors :: "('s, 'a) act \<Rightarrow> bool" where
  "local_errors m \<longleftrightarrow> (\<forall>s e s'. m s = (Inl e, s') \<longrightarrow> \<not> Is e NotFound)"

lemma local_errorsD: "local_errors m \<Longrightarrow> m s = (Inl e, s') \<Longrightarrow> \<not> Is e NotFound"
  by (auto simp: local_errors_def)

named_theorems local_rules \<open>actions whose errors are no storage errors\<close>

lemma local_ret [local_rules]: "local_errors (ret x)"
  by (simp add: local_errors_def ret_def)

lemma local_fail [local_rules]: "\<not> Is e NotFound \<Longrightarrow> local_errors (fail e)"
  by (simp add: local_errors_def fail_def)

lemma local_lift [local_rules]: "(\<And>e. r = Inl e \<Longrightarrow> \<not> Is e NotFound) \<Longrightarrow> local_errors (lift r)"
  by (auto simp: local_errors_def lift_def)

lemma local_attempt [local_rules]: "(\<And>r. local_errors (k r)) \<Longrightarrow> local_errors (attempt m k)"
  by (auto simp: local_errors_def attempt_def split: prod.splits)

lemma local_andthen [local_rules]: "local_errors m \<Longrightarrow> (\<And>x. local_errors (k x)) \<Longrightarrow> local_errors (andthen m k)"
  unfolding local_errors_def by (fastforce dest!: andthen_split)

lemma local_each [local_rules]: "(\<And>x. local_errors (f x)) \<Longrightarrow> local_errors (each f xs)"
  by (induction xs) (auto intro: local_rules)

lemma local_each_fold [local_rules]: "(\<And>x v. local_errors (f x v)) \<Longrightarrow> local_errors (each_fold f xs v)"
  by (induction xs arbitrary: v) (auto intro!: local_rules)

lemma local_local_io [local_rules]: "local_errors (local_io m)"
  unfolding local_io_def by (rule local_attempt) (auto intro!: local_rules simp: Is_def split: sum.split)

lemma local_on_world [local_rules]: "local_errors m \<Longrightarrow> local_errors (on_world m)"
  by (auto simp: local_errors_def on_world_def split: prod.splits)

lemma mount_loop_local: "mount_loop ls used res = Inl e \<Longrightarrow> \<not> Is e k"
  by (induction ls used res rule: mount_loop.induct) (auto simp: Is_def Let_def split: if_splits option.splits)

lemma mounts_local: "mounts (data, broken) = Inl e \<Longrightarrow> \<not> Is e k"
  by (cases "mount_loop (scan_lines (take (nat 1048577) data)) 0 []")
    (auto simp: mounts_def Is_def dest: mount_loop_local[where k = k] split: if_splits)

lemma local_check_device [local_rules]: "local_errors (check_device C b device fd)"
  unfolding check_device_def by (auto intro!: local_rules simp: checkSpace_def split: sum.split prod.split if_splits)

lemma finiteMount_local: "finiteMount inventory path = Inl e \<Longrightarrow> \<not> Is e k"
  by (auto simp: finiteMount_def split: list.splits if_splits)

lemma local_finiteMount [local_rules]: "local_errors (lift (finiteMount inventory path))"
  by (rule local_lift) (rule finiteMount_local)

lemma local_mounts [local_rules]: "local_errors (lift (mounts (data, broken)))"
  by (rule local_lift) (rule mounts_local)

lemma local_check_budget [local_rules]: "local_errors (check_budget C inventory b seen)"
  unfolding check_budget_def
  by (auto intro!: local_rules split: sum.split)

lemma local_CheckCapacity [local_rules]: "local_errors (CheckCapacity C bs)"
  unfolding CheckCapacity_def
  by (auto intro!: local_rules split: sum.split prod.split)

lemma local_recovery_checks: "local_errors (recovery_checks G v c)"
  unfolding recovery_checks_def wal_directory_ok_def
  by (auto intro!: local_rules simp: walCapacity_def split: if_splits)

section \<open>An optional miss\<close>

text \<open>The local file opened now is regular and is read to its end with the recorded size and digest.\<close>

definition local_copy :: "('w, source) act \<Rightarrow> integrity \<Rightarrow> 'w \<Rightarrow> bool" where
  "local_copy opened expected w \<longleftrightarrow> (\<exists>(src :: source) (st :: file_stat) w'. opened w = (Inr src, w') \<and> src_Stat src = Some st \<and> fst_Regular st \<and>
     \<not> src_Broken src \<and> int (length (src_Data src)) = itg_Size expected \<and> digest (src_Data src) = itg_SHA256 expected)"

text \<open>What a recovery has seen before it reports that a file is absent: an authenticated absence in the archive, read while the
  reader's hold was live; the file is in no range the archive must provide; and it is either a bundled segment whose local
  copy has the recorded size and digest, or a history file or a segment at or behind the end of everything the plan needs.\<close>

definition miss_justified :: "('w, 'q, 'c) plugin_sys \<Rightarrow> recovery_view \<Rightarrow> cluster \<Rightarrow> string \<Rightarrow> string \<Rightarrow> 'w \<Rightarrow> dir \<Rightarrow> bool" where
  "miss_justified G v c name destination w d \<longleftrightarrow> (let S = ps_storage G (rv_store v); p = rpl_Plan (rv_plan v) in
     \<exists>w1 w2 e s bundle. recovery_checks G v c w = (Inr (), w1) \<and> Hold_check S (rv_repo v) (rv_hold v) w1 = (Inr (), w2) \<and>
       Restore S (rv_files v) name destination (w2, d) = (Inl e, s) \<and> Is e NotFound \<and> Coverage p name = Inr (bundle, False) \<and>
       (if bundle then \<exists>expected. map_of (rpl_Bundled (rv_plan v)) name = Some expected \<and> local_copy (ps_source G (physicalWAL c) name) expected (fst s)
        else optionalFuture p name))"

lemma local_ctx_err [local_rules]: "local_errors (ctx_err S)"
  by (auto simp: local_errors_def ctx_err_def split: prod.splits if_splits)

lemma local_bundle_loop [local_rules]: "local_errors (bundle_loop S xs broken expected got)"
  by (induction xs arbitrary: got) (auto intro!: local_rules)

lemma local_verifyLocalBundle: "local_errors (verifyLocalBundle S opened expected)"
  unfolding verifyLocalBundle_def local_read_def by (auto intro!: local_rules split: sum.split option.split)

lemma concat_chop: "n \<noteq> 0 \<Longrightarrow> concat (chop n xs) = xs"
  by (induction n xs rule: chop.induct) (subst chop.simps, auto)

lemma bundle_loop_ok: "bundle_loop S xs broken expected got w = (Inr x, w') \<Longrightarrow> x = got @ concat xs \<and> \<not> broken"
proof (induction xs arbitrary: got w)
  case (Cons a xs)
  then obtain w1 where "bundle_loop S xs broken expected (got @ a) w1 = (Inr x, w')" by (auto simp: ok_runs)
  from Cons.IH[OF this] show ?case by simp
qed (simp add: ok_runs)

lemma verifyLocalBundle_ok:
  assumes "verifyLocalBundle S opened expected w = (Inr (), w')"
  shows "local_copy opened expected w"
proof -
  obtain src st w1 where o1: "opened w = (Inr src, w1)" and s: "src_Stat src = Some st" "fst_Regular st" and r: "local_read S src st expected w1 = (Inr (), w')"
    using assms by (auto simp: verifyLocalBundle_def ok_runs ok_attempt)
  from r have "\<not> src_Broken src \<and> int (length (src_Data src)) = itg_Size expected \<and> digest (src_Data src) = itg_SHA256 expected"
    by (auto simp: local_read_def ok_runs concat_chop dest!: bundle_loop_ok)
  with s o1 show ?thesis unfolding local_copy_def by blast
qed

lemma restoreSourceWAL_miss:
  assumes "restoreSourceWAL G S source rp directory name destination s = (Inl e, s')" "Is e NotFound"
  shows "\<exists>e1 s1 bundle. Restore S source name destination s = (Inl e1, s1) \<and> Is e1 NotFound \<and> Coverage (rpl_Plan rp) name = Inr (bundle, False) \<and>
    (if bundle then \<exists>expected. map_of (rpl_Bundled rp) name = Some expected \<and> local_copy (ps_source G directory name) expected (fst s1)
     else optionalFuture (rpl_Plan rp) name)"
proof (cases "Coverage (rpl_Plan rp) name")
  case (Inl e0)
  then show ?thesis using assms by (simp add: restoreSourceWAL_def fail_def)
next
  case (Inr br)
  obtain bnd remote where br: "br = (bnd, remote)" by force
  obtain r s1 where R: "Restore S source name destination s = (r, s1)" by (cases "Restore S source name destination s")
  from assms Inr br R obtain e0 where e0: "r = Inl e0" "Is e0 NotFound"
    by (cases r) (auto simp: restoreSourceWAL_def attempt_def ret_def fail_def split: if_splits)
  have nr: "\<not> remote" using assms Inr br R e0 by (auto simp: restoreSourceWAL_def attempt_def fail_def)
  show ?thesis
  proof (cases bnd)
    case False
    then have "optionalFuture (rpl_Plan rp) name"
      using assms Inr br R e0 nr by (auto simp: restoreSourceWAL_def attempt_def fail_def split: if_splits)
    then show ?thesis using False Inr br R e0 nr by auto
  next
    case True
    obtain expected where ex: "map_of (rpl_Bundled rp) name = Some expected"
      using assms Inr br R e0 nr True by (cases "map_of (rpl_Bundled rp) name") (auto simp: restoreSourceWAL_def attempt_def fail_def)
    have run: "andthen (on_world (verifyLocalBundle S (ps_source G directory name) expected)) (\<lambda>_. fail (failure NotFound)) s1 = (Inl e :: err + unit, s')"
      using assms Inr br R e0 nr True ex by (simp add: restoreSourceWAL_def attempt_def)
    have "\<exists>w2. verifyLocalBundle S (ps_source G directory name) expected (fst s1) = (Inr (), w2)"
      using andthen_split[OF run]
    proof (elim disjE exE conjE)
      fix e1 assume v: "on_world (verifyLocalBundle S (ps_source G directory name) expected) s1 = (Inl e1, s')" "Inl e = Inl e1"
      then show ?thesis using assms(2) local_errorsD[OF local_on_world[OF local_verifyLocalBundle] v(1)] by simp
    next
      fix u s2 assume "on_world (verifyLocalBundle S (ps_source G directory name) expected) s1 = (Inr u, s2)"
      then show ?thesis by (cases s1) (auto simp: on_world_def split: prod.splits)
    qed
    then have "local_copy (ps_source G directory name) expected (fst s1)" by (auto intro: verifyLocalBundle_ok)
    then show ?thesis using True Inr br R e0 nr ex by auto
  qed
qed

lemma source_call_miss:
  assumes "source_call G v c name destination (w1, d) = (Inl (StatusErr CodeNotFound), s')" "recovery_checks G v c w = (Inr (), w1)"
  shows "miss_justified G v c name destination w d"
proof -
  let ?S = "ps_storage G (rv_store v)"
  obtain r w2 where h: "Hold_check ?S (rv_repo v) (rv_hold v) w1 = (r, w2)" by (cases "Hold_check ?S (rv_repo v) (rv_hold v) w1")
  have r: "r = Inr ()" and run: "answer_beside G (restoreSourceWAL G ?S (rv_files v) (rv_plan v) (physicalWAL c) name destination) (w2, d) = (Inl (StatusErr CodeNotFound), s')"
    using assms(1) h by (auto simp: source_call_def Let_def attempt_def on_world_def fail_def split: if_splits sum.splits)
  from answer_beside_NotFound[OF run] obtain e
    where e: "restoreSourceWAL G ?S (rv_files v) (rv_plan v) (physicalWAL c) name destination (w2, d) = (Inl e, s')" "Is e NotFound" by blast
  from restoreSourceWAL_miss[OF e] h r assms(2) show ?thesis unfolding miss_justified_def Let_def by blast
qed

lemma source_call_ok:
  assumes "source_call G v c name destination s = (Inr u, s')"
  shows "\<exists>x w1. Hold_check (ps_storage G (rv_store v)) (rv_repo v) (rv_hold v) (fst s) = (Inr (), w1) \<and>
    restored (ps_storage G (rv_store v)) (rv_files v) name w1 x \<and> dir_files (snd s') destination = Some x"
proof -
  let ?S = "ps_storage G (rv_store v)"
  obtain w d where s: "s = (w, d)" by force
  obtain r w1 where h: "Hold_check ?S (rv_repo v) (rv_hold v) w = (r, w1)" by (cases "Hold_check ?S (rv_repo v) (rv_hold v) w")
  have run: "restoreSourceWAL G ?S (rv_files v) (rv_plan v) (physicalWAL c) name destination (w1, d) = (Inr u, s')" and r: "r = Inr ()"
    using assms h by (auto simp: source_call_def s Let_def attempt_def on_world_def fail_def answer_beside_ok split: if_splits sum.splits)
  from run have "Restore ?S (rv_files v) name destination (w1, d) = (Inr (), s')"
    by (auto simp: restoreSourceWAL_def ok_runs ok_attempt)
  then show ?thesis using Restore_atomic_result[of ?S "rv_files v" name destination w1 d] h r s by (cases s') auto
qed

lemma admitted_call_answer:
  assumes "admitted_call G A q tuple c destination (w, d) = (r, s')" "r = Inr () \<or> r = Inl (StatusErr CodeNotFound)"
  shows "view_ok (tk_view A w) tuple (rrq_ClusterDefinition q) \<and>
    (r = Inl (StatusErr CodeNotFound) \<and> miss_justified G (tk_view A w) c (rrq_SourceWalName q) destination w d \<or>
     r = Inr () \<and> (\<exists>x w1 w2. recovery_checks G (tk_view A w) c w = (Inr (), w1) \<and>
       Hold_check (ps_storage G (rv_store (tk_view A w))) (rv_repo (tk_view A w)) (rv_hold (tk_view A w)) w1 = (Inr (), w2) \<and>
       restored (ps_storage G (rv_store (tk_view A w))) (rv_files (tk_view A w)) (rrq_SourceWalName q) w2 x \<and>
       dir_files (snd s') destination = Some x))"
proof -
  let ?v = "tk_view A w"
  have v: "view_ok ?v tuple (rrq_ClusterDefinition q)"
  proof (rule ccontr)
    assume "\<not> view_ok ?v tuple (rrq_ClusterDefinition q)"
    then show False using assms
      by (auto simp: admitted_call_def Let_def answer_beside_def fail_def walError_def wal_code_def errRecoveryClosed_def)
  qed
  then have run: "andthen (answer_beside G (on_world (recovery_checks G ?v c))) (\<lambda>_. source_call G ?v c (rrq_SourceWalName q) destination) (w, d) = (r, s')"
    using assms(1) by (simp add: admitted_call_def Let_def)
  from andthen_split[OF run] show ?thesis
  proof (elim disjE exE conjE)
    fix e assume "answer_beside G (on_world (recovery_checks G ?v c)) (w, d) = (Inl e, s')" "r = Inl e"
    then show ?thesis using assms(2)
      local_errorsD[OF local_on_world[OF local_recovery_checks[of G ?v c]], of "(w, d)"] by (cases s') (auto dest!: answer_beside_NotFound)
  next
    fix u s1 assume c: "answer_beside G (on_world (recovery_checks G ?v c)) (w, d) = (Inr u, s1)"
      and sc: "source_call G ?v c (rrq_SourceWalName q) destination s1 = (r, s')"
    obtain w1 where w1: "recovery_checks G ?v c w = (Inr (), w1)" "s1 = (w1, d)"
      using c by (auto simp: answer_beside_ok on_world_def split: prod.splits)
    from assms(2) show ?thesis
    proof
      assume "r = Inr ()"
      then show ?thesis using v source_call_ok[OF sc[unfolded \<open>r = Inr ()\<close>]] w1 by auto
    next
      assume "r = Inl (StatusErr CodeNotFound)"
      then show ?thesis using v source_call_miss[OF _ w1(1)] sc w1(2) by auto
    qed
  qed
qed

section \<open>The command PostgreSQL runs\<close>

lemma Admit_error: "Admit a tuple = (Inl e, a') \<Longrightarrow> e \<noteq> StatusErr CodeNotFound"
  by (auto simp: Admit_def split: if_splits)

lemma answer_refused: "answer_beside G (fail WALInvalid) s = (Inl (StatusErr CodeInvalidArgument), s)"
  by (cases s) (simp add: answer_beside_def fail_def walError_def wal_code_def)

text \<open>The world a callback of a recovery runs in: its task admitted and its slot taken.\<close>

definition call_world :: "('w, 'q, 'c) plugin_sys \<Rightarrow> 'w task_sys \<Rightarrow> rg_tuple \<Rightarrow> 'w \<Rightarrow> 'w" where
  "call_world G A tuple w = snd (ps_take G WalCallbacks (tk_put A (snd (Admit (tk_get A w) tuple)) w))"

lemma recoveryWAL_answer:
  assumes "recoveryWAL_Restore G A (Some q) (w, d) = (r, s')" "r = Inr () \<or> r = Inl (StatusErr CodeNotFound)"
  obtains tuple c destination s2 where "StrictJSON (dec_bytes dec_tuple) (meta_get (rrq_Parameters q) ''recoveryID'') = Inr tuple"
    "ParseCluster (ps_cluster G) (rrq_ClusterDefinition q) = Inr c"
    "recoveryDestination (ps_cluster G) c (rrq_SourceWalName q) (rrq_DestinationFileName q) = Inr destination"
    "admitted_call G A q tuple c destination (call_world G A tuple w, d) = (r, s2)" "snd s' = snd s2"
proof -
  obtain tuple c destination where
    p: "StrictJSON (dec_bytes dec_tuple) (meta_get (rrq_Parameters q) ''recoveryID'') = Inr tuple"
       "ParseCluster (ps_cluster G) (rrq_ClusterDefinition q) = Inr c"
       "recoveryDestination (ps_cluster G) c (rrq_SourceWalName q) (rrq_DestinationFileName q) = Inr destination"
    and m: "rrq_Mode q = ModeRecovery" "length (rrq_Parameters q) = 1"
    using assms by (auto simp: recoveryWAL_Restore_def answer_refused split: if_splits sum.splits)
  let ?m = "andthen (answer_beside G (on_world (acquire G WalCallbacks))) (\<lambda>_ s.
      case admitted_call G A q tuple c destination s of (r, (w, d)) \<Rightarrow> (r, (ps_give G WalCallbacks w, d)))"
  let ?w = "tk_put A (snd (Admit (tk_get A w) tuple)) w"
  have "in_task A tuple ?m (w, d) = (r, s')"
    using assms(1) p m by (simp add: recoveryWAL_Restore_def)
  then obtain w1 where run: "?m (?w, d) = (r, w1)" "snd s' = snd w1"
    using assms(2) by (auto simp: in_task_def dest!: Admit_error split: prod.splits sum.splits)
  from andthen_split[OF run(1)] show ?thesis
  proof (elim disjE exE conjE)
    fix e assume "answer_beside G (on_world (acquire G WalCallbacks)) (?w, d) = (Inl e, w1)" "r = Inl e"
    then show ?thesis using assms(2)
      by (auto simp: answer_beside_Inl on_world_def acquire_def walError_def wal_code_def split: prod.splits if_splits)
  next
    fix u s1 assume t: "answer_beside G (on_world (acquire G WalCallbacks)) (?w, d) = (Inr u, s1)"
      and "(case admitted_call G A q tuple c destination s1 of (r, w, d) \<Rightarrow> (r, ps_give G WalCallbacks w, d)) = (r, w1)"
    then obtain w2 where "admitted_call G A q tuple c destination s1 = (r, (w2, snd w1))" by (auto split: prod.splits)
    moreover have "s1 = (call_world G A tuple w, d)"
      using t by (auto simp: answer_beside_ok on_world_def acquire_def call_world_def split: prod.splits)
    ultimately show ?thesis using that[OF p, of "(w2, snd w1)"] run(2) by simp
  qed
qed

text \<open>C10. PostgreSQL is told that a WAL file does not exist only when recovery can do without it: when \<open>wal-fetch\<close> exits with 1, the
  service was ready, open and serving the tuple that the request carries, decoded strictly, and this plan's cluster definition; after its
  capacity and directory checks the reader's hold was found live, and then the archive reported an authenticated absence; no range that the plan
  requires from the archive touches the file; and the file is either a bundled segment whose local copy, opened after that, has the recorded size
  and digest, or a history file, or a segment of the target timeline at or behind the end of everything the plan needs. Exit 0 leaves in the
  destination the bytes of a retrieval that was verified against the archive after the same checks and with the hold found live; every other
  outcome of the call is the fatal exit 255.\<close>

theorem fetch_answers:
  "case fetchWAL (\<lambda>q s. map_prod Some id (recoveryWAL_Restore G A (Some q) s)) rp name destination (w, d) of (code, s') \<Rightarrow>
     code = 255 \<or>
     (\<exists>tuple c file. StrictJSON (dec_bytes dec_tuple) (render (enc_tuple (rpl_Tuple rp))) = Inr tuple \<and>
        ParseCluster (ps_cluster G) (rpl_ClusterDefinition rp) = Inr c \<and> recoveryDestination (ps_cluster G) c name destination = Inr file \<and>
        (let w1 = call_world G A tuple w; v = tk_view A w1; S = ps_storage G (rv_store v) in
         rv_ready v \<and> \<not> rv_closed v \<and> rpl_Tuple (rv_plan v) = tuple \<and> rpl_ClusterDefinition (rv_plan v) = rpl_ClusterDefinition rp \<and>
         (code = 1 \<and> miss_justified G v c name file w1 d \<or>
          code = 0 \<and> (\<exists>x w2 w3. recovery_checks G v c w1 = (Inr (), w2) \<and> Hold_check S (rv_repo v) (rv_hold v) w2 = (Inr (), w3) \<and>
            restored S (rv_files v) name w3 x \<and> dir_files (snd s') file = Some x))))"
proof -
  let ?q = "\<lparr>rrq_ClusterDefinition = rpl_ClusterDefinition rp, rrq_SourceWalName = name, rrq_DestinationFileName = destination,
          rrq_Mode = ModeRecovery, rrq_Parameters = [(''recoveryID'', render (enc_tuple (rpl_Tuple rp)))]\<rparr>"
  obtain r s' where run: "recoveryWAL_Restore G A (Some ?q) (w, d) = (r, s')" by (cases "recoveryWAL_Restore G A (Some ?q) (w, d)")
  then have f: "fetchWAL (\<lambda>q s. map_prod Some id (recoveryWAL_Restore G A (Some q) s)) rp name destination (w, d) = (fetch_exit r, s')"
    by (simp add: fetchWAL_def)
  show ?thesis
  proof (cases "r = Inr () \<or> r = Inl (StatusErr CodeNotFound)")
    case False
    then show ?thesis using f by (cases r) (auto simp: fetch_exit_def)
  next
    case True
    obtain tuple c fl s2 where a: "StrictJSON (dec_bytes dec_tuple) (render (enc_tuple (rpl_Tuple rp))) = Inr tuple"
      "ParseCluster (ps_cluster G) (rpl_ClusterDefinition rp) = Inr c" "recoveryDestination (ps_cluster G) c name destination = Inr fl"
      "admitted_call G A ?q tuple c fl (call_world G A tuple w, d) = (r, s2)" "snd s' = snd s2"
      by (rule recoveryWAL_answer[OF run True]) (simp add: meta_get_def)
    note ans = admitted_call_answer[OF a(4) True, simplified]
    have "(fetch_exit r = 1 \<longleftrightarrow> r = Inl (StatusErr CodeNotFound)) \<and> (fetch_exit r = 0 \<longleftrightarrow> r = Inr ())" using True by (auto simp: fetch_exit_def)
    then show ?thesis unfolding f prod.case Let_def using ans a(1-3,5)
      by (intro disjI2 exI[of _ tuple] exI[of _ c] exI[of _ fl]) (auto simp: view_ok_def)
  qed
qed

end
