(* ===== verification/Plugin_Kube.thy ===== *)
theory Plugin_Kube
  imports Plugin_Wal
begin

text \<open>
  The manager's access to Kubernetes (cnpgi/kubernetes.go, repository_snapshot.go, version.go): allowlisted reads, validated
  Repository documents with their credentials, the identity of clusters and live Pods, and immutable projections. The
  API server is a record of operations over the world; an object is what the code reads of it.
\<close>

section \<open>Objects and operations\<close>

text \<open>\<open>ko_Owner\<close> is the controller reference (its UID and kind), \<open>ko_Data\<close> the string members of \<open>data\<close>, \<open>ko_Spec\<close> and \<open>ko_Status\<close> the
  marshalled sections, \<open>ko_Phase\<close> the string at \<open>status.phase\<close>.\<close>

record kobject =
  ko_Name :: string
  ko_Namespace :: string
  ko_UID :: string
  ko_ResourceVersion :: string
  ko_Generation :: int
  ko_Deleting :: bool
  ko_Owner :: "(string \<times> string) option"
  ko_Annotations :: metadata
  ko_Data :: "(string \<times> string) list"
  ko_Immutable :: bool
  ko_Spec :: bytes
  ko_Status :: bytes
  ko_Phase :: string

definition empty_object :: kobject where
  "empty_object = \<lparr>ko_Name = [], ko_Namespace = [], ko_UID = [], ko_ResourceVersion = [], ko_Generation = 0, ko_Deleting = False, ko_Owner = None,
     ko_Annotations = [], ko_Data = [], ko_Immutable = False, ko_Spec = [], ko_Status = [], ko_Phase = []\<rparr>"

text \<open>\<open>kb_get\<close> answers \<open>None\<close> for an absent object, \<open>kb_create\<close> answers \<open>None\<close> when it exists already. A page of a listing carries
  the cursor of the next one.\<close>

record 'w kube =
  kb_get :: "string \<Rightarrow> string \<Rightarrow> string \<Rightarrow> ('w, kobject option) act"
  kb_create :: "string \<Rightarrow> kobject \<Rightarrow> ('w, kobject option) act"
  kb_update :: "string \<Rightarrow> kobject \<Rightarrow> ('w, unit) act"
  kb_list :: "string \<Rightarrow> string \<Rightarrow> string \<Rightarrow> string \<Rightarrow> ('w, kobject list \<times> string) act"
  kb_patch :: "string \<Rightarrow> string \<Rightarrow> string \<Rightarrow> bytes \<Rightarrow> ('w, unit) act"
  kb_event :: "string \<Rightarrow> kobject \<Rightarrow> string \<Rightarrow> string \<Rightarrow> ('w, unit) act"
  kb_now :: "'w \<Rightarrow> instant \<times> 'w"

record manager_config =
  mc_OperatorNamespace :: string
  mc_Namespaces :: "string list"
  mc_SecretNames :: "(string \<times> string list) list"

definition secret_allowed :: "manager_config \<Rightarrow> string \<Rightarrow> string \<Rightarrow> bool" where
  "secret_allowed a namespace name = (case map_of (mc_SecretNames a) namespace of None \<Rightarrow> False | Some ns \<Rightarrow> name \<in> set ns)"

definition API_Get :: "manager_config \<Rightarrow> 'w kube \<Rightarrow> string \<Rightarrow> string \<Rightarrow> string \<Rightarrow> ('w, kobject option) act" where
  "API_Get a B gvr namespace name =
     (if namespace \<notin> set (mc_Namespaces a) \<or> name = [] then fail (PlainErr ''namespace/reference is not allowlisted'')
      else if gvr = ''secrets'' \<and> \<not> secret_allowed a namespace name then fail (PlainErr ''Secret name is not allowlisted'')
      else kb_get B gvr namespace name)"

text \<open>A read whose absence is an error like any other.\<close>

definition required :: "err \<Rightarrow> ('w, 'a option) act \<Rightarrow> ('w, 'a) act" where
  "required e m = attempt m (\<lambda>r. case r of Inr (Some x) \<Rightarrow> ret x | _ \<Rightarrow> fail e)"

definition NotFoundErr :: err where
  "NotFoundErr = PlainErr ''not found''"

definition API_Required :: "manager_config \<Rightarrow> 'w kube \<Rightarrow> string \<Rightarrow> string \<Rightarrow> string \<Rightarrow> ('w, kobject) act" where
  "API_Required a B gvr namespace name = andthen (API_Get a B gvr namespace name) (\<lambda>x. case x of None \<Rightarrow> fail NotFoundErr | Some v \<Rightarrow> ret v)"

section \<open>Credentials\<close>

text \<open>\<open>base64.StdEncoding.DecodeString\<close>: line breaks are skipped, padding is required and the unused bits are ignored.\<close>

definition b64_value :: "char \<Rightarrow> nat option" where
  "b64_value ch = (let n = of_char ch :: nat in
     if 65 \<le> n \<and> n \<le> 90 then Some (n - 65) else if 97 \<le> n \<and> n \<le> 122 then Some (n - 71) else if 48 \<le> n \<and> n \<le> 57 then Some (n + 4)
     else if n = 43 then Some 62 else if n = 47 then Some 63 else None)"

fun b64_groups :: "string \<Rightarrow> bytes option" where
  "b64_groups [] = Some []"
| "b64_groups [a, b, x, y] = (case (b64_value a, b64_value b) of
     (Some p, Some q) \<Rightarrow>
       if x = CHR ''='' then (if y = CHR ''='' then Some [char_of (p * 4 + q div 16)] else None)
       else (case b64_value x of
           None \<Rightarrow> None
         | Some r \<Rightarrow>
            if y = CHR ''='' then Some [char_of (p * 4 + q div 16), char_of (q * 16 + r div 4)]
            else (case b64_value y of None \<Rightarrow> None | Some s \<Rightarrow> Some [char_of (p * 4 + q div 16), char_of (q * 16 + r div 4), char_of (r * 64 + s)]))
   | _ \<Rightarrow> None)"
| "b64_groups (a # b # x # y # e # es) = (case (b64_value a, b64_value b, b64_value x, b64_value y) of
     (Some p, Some q, Some r, Some s) \<Rightarrow>
       map_option (\<lambda>bs. char_of (p * 4 + q div 16) # char_of (q * 16 + r div 4) # char_of (r * 64 + s) # bs) (b64_groups (e # es))
   | _ \<Rightarrow> None)"
| "b64_groups _ = None"

definition b64_decode :: "string \<Rightarrow> bytes option" where
  "b64_decode s = b64_groups (filter (\<lambda>ch. ch \<noteq> CHR 0x0a \<and> ch \<noteq> CHR 0x0d) s)"

definition data_string :: "kobject \<Rightarrow> string \<Rightarrow> string" where
  "data_string ob key = (case map_of (ko_Data ob) key of Some v \<Rightarrow> v | None \<Rightarrow> [])"

definition secret_bytes :: "kobject \<Rightarrow> string \<Rightarrow> err + bytes" where
  "secret_bytes ob key = (let encoded = data_string ob key in
     if int (length encoded) > 92160 then Inl (PlainErr ''invalid repository credentials'')
     else case b64_decode encoded of
       None \<Rightarrow> Inl (PlainErr ''invalid repository credentials'')
     | Some b \<Rightarrow> if b = [] \<or> int (length b) > 65536 then Inl (PlainErr ''invalid repository credentials'') else Inr b)"

text \<open>One selector: a Secret is read once, whatever the number of keys taken from it.\<close>

definition take_secret :: "manager_config \<Rightarrow> 'w kube \<Rightarrow> string \<Rightarrow> selector option \<Rightarrow> (string \<times> kobject) list \<times> bytes list \<Rightarrow>
    ('w, (string \<times> kobject) list \<times> bytes list) act" where
  "take_secret a B namespace sel = (\<lambda>(secrets, out). case sel of
     None \<Rightarrow> ret (secrets, out @ [[]])
   | Some s \<Rightarrow>
      andthen (case map_of secrets (sel_Name s) of
          Some ob \<Rightarrow> ret (secrets, ob)
        | None \<Rightarrow> andthen (required (PlainErr ''repository credentials unavailable'') (API_Get a B ''secrets'' namespace (sel_Name s))) (\<lambda>ob.
            ret ((sel_Name s, ob) # secrets, ob))) (\<lambda>(secrets, ob).
      andthen (lift (secret_bytes ob (sel_Key s))) (\<lambda>b. ret (secrets, out @ [b]))))"

definition snapshot_trust :: "('w, 'q, 'c) plugin_sys \<Rightarrow> manager_config \<Rightarrow> 'w kube \<Rightarrow> string \<Rightarrow> selector option \<Rightarrow> ('w, bytes) act" where
  "snapshot_trust G a B namespace sel = (case sel of
     None \<Rightarrow> ret []
   | Some s \<Rightarrow>
      andthen (required (PlainErr ''repository trust unavailable'') (API_Get a B ''configmaps'' namespace (sel_Name s))) (\<lambda>ob.
      let ca = data_string ob (sel_Key s) in
      if int (length ca) > 262144 then fail (PlainErr ''invalid repository trust'')
      else andthen (CAPool (ps_proj G) (ps_trust G) ca False) (\<lambda>_. ret ca)))"

definition repositorySnapshot :: "('w, 'q, 'c) plugin_sys \<Rightarrow> manager_config \<Rightarrow> 'w kube \<Rightarrow> string \<Rightarrow> 'q repo_spec \<Rightarrow> ('w, 'q snapshot) act" where
  "repositorySnapshot G a B namespace spec = (let s3 = sp_S3 spec in
     andthen (each_fold (take_secret a B namespace) [Some (s3_AccessKeySecret s3), Some (s3_SecretKeySecret s3), s3_SessionTokenSecret s3] ([], [])) (\<lambda>(_, out).
     andthen (snapshot_trust G a B namespace (s3_CAConfigMap s3)) (\<lambda>ca.
     ret \<lparr>sn_Spec = spec, sn_AccessKey = out ! 0, sn_SecretKey = out ! 1, sn_SessionToken = out ! 2, sn_CA = ca\<rparr>)))"

section \<open>Repositories and clusters\<close>

text \<open>\<open>json.Marshal\<close> of a section that came from JSON does not fail.\<close>

definition API_Repository :: "('w, 'q, 'c) plugin_sys \<Rightarrow> manager_config \<Rightarrow> 'w kube \<Rightarrow> string \<Rightarrow> string \<Rightarrow> ('w, 'q repo_spec) act" where
  "API_Repository G a B namespace name =
     andthen (required (PlainErr ''Repository unavailable'') (API_Get a B ''repositories'' namespace name)) (\<lambda>ob.
     andthen (lift (ps_decode G (ko_Spec ob))) (\<lambda>spec.
     andthen (repositorySnapshot G a B namespace spec) (\<lambda>_. ret spec)))"

definition ValidateRepositories :: "('w, 'q, 'c) plugin_sys \<Rightarrow> manager_config \<Rightarrow> 'w kube \<Rightarrow> cluster \<Rightarrow> ('w, 'q repo_spec \<times> 'q repo_spec option) act" where
  "ValidateRepositories G a B c = (let namespace = om_Namespace (cl_Metadata c) in
     andthen (lift (Repositories (ps_cluster G) c)) (\<lambda>(destination, source).
     andthen (API_Repository G a B namespace destination) (\<lambda>dst.
     if source = [] then ret (dst, None)
     else andthen (API_Repository G a B namespace source) (\<lambda>src.
       if sp_RepositoryID dst = sp_RepositoryID src then fail (PlainErr ''restore destination must use a distinct repository lineage'')
       else ret (dst, Some src)))))"

definition VerifyCluster :: "manager_config \<Rightarrow> 'w kube \<Rightarrow> cluster \<Rightarrow> ('w, unit) act" where
  "VerifyCluster a B c = (let m = cl_Metadata c in
     andthen (API_Required a B ''clusters'' (om_Namespace m) (om_Name m)) (\<lambda>actual.
     if om_UID m = [] \<or> ko_UID actual \<noteq> om_UID m then fail (PlainErr ''lifecycle Cluster identity mismatch'') else ret ()))"

text \<open>The type and metadata of a decoded live Pod.\<close>

record pod_identity =
  pid_Kind :: string
  pid_APIVersion :: string
  pid_Metadata :: object_meta

definition VerifyLivePod :: "manager_config \<Rightarrow> 'w kube \<Rightarrow> (bytes \<Rightarrow> pod_identity option) \<Rightarrow> cluster \<Rightarrow> bytes \<Rightarrow> ('w, unit) act" where
  "VerifyLivePod a B decode c data = (let namespace = om_Namespace (cl_Metadata c) in
     andthen (VerifyCluster a B c) (\<lambda>_.
     case (if int (length data) > 2097152 then None else decode data) of
       None \<Rightarrow> fail (PlainErr ''invalid live Pod identity'')
     | Some p \<Rightarrow>
        if pid_Kind p \<noteq> ''Pod'' \<or> pid_APIVersion p \<noteq> ''v1'' \<or> om_Namespace (pid_Metadata p) \<noteq> namespace \<or> om_UID (pid_Metadata p) = []
        then fail (PlainErr ''invalid live Pod identity'')
        else andthen (required (PlainErr ''live Pod identity unavailable'') (API_Get a B ''pods'' namespace (om_Name (pid_Metadata p)))) (\<lambda>actual.
          if ko_UID actual \<noteq> om_UID (pid_Metadata p) \<or> map_option fst (ko_Owner actual) \<noteq> Some (om_UID (cl_Metadata c))
          then fail (PlainErr ''live Pod is not owned by this Cluster'') else ret ())))"

section \<open>Projections\<close>

definition owned_object :: "cluster \<Rightarrow> string \<Rightarrow> (string \<times> string) list \<Rightarrow> bool \<Rightarrow> kobject" where
  "owned_object c name data immutable = empty_object\<lparr>ko_Name := name, ko_Namespace := om_Namespace (cl_Metadata c),
     ko_Owner := Some (om_UID (cl_Metadata c), ''Cluster''), ko_Data := data, ko_Immutable := immutable\<rparr>"

definition projection_ok :: "cluster \<Rightarrow> (string \<times> string) list \<Rightarrow> kobject \<Rightarrow> bool" where
  "projection_ok c data existing \<longleftrightarrow> map_option fst (ko_Owner existing) = Some (om_UID (cl_Metadata c)) \<and> ko_Immutable existing \<and>
     set (ko_Data existing) = set data"

definition EnsureProjection :: "manager_config \<Rightarrow> 'w kube \<Rightarrow> cluster \<Rightarrow> string \<Rightarrow> (string \<times> string) list \<Rightarrow> ('w, unit) act" where
  "EnsureProjection a B c name data = (let namespace = om_Namespace (cl_Metadata c);
       compare = (\<lambda>existing. if projection_ok c data existing then ret () else fail (PlainErr ''owned projection or immutable target set mismatch'')) in
     andthen (API_Get a B ''configmaps'' namespace name) (\<lambda>x. case x of
       Some existing \<Rightarrow> compare existing
     | None \<Rightarrow> andthen (kb_create B ''configmaps'' (owned_object c name data True)) (\<lambda>created. case created of
         Some _ \<Rightarrow> ret ()
       | None \<Rightarrow> andthen (API_Required a B ''configmaps'' namespace name) compare)))"

section \<open>The operator\<close>

definition OperatorImage :: string where
  "OperatorImage = ''ghcr.io/cloudnative-pg/cloudnative-pg@sha256:a2701eb97cdd2a34b1fdb2cb51987f544b706e40bec72ae7146cd8580efefebb''"

record deployment =
  dp_Replicas :: "int option"
  dp_Generation :: int
  dp_ObservedGeneration :: int
  dp_Updated :: int
  dp_Available :: int
  dp_Current :: int
  dp_Images :: "string list"

definition rolled_out :: "deployment \<Rightarrow> bool" where
  "rolled_out d = (case dp_Replicas d of
     None \<Rightarrow> False
   | Some n \<Rightarrow> n \<ge> 1 \<and> dp_ObservedGeneration d = dp_Generation d \<and> dp_Updated d = n \<and> dp_Available d = n \<and> dp_Current d = n \<and>
       dp_Images d = [OperatorImage])"

text \<open>\<open>read\<close> is the request for the Deployment, \<open>decode\<close> its conversion.\<close>

definition VerifyOperator :: "manager_config \<Rightarrow> (string \<Rightarrow> ('w, kobject) act) \<Rightarrow> (kobject \<Rightarrow> deployment option) \<Rightarrow> ('w, unit) act" where
  "VerifyOperator a read decode =
     (if mc_OperatorNamespace a = [] then fail (PlainErr ''CNPG operator namespace is required'')
      else attempt (read (mc_OperatorNamespace a)) (\<lambda>r. case r of
        Inl _ \<Rightarrow> fail (PlainErr ''CNPG operator version unavailable'')
      | Inr ob \<Rightarrow> (case decode ob of
          None \<Rightarrow> fail (PlainErr ''invalid CNPG Deployment'')
        | Some d \<Rightarrow> if rolled_out d then ret () else fail (PlainErr ''require fully rolled out pinned CNPG v1.30.0 operator''))))"

end
