(* ===== verification/Plugin_Operation.thy ===== *)
theory Plugin_Operation
  imports Plugin_Kube "HOL-Library.AList"
begin

text \<open>
  The durable record of a recovery operation (cnpgi/recovery_operation.go, recovery_reconcile.go): a ConfigMap in one of the states active,
  uncertain and completed, owned by the Cluster. The manager that created it watches the Pods of the recovery without a gap; only
  that watch can complete the operation, and only a completed operation gives the source's lifetime hold back. \<open>select\<close> loops run over
  the list of what they receive.
\<close>

section \<open>The record\<close>

record recovery_operation =
  ro_Placement :: recovery_placement
  ro_Targets :: rg_config
  ro_ObserverID :: string
  ro_State :: string
  ro_CompletedJobUID :: string
  ro_TerminatedPodUIDs :: "string list"
  ro_LifetimeReleased :: bool
  ro_LastWarningAt :: string

definition enc_placement :: "recovery_placement \<Rightarrow> json" where
  "enc_placement p = JObj [(''clusterUID'', JStr (rpp_ClusterUID p)), (''namespace'', JStr (rpp_Namespace p)), (''cluster'', JStr (rpp_Cluster p)),
     (''operationID'', JStr (rpp_OperationID p)), (''bootstrapSHA256'', JStr (rpp_BootstrapSHA256 p)), (''source'', JStr (rpp_Source p)),
     (''destination'', JStr (rpp_Destination p)), (''sourceConfigSHA256'', JStr (rpp_SourceConfigSHA256 p)),
     (''destinationConfigSHA256'', JStr (rpp_DestinationConfigSHA256 p))]"

definition enc_targets :: "rg_config \<Rightarrow> json" where
  "enc_targets c = JObj [(''clusterUID'', JStr (cfg_ClusterUID c)), (''operationUID'', JStr (cfg_OperationUID c)),
     (''targets'', JArr (map (\<lambda>t. JObj [(''pvcUID'', JStr (tgt_PVCUID t)), (''mount'', JStr (tgt_Mount t))]) (cfg_Targets c)))]"

text \<open>\<open>omitempty\<close> leaves the empty members out.\<close>

definition enc_operation :: "recovery_operation \<Rightarrow> json" where
  "enc_operation v = JObj ([(''placement'', enc_placement (ro_Placement v)), (''targets'', enc_targets (ro_Targets v)), (''observerID'', JStr (ro_ObserverID v)),
     (''state'', JStr (ro_State v))] @
     (if ro_CompletedJobUID v = [] then [] else [(''completedJobUID'', JStr (ro_CompletedJobUID v))]) @
     (if ro_TerminatedPodUIDs v = [] then [] else [(''terminatedPodUIDs'', JArr (map JStr (ro_TerminatedPodUIDs v)))]) @
     [(''lifetimeReleased'', JBool (ro_LifetimeReleased v))] @
     (if ro_LastWarningAt v = [] then [] else [(''lastWarningAt'', JStr (ro_LastWarningAt v))]))"

definition dec_target :: "json \<Rightarrow> rg_target option" where
  "dec_target = dec_into [(''pvcUID'', into dec_str (\<lambda>v t. t\<lparr>tgt_PVCUID := v\<rparr>)), (''mount'', into dec_str (\<lambda>v t. t\<lparr>tgt_Mount := v\<rparr>))]
     \<lparr>tgt_PVCUID = [], tgt_Mount = []\<rparr>"

definition zero_config :: rg_config where
  "zero_config = \<lparr>cfg_ClusterUID = [], cfg_OperationUID = [], cfg_Targets = []\<rparr>"

definition dec_targets :: "json \<Rightarrow> rg_config option" where
  "dec_targets = dec_into [(''clusterUID'', into dec_str (\<lambda>v c. c\<lparr>cfg_ClusterUID := v\<rparr>)), (''operationUID'', into dec_str (\<lambda>v c. c\<lparr>cfg_OperationUID := v\<rparr>)),
     (''targets'', into (dec_slice dec_target) (\<lambda>v c. c\<lparr>cfg_Targets := v\<rparr>))] zero_config"

definition dec_operation :: "json \<Rightarrow> recovery_operation option" where
  "dec_operation j = (case dec_RecoveryPlacement JNull of
     None \<Rightarrow> None
   | Some zero \<Rightarrow> dec_into
     [(''placement'', into dec_RecoveryPlacement (\<lambda>v p. p\<lparr>ro_Placement := v\<rparr>)), (''targets'', into dec_targets (\<lambda>v p. p\<lparr>ro_Targets := v\<rparr>)),
      (''observerID'', into dec_str (\<lambda>v p. p\<lparr>ro_ObserverID := v\<rparr>)), (''state'', into dec_str (\<lambda>v p. p\<lparr>ro_State := v\<rparr>)),
      (''completedJobUID'', into dec_str (\<lambda>v p. p\<lparr>ro_CompletedJobUID := v\<rparr>)),
      (''terminatedPodUIDs'', into (dec_slice dec_str) (\<lambda>v p. p\<lparr>ro_TerminatedPodUIDs := v\<rparr>)),
      (''lifetimeReleased'', into dec_bool (\<lambda>v p. p\<lparr>ro_LifetimeReleased := v\<rparr>)), (''lastWarningAt'', into dec_str (\<lambda>v p. p\<lparr>ro_LastWarningAt := v\<rparr>))]
     \<lparr>ro_Placement = zero, ro_Targets = zero_config, ro_ObserverID = [], ro_State = [], ro_CompletedJobUID = [], ro_TerminatedPodUIDs = [],
      ro_LifetimeReleased = False, ro_LastWarningAt = []\<rparr> j)"

definition operationName :: "cluster \<Rightarrow> string" where
  "operationName c = om_Name (cl_Metadata c) @ ''-cb-recovery''"

definition operationAnnotation :: string where
  "operationAnnotation = ''cnpg-backup.djosh34.github.io/recovery''"

definition activeOperation :: "('w, 'q, 'c) plugin_sys \<Rightarrow> nat \<Rightarrow> recovery_placement \<Rightarrow> ('w, unit) act" where
  "activeOperation G root p =
     andthen (Proj_Read (ps_proj G) root ''operation.json'' 131072) (\<lambda>b. case StrictJSON (dec_bytes dec_operation) b of
       Inl _ \<Rightarrow> fail errRecoveryClosed
     | Inr st \<Rightarrow> if ro_State st \<noteq> ''active'' \<or> ro_Placement st \<noteq> p then fail errRecoveryClosed else ret ())"

definition operationFrom :: "cluster_env \<Rightarrow> kobject \<Rightarrow> cluster \<Rightarrow> err + recovery_operation" where
  "operationFrom K ob c =
     (if ko_Owner ob \<noteq> Some (om_UID (cl_Metadata c), ''Cluster'') \<or> ko_Deleting ob then Inl ErrIdentity
      else case map_of (ko_Data ob) ''operation.json'' of
        None \<Rightarrow> Inl ErrInvalid
      | Some text \<Rightarrow>
         if int (length text) > 131072 then Inl ErrInvalid
         else case StrictJSON (dec_bytes dec_operation) text of
           Inl _ \<Rightarrow> Inl ErrInvalid
         | Inr st \<Rightarrow>
            if rpp_ClusterUID (ro_Placement st) \<noteq> om_UID (cl_Metadata c) \<or> rpp_OperationID (ro_Placement st) \<noteq> OperationUID K c \<or>
               Config_Validate (ro_Targets st) \<noteq> Inr () then Inl ErrIdentity
            else Inr st)"

definition writeOperation :: "'w kube \<Rightarrow> kobject \<Rightarrow> recovery_operation \<Rightarrow> ('w, unit) act" where
  "writeOperation B ob next = kb_update B ''configmaps'' (ob\<lparr>ko_Data := [(''operation.json'', render (enc_operation next))]\<rparr>)"

definition recoveryWarning :: "'w kube \<Rightarrow> cluster \<Rightarrow> string \<Rightarrow> ('w, unit) act" where
  "recoveryWarning B c reason = (\<lambda>w. (Inr (), snd (kb_event B (om_Name (cl_Metadata c) @ ''-recovery-'')
     (empty_object\<lparr>ko_Name := om_Name (cl_Metadata c), ko_Namespace := om_Namespace (cl_Metadata c), ko_UID := om_UID (cl_Metadata c)\<rparr>) reason
     ''Recovery state is uncertain. Source backups remain protected from deletion. Retry with a fresh Cluster and fresh target PVCs.'' w)))"

section \<open>The next record\<close>

text \<open>What the manager writes over the record it has read, when it writes; \<open>process\<close> is its own identity.\<close>

definition mark_uncertain :: "recovery_operation \<Rightarrow> recovery_operation" where
  "mark_uncertain st = st\<lparr>ro_State := ''uncertain''\<rparr>"

definition mark_completed :: "string \<Rightarrow> string list \<Rightarrow> recovery_operation \<Rightarrow> recovery_operation" where
  "mark_completed job pods st = st\<lparr>ro_State := ''completed'', ro_CompletedJobUID := job, ro_TerminatedPodUIDs := pods\<rparr>"

definition mark_released :: "recovery_operation \<Rightarrow> recovery_operation" where
  "mark_released st = st\<lparr>ro_LifetimeReleased := True\<rparr>"

definition completed_record :: "recovery_operation \<Rightarrow> bool" where
  "completed_record st \<longleftrightarrow> ro_State st = ''completed'' \<and> ro_CompletedJobUID st \<noteq> [] \<and> ro_TerminatedPodUIDs st \<noteq> []"

section \<open>The lifetime hold\<close>

text \<open>\<open>ms_lifetime\<close> replaces the storage access below when it is set. \<open>ms_watch\<close> opens the stream: whether its start-up timer had fired, and
  the result.\<close>

record ('w, 'q) manager_seam =
  ms_lifetime :: "(cluster \<Rightarrow> 'q repo_spec \<Rightarrow> bool \<Rightarrow> ('w, unit) act) option"
  ms_temp :: "('w, unit) act"
  ms_watch :: "string \<Rightarrow> 'w \<Rightarrow> (bool \<times> (err + unit)) \<times> 'w"
  ms_process :: string
  ms_marshal :: "'q repo_spec \<Rightarrow> bytes"

definition changeRecoveryLifetime :: "('w, 'q, 'c) plugin_sys \<Rightarrow> manager_config \<Rightarrow> 'w kube \<Rightarrow> ('w, 'q) manager_seam \<Rightarrow> cluster \<Rightarrow> 'q repo_spec \<Rightarrow> bool \<Rightarrow> ('w, unit) act" where
  "changeRecoveryLifetime G a B M c source release = (case ms_lifetime M of
     Some lifetime \<Rightarrow> lifetime c source release
   | None \<Rightarrow>
      andthen (repositorySnapshot G a B (om_Namespace (cl_Metadata c)) source) (\<lambda>snap.
      andthen (lift (Snapshot_Store (ps_config G) (ps_new G) snap)) (\<lambda>st. let S = ps_storage G st in
      andthen (ms_temp M) (\<lambda>_.
      andthen (OpenSource S (sp_RepositoryID source) True) (\<lambda>r.
      if release then ReleaseLifetimeAfterTermination S r (om_UID (cl_Metadata c)) (OperationUID (ps_cluster G) c)
      else EstablishLifetime S r (om_UID (cl_Metadata c)) (OperationUID (ps_cluster G) c))))))"

text \<open>What the operations below use of the manager.\<close>

record ('w, 'q) operation_sys =
  rx_cluster :: cluster_env
  rx_repository :: "string \<Rightarrow> string \<Rightarrow> ('w, 'q repo_spec) act"
  rx_lifetime :: "cluster \<Rightarrow> 'q repo_spec \<Rightarrow> bool \<Rightarrow> ('w, unit) act"
  rx_watch :: "string \<Rightarrow> 'w \<Rightarrow> (bool \<times> (err + unit)) \<times> 'w"
  rx_process :: string
  rx_marshal :: "'q repo_spec \<Rightarrow> bytes"

definition manager_operations :: "('w, 'q, 'c) plugin_sys \<Rightarrow> manager_config \<Rightarrow> 'w kube \<Rightarrow> ('w, 'q) manager_seam \<Rightarrow> ('w, 'q) operation_sys" where
  "manager_operations G a B M = \<lparr>rx_cluster = ps_cluster G, rx_repository = API_Repository G a B, rx_lifetime = changeRecoveryLifetime G a B M,
     rx_watch = ms_watch M, rx_process = ms_process M, rx_marshal = ms_marshal M\<rparr>"

section \<open>Termination\<close>

record container_terminated =
  ct_ExitCode :: int
  ct_Finished :: bool
  ct_Reason :: string

record container_status =
  cst_Name :: string
  cst_ContainerID :: string
  cst_Terminated :: "container_terminated option"

record recovery_pod =
  pd_UID :: string
  pd_ResourceVersion :: string
  pd_Deleting :: bool
  pd_Owner :: "string option"
  pd_Phase :: string
  pd_Reason :: string
  pd_Containers :: "string list"
  pd_InitContainers :: "string list"
  pd_Ephemeral :: "string list"
  pd_ContainerStatuses :: "container_status list"
  pd_InitStatuses :: "container_status list"
  pd_EphemeralStatuses :: "container_status list"

fun status_loop :: "container_status list \<Rightarrow> string list \<Rightarrow> string list option" where
  "status_loop [] seen = Some seen"
| "status_loop (s # ss) seen = (case cst_Terminated s of
     None \<Rightarrow> None
   | Some t \<Rightarrow> if \<not> ct_Finished t \<or> cst_ContainerID s = [] \<or> cst_Name s \<in> set seen then None
       else if ct_Reason t \<in> {''ContainerStatusUnknown'', ''Unknown'', ''NodeLost''} then None
       else status_loop ss (cst_Name s # seen))"

definition check_statuses :: "string list \<Rightarrow> container_status list \<Rightarrow> bool" where
  "check_statuses names statuses \<longleftrightarrow> length names = length statuses \<and>
     (case status_loop statuses [] of None \<Rightarrow> False | Some seen \<Rightarrow> list_all (\<lambda>n. n \<in> set seen) names)"

definition terminatedPod :: "recovery_pod \<Rightarrow> bool" where
  "terminatedPod p \<longleftrightarrow>
     \<not> (pd_Deleting p \<or> (pd_Phase p \<noteq> ''Succeeded'' \<and> pd_Phase p \<noteq> ''Failed'') \<or> pd_Reason p \<in> {''NodeLost'', ''Shutdown'', ''Evicted''}) \<and>
     (pd_Phase p = ''Succeeded'' \<longrightarrow> list_all (\<lambda>s. case cst_Terminated s of None \<Rightarrow> False | Some t \<Rightarrow> ct_ExitCode t = 0) (pd_ContainerStatuses p)) \<and>
     check_statuses (pd_Containers p) (pd_ContainerStatuses p) \<and> check_statuses (pd_InitContainers p) (pd_InitStatuses p) \<and>
     check_statuses (pd_Ephemeral p) (pd_EphemeralStatuses p)"

record recovery_job =
  jb_UID :: string
  jb_Operation :: string
  jb_Owner :: "string option"
  jb_Deleting :: bool
  jb_Conditions :: "(string \<times> string) list"
  jb_Active :: int
  jb_Succeeded :: int
  jb_Failed :: int
  jb_Parallelism :: "int option"
  jb_Completions :: "int option"
  jb_Uncounted :: "(nat \<times> nat) option"

text \<open>The conversions of a listed object into the types of Kubernetes.\<close>

record kube_types =
  kt_job :: "kobject \<Rightarrow> recovery_job option"
  kt_pod :: "kobject \<Rightarrow> recovery_pod option"

text \<open>The items of one page, at most 1024 in all.\<close>

fun visit_items :: "(kobject \<Rightarrow> 's \<Rightarrow> err + 's) \<Rightarrow> kobject list \<Rightarrow> nat \<Rightarrow> 's \<Rightarrow> err + nat \<times> 's" where
  "visit_items f [] n s = Inr (n, s)"
| "visit_items f (x # xs) n s = (if n + 1 > 1024 then Inl ErrCapacity else res_bind (f x s) (visit_items f xs (n + 1)))"

lemma visit_items_count: "visit_items f xs n s = Inr (n', s') \<Longrightarrow> n' = n + length xs \<and> (xs = [] \<or> n' \<le> 1024)"
proof (induction xs arbitrary: n s)
  case (Cons x xs)
  then obtain s1 where "visit_items f xs (n + 1) s1 = Inr (n', s')" "n + 1 \<le> 1024" by (auto split: if_splits)
  with Cons.IH[of "n + 1" s1] show ?case by auto
qed simp

definition cluster_selector :: "cluster \<Rightarrow> string" where
  "cluster_selector c = ''cnpg.io/cluster='' @ om_Name (cl_Metadata c)"

function visit_pages :: "'w kube \<Rightarrow> string \<Rightarrow> cluster \<Rightarrow> (kobject \<Rightarrow> 's \<Rightarrow> err + 's) \<Rightarrow> string \<Rightarrow> nat \<Rightarrow> 's \<Rightarrow> ('w, 's) act" where
  "visit_pages B gvr c f cursor n s w = (case kb_list B gvr (om_Namespace (cl_Metadata c)) (cluster_selector c) cursor w of
     (Inl e, w') \<Rightarrow> (Inl e, w')
   | (Inr (items, next), w') \<Rightarrow> (case visit_items f items n s of
       Inl e \<Rightarrow> (Inl e, w')
     | Inr (n', s') \<Rightarrow>
        if next = [] then (Inr s', w')
        else if next = cursor \<or> items = [] then (Inl ErrCorrupt, w')
        else visit_pages B gvr c f next n' s' w'))"
  by pat_completeness auto
termination
  by (relation "measure (\<lambda>(B, gvr, c, f, cursor, n, s, w). 1025 - n)") (auto dest!: visit_items_count intro!: diff_less_mono2)

declare visit_pages.simps [simp del]

definition visitRecoveryObjects :: "'w kube \<Rightarrow> string \<Rightarrow> cluster \<Rightarrow> (kobject \<Rightarrow> 's \<Rightarrow> err + 's) \<Rightarrow> 's \<Rightarrow> ('w, 's) act" where
  "visitRecoveryObjects B gvr c f s = visit_pages B gvr c f [] 0 s"

definition find_job :: "kube_types \<Rightarrow> cluster_env \<Rightarrow> cluster \<Rightarrow> kobject \<Rightarrow> recovery_job option \<Rightarrow> err + recovery_job option" where
  "find_job T K c ob found = (case kt_job T ob of
     None \<Rightarrow> Inl errRecoveryClosed
   | Some j \<Rightarrow>
      if jb_Operation j \<noteq> OperationUID K c then Inr found
      else if jb_Owner j \<noteq> Some (om_UID (cl_Metadata c)) \<or> jb_Deleting j \<or> found \<noteq> None then Inl errRecoveryClosed
      else Inr (Some j))"

text \<open>\<open>None\<close>: a failed condition.\<close>

fun job_complete :: "(string \<times> string) list \<Rightarrow> bool \<Rightarrow> bool option" where
  "job_complete [] complete = Some complete"
| "job_complete ((typ, status) # cs) complete =
     (if typ = ''Failed'' \<and> status = ''True'' then None
      else job_complete cs (complete \<or> (typ = ''Complete'' \<and> status = ''True'')))"

definition job_settled :: "recovery_job \<Rightarrow> bool" where
  "job_settled j \<longleftrightarrow> jb_UID j \<noteq> [] \<and> jb_Active j = 0 \<and> jb_Succeeded j = 1 \<and> jb_Parallelism j = Some 1 \<and> jb_Completions j = Some 1 \<and>
     (case jb_Uncounted j of None \<Rightarrow> True | Some (s, f) \<Rightarrow> s = 0 \<and> f = 0)"

record pod_count =
  pc_waiting :: bool
  pc_ids :: "string list"
  pc_succeeded :: int
  pc_failed :: int

definition count_pod :: "kube_types \<Rightarrow> cluster_env \<Rightarrow> cluster \<Rightarrow> recovery_job \<Rightarrow> (string \<times> string) list \<Rightarrow> kobject \<Rightarrow> pod_count \<Rightarrow> err + pod_count" where
  "count_pod T K c j observed ob n =
     (if meta_get (ko_Annotations ob) operationAnnotation \<noteq> OperationUID K c then Inr n
      else case kt_pod T ob of
        None \<Rightarrow> Inl errRecoveryClosed
      | Some p \<Rightarrow>
         if map_of observed (pd_UID p) \<noteq> Some (pd_ResourceVersion p) then Inr (n\<lparr>pc_waiting := True\<rparr>)
         else if pd_Owner p \<noteq> Some (jb_UID j) \<or> \<not> terminatedPod p then Inl errRecoveryClosed
         else Inr (n\<lparr>pc_ids := pc_ids n @ [pd_UID p],
             pc_succeeded := pc_succeeded n + (if pd_Phase p = ''Succeeded'' then 1 else 0),
             pc_failed := pc_failed n + (if pd_Phase p = ''Succeeded'' then 0 else 1)\<rparr>))"

text \<open>\<open>None\<close>: not yet.\<close>

definition count_pods :: "'w kube \<Rightarrow> kube_types \<Rightarrow> cluster_env \<Rightarrow> cluster \<Rightarrow> recovery_job \<Rightarrow> (string \<times> string) list \<Rightarrow> ('w, (string \<times> string list) option) act" where
  "count_pods B T K c j observed =
     andthen (visitRecoveryObjects B ''pods'' c (count_pod T K c j observed) \<lparr>pc_waiting = False, pc_ids = [], pc_succeeded = 0, pc_failed = 0\<rparr>) (\<lambda>n.
     if pc_waiting n then ret None
     else if length (pc_ids n) \<noteq> length observed \<or> pc_succeeded n \<noteq> 1 \<or> pc_failed n \<noteq> jb_Failed j then fail errRecoveryClosed
     else ret (Some (jb_UID j, sort_slice (<) (pc_ids n))))"

definition recoveryTermination :: "'w kube \<Rightarrow> kube_types \<Rightarrow> cluster_env \<Rightarrow> cluster \<Rightarrow> (string \<times> string) list \<Rightarrow> ('w, (string \<times> string list) option) act" where
  "recoveryTermination B T K c observed =
     andthen (visitRecoveryObjects B ''jobs'' c (find_job T K c) None) (\<lambda>found. case found of
       None \<Rightarrow> if observed \<noteq> [] then fail errRecoveryClosed else ret None
     | Some j \<Rightarrow> (case job_complete (jb_Conditions j) False of
         None \<Rightarrow> fail errRecoveryClosed
       | Some complete \<Rightarrow>
          if \<not> complete then ret None
          else if \<not> job_settled j then fail errRecoveryClosed
          else count_pods B T K c j observed))"

section \<open>Starting an observation\<close>

definition rfc3339_seconds :: "instant \<Rightarrow> string" where
  "rfc3339_seconds t = format_rfc3339 (t div second * second)"

definition parsed_or_zero :: "string \<Rightarrow> instant" where
  "parsed_or_zero s = (case parse_rfc3339 s of None \<Rightarrow> zero_instant | Some (t, _) \<Rightarrow> t)"

text \<open>A warning is due when the last one is at least five minutes old.\<close>

definition warning_due :: "instant \<Rightarrow> instant \<Rightarrow> bool" where
  "warning_due last_warning now \<longleftrightarrow> last_warning = zero_instant \<or> now - last_warning \<ge> 300 * second"

definition admission_blocked :: "'w kube \<Rightarrow> cluster \<Rightarrow> kobject \<Rightarrow> recovery_operation \<Rightarrow> ('w, unit) act" where
  "admission_blocked B c ob st = (\<lambda>w. case kb_now B w of (now, w) \<Rightarrow>
     (if \<not> warning_due (parsed_or_zero (ro_LastWarningAt st)) now then fail (PlainErr ''source repository admission unavailable'')
      else attempt (writeOperation B ob (st\<lparr>ro_LastWarningAt := rfc3339_seconds now\<rparr>)) (\<lambda>r.
        attempt (if r = Inr () then recoveryWarning B c ''RepositoryAdmissionBlocked'' else ret ()) (\<lambda>_.
        fail (PlainErr ''source repository admission unavailable'')))) w)"

definition fresh_operation :: "recovery_placement \<Rightarrow> rg_config \<Rightarrow> string \<Rightarrow> recovery_operation" where
  "fresh_operation placement targets process = \<lparr>ro_Placement = placement, ro_Targets = targets, ro_ObserverID = process, ro_State = ''active'',
     ro_CompletedJobUID = [], ro_TerminatedPodUIDs = [], ro_LifetimeReleased = False, ro_LastWarningAt = []\<rparr>"

text \<open>The record, created when it is not there.\<close>

definition get_or_create :: "manager_config \<Rightarrow> 'w kube \<Rightarrow> cluster \<Rightarrow> recovery_operation \<Rightarrow> ('w, kobject) act" where
  "get_or_create a B c op0 = (let namespace = om_Namespace (cl_Metadata c) in
     andthen (API_Get a B ''configmaps'' namespace (operationName c)) (\<lambda>x. case x of
       Some ob \<Rightarrow> ret ob
     | None \<Rightarrow> andthen (kb_create B ''configmaps'' (owned_object c (operationName c) [(''operation.json'', render (enc_operation op0))] False)) (\<lambda>created. case created of
         Some ob \<Rightarrow> ret ob
       | None \<Rightarrow> API_Required a B ''configmaps'' namespace (operationName c))))"

text \<open>The process's monitors: an operation and whether its observation has ended without a durable close.\<close>

type_synonym monitors = "(string \<times> bool) list"

definition start_watch :: "'w kube \<Rightarrow> ('w, 'q) operation_sys \<Rightarrow> cluster \<Rightarrow> ('w, unit) act" where
  "start_watch B X c =
     attempt (kb_list B ''pods'' (om_Namespace (cl_Metadata c)) (cluster_selector c) []) (\<lambda>r. case r of
       Inr ([], []) \<Rightarrow> (\<lambda>w. case rx_watch X (cluster_selector c) w of ((fired, res), w') \<Rightarrow> (if fired then Inl CtxErr else res, w'))
     | _ \<Rightarrow> fail (PlainErr ''recovery observation must precede all target Pods''))"

text \<open>The record an observation starts with, when one is started.\<close>

definition ensureRecovery :: "('w, 'q) operation_sys \<Rightarrow> manager_config \<Rightarrow> 'w kube \<Rightarrow> cluster \<Rightarrow> recovery_placement \<Rightarrow>
    rg_config \<Rightarrow> 'q repo_spec \<Rightarrow> ('w \<times> monitors, recovery_operation option) act" where
  "ensureRecovery X a B c placement targets source =
     andthen (on_world (get_or_create a B c (fresh_operation placement targets (rx_process X)))) (\<lambda>ob.
     case operationFrom (rx_cluster X) ob c of
       Inl _ \<Rightarrow> fail ErrIdentity
     | Inr st \<Rightarrow>
        if ro_Placement st \<noteq> placement \<or> ro_Targets st \<noteq> targets then fail ErrIdentity
        else if ro_State st \<noteq> ''active'' then fail errRecoveryClosed
        else if ro_ObserverID st \<noteq> rx_process X then attempt (on_world (writeOperation B ob (mark_uncertain st))) (\<lambda>_. fail errRecoveryClosed)
        else attempt (on_world (rx_lifetime X c source False)) (\<lambda>r. case r of
            Inl _ \<Rightarrow> andthen (on_world (admission_blocked B c ob st)) (\<lambda>_. ret None)
          | Inr _ \<Rightarrow> (\<lambda>(w, ms). (case map_of ms (OperationUID (rx_cluster X) c) of
                Some ended \<Rightarrow> if ended then fail errRecoveryClosed else ret None
              | None \<Rightarrow>
                 if length ms \<ge> 16 then fail ErrCapacity
                 else andthen (on_world (start_watch B X c)) (\<lambda>_ (w, ms). (Inr (Some st), (w, (OperationUID (rx_cluster X) c, False) # ms)))) (w, ms))))"

section \<open>The observation\<close>

datatype watch_input = ContextDone | StreamEnded | Bookmark | ForeignObject | PodEvent bool kobject | Tick

text \<open>Give up, go on with the Pods seen, or look for completion.\<close>

datatype watch_move = Lost | Wait "(string \<times> string) list" | Look "(string \<times> string) list"

definition receive_event :: "cluster_env \<Rightarrow> cluster \<Rightarrow> watch_input \<Rightarrow> (string \<times> string) list \<Rightarrow> watch_move" where
  "receive_event K c ev pods = (case ev of
     Tick \<Rightarrow> Look pods
   | Bookmark \<Rightarrow> Wait pods
   | PodEvent deleted ob \<Rightarrow>
      if meta_get (ko_Annotations ob) operationAnnotation \<noteq> OperationUID K c then Wait pods
      else if deleted \<or> ko_Deleting ob then Lost
      else if ko_UID ob = [] \<or> ko_ResourceVersion ob = [] \<or> length pods \<ge> 1024 then Lost
      else let pods = AList.update (ko_UID ob) (ko_ResourceVersion ob) pods in
        if ko_Phase ob \<noteq> ''Succeeded'' \<and> ko_Phase ob \<noteq> ''Failed'' then Wait pods else Look pods
   | _ \<Rightarrow> Lost)"

definition read_operation :: "('w, 'q) operation_sys \<Rightarrow> manager_config \<Rightarrow> 'w kube \<Rightarrow> cluster \<Rightarrow> ('w, kobject \<times> recovery_operation) act" where
  "read_operation X a B c =
     andthen (API_Required a B ''configmaps'' (om_Namespace (cl_Metadata c)) (operationName c)) (\<lambda>ob.
     andthen (lift (operationFrom (rx_cluster X) ob c)) (\<lambda>st. ret (ob, st)))"

text \<open>Whether the record is durably closed.\<close>

definition uncertain :: "('w, 'q) operation_sys \<Rightarrow> manager_config \<Rightarrow> 'w kube \<Rightarrow> cluster \<Rightarrow> recovery_operation \<Rightarrow> 'w \<Rightarrow> bool \<times> 'w" where
  "uncertain X a B c st w = (case read_operation X a B c w of
     (Inl _, w) \<Rightarrow> (False, w)
   | (Inr (ob, got), w) \<Rightarrow>
      if ro_ObserverID got \<noteq> ro_ObserverID st then (False, w)
      else if ro_State got = ''uncertain'' \<or> ro_State got = ''completed'' then (True, w)
      else if ro_State got = ''active'' then
        (case writeOperation B ob (mark_uncertain got) w of
           (Inr _, w) \<Rightarrow> (True, snd (recoveryWarning B c ''RetentionBlocked'' w))
         | (Inl _, w) \<Rightarrow> (False, w))
      else (False, w))"

text \<open>\<open>Inr True\<close>: completed on record; \<open>Inr False\<close>: not yet.\<close>

definition try_complete :: "('w, 'q) operation_sys \<Rightarrow> manager_config \<Rightarrow> 'w kube \<Rightarrow> kube_types \<Rightarrow> cluster \<Rightarrow> recovery_operation \<Rightarrow> (string \<times> string) list \<Rightarrow> ('w, bool) act" where
  "try_complete X a B T c st pods =
     andthen (recoveryTermination B T (rx_cluster X) c pods) (\<lambda>done. case done of
       None \<Rightarrow> ret False
     | Some (job, ids) \<Rightarrow>
        andthen (read_operation X a B c) (\<lambda>(ob, got).
        if ro_State got \<noteq> ''active'' \<or> ro_ObserverID got \<noteq> ro_ObserverID st then fail errRecoveryClosed
        else andthen (writeOperation B ob (mark_completed job ids got)) (\<lambda>_. ret True)))"

text \<open>One attempt to give the lifetime hold back: success ends the retries.\<close>

definition release_pass :: "('w, 'q) operation_sys \<Rightarrow> manager_config \<Rightarrow> 'w kube \<Rightarrow> cluster \<Rightarrow> 'q repo_spec \<Rightarrow> ('w, unit) act" where
  "release_pass X a B c source =
     andthen (API_Required a B ''configmaps'' (om_Namespace (cl_Metadata c)) (operationName c)) (\<lambda>ob.
     case operationFrom (rx_cluster X) ob c of
       Inl _ \<Rightarrow> ret ()
     | Inr st \<Rightarrow>
        if \<not> completed_record st \<or> ro_LifetimeReleased st then ret ()
        else andthen (rx_lifetime X c source True) (\<lambda>_. writeOperation B ob (mark_released st)))"

text \<open>The ticks between the attempts; \<open>False\<close> is the end of the context.\<close>

fun releaseCompletedRecovery :: "('w, 'q) operation_sys \<Rightarrow> manager_config \<Rightarrow> 'w kube \<Rightarrow> cluster \<Rightarrow> 'q repo_spec \<Rightarrow> bool list \<Rightarrow> 'w \<Rightarrow> 'w" where
  "releaseCompletedRecovery X a B c source ticks w = (case release_pass X a B c source w of
     (Inr _, w') \<Rightarrow> w'
   | (Inl _, w') \<Rightarrow> (case ticks of True # ts \<Rightarrow> releaseCompletedRecovery X a B c source ts w' | _ \<Rightarrow> w'))"

text \<open>The loop on what it receives: \<open>None\<close> while it waits, otherwise whether the record is durably closed.\<close>

fun observe_loop :: "('w, 'q) operation_sys \<Rightarrow> manager_config \<Rightarrow> 'w kube \<Rightarrow> kube_types \<Rightarrow> cluster \<Rightarrow> 'q repo_spec \<Rightarrow> recovery_operation \<Rightarrow>
    bool list \<Rightarrow> watch_input list \<Rightarrow> (string \<times> string) list \<Rightarrow> 'w \<Rightarrow> bool option \<times> 'w" where
  "observe_loop X a B T c source st ticks [] pods w = (None, w)"
| "observe_loop X a B T c source st ticks (ev # evs) pods w = (case receive_event (rx_cluster X) c ev pods of
     Lost \<Rightarrow> map_prod Some id (uncertain X a B c st w)
   | Wait pods' \<Rightarrow> observe_loop X a B T c source st ticks evs pods' w
   | Look pods' \<Rightarrow> (case try_complete X a B T c st pods' w of
       (Inl _, w') \<Rightarrow> map_prod Some id (uncertain X a B c st w')
     | (Inr False, w') \<Rightarrow> observe_loop X a B T c source st ticks evs pods' w'
     | (Inr True, w') \<Rightarrow> (Some True, releaseCompletedRecovery X a B c source ticks w')))"

text \<open>The deferred update of the process's monitors.\<close>

definition end_observation :: "string \<Rightarrow> bool \<Rightarrow> monitors \<Rightarrow> monitors" where
  "end_observation uid durable ms = (if durable then filter (\<lambda>(u, _). u \<noteq> uid) ms
     else if map_of ms uid = None then ms else AList.update uid True ms)"

definition observeRecovery :: "('w, 'q) operation_sys \<Rightarrow> manager_config \<Rightarrow> 'w kube \<Rightarrow> kube_types \<Rightarrow> cluster \<Rightarrow> 'q repo_spec \<Rightarrow> recovery_operation \<Rightarrow>
    bool list \<Rightarrow> watch_input list \<Rightarrow> 'w \<times> monitors \<Rightarrow> 'w \<times> monitors" where
  "observeRecovery X a B T c source st ticks evs = (\<lambda>(w, ms). case observe_loop X a B T c source st ticks evs [] w of
     (None, w') \<Rightarrow> (w', ms)
   | (Some durable, w') \<Rightarrow> (w', end_observation (OperationUID (rx_cluster X) c) durable ms))"

section \<open>Reconciliation after a restart\<close>

definition owned_recovery :: "cluster \<Rightarrow> bool" where
  "owned_recovery c = (case cs_Recovery (cl_Spec c) of None \<Rightarrow> False | Some rc \<Rightarrow> list_ex (\<lambda>x. source_plugin rc x \<noteq> None) (cs_ExternalClusters (cl_Spec c)))"

text \<open>An active record of another process becomes uncertain; \<open>Inl\<close> when that could not be written.\<close>

definition disown :: "'w kube \<Rightarrow> ('w, 'q) operation_sys \<Rightarrow> cluster \<Rightarrow> kobject \<Rightarrow> recovery_operation \<Rightarrow> ('w, recovery_operation) act" where
  "disown B X c ob st =
     (if ro_State st = ''active'' \<and> ro_ObserverID st \<noteq> rx_process X
      then andthen (writeOperation B ob (mark_uncertain st)) (\<lambda>_. andthen (recoveryWarning B c ''RetentionBlocked'') (\<lambda>_. ret (mark_uncertain st)))
      else ret st)"

text \<open>The release: the state the metrics are told, and whether it is known.\<close>

definition resume_release :: "('w, 'q) operation_sys \<Rightarrow> manager_config \<Rightarrow> 'w kube \<Rightarrow> cluster \<Rightarrow> kobject \<Rightarrow> recovery_operation \<Rightarrow> 'w \<Rightarrow>
    (recovery_operation \<times> bool) \<times> 'w" where
  "resume_release X a B c ob st w = (let known = (ro_State st \<in> {''active'', ''uncertain'', ''completed''}) in
     if \<not> completed_record st \<or> ro_LifetimeReleased st then ((st, known), w)
     else case rx_repository X (om_Namespace (cl_Metadata c)) (rpp_Source (ro_Placement st)) w of
       (Inl _, w) \<Rightarrow> ((st, known), w)
     | (Inr source, w) \<Rightarrow>
        if Spec_Hash (rx_marshal X) source \<noteq> rpp_SourceConfigSHA256 (ro_Placement st) then ((st, known), w)
        else (case rx_lifetime X c source True w of
          (Inl _, w) \<Rightarrow> ((st, known), w)
        | (Inr _, w) \<Rightarrow> (case writeOperation B ob (mark_released st) w of
            (Inl _, w) \<Rightarrow> ((mark_released st, False), w)
          | (Inr _, w) \<Rightarrow> ((mark_released st, known), w))))"

text \<open>What the metrics are told. The state beside an unknown observation is never shown.\<close>

datatype restore_report = Forget | UnknownState | Report recovery_operation bool

definition reconcileRecoveryOperation :: "('w, 'q) operation_sys \<Rightarrow> manager_config \<Rightarrow> 'w kube \<Rightarrow> cluster \<Rightarrow> 'w \<Rightarrow> restore_report \<times> 'w" where
  "reconcileRecoveryOperation X a B c w =
     (if \<not> owned_recovery c then (Forget, w)
      else case read_operation X a B c w of
        (Inl _, w) \<Rightarrow> (UnknownState, w)
      | (Inr (ob, st), w) \<Rightarrow> (case disown B X c ob st w of
          (Inl _, w) \<Rightarrow> (UnknownState, w)
        | (Inr st', w) \<Rightarrow> (case resume_release X a B c ob st' w of ((r, known), w) \<Rightarrow> (Report r known, w))))"

end
