(* ===== verification/Plugin_Protocol.thy ===== *)
theory Plugin_Protocol
  imports Plugin_Operation
begin

text \<open>
  The recovery operation as a protocol: what a completed recovery has proved, that every write of the record is one of four changes of a
  record just read, and that the source's lifetime is given back only on a completed record.
\<close>

section \<open>Completion\<close>

text \<open>A complete listing: every page up to the one without a cursor.\<close>

inductive fetched :: "'w kube \<Rightarrow> string \<Rightarrow> cluster \<Rightarrow> string \<Rightarrow> kobject list \<Rightarrow> 'w \<Rightarrow> 'w \<Rightarrow> bool" for B gvr c where
  last_page: "kb_list B gvr (om_Namespace (cl_Metadata c)) (cluster_selector c) cursor w = (Inr (items, []), w') \<Longrightarrow> fetched B gvr c cursor items w w'"
| one_page: "kb_list B gvr (om_Namespace (cl_Metadata c)) (cluster_selector c) cursor w = (Inr (items, next_cursor), w1) \<Longrightarrow> next_cursor \<noteq> [] \<Longrightarrow>
    fetched B gvr c next_cursor rest w1 w' \<Longrightarrow> fetched B gvr c cursor (items @ rest) w w'"

lemma visit_items_fold: "visit_items f xs n s = Inr (n', s') \<Longrightarrow> fold_res f xs s = Inr s'"
  by (induction xs arbitrary: n s) (auto split: if_splits)

lemma visit_pages_fetched:
  "visit_pages B gvr c f cursor n s w = (Inr s', w') \<Longrightarrow> \<exists>obs. fetched B gvr c cursor obs w w' \<and> fold_res f obs s = Inr s'"
proof (induction "1025 - n" arbitrary: cursor n s w rule: less_induct)
  case less
  obtain items next_cursor w1 n1 s1 where l: "kb_list B gvr (om_Namespace (cl_Metadata c)) (cluster_selector c) cursor w = (Inr (items, next_cursor), w1)"
    and v: "visit_items f items n s = Inr (n1, s1)"
    and r: "next_cursor = [] \<and> s' = s1 \<and> w' = w1 \<or> next_cursor \<noteq> [] \<and> items \<noteq> [] \<and> visit_pages B gvr c f next_cursor n1 s1 w1 = (Inr s', w')"
    using less(2) by (subst (asm) visit_pages.simps) (auto split: prod.splits sum.splits if_splits)
  note items = visit_items_fold[OF v]
  from r show ?case
  proof (elim disjE conjE)
    assume "next_cursor = []" "s' = s1" "w' = w1"
    then show ?case using items l fetched.last_page[of B gvr c cursor w items w1] by auto
  next
    assume ne: "next_cursor \<noteq> []" "items \<noteq> []" and p: "visit_pages B gvr c f next_cursor n1 s1 w1 = (Inr s', w')"
    then have "1025 - n1 < 1025 - n" using visit_items_count[OF v] by (auto intro!: diff_less_mono2)
    from less(1)[OF this p] obtain obs where "fetched B gvr c next_cursor obs w1 w'" "fold_res f obs s1 = Inr s'" by blast
    then show ?case using items fetched.one_page[OF l ne(1)] by (intro exI[of _ "items @ obs"]) (simp add: fold_res_append)
  qed
qed

text \<open>The Jobs of this operation and its Pods among the listed objects.\<close>

definition own_jobs :: "kube_types \<Rightarrow> cluster_env \<Rightarrow> cluster \<Rightarrow> kobject list \<Rightarrow> recovery_job list" where
  "own_jobs T K c obs = filter (\<lambda>j. jb_Operation j = OperationUID K c) (List.map_filter (kt_job T) obs)"

definition own_pods :: "kube_types \<Rightarrow> cluster_env \<Rightarrow> cluster \<Rightarrow> kobject list \<Rightarrow> recovery_pod list" where
  "own_pods T K c obs = List.map_filter (kt_pod T) (filter (\<lambda>ob. meta_get (ko_Annotations ob) operationAnnotation = OperationUID K c) obs)"

lemma find_job_fold:
  "fold_res (find_job T K c) obs found = Inr found' \<Longrightarrow>
   (case found of None \<Rightarrow> own_jobs T K c obs = (case found' of None \<Rightarrow> [] | Some j \<Rightarrow> [j]) | Some j \<Rightarrow> own_jobs T K c obs = [] \<and> found' = Some j) \<and>
   list_all (\<lambda>j. jb_Owner j = Some (om_UID (cl_Metadata c)) \<and> \<not> jb_Deleting j) (own_jobs T K c obs) \<and> list_all (\<lambda>ob. kt_job T ob \<noteq> None) obs"
proof (induction obs arbitrary: found)
  case Nil
  then show ?case by (simp add: own_jobs_def List.map_filter_simps split: option.split)
next
  case (Cons ob obs)
  from Cons.prems obtain found1 where f: "find_job T K c ob found = Inr found1" "fold_res (find_job T K c) obs found1 = Inr found'"
    by (cases "find_job T K c ob found") auto
  from f(1) obtain j where j: "kt_job T ob = Some j" by (cases "kt_job T ob") (auto simp: find_job_def)
  from Cons.IH[OF f(2)] j f(1) show ?case
    by (cases found) (auto simp: own_jobs_def List.map_filter_simps find_job_def split: if_splits option.splits)
qed

lemma count_pod_fold:
  "fold_res (count_pod T K c j observed) obs n = Inr n' \<Longrightarrow> \<not> pc_waiting n' \<Longrightarrow> \<not> pc_waiting n \<and>
   pc_ids n' = pc_ids n @ map pd_UID (own_pods T K c obs) \<and>
   pc_succeeded n' = pc_succeeded n + int (length (filter (\<lambda>p. pd_Phase p = ''Succeeded'') (own_pods T K c obs))) \<and>
   pc_failed n' = pc_failed n + int (length (filter (\<lambda>p. pd_Phase p \<noteq> ''Succeeded'') (own_pods T K c obs))) \<and>
   list_all (\<lambda>p. terminatedPod p \<and> pd_Owner p = Some (jb_UID j) \<and> map_of observed (pd_UID p) = Some (pd_ResourceVersion p)) (own_pods T K c obs)"
proof (induction obs arbitrary: n)
  case Nil
  then show ?case by (simp add: own_pods_def List.map_filter_simps)
next
  case (Cons ob obs)
  then obtain n1 where f: "count_pod T K c j observed ob n = Inr n1" "fold_res (count_pod T K c j observed) obs n1 = Inr n'"
    by (cases "count_pod T K c j observed ob n") auto
  note IH = Cons.IH[OF f(2) Cons.prems(2)]
  show ?case
  proof (cases "meta_get (ko_Annotations ob) operationAnnotation = OperationUID K c")
    case False
    then show ?thesis using IH f(1) by (simp add: count_pod_def own_pods_def)
  next
    case True
    then obtain p where p: "kt_pod T ob = Some p" using f(1) by (cases "kt_pod T ob") (auto simp: count_pod_def)
    have seen: "map_of observed (pd_UID p) = Some (pd_ResourceVersion p)" using f(1) IH True p by (auto simp: count_pod_def split: if_splits)
    then have "pd_Owner p = Some (jb_UID j) \<and> terminatedPod p" using f(1) True p by (auto simp: count_pod_def split: if_splits)
    then show ?thesis using f(1) IH True p seen by (auto simp: count_pod_def own_pods_def List.map_filter_simps split: if_splits)
  qed
qed

lemma count_pods_proved:
  assumes "count_pods B T K c j observed w = (Inr (Some (job, ids)), w')"
  obtains objects where "fetched B ''pods'' c [] objects w w'" "job = jb_UID j" "ids = sort_slice (<) (map pd_UID (own_pods T K c objects))"
    "length (own_pods T K c objects) = length observed"
    "list_all (\<lambda>p. terminatedPod p \<and> pd_Owner p = Some (jb_UID j) \<and> map_of observed (pd_UID p) = Some (pd_ResourceVersion p)) (own_pods T K c objects)"
    "length (filter (\<lambda>p. pd_Phase p = ''Succeeded'') (own_pods T K c objects)) = 1"
    "int (length (filter (\<lambda>p. pd_Phase p \<noteq> ''Succeeded'') (own_pods T K c objects))) = jb_Failed j"
proof -
  obtain n where v: "visit_pages B ''pods'' c (count_pod T K c j observed) [] 0 \<lparr>pc_waiting = False, pc_ids = [], pc_succeeded = 0, pc_failed = 0\<rparr> w = (Inr n, w')"
    and r: "\<not> pc_waiting n" "length (pc_ids n) = length observed" "pc_succeeded n = 1" "pc_failed n = jb_Failed j" "job = jb_UID j" "ids = sort_slice (<) (pc_ids n)"
    using assms by (auto simp: count_pods_def visitRecoveryObjects_def ok_runs split: if_splits)
  from visit_pages_fetched[OF v] obtain objects where o1: "fetched B ''pods'' c [] objects w w'"
    "fold_res (count_pod T K c j observed) objects \<lparr>pc_waiting = False, pc_ids = [], pc_succeeded = 0, pc_failed = 0\<rparr> = Inr n" by blast
  from count_pod_fold[OF o1(2) r(1)] r that[OF o1(1)] show ?thesis by simp
qed

lemma recoveryTermination_nonempty:
  assumes "recoveryTermination B T K c observed w = (Inr (Some (job, ids)), w')"
  shows "job \<noteq> [] \<and> ids \<noteq> []"
proof -
  obtain j w1 where s: "job_settled j" and p: "count_pods B T K c j observed w1 = (Inr (Some (job, ids)), w')"
    using assms by (auto simp: recoveryTermination_def ok_runs split: if_splits)
  from p obtain objects where "job = jb_UID j" "ids = sort_slice (<) (map pd_UID (own_pods T K c objects))"
    "length (filter (\<lambda>p. pd_Phase p = ''Succeeded'') (own_pods T K c objects)) = 1" by (rule count_pods_proved)
  moreover from this(3) have "own_pods T K c objects \<noteq> []" by auto
  ultimately show ?thesis using s by (simp add: job_settled_def)
qed

section \<open>Recorded calls\<close>

text \<open>A ConfigMap the server returned, an update that was sent, a change of the lifetime hold that was answered.\<close>

datatype op_event = GotConfig kobject | PutConfig kobject | Lifetime bool bool

definition silent :: "('w \<Rightarrow> 'r \<times> 'w) \<Rightarrow> 'w \<times> op_event list \<Rightarrow> 'r \<times> 'w \<times> op_event list" where
  "silent m = (\<lambda>(w, tr). case m w of (r, w') \<Rightarrow> (r, (w', tr)))"

definition noted :: "('r \<Rightarrow> op_event list) \<Rightarrow> ('w \<Rightarrow> 'r \<times> 'w) \<Rightarrow> 'w \<times> op_event list \<Rightarrow> 'r \<times> 'w \<times> op_event list" where
  "noted f m = (\<lambda>(w, tr). case m w of (r, w') \<Rightarrow> (r, (w', tr @ f r)))"

definition got_event :: "string \<Rightarrow> err + kobject option \<Rightarrow> op_event list" where
  "got_event gvr r = (case r of Inr (Some ob) \<Rightarrow> if gvr = ''configmaps'' then [GotConfig ob] else [] | _ \<Rightarrow> [])"

definition kube_logged :: "'w kube \<Rightarrow> ('w \<times> op_event list) kube" where
  "kube_logged B = \<lparr>
     kb_get = (\<lambda>gvr ns n. noted (got_event gvr) (kb_get B gvr ns n)),
     kb_create = (\<lambda>gvr ob. noted (got_event gvr) (kb_create B gvr ob)),
     kb_update = (\<lambda>gvr ob. noted (\<lambda>_. [PutConfig ob]) (kb_update B gvr ob)),
     kb_list = (\<lambda>gvr ns sel cur. silent (kb_list B gvr ns sel cur)),
     kb_patch = (\<lambda>gvr ns n b. silent (kb_patch B gvr ns n b)),
     kb_event = (\<lambda>n ob r m. silent (kb_event B n ob r m)),
     kb_now = silent (kb_now B)\<rparr>"

definition operations_logged :: "('w, 'q) operation_sys \<Rightarrow> ('w \<times> op_event list, 'q) operation_sys" where
  "operations_logged X = \<lparr>rx_cluster = rx_cluster X,
     rx_repository = (\<lambda>ns n. silent (rx_repository X ns n)),
     rx_lifetime = (\<lambda>c sp release. noted (\<lambda>r. [Lifetime release (r = Inr ())]) (rx_lifetime X c sp release)),
     rx_watch = (\<lambda>sel. silent (rx_watch X sel)), rx_process = rx_process X, rx_marshal = rx_marshal X\<rparr>"

text \<open>The four changes of a record; \<open>me\<close> is the observer that may complete it, \<open>P\<close> what its evidence of termination can be.\<close>

datatype record_change = Uncertain | Warned string | Completed string "string list" | Released

definition changed :: "string \<Rightarrow> (string \<Rightarrow> string list \<Rightarrow> bool) \<Rightarrow> record_change \<Rightarrow> recovery_operation \<Rightarrow> recovery_operation option" where
  "changed me P ch st = (case ch of
     Uncertain \<Rightarrow> if ro_State st = ''active'' then Some (mark_uncertain st) else None
   | Warned t \<Rightarrow> if ro_State st = ''active'' \<and> ro_ObserverID st = me then Some (st\<lparr>ro_LastWarningAt := t\<rparr>) else None
   | Completed job ids \<Rightarrow> if ro_State st = ''active'' \<and> ro_ObserverID st = me \<and> P job ids \<and> job \<noteq> [] \<and> ids \<noteq> []
       then Some (mark_completed job ids st) else None
   | Released \<Rightarrow> if completed_record st \<and> \<not> ro_LifetimeReleased st then Some (mark_released st) else None)"

text \<open>A log in which every update is a change of a record read before, a release of the lifetime follows a completed record
  that does not show it yet, and a record is marked released only after an acknowledged release.\<close>

inductive sound_log :: "cluster_env \<Rightarrow> cluster \<Rightarrow> string \<Rightarrow> (string \<Rightarrow> string list \<Rightarrow> bool) \<Rightarrow> op_event list \<Rightarrow> bool" for K c me P where
  empty: "sound_log K c me P []"
| got: "sound_log K c me P tr \<Longrightarrow> sound_log K c me P (tr @ [GotConfig ob])"
| put: "sound_log K c me P tr \<Longrightarrow> GotConfig ob \<in> set tr \<Longrightarrow> operationFrom K ob c = Inr st \<Longrightarrow> changed me P ch st = Some st' \<Longrightarrow>
    (ch = Released \<longrightarrow> Lifetime True True \<in> set tr) \<Longrightarrow>
    sound_log K c me P (tr @ [PutConfig (ob\<lparr>ko_Data := [(''operation.json'', render (enc_operation st'))]\<rparr>)])"
| establish: "sound_log K c me P tr \<Longrightarrow> sound_log K c me P (tr @ [Lifetime False acked])"
| release: "sound_log K c me P tr \<Longrightarrow> GotConfig ob \<in> set tr \<Longrightarrow> operationFrom K ob c = Inr st \<Longrightarrow> completed_record st \<Longrightarrow>
    \<not> ro_LifetimeReleased st \<Longrightarrow> sound_log K c me P (tr @ [Lifetime True acked])"

lemma silent_log: "silent m s = (r, s') \<Longrightarrow> snd s' = snd s"
  by (auto simp: silent_def split: prod.splits)

lemma sound_got: "sound_log K c me P tr \<Longrightarrow> sound_log K c me P (tr @ got_event gvr r)"
  by (auto simp: got_event_def intro: sound_log.got split: sum.split option.split)

lemma get_logged:
  assumes "API_Get a (kube_logged B) gvr ns n s = (r, s')" "sound_log K c me P (snd s)"
  shows "sound_log K c me P (snd s') \<and> set (snd s) \<subseteq> set (snd s') \<and> (r = Inr (Some ob) \<longrightarrow> gvr = ''configmaps'' \<longrightarrow> GotConfig ob \<in> set (snd s'))"
  using assms
  by (auto simp: API_Get_def kube_logged_def noted_def fail_def intro: sound_got split: if_splits prod.splits) (auto simp: got_event_def)

lemma required_logged:
  assumes "API_Required a (kube_logged B) ''configmaps'' ns n s = (r, s')" "sound_log K c me P (snd s)"
  shows "sound_log K c me P (snd s') \<and> set (snd s) \<subseteq> set (snd s') \<and> (r = Inr ob \<longrightarrow> GotConfig ob \<in> set (snd s'))"
proof -
  obtain x s1 where g: "API_Get a (kube_logged B) ''configmaps'' ns n s = (x, s1)" by (cases "API_Get a (kube_logged B) ''configmaps'' ns n s")
  show ?thesis using get_logged[OF g assms(2), of ob] assms(1) g
    by (auto simp: API_Required_def andthen_def attempt_def fail_def ret_def split: sum.splits option.splits)
qed

lemma read_operation_logged:
  assumes "read_operation (operations_logged X) a (kube_logged B) c s = (r, s')" "sound_log (rx_cluster X) c me P (snd s)"
  shows "sound_log (rx_cluster X) c me P (snd s') \<and> set (snd s) \<subseteq> set (snd s') \<and>
    (r = Inr (ob, st) \<longrightarrow> GotConfig ob \<in> set (snd s') \<and> operationFrom (rx_cluster X) ob c = Inr st)"
proof -
  let ?m = "API_Required a (kube_logged B) ''configmaps'' (om_Namespace (cl_Metadata c)) (operationName c)"
  obtain x s1 where g: "?m s = (x, s1)" by (cases "?m s")
  show ?thesis
  proof (cases x)
    case (Inl e)
    then show ?thesis using assms g required_logged[OF g assms(2)] by (auto simp: read_operation_def andthen_def attempt_def fail_def)
  next
    case (Inr ob1)
    then show ?thesis using assms g required_logged[OF g assms(2), of ob1]
      by (auto simp: read_operation_def operations_logged_def andthen_def attempt_def fail_def lift_def ret_def split: sum.splits)
  qed
qed

lemma write_logged:
  assumes "writeOperation (kube_logged B) ob st' s = (r, s')" "sound_log K c me P (snd s)" "GotConfig ob \<in> set (snd s)" "operationFrom K ob c = Inr st"
    "changed me P ch st = Some st'" "ch = Released \<Longrightarrow> Lifetime True True \<in> set (snd s)"
  shows "sound_log K c me P (snd s') \<and> set (snd s) \<subseteq> set (snd s')"
  using assms sound_log.put[OF assms(2-5)]
  by (auto simp: writeOperation_def kube_logged_def noted_def split: prod.splits)

lemma warning_logged: "recoveryWarning (kube_logged B) c reason s = (r, s') \<Longrightarrow> snd s' = snd s \<and> r = Inr ()"
  by (auto simp: recoveryWarning_def kube_logged_def silent_def split: prod.splits)

lemma visit_pages_logged: "visit_pages (kube_logged B) gvr c f cursor n st s = (r, s') \<Longrightarrow> snd s' = snd s"
proof (induction "1025 - n" arbitrary: cursor n st s rule: less_induct)
  case less
  obtain x s1 where l: "kb_list (kube_logged B) gvr (om_Namespace (cl_Metadata c)) (cluster_selector c) cursor s = (x, s1)"
    by (cases "kb_list (kube_logged B) gvr (om_Namespace (cl_Metadata c)) (cluster_selector c) cursor s")
  then have s1: "snd s1 = snd s" by (auto simp: kube_logged_def dest: silent_log)
  show ?case
  proof (cases x)
    case (Inl e)
    then show ?thesis using less(2) l s1 by (subst (asm) visit_pages.simps) auto
  next
    case (Inr page)
    obtain items next_cursor where page: "page = (items, next_cursor)" by force
    show ?thesis
    proof (cases "visit_items f items n st")
      case (Inl e)
      then show ?thesis using less(2) l s1 Inr page by (subst (asm) visit_pages.simps) auto
    next
      case v: (Inr ns)
      obtain n1 st1 where ns: "ns = (n1, st1)" by force
      have count: "n1 = n + length items" "items = [] \<or> n1 \<le> 1024" using visit_items_count[of f items n st n1 st1] v ns by auto
      show ?thesis
      proof (cases "next_cursor = [] \<or> next_cursor = cursor \<or> items = []")
        case True
        then show ?thesis using less(2) l s1 Inr page v ns by (subst (asm) visit_pages.simps) (auto split: if_splits)
      next
        case False
        then have "visit_pages (kube_logged B) gvr c f next_cursor n1 st1 s1 = (r, s')"
          using less(2) l Inr page v ns by (subst (asm) visit_pages.simps) simp
        moreover have "1025 - n1 < 1025 - n" using False count by (auto intro!: diff_less_mono2)
        ultimately show ?thesis using less(1)[of n1 next_cursor st1 s1] s1 by simp
      qed
    qed
  qed
qed

text \<open>Actions that record nothing.\<close>

definition unlogged :: "('w \<times> op_event list, 'a) act \<Rightarrow> bool" where
  "unlogged m \<longleftrightarrow> (\<forall>s r s'. m s = (r, s') \<longrightarrow> snd s' = snd s)"

lemma unloggedD: "unlogged m \<Longrightarrow> m s = (r, s') \<Longrightarrow> snd s' = snd s"
  unfolding unlogged_def by blast

lemma unlogged_attempt: "unlogged m \<Longrightarrow> (\<And>x. unlogged (h x)) \<Longrightarrow> unlogged (attempt m h)"
  by (unfold unlogged_def[of "attempt m h"] attempt_def) (metis (no_types, lifting) case_prod_conv prod.exhaust unloggedD)

lemma unlogged_basic: "unlogged (ret x)" "unlogged (fail e)" "unlogged (lift u)" "unlogged (visitRecoveryObjects (kube_logged B) gvr c f st)"
  by (auto simp: unlogged_def ret_def fail_def lift_def visitRecoveryObjects_def dest: visit_pages_logged)

lemma unlogged_andthen: "unlogged m \<Longrightarrow> (\<And>x. unlogged (k x)) \<Longrightarrow> unlogged (andthen m k)"
  unfolding andthen_def by (rule unlogged_attempt) (auto intro: unlogged_basic split: sum.split)

lemmas unlogged_rules = unlogged_basic unlogged_attempt unlogged_andthen

lemma termination_logged:
  assumes "recoveryTermination (kube_logged B) T K c pods s = (r, s')"
  shows "snd s' = snd s"
proof -
  have "unlogged (count_pods (kube_logged B) T K c j pods)" for j
    unfolding count_pods_def by (auto intro!: unlogged_rules)
  then have "unlogged (recoveryTermination (kube_logged B) T K c pods)"
    unfolding recoveryTermination_def by (auto intro!: unlogged_rules split: option.split)
  from unloggedD[OF this assms] show ?thesis .
qed

section \<open>The operations keep the log sound\<close>

lemma try_complete_logged:
  assumes "try_complete (operations_logged X) a (kube_logged B) T c st pods s = (r, s')" "sound_log (rx_cluster X) c (ro_ObserverID st) P (snd s)"
    "\<And>job ids s s'. recoveryTermination (kube_logged B) T (rx_cluster X) c pods s = (Inr (Some (job, ids)), s') \<Longrightarrow> P job ids"
  shows "sound_log (rx_cluster X) c (ro_ObserverID st) P (snd s')"
proof -
  let ?K = "rx_cluster X" and ?me = "ro_ObserverID st"
  have K: "rx_cluster (operations_logged X) = ?K" by (simp add: operations_logged_def)
  obtain x s1 where t: "recoveryTermination (kube_logged B) T ?K c pods s = (x, s1)" by (cases "recoveryTermination (kube_logged B) T ?K c pods s")
  have s1: "sound_log ?K c ?me P (snd s1)" using termination_logged[OF t] assms(2) by simp
  show ?thesis
  proof (cases "\<exists>job ids. x = Inr (Some (job, ids))")
    case False
    then have "s' = s1" using assms(1) t by (auto simp: try_complete_def K andthen_def attempt_def fail_def ret_def split: sum.splits option.splits)
    then show ?thesis using s1 by simp
  next
    case True
    then obtain job ids where x: "x = Inr (Some (job, ids))" by blast
    have j: "P job ids" "job \<noteq> [] \<and> ids \<noteq> []" using assms(3) recoveryTermination_nonempty[of "kube_logged B" T ?K c pods s job ids s1] t x by blast+
    obtain y s2 where g: "read_operation (operations_logged X) a (kube_logged B) c s1 = (y, s2)" by (cases "read_operation (operations_logged X) a (kube_logged B) c s1")
    show ?thesis
    proof (cases "\<exists>ob got. y = Inr (ob, got) \<and> ro_State got = ''active'' \<and> ro_ObserverID got = ?me")
      case False
      then have "s' = s2" using assms(1) t x g by (auto simp: try_complete_def K andthen_def attempt_def fail_def split: sum.splits)
      then show ?thesis using read_operation_logged[OF g s1] by blast
    next
      case True
      then obtain ob got where y: "y = Inr (ob, got)" "ro_State got = ''active''" "ro_ObserverID got = ?me" by blast
      obtain z s3 where w: "writeOperation (kube_logged B) ob (mark_completed job ids got) s2 = (z, s3)"
        by (cases "writeOperation (kube_logged B) ob (mark_completed job ids got) s2")
      have "s' = s3" using assms(1) t x g y w by (auto simp: try_complete_def K andthen_def attempt_def fail_def ret_def split: sum.splits)
      moreover have "sound_log ?K c ?me P (snd s3)"
        using write_logged[OF w, of ?K c ?me P got "Completed job ids"] read_operation_logged[OF g s1, of ob got] y j by (auto simp: changed_def)
      ultimately show ?thesis by simp
    qed
  qed
qed

lemma uncertain_logged:
  assumes "uncertain (operations_logged X) a (kube_logged B) c st s = (r, s')" "sound_log (rx_cluster X) c me P (snd s)"
  shows "sound_log (rx_cluster X) c me P (snd s')"
proof -
  let ?K = "rx_cluster X"
  obtain y s2 where g: "read_operation (operations_logged X) a (kube_logged B) c s = (y, s2)" by (cases "read_operation (operations_logged X) a (kube_logged B) c s")
  have s2: "sound_log ?K c me P (snd s2)" using read_operation_logged[OF g assms(2)] by blast
  show ?thesis
  proof (cases "\<exists>ob got. y = Inr (ob, got) \<and> ro_State got = ''active'' \<and> ro_ObserverID got = ro_ObserverID st")
    case False
    then have "s' = s2" using assms(1) g by (auto simp: uncertain_def split: sum.splits if_splits)
    then show ?thesis using s2 by simp
  next
    case True
    then obtain ob got where y: "y = Inr (ob, got)" "ro_State got = ''active''" "ro_ObserverID got = ro_ObserverID st" by blast
    obtain z s3 where w: "writeOperation (kube_logged B) ob (mark_uncertain got) s2 = (z, s3)"
      by (cases "writeOperation (kube_logged B) ob (mark_uncertain got) s2")
    have s3: "sound_log ?K c me P (snd s3)"
      using write_logged[OF w, of ?K c me P got Uncertain] read_operation_logged[OF g assms(2), of ob got] y by (auto simp: changed_def)
    have "snd s' = snd s3" using assms(1) g y w
      by (auto simp: uncertain_def dest!: warning_logged split: sum.splits) (metis prod.collapse warning_logged)
    then show ?thesis using s3 by simp
  qed
qed

lemma lifetime_logged:
  "rx_lifetime (operations_logged X) c sp release s = (r, s') \<Longrightarrow> snd s' = snd s @ [Lifetime release (r = Inr ())]"
  by (auto simp: operations_logged_def noted_def split: prod.splits)

lemma logged_cluster [simp]: "rx_cluster (operations_logged X) = rx_cluster X" "rx_process (operations_logged X) = rx_process X"
  "rx_marshal (operations_logged X) = rx_marshal X"
  by (simp_all add: operations_logged_def)

text \<open>A release on a completed record that was read, and the write that marks it.\<close>

lemma release_step_logged:
  assumes "sound_log K c me P (snd s)" "GotConfig ob \<in> set (snd s)" "operationFrom K ob c = Inr st" "completed_record st" "\<not> ro_LifetimeReleased st"
    and "rx_lifetime (operations_logged X) c sp True s = (r, s1)"
  shows "sound_log K c me P (snd s1)"
    and "r = Inr () \<Longrightarrow> writeOperation (kube_logged B) ob (mark_released st) s1 = (z, s2) \<Longrightarrow> sound_log K c me P (snd s2)"
proof -
  have log: "snd s1 = snd s @ [Lifetime True (r = Inr ())]" using lifetime_logged[OF assms(6)] .
  show s1: "sound_log K c me P (snd s1)" unfolding log by (rule sound_log.release[OF assms(1-5)])
  assume "r = Inr ()" and w: "writeOperation (kube_logged B) ob (mark_released st) s1 = (z, s2)"
  then show "sound_log K c me P (snd s2)"
    using write_logged[OF w s1, of st Released] log assms(2-5) by (simp add: changed_def)
qed

lemma release_pass_logged:
  assumes "release_pass (operations_logged X) a (kube_logged B) c source s = (r, s')" "sound_log (rx_cluster X) c me P (snd s)"
  shows "sound_log (rx_cluster X) c me P (snd s')"
proof -
  let ?K = "rx_cluster X"
  let ?m = "API_Required a (kube_logged B) ''configmaps'' (om_Namespace (cl_Metadata c)) (operationName c)"
  obtain x s1 where g: "?m s = (x, s1)" by (cases "?m s")
  have s1: "sound_log ?K c me P (snd s1)" using required_logged[OF g assms(2)] by blast
  show ?thesis
  proof (cases "\<exists>ob st. x = Inr ob \<and> operationFrom ?K ob c = Inr st \<and> completed_record st \<and> \<not> ro_LifetimeReleased st")
    case False
    then have "s' = s1" using assms(1) g
      by (auto simp: release_pass_def andthen_def attempt_def fail_def ret_def split: sum.splits if_splits)
    then show ?thesis using s1 by simp
  next
    case True
    then obtain ob st where x: "x = Inr ob" "operationFrom ?K ob c = Inr st" "completed_record st" "\<not> ro_LifetimeReleased st" by blast
    have got: "GotConfig ob \<in> set (snd s1)" using required_logged[OF g assms(2), of ob] x by blast
    obtain y s2 where l: "rx_lifetime (operations_logged X) c source True s1 = (y, s2)" by (cases "rx_lifetime (operations_logged X) c source True s1")
    show ?thesis
    proof (cases y)
      case (Inl e)
      then have "s' = s2" using assms(1) g x l by (simp add: release_pass_def andthen_def attempt_def fail_def)
      then show ?thesis using release_step_logged(1)[OF s1 got x(2-4) l] by simp
    next
      case (Inr u)
      then have "writeOperation (kube_logged B) ob (mark_released st) s2 = (r, s')" using assms(1) g x l by (simp add: release_pass_def andthen_def attempt_def)
      then show ?thesis using release_step_logged(2)[OF s1 got x(2-4) l] Inr by simp
    qed
  qed
qed

declare releaseCompletedRecovery.simps [simp del]

lemma releases_logged:
  "sound_log (rx_cluster X) c me P (snd s) \<Longrightarrow> sound_log (rx_cluster X) c me P (snd (releaseCompletedRecovery (operations_logged X) a (kube_logged B) c source ticks s))"
proof (induction ticks arbitrary: s)
  case Nil
  obtain r s1 where p: "release_pass (operations_logged X) a (kube_logged B) c source s = (r, s1)"
    by (cases "release_pass (operations_logged X) a (kube_logged B) c source s")
  show ?case using release_pass_logged[OF p Nil] p by (simp add: releaseCompletedRecovery.simps split: sum.split)
next
  case (Cons t ts)
  obtain r s1 where p: "release_pass (operations_logged X) a (kube_logged B) c source s = (r, s1)"
    by (cases "release_pass (operations_logged X) a (kube_logged B) c source s")
  note s1 = release_pass_logged[OF p Cons.prems]
  have "releaseCompletedRecovery (operations_logged X) a (kube_logged B) c source (t # ts) s \<in>
      {s1, releaseCompletedRecovery (operations_logged X) a (kube_logged B) c source ts s1}"
    using p by (subst releaseCompletedRecovery.simps) (simp split: sum.split bool.split)
  then show ?case using s1 Cons.IH[OF s1] by auto
qed

text \<open>The Pods a watch has collected from its events, and the evidence a look at the server gives for them.\<close>

fun watched :: "cluster_env \<Rightarrow> cluster \<Rightarrow> watch_input list \<Rightarrow> (string \<times> string) list \<Rightarrow> (string \<times> string) list" where
  "watched K c [] pods = pods"
| "watched K c (ev # evs) pods = (case receive_event K c ev pods of Lost \<Rightarrow> pods | Wait pods' \<Rightarrow> watched K c evs pods' | Look pods' \<Rightarrow> watched K c evs pods')"

definition termination_shown :: "'w kube \<Rightarrow> kube_types \<Rightarrow> cluster_env \<Rightarrow> cluster \<Rightarrow> watch_input list \<Rightarrow> (string \<times> string) list \<Rightarrow> string \<Rightarrow> string list \<Rightarrow> bool" where
  "termination_shown B T K c evs pods job ids \<longleftrightarrow>
     (\<exists>n w w'. recoveryTermination B T K c (watched K c (take n evs) pods) w = (Inr (Some (job, ids)), w'))"

lemma termination_shown_Cons:
  assumes "termination_shown B T K c evs pods' job ids" "receive_event K c ev pods = Wait pods' \<or> receive_event K c ev pods = Look pods'"
  shows "termination_shown B T K c (ev # evs) pods job ids"
proof -
  obtain n w w' where "recoveryTermination B T K c (watched K c (take n evs) pods') w = (Inr (Some (job, ids)), w')"
    using assms(1) unfolding termination_shown_def by blast
  then have "recoveryTermination B T K c (watched K c (take (Suc n) (ev # evs)) pods) w = (Inr (Some (job, ids)), w')"
    using assms(2) by auto
  then show ?thesis unfolding termination_shown_def by blast
qed

lemma termination_shown_now:
  "receive_event K c ev pods = Look pods' \<Longrightarrow> recoveryTermination B T K c pods' w = (Inr (Some (job, ids)), w') \<Longrightarrow>
   termination_shown B T K c (ev # evs) pods job ids"
  unfolding termination_shown_def by (intro exI[of _ 1] exI[of _ w] exI[of _ w']) simp

lemma observe_logged:
  assumes "sound_log (rx_cluster X) c (ro_ObserverID st) P (snd s)"
    "\<And>job ids. termination_shown (kube_logged B) T (rx_cluster X) c evs pods job ids \<Longrightarrow> P job ids"
  shows "sound_log (rx_cluster X) c (ro_ObserverID st) P (snd (snd (observe_loop (operations_logged X) a (kube_logged B) T c source st ticks evs pods s)))"
  using assms
proof (induction evs arbitrary: pods s)
  case (Cons ev evs)
  show ?case
  proof (cases "receive_event (rx_cluster X) c ev pods")
    case Lost
    then show ?thesis using uncertain_logged[OF _ Cons.prems(1)] by (cases "uncertain (operations_logged X) a (kube_logged B) c st s") auto
  next
    case (Wait p)
    have P: "P job ids" if "termination_shown (kube_logged B) T (rx_cluster X) c evs p job ids" for job ids
      using Cons.prems(2) termination_shown_Cons[OF that] Wait by blast
    show ?thesis using Cons.IH[OF Cons.prems(1) P] Wait by simp
  next
    case (Look p)
    obtain r s1 where t: "try_complete (operations_logged X) a (kube_logged B) T c st p s = (r, s1)"
      by (cases "try_complete (operations_logged X) a (kube_logged B) T c st p s")
    have s1: "sound_log (rx_cluster X) c (ro_ObserverID st) P (snd s1)"
      by (rule try_complete_logged[OF t Cons.prems(1)]) (rule Cons.prems(2)[OF termination_shown_now[OF Look]])
    have P: "P job ids" if "termination_shown (kube_logged B) T (rx_cluster X) c evs p job ids" for job ids
      using Cons.prems(2) termination_shown_Cons[OF that] Look by blast
    show ?thesis using Look t Cons.IH[OF s1 P] uncertain_logged[OF _ s1] releases_logged[OF s1]
      by (cases "uncertain (operations_logged X) a (kube_logged B) c st s1") (auto split: sum.split bool.split)
  qed
qed simp

lemma disown_logged:
  assumes "disown (kube_logged B) (operations_logged X) c ob st s = (r, s')" "sound_log K c me P (snd s)" "GotConfig ob \<in> set (snd s)" "operationFrom K ob c = Inr st"
  shows "sound_log K c me P (snd s') \<and> GotConfig ob \<in> set (snd s') \<and> (r = Inr st' \<longrightarrow> st' = st \<or> \<not> completed_record st')"
proof (cases "ro_State st = ''active'' \<and> ro_ObserverID st \<noteq> rx_process X")
  case False
  then show ?thesis using assms by (auto simp: disown_def ret_def)
next
  case True
  obtain z s1 where w: "writeOperation (kube_logged B) ob (mark_uncertain st) s = (z, s1)" by (cases "writeOperation (kube_logged B) ob (mark_uncertain st) s")
  have s1: "sound_log K c me P (snd s1)" "GotConfig ob \<in> set (snd s1)"
    using write_logged[OF w assms(2-4), of Uncertain] True assms(3) by (auto simp: changed_def)
  have d: "andthen (writeOperation (kube_logged B) ob (mark_uncertain st)) (\<lambda>_. andthen (recoveryWarning (kube_logged B) c ''RetentionBlocked'')
      (\<lambda>_. ret (mark_uncertain st))) s = (r, s')"
    using assms(1) True by (simp add: disown_def)
  show ?thesis
  proof (cases z)
    case (Inl e)
    then show ?thesis using d w s1 by (auto simp: andthen_def attempt_def fail_def)
  next
    case (Inr u)
    obtain y s2 where r: "recoveryWarning (kube_logged B) c ''RetentionBlocked'' s1 = (y, s2)" by (cases "recoveryWarning (kube_logged B) c ''RetentionBlocked'' s1")
    then show ?thesis using d w Inr s1 warning_logged[OF r] by (auto simp: andthen_def attempt_def ret_def completed_record_def mark_uncertain_def)
  qed
qed

lemma resume_release_logged:
  assumes "resume_release (operations_logged X) a (kube_logged B) c ob st s = (r, s')" "sound_log K c me P (snd s)" "GotConfig ob \<in> set (snd s)"
    "completed_record st \<Longrightarrow> operationFrom K ob c = Inr st"
  shows "sound_log K c me P (snd s')"
proof (cases "completed_record st \<and> \<not> ro_LifetimeReleased st")
  case False
  then show ?thesis using assms by (auto simp: resume_release_def Let_def)
next
  case True
  let ?X = "operations_logged X"
  obtain y s1 where q: "rx_repository ?X (om_Namespace (cl_Metadata c)) (rpp_Source (ro_Placement st)) s = (y, s1)"
    by (cases "rx_repository ?X (om_Namespace (cl_Metadata c)) (rpp_Source (ro_Placement st)) s")
  have log: "snd s1 = snd s" using q by (auto simp: operations_logged_def dest: silent_log)
  show ?thesis
  proof (cases "\<exists>source. y = Inr source \<and> Spec_Hash (rx_marshal X) source = rpp_SourceConfigSHA256 (ro_Placement st)")
    case False
    then have "s' = s1" using assms(1) True q by (auto simp: resume_release_def Let_def split: sum.splits)
    then show ?thesis using log assms(2) by simp
  next
    case y: True
    then obtain source where src: "y = Inr source" "Spec_Hash (rx_marshal X) source = rpp_SourceConfigSHA256 (ro_Placement st)" by blast
    obtain u s2 where l: "rx_lifetime ?X c source True s1 = (u, s2)" by (cases "rx_lifetime ?X c source True s1")
    have rel: "sound_log K c me P (snd s2)"
      "u = Inr () \<Longrightarrow> writeOperation (kube_logged B) ob (mark_released st) s2 = (z, s3) \<Longrightarrow> sound_log K c me P (snd s3)" for z s3
      using release_step_logged[OF _ _ assms(4) _ _ l, of me P] assms(2,3) True log by metis+
    obtain z s3 where w: "writeOperation (kube_logged B) ob (mark_released st) s2 = (z, s3)" by (cases "writeOperation (kube_logged B) ob (mark_released st) s2")
    have "s' = s2 \<or> u = Inr () \<and> s' = s3" using assms(1) True q src l w by (auto simp: resume_release_def Let_def split: sum.splits)
    then show ?thesis using rel w by auto
  qed
qed

lemma reconcile_logged:
  assumes "reconcileRecoveryOperation (operations_logged X) a (kube_logged B) c s = (r, s')" "sound_log (rx_cluster X) c me P (snd s)"
  shows "sound_log (rx_cluster X) c me P (snd s')"
proof -
  let ?K = "rx_cluster X" and ?X = "operations_logged X" and ?B = "kube_logged B"
  obtain y s1 where g: "read_operation ?X a ?B c s = (y, s1)" by (cases "read_operation ?X a ?B c s")
  have s1: "sound_log ?K c me P (snd s1)" using read_operation_logged[OF g assms(2)] by blast
  show ?thesis
  proof (cases "owned_recovery c \<and> (\<exists>ob st. y = Inr (ob, st))")
    case False
    then have "s' = s \<or> s' = s1" using assms(1) g by (auto simp: reconcileRecoveryOperation_def split: sum.splits if_splits)
    then show ?thesis using s1 assms(2) by auto
  next
    case True
    then obtain ob st where y: "y = Inr (ob, st)" and own: "owned_recovery c" by blast
    have got: "GotConfig ob \<in> set (snd s1)" "operationFrom ?K ob c = Inr st" using read_operation_logged[OF g assms(2), of ob st] y by auto
    obtain d s2 where d: "disown ?B ?X c ob st s1 = (d, s2)" by (cases "disown ?B ?X c ob st s1")
    note dl = disown_logged[OF d s1 got]
    show ?thesis
    proof (cases d)
      case (Inl e)
      then have "s' = s2" using assms(1) own g y d by (simp add: reconcileRecoveryOperation_def)
      then show ?thesis using dl by blast
    next
      case (Inr st')
      obtain v s3 where rr: "resume_release ?X a ?B c ob st' s2 = (v, s3)" by (cases "resume_release ?X a ?B c ob st' s2")
      have "s' = s3" using assms(1) own g y d Inr rr by (auto simp: reconcileRecoveryOperation_def split: prod.splits)
      then show ?thesis using resume_release_logged[OF rr, of ?K me P] dl[of st'] Inr got(2) by auto
    qed
  qed
qed

lemma get_or_create_logged:
  assumes "get_or_create a (kube_logged B) c op0 s = (r, s')" "sound_log K c me P (snd s)"
  shows "sound_log K c me P (snd s') \<and> (r = Inr ob \<longrightarrow> GotConfig ob \<in> set (snd s'))"
proof -
  let ?B = "kube_logged B" and ?ns = "om_Namespace (cl_Metadata c)"
  let ?new = "owned_object c (operationName c) [(''operation.json'', render (enc_operation op0))] False"
  obtain x s1 where g: "API_Get a ?B ''configmaps'' ?ns (operationName c) s = (x, s1)" by (cases "API_Get a ?B ''configmaps'' ?ns (operationName c) s")
  have s1: "sound_log K c me P (snd s1)" using get_logged[OF g assms(2)] by blast
  show ?thesis
  proof (cases "x = Inr None")
    case False
    then show ?thesis using get_logged[OF g assms(2), of ob] assms(1) g
      by (auto simp: get_or_create_def Let_def andthen_def attempt_def fail_def ret_def split: sum.splits option.splits)
  next
    case True
    obtain y s2 where m: "kb_create ?B ''configmaps'' ?new s1 = (y, s2)" by (cases "kb_create ?B ''configmaps'' ?new s1")
    have s2: "sound_log K c me P (snd s2) \<and> (y = Inr (Some ob) \<longrightarrow> GotConfig ob \<in> set (snd s2))"
      using m s1 by (auto simp: kube_logged_def noted_def got_event_def intro: sound_log.got split: prod.splits sum.splits option.splits)
    show ?thesis
    proof (cases "y = Inr None")
      case False
      then show ?thesis using s2 assms(1) g True m
        by (auto simp: get_or_create_def Let_def andthen_def attempt_def fail_def ret_def split: sum.splits option.splits)
    next
      case y: True
      have "API_Required a ?B ''configmaps'' ?ns (operationName c) s2 = (r, s')"
        using assms(1) g True m y by (simp add: get_or_create_def Let_def andthen_def attempt_def)
      from required_logged[OF this, of K c me P ob] s2 show ?thesis by blast
    qed
  qed
qed

lemma admission_blocked_logged:
  assumes "admission_blocked (kube_logged B) c ob st s = (r, s')" "sound_log K c me P (snd s)" "GotConfig ob \<in> set (snd s)" "operationFrom K ob c = Inr st"
    "ro_State st = ''active''" "ro_ObserverID st = me"
  shows "sound_log K c me P (snd s')"
proof -
  obtain now s1 where n: "kb_now (kube_logged B) s = (now, s1)" by (cases "kb_now (kube_logged B) s")
  have log: "snd s1 = snd s" using n by (auto simp: kube_logged_def dest: silent_log)
  let ?st = "st\<lparr>ro_LastWarningAt := rfc3339_seconds now\<rparr>"
  obtain z s2 where w: "writeOperation (kube_logged B) ob ?st s1 = (z, s2)" by (cases "writeOperation (kube_logged B) ob ?st s1")
  have s2: "sound_log K c me P (snd s2)"
    using write_logged[OF w, of K c me P st "Warned (rfc3339_seconds now)"] assms(2-6) log by (simp add: changed_def)
  obtain y s3 where v: "recoveryWarning (kube_logged B) c ''RepositoryAdmissionBlocked'' s2 = (y, s3)"
    by (cases "recoveryWarning (kube_logged B) c ''RepositoryAdmissionBlocked'' s2")
  have "s' = s1 \<or> s' = s2 \<or> s' = s3"
    using assms(1) n w v by (auto simp: admission_blocked_def attempt_def fail_def ret_def split: if_splits)
  then show ?thesis using s2 log assms(2) warning_logged[OF v] by auto
qed

lemma start_watch_logged: "start_watch (kube_logged B) (operations_logged X) c s = (r, s') \<Longrightarrow> snd s' = snd s"
proof -
  assume a: "start_watch (kube_logged B) (operations_logged X) c s = (r, s')"
  obtain x s1 where l: "kb_list (kube_logged B) ''pods'' (om_Namespace (cl_Metadata c)) (cluster_selector c) [] s = (x, s1)"
    by (cases "kb_list (kube_logged B) ''pods'' (om_Namespace (cl_Metadata c)) (cluster_selector c) [] s")
  then have "snd s1 = snd s" by (auto simp: kube_logged_def dest: silent_log)
  moreover obtain y s2 where v: "rx_watch (operations_logged X) (cluster_selector c) s1 = (y, s2)" by (cases "rx_watch (operations_logged X) (cluster_selector c) s1")
  moreover from v have "snd s2 = snd s1" by (auto simp: operations_logged_def dest: silent_log)
  moreover have "s' = s1 \<or> s' = s2" using a l v
    by (auto simp: start_watch_def attempt_def fail_def split: sum.splits prod.splits list.splits)
  ultimately show "snd s' = snd s" by auto
qed

lemma ensure_logged:
  assumes "ensureRecovery (operations_logged X) a (kube_logged B) c placement targets source (s, ms) = (r, (s', ms'))"
    "sound_log (rx_cluster X) c (rx_process X) P (snd s)"
  shows "sound_log (rx_cluster X) c (rx_process X) P (snd s')"
proof -
  let ?K = "rx_cluster X" and ?X = "operations_logged X" and ?B = "kube_logged B" and ?me = "rx_process X"
  obtain x s1 where g: "get_or_create a ?B c (fresh_operation placement targets ?me) s = (x, s1)"
    by (cases "get_or_create a ?B c (fresh_operation placement targets ?me) s")
  have s1: "sound_log ?K c ?me P (snd s1)" using get_or_create_logged[OF g assms(2)] by blast
  show ?thesis
  proof (cases "\<exists>ob st. x = Inr ob \<and> operationFrom ?K ob c = Inr st \<and> ro_State st = ''active''")
    case False
    then have "s' = s1" using assms(1) g
      by (auto simp: ensureRecovery_def on_world_def andthen_def attempt_def fail_def split: sum.splits if_splits)
    then show ?thesis using s1 by simp
  next
    case True
    then obtain ob st where x: "x = Inr ob" "operationFrom ?K ob c = Inr st" "ro_State st = ''active''" by blast
    have got: "GotConfig ob \<in> set (snd s1)" using get_or_create_logged[OF g assms(2), of ob] x by blast
    obtain z s2 where w: "writeOperation ?B ob (mark_uncertain st) s1 = (z, s2)" by (cases "writeOperation ?B ob (mark_uncertain st) s1")
    have s2: "sound_log ?K c ?me P (snd s2)" using write_logged[OF w s1 got x(2), of Uncertain] x(3) by (simp add: changed_def)
    obtain l s3 where l: "rx_lifetime ?X c source False s1 = (l, s3)" by (cases "rx_lifetime ?X c source False s1")
    have s3: "sound_log ?K c ?me P (snd s3)" "GotConfig ob \<in> set (snd s3)"
      using lifetime_logged[OF l] sound_log.establish[OF s1] got by simp_all
    obtain b s4 where b: "admission_blocked ?B c ob st s3 = (b, s4)" by (cases "admission_blocked ?B c ob st s3")
    have s4: "ro_ObserverID st = ?me \<Longrightarrow> sound_log ?K c ?me P (snd s4)" using admission_blocked_logged[OF b s3 x(2,3)] by simp
    obtain v s5 where v: "start_watch ?B ?X c s3 = (v, s5)" by (cases "start_watch ?B ?X c s3")
    have s5: "sound_log ?K c ?me P (snd s5)" using start_watch_logged[OF v] s3 by simp
    have "s' \<in> {s1, s2, s3, s5} \<or> ro_ObserverID st = ?me \<and> s' = s4"
      using assms(1) g x w l b v
      by (auto simp: ensureRecovery_def on_world_def andthen_def attempt_def fail_def ret_def split: sum.splits if_splits option.splits)
    then show ?thesis using s1 s2 s3 s4 s5 by auto
  qed
qed

section \<open>Properties\<close>

text \<open>C29. A recovery is reported as terminated only with proof. Complete listings of Jobs and then of Pods were read; exactly one listed Job
  belongs to this operation, it is owned by this Cluster, not being deleted, complete and settled; the listed Pods of the operation
  are as many as the watch has observed, and each is the Job's, has the version the watch saw last and has terminated with all its containers;
  exactly one of them succeeded and the others are the failures the Job counts. The result names that Job and these Pods.\<close>

theorem recoveryTermination_complete:
  "case recoveryTermination B T K c observed w of
     (Inr (Some (job, ids)), w') \<Rightarrow> (\<exists>jobs objects w1 j. fetched B ''jobs'' c [] jobs w w1 \<and> fetched B ''pods'' c [] objects w1 w' \<and>
       list_all (\<lambda>ob. kt_job T ob \<noteq> None) jobs \<and> own_jobs T K c jobs = [j] \<and> job = jb_UID j \<and> jb_Owner j = Some (om_UID (cl_Metadata c)) \<and>
       \<not> jb_Deleting j \<and> job_complete (jb_Conditions j) False = Some True \<and> job_settled j \<and>
       (let ps = own_pods T K c objects in
        ids = sort_slice (<) (map pd_UID ps) \<and> length ps = length observed \<and>
        list_all (\<lambda>p. terminatedPod p \<and> pd_Owner p = Some job \<and> map_of observed (pd_UID p) = Some (pd_ResourceVersion p)) ps \<and>
        length (filter (\<lambda>p. pd_Phase p = ''Succeeded'') ps) = 1 \<and> int (length (filter (\<lambda>p. pd_Phase p \<noteq> ''Succeeded'') ps)) = jb_Failed j))
   | _ \<Rightarrow> True"
proof (cases "\<exists>job ids. fst (recoveryTermination B T K c observed w) = Inr (Some (job, ids))")
  case False
  then show ?thesis by (auto split: prod.split sum.split option.split)
next
  case True
  then obtain job ids w' where r: "recoveryTermination B T K c observed w = (Inr (Some (job, ids)), w')" by (metis prod.collapse)
  obtain j w1 where v: "visit_pages B ''jobs'' c (find_job T K c) [] 0 None w = (Inr (Some j), w1)"
    and jc: "job_complete (jb_Conditions j) False = Some True" "job_settled j" and p: "count_pods B T K c j observed w1 = (Inr (Some (job, ids)), w')"
    using r by (auto simp: recoveryTermination_def visitRecoveryObjects_def ok_runs split: if_splits)
  from visit_pages_fetched[OF v] obtain jobs where jobs: "fetched B ''jobs'' c [] jobs w w1" "fold_res (find_job T K c) jobs None = Inr (Some j)" by blast
  note one = find_job_fold[OF jobs(2), simplified]
  from p obtain objects where ps: "fetched B ''pods'' c [] objects w1 w'" "job = jb_UID j" "ids = sort_slice (<) (map pd_UID (own_pods T K c objects))"
    "length (own_pods T K c objects) = length observed"
    "list_all (\<lambda>p. terminatedPod p \<and> pd_Owner p = Some (jb_UID j) \<and> map_of observed (pd_UID p) = Some (pd_ResourceVersion p)) (own_pods T K c objects)"
    "length (filter (\<lambda>p. pd_Phase p = ''Succeeded'') (own_pods T K c objects)) = 1"
    "int (length (filter (\<lambda>p. pd_Phase p \<noteq> ''Succeeded'') (own_pods T K c objects))) = jb_Failed j" by (rule count_pods_proved)
  show ?thesis unfolding r prod.case sum.case option.case Let_def
    by (intro exI[of _ jobs] exI[of _ objects] exI[of _ w1] exI[of _ j]) (use jobs(1) ps one jc in auto)
qed

text \<open>C11. Watching, reconciling and creating a recovery operation only ever make sound logs of calls, whatever the API server, the repository
  and the watch answer: each update of the record is one of four changes of a record read before (an active one becomes uncertain; its own observer notes a
  warning, or completes it; a completed one is marked released), the source's lifetime hold is asked back only after a completed
  and unreleased record was read, and a record is marked released only after the hold's release was acknowledged. Only the watch completes a record, with
  a termination reported for the Pods it had collected up to some point of its stream; reconciling and creating never do.\<close>

theorem recovery_log_sound:
  "sound_log (rx_cluster X) c (ro_ObserverID st) (termination_shown (kube_logged B) T (rx_cluster X) c evs [])
     (snd (snd (observe_loop (operations_logged X) a (kube_logged B) T c source st ticks evs [] (w, [])))) \<and>
   sound_log (rx_cluster X) c me (\<lambda>_ _. False) (snd (snd (reconcileRecoveryOperation (operations_logged X) a (kube_logged B) c (w, [])))) \<and>
   sound_log (rx_cluster X) c (rx_process X) (\<lambda>_ _. False)
     (snd (fst (snd (ensureRecovery (operations_logged X) a (kube_logged B) c placement targets source ((w, []), ms)))))"
proof (intro conjI)
  show "sound_log (rx_cluster X) c (ro_ObserverID st) (termination_shown (kube_logged B) T (rx_cluster X) c evs [])
     (snd (snd (observe_loop (operations_logged X) a (kube_logged B) T c source st ticks evs [] (w, []))))"
    by (rule observe_logged) (simp_all add: sound_log.empty)
  show "sound_log (rx_cluster X) c me (\<lambda>_ _. False) (snd (snd (reconcileRecoveryOperation (operations_logged X) a (kube_logged B) c (w, []))))"
    by (rule reconcile_logged[OF surjective_pairing]) (simp add: sound_log.empty)
  show "sound_log (rx_cluster X) c (rx_process X) (\<lambda>_ _. False)
     (snd (fst (snd (ensureRecovery (operations_logged X) a (kube_logged B) c placement targets source ((w, []), ms)))))"
    by (rule ensure_logged[where s = "(w, [])" and ms = ms and r = "fst (ensureRecovery (operations_logged X) a (kube_logged B) c placement targets source ((w, []), ms))"
          and ms' = "snd (snd (ensureRecovery (operations_logged X) a (kube_logged B) c placement targets source ((w, []), ms)))"])
      (simp_all add: sound_log.empty)
qed

end
