(* ===== verification/Spec2Isabelle.thy ===== *)
theory Spec2Isabelle
  imports Retention_Properties Publication_Properties Recovery_Properties Wal_Properties Retention_Run_Properties
    Guard_Properties Writer_Properties Config_Properties Pg_Properties Plugin_Properties Plugin_Protocol
begin

text \<open>
  A verification development for \<open>cnpg_backup\<close>, a CloudNativePG plugin that writes physical PostgreSQL backups and WAL to
  S3-compatible storage and restores clusters from them (Go, below \<open>src/internal/\<close>).

  \<^bold>\<open>The program.\<close> A backup is captured by native tools into spool files (\<open>postgres\<close>), published as payloads and one commit
  document below an attempt prefix (\<open>repository\<close>), through a storage adapter on the S3 SDK (\<open>s3store\<close>). WAL files are archived
  one by one (\<open>wal\<close>). Every long operation first becomes a holder of the repository's admission gate, one document changed only
  by conditional writes; garbage collection owns the same gate exclusively. A retention batch (\<open>retention\<close>) takes the inventory of
  backups and WAL, decides what to keep, and lets the collection retire the rest. A restore resolves a plan against the catalog,
  materializes it with native tools, and runs below a recovery guard (\<open>recoveryguard\<close>) that owns the target volumes for as long as any
  process of the restore lives. Configuration and credentials come from projected snapshots (\<open>configuration\<close>).

  \<^bold>\<open>Conventions.\<close> A struct is a record, an error a value of \<open>err\<close>, a fallible pure function returns a sum. Code with effects is an
  action \<open>('w, 'a) act\<close>, a function of a world \<open>'w\<close> that returns an error or a value and the new world; \<open>andthen\<close> and \<open>attempt\<close> of
  \<open>Storage\<close> compose them in the order of the source, early returns and deferred calls included. What is not below \<open>src/\<close> (the SDK,
  \<open>net/http\<close>, \<open>crypto/x509\<close>, Kubernetes' validation, the kernel, native tools) is a field of a record of operations over
  the world and so arbitrary. Text and files are byte strings; SHA-256, JSON, RFC 3339 times, paths and number formats are computed.
  LSNs and block positions are \<open>64 word\<close>s; other machine integers are \<open>int\<close>s with the wrap-around written where it can happen.

  \<^bold>\<open>Theories and what they show.\<close>

  \<^item> \<open>Prelude, Errors, Go_Text, Go_Time, Go_Digest, Go_Path, Json, Strict\<close>: shared lemmas; error values and their classification
    (\<open>s3store/errors.go\<close>); the parts of the Go library the program uses; strict decoding (\<open>repository/schema.go, unicode.go\<close>).
    Printing and reading are inverse for every value the program writes.
  \<^item> \<open>Storage, Traces\<close>: the storage interface with its combinators, and the calculus of recorded calls: a world that logs its
    calls, with rules that compute from the code which calls an action makes and in which order.
  \<^item> \<open>Schema, Schema_Properties\<close> (\<open>repository/schema.go\<close>): documents and validators. A valid commit survives storage byte by byte
    and lists exactly its archives.
  \<^item> \<open>Gate, Gate_Protocol, Gate_Properties\<close> (\<open>repository/gate.go, repository.go\<close>): one process's read-decide-write rounds, and the step
    relation of any number of processes with delayed writes. Acknowledged admissions are durable and exclude a collection.
  \<^item> \<open>Publication, Publication_Order, Publication_Properties\<close> (\<open>repository/publish.go, chain_input.go\<close>): the commit document comes last and an
    ambiguous outcome keeps the gate.
  \<^item> \<open>Catalog, Writer, Writer_Properties\<close> (\<open>catalog.go, inventory.go, differential.go, backup_history.go, writer.go\<close>): scans of the backups and the opening of a
    repository; the storage contract as a locale, interpreted on the adapter.
  \<^item> \<open>Wal_Names, Recovery_Plan, Recovery, Recovery_Files, Recovery_Lemmas, Recovery_Archive, Recovery_Properties\<close> (\<open>plan.go, recovery.go, coverage.go\<close>): plans cover the log
    without a gap, every archive segment they need exists, plan files are replaced atomically.
  \<^item> \<open>Collection, Collection_Order, Collection_Properties\<close> (\<open>gc.go, gc_workspace.go, retention_inventory.go\<close>): nothing is destroyed before a
    plan is on record whose victims the store has confirmed one by one.
  \<^item> \<open>Retention_Planner, Retention_Replay, Retention_Properties, Retention_Run, Retention_Order, Retention_Run_Properties\<close> (\<open>retention/\<close>): the planner keeps
    what replay of a kept backup reads; a batch, over the inventory the store answered in the
    same run, plans no victim that a kept backup needs.
  \<^item> \<open>Wal_Files, Wal_Order, Wal_Properties\<close> (\<open>wal/wal.go\<close>): an acknowledged archive call has verified the stored bytes; a restore is
    atomic and leaves only bytes verified against the store.
  \<^item> \<open>Guard_Config, Guard_Admission, Guard_Session, Guard_Locks, Guard_Protocol, Guard_Supervision, Guard_Order, Guard_Properties\<close>
    (\<open>recoveryguard/\<close>): the admission of a recovery sidecar as a step relation over every interleaving, refined to three phases; locks and
    markers of the target volumes; the supervision loop.
  \<^item> \<open>Store_Text, Store_Objects, Store_Multipart, Store_Transport, Store_Order, Store_Upload, Store_Wire, Store_Properties\<close>
    (\<open>s3store/\<close>): keys, transfers, multipart workers under every schedule, retries. Mutations are sent once, downloads are verified.
  \<^item> \<open>Config_Spec, Config_Snapshot, Config_Capacity, Config_Properties\<close> (\<open>configuration/\<close>): one projection generation per snapshot,
    current trust for each call, room for each budget, a validated document the adapter takes as it is.
  \<^item> \<open>Pg_Native, Pg_Archive, Pg_Control, Pg_Capacity, Pg_Capture, Pg_Backup, Pg_Host, Pg_Process, Pg_Restore, Pg_Materialize, Pg_Order,
    Pg_Tools, Pg_Properties\<close> (\<open>postgres/\<close>): captures, archives, native commands and restores. Compression round-trips, commands are drained
    before a call returns, the tools of a restore run in a fixed order, and data is replaced only after a verified copy.
  \<^item> \<open>Plugin_Cluster, Plugin_Wal, Plugin_Properties\<close> (\<open>cnpgi/cluster.go, capacity.go, collisions.go, retention_workspace.go, recovery_plan.go,
    wal.go, recovery_wal.go, wal_fetch.go\<close>): the Cluster definition, the plan of a restore and the WAL callbacks. The reduced definition kept
    beside a plan stands for the original one; PostgreSQL is told that a file does not exist only when recovery can do without it.
  \<^item> \<open>Plugin_Kube, Plugin_Operation, Plugin_Protocol\<close> (\<open>cnpgi/kubernetes.go, repository_snapshot.go, version.go, recovery_operation.go,
    recovery_reconcile.go\<close>): the manager's access to Kubernetes and the durable record of a recovery. Its termination is reported only
    with proof, and its updates form a sound log.
  \<^bold>\<open>Bounds and fuel.\<close> Loops are structural recursions or \<open>function\<close>s with a termination proof where the data bounds them. The
  planner's segment loop runs on fuel, the number of segments below the end; \<open>Plan_terminates\<close> shows it is never used up. Polling
  and supervision loops run over the list of the events they see; listings and retries carry the bound the code has itself.

  \<^bold>\<open>Not modelled.\<close> Of the plugin (\<open>cnpgi\<close>), the backup, restore and retention services, pod placement, metrics and the gRPC servers, which
  wire the modelled parts together, and the polling loop \<open>runRecoveryOperations\<close>; the command line (\<open>cmd\<close>); the test fixtures and
  build checks below \<open>hack\<close>. Time passes only where the code reads a clock, and the results of logging are not kept.
\<close>

end
